(* ===== verification/Runtime_Base.thy ===== *)
theory Runtime_Base
  imports Main "HOL-Library.Word"
begin

text \<open>
  The prelude of the development: what every pallet of the runtime shares.

  \<^item> dispatch results and errors (\<open>DispatchResult\<close>, \<open>ensure!\<close>, the question-mark operator
    and \<open>ok_or\<close>), origins and the read-only block environment of a dispatch;
  \<^item> the unsigned machine arithmetic of Rust (\<open>checked_*\<close>, \<open>saturating_*\<close>) at an explicit width;
  \<^item> storage maps and the sum over a finitely supported storage map;
  \<^item> the collections \<open>ok_simps\<close> and \<open>err_simps\<close>, which take a handler's successful (failing)
    result apart into its guards.

  Balances are \<open>u128\<close> and block numbers \<open>u32\<close>, as \<^verbatim>\<open>runtime/src/lib.rs\<close> fixes them. Numbers are
  natural numbers with the width written out wherever an operation can reach it; the generic
  \<open>T::AccountId\<close> is only compared and hashed by the pallets, so accounts are named by numbers.
\<close>

section \<open>Results, errors, origins\<close>

type_synonym account = nat
type_synonym balance = nat
type_synonym byte = "8 word"

datatype ('a, 'e) result = Ok 'a | Err 'e

text \<open>
  A dispatch error is a bad origin, an error value of a third-party pallet (opaque, numbered by that
  pallet), a panic (the WASM trap discards the call's effects), one of the pallet's own errors, or a
  \<open>DispatchError::Other\<close> with its message.
\<close>

datatype 'm dispatch_error = BadOrigin | ThirdParty nat | Panic | Module 'm | Other string

datatype origin = Root | Signed account | Unsigned | Custom nat

text \<open>What a dispatchable reads of \<open>frame_system\<close> while it runs.\<close>

record env =
  block_number :: nat
  extrinsic_index :: "nat option"

named_theorems ok_simps "a handler returned Ok: its guards and its effect"
named_theorems err_simps "a handler returned Err: the guard that failed"

definition ensure :: "bool \<Rightarrow> 'e \<Rightarrow> ('a, 'e) result \<Rightarrow> ('a, 'e) result" where
  "ensure c e k = (if c then k else Err e)"

definition and_then :: "('a, 'e) result \<Rightarrow> ('a \<Rightarrow> ('b, 'e) result) \<Rightarrow> ('b, 'e) result" where
  "and_then r f = (case r of Ok a \<Rightarrow> f a | Err e \<Rightarrow> Err e)"

definition map_err :: "('e \<Rightarrow> 'f) \<Rightarrow> ('a, 'e) result \<Rightarrow> ('a, 'f) result" where
  "map_err g r = (case r of Ok a \<Rightarrow> Ok a | Err e \<Rightarrow> Err (g e))"

definition ok_or :: "'a option \<Rightarrow> 'e \<Rightarrow> ('a \<Rightarrow> ('b, 'e) result) \<Rightarrow> ('b, 'e) result" where
  "ok_or x e f = (case x of None \<Rightarrow> Err e | Some a \<Rightarrow> f a)"

fun ensure_signed :: "origin \<Rightarrow> (account, 'm dispatch_error) result" where
  "ensure_signed (Signed a) = Ok a"
| "ensure_signed _ = Err BadOrigin"

fun ensure_root :: "origin \<Rightarrow> (unit, 'm dispatch_error) result" where
  "ensure_root Root = Ok ()"
| "ensure_root _ = Err BadOrigin"

lemma ensure_Ok [ok_simps]: "ensure c e k = Ok x \<longleftrightarrow> c \<and> k = Ok x"
  by (simp add: ensure_def)

lemma ensure_Err [err_simps]: "ensure c e k = Err x \<longleftrightarrow> (\<not> c \<and> x = e) \<or> (c \<and> k = Err x)"
  by (auto simp: ensure_def)

lemma ensure_simps [simp]: "ensure True e k = k" "ensure False e k = Err e"
  by (simp_all add: ensure_def)

lemma and_then_Ok [ok_simps]: "and_then r f = Ok x \<longleftrightarrow> (\<exists>a. r = Ok a \<and> f a = Ok x)"
  by (cases r) (auto simp: and_then_def)

lemma and_then_Err [err_simps]:
  "and_then r f = Err x \<longleftrightarrow> r = Err x \<or> (\<exists>a. r = Ok a \<and> f a = Err x)"
  by (cases r) (auto simp: and_then_def)

lemma and_then_simps [simp]: "and_then (Ok a) f = f a" "and_then (Err e) f = Err e"
  by (simp_all add: and_then_def)

lemma map_err_Ok [ok_simps]: "map_err g r = Ok x \<longleftrightarrow> r = Ok x"
  by (cases r) (auto simp: map_err_def)

lemma map_err_Err [err_simps]: "map_err g r = Err x \<longleftrightarrow> (\<exists>e. r = Err e \<and> x = g e)"
  by (cases r) (auto simp: map_err_def)

lemma map_err_simps [simp]: "map_err g (Ok a) = Ok a" "map_err g (Err e) = Err (g e)"
  by (simp_all add: map_err_def)

lemma ok_or_Ok [ok_simps]: "ok_or x e f = Ok y \<longleftrightarrow> (\<exists>a. x = Some a \<and> f a = Ok y)"
  by (cases x) (auto simp: ok_or_def)

lemma ok_or_Err [err_simps]:
  "ok_or x e f = Err y \<longleftrightarrow> (x = None \<and> y = e) \<or> (\<exists>a. x = Some a \<and> f a = Err y)"
  by (cases x) (auto simp: ok_or_def)

lemma ok_or_simps [simp]: "ok_or None e f = Err e" "ok_or (Some a) e f = f a"
  by (simp_all add: ok_or_def)

lemma ensure_signed_Ok [ok_simps]: "ensure_signed og = Ok a \<longleftrightarrow> og = Signed a"
  by (cases og) auto

lemma ensure_signed_Err [err_simps]:
  "ensure_signed og = Err x \<longleftrightarrow> x = BadOrigin \<and> (\<forall>a. og \<noteq> Signed a)"
  by (cases og) auto

lemma ensure_root_Ok [ok_simps]: "ensure_root og = Ok u \<longleftrightarrow> og = Root"
  by (cases og) auto

lemma ensure_root_Err [err_simps]: "ensure_root og = Err x \<longleftrightarrow> x = BadOrigin \<and> og \<noteq> Root"
  by (cases og) auto

text \<open>Byte string literals (\<open>b"..."\<close>) and \<open>H256\<close> hashes, 32 bytes.\<close>

type_synonym h256 = "byte list"

definition bytes :: "string \<Rightarrow> byte list" where
  "bytes s = map of_char s"

lemma length_bytes [simp]: "length (bytes s) = length s"
  by (simp add: bytes_def)

section \<open>Unsigned machine arithmetic\<close>

text \<open>
  \<open>sat_add w\<close>, \<open>sat_mul w\<close>: Rust's \<open>saturating_add\<close>, \<open>saturating_mul\<close> at width \<open>w\<close>;
  \<open>saturating_sub\<close> is subtraction on \<open>nat\<close>, which stops at 0 as well.
\<close>

definition umax :: "nat \<Rightarrow> nat" where
  "umax w = 2 ^ w - 1"

definition sat_add :: "nat \<Rightarrow> nat \<Rightarrow> nat \<Rightarrow> nat" where
  "sat_add w a b = min (a + b) (umax w)"

definition sat_mul :: "nat \<Rightarrow> nat \<Rightarrow> nat \<Rightarrow> nat" where
  "sat_mul w a b = min (a * b) (umax w)"

definition sat_sub :: "nat \<Rightarrow> nat \<Rightarrow> nat" where
  "sat_sub a b = a - b"

definition checked_add :: "nat \<Rightarrow> nat \<Rightarrow> nat \<Rightarrow> nat option" where
  "checked_add w a b = (if a + b \<le> umax w then Some (a + b) else None)"

definition checked_sub :: "nat \<Rightarrow> nat \<Rightarrow> nat option" where
  "checked_sub a b = (if b \<le> a then Some (a - b) else None)"

definition checked_mul :: "nat \<Rightarrow> nat \<Rightarrow> nat \<Rightarrow> nat option" where
  "checked_mul w a b = (if a * b \<le> umax w then Some (a * b) else None)"

definition checked_div :: "nat \<Rightarrow> nat \<Rightarrow> nat option" where
  "checked_div a b = (if b = 0 then None else Some (a div b))"

lemmas checked_defs = checked_add_def checked_sub_def checked_mul_def checked_div_def

lemma sat_add_exact: "a + b \<le> umax w \<Longrightarrow> sat_add w a b = a + b"
  by (simp add: sat_add_def)

lemma sat_add_le: "sat_add w a b \<le> a + b"
  by (simp add: sat_add_def)

lemma sat_add_ge: "a \<le> umax w \<Longrightarrow> a \<le> sat_add w a b"
  by (simp add: sat_add_def)

lemma sat_add_below: "sat_add w a b < umax w \<Longrightarrow> sat_add w a b = a + b"
  by (simp add: sat_add_def)

lemma sat_add_umax: "sat_add w a b \<le> umax w"
  by (simp add: sat_add_def)

lemma sat_mul_exact: "a * b \<le> umax w \<Longrightarrow> sat_mul w a b = a * b"
  by (simp add: sat_mul_def)

section \<open>Sums over finitely supported storage\<close>

text \<open>
  A \<open>StorageMap\<close> with \<open>ValueQuery\<close> is a total function (the default where nothing is stored),
  one with \<open>OptionQuery\<close> a partial map. \<open>tsum\<close> adds up a total storage map of balances.
\<close>

definition finsupp :: "('k \<Rightarrow> nat) \<Rightarrow> bool" where
  "finsupp f \<longleftrightarrow> finite {k. f k \<noteq> 0}"

definition tsum :: "('k \<Rightarrow> nat) \<Rightarrow> nat" where
  "tsum f = (\<Sum>k\<in>{k. f k \<noteq> 0}. f k)"

lemma tsum_superset: "finite A \<Longrightarrow> {k. f k \<noteq> 0} \<subseteq> A \<Longrightarrow> tsum f = sum f A"
  unfolding tsum_def by (rule sum.mono_neutral_left) auto

lemma finsupp_zero [simp]: "finsupp (\<lambda>_. 0)"
  by (simp add: finsupp_def)

lemma tsum_zero [simp]: "tsum (\<lambda>_. 0) = 0"
  by (simp add: tsum_def)

lemma finsupp_upd [simp]: "finsupp (f(k := v)) \<longleftrightarrow> finsupp f"
proof -
  have "{x. (f(k := v)) x \<noteq> 0} \<subseteq> insert k {x. f x \<noteq> 0}"
    and "{x. f x \<noteq> 0} \<subseteq> insert k {x. (f(k := v)) x \<noteq> 0}" by auto
  then show ?thesis
    unfolding finsupp_def by (meson finite_insert rev_finite_subset)
qed

lemma tsum_upd: "finsupp f \<Longrightarrow> tsum (f(k := v)) + f k = tsum f + v"
proof -
  assume fin: "finsupp f"
  let ?A = "insert k {x. f x \<noteq> 0}"
  have A: "finite ?A" using fin by (simp add: finsupp_def)
  have "tsum (f(k := v)) = sum (f(k := v)) ?A"
    by (rule tsum_superset[OF A]) auto
  also have "\<dots> = v + sum f (?A - {k})"
    by (subst sum.remove[OF A, of k]) auto
  finally have new: "tsum (f(k := v)) = v + sum f (?A - {k})" .
  have "tsum f = sum f ?A" by (rule tsum_superset[OF A]) auto
  also have "\<dots> = f k + sum f (?A - {k})"
    by (subst sum.remove[OF A, of k]) auto
  finally show ?thesis using new by simp
qed

lemma tsum_upd_zero: "finsupp f \<Longrightarrow> f k = 0 \<Longrightarrow> tsum (f(k := v)) = tsum f + v"
  using tsum_upd[of f k v] by simp

lemma tsum_member: "finsupp f \<Longrightarrow> f k \<le> tsum f"
proof -
  assume "finsupp f"
  then have "tsum (f(k := 0)) + f k = tsum f + 0" by (rule tsum_upd)
  then show ?thesis by simp
qed

lemma tsum_mono_upd: "finsupp f \<Longrightarrow> v \<le> f k \<Longrightarrow> tsum (f(k := v)) = tsum f - (f k - v)"
  using tsum_upd[of f k v] tsum_member[of f k] by simp

text \<open>Rows and columns of a doubly indexed storage map.\<close>

lemma row_upd: "(\<lambda>i. (f((a, j) := v)) (b, i)) = (if b = a then (\<lambda>i. f (a, i))(j := v) else (\<lambda>i. f (b, i)))"
  by auto

lemma col_upd: "(\<lambda>b. (f((a, j) := v)) (b, i)) = (if i = j then (\<lambda>b. f (b, j))(a := v) else (\<lambda>b. f (b, i)))"
  by auto

lemma finsupp_row: "finsupp f \<Longrightarrow> finsupp (\<lambda>i. f (a, i))"
proof -
  assume "finsupp f"
  then have "finite (snd ` {k. f k \<noteq> 0})" by (simp add: finsupp_def)
  moreover have "{i. f (a, i) \<noteq> 0} \<subseteq> snd ` {k. f k \<noteq> 0}" by force
  ultimately show ?thesis unfolding finsupp_def by (rule rev_finite_subset)
qed

lemma finsupp_col: "finsupp f \<Longrightarrow> finsupp (\<lambda>b. f (b, i))"
proof -
  assume "finsupp f"
  then have "finite (fst ` {k. f k \<noteq> 0})" by (simp add: finsupp_def)
  moreover have "{b. f (b, i) \<noteq> 0} \<subseteq> fst ` {k. f k \<noteq> 0}" by force
  ultimately show ?thesis unfolding finsupp_def by (rule rev_finite_subset)
qed

end
