(* ===== verification/Pallet_Interfaces.thy ===== *)
theory Pallet_Interfaces
  imports Runtime_Base
begin

text \<open>
  The contracts the pallets share, stated once over an abstract state and instantiated by every
  pallet on its own storage:

  \<^item> \<open>pallet_machine\<close>: dispatchables run transactionally and keep an invariant, so it holds in every
    state a chain of dispatches (and of foreign changes of shared state) reaches;
  \<^item> \<open>id_registry\<close>: records stored under an auto-incremented identifier are never overwritten;
  \<^item> \<open>lifecycle\<close>: a status field moves along the edges of its state machine only.
\<close>

section \<open>Executing dispatchables\<close>

text \<open>
  FRAME runs each extrinsic in a storage transaction: an error (or a panic) leaves the state as it was.
\<close>

definition execute :: "('c \<Rightarrow> 's \<Rightarrow> ('s, 'e) result) \<Rightarrow> 'c \<Rightarrow> 's \<Rightarrow> 's" where
  "execute dispatch c s = (case dispatch c s of Ok s' \<Rightarrow> s' | Err _ \<Rightarrow> s)"

fun run :: "('c \<Rightarrow> 's \<Rightarrow> ('s, 'e) result) \<Rightarrow> 'c list \<Rightarrow> 's \<Rightarrow> 's" where
  "run dispatch [] s = s"
| "run dispatch (c # cs) s = run dispatch cs (execute dispatch c s)"

lemma run_append: "run d (xs @ ys) s = run d ys (run d xs s)"
  by (induction xs arbitrary: s) auto

text \<open>
  The states a pallet can reach: its own successful dispatches, interleaved with steps of the
  environment (\<open>foreign s t\<close>: another pallet changed the shared state).
\<close>

inductive reachable :: "('c \<Rightarrow> 's \<Rightarrow> ('s, 'e) result) \<Rightarrow> ('s \<Rightarrow> 's \<Rightarrow> bool) \<Rightarrow> 's \<Rightarrow> 's \<Rightarrow> bool"
  for dispatch foreign s0 where
  start: "reachable dispatch foreign s0 s0"
| call: "reachable dispatch foreign s0 s \<Longrightarrow> dispatch c s = Ok t \<Longrightarrow> reachable dispatch foreign s0 t"
| other: "reachable dispatch foreign s0 s \<Longrightarrow> foreign s t \<Longrightarrow> reachable dispatch foreign s0 t"

lemma reachable_execute:
  "reachable d f s0 s \<Longrightarrow> reachable d f s0 (execute d c s)"
  by (cases "d c s") (auto simp: execute_def intro: reachable.call)

lemma reachable_run: "reachable d f s0 s \<Longrightarrow> reachable d f s0 (run d cs s)"
  by (induction cs arbitrary: s) (auto intro: reachable_execute)

text \<open>One step of a pallet and its surroundings; the reachable states are those its steps reach.\<close>

definition machine_step :: "('c \<Rightarrow> 's \<Rightarrow> ('s, 'e) result) \<Rightarrow> ('s \<Rightarrow> 's \<Rightarrow> bool) \<Rightarrow> 's \<Rightarrow> 's \<Rightarrow> bool" where
  "machine_step dispatch foreign s t \<longleftrightarrow> (\<exists>c. dispatch c s = Ok t) \<or> foreign s t"

lemma reachable_iff_steps: "reachable d f s0 s \<longleftrightarrow> (machine_step d f)\<^sup>*\<^sup>* s0 s"
proof
  show "reachable d f s0 s \<Longrightarrow> (machine_step d f)\<^sup>*\<^sup>* s0 s"
    by (induction rule: reachable.induct) (auto simp: machine_step_def intro: rtranclp.rtrancl_into_rtrancl)
  show "(machine_step d f)\<^sup>*\<^sup>* s0 s \<Longrightarrow> reachable d f s0 s"
    by (induction rule: rtranclp_induct) (auto simp: machine_step_def intro: reachable.intros)
qed

locale pallet_machine =
  fixes dispatch :: "'c \<Rightarrow> 's \<Rightarrow> ('s, 'e) result"
    and foreign :: "'s \<Rightarrow> 's \<Rightarrow> bool"
    and inv :: "'s \<Rightarrow> bool"
  assumes dispatch_inv: "inv s \<Longrightarrow> dispatch c s = Ok t \<Longrightarrow> inv t"
    and foreign_inv: "inv s \<Longrightarrow> foreign s t \<Longrightarrow> inv t"
begin

lemma execute_inv: "inv s \<Longrightarrow> inv (execute dispatch c s)"
  by (cases "dispatch c s") (auto simp: execute_def intro: dispatch_inv)

lemma run_inv: "inv s \<Longrightarrow> inv (run dispatch cs s)"
  by (induction cs arbitrary: s) (auto intro: execute_inv)

lemma reachable_inv: "reachable dispatch foreign s0 s \<Longrightarrow> inv s0 \<Longrightarrow> inv s"
  by (induction rule: reachable.induct) (auto intro: dispatch_inv foreign_inv)

end

section \<open>Auto-incremented identifiers\<close>

text \<open>
  \<open>next s\<close> is a \<open>u32\<close> counter advanced with \<open>saturating_add(1)\<close>; a step either leaves the keys of
  the store and the counter alone or allocates \<open>next s\<close>. While the counter has not reached
  \<open>u32::MAX\<close>, identifiers below it are in use at most, and a stored key stays stored.
\<close>

locale id_registry =
  fixes next_id :: "'s \<Rightarrow> nat"
    and store :: "'s \<Rightarrow> nat \<Rightarrow> 'v option"
    and step :: "'s \<Rightarrow> 's \<Rightarrow> bool"
  assumes alloc: "step s t \<Longrightarrow>
      (next_id t = next_id s \<and> dom (store t) = dom (store s))
    \<or> (next_id t = sat_add 32 (next_id s) 1 \<and> dom (store t) = insert (next_id s) (dom (store s)))"
begin

lemma next_mono: "step s t \<Longrightarrow> next_id s \<le> umax 32 \<Longrightarrow> next_id s \<le> next_id t \<and> next_id t \<le> umax 32"
  using alloc[of s t] by (auto simp: sat_add_def)

lemma dom_mono: "step s t \<Longrightarrow> dom (store s) \<subseteq> dom (store t)"
  using alloc[of s t] by auto

lemma ids_below_step:
  assumes "step s t" and "next_id s < umax 32" and "\<forall>k\<in>dom (store s). k < next_id s"
  shows "\<forall>k\<in>dom (store t). k < next_id t"
proof
  fix k assume k: "k \<in> dom (store t)"
  show "k < next_id t"
    using alloc[OF assms(1)]
  proof
    assume "next_id t = next_id s \<and> dom (store t) = dom (store s)"
    with k assms(3) show ?thesis by simp
  next
    assume new: "next_id t = sat_add 32 (next_id s) 1 \<and> dom (store t) = insert (next_id s) (dom (store s))"
    then have "next_id t = Suc (next_id s)" using assms(2) by (simp add: sat_add_def)
    moreover have "k = next_id s \<or> k < next_id s" using k new assms(3) by blast
    ultimately show ?thesis by auto
  qed
qed

lemma fresh: "\<forall>k\<in>dom (store s). k < next_id s \<Longrightarrow> store s (next_id s) = None"
  by (cases "store s (next_id s)") (auto simp: dom_def)

lemma steps_mono:
  assumes "step\<^sup>*\<^sup>* s t" and "next_id s \<le> umax 32"
  shows "next_id s \<le> next_id t \<and> next_id t \<le> umax 32 \<and> dom (store s) \<subseteq> dom (store t)"
  using assms
proof (induction rule: rtranclp_induct)
  case base
  then show ?case by simp
next
  case (step t u)
  then show ?case
    using next_mono[OF step.hyps(2)] dom_mono[OF step.hyps(2)] by (meson order_trans)
qed

end

section \<open>Status lifecycles\<close>

text \<open>
  The status of a record moves along \<open>edge\<close> in every step, so over a run it stays within the
  reflexive-transitive closure, and a status without outgoing edges is final.
\<close>

locale lifecycle =
  fixes status :: "'s \<Rightarrow> 'k \<Rightarrow> 'st option"
    and edge :: "'st \<Rightarrow> 'st \<Rightarrow> bool"
    and step :: "'s \<Rightarrow> 's \<Rightarrow> bool"
  assumes step_edge: "step s t \<Longrightarrow> status s k = Some a \<Longrightarrow> status t k \<noteq> Some a \<Longrightarrow>
      \<exists>b. status t k = Some b \<and> edge a b"
begin

lemma steps_edges:
  assumes "step\<^sup>*\<^sup>* s t" and "status s k = Some a"
  shows "\<exists>b. status t k = Some b \<and> edge\<^sup>*\<^sup>* a b"
  using assms
proof (induction rule: rtranclp_induct)
  case base
  then show ?case by blast
next
  case (step t u)
  then obtain b where b: "status t k = Some b" "edge\<^sup>*\<^sup>* a b" by blast
  show ?case
  proof (cases "status u k = Some b")
    case True
    with b show ?thesis by blast
  next
    case False
    with step_edge[OF step.hyps(2) b(1)] obtain c where "status u k = Some c" "edge b c" by blast
    with b(2) show ?thesis by (meson rtranclp.rtrancl_into_rtrancl)
  qed
qed

lemma final:
  assumes "step\<^sup>*\<^sup>* s t" and "status s k = Some a" and "\<And>b. \<not> edge a b"
  shows "status t k = Some a"
proof -
  obtain b where b: "status t k = Some b" "edge\<^sup>*\<^sup>* a b"
    using steps_edges[OF assms(1,2)] by blast
  from b(2) have "b = a"
    by (cases rule: converse_rtranclpE) (use assms(3) in auto)
  with b(1) show ?thesis by simp
qed

end

section \<open>Wholesale credit\<close>

text \<open>
  What the central bank promises an operational bank: a credit moves capacity from the pool into the
  borrower's debt, a repayment moves it back, nobody else's debt changes, and no debt exceeds the
  capacity that is gone from the pool.
\<close>

datatype facility_op = Borrow nat | Repay nat nat

locale credit_facility =
  fixes request :: "account \<Rightarrow> nat \<Rightarrow> 's \<Rightarrow> ('s, 'e) result"
    and repay :: "account \<Rightarrow> nat \<Rightarrow> nat \<Rightarrow> 's \<Rightarrow> ('s, 'e) result"
    and debt :: "'s \<Rightarrow> account \<Rightarrow> nat"
    and pool :: "'s \<Rightarrow> nat"
    and capacity :: nat
    and good :: "'s \<Rightarrow> bool"
  assumes request_good: "good s \<Longrightarrow> request a v s = Ok t \<Longrightarrow> good t"
    and request_moves: "good s \<Longrightarrow> request a v s = Ok t \<Longrightarrow>
          pool t + v = pool s \<and> debt t = (debt s)(a := debt s a + v)"
    and repay_good: "good s \<Longrightarrow> repay a i v s = Ok t \<Longrightarrow> good t"
    and repay_moves: "good s \<Longrightarrow> repay a i v s = Ok t \<Longrightarrow>
          pool t = pool s + v \<and> v \<le> debt s a \<and> debt t = (debt s)(a := debt s a - v)"
    and within: "good s \<Longrightarrow> debt s a + pool s \<le> capacity"
begin

lemma request_conserves:
  assumes "good s" and "request a v s = Ok t"
  shows "debt t a + pool t = debt s a + pool s"
  using request_moves[OF assms] by simp

lemma repay_conserves:
  assumes "good s" and "repay a i v s = Ok t"
  shows "debt t a + pool t = debt s a + pool s"
  using repay_moves[OF assms] by simp

fun operate :: "account \<Rightarrow> facility_op \<Rightarrow> 's \<Rightarrow> ('s, 'e) result" where
  "operate a (Borrow v) s = request a v s"
| "operate a (Repay i v) s = repay a i v s"

lemma operate_good: "good s \<Longrightarrow> operate a op s = Ok t \<Longrightarrow> good t"
  by (cases op) (auto intro: request_good repay_good)

lemma operate_conserves: "good s \<Longrightarrow> operate a op s = Ok t \<Longrightarrow> debt t a + pool t = debt s a + pool s"
  by (cases op) (auto dest: request_conserves repay_conserves)

lemma operate_others: "good s \<Longrightarrow> operate a op s = Ok t \<Longrightarrow> b \<noteq> a \<Longrightarrow> debt t b = debt s b"
  by (cases op) (auto dest: request_moves repay_moves)

lemma run_conserves:
  "good s \<Longrightarrow> good (run (operate a) ops s)
     \<and> debt (run (operate a) ops s) a + pool (run (operate a) ops s) = debt s a + pool s
     \<and> (\<forall>b. b \<noteq> a \<longrightarrow> debt (run (operate a) ops s) b = debt s b)"
proof (induction ops arbitrary: s)
  case Nil
  then show ?case by simp
next
  case (Cons op ops)
  show ?case
  proof (cases "operate a op s")
    case (Ok t)
    with Cons.prems have "good t" "debt t a + pool t = debt s a + pool s"
      "\<And>b. b \<noteq> a \<Longrightarrow> debt t b = debt s b"
      by (auto dest: operate_good operate_conserves operate_others)
    with Cons.IH[of t] Ok show ?thesis by (simp add: execute_def)
  next
    case (Err e)
    with Cons show ?thesis by (simp add: execute_def)
  qed
qed

end

end
