(* ===== verification/Currency.thy ===== *)
theory Currency
  imports Runtime_Base
begin

text \<open>
  The native currency. The pallets are generic in \<open>T::Currency\<close>; the runtime instantiates it with
  \<open>pallet_balances\<close>, which is not part of the repository. It is a parameter of the model: a record of
  the trait's operations over an opaque ledger state \<open>'x\<close>. What the properties rely on is the
  predicate \<open>currency_ok\<close>, the documented behaviour of the trait (\<open>frame_support::traits::Currency\<close>).

  \<open>book_currency\<close> is a concrete ledger with an existential deposit. It discharges the hypothesis
  \<open>currency_ok\<close> in the witnesses; no property is stated about it.
\<close>

datatype existence = KeepAlive | AllowDeath

text \<open>\<open>withdraw\<close> is called with \<open>WithdrawReasons::TRANSFER\<close>, by the bank operator with all reasons.\<close>

record 'x currency =
  total_issuance :: "'x \<Rightarrow> balance"
  free_balance :: "'x \<Rightarrow> account \<Rightarrow> balance"
  deposit_creating :: "'x \<Rightarrow> account \<Rightarrow> balance \<Rightarrow> 'x"
  withdraw :: "'x \<Rightarrow> account \<Rightarrow> balance \<Rightarrow> existence \<Rightarrow> ('x, nat) result"
  transfer :: "'x \<Rightarrow> account \<Rightarrow> account \<Rightarrow> balance \<Rightarrow> existence \<Rightarrow> ('x, nat) result"

text \<open>\<open>LockableCurrency\<close>: a lock is named by an eight-byte identifier.\<close>

type_synonym lock_id = string

record 'x lockable_currency = "'x currency" +
  set_lock :: "'x \<Rightarrow> lock_id \<Rightarrow> account \<Rightarrow> balance \<Rightarrow> 'x"
  remove_lock :: "'x \<Rightarrow> lock_id \<Rightarrow> account \<Rightarrow> 'x"

section \<open>Documented behaviour\<close>

text \<open>
  A deposit credits the whole amount and raises the issuance by it, or is a no-op (below the
  existential deposit of a new account, or at the end of the number range); it does credit an existing
  account whose issuance stays representable.
\<close>

definition deposit_ok :: "('x, 'z) currency_scheme \<Rightarrow> bool" where
  "deposit_ok cur \<longleftrightarrow>
     (\<forall>x a v. deposit_creating cur x a v = x
        \<or> (total_issuance cur (deposit_creating cur x a v) = total_issuance cur x + v
           \<and> (\<forall>b. free_balance cur (deposit_creating cur x a v) b
                    = (if b = a then free_balance cur x a + v else free_balance cur x b))))
     \<and> (\<forall>x a v. 0 < free_balance cur x a \<longrightarrow> total_issuance cur x + v \<le> umax 128 \<longrightarrow>
           total_issuance cur (deposit_creating cur x a v) = total_issuance cur x + v
           \<and> (\<forall>b. free_balance cur (deposit_creating cur x a v) b
                    = (if b = a then free_balance cur x a + v else free_balance cur x b)))"

definition withdraw_ok :: "('x, 'z) currency_scheme \<Rightarrow> bool" where
  "withdraw_ok cur \<longleftrightarrow>
     (\<forall>x a v y. withdraw cur x a v KeepAlive = Ok y \<longrightarrow>
        v \<le> free_balance cur x a
        \<and> total_issuance cur y + v = total_issuance cur x
        \<and> (\<forall>b. free_balance cur y b
                 = (if b = a then free_balance cur x a - v else free_balance cur x b)))"

definition transfer_ok :: "('x, 'z) currency_scheme \<Rightarrow> bool" where
  "transfer_ok cur \<longleftrightarrow>
     (\<forall>x a b v y. transfer cur x a b v KeepAlive = Ok y \<longrightarrow>
        v \<le> free_balance cur x a
        \<and> total_issuance cur y = total_issuance cur x
        \<and> (\<forall>c. free_balance cur y c =
              (if a = b then free_balance cur x c
               else if c = a then free_balance cur x a - v
               else if c = b then free_balance cur x b + v else free_balance cur x c)))
     \<and> (\<forall>x a b v y. transfer cur x a b v AllowDeath = Ok y \<longrightarrow>
        v \<le> free_balance cur x a
        \<and> total_issuance cur y \<le> total_issuance cur x
        \<and> (\<forall>c. c \<noteq> a \<longrightarrow> free_balance cur y c =
              (if c = b then free_balance cur x b + v else free_balance cur x c))
        \<and> (a \<noteq> b \<longrightarrow> free_balance cur y a \<in> {0, free_balance cur x a - v})
        \<and> (a = b \<longrightarrow> free_balance cur y a = free_balance cur x a))"

definition currency_ok :: "('x, 'z) currency_scheme \<Rightarrow> bool" where
  "currency_ok cur \<longleftrightarrow> deposit_ok cur \<and> withdraw_ok cur \<and> transfer_ok cur"

lemma deposit_issuance_le:
  "currency_ok cur \<Longrightarrow>
   total_issuance cur (deposit_creating cur x a v) \<le> total_issuance cur x + v"
  unfolding currency_ok_def deposit_ok_def by (metis le_add1 order_refl)

lemma deposit_exact:
  assumes "currency_ok cur" "0 < free_balance cur x a" "total_issuance cur x + v \<le> umax 128"
  shows "total_issuance cur (deposit_creating cur x a v) = total_issuance cur x + v"
    and "free_balance cur (deposit_creating cur x a v) b
           = (if b = a then free_balance cur x a + v else free_balance cur x b)"
  using assms unfolding currency_ok_def deposit_ok_def by blast+

lemma withdraw_keepD:
  assumes "currency_ok cur" "withdraw cur x a v KeepAlive = Ok y"
  shows "v \<le> free_balance cur x a"
    and "total_issuance cur y + v = total_issuance cur x"
    and "free_balance cur y b = (if b = a then free_balance cur x a - v else free_balance cur x b)"
  using assms unfolding currency_ok_def withdraw_ok_def by blast+

lemma transfer_keepD:
  assumes "currency_ok cur" "transfer cur x a b v KeepAlive = Ok y"
  shows "v \<le> free_balance cur x a"
    and "total_issuance cur y = total_issuance cur x"
    and "free_balance cur y c =
           (if a = b then free_balance cur x c
            else if c = a then free_balance cur x a - v
            else if c = b then free_balance cur x b + v else free_balance cur x c)"
  using assms unfolding currency_ok_def transfer_ok_def by blast+

lemma transfer_deathD:
  assumes "currency_ok cur" "transfer cur x a b v AllowDeath = Ok y"
  shows "v \<le> free_balance cur x a"
    and "total_issuance cur y \<le> total_issuance cur x"
    and "c \<noteq> a \<Longrightarrow> free_balance cur y c =
           (if c = b then free_balance cur x b + v else free_balance cur x c)"
    and "a \<noteq> b \<Longrightarrow> free_balance cur y a \<le> free_balance cur x a - v"
    and "a = b \<Longrightarrow> free_balance cur y a = free_balance cur x a"
proof -
  have *: "v \<le> free_balance cur x a
        \<and> total_issuance cur y \<le> total_issuance cur x
        \<and> (\<forall>c. c \<noteq> a \<longrightarrow> free_balance cur y c =
              (if c = b then free_balance cur x b + v else free_balance cur x c))
        \<and> (a \<noteq> b \<longrightarrow> free_balance cur y a \<in> {0, free_balance cur x a - v})
        \<and> (a = b \<longrightarrow> free_balance cur y a = free_balance cur x a)"
    using assms unfolding currency_ok_def transfer_ok_def by blast
  from * show "v \<le> free_balance cur x a" by (rule conjunct1)
  from * show "total_issuance cur y \<le> total_issuance cur x" by (elim conjE)
  from * show "c \<noteq> a \<Longrightarrow> free_balance cur y c =
           (if c = b then free_balance cur x b + v else free_balance cur x c)"
    by (elim conjE) simp
  from * show "a \<noteq> b \<Longrightarrow> free_balance cur y a \<le> free_balance cur x a - v"
    by (elim conjE) force
  from * show "a = b \<Longrightarrow> free_balance cur y a = free_balance cur x a"
    by (elim conjE) simp
qed

lemma transfer_issuance_le:
  "currency_ok cur \<Longrightarrow> transfer cur x a b v e = Ok y \<Longrightarrow> total_issuance cur y \<le> total_issuance cur x"
  by (cases e) (auto dest: transfer_keepD(2) transfer_deathD(2))

section \<open>A concrete ledger\<close>

record book =
  bal :: "account \<Rightarrow> balance"
  issued :: balance
  lock_of :: "account \<Rightarrow> lock_id \<Rightarrow> balance option"

definition book_deposit :: "nat \<Rightarrow> book \<Rightarrow> account \<Rightarrow> balance \<Rightarrow> book" where
  "book_deposit ed x a v =
     (if (bal x a = 0 \<and> v < ed) \<or> umax 128 < issued x + v then x
      else x\<lparr>bal := (bal x)(a := bal x a + v), issued := issued x + v\<rparr>)"

definition book_withdraw :: "nat \<Rightarrow> book \<Rightarrow> account \<Rightarrow> balance \<Rightarrow> existence \<Rightarrow> (book, nat) result" where
  "book_withdraw ed x a v e =
     (if bal x a < v \<or> issued x < v \<or> bal x a - v < ed then Err 2
      else Ok (x\<lparr>bal := (bal x)(a := bal x a - v), issued := issued x - v\<rparr>))"

definition book_transfer ::
  "nat \<Rightarrow> book \<Rightarrow> account \<Rightarrow> account \<Rightarrow> balance \<Rightarrow> existence \<Rightarrow> (book, nat) result" where
  "book_transfer ed x a b v e =
     (if bal x a < v \<or> (e = KeepAlive \<and> bal x a - v < ed) then Err 2
      else if a = b then Ok x
      else if bal x b + v < ed then Err 3
      else if bal x a - v < ed
           then Ok (x\<lparr>bal := (bal x)(a := 0, b := bal x b + v), issued := issued x - (bal x a - v)\<rparr>)
      else Ok (x\<lparr>bal := (bal x)(a := bal x a - v, b := bal x b + v)\<rparr>))"

definition book_set_lock :: "book \<Rightarrow> lock_id \<Rightarrow> account \<Rightarrow> balance \<Rightarrow> book" where
  "book_set_lock x i a v =
     (if v = 0 then x else x\<lparr>lock_of := (lock_of x)(a := (lock_of x a)(i \<mapsto> v))\<rparr>)"

definition book_remove_lock :: "book \<Rightarrow> lock_id \<Rightarrow> account \<Rightarrow> book" where
  "book_remove_lock x i a = x\<lparr>lock_of := (lock_of x)(a := (lock_of x a)(i := None))\<rparr>"

definition book_base :: "nat \<Rightarrow> book currency" where
  "book_base ed =
     \<lparr>total_issuance = issued, free_balance = bal, deposit_creating = book_deposit ed,
      withdraw = book_withdraw ed, transfer = book_transfer ed\<rparr>"

definition book_currency :: "nat \<Rightarrow> book lockable_currency" where
  "book_currency ed =
     \<lparr>total_issuance = issued, free_balance = bal, deposit_creating = book_deposit ed,
      withdraw = book_withdraw ed, transfer = book_transfer ed,
      set_lock = book_set_lock, remove_lock = book_remove_lock\<rparr>"

lemmas book_defs = book_base_def book_currency_def book_deposit_def book_withdraw_def book_transfer_def
  book_set_lock_def book_remove_lock_def

lemma book_deposit_ok: "deposit_ok (book_currency ed)" "deposit_ok (book_base ed)"
  by (auto simp: deposit_ok_def book_defs)

lemma book_withdraw_ok: "withdraw_ok (book_currency ed)" "withdraw_ok (book_base ed)"
  by (auto simp: withdraw_ok_def book_defs split: if_splits)

lemma book_transfer_ok: "transfer_ok (book_currency ed)" "transfer_ok (book_base ed)"
  by (auto simp: transfer_ok_def book_defs split: if_splits)

lemma book_currency_ok: "currency_ok (book_currency ed)" "currency_ok (book_base ed)"
  by (simp_all add: currency_ok_def book_deposit_ok book_withdraw_ok book_transfer_ok)

end
