(* ===== verification/Central_Bank.thy ===== *)
theory Central_Bank
  imports Pallet_Interfaces Currency
begin

text \<open>
  \<^verbatim>\<open>pallets/central-bank/src/lib.rs\<close>: the sole issuer of ALTAN and the rotating credit pool.

  The storage items are the fields of \<open>cb_state\<close>, the associated types of \<open>Config\<close> the fields of
  \<open>cb_config\<close>; every dispatchable is a function from the state to a result, with the checks in the
  order of the source. \<open>'x\<close> is the state of what lies outside the pallet: the balances ledger, the
  proxy pallet and whatever the banking origin reads.
\<close>

section \<open>Data\<close>

record epoch_info =
  start_block :: nat
  key_rate :: nat
  total_issued :: balance
  total_repaid :: balance
  credit_limit :: balance

definition REGION_CODES_83 :: "nat list" where
  "REGION_CODES_83 =
    [1, 2, 3, 4, 5, 6, 7, 8, 9, 10, 11, 12, 13, 14, 15, 16, 17, 18, 19, 20, 21,
     22, 23, 24, 25, 26, 27,
     28, 29, 30, 31, 32, 33, 34, 35, 36, 37, 38, 39, 40, 41, 42, 43, 44, 45, 46,
     47, 48, 49, 50, 51, 52, 53, 54, 55, 56, 57, 58, 59, 60, 61, 62, 63, 64, 65,
     66, 67, 68, 69, 70, 71, 72, 73, 74, 75, 76,
     77, 78,
     79,
     83, 86, 87, 89]"

text \<open>
  \<open>create_pure\<close> and \<open>pure_account\<close> belong to \<open>pallet_proxy\<close>: the address of a pure proxy is a
  function of its creator, an index and the creating block and extrinsic.
\<close>

record 'x cb_config =
  currency :: "'x currency"
  creator_account :: account
  central_bank_account_id :: account
  banking_origin :: "'x \<Rightarrow> origin \<Rightarrow> bool"
  credit_epoch_limit :: balance
  optimal_key_rate :: nat
  max_protective_rate :: nat
  optimal_utilization :: nat
  pure_account :: "account \<Rightarrow> nat \<Rightarrow> nat \<times> nat \<Rightarrow> account"
  create_pure :: "'x \<Rightarrow> account \<Rightarrow> nat \<Rightarrow> nat \<times> nat \<Rightarrow> ('x, nat) result"

datatype cb_event =
    OperatorLicensed account
  | OperatorRevoked account
  | MintedToOperator nat account balance
  | BurnedFromOperator account balance
  | EpochTransitioned nat nat nat
  | CreditIssued account nat balance balance
  | CreditRepaid account nat balance balance
  | DynamicRateUpdated nat balance balance
  | ConfederationTreasuryCreated account balance
  | RegionalTreasuryCreated nat account balance
  | PensionFundCreated nat account balance
  | GenesisDistributed account nat
  | BaseRateSet nat nat
  | EpochTransitionManual nat nat nat
  | GenesisGrantIssued account balance nat

datatype cb_error =
    NotLicensedOperator | NotCreator | AlreadyDistributed | AlreadyLicensed | AlreadyRevoked
  | ZeroAmount | ArithmeticOverflow | InsufficientOperatorBalance
  | EpochNotFound | InsufficientDebt | InsufficientBalance
  | CreditPoolExhausted | RateExceedsMax | InvalidRegion

type_synonym cb_failure = "cb_error dispatch_error"

record 'x cb_state =
  ledger :: 'x
  licensed_operators :: "account \<Rightarrow> bool"
  total_emitted :: balance
  total_burned :: balance
  next_tranche_id :: nat
  genesis_distributed :: bool
  current_epoch_id :: nat
  epochs :: "nat \<Rightarrow> epoch_info option"
  confederation_treasury :: "account option"
  regional_treasuries :: "nat \<Rightarrow> account option"
  pension_funds :: "nat \<Rightarrow> account option"
  operator_debt :: "account \<times> nat \<Rightarrow> balance"
  total_operator_debt :: "account \<Rightarrow> balance"
  genesis_credit_available :: balance
  total_outstanding :: balance
  base_key_rate :: nat
  cb_events :: "cb_event list"

definition cb_deposit_event :: "cb_event \<Rightarrow> ('x, 'z) cb_state_scheme \<Rightarrow> ('x, 'z) cb_state_scheme" where
  "cb_deposit_event e s = s\<lparr>cb_events := cb_events s @ [e]\<rparr>"

section \<open>Genesis\<close>

definition cb_genesis :: "'x cb_config \<Rightarrow> (account \<times> bool) list \<Rightarrow> 'x \<Rightarrow> 'x cb_state" where
  "cb_genesis cfg ops x0 =
     \<lparr>ledger = x0,
      licensed_operators = fold (\<lambda>(operator, licensed) m. m(operator := licensed)) ops (\<lambda>_. False),
      total_emitted = 0, total_burned = 0, next_tranche_id = 0, genesis_distributed = False,
      current_epoch_id = 1,
      epochs = [1 \<mapsto> \<lparr>start_block = 0, key_rate = 0, total_issued = 0, total_repaid = 0,
                      credit_limit = credit_epoch_limit cfg\<rparr>],
      confederation_treasury = None, regional_treasuries = Map.empty, pension_funds = Map.empty,
      operator_debt = (\<lambda>_. 0), total_operator_debt = (\<lambda>_. 0),
      genesis_credit_available = credit_epoch_limit cfg, total_outstanding = 0,
      base_key_rate = optimal_key_rate cfg, cb_events = []\<rparr>"

section \<open>The dynamic key rate\<close>

text \<open>
  Rates are \<open>u32\<close> basis points, the utilization a whole percentage. \<open>saturating_div\<close> panics on a zero
  divisor: with an optimal utilization of 0 the first phase divides by it.
\<close>

definition utilization_percent :: "'x cb_config \<Rightarrow> ('x, 'z) cb_state_scheme \<Rightarrow> nat" where
  "utilization_percent cfg s =
     (let lim = credit_epoch_limit cfg in
      if lim = 0 then 0
      else let p = sat_mul 128 (total_outstanding s) 100 div lim
           in if p \<le> umax 32 then p else 0)"

definition compute_dynamic_rate :: "'x cb_config \<Rightarrow> ('x, 'z) cb_state_scheme \<Rightarrow> (nat, cb_failure) result" where
  "compute_dynamic_rate cfg s =
     (let u_opt = optimal_utilization cfg;
          opt_rate = optimal_key_rate cfg;
          max_rate = max_protective_rate cfg
      in if credit_epoch_limit cfg = 0 \<or> total_outstanding s = 0 then Ok 0
         else let u = utilization_percent cfg s in
           if u \<le> u_opt then ensure (u_opt \<noteq> 0) Panic (Ok (sat_mul 32 u opt_rate div u_opt))
           else let excess = sat_sub u u_opt; max_excess = sat_sub 100 u_opt in
             if max_excess = 0 then Ok max_rate
             else let spread = sat_sub max_rate opt_rate;
                      penalty = sat_mul 32 excess spread div max_excess
                  in Ok (sat_add 32 opt_rate penalty))"

definition apply_dynamic_rate_to_epoch ::
  "nat \<Rightarrow> ('x, 'z) cb_state_scheme \<Rightarrow> (('x, 'z) cb_state_scheme, cb_failure) result" where
  "apply_dynamic_rate_to_epoch rate s =
     ok_or (epochs s (current_epoch_id s)) (Module EpochNotFound)
       (\<lambda>e. Ok (s\<lparr>epochs := (epochs s)(current_epoch_id s \<mapsto> e\<lparr>key_rate := rate\<rparr>)\<rparr>))"

definition update_dynamic_rate ::
  "'x cb_config \<Rightarrow> ('x, 'z) cb_state_scheme \<Rightarrow> (nat \<times> ('x, 'z) cb_state_scheme, cb_failure) result" where
  "update_dynamic_rate cfg s =
     and_then (compute_dynamic_rate cfg s) (\<lambda>rate.
     and_then (apply_dynamic_rate_to_epoch rate s) (\<lambda>s'. Ok (rate, s')))"

section \<open>Operator licenses, emission, burning\<close>

definition grant_operator_license ::
  "'x cb_config \<Rightarrow> origin \<Rightarrow> account \<Rightarrow> ('x, 'z) cb_state_scheme
   \<Rightarrow> (('x, 'z) cb_state_scheme, cb_failure) result" where
  "grant_operator_license cfg og operator s =
     ensure (banking_origin cfg (ledger s) og) BadOrigin (
     ensure (\<not> licensed_operators s operator) (Module AlreadyLicensed) (
     Ok (cb_deposit_event (OperatorLicensed operator)
          (s\<lparr>licensed_operators := (licensed_operators s)(operator := True)\<rparr>))))"

definition revoke_operator_license ::
  "'x cb_config \<Rightarrow> origin \<Rightarrow> account \<Rightarrow> ('x, 'z) cb_state_scheme
   \<Rightarrow> (('x, 'z) cb_state_scheme, cb_failure) result" where
  "revoke_operator_license cfg og operator s =
     ensure (banking_origin cfg (ledger s) og) BadOrigin (
     ensure (licensed_operators s operator) (Module AlreadyRevoked) (
     Ok (cb_deposit_event (OperatorRevoked operator)
          (s\<lparr>licensed_operators := (licensed_operators s)(operator := False)\<rparr>))))"

definition mint_to_operator ::
  "'x cb_config \<Rightarrow> origin \<Rightarrow> account \<Rightarrow> balance \<Rightarrow> ('x, 'z) cb_state_scheme
   \<Rightarrow> (('x, 'z) cb_state_scheme, cb_failure) result" where
  "mint_to_operator cfg og operator amount s =
     ensure (banking_origin cfg (ledger s) og) BadOrigin (
     ensure (amount > 0) (Module ZeroAmount) (
     ensure (licensed_operators s operator) (Module NotLicensedOperator) (
     let x = deposit_creating (currency cfg) (ledger s) operator amount;
         tranche_id = next_tranche_id s;
         s1 = s\<lparr>ledger := x, next_tranche_id := sat_add 32 tranche_id 1\<rparr>
     in ok_or (checked_add 128 (total_emitted s1) amount) (Module ArithmeticOverflow) (\<lambda>total.
        Ok (cb_deposit_event (MintedToOperator tranche_id operator amount)
             (s1\<lparr>total_emitted := total\<rparr>))))))"

definition cb_burn ::
  "'x cb_config \<Rightarrow> origin \<Rightarrow> account \<Rightarrow> balance \<Rightarrow> ('x, 'z) cb_state_scheme
   \<Rightarrow> (('x, 'z) cb_state_scheme, cb_failure) result" where
  "cb_burn cfg og operator amount s =
     ensure (banking_origin cfg (ledger s) og) BadOrigin (
     ensure (amount \<noteq> 0) (Module ZeroAmount) (
     ensure (licensed_operators s operator) (Module NotLicensedOperator) (
     ensure (free_balance (currency cfg) (ledger s) operator \<ge> amount)
       (Module InsufficientOperatorBalance) (
     and_then (map_err (\<lambda>_. Module InsufficientOperatorBalance)
                (withdraw (currency cfg) (ledger s) operator amount KeepAlive)) (\<lambda>x.
     ok_or (checked_add 128 (total_burned s) amount) (Module ArithmeticOverflow) (\<lambda>total.
     Ok (cb_deposit_event (BurnedFromOperator operator amount)
          (s\<lparr>ledger := x, total_burned := total\<rparr>))))))))"

section \<open>Epochs and the base rate\<close>

definition do_epoch_transition ::
  "'x cb_config \<Rightarrow> env \<Rightarrow> nat \<Rightarrow> ('x, 'z) cb_state_scheme
   \<Rightarrow> (nat \<times> ('x, 'z) cb_state_scheme, cb_failure) result" where
  "do_epoch_transition cfg env old_epoch_id s =
     (let new_epoch_id = sat_add 32 old_epoch_id 1 in
      and_then (compute_dynamic_rate cfg s) (\<lambda>rate.
      let e = \<lparr>start_block = block_number env, key_rate = rate, total_issued = 0, total_repaid = 0,
               credit_limit = credit_epoch_limit cfg\<rparr>;
          s1 = s\<lparr>epochs := (epochs s)(new_epoch_id \<mapsto> e), current_epoch_id := new_epoch_id\<rparr>
      in Ok (new_epoch_id, cb_deposit_event (EpochTransitioned old_epoch_id new_epoch_id rate) s1)))"

definition transition_epoch ::
  "'x cb_config \<Rightarrow> env \<Rightarrow> origin \<Rightarrow> ('x, 'z) cb_state_scheme
   \<Rightarrow> (('x, 'z) cb_state_scheme, cb_failure) result" where
  "transition_epoch cfg env og s =
     ensure (banking_origin cfg (ledger s) og) BadOrigin (
     let old_epoch_id = current_epoch_id s in
     and_then (do_epoch_transition cfg env old_epoch_id s) (\<lambda>(new_epoch_id, s1).
     let new_rate = (case epochs s1 new_epoch_id of Some e \<Rightarrow> key_rate e | None \<Rightarrow> 0)
     in Ok (cb_deposit_event (EpochTransitionManual old_epoch_id new_epoch_id new_rate) s1)))"

text \<open>The closure that \<open>set_base_rate\<close> runs over the current epoch drops the record it is given: no write.\<close>

definition set_base_rate ::
  "'x cb_config \<Rightarrow> origin \<Rightarrow> nat \<Rightarrow> ('x, 'z) cb_state_scheme
   \<Rightarrow> (('x, 'z) cb_state_scheme, cb_failure) result" where
  "set_base_rate cfg og new_rate_bps s =
     ensure (banking_origin cfg (ledger s) og) BadOrigin (
     ensure (new_rate_bps \<le> max_protective_rate cfg) (Module RateExceedsMax) (
     let old_rate_bps = base_key_rate s
     in Ok (cb_deposit_event (BaseRateSet new_rate_bps old_rate_bps) (s\<lparr>base_key_rate := new_rate_bps\<rparr>))))"

section \<open>The credit pool\<close>

definition do_request_credit ::
  "'x cb_config \<Rightarrow> account \<Rightarrow> balance \<Rightarrow> ('x, 'z) cb_state_scheme
   \<Rightarrow> (('x, 'z) cb_state_scheme, cb_failure) result" where
  "do_request_credit cfg operator amount s =
     ensure (amount > 0) (Module ZeroAmount) (
     ensure (licensed_operators s operator) (Module NotLicensedOperator) (
     let current_debt = total_operator_debt s operator;
         new_debt = sat_add 128 current_debt amount;
         available = genesis_credit_available s
     in ensure (available \<ge> amount) (Module CreditPoolExhausted) (
     let epoch_id = current_epoch_id s in
     ok_or (epochs s epoch_id) (Module EpochNotFound) (\<lambda>e.
     let s1 = s\<lparr>genesis_credit_available := sat_sub available amount,
                total_outstanding := sat_add 128 (total_outstanding s) amount,
                ledger := deposit_creating (currency cfg) (ledger s) operator amount,
                epochs := (epochs s)(epoch_id \<mapsto> e\<lparr>total_issued := sat_add 128 (total_issued e) amount\<rparr>),
                operator_debt := (operator_debt s)((operator, epoch_id) :=
                  sat_add 128 (operator_debt s (operator, epoch_id)) amount),
                total_operator_debt := (total_operator_debt s)(operator := new_debt)\<rparr>;
         pool_remaining = genesis_credit_available s1
     in and_then (update_dynamic_rate cfg s1) (\<lambda>(rate, s2).
        Ok (cb_deposit_event (DynamicRateUpdated rate (total_outstanding s2) pool_remaining)
             (cb_deposit_event (CreditIssued operator epoch_id amount pool_remaining) s2)))))))"

definition do_repay_credit ::
  "'x cb_config \<Rightarrow> account \<Rightarrow> nat \<Rightarrow> balance \<Rightarrow> ('x, 'z) cb_state_scheme
   \<Rightarrow> (('x, 'z) cb_state_scheme, cb_failure) result" where
  "do_repay_credit cfg operator epoch_id amount s =
     ensure (amount > 0) (Module ZeroAmount) (
     ok_or (epochs s epoch_id) (Module EpochNotFound) (\<lambda>e.
     let outstanding = operator_debt s (operator, epoch_id) in
     ensure (outstanding \<ge> amount) (Module InsufficientDebt) (
     ensure (free_balance (currency cfg) (ledger s) operator \<ge> amount) (Module InsufficientBalance) (
     and_then (map_err (\<lambda>_. Module InsufficientBalance)
                (withdraw (currency cfg) (ledger s) operator amount KeepAlive)) (\<lambda>x.
     let s1 = s\<lparr>ledger := x,
                operator_debt := (operator_debt s)((operator, epoch_id) := sat_sub outstanding amount),
                epochs := (epochs s)(epoch_id \<mapsto> e\<lparr>total_repaid := sat_add 128 (total_repaid e) amount\<rparr>),
                total_operator_debt := (total_operator_debt s)(operator :=
                  sat_sub (total_operator_debt s operator) amount),
                genesis_credit_available :=
                  min (sat_add 128 (genesis_credit_available s) amount) (credit_epoch_limit cfg),
                total_outstanding := sat_sub (total_outstanding s) amount\<rparr>;
         pool_remaining = genesis_credit_available s1
     in and_then (update_dynamic_rate cfg s1) (\<lambda>(rate, s2).
        Ok (cb_deposit_event (DynamicRateUpdated rate (total_outstanding s2) pool_remaining)
             (cb_deposit_event (CreditRepaid operator epoch_id amount pool_remaining) s2))))))))"

definition request_credit ::
  "'x cb_config \<Rightarrow> origin \<Rightarrow> balance \<Rightarrow> ('x, 'z) cb_state_scheme
   \<Rightarrow> (('x, 'z) cb_state_scheme, cb_failure) result" where
  "request_credit cfg og amount s =
     and_then (ensure_signed og) (\<lambda>who. do_request_credit cfg who amount s)"

definition repay_credit ::
  "'x cb_config \<Rightarrow> origin \<Rightarrow> nat \<Rightarrow> balance \<Rightarrow> ('x, 'z) cb_state_scheme
   \<Rightarrow> (('x, 'z) cb_state_scheme, cb_failure) result" where
  "repay_credit cfg og epoch_id amount s =
     and_then (ensure_signed og) (\<lambda>who. do_repay_credit cfg who epoch_id amount s)"

section \<open>Genesis grant and genesis distribution\<close>

definition genesis_grant :: balance where
  "genesis_grant = 100000000000000"

definition issue_genesis_grant ::
  "'x cb_config \<Rightarrow> origin \<Rightarrow> account \<Rightarrow> nat \<Rightarrow> ('x, 'z) cb_state_scheme
   \<Rightarrow> (('x, 'z) cb_state_scheme, cb_failure) result" where
  "issue_genesis_grant cfg og citizen region_code s =
     ensure (banking_origin cfg (ledger s) og) BadOrigin (
     ensure (pension_funds s region_code \<noteq> None) (Module InvalidRegion) (
     let x = deposit_creating (currency cfg) (ledger s) citizen genesis_grant in
     ok_or (checked_add 128 (total_emitted s) genesis_grant) (Module ArithmeticOverflow) (\<lambda>total.
     Ok (cb_deposit_event (GenesisGrantIssued citizen genesis_grant region_code)
          (s\<lparr>ledger := x, total_emitted := total\<rparr>)))))"

definition altan_unit :: balance where "altan_unit = 1000000000000"
definition total_reserve :: balance where "total_reserve = 1890000000000 * altan_unit"
definition total_regional :: balance where "total_regional = 147000000000 * altan_unit"
definition total_confederation :: balance where "total_confederation = 63000000000 * altan_unit"
definition reserve_per_region :: balance where "reserve_per_region = total_reserve div 83"
definition regional_per_region :: balance where "regional_per_region = total_regional div 83"

text \<open>The block and extrinsic a pure proxy created by this dispatch is derived from.\<close>

definition pure_at :: "env \<Rightarrow> nat \<times> nat" where
  "pure_at env = (block_number env, case extrinsic_index env of Some i \<Rightarrow> i | None \<Rightarrow> 0)"

definition create_and_fund ::
  "'x cb_config \<Rightarrow> env \<Rightarrow> account \<Rightarrow> balance \<Rightarrow> nat \<Rightarrow> ('x, 'z) cb_state_scheme
   \<Rightarrow> (('x, 'z) cb_state_scheme, cb_failure) result" where
  "create_and_fund cfg env who amount index s =
     (let pure = pure_account cfg who index (pure_at env) in
      and_then (map_err ThirdParty (create_pure cfg (ledger s) who index (pure_at env))) (\<lambda>x.
      and_then (map_err ThirdParty
                 (transfer (currency cfg) x (central_bank_account_id cfg) pure amount KeepAlive)) (\<lambda>y.
      Ok (s\<lparr>ledger := y\<rparr>))))"

fun fund_regions ::
  "'x cb_config \<Rightarrow> env \<Rightarrow> account \<Rightarrow> nat list \<Rightarrow> nat \<Rightarrow> ('x, 'z) cb_state_scheme
   \<Rightarrow> (nat \<times> ('x, 'z) cb_state_scheme, cb_failure) result" where
  "fund_regions cfg env who [] index s = Ok (index, s)"
| "fund_regions cfg env who (region_code # codes) index s =
     (let reg_pure = pure_account cfg who index (pure_at env) in
      and_then (create_and_fund cfg env who regional_per_region index s) (\<lambda>s1.
      let s2 = cb_deposit_event (RegionalTreasuryCreated region_code reg_pure regional_per_region)
                 (s1\<lparr>regional_treasuries := (regional_treasuries s1)(region_code \<mapsto> reg_pure)\<rparr>);
          pension_pure = pure_account cfg who (index + 1) (pure_at env)
      in and_then (create_and_fund cfg env who reserve_per_region (index + 1) s2) (\<lambda>s3.
      let s4 = cb_deposit_event (PensionFundCreated region_code pension_pure reserve_per_region)
                 (s3\<lparr>pension_funds := (pension_funds s3)(region_code \<mapsto> pension_pure)\<rparr>)
      in fund_regions cfg env who codes (index + 2) s4)))"

definition trigger_genesis_distribution ::
  "'x cb_config \<Rightarrow> env \<Rightarrow> origin \<Rightarrow> ('x, 'z) cb_state_scheme
   \<Rightarrow> (('x, 'z) cb_state_scheme, cb_failure) result" where
  "trigger_genesis_distribution cfg env og s =
     and_then (ensure_signed og) (\<lambda>who.
     ensure (who = creator_account cfg) (Module NotCreator) (
     ensure (\<not> genesis_distributed s) (Module AlreadyDistributed) (
     let s0 = s\<lparr>genesis_distributed := True\<rparr>;
         confederation_pure = pure_account cfg who 0 (pure_at env)
     in and_then (create_and_fund cfg env who total_confederation 0 s0) (\<lambda>s1.
        let s2 = cb_deposit_event (ConfederationTreasuryCreated confederation_pure total_confederation)
                   (s1\<lparr>confederation_treasury := Some confederation_pure\<rparr>)
        in and_then (fund_regions cfg env who REGION_CODES_83 1 s2) (\<lambda>(n, s3).
           Ok (cb_deposit_event (GenesisDistributed (central_bank_account_id cfg) n) s3))))))"

section \<open>The pallet's calls\<close>

datatype cb_call =
    GrantOperatorLicense account
  | RevokeOperatorLicense account
  | MintToOperator account balance
  | Burn account balance
  | TransitionEpoch
  | SetBaseRate nat
  | RequestCredit balance
  | RepayCredit nat balance
  | TriggerGenesisDistribution
  | IssueGenesisGrant account nat

fun cb_dispatch ::
  "'x cb_config \<Rightarrow> env \<times> origin \<times> cb_call \<Rightarrow> ('x, 'z) cb_state_scheme
   \<Rightarrow> (('x, 'z) cb_state_scheme, cb_failure) result" where
  "cb_dispatch cfg (env, og, GrantOperatorLicense a) s = grant_operator_license cfg og a s"
| "cb_dispatch cfg (env, og, RevokeOperatorLicense a) s = revoke_operator_license cfg og a s"
| "cb_dispatch cfg (env, og, MintToOperator a v) s = mint_to_operator cfg og a v s"
| "cb_dispatch cfg (env, og, Burn a v) s = cb_burn cfg og a v s"
| "cb_dispatch cfg (env, og, TransitionEpoch) s = transition_epoch cfg env og s"
| "cb_dispatch cfg (env, og, SetBaseRate r) s = set_base_rate cfg og r s"
| "cb_dispatch cfg (env, og, RequestCredit v) s = request_credit cfg og v s"
| "cb_dispatch cfg (env, og, RepayCredit i v) s = repay_credit cfg og i v s"
| "cb_dispatch cfg (env, og, TriggerGenesisDistribution) s = trigger_genesis_distribution cfg env og s"
| "cb_dispatch cfg (env, og, IssueGenesisGrant a r) s = issue_genesis_grant cfg og a r s"

text \<open>\<open>try_state\<close> of \<^verbatim>\<open>migrations.rs\<close>: the invariants the runtime upgrade checks.\<close>

definition try_state :: "'x cb_config \<Rightarrow> ('x, 'z) cb_state_scheme \<Rightarrow> bool" where
  "try_state cfg s \<longleftrightarrow>
     total_emitted s \<ge> total_burned s
     \<and> current_epoch_id s > 0
     \<and> sat_add 128 (genesis_credit_available s) (total_outstanding s) \<le> credit_epoch_limit cfg
     \<and> genesis_credit_available s \<le> credit_epoch_limit cfg"

text \<open>
  \<open>InitCreditPool\<close> of \<^verbatim>\<open>migrations.rs\<close>: recomputes the pool from the epoch records when nothing is
  available. (It leaves \<open>BaseKeyRate\<close> alone.)
\<close>

definition issued_and_repaid :: "(nat \<Rightarrow> epoch_info option) \<Rightarrow> nat \<Rightarrow> balance \<times> balance" where
  "issued_and_repaid es epoch_count =
     fold (\<lambda>i (issued, repaid).
             case es i of
               Some e \<Rightarrow> (sat_add 128 issued (total_issued e), sat_add 128 repaid (total_repaid e))
             | None \<Rightarrow> (issued, repaid))
       [1..<Suc epoch_count] (0, 0)"

definition init_credit_pool :: "'x cb_config \<Rightarrow> ('x, 'z) cb_state_scheme \<Rightarrow> ('x, 'z) cb_state_scheme" where
  "init_credit_pool cfg s =
     (if genesis_credit_available s = 0
      then let (issued, repaid) = issued_and_repaid (epochs s) (current_epoch_id s);
               outstanding = sat_sub issued repaid
           in s\<lparr>genesis_credit_available := sat_sub (credit_epoch_limit cfg) outstanding,
                total_outstanding := outstanding\<rparr>
      else s)"

text \<open>The constants of \<^verbatim>\<open>runtime/src/configs/mod.rs\<close>; the accounts and third-party parts stay parameters.\<close>

definition runtime_cb_config ::
  "'x currency \<Rightarrow> account \<Rightarrow> account \<Rightarrow> ('x \<Rightarrow> origin \<Rightarrow> bool)
   \<Rightarrow> (account \<Rightarrow> nat \<Rightarrow> nat \<times> nat \<Rightarrow> account)
   \<Rightarrow> ('x \<Rightarrow> account \<Rightarrow> nat \<Rightarrow> nat \<times> nat \<Rightarrow> ('x, nat) result) \<Rightarrow> 'x cb_config" where
  "runtime_cb_config cur creator bank origin_ok pure mk =
     \<lparr>currency = cur, creator_account = creator, central_bank_account_id = bank,
      banking_origin = origin_ok, credit_epoch_limit = 18900000000000000000000000,
      optimal_key_rate = 850, max_protective_rate = 5000, optimal_utilization = 80,
      pure_account = pure, create_pure = mk\<rparr>"

lemmas cb_handler_defs =
  grant_operator_license_def revoke_operator_license_def mint_to_operator_def cb_burn_def
  transition_epoch_def do_epoch_transition_def set_base_rate_def request_credit_def repay_credit_def
  do_request_credit_def do_repay_credit_def issue_genesis_grant_def trigger_genesis_distribution_def

end
