(* ===== verification/Central_Bank_Invariants.thy ===== *)
theory Central_Bank_Invariants
  imports Central_Bank_Rate
begin

text \<open>
  The invariants of the central bank's storage and the proof that every dispatchable keeps them.

  Only three operations touch the credit records (\<open>do_request_credit\<close>, \<open>do_repay_credit\<close> and the epoch
  transition); every other one leaves \<open>credit_core\<close> alone, and the invariant reads nothing else.
\<close>

section \<open>What the operations do to the credit records\<close>

definition credit_core where
  "credit_core s = (current_epoch_id s, epochs s, operator_debt s, total_operator_debt s,
                    genesis_credit_available s, total_outstanding s)"

lemma credit_core_event [simp]: "credit_core (cb_deposit_event e s) = credit_core s"
  by (simp add: credit_core_def cb_deposit_event_def)

lemma event_simps [simp]:
  "ledger (cb_deposit_event e s) = ledger s"
  "total_emitted (cb_deposit_event e s) = total_emitted s"
  "total_burned (cb_deposit_event e s) = total_burned s"
  "genesis_distributed (cb_deposit_event e s) = genesis_distributed s"
  "current_epoch_id (cb_deposit_event e s) = current_epoch_id s"
  "epochs (cb_deposit_event e s) = epochs s"
  "operator_debt (cb_deposit_event e s) = operator_debt s"
  "total_operator_debt (cb_deposit_event e s) = total_operator_debt s"
  "genesis_credit_available (cb_deposit_event e s) = genesis_credit_available s"
  "total_outstanding (cb_deposit_event e s) = total_outstanding s"
  "licensed_operators (cb_deposit_event e s) = licensed_operators s"
  "pension_funds (cb_deposit_event e s) = pension_funds s"
  "regional_treasuries (cb_deposit_event e s) = regional_treasuries s"
  "confederation_treasury (cb_deposit_event e s) = confederation_treasury s"
  "base_key_rate (cb_deposit_event e s) = base_key_rate s"
  "next_tranche_id (cb_deposit_event e s) = next_tranche_id s"
  "cb_events (cb_deposit_event e s) = cb_events s @ [e]"
  "cb_state.more (cb_deposit_event e s) = cb_state.more s"
  by (simp_all add: cb_deposit_event_def)

lemma compute_rate_event [simp]: "compute_dynamic_rate cfg (cb_deposit_event e s) = compute_dynamic_rate cfg s"
  by (rule compute_dynamic_rate_cong) simp

lemma do_request_creditD:
  assumes "do_request_credit cfg a v s = Ok t"
  obtains e r where
    "0 < v" "licensed_operators s a" "v \<le> genesis_credit_available s"
    "epochs s (current_epoch_id s) = Some e"
    "compute_dynamic_rate cfg t = Ok r"
    "current_epoch_id t = current_epoch_id s"
    "epochs t = (epochs s)(current_epoch_id s \<mapsto>
       e\<lparr>total_issued := sat_add 128 (total_issued e) v, key_rate := r\<rparr>)"
    "operator_debt t = (operator_debt s)((a, current_epoch_id s) :=
       sat_add 128 (operator_debt s (a, current_epoch_id s)) v)"
    "total_operator_debt t = (total_operator_debt s)(a := sat_add 128 (total_operator_debt s a) v)"
    "genesis_credit_available t = genesis_credit_available s - v"
    "total_outstanding t = sat_add 128 (total_outstanding s) v"
    "ledger t = deposit_creating (currency cfg) (ledger s) a v"
    "total_emitted t = total_emitted s" "total_burned t = total_burned s"
    "cb_state.more t = cb_state.more s"
proof -
  from assms obtain e r s1 where
    g: "0 < v" "licensed_operators s a" "v \<le> genesis_credit_available s"
       "epochs s (current_epoch_id s) = Some e" and
    s1: "s1 = s\<lparr>genesis_credit_available := genesis_credit_available s - v,
           total_outstanding := sat_add 128 (total_outstanding s) v,
           ledger := deposit_creating (currency cfg) (ledger s) a v,
           epochs := (epochs s)(current_epoch_id s \<mapsto> e\<lparr>total_issued := sat_add 128 (total_issued e) v\<rparr>),
           operator_debt := (operator_debt s)((a, current_epoch_id s) :=
             sat_add 128 (operator_debt s (a, current_epoch_id s)) v),
           total_operator_debt := (total_operator_debt s)(a := sat_add 128 (total_operator_debt s a) v)\<rparr>" and
    r: "compute_dynamic_rate cfg s1 = Ok r" and
    t: "t = cb_deposit_event (DynamicRateUpdated r (total_outstanding s1) (genesis_credit_available s1))
          (cb_deposit_event (CreditIssued a (current_epoch_id s) v (genesis_credit_available s1))
            (s1\<lparr>epochs := (epochs s1)(current_epoch_id s \<mapsto>
               e\<lparr>total_issued := sat_add 128 (total_issued e) v, key_rate := r\<rparr>)\<rparr>))"
    by (auto simp: do_request_credit_def update_dynamic_rate_def apply_dynamic_rate_to_epoch_def
        Let_def ok_simps sat_sub_def)
  have "compute_dynamic_rate cfg t = compute_dynamic_rate cfg s1"
    by (rule compute_dynamic_rate_cong) (simp add: t)
  with that[OF g] r show thesis by (simp add: t s1)
qed

lemma do_repay_creditD:
  assumes "do_repay_credit cfg a i v s = Ok t"
  obtains e r e' where
    "0 < v" "epochs s i = Some e" "v \<le> operator_debt s (a, i)"
    "v \<le> free_balance (currency cfg) (ledger s) a"
    "withdraw (currency cfg) (ledger s) a v KeepAlive = Ok (ledger t)"
    "((epochs s)(i \<mapsto> e\<lparr>total_repaid := sat_add 128 (total_repaid e) v\<rparr>)) (current_epoch_id s) = Some e'"
    "compute_dynamic_rate cfg t = Ok r"
    "current_epoch_id t = current_epoch_id s"
    "epochs t = (epochs s)(i \<mapsto> e\<lparr>total_repaid := sat_add 128 (total_repaid e) v\<rparr>,
                           current_epoch_id s \<mapsto> e'\<lparr>key_rate := r\<rparr>)"
    "operator_debt t = (operator_debt s)((a, i) := operator_debt s (a, i) - v)"
    "total_operator_debt t = (total_operator_debt s)(a := total_operator_debt s a - v)"
    "genesis_credit_available t =
       min (sat_add 128 (genesis_credit_available s) v) (credit_epoch_limit cfg)"
    "total_outstanding t = total_outstanding s - v"
    "total_emitted t = total_emitted s" "total_burned t = total_burned s"
    "cb_state.more t = cb_state.more s"
proof -
  from assms obtain e x where
    g: "0 < v" "epochs s i = Some e" "v \<le> operator_debt s (a, i)"
       "v \<le> free_balance (currency cfg) (ledger s) a" and
    w: "withdraw (currency cfg) (ledger s) a v KeepAlive = Ok x"
    by (auto simp: do_repay_credit_def ok_simps Let_def)
  define s1 where "s1 = s\<lparr>ledger := x,
           operator_debt := (operator_debt s)((a, i) := operator_debt s (a, i) - v),
           epochs := (epochs s)(i \<mapsto> e\<lparr>total_repaid := sat_add 128 (total_repaid e) v\<rparr>),
           total_operator_debt := (total_operator_debt s)(a := total_operator_debt s a - v),
           genesis_credit_available :=
             min (sat_add 128 (genesis_credit_available s) v) (credit_epoch_limit cfg),
           total_outstanding := total_outstanding s - v\<rparr>"
  have "and_then (update_dynamic_rate cfg s1) (\<lambda>(rate, s2).
        Ok (cb_deposit_event (DynamicRateUpdated rate (total_outstanding s2) (genesis_credit_available s1))
             (cb_deposit_event (CreditRepaid a i v (genesis_credit_available s1)) s2))) = Ok t"
    using assms g w by (simp add: do_repay_credit_def Let_def sat_sub_def s1_def)
  then obtain r e' where e': "epochs s1 (current_epoch_id s1) = Some e'" and
    r: "compute_dynamic_rate cfg s1 = Ok r" and
    t: "t = cb_deposit_event (DynamicRateUpdated r (total_outstanding s1) (genesis_credit_available s1))
          (cb_deposit_event (CreditRepaid a i v (genesis_credit_available s1))
            (s1\<lparr>epochs := (epochs s1)(current_epoch_id s1 \<mapsto> e'\<lparr>key_rate := r\<rparr>)\<rparr>))"
    by (auto simp: update_dynamic_rate_def apply_dynamic_rate_to_epoch_def ok_simps)
  have "compute_dynamic_rate cfg t = compute_dynamic_rate cfg s1"
    by (rule compute_dynamic_rate_cong) (simp add: t)
  with r have rt: "compute_dynamic_rate cfg t = Ok r" by simp
  show thesis
    by (rule that[of e e' r], use g w e' rt in \<open>simp_all add: t s1_def del: fun_upd_apply\<close>)
qed

lemma do_epoch_transitionD:
  assumes "do_epoch_transition cfg env i s = Ok (j, t)"
  obtains r where
    "compute_dynamic_rate cfg s = Ok r" "j = sat_add 32 i 1"
    "t = cb_deposit_event (EpochTransitioned i j r)
       (s\<lparr>epochs := (epochs s)(j \<mapsto> \<lparr>start_block = block_number env, key_rate = r, total_issued = 0,
             total_repaid = 0, credit_limit = credit_epoch_limit cfg\<rparr>),
          current_epoch_id := j\<rparr>)"
  using assms by (auto simp: do_epoch_transition_def Let_def ok_simps)

section \<open>Operations that leave the credit records alone\<close>

lemma create_and_fund_frame:
  "create_and_fund cfg env who v i s = Ok t \<Longrightarrow> \<exists>y. t = s\<lparr>ledger := y\<rparr>"
  by (auto simp: create_and_fund_def Let_def ok_simps)

lemma fund_regions_core:
  "fund_regions cfg env who cs i s = Ok (n, t) \<Longrightarrow>
     credit_core t = credit_core s \<and> total_emitted t = total_emitted s \<and> total_burned t = total_burned s
     \<and> cb_state.more t = cb_state.more s"
proof (induction cs arbitrary: i s)
  case Nil
  then show ?case by simp
next
  case (Cons c cs)
  then show ?case
    by (fastforce simp: Let_def ok_simps credit_core_def dest!: create_and_fund_frame)
qed

lemma genesis_distribution_core:
  "trigger_genesis_distribution cfg env og s = Ok t \<Longrightarrow>
     credit_core t = credit_core s \<and> total_emitted t = total_emitted s \<and> total_burned t = total_burned s
     \<and> cb_state.more t = cb_state.more s"
  by (auto simp: trigger_genesis_distribution_def Let_def ok_simps
      dest!: create_and_fund_frame fund_regions_core) (auto simp: credit_core_def)

lemma plain_handlers_core:
  "grant_operator_license cfg og a s = Ok t \<Longrightarrow> credit_core t = credit_core s"
  "revoke_operator_license cfg og a s = Ok t \<Longrightarrow> credit_core t = credit_core s"
  "mint_to_operator cfg og a v s = Ok t \<Longrightarrow> credit_core t = credit_core s"
  "cb_burn cfg og a v s = Ok t \<Longrightarrow> credit_core t = credit_core s"
  "set_base_rate cfg og r s = Ok t \<Longrightarrow> credit_core t = credit_core s"
  "issue_genesis_grant cfg og a n s = Ok t \<Longrightarrow> credit_core t = credit_core s"
  by (auto simp: cb_handler_defs Let_def ok_simps) (auto simp: credit_core_def)

section \<open>The invariant\<close>

text \<open>Pool: what is available and what is outstanding make up the limit.\<close>

definition pool_inv where
  "pool_inv cfg s \<longleftrightarrow>
     genesis_credit_available s + total_outstanding s = credit_epoch_limit cfg"

text \<open>Epochs: the records are exactly those of the epochs so far, and the current one carries the curve's
  rate at the current utilization.\<close>

definition epoch_inv where
  "epoch_inv cfg s \<longleftrightarrow>
     1 \<le> current_epoch_id s \<and> current_epoch_id s \<le> umax 32
     \<and> dom (epochs s) = {1..current_epoch_id s}
     \<and> (\<exists>e. epochs s (current_epoch_id s) = Some e \<and> compute_dynamic_rate cfg s = Ok (key_rate e))"

text \<open>Debts: per operator the epoch-tagged debts add up to its total, the totals to the outstanding credit.\<close>

definition debt_inv where
  "debt_inv s \<longleftrightarrow>
     finsupp (operator_debt s) \<and> finsupp (total_operator_debt s)
     \<and> (\<forall>a. tsum (\<lambda>i. operator_debt s (a, i)) = total_operator_debt s a)
     \<and> tsum (total_operator_debt s) = total_outstanding s"

text \<open>Epoch accounts: what an epoch issued is either repaid or still owed in it, as long as neither the
  epoch's counter nor the epoch number is at the end of its range.\<close>

definition account_inv where
  "account_inv s \<longleftrightarrow>
     (current_epoch_id s < umax 32 \<longrightarrow>
       (\<forall>i. \<forall>e. epochs s i = Some e \<longrightarrow> total_issued e < umax 128 \<longrightarrow>
          tsum (\<lambda>a. operator_debt s (a, i)) + total_repaid e = total_issued e)
       \<and> (\<forall>i. epochs s i = None \<longrightarrow> (\<forall>a. operator_debt s (a, i) = 0)))"

definition cb_inv where
  "cb_inv cfg s \<longleftrightarrow> pool_inv cfg s \<and> epoch_inv cfg s \<and> debt_inv s \<and> account_inv s"

lemma cb_inv_cong:
  assumes "credit_core t = credit_core s"
  shows "cb_inv cfg t = cb_inv cfg s"
proof -
  have eqs: "current_epoch_id t = current_epoch_id s" "epochs t = epochs s"
    "operator_debt t = operator_debt s" "total_operator_debt t = total_operator_debt s"
    "genesis_credit_available t = genesis_credit_available s" "total_outstanding t = total_outstanding s"
    using assms by (auto simp: credit_core_def)
  show ?thesis
    unfolding cb_inv_def pool_inv_def epoch_inv_def debt_inv_def account_inv_def eqs
      compute_dynamic_rate_cong[OF eqs(6)] ..
qed

lemma cb_inv_genesis: "cb_inv cfg (cb_genesis cfg ops x)"
  by (auto simp: cb_inv_def pool_inv_def epoch_inv_def debt_inv_def account_inv_def cb_genesis_def
      compute_dynamic_rate_def umax_def split: if_splits)

section \<open>Every operation keeps the invariant\<close>

lemma debt_entry_le:
  assumes "debt_inv s"
  shows "operator_debt s (a, i) \<le> total_operator_debt s a"
    and "total_operator_debt s a \<le> total_outstanding s"
proof -
  have f: "finsupp (operator_debt s)" "finsupp (total_operator_debt s)"
    using assms by (auto simp: debt_inv_def)
  show "operator_debt s (a, i) \<le> total_operator_debt s a"
    using tsum_member[OF finsupp_row[OF f(1)], of a i] assms by (simp add: debt_inv_def)
  show "total_operator_debt s a \<le> total_outstanding s"
    using tsum_member[OF f(2), of a] assms by (simp add: debt_inv_def)
qed

lemma request_pool_inv:
  assumes "cb_inv cfg s" "credit_epoch_limit cfg \<le> umax 128" "do_request_credit cfg a v s = Ok t"
  shows "pool_inv cfg t"
  using assms(3)
proof (rule do_request_creditD)
  assume "v \<le> genesis_credit_available s"
    and "genesis_credit_available t = genesis_credit_available s - v"
    and "total_outstanding t = sat_add 128 (total_outstanding s) v"
  then show ?thesis using assms(1,2) by (simp add: cb_inv_def pool_inv_def sat_add_def)
qed

lemma request_debt_inv:
  assumes inv: "cb_inv cfg s" and lim: "credit_epoch_limit cfg \<le> umax 128"
    and req: "do_request_credit cfg a v s = Ok t"
  shows "debt_inv t" and "operator_debt t = (operator_debt s)((a, current_epoch_id s) :=
           operator_debt s (a, current_epoch_id s) + v)"
proof -
  from req show debt: "operator_debt t = (operator_debt s)((a, current_epoch_id s) :=
      operator_debt s (a, current_epoch_id s) + v)"
  proof (rule do_request_creditD)
    assume "v \<le> genesis_credit_available s" and
      d: "operator_debt t = (operator_debt s)((a, current_epoch_id s) :=
         sat_add 128 (operator_debt s (a, current_epoch_id s)) v)"
    moreover have "operator_debt s (a, current_epoch_id s) \<le> total_outstanding s"
      using debt_entry_le(1)[of s a "current_epoch_id s"] debt_entry_le(2)[of s a] inv
      by (simp add: cb_inv_def)
    ultimately have "operator_debt s (a, current_epoch_id s) + v \<le> umax 128"
      using inv lim by (simp add: cb_inv_def pool_inv_def)
    with d show ?thesis by (simp add: sat_add_exact)
  qed
  from req show "debt_inv t"
  proof (rule do_request_creditD)
    assume v: "v \<le> genesis_credit_available s" and
      tot: "total_operator_debt t = (total_operator_debt s)(a := sat_add 128 (total_operator_debt s a) v)"
      and out: "total_outstanding t = sat_add 128 (total_outstanding s) v"
    have di: "debt_inv s" using inv by (simp add: cb_inv_def)
    have out': "total_outstanding t = total_outstanding s + v"
      using v inv lim out by (simp add: cb_inv_def pool_inv_def sat_add_def)
    have "total_operator_debt s a + v \<le> umax 128"
      using v inv lim debt_entry_le(2)[OF di, of a] by (simp add: cb_inv_def pool_inv_def)
    then have tot': "total_operator_debt t = (total_operator_debt s)(a := total_operator_debt s a + v)"
      using tot by (simp add: sat_add_exact)
    have f: "finsupp (operator_debt s)" "finsupp (total_operator_debt s)"
      using di by (auto simp: debt_inv_def)
    have "tsum (total_operator_debt t) = total_outstanding t"
      using tsum_upd[OF f(2), of a "total_operator_debt s a + v"] di
      by (simp add: tot' out' debt_inv_def)
    moreover have "tsum (\<lambda>i. operator_debt t (b, i)) = total_operator_debt t b" for b
    proof (cases "b = a")
      case True
      then show ?thesis
        using tsum_upd[OF finsupp_row[OF f(1)], of a "current_epoch_id s"
            "operator_debt s (a, current_epoch_id s) + v"] di
        by (simp add: debt row_upd debt_inv_def del: fun_upd_apply) (simp add: tot')
    next
      case False
      then show ?thesis using di by (simp add: debt tot' debt_inv_def)
    qed
    ultimately show ?thesis using f by (simp add: debt_inv_def debt tot')
  qed
qed

lemma request_epoch_inv:
  assumes "cb_inv cfg s" "do_request_credit cfg a v s = Ok t"
  shows "epoch_inv cfg t"
  using assms(2)
proof (rule do_request_creditD)
  fix e r
  assume "epochs s (current_epoch_id s) = Some e" "compute_dynamic_rate cfg t = Ok r"
    "current_epoch_id t = current_epoch_id s"
    "epochs t = (epochs s)(current_epoch_id s \<mapsto>
       e\<lparr>total_issued := sat_add 128 (total_issued e) v, key_rate := r\<rparr>)"
  then show ?thesis using assms(1) by (auto simp: cb_inv_def epoch_inv_def)
qed

lemma request_account_inv:
  assumes inv: "cb_inv cfg s" and lim: "credit_epoch_limit cfg \<le> umax 128"
    and req: "do_request_credit cfg a v s = Ok t"
  shows "account_inv t"
  using req
proof (rule do_request_creditD)
  fix e r
  let ?c = "current_epoch_id s"
  assume e: "epochs s ?c = Some e" and c: "current_epoch_id t = ?c" and
    ep: "epochs t = (epochs s)(?c \<mapsto> e\<lparr>total_issued := sat_add 128 (total_issued e) v, key_rate := r\<rparr>)"
  note debt = request_debt_inv(2)[OF inv lim req]
  have f: "finsupp (\<lambda>b. operator_debt s (b, ?c))"
    using inv by (intro finsupp_col) (simp add: cb_inv_def debt_inv_def)
  have col: "tsum (\<lambda>b. operator_debt t (b, ?c)) = tsum (\<lambda>b. operator_debt s (b, ?c)) + v"
    using tsum_upd[OF f, of a "operator_debt s (a, ?c) + v"]
    by (simp add: debt col_upd del: fun_upd_apply)
  have ai: "account_inv s" using inv by (simp add: cb_inv_def)
  have at: "tsum (\<lambda>b. operator_debt t (b, i)) + total_repaid e' = total_issued e'"
    if "?c < umax 32" "epochs t i = Some e'" "total_issued e' < umax 128" for i e'
  proof (cases "i = ?c")
    case True
    with that ep have e': "e' = e\<lparr>total_issued := sat_add 128 (total_issued e) v, key_rate := r\<rparr>" by simp
    with that have iss: "total_issued e' = total_issued e + v" by (auto dest: sat_add_below)
    with that have "total_issued e < umax 128" by simp
    with ai e that(1) have "tsum (\<lambda>b. operator_debt s (b, ?c)) + total_repaid e = total_issued e"
      by (simp add: account_inv_def)
    with col iss True e' show ?thesis by simp
  next
    case False
    with ep that ai show ?thesis by (simp add: account_inv_def debt)
  qed
  have "operator_debt t (b, i) = 0" if "?c < umax 32" "epochs t i = None" for b i
    using that ep ai by (auto simp: account_inv_def debt split: if_splits)
  with at show ?thesis using c by (simp add: account_inv_def)
qed

lemma request_cb_inv:
  assumes "cb_inv cfg s" "credit_epoch_limit cfg \<le> umax 128" "do_request_credit cfg a v s = Ok t"
  shows "cb_inv cfg t"
  using request_pool_inv[OF assms] request_debt_inv(1)[OF assms] request_epoch_inv[OF assms(1,3)]
    request_account_inv[OF assms]
  by (simp add: cb_inv_def[of cfg t])

lemma repay_pool_inv:
  assumes inv: "cb_inv cfg s" and "credit_epoch_limit cfg \<le> umax 128" and
    rep: "do_repay_credit cfg a i v s = Ok t"
  shows "pool_inv cfg t" and "genesis_credit_available t = genesis_credit_available s + v"
    and "total_outstanding t + v = total_outstanding s"
proof -
  have v: "v \<le> total_outstanding s"
    using rep debt_entry_le(1)[of s a i] debt_entry_le(2)[of s a] inv
    by (auto simp: cb_inv_def elim!: do_repay_creditD)
  from rep show av: "genesis_credit_available t = genesis_credit_available s + v"
  proof (rule do_repay_creditD)
    assume "genesis_credit_available t =
       min (sat_add 128 (genesis_credit_available s) v) (credit_epoch_limit cfg)"
    then show ?thesis using v assms(1,2) by (simp add: cb_inv_def pool_inv_def sat_add_def)
  qed
  from rep have "total_outstanding t = total_outstanding s - v" by (rule do_repay_creditD)
  with v show out: "total_outstanding t + v = total_outstanding s" by simp
  from av out inv show "pool_inv cfg t" by (simp add: cb_inv_def pool_inv_def)
qed

lemma repay_debt_inv:
  assumes inv: "cb_inv cfg s" and rep: "do_repay_credit cfg a i v s = Ok t"
  shows "debt_inv t"
  using rep
proof (rule do_repay_creditD)
  assume v: "v \<le> operator_debt s (a, i)" and
    debt: "operator_debt t = (operator_debt s)((a, i) := operator_debt s (a, i) - v)" and
    tot: "total_operator_debt t = (total_operator_debt s)(a := total_operator_debt s a - v)" and
    out: "total_outstanding t = total_outstanding s - v"
  have di: "debt_inv s" using inv by (simp add: cb_inv_def)
  have f: "finsupp (operator_debt s)" "finsupp (total_operator_debt s)"
    using di by (auto simp: debt_inv_def)
  note le = debt_entry_le(1)[OF di, of a i] debt_entry_le(2)[OF di, of a]
  have "tsum (total_operator_debt t) = total_outstanding t"
    using tsum_upd[OF f(2), of a "total_operator_debt s a - v"] di v le
    by (simp add: tot out debt_inv_def)
  moreover have "tsum (\<lambda>j. operator_debt t (b, j)) = total_operator_debt t b" for b
  proof (cases "b = a")
    case True
    then show ?thesis
      using tsum_upd[OF finsupp_row[OF f(1)], of a i "operator_debt s (a, i) - v"] di v le
      by (simp add: debt row_upd debt_inv_def del: fun_upd_apply) (simp add: tot)
  next
    case False
    then show ?thesis using di by (simp add: debt tot debt_inv_def)
  qed
  ultimately show ?thesis using f by (simp add: debt_inv_def debt tot)
qed

lemma repay_epoch_inv:
  assumes "cb_inv cfg s" "do_repay_credit cfg a i v s = Ok t"
  shows "epoch_inv cfg t"
  using assms(2)
proof (rule do_repay_creditD)
  fix e r e'
  assume "epochs s i = Some e" "compute_dynamic_rate cfg t = Ok r"
    "current_epoch_id t = current_epoch_id s"
    "epochs t = (epochs s)(i \<mapsto> e\<lparr>total_repaid := sat_add 128 (total_repaid e) v\<rparr>,
                           current_epoch_id s \<mapsto> e'\<lparr>key_rate := r\<rparr>)"
  then show ?thesis using assms(1) by (auto simp: cb_inv_def epoch_inv_def)
qed

lemma repay_account_inv:
  assumes inv: "cb_inv cfg s" and rep: "do_repay_credit cfg a i v s = Ok t"
  shows "account_inv t"
  using rep
proof (rule do_repay_creditD)
  fix e :: epoch_info and r and e' :: epoch_info
  let ?c = "current_epoch_id s" and ?e = "e\<lparr>total_repaid := sat_add 128 (total_repaid e) v\<rparr>"
  assume e: "epochs s i = Some e" and v: "v \<le> operator_debt s (a, i)" and
    e': "((epochs s)(i \<mapsto> ?e)) ?c = Some e'" and
    c: "current_epoch_id t = ?c" and
    ep: "epochs t = (epochs s)(i \<mapsto> ?e, ?c \<mapsto> e'\<lparr>key_rate := r\<rparr>)" and
    debt: "operator_debt t = (operator_debt s)((a, i) := operator_debt s (a, i) - v)"
  have ai: "account_inv s" using inv by (simp add: cb_inv_def)
  have f: "finsupp (\<lambda>b. operator_debt s (b, i))"
    using inv by (intro finsupp_col) (simp add: cb_inv_def debt_inv_def)
  have v': "v \<le> tsum (\<lambda>b. operator_debt s (b, i))"
    using v tsum_member[OF f, of a] by simp
  have col: "tsum (\<lambda>b. operator_debt t (b, i)) + v = tsum (\<lambda>b. operator_debt s (b, i))"
    using tsum_upd[OF f, of a "operator_debt s (a, i) - v"] v
    by (simp add: debt col_upd del: fun_upd_apply)
  have other: "tsum (\<lambda>b. operator_debt t (b, j)) = tsum (\<lambda>b. operator_debt s (b, j))" if "j \<noteq> i" for j
    using that by (simp add: debt)
  have upd: "\<exists>d. ((epochs s)(i \<mapsto> ?e)) j = Some d \<and> total_issued d = total_issued d'
               \<and> total_repaid d = total_repaid d'" if "epochs t j = Some d'" for j d'
    using that e' by (auto simp: ep split: if_splits)
  have "tsum (\<lambda>b. operator_debt t (b, j)) + total_repaid d' = total_issued d'"
    if "?c < umax 32" "epochs t j = Some d'" "total_issued d' < umax 128" for j d'
  proof -
    from upd[OF that(2)] obtain d where d: "((epochs s)(i \<mapsto> ?e)) j = Some d"
      "total_issued d = total_issued d'" "total_repaid d = total_repaid d'" by blast
    show ?thesis
    proof (cases "j = i")
      case True
      with d have "total_issued e = total_issued d'" by auto
      with ai e that have sum: "tsum (\<lambda>b. operator_debt s (b, i)) + total_repaid e = total_issued e"
        by (simp add: account_inv_def)
      have "total_repaid e + v \<le> umax 128"
        using sum v' that(3) \<open>total_issued e = total_issued d'\<close> by simp
      then have "total_repaid d' = total_repaid e + v"
        using d True by (auto simp: sat_add_exact)
      with col sum True \<open>total_issued e = total_issued d'\<close> show ?thesis by simp
    next
      case False
      with d have "epochs s j = Some d" by simp
      moreover have "total_issued d < umax 128" using that(3) d(2) by simp
      ultimately have "tsum (\<lambda>b. operator_debt s (b, j)) + total_repaid d = total_issued d"
        using ai that(1) by (simp add: account_inv_def)
      then show ?thesis using d(2,3) False by (simp add: other)
    qed
  qed
  moreover have "operator_debt t (b, j) = 0" if "?c < umax 32" "epochs t j = None" for b j
    using that ai by (auto simp: account_inv_def ep debt split: if_splits)
  ultimately show ?thesis using c by (simp add: account_inv_def)
qed

lemma repay_cb_inv:
  assumes "cb_inv cfg s" "credit_epoch_limit cfg \<le> umax 128" "do_repay_credit cfg a i v s = Ok t"
  shows "cb_inv cfg t"
  using repay_pool_inv(1)[OF assms] repay_debt_inv[OF assms(1,3)] repay_epoch_inv[OF assms(1,3)]
    repay_account_inv[OF assms(1,3)]
  by (simp add: cb_inv_def[of cfg t])

lemma transition_cb_inv:
  assumes inv: "cb_inv cfg s" and tr: "do_epoch_transition cfg env (current_epoch_id s) s = Ok (j, t)"
  shows "cb_inv cfg t"
  using tr
proof (rule do_epoch_transitionD)
  fix r
  let ?c = "current_epoch_id s"
  let ?n = "\<lparr>start_block = block_number env, key_rate = r, total_issued = 0, total_repaid = 0,
             credit_limit = credit_epoch_limit cfg\<rparr>"
  assume r: "compute_dynamic_rate cfg s = Ok r" and j: "j = sat_add 32 ?c 1" and
    t: "t = cb_deposit_event (EpochTransitioned ?c j r)
       (s\<lparr>epochs := (epochs s)(j \<mapsto> ?n), current_epoch_id := j\<rparr>)"
  have ei: "epoch_inv cfg s" and ai: "account_inv s" using inv by (auto simp: cb_inv_def)
  have same: "total_outstanding t = total_outstanding s" by (simp add: t)
  have rt: "compute_dynamic_rate cfg t = Ok r" using r compute_dynamic_rate_cong[OF same] by simp
  have jc: "?c \<le> j" "j \<le> umax 32" "j \<le> Suc ?c" using ei by (auto simp: j epoch_inv_def sat_add_def)
  have "dom (epochs t) = {1..j}"
  proof (cases "j = Suc ?c")
    case True
    with ei show ?thesis by (auto simp: t epoch_inv_def)
  next
    case False
    with jc have "j = ?c" by simp
    with ei show ?thesis by (auto simp: t epoch_inv_def)
  qed
  then have "epoch_inv cfg t" using ei jc rt by (auto simp: epoch_inv_def t)
  moreover have "account_inv t" unfolding account_inv_def
  proof (intro impI conjI allI)
    assume lt: "current_epoch_id t < umax 32"
    then have c: "?c < umax 32" and jS: "j = Suc ?c" using jc by (auto simp: t j sat_add_def)
    then have "j \<notin> dom (epochs s)" using ei by (auto simp: epoch_inv_def)
    then have "epochs s j = None" by (simp add: domIff)
    with ai c have zero: "\<And>b. operator_debt s (b, j) = 0" by (simp add: account_inv_def)
    fix i
    show "tsum (\<lambda>b. operator_debt t (b, i)) + total_repaid e = total_issued e"
      if "epochs t i = Some e" "total_issued e < umax 128" for e
      using that ai c zero by (auto simp: account_inv_def t split: if_splits)
    show "operator_debt t (b, i) = 0" if "epochs t i = None" for b
      using that ai c by (auto simp: account_inv_def t split: if_splits)
  qed
  moreover have "pool_inv cfg t" "debt_inv t"
    using inv by (auto simp: cb_inv_def pool_inv_def debt_inv_def t)
  ultimately show ?thesis by (simp add: cb_inv_def)
qed

lemma plain_dispatch_core:
  assumes "cb_dispatch cfg (env, og, call) s = Ok t"
    and "\<And>v. call \<noteq> RequestCredit v" "\<And>i v. call \<noteq> RepayCredit i v" "call \<noteq> TransitionEpoch"
  shows "credit_core t = credit_core s"
  using assms(1)
  by (cases call) (auto simp: assms(2-4) dest: plain_handlers_core genesis_distribution_core)

theorem cb_dispatch_inv:
  assumes inv: "cb_inv cfg s" and lim: "credit_epoch_limit cfg \<le> umax 128"
    and d: "cb_dispatch cfg c s = Ok t"
  shows "cb_inv cfg t"
proof -
  obtain env og call where c: "c = (env, og, call)" by (cases c) auto
  consider (epoch) "call = TransitionEpoch" | (request) v where "call = RequestCredit v"
    | (repay) i v where "call = RepayCredit i v"
    | (plain) "call \<noteq> TransitionEpoch" "\<And>v. call \<noteq> RequestCredit v" "\<And>i v. call \<noteq> RepayCredit i v"
    by blast
  then show ?thesis
  proof cases
    case epoch
    with d c obtain j t' r where
      tr: "do_epoch_transition cfg env (current_epoch_id s) s = Ok (j, t')" and
      t: "t = cb_deposit_event (EpochTransitionManual (current_epoch_id s) j r) t'"
      by (auto simp: transition_epoch_def Let_def ok_simps)
    have "credit_core t = credit_core t'" by (simp add: t)
    from cb_inv_cong[OF this] transition_cb_inv[OF inv tr] show ?thesis by (rule iffD2)
  next
    case request
    with d c show ?thesis by (auto simp: request_credit_def ok_simps intro: request_cb_inv[OF inv lim])
  next
    case repay
    with d c show ?thesis by (auto simp: repay_credit_def ok_simps intro: repay_cb_inv[OF inv lim])
  next
    case plain
    have "cb_dispatch cfg (env, og, call) s = Ok t" using d c by simp
    then have "credit_core t = credit_core s" by (rule plain_dispatch_core) (use plain in auto)
    from cb_inv_cong[OF this] inv show ?thesis by (rule iffD2)
  qed
qed

end
