(* ===== verification/Central_Bank_Props.thy ===== *)
theory Central_Bank_Props
  imports Central_Bank_Invariants
begin

text \<open>
  The central bank seen from outside: its instances of the shared contracts, the monetary bound, and the
  properties of its operations.
\<close>

section \<open>Instances of the contracts\<close>

text \<open>Other pallets and users move balances between two calls of the pallet; \<open>P\<close> bounds what they do.\<close>

definition ledger_step :: "('x \<Rightarrow> 'x \<Rightarrow> bool) \<Rightarrow> ('x, 'z) cb_state_scheme \<Rightarrow> ('x, 'z) cb_state_scheme \<Rightarrow> bool" where
  "ledger_step P s t \<longleftrightarrow> (\<exists>y. P (ledger s) y \<and> t = s\<lparr>ledger := y\<rparr>)"

definition cb_good :: "'x cb_config \<Rightarrow> ('x, 'z) cb_state_scheme \<Rightarrow> bool" where
  "cb_good cfg s \<longleftrightarrow> credit_epoch_limit cfg \<le> umax 128 \<and> cb_inv cfg s"

lemma ledger_step_core: "ledger_step P s t \<Longrightarrow> credit_core t = credit_core s"
  by (auto simp: ledger_step_def credit_core_def)

lemma cb_good_core: "credit_core t = credit_core s \<Longrightarrow> cb_good cfg s \<Longrightarrow> cb_good cfg t"
  unfolding cb_good_def using cb_inv_cong by blast

interpretation cbm: pallet_machine "cb_dispatch cfg" "ledger_step P" "cb_good cfg"
  for cfg :: "'x cb_config" and P
proof
  show "cb_good cfg t" if "cb_good cfg s" "cb_dispatch cfg c s = Ok t" for s t c
    using that unfolding cb_good_def by (blast intro: cb_dispatch_inv)
  show "cb_good cfg t" if "cb_good cfg s" "ledger_step P s t" for s t
    using that by (auto dest: ledger_step_core intro: cb_good_core)
qed

interpretation cbf: credit_facility "do_request_credit cfg" "do_repay_credit cfg"
  total_operator_debt genesis_credit_available "credit_epoch_limit cfg" "cb_good cfg"
  for cfg :: "'x cb_config"
proof
  show "cb_good cfg t" if "cb_good cfg s" "do_request_credit cfg a v s = Ok t" for s t a v
    using that request_cb_inv by (auto simp: cb_good_def)
  show "cb_good cfg t" if "cb_good cfg s" "do_repay_credit cfg a i v s = Ok t" for s t a i v
    using that repay_cb_inv by (auto simp: cb_good_def)
  show "genesis_credit_available t + v = genesis_credit_available s \<and>
        total_operator_debt t = (total_operator_debt s)(a := total_operator_debt s a + v)"
    if g: "cb_good cfg s" and r: "do_request_credit cfg a v s = Ok t" for s t a v
    using r
  proof (rule do_request_creditD)
    assume v: "v \<le> genesis_credit_available s" and
      "genesis_credit_available t = genesis_credit_available s - v" and
      "total_operator_debt t = (total_operator_debt s)(a := sat_add 128 (total_operator_debt s a) v)"
    moreover have "total_operator_debt s a + v \<le> umax 128"
      using g v debt_entry_le(2)[of s a] by (simp add: cb_good_def cb_inv_def pool_inv_def)
    ultimately show ?thesis by (simp add: sat_add_exact)
  qed
  show "genesis_credit_available t = genesis_credit_available s + v \<and> v \<le> total_operator_debt s a \<and>
        total_operator_debt t = (total_operator_debt s)(a := total_operator_debt s a - v)"
    if g: "cb_good cfg s" and r: "do_repay_credit cfg a i v s = Ok t" for s t a i v
    using r
  proof (rule do_repay_creditD)
    assume "v \<le> operator_debt s (a, i)"
      "total_operator_debt t = (total_operator_debt s)(a := total_operator_debt s a - v)"
    moreover have "operator_debt s (a, i) \<le> total_operator_debt s a"
      using g debt_entry_le(1) by (auto simp: cb_good_def cb_inv_def)
    ultimately show ?thesis using repay_pool_inv(2)[OF _ _ r] g by (simp add: cb_good_def)
  qed
  show "total_operator_debt s a + genesis_credit_available s \<le> credit_epoch_limit cfg"
    if "cb_good cfg s" for s a
    using that debt_entry_le(2)[of s a] by (simp add: cb_good_def cb_inv_def pool_inv_def)
qed

lemma cb_good_genesis: "credit_epoch_limit cfg \<le> umax 128 \<Longrightarrow> cb_good cfg (cb_genesis cfg ops x)"
  by (simp add: cb_good_def cb_inv_genesis)

section \<open>The monetary bound\<close>

text \<open>
  Hypotheses on third-party code: the currency behaves as documented, and \<open>create_pure\<close> only reserves a
  deposit of the caller.
\<close>

definition cb_outside_ok :: "'x cb_config \<Rightarrow> bool" where
  "cb_outside_ok cfg \<longleftrightarrow> currency_ok (currency cfg)
     \<and> (\<forall>x who i p y. create_pure cfg x who i p = Ok y \<longrightarrow>
          total_issuance (currency cfg) y = total_issuance (currency cfg) x
          \<and> (\<forall>b. b \<noteq> who \<longrightarrow> free_balance (currency cfg) y b = free_balance (currency cfg) x b))"

definition issuance_inv :: "'x cb_config \<Rightarrow> balance \<Rightarrow> ('x, 'z) cb_state_scheme \<Rightarrow> bool" where
  "issuance_inv cfg base s \<longleftrightarrow>
     total_issuance (currency cfg) (ledger s) + total_burned s
       \<le> base + total_outstanding s + total_emitted s"

text \<open>Other pallets mint too (the bank operator its credits, the shielded vaults their withdrawals), so the
  run of the bank is kept with a meter: every move of the ledger between two of its calls adds what it minted.
  A move that burns does not turn the meter back.\<close>

inductive metered :: "'x cb_config \<Rightarrow> 'x cb_state \<Rightarrow> 'x cb_state \<Rightarrow> balance \<Rightarrow> bool" for cfg s0 where
  start: "metered cfg s0 s0 0"
| call: "metered cfg s0 s m \<Longrightarrow> cb_dispatch cfg c s = Ok t \<Longrightarrow> metered cfg s0 t m"
| other: "metered cfg s0 s m \<Longrightarrow> ledger_step (\<lambda>_ _. True) s t \<Longrightarrow>
    metered cfg s0 t (m + (total_issuance (currency cfg) (ledger t) - total_issuance (currency cfg) (ledger s)))"

lemma metered_reachable:
  "reachable (cb_dispatch cfg) (ledger_step P) s0 s \<Longrightarrow> \<exists>m. metered cfg s0 s m"
proof (induction rule: reachable.induct)
  case (other s t)
  then obtain m where "metered cfg s0 s m" by blast
  moreover have "ledger_step (\<lambda>_ _. True) s t" using other.hyps(2) by (auto simp: ledger_step_def)
  ultimately show ?case by (blast intro: metered.other)
qed (auto intro: metered.intros)

lemma create_and_fundD:
  assumes "create_and_fund cfg env who v i s = Ok t"
  obtains x where "create_pure cfg (ledger s) who i (pure_at env) = Ok x"
    "transfer (currency cfg) x (central_bank_account_id cfg) (pure_account cfg who i (pure_at env)) v KeepAlive
       = Ok (ledger t)"
    "t = s\<lparr>ledger := ledger t\<rparr>"
  using assms by (auto simp: create_and_fund_def Let_def ok_simps)

lemma create_and_fund_issuance:
  assumes ok: "cb_outside_ok cfg" and r: "create_and_fund cfg env who v i s = Ok t"
  shows "total_issuance (currency cfg) (ledger t) = total_issuance (currency cfg) (ledger s)"
  using r
proof (rule create_and_fundD)
  fix x
  assume "create_pure cfg (ledger s) who i (pure_at env) = Ok x"
    and tr: "transfer (currency cfg) x (central_bank_account_id cfg)
               (pure_account cfg who i (pure_at env)) v KeepAlive = Ok (ledger t)"
  then have "total_issuance (currency cfg) x = total_issuance (currency cfg) (ledger s)"
    using ok unfolding cb_outside_ok_def by blast
  with transfer_keepD(2)[OF _ tr] ok show ?thesis by (simp add: cb_outside_ok_def)
qed

lemma fund_regions_ledger:
  fixes s t :: "('x, 'z) cb_state_scheme"
  assumes step: "\<And>v j (s :: ('x, 'z) cb_state_scheme) t. create_and_fund cfg env who v j s = Ok t \<Longrightarrow> P (ledger s) \<Longrightarrow> P (ledger t)"
  shows "fund_regions cfg env who cs i s = Ok (n, t) \<Longrightarrow> P (ledger s) \<Longrightarrow> P (ledger t)"
proof (induction cs arbitrary: i s)
  case Nil
  then show ?case by simp
next
  case (Cons c cs)
  let ?rp = "pure_account cfg who i (pure_at env)" and ?pp = "pure_account cfg who (i + 1) (pure_at env)"
  let ?s2 = "\<lambda>s1. cb_deposit_event (RegionalTreasuryCreated c ?rp regional_per_region)
                (s1\<lparr>regional_treasuries := (regional_treasuries s1)(c \<mapsto> ?rp)\<rparr>)"
  let ?s4 = "\<lambda>s3. cb_deposit_event (PensionFundCreated c ?pp reserve_per_region)
                (s3\<lparr>pension_funds := (pension_funds s3)(c \<mapsto> ?pp)\<rparr>)"
  from Cons.prems(1) obtain s1 s3 where
    s1: "create_and_fund cfg env who regional_per_region i s = Ok s1" and
    s3: "create_and_fund cfg env who reserve_per_region (i + 1) (?s2 s1) = Ok s3" and
    rest: "fund_regions cfg env who cs (i + 2) (?s4 s3) = Ok (n, t)"
    by (simp only: fund_regions.simps Let_def and_then_Ok) blast
  have "P (ledger s3)" using step[OF s1 Cons.prems(2)] step[OF s3] by simp
  then show ?case by (intro Cons.IH[OF rest]) simp
qed

lemma fund_regions_issuance:
  assumes "cb_outside_ok cfg" "fund_regions cfg env who cs i s = Ok (n, t)"
  shows "total_issuance (currency cfg) (ledger t) = total_issuance (currency cfg) (ledger s)"
  by (rule fund_regions_ledger[where P = "\<lambda>x. total_issuance (currency cfg) x
        = total_issuance (currency cfg) (ledger s)", OF _ assms(2)])
    (auto dest: create_and_fund_issuance[OF assms(1)])

lemma genesis_distribution_issuance:
  assumes "cb_outside_ok cfg" "trigger_genesis_distribution cfg env og s = Ok t"
  shows "total_issuance (currency cfg) (ledger t) = total_issuance (currency cfg) (ledger s)"
  using assms(2)
  by (auto simp: trigger_genesis_distribution_def Let_def ok_simps
      dest!: create_and_fund_issuance[OF assms(1)] fund_regions_issuance[OF assms(1)])

lemma request_issuance:
  assumes ok: "cb_outside_ok cfg" and g: "cb_good cfg s" and inv: "issuance_inv cfg b s"
    and r: "do_request_credit cfg a v s = Ok t"
  shows "issuance_inv cfg b t"
  using r
proof (rule do_request_creditD)
  assume "v \<le> genesis_credit_available s"
    and out: "total_outstanding t = sat_add 128 (total_outstanding s) v"
    and l: "ledger t = deposit_creating (currency cfg) (ledger s) a v"
    and same: "total_emitted t = total_emitted s" "total_burned t = total_burned s"
  then have "total_outstanding t = total_outstanding s + v"
    using g by (simp add: cb_good_def cb_inv_def pool_inv_def sat_add_def)
  then show ?thesis
    using inv deposit_issuance_le[of "currency cfg" "ledger s" a v] ok
    by (simp add: issuance_inv_def l same cb_outside_ok_def)
qed

lemma repay_issuance:
  assumes ok: "cb_outside_ok cfg" and g: "cb_good cfg s" and inv: "issuance_inv cfg b s"
    and r: "do_repay_credit cfg a i v s = Ok t"
  shows "issuance_inv cfg b t"
  using r
proof (rule do_repay_creditD)
  assume w: "withdraw (currency cfg) (ledger s) a v KeepAlive = Ok (ledger t)"
    and same: "total_emitted t = total_emitted s" "total_burned t = total_burned s"
  have "total_outstanding t + v = total_outstanding s"
    using repay_pool_inv(3)[OF _ _ r] g by (simp add: cb_good_def)
  then show ?thesis
    using inv withdraw_keepD(2)[OF _ w] ok by (simp add: issuance_inv_def same cb_outside_ok_def)
qed

lemma emission_issuance:
  assumes ok: "cb_outside_ok cfg" and inv: "issuance_inv cfg b s"
  shows "mint_to_operator cfg og a v s = Ok t \<Longrightarrow> issuance_inv cfg b t"
    and "issue_genesis_grant cfg og a n s = Ok t \<Longrightarrow> issuance_inv cfg b t"
    and "cb_burn cfg og a v s = Ok t \<Longrightarrow> issuance_inv cfg b t"
proof -
  have dep: "total_issuance (currency cfg) (deposit_creating (currency cfg) (ledger s) a w)
      \<le> total_issuance (currency cfg) (ledger s) + w" for w
    using deposit_issuance_le ok by (auto simp: cb_outside_ok_def)
  show "mint_to_operator cfg og a v s = Ok t \<Longrightarrow> issuance_inv cfg b t"
    using inv dep[of v] by (auto simp: mint_to_operator_def Let_def ok_simps issuance_inv_def
        checked_add_def split: if_splits)
  show "issue_genesis_grant cfg og a n s = Ok t \<Longrightarrow> issuance_inv cfg b t"
    using inv dep[of genesis_grant] by (auto simp: issue_genesis_grant_def Let_def ok_simps
        issuance_inv_def checked_add_def split: if_splits)
  have "total_issuance (currency cfg) x + v = total_issuance (currency cfg) (ledger s)"
    if "withdraw (currency cfg) (ledger s) a v KeepAlive = Ok x" for x
    using that ok withdraw_keepD(2) by (auto simp: cb_outside_ok_def)
  then show "cb_burn cfg og a v s = Ok t \<Longrightarrow> issuance_inv cfg b t"
    using inv by (fastforce simp: cb_burn_def ok_simps issuance_inv_def checked_add_def split: if_splits)
qed

lemma quiet_issuance:
  assumes "issuance_inv cfg b s"
  shows "grant_operator_license cfg og a s = Ok t \<Longrightarrow> issuance_inv cfg b t"
    and "revoke_operator_license cfg og a s = Ok t \<Longrightarrow> issuance_inv cfg b t"
    and "set_base_rate cfg og n s = Ok t \<Longrightarrow> issuance_inv cfg b t"
    and "transition_epoch cfg env og s = Ok t \<Longrightarrow> issuance_inv cfg b t"
  using assms by (auto simp: cb_handler_defs Let_def ok_simps issuance_inv_def)

lemma dispatch_issuance:
  assumes ok: "cb_outside_ok cfg" and g: "cb_good cfg s" and inv: "issuance_inv cfg b s"
    and d: "cb_dispatch cfg c s = Ok t"
  shows "issuance_inv cfg b t"
proof -
  obtain env og call where c: "c = (env, og, call)" by (cases c) auto
  note d' = d[unfolded c]
  show ?thesis
  proof (cases call)
    case (RequestCredit v)
    with d' show ?thesis
      by (auto simp: request_credit_def ok_simps intro: request_issuance[OF ok g inv])
  next
    case (RepayCredit i v)
    with d' show ?thesis
      by (auto simp: repay_credit_def ok_simps intro: repay_issuance[OF ok g inv])
  next
    case TriggerGenesisDistribution
    with d' inv show ?thesis
      using genesis_distribution_issuance[OF ok, of env og s t] genesis_distribution_core[of cfg env og s t]
      by (simp add: issuance_inv_def credit_core_def)
  qed (use d' quiet_issuance[OF inv] emission_issuance[OF ok inv] in \<open>auto\<close>)
qed

lemma metered_issuance:
  assumes ok: "cb_outside_ok cfg" and "metered cfg s0 s m"
    and "cb_good cfg s0" and "issuance_inv cfg b s0"
  shows "cb_good cfg s \<and> issuance_inv cfg (b + m) s"
  using assms(2,3,4)
proof (induction rule: metered.induct)
  case (call s m c t)
  then show ?case using dispatch_issuance[OF ok] cbm.dispatch_inv by blast
next
  case (other s m t)
  then have "cb_good cfg t" using cbm.foreign_inv by blast
  moreover have "issuance_inv cfg (b + (m + (total_issuance (currency cfg) (ledger t)
      - total_issuance (currency cfg) (ledger s)))) t"
    using other by (auto simp: ledger_step_def issuance_inv_def)
  ultimately show ?case by blast
qed simp

section \<open>A concrete configuration\<close>

text \<open>Used by the witnesses: the runtime's constants over the book ledger, Root as the banking origin.\<close>

definition book_cfg :: "book cb_config" where
  "book_cfg = runtime_cb_config (book_base 1) 1 2 (\<lambda>_ og. og = Root) (\<lambda>who i p. 1000 + i) (\<lambda>x who i p. Ok x)"

definition book_start :: book where
  "book_start = \<lparr>bal = (\<lambda>_. 0)(2 := 2100000000000000000000000, 7 := 1000, 8 := 500),
                 issued = 2100000000000000000001500, lock_of = (\<lambda>_ _. None)\<rparr>"

definition no_env :: env where
  "no_env = \<lparr>block_number = 5, extrinsic_index = Some 1\<rparr>"

abbreviation book_run where
  "book_run cs \<equiv> run (cb_dispatch book_cfg) (map (\<lambda>(og, c). (no_env, og, c)) cs) (cb_genesis book_cfg [] book_start)"

lemma book_cfg_limit: "credit_epoch_limit book_cfg \<le> umax 128"
  by (simp add: book_cfg_def runtime_cb_config_def umax_def)

lemma book_cfg_rates: "rates_ok book_cfg"
  unfolding book_cfg_def by (rule rates_ok_runtime)

lemma book_cfg_outside: "cb_outside_ok book_cfg"
  by (simp add: cb_outside_ok_def book_cfg_def runtime_cb_config_def book_currency_ok)

lemmas book_eval = book_cfg_def book_start_def no_env_def runtime_cb_config_def book_defs cb_genesis_def
  execute_def cb_handler_defs update_dynamic_rate_def apply_dynamic_rate_to_epoch_def
  compute_dynamic_rate_def utilization_percent_def checked_defs sat_add_def sat_sub_def sat_mul_def
  umax_def Let_def

lemma book_credit_run:
  "total_outstanding (book_run [(Root, GrantOperatorLicense 7), (Signed 7, RequestCredit 500)]) = 500"
  by (simp add: book_eval)

end
