(* ===== verification/Central_Bank_Claims.thy ===== *)
theory Central_Bank_Claims
  imports Central_Bank_Props
begin

text \<open>The properties of the central bank. Each is followed by its instance on the book ledger.\<close>

section \<open>Credit records\<close>

text \<open>C1: The rotating credit pool is conserved. In every state the pallet can reach, whatever other pallets
  do to the ledger in between, the available and the outstanding credit add up to the constitutional limit,
  the outstanding credit is the sum of the operators' debts, each operator's debt is the sum of its
  epoch-tagged debts, and in every epoch the credit issued is either repaid or still owed there (up to the
  end of the number range).\<close>

theorem credit_records_conserved:
  assumes "credit_epoch_limit cfg \<le> umax 128"
    and "reachable (cb_dispatch cfg) (ledger_step P) (cb_genesis cfg ops x0) s"
  shows "genesis_credit_available s + total_outstanding s = credit_epoch_limit cfg
    \<and> tsum (total_operator_debt s) = total_outstanding s
    \<and> (\<forall>a. tsum (\<lambda>i. operator_debt s (a, i)) = total_operator_debt s a)
    \<and> (current_epoch_id s < umax 32 \<longrightarrow>
         (\<forall>i e. epochs s i = Some e \<longrightarrow> total_issued e < umax 128 \<longrightarrow>
            tsum (\<lambda>b. operator_debt s (b, i)) + total_repaid e = total_issued e))"
  using cbm.reachable_inv[OF assms(2) cb_good_genesis[OF assms(1)]]
  by (auto simp: cb_good_def cb_inv_def pool_inv_def debt_inv_def account_inv_def)

theorem credit_records_conserved_witness:
  "\<exists>s :: book cb_state. total_outstanding s = 300 \<and> genesis_credit_available s + total_outstanding s = credit_epoch_limit book_cfg"
proof -
  let ?cs = "[(Root, GrantOperatorLicense 7), (Signed 7, RequestCredit 500), (Signed 7, RepayCredit 1 200)]"
  have "reachable (cb_dispatch book_cfg) (ledger_step (\<lambda>_ _. True)) (cb_genesis book_cfg [] book_start) (book_run ?cs)"
    by (rule reachable_run[OF reachable.start])
  note credit_records_conserved[OF book_cfg_limit this]
  moreover have "total_outstanding (book_run ?cs) = 300" by (simp add: book_eval)
  ultimately show ?thesis by blast
qed

text \<open>C3: The monetary bound. If the currency and the proxy pallet behave as documented, then along every run of
  the bank's calls, between which anything may happen to the ledger, the issuance is at most the initial
  issuance plus what the bank emitted less what it burned, plus the outstanding credit, plus what everybody
  else minted in between (the meter of the run, which every run has). The outstanding credit never exceeds
  the credit limit; neither the bank's emission nor the others' minting has a cap.\<close>

theorem issuance_bounded:
  assumes "cb_outside_ok cfg" "credit_epoch_limit cfg \<le> umax 128"
  shows "(reachable (cb_dispatch cfg) (ledger_step P) (cb_genesis cfg ops x0) s \<longrightarrow>
           (\<exists>minted. metered cfg (cb_genesis cfg ops x0) s minted))
    \<and> (metered cfg (cb_genesis cfg ops x0) s minted \<longrightarrow>
         total_issuance (currency cfg) (ledger s) + total_burned s
           \<le> total_issuance (currency cfg) x0 + total_emitted s + total_outstanding s + minted
         \<and> total_outstanding s \<le> credit_epoch_limit cfg)"
proof -
  let ?b = "total_issuance (currency cfg) x0"
  have "cb_good cfg s \<and> issuance_inv cfg (?b + minted) s" if "metered cfg (cb_genesis cfg ops x0) s minted"
    by (rule metered_issuance[OF assms(1) that cb_good_genesis[OF assms(2)]])
      (simp add: issuance_inv_def cb_genesis_def)
  then show ?thesis
    using metered_reachable by (auto simp: issuance_inv_def cb_good_def cb_inv_def pool_inv_def)
qed

text \<open>Somebody mints 50 to account 9 between the licence and the credit.\<close>

theorem issuance_bounded_witness:
  "\<exists>s :: book cb_state. total_outstanding s = 500 \<and>
       total_issuance (currency book_cfg) (ledger s) \<le> issued book_start + total_emitted s + 550"
proof -
  let ?g = "cb_genesis book_cfg [] book_start"
  let ?s = "book_run [(Root, GrantOperatorLicense 7)]"
  let ?t = "?s\<lparr>ledger := deposit_creating (currency book_cfg) (ledger ?s) 9 50\<rparr>"
  have grant: "cb_dispatch book_cfg (at_block 0, Root, GrantOperatorLicense 7) ?g = Ok ?s"
    by (simp add: book_eval)
  have credit: "\<exists>u. cb_dispatch book_cfg (at_block 0, Signed 7, RequestCredit 500) ?t = Ok u \<and> total_outstanding u = 500"
    by (simp add: book_eval)
  then obtain u where u: "cb_dispatch book_cfg (at_block 0, Signed 7, RequestCredit 500) ?t = Ok u"
    "total_outstanding u = 500" by blast
  have minted: "total_issuance (currency book_cfg) (ledger ?t) - total_issuance (currency book_cfg) (ledger ?s) = 50"
    by (simp add: book_eval)
  have "ledger_step (\<lambda>_ _. True) ?s ?t" unfolding ledger_step_def by blast
  from metered.call[OF metered.other[OF metered.call[OF metered.start grant] this] u(1)]
  have "metered book_cfg ?g u 50" by (simp only: minted add_0)
  with issuance_bounded[OF book_cfg_outside book_cfg_limit, of "\<lambda>_ _. True" "[]" book_start u 50] u(2)
  have "total_issuance (currency book_cfg) (ledger u) \<le> total_issuance (currency book_cfg) book_start + total_emitted u + 550"
    by linarith
  then show ?thesis using u(2) by (auto simp: book_cfg_def runtime_cb_config_def book_base_def)
qed

section \<open>The credit operations\<close>

text \<open>C39: Outcome of a credit request in a good state. It succeeds exactly for a positive amount, a licensed
  operator and an amount the pool still covers; otherwise it fails with the error of the first guard that
  does not hold, and no other error (nor a panic) is possible.\<close>

theorem request_credit_outcome:
  assumes "cb_inv cfg s" and "optimal_utilization cfg \<noteq> 0"
  shows "case do_request_credit cfg a v s of
      Ok t \<Rightarrow> 0 < v \<and> licensed_operators s a \<and> v \<le> genesis_credit_available s
    | Err x \<Rightarrow> (v = 0 \<and> x = Module ZeroAmount)
             \<or> (0 < v \<and> \<not> licensed_operators s a \<and> x = Module NotLicensedOperator)
             \<or> (0 < v \<and> licensed_operators s a \<and> genesis_credit_available s < v
                  \<and> x = Module CreditPoolExhausted)"
proof -
  obtain e where e: "epochs s (current_epoch_id s) = Some e"
    using assms(1) by (auto simp: cb_inv_def epoch_inv_def)
  have upd: "\<exists>r t'. update_dynamic_rate cfg t = Ok (r, t')"
    if "epochs t (current_epoch_id t) \<noteq> None" for t :: "('a, 'b) cb_state_scheme"
    using that compute_dynamic_rate_total[OF assms(2), of t]
    by (auto simp: update_dynamic_rate_def apply_dynamic_rate_to_epoch_def)
  have ok: "\<exists>t. do_request_credit cfg a v s = Ok t"
    if "0 < v" "licensed_operators s a" "v \<le> genesis_credit_available s"
    using that e upd by (fastforce simp: do_request_credit_def Let_def ok_simps)
  have "do_request_credit cfg a v s =
     (if v = 0 then Err (Module ZeroAmount)
      else if \<not> licensed_operators s a then Err (Module NotLicensedOperator)
      else if genesis_credit_available s < v then Err (Module CreditPoolExhausted)
      else do_request_credit cfg a v s)"
    by (simp add: do_request_credit_def Let_def ensure_def)
  with ok show ?thesis by (auto split: result.splits if_splits)
qed

theorem request_credit_outcome_witness:
  "do_request_credit book_cfg 7 5 (cb_genesis book_cfg [(7, False)] book_start) = Err (Module NotLicensedOperator)"
proof -
  have "\<not> licensed_operators (cb_genesis book_cfg [(7, False)] book_start) 7"
    by (simp add: cb_genesis_def)
  moreover have "optimal_utilization book_cfg \<noteq> 0" by (simp add: book_cfg_def runtime_cb_config_def)
  ultimately show ?thesis
    using request_credit_outcome[OF cb_inv_genesis[of book_cfg "[(7, False)]" book_start], of 5 7]
    by (auto simp: cb_genesis_def split: result.splits)
qed

text \<open>C5: A credit that is drawn and repaid in the same epoch leaves no trace in the books: the pool, the
  outstanding credit, every debt, the current rate, the balances and the total issuance are back where they
  were; the epoch's audit counters have both grown by the amount.\<close>

theorem request_repay_roundtrip:
  assumes inv: "cb_inv cfg s" and lim: "credit_epoch_limit cfg \<le> umax 128" and cur: "currency_ok (currency cfg)"
    and req: "do_request_credit cfg a v s = Ok t"
    and rep: "do_repay_credit cfg a (current_epoch_id s) v t = Ok u"
    and alive: "0 < free_balance (currency cfg) (ledger s) a"
    and room: "total_issuance (currency cfg) (ledger s) + v \<le> umax 128"
  shows "genesis_credit_available u = genesis_credit_available s
    \<and> total_outstanding u = total_outstanding s
    \<and> operator_debt u = operator_debt s
    \<and> total_operator_debt u = total_operator_debt s
    \<and> total_issuance (currency cfg) (ledger u) = total_issuance (currency cfg) (ledger s)
    \<and> (\<forall>b. free_balance (currency cfg) (ledger u) b = free_balance (currency cfg) (ledger s) b)
    \<and> (\<exists>e. epochs s (current_epoch_id s) = Some e
         \<and> epochs u = (epochs s)(current_epoch_id s \<mapsto>
             e\<lparr>total_issued := sat_add 128 (total_issued e) v, total_repaid := sat_add 128 (total_repaid e) v\<rparr>))"
proof (intro conjI allI)
  fix b
  note good_t = request_cb_inv[OF inv lim req]
  have gs: "cb_good cfg s" and gt: "cb_good cfg t" using inv good_t lim by (auto simp: cb_good_def)
  note mv = cbf.request_moves[OF gs req] cbf.repay_moves[OF gt rep]
  from mv show pool: "genesis_credit_available u = genesis_credit_available s" by simp
  from mv show "total_operator_debt u = total_operator_debt s" by auto
  have "pool_inv cfg u" using repay_pool_inv(1)[OF good_t lim rep] .
  then show out: "total_outstanding u = total_outstanding s"
    using pool inv by (simp add: cb_inv_def pool_inv_def)
  from rep show "operator_debt u = operator_debt s"
    by (rule do_repay_creditD) (use request_debt_inv(2)[OF inv lim req] in auto)
  from req have lt: "ledger t = deposit_creating (currency cfg) (ledger s) a v" by (rule do_request_creditD)
  from rep have w: "withdraw (currency cfg) (ledger t) a v KeepAlive = Ok (ledger u)"
    by (rule do_repay_creditD)
  note dep = deposit_exact[OF cur alive room]
  show "total_issuance (currency cfg) (ledger u) = total_issuance (currency cfg) (ledger s)"
    using withdraw_keepD(2)[OF cur w] dep(1) lt by simp
  show "free_balance (currency cfg) (ledger u) b = free_balance (currency cfg) (ledger s) b"
    using withdraw_keepD(3)[OF cur w, of b] dep(2) lt by simp
  have rate: "compute_dynamic_rate cfg u = compute_dynamic_rate cfg s"
    by (rule compute_dynamic_rate_cong) (rule out)
  from inv obtain e0 where e0: "epochs s (current_epoch_id s) = Some e0"
    "compute_dynamic_rate cfg s = Ok (key_rate e0)" by (auto simp: cb_inv_def epoch_inv_def)
  from req obtain e r where e: "epochs s (current_epoch_id s) = Some e" and
    ct: "current_epoch_id t = current_epoch_id s" and
    et: "epochs t = (epochs s)(current_epoch_id s \<mapsto>
       e\<lparr>total_issued := sat_add 128 (total_issued e) v, key_rate := r\<rparr>)"
    by (rule do_request_creditD) blast
  from rep have "epochs u = (epochs s)(current_epoch_id s \<mapsto>
       e\<lparr>total_issued := sat_add 128 (total_issued e) v, total_repaid := sat_add 128 (total_repaid e) v\<rparr>)"
    by (rule do_repay_creditD) (use e0 e et ct rate in auto)
  with e show "\<exists>e. epochs s (current_epoch_id s) = Some e
           \<and> epochs u = (epochs s)(current_epoch_id s \<mapsto>
               e\<lparr>total_issued := sat_add 128 (total_issued e) v, total_repaid := sat_add 128 (total_repaid e) v\<rparr>)"
    by blast
qed

text \<open>A state with a licensed operator, the draw of 500 and its repayment.\<close>

definition book_s where "book_s = book_run [(Root, GrantOperatorLicense 7)]"
definition book_t where "book_t = execute (cb_dispatch book_cfg) (no_env, Signed 7, RequestCredit 500) book_s"
definition book_u where "book_u = execute (cb_dispatch book_cfg) (no_env, Signed 7, RepayCredit 1 500) book_t"

theorem request_repay_roundtrip_witness:
  "total_outstanding book_t = 500 \<and> total_outstanding book_u = total_outstanding book_s"
proof -
  have c: "credit_epoch_limit book_cfg \<le> umax 128" by (rule book_cfg_limit)
  have "cb_good book_cfg book_s"
    unfolding book_s_def by (intro cbm.run_inv cb_good_genesis c)
  then have inv: "cb_inv book_cfg book_s" by (simp add: cb_good_def)
  have cur: "currency_ok (currency book_cfg)" using book_cfg_outside by (simp add: cb_outside_ok_def)
  have req: "do_request_credit book_cfg 7 500 book_s = Ok book_t"
    by (simp add: book_s_def book_t_def book_eval)
  have ce: "current_epoch_id book_s = 1" by (simp add: book_s_def book_eval)
  have "\<exists>u. do_repay_credit book_cfg 7 1 500 book_t = Ok u"
    by (simp add: book_s_def book_t_def book_eval)
  then have rep: "do_repay_credit book_cfg 7 (current_epoch_id book_s) 500 book_t = Ok book_u"
    by (auto simp: ce book_u_def execute_def repay_credit_def)
  have alive: "0 < free_balance (currency book_cfg) (ledger book_s) 7"
    and room: "total_issuance (currency book_cfg) (ledger book_s) + 500 \<le> umax 128"
    by (simp_all add: book_s_def book_eval)
  have "total_outstanding book_t = 500" by (simp add: book_s_def book_t_def book_eval)
  with request_repay_roundtrip[OF inv c cur req rep alive room] show ?thesis by simp
qed

section \<open>The key rate\<close>

text \<open>C38: The two-phase rate curve. For a sound configuration and a debt within the limit the rate is
  defined (no panic, no wrap-around), never above the protective maximum, zero without debt, and it does
  not fall when the outstanding credit grows.\<close>

theorem dynamic_rate_monotone_bounded:
  fixes s t :: "('x, 'z) cb_state_scheme"
  assumes ok: "rates_ok cfg" and le: "total_outstanding s \<le> total_outstanding t"
    and lim: "total_outstanding t \<le> credit_epoch_limit cfg"
  shows "\<exists>r r'. compute_dynamic_rate cfg s = Ok r \<and> compute_dynamic_rate cfg t = Ok r'
           \<and> r \<le> r' \<and> r' \<le> max_protective_rate cfg \<and> (total_outstanding s = 0 \<longrightarrow> r = 0)"
proof -
  let ?u = "\<lambda>s. total_outstanding s * 100 div credit_epoch_limit cfg"
  have u: "?u s \<le> ?u t" using le by (intro div_le_mono mult_le_mono1)
  have t100: "?u t \<le> 100" using utilization_exact[OF ok lim] by simp
  have "compute_dynamic_rate cfg s = Ok (rate_curve cfg (?u s))"
    using le lim by (intro dynamic_rate_curve[OF ok]) simp
  moreover have "compute_dynamic_rate cfg t = Ok (rate_curve cfg (?u t))"
    using dynamic_rate_curve[OF ok lim] .
  moreover have "rate_curve cfg (?u s) \<le> rate_curve cfg (?u t)"
    by (rule rate_curve_mono[OF ok u t100])
  moreover have "rate_curve cfg (?u t) \<le> max_protective_rate cfg"
    by (rule rate_curve_bounds(1)[OF ok t100])
  moreover have "total_outstanding s = 0 \<longrightarrow> rate_curve cfg (?u s) = 0" by (simp add: rate_curve_def)
  ultimately show ?thesis
    by (intro exI[of _ "rate_curve cfg (?u s)"] exI[of _ "rate_curve cfg (?u t)"]) simp
qed

theorem dynamic_rate_monotone_bounded_witness:
  "\<exists>r r'. compute_dynamic_rate book_cfg (cb_genesis book_cfg [] book_start) = Ok r
       \<and> compute_dynamic_rate book_cfg (cb_genesis book_cfg [] book_start\<lparr>total_outstanding := 17010000000000000000000000\<rparr>) = Ok r'
       \<and> r \<le> r' \<and> r' \<le> 5000"
proof -
  let ?s = "cb_genesis book_cfg [] book_start"
  let ?t = "?s\<lparr>total_outstanding := 17010000000000000000000000\<rparr>"
  have "total_outstanding ?s \<le> total_outstanding ?t" "total_outstanding ?t \<le> credit_epoch_limit book_cfg"
    and max: "max_protective_rate book_cfg = 5000"
    by (simp_all add: cb_genesis_def book_cfg_def runtime_cb_config_def)
  from dynamic_rate_monotone_bounded[OF book_cfg_rates this(1,2)] max show ?thesis by force
qed

text \<open>The constitutional anchor points of the runtime's curve: 0 without outstanding credit, 8.50% at 80%
  utilization, 29.25% at 90%, and 50.00% when the pool is exhausted.\<close>

theorem runtime_rate_anchors:
  fixes cur :: "'x currency"
  shows "rate_curve (runtime_cb_config cur creator bank og pure mk) 0 = 0
   \<and> rate_curve (runtime_cb_config cur creator bank og pure mk) 80 = 850
   \<and> rate_curve (runtime_cb_config cur creator bank og pure mk) 90 = 2925
   \<and> rate_curve (runtime_cb_config cur creator bank og pure mk) 100 = 5000
   \<and> (\<forall>s :: 'x cb_state. total_outstanding s = 18900000000000000000000000 \<longrightarrow>
        compute_dynamic_rate (runtime_cb_config cur creator bank og pure mk) s = Ok 5000)"
proof -
  let ?cfg = "runtime_cb_config cur creator bank og pure mk"
  have "compute_dynamic_rate ?cfg s = Ok 5000"
    if "total_outstanding s = 18900000000000000000000000" for s :: "'x cb_state"
    using dynamic_rate_curve[OF rates_ok_runtime, of s cur creator bank og pure mk] that
    by (simp add: runtime_cb_config_def rate_curve_def)
  moreover have "rate_curve ?cfg 0 = 0 \<and> rate_curve ?cfg 80 = 850 \<and> rate_curve ?cfg 90 = 2925
      \<and> rate_curve ?cfg 100 = 5000"
    by (simp add: runtime_cb_config_def rate_curve_def)
  ultimately show ?thesis by blast
qed

theorem runtime_rate_anchors_witness:
  "compute_dynamic_rate book_cfg (cb_genesis book_cfg [] book_start\<lparr>total_outstanding := 18900000000000000000000000\<rparr>) = Ok 5000"
  using runtime_rate_anchors[of "book_base 1" 1 2 "\<lambda>_ og. og = Root" "\<lambda>who i p. 1000 + i" "\<lambda>x who i p. Ok x"]
  unfolding book_cfg_def by simp

text \<open>The rate on record is always the curve's. In every reachable state the record of the current epoch
  exists and carries exactly the rate of the curve at the current utilization, within the protective
  maximum: no operation leaves a stale rate behind.\<close>

theorem recorded_rate_current:
  assumes ok: "rates_ok cfg"
    and r: "reachable (cb_dispatch cfg) (ledger_step P) (cb_genesis cfg ops x0) s"
  shows "\<exists>e. epochs s (current_epoch_id s) = Some e
    \<and> key_rate e = rate_curve cfg (total_outstanding s * 100 div credit_epoch_limit cfg)
    \<and> key_rate e \<le> max_protective_rate cfg"
proof -
  have lim: "credit_epoch_limit cfg \<le> umax 128" using ok by (simp add: rates_ok_def)
  have good: "cb_good cfg s" by (rule cbm.reachable_inv[OF r cb_good_genesis[OF lim]])
  then have out: "total_outstanding s \<le> credit_epoch_limit cfg"
    by (auto simp: cb_good_def cb_inv_def pool_inv_def)
  obtain e where e: "epochs s (current_epoch_id s) = Some e" "compute_dynamic_rate cfg s = Ok (key_rate e)"
    using good by (auto simp: cb_good_def cb_inv_def epoch_inv_def)
  with dynamic_rate_curve[OF ok out]
  have k: "key_rate e = rate_curve cfg (total_outstanding s * 100 div credit_epoch_limit cfg)" by simp
  moreover have "total_outstanding s * 100 div credit_epoch_limit cfg \<le> 100"
    using utilization_exact[OF ok out] by simp
  ultimately show ?thesis using e(1) rate_curve_bounds(1)[OF ok] by force
qed

theorem recorded_rate_current_witness:
  "\<exists>e. epochs (book_run [(Root, GrantOperatorLicense 7), (Signed 7, RequestCredit 9450000000000000000000000)]) 1 = Some e
       \<and> key_rate e = rate_curve book_cfg 50"
proof -
  let ?cs = "[(Root, GrantOperatorLicense 7), (Signed 7, RequestCredit 9450000000000000000000000)]"
  have "reachable (cb_dispatch book_cfg) (ledger_step (\<lambda>_ _. True)) (cb_genesis book_cfg [] book_start) (book_run ?cs)"
    by (rule reachable_run[OF reachable.start])
  note recorded_rate_current[OF book_cfg_rates this]
  moreover have "current_epoch_id (book_run ?cs) = 1"
    and "total_outstanding (book_run ?cs) = 9450000000000000000000000"
    by (simp_all add: book_eval)
  moreover have "credit_epoch_limit book_cfg = 18900000000000000000000000"
    by (simp add: book_cfg_def runtime_cb_config_def)
  ultimately show ?thesis by auto
qed

text \<open>The base rate is inert. \<open>set_base_rate\<close> stores its argument and changes neither the current epoch's
  rate nor the rate any later operation computes, so the documented bound (the dynamic key rate never
  exceeds \<open>BaseKeyRate\<close>) does not hold: with the runtime's curve and 80% of the pool outstanding, a base
  rate set below 8.50% is below the rate in force.\<close>

theorem base_rate_inert:
  assumes set: "set_base_rate cfg og n s = Ok t"
  shows "base_key_rate t = n
    \<and> compute_dynamic_rate cfg t = compute_dynamic_rate cfg s
    \<and> epochs t = epochs s
    \<and> (cfg = runtime_cb_config cur creator bank bo pure mk \<and> n < 850
         \<and> 15120000000000000000000000 \<le> total_outstanding s
         \<and> total_outstanding s \<le> 18900000000000000000000000
         \<longrightarrow> (\<exists>r. compute_dynamic_rate cfg t = Ok r \<and> base_key_rate t < r))"
proof -
  from set have t: "base_key_rate t = n" "epochs t = epochs s" "total_outstanding t = total_outstanding s"
    by (auto simp: set_base_rate_def Let_def ok_simps)
  have rate: "compute_dynamic_rate cfg t = compute_dynamic_rate cfg s"
    by (rule compute_dynamic_rate_cong) (rule t(3))
  have "\<exists>r. compute_dynamic_rate cfg t = Ok r \<and> base_key_rate t < r"
    if cfg: "cfg = runtime_cb_config cur creator bank bo pure mk" and n: "n < 850" and
      lo: "15120000000000000000000000 \<le> total_outstanding s" and
      hi: "total_outstanding s \<le> 18900000000000000000000000"
  proof -
    have lim: "credit_epoch_limit cfg = 18900000000000000000000000" by (simp add: cfg runtime_cb_config_def)
    have ok: "rates_ok cfg" unfolding cfg by (rule rates_ok_runtime)
    let ?u = "total_outstanding s * 100 div credit_epoch_limit cfg"
    have "compute_dynamic_rate cfg t = Ok (rate_curve cfg ?u)"
      using dynamic_rate_curve[OF ok, of s] hi rate lim by simp
    moreover have "850 \<le> rate_curve cfg ?u"
    proof -
      have "15120000000000000000000000 * 100 div 18900000000000000000000000 \<le> ?u"
        unfolding lim using lo by (intro div_le_mono mult_le_mono1)
      then have "80 \<le> ?u" by simp
      moreover have "?u \<le> 100" using utilization_exact[OF ok, of s] hi lim by simp
      ultimately show ?thesis
        using rate_curve_bounds(3)[OF ok, of ?u] by (simp add: cfg runtime_cb_config_def)
    qed
    ultimately show ?thesis using n t(1) by (intro exI[of _ "rate_curve cfg ?u"]) simp
  qed
  with t rate show ?thesis by simp
qed

theorem base_rate_inert_witness:
  "\<exists>t. set_base_rate book_cfg Root 100 (cb_genesis book_cfg [] book_start\<lparr>total_outstanding := 18900000000000000000000000\<rparr>) = Ok t
      \<and> (\<exists>r. compute_dynamic_rate book_cfg t = Ok r \<and> base_key_rate t < r)"
proof -
  let ?s = "cb_genesis book_cfg [] book_start\<lparr>total_outstanding := 18900000000000000000000000\<rparr>"
  obtain t where t: "set_base_rate book_cfg Root 100 ?s = Ok t"
    by (simp add: set_base_rate_def book_cfg_def runtime_cb_config_def cb_genesis_def)
  have "(100 :: nat) < 850" "15120000000000000000000000 \<le> total_outstanding ?s"
    "total_outstanding ?s \<le> 18900000000000000000000000" by simp_all
  with base_rate_inert[OF t, of "book_base 1" 1 2 "\<lambda>_ og. og = Root" "\<lambda>who i p. 1000 + i" "\<lambda>x who i p. Ok x"]
    book_cfg_def t
  show ?thesis by blast
qed

end
