(* ===== verification/Central_Bank_Genesis.thy ===== *)
theory Central_Bank_Genesis
  imports Central_Bank_Props
begin

text \<open>
  The genesis distribution of the primary emission, and the two runtime-upgrade hooks of
  \<^verbatim>\<open>migrations.rs\<close> against the live books.
\<close>

section \<open>The genesis distribution\<close>

text \<open>
  The pure proxies are addresses of their own: distinct for distinct indices of one dispatch, and neither
  the creator's nor the central bank's (documented: the address is a hash over all of its arguments).
\<close>

definition fresh_proxies :: "'x cb_config \<Rightarrow> env \<Rightarrow> bool" where
  "fresh_proxies cfg env \<longleftrightarrow>
     (let pure = (\<lambda>i. pure_account cfg (creator_account cfg) i (pure_at env)) in
      inj_on pure {..166} \<and> central_bank_account_id cfg \<noteq> creator_account cfg
      \<and> (\<forall>i. pure i \<noteq> creator_account cfg \<and> pure i \<noteq> central_bank_account_id cfg))"

lemma create_and_fund_balance:
  assumes ok: "cb_outside_ok cfg" and f: "fresh_proxies cfg env"
    and who: "who = creator_account cfg"
    and r: "create_and_fund cfg env who v i s = Ok t" and b: "b \<noteq> who"
  shows "free_balance (currency cfg) (ledger t) b =
     (if b = central_bank_account_id cfg then free_balance (currency cfg) (ledger s) b - v
      else if b = pure_account cfg who i (pure_at env) then free_balance (currency cfg) (ledger s) b + v
      else free_balance (currency cfg) (ledger s) b)"
    and "v \<le> free_balance (currency cfg) (ledger s) (central_bank_account_id cfg)"
proof -
  let ?bank = "central_bank_account_id cfg" and ?p = "pure_account cfg who i (pure_at env)"
  obtain x where x: "create_pure cfg (ledger s) who i (pure_at env) = Ok x"
    and tr: "transfer (currency cfg) x ?bank ?p v KeepAlive = Ok (ledger t)"
    using r by (rule create_and_fundD)
  have pre: "free_balance (currency cfg) x c = free_balance (currency cfg) (ledger s) c" if "c \<noteq> who" for c
    using x ok that unfolding cb_outside_ok_def by blast
  have cur: "currency_ok (currency cfg)" using ok by (simp add: cb_outside_ok_def)
  have ne: "?bank \<noteq> ?p" "?bank \<noteq> who" using f who unfolding fresh_proxies_def Let_def by metis+
  show "free_balance (currency cfg) (ledger t) b =
     (if b = ?bank then free_balance (currency cfg) (ledger s) b - v
      else if b = ?p then free_balance (currency cfg) (ledger s) b + v
      else free_balance (currency cfg) (ledger s) b)"
    using transfer_keepD(3)[OF cur tr, of b] pre[OF b] pre[OF ne(2)] ne(1) by auto
  show "v \<le> free_balance (currency cfg) (ledger s) ?bank"
    using transfer_keepD(1)[OF cur tr] pre[OF ne(2)] by simp
qed

lemma create_and_fund_rest:
  "create_and_fund cfg env who v i s = Ok t \<Longrightarrow>
     regional_treasuries t = regional_treasuries s \<and> pension_funds t = pension_funds s
     \<and> confederation_treasury t = confederation_treasury s \<and> genesis_distributed t = genesis_distributed s"
  by (auto simp: create_and_fund_def Let_def ok_simps)

lemma fund_regions_step:
  assumes "fund_regions cfg env who (c # cs) i s = Ok (n, t)"
  obtains s1 s3 u where
    "create_and_fund cfg env who regional_per_region i s = Ok s1"
    "create_and_fund cfg env who reserve_per_region (i + 1)
       (cb_deposit_event (RegionalTreasuryCreated c (pure_account cfg who i (pure_at env)) regional_per_region)
         (s1\<lparr>regional_treasuries := (regional_treasuries s1)(c \<mapsto> pure_account cfg who i (pure_at env))\<rparr>)) = Ok s3"
    "u = cb_deposit_event (PensionFundCreated c (pure_account cfg who (i + 1) (pure_at env)) reserve_per_region)
       (s3\<lparr>pension_funds := (pension_funds s3)(c \<mapsto> pure_account cfg who (i + 1) (pure_at env))\<rparr>)"
    "fund_regions cfg env who cs (i + 2) u = Ok (n, t)"
  using assms by (simp only: fund_regions.simps Let_def and_then_Ok) blast

text \<open>The addresses of the loop: region number \<open>k\<close> of a loop that starts at index \<open>i\<close> gets the proxies
  \<open>i + 2 k\<close> (treasury) and \<open>i + 2 k + 1\<close> (pension fund).\<close>

lemma fund_regions_addresses:
  "fund_regions cfg env who cs i s = Ok (n, t) \<Longrightarrow> distinct cs \<Longrightarrow>
     n = i + 2 * length cs
   \<and> (\<forall>k < length cs. regional_treasuries t (cs ! k) = Some (pure_account cfg who (i + 2 * k) (pure_at env))
        \<and> pension_funds t (cs ! k) = Some (pure_account cfg who (i + 2 * k + 1) (pure_at env)))
   \<and> (\<forall>c. c \<notin> set cs \<longrightarrow> regional_treasuries t c = regional_treasuries s c
        \<and> pension_funds t c = pension_funds s c)
   \<and> confederation_treasury t = confederation_treasury s \<and> genesis_distributed t = genesis_distributed s"
proof (induction cs arbitrary: i s)
  case Nil
  then show ?case by simp
next
  case (Cons c cs)
  from Cons.prems(1) obtain s1 s3 u where
    s1: "create_and_fund cfg env who regional_per_region i s = Ok s1" and
    s3: "create_and_fund cfg env who reserve_per_region (i + 1)
       (cb_deposit_event (RegionalTreasuryCreated c (pure_account cfg who i (pure_at env)) regional_per_region)
         (s1\<lparr>regional_treasuries := (regional_treasuries s1)(c \<mapsto> pure_account cfg who i (pure_at env))\<rparr>)) = Ok s3" and
    u: "u = cb_deposit_event (PensionFundCreated c (pure_account cfg who (i + 1) (pure_at env)) reserve_per_region)
       (s3\<lparr>pension_funds := (pension_funds s3)(c \<mapsto> pure_account cfg who (i + 1) (pure_at env))\<rparr>)" and
    rest: "fund_regions cfg env who cs (i + 2) u = Ok (n, t)"
    by (rule fund_regions_step)
  have uu: "regional_treasuries u = (regional_treasuries s)(c \<mapsto> pure_account cfg who i (pure_at env))"
    "pension_funds u = (pension_funds s)(c \<mapsto> pure_account cfg who (i + 1) (pure_at env))"
    "confederation_treasury u = confederation_treasury s" "genesis_distributed u = genesis_distributed s"
    using create_and_fund_rest[OF s1] create_and_fund_rest[OF s3] by (simp_all add: u)
  have d: "distinct cs" "c \<notin> set cs" using Cons.prems(2) by auto
  note IH = Cons.IH[OF rest d(1)]
  have "regional_treasuries t ((c # cs) ! k) = Some (pure_account cfg who (i + 2 * k) (pure_at env))
     \<and> pension_funds t ((c # cs) ! k) = Some (pure_account cfg who (i + 2 * k + 1) (pure_at env))"
    if "k < length (c # cs)" for k
    using IH d(2) that uu by (cases k) (auto simp: algebra_simps)
  with IH uu show ?case by auto
qed

lemma fund_regions_balances:
  assumes ok: "cb_outside_ok cfg" and f: "fresh_proxies cfg env" and who: "who = creator_account cfg"
  shows "fund_regions cfg env who cs i s = Ok (n, t) \<Longrightarrow> i + 2 * length cs \<le> 167 \<Longrightarrow>
     free_balance (currency cfg) (ledger t) (central_bank_account_id cfg)
       + length cs * (regional_per_region + reserve_per_region)
       = free_balance (currency cfg) (ledger s) (central_bank_account_id cfg)
   \<and> (\<forall>j < i. free_balance (currency cfg) (ledger t) (pure_account cfg who j (pure_at env))
        = free_balance (currency cfg) (ledger s) (pure_account cfg who j (pure_at env)))
   \<and> (\<forall>k < length cs.
        free_balance (currency cfg) (ledger t) (pure_account cfg who (i + 2 * k) (pure_at env))
          = free_balance (currency cfg) (ledger s) (pure_account cfg who (i + 2 * k) (pure_at env)) + regional_per_region
      \<and> free_balance (currency cfg) (ledger t) (pure_account cfg who (i + 2 * k + 1) (pure_at env))
          = free_balance (currency cfg) (ledger s) (pure_account cfg who (i + 2 * k + 1) (pure_at env)) + reserve_per_region)"
proof (induction cs arbitrary: i s)
  case Nil
  then show ?case by simp
next
  case (Cons c cs)
  let ?pure = "\<lambda>j. pure_account cfg who j (pure_at env)"
  let ?fb = "\<lambda>s. free_balance (currency cfg) (ledger s)" and ?bank = "central_bank_account_id cfg"
  from Cons.prems(1) obtain s1 s3 u where
    s1: "create_and_fund cfg env who regional_per_region i s = Ok s1" and
    s3: "create_and_fund cfg env who reserve_per_region (i + 1)
       (cb_deposit_event (RegionalTreasuryCreated c (?pure i) regional_per_region)
         (s1\<lparr>regional_treasuries := (regional_treasuries s1)(c \<mapsto> ?pure i)\<rparr>)) = Ok s3" and
    u: "u = cb_deposit_event (PensionFundCreated c (?pure (i + 1)) reserve_per_region)
       (s3\<lparr>pension_funds := (pension_funds s3)(c \<mapsto> ?pure (i + 1))\<rparr>)" and
    rest: "fund_regions cfg env who cs (i + 2) u = Ok (n, t)"
    by (rule fund_regions_step)
  have len: "i + 2 + 2 * length cs \<le> 167" using Cons.prems(2) by simp
  have bw: "?bank \<noteq> who" and pw: "?pure j \<noteq> who" and pb: "?pure j \<noteq> ?bank" for j
    using f who by (auto simp: fresh_proxies_def Let_def)
  have inj: "?pure j = ?pure k \<longleftrightarrow> j = k" if "j \<le> 166" "k \<le> 166" for j k
    using f who that by (auto simp: fresh_proxies_def Let_def inj_on_def)
  note b1 = create_and_fund_balance[OF ok f who s1] and b3 = create_and_fund_balance[OF ok f who s3]
  have bank: "?fb u ?bank + (regional_per_region + reserve_per_region) = ?fb s ?bank"
    using b1[OF bw] b3[OF bw] by (simp add: u)
  have pu: "?fb u (?pure j) = ?fb s (?pure j) +
      (if j = i then regional_per_region else if j = i + 1 then reserve_per_region else 0)"
    if "j \<le> 166" for j
    using b1(1)[OF pw[of j]] b3(1)[OF pw[of j]] inj[OF that, of i] inj[OF that, of "i + 1"] len pb[of j]
    by (simp add: u split: if_splits)
  note IH = Cons.IH[OF rest len]
  have "?fb t (?pure (i + 2 * k)) = ?fb s (?pure (i + 2 * k)) + regional_per_region
      \<and> ?fb t (?pure (i + 2 * k + 1)) = ?fb s (?pure (i + 2 * k + 1)) + reserve_per_region"
    if k: "k < length (c # cs)" for k
  proof (cases k)
    case 0
    then show ?thesis using IH pu[of i] pu[of "i + 1"] len by simp
  next
    case (Suc m)
    with k IH have "?fb t (?pure (i + 2 + 2 * m)) = ?fb u (?pure (i + 2 + 2 * m)) + regional_per_region
      \<and> ?fb t (?pure (i + 2 + 2 * m + 1)) = ?fb u (?pure (i + 2 + 2 * m + 1)) + reserve_per_region"
      by simp
    moreover have "i + 2 + 2 * m + 1 \<le> 166" using k Suc len by simp
    ultimately show ?thesis using pu[of "i + 2 + 2 * m"] pu[of "i + 2 + 2 * m + 1"] Suc
      by (simp add: algebra_simps)
  qed
  moreover have "?fb t (?pure j) = ?fb s (?pure j)" if "j < i" for j
    using IH that pu[of j] len by simp
  ultimately show ?case using IH bank by auto
qed


lemma trigger_genesisD:
  assumes "trigger_genesis_distribution cfg env og s = Ok t"
  obtains s1 s2 n s3 where "og = Signed (creator_account cfg)" "\<not> genesis_distributed s"
    "create_and_fund cfg env (creator_account cfg) total_confederation 0 (s\<lparr>genesis_distributed := True\<rparr>) = Ok s1"
    "s2 = cb_deposit_event (ConfederationTreasuryCreated (pure_account cfg (creator_account cfg) 0 (pure_at env)) total_confederation)
            (s1\<lparr>confederation_treasury := Some (pure_account cfg (creator_account cfg) 0 (pure_at env))\<rparr>)"
    "fund_regions cfg env (creator_account cfg) REGION_CODES_83 1 s2 = Ok (n, s3)"
    "t = cb_deposit_event (GenesisDistributed (central_bank_account_id cfg) n) s3"
  using assms unfolding trigger_genesis_distribution_def Let_def by (auto simp: ok_simps)

lemma region_codes: "distinct REGION_CODES_83" "length REGION_CODES_83 = 83"
  by (simp_all add: REGION_CODES_83_def)

section \<open>Reconstructing the pool from the epoch records\<close>

lemma tsum_swap:
  assumes f: "finsupp (f :: 'a \<times> 'b \<Rightarrow> nat)"
  shows "tsum (\<lambda>i. tsum (\<lambda>a. f (a, i))) = tsum (\<lambda>a. tsum (\<lambda>i. f (a, i)))"
proof -
  let ?S = "{k. f k \<noteq> 0}"
  let ?A = "fst ` ?S" and ?I = "snd ` ?S"
  have fin: "finite ?A" "finite ?I" using f by (simp_all add: finsupp_def)
  have col: "tsum (\<lambda>a. f (a, i)) = (\<Sum>a\<in>?A. f (a, i))" for i
    by (rule tsum_superset[OF fin(1)]) force
  have row: "tsum (\<lambda>i. f (a, i)) = (\<Sum>i\<in>?I. f (a, i))" for a
    by (rule tsum_superset[OF fin(2)]) force
  have "{i. (\<Sum>a\<in>?A. f (a, i)) \<noteq> 0} \<subseteq> ?I"
  proof
    fix i assume "i \<in> {i. (\<Sum>a\<in>?A. f (a, i)) \<noteq> 0}"
    then obtain a where "f (a, i) \<noteq> 0" by (force dest: sum.neutral)
    then show "i \<in> ?I" by force
  qed
  then have "tsum (\<lambda>i. \<Sum>a\<in>?A. f (a, i)) = (\<Sum>i\<in>?I. \<Sum>a\<in>?A. f (a, i))"
    by (rule tsum_superset[OF fin(2)])
  moreover have "{a. (\<Sum>i\<in>?I. f (a, i)) \<noteq> 0} \<subseteq> ?A"
  proof
    fix a assume "a \<in> {a. (\<Sum>i\<in>?I. f (a, i)) \<noteq> 0}"
    then obtain i where "f (a, i) \<noteq> 0" by (force dest: sum.neutral)
    then show "a \<in> ?A" by force
  qed
  then have "tsum (\<lambda>a. \<Sum>i\<in>?I. f (a, i)) = (\<Sum>a\<in>?A. \<Sum>i\<in>?I. f (a, i))"
    by (rule tsum_superset[OF fin(1)])
  ultimately show ?thesis unfolding col row using sum.swap[of "\<lambda>i a. f (a, i)" ?A ?I] by metis
qed

definition issued_in :: "(nat \<Rightarrow> epoch_info option) \<Rightarrow> nat \<Rightarrow> nat" where
  "issued_in es i = (case es i of Some e \<Rightarrow> total_issued e | None \<Rightarrow> 0)"

definition repaid_in :: "(nat \<Rightarrow> epoch_info option) \<Rightarrow> nat \<Rightarrow> nat" where
  "repaid_in es i = (case es i of Some e \<Rightarrow> total_repaid e | None \<Rightarrow> 0)"

lemma issued_and_repaid_sums:
  assumes "(\<Sum>i=1..n. issued_in es i) \<le> umax 128" "(\<Sum>i=1..n. repaid_in es i) \<le> umax 128"
  shows "issued_and_repaid es n = ((\<Sum>i=1..n. issued_in es i), (\<Sum>i=1..n. repaid_in es i))"
  using assms
proof (induction n)
  case 0
  then show ?case by (simp add: issued_and_repaid_def)
next
  case (Suc n)
  then have "issued_and_repaid es n = ((\<Sum>i=1..n. issued_in es i), (\<Sum>i=1..n. repaid_in es i))" by simp
  then show ?case using Suc.prems
    by (simp add: issued_and_repaid_def issued_in_def repaid_in_def sat_add_exact split: option.splits)
qed

text \<open>The books of the epochs and the books of the operators agree: issued less repaid is outstanding.\<close>

lemma epochs_make_outstanding:
  assumes inv: "cb_inv cfg s" and ce: "current_epoch_id s < umax 32"
    and cnt: "\<forall>i e. epochs s i = Some e \<longrightarrow> total_issued e < umax 128"
  shows "(\<Sum>i=1..current_epoch_id s. repaid_in (epochs s) i) + total_outstanding s
       = (\<Sum>i=1..current_epoch_id s. issued_in (epochs s) i)"
proof -
  let ?n = "current_epoch_id s" and ?d = "operator_debt s"
  have fin: "finsupp ?d" and rows: "tsum (\<lambda>i. ?d (a, i)) = total_operator_debt s a" for a
    using inv by (auto simp: cb_inv_def debt_inv_def)
  have none: "?d (a, i) = 0" if "i \<notin> {1..?n}" for a i
    using inv ce that by (force simp: cb_inv_def account_inv_def epoch_inv_def)
  have "total_outstanding s = tsum (\<lambda>i. tsum (\<lambda>a. ?d (a, i)))"
    unfolding tsum_swap[OF fin] rows using inv by (simp add: cb_inv_def debt_inv_def)
  also have "\<dots> = (\<Sum>i=1..?n. tsum (\<lambda>a. ?d (a, i)))"
  proof (rule tsum_superset)
    show "{i. tsum (\<lambda>a. ?d (a, i)) \<noteq> 0} \<subseteq> {1..?n}" using none by (force intro: ccontr)
  qed simp
  finally have out: "total_outstanding s = (\<Sum>i=1..?n. tsum (\<lambda>a. ?d (a, i)))" .
  have "tsum (\<lambda>a. ?d (a, i)) + repaid_in (epochs s) i = issued_in (epochs s) i" if i: "i \<in> {1..?n}" for i
  proof -
    have "i \<in> dom (epochs s)" using inv i by (simp add: cb_inv_def epoch_inv_def)
    then obtain e where "epochs s i = Some e" by blast
    then show ?thesis using inv ce cnt by (simp add: cb_inv_def account_inv_def issued_in_def repaid_in_def)
  qed
  then show ?thesis unfolding out by (simp add: sum.distrib[symmetric] add.commute)
qed

end
