(* ===== verification/Central_Bank_Genesis_Claims.thy ===== *)
theory Central_Bank_Genesis_Claims
  imports Central_Bank_Genesis
begin

text \<open>Properties of the genesis distribution, the grants and the upgrade hooks of the central bank.\<close>

section \<open>The genesis distribution\<close>

text \<open>The constitutional routing of the primary emission. A successful distribution was signed by the
  creator and had not happened before; afterwards all 83 regions have a treasury and a pension fund, at the
  proxy addresses derived for them; each treasury received its 83rd of 147 billion, each pension fund its
  83rd of 1.89 trillion and the confederation its 63 billion, all of it paid by the central bank's account;
  and every further attempt fails.\<close>

theorem genesis_distribution_effect:
  fixes s t :: "('x, 'z) cb_state_scheme"
  assumes ok: "cb_outside_ok cfg" and f: "fresh_proxies cfg env"
    and r: "trigger_genesis_distribution cfg env og s = Ok t"
  shows "let who = creator_account cfg; pure = (\<lambda>i. pure_account cfg who i (pure_at env));
             fb = (\<lambda>u :: ('x, 'z) cb_state_scheme. free_balance (currency cfg) (ledger u)) in
       og = Signed who \<and> \<not> genesis_distributed s
     \<and> (\<forall>env' og' u. trigger_genesis_distribution cfg env' og' t \<noteq> Ok u)
     \<and> confederation_treasury t = Some (pure 0) \<and> fb t (pure 0) = fb s (pure 0) + total_confederation
     \<and> (\<forall>k < 83. regional_treasuries t (REGION_CODES_83 ! k) = Some (pure (1 + 2 * k))
          \<and> fb t (pure (1 + 2 * k)) = fb s (pure (1 + 2 * k)) + total_regional div 83
          \<and> pension_funds t (REGION_CODES_83 ! k) = Some (pure (2 + 2 * k))
          \<and> fb t (pure (2 + 2 * k)) = fb s (pure (2 + 2 * k)) + total_reserve div 83)
     \<and> fb s (central_bank_account_id cfg) = fb t (central_bank_account_id cfg)
          + total_confederation + 83 * (total_regional div 83 + total_reserve div 83)"
  using r
proof (rule trigger_genesisD)
  fix s1 s2 n s3
  let ?who = "creator_account cfg" and ?bank = "central_bank_account_id cfg"
  let ?pure = "\<lambda>i. pure_account cfg ?who i (pure_at env)"
  let ?fb = "\<lambda>s :: ('x, 'z) cb_state_scheme. free_balance (currency cfg) (ledger s)"
  assume og: "og = Signed ?who" "\<not> genesis_distributed s"
    and s1: "create_and_fund cfg env ?who total_confederation 0 (s\<lparr>genesis_distributed := True\<rparr>) = Ok s1"
    and s2: "s2 = cb_deposit_event (ConfederationTreasuryCreated (?pure 0) total_confederation)
            (s1\<lparr>confederation_treasury := Some (?pure 0)\<rparr>)"
    and s3: "fund_regions cfg env ?who REGION_CODES_83 1 s2 = Ok (n, s3)"
    and t: "t = cb_deposit_event (GenesisDistributed ?bank n) s3"
  have bw: "?bank \<noteq> ?who" and pw: "?pure j \<noteq> ?who" and pb: "?pure j \<noteq> ?bank" for j
    using f by (auto simp: fresh_proxies_def Let_def)
  have inj: "?pure j \<noteq> ?pure 0" if "j \<le> 166" "j \<noteq> 0" for j
    using f that by (auto simp: fresh_proxies_def Let_def inj_on_def)
  note b1 = create_and_fund_balance[OF ok f refl s1]
  note addr = fund_regions_addresses[OF s3 region_codes(1)]
  note bal = fund_regions_balances[OF ok f refl s3, simplified region_codes]
  have again: "trigger_genesis_distribution cfg env' og' t \<noteq> Ok u" for env' og' u
  proof -
    have "genesis_distributed t" using addr create_and_fund_rest[OF s1] by (simp add: t s2)
    then show ?thesis by (auto elim: trigger_genesisD)
  qed
  have 0: "confederation_treasury t = Some (?pure 0)" "?fb t (?pure 0) = ?fb s (?pure 0) + total_confederation"
    using addr bal b1(1)[OF pw[of 0]] pb[of 0] by (simp_all add: t s2)
  have k: "regional_treasuries t (REGION_CODES_83 ! k) = Some (?pure (1 + 2 * k))
          \<and> ?fb t (?pure (1 + 2 * k)) = ?fb s (?pure (1 + 2 * k)) + total_regional div 83
          \<and> pension_funds t (REGION_CODES_83 ! k) = Some (?pure (2 + 2 * k))
          \<and> ?fb t (?pure (2 + 2 * k)) = ?fb s (?pure (2 + 2 * k)) + total_reserve div 83"
    if k: "k < 83" for k
    using k addr bal b1(1)[OF pw[of "1 + 2 * k"]] b1(1)[OF pw[of "2 + 2 * k"]]
      pb[of "1 + 2 * k"] pb[of "2 + 2 * k"] inj[of "1 + 2 * k"] inj[of "2 + 2 * k"]
    by (simp add: t s2 region_codes regional_per_region_def reserve_per_region_def)
  have "?fb s ?bank = ?fb t ?bank + total_confederation + 83 * (total_regional div 83 + total_reserve div 83)"
  proof -
    have "?fb s3 ?bank + 83 * (total_regional div 83 + total_reserve div 83) = ?fb s1 ?bank"
      using conjunct1[OF bal] by (simp add: s2 regional_per_region_def reserve_per_region_def)
    moreover have "?fb s1 ?bank + total_confederation = ?fb s ?bank"
      using b1(1)[OF bw] b1(2)[OF bw] by simp
    moreover have "?fb t ?bank = ?fb s3 ?bank" by (simp add: t)
    ultimately show ?thesis by simp
  qed
  then show ?thesis unfolding Let_def using og again 0 k by blast
qed

text \<open>The witness runs the whole distribution on the book ledger.\<close>

lemma book_fresh: "fresh_proxies book_cfg no_env"
  by (simp add: fresh_proxies_def book_cfg_def runtime_cb_config_def inj_on_def Let_def)

lemma book_create_and_fund:
  assumes "0 < v" "v < bal (ledger s) 2"
  shows "\<exists>t. create_and_fund book_cfg env who v i s = Ok t \<and> bal (ledger t) 2 = bal (ledger s) 2 - v"
  using assms by (auto simp: create_and_fund_def Let_def book_cfg_def runtime_cb_config_def book_defs)

lemma book_fund_regions:
  "length cs * (regional_per_region + reserve_per_region) < bal (ledger s) 2 \<Longrightarrow>
   \<exists>n t. fund_regions book_cfg env who cs i s = Ok (n, t)"
proof (induction cs arbitrary: i s)
  case Nil
  then show ?case by simp
next
  case (Cons c cs)
  let ?R = regional_per_region and ?P = reserve_per_region
  have pos: "0 < ?R" "0 < ?P"
    by (simp_all add: regional_per_region_def reserve_per_region_def total_regional_def total_reserve_def altan_unit_def)
  have "?R < bal (ledger s) 2" using Cons.prems by simp
  then obtain s1 where s1: "create_and_fund book_cfg env who ?R i s = Ok s1" "bal (ledger s1) 2 = bal (ledger s) 2 - ?R"
    using book_create_and_fund[OF pos(1)] by blast
  let ?s2 = "cb_deposit_event (RegionalTreasuryCreated c (pure_account book_cfg who i (pure_at env)) ?R)
       (s1\<lparr>regional_treasuries := (regional_treasuries s1)(c \<mapsto> pure_account book_cfg who i (pure_at env))\<rparr>)"
  have "?P < bal (ledger ?s2) 2" using Cons.prems s1(2) by simp
  then obtain s3 where s3: "create_and_fund book_cfg env who ?P (i + 1) ?s2 = Ok s3"
    "bal (ledger s3) 2 = bal (ledger s) 2 - ?R - ?P"
    using book_create_and_fund[OF pos(2)] s1(2) by fastforce
  let ?u = "cb_deposit_event (PensionFundCreated c (pure_account book_cfg who (i + 1) (pure_at env)) ?P)
       (s3\<lparr>pension_funds := (pension_funds s3)(c \<mapsto> pure_account book_cfg who (i + 1) (pure_at env))\<rparr>)"
  have "length cs * (?R + ?P) < bal (ledger ?u) 2" using Cons.prems s3(2) by (simp add: algebra_simps)
  from Cons.IH[OF this, of "i + 2"] s1(1) s3(1) show ?case by (simp add: Let_def)
qed

lemma book_distribution: "\<exists>t. trigger_genesis_distribution book_cfg env (Signed 1) (cb_genesis book_cfg [] book_start) = Ok t"
proof -
  let ?s = "cb_genesis book_cfg [] book_start\<lparr>genesis_distributed := True\<rparr>"
  have "0 < total_confederation" "total_confederation < bal (ledger ?s) 2"
    by (simp_all add: total_confederation_def altan_unit_def cb_genesis_def book_start_def)
  from book_create_and_fund[OF this, of env 1 0] obtain s1 where
    s1: "create_and_fund book_cfg env 1 total_confederation 0 ?s = Ok s1"
    "bal (ledger s1) 2 = bal (ledger ?s) 2 - total_confederation" by blast
  let ?s2 = "cb_deposit_event (ConfederationTreasuryCreated (pure_account book_cfg 1 0 (pure_at env)) total_confederation)
               (s1\<lparr>confederation_treasury := Some (pure_account book_cfg 1 0 (pure_at env))\<rparr>)"
  have "length REGION_CODES_83 * (regional_per_region + reserve_per_region) < bal (ledger ?s2) 2"
    using s1(2) by (simp add: region_codes regional_per_region_def reserve_per_region_def total_regional_def
        total_reserve_def total_confederation_def altan_unit_def cb_genesis_def book_start_def)
  from book_fund_regions[OF this, of env 1 1] obtain n s3 where
    "fund_regions book_cfg env 1 REGION_CODES_83 1 ?s2 = Ok (n, s3)" by blast
  moreover have "creator_account book_cfg = 1" "\<not> genesis_distributed (cb_genesis book_cfg [] book_start)"
    by (simp_all add: book_cfg_def runtime_cb_config_def cb_genesis_def)
  ultimately show ?thesis using s1(1) by (simp add: trigger_genesis_distribution_def Let_def)
qed

theorem genesis_distribution_effect_witness:
  "\<exists>t. trigger_genesis_distribution book_cfg no_env (Signed 1) (cb_genesis book_cfg [] book_start) = Ok t
     \<and> regional_treasuries t 3 = Some 1005 \<and> pension_funds t 89 = Some 1166
     \<and> bal (ledger t) 1166 = 1890000000000000000000000 div 83"
proof -
  obtain t where t: "trigger_genesis_distribution book_cfg no_env (Signed 1) (cb_genesis book_cfg [] book_start) = Ok t"
    using book_distribution by blast
  note e = genesis_distribution_effect[OF book_cfg_outside book_fresh t, unfolded Let_def]
  from e have k: "regional_treasuries t (REGION_CODES_83 ! k) = Some (1001 + 2 * k)
      \<and> pension_funds t (REGION_CODES_83 ! k) = Some (1002 + 2 * k)
      \<and> bal (ledger t) (1002 + 2 * k) = bal book_start (1002 + 2 * k) + total_reserve div 83" if "k < 83" for k
    using that by (auto simp: book_cfg_def runtime_cb_config_def book_base_def cb_genesis_def)
  have "REGION_CODES_83 ! 2 = 3" "REGION_CODES_83 ! 82 = 89" by (simp_all add: REGION_CODES_83_def)
  then show ?thesis
    using t k[of 2] k[of 82] by (intro exI[of _ t]) (simp add: book_start_def total_reserve_def altan_unit_def)
qed


section \<open>Upgrade hooks\<close>

text \<open>What the runtime-upgrade check \<open>try_state\<close> really tests. In every reachable state its epoch and pool
  conditions hold, so it passes exactly when no more was burned than emitted. That condition is not kept by
  the pallet: credit is minted without counting as emission but can be burned, so any burn beyond the
  recorded emission leaves a state that the check rejects.\<close>

theorem try_state_reachable:
  fixes s t :: "'x cb_state"
  assumes lim: "credit_epoch_limit cfg \<le> umax 128"
    and r: "reachable (cb_dispatch cfg) (ledger_step P) (cb_genesis cfg ops x0) s"
  shows "(try_state cfg s \<longleftrightarrow> total_burned s \<le> total_emitted s)
    \<and> (cb_burn cfg og a v s = Ok t \<and> total_emitted s < total_burned s + v \<longrightarrow> \<not> try_state cfg t)"
proof -
  have good: "cb_inv cfg s"
    using cbm.reachable_inv[OF r cb_good_genesis[OF lim]] by (simp add: cb_good_def)
  have pool: "genesis_credit_available s + total_outstanding s = credit_epoch_limit cfg"
    and epoch: "0 < current_epoch_id s"
    using good by (auto simp: cb_inv_def pool_inv_def epoch_inv_def)
  have "sat_add 128 (genesis_credit_available s) (total_outstanding s) = credit_epoch_limit cfg"
    using pool lim by (simp add: sat_add_exact)
  with pool epoch have iff: "try_state cfg s \<longleftrightarrow> total_burned s \<le> total_emitted s"
    by (auto simp: try_state_def)
  have "total_burned t = total_burned s + v \<and> total_emitted t = total_emitted s"
    if "cb_burn cfg og a v s = Ok t"
    using that by (auto simp: cb_burn_def ok_simps checked_add_def split: if_splits)
  with iff show ?thesis by (auto simp: try_state_def)
qed

abbreviation burn_run where
  "burn_run \<equiv> book_run [(Root, GrantOperatorLicense 7), (Signed 7, RequestCredit 500)]"

theorem try_state_reachable_witness:
  "\<exists>s t :: book cb_state. try_state book_cfg s \<and> cb_burn book_cfg Root 7 100 s = Ok t \<and> \<not> try_state book_cfg t"
proof -
  have r: "reachable (cb_dispatch book_cfg) (ledger_step (\<lambda>_ _. True)) (cb_genesis book_cfg [] book_start) burn_run"
    by (rule reachable_run[OF reachable.start])
  have "\<exists>t. cb_burn book_cfg Root 7 100 burn_run = Ok t" by (simp add: book_eval)
  then obtain t where t: "cb_burn book_cfg Root 7 100 burn_run = Ok t" by blast
  have "total_burned burn_run = 0" "total_emitted burn_run = 0" by (simp_all add: book_eval)
  with try_state_reachable[OF book_cfg_limit r, of Root 7 100 t] t show ?thesis
    by (intro exI[of _ burn_run] exI[of _ t]) simp
qed

text \<open>The credit-pool migration is safe on a live chain. Whatever state the pallet has reached, as long as
  no epoch counter has run out of its range, rebuilding the pool from the epoch records yields exactly the
  books it would replace: \<open>InitCreditPool\<close> changes nothing, also when the pool is fully drawn and its guard
  lets it run again.\<close>

theorem init_credit_pool_identity:
  fixes s :: "'x cb_state"
  assumes lim: "credit_epoch_limit cfg \<le> umax 128"
    and r: "reachable (cb_dispatch cfg) (ledger_step P) (cb_genesis cfg ops x0) s" and ce: "current_epoch_id s < umax 32"
    and cnt: "(\<Sum>i=1..current_epoch_id s. issued_in (epochs s) i) < umax 128"
  shows "init_credit_pool cfg s = s
    \<and> (let (issued, repaid) = issued_and_repaid (epochs s) (current_epoch_id s) in
        issued - repaid = total_outstanding s \<and> repaid \<le> issued)"
proof -
  have good: "cb_inv cfg s"
    using cbm.reachable_inv[OF r cb_good_genesis[OF lim]] by (simp add: cb_good_def)
  let ?I = "\<Sum>i=1..current_epoch_id s. issued_in (epochs s) i"
  let ?R = "\<Sum>i=1..current_epoch_id s. repaid_in (epochs s) i"
  have dom: "dom (epochs s) = {1..current_epoch_id s}" using good by (simp add: cb_inv_def epoch_inv_def)
  have small: "\<forall>i e. epochs s i = Some e \<longrightarrow> total_issued e < umax 128"
  proof (intro allI impI)
    fix i e assume e: "epochs s i = Some e"
    then have "i \<in> {1..current_epoch_id s}" using dom by blast
    then have "issued_in (epochs s) i \<le> ?I" by (intro member_le_sum) auto
    then show "total_issued e < umax 128" using e cnt by (simp add: issued_in_def)
  qed
  have sum: "?R + total_outstanding s = ?I" by (rule epochs_make_outstanding[OF good ce small])
  then have "issued_and_repaid (epochs s) (current_epoch_id s) = (?I, ?R)"
    using cnt by (intro issued_and_repaid_sums) auto
  moreover have "genesis_credit_available s + total_outstanding s = credit_epoch_limit cfg"
    using good by (simp add: cb_inv_def pool_inv_def)
  moreover have "?I - ?R = total_outstanding s" using sum by simp
  ultimately show ?thesis using sum by (auto simp: init_credit_pool_def sat_sub_def)
qed

theorem init_credit_pool_identity_witness:
  "\<exists>s :: book cb_state. genesis_credit_available s = 0 \<and> total_outstanding s = 18900000000000000000000000
     \<and> init_credit_pool book_cfg s = s"
proof -
  let ?s = "book_run [(Root, GrantOperatorLicense 7), (Signed 7, RequestCredit 18900000000000000000000000)]"
  have r: "reachable (cb_dispatch book_cfg) (ledger_step (\<lambda>_ _. True)) (cb_genesis book_cfg [] book_start) ?s"
    by (rule reachable_run[OF reachable.start])
  have e: "current_epoch_id ?s = 1" "total_outstanding ?s = 18900000000000000000000000"
    "genesis_credit_available ?s = 0" "issued_in (epochs ?s) 1 = 18900000000000000000000000"
    by (simp_all add: book_eval issued_in_def)
  have "current_epoch_id ?s < umax 32"
    "(\<Sum>i=1..current_epoch_id ?s. issued_in (epochs ?s) i) < umax 128"
    unfolding e(1) using e(4) by (simp_all add: umax_def)
  from init_credit_pool_identity[OF book_cfg_limit r this] e show ?thesis by blast
qed

section \<open>Genesis grants\<close>

text \<open>The genesis grant is not a one-time grant. Nothing records who received one, and the grant counts
  neither against the credit pool nor against any cap: the same citizen can be granted any number of times,
  each time minting the full amount, until the counters run out of their range.\<close>

theorem genesis_grant_repeats:
  fixes s :: "('x, 'z) cb_state_scheme"
  assumes cur: "currency_ok (currency cfg)"
    and og: "\<forall>x. banking_origin cfg x og" and region: "pension_funds s region \<noteq> None"
    and alive: "0 < free_balance (currency cfg) (ledger s) citizen"
    and issuance: "total_issuance (currency cfg) (ledger s) + n * genesis_grant \<le> umax 128"
    and emitted: "total_emitted s + n * genesis_grant \<le> umax 128"
  shows "let t = run (cb_dispatch cfg) (replicate n (env, og, IssueGenesisGrant citizen region)) s in
      total_emitted t = total_emitted s + n * genesis_grant
    \<and> free_balance (currency cfg) (ledger t) citizen
        = free_balance (currency cfg) (ledger s) citizen + n * genesis_grant
    \<and> total_issuance (currency cfg) (ledger t) = total_issuance (currency cfg) (ledger s) + n * genesis_grant"
  using region alive issuance emitted
proof (induction n arbitrary: s)
  case 0
  then show ?case by simp
next
  case (Suc n)
  let ?d = "deposit_creating (currency cfg) (ledger s) citizen genesis_grant"
  have room: "total_issuance (currency cfg) (ledger s) + genesis_grant \<le> umax 128"
    "total_emitted s + genesis_grant \<le> umax 128" using Suc.prems by simp_all
  note dep = deposit_exact[OF cur Suc.prems(2) room(1)]
  obtain t where t: "cb_dispatch cfg (env, og, IssueGenesisGrant citizen region) s = Ok t"
    "ledger t = ?d" "total_emitted t = total_emitted s + genesis_grant" "pension_funds t = pension_funds s"
    using og Suc.prems(1) room(2)
    by (auto simp: issue_genesis_grant_def Let_def checked_add_def ensure_def)
  have "run (cb_dispatch cfg) (replicate (Suc n) (env, og, IssueGenesisGrant citizen region)) s
      = run (cb_dispatch cfg) (replicate n (env, og, IssueGenesisGrant citizen region)) t"
    using t(1) by (simp add: execute_def)
  then show ?case using Suc.IH[of t] Suc.prems t(2-4) dep by (simp add: Let_def)
qed

theorem genesis_grant_repeats_witness:
  "\<exists>s :: book cb_state. bal (ledger (run (cb_dispatch book_cfg) (replicate 3 (no_env, Root, IssueGenesisGrant 8 3)) s)) 8
      = 500 + 3 * genesis_grant"
proof -
  let ?s = "cb_genesis book_cfg [] book_start\<lparr>pension_funds := [3 \<mapsto> 1006]\<rparr>"
  have cur: "currency_ok (currency book_cfg)" using book_cfg_outside by (simp add: cb_outside_ok_def)
  have h: "\<forall>x. banking_origin book_cfg x Root" "pension_funds ?s 3 \<noteq> None"
    "0 < free_balance (currency book_cfg) (ledger ?s) 8"
    "total_issuance (currency book_cfg) (ledger ?s) + 3 * genesis_grant \<le> umax 128"
    "total_emitted ?s + 3 * genesis_grant \<le> umax 128"
    by (simp_all add: book_eval genesis_grant_def)
  have "free_balance (currency book_cfg) = bal" "bal (ledger ?s) 8 = 500"
    by (simp_all add: book_eval)
  with genesis_grant_repeats[OF cur h, of no_env] show ?thesis
    by (intro exI[of _ ?s]) (simp add: Let_def)
qed

end
