(* ===== verification/Migration_Center.thy ===== *)
theory Migration_Center
  imports Pallet_Interfaces
begin

text \<open>
  \<^verbatim>\<open>pallets/migration-center/src/lib.rs\<close>: anchors of citizenship applications, their officers and verdicts.
  The account encoding and \<open>sr25519_verify\<close> are third-party code and stay parameters (\<open>mc_config\<close>).
\<close>

section \<open>Data\<close>

datatype anchor_status = Submitted | UnderReview | Approved | Rejected | Revoked

record application_anchor =
  application_id_hash :: h256
  data_hash :: h256
  submitted_at_block :: nat
  status :: anchor_status
  officer :: "account option"
  officer_claim_sig :: "byte list option"
  claimed_at_block :: "nat option"
  outcome_hash :: "h256 option"
  finalized_at_block :: "nat option"

record mc_config =
  encode_account :: "account \<Rightarrow> byte list"
  sr25519_verify :: "byte list \<Rightarrow> byte list \<Rightarrow> byte list \<Rightarrow> bool"

datatype mc_event =
    ApplicationSubmitted account h256 h256 nat
  | ApplicationClaimed account account h256 nat
  | ApplicationFinalized account account h256 bool h256
  | ApplicationRevoked account h256

datatype mc_error =
    ApplicationAlreadyExists | ApplicationNotFound | NotSubmitted | NotUnderReview
  | NotTheClaimingOfficer | AlreadyFinalized | InvalidOfficerSignature
  | DuplicateApplicationHash | InvalidSignatureLength

type_synonym mc_failure = "mc_error dispatch_error"

record mc_state =
  application_anchors :: "account \<Rightarrow> application_anchor option"
  hash_to_applicant :: "h256 \<Rightarrow> account option"
  total_applications :: nat
  total_approved :: nat
  mc_events :: "mc_event list"

definition mc_empty :: mc_state where
  "mc_empty = \<lparr>application_anchors = Map.empty, hash_to_applicant = Map.empty,
               total_applications = 0, total_approved = 0, mc_events = []\<rparr>"

definition mc_deposit_event :: "mc_event \<Rightarrow> mc_state \<Rightarrow> mc_state" where
  "mc_deposit_event e s = s\<lparr>mc_events := mc_events s @ [e]\<rparr>"

section \<open>The claim message\<close>

definition hex_digit :: "byte \<Rightarrow> byte" where
  "hex_digit n = bytes ''0123456789abcdef'' ! unat n"

fun h256_to_hex :: "h256 \<Rightarrow> byte list" where
  "h256_to_hex [] = []"
| "h256_to_hex (b # bs) = hex_digit (drop_bit 4 b) # hex_digit (and b 15) # h256_to_hex bs"

text \<open>\<open>format!("{}", n)\<close>: the decimal digits, without leading zeros.\<close>

fun decimal :: "nat \<Rightarrow> byte list" where
  "decimal n = (if n < 10 then [of_nat (48 + n)] else decimal (n div 10) @ [of_nat (48 + n mod 10)])"

declare decimal.simps [simp del]

definition build_claim_message :: "byte list \<Rightarrow> nat \<Rightarrow> byte list" where
  "build_claim_message app_hash_hex block_num =
     bytes ''INOMAD:CLAIM:'' @ app_hash_hex @ bytes '':'' @ decimal block_num"

definition wrap_bytes :: "byte list \<Rightarrow> byte list" where
  "wrap_bytes msg = bytes ''<Bytes>'' @ msg @ bytes ''</Bytes>''"

section \<open>Dispatchables\<close>

definition is_terminal :: "anchor_status \<Rightarrow> bool" where
  "is_terminal st \<longleftrightarrow> st = Approved \<or> st = Rejected \<or> st = Revoked"

definition submit_application ::
  "env \<Rightarrow> origin \<Rightarrow> h256 \<Rightarrow> h256 \<Rightarrow> mc_state \<Rightarrow> (mc_state, mc_failure) result" where
  "submit_application env og app_hash dat_hash s =
     and_then (ensure_signed og) (\<lambda>applicant.
     let block = block_number env in
     ensure (hash_to_applicant s app_hash = None) (Module DuplicateApplicationHash) (
     ensure (case application_anchors s applicant of
               Some existing \<Rightarrow> is_terminal (status existing) | None \<Rightarrow> True)
       (Module ApplicationAlreadyExists) (
     let anchor = \<lparr>application_id_hash = app_hash, data_hash = dat_hash, submitted_at_block = block,
                   status = Submitted, officer = None, officer_claim_sig = None,
                   claimed_at_block = None, outcome_hash = None, finalized_at_block = None\<rparr>
     in Ok (mc_deposit_event (ApplicationSubmitted applicant app_hash dat_hash block)
             (s\<lparr>application_anchors := (application_anchors s)(applicant \<mapsto> anchor),
                hash_to_applicant := (hash_to_applicant s)(app_hash \<mapsto> applicant),
                total_applications := sat_add 64 (total_applications s) 1\<rparr>)))))"

definition claim_application ::
  "mc_config \<Rightarrow> env \<Rightarrow> origin \<Rightarrow> account \<Rightarrow> byte list \<Rightarrow> mc_state \<Rightarrow> (mc_state, mc_failure) result" where
  "claim_application cfg env og applicant officer_sig s =
     and_then (ensure_signed og) (\<lambda>off.
     let block = block_number env in
     ok_or (application_anchors s applicant) (Module ApplicationNotFound) (\<lambda>anchor.
     ensure (status anchor = Submitted) (Module NotSubmitted) (
     ensure (length officer_sig = 64) (Module InvalidSignatureLength) (
     let app_hash_hex = h256_to_hex (application_id_hash anchor);
         block_num = (if block \<le> umax 64 then block else 0);
         message = build_claim_message app_hash_hex block_num;
         wrapped = wrap_bytes message
     in ensure (length (encode_account cfg off) = 32) (Module InvalidOfficerSignature) (
        ensure (sr25519_verify cfg officer_sig wrapped (encode_account cfg off))
          (Module InvalidOfficerSignature) (
        let anchor' = anchor\<lparr>status := UnderReview, officer := Some off,
                             officer_claim_sig := Some officer_sig, claimed_at_block := Some block\<rparr>
        in Ok (mc_deposit_event (ApplicationClaimed off applicant (application_id_hash anchor') block)
                (s\<lparr>application_anchors := (application_anchors s)(applicant \<mapsto> anchor')\<rparr>))))))))"

definition finalize_application ::
  "env \<Rightarrow> origin \<Rightarrow> account \<Rightarrow> bool \<Rightarrow> h256 \<Rightarrow> mc_state \<Rightarrow> (mc_state, mc_failure) result" where
  "finalize_application env og applicant approved outcome s =
     and_then (ensure_signed og) (\<lambda>off.
     let block = block_number env in
     ok_or (application_anchors s applicant) (Module ApplicationNotFound) (\<lambda>anchor.
     ensure (status anchor = UnderReview) (Module NotUnderReview) (
     ok_or (officer anchor) (Module NotUnderReview) (\<lambda>claiming_officer.
     ensure (claiming_officer = off) (Module NotTheClaimingOfficer) (
     let anchor' = anchor\<lparr>status := (if approved then Approved else Rejected),
                          outcome_hash := Some outcome, finalized_at_block := Some block\<rparr>;
         s1 = (if approved then s\<lparr>total_approved := sat_add 64 (total_approved s) 1\<rparr> else s)
     in Ok (mc_deposit_event (ApplicationFinalized off applicant (application_id_hash anchor') approved outcome)
             (s1\<lparr>application_anchors := (application_anchors s1)(applicant \<mapsto> anchor')\<rparr>)))))))"

definition revoke_application ::
  "origin \<Rightarrow> account \<Rightarrow> mc_state \<Rightarrow> (mc_state, mc_failure) result" where
  "revoke_application og applicant s =
     and_then (ensure_root og) (\<lambda>_.
     ok_or (application_anchors s applicant) (Module ApplicationNotFound) (\<lambda>anchor.
     ensure (\<not> is_terminal (status anchor)) (Module AlreadyFinalized) (
     Ok (mc_deposit_event (ApplicationRevoked applicant (application_id_hash anchor))
          (s\<lparr>application_anchors := (application_anchors s)(applicant \<mapsto> anchor\<lparr>status := Revoked\<rparr>)\<rparr>)))))"

datatype mc_call =
    SubmitApplication h256 h256
  | ClaimApplication account "byte list"
  | FinalizeApplication account bool h256
  | RevokeApplication account

fun mc_dispatch :: "mc_config \<Rightarrow> env \<times> origin \<times> mc_call \<Rightarrow> mc_state \<Rightarrow> (mc_state, mc_failure) result" where
  "mc_dispatch cfg (env, og, SubmitApplication h d) s = submit_application env og h d s"
| "mc_dispatch cfg (env, og, ClaimApplication a sig) s = claim_application cfg env og a sig s"
| "mc_dispatch cfg (env, og, FinalizeApplication a ok h) s = finalize_application env og a ok h s"
| "mc_dispatch cfg (env, og, RevokeApplication a) s = revoke_application og a s"

section \<open>Queries of other pallets\<close>

definition has_active_application :: "mc_state \<Rightarrow> account \<Rightarrow> bool" where
  "has_active_application s applicant =
     (case application_anchors s applicant of Some a \<Rightarrow> \<not> is_terminal (status a) | None \<Rightarrow> False)"

definition is_application_approved :: "mc_state \<Rightarrow> account \<Rightarrow> bool" where
  "is_application_approved s applicant =
     (case application_anchors s applicant of Some a \<Rightarrow> status a = Approved | None \<Rightarrow> False)"

definition applicant_by_hash :: "mc_state \<Rightarrow> h256 \<Rightarrow> account option" where
  "applicant_by_hash s h = hash_to_applicant s h"

end
