(* ===== verification/Migration_Center_Props.thy ===== *)
theory Migration_Center_Props
  imports Migration_Center
begin

text \<open>
  Invariants of the migration center: every anchor is indexed by its hash and carries exactly the evidence
  its status calls for, and the counters count. The claim message is an injective encoding. The status of an
  application (named by its hash) is an instance of \<open>lifecycle\<close>, the pallet one of \<open>pallet_machine\<close>.
\<close>

section \<open>The claim message\<close>

lemma length_hex: "length (h256_to_hex h) = 2 * length h"
  by (induction h) auto

lemma nibble: "unat (drop_bit 4 (b :: byte)) < 16" "unat (and b 15) < 16"
proof -
  have "unat (drop_bit 4 b) = unat b div 16" using unat_drop_bit_eq[of 4 b] by (simp add: drop_bit_eq_div unat_div_distrib)
  moreover have "unat b < 256" by (rule order_less_le_trans[OF unsigned_less]) simp
  ultimately show "unat (drop_bit 4 b) < 16" by simp
  have "and b 15 = take_bit 4 b" by (simp add: take_bit_eq_mask mask_eq_exp_minus_1)
  moreover have "unat (take_bit 4 b) = take_bit 4 (unat b)" by (rule unsigned_take_bit_eq)
  ultimately have "unat (and b 15) = take_bit 4 (unat b)" by simp
  then have "unat (and b 15) = unat b mod 16" by (simp only: take_bit_eq_mod) simp
  then show "unat (and b 15) < 16" by simp
qed

lemma byte_of_nibbles: "(b :: byte) = push_bit 4 (drop_bit 4 b) + and b 15"
proof -
  have "and b 15 = take_bit 4 b" by (simp add: take_bit_eq_mask mask_eq_exp_minus_1)
  then show ?thesis using bits_ident[of 4 b] by simp
qed

lemma hex_digit_inj: "unat m < 16 \<Longrightarrow> unat n < 16 \<Longrightarrow> hex_digit m = hex_digit n \<Longrightarrow> m = n"
proof -
  have d: "distinct (bytes ''0123456789abcdef'')" by (simp add: bytes_def)
  have l: "length (bytes ''0123456789abcdef'') = 16" by simp
  assume "unat m < 16" "unat n < 16" "hex_digit m = hex_digit n"
  then have "unat m = unat n" using nth_eq_iff_index_eq[OF d] l by (simp add: hex_digit_def)
  then show ?thesis by (simp add: word_unat_eq_iff)
qed

lemma h256_to_hex_inj: "h256_to_hex h = h256_to_hex k \<Longrightarrow> h = k"
proof (induction h arbitrary: k)
  case Nil
  then show ?case by (cases k) auto
next
  case (Cons b h)
  then obtain c k' where k: "k = c # k'" by (cases k) auto
  from Cons.prems have "hex_digit (drop_bit 4 b) = hex_digit (drop_bit 4 c)"
    "hex_digit (and b 15) = hex_digit (and c 15)" "h256_to_hex h = h256_to_hex k'" by (auto simp: k)
  then have "drop_bit 4 b = drop_bit 4 c" "and b 15 = and c 15" "h = k'"
    using Cons.IH by (auto intro: hex_digit_inj nibble)
  then show ?case using byte_of_nibbles[of b] byte_of_nibbles[of c] k by simp
qed

definition undecimal :: "byte list \<Rightarrow> nat" where
  "undecimal = foldl (\<lambda>n d. 10 * n + (unat d - 48)) 0"

lemma undecimal_decimal: "undecimal (decimal n) = n"
proof (induction n rule: decimal.induct)
  case (1 n)
  have d: "unat (48 + of_nat m :: byte) = 48 + m" if "m < 10" for m
  proof -
    have "unat (of_nat (48 + m) :: byte) = 48 + m"
      using that by (simp only: unat_of_nat) simp
    then show ?thesis by simp
  qed
  show ?case
  proof (cases "n < 10")
    case True
    then show ?thesis using d[of n] by (subst decimal.simps) (simp add: undecimal_def)
  next
    case False
    then have "undecimal (decimal n) = 10 * undecimal (decimal (n div 10)) + n mod 10"
      using d[of "n mod 10"] by (subst decimal.simps) (simp add: undecimal_def)
    then show ?thesis using 1 False by simp
  qed
qed

lemma decimal_inj: "decimal m = decimal n \<Longrightarrow> m = n"
  by (metis undecimal_decimal)

section \<open>The invariant\<close>

text \<open>The officer on record signed the claim of this very application at the recorded block.\<close>

definition claim_proved :: "mc_config \<Rightarrow> application_anchor \<Rightarrow> bool" where
  "claim_proved cfg x \<longleftrightarrow>
     (\<exists>off sig b. officer x = Some off \<and> officer_claim_sig x = Some sig \<and> claimed_at_block x = Some b
        \<and> length sig = 64 \<and> length (encode_account cfg off) = 32
        \<and> sr25519_verify cfg sig
            (wrap_bytes (build_claim_message (h256_to_hex (application_id_hash x)) (if b \<le> umax 64 then b else 0)))
            (encode_account cfg off))"

definition evidence_ok :: "mc_config \<Rightarrow> application_anchor \<Rightarrow> bool" where
  "evidence_ok cfg x \<longleftrightarrow>
     (case status x of
        Submitted \<Rightarrow> officer x = None \<and> officer_claim_sig x = None \<and> claimed_at_block x = None
                     \<and> outcome_hash x = None \<and> finalized_at_block x = None
      | UnderReview \<Rightarrow> claim_proved cfg x \<and> outcome_hash x = None \<and> finalized_at_block x = None
      | Revoked \<Rightarrow> outcome_hash x = None \<and> finalized_at_block x = None
      | _ \<Rightarrow> claim_proved cfg x \<and> outcome_hash x \<noteq> None \<and> finalized_at_block x \<noteq> None)"

definition anchors_inv :: "mc_config \<Rightarrow> mc_state \<Rightarrow> bool" where
  "anchors_inv cfg s \<longleftrightarrow>
     (\<forall>a x. application_anchors s a = Some x \<longrightarrow>
        hash_to_applicant s (application_id_hash x) = Some a \<and> evidence_ok cfg x)"

definition counters_inv :: "mc_state \<Rightarrow> bool" where
  "counters_inv s \<longleftrightarrow>
     finite (dom (hash_to_applicant s)) \<and> finite (dom (application_anchors s))
     \<and> total_applications s = min (card (dom (hash_to_applicant s))) (umax 64)
     \<and> total_approved s + card {a. has_active_application s a} \<le> card (dom (hash_to_applicant s))"

definition mc_inv :: "mc_config \<Rightarrow> mc_state \<Rightarrow> bool" where
  "mc_inv cfg s \<longleftrightarrow> anchors_inv cfg s \<and> counters_inv s"

lemma mc_inv_empty: "mc_inv cfg mc_empty"
  by (simp add: mc_inv_def anchors_inv_def counters_inv_def mc_empty_def has_active_application_def)

lemma mc_event_simps [simp]:
  "application_anchors (mc_deposit_event e s) = application_anchors s"
  "hash_to_applicant (mc_deposit_event e s) = hash_to_applicant s"
  "total_applications (mc_deposit_event e s) = total_applications s"
  "total_approved (mc_deposit_event e s) = total_approved s"
  by (simp_all add: mc_deposit_event_def)

lemmas mc_handler_defs = submit_application_def claim_application_def finalize_application_def
  revoke_application_def

definition new_anchor :: "env \<Rightarrow> h256 \<Rightarrow> h256 \<Rightarrow> application_anchor" where
  "new_anchor env h dh =
     \<lparr>application_id_hash = h, data_hash = dh, submitted_at_block = block_number env, status = Submitted,
      officer = None, officer_claim_sig = None, claimed_at_block = None, outcome_hash = None,
      finalized_at_block = None\<rparr>"

text \<open>What a dispatch does to the books: it files a new anchor, or it changes the evidence and the status
  of one anchor and keeps its hash.\<close>

lemma mc_dispatch_cases:
  assumes "mc_dispatch cfg c s = Ok t"
  obtains (submit) a h x where
    "hash_to_applicant s h = None" "\<not> has_active_application s a"
    "application_anchors t = (application_anchors s)(a \<mapsto> x)" "application_id_hash x = h" "status x = Submitted"
    "evidence_ok cfg x" "hash_to_applicant t = (hash_to_applicant s)(h \<mapsto> a)"
    "total_applications t = sat_add 64 (total_applications s) 1" "total_approved t = total_approved s"
  | (claim) a x y where
    "application_anchors s a = Some x" "application_anchors t = (application_anchors s)(a \<mapsto> y)"
    "application_id_hash y = application_id_hash x" "status x = Submitted" "status y = UnderReview"
    "evidence_ok cfg x \<longrightarrow> evidence_ok cfg y" "hash_to_applicant t = hash_to_applicant s"
    "total_applications t = total_applications s" "total_approved t = total_approved s"
  | (close) a x y where
    "application_anchors s a = Some x" "application_anchors t = (application_anchors s)(a \<mapsto> y)"
    "application_id_hash y = application_id_hash x"
    "status x = UnderReview \<and> is_terminal (status y) \<or> status x = Submitted \<and> status y = Revoked"
    "evidence_ok cfg x \<longrightarrow> evidence_ok cfg y" "hash_to_applicant t = hash_to_applicant s"
    "total_applications t = total_applications s" "total_approved t \<le> Suc (total_approved s)"
proof -
  obtain env og call where c: "c = (env, og, call)" by (cases c) auto
  note d = assms[unfolded c]
  show thesis
  proof (cases call)
    case (SubmitApplication h dh)
    with d obtain a where og: "og = Signed a"
      by (auto simp: submit_application_def ok_simps)
    from SubmitApplication d og have t: "hash_to_applicant s h = None"
      "t = mc_deposit_event (ApplicationSubmitted a h dh (block_number env))
        (s\<lparr>application_anchors := (application_anchors s)(a \<mapsto> new_anchor env h dh),
           hash_to_applicant := (hash_to_applicant s)(h \<mapsto> a),
           total_applications := sat_add 64 (total_applications s) 1\<rparr>)"
      "\<not> has_active_application s a"
      by (auto simp: submit_application_def Let_def ok_simps has_active_application_def new_anchor_def
          split: option.splits)
    show thesis
      by (rule submit[of h a "new_anchor env h dh"])
        (use t in \<open>simp_all add: new_anchor_def evidence_ok_def\<close>)
  next
    case (ClaimApplication a sig)
    with d obtain off x where x: "application_anchors s a = Some x" "status x = Submitted" "length sig = 64"
      "length (encode_account cfg off) = 32"
      "sr25519_verify cfg sig (wrap_bytes (build_claim_message (h256_to_hex (application_id_hash x))
         (if block_number env \<le> umax 64 then block_number env else 0))) (encode_account cfg off)"
      and t: "t = mc_deposit_event (ApplicationClaimed off a (application_id_hash x) (block_number env))
        (s\<lparr>application_anchors := (application_anchors s)(a \<mapsto>
            x\<lparr>status := UnderReview, officer := Some off, officer_claim_sig := Some sig,
              claimed_at_block := Some (block_number env)\<rparr>)\<rparr>)"
      by (auto simp: claim_application_def Let_def ok_simps)
    show thesis
      by (rule claim[of a x "x\<lparr>status := UnderReview, officer := Some off, officer_claim_sig := Some sig,
              claimed_at_block := Some (block_number env)\<rparr>"])
        (use x t in \<open>simp_all add: evidence_ok_def claim_proved_def\<close>)
  next
    case (FinalizeApplication a ok h)
    let ?v = "if ok then Approved else Rejected"
    from FinalizeApplication d obtain off x where x: "application_anchors s a = Some x" "status x = UnderReview"
      and t: "application_anchors t = (application_anchors s)(a \<mapsto>
            x\<lparr>status := ?v, outcome_hash := Some h, finalized_at_block := Some (block_number env)\<rparr>)"
        "hash_to_applicant t = hash_to_applicant s" "total_applications t = total_applications s"
        "total_approved t \<le> Suc (total_approved s)"
      by (auto simp: finalize_application_def Let_def ok_simps sat_add_def)
    show thesis
      by (rule close[of a x "x\<lparr>status := ?v, outcome_hash := Some h, finalized_at_block := Some (block_number env)\<rparr>"])
        (use x t in \<open>simp_all add: evidence_ok_def claim_proved_def is_terminal_def\<close>)
  next
    case (RevokeApplication a)
    with d obtain x where x: "application_anchors s a = Some x" "\<not> is_terminal (status x)"
      and t: "t = mc_deposit_event (ApplicationRevoked a (application_id_hash x))
                (s\<lparr>application_anchors := (application_anchors s)(a \<mapsto> x\<lparr>status := Revoked\<rparr>)\<rparr>)"
      by (auto simp: revoke_application_def ok_simps)
    show thesis
      by (rule close[of a x "x\<lparr>status := Revoked\<rparr>"])
        (use x t in \<open>cases "status x"; simp add: evidence_ok_def is_terminal_def\<close>)+
  qed
qed

lemma mc_dispatch_inv:
  assumes inv: "mc_inv cfg s" and d: "mc_dispatch cfg c s = Ok t"
  shows "mc_inv cfg t"
proof -
  let ?act = "\<lambda>s. {a. has_active_application s a}"
  have fin: "finite (?act s)" "finite (dom (hash_to_applicant s))" "finite (dom (application_anchors s))"
  proof -
    show "finite (dom (hash_to_applicant s))" and f: "finite (dom (application_anchors s))"
      using inv by (auto simp: mc_inv_def counters_inv_def)
    have "?act s \<subseteq> dom (application_anchors s)" by (auto simp: has_active_application_def split: option.splits)
    then show "finite (?act s)" using f finite_subset by blast
  qed
  note I = inv[unfolded mc_inv_def anchors_inv_def counters_inv_def]
  from d show ?thesis
  proof (cases rule: mc_dispatch_cases)
    case (submit a h x)
    have "?act t = insert a (?act s)" using submit by (auto simp: has_active_application_def is_terminal_def)
    moreover have "a \<notin> ?act s" using submit by simp
    ultimately have act: "card (?act t) = Suc (card (?act s))" using fin by simp
    have dom: "card (dom (hash_to_applicant t)) = Suc (card (dom (hash_to_applicant s)))"
    proof -
      have "dom (hash_to_applicant t) = insert h (dom (hash_to_applicant s))" using submit by simp
      moreover have "h \<notin> dom (hash_to_applicant s)" using submit by blast
      ultimately show ?thesis using fin(2) by simp
    qed
    have "anchors_inv cfg t" using I submit by (auto simp: anchors_inv_def) (metis option.distinct(1))
    moreover have "counters_inv t"
      using I submit act dom fin by (auto simp: counters_inv_def sat_add_def)
    ultimately show ?thesis by (simp add: mc_inv_def)
  next
    case (claim a x y)
    then have act: "?act t = ?act s" by (auto simp: has_active_application_def is_terminal_def)
    have "anchors_inv cfg t" using I claim by (auto simp: anchors_inv_def)
    moreover have "counters_inv t" using I claim act fin by (auto simp: counters_inv_def)
    ultimately show ?thesis by (simp add: mc_inv_def)
  next
    case (close a x y)
    then have act: "?act t = ?act s - {a}" and a: "a \<in> ?act s"
      by (auto simp: has_active_application_def is_terminal_def)
    have "card (?act s) = Suc (card (?act t))" unfolding act using a fin by (metis card_Suc_Diff1)
    moreover have "anchors_inv cfg t" using I close by (auto simp: anchors_inv_def)
    ultimately show ?thesis using I close fin by (auto simp: mc_inv_def counters_inv_def)
  qed
qed

interpretation mcm: pallet_machine "mc_dispatch cfg" "\<lambda>_ _. False" "mc_inv cfg"
  for cfg
  by standard (auto intro: mc_dispatch_inv)

section \<open>The life of an application\<close>

text \<open>The status of the application filed under a hash; \<open>Some None\<close> when its applicant filed a later one.\<close>

definition hash_status :: "mc_state \<Rightarrow> h256 \<Rightarrow> anchor_status option option" where
  "hash_status s h =
     (case hash_to_applicant s h of None \<Rightarrow> None
      | Some a \<Rightarrow> Some (case application_anchors s a of None \<Rightarrow> None
          | Some x \<Rightarrow> if application_id_hash x = h then Some (status x) else None))"

fun status_edge :: "anchor_status option \<Rightarrow> anchor_status option \<Rightarrow> bool" where
  "status_edge (Some Submitted) (Some y) \<longleftrightarrow> y = UnderReview \<or> y = Revoked"
| "status_edge (Some UnderReview) (Some y) \<longleftrightarrow> is_terminal y"
| "status_edge (Some x) None \<longleftrightarrow> is_terminal x"
| "status_edge _ _ \<longleftrightarrow> False"

definition mc_step :: "mc_config \<Rightarrow> mc_state \<Rightarrow> mc_state \<Rightarrow> bool" where
  "mc_step cfg s t \<longleftrightarrow> mc_inv cfg s \<and> (\<exists>c. mc_dispatch cfg c s = Ok t)"

interpretation mcl: lifecycle hash_status status_edge "mc_step cfg"
  for cfg
proof
  fix s t h x
  assume st: "mc_step cfg s t" and x: "hash_status s h = Some x" "hash_status t h \<noteq> Some x"
  from st obtain c where inv: "mc_inv cfg s" and d: "mc_dispatch cfg c s = Ok t" by (auto simp: mc_step_def)
  note I = inv[unfolded mc_inv_def anchors_inv_def]
  from x(1) obtain b where b: "hash_to_applicant s h = Some b"
    by (auto simp: hash_status_def split: option.splits)
  from d show "\<exists>y. hash_status t h = Some y \<and> status_edge x y"
  proof (cases rule: mc_dispatch_cases)
    case (submit a k z)
    have "k \<noteq> h" using submit(1) b by auto
    with submit b x show ?thesis
      by (cases x rule: option.exhaust)
        (auto simp: hash_status_def has_active_application_def is_terminal_def split: option.splits if_splits)
  next
    case (claim a y z)
    with x b I show ?thesis by (auto simp: hash_status_def split: if_splits option.splits)
  next
    case (close a y z)
    with x b I show ?thesis
      by (auto simp: hash_status_def is_terminal_def split: if_splits option.splits)
  qed
qed

lemma mc_run_steps: "mc_inv cfg s \<Longrightarrow> (mc_step cfg)\<^sup>*\<^sup>* s (run (mc_dispatch cfg) cs s)"
proof (induction cs arbitrary: s)
  case Nil
  then show ?case by simp
next
  case (Cons c cs)
  have "mc_step cfg s (execute (mc_dispatch cfg) c s) \<or> execute (mc_dispatch cfg) c s = s"
    using Cons.prems unfolding mc_step_def execute_def
    by (cases "mc_dispatch cfg c s") (simp_all del: split_paired_Ex, blast)
  with Cons.IH[OF mcm.execute_inv[OF Cons.prems, of c]] show ?case
    unfolding run.simps by (metis converse_rtranclp_into_rtranclp)
qed

text \<open>From a verdict only supersession is left.\<close>

lemma terminal_closed:
  "status_edge\<^sup>*\<^sup>* x y \<Longrightarrow> (x = None \<longrightarrow> y = None)
     \<and> (\<forall>v. x = Some v \<and> is_terminal v \<longrightarrow> y = Some v \<or> y = None)"
proof (induction rule: rtranclp_induct)
  case base
  then show ?case by simp
next
  case (step y z)
  then show ?case by (cases "(y, z)" rule: status_edge.cases) (auto simp: is_terminal_def)
qed

end
