(* ===== verification/Migration_Center_Claims.thy ===== *)
theory Migration_Center_Claims
  imports Migration_Center_Props
begin

text \<open>The properties of the migration center, with their instances on a concrete signature scheme.\<close>

lemma mc_reachable_inv: "reachable (mc_dispatch cfg) (\<lambda>_ _. False) mc_empty s \<Longrightarrow> mc_inv cfg s"
  by (erule mcm.reachable_inv[OF _ mc_inv_empty])

text \<open>A configuration for the witnesses: a signature is accepted when it starts with the signer's key.\<close>

definition toy_mc :: mc_config where
  "toy_mc = \<lparr>encode_account = (\<lambda>a. replicate 32 (of_nat a)),
             sr25519_verify = (\<lambda>sig msg key. take 32 sig = key)\<rparr>"

definition at_block :: "nat \<Rightarrow> env" where
  "at_block b = \<lparr>block_number = b, extrinsic_index = None\<rparr>"

definition toy_hash :: "nat \<Rightarrow> h256" where
  "toy_hash n = replicate 32 (of_nat n)"

abbreviation toy_calls :: "(env \<times> origin \<times> mc_call) list" where
  "toy_calls \<equiv> [(at_block 3, Signed 5, SubmitApplication (toy_hash 1) (toy_hash 2)),
               (at_block 4, Signed 9, ClaimApplication 5 (replicate 64 9)),
               (at_block 6, Signed 9, FinalizeApplication 5 True (toy_hash 3))]"

abbreviation toy_run where "toy_run cs \<equiv> run (mc_dispatch toy_mc) cs mc_empty"

lemmas toy_eval = toy_mc_def at_block_def mc_empty_def execute_def mc_handler_defs Let_def is_terminal_def
  sat_add_def umax_def

lemma toy_reachable: "reachable (mc_dispatch toy_mc) (\<lambda>_ _. False) mc_empty (toy_run cs)"
  by (rule reachable_run[OF reachable.start])

lemma toy_anchor: "application_anchors (toy_run toy_calls) 5 =
    Some \<lparr>application_id_hash = toy_hash 1, data_hash = toy_hash 2, submitted_at_block = 3, status = Approved,
      officer = Some 9, officer_claim_sig = Some (replicate 64 9), claimed_at_block = Some 4,
      outcome_hash = Some (toy_hash 3), finalized_at_block = Some 6\<rparr>"
  by (simp add: toy_eval)

lemma toy_hash_registered: "hash_to_applicant (toy_run toy_calls) (toy_hash 1) = Some 5"
  by (simp add: toy_eval)

text \<open>C7: Provenance of verdicts. In every reachable state an application under review, approved or rejected
  names an officer whose sr25519 signature over the claim message of exactly this application, at the
  recorded block, was verified; its hash is registered to its applicant and no other applicant's anchor
  carries the same hash.\<close>

theorem verdict_provenance:
  assumes r: "reachable (mc_dispatch cfg) (\<lambda>_ _. False) mc_empty s"
    and x: "application_anchors s a = Some x" "status x \<in> {UnderReview, Approved, Rejected}"
  shows "(\<exists>off sig b. officer x = Some off \<and> officer_claim_sig x = Some sig \<and> claimed_at_block x = Some b
        \<and> length sig = 64
        \<and> sr25519_verify cfg sig
            (wrap_bytes (build_claim_message (h256_to_hex (application_id_hash x)) (if b \<le> umax 64 then b else 0)))
            (encode_account cfg off))
    \<and> applicant_by_hash s (application_id_hash x) = Some a
    \<and> (\<forall>c y. application_anchors s c = Some y \<and> application_id_hash y = application_id_hash x \<longrightarrow> c = a)"
proof -
  have inv: "anchors_inv cfg s" using mc_reachable_inv[OF r] by (simp add: mc_inv_def)
  then have e: "evidence_ok cfg x" and h: "hash_to_applicant s (application_id_hash x) = Some a"
    using x(1) by (auto simp: anchors_inv_def)
  from e x(2) have "claim_proved cfg x" by (auto simp: evidence_ok_def)
  moreover have "c = a" if "application_anchors s c = Some y" "application_id_hash y = application_id_hash x" for c y
    using that inv h unfolding anchors_inv_def by (metis option.inject)
  ultimately show ?thesis using h unfolding claim_proved_def applicant_by_hash_def by blast
qed

theorem verdict_provenance_witness:
  "is_application_approved (toy_run toy_calls) 5 \<and> applicant_by_hash (toy_run toy_calls) (toy_hash 1) = Some 5"
  using verdict_provenance[OF toy_reachable toy_anchor] toy_anchor
  by (simp add: is_application_approved_def)

text \<open>The audit counters. In every reachable state the number of applications is the number of registered
  application hashes (up to the end of the \<open>u64\<close> range), and approvals plus pending applications never
  exceed it: no application is approved twice.\<close>

theorem application_counters:
  assumes "reachable (mc_dispatch cfg) (\<lambda>_ _. False) mc_empty s"
  shows "finite (dom (hash_to_applicant s))
    \<and> total_applications s = min (card (dom (hash_to_applicant s))) (2 ^ 64 - 1)
    \<and> total_approved s + card {a. has_active_application s a} \<le> card (dom (hash_to_applicant s))"
  using mc_reachable_inv[OF assms] by (simp add: mc_inv_def counters_inv_def umax_def)

theorem application_counters_witness:
  "total_approved (toy_run toy_calls) = 1 \<and> 1 \<le> card (dom (hash_to_applicant (toy_run toy_calls)))"
proof -
  have "total_approved (toy_run toy_calls) = 1" by (simp add: toy_eval)
  with application_counters[OF toy_reachable[of toy_calls]] show ?thesis by simp
qed

text \<open>The signed claim message is unambiguous: two messages (as wrapped for the wallet) are equal only
  if they name the same application hash and the same block, so a claim signature cannot be presented for
  another application or at another block.\<close>

theorem claim_message_unambiguous:
  assumes "length h = 32" "length h' = 32"
    and eq: "wrap_bytes (build_claim_message (h256_to_hex h) n) = wrap_bytes (build_claim_message (h256_to_hex h') n')"
  shows "h = h' \<and> n = n'"
proof -
  have "h256_to_hex h @ bytes '':'' @ decimal n = h256_to_hex h' @ bytes '':'' @ decimal n'"
    using eq by (simp add: wrap_bytes_def build_claim_message_def)
  moreover have "length (h256_to_hex h) = length (h256_to_hex h')" using assms(1,2) by (simp add: length_hex)
  ultimately have "h256_to_hex h = h256_to_hex h'" "decimal n = decimal n'" by auto
  then show ?thesis using h256_to_hex_inj decimal_inj by blast
qed

theorem claim_message_unambiguous_witness:
  "wrap_bytes (build_claim_message (h256_to_hex (toy_hash 1)) 10) \<noteq> wrap_bytes (build_claim_message (h256_to_hex (toy_hash 1)) 11)"
  using claim_message_unambiguous[of "toy_hash 1" "toy_hash 1" 10 11] by (auto simp: toy_hash_def)

text \<open>Verdicts are final. Once the application filed under a hash is approved, rejected or revoked,
  then whatever calls follow, the hash stays registered and the application has that same verdict or has been
  superseded, because its applicant filed another one; it never gets a different verdict.\<close>

theorem verdict_final:
  assumes r: "reachable (mc_dispatch cfg) (\<lambda>_ _. False) mc_empty s"
    and v: "hash_status s h = Some (Some v)" "is_terminal v"
  shows "hash_status (run (mc_dispatch cfg) cs s) h \<in> {Some (Some v), Some None}"
proof -
  have "(mc_step cfg)\<^sup>*\<^sup>* s (run (mc_dispatch cfg) cs s)"
    by (rule mc_run_steps[OF mc_reachable_inv[OF r]])
  from mcl.steps_edges[OF this v(1)] obtain y where
    y: "hash_status (run (mc_dispatch cfg) cs s) h = Some y" "status_edge\<^sup>*\<^sup>* (Some v) y" by blast
  from terminal_closed[OF y(2)] v(2) y(1) show ?thesis by auto
qed

theorem verdict_final_witness:
  "hash_status (run (mc_dispatch toy_mc) [(at_block 9, Root, RevokeApplication 5)] (toy_run toy_calls)) (toy_hash 1)
     \<in> {Some (Some Approved), Some None}"
proof (rule verdict_final[OF toy_reachable])
  have "hash_to_applicant (toy_run toy_calls) (toy_hash 1) = Some 5"
    by (rule toy_hash_registered)
  then show "hash_status (toy_run toy_calls) (toy_hash 1) = Some (Some Approved)"
    using toy_anchor by (simp add: hash_status_def)
qed (simp add: is_terminal_def)

text \<open>There is no officer registry. Any account that can sign the claim message, the applicant itself
  included, can claim a submitted application and approve it: the two calls succeed and the application
  counts as approved for the other pallets.\<close>

theorem any_key_holder_approves:
  assumes x: "application_anchors s a = Some x" "status x = Submitted"
    and sig: "length sig = 64" "length (encode_account cfg off) = 32"
      "sr25519_verify cfg sig (wrap_bytes (build_claim_message (h256_to_hex (application_id_hash x)) (block_number env)))
         (encode_account cfg off)"
    and block: "block_number env < 2 ^ 32"
  shows "\<exists>t u. mc_dispatch cfg (env, Signed off, ClaimApplication a sig) s = Ok t
    \<and> mc_dispatch cfg (env', Signed off, FinalizeApplication a True h) t = Ok u
    \<and> is_application_approved u a \<and> \<not> has_active_application u a"
proof -
  have "block_number env \<le> umax 64" using block by (simp add: umax_def)
  with x sig show ?thesis
    by (simp add: mc_handler_defs Let_def is_application_approved_def has_active_application_def is_terminal_def)
qed

theorem any_key_holder_approves_witness:
  "\<exists>t u. mc_dispatch toy_mc (at_block 4, Signed 5, ClaimApplication 5 (replicate 64 5)) (toy_run [hd toy_calls]) = Ok t
    \<and> mc_dispatch toy_mc (at_block 4, Signed 5, FinalizeApplication 5 True (toy_hash 7)) t = Ok u
    \<and> is_application_approved u 5"
proof -
  obtain x where x: "application_anchors (toy_run [hd toy_calls]) 5 = Some x" "status x = Submitted"
    by (simp add: toy_eval)
  have "length (encode_account toy_mc 5) = 32" "block_number (at_block 4) < 2 ^ 32"
    "sr25519_verify toy_mc (replicate 64 5) m (encode_account toy_mc 5)" for m
    by (simp_all add: toy_mc_def at_block_def)
  then show ?thesis using any_key_holder_approves[OF x, of "replicate 64 5" toy_mc 5 "at_block 4"] by fastforce
qed

end
