(* ===== verification/Bank_Of_Siberia.thy ===== *)
theory Bank_Of_Siberia
  imports Central_Bank_Props Migration_Center_Props
begin

text \<open>
  \<^verbatim>\<open>pallets/bank-of-siberia/src/lib.rs\<close>: bank accounts and sub-accounts, loans with collateral locks, escrows,
  time deposits, server-signed cash advances and collateral, and wholesale credit from the central bank.

  The pallet requires the central bank and the migration center as super-traits: its state \<open>bos_state\<close>
  extends \<open>cb_state\<close> and holds the migration center's storage. Hashing, the account codec, signature
  verification, the SCALE encoding of the signed payload and \<open>Perbill\<close> arithmetic are third-party code and
  parameters in \<open>bos_config\<close>.
\<close>

section \<open>Data\<close>

datatype account_type = Savings | Credit | Company

datatype deposit_status = DepositActive | Claimed

datatype account_status = AccountActive | Suspended

datatype loan_status = Pending | LoanActive | Repaid | Default

datatype escrow_status = Locked | Released | Refunded

text \<open>The stable discriminant of a sub-account type.\<close>

fun derivation_index :: "account_type \<Rightarrow> byte" where
  "derivation_index Savings = 0"
| "derivation_index Credit = 1"
| "derivation_index Company = 2"

record bank_account =
  owner :: account
  account_opened_at :: nat
  account_status :: account_status

record sub_account_record =
  sub_master :: account
  sub_type :: account_type
  sub_opened_at :: nat

record loan_request =
  borrower :: account
  collateral :: balance
  loan_amount :: balance
  submitted_at :: nat
  loan_status :: loan_status
  outstanding_balance :: balance

record time_deposit =
  deposit_owner :: account
  deposit_amount :: balance
  interest_rate_bps :: nat
  deposit_opened_at :: nat
  maturity_block :: nat
  document_hash :: h256
  deposit_status :: deposit_status

record escrow_contract =
  depositor :: account
  counterparty :: account
  escrow_amount :: balance
  item_hash :: h256
  created_at :: nat
  escrow_status :: escrow_status

text \<open>\<open>treasury\<close> is \<open>T::PalletId::get().into_account_truncating()\<close>.\<close>

record 'x bos_config =
  central_bank :: "'x cb_config"
  migration_center :: mc_config
  bos_currency :: "'x lockable_currency"
  treasury :: account
  bos_banking_origin :: "'x \<Rightarrow> origin \<Rightarrow> bool"
  account_bytes :: "account \<Rightarrow> byte list"
  decode_account :: "byte list \<Rightarrow> account option"
  blake2_256 :: "byte list \<Rightarrow> byte list"
  account32 :: "account \<Rightarrow> account option"
  encode_payload :: "account \<times> balance \<times> nat \<Rightarrow> byte list"
  verify_signature :: "byte list \<Rightarrow> byte list \<Rightarrow> account \<Rightarrow> bool"
  perbill_from_rational :: "nat \<Rightarrow> nat \<Rightarrow> nat"
  perbill_mul :: "nat \<Rightarrow> balance \<Rightarrow> balance"

datatype bos_event =
    MasterAccountOpened account
  | SubAccountOpened account account account_type
  | SubAccountClosed account account
  | SavingsWithdrawalRequested account account balance
  | SavingsWithdrawn account account balance
  | CreditPaymentRecorded account account balance
  | CreditRepaymentApplied nat account balance balance
  | LoanCollateralLocked nat account balance
  | LoanRequested nat account balance
  | LoanApproved nat account balance
  | LoanCancelled nat account
  | TreasuryFunded account balance
  | EscrowCreated nat account account balance h256
  | EscrowReleased nat account account balance
  | EscrowRefunded nat account account balance
  | TimeDepositOpened nat account balance nat h256
  | TimeDepositClaimed nat account balance balance
  | CashAdvanceClaimed account balance nat
  | CashAdvanceRepaid account balance
  | CollateralLocked account balance
  | CollateralUnlocked account balance
  | BankServerKeyUpdated account
  | WholesaleCreditBorrowed balance
  | WholesaleCreditRepaid nat balance

text \<open>The pallet's errors; \<open>CentralBankError\<close> carries an error of the central bank through a wholesale call.\<close>

datatype bos_error =
    AccountAlreadyExists | MasterAccountRequired
  | DuplicateAccountType | SubAccountNotFound | NotSubAccountOwner
  | ZeroLoanAmount | ZeroEscrowAmount | SelfEscrow | ZeroAmount
  | EscrowNotFound | EscrowNotLocked | NotDepositor | NotCounterparty
  | LoanNotFound | LoanNotPending | BorrowerHasActiveLoan
  | ZeroDepositAmount | ZeroDepositDuration | DepositNotFound | DepositorMismatch
  | DepositNotMatured | TimeDepositNotMatured | DepositAlreadyClaimed | TreasuryInsufficientFunds
  | SubAccountNotEmpty | CitizenNotApproved | ArithmeticOverflow
  | NonceAlreadyUsed | InvalidSignature
  | CentralBankError cb_error

type_synonym bos_failure = "bos_error dispatch_error"

record 'x bos_state = "'x cb_state" +
  migration :: mc_state
  bank_accounts :: "account \<Rightarrow> bank_account option"
  sub_accounts :: "account \<times> account \<Rightarrow> account_type option"
  sub_account_meta :: "account \<Rightarrow> sub_account_record option"
  loan_requests :: "nat \<Rightarrow> loan_request option"
  next_loan_id :: nat
  active_loan_by_borrower :: "account \<Rightarrow> nat option"
  loan_collateral :: "account \<times> nat \<Rightarrow> balance option"
  escrow_contracts :: "nat \<Rightarrow> escrow_contract option"
  next_escrow_id :: nat
  time_deposits :: "nat \<Rightarrow> time_deposit option"
  next_time_deposit_id :: nat
  bank_server_key :: "account option"
  used_nonces :: "nat \<Rightarrow> bool"
  collateral_balances :: "account \<Rightarrow> balance"
  bos_events :: "bos_event list"

definition bos_deposit_event :: "bos_event \<Rightarrow> 'x bos_state \<Rightarrow> 'x bos_state" where
  "bos_deposit_event e s = s\<lparr>bos_events := bos_events s @ [e]\<rparr>"

section \<open>Constants and helpers\<close>

definition ANNUAL_RATE_BPS :: nat where "ANNUAL_RATE_BPS = 500"
definition BLOCKS_PER_YEAR :: nat where "BLOCKS_PER_YEAR = 5256000"
definition LOAN_LOCK_ID :: lock_id where "LOAN_LOCK_ID = ''bos/loan''"

text \<open>\<open>to_le_bytes\<close> at a width of \<open>n\<close> bytes.\<close>

fun le_bytes :: "nat \<Rightarrow> nat \<Rightarrow> byte list" where
  "le_bytes 0 x = []"
| "le_bytes (Suc n) x = of_nat (x mod 256) # le_bytes n (x div 256)"

definition derive_sub_account ::
  "'x bos_config \<Rightarrow> account \<Rightarrow> account_type \<Rightarrow> nat \<Rightarrow> (account, bos_failure) result" where
  "derive_sub_account cfg master ty nonce =
     (let payload = account_bytes cfg master @ [derivation_index ty] @ le_bytes 4 nonce;
          hash = blake2_256 cfg payload
      in ok_or (decode_account cfg hash) Panic Ok)"

definition ensure_sub_account_owner ::
  "account \<Rightarrow> account \<Rightarrow> 'x bos_state \<Rightarrow> (sub_account_record, bos_failure) result" where
  "ensure_sub_account_owner master sub s =
     ok_or (sub_account_meta s sub) (Module SubAccountNotFound) (\<lambda>rec.
     ensure (sub_master rec = master) (Module NotSubAccountOwner) (Ok rec))"

definition current_block :: "env \<Rightarrow> nat" where
  "current_block env = (if block_number env \<le> umax 32 then block_number env else 0)"

definition calculate_interest ::
  "'x bos_config \<Rightarrow> balance \<Rightarrow> nat \<Rightarrow> nat \<Rightarrow> nat \<Rightarrow> balance" where
  "calculate_interest cfg amount rate_bps opened_at maturity =
     (let duration = sat_sub maturity opened_at;
          numerator = sat_mul 64 rate_bps duration;
          denominator = sat_mul 64 10000 BLOCKS_PER_YEAR
      in if denominator = 0 then 0
         else let fraction = perbill_from_rational cfg numerator denominator
              in perbill_mul cfg fraction amount)"

text \<open>A transfer of the pallet's currency: \<open>Currency::transfer(..)?\<close>.\<close>

definition pay ::
  "'x bos_config \<Rightarrow> account \<Rightarrow> account \<Rightarrow> balance \<Rightarrow> existence \<Rightarrow> 'x bos_state \<Rightarrow> ('x bos_state, bos_failure) result" where
  "pay cfg a b v e s =
     and_then (map_err ThirdParty (transfer (bos_currency cfg) (ledger s) a b v e)) (\<lambda>x. Ok (s\<lparr>ledger := x\<rparr>))"

section \<open>Accounts\<close>

definition open_master_account ::
  "env \<Rightarrow> origin \<Rightarrow> 'x bos_state \<Rightarrow> ('x bos_state, bos_failure) result" where
  "open_master_account env og s =
     and_then (ensure_signed og) (\<lambda>citizen.
     ensure (is_application_approved (migration s) citizen) (Module CitizenNotApproved) (
     ensure (bank_accounts s citizen = None) (Module AccountAlreadyExists) (
     let acc = \<lparr>owner = citizen, account_opened_at = current_block env, account_status = AccountActive\<rparr>
     in Ok (bos_deposit_event (MasterAccountOpened citizen)
             (s\<lparr>bank_accounts := (bank_accounts s)(citizen \<mapsto> acc)\<rparr>)))))"

definition open_sub_account ::
  "'x bos_config \<Rightarrow> env \<Rightarrow> origin \<Rightarrow> account_type \<Rightarrow> 'x bos_state \<Rightarrow> ('x bos_state, bos_failure) result" where
  "open_sub_account cfg env og ty s =
     and_then (ensure_signed og) (\<lambda>master.
     ensure (bank_accounts s master \<noteq> None) (Module MasterAccountRequired) (
     and_then (derive_sub_account cfg master ty 0) (\<lambda>sub.
     ensure (sub_accounts s (master, sub) = None) (Module DuplicateAccountType) (
     let opened_at = current_block env;
         rec = \<lparr>sub_master = master, sub_type = ty, sub_opened_at = opened_at\<rparr>
     in Ok (bos_deposit_event (SubAccountOpened master sub ty)
             (s\<lparr>sub_accounts := (sub_accounts s)((master, sub) \<mapsto> ty),
                sub_account_meta := (sub_account_meta s)(sub \<mapsto> rec)\<rparr>))))))"

definition forget_sub_account :: "account \<Rightarrow> account \<Rightarrow> 'x bos_state \<Rightarrow> 'x bos_state" where
  "forget_sub_account master sub s =
     s\<lparr>sub_accounts := (sub_accounts s)((master, sub) := None),
       sub_account_meta := (sub_account_meta s)(sub := None)\<rparr>"

definition withdraw_from_savings ::
  "'x bos_config \<Rightarrow> origin \<Rightarrow> account \<Rightarrow> balance \<Rightarrow> 'x bos_state \<Rightarrow> ('x bos_state, bos_failure) result" where
  "withdraw_from_savings cfg og sub amount s =
     and_then (ensure_signed og) (\<lambda>master.
     and_then (ensure_sub_account_owner master sub s) (\<lambda>rec.
     ensure (sub_type rec = Savings) (Module NotSubAccountOwner) (
     ensure (amount > 0) (Module ZeroAmount) (
     let sub_balance = free_balance (bos_currency cfg) (ledger s) sub;
         s1 = (if amount \<ge> sub_balance then forget_sub_account master sub s else s)
     in and_then (pay cfg sub master amount AllowDeath s1) (\<lambda>s2.
        Ok (bos_deposit_event (SavingsWithdrawn master sub amount)
             (bos_deposit_event (SavingsWithdrawalRequested master sub amount) s2)))))))"

definition close_sub_account ::
  "'x bos_config \<Rightarrow> origin \<Rightarrow> account \<Rightarrow> 'x bos_state \<Rightarrow> ('x bos_state, bos_failure) result" where
  "close_sub_account cfg og sub s =
     and_then (ensure_signed og) (\<lambda>master.
     and_then (ensure_sub_account_owner master sub s) (\<lambda>_.
     ensure (free_balance (bos_currency cfg) (ledger s) sub = 0) (Module SubAccountNotEmpty) (
     Ok (bos_deposit_event (SubAccountClosed master sub) (forget_sub_account master sub s)))))"

section \<open>Loans\<close>

definition pay_credit ::
  "'x bos_config \<Rightarrow> origin \<Rightarrow> account \<Rightarrow> balance \<Rightarrow> 'x bos_state \<Rightarrow> ('x bos_state, bos_failure) result" where
  "pay_credit cfg og sub amount s =
     and_then (ensure_signed og) (\<lambda>master.
     and_then (ensure_sub_account_owner master sub s) (\<lambda>rec.
     ensure (sub_type rec = Credit) (Module NotSubAccountOwner) (
     ensure (amount > 0) (Module ZeroAmount) (
     ok_or (active_loan_by_borrower s master) (Module LoanNotFound) (\<lambda>loan_id.
     ok_or (loan_requests s loan_id) (Module LoanNotFound) (\<lambda>loan.
     ensure (loan_status loan = LoanActive) (Module LoanNotFound) (
     and_then (pay cfg master (treasury cfg) amount KeepAlive s) (\<lambda>s1.
     let new_outstanding = sat_sub (outstanding_balance loan) amount;
         loan1 = loan\<lparr>outstanding_balance := new_outstanding\<rparr>;
         fully_repaid = (new_outstanding = 0);
         loan2 = (if fully_repaid then loan1\<lparr>loan_status := Repaid\<rparr> else loan1);
         s2 = (if fully_repaid
               then s1\<lparr>ledger := remove_lock (bos_currency cfg) (ledger s1) LOAN_LOCK_ID master,
                       loan_collateral := (loan_collateral s1)((master, loan_id) := None),
                       active_loan_by_borrower := (active_loan_by_borrower s1)(master := None)\<rparr>
               else s1)
     in Ok (bos_deposit_event (CreditPaymentRecorded master sub amount)
             (bos_deposit_event (CreditRepaymentApplied loan_id master amount new_outstanding)
               (s2\<lparr>loan_requests := (loan_requests s2)(loan_id \<mapsto> loan2)\<rparr>)))))))))))"

definition request_loan ::
  "'x bos_config \<Rightarrow> env \<Rightarrow> origin \<Rightarrow> balance \<Rightarrow> balance \<Rightarrow> 'x bos_state \<Rightarrow> ('x bos_state, bos_failure) result" where
  "request_loan cfg env og amount coll s =
     and_then (ensure_signed og) (\<lambda>who.
     ensure (bank_accounts s who \<noteq> None) (Module MasterAccountRequired) (
     ensure (amount > 0) (Module ZeroLoanAmount) (
     let loan_id = next_loan_id s;
         loan = \<lparr>borrower = who, collateral = coll, loan_amount = amount,
                 submitted_at = current_block env, loan_status = Pending, outstanding_balance = amount\<rparr>
     in Ok (bos_deposit_event (LoanRequested loan_id who amount)
             (bos_deposit_event (LoanCollateralLocked loan_id who coll)
               (s\<lparr>next_loan_id := sat_add 32 loan_id 1,
                  ledger := set_lock (bos_currency cfg) (ledger s) LOAN_LOCK_ID who coll,
                  loan_collateral := (loan_collateral s)((who, loan_id) \<mapsto> coll),
                  loan_requests := (loan_requests s)(loan_id \<mapsto> loan)\<rparr>))))))"

definition approve_loan ::
  "'x bos_config \<Rightarrow> origin \<Rightarrow> nat \<Rightarrow> 'x bos_state \<Rightarrow> ('x bos_state, bos_failure) result" where
  "approve_loan cfg og loan_id s =
     ensure (bos_banking_origin cfg (ledger s) og) BadOrigin (
     ok_or (loan_requests s loan_id) (Module LoanNotFound) (\<lambda>loan.
     ensure (loan_status loan = Pending) (Module LoanNotPending) (
     ensure (active_loan_by_borrower s (borrower loan) = None) (Module BorrowerHasActiveLoan) (
     ensure (free_balance (bos_currency cfg) (ledger s) (treasury cfg) \<ge> loan_amount loan)
       (Module TreasuryInsufficientFunds) (
     and_then (pay cfg (treasury cfg) (borrower loan) (loan_amount loan) KeepAlive s) (\<lambda>s1.
     Ok (bos_deposit_event (LoanApproved loan_id (borrower loan) (loan_amount loan))
          (s1\<lparr>loan_requests := (loan_requests s1)(loan_id \<mapsto> loan\<lparr>loan_status := LoanActive\<rparr>),
              active_loan_by_borrower := (active_loan_by_borrower s1)(borrower loan \<mapsto> loan_id)\<rparr>))))))))"

definition cancel_loan_request ::
  "'x bos_config \<Rightarrow> origin \<Rightarrow> nat \<Rightarrow> 'x bos_state \<Rightarrow> ('x bos_state, bos_failure) result" where
  "cancel_loan_request cfg og loan_id s =
     and_then (ensure_signed og) (\<lambda>who.
     ok_or (loan_requests s loan_id) (Module LoanNotFound) (\<lambda>loan.
     ensure (borrower loan = who) (Module NotSubAccountOwner) (
     ensure (loan_status loan = Pending) (Module LoanNotPending) (
     Ok (bos_deposit_event (LoanCancelled loan_id who)
          (s\<lparr>ledger := remove_lock (bos_currency cfg) (ledger s) LOAN_LOCK_ID who,
             loan_collateral := (loan_collateral s)((who, loan_id) := None),
             loan_requests := (loan_requests s)(loan_id \<mapsto> loan\<lparr>loan_status := Repaid\<rparr>)\<rparr>))))))"

definition fund_treasury ::
  "'x bos_config \<Rightarrow> origin \<Rightarrow> balance \<Rightarrow> 'x bos_state \<Rightarrow> ('x bos_state, bos_failure) result" where
  "fund_treasury cfg og amount s =
     and_then (ensure_signed og) (\<lambda>who.
     ensure (bos_banking_origin cfg (ledger s) og) BadOrigin (
     ensure (amount > 0) (Module ZeroAmount) (
     and_then (pay cfg who (treasury cfg) amount KeepAlive s) (\<lambda>s1.
     Ok (bos_deposit_event (TreasuryFunded who amount) s1)))))"

section \<open>Escrows\<close>

definition create_escrow ::
  "'x bos_config \<Rightarrow> env \<Rightarrow> origin \<Rightarrow> account \<Rightarrow> balance \<Rightarrow> h256 \<Rightarrow> 'x bos_state
   \<Rightarrow> ('x bos_state, bos_failure) result" where
  "create_escrow cfg env og other amount hash s =
     and_then (ensure_signed og) (\<lambda>who.
     ensure (bank_accounts s who \<noteq> None) (Module MasterAccountRequired) (
     ensure (amount > 0) (Module ZeroEscrowAmount) (
     ensure (who \<noteq> other) (Module SelfEscrow) (
     and_then (pay cfg who (treasury cfg) amount AllowDeath s) (\<lambda>s1.
     let escrow_id = next_escrow_id s1;
         contract = \<lparr>depositor = who, counterparty = other, escrow_amount = amount, item_hash = hash,
                     created_at = current_block env, escrow_status = Locked\<rparr>
     in Ok (bos_deposit_event (EscrowCreated escrow_id who other amount hash)
             (s1\<lparr>next_escrow_id := sat_add 32 escrow_id 1,
                 escrow_contracts := (escrow_contracts s1)(escrow_id \<mapsto> contract)\<rparr>)))))))"

definition release_escrow ::
  "'x bos_config \<Rightarrow> origin \<Rightarrow> nat \<Rightarrow> 'x bos_state \<Rightarrow> ('x bos_state, bos_failure) result" where
  "release_escrow cfg og escrow_id s =
     and_then (ensure_signed og) (\<lambda>caller.
     ok_or (escrow_contracts s escrow_id) (Module EscrowNotFound) (\<lambda>contract.
     ensure (depositor contract = caller) (Module NotDepositor) (
     ensure (escrow_status contract = Locked) (Module EscrowNotLocked) (
     and_then (pay cfg (treasury cfg) (counterparty contract) (escrow_amount contract) AllowDeath s) (\<lambda>s1.
     Ok (bos_deposit_event
          (EscrowReleased escrow_id (depositor contract) (counterparty contract) (escrow_amount contract))
          (s1\<lparr>escrow_contracts := (escrow_contracts s1)(escrow_id \<mapsto> contract\<lparr>escrow_status := Released\<rparr>)\<rparr>)))))))"

definition refund_escrow ::
  "'x bos_config \<Rightarrow> origin \<Rightarrow> nat \<Rightarrow> 'x bos_state \<Rightarrow> ('x bos_state, bos_failure) result" where
  "refund_escrow cfg og escrow_id s =
     and_then (ensure_signed og) (\<lambda>caller.
     ok_or (escrow_contracts s escrow_id) (Module EscrowNotFound) (\<lambda>contract.
     ensure (counterparty contract = caller) (Module NotCounterparty) (
     ensure (escrow_status contract = Locked) (Module EscrowNotLocked) (
     and_then (pay cfg (treasury cfg) (depositor contract) (escrow_amount contract) AllowDeath s) (\<lambda>s1.
     Ok (bos_deposit_event
          (EscrowRefunded escrow_id (depositor contract) (counterparty contract) (escrow_amount contract))
          (s1\<lparr>escrow_contracts := (escrow_contracts s1)(escrow_id \<mapsto> contract\<lparr>escrow_status := Refunded\<rparr>)\<rparr>)))))))"

section \<open>Time deposits\<close>

definition open_time_deposit ::
  "'x bos_config \<Rightarrow> env \<Rightarrow> origin \<Rightarrow> balance \<Rightarrow> nat \<Rightarrow> h256 \<Rightarrow> 'x bos_state \<Rightarrow> ('x bos_state, bos_failure) result" where
  "open_time_deposit cfg env og amount duration_blocks hash s =
     and_then (ensure_signed og) (\<lambda>who.
     ensure (bank_accounts s who \<noteq> None) (Module MasterAccountRequired) (
     ensure (amount > 0) (Module ZeroDepositAmount) (
     ensure (duration_blocks > 0) (Module ZeroDepositDuration) (
     let opened_at = current_block env;
         maturity = sat_add 32 opened_at duration_blocks
     in and_then (pay cfg who (treasury cfg) amount AllowDeath s) (\<lambda>s1.
        let deposit_id = next_time_deposit_id s1;
            deposit = \<lparr>deposit_owner = who, deposit_amount = amount, interest_rate_bps = ANNUAL_RATE_BPS,
                       deposit_opened_at = opened_at, maturity_block = maturity, document_hash = hash,
                       deposit_status = DepositActive\<rparr>
        in Ok (bos_deposit_event (TimeDepositOpened deposit_id who amount maturity hash)
                (s1\<lparr>next_time_deposit_id := sat_add 32 deposit_id 1,
                    time_deposits := (time_deposits s1)(deposit_id \<mapsto> deposit)\<rparr>)))))))"

definition claim_time_deposit ::
  "'x bos_config \<Rightarrow> env \<Rightarrow> origin \<Rightarrow> nat \<Rightarrow> 'x bos_state \<Rightarrow> ('x bos_state, bos_failure) result" where
  "claim_time_deposit cfg env og deposit_id s =
     and_then (ensure_signed og) (\<lambda>caller.
     ok_or (time_deposits s deposit_id) (Module DepositNotFound) (\<lambda>deposit.
     ensure (deposit_owner deposit = caller) (Module DepositorMismatch) (
     ensure (deposit_status deposit = DepositActive) (Module DepositAlreadyClaimed) (
     ensure (current_block env \<ge> maturity_block deposit) (Module DepositNotMatured) (
     let interest = calculate_interest cfg (deposit_amount deposit) (interest_rate_bps deposit)
                      (deposit_opened_at deposit) (maturity_block deposit);
         total = sat_add 128 (deposit_amount deposit) interest
     in ensure (free_balance (bos_currency cfg) (ledger s) (treasury cfg) \<ge> total)
          (Module TreasuryInsufficientFunds) (
        and_then (pay cfg (treasury cfg) caller total AllowDeath s) (\<lambda>s1.
        Ok (bos_deposit_event (TimeDepositClaimed deposit_id caller (deposit_amount deposit) interest)
             (s1\<lparr>time_deposits := (time_deposits s1)(deposit_id \<mapsto> deposit\<lparr>deposit_status := Claimed\<rparr>)\<rparr>)))))))))"

section \<open>Server-signed cash advances and collateral\<close>

definition set_bank_server_key ::
  "'x bos_config \<Rightarrow> origin \<Rightarrow> account \<Rightarrow> 'x bos_state \<Rightarrow> ('x bos_state, bos_failure) result" where
  "set_bank_server_key cfg og key s =
     ensure (bos_banking_origin cfg (ledger s) og) BadOrigin (
     Ok (bos_deposit_event (BankServerKeyUpdated key) (s\<lparr>bank_server_key := Some key\<rparr>)))"

definition lock_collateral ::
  "'x bos_config \<Rightarrow> origin \<Rightarrow> balance \<Rightarrow> 'x bos_state \<Rightarrow> ('x bos_state, bos_failure) result" where
  "lock_collateral cfg og amount s =
     and_then (ensure_signed og) (\<lambda>caller.
     ensure (amount > 0) (Module ZeroAmount) (
     and_then (pay cfg caller (treasury cfg) amount KeepAlive s) (\<lambda>s1.
     Ok (bos_deposit_event (CollateralLocked caller amount)
          (s1\<lparr>collateral_balances := (collateral_balances s1)(caller :=
                sat_add 128 (collateral_balances s1 caller) amount)\<rparr>)))))"

text \<open>The server's authorisation of \<open>amount\<close> for \<open>caller\<close> under \<open>nonce\<close>.\<close>

definition server_signed ::
  "'x bos_config \<Rightarrow> account \<Rightarrow> balance \<Rightarrow> nat \<Rightarrow> byte list \<Rightarrow> 'x bos_state
   \<Rightarrow> ('a, bos_failure) result \<Rightarrow> ('a, bos_failure) result" where
  "server_signed cfg caller amount nonce sig s k =
     ok_or (bank_server_key s) (Module InvalidSignature) (\<lambda>server_key.
     ok_or (account32 cfg server_key) (Module InvalidSignature) (\<lambda>server_key_32.
     let payload = encode_payload cfg (caller, amount, nonce)
     in ensure (verify_signature cfg sig payload server_key_32) (Module InvalidSignature) k))"

definition unlock_collateral ::
  "'x bos_config \<Rightarrow> origin \<Rightarrow> balance \<Rightarrow> nat \<Rightarrow> byte list \<Rightarrow> 'x bos_state \<Rightarrow> ('x bos_state, bos_failure) result" where
  "unlock_collateral cfg og amount nonce sig s =
     and_then (ensure_signed og) (\<lambda>caller.
     ensure (amount > 0) (Module ZeroAmount) (
     ensure (\<not> used_nonces s nonce) (Module NonceAlreadyUsed) (
     server_signed cfg caller amount nonce sig s (
     let s1 = s\<lparr>used_nonces := (used_nonces s)(nonce := True)\<rparr>;
         current = collateral_balances s1 caller
     in ensure (current \<ge> amount) (Module ZeroAmount) (
        let s2 = s1\<lparr>collateral_balances := (collateral_balances s1)(caller := sat_sub current amount)\<rparr>
        in and_then (pay cfg (treasury cfg) caller amount KeepAlive s2) (\<lambda>s3.
           Ok (bos_deposit_event (CollateralUnlocked caller amount) s3)))))))"

definition claim_cash_advance ::
  "'x bos_config \<Rightarrow> origin \<Rightarrow> balance \<Rightarrow> nat \<Rightarrow> byte list \<Rightarrow> 'x bos_state \<Rightarrow> ('x bos_state, bos_failure) result" where
  "claim_cash_advance cfg og amount nonce sig s =
     and_then (ensure_signed og) (\<lambda>who.
     ensure (\<not> used_nonces s nonce) (Module NonceAlreadyUsed) (
     server_signed cfg who amount nonce sig s (
     let s1 = s\<lparr>used_nonces := (used_nonces s)(nonce := True)\<rparr>
     in and_then (pay cfg (treasury cfg) who amount KeepAlive s1) (\<lambda>s2.
        Ok (bos_deposit_event (CashAdvanceClaimed who amount nonce) s2)))))"

definition repay_cash_advance ::
  "'x bos_config \<Rightarrow> origin \<Rightarrow> balance \<Rightarrow> 'x bos_state \<Rightarrow> ('x bos_state, bos_failure) result" where
  "repay_cash_advance cfg og amount s =
     and_then (ensure_signed og) (\<lambda>who.
     ensure (amount > 0) (Module ZeroAmount) (
     and_then (pay cfg who (treasury cfg) amount KeepAlive s) (\<lambda>s1.
     Ok (bos_deposit_event (CashAdvanceRepaid who amount) s1))))"

section \<open>Wholesale credit\<close>

fun lift_cb :: "cb_failure \<Rightarrow> bos_failure" where
  "lift_cb (Module e) = Module (CentralBankError e)"
| "lift_cb BadOrigin = BadOrigin"
| "lift_cb (ThirdParty n) = ThirdParty n"
| "lift_cb Panic = Panic"

definition borrow_wholesale ::
  "'x bos_config \<Rightarrow> origin \<Rightarrow> balance \<Rightarrow> 'x bos_state \<Rightarrow> ('x bos_state, bos_failure) result" where
  "borrow_wholesale cfg og amount s =
     ensure (bos_banking_origin cfg (ledger s) og) BadOrigin (
     and_then (map_err lift_cb (do_request_credit (central_bank cfg) (treasury cfg) amount s)) (\<lambda>s1.
     Ok (bos_deposit_event (WholesaleCreditBorrowed amount) s1)))"

definition repay_wholesale ::
  "'x bos_config \<Rightarrow> origin \<Rightarrow> nat \<Rightarrow> balance \<Rightarrow> 'x bos_state \<Rightarrow> ('x bos_state, bos_failure) result" where
  "repay_wholesale cfg og epoch_id amount s =
     ensure (bos_banking_origin cfg (ledger s) og) BadOrigin (
     and_then (map_err lift_cb (do_repay_credit (central_bank cfg) (treasury cfg) epoch_id amount s)) (\<lambda>s1.
     Ok (bos_deposit_event (WholesaleCreditRepaid epoch_id amount) s1)))"

section \<open>The calls, and the three pallets together\<close>

datatype bos_call =
    OpenMasterAccount
  | OpenSubAccount account_type
  | WithdrawFromSavings account balance
  | PayCredit account balance
  | CloseSubAccount account
  | RequestLoan balance balance
  | CreateEscrow account balance h256
  | OpenTimeDeposit balance nat h256
  | ClaimTimeDeposit nat
  | ReleaseEscrow nat
  | RefundEscrow nat
  | ApproveLoan nat
  | FundTreasury balance
  | CancelLoanRequest nat
  | SetBankServerKey account
  | ClaimCashAdvance balance nat "byte list"
  | LockCollateral balance
  | UnlockCollateral balance nat "byte list"
  | RepayCashAdvance balance
  | BorrowWholesale balance
  | RepayWholesale nat balance

fun bos_dispatch ::
  "'x bos_config \<Rightarrow> env \<times> origin \<times> bos_call \<Rightarrow> 'x bos_state \<Rightarrow> ('x bos_state, bos_failure) result" where
  "bos_dispatch cfg (env, og, OpenMasterAccount) s = open_master_account env og s"
| "bos_dispatch cfg (env, og, OpenSubAccount ty) s = open_sub_account cfg env og ty s"
| "bos_dispatch cfg (env, og, WithdrawFromSavings a v) s = withdraw_from_savings cfg og a v s"
| "bos_dispatch cfg (env, og, PayCredit a v) s = pay_credit cfg og a v s"
| "bos_dispatch cfg (env, og, CloseSubAccount a) s = close_sub_account cfg og a s"
| "bos_dispatch cfg (env, og, RequestLoan v c) s = request_loan cfg env og v c s"
| "bos_dispatch cfg (env, og, CreateEscrow a v h) s = create_escrow cfg env og a v h s"
| "bos_dispatch cfg (env, og, OpenTimeDeposit v d h) s = open_time_deposit cfg env og v d h s"
| "bos_dispatch cfg (env, og, ClaimTimeDeposit i) s = claim_time_deposit cfg env og i s"
| "bos_dispatch cfg (env, og, ReleaseEscrow i) s = release_escrow cfg og i s"
| "bos_dispatch cfg (env, og, RefundEscrow i) s = refund_escrow cfg og i s"
| "bos_dispatch cfg (env, og, ApproveLoan i) s = approve_loan cfg og i s"
| "bos_dispatch cfg (env, og, FundTreasury v) s = fund_treasury cfg og v s"
| "bos_dispatch cfg (env, og, CancelLoanRequest i) s = cancel_loan_request cfg og i s"
| "bos_dispatch cfg (env, og, SetBankServerKey a) s = set_bank_server_key cfg og a s"
| "bos_dispatch cfg (env, og, ClaimCashAdvance v n sig) s = claim_cash_advance cfg og v n sig s"
| "bos_dispatch cfg (env, og, LockCollateral v) s = lock_collateral cfg og v s"
| "bos_dispatch cfg (env, og, UnlockCollateral v n sig) s = unlock_collateral cfg og v n sig s"
| "bos_dispatch cfg (env, og, RepayCashAdvance v) s = repay_cash_advance cfg og v s"
| "bos_dispatch cfg (env, og, BorrowWholesale v) s = borrow_wholesale cfg og v s"
| "bos_dispatch cfg (env, og, RepayWholesale i v) s = repay_wholesale cfg og i v s"

text \<open>The runtime dispatches each call to its pallet; the three pallets share one storage.\<close>

datatype bank_call = CentralBank cb_call | MigrationCenter mc_call | BankOfSiberia bos_call

datatype bank_failure = CbFailed cb_failure | McFailed mc_failure | BosFailed bos_failure

fun bank_dispatch ::
  "'x bos_config \<Rightarrow> env \<times> origin \<times> bank_call \<Rightarrow> 'x bos_state \<Rightarrow> ('x bos_state, bank_failure) result" where
  "bank_dispatch cfg (env, og, CentralBank c) s =
     map_err CbFailed (cb_dispatch (central_bank cfg) (env, og, c) s)"
| "bank_dispatch cfg (env, og, MigrationCenter c) s =
     and_then (map_err McFailed (mc_dispatch (migration_center cfg) (env, og, c) (migration s))) (\<lambda>m.
     Ok (s\<lparr>migration := m\<rparr>))"
| "bank_dispatch cfg (env, og, BankOfSiberia c) s = map_err BosFailed (bos_dispatch cfg (env, og, c) s)"

section \<open>The storage migration\<close>

text \<open>
  \<open>V2BackfillActiveLoanIndex\<close> of \<^verbatim>\<open>migrations.rs\<close>; \<open>keys\<close> is the order in which \<open>LoanRequests::iter\<close>
  visits the stored identifiers.
\<close>

definition backfill_one :: "'x bos_state \<Rightarrow> nat \<Rightarrow> (account \<Rightarrow> nat option) \<Rightarrow> account \<Rightarrow> nat option" where
  "backfill_one s loan_id ix =
     (case loan_requests s loan_id of
        Some loan \<Rightarrow> if loan_status loan = LoanActive \<and> ix (borrower loan) = None
                     then ix(borrower loan \<mapsto> loan_id) else ix
      | None \<Rightarrow> ix)"

definition backfill_active_loan_index :: "nat list \<Rightarrow> 'x bos_state \<Rightarrow> 'x bos_state" where
  "backfill_active_loan_index keys s =
     s\<lparr>active_loan_by_borrower := fold (backfill_one s) keys (active_loan_by_borrower s)\<rparr>"

lemmas bos_local_defs =
  open_master_account_def open_sub_account_def withdraw_from_savings_def close_sub_account_def
  pay_credit_def request_loan_def approve_loan_def cancel_loan_request_def fund_treasury_def
  create_escrow_def release_escrow_def refund_escrow_def open_time_deposit_def claim_time_deposit_def
  set_bank_server_key_def lock_collateral_def unlock_collateral_def claim_cash_advance_def
  repay_cash_advance_def

lemmas bos_handler_defs = bos_local_defs borrow_wholesale_def repay_wholesale_def

end
