(* ===== verification/Bank_Of_Siberia_Loans.thy ===== *)
theory Bank_Of_Siberia_Loans
  imports Bank_Of_Siberia
begin

text \<open>
  What each call of the Bank of Siberia leaves alone, and the loan books: the index of active loans, the
  collateral records and the outstanding balances agree with the loan requests.
\<close>

section \<open>Frames\<close>

lemma bos_event_simps [simp]:
  "ledger (bos_deposit_event e s) = ledger s"
  "migration (bos_deposit_event e s) = migration s"
  "bank_accounts (bos_deposit_event e s) = bank_accounts s"
  "sub_accounts (bos_deposit_event e s) = sub_accounts s"
  "sub_account_meta (bos_deposit_event e s) = sub_account_meta s"
  "loan_requests (bos_deposit_event e s) = loan_requests s"
  "next_loan_id (bos_deposit_event e s) = next_loan_id s"
  "active_loan_by_borrower (bos_deposit_event e s) = active_loan_by_borrower s"
  "loan_collateral (bos_deposit_event e s) = loan_collateral s"
  "escrow_contracts (bos_deposit_event e s) = escrow_contracts s"
  "next_escrow_id (bos_deposit_event e s) = next_escrow_id s"
  "time_deposits (bos_deposit_event e s) = time_deposits s"
  "next_time_deposit_id (bos_deposit_event e s) = next_time_deposit_id s"
  "bank_server_key (bos_deposit_event e s) = bank_server_key s"
  "used_nonces (bos_deposit_event e s) = used_nonces s"
  "collateral_balances (bos_deposit_event e s) = collateral_balances s"
  "credit_core (bos_deposit_event e s) = credit_core s"
  "current_epoch_id (bos_deposit_event e s) = current_epoch_id s"
  "epochs (bos_deposit_event e s) = epochs s"
  "operator_debt (bos_deposit_event e s) = operator_debt s"
  "total_operator_debt (bos_deposit_event e s) = total_operator_debt s"
  "genesis_credit_available (bos_deposit_event e s) = genesis_credit_available s"
  "total_outstanding (bos_deposit_event e s) = total_outstanding s"
  by (simp_all add: bos_deposit_event_def credit_core_def)

lemma pay_Ok [ok_simps]:
  "pay cfg a b v e s = Ok t \<longleftrightarrow>
     (\<exists>x. transfer (bos_currency cfg) (ledger s) a b v e = Ok x \<and> t = s\<lparr>ledger := x\<rparr>)"
  by (auto simp: pay_def ok_simps)

lemma server_signed_Ok [ok_simps]:
  "server_signed cfg a v n sig s k = Ok t \<longleftrightarrow>
     (\<exists>key key32. bank_server_key s = Some key \<and> account32 cfg key = Some key32
        \<and> verify_signature cfg sig (encode_payload cfg (a, v, n)) key32 \<and> k = Ok t)"
  by (auto simp: server_signed_def ok_simps Let_def)

lemma ensure_sub_account_owner_Ok [ok_simps]:
  "ensure_sub_account_owner m a s = Ok rec \<longleftrightarrow> sub_account_meta s a = Some rec \<and> sub_master rec = m"
  by (auto simp: ensure_sub_account_owner_def ok_simps)

text \<open>The central bank works on its own part of the storage; the rest is \<open>cb_state.more\<close>.\<close>

lemma cb_dispatch_more:
  assumes "cb_dispatch cfg c s = Ok t"
  shows "cb_state.more t = cb_state.more s"
proof -
  have ev: "cb_state.more (cb_deposit_event e u) = cb_state.more u" for e and u :: "('a, 'b) cb_state_scheme"
    by (simp add: cb_deposit_event_def)
  have fund: "fund_regions cfg env who cs i s = Ok (n, t) \<Longrightarrow> cb_state.more t = cb_state.more s"
    for env who cs i n and s t :: "('a, 'b) cb_state_scheme"
    by (induction cs arbitrary: i s) (auto simp: create_and_fund_def Let_def ok_simps ev)
  obtain env og call where c: "c = (env, og, call)" by (cases c) auto
  note d = assms[unfolded c]
  show ?thesis
    by (cases call)
      (use d in \<open>auto simp: cb_handler_defs update_dynamic_rate_def apply_dynamic_rate_to_epoch_def
        create_and_fund_def Let_def ok_simps ev dest!: fund\<close>)
qed

text \<open>The parts of the storage that the invariants are about.\<close>

definition loan_part where
  "loan_part s = (loan_requests s, next_loan_id s, active_loan_by_borrower s, loan_collateral s)"

definition escrow_part where
  "escrow_part s = (escrow_contracts s, next_escrow_id s)"

definition deposit_part where
  "deposit_part s = (time_deposits s, next_time_deposit_id s)"

definition account_part where
  "account_part s = (sub_accounts s, sub_account_meta s)"

lemmas part_defs = loan_part_def escrow_part_def deposit_part_def account_part_def

lemma more_parts:
  assumes "cb_state.more t = cb_state.more s"
  shows "loan_part t = loan_part s" "escrow_part t = escrow_part s" "deposit_part t = deposit_part s"
    "account_part t = account_part s" "used_nonces t = used_nonces s" "migration t = migration s"
    "bank_accounts t = bank_accounts s" "collateral_balances t = collateral_balances s"
    "bank_server_key t = bank_server_key s"
  using assms by (cases s; cases t; simp add: part_defs)+

lemma wholesale_parts:
  assumes "borrow_wholesale cfg og v s = Ok t \<or> repay_wholesale cfg og i v s = Ok t"
  shows "loan_part t = loan_part s" "escrow_part t = escrow_part s" "deposit_part t = deposit_part s"
    "account_part t = account_part s" "used_nonces t = used_nonces s" "migration t = migration s"
    "bank_accounts t = bank_accounts s" "collateral_balances t = collateral_balances s"
    "bank_server_key t = bank_server_key s"
proof -
  obtain u e where t: "t = bos_deposit_event e u" and u: "cb_state.more u = cb_state.more s"
  proof -
    from assms consider
        u where "do_request_credit (central_bank cfg) (treasury cfg) v s = Ok u"
          "t = bos_deposit_event (WholesaleCreditBorrowed v) u"
      | u where "do_repay_credit (central_bank cfg) (treasury cfg) i v s = Ok u"
          "t = bos_deposit_event (WholesaleCreditRepaid i v) u"
      by (auto simp: borrow_wholesale_def repay_wholesale_def ok_simps)
    then show thesis
    proof cases
      case 1
      then show thesis
        using that cb_dispatch_more[of "central_bank cfg" "(undefined, Signed (treasury cfg), RequestCredit v)" s u]
        by (simp add: request_credit_def)
    next
      case 2
      then show thesis
        using that cb_dispatch_more[of "central_bank cfg" "(undefined, Signed (treasury cfg), RepayCredit i v)" s u]
        by (simp add: repay_credit_def)
    qed
  qed
  show "loan_part t = loan_part s" "escrow_part t = escrow_part s" "deposit_part t = deposit_part s"
    "account_part t = account_part s" "used_nonces t = used_nonces s" "migration t = migration s"
    "bank_accounts t = bank_accounts s" "collateral_balances t = collateral_balances s"
    "bank_server_key t = bank_server_key s"
    using more_parts[OF u] by (simp_all add: t part_defs)
qed

lemmas wholesale_frames = wholesale_parts[OF disjI1] wholesale_parts[OF disjI2]

end
