(* ===== verification/Bank_Of_Siberia_Books.thy ===== *)
theory Bank_Of_Siberia_Books
  imports Bank_Of_Siberia_Loans
begin

text \<open>
  The invariants of the bank's books: loans, escrows, time deposits and sub-accounts, each kept by every call
  of the three pallets.
\<close>

section \<open>Which call touches which books\<close>

datatype register = Loans | Escrows | Deposits | Accounts

fun touches :: "bos_call \<Rightarrow> register option" where
  "touches (PayCredit a v) = Some Loans"
| "touches (RequestLoan v k) = Some Loans"
| "touches (ApproveLoan i) = Some Loans"
| "touches (CancelLoanRequest i) = Some Loans"
| "touches (CreateEscrow a v h) = Some Escrows"
| "touches (ReleaseEscrow i) = Some Escrows"
| "touches (RefundEscrow i) = Some Escrows"
| "touches (OpenTimeDeposit v d h) = Some Deposits"
| "touches (ClaimTimeDeposit i) = Some Deposits"
| "touches (OpenSubAccount ty) = Some Accounts"
| "touches (WithdrawFromSavings a v) = Some Accounts"
| "touches (CloseSubAccount a) = Some Accounts"
| "touches _ = None"

lemma pay_creditD:
  assumes "pay_credit cfg og a v s = Ok t"
  obtains b i l x where "og = Signed b" "0 < v" "active_loan_by_borrower s b = Some i"
    "loan_requests s i = Some l" "loan_status l = LoanActive"
    "transfer (bos_currency cfg) (ledger s) b (treasury cfg) v KeepAlive = Ok x"
    "next_loan_id t = next_loan_id s"
    "loan_requests t = (loan_requests s)(i \<mapsto> l\<lparr>outstanding_balance := outstanding_balance l - v,
       loan_status := (if outstanding_balance l \<le> v then Repaid else LoanActive)\<rparr>)"
    "active_loan_by_borrower t = (if outstanding_balance l \<le> v
       then (active_loan_by_borrower s)(b := None) else active_loan_by_borrower s)"
    "loan_collateral t = (if outstanding_balance l \<le> v
       then (loan_collateral s)((b, i) := None) else loan_collateral s)"
    "ledger t = (if outstanding_balance l \<le> v
       then remove_lock (bos_currency cfg) x LOAN_LOCK_ID b else x)"
    "escrow_part t = escrow_part s" "deposit_part t = deposit_part s" "account_part t = account_part s"
    "used_nonces t = used_nonces s" "credit_core t = credit_core s" "migration t = migration s"
    "bank_accounts t = bank_accounts s"
proof -
  from assms obtain b i l x where g: "og = Signed b" "0 < v" "active_loan_by_borrower s b = Some i"
    "loan_requests s i = Some l" "loan_status l = LoanActive"
    "transfer (bos_currency cfg) (ledger s) b (treasury cfg) v KeepAlive = Ok x"
    unfolding pay_credit_def Let_def by (auto simp only: ok_simps)
  have l: "l\<lparr>outstanding_balance := n, loan_status := LoanActive\<rparr> = l\<lparr>outstanding_balance := n\<rparr>" for n
    using g(5) by (cases l) simp
  show thesis
  proof (cases "outstanding_balance l \<le> v")
    case True
    with assms g have "t = bos_deposit_event (CreditPaymentRecorded b a v)
        (bos_deposit_event (CreditRepaymentApplied i b v 0)
          (s\<lparr>ledger := remove_lock (bos_currency cfg) x LOAN_LOCK_ID b,
             loan_collateral := (loan_collateral s)((b, i) := None),
             active_loan_by_borrower := (active_loan_by_borrower s)(b := None),
             loan_requests := (loan_requests s)(i \<mapsto> l\<lparr>outstanding_balance := 0, loan_status := Repaid\<rparr>)\<rparr>))"
      by (auto simp: pay_credit_def Let_def ok_simps sat_sub_def)
    with g True show thesis by (intro that[of b i l x]) (simp_all add: part_defs credit_core_def)
  next
    case False
    with assms g have "t = bos_deposit_event (CreditPaymentRecorded b a v)
        (bos_deposit_event (CreditRepaymentApplied i b v (outstanding_balance l - v))
          (s\<lparr>ledger := x, loan_requests := (loan_requests s)(i \<mapsto> l\<lparr>outstanding_balance := outstanding_balance l - v\<rparr>)\<rparr>))"
      by (auto simp: pay_credit_def Let_def ok_simps sat_sub_def)
    with g False show thesis by (intro that[of b i l x]) (simp_all add: l part_defs credit_core_def)
  qed
qed

lemma quiet:
  assumes d: "bos_dispatch cfg (env, og, c) s = Ok t"
  shows "touches c \<noteq> Some Loans \<Longrightarrow> loan_part t = loan_part s"
    and "touches c \<noteq> Some Escrows \<Longrightarrow> escrow_part t = escrow_part s"
    and "touches c \<noteq> Some Deposits \<Longrightarrow> deposit_part t = deposit_part s"
    and "touches c \<noteq> Some Accounts \<Longrightarrow> account_part t = account_part s"
proof -
  have "(touches c \<noteq> Some Loans \<longrightarrow> loan_part t = loan_part s)
      \<and> (touches c \<noteq> Some Escrows \<longrightarrow> escrow_part t = escrow_part s)
      \<and> (touches c \<noteq> Some Deposits \<longrightarrow> deposit_part t = deposit_part s)
      \<and> (touches c \<noteq> Some Accounts \<longrightarrow> account_part t = account_part s)"
  proof (cases c)
    case (PayCredit a v)
    with d have "pay_credit cfg og a v s = Ok t" by simp
    then show ?thesis by (rule pay_creditD) (simp add: PayCredit)
  next
    case (BorrowWholesale v)
    with d have "borrow_wholesale cfg og v s = Ok t \<or> repay_wholesale cfg og 0 v s = Ok t" by simp
    from wholesale_parts[OF this] show ?thesis by simp
  next
    case (RepayWholesale i v)
    with d have "borrow_wholesale cfg og v s = Ok t \<or> repay_wholesale cfg og i v s = Ok t" by simp
    from wholesale_parts[OF this] show ?thesis by simp
  qed (use d in \<open>auto simp: bos_local_defs part_defs forget_sub_account_def Let_def ok_simps split: if_splits\<close>)
  then show "touches c \<noteq> Some Loans \<Longrightarrow> loan_part t = loan_part s"
    and "touches c \<noteq> Some Escrows \<Longrightarrow> escrow_part t = escrow_part s"
    and "touches c \<noteq> Some Deposits \<Longrightarrow> deposit_part t = deposit_part s"
    and "touches c \<noteq> Some Accounts \<Longrightarrow> account_part t = account_part s" by blast+
qed

section \<open>Loans\<close>

definition loan_ok :: "loan_request \<Rightarrow> bool" where
  "loan_ok l \<longleftrightarrow> 0 < loan_amount l \<and>
     (case loan_status l of
        Pending \<Rightarrow> outstanding_balance l = loan_amount l
      | LoanActive \<Rightarrow> 0 < outstanding_balance l \<and> outstanding_balance l \<le> loan_amount l
      | Repaid \<Rightarrow> outstanding_balance l = 0 \<or> outstanding_balance l = loan_amount l
      | Default \<Rightarrow> False)"

text \<open>The books of the loans: the index holds exactly the active loans, the collateral records exactly those
  of the open ones.\<close>

definition index_ok where
  "index_ok s \<longleftrightarrow>
     (\<forall>b i. active_loan_by_borrower s b = Some i \<longleftrightarrow>
        (\<exists>l. loan_requests s i = Some l \<and> borrower l = b \<and> loan_status l = LoanActive))"

definition collateral_ok where
  "collateral_ok s \<longleftrightarrow>
     (\<forall>b i k. loan_collateral s (b, i) = Some k \<longleftrightarrow>
        (\<exists>l. loan_requests s i = Some l \<and> borrower l = b \<and> collateral l = k
           \<and> (loan_status l = Pending \<or> loan_status l = LoanActive)))"

definition loans_ok where
  "loans_ok s \<longleftrightarrow>
     (\<forall>i l. loan_requests s i = Some l \<longrightarrow> i < next_loan_id s \<and> loan_ok l) \<and> index_ok s \<and> collateral_ok s"

text \<open>At the end of the \<open>u32\<close> range the counter stays where it is and the last record is overwritten.\<close>

definition loan_inv where
  "loan_inv s \<longleftrightarrow> next_loan_id s \<le> umax 32 \<and> (next_loan_id s < umax 32 \<longrightarrow> loans_ok s)"

lemma loan_inv_cong: "loan_part t = loan_part s \<Longrightarrow> loan_inv s \<Longrightarrow> loan_inv t"
  by (simp add: loan_inv_def loans_ok_def index_ok_def collateral_ok_def loan_part_def)

text \<open>The four calls that change a loan, in terms of the loan books.\<close>

lemma request_loanD:
  assumes "request_loan cfg env og v k s = Ok t"
  obtains b l where "og = Signed b" "0 < v" "bank_accounts s b \<noteq> None"
    "l = \<lparr>borrower = b, collateral = k, loan_amount = v, submitted_at = current_block env,
          loan_status = Pending, outstanding_balance = v\<rparr>"
    "loan_requests t = (loan_requests s)(next_loan_id s \<mapsto> l)" "next_loan_id t = sat_add 32 (next_loan_id s) 1"
    "active_loan_by_borrower t = active_loan_by_borrower s"
    "loan_collateral t = (loan_collateral s)((b, next_loan_id s) \<mapsto> k)"
    "ledger t = set_lock (bos_currency cfg) (ledger s) LOAN_LOCK_ID b k"
  using assms by (auto simp: request_loan_def Let_def ok_simps)

lemma approve_loanD:
  assumes "approve_loan cfg og i s = Ok t"
  obtains l where "loan_requests s i = Some l" "loan_status l = Pending"
    "active_loan_by_borrower s (borrower l) = None"
    "transfer (bos_currency cfg) (ledger s) (treasury cfg) (borrower l) (loan_amount l) KeepAlive = Ok (ledger t)"
    "loan_requests t = (loan_requests s)(i \<mapsto> l\<lparr>loan_status := LoanActive\<rparr>)"
    "next_loan_id t = next_loan_id s"
    "active_loan_by_borrower t = (active_loan_by_borrower s)(borrower l \<mapsto> i)"
    "loan_collateral t = loan_collateral s"
  using assms by (auto simp: approve_loan_def Let_def ok_simps)

lemma cancel_loanD:
  assumes "cancel_loan_request cfg og i s = Ok t"
  obtains l where "loan_requests s i = Some l" "og = Signed (borrower l)" "loan_status l = Pending"
    "loan_requests t = (loan_requests s)(i \<mapsto> l\<lparr>loan_status := Repaid\<rparr>)"
    "next_loan_id t = next_loan_id s" "active_loan_by_borrower t = active_loan_by_borrower s"
    "loan_collateral t = (loan_collateral s)((borrower l, i) := None)"
    "ledger t = remove_lock (bos_currency cfg) (ledger s) LOAN_LOCK_ID (borrower l)"
  using assms by (auto simp: cancel_loan_request_def Let_def ok_simps)

text \<open>A step that gives one loan a new status keeps the books if index and collateral follow.\<close>

lemma index_ok_upd:
  assumes "index_ok s" and "loan_requests t = (loan_requests s)(i \<mapsto> l')"
    and "\<And>j. j \<noteq> i \<Longrightarrow> (active_loan_by_borrower t b = Some j) = (active_loan_by_borrower s b = Some j)"
    and "\<And>a. a \<noteq> b \<Longrightarrow> active_loan_by_borrower t a = active_loan_by_borrower s a \<and> active_loan_by_borrower s a \<noteq> Some i"
    and "active_loan_by_borrower t b = Some i \<longleftrightarrow> loan_status l' = LoanActive" and "borrower l' = b"
  shows "index_ok t"
  unfolding index_ok_def
proof (intro allI)
  fix a j
  show "(active_loan_by_borrower t a = Some j) =
      (\<exists>l. loan_requests t j = Some l \<and> borrower l = a \<and> loan_status l = LoanActive)"
    using assms(3)[of j] assms(4)[of a] assms(1,2,5,6) unfolding index_ok_def
    by (cases "j = i"; cases "a = b") auto
qed

lemma collateral_ok_upd:
  assumes "collateral_ok s" and "loan_requests t = (loan_requests s)(i \<mapsto> l')"
    and "\<And>a j. (a, j) \<noteq> (b, i) \<Longrightarrow> loan_collateral t (a, j) = loan_collateral s (a, j)"
    and "\<And>a. a \<noteq> b \<Longrightarrow> loan_collateral s (a, i) = None"
    and "loan_collateral t (b, i) =
      (if loan_status l' = Pending \<or> loan_status l' = LoanActive then Some (collateral l') else None)"
    and "borrower l' = b"
  shows "collateral_ok t"
  unfolding collateral_ok_def
proof (intro allI)
  fix a j k
  show "(loan_collateral t (a, j) = Some k) =
      (\<exists>l. loan_requests t j = Some l \<and> borrower l = a \<and> collateral l = k
         \<and> (loan_status l = Pending \<or> loan_status l = LoanActive))"
    using assms(3)[of a j] assms(4)[of a] assms(1,2,5,6) unfolding collateral_ok_def
    by (cases "j = i"; cases "a = b") auto
qed

lemma index_other:
  assumes "index_ok s" "loan_requests s i = Some l"
  shows "a \<noteq> borrower l \<Longrightarrow> active_loan_by_borrower s a \<noteq> Some i"
    and "loan_status l \<noteq> LoanActive \<Longrightarrow> active_loan_by_borrower s a \<noteq> Some i"
    and "loan_status l = LoanActive \<Longrightarrow> active_loan_by_borrower s (borrower l) = Some i"
  using assms by (auto simp: index_ok_def)

lemma collateral_other:
  assumes "collateral_ok s" "loan_requests s i = Some l"
  shows "a \<noteq> borrower l \<Longrightarrow> loan_collateral s (a, i) = None"
    and "loan_status l = Pending \<or> loan_status l = LoanActive
      \<Longrightarrow> loan_collateral s (borrower l, i) = Some (collateral l)"
proof -
  show "loan_collateral s (a, i) = None" if "a \<noteq> borrower l"
  proof (cases "loan_collateral s (a, i)")
    case (Some k)
    then show ?thesis using assms that unfolding collateral_ok_def by (metis option.inject)
  qed
  show "loan_status l = Pending \<or> loan_status l = LoanActive
      \<Longrightarrow> loan_collateral s (borrower l, i) = Some (collateral l)"
    using assms unfolding collateral_ok_def by blast
qed

lemma request_loan_inv:
  assumes inv: "loan_inv s" and r: "request_loan cfg env og v k s = Ok t"
  shows "loan_inv t"
  using r
proof (rule request_loanD)
  fix b and l :: loan_request
  let ?n = "next_loan_id s"
  assume h: "0 < v" "l = \<lparr>borrower = b, collateral = k, loan_amount = v, submitted_at = current_block env,
      loan_status = Pending, outstanding_balance = v\<rparr>"
    "loan_requests t = (loan_requests s)(?n \<mapsto> l)" "next_loan_id t = sat_add 32 ?n 1"
    "active_loan_by_borrower t = active_loan_by_borrower s"
    "loan_collateral t = (loan_collateral s)((b, ?n) \<mapsto> k)"
  show ?thesis
  proof (cases "?n < umax 32")
    case True
    with inv have ok: "loans_ok s" by (simp add: loan_inv_def)
    have none: "loan_requests s ?n = None" using ok unfolding loans_ok_def by (cases "loan_requests s ?n") auto
    have i: "active_loan_by_borrower s a \<noteq> Some ?n" for a
      using ok none by (auto simp: loans_ok_def index_ok_def)
    have c: "loan_collateral s (a, ?n) = None" for a
      using ok none by (cases "loan_collateral s (a, ?n)") (auto simp: loans_ok_def collateral_ok_def)
    have "index_ok t" using ok
      by (intro index_ok_upd[of s t ?n l b]) (use h i in \<open>simp_all add: loans_ok_def\<close>)
    moreover have "collateral_ok t" using ok
      by (intro collateral_ok_upd[of s t ?n l b]) (use h c in \<open>simp_all add: loans_ok_def\<close>)
    ultimately have "loans_ok t" using ok h True by (auto simp: loans_ok_def loan_ok_def sat_add_def less_Suc_eq)
    then show ?thesis using h True by (simp add: loan_inv_def sat_add_def)
  qed (use h inv in \<open>simp add: loan_inv_def sat_add_def\<close>)
qed

text \<open>The other three keep the identifiers and the counter and move one loan.\<close>

lemma loans_ok_move:
  assumes ok: "loans_ok s" and l: "loan_requests s i = Some l"
    and t: "loan_requests t = (loan_requests s)(i \<mapsto> l')" "next_loan_id t = next_loan_id s"
    and same: "borrower l' = borrower l" "collateral l' = collateral l"
    and l': "loan_ok l'"
    and ix: "active_loan_by_borrower t = (active_loan_by_borrower s)(borrower l := active_loan_by_borrower t (borrower l))"
      "active_loan_by_borrower t (borrower l) = Some i \<longleftrightarrow> loan_status l' = LoanActive"
      "\<And>j. j \<noteq> i \<Longrightarrow> (active_loan_by_borrower t (borrower l) = Some j) = (active_loan_by_borrower s (borrower l) = Some j)"
    and col: "loan_collateral t = (loan_collateral s)((borrower l, i) :=
      if loan_status l' = Pending \<or> loan_status l' = LoanActive then Some (collateral l) else None)"
  shows "loans_ok t"
proof -
  have s: "index_ok s" "collateral_ok s" using ok by (auto simp: loans_ok_def)
  have "index_ok t"
  proof (rule index_ok_upd[OF s(1) t(1) ix(3)])
    show "active_loan_by_borrower t a = active_loan_by_borrower s a \<and> active_loan_by_borrower s a \<noteq> Some i"
      if "a \<noteq> borrower l" for a
      using fun_cong[OF ix(1), of a] index_other(1)[OF s(1) l that] that by simp
  qed (use ix(2) same in auto)
  moreover have "collateral_ok t"
    by (rule collateral_ok_upd[OF s(2) t(1), of "borrower l"]) (use col same collateral_other(1)[OF s(2) l] in auto)
  moreover have "j < next_loan_id t \<and> loan_ok m" if "loan_requests t j = Some m" for j m
    using that ok l t l' by (auto simp: loans_ok_def split: if_splits)
  ultimately show ?thesis by (simp add: loans_ok_def)
qed

lemma other_loan_calls_inv:
  assumes inv: "loan_inv s"
  shows "approve_loan cfg og i s = Ok t \<Longrightarrow> loan_inv t"
    and "cancel_loan_request cfg og i s = Ok t \<Longrightarrow> loan_inv t"
    and "pay_credit cfg og a v s = Ok t \<Longrightarrow> loan_inv t"
proof -
  have move: "loan_inv t" if "next_loan_id t = next_loan_id s" "loans_ok s \<Longrightarrow> loans_ok t" for t :: "'a bos_state"
    using that inv by (auto simp: loan_inv_def)
  have facts: "loan_ok l" "index_ok s" "collateral_ok s" if "loans_ok s" "loan_requests s j = Some l" for j and l :: loan_request
    using that by (auto simp: loans_ok_def)
  show "loan_inv t" if r: "approve_loan cfg og i s = Ok t"
    using r
  proof (rule approve_loanD)
    fix l :: loan_request
    assume h: "loan_requests s i = Some l" "loan_status l = Pending" "active_loan_by_borrower s (borrower l) = None"
      "loan_requests t = (loan_requests s)(i \<mapsto> l\<lparr>loan_status := LoanActive\<rparr>)" "next_loan_id t = next_loan_id s"
      "active_loan_by_borrower t = (active_loan_by_borrower s)(borrower l \<mapsto> i)"
      "loan_collateral t = loan_collateral s"
    show ?thesis
    proof (rule move[OF h(5)])
      assume ok: "loans_ok s"
      note f = facts[OF ok h(1)]
      have "(loan_collateral s)((borrower l, i) \<mapsto> collateral l) = loan_collateral s"
        using collateral_other(2)[OF f(3) h(1)] h(2) by auto
      then show "loans_ok t"
        using f(1) h by (intro loans_ok_move[OF ok h(1,4,5)]) (auto simp: loan_ok_def)
    qed
  qed
  show "loan_inv t" if r: "cancel_loan_request cfg og i s = Ok t"
    using r
  proof (rule cancel_loanD)
    fix l :: loan_request
    assume h: "loan_requests s i = Some l" "loan_status l = Pending"
      "loan_requests t = (loan_requests s)(i \<mapsto> l\<lparr>loan_status := Repaid\<rparr>)" "next_loan_id t = next_loan_id s"
      "active_loan_by_borrower t = active_loan_by_borrower s"
      "loan_collateral t = (loan_collateral s)((borrower l, i) := None)"
    show ?thesis
    proof (rule move[OF h(4)])
      assume ok: "loans_ok s"
      note f = facts[OF ok h(1)]
      have "active_loan_by_borrower s (borrower l) \<noteq> Some i" using index_other(2)[OF f(2) h(1)] h(2) by simp
      then show "loans_ok t"
        using f(1) h by (intro loans_ok_move[OF ok h(1,3,4)]) (auto simp: loan_ok_def)
    qed
  qed
  show "loan_inv t" if r: "pay_credit cfg og a v s = Ok t"
    using r
  proof (rule pay_creditD)
    fix b j and l :: loan_request
    let ?l' = "l\<lparr>outstanding_balance := outstanding_balance l - v,
       loan_status := (if outstanding_balance l \<le> v then Repaid else LoanActive)\<rparr>"
    assume h: "0 < v" "active_loan_by_borrower s b = Some j" "loan_requests s j = Some l" "loan_status l = LoanActive"
      "next_loan_id t = next_loan_id s" "loan_requests t = (loan_requests s)(j \<mapsto> ?l')"
      "active_loan_by_borrower t = (if outstanding_balance l \<le> v
         then (active_loan_by_borrower s)(b := None) else active_loan_by_borrower s)"
      "loan_collateral t = (if outstanding_balance l \<le> v
         then (loan_collateral s)((b, j) := None) else loan_collateral s)"
    show ?thesis
    proof (rule move[OF h(5)])
      assume ok: "loans_ok s"
      note f = facts[OF ok h(3)]
      have b: "borrower l = b" using f(2) h(2,3) by (auto simp: index_ok_def)
      have "(loan_collateral s)((b, j) \<mapsto> collateral l) = loan_collateral s"
        using collateral_other(2)[OF f(3) h(3)] h(4) b by auto
      then show "loans_ok t"
        using f(1) h b by (intro loans_ok_move[OF ok h(3,6,5)]) (auto simp: loan_ok_def split: if_splits)
    qed
  qed
qed

lemma loan_dispatch_inv:
  assumes inv: "loan_inv s" and d: "bos_dispatch cfg (env, og, c) s = Ok t"
  shows "loan_inv t"
proof (cases "touches c = Some Loans")
  case False
  show ?thesis by (rule loan_inv_cong[OF quiet(1)[OF d False] inv])
next
  case True
  then show ?thesis
    using d request_loan_inv[OF inv] other_loan_calls_inv[OF inv] by (cases c) auto
qed

end
