(* ===== verification/Bank_Of_Siberia_System.thy ===== *)
theory Bank_Of_Siberia_System
  imports Bank_Of_Siberia_Books
begin

text \<open>
  Escrows, deposits and sub-accounts; then the three pallets as one machine: its invariant, the identifier
  registries and the life cycles of loans, escrows and deposits as instances of the shared contracts.
\<close>

section \<open>Escrows and deposits\<close>

lemma create_escrowD:
  assumes "create_escrow cfg env og b v h s = Ok t"
  obtains a e where "og = Signed a" "0 < v" "a \<noteq> b" "bank_accounts s a \<noteq> None"
    "e = \<lparr>depositor = a, counterparty = b, escrow_amount = v, item_hash = h,
          created_at = current_block env, escrow_status = Locked\<rparr>"
    "transfer (bos_currency cfg) (ledger s) a (treasury cfg) v AllowDeath = Ok (ledger t)"
    "escrow_contracts t = (escrow_contracts s)(next_escrow_id s \<mapsto> e)"
    "next_escrow_id t = sat_add 32 (next_escrow_id s) 1"
  using assms by (auto simp: create_escrow_def Let_def ok_simps)

lemma release_escrowD:
  assumes "release_escrow cfg og i s = Ok t"
  obtains e where "escrow_contracts s i = Some e" "og = Signed (depositor e)" "escrow_status e = Locked"
    "transfer (bos_currency cfg) (ledger s) (treasury cfg) (counterparty e) (escrow_amount e) AllowDeath = Ok (ledger t)"
    "escrow_contracts t = (escrow_contracts s)(i \<mapsto> e\<lparr>escrow_status := Released\<rparr>)"
    "next_escrow_id t = next_escrow_id s"
  using assms by (auto simp: release_escrow_def ok_simps)

lemma refund_escrowD:
  assumes "refund_escrow cfg og i s = Ok t"
  obtains e where "escrow_contracts s i = Some e" "og = Signed (counterparty e)" "escrow_status e = Locked"
    "transfer (bos_currency cfg) (ledger s) (treasury cfg) (depositor e) (escrow_amount e) AllowDeath = Ok (ledger t)"
    "escrow_contracts t = (escrow_contracts s)(i \<mapsto> e\<lparr>escrow_status := Refunded\<rparr>)"
    "next_escrow_id t = next_escrow_id s"
  using assms by (auto simp: refund_escrow_def ok_simps)

lemma open_time_depositD:
  assumes "open_time_deposit cfg env og v n h s = Ok t"
  obtains a d where "og = Signed a" "0 < v" "0 < n" "bank_accounts s a \<noteq> None"
    "d = \<lparr>deposit_owner = a, deposit_amount = v, interest_rate_bps = ANNUAL_RATE_BPS,
          deposit_opened_at = current_block env, maturity_block = sat_add 32 (current_block env) n,
          document_hash = h, deposit_status = DepositActive\<rparr>"
    "transfer (bos_currency cfg) (ledger s) a (treasury cfg) v AllowDeath = Ok (ledger t)"
    "time_deposits t = (time_deposits s)(next_time_deposit_id s \<mapsto> d)"
    "next_time_deposit_id t = sat_add 32 (next_time_deposit_id s) 1"
  using assms by (auto simp: open_time_deposit_def Let_def ok_simps)

lemma claim_time_depositD:
  assumes "claim_time_deposit cfg env og i s = Ok t"
  obtains d total where "time_deposits s i = Some d" "og = Signed (deposit_owner d)"
    "deposit_status d = DepositActive" "maturity_block d \<le> current_block env"
    "total = sat_add 128 (deposit_amount d)
       (calculate_interest cfg (deposit_amount d) (interest_rate_bps d) (deposit_opened_at d) (maturity_block d))"
    "transfer (bos_currency cfg) (ledger s) (treasury cfg) (deposit_owner d) total AllowDeath = Ok (ledger t)"
    "time_deposits t = (time_deposits s)(i \<mapsto> d\<lparr>deposit_status := Claimed\<rparr>)"
    "next_time_deposit_id t = next_time_deposit_id s"
  using assms by (auto simp: claim_time_deposit_def Let_def ok_simps)

definition escrow_inv where
  "escrow_inv s \<longleftrightarrow> next_escrow_id s \<le> umax 32 \<and>
     (\<forall>i e. escrow_contracts s i = Some e \<longrightarrow>
        0 < escrow_amount e \<and> depositor e \<noteq> counterparty e \<and> (next_escrow_id s < umax 32 \<longrightarrow> i < next_escrow_id s))"

definition deposit_inv where
  "deposit_inv s \<longleftrightarrow> next_time_deposit_id s \<le> umax 32 \<and>
     (\<forall>i d. time_deposits s i = Some d \<longrightarrow>
        0 < deposit_amount d \<and> interest_rate_bps d = 500
        \<and> deposit_opened_at d \<le> maturity_block d \<and> maturity_block d \<le> umax 32
        \<and> (next_time_deposit_id s < umax 32 \<longrightarrow> i < next_time_deposit_id s))"

lemma escrow_dispatch_inv:
  assumes inv: "escrow_inv s" and d: "bos_dispatch cfg (env, og, c) s = Ok t"
  shows "escrow_inv t"
proof (cases "touches c = Some Escrows")
  case False
  then show ?thesis using quiet(2)[OF d] inv by (simp add: escrow_inv_def escrow_part_def)
next
  case True
  then show ?thesis
  proof (cases c)
    case (CreateEscrow a v h)
    with d have "create_escrow cfg env og a v h s = Ok t" by simp
    then show ?thesis
      by (rule create_escrowD, cases "next_escrow_id s < umax 32")
        (use inv in \<open>auto simp: escrow_inv_def sat_add_def less_Suc_eq split: if_splits\<close>)
  next
    case (ReleaseEscrow i)
    with d have "release_escrow cfg og i s = Ok t" by simp
    then show ?thesis
      by (rule release_escrowD) (use inv in \<open>auto simp: escrow_inv_def split: if_splits\<close>)
  next
    case (RefundEscrow i)
    with d have "refund_escrow cfg og i s = Ok t" by simp
    then show ?thesis
      by (rule refund_escrowD) (use inv in \<open>auto simp: escrow_inv_def split: if_splits\<close>)
  qed simp_all
qed

lemma deposit_dispatch_inv:
  assumes inv: "deposit_inv s" and d: "bos_dispatch cfg (env, og, c) s = Ok t"
  shows "deposit_inv t"
proof (cases "touches c = Some Deposits")
  case False
  then show ?thesis using quiet(3)[OF d] inv by (simp add: deposit_inv_def deposit_part_def)
next
  case True
  then show ?thesis
  proof (cases c)
    case (OpenTimeDeposit v n h)
    with d have "open_time_deposit cfg env og v n h s = Ok t" by simp
    then show ?thesis
    proof (rule open_time_depositD)
      have "current_block env \<le> umax 32" by (simp add: current_block_def)
      then show ?thesis if "0 < v" "d = \<lparr>deposit_owner = a, deposit_amount = v, interest_rate_bps = ANNUAL_RATE_BPS,
          deposit_opened_at = current_block env, maturity_block = sat_add 32 (current_block env) n,
          document_hash = h, deposit_status = DepositActive\<rparr>"
        "time_deposits t = (time_deposits s)(next_time_deposit_id s \<mapsto> d)"
        "next_time_deposit_id t = sat_add 32 (next_time_deposit_id s) 1" for a d
        using that inv by (cases "next_time_deposit_id s < umax 32")
          (auto simp: deposit_inv_def sat_add_def less_Suc_eq ANNUAL_RATE_BPS_def split: if_splits)
    qed
  next
    case (ClaimTimeDeposit i)
    with d have "claim_time_deposit cfg env og i s = Ok t" by simp
    then show ?thesis
      by (rule claim_time_depositD) (use inv in \<open>auto simp: deposit_inv_def split: if_splits\<close>)
  qed simp_all
qed

section \<open>Sub-accounts\<close>

text \<open>Both indices name the same sub-accounts, and every address is the one derived for its master and type.
  The forward index is complete when no two derivations collide (Blake2 collision resistance).\<close>

definition no_collisions :: "'x bos_config \<Rightarrow> bool" where
  "no_collisions cfg \<longleftrightarrow>
     (\<forall>m m' ty ty' a. derive_sub_account cfg m ty 0 = Ok a \<and> derive_sub_account cfg m' ty' 0 = Ok a
        \<longrightarrow> m = m' \<and> ty = ty')"

definition accounts_inv where
  "accounts_inv cfg s \<longleftrightarrow>
     (\<forall>a r. sub_account_meta s a = Some r \<longrightarrow>
        sub_accounts s (sub_master r, a) = Some (sub_type r) \<and> bank_accounts s (sub_master r) \<noteq> None)
     \<and> (\<forall>m a ty. sub_accounts s (m, a) = Some ty \<longrightarrow> derive_sub_account cfg m ty 0 = Ok a)
     \<and> (no_collisions cfg \<longrightarrow> (\<forall>m a ty. sub_accounts s (m, a) = Some ty \<longrightarrow>
          (\<exists>r. sub_account_meta s a = Some r \<and> sub_master r = m \<and> sub_type r = ty)))"

lemma forget_sub_account_inv:
  assumes "accounts_inv cfg s" and r: "sub_account_meta s a = Some r"
    and t: "account_part t = account_part (forget_sub_account (sub_master r) a s)" "bank_accounts t = bank_accounts s"
  shows "accounts_inv cfg t"
proof -
  have t': "sub_accounts t = (sub_accounts s)((sub_master r, a) := None)"
    "sub_account_meta t = (sub_account_meta s)(a := None)"
    using t(1) by (auto simp: account_part_def forget_sub_account_def)
  have "\<exists>r. sub_account_meta t b = Some r \<and> sub_master r = m \<and> sub_type r = ty"
    if nc: "no_collisions cfg" and b: "sub_accounts t (m, b) = Some ty" for m b ty
  proof -
    from b t' have s: "sub_accounts s (m, b) = Some ty" "(m, b) \<noteq> (sub_master r, a)" by (auto split: if_splits)
    then obtain q where "sub_account_meta s b = Some q" "sub_master q = m" "sub_type q = ty"
      using assms(1) nc unfolding accounts_inv_def by blast
    with r s(2) t' show ?thesis by auto
  qed
  with assms(1) t(2) t' show ?thesis by (auto simp: accounts_inv_def split: if_splits)
qed

lemma account_dispatch_inv:
  assumes inv: "accounts_inv cfg s" and d: "bos_dispatch cfg (env, og, c) s = Ok t"
    and b: "\<And>a. bank_accounts s a \<noteq> None \<Longrightarrow> bank_accounts t a \<noteq> None"
  shows "accounts_inv cfg t"
proof (cases "touches c = Some Accounts")
  case False
  then have "sub_accounts t = sub_accounts s" "sub_account_meta t = sub_account_meta s"
    using quiet(4)[OF d] by (auto simp: account_part_def)
  then show ?thesis using inv b unfolding accounts_inv_def by simp
next
  case True
  then show ?thesis
  proof (cases c)
    case (OpenSubAccount ty)
    with d obtain m a where m: "derive_sub_account cfg m ty 0 = Ok a" "bank_accounts s m \<noteq> None"
      "sub_accounts t = (sub_accounts s)((m, a) \<mapsto> ty)"
      "sub_account_meta t = (sub_account_meta s)(a \<mapsto> \<lparr>sub_master = m, sub_type = ty, sub_opened_at = current_block env\<rparr>)"
      by (auto simp: open_sub_account_def Let_def ok_simps)
    have "\<exists>r. sub_account_meta t b' = Some r \<and> sub_master r = m' \<and> sub_type r = ty'"
      if nc: "no_collisions cfg" and s: "sub_accounts t (m', b') = Some ty'" for m' b' ty'
    proof (cases "b' = a")
      case True
      have "derive_sub_account cfg m' ty' 0 = Ok a"
        using s m True inv by (auto simp: accounts_inv_def split: if_splits)
      then have "m' = m \<and> ty' = ty" using m(1) nc unfolding no_collisions_def by blast
      then show ?thesis using True m by simp
    next
      case False
      with s m inv nc show ?thesis by (auto simp: accounts_inv_def)
    qed
    with inv m b show ?thesis by (auto simp: accounts_inv_def split: if_splits)
  next
    case (WithdrawFromSavings a v)
    with d obtain r where r: "sub_account_meta s a = Some r" and
      t: "account_part t = account_part s \<or> account_part t = account_part (forget_sub_account (sub_master r) a s)"
      "bank_accounts t = bank_accounts s"
      by (auto simp: withdraw_from_savings_def Let_def ok_simps account_part_def forget_sub_account_def split: if_splits)
    from t(1) show ?thesis
    proof
      assume "account_part t = account_part s"
      then show ?thesis using inv t(2) by (simp add: accounts_inv_def account_part_def)
    next
      assume "account_part t = account_part (forget_sub_account (sub_master r) a s)"
      then show ?thesis by (rule forget_sub_account_inv[OF inv r _ t(2)])
    qed
  next
    case (CloseSubAccount a)
    with d obtain r where r: "sub_account_meta s a = Some r" and
      t: "account_part t = account_part (forget_sub_account (sub_master r) a s)" "bank_accounts t = bank_accounts s"
      by (auto simp: close_sub_account_def ok_simps account_part_def forget_sub_account_def)
    show ?thesis by (rule forget_sub_account_inv[OF inv r t])
  qed simp_all
qed

end
