(* ===== verification/Bank_Of_Siberia_Machine.thy ===== *)
theory Bank_Of_Siberia_Machine
  imports Bank_Of_Siberia_System
begin

text \<open>
  The central bank, the migration center and the Bank of Siberia as one machine over their shared storage:
  its invariant, and the instances of \<open>pallet_machine\<close>, \<open>id_registry\<close> and \<open>lifecycle\<close>.
\<close>

section \<open>The invariant of the machine\<close>

definition bank_inv :: "'x bos_config \<Rightarrow> 'x bos_state \<Rightarrow> bool" where
  "bank_inv cfg s \<longleftrightarrow>
     cb_good (central_bank cfg) s \<and> mc_inv (migration_center cfg) (migration s)
     \<and> loan_inv s \<and> escrow_inv s \<and> deposit_inv s \<and> accounts_inv cfg s"

definition bank_genesis :: "'x bos_config \<Rightarrow> (account \<times> bool) list \<Rightarrow> 'x \<Rightarrow> 'x bos_state" where
  "bank_genesis cfg ops x0 =
     cb_state.extend (cb_genesis (central_bank cfg) ops x0)
       \<lparr>migration = mc_empty, bank_accounts = Map.empty, sub_accounts = Map.empty, sub_account_meta = Map.empty,
        loan_requests = Map.empty, next_loan_id = 0, active_loan_by_borrower = Map.empty,
        loan_collateral = Map.empty, escrow_contracts = Map.empty, next_escrow_id = 0,
        time_deposits = Map.empty, next_time_deposit_id = 0, bank_server_key = None,
        used_nonces = (\<lambda>_. False), collateral_balances = (\<lambda>_. 0), bos_events = []\<rparr>"

lemma bank_inv_genesis:
  assumes "credit_epoch_limit (central_bank cfg) \<le> umax 128"
  shows "bank_inv cfg (bank_genesis cfg ops x0)"
proof -
  have "credit_core (bank_genesis cfg ops x0) = credit_core (cb_genesis (central_bank cfg) ops x0)"
    by (simp add: credit_core_def bank_genesis_def cb_state.defs)
  from cb_inv_cong[OF this] have "cb_good (central_bank cfg) (bank_genesis cfg ops x0)"
    using cb_good_genesis[OF assms] by (simp add: cb_good_def)
  then show ?thesis
    by (simp add: bank_inv_def bank_genesis_def cb_state.defs loan_inv_def loans_ok_def index_ok_def
        collateral_ok_def escrow_inv_def deposit_inv_def accounts_inv_def mc_inv_empty)
qed

lemma bos_frame:
  assumes d: "bos_dispatch cfg (env, og, c) s = Ok t"
  shows "migration t = migration s"
    and "bank_accounts s a \<noteq> None \<Longrightarrow> bank_accounts t a \<noteq> None"
    and "(\<And>v. c \<noteq> BorrowWholesale v) \<Longrightarrow> (\<And>i v. c \<noteq> RepayWholesale i v) \<Longrightarrow> credit_core t = credit_core s"
proof -
  have "migration t = migration s \<and> (bank_accounts s a \<noteq> None \<longrightarrow> bank_accounts t a \<noteq> None)
    \<and> ((\<forall>v. c \<noteq> BorrowWholesale v) \<and> (\<forall>i v. c \<noteq> RepayWholesale i v) \<longrightarrow> credit_core t = credit_core s)"
  proof (cases c)
    case (PayCredit a v)
    with d have "pay_credit cfg og a v s = Ok t" by simp
    then show ?thesis by (rule pay_creditD) simp
  next
    case (BorrowWholesale v)
    with d have "borrow_wholesale cfg og v s = Ok t \<or> repay_wholesale cfg og 0 v s = Ok t" by simp
    from wholesale_parts(6,7)[OF this] BorrowWholesale show ?thesis by simp
  next
    case (RepayWholesale i v)
    with d have "borrow_wholesale cfg og v s = Ok t \<or> repay_wholesale cfg og i v s = Ok t" by simp
    from wholesale_parts(6,7)[OF this] RepayWholesale show ?thesis by simp
  qed (use d in \<open>auto simp: bos_local_defs forget_sub_account_def Let_def ok_simps credit_core_def\<close>)
  then show "migration t = migration s"
    and "bank_accounts s a \<noteq> None \<Longrightarrow> bank_accounts t a \<noteq> None"
    and "(\<And>v. c \<noteq> BorrowWholesale v) \<Longrightarrow> (\<And>i v. c \<noteq> RepayWholesale i v) \<Longrightarrow> credit_core t = credit_core s"
    by blast+
qed

text \<open>The wholesale calls are the central bank's credit operations for the treasury account.\<close>

lemma borrow_wholesaleD:
  assumes "borrow_wholesale cfg og v s = Ok t"
  obtains u where "do_request_credit (central_bank cfg) (treasury cfg) v s = Ok u"
    "t = bos_deposit_event (WholesaleCreditBorrowed v) u" "credit_core t = credit_core u"
  using assms by (auto simp: borrow_wholesale_def ok_simps)

lemma repay_wholesaleD:
  assumes "repay_wholesale cfg og i v s = Ok t"
  obtains u where "do_repay_credit (central_bank cfg) (treasury cfg) i v s = Ok u"
    "t = bos_deposit_event (WholesaleCreditRepaid i v) u" "credit_core t = credit_core u"
  using assms by (auto simp: repay_wholesale_def ok_simps)

lemma bos_cb_good:
  assumes g: "cb_good (central_bank cfg) s" and d: "bos_dispatch cfg (env, og, c) s = Ok t"
  shows "cb_good (central_bank cfg) t"
proof (cases "(\<exists>v. c = BorrowWholesale v) \<or> (\<exists>i v. c = RepayWholesale i v)")
  case False
  then show ?thesis using bos_frame(3)[OF d] cb_good_core g by blast
next
  case True
  then show ?thesis
  proof (elim disjE exE)
    fix v assume "c = BorrowWholesale v"
    with d have "borrow_wholesale cfg og v s = Ok t" by simp
    then show ?thesis
      by (rule borrow_wholesaleD) (use cbf.request_good[OF g] cb_good_core in blast)
  next
    fix i v assume "c = RepayWholesale i v"
    with d have "repay_wholesale cfg og i v s = Ok t" by simp
    then show ?thesis
      by (rule repay_wholesaleD) (use cbf.repay_good[OF g] cb_good_core in blast)
  qed
qed

lemma bank_inv_parts:
  assumes inv: "bank_inv cfg s" and good: "cb_good (central_bank cfg) t"
    and m: "mc_inv (migration_center cfg) (migration t)"
    and parts: "loan_part t = loan_part s" "escrow_part t = escrow_part s" "deposit_part t = deposit_part s"
      "account_part t = account_part s" "bank_accounts t = bank_accounts s"
  shows "bank_inv cfg t"
  using inv good m loan_inv_cong[OF parts(1)] parts(2-5)
  by (simp add: bank_inv_def escrow_inv_def deposit_inv_def accounts_inv_def part_defs)

lemma bank_dispatch_inv:
  assumes inv: "bank_inv cfg s" and d: "bank_dispatch cfg c s = Ok t"
  shows "bank_inv cfg t"
proof -
  obtain env og call where c: "c = (env, og, call)" by (cases c) auto
  note d' = d[unfolded c]
  have good: "cb_good (central_bank cfg) s" "mc_inv (migration_center cfg) (migration s)"
    using inv by (auto simp: bank_inv_def)
  show ?thesis
  proof (cases call)
    case (CentralBank x)
    with d' have r: "cb_dispatch (central_bank cfg) (env, og, x) s = Ok t" by (simp add: ok_simps)
    note p = more_parts[OF cb_dispatch_more[OF r]]
    show ?thesis
      by (rule bank_inv_parts[OF inv cbm.dispatch_inv[OF good(1) r]]) (use p good in simp_all)
  next
    case (MigrationCenter x)
    with d' obtain m where m: "mc_dispatch (migration_center cfg) (env, og, x) (migration s) = Ok m"
      and t: "t = s\<lparr>migration := m\<rparr>" by (auto simp: ok_simps)
    have "credit_core t = credit_core s" by (simp add: t credit_core_def)
    from cb_good_core[OF this good(1)] mcm.dispatch_inv[OF good(2) m] show ?thesis
      by (intro bank_inv_parts[OF inv]) (simp_all add: t part_defs)
  next
    case (BankOfSiberia x)
    with d' have r: "bos_dispatch cfg (env, og, x) s = Ok t" by (simp add: ok_simps)
    show ?thesis
      using inv bos_cb_good[OF good(1) r] bos_frame(1)[OF r] loan_dispatch_inv[OF _ r]
        escrow_dispatch_inv[OF _ r] deposit_dispatch_inv[OF _ r] account_dispatch_inv[OF _ r bos_frame(2)[OF r]]
      by (simp add: bank_inv_def)
  qed
qed

lemma bank_inv_ledger_step: "bank_inv cfg s \<Longrightarrow> ledger_step P s t \<Longrightarrow> bank_inv cfg t"
proof -
  assume inv: "bank_inv cfg s" and st: "ledger_step P s t"
  have "cb_good (central_bank cfg) t"
    using inv st cb_good_core[OF ledger_step_core[OF st]] by (simp add: bank_inv_def)
  then show "bank_inv cfg t"
    using inv st by (intro bank_inv_parts[OF inv]) (auto simp: bank_inv_def ledger_step_def part_defs)
qed

interpretation bankm: pallet_machine "bank_dispatch cfg" "ledger_step P" "bank_inv cfg"
  for cfg :: "'x bos_config" and P
  by standard (auto intro: bank_dispatch_inv bank_inv_ledger_step)

section \<open>Identifiers\<close>

definition any_step :: "'x bos_config \<Rightarrow> 'x bos_state \<Rightarrow> 'x bos_state \<Rightarrow> bool" where
  "any_step cfg s t \<longleftrightarrow> (\<exists>c. bank_dispatch cfg c s = Ok t) \<or> ledger_step (\<lambda>_ _. True) s t"

text \<open>A call of another pallet (or a transfer outside) leaves the bank's registries alone; one of the bank is known by its books.\<close>

lemma any_step_books:
  assumes "any_step cfg s t"
  obtains (other) "loan_part t = loan_part s" "escrow_part t = escrow_part s" "deposit_part t = deposit_part s"
      "account_part t = account_part s" "used_nonces t = used_nonces s" "collateral_balances t = collateral_balances s"
  | (bos) env og x where "bos_dispatch cfg (env, og, x) s = Ok t"
proof (cases "ledger_step (\<lambda>_ _. True) s t")
  case True
  then show thesis by (intro other) (auto simp: ledger_step_def part_defs)
next
  case False
  then obtain env og call where d: "bank_dispatch cfg (env, og, call) s = Ok t"
    using assms by (auto simp: any_step_def)
  show thesis
  proof (cases call)
    case (CentralBank x)
    with d have "cb_dispatch (central_bank cfg) (env, og, x) s = Ok t" by (simp add: ok_simps)
    from more_parts[OF cb_dispatch_more[OF this]] show thesis by (intro other)
  next
    case (MigrationCenter x)
    with d obtain m where "t = s\<lparr>migration := m\<rparr>" by (auto simp: ok_simps)
    then show thesis by (intro other) (simp_all add: part_defs)
  next
    case (BankOfSiberia x)
    with d show thesis by (intro bos[of env og x]) (simp_all add: ok_simps)
  qed
qed

interpretation loan_ids: id_registry next_loan_id loan_requests "any_step cfg"
  for cfg :: "'x bos_config"
proof
  fix s t :: "'x bos_state"
  let ?alloc = "next_loan_id t = next_loan_id s \<and> dom (loan_requests t) = dom (loan_requests s)
    \<or> next_loan_id t = sat_add 32 (next_loan_id s) 1
      \<and> dom (loan_requests t) = insert (next_loan_id s) (dom (loan_requests s))"
  assume "any_step cfg s t"
  then show ?alloc
  proof (cases rule: any_step_books)
    case other
    then show ?thesis by (simp add: loan_part_def)
  next
    case (bos env og x)
    show ?thesis
    proof (cases "touches x = Some Loans")
      case False
      then show ?thesis using quiet(1)[OF bos] by (simp add: loan_part_def)
    next
      case True
      then consider a v where "pay_credit cfg og a v s = Ok t" | v k where "request_loan cfg env og v k s = Ok t"
        | i where "approve_loan cfg og i s = Ok t" | i where "cancel_loan_request cfg og i s = Ok t"
        using bos by (cases x) auto
      then show ?thesis
        by cases ((erule pay_creditD, simp add: insert_absorb domIff), (erule request_loanD, simp add: insert_absorb domIff), (erule approve_loanD, simp add: insert_absorb domIff), (erule cancel_loanD, simp add: insert_absorb domIff))
    qed
  qed
qed

interpretation escrow_ids: id_registry next_escrow_id escrow_contracts "any_step cfg"
  for cfg :: "'x bos_config"
proof
  fix s t :: "'x bos_state"
  let ?alloc = "next_escrow_id t = next_escrow_id s \<and> dom (escrow_contracts t) = dom (escrow_contracts s)
    \<or> next_escrow_id t = sat_add 32 (next_escrow_id s) 1
      \<and> dom (escrow_contracts t) = insert (next_escrow_id s) (dom (escrow_contracts s))"
  assume "any_step cfg s t"
  then show ?alloc
  proof (cases rule: any_step_books)
    case other
    then show ?thesis by (simp add: escrow_part_def)
  next
    case (bos env og x)
    show ?thesis
    proof (cases "touches x = Some Escrows")
      case False
      then show ?thesis using quiet(2)[OF bos] by (simp add: escrow_part_def)
    next
      case True
      then consider a v h where "create_escrow cfg env og a v h s = Ok t"
        | i where "release_escrow cfg og i s = Ok t" | i where "refund_escrow cfg og i s = Ok t"
        using bos by (cases x) auto
      then show ?thesis
        by cases ((erule create_escrowD, simp add: insert_absorb domIff), (erule release_escrowD, simp add: insert_absorb domIff), (erule refund_escrowD, simp add: insert_absorb domIff))
    qed
  qed
qed

interpretation deposit_ids: id_registry next_time_deposit_id time_deposits "any_step cfg"
  for cfg :: "'x bos_config"
proof
  fix s t :: "'x bos_state"
  let ?alloc = "next_time_deposit_id t = next_time_deposit_id s \<and> dom (time_deposits t) = dom (time_deposits s)
    \<or> next_time_deposit_id t = sat_add 32 (next_time_deposit_id s) 1
      \<and> dom (time_deposits t) = insert (next_time_deposit_id s) (dom (time_deposits s))"
  assume "any_step cfg s t"
  then show ?alloc
  proof (cases rule: any_step_books)
    case other
    then show ?thesis by (simp add: deposit_part_def)
  next
    case (bos env og x)
    show ?thesis
    proof (cases "touches x = Some Deposits")
      case False
      then show ?thesis using quiet(3)[OF bos] by (simp add: deposit_part_def)
    next
      case True
      then consider v n h where "open_time_deposit cfg env og v n h s = Ok t"
        | i where "claim_time_deposit cfg env og i s = Ok t"
        using bos by (cases x) auto
      then show ?thesis
        by cases ((erule open_time_depositD, simp add: insert_absorb domIff), (erule claim_time_depositD, simp add: insert_absorb domIff))
    qed
  qed
qed

section \<open>Life cycles\<close>

definition ids_free where
  "ids_free s \<longleftrightarrow> next_loan_id s < umax 32 \<and> next_escrow_id s < umax 32 \<and> next_time_deposit_id s < umax 32"

definition bank_step :: "'x bos_config \<Rightarrow> 'x bos_state \<Rightarrow> 'x bos_state \<Rightarrow> bool" where
  "bank_step cfg s t \<longleftrightarrow> bank_inv cfg s \<and> ids_free s \<and> any_step cfg s t"

lemma any_step_inv: "bank_inv cfg s \<Longrightarrow> any_step cfg s t \<Longrightarrow> bank_inv cfg t"
  unfolding any_step_def using bank_dispatch_inv bank_inv_ledger_step by blast

lemma ids_free_back:
  assumes "any_step cfg s t" "bank_inv cfg s" "ids_free t"
  shows "ids_free s"
  using loan_ids.next_mono[OF assms(1)] escrow_ids.next_mono[OF assms(1)] deposit_ids.next_mono[OF assms(1)] assms(2,3)
  by (auto simp: ids_free_def bank_inv_def loan_inv_def escrow_inv_def deposit_inv_def)

text \<open>As long as no counter has reached the end of its range, whatever happens is a sequence of such steps.\<close>

lemma reachable_steps:
  "reachable (bank_dispatch cfg) (ledger_step P) s t \<Longrightarrow> bank_inv cfg s \<Longrightarrow> ids_free t \<Longrightarrow> (bank_step cfg)\<^sup>*\<^sup>* s t"
proof (induction rule: reachable.induct)
  case start
  then show ?case by simp
next
  case (call u c t)
  have inv: "bank_inv cfg u" by (rule bankm.reachable_inv[OF call.hyps(1) call.prems(1)])
  have st: "any_step cfg u t" using call.hyps(2) unfolding any_step_def by blast
  have "ids_free u" by (rule ids_free_back[OF st inv call.prems(2)])
  with call.IH call.prems(1) inv st show ?case by (meson bank_step_def rtranclp.rtrancl_into_rtrancl)
next
  case (other u t)
  have inv: "bank_inv cfg u" by (rule bankm.reachable_inv[OF other.hyps(1) other.prems(1)])
  have st: "any_step cfg u t" using other.hyps(2) by (auto simp: any_step_def ledger_step_def)
  have "ids_free u" by (rule ids_free_back[OF st inv other.prems(2)])
  with other.IH other.prems(1) inv st show ?case by (meson bank_step_def rtranclp.rtrancl_into_rtrancl)
qed

definition escrow_edge :: "escrow_contract \<Rightarrow> escrow_contract \<Rightarrow> bool" where
  "escrow_edge e e' \<longleftrightarrow> escrow_status e = Locked \<and>
     (e' = e\<lparr>escrow_status := Released\<rparr> \<or> e' = e\<lparr>escrow_status := Refunded\<rparr>)"

definition deposit_edge :: "time_deposit \<Rightarrow> time_deposit \<Rightarrow> bool" where
  "deposit_edge d d' \<longleftrightarrow> deposit_status d = DepositActive \<and> d' = d\<lparr>deposit_status := Claimed\<rparr>"

definition loan_edge :: "loan_request \<Rightarrow> loan_request \<Rightarrow> bool" where
  "loan_edge l l' \<longleftrightarrow>
     (loan_status l = Pending \<and> (l' = l\<lparr>loan_status := LoanActive\<rparr> \<or> l' = l\<lparr>loan_status := Repaid\<rparr>))
     \<or> (loan_status l = LoanActive \<and>
         ((\<exists>v. v < outstanding_balance l \<and> l' = l\<lparr>outstanding_balance := v\<rparr>)
          \<or> l' = l\<lparr>outstanding_balance := 0, loan_status := Repaid\<rparr>))"

interpretation escrow_life: lifecycle escrow_contracts escrow_edge "bank_step cfg"
  for cfg :: "'x bos_config"
proof
  fix s t :: "'x bos_state" and i e
  assume st: "bank_step cfg s t" and e: "escrow_contracts s i = Some e" "escrow_contracts t i \<noteq> Some e"
  have any: "any_step cfg s t" and fresh: "i \<noteq> next_escrow_id s"
    using st e(1) by (auto simp: bank_step_def bank_inv_def escrow_inv_def ids_free_def)
  from any show "\<exists>e'. escrow_contracts t i = Some e' \<and> escrow_edge e e'"
  proof (cases rule: any_step_books)
    case other
    with e show ?thesis by (simp add: escrow_part_def)
  next
    case (bos env og x)
    show ?thesis
    proof (cases "touches x = Some Escrows")
      case False
      with e show ?thesis using quiet(2)[OF bos] by (simp add: escrow_part_def)
    next
      case True
      then consider a v h where "create_escrow cfg env og a v h s = Ok t"
        | j where "release_escrow cfg og j s = Ok t" | j where "refund_escrow cfg og j s = Ok t"
        using bos by (cases x) auto
      then show ?thesis
        by cases (use e fresh in \<open>auto elim!: create_escrowD release_escrowD refund_escrowD
          simp: escrow_edge_def split: if_splits\<close>)
    qed
  qed
qed

interpretation deposit_life: lifecycle time_deposits deposit_edge "bank_step cfg"
  for cfg :: "'x bos_config"
proof
  fix s t :: "'x bos_state" and i d
  assume st: "bank_step cfg s t" and d: "time_deposits s i = Some d" "time_deposits t i \<noteq> Some d"
  have any: "any_step cfg s t" and fresh: "i \<noteq> next_time_deposit_id s"
    using st d(1) by (auto simp: bank_step_def bank_inv_def deposit_inv_def ids_free_def)
  from any show "\<exists>d'. time_deposits t i = Some d' \<and> deposit_edge d d'"
  proof (cases rule: any_step_books)
    case other
    with d show ?thesis by (simp add: deposit_part_def)
  next
    case (bos env og x)
    show ?thesis
    proof (cases "touches x = Some Deposits")
      case False
      with d show ?thesis using quiet(3)[OF bos] by (simp add: deposit_part_def)
    next
      case True
      then consider v n h where "open_time_deposit cfg env og v n h s = Ok t"
        | j where "claim_time_deposit cfg env og j s = Ok t"
        using bos by (cases x) auto
      then show ?thesis
        by cases (use d fresh in \<open>auto elim!: open_time_depositD claim_time_depositD
          simp: deposit_edge_def split: if_splits\<close>)
    qed
  qed
qed

interpretation loan_life: lifecycle loan_requests loan_edge "bank_step cfg"
  for cfg :: "'x bos_config"
proof
  fix s t :: "'x bos_state" and i l
  assume st: "bank_step cfg s t" and l: "loan_requests s i = Some l" "loan_requests t i \<noteq> Some l"
  have any: "any_step cfg s t" and fresh: "i \<noteq> next_loan_id s"
    using st l(1) by (auto simp: bank_step_def bank_inv_def loan_inv_def loans_ok_def ids_free_def)
  from any show "\<exists>l'. loan_requests t i = Some l' \<and> loan_edge l l'"
  proof (cases rule: any_step_books)
    case other
    with l show ?thesis by (simp add: loan_part_def)
  next
    case (bos env og x)
    show ?thesis
    proof (cases "touches x = Some Loans")
      case False
      with l show ?thesis using quiet(1)[OF bos] by (simp add: loan_part_def)
    next
      case True
      then consider a v where "pay_credit cfg og a v s = Ok t" | v k where "request_loan cfg env og v k s = Ok t"
        | j where "approve_loan cfg og j s = Ok t" | j where "cancel_loan_request cfg og j s = Ok t"
        using bos by (cases x) auto
      then show ?thesis
      proof cases
        case 1
        then show ?thesis
        proof (rule pay_creditD)
          fix b j x and m :: loan_request
          assume h: "0 < v" "loan_requests s j = Some m" "loan_status m = LoanActive"
            "loan_requests t = (loan_requests s)(j \<mapsto> m\<lparr>outstanding_balance := outstanding_balance m - v,
               loan_status := (if outstanding_balance m \<le> v then Repaid else LoanActive)\<rparr>)"
          have j: "j = i" "m = l" using l h(2,4) by (auto split: if_splits)
          show ?thesis
          proof (cases "outstanding_balance l \<le> v")
            case False
            let ?m = "l\<lparr>outstanding_balance := outstanding_balance l - v\<rparr>"
            have "loan_requests t i = Some ?m" using h j False by (cases l) simp
            moreover have "loan_edge l ?m"
              using h(1,3) j False unfolding loan_edge_def by (metis diff_less not_le not_less0 gr0I)
            ultimately show ?thesis by blast
          qed (use h j in \<open>simp add: loan_edge_def\<close>)
        qed
      qed (use l fresh in \<open>auto elim!: request_loanD approve_loanD cancel_loanD
          simp: loan_edge_def split: if_splits\<close>)
    qed
  qed
qed

end
