(* ===== verification/Bank_Of_Siberia_Claims.thy ===== *)
theory Bank_Of_Siberia_Claims
  imports Bank_Of_Siberia_Machine Migration_Center_Claims
begin

text \<open>The properties of the Bank of Siberia, with their instances on the book ledger.\<close>

section \<open>A concrete bank\<close>

text \<open>Accounts are encoded in unary, hashing is the identity, addresses are decoded from length and type byte;
  the server signs with its own key number followed by the payload.\<close>

definition book_bos :: "book bos_config" where
  "book_bos = \<lparr>central_bank = book_cfg, migration_center = toy_mc, bos_currency = book_currency 1, treasury = 50,
     bos_banking_origin = (\<lambda>_ og. og = Root), account_bytes = (\<lambda>a. replicate a 0 @ [1]),
     decode_account = (\<lambda>bs. Some (1000 + 10 * length bs + unat (bs ! (length bs - 5)))), blake2_256 = (\<lambda>bs. bs),
     account32 = Some, encode_payload = (\<lambda>(a, v, n). [of_nat a, of_nat v, of_nat n]),
     verify_signature = (\<lambda>sig p k. sig = of_nat k # p),
     perbill_from_rational = (\<lambda>n d. min (1000000000 * n div d) 1000000000),
     perbill_mul = (\<lambda>p x. p * x div 1000000000)\<rparr>"

definition bank_run where
  "bank_run cs = run (bank_dispatch book_bos) cs (bank_genesis book_bos [] book_start)"

definition bos :: "nat \<Rightarrow> origin \<Rightarrow> bos_call \<Rightarrow> env \<times> origin \<times> bank_call" where
  "bos b og c = (at_block b, og, BankOfSiberia c)"

text \<open>Citizens 7 and 8 are approved and open their accounts; the treasury receives 500 from citizen 7.\<close>

definition opened_bank :: "(env \<times> origin \<times> bank_call) list" where
  "opened_bank =
    [(at_block 3, Signed 7, MigrationCenter (SubmitApplication (toy_hash 1) (toy_hash 2))),
     (at_block 4, Signed 9, MigrationCenter (ClaimApplication 7 (replicate 64 9))),
     (at_block 6, Signed 9, MigrationCenter (FinalizeApplication 7 True (toy_hash 3))),
     bos 7 (Signed 7) OpenMasterAccount,
     bos 7 (Signed 7) (RepayCashAdvance 400)]"

lemma book_bos_simps:
  "central_bank book_bos = book_cfg" "migration_center book_bos = toy_mc" "bos_currency book_bos = book_currency 1"
  "treasury book_bos = 50" "bos_banking_origin book_bos x og = (og = Root)" "account32 book_bos a = Some a"
  "encode_payload book_bos (a, v, n) = [of_nat a, of_nat v, of_nat n]"
  "verify_signature book_bos sig p k = (sig = of_nat k # p)"
  "perbill_from_rational book_bos n d = min (1000000000 * n div d) 1000000000"
  "perbill_mul book_bos n v = n * v div 1000000000"
  by (simp_all add: book_bos_def)

lemma length_le_bytes [simp]: "length (le_bytes n x) = n"
  by (induction n arbitrary: x) auto

lemma book_derive: "derive_sub_account book_bos a ty 0 = Ok (1060 + 10 * a + unat (derivation_index ty))"
proof -
  let ?p = "(replicate a 0 @ [1]) @ derivation_index ty # le_bytes 4 0"
  have l: "length ?p = a + 6" "length ?p - 5 = length (replicate a (0 :: byte) @ [1])" by simp_all
  have "?p ! (length ?p - 5) = derivation_index ty" unfolding l(2) by (rule nth_append_length)
  then have "decode_account book_bos ?p = Some (1060 + 10 * a + unat (derivation_index ty))"
    unfolding book_bos_def using l(1) by (simp del: append_assoc)
  then show ?thesis
    unfolding derive_sub_account_def by (simp add: Let_def book_bos_def)
qed

lemma book_bos_limit: "credit_epoch_limit (central_bank book_bos) \<le> umax 128"
  using book_cfg_limit by (simp add: book_bos_def)

lemma book_bos_currency: "currency_ok (bos_currency book_bos)"
  by (simp add: book_bos_def book_currency_ok)

lemma bank_run_reachable:
  "reachable (bank_dispatch book_bos) (ledger_step P) (bank_genesis book_bos [] book_start) (bank_run cs)"
  unfolding bank_run_def by (rule reachable_run[OF reachable.start])

lemma bank_run_append: "bank_run (xs @ ys) = run (bank_dispatch book_bos) ys (bank_run xs)"
  by (simp add: bank_run_def run_append)

lemmas bank_eval = book_bos_simps book_derive bank_run_def opened_bank_def bos_def bank_genesis_def cb_state.defs
  bos_deposit_event_def bos_handler_defs pay_def ensure_sub_account_owner_def
  server_signed_def forget_sub_account_def current_block_def calculate_interest_def
  ANNUAL_RATE_BPS_def BLOCKS_PER_YEAR_def LOAN_LOCK_ID_def
  mc_deposit_event_def is_application_approved_def ensure_def

lemma opened_accounts: "bank_accounts (bank_run opened_bank) 7 \<noteq> None \<and> bal (ledger (bank_run opened_bank)) 50 = 400
   \<and> next_loan_id (bank_run opened_bank) = 0"
  by (simp add: bank_eval toy_eval book_eval)


lemma bank_reachable_inv:
  assumes "credit_epoch_limit (central_bank cfg) \<le> umax 128"
    and "reachable (bank_dispatch cfg) (ledger_step P) (bank_genesis cfg ops x0) s"
  shows "bank_inv cfg s"
  by (rule bankm.reachable_inv[OF assms(2) bank_inv_genesis[OF assms(1)]])

section \<open>Loans\<close>

text \<open>C2: The loan books agree. In every state the three pallets reach together (below the end of the
  identifier range) the index \<open>ActiveLoanByBorrower\<close> holds exactly the active loans, so a borrower has at
  most one; the collateral records are exactly those of the pending and active loans; and the outstanding
  balance of a loan fits its status (the full amount while pending, positive and at most the amount while
  active; no loan is ever in default).\<close>

theorem loan_books_agree:
  assumes lim: "credit_epoch_limit (central_bank cfg) \<le> umax 128"
    and r: "reachable (bank_dispatch cfg) (ledger_step P) (bank_genesis cfg ops x0) s"
    and ids: "next_loan_id s < umax 32"
  shows "(\<forall>b i. active_loan_by_borrower s b = Some i \<longleftrightarrow>
            (\<exists>l. loan_requests s i = Some l \<and> borrower l = b \<and> loan_status l = LoanActive))
    \<and> (\<forall>b i k. loan_collateral s (b, i) = Some k \<longleftrightarrow>
            (\<exists>l. loan_requests s i = Some l \<and> borrower l = b \<and> collateral l = k
               \<and> (loan_status l = Pending \<or> loan_status l = LoanActive)))
    \<and> (\<forall>i l. loan_requests s i = Some l \<longrightarrow> i < next_loan_id s \<and> loan_status l \<noteq> Default
          \<and> outstanding_balance l \<le> loan_amount l
          \<and> (loan_status l = Pending \<longrightarrow> outstanding_balance l = loan_amount l)
          \<and> (loan_status l = LoanActive \<longrightarrow> 0 < outstanding_balance l))"
proof -
  have "loans_ok s" using bank_reachable_inv[OF lim r] ids by (simp add: bank_inv_def loan_inv_def)
  then have ix: "index_ok s" and col: "collateral_ok s"
    and l: "\<And>i l. loan_requests s i = Some l \<Longrightarrow> i < next_loan_id s \<and> loan_ok l"
    by (auto simp: loans_ok_def)
  have "i < next_loan_id s \<and> loan_status l \<noteq> Default \<and> outstanding_balance l \<le> loan_amount l
      \<and> (loan_status l = Pending \<longrightarrow> outstanding_balance l = loan_amount l)
      \<and> (loan_status l = LoanActive \<longrightarrow> 0 < outstanding_balance l)" if "loan_requests s i = Some l" for i l
    using l[OF that] by (cases "loan_status l") (auto simp: loan_ok_def)
  with ix col show ?thesis unfolding index_ok_def collateral_ok_def by blast
qed

abbreviation loan_run where
  "loan_run \<equiv> bank_run (opened_bank @ [bos 8 (Signed 7) (OpenSubAccount Credit),
     bos 8 (Signed 7) (RequestLoan 300 200), bos 9 Root (ApproveLoan 0)])"

lemma loan_run_eval: "next_loan_id loan_run = 1 \<and> active_loan_by_borrower loan_run 7 = Some 0
   \<and> loan_requests loan_run 0 = Some \<lparr>borrower = 7, collateral = 200, loan_amount = 300, submitted_at = 8,
        loan_status = LoanActive, outstanding_balance = 300\<rparr>
   \<and> sub_account_meta loan_run 1131 = Some \<lparr>sub_master = 7, sub_type = Credit, sub_opened_at = 8\<rparr>"
  by (simp add: bank_eval toy_eval book_eval)

theorem loan_books_agree_witness:
  "\<exists>l. loan_requests loan_run 0 = Some l \<and> borrower l = 7 \<and> loan_status l = LoanActive \<and> 0 < outstanding_balance l"
proof -
  have "next_loan_id loan_run < umax 32" using loan_run_eval by (simp add: umax_def)
  note loan_books_agree[OF book_bos_limit bank_run_reachable this]
  then show ?thesis using loan_run_eval by metis
qed

text \<open>The life of a loan. Whatever the pallets do afterwards, a loan keeps its borrower, amount, collateral
  and date; its debt never grows; an active loan never goes back to pending; and a settled loan never changes
  again.\<close>

theorem loan_life_cycle:
  assumes lim: "credit_epoch_limit (central_bank cfg) \<le> umax 128"
    and s: "reachable (bank_dispatch cfg) (ledger_step P) (bank_genesis cfg ops x0) s"
    and t: "reachable (bank_dispatch cfg) (ledger_step P) s t" and ids: "ids_free t"
    and l: "loan_requests s i = Some l"
  shows "\<exists>l'. loan_requests t i = Some l' \<and> borrower l' = borrower l \<and> loan_amount l' = loan_amount l
    \<and> collateral l' = collateral l \<and> submitted_at l' = submitted_at l
    \<and> outstanding_balance l' \<le> outstanding_balance l
    \<and> (loan_status l = LoanActive \<longrightarrow> loan_status l' = LoanActive \<or> loan_status l' = Repaid)
    \<and> (loan_status l = Repaid \<longrightarrow> l' = l)"
proof -
  have "(bank_step cfg)\<^sup>*\<^sup>* s t" by (rule reachable_steps[OF t bank_reachable_inv[OF lim s] ids])
  from loan_life.steps_edges[OF this l] obtain l' where
    l': "loan_requests t i = Some l'" "loan_edge\<^sup>*\<^sup>* l l'" by blast
  from l'(2) have "borrower l' = borrower l \<and> loan_amount l' = loan_amount l
    \<and> collateral l' = collateral l \<and> submitted_at l' = submitted_at l
    \<and> outstanding_balance l' \<le> outstanding_balance l
    \<and> (loan_status l = LoanActive \<longrightarrow> loan_status l' = LoanActive \<or> loan_status l' = Repaid)
    \<and> (loan_status l = Repaid \<longrightarrow> l' = l)"
  proof (induction rule: rtranclp_induct)
    case (step m n)
    then show ?case by (auto simp: loan_edge_def)
  qed simp
  with l'(1) show ?thesis by blast
qed

theorem loan_life_cycle_witness:
  "\<exists>l'. loan_requests (run (bank_dispatch book_bos) [bos 10 (Signed 7) (PayCredit 1131 400)] loan_run) 0 = Some l'
     \<and> collateral l' = 200 \<and> (loan_status l' = LoanActive \<or> loan_status l' = Repaid)"
proof -
  let ?cs = "[bos 10 (Signed 7) (PayCredit 1131 400)]"
  obtain l where l: "loan_requests loan_run 0 = Some l" "collateral l = 200" "loan_status l = LoanActive"
    using loan_run_eval by auto
  have "ids_free (run (bank_dispatch book_bos) ?cs loan_run)"
    by (simp add: ids_free_def bank_eval toy_eval book_eval)
  from loan_life_cycle[OF book_bos_limit bank_run_reachable reachable_run[OF reachable.start] this l(1)] l
  show ?thesis by auto
qed

text \<open>Effect of a repayment. The payer is a master with a credit sub-account and an active loan; the
  treasury receives the whole payment and the payer is debited all of it, also what exceeds the debt; the debt
  falls to \<open>max 0 (debt - payment)\<close>, and a payment that covers it settles the loan and clears the index, the
  collateral record and the lock.\<close>

theorem pay_credit_effect:
  assumes cur: "currency_ok (bos_currency cfg)"
    and locks: "\<And>x i a b. free_balance (bos_currency cfg) (remove_lock (bos_currency cfg) x i a) b
                  = free_balance (bos_currency cfg) x b"
    and r: "pay_credit cfg og sub v s = Ok t" and other: "og \<noteq> Signed (treasury cfg)"
  shows "\<exists>b i l. og = Signed b \<and> active_loan_by_borrower s b = Some i \<and> loan_requests s i = Some l
    \<and> loan_status l = LoanActive
    \<and> free_balance (bos_currency cfg) (ledger t) (treasury cfg)
        = free_balance (bos_currency cfg) (ledger s) (treasury cfg) + v
    \<and> free_balance (bos_currency cfg) (ledger s) b = free_balance (bos_currency cfg) (ledger t) b + v
    \<and> (\<exists>l'. loan_requests t i = Some l' \<and> outstanding_balance l' = outstanding_balance l - v
         \<and> (if outstanding_balance l \<le> v
            then loan_status l' = Repaid \<and> active_loan_by_borrower t b = None \<and> loan_collateral t (b, i) = None
            else loan_status l' = LoanActive \<and> active_loan_by_borrower t b = Some i))"
  using r
proof (rule pay_creditD)
  fix b i x and l :: loan_request
  assume h: "og = Signed b" "active_loan_by_borrower s b = Some i" "loan_requests s i = Some l"
    "loan_status l = LoanActive" "transfer (bos_currency cfg) (ledger s) b (treasury cfg) v KeepAlive = Ok x"
    "loan_requests t = (loan_requests s)(i \<mapsto> l\<lparr>outstanding_balance := outstanding_balance l - v,
       loan_status := (if outstanding_balance l \<le> v then Repaid else LoanActive)\<rparr>)"
    "active_loan_by_borrower t = (if outstanding_balance l \<le> v
       then (active_loan_by_borrower s)(b := None) else active_loan_by_borrower s)"
    "loan_collateral t = (if outstanding_balance l \<le> v
       then (loan_collateral s)((b, i) := None) else loan_collateral s)"
    "ledger t = (if outstanding_balance l \<le> v then remove_lock (bos_currency cfg) x LOAN_LOCK_ID b else x)"
  have ne: "b \<noteq> treasury cfg" using h(1) other by simp
  have fb: "free_balance (bos_currency cfg) (ledger t) c = free_balance (bos_currency cfg) x c" for c
    using h(9) locks by simp
  have bal: "free_balance (bos_currency cfg) (ledger t) (treasury cfg)
        = free_balance (bos_currency cfg) (ledger s) (treasury cfg) + v
    \<and> free_balance (bos_currency cfg) (ledger s) b = free_balance (bos_currency cfg) (ledger t) b + v"
    using transfer_keepD(1)[OF cur h(5)] transfer_keepD(3)[OF cur h(5), of b]
      transfer_keepD(3)[OF cur h(5), of "treasury cfg"] ne by (simp add: fb)
  show ?thesis using h(1-4,6-8) bal by (intro exI[of _ b] exI[of _ i] exI[of _ l]) simp
qed

theorem pay_credit_effect_witness:
  "\<exists>t. pay_credit book_bos (Signed 7) 1131 400 loan_run = Ok t
     \<and> bal (ledger t) 50 = 500 \<and> active_loan_by_borrower t 7 = None"
proof -
  obtain t where t: "pay_credit book_bos (Signed 7) 1131 400 loan_run = Ok t"
    by (simp add: bank_eval toy_eval book_eval)
  have locks: "free_balance (bos_currency book_bos) (remove_lock (bos_currency book_bos) x i a) b
      = free_balance (bos_currency book_bos) x b" for x i a b
    by (simp add: book_bos_simps book_defs)
  have "free_balance (bos_currency book_bos) = bal" "treasury book_bos = 50" by (simp_all add: book_bos_simps book_defs)
  moreover have "bal (ledger loan_run) 50 = 100" by (simp add: bank_eval toy_eval book_eval)
  ultimately show ?thesis
    using pay_credit_effect[OF book_bos_currency locks t] loan_run_eval t by auto
qed

end
