(* ===== verification/Bank_Of_Siberia_Funds_Claims.thy ===== *)
theory Bank_Of_Siberia_Funds_Claims
  imports Bank_Of_Siberia_Claims
begin

text \<open>Properties of the bank's escrows, time deposits, server-signed payments, locks and wholesale credit.\<close>

section \<open>Escrows\<close>

lemma reachable_join:
  assumes st: "reachable d f r s" and t: "reachable d f s t"
  shows "reachable d f r t"
  using t by induction (use st in \<open>auto intro: reachable.call reachable.other\<close>)

lemma escrow_frozen:
  assumes "(bank_step cfg)\<^sup>*\<^sup>* s t" and e: "escrow_contracts s i = Some e"
  shows "\<exists>e'. escrow_contracts t i = Some e'
    \<and> (e' = e \<or> escrow_status e = Locked \<and> (e' = e\<lparr>escrow_status := Released\<rparr> \<or> e' = e\<lparr>escrow_status := Refunded\<rparr>))"
proof -
  from escrow_life.steps_edges[OF assms] obtain e' where
    e': "escrow_contracts t i = Some e'" "escrow_edge\<^sup>*\<^sup>* e e'" by blast
  from e'(2) have "e' = e \<or> escrow_status e = Locked \<and>
      (e' = e\<lparr>escrow_status := Released\<rparr> \<or> e' = e\<lparr>escrow_status := Refunded\<rparr>)"
  proof (induction rule: rtranclp_induct)
    case (step m n)
    then show ?case by (auto simp: escrow_edge_def)
  qed simp
  then show ?thesis using e'(1) by blast
qed

lemma escrow_never_again:
  assumes "(bank_step cfg)\<^sup>*\<^sup>* s t" and "escrow_contracts s i = Some e" and "escrow_status e \<noteq> Locked"
  shows "release_escrow cfg og i t \<noteq> Ok u \<and> refund_escrow cfg og i t \<noteq> Ok u"
  using escrow_frozen[OF assms(1,2)] assms(3) by (auto elim!: release_escrowD refund_escrowD)

text \<open>C4: Escrows settle once. A contract never changes its parties, amount and item; while it is locked it can
  become released or refunded; from then on it is frozen. A release or a refund that succeeds found the contract
  locked, moved exactly its amount from the treasury to the seller (the buyer, for a refund), left it released
  (refunded), and is the last: in every state reachable from its result, by calls of the pallet and moves of the
  ledger, both releasing and refunding the contract fail, whoever calls.\<close>

theorem escrow_settles_once:
  assumes lim: "credit_epoch_limit (central_bank cfg) \<le> umax 128"
    and s: "reachable (bank_dispatch cfg) (ledger_step P) (bank_genesis cfg ops x0) s"
    and t: "reachable (bank_dispatch cfg) (ledger_step P) s t" and ids: "ids_free t"
    and e: "escrow_contracts s i = Some e"
  shows "\<exists>e'. escrow_contracts t i = Some e'
    \<and> (e' = e \<or> escrow_status e = Locked \<and> (e' = e\<lparr>escrow_status := Released\<rparr> \<or> e' = e\<lparr>escrow_status := Refunded\<rparr>))
    \<and> (escrow_status e \<noteq> Locked \<longrightarrow>
         (\<forall>og u. release_escrow cfg og i t \<noteq> Ok u \<and> refund_escrow cfg og i t \<noteq> Ok u))
    \<and> (\<forall>og u. release_escrow cfg og i t = Ok u \<longrightarrow>
         escrow_status e = Locked \<and> e' = e \<and> escrow_contracts u i = Some (e\<lparr>escrow_status := Released\<rparr>)
         \<and> transfer (bos_currency cfg) (ledger t) (treasury cfg) (counterparty e) (escrow_amount e) AllowDeath
             = Ok (ledger u))
    \<and> (\<forall>og u. refund_escrow cfg og i t = Ok u \<longrightarrow>
         escrow_status e = Locked \<and> e' = e \<and> escrow_contracts u i = Some (e\<lparr>escrow_status := Refunded\<rparr>)
         \<and> transfer (bos_currency cfg) (ledger t) (treasury cfg) (depositor e) (escrow_amount e) AllowDeath
             = Ok (ledger u))
    \<and> (\<forall>og u v. release_escrow cfg og i t = Ok u \<or> refund_escrow cfg og i t = Ok u \<longrightarrow>
         reachable (bank_dispatch cfg) (ledger_step P) u v \<longrightarrow> ids_free v \<longrightarrow>
         (\<forall>og' w. release_escrow cfg og' i v \<noteq> Ok w \<and> refund_escrow cfg og' i v \<noteq> Ok w))"
proof -
  have inv: "bank_inv cfg s" by (rule bank_reachable_inv[OF lim s])
  have run: "(bank_step cfg)\<^sup>*\<^sup>* s t" by (rule reachable_steps[OF t inv ids])
  from escrow_frozen[OF run e] obtain e' where e': "escrow_contracts t i = Some e'"
    "e' = e \<or> escrow_status e = Locked \<and> (e' = e\<lparr>escrow_status := Released\<rparr> \<or> e' = e\<lparr>escrow_status := Refunded\<rparr>)"
    by blast
  have same: "escrow_status e = Locked \<and> e' = e" if "escrow_status e' = Locked" using e'(2) that by auto
  have rel: "escrow_status e = Locked \<and> e' = e \<and> escrow_contracts u i = Some (e\<lparr>escrow_status := Released\<rparr>)
      \<and> transfer (bos_currency cfg) (ledger t) (treasury cfg) (counterparty e) (escrow_amount e) AllowDeath = Ok (ledger u)"
    if "release_escrow cfg og i t = Ok u" for og u
    using that by (rule release_escrowD) (use e'(1) same in simp)
  have ref: "escrow_status e = Locked \<and> e' = e \<and> escrow_contracts u i = Some (e\<lparr>escrow_status := Refunded\<rparr>)
      \<and> transfer (bos_currency cfg) (ledger t) (treasury cfg) (depositor e) (escrow_amount e) AllowDeath = Ok (ledger u)"
    if "refund_escrow cfg og i t = Ok u" for og u
    using that by (rule refund_escrowD) (use e'(1) same in simp)
  have invt: "bank_inv cfg t" by (rule bank_reachable_inv[OF lim reachable_join[OF s t]])
  have last: "release_escrow cfg og' i v \<noteq> Ok w \<and> refund_escrow cfg og' i v \<noteq> Ok w"
    if u: "release_escrow cfg og i t = Ok u \<or> refund_escrow cfg og i t = Ok u"
      and v: "reachable (bank_dispatch cfg) (ledger_step P) u v" "ids_free v" for og u v og' w
  proof -
    have invu: "bank_inv cfg u"
      using u bankm.dispatch_inv[OF invt, of "(env, og, BankOfSiberia (ReleaseEscrow i))" u for env]
        bankm.dispatch_inv[OF invt, of "(env, og, BankOfSiberia (RefundEscrow i))" u for env] by auto
    obtain e1 where "escrow_contracts u i = Some e1" "escrow_status e1 \<noteq> Locked"
      using u rel[of og u] ref[of og u] by fastforce
    then show ?thesis by (rule escrow_never_again[OF reachable_steps[OF v(1) invu v(2)]])
  qed
  have "release_escrow cfg og i t \<noteq> Ok u \<and> refund_escrow cfg og i t \<noteq> Ok u" if "escrow_status e \<noteq> Locked" for og u
    by (rule escrow_never_again[OF run e that])
  then show ?thesis using e' rel ref last by (intro exI[of _ e'] conjI) blast+
qed

abbreviation escrow_run where
  "escrow_run \<equiv> bank_run (opened_bank @ [bos 8 (Signed 7) (CreateEscrow 8 100 (toy_hash 5)), bos 9 (Signed 7) (ReleaseEscrow 0)])"

lemma escrow_run_eval: "escrow_contracts escrow_run 0 = Some \<lparr>depositor = 7, counterparty = 8, escrow_amount = 100,
    item_hash = toy_hash 5, created_at = 8, escrow_status = Released\<rparr> \<and> bal (ledger escrow_run) 8 = 600"
  by (simp add: bank_eval toy_eval book_eval)

theorem escrow_settles_once_witness:
  "\<forall>u. refund_escrow book_bos (Signed 8) 0 (run (bank_dispatch book_bos) [bos 9 (Signed 8) (LockCollateral 10)] escrow_run) \<noteq> Ok u"
proof -
  let ?cs = "[bos 9 (Signed 8) (LockCollateral 10)]"
  obtain e where e: "escrow_contracts escrow_run 0 = Some e" "escrow_status e \<noteq> Locked"
    using escrow_run_eval by auto
  have "ids_free (run (bank_dispatch book_bos) ?cs escrow_run)"
    by (simp add: ids_free_def bank_eval toy_eval book_eval)
  from escrow_settles_once[OF book_bos_limit bank_run_reachable reachable_run[OF reachable.start] this e(1)] e(2)
  show ?thesis by blast
qed

text \<open>Who releases an escrow and who is paid. A release is signed by the buyer of a locked contract and
  credits the seller with exactly the contract's amount, taken from the treasury, which held at least that;
  nobody else's balance changes.\<close>

theorem escrow_release_pays_seller:
  assumes cur: "currency_ok (bos_currency cfg)" and r: "release_escrow cfg og i s = Ok t"
    and seller: "\<forall>e. escrow_contracts s i = Some e \<longrightarrow> counterparty e \<noteq> treasury cfg"
  shows "\<exists>e. escrow_contracts s i = Some e \<and> escrow_status e = Locked \<and> og = Signed (depositor e)
    \<and> escrow_contracts t i = Some (e\<lparr>escrow_status := Released\<rparr>)
    \<and> free_balance (bos_currency cfg) (ledger t) (counterparty e)
        = free_balance (bos_currency cfg) (ledger s) (counterparty e) + escrow_amount e
    \<and> escrow_amount e \<le> free_balance (bos_currency cfg) (ledger s) (treasury cfg)
    \<and> (\<forall>a. a \<noteq> counterparty e \<longrightarrow> a \<noteq> treasury cfg \<longrightarrow>
         free_balance (bos_currency cfg) (ledger t) a = free_balance (bos_currency cfg) (ledger s) a)"
  using r
proof (rule release_escrowD)
  fix e :: escrow_contract
  assume h: "escrow_contracts s i = Some e" "og = Signed (depositor e)" "escrow_status e = Locked"
    "transfer (bos_currency cfg) (ledger s) (treasury cfg) (counterparty e) (escrow_amount e) AllowDeath = Ok (ledger t)"
    "escrow_contracts t = (escrow_contracts s)(i \<mapsto> e\<lparr>escrow_status := Released\<rparr>)"
  have ne: "counterparty e \<noteq> treasury cfg" using seller h(1) by simp
  show ?thesis
    using h transfer_deathD(1)[OF cur h(4)] transfer_deathD(3)[OF cur h(4)] ne
    by (intro exI[of _ e]) auto
qed

theorem escrow_release_pays_seller_witness:
  "\<exists>t. release_escrow book_bos (Signed 7) 0 (bank_run (opened_bank @ [bos 8 (Signed 7) (CreateEscrow 8 100 (toy_hash 5))])) = Ok t
     \<and> bal (ledger t) 8 = 600"
proof -
  let ?s = "bank_run (opened_bank @ [bos 8 (Signed 7) (CreateEscrow 8 100 (toy_hash 5))])"
  obtain t where t: "release_escrow book_bos (Signed 7) 0 ?s = Ok t"
    by (simp add: bank_eval toy_eval book_eval)
  have e: "escrow_contracts ?s 0 = Some \<lparr>depositor = 7, counterparty = 8, escrow_amount = 100,
    item_hash = toy_hash 5, created_at = 8, escrow_status = Locked\<rparr>" "bal (ledger ?s) 8 = 500"
    by (simp_all add: bank_eval toy_eval book_eval)
  have "\<forall>e. escrow_contracts ?s 0 = Some e \<longrightarrow> counterparty e \<noteq> treasury book_bos"
    using e(1) by (simp add: book_bos_simps)
  from escrow_release_pays_seller[OF book_bos_currency t this] e t show ?thesis
    by (auto simp: book_bos_simps book_defs)
qed

section \<open>Time deposits\<close>

text \<open>Documented behaviour of \<open>Perbill\<close>: \<open>from_rational\<close> rounds down and saturates at one, the product is
  rounded to the nearest integer.\<close>

definition perbill_ok :: "'x bos_config \<Rightarrow> bool" where
  "perbill_ok cfg \<longleftrightarrow>
     (\<forall>n d. 0 < d \<longrightarrow> perbill_from_rational cfg n d \<le> 1000000000
        \<and> perbill_from_rational cfg n d * d \<le> 1000000000 * n
        \<and> (d \<le> n \<longrightarrow> perbill_from_rational cfg n d = 1000000000))
     \<and> (\<forall>p v. p \<le> 1000000000 \<longrightarrow> perbill_mul cfg p v \<le> v \<and> 2 * 1000000000 * perbill_mul cfg p v \<le> 2 * p * v + 1000000000)
     \<and> (\<forall>v. perbill_mul cfg 1000000000 v = v)"

text \<open>Interest is bounded. The interest of a deposit of at most \<open>u32\<close> blocks never exceeds the principal, is
  within half a planck of at most the pro-rated 5 percent a year, and is exactly the principal from twenty years on,
  where the fraction saturates.\<close>

theorem interest_bounds:
  assumes pb: "perbill_ok cfg" and dur: "m - a \<le> umax 32"
  shows "calculate_interest cfg v 500 a m \<le> v
    \<and> 2 * calculate_interest cfg v 500 a m * (10000 * 5256000) \<le> 2 * v * 500 * (m - a) + 10000 * 5256000
    \<and> (20 * 5256000 \<le> m - a \<longrightarrow> calculate_interest cfg v 500 a m = v)"
proof -
  let ?n = "500 * (m - a)" and ?d = "52560000000 :: nat"
  let ?p = "perbill_from_rational cfg ?n ?d"
  have small: "?n \<le> umax 64" using dur by (simp add: umax_def)
  have i: "calculate_interest cfg v 500 a m = perbill_mul cfg ?p v"
    using small by (simp add: calculate_interest_def Let_def sat_sub_def sat_mul_def BLOCKS_PER_YEAR_def umax_def)
  have p: "?p \<le> 1000000000" "?p * ?d \<le> 1000000000 * ?n" "?d \<le> ?n \<Longrightarrow> ?p = 1000000000"
  proof -
    have "0 < ?d" by simp
    from pb[unfolded perbill_ok_def, THEN conjunct1, rule_format, OF this, of ?n]
    show "?p \<le> 1000000000" "?p * ?d \<le> 1000000000 * ?n" "?d \<le> ?n \<Longrightarrow> ?p = 1000000000" by blast+
  qed
  have q: "perbill_mul cfg ?p v \<le> v" "2 * 1000000000 * perbill_mul cfg ?p v \<le> 2 * ?p * v + 1000000000"
    using pb p(1) unfolding perbill_ok_def by simp_all
  have "1000000000 * (2 * perbill_mul cfg ?p v * ?d) \<le> (2 * ?p * v + 1000000000) * ?d"
    using mult_le_mono1[OF q(2), of ?d] by (simp add: algebra_simps)
  also have "\<dots> = 2 * v * (?p * ?d) + 1000000000 * ?d" by (simp add: algebra_simps)
  also have "\<dots> \<le> 2 * v * (1000000000 * ?n) + 1000000000 * ?d" using p(2) by simp
  also have "\<dots> = 1000000000 * (2 * v * ?n + ?d)" by (simp add: algebra_simps)
  finally have "2 * perbill_mul cfg ?p v * ?d \<le> 2 * v * ?n + ?d" by simp
  moreover have "perbill_mul cfg ?p v = v" if "20 * 5256000 \<le> m - a"
    using p(3) that pb unfolding perbill_ok_def by simp
  ultimately show ?thesis using q(1) unfolding i by (simp add: algebra_simps)
qed

lemma book_perbill: "perbill_ok book_bos"
proof -
  have f: "perbill_from_rational book_bos n d \<le> 1000000000 \<and> perbill_from_rational book_bos n d * d \<le> 1000000000 * n
     \<and> (d \<le> n \<longrightarrow> perbill_from_rational book_bos n d = 1000000000)" if "0 < d" for n d
  proof -
    have "min (1000000000 * n div d) 1000000000 * d \<le> 1000000000 * n div d * d" by (intro mult_le_mono1) simp
    also have "\<dots> \<le> 1000000000 * n" by simp
    finally have "min (1000000000 * n div d) 1000000000 * d \<le> 1000000000 * n" .
    moreover have "1000000000 \<le> 1000000000 * n div d" if "d \<le> n"
      using div_le_mono[OF mult_le_mono2[OF that, of 1000000000], of d] \<open>0 < d\<close> by simp
    ultimately show ?thesis unfolding book_bos_simps by (simp add: min.absorb2)
  qed
  have m: "p * v div 1000000000 \<le> v \<and> 2 * 1000000000 * (p * v div 1000000000) \<le> 2 * p * v + 1000000000"
    if "p \<le> 1000000000" for p v :: nat
  proof -
    have "p * v div 1000000000 \<le> 1000000000 * v div 1000000000" using that by (intro div_le_mono mult_le_mono1)
    moreover have "1000000000 * (p * v div 1000000000) \<le> p * v" by simp
    ultimately show ?thesis by simp
  qed
  show ?thesis unfolding perbill_ok_def using f m by (simp add: book_bos_simps)
qed

theorem interest_bounds_witness:
  "calculate_interest book_bos 1000 500 0 (20 * 5256000) = 1000"
  using interest_bounds[OF book_perbill, of "20 * 5256000" 0 1000] by (simp add: umax_def)

text \<open>C6: A time deposit pays once, to its owner, at maturity. A successful claim is signed by the depositor,
  not before the maturity block, and credits principal and interest (no more than twice the principal); in
  every later state the deposit is frozen as claimed and claiming it again fails, whoever calls.\<close>

theorem deposit_pays_once:
  assumes lim: "credit_epoch_limit (central_bank cfg) \<le> umax 128"
    and cur: "currency_ok (bos_currency cfg)" and pb: "perbill_ok cfg"
    and s: "reachable (bank_dispatch cfg) (ledger_step P) (bank_genesis cfg ops x0) s"
    and r: "claim_time_deposit cfg env og i s = Ok t" and d: "time_deposits s i = Some d"
    and other: "deposit_owner d \<noteq> treasury cfg"
    and u: "reachable (bank_dispatch cfg) (ledger_step P) t u" and ids: "ids_free u"
  shows "og = Signed (deposit_owner d) \<and> deposit_status d = DepositActive \<and> maturity_block d \<le> current_block env
    \<and> (let paid = free_balance (bos_currency cfg) (ledger t) (deposit_owner d)
                    - free_balance (bos_currency cfg) (ledger s) (deposit_owner d)
       in min (deposit_amount d) (umax 128) \<le> paid \<and> paid \<le> 2 * deposit_amount d)
    \<and> time_deposits u i = Some (d\<lparr>deposit_status := Claimed\<rparr>)
    \<and> (\<forall>env' og' w. claim_time_deposit cfg env' og' i u \<noteq> Ok w)"
  using r
proof (rule claim_time_depositD)
  fix c :: time_deposit and total
  let ?I = "calculate_interest cfg (deposit_amount c) (interest_rate_bps c) (deposit_opened_at c) (maturity_block c)"
  assume h: "time_deposits s i = Some c" "og = Signed (deposit_owner c)" "deposit_status c = DepositActive"
    "maturity_block c \<le> current_block env" "total = sat_add 128 (deposit_amount c) ?I"
    "transfer (bos_currency cfg) (ledger s) (treasury cfg) (deposit_owner c) total AllowDeath = Ok (ledger t)"
    "time_deposits t = (time_deposits s)(i \<mapsto> c\<lparr>deposit_status := Claimed\<rparr>)"
  have c: "c = d" using h(1) d by simp
  have inv: "bank_inv cfg s" by (rule bank_reachable_inv[OF lim s])
  then have "interest_rate_bps d = 500" "maturity_block d \<le> umax 32"
    using d by (auto simp: bank_inv_def deposit_inv_def)
  then have "?I \<le> deposit_amount d" using interest_bounds[OF pb, of "maturity_block d" "deposit_opened_at d"] c by simp
  then have total: "min (deposit_amount d) (umax 128) \<le> total" "total \<le> 2 * deposit_amount d"
    using h(5) c by (simp_all add: sat_add_def)
  have paid: "free_balance (bos_currency cfg) (ledger t) (deposit_owner d)
      = free_balance (bos_currency cfg) (ledger s) (deposit_owner d) + total"
    using transfer_deathD(3)[OF cur h(6)] other c by simp
  have disp: "bank_dispatch cfg (env, og, BankOfSiberia (ClaimTimeDeposit i)) s = Ok t" using r by simp
  have "(bank_step cfg)\<^sup>*\<^sup>* t u" by (rule reachable_steps[OF u bankm.dispatch_inv[OF inv disp] ids])
  then have later: "time_deposits u i = Some (d\<lparr>deposit_status := Claimed\<rparr>)"
    by (rule deposit_life.final) (simp_all add: h(7) c deposit_edge_def)
  then have "claim_time_deposit cfg env' og' i u \<noteq> Ok w" for env' og' w
    by (auto elim!: claim_time_depositD)
  then show ?thesis using h(2-4) total paid later by (simp add: c Let_def)
qed

abbreviation deposit_run where
  "deposit_run \<equiv> bank_run (opened_bank @ [bos 8 (Signed 7) (OpenTimeDeposit 100 10 (toy_hash 6))])"

theorem deposit_pays_once_witness:
  "\<exists>t. claim_time_deposit book_bos (at_block 18) (Signed 7) 0 deposit_run = Ok t
     \<and> (\<forall>w. claim_time_deposit book_bos (at_block 19) (Signed 7) 0 t \<noteq> Ok w)"
proof -
  obtain t where t: "claim_time_deposit book_bos (at_block 18) (Signed 7) 0 deposit_run = Ok t" "ids_free t"
    by (simp add: bank_eval toy_eval book_eval ids_free_def)
  obtain d where d: "time_deposits deposit_run 0 = Some d" "deposit_owner d = 7"
    by (simp add: bank_eval toy_eval book_eval)
  then have "deposit_owner d \<noteq> treasury book_bos" by (simp add: book_bos_simps)
  from deposit_pays_once[OF book_bos_limit book_bos_currency book_perbill bank_run_reachable t(1) d(1) this
      reachable.start t(2)] t show ?thesis by blast
qed

end
