(* ===== verification/Bank_Of_Siberia_Safety_Claims.thy ===== *)
theory Bank_Of_Siberia_Safety_Claims
  imports Bank_Of_Siberia_Funds_Claims
begin

text \<open>Further properties of the bank: signed payments, locks and reserves, accounts, wholesale credit and the
  storage migration.\<close>

section \<open>Server-signed payments\<close>

lemma claim_cash_advanceD:
  assumes "claim_cash_advance cfg og v n sig s = Ok t"
  obtains a key key32 where "og = Signed a" "\<not> used_nonces s n" "bank_server_key s = Some key"
    "account32 cfg key = Some key32" "verify_signature cfg sig (encode_payload cfg (a, v, n)) key32"
    "transfer (bos_currency cfg) (ledger s) (treasury cfg) a v KeepAlive = Ok (ledger t)"
    "used_nonces t = (used_nonces s)(n := True)" "collateral_balances t = collateral_balances s"
  using assms by (auto simp: claim_cash_advance_def Let_def ok_simps)

lemma unlock_collateralD:
  assumes "unlock_collateral cfg og v n sig s = Ok t"
  obtains a key key32 where "og = Signed a" "0 < v" "\<not> used_nonces s n" "bank_server_key s = Some key"
    "account32 cfg key = Some key32" "verify_signature cfg sig (encode_payload cfg (a, v, n)) key32"
    "v \<le> collateral_balances s a"
    "transfer (bos_currency cfg) (ledger s) (treasury cfg) a v KeepAlive = Ok (ledger t)"
    "used_nonces t = (used_nonces s)(n := True)"
    "collateral_balances t = (collateral_balances s)(a := collateral_balances s a - v)"
  using assms by (auto simp: unlock_collateral_def Let_def ok_simps sat_sub_def)

lemma nonce_stays:
  assumes "any_step cfg s t" "used_nonces s n"
  shows "used_nonces t n"
  using assms(1)
proof (cases rule: any_step_books)
  case other
  with assms(2) show ?thesis by simp
next
  case (bos env og x)
  show ?thesis
  proof (cases x)
    case (PayCredit a v)
    with bos have "pay_credit cfg og a v s = Ok t" by simp
    then show ?thesis by (rule pay_creditD) (use assms(2) in simp)
  next
    case (BorrowWholesale v)
    with bos have "borrow_wholesale cfg og v s = Ok t \<or> repay_wholesale cfg og 0 v s = Ok t" by simp
    from wholesale_parts(5)[OF this] assms(2) show ?thesis by simp
  next
    case (RepayWholesale i v)
    with bos have "borrow_wholesale cfg og v s = Ok t \<or> repay_wholesale cfg og i v s = Ok t" by simp
    from wholesale_parts(5)[OF this] assms(2) show ?thesis by simp
  qed (use bos assms(2) in \<open>auto simp: bos_local_defs forget_sub_account_def Let_def ok_simps\<close>)
qed

interpretation noncem: pallet_machine "bank_dispatch cfg" "ledger_step P" "\<lambda>s. used_nonces s n"
  for cfg :: "'x bos_config" and P n
proof
  show "used_nonces t n" if "used_nonces s n" "bank_dispatch cfg c s = Ok t" for s t c
    using that nonce_stays unfolding any_step_def by blast
  show "used_nonces t n" if "used_nonces s n" "ledger_step P s t" for s t
    using that by (auto simp: ledger_step_def)
qed

text \<open>C8: Nonces are single-use across both signed calls. Once a nonce was used to claim a cash advance or to
  unlock collateral, it had not been used before, and in every later state no caller, amount or signature
  makes either call succeed with it.\<close>

theorem nonce_single_use:
  assumes r: "claim_cash_advance cfg og v n sig s = Ok t \<or> unlock_collateral cfg og v n sig s = Ok t"
    and u: "reachable (bank_dispatch cfg) (ledger_step P) t u"
  shows "\<not> used_nonces s n
    \<and> (\<forall>og' v' sig' w. claim_cash_advance cfg og' v' n sig' u \<noteq> Ok w \<and> unlock_collateral cfg og' v' n sig' u \<noteq> Ok w)"
proof -
  have "\<not> used_nonces s n \<and> used_nonces t n"
    using r by (auto elim: claim_cash_advanceD unlock_collateralD)
  moreover from this have "used_nonces u n" using noncem.reachable_inv[OF u] by blast
  ultimately show ?thesis by (auto elim: claim_cash_advanceD unlock_collateralD)
qed

abbreviation server_run where
  "server_run \<equiv> bank_run (opened_bank @ [bos 7 Root (SetBankServerKey 60), bos 8 (Signed 7) (LockCollateral 100)])"

lemma server_run_unlock: "\<exists>t. unlock_collateral book_bos (Signed 7) 30 4 [60, 7, 30, 4] server_run = Ok t"
  by (simp add: bank_eval toy_eval book_eval)

theorem nonce_single_use_witness:
  "\<exists>t. unlock_collateral book_bos (Signed 7) 30 4 [60, 7, 30, 4] server_run = Ok t
     \<and> (\<forall>sig w. claim_cash_advance book_bos (Signed 7) 30 4 sig t \<noteq> Ok w)"
proof -
  obtain t where t: "unlock_collateral book_bos (Signed 7) 30 4 [60, 7, 30, 4] server_run = Ok t"
    using server_run_unlock by blast
  from nonce_single_use[OF disjI2[OF t] reachable.start] t show ?thesis by blast
qed

text \<open>The two signed calls accept each other's signatures. What the server signs names only caller, amount
  and nonce: a signature that unlocks collateral also claims a cash advance, for which the caller receives the
  same payment but keeps the collateral; and one that grants a cash advance releases collateral.\<close>

theorem signature_serves_both_calls:
  shows "(unlock_collateral cfg (Signed a) v n sig s = Ok t \<longrightarrow>
      (\<exists>u. claim_cash_advance cfg (Signed a) v n sig s = Ok u \<and> ledger u = ledger t
         \<and> collateral_balances u = collateral_balances s
         \<and> collateral_balances t a + v = collateral_balances s a))
    \<and> (claim_cash_advance cfg (Signed a) v n sig s = Ok t \<and> 0 < v \<and> v \<le> collateral_balances s a \<longrightarrow>
      (\<exists>u. unlock_collateral cfg (Signed a) v n sig s = Ok u \<and> ledger u = ledger t))"
proof (intro conjI impI)
  assume "unlock_collateral cfg (Signed a) v n sig s = Ok t"
  then show "\<exists>u. claim_cash_advance cfg (Signed a) v n sig s = Ok u \<and> ledger u = ledger t
         \<and> collateral_balances u = collateral_balances s
         \<and> collateral_balances t a + v = collateral_balances s a"
    by (rule unlock_collateralD)
      (simp add: claim_cash_advance_def server_signed_def Let_def pay_def)
next
  assume h: "claim_cash_advance cfg (Signed a) v n sig s = Ok t \<and> 0 < v \<and> v \<le> collateral_balances s a"
  then have "claim_cash_advance cfg (Signed a) v n sig s = Ok t" by simp
  then show "\<exists>u. unlock_collateral cfg (Signed a) v n sig s = Ok u \<and> ledger u = ledger t"
    by (rule claim_cash_advanceD)
      (use h in \<open>simp add: unlock_collateral_def server_signed_def Let_def pay_def\<close>)
qed

theorem signature_serves_both_calls_witness:
  "\<exists>u. claim_cash_advance book_bos (Signed 7) 30 4 [60, 7, 30, 4] server_run = Ok u
     \<and> collateral_balances u 7 = 100"
proof -
  obtain t where t: "unlock_collateral book_bos (Signed 7) 30 4 [60, 7, 30, 4] server_run = Ok t"
    using server_run_unlock by blast
  have "collateral_balances server_run 7 = 100" by (simp add: bank_eval toy_eval book_eval)
  with signature_serves_both_calls[of book_bos 7 30 4 "[60, 7, 30, 4]" server_run t] t show ?thesis by force
qed

section \<open>Locks and reserves\<close>

text \<open>One lock for all loans. All collateral locks of a borrower share one identifier. A borrower who
  requests two loans and cancels the second is left with no lock at all (the ledger is that of removing the
  lock), although the first request is still pending and its collateral still on record.\<close>

theorem cancel_drops_other_lock:
  assumes law: "\<And>x v. remove_lock (bos_currency cfg) (set_lock (bos_currency cfg) x LOAN_LOCK_ID b v) LOAN_LOCK_ID b
                  = remove_lock (bos_currency cfg) x LOAN_LOCK_ID b"
    and acc: "bank_accounts s b \<noteq> None" and v: "0 < v" "0 < v'" and ids: "next_loan_id s < umax 32"
  shows "\<exists>t u w. request_loan cfg env (Signed b) v k s = Ok t
    \<and> request_loan cfg env (Signed b) v' k' t = Ok u
    \<and> cancel_loan_request cfg (Signed b) (next_loan_id t) u = Ok w
    \<and> (\<exists>l. loan_requests w (next_loan_id s) = Some l \<and> loan_status l = Pending \<and> borrower l = b)
    \<and> loan_collateral w (b, next_loan_id s) = Some k
    \<and> ledger w = remove_lock (bos_currency cfg) (ledger s) LOAN_LOCK_ID b"
proof -
  have n: "sat_add 32 (next_loan_id s) 1 = Suc (next_loan_id s)" using ids by (simp add: sat_add_def)
  then show ?thesis using acc v
    by (simp add: request_loan_def cancel_loan_request_def Let_def law)
qed

theorem cancel_drops_other_lock_witness:
  "\<exists>t u w. request_loan book_bos (at_block 8) (Signed 7) 300 500 (bank_run opened_bank) = Ok t
     \<and> request_loan book_bos (at_block 8) (Signed 7) 1 1 t = Ok u
     \<and> cancel_loan_request book_bos (Signed 7) (next_loan_id t) u = Ok w
     \<and> loan_collateral w (7, 0) = Some 500 \<and> lock_of (ledger w) 7 LOAN_LOCK_ID = None"
proof -
  have law: "remove_lock (bos_currency book_bos) (set_lock (bos_currency book_bos) x i a v) i a
      = remove_lock (bos_currency book_bos) x i a" for x i a v
    by (simp add: book_bos_simps book_defs)
  have o: "bank_accounts (bank_run opened_bank) 7 \<noteq> None" "next_loan_id (bank_run opened_bank) = 0"
    using opened_accounts by auto
  then have "next_loan_id (bank_run opened_bank) < umax 32" by (simp add: umax_def)
  from cancel_drops_other_lock[OF law o(1) _ _ this, of 300 1 "at_block 8" 500 1] o(2)
  obtain t u w where "request_loan book_bos (at_block 8) (Signed 7) 300 500 (bank_run opened_bank) = Ok t"
     "request_loan book_bos (at_block 8) (Signed 7) 1 1 t = Ok u"
     "cancel_loan_request book_bos (Signed 7) (next_loan_id t) u = Ok w"
     "loan_collateral w (7, 0) = Some 500"
     "ledger w = remove_lock (bos_currency book_bos) (ledger (bank_run opened_bank)) LOAN_LOCK_ID 7"
    by auto
  then show ?thesis
    by (intro exI[of _ t] exI[of _ u] exI[of _ w]) (simp add: book_bos_simps book_defs)
qed

text \<open>Escrowed funds are not reserved. Loans are paid from the treasury that holds the escrows, and approving
  one checks only the treasury's balance: when the balance does not cover loan and escrow together, approval
  succeeds nevertheless and afterwards the locked escrow can neither be released nor refunded.\<close>

theorem escrow_not_reserved:
  assumes cur: "currency_ok (bos_currency cfg)"
    and e: "escrow_contracts s i = Some e" and l: "loan_requests s j = Some l"
    and r: "approve_loan cfg og j s = Ok t" and b: "borrower l \<noteq> treasury cfg"
    and short: "free_balance (bos_currency cfg) (ledger s) (treasury cfg) < loan_amount l + escrow_amount e"
  shows "escrow_contracts t i = Some e
    \<and> (\<forall>og' u. release_escrow cfg og' i t \<noteq> Ok u \<and> refund_escrow cfg og' i t \<noteq> Ok u)"
  using r
proof (rule approve_loanD)
  fix m :: loan_request
  assume h: "loan_requests s j = Some m"
    "transfer (bos_currency cfg) (ledger s) (treasury cfg) (borrower m) (loan_amount m) KeepAlive = Ok (ledger t)"
  have m: "m = l" using h(1) l by simp
  have bal: "free_balance (bos_currency cfg) (ledger t) (treasury cfg) < escrow_amount e"
    using transfer_keepD(1)[OF cur h(2)] transfer_keepD(3)[OF cur h(2), of "treasury cfg"] b short m by auto
  have "bos_dispatch cfg (undefined, og, ApproveLoan j) s = Ok t" using r by simp
  from quiet(2)[OF this] have et: "escrow_contracts t i = Some e" using e by (simp add: escrow_part_def)
  have "\<not> transfer (bos_currency cfg) (ledger t) (treasury cfg) a (escrow_amount e) AllowDeath = Ok y" for a y
    using transfer_deathD(1)[OF cur] bal by fastforce
  then have "release_escrow cfg og' i t \<noteq> Ok u \<and> refund_escrow cfg og' i t \<noteq> Ok u" for og' u
    using et by (auto elim!: release_escrowD refund_escrowD)
  with et show ?thesis by blast
qed

abbreviation reserve_run where
  "reserve_run \<equiv> bank_run (opened_bank @ [bos 8 (Signed 7) (CreateEscrow 8 100 (toy_hash 5)), bos 8 (Signed 7) (RequestLoan 450 1)])"

theorem escrow_not_reserved_witness:
  "\<exists>t. approve_loan book_bos Root 0 reserve_run = Ok t \<and> (\<forall>u. release_escrow book_bos (Signed 7) 0 t \<noteq> Ok u)"
proof -
  obtain t where t: "approve_loan book_bos Root 0 reserve_run = Ok t"
    by (simp add: bank_eval toy_eval book_eval)
  obtain e l where el: "escrow_contracts reserve_run 0 = Some e" "loan_requests reserve_run 0 = Some l"
    "escrow_amount e = 100" "loan_amount l = 450" "borrower l = 7" "bal (ledger reserve_run) 50 = 500"
    by (simp add: bank_eval toy_eval book_eval)
  have "borrower l \<noteq> treasury book_bos"
    "free_balance (bos_currency book_bos) (ledger reserve_run) (treasury book_bos) < loan_amount l + escrow_amount e"
    using el by (simp_all add: book_bos_simps book_defs)
  from escrow_not_reserved[OF book_bos_currency el(1,2) t this] t show ?thesis by blast
qed

section \<open>Accounts\<close>

text \<open>The two sub-account indices agree. In every reachable state, if no two derivations collide, an address
  is listed under a master with a type exactly when its record names that master and type; the master has a
  bank account, and it has at most one sub-account of each type.\<close>

theorem sub_accounts_agree:
  assumes lim: "credit_epoch_limit (central_bank cfg) \<le> umax 128"
    and s: "reachable (bank_dispatch cfg) (ledger_step P) (bank_genesis cfg ops x0) s"
    and nc: "no_collisions cfg"
  shows "(\<forall>m a ty. sub_accounts s (m, a) = Some ty \<longleftrightarrow>
            (\<exists>r. sub_account_meta s a = Some r \<and> sub_master r = m \<and> sub_type r = ty))
    \<and> (\<forall>m a ty. sub_accounts s (m, a) = Some ty \<longrightarrow> bank_accounts s m \<noteq> None
          \<and> (\<forall>b. sub_accounts s (m, b) = Some ty \<longrightarrow> b = a))"
proof -
  have inv: "accounts_inv cfg s" using bank_reachable_inv[OF lim s] by (simp add: bank_inv_def)
  have iff: "sub_accounts s (m, a) = Some ty \<longleftrightarrow>
      (\<exists>r. sub_account_meta s a = Some r \<and> sub_master r = m \<and> sub_type r = ty)" for m a ty
    using inv nc unfolding accounts_inv_def by metis
  have "bank_accounts s m \<noteq> None" if "sub_accounts s (m, a) = Some ty" for m a ty
    using that iff inv unfolding accounts_inv_def by metis
  moreover have "b = a" if "sub_accounts s (m, a) = Some ty" "sub_accounts s (m, b) = Some ty" for m a b ty
    using that inv unfolding accounts_inv_def by (metis result.inject(1))
  ultimately show ?thesis using iff by blast
qed

theorem sub_accounts_agree_witness:
  "sub_accounts loan_run (7, 1131) = Some Credit \<and> bank_accounts loan_run 7 \<noteq> None"
proof -
  have "ty = ty'" if "unat (derivation_index ty) = unat (derivation_index ty')" for ty ty'
    using that by (cases ty; cases ty') auto
  moreover have "unat (derivation_index ty) < 10" for ty by (cases ty) auto
  moreover have "a = b \<and> i = j" if "10 * a + i = 10 * b + j" "i < 10" "j < 10" for a b i j :: nat
    using that by presburger
  ultimately have "no_collisions book_bos"
    unfolding no_collisions_def book_derive by (metis (no_types, lifting) add.assoc add_left_cancel result.inject(1))
  from sub_accounts_agree[OF book_bos_limit bank_run_reachable this] loan_run_eval show ?thesis by fastforce
qed

section \<open>Wholesale credit\<close>

text \<open>The wholesale calls rest on the central bank's \<open>credit_facility\<close> contract.\<close>

lemma wholesale_moves:
  assumes g: "cb_good (central_bank cfg) s"
    and r: "borrow_wholesale cfg og v s = Ok t \<or> repay_wholesale cfg og i v s = Ok t"
  shows "total_operator_debt t (treasury cfg) + genesis_credit_available t
           = total_operator_debt s (treasury cfg) + genesis_credit_available s
    \<and> (\<forall>b. b \<noteq> treasury cfg \<longrightarrow> total_operator_debt t b = total_operator_debt s b)"
  using r
proof
  assume "borrow_wholesale cfg og v s = Ok t"
  then show ?thesis
  proof (rule borrow_wholesaleD)
    fix u :: "'a bos_state"
    assume "do_request_credit (central_bank cfg) (treasury cfg) v s = Ok u" "credit_core t = credit_core u"
    with cbf.request_moves[OF g] show ?thesis by (fastforce simp: credit_core_def)
  qed
next
  assume "repay_wholesale cfg og i v s = Ok t"
  then show ?thesis
  proof (rule repay_wholesaleD)
    fix u :: "'a bos_state"
    assume "do_repay_credit (central_bank cfg) (treasury cfg) i v s = Ok u" "credit_core t = credit_core u"
    with cbf.repay_moves[OF g] show ?thesis by (fastforce simp: credit_core_def)
  qed
qed

text \<open>A call of the Bank of Siberia moves nothing in the credit books but through its treasury.\<close>

lemma bos_credit_books:
  assumes g: "cb_good (central_bank cfg) s" and d: "bos_dispatch cfg (env, og, c) s = Ok t"
  shows "total_operator_debt t (treasury cfg) + genesis_credit_available t
           = total_operator_debt s (treasury cfg) + genesis_credit_available s
    \<and> (\<forall>b. b \<noteq> treasury cfg \<longrightarrow> total_operator_debt t b = total_operator_debt s b)"
proof (cases "(\<exists>v. c = BorrowWholesale v) \<or> (\<exists>i v. c = RepayWholesale i v)")
  case True
  with d consider v where "borrow_wholesale cfg og v s = Ok t" | i v where "repay_wholesale cfg og i v s = Ok t" by auto
  then show ?thesis by cases (use wholesale_moves[OF g] in blast)+
next
  case False
  then have "credit_core t = credit_core s" using bos_frame(3)[OF d] by blast
  then show ?thesis by (simp add: credit_core_def)
qed

text \<open>C36: The bank draws on the pool through its treasury only. Over any sequence of calls to the Bank of
  Siberia, from any state the pallets reach, the treasury's wholesale debt and the pool's available credit add
  up to the same, and no other operator's debt changes.\<close>

theorem wholesale_conserved:
  assumes lim: "credit_epoch_limit (central_bank cfg) \<le> umax 128"
    and s: "reachable (bank_dispatch cfg) (ledger_step P) (bank_genesis cfg ops x0) s"
  shows "let t = run (bank_dispatch cfg) (map (\<lambda>(env, og, c). (env, og, BankOfSiberia c)) cs) s in
      total_operator_debt t (treasury cfg) + genesis_credit_available t
        = total_operator_debt s (treasury cfg) + genesis_credit_available s
    \<and> (\<forall>b. b \<noteq> treasury cfg \<longrightarrow> total_operator_debt t b = total_operator_debt s b)"
  using bank_reachable_inv[OF lim s]
proof (induction cs arbitrary: s)
  case Nil
  then show ?case by simp
next
  case (Cons c cs)
  obtain env og x where c: "c = (env, og, x)" by (cases c) auto
  let ?u = "execute (bank_dispatch cfg) (env, og, BankOfSiberia x) s"
  have good: "cb_good (central_bank cfg) s" using Cons.prems by (simp add: bank_inv_def)
  have "total_operator_debt ?u (treasury cfg) + genesis_credit_available ?u
           = total_operator_debt s (treasury cfg) + genesis_credit_available s
    \<and> (\<forall>b. b \<noteq> treasury cfg \<longrightarrow> total_operator_debt ?u b = total_operator_debt s b)"
    using bos_credit_books[OF good] by (cases "bos_dispatch cfg (env, og, x) s") (auto simp: execute_def)
  with Cons.IH[OF bankm.execute_inv[OF Cons.prems]] show ?case by (simp add: c Let_def)
qed

theorem wholesale_conserved_witness:
  "\<exists>t. t = run (bank_dispatch book_bos) [bos 8 Root (BorrowWholesale 70)]
         (bank_run [(at_block 3, Root, CentralBank (GrantOperatorLicense 50)), bos 4 (Signed 7) (RepayCashAdvance 10)])
     \<and> total_operator_debt t 50 = 70 \<and> total_operator_debt t 50 + genesis_credit_available t = 18900000000000000000000000"
proof -
  let ?s = "bank_run [(at_block 3, Root, CentralBank (GrantOperatorLicense 50)), bos 4 (Signed 7) (RepayCashAdvance 10)]"
  have "total_operator_debt ?s 50 + genesis_credit_available ?s = 18900000000000000000000000"
    "total_operator_debt (run (bank_dispatch book_bos) [bos 8 Root (BorrowWholesale 70)] ?s) 50 = 70"
    by (simp_all add: bank_eval toy_eval book_eval)
  moreover note wholesale_conserved[OF book_bos_limit bank_run_reachable,
      of "[(at_block 8, Root, BorrowWholesale 70)]"
         "[(at_block 3, Root, CentralBank (GrantOperatorLicense 50)), bos 4 (Signed 7) (RepayCashAdvance 10)]"]
  moreover have "map (\<lambda>(env, og, c). (env, og, BankOfSiberia c)) [(at_block 8, Root, BorrowWholesale 70)]
      = [bos 8 Root (BorrowWholesale 70)]" by (simp add: bos_def)
  ultimately show ?thesis unfolding Let_def book_bos_simps(4) by metis
qed

section \<open>The storage migration\<close>

lemma backfill_fold:
  assumes ok: "index_ok s" and l: "loan_requests s' = loan_requests s"
  shows "fold (backfill_one s') keys ix b =
    (if ix b \<noteq> None then ix b
     else case active_loan_by_borrower s b of None \<Rightarrow> None | Some i \<Rightarrow> if i \<in> set keys then Some i else None)"
proof (induction keys arbitrary: ix)
  case Nil
  then show ?case by (simp split: option.splits)
next
  case (Cons k keys)
  have "backfill_one s' k ix b =
      (if ix b \<noteq> None then ix b else if active_loan_by_borrower s b = Some k then Some k else None)"
    using ok l unfolding index_ok_def by (auto simp: backfill_one_def split: option.splits)
  then show ?case by (auto simp: Cons.IH split: option.splits)
qed

text \<open>The migration rebuilds the index. In a reachable state, dropping the index of active loans and running
  \<open>V2BackfillActiveLoanIndex\<close> over all stored loans, in whatever order the storage iterates, restores exactly
  the state; and on a state that has the index it changes nothing.\<close>

theorem backfill_restores_index:
  assumes lim: "credit_epoch_limit (central_bank cfg) \<le> umax 128"
    and s: "reachable (bank_dispatch cfg) (ledger_step P) (bank_genesis cfg ops x0) s"
    and ids: "next_loan_id s < umax 32" and keys: "set keys = dom (loan_requests s)"
  shows "backfill_active_loan_index keys (s\<lparr>active_loan_by_borrower := Map.empty\<rparr>) = s
    \<and> backfill_active_loan_index keys s = s"
proof -
  have ok: "index_ok s" using bank_reachable_inv[OF lim s] ids by (simp add: bank_inv_def loan_inv_def loans_ok_def)
  have dom: "i \<in> set keys" if "active_loan_by_borrower s b = Some i" for b i
    using that ok keys unfolding index_ok_def by (metis domI)
  have "fold (backfill_one s') keys Map.empty = active_loan_by_borrower s"
    "fold (backfill_one s') keys (active_loan_by_borrower s) = active_loan_by_borrower s"
    if "loan_requests s' = loan_requests s" for s' :: "'a bos_state"
    using backfill_fold[OF ok that, of keys] dom by (auto simp: fun_eq_iff split: option.splits)
  then show ?thesis by (simp add: backfill_active_loan_index_def)
qed

theorem backfill_restores_index_witness:
  "active_loan_by_borrower (backfill_active_loan_index [0] (loan_run\<lparr>active_loan_by_borrower := Map.empty\<rparr>)) 7 = Some 0"
proof -
  have "next_loan_id loan_run < umax 32" using loan_run_eval by (simp add: umax_def)
  moreover have "set [0] = dom (loan_requests loan_run)"
    by (auto simp: bank_eval toy_eval book_eval dom_def)
  ultimately have "backfill_active_loan_index [0] (loan_run\<lparr>active_loan_by_borrower := Map.empty\<rparr>) = loan_run"
    using backfill_restores_index[OF book_bos_limit bank_run_reachable] by blast
  then show ?thesis using loan_run_eval by simp
qed

end
