(* ===== verification/Altan_Tax.thy ===== *)
theory Altan_Tax
  imports Pallet_Interfaces Currency
begin

text \<open>
  \<^verbatim>\<open>pallets/altan-tax/src/lib.rs\<close>: transfers with the constitutional fee and its split. First the model, then
  its properties. \<open>'x\<close> is the ledger of the currency.
\<close>

section \<open>Model\<close>

datatype tax_event = FeeRouted account account balance balance balance balance balance

datatype tax_error = MathOverflow | TreasuriesNotInitialized

type_synonym tax_failure = "tax_error dispatch_error"

record 'x tax_state =
  tax_ledger :: 'x
  ag_treasury_account :: "account option"
  khural_foundation_account :: "account option"
  validator_pool_account :: "account option"
  nation_treasuries :: "account list"
  tax_events :: "tax_event list"

text \<open>The genesis build panics when more than 150 nation treasuries are given.\<close>

definition tax_genesis ::
  "account option \<Rightarrow> account option \<Rightarrow> account option \<Rightarrow> account list \<Rightarrow> 'x \<Rightarrow> ('x tax_state, tax_failure) result" where
  "tax_genesis ag khural validators nations x =
     ensure (length nations \<le> 150) Panic (
     Ok \<lparr>tax_ledger = x, ag_treasury_account = ag, khural_foundation_account = khural,
         validator_pool_account = validators, nation_treasuries = nations, tax_events = []\<rparr>)"

definition fee_cap :: balance where "fee_cap = 1000000000000000"

text \<open>\<open>x.checked_mul(a).and_then(|v| v.checked_div(b)).ok_or(MathOverflow)?\<close>\<close>

definition checked_share :: "balance \<Rightarrow> nat \<Rightarrow> nat \<Rightarrow> (balance \<Rightarrow> ('a, tax_failure) result) \<Rightarrow> ('a, tax_failure) result" where
  "checked_share x a b k =
     ok_or (Option.bind (checked_mul 128 x a) (\<lambda>v. checked_div v b)) (Module MathOverflow) k"

definition transfer_with_fee ::
  "('x, 'z) currency_scheme \<Rightarrow> origin \<Rightarrow> account \<Rightarrow> balance \<Rightarrow> 'x tax_state \<Rightarrow> ('x tax_state, tax_failure) result" where
  "transfer_with_fee cur og dest amount s =
     and_then (ensure_signed og) (\<lambda>sender.
     ok_or (ag_treasury_account s) (Module TreasuriesNotInitialized) (\<lambda>ag_account.
     ok_or (khural_foundation_account s) (Module TreasuriesNotInitialized) (\<lambda>khural_account.
     ok_or (validator_pool_account s) (Module TreasuriesNotInitialized) (\<lambda>validator_account.
     checked_share amount 3 10000 (\<lambda>raw_fee.
     let fee = min raw_fee fee_cap in
     ok_or (checked_add 128 amount fee) (Module MathOverflow) (\<lambda>_.
     checked_share fee 36 100 (\<lambda>ag_share.
     checked_share fee 10 100 (\<lambda>validator_share.
     ok_or (Option.bind (checked_sub fee ag_share) (\<lambda>v. checked_sub v validator_share)) (Module MathOverflow)
       (\<lambda>khural_share.
     and_then (map_err ThirdParty (transfer cur (tax_ledger s) sender dest amount KeepAlive)) (\<lambda>x1.
     and_then (map_err ThirdParty (transfer cur x1 sender ag_account ag_share KeepAlive)) (\<lambda>x2.
     and_then (map_err ThirdParty (transfer cur x2 sender validator_account validator_share KeepAlive)) (\<lambda>x3.
     and_then (map_err ThirdParty (transfer cur x3 sender khural_account khural_share KeepAlive)) (\<lambda>x4.
     Ok (s\<lparr>tax_ledger := x4, tax_events := tax_events s @
           [FeeRouted sender dest amount fee khural_share ag_share validator_share]\<rparr>))))))))))))))"

section \<open>The fee and its split\<close>

definition fee_of :: "balance \<Rightarrow> balance" where
  "fee_of amount = min (amount * 3 div 10000) fee_cap"

definition khural_part :: "balance \<Rightarrow> balance" where
  "khural_part fee = fee - fee * 36 div 100 - fee * 10 div 100"

lemma split_parts:
  "fee * 36 div 100 + fee * 10 div 100 + khural_part fee = fee"
  "54 * fee \<le> 100 * khural_part fee" "100 * khural_part fee < 54 * fee + 200"
proof -
  let ?a = "fee * 36 div 100" and ?v = "fee * 10 div 100"
  have a: "100 * ?a \<le> fee * 36" "fee * 36 < 100 * ?a + 100"
    and v: "100 * ?v \<le> fee * 10" "fee * 10 < 100 * ?v + 100" by linarith+
  from a v show "?a + ?v + khural_part fee = fee" "54 * fee \<le> 100 * khural_part fee"
    "100 * khural_part fee < 54 * fee + 200" unfolding khural_part_def by linarith+
qed

lemma four_debits:
  fixes b :: nat
  shows "b1 = b - p \<Longrightarrow> b2 = b1 - q \<Longrightarrow> b3 = b2 - r \<Longrightarrow> b4 = b3 - w \<Longrightarrow>
    p \<le> b \<Longrightarrow> q \<le> b1 \<Longrightarrow> r \<le> b2 \<Longrightarrow> w \<le> b3 \<Longrightarrow> b = b4 + p + (q + r + w)"
  by linarith

lemma checked_share_ok: "x * a \<le> umax 128 \<Longrightarrow> b \<noteq> 0 \<Longrightarrow> checked_share x a b k = k (x * a div b)"
  by (simp add: checked_share_def checked_mul_def checked_div_def)

lemma checked_share_overflow: "umax 128 < x * a \<Longrightarrow> checked_share x a b k = Err (Module MathOverflow)"
  by (simp add: checked_share_def checked_mul_def)

text \<open>Past the guards the call is four transfers of the fee's parts; nothing after the first multiplication
  overflows.\<close>

lemma transfer_with_fee_unfold:
  assumes "ag_treasury_account s = Some ag" "khural_foundation_account s = Some kh"
    "validator_pool_account s = Some va" "amount * 3 \<le> umax 128"
  shows "transfer_with_fee cur (Signed a) dest amount s =
    (let fee = fee_of amount in
     and_then (map_err ThirdParty (transfer cur (tax_ledger s) a dest amount KeepAlive)) (\<lambda>x1.
     and_then (map_err ThirdParty (transfer cur x1 a ag (fee * 36 div 100) KeepAlive)) (\<lambda>x2.
     and_then (map_err ThirdParty (transfer cur x2 a va (fee * 10 div 100) KeepAlive)) (\<lambda>x3.
     and_then (map_err ThirdParty (transfer cur x3 a kh (khural_part fee) KeepAlive)) (\<lambda>x4.
     Ok (s\<lparr>tax_ledger := x4, tax_events := tax_events s @
           [FeeRouted a dest amount fee (khural_part fee) (fee * 36 div 100) (fee * 10 div 100)]\<rparr>))))))"
proof -
  let ?f = "fee_of amount"
  have cap: "?f \<le> fee_cap" by (simp add: fee_of_def)
  then have small: "?f * 36 \<le> umax 128" "?f * 10 \<le> umax 128" by (simp_all add: fee_cap_def umax_def)
  have "?f \<le> amount" by (simp add: fee_of_def)
  then have "amount + ?f \<le> umax 128" using assms(4) by linarith
  then have add: "checked_add 128 amount ?f = Some (amount + ?f)" by (simp add: checked_add_def)
  have le: "?f * 36 div 100 \<le> ?f" "?f * 10 div 100 \<le> ?f - ?f * 36 div 100"
    using split_parts(1)[of ?f] by linarith+
  have sub: "Option.bind (checked_sub ?f (?f * 36 div 100)) (\<lambda>v. checked_sub v (?f * 10 div 100)) = Some (khural_part ?f)"
    using le by (simp add: checked_sub_def khural_part_def)
  show ?thesis
    unfolding transfer_with_fee_def ensure_signed.simps and_then_simps assms(1-3) ok_or_simps
      checked_share_ok[OF assms(4) numeral_neq_zero] Let_def fee_of_def[symmetric]
      add checked_share_ok[OF small(1) numeral_neq_zero] checked_share_ok[OF small(2) numeral_neq_zero] sub ..
qed

section \<open>Properties\<close>

text \<open>C37: Exclusive fee. A successful transfer credits the recipient with exactly the amount and debits the sender
  with amount plus fee, where the fee is 0.03 percent and at most 1,000 ALTAN; INOMAD AG gets 36 percent of it,
  the validators 10, both rounded down, and the Khural foundation the rest, which is at least 54 percent and
  less than two planck more; no other balance changes and no token is created or lost.\<close>

theorem transfer_with_fee_effect:
  assumes cur: "currency_ok cur" and r: "transfer_with_fee cur og dest amount s = Ok t"
    and treasuries: "ag_treasury_account s = Some ag" "khural_foundation_account s = Some kh"
      "validator_pool_account s = Some va"
    and og: "og = Signed a" and dist: "distinct [a, dest, ag, kh, va]"
  shows "let fee = min (amount * 3 div 10000) 1000000000000000;
             fb = (\<lambda>s. free_balance cur (tax_ledger s)) in
      fb t dest = fb s dest + amount
    \<and> fb s a = fb t a + amount + fee
    \<and> (\<exists>k. fb t kh = fb s kh + k \<and> fee * 36 div 100 + fee * 10 div 100 + k = fee
           \<and> 54 * fee \<le> 100 * k \<and> 100 * k < 54 * fee + 200)
    \<and> fb t ag = fb s ag + fee * 36 div 100 \<and> fb t va = fb s va + fee * 10 div 100
    \<and> (\<forall>b. b \<notin> {a, dest, ag, kh, va} \<longrightarrow> fb t b = fb s b)
    \<and> total_issuance cur (tax_ledger t) = total_issuance cur (tax_ledger s)"
proof -
  let ?f = "fee_of amount"
  have "amount * 3 \<le> umax 128"
  proof (rule ccontr)
    assume "\<not> amount * 3 \<le> umax 128"
    then have "umax 128 < amount * 3" by simp
    with r og treasuries show False by (simp add: transfer_with_fee_def checked_share_overflow)
  qed
  note r' = r[unfolded og transfer_with_fee_unfold[OF treasuries this] Let_def]
  then obtain x1 x2 x3 where
    x1: "transfer cur (tax_ledger s) a dest amount KeepAlive = Ok x1" and
    x2: "transfer cur x1 a ag (?f * 36 div 100) KeepAlive = Ok x2" and
    x3: "transfer cur x2 a va (?f * 10 div 100) KeepAlive = Ok x3" and
    x4: "transfer cur x3 a kh (khural_part ?f) KeepAlive = Ok (tax_ledger t)"
    by (auto simp: ok_simps)
  note fb = transfer_keepD(3)[OF cur x1] transfer_keepD(3)[OF cur x2] transfer_keepD(3)[OF cur x3]
    transfer_keepD(3)[OF cur x4]
  have ne: "a \<noteq> dest" "a \<noteq> ag" "a \<noteq> kh" "a \<noteq> va" "dest \<noteq> ag" "dest \<noteq> kh" "dest \<noteq> va" "ag \<noteq> kh" "ag \<noteq> va"
    "kh \<noteq> va" using dist by auto
  note le = transfer_keepD(1)[OF cur x1] transfer_keepD(1)[OF cur x2] transfer_keepD(1)[OF cur x3]
    transfer_keepD(1)[OF cur x4]
  have "free_balance cur (tax_ledger t) dest = free_balance cur (tax_ledger s) dest + amount"
    "free_balance cur (tax_ledger t) ag = free_balance cur (tax_ledger s) ag + ?f * 36 div 100"
    "free_balance cur (tax_ledger t) va = free_balance cur (tax_ledger s) va + ?f * 10 div 100"
    "free_balance cur (tax_ledger t) kh = free_balance cur (tax_ledger s) kh + khural_part ?f"
    "\<forall>b. b \<notin> {a, dest, ag, kh, va} \<longrightarrow> free_balance cur (tax_ledger t) b = free_balance cur (tax_ledger s) b"
    using fb by (simp_all add: ne ne[symmetric])
  moreover have "free_balance cur (tax_ledger s) a = free_balance cur (tax_ledger t) a + amount + ?f"
    using four_debits[OF _ _ _ _ le, of "free_balance cur (tax_ledger t) a"] unfolding fb split_parts(1)
    by (simp only: ne if_True if_False refl simp_thms)
  moreover have "total_issuance cur (tax_ledger t) = total_issuance cur (tax_ledger s)"
    using transfer_keepD(2)[OF cur x1] transfer_keepD(2)[OF cur x2] transfer_keepD(2)[OF cur x3]
      transfer_keepD(2)[OF cur x4] by simp
  ultimately show ?thesis
    using split_parts[of ?f] unfolding Let_def fee_cap_def[symmetric] fee_of_def[symmetric] by blast
qed

definition tax_start :: "book tax_state" where
  "tax_start = \<lparr>tax_ledger = \<lparr>bal = (\<lambda>_. 0)(1 := 2000000, 2 := 10, 3 := 10, 4 := 10, 5 := 10),
       issued = 2000040, lock_of = (\<lambda>_ _. None)\<rparr>,
     ag_treasury_account = Some 3, khural_foundation_account = Some 4, validator_pool_account = Some 5,
     nation_treasuries = [], tax_events = []\<rparr>"

theorem transfer_with_fee_effect_witness:
  "\<exists>t. transfer_with_fee (book_base 1) (Signed 1) 2 1000000 tax_start = Ok t
     \<and> bal (tax_ledger t) 2 = 1000010 \<and> bal (tax_ledger t) 3 = 118 \<and> bal (tax_ledger t) 1 = 999700"
proof -
  have tr: "ag_treasury_account tax_start = Some 3" "khural_foundation_account tax_start = Some 4"
    "validator_pool_account tax_start = Some 5" and "(1000000 :: nat) * 3 \<le> umax 128"
    by (simp_all add: tax_start_def umax_def)
  note u = transfer_with_fee_unfold[OF this]
  obtain t where t: "transfer_with_fee (book_base 1) (Signed 1) 2 1000000 tax_start = Ok t"
    unfolding u by (simp add: fee_of_def fee_cap_def khural_part_def tax_start_def book_defs Let_def)
  have "distinct [1 :: nat, 2, 3, 4, 5]" by simp
  from transfer_with_fee_effect[OF book_currency_ok(2) t tr refl this] t
  show ?thesis by (intro exI[of _ t]) (simp add: Let_def book_base_def tax_start_def)
qed

text \<open>When the fee transfer fails in the pallet. A signed transfer fails with \<open>TreasuriesNotInitialized\<close> exactly
  when one of the three treasuries is unset; otherwise with \<open>MathOverflow\<close> exactly when three times the amount
  exceeds \<open>u128\<close> (no later step of the fee arithmetic can overflow); any other failure is the currency's.\<close>

theorem transfer_with_fee_errors:
  fixes s :: "'x tax_state"
  shows "(transfer_with_fee cur (Signed a) dest amount s = Err (Module TreasuriesNotInitialized) \<longleftrightarrow>
           ag_treasury_account s = None \<or> khural_foundation_account s = None \<or> validator_pool_account s = None)
    \<and> (transfer_with_fee cur (Signed a) dest amount s = Err (Module MathOverflow) \<longleftrightarrow>
           ag_treasury_account s \<noteq> None \<and> khural_foundation_account s \<noteq> None \<and> validator_pool_account s \<noteq> None
           \<and> 2 ^ 128 \<le> amount * 3)
    \<and> transfer_with_fee cur (Signed a) dest amount s \<noteq> Err Panic"
proof (cases "ag_treasury_account s = None \<or> khural_foundation_account s = None \<or> validator_pool_account s = None")
  case True
  then have "transfer_with_fee cur (Signed a) dest amount s = Err (Module TreasuriesNotInitialized)"
    by (cases "ag_treasury_account s"; cases "khural_foundation_account s") (auto simp: transfer_with_fee_def)
  with True show ?thesis by auto
next
  case False
  then obtain ag kh va where tr: "ag_treasury_account s = Some ag" "khural_foundation_account s = Some kh"
    "validator_pool_account s = Some va" by auto
  show ?thesis
  proof (cases "amount * 3 \<le> umax 128")
    case True
    then have "\<not> 2 ^ 128 \<le> amount * 3" by (simp add: umax_def)
    with tr show ?thesis
      unfolding transfer_with_fee_unfold[OF tr True] Let_def by (auto simp: err_simps)
  next
    case False
    then have big: "umax 128 < amount * 3" "2 ^ 128 \<le> amount * 3" by (simp_all add: umax_def)
    have "transfer_with_fee cur (Signed a) dest amount s = Err (Module MathOverflow)"
      using tr checked_share_overflow[OF big(1)] by (simp add: transfer_with_fee_def)
    with big tr show ?thesis by simp
  qed
qed

theorem transfer_with_fee_errors_witness:
  "transfer_with_fee (book_base 1) (Signed 1) 2 (2 ^ 127) tax_start = Err (Module MathOverflow)"
  using transfer_with_fee_errors[of "book_base 1" 1 2 "2 ^ 127" tax_start] by (simp add: tax_start_def)

end
