(* ===== verification/Civil_Calendar.thy ===== *)
theory Civil_Calendar
  imports Main
begin

text \<open>
  The civil calendar the tax pallets count in: leap years, the days of a year, and the second (since January 1, 1970) at
  which a year begins. It is the specification their calendar arithmetic is compared with.
\<close>

definition leap_year :: "nat \<Rightarrow> bool" where
  "leap_year y \<longleftrightarrow> 4 dvd y \<and> (\<not> 100 dvd y \<or> 400 dvd y)"

definition days_in_year :: "nat \<Rightarrow> nat" where
  "days_in_year y = (if leap_year y then 366 else 365)"

definition days_before :: "nat \<Rightarrow> nat" where
  "days_before y = sum_list (map days_in_year [1970..<y])"

definition civil_year_start :: "nat \<Rightarrow> nat" where
  "civil_year_start y = 86400 * days_before y"

text \<open>The days of a year up to April 15.\<close>

definition april_15 :: "nat \<Rightarrow> nat" where
  "april_15 y = 31 + (if leap_year y then 29 else 28) + 31 + 15"

lemma days_in_year_pos: "0 < days_in_year y"
  by (simp add: days_in_year_def)

lemma days_before_1970 [simp]: "days_before 1970 = 0"
  by (simp add: days_before_def)

lemma days_before_next: "1970 \<le> y \<Longrightarrow> days_before (Suc y) = days_before y + days_in_year y"
  by (simp add: days_before_def)

lemma civil_next: "1970 \<le> y \<Longrightarrow> civil_year_start (Suc y) = civil_year_start y + 86400 * days_in_year y"
  by (simp add: civil_year_start_def days_before_next)

lemma days_before_mono: "1970 \<le> y \<Longrightarrow> y < z \<Longrightarrow> days_before y + days_in_year y \<le> days_before z"
proof (induction z)
  case 0
  then show ?case by simp
next
  case (Suc z)
  show ?case
  proof (cases "y = z")
    case True
    with Suc.prems show ?thesis by (simp add: days_before_next)
  next
    case False
    with Suc have "days_before y + days_in_year y \<le> days_before z" by simp
    also have "\<dots> \<le> days_before (Suc z)" using Suc.prems False by (simp add: days_before_next)
    finally show ?thesis .
  qed
qed

text \<open>A day belongs to one year.\<close>

lemma day_unique:
  assumes "1970 \<le> y" "1970 \<le> z" "r < days_in_year y" "q < days_in_year z" "days_before y + r = days_before z + q"
  shows "y = z \<and> r = q"
proof -
  have "\<not> y < z" using days_before_mono[of y z] assms by linarith
  moreover have "\<not> z < y" using days_before_mono[of z y] assms by linarith
  ultimately have "y = z" by simp
  with assms(5) show ?thesis by simp
qed

end
