(* ===== verification/Annual_Profit_Tax.thy ===== *)
theory Annual_Profit_Tax
  imports Pallet_Interfaces Currency Civil_Calendar
begin

text \<open>
  \<^verbatim>\<open>pallets/annual-profit-tax/src/lib.rs\<close>: the filing calendar, the penalties and the declaration of the annual
  profit. First the model, then its properties. The clock of \<open>pallet_timestamp\<close> is the argument \<open>now\<close>, in seconds.
\<close>

section \<open>The calendar and the penalties\<close>

definition SECONDS_PER_YEAR :: nat where "SECONDS_PER_YEAR = 31536000"
definition FILING_WINDOW_SECONDS :: nat where "FILING_WINDOW_SECONDS = 105 * 86400"
definition LATE_START_OFFSET_SECS :: nat where "LATE_START_OFFSET_SECS = 106 * 86400"
definition MAX_DAYS_LATE :: nat where "MAX_DAYS_LATE = 259"
definition PENI_DIVISOR :: nat where "PENI_DIVISOR = 36500"
definition PENI_NUMERATOR :: nat where "PENI_NUMERATOR = 5"
definition ANCHOR_YEAR :: nat where "ANCHOR_YEAR = 2026"
definition ANCHOR_TIMESTAMP :: nat where "ANCHOR_TIMESTAMP = 1735689600"

lemmas calendar_consts = SECONDS_PER_YEAR_def FILING_WINDOW_SECONDS_def LATE_START_OFFSET_SECS_def
  MAX_DAYS_LATE_def PENI_DIVISOR_def PENI_NUMERATOR_def ANCHOR_YEAR_def ANCHOR_TIMESTAMP_def

text \<open>A tax year is a \<open>u32\<close>, so none of the products and sums below reaches \<open>2 ^ 64\<close>.\<close>

type_synonym tax_year = nat

definition year_start_secs :: "tax_year \<Rightarrow> nat" where
  "year_start_secs y =
     (if y \<ge> ANCHOR_YEAR then ANCHOR_TIMESTAMP + (y - ANCHOR_YEAR) * SECONDS_PER_YEAR
      else sat_sub ANCHOR_TIMESTAMP ((ANCHOR_YEAR - y) * SECONDS_PER_YEAR))"

definition is_on_time :: "nat \<Rightarrow> tax_year \<Rightarrow> bool" where
  "is_on_time now y \<longleftrightarrow>
     (let start = year_start_secs y; close = start + FILING_WINDOW_SECONDS in now \<ge> start \<and> now \<le> close)"

definition current_year :: "nat \<Rightarrow> tax_year" where
  "current_year now =
     (let elapsed = (if now \<ge> ANCHOR_TIMESTAMP then (now - ANCHOR_TIMESTAMP) div SECONDS_PER_YEAR else 0)
      in (ANCHOR_YEAR + elapsed) mod 2 ^ 32)"

definition days_late :: "nat \<Rightarrow> tax_year \<Rightarrow> nat" where
  "days_late now y =
     (let late_start = year_start_secs y + LATE_START_OFFSET_SECS in
      if now < late_start then 0
      else min (sat_sub now late_start div 86400 + 1) MAX_DAYS_LATE)"

definition compute_peni :: "balance \<Rightarrow> nat \<Rightarrow> balance option" where
  "compute_peni base_tax days =
     (if days = 0 then Some 0
      else Option.bind (checked_mul 128 base_tax PENI_NUMERATOR) (\<lambda>v.
           Option.bind (checked_mul 128 v days) (\<lambda>v. checked_div v PENI_DIVISOR)))"

definition compute_shtraf :: "balance \<Rightarrow> balance option" where
  "compute_shtraf base_tax = Option.bind (checked_mul 128 base_tax 5) (\<lambda>v. checked_div v 100)"

section \<open>Storage and dispatchables\<close>

record profit_record =
  declared_profit :: balance
  base_tax :: balance
  shtraf :: balance
  peni :: balance
  total_paid :: balance
  regional_share :: balance
  confederation_share :: balance
  paid_at :: nat
  days_late_count :: nat
  large_family_rate :: bool

datatype profit_event =
    ProfitTaxPaid account tax_year balance balance balance balance balance balance balance nat bool
  | RegionalTreasuryUpdated account
  | ConfederationTreasuryUpdated account

datatype profit_error =
    TreasuriesNotInitialized
  | AlreadyDeclared
  | ZeroProfitDeclared
  | MathOverflow
  | FutureYearNotAllowed
  | YearBeforeGenesis
  | FilingDeadlineExpired

type_synonym profit_failure = "profit_error dispatch_error"

record 'x profit_config =
  profit_currency :: "'x currency"
  standard_tax_rate_permill :: nat
  large_family_tax_rate_permill :: nat

record 'x profit_state =
  profit_ledger :: 'x
  profit_declarations :: "account \<times> tax_year \<Rightarrow> profit_record option"
  regional_treasury :: "account option"
  confederation_treasury :: "account option"
  profit_events :: "profit_event list"

definition profit_genesis :: "account option \<Rightarrow> account option \<Rightarrow> 'x \<Rightarrow> 'x profit_state" where
  "profit_genesis regional confederation x =
     \<lparr>profit_ledger = x, profit_declarations = (\<lambda>_. None), regional_treasury = regional,
      confederation_treasury = confederation, profit_events = []\<rparr>"

definition declare_annual_profit ::
  "'x profit_config \<Rightarrow> nat \<Rightarrow> origin \<Rightarrow> tax_year \<Rightarrow> balance \<Rightarrow> bool \<Rightarrow> 'x profit_state
   \<Rightarrow> ('x profit_state, profit_failure) result" where
  "declare_annual_profit cfg now og year profit is_large_family s =
     and_then (ensure_signed og) (\<lambda>org.
     ok_or (regional_treasury s) (Module TreasuriesNotInitialized) (\<lambda>regional_account.
     ok_or (confederation_treasury s) (Module TreasuriesNotInitialized) (\<lambda>confed_account.
     ensure (profit > 0) (Module ZeroProfitDeclared) (
     ensure (year \<le> current_year now) (Module FutureYearNotAllowed) (
     ensure (year \<ge> 2026) (Module YearBeforeGenesis) (
     let year_end = year_start_secs year + SECONDS_PER_YEAR in
     ensure (now < year_end) (Module FilingDeadlineExpired) (
     ensure (profit_declarations s (org, year) = None) (Module AlreadyDeclared) (
     let rate_permill = (if is_large_family then large_family_tax_rate_permill cfg
                         else standard_tax_rate_permill cfg) in
     ok_or (Option.bind (checked_mul 128 profit rate_permill) (\<lambda>v. checked_div v 1000)) (Module MathOverflow) (\<lambda>base.
     let days = days_late now year; on_time = (days = 0) in
     ok_or (if \<not> on_time then compute_shtraf base else Some 0) (Module MathOverflow) (\<lambda>fine.
     ok_or (compute_peni base days) (Module MathOverflow) (\<lambda>accrued.
     ok_or (Option.bind (checked_add 128 base fine) (\<lambda>v. checked_add 128 v accrued)) (Module MathOverflow) (\<lambda>total.
     ok_or (Option.bind (checked_mul 128 total 70) (\<lambda>v. checked_div v 100)) (Module MathOverflow) (\<lambda>regional.
     ok_or (checked_sub total regional) (Module MathOverflow) (\<lambda>confed.
     and_then (map_err ThirdParty
       (transfer (profit_currency cfg) (profit_ledger s) org regional_account regional KeepAlive)) (\<lambda>x1.
     and_then (map_err ThirdParty
       (transfer (profit_currency cfg) x1 org confed_account confed KeepAlive)) (\<lambda>x2.
     let r = \<lparr>declared_profit = profit, base_tax = base, shtraf = fine, peni = accrued, total_paid = total,
              regional_share = regional, confederation_share = confed, paid_at = now, days_late_count = days,
              large_family_rate = is_large_family\<rparr>
     in Ok (s\<lparr>profit_ledger := x2,
              profit_declarations := (profit_declarations s)((org, year) \<mapsto> r),
              profit_events := profit_events s @
                [ProfitTaxPaid org year profit base fine accrued total regional confed days is_large_family]\<rparr>)))))))))))))))))"

definition set_regional_treasury ::
  "origin \<Rightarrow> account \<Rightarrow> 'x profit_state \<Rightarrow> ('x profit_state, profit_failure) result" where
  "set_regional_treasury og a s =
     and_then (ensure_root og) (\<lambda>_.
     Ok (s\<lparr>regional_treasury := Some a, profit_events := profit_events s @ [RegionalTreasuryUpdated a]\<rparr>))"

definition set_confederation_treasury ::
  "origin \<Rightarrow> account \<Rightarrow> 'x profit_state \<Rightarrow> ('x profit_state, profit_failure) result" where
  "set_confederation_treasury og a s =
     and_then (ensure_root og) (\<lambda>_.
     Ok (s\<lparr>confederation_treasury := Some a, profit_events := profit_events s @ [ConfederationTreasuryUpdated a]\<rparr>))"

datatype profit_call =
    DeclareAnnualProfit tax_year balance bool
  | SetRegionalTreasury account
  | SetConfederationTreasury account

fun profit_dispatch ::
  "'x profit_config \<Rightarrow> nat \<times> origin \<times> profit_call \<Rightarrow> 'x profit_state \<Rightarrow> ('x profit_state, profit_failure) result" where
  "profit_dispatch cfg (now, og, DeclareAnnualProfit y v b) s = declare_annual_profit cfg now og y v b s"
| "profit_dispatch cfg (now, og, SetRegionalTreasury a) s = set_regional_treasury og a s"
| "profit_dispatch cfg (now, og, SetConfederationTreasury a) s = set_confederation_treasury og a s"

section \<open>The calendar\<close>

lemma year_start_later: "year_start_secs (2026 + k) = ANCHOR_TIMESTAMP + k * SECONDS_PER_YEAR"
  by (simp add: year_start_secs_def ANCHOR_YEAR_def)

text \<open>At any time exactly one tax year is open.\<close>

lemma open_year:
  assumes "year \<le> current_year now" "2026 \<le> year" "now < year_start_secs year + SECONDS_PER_YEAR" "year \<le> umax 32"
  shows "year = current_year now"
proof -
  let ?e = "if now \<ge> ANCHOR_TIMESTAMP then (now - ANCHOR_TIMESTAMP) div SECONDS_PER_YEAR else 0"
  obtain k where k: "year = 2026 + k" using assms(2) le_Suc_ex by blast
  have "?e \<le> k"
  proof (cases "now \<ge> ANCHOR_TIMESTAMP")
    case True
    have "now - ANCHOR_TIMESTAMP < Suc k * SECONDS_PER_YEAR"
      using assms(3) True unfolding k year_start_later by (simp add: less_diff_conv2)
    then have "(now - ANCHOR_TIMESTAMP) div SECONDS_PER_YEAR < Suc k"
      by (rule less_mult_imp_div_less)
    with True show ?thesis by simp
  qed simp
  then have e: "2026 + ?e \<le> year" using k by simp
  then have "2026 + ?e < 2 ^ 32" using assms(4) by (simp add: umax_def)
  then have "current_year now = 2026 + ?e" by (simp add: current_year_def Let_def ANCHOR_YEAR_def)
  with e assms(1) show ?thesis by simp
qed

lemma civil_2025: "civil_year_start 2025 = ANCHOR_TIMESTAMP"
  by (simp add: civil_year_start_def days_before_def days_in_year_def leap_year_def ANCHOR_TIMESTAMP_def upt_conv_Cons dvd_eq_mod_eq_0)

lemma civil_later: "civil_year_start 2025 + k * SECONDS_PER_YEAR \<le> civil_year_start (2025 + k)"
proof (induction k)
  case 0
  then show ?case by simp
next
  case (Suc k)
  have "civil_year_start (2025 + k) + SECONDS_PER_YEAR \<le> civil_year_start (2025 + Suc k)"
    using civil_next[of "2025 + k"] by (simp add: days_in_year_def SECONDS_PER_YEAR_def split: if_splits)
  with Suc show ?case by simp
qed

section \<open>Properties\<close>

text \<open>The filing calendar is a year early and its fine starts a day late. The anchor documented as the start of 2026
  is the start of 2025; so for every tax year from 2026 on, the last second in which the code accepts a
  declaration lies before the civil year even begins. And the 106th day of the window, April 16 in the
  documentation, still carries no fine although it lies outside the on-time window.\<close>

theorem filing_window_early:
  "civil_year_start 2025 = year_start_secs 2026
   \<and> (\<forall>y \<ge> 2026. year_start_secs y + SECONDS_PER_YEAR \<le> civil_year_start y)
   \<and> (\<forall>y now. year_start_secs y + 105 * 86400 < now \<and> now < year_start_secs y + 106 * 86400 \<longrightarrow>
        \<not> is_on_time now y \<and> days_late now y = 0)"
proof (intro conjI allI impI)
  show "civil_year_start 2025 = year_start_secs 2026"
    by (simp add: civil_2025 year_start_secs_def ANCHOR_YEAR_def)
next
  fix y :: nat assume "2026 \<le> y"
  then obtain k where k: "y = 2026 + k" using le_Suc_ex by blast
  have "2026 + k = 2025 + Suc k" by simp
  then show "year_start_secs y + SECONDS_PER_YEAR \<le> civil_year_start y"
    unfolding k using civil_later[of "Suc k"] by (simp add: year_start_later civil_2025)
next
  fix y now assume "year_start_secs y + 105 * 86400 < now \<and> now < year_start_secs y + 106 * 86400"
  then show "\<not> is_on_time now y" "days_late now y = 0"
    by (simp_all add: is_on_time_def days_late_def Let_def FILING_WINDOW_SECONDS_def LATE_START_OFFSET_SECS_def)
qed

theorem filing_window_early_witness:
  "year_start_secs 2026 + SECONDS_PER_YEAR \<le> civil_year_start 2026
   \<and> days_late (ANCHOR_TIMESTAMP + 105 * 86400 + 1) 2026 = 0"
proof
  show "year_start_secs 2026 + SECONDS_PER_YEAR \<le> civil_year_start 2026"
    using filing_window_early[THEN conjunct2, THEN conjunct1] by simp
  show "days_late (ANCHOR_TIMESTAMP + 105 * 86400 + 1) 2026 = 0"
    using filing_window_early[THEN conjunct2, THEN conjunct2, rule_format, of 2026 "ANCHOR_TIMESTAMP + 105 * 86400 + 1"]
    by (simp add: year_start_secs_def ANCHOR_YEAR_def)
qed

section \<open>A declaration\<close>

definition profit_rate :: "'x profit_config \<Rightarrow> bool \<Rightarrow> nat" where
  "profit_rate cfg large = (if large then large_family_tax_rate_permill cfg else standard_tax_rate_permill cfg)"

definition assessed :: "'x profit_config \<Rightarrow> nat \<Rightarrow> tax_year \<Rightarrow> balance \<Rightarrow> bool \<Rightarrow> profit_record \<Rightarrow> bool" where
  "assessed cfg now year profit large r \<longleftrightarrow>
     declared_profit r = profit \<and> base_tax r = profit * profit_rate cfg large div 1000
   \<and> shtraf r = (if days_late now year = 0 then 0 else base_tax r * 5 div 100)
   \<and> peni r = base_tax r * 5 * days_late now year div 36500
   \<and> total_paid r = base_tax r + shtraf r + peni r
   \<and> regional_share r = total_paid r * 70 div 100 \<and> confederation_share r = total_paid r - regional_share r
   \<and> paid_at r = now \<and> days_late_count r = days_late now year \<and> large_family_rate r = large"

lemma compute_peniD: "compute_peni base days = Some v \<Longrightarrow> v = base * 5 * days div 36500"
  by (auto simp: compute_peni_def checked_defs calendar_consts split: if_splits Option.bind_splits)

lemma compute_shtrafD: "compute_shtraf base = Some v \<Longrightarrow> v = base * 5 div 100"
  by (auto simp: compute_shtraf_def checked_defs split: if_splits Option.bind_splits)

lemma declare_annual_profitD:
  assumes "declare_annual_profit cfg now og year profit large s = Ok t"
  obtains org reg con x r where
    "og = Signed org" "regional_treasury s = Some reg" "confederation_treasury s = Some con"
    "0 < profit" "year \<le> current_year now" "2026 \<le> year" "now < year_start_secs year + SECONDS_PER_YEAR"
    "profit_declarations s (org, year) = None" "assessed cfg now year profit large r"
    "transfer (profit_currency cfg) (profit_ledger s) org reg (regional_share r) KeepAlive = Ok x"
    "transfer (profit_currency cfg) x org con (confederation_share r) KeepAlive = Ok (profit_ledger t)"
    "profit_declarations t = (profit_declarations s)((org, year) \<mapsto> r)"
    "regional_treasury t = regional_treasury s" "confederation_treasury t = confederation_treasury s"
proof -
  let ?d = "days_late now year"
  let ?rate = "if large then large_family_tax_rate_permill cfg else standard_tax_rate_permill cfg"
  from assms obtain org reg con base fine accrued total regional confed x1 x2 where
    *: "og = Signed org" "regional_treasury s = Some reg" "confederation_treasury s = Some con"
    "0 < profit" "year \<le> current_year now" "2026 \<le> year" "now < year_start_secs year + SECONDS_PER_YEAR"
    "profit_declarations s (org, year) = None" and
    b: "Option.bind (checked_mul 128 profit ?rate) (\<lambda>v. checked_div v 1000) = Some base" and
    f: "(if ?d \<noteq> 0 then compute_shtraf base else Some 0) = Some fine" and
    p: "compute_peni base ?d = Some accrued" and
    tot: "Option.bind (checked_add 128 base fine) (\<lambda>v. checked_add 128 v accrued) = Some total" and
    reg: "Option.bind (checked_mul 128 total 70) (\<lambda>v. checked_div v 100) = Some regional" and
    con: "checked_sub total regional = Some confed" and
    x: "transfer (profit_currency cfg) (profit_ledger s) org reg regional KeepAlive = Ok x1" and
    y: "transfer (profit_currency cfg) x1 org con confed KeepAlive = Ok x2" and
    t: "Ok (s\<lparr>profit_ledger := x2, profit_declarations := (profit_declarations s)((org, year) \<mapsto>
        \<lparr>declared_profit = profit, base_tax = base, shtraf = fine, peni = accrued, total_paid = total,
         regional_share = regional, confederation_share = confed,
         paid_at = now, days_late_count = ?d, large_family_rate = large\<rparr>),
        profit_events := profit_events s @
          [ProfitTaxPaid org year profit base fine accrued total regional confed ?d large]\<rparr>) = (Ok t :: (_, profit_failure) result)"
    unfolding declare_annual_profit_def Let_def ok_simps
    by (elim exE conjE) (rule that; assumption)
  have base: "base = profit * profit_rate cfg large div 1000"
    using b unfolding profit_rate_def bind_eq_Some_conv checked_mul_def checked_div_def by (auto split: if_splits)
  have fine: "fine = (if ?d = 0 then 0 else base * 5 div 100)"
    using f compute_shtrafD[of base fine] by (auto split: if_splits)
  have accrued: "accrued = base * 5 * ?d div 36500" by (rule compute_peniD[OF p])
  have total: "total = base + fine + accrued"
    using tot unfolding bind_eq_Some_conv checked_add_def by (auto split: if_splits)
  have regional: "regional = total * 70 div 100"
    using reg unfolding bind_eq_Some_conv checked_mul_def checked_div_def by (auto split: if_splits)
  have confed: "confed = total - regional"
    using con unfolding checked_sub_def by (auto split: if_splits)
  note s = t[unfolded result.inject, symmetric]
  show thesis
    by (rule that[OF *, where r = "\<lparr>declared_profit = profit, base_tax = base, shtraf = fine, peni = accrued,
        total_paid = total, regional_share = regional, confederation_share = confed,
        paid_at = now, days_late_count = ?d, large_family_rate = large\<rparr>"])
      (simp_all only: s x y assessed_def profit_record.select_convs profit_state.simps fine[symmetric] base[symmetric]
        accrued[symmetric] total[symmetric] regional[symmetric] confed[symmetric] simp_thms, simp_all add: y)
qed

lemma assessed_sums:
  assumes "assessed cfg now year profit large r"
  shows "regional_share r + confederation_share r = total_paid r" "base_tax r \<le> total_paid r"
    "36500 * total_paid r \<le> 39620 * base_tax r"
proof -
  note a = assms[unfolded assessed_def]
  show "regional_share r + confederation_share r = total_paid r" "base_tax r \<le> total_paid r" using a by linarith+
  have "days_late now year \<le> 259" by (simp add: days_late_def Let_def MAX_DAYS_LATE_def)
  then have "base_tax r * 5 * days_late now year \<le> base_tax r * 5 * 259" by (rule mult_le_mono2)
  moreover have "36500 * peni r \<le> base_tax r * 5 * days_late now year" using a by (simp add: mult.commute)
  ultimately have p: "36500 * peni r \<le> 1295 * base_tax r" by linarith
  have "100 * shtraf r \<le> 5 * base_tax r" using a by (cases "days_late now year = 0") auto
  moreover have "total_paid r = base_tax r + shtraf r + peni r" using a by blast
  ultimately show "36500 * total_paid r \<le> 39620 * base_tax r" using p by linarith
qed

section \<open>Declarations are final\<close>

definition profit_ledger_step :: "'x profit_state \<Rightarrow> 'x profit_state \<Rightarrow> bool" where
  "profit_ledger_step s t \<longleftrightarrow> (\<exists>x. t = s\<lparr>profit_ledger := x\<rparr>)"

lemma profit_dispatch_declarations:
  assumes "profit_dispatch cfg c s = Ok t"
  shows "profit_declarations s \<subseteq>\<^sub>m profit_declarations t"
proof -
  obtain now og call where c: "c = (now, og, call)" by (cases c) auto
  show ?thesis
  proof (cases call)
    case (DeclareAnnualProfit y v b)
    with assms c have "declare_annual_profit cfg now og y v b s = Ok t" by simp
    then show ?thesis by (rule declare_annual_profitD) (auto simp: map_le_def)
  qed (use assms c in \<open>auto simp: set_regional_treasury_def set_confederation_treasury_def ok_simps\<close>)
qed

interpretation profit_life: lifecycle profit_declarations "\<lambda>_ _. False" "machine_step (profit_dispatch cfg) profit_ledger_step"
  for cfg :: "'x profit_config"
proof
  fix s t :: "'x profit_state" and k r
  assume st: "machine_step (profit_dispatch cfg) profit_ledger_step s t" "profit_declarations s k = Some r"
    "profit_declarations t k \<noteq> Some r"
  have "profit_declarations s \<subseteq>\<^sub>m profit_declarations t"
    using st(1) profit_dispatch_declarations[of cfg _ s t] by (auto simp: machine_step_def profit_ledger_step_def)
  with st(2) have "profit_declarations t k = Some r" unfolding map_le_def by (metis domI)
  with st(3) show "\<exists>b. profit_declarations t k = Some b \<and> False" by simp
qed

section \<open>Properties of declarations\<close>

text \<open>The annual profit is taxed once. A successful declaration is for the tax year of the clock, the only one open; it
  costs the signer the recorded total, 70 percent of it (rounded down) for the region and the rest for the
  confederation, and no one else's balance changes; the total is the base tax, plus 5 percent and the daily
  accrual when late, and never more than 108.55 percent of the base tax. The record stays as it is in every
  later state, and every further declaration for that year fails.\<close>

theorem profit_taxed_once:
  fixes s :: "'x profit_state"
  assumes cur: "currency_ok (profit_currency cfg)" and year: "year \<le> umax 32"
    and d: "declare_annual_profit cfg now (Signed org) year profit large s = Ok t"
    and tre: "regional_treasury s = Some reg" "confederation_treasury s = Some con" "distinct [org, reg, con]"
    and later: "reachable (profit_dispatch cfg) profit_ledger_step t u"
  shows "year = current_year now
    \<and> (\<exists>r. profit_declarations u (org, year) = Some r \<and> assessed cfg now year profit large r
        \<and> regional_share r + confederation_share r = total_paid r \<and> base_tax r \<le> total_paid r
        \<and> 10000 * total_paid r \<le> 10855 * base_tax r
        \<and> (let fb = (\<lambda>s. free_balance (profit_currency cfg) (profit_ledger s)) in
             fb s org = fb t org + total_paid r \<and> fb t reg = fb s reg + regional_share r
           \<and> fb t con = fb s con + confederation_share r
           \<and> (\<forall>b. b \<notin> {org, reg, con} \<longrightarrow> fb t b = fb s b)))
    \<and> (\<forall>now' profit' large' v. declare_annual_profit cfg now' (Signed org) year profit' large' u \<noteq> Ok v)"
  using d
proof (rule declare_annual_profitD)
  fix org' reg' con' x r
  assume "Signed org = Signed org'" "regional_treasury s = Some reg'" "confederation_treasury s = Some con'"
    and y: "year \<le> current_year now" "2026 \<le> year" "now < year_start_secs year + SECONDS_PER_YEAR"
    and r: "assessed cfg now year profit large r"
    and x: "transfer (profit_currency cfg) (profit_ledger s) org' reg' (regional_share r) KeepAlive = Ok x"
      "transfer (profit_currency cfg) x org' con' (confederation_share r) KeepAlive = Ok (profit_ledger t)"
    and t: "profit_declarations t = (profit_declarations s)((org', year) \<mapsto> r)"
  with tre have eq: "org' = org" "reg' = reg" "con' = con" by simp_all
  note x = x[unfolded eq]
  have kept: "profit_declarations u (org, year) = Some r"
    by (rule profit_life.final[OF later[unfolded reachable_iff_steps]]) (simp_all add: t eq)
  have "declare_annual_profit cfg now' (Signed org) year profit' large' u \<noteq> Ok v" for now' profit' large' v
  proof
    assume "declare_annual_profit cfg now' (Signed org) year profit' large' u = Ok v"
    then show False by (rule declare_annual_profitD) (use kept in auto)
  qed
  moreover have "10000 * total_paid r \<le> 10855 * base_tax r"
    using assessed_sums(3)[OF r] by linarith
  moreover note fb = transfer_keepD(3)[OF cur x(1)] transfer_keepD(3)[OF cur x(2)]
    and le = transfer_keepD(1)[OF cur x(1)] transfer_keepD(1)[OF cur x(2)]
  have ne: "org \<noteq> reg" "org \<noteq> con" "reg \<noteq> con" using tre(3) by auto
  have "free_balance (profit_currency cfg) (profit_ledger t) reg
      = free_balance (profit_currency cfg) (profit_ledger s) reg + regional_share r"
    "free_balance (profit_currency cfg) (profit_ledger t) con
      = free_balance (profit_currency cfg) (profit_ledger s) con + confederation_share r"
    "\<forall>b. b \<notin> {org, reg, con} \<longrightarrow>
      free_balance (profit_currency cfg) (profit_ledger t) b = free_balance (profit_currency cfg) (profit_ledger s) b"
    using fb by (simp_all add: ne ne[symmetric])
  moreover have "free_balance (profit_currency cfg) (profit_ledger s) org
      = free_balance (profit_currency cfg) (profit_ledger t) org + total_paid r"
    using le assessed_sums(1)[OF r] unfolding fb by (simp add: ne)
  ultimately show ?thesis
    using open_year[OF y year] kept r assessed_sums[OF r] unfolding Let_def by blast
qed

definition book_profit :: "book profit_config" where
  "book_profit = \<lparr>profit_currency = book_base 5, standard_tax_rate_permill = 100, large_family_tax_rate_permill = 50\<rparr>"

definition profit_start :: "book profit_state" where
  "profit_start = profit_genesis (Some 13) (Some 14)
     \<lparr>bal = (\<lambda>_. 0)(11 := 2000000, 13 := 10, 14 := 10), issued = 2000020, lock_of = (\<lambda>_ _. None)\<rparr>"

definition five_days_late :: nat where "five_days_late = ANCHOR_TIMESTAMP + 110 * 86400"

theorem profit_taxed_once_witness:
  "\<exists>t. declare_annual_profit book_profit five_days_late (Signed 11) 2026 1000000 False profit_start = Ok t
     \<and> (\<exists>r. profit_declarations t (11, 2026) = Some r \<and> total_paid r = 105068 \<and> regional_share r = 73547)"
proof -
  have days: "days_late five_days_late 2026 = 5"
    by (simp add: five_days_late_def days_late_def Let_def year_start_secs_def calendar_consts sat_sub_def)
  have clock: "current_year five_days_late = 2026"
    "five_days_late < year_start_secs 2026 + SECONDS_PER_YEAR"
    by (simp_all add: five_days_late_def current_year_def year_start_secs_def Let_def calendar_consts)
  have late: "compute_shtraf 100000 = Some 5000" "compute_peni 100000 5 = Some 68"
    by (simp_all add: compute_shtraf_def compute_peni_def calendar_consts checked_defs umax_def)
  have sel: "regional_treasury profit_start = Some 13" "confederation_treasury profit_start = Some 14"
    "profit_declarations profit_start k = None" "standard_tax_rate_permill book_profit = 100"
    "bal (profit_ledger profit_start) = (\<lambda>_. 0)(11 := 2000000, 13 := 10, 14 := 10)"
    "transfer (profit_currency book_profit) = book_transfer 5" for k
    by (simp_all add: profit_start_def profit_genesis_def book_profit_def book_base_def)
  have "\<exists>t. declare_annual_profit book_profit five_days_late (Signed 11) 2026 1000000 False profit_start = Ok t"
    by (simp add: declare_annual_profit_def days clock late sel Let_def checked_defs umax_def book_transfer_def)
  then obtain t where t:
    "declare_annual_profit book_profit five_days_late (Signed 11) 2026 1000000 False profit_start = Ok t" ..
  have tre: "regional_treasury profit_start = Some 13" "confederation_treasury profit_start = Some 14"
    "distinct [11 :: nat, 13, 14]"
    by (simp_all add: profit_start_def profit_genesis_def)
  have cur: "currency_ok (profit_currency book_profit)" by (simp add: book_profit_def book_currency_ok)
  have "(2026 :: nat) \<le> umax 32" by (simp add: umax_def)
  from profit_taxed_once[OF cur this t tre reachable.start] obtain r where
    "profit_declarations t (11, 2026) = Some r" "assessed book_profit five_days_late 2026 1000000 False r"
    by blast
  with t show ?thesis by (auto simp: assessed_def days profit_rate_def book_profit_def)
qed

end
