(* ===== verification/Shielded_Vaults.thy ===== *)
theory Shielded_Vaults
  imports Pallet_Interfaces Currency
begin

text \<open>
  \<^verbatim>\<open>pallets/shielded-vaults/src/lib.rs\<close>: the shielded pool of commitments and nullifiers, and the bridge through
  which organizations pay taxes out of it. First the model, then its properties.

  \<open>'x\<close> is the ledger of the currency. The state is extensible, because \<open>pallet-organization\<close> calls the pallet; the
  two traits of \<^verbatim>\<open>Config\<close> (\<open>StateAccountChecker\<close> and \<open>OrgRegionResolverTrait\<close>) are arguments, the latter a function of
  the whole state \<open>'s\<close>, as the runtime's resolver reads other pallets' storage.
\<close>

section \<open>Model\<close>

datatype vault_event =
    FundsShielded account h256 "nat option"
  | ShieldedTransferExecuted h256 h256
  | FundsUnshielded h256 account balance
  | OrgTaxPaidFromVault nat h256 balance
  | StateAccountShieldingAttemptBlocked account

datatype vault_error =
    StateFundsMustRemainPublic
  | NullifierAlreadySpent
  | CommitmentNotFound
  | CommitmentAlreadySpent
  | AmountExceedsShieldedBalance
  | ArithmeticOverflow
  | UnshieldTransferFailed

type_synonym vault_failure = "vault_error dispatch_error"

record ('x, 's) vault_config =
  vault_currency :: "'x currency"
  is_state_account :: "account \<Rightarrow> bool"
  vault_confederation_treasury :: account
  regional_treasury_for :: "'s \<Rightarrow> nat \<Rightarrow> account option"

record 'x vault_state =
  sv_ledger :: 'x
  shielded_commitments :: "h256 \<Rightarrow> bool"
  spent_nullifiers :: "h256 \<Rightarrow> nat option"
  org_vault_balance :: "nat \<Rightarrow> balance"
  total_shielded :: balance
  vault_events :: "vault_event list"

definition is_nullifier_spent :: "('x, 'z) vault_state_scheme \<Rightarrow> h256 \<Rightarrow> bool" where
  "is_nullifier_spent s n \<longleftrightarrow> spent_nullifiers s n \<noteq> None"

text \<open>The event of a refused state account is rolled back with the failing call. The imbalance of the withdrawal
  is dropped, so the amount leaves the issuance.\<close>

definition shield_funds ::
  "('x, ('x, 'z) vault_state_scheme) vault_config \<Rightarrow> origin \<Rightarrow> balance \<Rightarrow> h256 \<Rightarrow> nat option
   \<Rightarrow> ('x, 'z) vault_state_scheme \<Rightarrow> (('x, 'z) vault_state_scheme, vault_failure) result" where
  "shield_funds cfg og amount commitment org s =
     and_then (ensure_signed og) (\<lambda>caller.
     ensure (\<not> is_state_account cfg caller) (Module StateFundsMustRemainPublic) (
     ensure (\<not> shielded_commitments s commitment) (Module CommitmentAlreadySpent) (
     and_then (map_err (\<lambda>_. Module UnshieldTransferFailed)
       (withdraw (vault_currency cfg) (sv_ledger s) caller amount KeepAlive)) (\<lambda>x.
     Ok (s\<lparr>sv_ledger := x,
           shielded_commitments := (shielded_commitments s)(commitment := True),
           org_vault_balance := (case org of
               Some i \<Rightarrow> (org_vault_balance s)(i := sat_add 128 (org_vault_balance s i) amount)
             | None \<Rightarrow> org_vault_balance s),
           total_shielded := sat_add 128 (total_shielded s) amount,
           vault_events := vault_events s @ [FundsShielded caller commitment org]\<rparr>)))))"

text \<open>The guard of every spending call, and what it does to the pool.\<close>

definition spendable :: "h256 \<Rightarrow> h256 \<Rightarrow> ('x, 'z) vault_state_scheme \<Rightarrow> ('a, vault_failure) result \<Rightarrow> ('a, vault_failure) result" where
  "spendable nullifier commitment s k =
     ensure (spent_nullifiers s nullifier = None) (Module NullifierAlreadySpent) (
     ensure (shielded_commitments s commitment) (Module CommitmentNotFound) k)"

definition destroy_commitment :: "env \<Rightarrow> h256 \<Rightarrow> h256 \<Rightarrow> ('x, 'z) vault_state_scheme \<Rightarrow> ('x, 'z) vault_state_scheme" where
  "destroy_commitment env nullifier commitment s =
     s\<lparr>shielded_commitments := (shielded_commitments s)(commitment := False),
       spent_nullifiers := (spent_nullifiers s)(nullifier \<mapsto> block_number env)\<rparr>"

definition shielded_transfer ::
  "env \<Rightarrow> origin \<Rightarrow> h256 \<Rightarrow> h256 \<Rightarrow> h256 \<Rightarrow> nat option
   \<Rightarrow> ('x, 'z) vault_state_scheme \<Rightarrow> (('x, 'z) vault_state_scheme, vault_failure) result" where
  "shielded_transfer env og nullifier input_commitment new_commitment org s =
     and_then (ensure_signed og) (\<lambda>_.
     spendable nullifier input_commitment s (
     let s1 = destroy_commitment env nullifier input_commitment s in
     ensure (\<not> shielded_commitments s1 new_commitment) (Module CommitmentAlreadySpent) (
     Ok (s1\<lparr>shielded_commitments := (shielded_commitments s1)(new_commitment := True),
            vault_events := vault_events s1 @ [ShieldedTransferExecuted nullifier new_commitment]\<rparr>))))"

text \<open>\<open>u128\<close> is the runtime's balance type: the conversions of amounts cannot fail.\<close>

definition unshield_to_account ::
  "('x, ('x, 'z) vault_state_scheme) vault_config \<Rightarrow> env \<Rightarrow> origin \<Rightarrow> h256 \<Rightarrow> h256 \<Rightarrow> balance \<Rightarrow> account \<Rightarrow> nat option
   \<Rightarrow> ('x, 'z) vault_state_scheme \<Rightarrow> (('x, 'z) vault_state_scheme, vault_failure) result" where
  "unshield_to_account cfg env og nullifier input_commitment amount recipient org s =
     and_then (ensure_signed og) (\<lambda>_.
     spendable nullifier input_commitment s (
     ensure (case org of Some i \<Rightarrow> amount \<le> org_vault_balance s i | None \<Rightarrow> True)
       (Module AmountExceedsShieldedBalance) (
     let s1 = destroy_commitment env nullifier input_commitment s in
     Ok (s1\<lparr>sv_ledger := deposit_creating (vault_currency cfg) (sv_ledger s1) recipient amount,
            org_vault_balance := (case org of
                Some i \<Rightarrow> (org_vault_balance s1)(i := sat_sub (org_vault_balance s1 i) amount)
              | None \<Rightarrow> org_vault_balance s1),
            total_shielded := sat_sub (total_shielded s1) amount,
            vault_events := vault_events s1 @ [FundsUnshielded nullifier recipient amount]\<rparr>))))"

definition org_unshield_tax_payment ::
  "('x, ('x, 'z) vault_state_scheme) vault_config \<Rightarrow> env \<Rightarrow> origin \<Rightarrow> nat \<Rightarrow> h256 \<Rightarrow> h256 \<Rightarrow> balance
   \<Rightarrow> ('x, 'z) vault_state_scheme \<Rightarrow> (('x, 'z) vault_state_scheme, vault_failure) result" where
  "org_unshield_tax_payment cfg env og org nullifier input_commitment amount s =
     and_then (ensure_signed og) (\<lambda>_.
     spendable nullifier input_commitment s (
     ensure (amount \<le> org_vault_balance s org) (Module AmountExceedsShieldedBalance) (
     let s1 = destroy_commitment env nullifier input_commitment s;
         region_amount = sat_mul 128 amount 7 div 10;
         confederation_amount = sat_sub amount region_amount;
         confederation_account = vault_confederation_treasury cfg;
         x1 = deposit_creating (vault_currency cfg) (sv_ledger s1) confederation_account confederation_amount;
         x2 = (case regional_treasury_for cfg s1 org of
                 Some regional \<Rightarrow> deposit_creating (vault_currency cfg) x1 regional region_amount
               | None \<Rightarrow> deposit_creating (vault_currency cfg) x1 confederation_account region_amount)
     in Ok (s1\<lparr>sv_ledger := x2,
              org_vault_balance := (org_vault_balance s1)(org := sat_sub (org_vault_balance s1 org) amount),
              total_shielded := sat_sub (total_shielded s1) amount,
              vault_events := vault_events s1 @ [OrgTaxPaidFromVault org nullifier amount]\<rparr>))))"

definition unshield_for_tax ::
  "('x, 's) vault_config \<Rightarrow> env \<Rightarrow> h256 \<Rightarrow> h256 \<Rightarrow> balance \<Rightarrow> account
   \<Rightarrow> ('x, 'z) vault_state_scheme \<Rightarrow> (('x, 'z) vault_state_scheme, vault_failure) result" where
  "unshield_for_tax cfg env nullifier commitment amount recipient s =
     spendable nullifier commitment s (
     let s1 = destroy_commitment env nullifier commitment s in
     Ok (s1\<lparr>sv_ledger := deposit_creating (vault_currency cfg) (sv_ledger s1) recipient amount,
            total_shielded := sat_sub (total_shielded s1) amount\<rparr>))"

datatype vault_call =
    ShieldFunds balance h256 "nat option"
  | ShieldedTransfer h256 h256 h256 "nat option"
  | UnshieldToAccount h256 h256 balance account "nat option"
  | OrgUnshieldTaxPayment nat h256 h256 balance

fun vault_dispatch ::
  "('x, ('x, 'z) vault_state_scheme) vault_config \<Rightarrow> env \<times> origin \<times> vault_call
   \<Rightarrow> ('x, 'z) vault_state_scheme \<Rightarrow> (('x, 'z) vault_state_scheme, vault_failure) result" where
  "vault_dispatch cfg (env, og, ShieldFunds v c i) s = shield_funds cfg og v c i s"
| "vault_dispatch cfg (env, og, ShieldedTransfer n c d i) s = shielded_transfer env og n c d i s"
| "vault_dispatch cfg (env, og, UnshieldToAccount n c v r i) s = unshield_to_account cfg env og n c v r i s"
| "vault_dispatch cfg (env, og, OrgUnshieldTaxPayment i n c v) s = org_unshield_tax_payment cfg env og i n c v s"

section \<open>Nullifiers\<close>

lemmas vault_defs = shield_funds_def shielded_transfer_def unshield_to_account_def org_unshield_tax_payment_def
  unshield_for_tax_def spendable_def destroy_commitment_def

text \<open>The nullifier a call publishes.\<close>

fun published :: "vault_call \<Rightarrow> h256 option" where
  "published (ShieldFunds v c i) = None"
| "published (ShieldedTransfer n c d i) = Some n"
| "published (UnshieldToAccount n c v r i) = Some n"
| "published (OrgUnshieldTaxPayment i n c v) = Some n"

lemma vault_dispatch_nullifiers:
  assumes "vault_dispatch cfg (env, og, call) s = Ok t"
  shows "spent_nullifiers t = (case published call of
           None \<Rightarrow> spent_nullifiers s | Some n \<Rightarrow> (spent_nullifiers s)(n \<mapsto> block_number env))"
    and "published call = Some n \<Longrightarrow> spent_nullifiers s n = None"
  using assms by (cases call; auto simp: vault_defs ok_simps Let_def)+

definition vault_ledger_step :: "('x, 'z) vault_state_scheme \<Rightarrow> ('x, 'z) vault_state_scheme \<Rightarrow> bool" where
  "vault_ledger_step s t \<longleftrightarrow> (\<exists>x. t = s\<lparr>sv_ledger := x\<rparr>)"

text \<open>Everything that runs on the vaults: their extrinsics and the bridge organizations pay their tax through.\<close>

datatype vault_op = VaultExtrinsic "env \<times> origin \<times> vault_call" | TaxBridge env h256 h256 balance account

fun vault_operate ::
  "('x, ('x, 'z) vault_state_scheme) vault_config \<Rightarrow> vault_op
   \<Rightarrow> ('x, 'z) vault_state_scheme \<Rightarrow> (('x, 'z) vault_state_scheme, vault_failure) result" where
  "vault_operate cfg (VaultExtrinsic c) s = vault_dispatch cfg c s"
| "vault_operate cfg (TaxBridge env n c v r) s = unshield_for_tax cfg env n c v r s"

fun op_publishes :: "vault_op \<Rightarrow> h256 option" where
  "op_publishes (VaultExtrinsic (env, og, call)) = published call"
| "op_publishes (TaxBridge env n c v r) = Some n"

fun op_block :: "vault_op \<Rightarrow> nat" where
  "op_block (VaultExtrinsic (env, og, call)) = block_number env"
| "op_block (TaxBridge env n c v r) = block_number env"

text \<open>An extrinsic is refused for its origin before anything else is looked at; the bridge has none.\<close>

fun op_signed :: "vault_op \<Rightarrow> bool" where
  "op_signed (VaultExtrinsic (env, og, call)) = (\<exists>a. og = Signed a)"
| "op_signed (TaxBridge env n c v r) = True"

lemma vault_operate_nullifiers:
  assumes "vault_operate cfg op s = Ok t"
  shows "spent_nullifiers t = (case op_publishes op of
           None \<Rightarrow> spent_nullifiers s | Some n \<Rightarrow> (spent_nullifiers s)(n \<mapsto> op_block op))"
    and "op_publishes op = Some n \<Longrightarrow> spent_nullifiers s n = None"
proof -
  have "spent_nullifiers t = (case op_publishes op of
           None \<Rightarrow> spent_nullifiers s | Some n \<Rightarrow> (spent_nullifiers s)(n \<mapsto> op_block op))
    \<and> (\<forall>n. op_publishes op = Some n \<longrightarrow> spent_nullifiers s n = None)"
  proof (cases op)
    case (VaultExtrinsic c)
    obtain env og call where c: "c = (env, og, call)" by (cases c) auto
    with assms VaultExtrinsic have "vault_dispatch cfg (env, og, call) s = Ok t" by simp
    from vault_dispatch_nullifiers[OF this] show ?thesis by (auto simp: VaultExtrinsic c split: option.splits)
  next
    case (TaxBridge env n c v r)
    with assms show ?thesis
      by (auto simp: unshield_for_tax_def spendable_def destroy_commitment_def ok_simps Let_def)
  qed
  then show "spent_nullifiers t = (case op_publishes op of
           None \<Rightarrow> spent_nullifiers s | Some n \<Rightarrow> (spent_nullifiers s)(n \<mapsto> op_block op))"
    and "op_publishes op = Some n \<Longrightarrow> spent_nullifiers s n = None" by blast+
qed

lemma vault_operate_spent:
  assumes "op_publishes op = Some n" "spent_nullifiers s n = Some b" "op_signed op"
  shows "vault_operate cfg op s = Err (Module NullifierAlreadySpent)"
proof (cases op)
  case (VaultExtrinsic c)
  moreover obtain env og call where "c = (env, og, call)" by (cases c) auto
  ultimately show ?thesis using assms by (cases call) (auto simp: vault_defs)
qed (use assms in \<open>simp add: vault_defs\<close>)

interpretation nullifier_life: lifecycle spent_nullifiers "\<lambda>_ _. False" "machine_step (vault_operate cfg) vault_ledger_step"
  for cfg :: "('x, ('x, 'z) vault_state_scheme) vault_config"
proof
  fix s t :: "('x, 'z) vault_state_scheme" and n b
  assume st: "machine_step (vault_operate cfg) vault_ledger_step s t" and n: "spent_nullifiers s n = Some b"
    "spent_nullifiers t n \<noteq> Some b"
  from st consider (op) op where "vault_operate cfg op s = Ok t" | (other) "vault_ledger_step s t"
    by (auto simp: machine_step_def)
  then show "\<exists>c. spent_nullifiers t n = Some c \<and> False"
  proof cases
    case op
    with n show ?thesis using vault_operate_nullifiers[OF op] by (auto split: option.splits if_splits)
  qed (use n in \<open>auto simp: vault_ledger_step_def\<close>)
qed

section \<open>Properties\<close>

text \<open>C9: No double spending. An operation that publishes a nullifier, be it a transfer, a withdrawal, a tax payment
  or the bridge that organizations pay through, found it unspent. From then on the nullifier stays recorded with
  that block in every state that extrinsics, bridge calls and moves of the ledger lead to, and every further
  operation that spends it fails there with \<open>NullifierAlreadySpent\<close> (an extrinsic that is not signed fails
  earlier).\<close>

theorem nullifier_spent_once:
  fixes s :: "('x, 'z) vault_state_scheme"
  assumes d: "vault_operate cfg op s = Ok t" and n: "op_publishes op = Some n"
    and later: "reachable (vault_operate cfg) vault_ledger_step t u"
    and again: "op_publishes op' = Some n" "op_signed op'"
  shows "spent_nullifiers s n = None
    \<and> spent_nullifiers u n = Some (op_block op)
    \<and> vault_operate cfg op' u = Err (Module NullifierAlreadySpent)"
proof -
  have "spent_nullifiers t n = Some (op_block op)"
    using vault_operate_nullifiers(1)[OF d] n by simp
  from nullifier_life.final[OF later[unfolded reachable_iff_steps] this] have
    spent: "spent_nullifiers u n = Some (op_block op)" by simp
  then show ?thesis using vault_operate_nullifiers(2)[OF d n] vault_operate_spent[OF again(1) spent again(2)] by simp
qed

text \<open>The pool does not bind the amount. Whoever can shield one planck under a fresh commitment can then
  withdraw any amount from it, to any existing account and by any signer: nothing relates the amount of a withdrawal to the
  commitment. Issuance and the recipient's balance grow by the whole amount.\<close>

theorem one_planck_unshields_anything:
  fixes s :: "('x, 'z) vault_state_scheme"
  assumes cur: "currency_ok (vault_currency cfg)"
    and fresh: "\<not> is_state_account cfg a" "\<not> shielded_commitments s c" "spent_nullifiers s n = None"
    and paid: "withdraw (vault_currency cfg) (sv_ledger s) a 1 KeepAlive = Ok x"
    and room: "0 < free_balance (vault_currency cfg) x r" "total_issuance (vault_currency cfg) x + v \<le> umax 128"
  shows "\<exists>t u. shield_funds cfg (Signed a) 1 c None s = Ok t
    \<and> unshield_to_account cfg env (Signed b) n c v r None t = Ok u
    \<and> total_issuance (vault_currency cfg) (sv_ledger u) + 1 = total_issuance (vault_currency cfg) (sv_ledger s) + v
    \<and> free_balance (vault_currency cfg) (sv_ledger u) r = free_balance (vault_currency cfg) x r + v"
proof -
  obtain t where t: "shield_funds cfg (Signed a) 1 c None s = Ok t"
    and st: "sv_ledger t = x" "shielded_commitments t c" "spent_nullifiers t n = None"
    using fresh paid by (simp add: shield_funds_def)
  then obtain u where u: "unshield_to_account cfg env (Signed b) n c v r None t = Ok u"
    "sv_ledger u = deposit_creating (vault_currency cfg) x r v"
    by (simp add: unshield_to_account_def spendable_def destroy_commitment_def Let_def)
  show ?thesis
    using t u deposit_exact[OF cur room] withdraw_keepD(2)[OF cur paid] by (intro exI[of _ t] exI[of _ u]) simp
qed

definition book_vault :: "(book, book vault_state) vault_config" where
  "book_vault = \<lparr>vault_currency = book_base 5, is_state_account = (\<lambda>a. a = 99), vault_confederation_treasury = 99,
     regional_treasury_for = (\<lambda>_ _. None)\<rparr>"

definition vault_start :: "book vault_state" where
  "vault_start = \<lparr>sv_ledger = \<lparr>bal = (\<lambda>_. 0)(11 := 100), issued = 100, lock_of = (\<lambda>_ _. None)\<rparr>,
     shielded_commitments = (\<lambda>_. False), spent_nullifiers = (\<lambda>_. None), org_vault_balance = (\<lambda>_. 0),
     total_shielded = 0, vault_events = []\<rparr>"

theorem one_planck_unshields_anything_witness:
  "\<exists>t u. shield_funds book_vault (Signed 11) 1 [7] None vault_start = Ok t
    \<and> unshield_to_account book_vault \<lparr>block_number = 1, extrinsic_index = None\<rparr> (Signed 12) [8] [7] 1000000 11 None t = Ok u
    \<and> bal (sv_ledger u) 11 = 1000099"
proof -
  let ?x = "\<lparr>bal = (\<lambda>_. 0)(11 := 99), issued = 99, lock_of = (\<lambda>_ _. None)\<rparr> :: book"
  have cur: "currency_ok (vault_currency book_vault)" by (simp add: book_vault_def book_currency_ok)
  have paid: "withdraw (vault_currency book_vault) (sv_ledger vault_start) 11 1 KeepAlive = Ok ?x"
    by (simp add: book_vault_def vault_start_def book_base_def book_withdraw_def)
  have fresh: "\<not> is_state_account book_vault 11" "\<not> shielded_commitments vault_start [7]"
    "spent_nullifiers vault_start [8] = None"
    "0 < free_balance (vault_currency book_vault) ?x 11"
    "total_issuance (vault_currency book_vault) ?x + 1000000 \<le> umax 128"
    by (simp_all add: book_vault_def vault_start_def book_base_def umax_def)
  have "free_balance (vault_currency book_vault) = bal" "bal ?x 11 = 99" by (simp_all add: book_vault_def book_base_def)
  with one_planck_unshields_anything[OF cur fresh(1-3) paid fresh(4,5), of "\<lparr>block_number = 1, extrinsic_index = None\<rparr>" 12]
  show ?thesis by auto
qed

text \<open>A transfer spends the nullifier, a withdrawal of the new commitment goes through the bridge, and the
  bridge then refuses the first nullifier.\<close>

theorem nullifier_spent_once_witness:
  "\<exists>t u. vault_dispatch book_vault (\<lparr>block_number = 1, extrinsic_index = None\<rparr>, Signed 12, ShieldedTransfer [8] [7] [9] None)
        (vault_start\<lparr>shielded_commitments := (\<lambda>_. False)([7] := True)\<rparr>) = Ok t
     \<and> unshield_for_tax book_vault \<lparr>block_number = 2, extrinsic_index = None\<rparr> [6] [9] 5 11 t = Ok u
     \<and> spent_nullifiers u [8] = Some 1
     \<and> unshield_for_tax book_vault \<lparr>block_number = 3, extrinsic_index = None\<rparr> [8] [9] 5 11 u
        = Err (Module NullifierAlreadySpent)"
proof -
  let ?s = "vault_start\<lparr>shielded_commitments := (\<lambda>_. False)([7] := True)\<rparr>"
  let ?op = "VaultExtrinsic (\<lparr>block_number = 1, extrinsic_index = None\<rparr>, Signed 12, ShieldedTransfer [8] [7] [9] None)"
  let ?bridge = "TaxBridge \<lparr>block_number = 2, extrinsic_index = None\<rparr> [6] [9] 5 11"
  obtain t where t: "vault_operate book_vault ?op ?s = Ok t"
    and st: "shielded_commitments t [9]" "spent_nullifiers t [6] = None"
    by (simp add: vault_defs vault_start_def Let_def)
  from st obtain u where u: "vault_operate book_vault ?bridge t = Ok u" by (simp add: vault_defs Let_def)
  have "op_publishes ?op = Some [8]"
    "op_publishes (TaxBridge \<lparr>block_number = 3, extrinsic_index = None\<rparr> [8] [9] 5 11) = Some [8]"
    "op_signed (TaxBridge \<lparr>block_number = 3, extrinsic_index = None\<rparr> [8] [9] 5 11)" by simp_all
  moreover have "reachable (vault_operate book_vault) vault_ledger_step t u"
    using u by (rule reachable.call[where c = ?bridge, rotated]) (rule reachable.start)
  ultimately have "spent_nullifiers u [8] = Some 1
      \<and> vault_operate book_vault (TaxBridge \<lparr>block_number = 3, extrinsic_index = None\<rparr> [8] [9] 5 11) u
        = Err (Module NullifierAlreadySpent)"
    using nullifier_spent_once[OF t, of "[8]" u "TaxBridge \<lparr>block_number = 3, extrinsic_index = None\<rparr> [8] [9] 5 11"]
    by simp
  with t u show ?thesis by auto
qed

end
