(* ===== verification/Organization.thy ===== *)
theory Organization
  imports Shielded_Vaults Civil_Calendar
begin

text \<open>
  \<^verbatim>\<open>pallets/organization/src/lib.rs\<close>: the registry of organizations, their directors, tax returns and the
  punishment of late ones.

  The state extends the shielded vaults', which tax returns are paid from; \<open>'i\<close> is the storage behind the identity bridge
  (\<open>OrgIdentityInterface\<close>), whose result the pallet ignores. Hashing, the account codec, the order in which the
  storage of crew members is iterated and the clock are third-party code: parameters of \<open>org_config\<close> and the
  argument \<open>now_secs\<close>.
\<close>

section \<open>Data\<close>

datatype org_status = Pending | Active | Delinquent | Frozen

datatype org_role = Director | Employee

record organization =
  org_name :: "byte list"
  hq_region :: nat
  org_status :: org_status
  bank_account_id :: account
  last_tax_period_paid :: nat
  registered_at :: nat

record crew_member =
  crew_role :: org_role
  region_assigned :: nat
  active_since :: nat

record founder_deposit =
  founder :: account
  founder_amount :: balance
  founder_block :: nat

record tax_declaration =
  decl_org_id :: nat
  decl_region_id :: nat
  amount_paid :: balance
  declared_profit :: balance
  confederation_share :: balance
  regional_share :: balance
  document_hash :: h256
  decl_timestamp :: nat
  via_zk_vault :: bool

datatype org_event =
    OrganizationActivated nat account balance nat
  | FounderDepositMade nat account balance nat nat
  | OrganizationRegistered nat account "byte list" nat account
  | CrewMemberAdded nat account org_role nat
  | TaxReturnFiled nat nat nat balance balance balance balance h256
  | OrgZkTaxPaid nat nat nat balance h256
  | OrgMarkedDelinquent nat nat balance
  | PenaltyDebtAccrued nat balance
  | DirectorFrozen nat account
  | TaxEvasionReported account nat balance
  | OrgFrozenByRoot nat
  | OrgReinstated nat
  | OrgFundsSpent nat account account balance

datatype org_error =
    OrgNotFound
  | NotDirector
  | AlreadyCrewMember
  | NameTooLong
  | InsufficientBankBalance
  | OrgIsFrozen
  | OrgIsNotDelinquent
  | TaxPeriodNotExpired
  | AlreadyDelinquent
  | MathOverflow
  | NullifierAlreadySpent
  | ShieldedCommitmentNotFound
  | ZkAmountZero
  | BelowMinimumTax
  | OutsideTaxFilingPeriod
  | OrgIsPending
  | AlreadyDeposited
  | TooManyFounders
  | AlreadyActivated

type_synonym org_failure = "org_error dispatch_error"

record ('x, 'i) org_state = "'x vault_state" +
  identity :: 'i
  next_org_id :: nat
  organizations :: "nat \<Rightarrow> organization option"
  crew_members :: "nat \<times> account \<Rightarrow> crew_member option"
  next_declaration_id :: nat
  tax_declarations :: "nat \<Rightarrow> tax_declaration option"
  org_penalty_debt :: "nat \<Rightarrow> balance"
  last_penalty_block :: "nat \<Rightarrow> nat"
  org_founder_deposits :: "nat \<Rightarrow> founder_deposit list"
  org_required_founders :: "nat \<Rightarrow> nat"
  org_scan_cursor :: nat
  org_events :: "org_event list"

record ('x, 'i) org_config =
  shielded_vaults :: "('x, ('x, 'i) org_state) vault_config"
  freeze_citizen :: "account \<Rightarrow> 'i \<Rightarrow> 'i"
  tax_period_blocks :: nat
  penalty_accrual_period_blocks :: nat
  base_penalty_amount :: balance
  auditor_reward_amount :: balance
  region_treasury_account :: account
  confederation_treasury_account :: account
  min_tax_amount :: balance
  max_orgs_per_block :: nat
  max_name_length :: nat
  max_directors_per_org :: nat
  org_activation_deposit :: balance
  max_founders :: nat
  blake2_256 :: "byte list \<Rightarrow> h256"
  decode_account :: "h256 \<Rightarrow> account"
  crew_order :: "(account \<Rightarrow> crew_member option) \<Rightarrow> account list"

text \<open>The currency is the one the vaults use: both are \<open>pallet_balances\<close>.\<close>

abbreviation org_currency :: "('x, 'i) org_config \<Rightarrow> 'x currency" where
  "org_currency cfg \<equiv> vault_currency (shielded_vaults cfg)"

definition emit_org :: "org_event \<Rightarrow> ('x, 'i) org_state \<Rightarrow> ('x, 'i) org_state" where
  "emit_org e s = s\<lparr>org_events := org_events s @ [e]\<rparr>"

section \<open>Helpers\<close>

definition ensure_director ::
  "account \<Rightarrow> nat \<Rightarrow> ('x, 'i) org_state \<Rightarrow> ('a, org_failure) result \<Rightarrow> ('a, org_failure) result" where
  "ensure_director caller org_id s k =
     ensure (organizations s org_id \<noteq> None) (Module OrgNotFound) (
     ok_or (crew_members s (org_id, caller)) (Module NotDirector) (\<lambda>crew.
     ensure (crew_role crew = Director) (Module NotDirector) k))"

definition is_leap_year :: "nat \<Rightarrow> bool" where
  "is_leap_year year \<longleftrightarrow> (year mod 4 = 0 \<and> year mod 100 \<noteq> 0) \<or> year mod 400 = 0"

text \<open>The loop that splits the days since 1970 into a year and the remaining days.\<close>

function year_loop :: "nat \<Rightarrow> nat \<Rightarrow> nat \<times> nat" where
  "year_loop year remaining =
     (let days = (if is_leap_year year then 366 else 365) in
      if remaining < days then (year, remaining) else year_loop (year + 1) (remaining - days))"
  by auto
termination by (relation "measure snd") auto

declare year_loop.simps [simp del]

definition ensure_within_filing_period :: "nat \<Rightarrow> ('a, org_failure) result \<Rightarrow> ('a, org_failure) result" where
  "ensure_within_filing_period now_secs k =
     (if now_secs = 0 then k
      else let (year, remaining) = year_loop 1970 (now_secs div 86400);
               day_of_year = remaining + 1;
               apr_15_day = (if is_leap_year year then 106 else 105)
           in ensure (day_of_year \<le> apr_15_day) (Module OutsideTaxFilingPeriod) k)"

definition le_bytes32 :: "nat \<Rightarrow> byte list" where
  "le_bytes32 n = [of_nat n, of_nat (n div 2 ^ 8), of_nat (n div 2 ^ 16), of_nat (n div 2 ^ 24)]"

definition derive_org_account :: "('x, 'i) org_config \<Rightarrow> nat \<Rightarrow> account" where
  "derive_org_account cfg org_id =
     decode_account cfg (blake2_256 cfg (bytes ''altan/org/'' @ le_bytes32 org_id))"

text \<open>The multiplication is the plain operator, which wraps in a release build.\<close>

definition constitutional_tax_split :: "balance \<Rightarrow> balance \<times> balance" where
  "constitutional_tax_split amount =
     (let confederation = amount * 3 mod 2 ^ 128 div 10 in (confederation, sat_sub amount confederation))"

section \<open>The punishment engine\<close>

definition crew_of :: "('x, 'i) org_state \<Rightarrow> nat \<Rightarrow> account \<Rightarrow> crew_member option" where
  "crew_of s org_id a = crew_members s (org_id, a)"

text \<open>The directors among the first \<open>MaxDirectorsPerOrg\<close> crew members of the iteration.\<close>

definition directors_to_freeze :: "('x, 'i) org_config \<Rightarrow> nat \<Rightarrow> ('x, 'i) org_state \<Rightarrow> account list" where
  "directors_to_freeze cfg org_id s =
     filter (\<lambda>a. map_option crew_role (crew_of s org_id a) = Some Director)
       (take (max_directors_per_org cfg) (crew_order cfg (crew_of s org_id)))"

definition freeze_director :: "('x, 'i) org_config \<Rightarrow> nat \<Rightarrow> account \<Rightarrow> ('x, 'i) org_state \<Rightarrow> ('x, 'i) org_state" where
  "freeze_director cfg org_id director s =
     emit_org (DirectorFrozen org_id director) (s\<lparr>identity := freeze_citizen cfg director (identity s)\<rparr>)"

definition mark_delinquent ::
  "('x, 'i) org_config \<Rightarrow> nat \<Rightarrow> nat \<Rightarrow> organization \<Rightarrow> ('x, 'i) org_state \<Rightarrow> ('x, 'i) org_state" where
  "mark_delinquent cfg org_id now org s =
     (let elapsed = sat_sub now (last_tax_period_paid org);
          periods_overdue = (if elapsed \<le> umax 32
            then if tax_period_blocks cfg = 0 then 0 else elapsed div tax_period_blocks cfg else umax 32);
          s1 = s\<lparr>organizations := (organizations s)(org_id \<mapsto> org\<lparr>org_status := Delinquent\<rparr>),
                 org_penalty_debt := (org_penalty_debt s)(org_id :=
                   sat_add 128 (org_penalty_debt s org_id) (base_penalty_amount cfg)),
                 last_penalty_block := (last_penalty_block s)(org_id := now)\<rparr>;
          s2 = emit_org (OrgMarkedDelinquent org_id periods_overdue (base_penalty_amount cfg)) s1
      in fold (freeze_director cfg org_id) (directors_to_freeze cfg org_id s2) s2)"

definition accrue_penalty :: "('x, 'i) org_config \<Rightarrow> nat \<Rightarrow> nat \<Rightarrow> ('x, 'i) org_state \<Rightarrow> ('x, 'i) org_state" where
  "accrue_penalty cfg org_id now s =
     (if sat_sub now (last_penalty_block s org_id) \<ge> penalty_accrual_period_blocks cfg
      then let current_debt = org_penalty_debt s org_id; accrual = current_debt div 100 in
        if accrual > 0
        then let new_debt = sat_add 128 current_debt accrual in
          emit_org (PenaltyDebtAccrued org_id new_debt)
            (s\<lparr>org_penalty_debt := (org_penalty_debt s)(org_id := new_debt),
               last_penalty_block := (last_penalty_block s)(org_id := now)\<rparr>)
        else s
      else s)"

definition apply_punishment ::
  "('x, 'i) org_config \<Rightarrow> nat \<Rightarrow> nat \<Rightarrow> ('x, 'i) org_state \<Rightarrow> bool \<times> ('x, 'i) org_state" where
  "apply_punishment cfg org_id now s =
     (case organizations s org_id of
        None \<Rightarrow> (False, s)
      | Some org \<Rightarrow>
          if sat_sub now (last_tax_period_paid org) \<le> tax_period_blocks cfg then (False, s)
          else let newly_delinquent = (org_status org = Active);
                   s1 = (if newly_delinquent then mark_delinquent cfg org_id now org s else s)
               in (newly_delinquent, accrue_penalty cfg org_id now s1))"

text \<open>The round-robin scan of \<open>on_initialize\<close>: \<open>i\<close> organizations are done and \<open>k\<close> may follow.\<close>

definition scan_one :: "('x, 'i) org_config \<Rightarrow> nat \<Rightarrow> nat \<Rightarrow> ('x, 'i) org_state \<Rightarrow> ('x, 'i) org_state" where
  "scan_one cfg now org_id s =
     (case organizations s org_id of
        Some org \<Rightarrow> if org_status org \<noteq> Frozen then snd (apply_punishment cfg org_id now s) else s
      | None \<Rightarrow> s)"

fun org_scan ::
  "('x, 'i) org_config \<Rightarrow> nat \<Rightarrow> nat \<Rightarrow> nat \<Rightarrow> nat \<Rightarrow> nat \<Rightarrow> nat \<Rightarrow> ('x, 'i) org_state \<Rightarrow> nat \<times> ('x, 'i) org_state" where
  "org_scan cfg now n_orgs cursor i 0 next s = (next, s)"
| "org_scan cfg now n_orgs cursor i (Suc k) next s =
     (let org_id = (cursor + i) mod 2 ^ 32 mod n_orgs;
          s1 = scan_one cfg now org_id s;
          processed = i + 1;
          next1 = (cursor + i + 1) mod 2 ^ 32 mod n_orgs
      in if processed \<ge> n_orgs then (0, s1) else org_scan cfg now n_orgs cursor (i + 1) k next1 s1)"

definition on_initialize :: "('x, 'i) org_config \<Rightarrow> nat \<Rightarrow> ('x, 'i) org_state \<Rightarrow> ('x, 'i) org_state" where
  "on_initialize cfg now s =
     (let total_orgs = next_org_id s in
      if total_orgs = 0 then s
      else let cursor = org_scan_cursor s;
               (next_cursor, s1) = org_scan cfg now total_orgs cursor 0 (max_orgs_per_block cfg) cursor s
           in s1\<lparr>org_scan_cursor := next_cursor\<rparr>)"

section \<open>Dispatchables\<close>

definition register_organization ::
  "('x, 'i) org_config \<Rightarrow> env \<Rightarrow> origin \<Rightarrow> byte list \<Rightarrow> nat \<Rightarrow> nat \<Rightarrow> ('x, 'i) org_state
   \<Rightarrow> (('x, 'i) org_state, org_failure) result" where
  "register_organization cfg env og name region required_founders s =
     and_then (ensure_signed og) (\<lambda>caller.
     let required = max required_founders 1 in
     ensure (required \<le> max_founders cfg) (Module TooManyFounders) (
     ensure (length name \<le> max_name_length cfg) (Module NameTooLong) (
     let now = block_number env;
         org_id = next_org_id s;
         account = derive_org_account cfg org_id;
         org = \<lparr>org_name = name, hq_region = region, org_status = Pending, bank_account_id = account,
                last_tax_period_paid = now, registered_at = now\<rparr>;
         crew = \<lparr>crew_role = Director, region_assigned = region, active_since = now\<rparr>
     in Ok (emit_org (OrganizationRegistered org_id caller name region account)
          (s\<lparr>organizations := (organizations s)(org_id \<mapsto> org),
             crew_members := (crew_members s)((org_id, caller) \<mapsto> crew),
             org_required_founders := (org_required_founders s)(org_id := required),
             next_org_id := sat_add 32 org_id 1\<rparr>)))))"

definition set_org_status :: "nat \<Rightarrow> org_status \<Rightarrow> ('x, 'i) org_state \<Rightarrow> ('x, 'i) org_state" where
  "set_org_status org_id st s =
     (case organizations s org_id of
        Some o1 \<Rightarrow> s\<lparr>organizations := (organizations s)(org_id \<mapsto> o1\<lparr>org_status := st\<rparr>)\<rparr>
      | None \<Rightarrow> s)"

definition activate_organization ::
  "('x, 'i) org_config \<Rightarrow> env \<Rightarrow> origin \<Rightarrow> nat \<Rightarrow> ('x, 'i) org_state \<Rightarrow> (('x, 'i) org_state, org_failure) result" where
  "activate_organization cfg env og org_id s =
     and_then (ensure_signed og) (\<lambda>caller.
     ok_or (organizations s org_id) (Module OrgNotFound) (\<lambda>org.
     ensure (org_status org = Pending) (Module AlreadyActivated) (
     ensure_director caller org_id s (
     ensure (\<forall>d\<in>set (org_founder_deposits s org_id). founder d \<noteq> caller) (Module AlreadyDeposited) (
     let amount = org_activation_deposit cfg; org_account = bank_account_id org in
     and_then (map_err ThirdParty (transfer (org_currency cfg) (sv_ledger s) caller org_account amount KeepAlive)) (\<lambda>x.
     ensure (length (org_founder_deposits s org_id) < max_founders cfg) (Module TooManyFounders) (
     let deposits = org_founder_deposits s org_id @
           [\<lparr>founder = caller, founder_amount = amount, founder_block = block_number env\<rparr>];
         so_far = length deposits;
         required = org_required_founders s org_id;
         s1 = emit_org (FounderDepositMade org_id caller amount so_far required)
                (s\<lparr>sv_ledger := x, org_founder_deposits := (org_founder_deposits s)(org_id := deposits)\<rparr>)
     in Ok (if so_far \<ge> required
            then emit_org (OrganizationActivated org_id org_account (sat_mul 128 amount so_far) so_far)
                   (set_org_status org_id Active s1)
            else s1))))))))"

definition add_crew_member ::
  "env \<Rightarrow> origin \<Rightarrow> nat \<Rightarrow> account \<Rightarrow> org_role \<Rightarrow> nat \<Rightarrow> ('x, 'i) org_state
   \<Rightarrow> (('x, 'i) org_state, org_failure) result" where
  "add_crew_member env og org_id member role region s =
     and_then (ensure_signed og) (\<lambda>caller.
     ok_or (organizations s org_id) (Module OrgNotFound) (\<lambda>org.
     ensure (org_status org \<noteq> Frozen) (Module OrgIsFrozen) (
     ensure (org_status org \<noteq> Pending) (Module OrgIsPending) (
     ensure_director caller org_id s (
     ensure (crew_members s (org_id, member) = None) (Module AlreadyCrewMember) (
     let crew = \<lparr>crew_role = role, region_assigned = region, active_since = block_number env\<rparr>
     in Ok (emit_org (CrewMemberAdded org_id member role region)
          (s\<lparr>crew_members := (crew_members s)((org_id, member) \<mapsto> crew)\<rparr>))))))))"

text \<open>The part the two kinds of tax returns share: the declaration, the reinstatement, the cleared debt.\<close>

definition record_tax_return ::
  "nat \<Rightarrow> nat \<Rightarrow> tax_declaration \<Rightarrow> ('x, 'i) org_state \<Rightarrow> ('x, 'i) org_state" where
  "record_tax_return org_id now decl s =
     (let declaration_id = next_declaration_id s;
          s1 = s\<lparr>tax_declarations := (tax_declarations s)(declaration_id \<mapsto> decl),
                 next_declaration_id := sat_add 32 declaration_id 1,
                 organizations := (case organizations s org_id of
                     Some o1 \<Rightarrow> (organizations s)(org_id \<mapsto> o1\<lparr>last_tax_period_paid := now,
                       org_status := (if org_status o1 = Delinquent then Active else org_status o1)\<rparr>)
                   | None \<Rightarrow> organizations s)\<rparr>;
          was_delinquent = (org_penalty_debt s1 org_id > 0);
          s2 = s1\<lparr>org_penalty_debt := (org_penalty_debt s1)(org_id := 0),
                  last_penalty_block := (last_penalty_block s1)(org_id := 0)\<rparr>
      in if was_delinquent then emit_org (OrgReinstated org_id) s2 else s2)"

definition file_tax_return ::
  "('x, 'i) org_config \<Rightarrow> env \<Rightarrow> nat \<Rightarrow> origin \<Rightarrow> nat \<Rightarrow> nat \<Rightarrow> balance \<Rightarrow> balance \<Rightarrow> h256 \<Rightarrow> ('x, 'i) org_state
   \<Rightarrow> (('x, 'i) org_state, org_failure) result" where
  "file_tax_return cfg env now_secs og org_id region_id profit amount hash s =
     and_then (ensure_signed og) (\<lambda>caller.
     ok_or (organizations s org_id) (Module OrgNotFound) (\<lambda>org.
     ensure (org_status org \<noteq> Frozen) (Module OrgIsFrozen) (
     ensure_director caller org_id s (
     ensure_within_filing_period now_secs (
     ensure (amount \<ge> min_tax_amount cfg) (Module BelowMinimumTax) (
     let (confederation, regional) = constitutional_tax_split amount;
         now = block_number env;
         declaration_id = next_declaration_id s
     in and_then (map_err (\<lambda>_. Module InsufficientBankBalance)
          (transfer (org_currency cfg) (sv_ledger s) (bank_account_id org) (region_treasury_account cfg) regional KeepAlive)) (\<lambda>x1.
        and_then (map_err (\<lambda>_. Module InsufficientBankBalance)
          (transfer (org_currency cfg) x1 (bank_account_id org) (confederation_treasury_account cfg) confederation KeepAlive)) (\<lambda>x2.
        let decl = \<lparr>decl_org_id = org_id, decl_region_id = region_id, amount_paid = amount, declared_profit = profit,
                     confederation_share = confederation, regional_share = regional, document_hash = hash,
                     decl_timestamp = now, via_zk_vault = False\<rparr>
        in Ok (emit_org (TaxReturnFiled declaration_id org_id region_id amount profit confederation regional hash)
             (record_tax_return org_id now decl (s\<lparr>sv_ledger := x2\<rparr>)))))))))))"

definition report_tax_evasion ::
  "('x, 'i) org_config \<Rightarrow> env \<Rightarrow> origin \<Rightarrow> nat \<Rightarrow> ('x, 'i) org_state \<Rightarrow> (('x, 'i) org_state, org_failure) result" where
  "report_tax_evasion cfg env og org_id s =
     and_then (ensure_signed og) (\<lambda>reporter.
     ok_or (organizations s org_id) (Module OrgNotFound) (\<lambda>org.
     ensure (org_status org \<noteq> Frozen) (Module OrgIsFrozen) (
     ensure (org_status org \<noteq> Delinquent) (Module AlreadyDelinquent) (
     let now = block_number env in
     ensure (sat_sub now (last_tax_period_paid org) > tax_period_blocks cfg) (Module TaxPeriodNotExpired) (
     let s1 = snd (apply_punishment cfg org_id now s);
         reward = auditor_reward_amount cfg;
         x = (case transfer (org_currency cfg) (sv_ledger s1) (region_treasury_account cfg) reporter reward KeepAlive of
                Ok y \<Rightarrow> y | Err _ \<Rightarrow> sv_ledger s1)
     in Ok (emit_org (TaxEvasionReported reporter org_id reward) (s1\<lparr>sv_ledger := x\<rparr>)))))))"

definition freeze_organization ::
  "origin \<Rightarrow> nat \<Rightarrow> ('x, 'i) org_state \<Rightarrow> (('x, 'i) org_state, org_failure) result" where
  "freeze_organization og org_id s =
     and_then (ensure_root og) (\<lambda>_.
     ok_or (organizations s org_id) (Module OrgNotFound) (\<lambda>org.
     Ok (emit_org (OrgFrozenByRoot org_id)
          (s\<lparr>organizations := (organizations s)(org_id \<mapsto> org\<lparr>org_status := Frozen\<rparr>)\<rparr>))))"

definition spend_org_funds ::
  "('x, 'i) org_config \<Rightarrow> origin \<Rightarrow> nat \<Rightarrow> account \<Rightarrow> balance \<Rightarrow> ('x, 'i) org_state
   \<Rightarrow> (('x, 'i) org_state, org_failure) result" where
  "spend_org_funds cfg og org_id beneficiary amount s =
     and_then (ensure_signed og) (\<lambda>caller.
     ok_or (organizations s org_id) (Module OrgNotFound) (\<lambda>org.
     ensure (org_status org \<noteq> Frozen) (Module OrgIsFrozen) (
     ensure_director caller org_id s (
     and_then (map_err (\<lambda>_. Module InsufficientBankBalance)
       (transfer (org_currency cfg) (sv_ledger s) (bank_account_id org) beneficiary amount KeepAlive)) (\<lambda>x.
     Ok (emit_org (OrgFundsSpent org_id caller beneficiary amount) (s\<lparr>sv_ledger := x\<rparr>)))))))"

definition file_tax_return_zk ::
  "('x, 'i) org_config \<Rightarrow> env \<Rightarrow> nat \<Rightarrow> origin \<Rightarrow> nat \<Rightarrow> nat \<Rightarrow> balance \<Rightarrow> h256 \<Rightarrow> h256 \<Rightarrow> balance \<Rightarrow> h256
   \<Rightarrow> ('x, 'i) org_state \<Rightarrow> (('x, 'i) org_state, org_failure) result" where
  "file_tax_return_zk cfg env now_secs og org_id region_id profit nullifier commitment amount hash s =
     and_then (ensure_signed og) (\<lambda>caller.
     ok_or (organizations s org_id) (Module OrgNotFound) (\<lambda>org.
     ensure (org_status org \<noteq> Frozen) (Module OrgIsFrozen) (
     ensure_director caller org_id s (
     ensure_within_filing_period now_secs (
     ensure (amount > 0) (Module ZkAmountZero) (
     ensure (amount \<ge> min_tax_amount cfg) (Module BelowMinimumTax) (
     let (confederation, regional) = constitutional_tax_split amount;
         region_treasury = region_treasury_account cfg;
         now = block_number env;
         declaration_id = next_declaration_id s
     in and_then (map_err (\<lambda>_. Module ShieldedCommitmentNotFound)
          (unshield_for_tax (shielded_vaults cfg) env nullifier commitment amount region_treasury s)) (\<lambda>s1.
        and_then (map_err (\<lambda>_. Module InsufficientBankBalance)
          (transfer (org_currency cfg) (sv_ledger s1) region_treasury (confederation_treasury_account cfg) confederation KeepAlive)) (\<lambda>x2.
        let decl = \<lparr>decl_org_id = org_id, decl_region_id = region_id, amount_paid = amount, declared_profit = profit,
                     confederation_share = confederation, regional_share = regional, document_hash = hash,
                     decl_timestamp = now, via_zk_vault = True\<rparr>
        in Ok (emit_org (OrgZkTaxPaid declaration_id org_id region_id amount nullifier)
             (record_tax_return org_id now decl (s1\<lparr>sv_ledger := x2\<rparr>))))))))))))"

datatype org_call =
    RegisterOrganization "byte list" nat nat
  | ActivateOrganization nat
  | AddCrewMember nat account org_role nat
  | FileTaxReturn nat nat balance balance h256
  | ReportTaxEvasion nat
  | FreezeOrganization nat
  | FileTaxReturnZk nat nat balance h256 h256 balance h256
  | SpendOrgFunds nat account balance

fun org_dispatch ::
  "('x, 'i) org_config \<Rightarrow> env \<times> nat \<times> origin \<times> org_call \<Rightarrow> ('x, 'i) org_state
   \<Rightarrow> (('x, 'i) org_state, org_failure) result" where
  "org_dispatch cfg (env, now, og, RegisterOrganization n r f) s = register_organization cfg env og n r f s"
| "org_dispatch cfg (env, now, og, ActivateOrganization i) s = activate_organization cfg env og i s"
| "org_dispatch cfg (env, now, og, AddCrewMember i a ro re) s = add_crew_member env og i a ro re s"
| "org_dispatch cfg (env, now, og, FileTaxReturn i r p a h) s = file_tax_return cfg env now og i r p a h s"
| "org_dispatch cfg (env, now, og, ReportTaxEvasion i) s = report_tax_evasion cfg env og i s"
| "org_dispatch cfg (env, now, og, FreezeOrganization i) s = freeze_organization og i s"
| "org_dispatch cfg (env, now, og, FileTaxReturnZk i r p n c a h) s = file_tax_return_zk cfg env now og i r p n c a h s"
| "org_dispatch cfg (env, now, og, SpendOrgFunds i b a) s = spend_org_funds cfg og i b a s"

lemmas org_handler_defs = register_organization_def activate_organization_def add_crew_member_def file_tax_return_def
  report_tax_evasion_def freeze_organization_def file_tax_return_zk_def spend_org_funds_def

end
