(* ===== verification/Organization_Props.thy ===== *)
theory Organization_Props
  imports Organization
begin

text \<open>
  Organizations over time: the pallet, its block hook and the shielded vaults as one machine; its invariant on
  founders and penalties; the life cycle of an organization; the round-robin scan; and the filing period.
\<close>

section \<open>The machine\<close>

datatype org_input = Extrinsic env nat origin org_call | NewBlock nat | VaultCall "env \<times> origin \<times> vault_call"

fun org_machine :: "('x, 'i) org_config \<Rightarrow> org_input \<Rightarrow> ('x, 'i) org_state \<Rightarrow> (('x, 'i) org_state, unit) result" where
  "org_machine cfg (Extrinsic env now og call) s = map_err (\<lambda>_. ()) (org_dispatch cfg (env, now, og, call) s)"
| "org_machine cfg (NewBlock now) s = Ok (on_initialize cfg now s)"
| "org_machine cfg (VaultCall c) s = map_err (\<lambda>_. ()) (vault_dispatch (shielded_vaults cfg) c s)"

text \<open>Meanwhile other pallets change the ledger and the identity storage.\<close>

definition org_foreign :: "('x, 'i) org_state \<Rightarrow> ('x, 'i) org_state \<Rightarrow> bool" where
  "org_foreign s t \<longleftrightarrow> (\<exists>x i. t = s\<lparr>sv_ledger := x, identity := i\<rparr>)"

section \<open>Frames\<close>

text \<open>The registry: what the invariant reads.\<close>

definition registry where
  "registry s = (next_org_id s, organizations s, crew_members s, org_penalty_debt s, org_founder_deposits s,
                 org_required_founders s)"

lemma registry_eq:
  "registry t = registry s \<longleftrightarrow> next_org_id t = next_org_id s \<and> organizations t = organizations s
     \<and> crew_members t = crew_members s \<and> org_penalty_debt t = org_penalty_debt s
     \<and> org_founder_deposits t = org_founder_deposits s \<and> org_required_founders t = org_required_founders s"
  by (auto simp: registry_def)

lemma org_event_simps [simp]:
  "next_org_id (emit_org e s) = next_org_id s" "organizations (emit_org e s) = organizations s"
  "crew_members (emit_org e s) = crew_members s" "org_penalty_debt (emit_org e s) = org_penalty_debt s"
  "org_founder_deposits (emit_org e s) = org_founder_deposits s"
  "org_required_founders (emit_org e s) = org_required_founders s" "sv_ledger (emit_org e s) = sv_ledger s"
  "last_penalty_block (emit_org e s) = last_penalty_block s" "identity (emit_org e s) = identity s"
  "org_scan_cursor (emit_org e s) = org_scan_cursor s"
  by (simp_all add: emit_org_def)

lemma vault_more:
  assumes "vault_dispatch vc c s = Ok t"
  shows "vault_state.more t = vault_state.more s"
proof -
  obtain env og call where "c = (env, og, call)" by (cases c) auto
  with assms show ?thesis by (cases call) (auto simp: vault_defs ok_simps Let_def)
qed

lemma registry_more: "vault_state.more t = vault_state.more s \<Longrightarrow> registry t = registry s"
  by (cases s; cases t) (simp add: registry_def)

lemma unshield_more: "unshield_for_tax vc env n c v r s = Ok t \<Longrightarrow> vault_state.more t = vault_state.more s"
  by (auto simp: vault_defs ok_simps Let_def)

text \<open>Freezing directors touches the identity storage and the events.\<close>

lemma freeze_frame [simp]:
  "registry (fold (freeze_director cfg i) as s) = registry s"
  "sv_ledger (fold (freeze_director cfg i) as s) = sv_ledger s"
  "last_penalty_block (fold (freeze_director cfg i) as s) = last_penalty_block s"
  "identity (fold (freeze_director cfg i) as s) = fold (freeze_citizen cfg) as (identity s)"
  "org_scan_cursor (fold (freeze_director cfg i) as s) = org_scan_cursor s"
  by (induction as arbitrary: s) (auto simp: freeze_director_def registry_def)

lemmas freeze_registry [simp] = freeze_frame(1)[unfolded registry_eq, THEN conjunct1]
  freeze_frame(1)[unfolded registry_eq, THEN conjunct2, THEN conjunct1]

lemma freeze_fields [simp]:
  "crew_members (fold (freeze_director cfg i) as s) = crew_members s"
  "org_penalty_debt (fold (freeze_director cfg i) as s) = org_penalty_debt s"
  "org_founder_deposits (fold (freeze_director cfg i) as s) = org_founder_deposits s"
  "org_required_founders (fold (freeze_director cfg i) as s) = org_required_founders s"
  using freeze_frame(1)[of cfg i as s] unfolding registry_eq by blast+

text \<open>What punishing organization \<open>i\<close> does to the registry: at most its status and its debt change.\<close>

lemma apply_punishment_frame:
  assumes t: "t = snd (apply_punishment cfg i now s)"
  shows "next_org_id t = next_org_id s" "crew_members t = crew_members s"
    "org_founder_deposits t = org_founder_deposits s" "org_required_founders t = org_required_founders s"
    "sv_ledger t = sv_ledger s" "org_scan_cursor t = org_scan_cursor s"
    "j \<noteq> i \<Longrightarrow> organizations t j = organizations s j" "j \<noteq> i \<Longrightarrow> org_penalty_debt t j = org_penalty_debt s j"
  unfolding t apply_punishment_def mark_delinquent_def accrue_penalty_def Let_def
  by (auto split: option.splits)

lemma apply_punishment_status:
  assumes "organizations s i = Some o1" "t = snd (apply_punishment cfg i now s)"
  shows "organizations t i = Some (if org_status o1 = Active \<and> tax_period_blocks cfg < now - last_tax_period_paid o1
                                   then o1\<lparr>org_status := Delinquent\<rparr> else o1)"
  using assms unfolding apply_punishment_def mark_delinquent_def accrue_penalty_def Let_def
  by (auto simp: sat_sub_def)

text \<open>An organization in arrears whose status stays what it was owes nothing if it owed nothing.\<close>

lemma apply_punishment_no_debt:
  assumes "organizations s i = Some o1" "org_status o1 \<noteq> Active" "org_penalty_debt s i = 0"
    "t = snd (apply_punishment cfg i now s)"
  shows "org_penalty_debt t i = 0"
  using assms unfolding apply_punishment_def accrue_penalty_def Let_def by auto

lemma accrue_penalty_ge:
  "min b (umax 128) \<le> org_penalty_debt s i \<Longrightarrow> min b (umax 128) \<le> org_penalty_debt (accrue_penalty cfg i now s) i"
  by (auto simp: accrue_penalty_def Let_def sat_add_def)

lemma apply_punishment_debt:
  assumes "organizations s i = Some o1"
    "org_status o1 = Active \<and> tax_period_blocks cfg < now - last_tax_period_paid o1
     \<or> min (base_penalty_amount cfg) (umax 128) \<le> org_penalty_debt s i"
  shows "min (base_penalty_amount cfg) (umax 128) \<le> org_penalty_debt (snd (apply_punishment cfg i now s)) i"
proof -
  have "min (base_penalty_amount cfg) (umax 128) \<le> org_penalty_debt (mark_delinquent cfg i now o1 s) i"
    by (simp add: mark_delinquent_def Let_def sat_add_def min_def)
  with assms show ?thesis
    by (auto simp: apply_punishment_def Let_def sat_sub_def intro: accrue_penalty_ge)
qed

section \<open>The invariant\<close>

definition founders_ok :: "('x, 'i) org_config \<Rightarrow> ('x, 'i) org_state \<Rightarrow> nat \<Rightarrow> bool" where
  "founders_ok cfg s i \<longleftrightarrow>
     distinct (map founder (org_founder_deposits s i))
   \<and> (\<forall>d\<in>set (org_founder_deposits s i). founder_amount d = org_activation_deposit cfg
        \<and> map_option crew_role (crew_members s (i, founder d)) = Some Director)"

fun status_ok :: "('x, 'i) org_config \<Rightarrow> org_status \<Rightarrow> nat \<Rightarrow> nat \<Rightarrow> balance \<Rightarrow> bool" where
  "status_ok cfg Pending paid required debt \<longleftrightarrow> paid < required \<and> debt = 0"
| "status_ok cfg Active paid required debt \<longleftrightarrow> paid = required \<and> debt = 0"
| "status_ok cfg Delinquent paid required debt \<longleftrightarrow> paid = required \<and> min (base_penalty_amount cfg) (umax 128) \<le> debt"
| "status_ok cfg Frozen paid required debt \<longleftrightarrow> paid \<le> required"

definition org_ok :: "('x, 'i) org_config \<Rightarrow> ('x, 'i) org_state \<Rightarrow> nat \<Rightarrow> bool" where
  "org_ok cfg s i \<longleftrightarrow>
     (organizations s i = None \<longrightarrow> org_penalty_debt s i = 0 \<and> org_founder_deposits s i = [])
   \<and> (\<forall>o1. organizations s i = Some o1 \<longrightarrow> founders_ok cfg s i \<and> 0 < org_required_founders s i
         \<and> org_required_founders s i \<le> max_founders cfg
         \<and> status_ok cfg (org_status o1) (length (org_founder_deposits s i)) (org_required_founders s i)
             (org_penalty_debt s i))"

definition org_inv :: "('x, 'i) org_config \<Rightarrow> ('x, 'i) org_state \<Rightarrow> bool" where
  "org_inv cfg s \<longleftrightarrow> (next_org_id s < umax 32 \<longrightarrow>
     (\<forall>i. next_org_id s \<le> i \<longrightarrow> organizations s i = None) \<and> (\<forall>i. org_ok cfg s i))"

lemma org_ok_cong:
  assumes "organizations t i = organizations s i" "org_penalty_debt t i = org_penalty_debt s i"
    "org_founder_deposits t i = org_founder_deposits s i" "org_required_founders t i = org_required_founders s i"
    "\<And>a c. crew_members s (i, a) = Some c \<Longrightarrow> crew_members t (i, a) = Some c"
  shows "org_ok cfg s i \<Longrightarrow> org_ok cfg t i"
proof -
  have "map_option crew_role (crew_members t (i, a)) = Some Director"
    if "map_option crew_role (crew_members s (i, a)) = Some Director" for a
    using that assms(5)[of a] by (cases "crew_members s (i, a)") auto
  with assms(1-4) show "org_ok cfg s i \<Longrightarrow> org_ok cfg t i"
    unfolding org_ok_def founders_ok_def by simp
qed

lemma org_inv_below: "org_inv cfg s \<Longrightarrow> next_org_id s < umax 32 \<Longrightarrow> organizations s i = Some a \<Longrightarrow> i < next_org_id s"
  by (rule ccontr) (simp add: org_inv_def)

lemma org_inv_registry: "registry t = registry s \<Longrightarrow> org_inv cfg s \<Longrightarrow> org_inv cfg t"
  unfolding registry_eq org_inv_def org_ok_def founders_ok_def by (elim conjE) simp

text \<open>A step that changes one organization and never goes back in the counter.\<close>

lemma org_inv_local:
  assumes inv: "org_inv cfg s" and ok: "next_org_id s < umax 32 \<Longrightarrow> org_ok cfg t i"
    and nx: "next_org_id t = next_org_id s" and i: "organizations s i \<noteq> None"
    and crew: "\<And>k a c. crew_members s (k, a) = Some c \<Longrightarrow> crew_members t (k, a) = Some c"
    and rest: "\<And>j. j \<noteq> i \<Longrightarrow> organizations t j = organizations s j \<and> org_penalty_debt t j = org_penalty_debt s j
      \<and> org_founder_deposits t j = org_founder_deposits s j \<and> org_required_founders t j = org_required_founders s j"
  shows "org_inv cfg t"
  unfolding org_inv_def nx
proof (intro impI conjI allI)
  assume lt: "next_org_id s < umax 32"
  with inv have free: "\<And>j. next_org_id s \<le> j \<Longrightarrow> organizations s j = None" and all: "\<And>j. org_ok cfg s j"
    by (auto simp: org_inv_def)
  show "organizations t j = None" if "next_org_id s \<le> j" for j
    using free[OF that] rest[of j] i by (cases "j = i") auto
  show "org_ok cfg t j" for j
    using ok[OF lt] org_ok_cong[OF _ _ _ _ crew all, of j] rest[of j] by (cases "j = i") auto
qed

section \<open>Every step keeps it\<close>

lemma apply_punishment_inv:
  assumes inv: "org_inv cfg s"
  shows "org_inv cfg (snd (apply_punishment cfg i now s))" (is "org_inv cfg ?t")
proof (cases "organizations s i")
  case None
  then show ?thesis using inv by (simp add: apply_punishment_def)
next
  case (Some o1)
  note frame = apply_punishment_frame[OF refl, where cfg = cfg and i = i and now = now and s = s]
  show ?thesis
  proof (rule org_inv_local[OF inv])
    show "next_org_id ?t = next_org_id s" "organizations s i \<noteq> None" using frame Some by auto
    show "\<And>k a c. crew_members s (k, a) = Some c \<Longrightarrow> crew_members ?t (k, a) = Some c" by (simp add: frame)
    show "\<And>j. j \<noteq> i \<Longrightarrow> organizations ?t j = organizations s j \<and> org_penalty_debt ?t j = org_penalty_debt s j
      \<and> org_founder_deposits ?t j = org_founder_deposits s j \<and> org_required_founders ?t j = org_required_founders s j"
      by (simp add: frame)
    assume "next_org_id s < umax 32"
    with inv have ok: "org_ok cfg s i" by (auto simp: org_inv_def)
    show "org_ok cfg ?t i"
    proof (cases "org_status o1")
      case Pending
      with ok Some show ?thesis
        using apply_punishment_status[OF Some refl, where cfg = cfg and now = now]
          apply_punishment_no_debt[OF Some _ _ refl, where cfg = cfg and now = now]
        by (simp add: org_ok_def founders_ok_def frame)
    next
      case Active
      show ?thesis
      proof (cases "tax_period_blocks cfg < now - last_tax_period_paid o1")
        case True
        with apply_punishment_status[OF Some refl, where cfg = cfg and now = now] Active ok Some
          apply_punishment_debt[OF Some disjI1, where cfg = cfg and now = now]
        show ?thesis by (simp add: org_ok_def founders_ok_def frame)
      next
        case False
        then have "?t = s" using Some by (simp add: apply_punishment_def sat_sub_def)
        with ok show ?thesis by simp
      qed
    next
      case Delinquent
      with ok Some show ?thesis
        using apply_punishment_status[OF Some refl, where cfg = cfg and now = now]
          apply_punishment_debt[OF Some disjI2, where cfg = cfg and now = now]
        by (simp add: org_ok_def founders_ok_def frame)
    next
      case Frozen
      with ok Some show ?thesis
        using apply_punishment_status[OF Some refl, where cfg = cfg and now = now] by (simp add: org_ok_def founders_ok_def frame)
    qed
  qed
qed

lemma scan_one_inv: "org_inv cfg s \<Longrightarrow> org_inv cfg (scan_one cfg now i s)"
  by (auto simp: scan_one_def intro: apply_punishment_inv split: option.split)

lemma org_scan_inv: "org_inv cfg s \<Longrightarrow> org_inv cfg (snd (org_scan cfg now n c i k nx s))"
  by (induction k arbitrary: i nx s) (auto simp: Let_def intro: scan_one_inv)

lemma on_initialize_inv:
  assumes inv: "org_inv cfg s"
  shows "org_inv cfg (on_initialize cfg now s)"
proof -
  let ?n = "next_org_id s" and ?c = "org_scan_cursor s"
  obtain nx s1 where s1: "org_scan cfg now ?n ?c 0 (max_orgs_per_block cfg) ?c s = (nx, s1)" by fastforce
  have "org_inv cfg s1" using org_scan_inv[OF inv, of now ?n ?c 0 "max_orgs_per_block cfg" ?c] s1 by simp
  then have "org_inv cfg (s1\<lparr>org_scan_cursor := nx\<rparr>)" by (rule org_inv_registry[rotated]) (simp add: registry_def)
  with inv s1 show ?thesis by (simp add: on_initialize_def Let_def)
qed

lemma register_inv:
  assumes inv: "org_inv cfg s" and d: "register_organization cfg env og name region req s = Ok t"
  shows "org_inv cfg t"
proof -
  let ?i = "next_org_id s"
  let ?c = "\<lparr>crew_role = Director, region_assigned = region, active_since = block_number env\<rparr>"
  let ?o = "\<lparr>org_name = name, hq_region = region, org_status = Pending, bank_account_id = derive_org_account cfg ?i,
    last_tax_period_paid = block_number env, registered_at = block_number env\<rparr>"
  from d obtain a where req: "max req 1 \<le> max_founders cfg" and
    t: "next_org_id t = sat_add 32 ?i 1" "org_required_founders t = (org_required_founders s)(?i := max req 1)"
      "org_penalty_debt t = org_penalty_debt s" "org_founder_deposits t = org_founder_deposits s"
      "crew_members t = (crew_members s)((?i, a) \<mapsto> ?c)" "organizations t = (organizations s)(?i \<mapsto> ?o)"
    by (auto simp: register_organization_def Let_def ok_simps emit_org_def)
  show ?thesis
    unfolding org_inv_def
  proof (intro impI conjI allI)
    assume lt: "next_org_id t < umax 32"
    then have nx: "next_org_id t = Suc ?i" "?i < umax 32" using t(1) by (auto simp: sat_add_def)
    with inv have free: "\<And>j. ?i \<le> j \<Longrightarrow> organizations s j = None" and all: "\<And>j. org_ok cfg s j"
      by (auto simp: org_inv_def)
    show "organizations t j = None" if "next_org_id t \<le> j" for j using free[of j] that t(6) nx by auto
    show "org_ok cfg t j" for j
    proof (cases "j = ?i")
      case True
      with all[of ?i] free[of ?i] t req show ?thesis
        by (auto simp: org_ok_def founders_ok_def)
    next
      case False
      show ?thesis by (rule org_ok_cong[OF _ _ _ _ _ all[of j]]) (use t False in auto)
    qed
  qed
qed

lemma ensure_director_Ok [ok_simps]:
  "ensure_director a i s k = Ok t \<longleftrightarrow> organizations s i \<noteq> None
     \<and> map_option crew_role (crew_members s (i, a)) = Some Director \<and> k = Ok t"
  by (cases "crew_members s (i, a)") (auto simp: ensure_director_def ok_simps)

definition filing_open :: "nat \<Rightarrow> bool" where
  "filing_open now \<longleftrightarrow> now = 0 \<or> (case year_loop 1970 (now div 86400) of (y, r) \<Rightarrow> r + 1 \<le> (if is_leap_year y then 106 else 105))"

lemma filing_period_Ok [ok_simps]: "ensure_within_filing_period now k = Ok t \<longleftrightarrow> filing_open now \<and> k = Ok t"
  by (auto simp: ensure_within_filing_period_def filing_open_def Let_def ok_simps split: prod.splits)

lemma activateD:
  assumes d: "activate_organization cfg env og i s = Ok t"
  obtains a o1 x where "og = Signed a" "organizations s i = Some o1" "org_status o1 = Pending"
    "map_option crew_role (crew_members s (i, a)) = Some Director"
    "\<forall>d\<in>set (org_founder_deposits s i). founder d \<noteq> a"
    "transfer (org_currency cfg) (sv_ledger s) a (bank_account_id o1) (org_activation_deposit cfg) KeepAlive = Ok x"
    "sv_ledger t = x" "next_org_id t = next_org_id s" "crew_members t = crew_members s"
    "org_penalty_debt t = org_penalty_debt s" "org_required_founders t = org_required_founders s"
    "org_founder_deposits t = (org_founder_deposits s)(i := org_founder_deposits s i @
       [\<lparr>founder = a, founder_amount = org_activation_deposit cfg, founder_block = block_number env\<rparr>])"
    "organizations t = (if org_required_founders s i \<le> Suc (length (org_founder_deposits s i))
       then (organizations s)(i \<mapsto> o1\<lparr>org_status := Active\<rparr>) else organizations s)"
proof -
  let ?ds = "org_founder_deposits s i"
  define ds' where "ds' a = ?ds @ [\<lparr>founder = a, founder_amount = org_activation_deposit cfg, founder_block = block_number env\<rparr>]" for a
  from d obtain a o1 x e e' where og: "og = Signed a" and org: "organizations s i = Some o1" "org_status o1 = Pending"
    and dir: "map_option crew_role (crew_members s (i, a)) = Some Director"
    and new: "\<forall>d\<in>set ?ds. founder d \<noteq> a"
    and x: "transfer (org_currency cfg) (sv_ledger s) a (bank_account_id o1) (org_activation_deposit cfg) KeepAlive = Ok x"
    and tt: "(if org_required_founders s i \<le> length (ds' a)
         then emit_org e (set_org_status i Active
           (emit_org e' (s\<lparr>sv_ledger := x, org_founder_deposits := (org_founder_deposits s)(i := ds' a)\<rparr>)))
         else emit_org e' (s\<lparr>sv_ledger := x, org_founder_deposits := (org_founder_deposits s)(i := ds' a)\<rparr>)) = t"
    unfolding activate_organization_def Let_def ok_simps result.inject ds'_def by blast
  show thesis
    by (rule that[OF og org dir new x]; unfold tt[symmetric] ds'_def;
        use org(1) in \<open>cases "org_required_founders s i \<le> Suc (length ?ds)"; simp add: set_org_status_def\<close>)
qed

lemma activate_inv:
  assumes inv: "org_inv cfg s" and d: "activate_organization cfg env og i s = Ok t"
  shows "org_inv cfg t"
  using d
proof (rule activateD)
  let ?ds = "org_founder_deposits s i"
  fix a o1 x
  assume org: "organizations s i = Some o1" "org_status o1 = Pending"
    and dir: "map_option crew_role (crew_members s (i, a)) = Some Director"
    and new: "\<forall>d\<in>set ?ds. founder d \<noteq> a"
    and t: "next_org_id t = next_org_id s" "crew_members t = crew_members s" "org_penalty_debt t = org_penalty_debt s"
      "org_required_founders t = org_required_founders s"
      "org_founder_deposits t = (org_founder_deposits s)(i := ?ds @
         [\<lparr>founder = a, founder_amount = org_activation_deposit cfg, founder_block = block_number env\<rparr>])"
      "organizations t = (if org_required_founders s i \<le> Suc (length ?ds)
         then (organizations s)(i \<mapsto> o1\<lparr>org_status := Active\<rparr>) else organizations s)"
  show ?thesis
  proof (rule org_inv_local[OF inv, where i = i])
    show "next_org_id t = next_org_id s" "organizations s i \<noteq> None" using t org by auto
    show "\<And>k b c. crew_members s (k, b) = Some c \<Longrightarrow> crew_members t (k, b) = Some c" using t by simp
    show "\<And>j. j \<noteq> i \<Longrightarrow> organizations t j = organizations s j \<and> org_penalty_debt t j = org_penalty_debt s j
      \<and> org_founder_deposits t j = org_founder_deposits s j \<and> org_required_founders t j = org_required_founders s j"
      using t by auto
    assume "next_org_id s < umax 32"
    with inv have "org_ok cfg s i" by (auto simp: org_inv_def)
    with org have ok: "founders_ok cfg s i" "length ?ds < org_required_founders s i" "org_penalty_debt s i = 0"
      "org_required_founders s i \<le> max_founders cfg" by (auto simp: org_ok_def)
    then have "founders_ok cfg t i" using new dir by (auto simp: founders_ok_def t)
    with ok show "org_ok cfg t i"
      using org by (cases "org_required_founders s i \<le> Suc (length ?ds)") (auto simp: org_ok_def t)
  qed
qed

lemma add_crew_inv:
  assumes inv: "org_inv cfg s" and d: "add_crew_member env og i m r re s = Ok t"
  shows "org_inv cfg t"
proof -
  from d obtain c o1 where org: "organizations s i = Some o1" "crew_members s (i, m) = None"
    and t: "next_org_id t = next_org_id s" "crew_members t = (crew_members s)((i, m) \<mapsto> c)"
      "org_penalty_debt t = org_penalty_debt s" "org_required_founders t = org_required_founders s"
      "org_founder_deposits t = org_founder_deposits s" "organizations t = organizations s"
    unfolding add_crew_member_def Let_def ok_simps by (auto simp: emit_org_def)
  have crew: "crew_members s (k, b) = Some c' \<Longrightarrow> crew_members t (k, b) = Some c'" for k b c'
    using t(2) org(2) by auto
  show ?thesis
  proof (rule org_inv_local[OF inv, where i = i])
    show "org_ok cfg t i" if "next_org_id s < umax 32"
      by (rule org_ok_cong[OF _ _ _ _ crew]) (use inv that t in \<open>auto simp: org_inv_def\<close>)
  qed (use t org crew in auto)
qed

lemma record_tax_return_inv:
  assumes inv: "org_inv cfg s"
  shows "org_inv cfg (record_tax_return i now decl s)" (is "org_inv cfg ?t")
proof (cases "organizations s i")
  case None
  have t: "next_org_id ?t = next_org_id s" "crew_members ?t = crew_members s"
      "org_penalty_debt ?t = (org_penalty_debt s)(i := 0)" "org_required_founders ?t = org_required_founders s"
      "org_founder_deposits ?t = org_founder_deposits s" "organizations ?t = organizations s"
    using None by (simp_all add: record_tax_return_def Let_def)
  have "next_org_id s < umax 32 \<Longrightarrow> org_penalty_debt s i = 0" using inv None by (auto simp: org_inv_def org_ok_def)
  with inv t show ?thesis by (auto simp: org_inv_def org_ok_def founders_ok_def None)
next
  case (Some o1)
  let ?st = "if org_status o1 = Delinquent then Active else org_status o1"
  have t: "next_org_id ?t = next_org_id s" "crew_members ?t = crew_members s"
      "org_penalty_debt ?t = (org_penalty_debt s)(i := 0)" "org_required_founders ?t = org_required_founders s"
      "org_founder_deposits ?t = org_founder_deposits s"
      "organizations ?t = (organizations s)(i \<mapsto> o1\<lparr>last_tax_period_paid := now, org_status := ?st\<rparr>)"
    using Some by (simp_all add: record_tax_return_def Let_def)
  show ?thesis
  proof (rule org_inv_local[OF inv, where i = i])
    assume "next_org_id s < umax 32"
    with inv have "org_ok cfg s i" by (auto simp: org_inv_def)
    with Some show "org_ok cfg ?t i"
      by (cases "org_status o1") (auto simp: org_ok_def founders_ok_def t)
  qed (use t Some in auto)
qed

lemma registry_upd [simp]:
  "registry (s\<lparr>sv_ledger := x\<rparr>) = registry s" "registry (emit_org e s) = registry s"
  by (simp_all add: registry_def)

lemma file_tax_return_Ok:
  assumes "file_tax_return cfg env now og i r p v h s = Ok t"
  obtains a o1 x1 x2 where "og = Signed a" "organizations s i = Some o1" "org_status o1 \<noteq> Frozen"
    "map_option crew_role (crew_members s (i, a)) = Some Director" "filing_open now" "min_tax_amount cfg \<le> v"
    "transfer (org_currency cfg) (sv_ledger s) (bank_account_id o1) (region_treasury_account cfg)
       (snd (constitutional_tax_split v)) KeepAlive = Ok x1"
    "transfer (org_currency cfg) x1 (bank_account_id o1) (confederation_treasury_account cfg)
       (fst (constitutional_tax_split v)) KeepAlive = Ok x2"
    "emit_org (TaxReturnFiled (next_declaration_id s) i r v p (fst (constitutional_tax_split v))
        (snd (constitutional_tax_split v)) h)
      (record_tax_return i (block_number env)
       \<lparr>decl_org_id = i, decl_region_id = r, amount_paid = v, declared_profit = p,
        confederation_share = fst (constitutional_tax_split v), regional_share = snd (constitutional_tax_split v),
        document_hash = h, decl_timestamp = block_number env, via_zk_vault = False\<rparr> (s\<lparr>sv_ledger := x2\<rparr>)) = t"
  using assms unfolding file_tax_return_def Let_def prod.case_eq_if ok_simps result.inject
  by (elim exE conjE) (rule that; assumption)

lemma file_tax_return_zk_Ok:
  assumes "file_tax_return_zk cfg env now og i r p n c v h s = Ok t"
  obtains a o1 s1 x2 where "og = Signed a" "organizations s i = Some o1" "org_status o1 \<noteq> Frozen"
    "map_option crew_role (crew_members s (i, a)) = Some Director" "filing_open now" "0 < v" "min_tax_amount cfg \<le> v"
    "unshield_for_tax (shielded_vaults cfg) env n c v (region_treasury_account cfg) s = Ok s1"
    "transfer (org_currency cfg) (sv_ledger s1) (region_treasury_account cfg) (confederation_treasury_account cfg)
       (fst (constitutional_tax_split v)) KeepAlive = Ok x2"
    "emit_org (OrgZkTaxPaid (next_declaration_id s) i r v n)
      (record_tax_return i (block_number env)
       \<lparr>decl_org_id = i, decl_region_id = r, amount_paid = v, declared_profit = p,
        confederation_share = fst (constitutional_tax_split v), regional_share = snd (constitutional_tax_split v),
        document_hash = h, decl_timestamp = block_number env, via_zk_vault = True\<rparr> (s1\<lparr>sv_ledger := x2\<rparr>)) = t"
  using assms unfolding file_tax_return_zk_def Let_def prod.case_eq_if ok_simps result.inject
  by (elim exE conjE) (rule that; assumption)

lemma freeze_inv: "org_inv cfg s \<Longrightarrow> freeze_organization og i s = Ok t \<Longrightarrow> org_inv cfg t"
proof -
  assume inv: "org_inv cfg s" and d: "freeze_organization og i s = Ok t"
  from d obtain o1 where org: "organizations s i = Some o1" and t: "next_org_id t = next_org_id s"
      "crew_members t = crew_members s" "org_penalty_debt t = org_penalty_debt s"
      "org_required_founders t = org_required_founders s" "org_founder_deposits t = org_founder_deposits s"
      "organizations t = (organizations s)(i \<mapsto> o1\<lparr>org_status := Frozen\<rparr>)"
    by (auto simp: freeze_organization_def ok_simps)
  show ?thesis
  proof (rule org_inv_local[OF inv, where i = i])
    assume "next_org_id s < umax 32"
    with inv have "org_ok cfg s i" by (auto simp: org_inv_def)
    with org show "org_ok cfg t i"
      by (cases "org_status o1") (auto simp: org_ok_def founders_ok_def t)
  qed (use t org in auto)
qed

lemma org_inv_event: "org_inv cfg s \<Longrightarrow> org_inv cfg (emit_org e s)"
  by (rule org_inv_registry[OF registry_upd(2)])

lemma org_inv_ledger: "org_inv cfg s \<Longrightarrow> org_inv cfg (s\<lparr>sv_ledger := x\<rparr>)"
  by (rule org_inv_registry[OF registry_upd(1)])

lemma file_tax_return_inv: "org_inv cfg s \<Longrightarrow> file_tax_return cfg env now og i r p v h s = Ok t \<Longrightarrow> org_inv cfg t"
  by (erule file_tax_return_Ok) (blast intro: org_inv_event record_tax_return_inv org_inv_ledger)

lemma file_tax_return_zk_inv:
  assumes inv: "org_inv cfg s" and d: "file_tax_return_zk cfg env now og i r p n c v h s = Ok t"
  shows "org_inv cfg t"
  using d
proof (rule file_tax_return_zk_Ok)
  fix s1
  assume "unshield_for_tax (shielded_vaults cfg) env n c v (region_treasury_account cfg) s = Ok s1"
  then have "org_inv cfg s1" by (rule org_inv_registry[OF registry_more[OF unshield_more] inv])
  then show "emit_org e (record_tax_return i b d (s1\<lparr>sv_ledger := x\<rparr>)) = t \<Longrightarrow> org_inv cfg t" for e b d x
    by (blast intro: org_inv_event record_tax_return_inv org_inv_ledger)
qed

lemma report_inv: "org_inv cfg s \<Longrightarrow> report_tax_evasion cfg env og i s = Ok t \<Longrightarrow> org_inv cfg t"
  unfolding report_tax_evasion_def Let_def ok_simps result.inject
  by (elim exE conjE, hypsubst, intro org_inv_event org_inv_ledger apply_punishment_inv)

lemma spend_inv: "org_inv cfg s \<Longrightarrow> spend_org_funds cfg og i b v s = Ok t \<Longrightarrow> org_inv cfg t"
  unfolding spend_org_funds_def Let_def ok_simps result.inject
  by (elim exE conjE, hypsubst, intro org_inv_event org_inv_ledger)

lemma org_dispatch_inv: "org_inv cfg s \<Longrightarrow> org_dispatch cfg (env, now, og, call) s = Ok t \<Longrightarrow> org_inv cfg t"
  by (cases call; simp; erule (1) register_inv activate_inv add_crew_inv freeze_inv file_tax_return_inv
      file_tax_return_zk_inv report_inv spend_inv)

lemma org_machine_inv: "org_inv cfg s \<Longrightarrow> org_machine cfg c s = Ok t \<Longrightarrow> org_inv cfg t"
  by (cases c; simp add: map_err_Ok)
    (blast intro: org_dispatch_inv on_initialize_inv org_inv_registry registry_more vault_more)+

lemma org_foreign_registry: "org_foreign s t \<Longrightarrow> registry t = registry s"
  by (auto simp: org_foreign_def registry_def)

interpretation orgm: pallet_machine "org_machine cfg" org_foreign "org_inv cfg"
  for cfg :: "('x, 'i) org_config"
  by standard (auto intro: org_machine_inv org_inv_registry org_foreign_registry)

end
