(* ===== verification/Organization_Claims.thy ===== *)
theory Organization_Claims
  imports Organization_Props
begin

text \<open>Properties of organizations: founders and penalties, the life cycle, the scan, reports, the filing period.\<close>

section \<open>Founders and penalties\<close>

definition org_empty :: "'x \<Rightarrow> 'i \<Rightarrow> ('x, 'i) org_state" where
  "org_empty x i = \<lparr>sv_ledger = x, shielded_commitments = (\<lambda>_. False), spent_nullifiers = (\<lambda>_. None),
     org_vault_balance = (\<lambda>_. 0), total_shielded = 0, vault_events = [], identity = i, next_org_id = 0,
     organizations = (\<lambda>_. None), crew_members = (\<lambda>_. None), next_declaration_id = 0, tax_declarations = (\<lambda>_. None),
     org_penalty_debt = (\<lambda>_. 0), last_penalty_block = (\<lambda>_. 0), org_founder_deposits = (\<lambda>_. []),
     org_required_founders = (\<lambda>_. 0), org_scan_cursor = 0, org_events = []\<rparr>"

lemma org_inv_empty: "org_inv cfg (org_empty x i)"
  by (simp add: org_inv_def org_ok_def org_empty_def)

text \<open>C10: Founders and penalties agree with the status. In every state reachable from empty storage, by calls of the pallet and
  of the shielded vaults, new blocks, and other pallets' changes of the ledger and of the identities, while the
  identifiers last: the recorded deposits of an organization are the full amount each, by distinct directors; a
  pending one still lacks deposits; an active or delinquent one has exactly the required number; a pending or active
  one owes no penalty, and a delinquent one at least the base penalty. A frozen one has at most the required number
  and need not have it: Root may freeze any organization, a pending one included, and its deposits and its debt
  stay what they were.\<close>

theorem founders_and_penalties:
  fixes s :: "('x, 'i) org_state"
  assumes run: "reachable (org_machine cfg) org_foreign (org_empty x0 i0) s"
    and ids: "next_org_id s < umax 32" and org: "organizations s i = Some o1"
  shows "distinct (map founder (org_founder_deposits s i))
    \<and> (\<forall>d\<in>set (org_founder_deposits s i). founder_amount d = org_activation_deposit cfg
         \<and> (\<exists>c. crew_members s (i, founder d) = Some c \<and> crew_role c = Director))
    \<and> (org_status o1 = Pending \<longrightarrow> length (org_founder_deposits s i) < org_required_founders s i)
    \<and> (org_status o1 \<in> {Active, Delinquent} \<longrightarrow> length (org_founder_deposits s i) = org_required_founders s i)
    \<and> (org_status o1 = Frozen \<longrightarrow> length (org_founder_deposits s i) \<le> org_required_founders s i)
    \<and> (org_status o1 \<in> {Pending, Active} \<longrightarrow> org_penalty_debt s i = 0)
    \<and> (org_status o1 = Delinquent \<longrightarrow> min (base_penalty_amount cfg) (umax 128) \<le> org_penalty_debt s i)
    \<and> (\<exists>t. freeze_organization Root i s = Ok t \<and> organizations t i = Some (o1\<lparr>org_status := Frozen\<rparr>)
         \<and> org_founder_deposits t i = org_founder_deposits s i \<and> org_penalty_debt t i = org_penalty_debt s i)"
proof -
  have "org_ok cfg s i"
    using orgm.reachable_inv[OF run org_inv_empty] ids by (auto simp: org_inv_def)
  with org have "founders_ok cfg s i" and st: "status_ok cfg (org_status o1) (length (org_founder_deposits s i))
      (org_required_founders s i) (org_penalty_debt s i)"
    by (auto simp: org_ok_def)
  moreover have "\<exists>t. freeze_organization Root i s = Ok t \<and> organizations t i = Some (o1\<lparr>org_status := Frozen\<rparr>)
      \<and> org_founder_deposits t i = org_founder_deposits s i \<and> org_penalty_debt t i = org_penalty_debt s i"
    using org by (simp add: freeze_organization_def)
  ultimately show ?thesis
    by (cases "org_status o1") (auto simp: founders_ok_def)
qed

section \<open>The life of an organization\<close>

fun status_edge :: "org_status \<Rightarrow> org_status \<Rightarrow> bool" where
  "status_edge Pending st \<longleftrightarrow> st \<noteq> Delinquent"
| "status_edge Active st \<longleftrightarrow> st \<noteq> Pending"
| "status_edge Delinquent st \<longleftrightarrow> st \<in> {Active, Frozen}"
| "status_edge Frozen st \<longleftrightarrow> False"

definition org_edge :: "organization \<Rightarrow> organization \<Rightarrow> bool" where
  "org_edge a b \<longleftrightarrow> status_edge (org_status a) (org_status b) \<and> org_name b = org_name a \<and> hq_region b = hq_region a
     \<and> bank_account_id b = bank_account_id a \<and> registered_at b = registered_at a"

text \<open>A step of the machine from a state with the invariant, with identifiers left afterwards.\<close>

definition org_step :: "('x, 'i) org_config \<Rightarrow> ('x, 'i) org_state \<Rightarrow> ('x, 'i) org_state \<Rightarrow> bool" where
  "org_step cfg s t \<longleftrightarrow> org_inv cfg s \<and> next_org_id s < umax 32 \<and> machine_step (org_machine cfg) org_foreign s t"

text \<open>What a block may do to an organization: nothing, or mark an active one delinquent.\<close>

definition marked :: "organization option \<Rightarrow> organization option \<Rightarrow> bool" where
  "marked x y \<longleftrightarrow> y = x \<or> (\<exists>o1. x = Some o1 \<and> org_status o1 = Active \<and> y = Some (o1\<lparr>org_status := Delinquent\<rparr>))"

lemma marked_refl: "marked x x" by (simp add: marked_def)

lemma marked_trans: "marked x y \<Longrightarrow> marked y z \<Longrightarrow> marked x z"
  by (auto simp: marked_def)

lemma apply_punishment_marked:
  "marked (organizations s i) (organizations (snd (apply_punishment cfg j now s)) i)"
proof (cases "organizations s j")
  case None
  then show ?thesis by (simp add: apply_punishment_def marked_refl)
next
  case (Some o1)
  then show ?thesis
    using apply_punishment_frame(7)[OF refl, of i j cfg now s] apply_punishment_status[OF Some refl, where cfg = cfg and now = now]
    by (cases "i = j") (auto simp: marked_def)
qed

lemma scan_one_marked: "marked (organizations s i) (organizations (scan_one cfg now j s) i)"
  by (auto simp: scan_one_def marked_refl apply_punishment_marked split: option.split)

lemma org_scan_marked: "marked (organizations s i) (organizations (snd (org_scan cfg now n c k m nx s)) i)"
  by (induction m arbitrary: k nx s) (auto simp: Let_def marked_refl scan_one_marked intro: marked_trans[OF scan_one_marked])

lemma on_initialize_marked: "marked (organizations s i) (organizations (on_initialize cfg now s) i)"
  using org_scan_marked[of s i cfg now "next_org_id s" "org_scan_cursor s" 0 "max_orgs_per_block cfg" "org_scan_cursor s"]
  by (auto simp: on_initialize_def Let_def prod.case_eq_if marked_refl)

lemma marked_edge: "marked (Some a) x \<Longrightarrow> x \<noteq> Some a \<Longrightarrow> \<exists>b. x = Some b \<and> org_edge a b"
  by (auto simp: marked_def org_edge_def)

text \<open>A call changes a registered organization along the edges, if at all.\<close>

lemma org_dispatch_edge:
  assumes d: "org_dispatch cfg (env, now, og, call) s = Ok t" and a: "organizations s i = Some a"
    and fresh: "i < next_org_id s" and ch: "organizations t i \<noteq> Some a"
  shows "\<exists>b. organizations t i = Some b \<and> org_edge a b"
proof (cases call)
  case (RegisterOrganization n r f)
  with d fresh a have "organizations t i = Some a"
    by (auto simp: register_organization_def Let_def ok_simps)
  with ch show ?thesis by simp
next
  case (ActivateOrganization j)
  with d have "activate_organization cfg env og j s = Ok t" by simp
  then show ?thesis
    by (rule activateD) (use ch a in \<open>auto simp: org_edge_def split: if_splits\<close>)
next
  case (AddCrewMember j m r re)
  with d have "organizations t = organizations s" by (auto simp: add_crew_member_def Let_def ok_simps)
  with ch a show ?thesis by simp
next
  case (FileTaxReturn j r p v h)
  with d have "file_tax_return cfg env now og j r p v h s = Ok t" by simp
  then show ?thesis
  proof (rule file_tax_return_Ok)
    fix o1 e dcl x
    assume "organizations s j = Some o1" "org_status o1 \<noteq> Frozen"
      "emit_org e (record_tax_return j (block_number env) dcl (s\<lparr>sv_ledger := x\<rparr>)) = t"
    with ch a show ?thesis
      by (cases "org_status o1") (auto simp: record_tax_return_def Let_def org_edge_def split: if_splits)
  qed
next
  case (FileTaxReturnZk j r p n c v h)
  with d have "file_tax_return_zk cfg env now og j r p n c v h s = Ok t" by simp
  then show ?thesis
  proof (rule file_tax_return_zk_Ok)
    fix o1 e dcl x s1
    assume org: "organizations s j = Some o1" "org_status o1 \<noteq> Frozen"
      and u: "unshield_for_tax (shielded_vaults cfg) env n c v (region_treasury_account cfg) s = Ok s1"
      and t: "emit_org e (record_tax_return j (block_number env) dcl (s1\<lparr>sv_ledger := x\<rparr>)) = t"
    have "organizations s1 = organizations s"
      using registry_more[OF unshield_more[OF u]] by (simp add: registry_eq)
    with org t[symmetric] ch a show ?thesis
      by (cases "org_status o1") (auto simp: record_tax_return_def Let_def org_edge_def split: if_splits)
  qed
next
  case (ReportTaxEvasion j)
  with d have "organizations t = organizations (snd (apply_punishment cfg j (block_number env) s))"
    by (auto simp: report_tax_evasion_def Let_def ok_simps)
  then show ?thesis
    using marked_edge ch a apply_punishment_marked[of s i cfg j "block_number env"] by auto
next
  case (FreezeOrganization j)
  with d ch a show ?thesis by (cases "org_status a") (auto simp: freeze_organization_def ok_simps org_edge_def split: if_splits)
next
  case (SpendOrgFunds j b v)
  with d have "organizations t = organizations s" by (auto simp: spend_org_funds_def ok_simps)
  with ch a show ?thesis by simp
qed

lemma scan_one_next: "next_org_id (scan_one cfg now j s) = next_org_id s"
  by (auto simp: scan_one_def apply_punishment_frame(1)[OF refl] split: option.split)

lemma org_scan_next: "next_org_id (snd (org_scan cfg now n c k m nx s)) = next_org_id s"
  by (induction m arbitrary: k nx s) (auto simp: Let_def scan_one_next)

lemma on_initialize_next: "next_org_id (on_initialize cfg now s) = next_org_id s"
  by (simp add: on_initialize_def Let_def prod.case_eq_if org_scan_next)

lemma org_dispatch_next:
  assumes "org_dispatch cfg (env, now, og, call) s = Ok t"
  shows "next_org_id t = next_org_id s \<or> next_org_id t = sat_add 32 (next_org_id s) 1"
proof (cases call)
  case (RegisterOrganization n r f)
  with assms show ?thesis by (auto simp: register_organization_def Let_def ok_simps)
next
  case (ActivateOrganization j)
  with assms have "activate_organization cfg env og j s = Ok t" by simp
  then show ?thesis by (rule activateD) simp
next
  case (FileTaxReturn j r p v h)
  with assms have "file_tax_return cfg env now og j r p v h s = Ok t" by simp
  then show ?thesis by (rule file_tax_return_Ok) (auto simp: record_tax_return_def Let_def)
next
  case (FileTaxReturnZk j r p n c v h)
  with assms have "file_tax_return_zk cfg env now og j r p n c v h s = Ok t" by simp
  then show ?thesis
  proof (rule file_tax_return_zk_Ok)
    fix s1 e d x
    assume u: "unshield_for_tax (shielded_vaults cfg) env n c v (region_treasury_account cfg) s = Ok s1"
      and t: "emit_org e (record_tax_return j (block_number env) d (s1\<lparr>sv_ledger := x\<rparr>)) = t"
    show ?thesis using registry_more[OF unshield_more[OF u]] t[symmetric]
      by (simp add: registry_eq record_tax_return_def Let_def)
  qed
qed (use assms in \<open>auto simp: add_crew_member_def report_tax_evasion_def freeze_organization_def spend_org_funds_def
       Let_def ok_simps apply_punishment_frame(1)[OF refl]\<close>)

lemma org_machine_step_cases:
  assumes "machine_step (org_machine cfg) org_foreign s t"
  obtains (call) env now og c where "org_dispatch cfg (env, now, og, c) s = Ok t"
    | (block) now where "t = on_initialize cfg now s"
    | (same) "registry t = registry s" "org_scan_cursor t = org_scan_cursor s"
proof -
  from assms consider (m) c where "org_machine cfg c s = Ok t" | (other) "org_foreign s t"
    by (auto simp: machine_step_def)
  then show thesis
  proof cases
    case m
    show thesis
    proof (cases c)
      case (VaultCall v)
      with m have "vault_dispatch (shielded_vaults cfg) v s = Ok t" by (simp add: map_err_Ok)
      from vault_more[OF this] show thesis by (cases s; cases t) (intro same, auto simp: registry_def)
    qed (use m in \<open>auto simp: map_err_Ok intro: call block\<close>)
  next
    case other
    then show thesis by (intro same) (auto simp: org_foreign_def registry_def)
  qed
qed

lemma org_step_edge:
  assumes st: "org_step cfg s t" and a: "organizations s i = Some a" and ch: "organizations t i \<noteq> Some a"
  shows "\<exists>b. organizations t i = Some b \<and> org_edge a b"
proof -
  from st have inv: "org_inv cfg s" "next_org_id s < umax 32" and m: "machine_step (org_machine cfg) org_foreign s t"
    by (auto simp: org_step_def)
  then have fresh: "i < next_org_id s" using org_inv_below[OF _ _ a] by blast
  from m show ?thesis
  proof (cases rule: org_machine_step_cases)
    case call
    from org_dispatch_edge[OF this a fresh ch] show ?thesis .
  next
    case (block now)
    then show ?thesis using marked_edge[OF _ ch] on_initialize_marked[of s i cfg now] a by simp
  next
    case same
    with ch a show ?thesis by (simp add: registry_eq)
  qed
qed

interpretation org_life: lifecycle organizations org_edge "org_step cfg"
  for cfg :: "('x, 'i) org_config"
  by standard (rule org_step_edge)

lemma next_org_id_mono:
  assumes "machine_step (org_machine cfg) org_foreign s t" "next_org_id s \<le> umax 32"
  shows "next_org_id s \<le> next_org_id t \<and> next_org_id t \<le> umax 32"
proof -
  from assms(1) have "next_org_id t = next_org_id s \<or> next_org_id t = sat_add 32 (next_org_id s) 1"
    by (cases rule: org_machine_step_cases) (auto simp: on_initialize_next registry_eq dest: org_dispatch_next)
  with assms(2) show ?thesis by (auto simp: sat_add_def)
qed

lemma steps_next_bound:
  "(machine_step (org_machine cfg) org_foreign)\<^sup>*\<^sup>* s t \<Longrightarrow> next_org_id s \<le> umax 32 \<Longrightarrow> next_org_id t \<le> umax 32"
  by (induction rule: rtranclp_induct) (auto dest: next_org_id_mono)

text \<open>As long as identifiers are left, whatever happens is a sequence of such steps.\<close>

lemma reachable_org_steps:
  "reachable (org_machine cfg) org_foreign s t \<Longrightarrow> org_inv cfg s \<Longrightarrow> next_org_id t < umax 32 \<Longrightarrow> next_org_id s \<le> umax 32 \<Longrightarrow>
   (org_step cfg)\<^sup>*\<^sup>* s t \<and> next_org_id s \<le> next_org_id t"
proof (unfold reachable_iff_steps, induction rule: rtranclp_induct)
  case base
  then show ?case by simp
next
  case (step u v)
  have "next_org_id u \<le> umax 32" using steps_next_bound[OF step.hyps(1)] step.prems by blast
  then have "next_org_id u \<le> next_org_id v" using next_org_id_mono[OF step.hyps(2)] by blast
  moreover have "org_inv cfg u"
    using orgm.reachable_inv[of cfg s u] step.hyps(1) step.prems(1) by (simp add: reachable_iff_steps)
  ultimately show ?case using step by (auto simp: org_step_def intro: rtranclp.rtrancl_into_rtrancl)
qed

section \<open>Frozen for good\<close>

text \<open>The status of an organization moves only from pending to active, between active and delinquent, and from anywhere to
  frozen; name, region and bank account never change. A frozen organization stays exactly as it is, and
  every call of its directors fails with \<open>OrgIsFrozen\<close>: there is no way back.\<close>

theorem organization_life:
  fixes s :: "('x, 'i) org_state"
  assumes inv: "reachable (org_machine cfg) org_foreign (org_empty x0 i0) s"
    and later: "reachable (org_machine cfg) org_foreign s t" and ids: "next_org_id t < umax 32"
    and a: "organizations s i = Some a"
  shows "\<exists>b. organizations t i = Some b \<and> status_edge\<^sup>*\<^sup>* (org_status a) (org_status b)
      \<and> org_name b = org_name a \<and> hq_region b = hq_region a \<and> bank_account_id b = bank_account_id a
      \<and> (org_status a = Frozen \<longrightarrow> b = a
           \<and> spend_org_funds cfg (Signed d) i e v t = Err (Module OrgIsFrozen)
           \<and> file_tax_return cfg env now (Signed d) i r p v h t = Err (Module OrgIsFrozen)
           \<and> add_crew_member env (Signed d) i m ro re t = Err (Module OrgIsFrozen))"
proof -
  have "org_inv cfg s" by (rule orgm.reachable_inv[OF inv org_inv_empty])
  moreover have "next_org_id s \<le> umax 32"
    using steps_next_bound[OF inv[unfolded reachable_iff_steps]] by (simp add: org_empty_def)
  ultimately have steps: "(org_step cfg)\<^sup>*\<^sup>* s t" using reachable_org_steps[OF later _ ids] by blast
  from org_life.steps_edges[OF this a] obtain b where b: "organizations t i = Some b" "org_edge\<^sup>*\<^sup>* a b" by blast
  from b(2) have same: "status_edge\<^sup>*\<^sup>* (org_status a) (org_status b) \<and> org_name b = org_name a \<and> hq_region b = hq_region a
      \<and> bank_account_id b = bank_account_id a"
    by (induction rule: rtranclp_induct) (auto simp: org_edge_def intro: rtranclp.rtrancl_into_rtrancl)
  moreover have "b = a" if "org_status a = Frozen"
    using org_life.final[OF steps a] b(1) that by (auto simp: org_edge_def)
  ultimately show ?thesis using b(1)
    by (auto simp: spend_org_funds_def file_tax_return_def add_crew_member_def)
qed

section \<open>Concrete organizations\<close>

definition book_org :: "(book, nat list) org_config" where
  "book_org = \<lparr>shielded_vaults = \<lparr>vault_currency = book_base 5, is_state_account = (\<lambda>a. a = 51),
       vault_confederation_treasury = 51, regional_treasury_for = (\<lambda>_ _. None)\<rparr>,
     freeze_citizen = (\<lambda>a l. a # l), tax_period_blocks = 10, penalty_accrual_period_blocks = 5, base_penalty_amount = 100,
     auditor_reward_amount = 30, region_treasury_account = 50, confederation_treasury_account = 51, min_tax_amount = 20,
     max_orgs_per_block = 2, max_name_length = 8, max_directors_per_org = 3, org_activation_deposit = 10, max_founders = 2,
     blake2_256 = (\<lambda>b. b), decode_account = length, crew_order = (\<lambda>m. filter (\<lambda>a. m a \<noteq> None) [0..<60])\<rparr>"

definition book_org_start :: "(book, nat list) org_state" where
  "book_org_start = org_empty \<lparr>bal = (\<lambda>_. 0)(11 := 1000, 50 := 1000), issued = 2000, lock_of = (\<lambda>_ _. None)\<rparr> []"

definition book_env :: "nat \<Rightarrow> env" where
  "book_env b = \<lparr>block_number = b, extrinsic_index = None\<rparr>"

definition book_pending :: "(book, nat list) org_state" where
  "book_pending = run (org_machine book_org)
     [Extrinsic (book_env 7) 0 (Signed 11) (RegisterOrganization [65] 7 1)] book_org_start"

definition book_active :: "(book, nat list) org_state" where
  "book_active = run (org_machine book_org) [Extrinsic (book_env 8) 0 (Signed 11) (ActivateOrganization 0)] book_pending"

definition book_frozen :: "(book, nat list) org_state" where
  "book_frozen = run (org_machine book_org) [Extrinsic (book_env 9) 0 Root (FreezeOrganization 0)] book_active"

definition the_org :: "org_status \<Rightarrow> organization" where
  "the_org st = \<lparr>org_name = [65], hq_region = 7, org_status = st, bank_account_id = 14, last_tax_period_paid = 7,
     registered_at = 7\<rparr>"

lemma book_org_sel [simp]:
  "org_currency book_org = book_base 5" "tax_period_blocks book_org = 10" "base_penalty_amount book_org = 100"
  "auditor_reward_amount book_org = 30" "region_treasury_account book_org = 50" "max_orgs_per_block book_org = 2"
  "max_name_length book_org = 8" "max_founders book_org = 2" "org_activation_deposit book_org = 10"
  "derive_org_account book_org i = 14"
  by (simp_all add: book_org_def derive_org_account_def le_bytes32_def)

lemma book_pending_sel [simp]:
  "organizations book_pending = [0 \<mapsto> the_org Pending]" "next_org_id book_pending = Suc 0"
  "crew_members book_pending = [(0, 11) \<mapsto> \<lparr>crew_role = Director, region_assigned = 7, active_since = 7\<rparr>]"
  "org_required_founders book_pending 0 = Suc 0" "org_founder_deposits book_pending i = []"
  "org_penalty_debt book_pending i = 0" "sv_ledger book_pending = sv_ledger book_org_start"
  by (simp_all add: book_pending_def execute_def book_org_start_def register_organization_def org_empty_def Let_def
      the_org_def book_env_def sat_add_def umax_def)

lemma book_active_sel [simp]:
  "organizations book_active = [0 \<mapsto> the_org Active]" "next_org_id book_active = Suc 0"
  "crew_members book_active = crew_members book_pending" "org_required_founders book_active 0 = Suc 0"
proof -
  have "bank_account_id (the_org Pending) = 14" "org_status (the_org Pending) = Pending"
    "the_org Pending\<lparr>org_status := Active\<rparr> = the_org Active"
    by (simp_all add: the_org_def)
  then show "organizations book_active = [0 \<mapsto> the_org Active]" "next_org_id book_active = Suc 0"
    "crew_members book_active = crew_members book_pending" "org_required_founders book_active 0 = Suc 0"
    by (simp_all add: book_active_def execute_def activate_organization_def ensure_director_def Let_def set_org_status_def
        book_org_start_def org_empty_def book_base_def book_transfer_def)
qed

lemma book_frozen_sel [simp]: "organizations book_frozen = [0 \<mapsto> the_org Frozen]"
  by (simp add: book_frozen_def execute_def freeze_organization_def the_org_def)

lemma book_reach:
  "reachable (org_machine book_org) org_foreign book_org_start book_active"
  "reachable (org_machine book_org) org_foreign book_active book_frozen"
  unfolding book_active_def book_pending_def book_frozen_def by (intro reachable_run reachable.start)+

theorem founders_and_penalties_witness:
  "length (org_founder_deposits book_active 0) = 1 \<and> org_penalty_debt book_active 0 = 0"
proof -
  have "next_org_id book_active < umax 32" "organizations book_active 0 = Some (the_org Active)"
    "org_status (the_org Active) = Active" by (simp_all add: umax_def the_org_def)
  with founders_and_penalties[OF book_reach(1)[unfolded book_org_start_def] this(1,2)] show ?thesis by simp
qed

theorem organization_life_witness:
  "spend_org_funds book_org (Signed 11) 0 12 1 book_frozen = Err (Module OrgIsFrozen)"
proof -
  have "reachable (org_machine book_org) org_foreign book_org_start book_frozen"
    unfolding book_frozen_def by (rule reachable_run[OF book_reach(1)])
  then have run: "reachable (org_machine book_org) org_foreign (org_empty (sv_ledger book_org_start) []) book_frozen"
    by (simp add: book_org_start_def org_empty_def)
  have "next_org_id book_frozen < umax 32"
    by (simp add: book_frozen_def execute_def freeze_organization_def umax_def)
  moreover have "organizations book_frozen 0 = Some (the_org Frozen)" "org_status (the_org Frozen) = Frozen"
    by (simp_all add: the_org_def)
  ultimately show ?thesis
    using organization_life[OF run reachable.start, where i = 0 and d = 11 and e = 12 and v = 1] by blast
qed

end
