(* ===== verification/Organization_Scan_Claims.thy ===== *)
theory Organization_Scan_Claims
  imports Organization_Claims
begin

text \<open>The round-robin scan catches every overdue organization; reports of pending ones; the filing period.\<close>

section \<open>The scan\<close>

definition overdue :: "('x, 'i) org_config \<Rightarrow> nat \<Rightarrow> ('x, 'i) org_state \<Rightarrow> nat \<Rightarrow> bool" where
  "overdue cfg now s i \<longleftrightarrow> (\<exists>o1. organizations s i = Some o1 \<and> org_status o1 = Active
     \<and> tax_period_blocks cfg < now - last_tax_period_paid o1)"

definition caught :: "('x, 'i) org_config \<Rightarrow> ('x, 'i) org_state \<Rightarrow> nat \<Rightarrow> bool" where
  "caught cfg s i \<longleftrightarrow> (\<exists>o1. organizations s i = Some o1 \<and> org_status o1 = Delinquent)
     \<and> min (base_penalty_amount cfg) (umax 128) \<le> org_penalty_debt s i"

lemma scan_one_catches: "overdue cfg now s i \<Longrightarrow> caught cfg (scan_one cfg now i s) i"
  using apply_punishment_status[OF _ refl, where cfg = cfg and now = now and s = s and i = i]
    apply_punishment_debt[OF _ disjI1, where cfg = cfg and now = now and s = s and i = i]
  by (auto simp: overdue_def caught_def scan_one_def)

lemma scan_one_keeps_caught:
  assumes "caught cfg s i"
  shows "caught cfg (scan_one cfg now j s) i"
proof (cases "j = i")
  case True
  from assms obtain o1 where o1: "organizations s i = Some o1" "org_status o1 = Delinquent"
    and debt: "min (base_penalty_amount cfg) (umax 128) \<le> org_penalty_debt s i" by (auto simp: caught_def)
  with True show ?thesis
    using apply_punishment_status[OF o1(1) refl, where cfg = cfg and now = now]
      apply_punishment_debt[OF o1(1) disjI2[OF debt], where now = now]
    by (auto simp: caught_def scan_one_def)
next
  case False
  then have "i \<noteq> j" by simp
  then have "organizations (scan_one cfg now j s) i = organizations s i
      \<and> org_penalty_debt (scan_one cfg now j s) i = org_penalty_debt s i"
    by (auto simp: scan_one_def apply_punishment_frame(7,8)[OF refl] split: option.split)
  with assms show ?thesis by (simp add: caught_def)
qed

lemma scan_one_other:
  "i \<noteq> j \<Longrightarrow> overdue cfg now s i \<Longrightarrow> overdue cfg now (scan_one cfg b j s) i"
  by (auto simp: overdue_def scan_one_def apply_punishment_frame(7)[OF refl] split: option.split)

lemma org_scan_keeps_caught: "caught cfg s i \<Longrightarrow> caught cfg (snd (org_scan cfg now n c k m nx s)) i"
  by (induction m arbitrary: k nx s) (auto simp: Let_def scan_one_keeps_caught)

text \<open>An overdue organization within reach of the scan is caught; beyond it, it stays overdue.\<close>

lemma org_scan_reaches:
  assumes "overdue cfg now s i" "0 < n" "c + k + m \<le> umax 32" "k \<le> j" "j < k + m" "j < n" "(c + j) mod n = i"
  shows "caught cfg (snd (org_scan cfg now n c k m nx s)) i"
  using assms
proof (induction m arbitrary: k nx s)
  case 0
  then show ?case by simp
next
  case (Suc m)
  have small: "(c + k) mod 2 ^ 32 = c + k" using Suc.prems(3) by (simp add: umax_def)
  let ?s1 = "scan_one cfg now ((c + k) mod n) s"
  show ?case
  proof (cases "(c + k) mod n = i")
    case True
    with Suc.prems(1) have "caught cfg ?s1 i" by (simp add: scan_one_catches)
    then show ?thesis by (simp add: Let_def small org_scan_keeps_caught del: power_numeral)
  next
    case False
    then have "k \<noteq> j" using Suc.prems(7) by auto
    then have "overdue cfg now ?s1 i" "Suc k \<le> j" "\<not> k + 1 \<ge> n"
      using False Suc.prems scan_one_other[of i "(c + k) mod n"] by auto
    with Suc show ?thesis by (simp add: Let_def small del: power_numeral)
  qed
qed

lemma org_scan_cursor_next:
  assumes "0 < m" "k + m < n" "c + k + m \<le> umax 32"
  shows "fst (org_scan cfg now n c k m nx s) = (c + k + m) mod n"
  using assms
proof (induction m arbitrary: k nx s)
  case 0
  then show ?case by simp
next
  case (Suc m)
  have small: "(c + k + 1) mod 2 ^ 32 = c + k + 1" using Suc.prems(3) by (simp add: umax_def)
  show ?case
  proof (cases m)
    case 0
    with Suc.prems small show ?thesis by (simp add: Let_def del: power_numeral)
  next
    case (Suc m')
    with Suc.IH[of "Suc k"] Suc.prems small show ?thesis by (simp add: Let_def del: power_numeral)
  qed
qed


text \<open>The cursor stays below the counter.\<close>

definition cursor_ok :: "('x, 'i) org_state \<Rightarrow> bool" where
  "cursor_ok s \<longleftrightarrow> next_org_id s \<le> umax 32 \<and> (org_scan_cursor s = 0 \<or> org_scan_cursor s < next_org_id s)"

lemma org_dispatch_cursor:
  assumes "org_dispatch cfg (env, now, og, call) s = Ok t"
  shows "org_scan_cursor t = org_scan_cursor s"
proof (cases call)
  case (ActivateOrganization i)
  with assms have "activate_organization cfg env og i s = Ok t" by simp
  then show ?thesis
    unfolding activate_organization_def Let_def ok_simps result.inject
    by (elim exE conjE, hypsubst) (simp add: set_org_status_def split: option.split)
next
  case (FileTaxReturn j r p v h)
  with assms have "file_tax_return cfg env now og j r p v h s = Ok t" by simp
  then show ?thesis by (rule file_tax_return_Ok) (auto simp: record_tax_return_def Let_def)
next
  case (FileTaxReturnZk j r p n c v h)
  with assms have "file_tax_return_zk cfg env now og j r p n c v h s = Ok t" by simp
  then show ?thesis
  proof (rule file_tax_return_zk_Ok)
    fix s1 e d x
    assume u: "unshield_for_tax (shielded_vaults cfg) env n c v (region_treasury_account cfg) s = Ok s1"
      and t: "emit_org e (record_tax_return j (block_number env) d (s1\<lparr>sv_ledger := x\<rparr>)) = t"
    have "org_scan_cursor s1 = org_scan_cursor s"
      using unshield_more[OF u] by (cases s; cases s1) simp
    then show ?thesis using t[symmetric] by (simp add: record_tax_return_def Let_def)
  qed
qed (use assms in \<open>auto simp: register_organization_def add_crew_member_def report_tax_evasion_def freeze_organization_def
       spend_org_funds_def Let_def ok_simps apply_punishment_frame(6)[OF refl]\<close>)

lemma org_scan_cursor_below:
  "0 < n \<Longrightarrow> nx = 0 \<or> nx < n \<Longrightarrow> fst (org_scan cfg now n c k m nx s) = 0 \<or> fst (org_scan cfg now n c k m nx s) < n"
  by (induction m arbitrary: k nx s) (auto simp: Let_def)

lemma cursor_ok_step:
  assumes "cursor_ok s" "machine_step (org_machine cfg) org_foreign s t"
  shows "cursor_ok t"
proof -
  have mono: "next_org_id s \<le> next_org_id t" "next_org_id t \<le> umax 32"
    using next_org_id_mono[OF assms(2)] assms(1) by (auto simp: cursor_ok_def)
  from assms(2) show ?thesis
  proof (cases rule: org_machine_step_cases)
    case call
    from org_dispatch_cursor[OF this] assms(1) mono show ?thesis by (auto simp: cursor_ok_def)
  next
    case (block now)
    have "org_scan_cursor t = 0 \<or> org_scan_cursor t < next_org_id s"
      using org_scan_cursor_below[of "next_org_id s" "org_scan_cursor s" cfg now "org_scan_cursor s" 0
          "max_orgs_per_block cfg" s] assms(1)
      unfolding block on_initialize_def Let_def prod.case_eq_if cursor_ok_def by auto
    with mono show ?thesis by (auto simp: cursor_ok_def)
  next
    case same
    with assms(1) mono show ?thesis by (auto simp: cursor_ok_def)
  qed
qed

interpretation org_cursor: pallet_machine "org_machine cfg" org_foreign cursor_ok
  for cfg :: "('x, 'i) org_config"
  by standard (erule cursor_ok_step[where cfg = cfg], auto simp: machine_step_def)+

section \<open>Every overdue organization is caught\<close>

text \<open>The chain from block \<open>now\<close> on, followed while organization \<open>i\<close> does nothing about its taxes: the block
  hooks in order and, between them, any calls and any changes other pallets make to the ledger and the identities,
  of which none changes the record of organization \<open>i\<close> unless it marks it delinquent. So \<open>i\<close> neither files
  nor is frozen; others may register, file, report, be activated and be frozen. The number counts the hooks.\<close>

inductive chain ::
  "('x, 'i) org_config \<Rightarrow> nat \<Rightarrow> nat \<Rightarrow> ('x, 'i) org_state \<Rightarrow> nat \<Rightarrow> ('x, 'i) org_state \<Rightarrow> bool"
  for cfg i now s where
  start: "chain cfg i now s 0 s"
| block: "chain cfg i now s k t \<Longrightarrow> chain cfg i now s (Suc k) (on_initialize cfg (now + k) t)"
| call: "chain cfg i now s k t \<Longrightarrow> org_machine cfg c t = Ok u \<Longrightarrow> \<forall>b. c \<noteq> NewBlock b \<Longrightarrow>
    marked (organizations t i) (organizations u i) \<Longrightarrow> chain cfg i now s k u"
| other: "chain cfg i now s k t \<Longrightarrow> org_foreign t u \<Longrightarrow> chain cfg i now s k u"

lemma scan_one_overdue: "overdue cfg now s i \<Longrightarrow> overdue cfg now (scan_one cfg now j s) i \<or> caught cfg (scan_one cfg now j s) i"
  using scan_one_catches[of cfg now s i] scan_one_other[of i j cfg now s now] by (cases "i = j") auto

lemma org_scan_overdue:
  "overdue cfg now s i \<or> caught cfg s i \<Longrightarrow>
   overdue cfg now (snd (org_scan cfg now n c k m nx s)) i \<or> caught cfg (snd (org_scan cfg now n c k m nx s)) i"
proof (induction m arbitrary: k nx s)
  case 0
  then show ?case by simp
next
  case (Suc m)
  let ?s1 = "scan_one cfg now ((c + k) mod 2 ^ 32 mod n) s"
  have "overdue cfg now ?s1 i \<or> caught cfg ?s1 i"
    using Suc.prems scan_one_overdue scan_one_keeps_caught by blast
  with Suc.IH[of ?s1] show ?case by (simp add: Let_def del: power_numeral)
qed

lemma overdue_later: "overdue cfg now s i \<Longrightarrow> overdue cfg (now + 1) s i"
  by (auto simp: overdue_def)

lemma cursor_upd [simp]:
  "overdue cfg now (s\<lparr>org_scan_cursor := c\<rparr>) i = overdue cfg now s i"
  "caught cfg (s\<lparr>org_scan_cursor := c\<rparr>) i = caught cfg s i"
  by (simp_all add: overdue_def caught_def)

text \<open>How many organizations the scan visits before \<open>i\<close>, when it wraps at \<open>n\<close>.\<close>

definition ahead :: "nat \<Rightarrow> nat \<Rightarrow> nat \<Rightarrow> nat" where
  "ahead n c i = (if c \<le> i then i - c else n - c + i)"

lemma ahead_reaches: "c < n \<Longrightarrow> i < n \<Longrightarrow> (c + ahead n c i) mod n = i \<and> ahead n c i < n"
proof (cases "c \<le> i")
  case False
  assume "c < n" "i < n"
  moreover from False this have "c + ahead n c i = n + i" by (simp add: ahead_def)
  ultimately show ?thesis using False by (simp add: ahead_def)
qed (simp add: ahead_def)

lemma ahead_advances:
  assumes "c < n" "i < n" "n \<le> N" "0 < m" "m \<le> ahead n c i"
  shows "ahead N ((c + m) mod n) i < ahead N c i"
proof (cases "c \<le> i \<or> c + m < n")
  case True
  then have "(c + m) mod n = c + m" using assms by (auto simp: ahead_def split: if_splits)
  then show ?thesis using assms True by (auto simp: ahead_def split: if_splits)
next
  case False
  with assms(5) have b: "i < c" "n \<le> c + m" "m \<le> n - c + i" by (simp_all add: ahead_def)
  then have "c + m - n < n" using assms(1,2) by linarith
  then have "(c + m) mod n = c + m - n" using b(2) by (simp add: le_mod_geq)
  moreover have "c + m - n \<le> i" "i - (c + m - n) < N - c + i" using b assms by linarith+
  ultimately show ?thesis using b(1) by (simp add: ahead_def)
qed

lemma block_progress:
  assumes late: "overdue cfg now s i" and c: "org_scan_cursor s < next_org_id s" and i: "i < next_org_id s"
    and m: "0 < max_orgs_per_block cfg" and room: "next_org_id s + max_orgs_per_block cfg \<le> umax 32"
    and N: "next_org_id s \<le> N"
  shows "caught cfg (on_initialize cfg now s) i \<or> overdue cfg now (on_initialize cfg now s) i
    \<and> ahead N (org_scan_cursor (on_initialize cfg now s)) i < ahead N (org_scan_cursor s) i"
proof -
  let ?n = "next_org_id s" and ?c = "org_scan_cursor s" and ?m = "max_orgs_per_block cfg"
  let ?r = "org_scan cfg now ?n ?c 0 ?m ?c s"
  have t: "on_initialize cfg now s = (snd ?r)\<lparr>org_scan_cursor := fst ?r\<rparr>"
    using i by (simp add: on_initialize_def Let_def prod.case_eq_if)
  note reach = ahead_reaches[OF c i]
  show ?thesis
  proof (cases "ahead ?n ?c i < ?m")
    case True
    have "caught cfg (snd ?r) i"
      by (rule org_scan_reaches[OF late, where j = "ahead ?n ?c i"]) (use True reach room c i in auto)
    then show ?thesis by (simp add: t)
  next
    case False
    then have "fst ?r = (?c + ?m) mod ?n"
      using org_scan_cursor_next[of ?m 0 ?n ?c cfg now ?c s] reach m room c by simp
    moreover have "overdue cfg now (snd ?r) i \<or> caught cfg (snd ?r) i" using org_scan_overdue late by blast
    moreover have "ahead N ((?c + ?m) mod ?n) i < ahead N ?c i"
      using ahead_advances[OF c i N m] False by simp
    ultimately show ?thesis by (auto simp: t)
  qed
qed

lemma chain_reachable: "chain cfg i now s k t \<Longrightarrow> reachable (org_machine cfg) org_foreign s t"
proof (induction rule: chain.induct)
  case (block k t)
  show ?case by (rule reachable.call[where c = "NewBlock (now + k)", OF block.IH]) simp
qed (blast intro: reachable.intros)+

definition delinquent :: "('x, 'i) org_state \<Rightarrow> nat \<Rightarrow> bool" where
  "delinquent s i \<longleftrightarrow> (\<exists>o1. organizations s i = Some o1 \<and> org_status o1 = Delinquent)"

lemma marked_overdue:
  assumes "marked (organizations s i) (organizations t i)"
  shows "delinquent s i \<Longrightarrow> delinquent t i" and "overdue cfg now s i \<Longrightarrow> delinquent t i \<or> overdue cfg now t i"
  using assms by (auto simp: marked_def delinquent_def overdue_def)

lemma call_cursor:
  assumes "org_machine cfg c s = Ok t" "\<forall>b. c \<noteq> NewBlock b"
  shows "org_scan_cursor t = org_scan_cursor s"
proof (cases c)
  case (VaultCall v)
  with assms have "vault_dispatch (shielded_vaults cfg) v s = Ok t" by (simp add: map_err_Ok)
  from vault_more[OF this] show ?thesis by (cases s; cases t) auto
qed (use assms in \<open>auto simp: map_err_Ok dest: org_dispatch_cursor\<close>)

text \<open>Along the chain every hook brings the scan closer to \<open>i\<close>, seen from any number \<open>n\<close> of organizations that
  the registrations do not exceed.\<close>

lemma chain_closes_in:
  assumes "chain cfg i now s k t"
    and inv: "org_inv cfg s" "cursor_ok s" and late: "overdue cfg now s i" and m: "0 < max_orgs_per_block cfg"
    and n: "next_org_id t \<le> n" "n + max_orgs_per_block cfg \<le> umax 32"
  shows "i < next_org_id t \<and> next_org_id s \<le> next_org_id t
    \<and> (delinquent t i \<or> overdue cfg (now + k) t i \<and> k + ahead n (org_scan_cursor t) i < n)"
  using assms(1) n
proof (induction rule: chain.induct)
  case start
  from late obtain o1 where "organizations s i = Some o1" by (auto simp: overdue_def)
  then have "i < next_org_id s" using org_inv_below[OF inv(1)] start m by auto
  moreover from this have "org_scan_cursor s < n" using inv(2) start by (auto simp: cursor_ok_def)
  ultimately show ?case using late start ahead_reaches[of "org_scan_cursor s" n i] by simp
next
  case (block k t)
  let ?t = "on_initialize cfg (now + k) t"
  have same: "next_org_id ?t = next_org_id t" by (rule on_initialize_next)
  with block have IH: "i < next_org_id t" "next_org_id s \<le> next_org_id t"
    "delinquent t i \<or> overdue cfg (now + k) t i \<and> k + ahead n (org_scan_cursor t) i < n" by auto
  have "cursor_ok t" by (rule org_cursor.reachable_inv[OF chain_reachable[OF block.hyps] inv(2)])
  then have c: "org_scan_cursor t < next_org_id t" using IH(1) by (auto simp: cursor_ok_def)
  have "delinquent ?t i \<or> overdue cfg (now + Suc k) ?t i \<and> Suc k + ahead n (org_scan_cursor ?t) i < n"
  proof (cases "delinquent t i")
    case True
    then show ?thesis using on_initialize_marked[of t i cfg "now + k"] by (auto simp: marked_def delinquent_def)
  next
    case False
    with IH have o1: "overdue cfg (now + k) t i" "k + ahead n (org_scan_cursor t) i < n" by auto
    have "next_org_id t + max_orgs_per_block cfg \<le> umax 32" "next_org_id t \<le> n" using block.prems same by auto
    from block_progress[OF o1(1) c IH(1) m this] show ?thesis
      using o1(2) overdue_later by (auto simp: caught_def delinquent_def)
  qed
  with IH same show ?case by simp
next
  case (call k t c u)
  have st: "machine_step (org_machine cfg) org_foreign t u" using call.hyps(2) by (auto simp: machine_step_def)
  have "cursor_ok t" by (rule org_cursor.reachable_inv[OF chain_reachable[OF call.hyps(1)] inv(2)])
  then have "next_org_id t \<le> next_org_id u" using next_org_id_mono[OF st] by (simp add: cursor_ok_def)
  with call have IH: "i < next_org_id u" "next_org_id s \<le> next_org_id u"
    "delinquent t i \<or> overdue cfg (now + k) t i \<and> k + ahead n (org_scan_cursor t) i < n" by auto
  with marked_overdue[OF call.hyps(4)] call_cursor[OF call.hyps(2,3)] show ?case by auto
next
  case (other k t u)
  then show ?case by (auto simp: org_foreign_def delinquent_def overdue_def)
qed

text \<open>C11: Tax evasion is inescapable, unless the scan is starved. From a reachable state in which an active
  organization's tax period is over, follow the chain, with any calls between the blocks, while the organization
  neither files a return nor is frozen. Once as many blocks have begun as there are organizations by then, however
  few are scanned per block, it is delinquent and owes at least the base penalty. Only registrations can delay
  this: every new organization allows it one more block.\<close>

theorem overdue_organization_caught:
  fixes s :: "('x, 'i) org_state"
  assumes run: "reachable (org_machine cfg) org_foreign (org_empty x0 i0) s" and scan: "0 < max_orgs_per_block cfg"
    and late: "organizations s i = Some o1" "org_status o1 = Active" "tax_period_blocks cfg < now - last_tax_period_paid o1"
    and after: "chain cfg i now s k t" "next_org_id t \<le> k" and ids: "next_org_id t + max_orgs_per_block cfg \<le> umax 32"
  shows "\<exists>o2. organizations t i = Some o2 \<and> org_status o2 = Delinquent
           \<and> min (base_penalty_amount cfg) (umax 128) \<le> org_penalty_debt t i"
proof -
  have inv: "org_inv cfg s" by (rule orgm.reachable_inv[OF run org_inv_empty])
  have "cursor_ok s" by (rule org_cursor.reachable_inv[OF run]) (simp add: cursor_ok_def org_empty_def)
  moreover have "overdue cfg now s i" using late by (auto simp: overdue_def)
  ultimately have "delinquent t i"
    using chain_closes_in[OF after(1) inv _ _ scan order.refl ids] after(2) by auto
  moreover have "org_inv cfg t" by (rule orgm.reachable_inv[OF chain_reachable[OF after(1)] inv])
  ultimately show ?thesis using ids scan by (fastforce simp: delinquent_def org_inv_def org_ok_def)
qed

section \<open>Reports of pending organizations\<close>

lemma pending_report:
  assumes org: "organizations s i = Some o1" "org_status o1 = Pending" "org_penalty_debt s i = 0"
    and late: "tax_period_blocks cfg < block_number env - last_tax_period_paid o1"
    and x: "transfer (org_currency cfg) (sv_ledger s) (region_treasury_account cfg) a (auditor_reward_amount cfg) KeepAlive = Ok x"
  shows "org_dispatch cfg (env, now, Signed a, ReportTaxEvasion i) s
       = Ok (emit_org (TaxEvasionReported a i (auditor_reward_amount cfg)) (s\<lparr>sv_ledger := x\<rparr>))"
proof -
  have "snd (apply_punishment cfg i (block_number env) s) = s"
    using org late by (simp add: apply_punishment_def accrue_penalty_def Let_def)
  with org late x show ?thesis by (simp add: report_tax_evasion_def Let_def sat_sub_def)
qed

text \<open>Rewards without evasion. A pending organization, registered for free and never activated, cannot be punished: after its
  first tax period anyone can report it \<open>n\<close> times in a row and receives the auditor's reward each time, as
  long as the treasury can pay, while the organization, its debt and its directors stay as they were.\<close>

theorem pending_reports_drain_treasury:
  fixes s :: "('x, 'i) org_state"
  assumes cur: "currency_ok (org_currency cfg)"
    and pays: "\<forall>x. auditor_reward_amount cfg + ed \<le> free_balance (org_currency cfg) x (region_treasury_account cfg) \<longrightarrow>
      (\<exists>y. transfer (org_currency cfg) x (region_treasury_account cfg) a (auditor_reward_amount cfg) KeepAlive = Ok y)"
    and a: "a \<noteq> region_treasury_account cfg"
    and org: "organizations s i = Some o1" "org_status o1 = Pending" "org_penalty_debt s i = 0"
    and late: "tax_period_blocks cfg < block_number env - last_tax_period_paid o1"
    and funds: "n * auditor_reward_amount cfg + ed \<le> free_balance (org_currency cfg) (sv_ledger s) (region_treasury_account cfg)"
  shows "\<exists>t. run (org_dispatch cfg) (replicate n (env, now, Signed a, ReportTaxEvasion i)) s = t
    \<and> free_balance (org_currency cfg) (sv_ledger t) a
        = free_balance (org_currency cfg) (sv_ledger s) a + n * auditor_reward_amount cfg
    \<and> organizations t = organizations s \<and> org_penalty_debt t = org_penalty_debt s \<and> identity t = identity s"
  using org funds
proof (induction n arbitrary: s)
  case 0
  then show ?case by simp
next
  case (Suc n)
  let ?cur = "org_currency cfg" and ?tr = "region_treasury_account cfg" and ?r = "auditor_reward_amount cfg"
  from Suc.prems pays obtain x where x: "transfer ?cur (sv_ledger s) ?tr a ?r KeepAlive = Ok x" by fastforce
  let ?s1 = "emit_org (TaxEvasionReported a i ?r) (s\<lparr>sv_ledger := x\<rparr>)"
  have fb: "free_balance ?cur x ?tr = free_balance ?cur (sv_ledger s) ?tr - ?r"
    "free_balance ?cur x a = free_balance ?cur (sv_ledger s) a + ?r"
    using transfer_keepD(3)[OF cur x] a by auto
  have "n * ?r + ed \<le> free_balance ?cur (sv_ledger ?s1) ?tr" using Suc.prems(4) fb by simp
  with Suc.IH[of ?s1] Suc.prems have "\<exists>t. run (org_dispatch cfg) (replicate n (env, now, Signed a, ReportTaxEvasion i)) ?s1 = t
    \<and> free_balance ?cur (sv_ledger t) a = free_balance ?cur (sv_ledger ?s1) a + n * ?r
    \<and> organizations t = organizations s \<and> org_penalty_debt t = org_penalty_debt s \<and> identity t = identity s"
    by simp
  then show ?case
    using pending_report[OF Suc.prems(1-3) late x] fb by (simp add: execute_def add.assoc)
qed

section \<open>The filing period\<close>

lemma is_leap_year_iff: "is_leap_year y \<longleftrightarrow> leap_year y"
proof -
  have "400 dvd y \<Longrightarrow> 4 dvd y" by (rule dvd_trans[of 4 400]) simp_all
  then show ?thesis by (auto simp: is_leap_year_def leap_year_def dvd_eq_mod_eq_0)
qed

lemma year_loop_days:
  "1970 \<le> y0 \<Longrightarrow> year_loop y0 d = (y, r) \<Longrightarrow> y0 \<le> y \<and> r < days_in_year y \<and> days_before y0 + d = days_before y + r"
proof (induction y0 d rule: year_loop.induct)
  case (1 y0 d)
  have len: "(if is_leap_year y0 then 366 else 365) = days_in_year y0" by (simp add: is_leap_year_iff days_in_year_def)
  show ?case
  proof (cases "d < days_in_year y0")
    case True
    with "1.prems" show ?thesis by (subst (asm) year_loop.simps) (simp add: Let_def len)
  next
    case False
    with "1.prems"(2) have "year_loop (y0 + 1) (d - days_in_year y0) = (y, r)"
      by (subst (asm) year_loop.simps) (simp add: Let_def len)
    with "1.IH"[OF refl] False "1.prems"(1) show ?thesis
      by (simp add: len days_before_next)
  qed
qed

text \<open>C40: The filing period ends on April 15. The loop over the years since 1970 terminates with the civil year and day of
  the clock, in leap years too: filing is open exactly before the end of April 15 of some civil year that has begun
  (and while the clock is unset).\<close>

theorem filing_period_until_april_15:
  "ensure_within_filing_period now (Ok s) = Ok s \<longleftrightarrow>
     now = 0 \<or> (\<exists>y \<ge> 1970. civil_year_start y \<le> now \<and> now < civil_year_start y + 86400 * april_15 y)"
proof -
  obtain y r where yr: "year_loop 1970 (now div 86400) = (y, r)" by fastforce
  from year_loop_days[OF _ this] have y: "1970 \<le> y" "r < days_in_year y" "now div 86400 = days_before y + r" by auto
  have april: "(if is_leap_year z then 106 else 105) = april_15 z" "april_15 z < days_in_year z" for z
    by (simp_all add: is_leap_year_iff april_15_def days_in_year_def)
  have "filing_open now \<longleftrightarrow> now = 0 \<or> r < april_15 y"
    by (auto simp: filing_open_def yr april(1) Suc_le_eq)
  also have "r < april_15 y \<longleftrightarrow> (\<exists>z \<ge> 1970. civil_year_start z \<le> now \<and> now < civil_year_start z + 86400 * april_15 z)" (is "?l \<longleftrightarrow> ?r")
  proof
    assume ?l
    have "86400 * (days_before y + r) \<le> now" "now < 86400 * (days_before y + r) + 86400"
      unfolding y(3)[symmetric] using dividend_less_times_div[of 86400 now] by simp_all
    with \<open>?l\<close> y(1) show ?r by (intro exI[of _ y]) (auto simp: civil_year_start_def)
  next
    assume ?r
    then obtain z where z: "1970 \<le> z" "86400 * days_before z \<le> now" "now < 86400 * (days_before z + april_15 z)"
      by (auto simp: civil_year_start_def distrib_left)
    have "now div 86400 < days_before z + april_15 z"
      by (rule less_mult_imp_div_less) (use z(3) in \<open>simp add: mult.commute\<close>)
    moreover have "days_before z \<le> now div 86400" using z(2) by linarith
    ultimately obtain q where "now div 86400 = days_before z + q" "q < april_15 z" by (metis le_Suc_ex nat_add_left_cancel_less)
    with day_unique[OF y(1) z(1) y(2), of q] april(2)[of z] y(3) show ?l by auto
  qed
  finally show ?thesis by (simp add: filing_period_Ok)
qed

section \<open>Instances\<close>

text \<open>A second organization registers after the first hook; the next hook still finds the first one.\<close>

theorem overdue_organization_caught_witness:
  "\<exists>t o2. chain book_org 0 18 book_active 2 t \<and> next_org_id t = 2
     \<and> organizations t 0 = Some o2 \<and> org_status o2 = Delinquent"
proof -
  let ?a = "on_initialize book_org 18 book_active"
  let ?reg = "Extrinsic (book_env 18) 0 (Signed 12) (RegisterOrganization [9] 1 1)"
  have ids: "next_org_id ?a = 1" by (simp add: on_initialize_next)
  then obtain b where b: "org_machine book_org ?reg ?a = Ok b" and b2: "next_org_id b = 2"
    "organizations b 0 = organizations ?a 0"
    by (auto simp: register_organization_def Let_def sat_add_def umax_def map_err_def)
  let ?t = "on_initialize book_org 19 b"
  have "chain book_org 0 18 book_active 1 ?a" using chain.block[OF chain.start] by simp
  then have "chain book_org 0 18 book_active 1 b"
    by (rule chain.call[OF _ b]) (simp_all add: b2(2) marked_refl)
  then have run: "chain book_org 0 18 book_active 2 ?t"
    using chain.block[where k = 1 and now = 18] by (simp add: numeral_2_eq_2)
  have t: "next_org_id ?t = 2" using b2(1) by (simp add: on_initialize_next)
  have "next_org_id ?t + max_orgs_per_block book_org \<le> umax 32" "0 < max_orgs_per_block book_org"
    "next_org_id ?t \<le> 2" by (simp_all add: t umax_def)
  moreover have "organizations book_active 0 = Some (the_org Active)" "org_status (the_org Active) = Active"
    "tax_period_blocks book_org < 18 - last_tax_period_paid (the_org Active)"
    by (simp_all add: the_org_def)
  ultimately show ?thesis
    using overdue_organization_caught[OF book_reach(1)[unfolded book_org_start_def], of 0 "the_org Active" 18 2 ?t] run t
    by blast
qed

theorem pending_reports_drain_treasury_witness:
  "\<exists>t. run (org_dispatch book_org) (replicate 20 (book_env 18, 0, Signed 12, ReportTaxEvasion 0)) book_pending = t
     \<and> bal (sv_ledger t) 12 = 600 \<and> organizations t 0 = Some (the_org Pending)"
proof -
  have pays: "\<forall>x. auditor_reward_amount book_org + 5 \<le> free_balance (org_currency book_org) x (region_treasury_account book_org) \<longrightarrow>
      (\<exists>y. transfer (org_currency book_org) x (region_treasury_account book_org) 12 (auditor_reward_amount book_org) KeepAlive = Ok y)"
    by (auto simp: book_base_def book_transfer_def)
  have org: "organizations book_pending 0 = Some (the_org Pending)" "org_status (the_org Pending) = Pending"
    "org_penalty_debt book_pending 0 = 0" "(12 :: nat) \<noteq> region_treasury_account book_org"
    "tax_period_blocks book_org < block_number (book_env 18) - last_tax_period_paid (the_org Pending)"
    "20 * auditor_reward_amount book_org + 5
       \<le> free_balance (org_currency book_org) (sv_ledger book_pending) (region_treasury_account book_org)"
    "free_balance (org_currency book_org) (sv_ledger book_pending) 12 = 0"
    by (simp_all add: the_org_def book_env_def book_base_def book_org_start_def org_empty_def)
  have "currency_ok (org_currency book_org)" by (simp add: book_currency_ok)
  from pending_reports_drain_treasury[OF this pays org(4,1,2,3,5,6), of 0] org(7) show ?thesis
    by (simp add: book_base_def)
qed

theorem filing_period_until_april_15_witness:
  "ensure_within_filing_period (civil_year_start 2024 + 86400 * 105) (Ok (0 :: nat)) = Ok 0"
  unfolding filing_period_until_april_15
  by (rule disjI2, rule exI[of _ 2024]) (simp add: april_15_def leap_year_def)

end
