(* ===== verification/Ballots.thy ===== *)
theory Ballots
  imports Pallet_Interfaces
begin

text \<open>
  The contract of a ballot: a storage map from voters to what they voted for, and a second one with the
  tallies. Pallets keep the two side by side; the tallies are right when every step either leaves both
  alone, records the first vote of a voter and raises one tally by one, or clears both.
\<close>

definition counted :: "('v \<Rightarrow> 'c option) \<Rightarrow> ('c \<Rightarrow> nat) \<Rightarrow> bool" where
  "counted votes tally \<longleftrightarrow> finite (dom votes) \<and> (\<forall>c. tally c = card {v. votes v = Some c})"

lemma counted_empty [simp]: "counted Map.empty (\<lambda>_. 0)"
  by (simp add: counted_def)

lemma counted_finite: "counted votes tally \<Longrightarrow> finite {v. votes v = Some c}"
  unfolding counted_def by (elim conjE, rule finite_subset[of _ "dom votes"]) (auto simp: dom_def)

lemma counted_cast:
  assumes "counted votes tally" and "votes v = None"
  shows "counted (votes(v \<mapsto> c)) (tally(c := tally c + 1))"
proof -
  have "{u. (votes(v \<mapsto> c)) u = Some d} = (if d = c then insert v {u. votes u = Some c} else {u. votes u = Some d})" for d
    using assms(2) by auto
  moreover have "v \<notin> {u. votes u = Some c}" using assms(2) by simp
  ultimately show ?thesis
    using assms(1) counted_finite[OF assms(1)] by (auto simp: counted_def)
qed

text \<open>A tally is at most the number of those entitled to vote.\<close>

lemma counted_le:
  assumes "counted votes tally" and "finite A" and "dom votes \<subseteq> A"
  shows "tally c \<le> card A"
proof -
  have "{v. votes v = Some c} \<subseteq> A" using assms(3) by auto
  then show ?thesis using assms(1,2) by (simp add: counted_def card_mono)
qed

text \<open>Nobody is counted without a vote, and with a vote somebody is.\<close>

lemma counted_pos: "counted votes tally \<Longrightarrow> 0 < tally c \<longleftrightarrow> (\<exists>v. votes v = Some c)"
  using counted_finite[of votes tally c] by (auto simp: counted_def card_gt_0_iff)

text \<open>All tallies together are the voters.\<close>

lemma counted_total:
  assumes "counted votes tally"
  shows "tsum tally = card (dom votes)"
proof -
  have fin: "finite (dom votes)" using assms by (simp add: counted_def)
  have rn: "{c. tally c \<noteq> 0} = ran votes"
    using counted_pos[OF assms] by (auto simp: ran_def)
  have "card (dom votes) = card (\<Union>c\<in>ran votes. {v. votes v = Some c})"
    by (rule arg_cong[of _ _ card]) (auto simp: ran_def)
  also have "\<dots> = (\<Sum>c\<in>ran votes. card {v. votes v = Some c})"
    by (rule card_UN_disjoint) (use fin counted_finite[OF assms] in \<open>auto simp: finite_ran\<close>)
  also have "\<dots> = (\<Sum>c\<in>ran votes. tally c)"
    using assms by (simp add: counted_def)
  also have "\<dots> = tsum tally"
    by (simp only: tsum_def rn)
  finally show ?thesis by simp
qed

locale ballot =
  fixes votes :: "'s \<Rightarrow> 'k \<Rightarrow> 'v \<Rightarrow> 'c option"
    and tally :: "'s \<Rightarrow> 'k \<Rightarrow> 'c \<Rightarrow> nat"
    and step :: "'s \<Rightarrow> 's \<Rightarrow> bool"
  assumes step_ballot: "step s t \<Longrightarrow>
      (votes t k = votes s k \<and> tally t k = tally s k)
    \<or> (\<exists>v c. votes s k v = None \<and> votes t k = (votes s k)(v \<mapsto> c) \<and> tally t k = (tally s k)(c := tally s k c + 1))
    \<or> (votes t k = Map.empty \<and> tally t k = (\<lambda>_. 0))"
begin

lemma counted_step: "step s t \<Longrightarrow> counted (votes s k) (tally s k) \<Longrightarrow> counted (votes t k) (tally t k)"
  using step_ballot[of s t k] counted_cast[of "votes s k" "tally s k"] by auto

lemma counted_steps: "step\<^sup>*\<^sup>* s t \<Longrightarrow> counted (votes s k) (tally s k) \<Longrightarrow> counted (votes t k) (tally t k)"
  by (induction rule: rtranclp_induct) (auto intro: counted_step)

text \<open>A vote stands until the ballot is cleared.\<close>

lemma vote_stands: "step s t \<Longrightarrow> votes s k v = Some c \<Longrightarrow> votes t k v = Some c \<or> votes t k = Map.empty"
  using step_ballot[of s t k] by (auto simp: fun_upd_def)

end

end
