(* ===== verification/Elections.thy ===== *)
theory Elections
  imports Ballots
begin

text \<open>
  \<^verbatim>\<open>pallets/inomad-elections/src/lib.rs\<close>: the elections of the decimal hierarchy, of the branch councils and
  supreme leaders, and of the chairman of the Khural.

  \<open>'i\<close> is the storage behind \<open>IsIndigenousCitizen\<close> (the identity pallet), which the pallet only reads.
\<close>

section \<open>Data\<close>

datatype election_level = Arbad | Zun | Myangad | Tumed

datatype government_branch = Executive | Judicial | Banking | Legislative

definition level_rank :: "election_level \<Rightarrow> nat" where
  "level_rank l = (case l of Arbad \<Rightarrow> 0 | Zun \<Rightarrow> 1 | Myangad \<Rightarrow> 2 | Tumed \<Rightarrow> 3)"

text \<open>The derived \<open>Ord\<close> follows the order of the variants.\<close>

instantiation election_level :: linorder
begin

definition less_eq_election_level where "(a :: election_level) \<le> b \<longleftrightarrow> level_rank a \<le> level_rank b"

definition less_election_level where "(a :: election_level) < b \<longleftrightarrow> level_rank a < level_rank b"

instance
  by standard
    (auto simp: less_eq_election_level_def less_election_level_def level_rank_def split: election_level.splits)

end

lemma Tumed_top [simp]: "Tumed \<le> l \<longleftrightarrow> l = Tumed"
  by (cases l) (simp_all add: less_eq_election_level_def level_rank_def)

definition COUNCIL_SIZE :: nat where
  "COUNCIL_SIZE = 9"

record election =
  level :: election_level
  is_active :: bool
  candidates :: "account list"

datatype election_event =
    VoteCast nat account account
  | CitizenAddedToArbad account nat
  | LeaderPromoted account election_level
  | BranchVoteCast government_branch account account
  | BranchCouncilElected government_branch "account list"
  | SupremeLeaderVoteCast government_branch account account
  | SupremeLeaderElected government_branch account
  | KhuralVoteCast account account
  | KhuralChairmanElected account nat
  | BallotReset government_branch

datatype election_error =
    ElectionNotFound
  | ElectionClosed
  | CandidateNotFound
  | AlreadyVoted
  | NotInArbad
  | NotAuthorizedForLevel
  | MathOverflow
  | NotATumedLeader
  | CouncilNotElected
  | NotACouncilMember
  | WinnerHasNoArbad
  | TooManyCandidates
  | InsufficientCandidates
  | LegislativeUsesKhuralPath
  | NotLegislativeBranch
  | WinnerDidNotReceiveVotes
  | ElectionAlreadyExists
  | CandidateNotATumedLeader
  | ArbadTooSmall
  | ZunTooSmall
  | MyangadTooSmall
  | MissingZoneId
  | NotIndigenous

type_synonym election_failure = "election_error dispatch_error"

record 'i election_state =
  identity_storage :: 'i
  citizen_arbad :: "account \<Rightarrow> nat option"
  elected_leaders :: "account \<Rightarrow> election_level option"
  elections :: "nat \<Rightarrow> election option"
  votes :: "nat \<Rightarrow> account \<Rightarrow> account option"
  vote_counts :: "nat \<Rightarrow> account \<Rightarrow> nat"
  branch_councils :: "government_branch \<Rightarrow> account list option"
  branch_votes :: "government_branch \<Rightarrow> account \<Rightarrow> account option"
  branch_vote_counts :: "government_branch \<Rightarrow> account \<Rightarrow> nat"
  supreme_leaders :: "government_branch \<Rightarrow> account option"
  supreme_leader_votes :: "government_branch \<Rightarrow> account \<Rightarrow> account option"
  supreme_leader_vote_counts :: "government_branch \<Rightarrow> account \<Rightarrow> nat"
  khural_chairman :: "(account \<times> nat) option"
  khural_votes :: "account \<Rightarrow> account option"
  khural_vote_counts :: "account \<Rightarrow> nat"
  branch_candidate_count :: "government_branch \<Rightarrow> nat"
  arbad_member_count :: "nat \<Rightarrow> nat"
  zun_leader_count :: "nat \<Rightarrow> nat"
  myangad_leader_count :: "nat \<Rightarrow> nat"
  citizen_zun :: "account \<Rightarrow> nat option"
  citizen_myangad :: "account \<Rightarrow> nat option"
  election_events :: "election_event list"

record 'i election_config =
  is_indigenous :: "'i \<Rightarrow> account \<Rightarrow> bool"
  max_candidates :: nat
  max_branch_candidates :: nat
  min_arbad_size :: nat
  min_zun_leaders :: nat
  min_myangad_leaders :: nat

definition emit_election :: "election_event \<Rightarrow> 'i election_state \<Rightarrow> 'i election_state" where
  "emit_election e s = s\<lparr>election_events := election_events s @ [e]\<rparr>"

text \<open>\<open>try_mutate\<close> of a counter with \<open>checked_add(1)\<close>.\<close>

definition count_up :: "nat \<Rightarrow> (nat \<Rightarrow> ('a, election_failure) result) \<Rightarrow> ('a, election_failure) result" where
  "count_up n k = ok_or (checked_add 32 n 1) (Module MathOverflow) k"

lemma count_up_Ok [ok_simps]: "count_up n k = Ok x \<longleftrightarrow> n < umax 32 \<and> k (n + 1) = Ok x"
  by (auto simp: count_up_def checked_add_def)

definition ensure_tumed ::
  "account \<Rightarrow> 'i election_state \<Rightarrow> ('a, election_failure) result \<Rightarrow> ('a, election_failure) result" where
  "ensure_tumed who s k =
     ok_or (elected_leaders s who) (Module NotATumedLeader) (\<lambda>l.
     ensure (Tumed \<le> l) (Module NotATumedLeader) k)"

lemma ensure_tumed_Ok [ok_simps]: "ensure_tumed who s k = Ok x \<longleftrightarrow> elected_leaders s who = Some Tumed \<and> k = Ok x"
  by (auto simp: ensure_tumed_def ok_simps)

section \<open>The decimal hierarchy\<close>

definition ensure_may_vote ::
  "account \<Rightarrow> election_level \<Rightarrow> 'i election_state \<Rightarrow> ('a, election_failure) result \<Rightarrow> ('a, election_failure) result" where
  "ensure_may_vote voter required s k =
     (case required of
        Arbad \<Rightarrow> ensure (citizen_arbad s voter \<noteq> None) (Module NotInArbad) k
      | _ \<Rightarrow> ok_or (elected_leaders s voter) (Module NotAuthorizedForLevel) (\<lambda>voter_level.
               ensure (required \<le> voter_level) (Module NotAuthorizedForLevel) k))"

definition cast_vote ::
  "origin \<Rightarrow> nat \<Rightarrow> account \<Rightarrow> 'i election_state \<Rightarrow> ('i election_state, election_failure) result" where
  "cast_vote og election_id candidate s =
     and_then (ensure_signed og) (\<lambda>voter.
     ok_or (elections s election_id) (Module ElectionNotFound) (\<lambda>el.
     ensure (is_active el) (Module ElectionClosed) (
     ensure (candidate \<in> set (candidates el)) (Module CandidateNotFound) (
     ensure (votes s election_id voter = None) (Module AlreadyVoted) (
     ensure_may_vote voter (level el) s (
     count_up (vote_counts s election_id candidate) (\<lambda>n.
     Ok (emit_election (VoteCast election_id voter candidate)
          (s\<lparr>votes := (votes s)(election_id := (votes s election_id)(voter \<mapsto> candidate)),
             vote_counts := (vote_counts s)(election_id := (vote_counts s election_id)(candidate := n))\<rparr>)))))))))"

definition add_citizen_to_arbad ::
  "origin \<Rightarrow> account \<Rightarrow> nat \<Rightarrow> 'i election_state \<Rightarrow> ('i election_state, election_failure) result" where
  "add_citizen_to_arbad og citizen arbad_id s =
     and_then (ensure_root og) (\<lambda>_.
     count_up (arbad_member_count s arbad_id) (\<lambda>n.
     Ok (emit_election (CitizenAddedToArbad citizen arbad_id)
          (s\<lparr>citizen_arbad := (citizen_arbad s)(citizen \<mapsto> arbad_id),
             arbad_member_count := (arbad_member_count s)(arbad_id := n)\<rparr>))))"

text \<open>The requirement of each target level, and the counters and zones it updates.\<close>

definition enter_level ::
  "'i election_config \<Rightarrow> account \<Rightarrow> election_level \<Rightarrow> nat option \<Rightarrow> 'i election_state
   \<Rightarrow> ('i election_state, election_failure) result" where
  "enter_level cfg leader new_level zone_id s =
     (case new_level of
        Zun \<Rightarrow>
          ok_or (citizen_arbad s leader) (Module NotInArbad) (\<lambda>arbad_id.
          ensure (arbad_member_count s arbad_id \<ge> min_arbad_size cfg) (Module ArbadTooSmall) (
          count_up (zun_leader_count s arbad_id) (\<lambda>n.
          Ok (s\<lparr>zun_leader_count := (zun_leader_count s)(arbad_id := n),
                citizen_zun := (citizen_zun s)(leader \<mapsto> arbad_id)\<rparr>))))
      | Myangad \<Rightarrow>
          ok_or zone_id (Module MissingZoneId) (\<lambda>zun_id.
          ensure (zun_leader_count s zun_id \<ge> min_zun_leaders cfg) (Module ZunTooSmall) (
          count_up (myangad_leader_count s zun_id) (\<lambda>n.
          Ok (s\<lparr>myangad_leader_count := (myangad_leader_count s)(zun_id := n),
                citizen_myangad := (citizen_myangad s)(leader \<mapsto> zun_id)\<rparr>))))
      | Tumed \<Rightarrow>
          ok_or zone_id (Module MissingZoneId) (\<lambda>myangad_id.
          ensure (myangad_leader_count s myangad_id \<ge> min_myangad_leaders cfg) (Module MyangadTooSmall) (Ok s))
      | Arbad \<Rightarrow> Ok s)"

definition promote_leader ::
  "'i election_config \<Rightarrow> origin \<Rightarrow> account \<Rightarrow> election_level \<Rightarrow> nat option \<Rightarrow> 'i election_state
   \<Rightarrow> ('i election_state, election_failure) result" where
  "promote_leader cfg og leader new_level zone_id s =
     and_then (ensure_root og) (\<lambda>_.
     and_then (enter_level cfg leader new_level zone_id s) (\<lambda>s1.
     Ok (emit_election (LeaderPromoted leader new_level)
          (s1\<lparr>elected_leaders := (elected_leaders s1)(leader \<mapsto> new_level)\<rparr>))))"

definition create_election ::
  "'i election_config \<Rightarrow> origin \<Rightarrow> nat \<Rightarrow> election_level \<Rightarrow> account list \<Rightarrow> 'i election_state
   \<Rightarrow> ('i election_state, election_failure) result" where
  "create_election cfg og election_id lv cands s =
     and_then (ensure_root og) (\<lambda>_.
     ensure (elections s election_id = None) (Module ElectionAlreadyExists) (
     ensure (length cands \<le> max_candidates cfg) (Other ''too many candidates'') (
     Ok (s\<lparr>elections := (elections s)(election_id \<mapsto> \<lparr>level = lv, is_active = True, candidates = cands\<rparr>)\<rparr>))))"

section \<open>Branch councils and supreme leaders\<close>

text \<open>The number of distinct candidates grows with the first vote a candidate gets.\<close>

definition admit_candidate ::
  "'i election_config \<Rightarrow> government_branch \<Rightarrow> account \<Rightarrow> 'i election_state
   \<Rightarrow> ('i election_state, election_failure) result" where
  "admit_candidate cfg branch candidate s =
     (if branch_vote_counts s branch candidate = 0
      then count_up (branch_candidate_count s branch) (\<lambda>new_count.
           ensure (new_count \<le> max_branch_candidates cfg) (Module TooManyCandidates) (
           Ok (s\<lparr>branch_candidate_count := (branch_candidate_count s)(branch := new_count)\<rparr>)))
      else Ok s)"

definition elect_branch_council ::
  "'i election_config \<Rightarrow> origin \<Rightarrow> government_branch \<Rightarrow> account \<Rightarrow> 'i election_state
   \<Rightarrow> ('i election_state, election_failure) result" where
  "elect_branch_council cfg og branch candidate s =
     and_then (ensure_signed og) (\<lambda>voter.
     ensure (branch \<noteq> Legislative) (Module LegislativeUsesKhuralPath) (
     ok_or (elected_leaders s candidate) (Module CandidateNotATumedLeader) (\<lambda>candidate_level.
     ensure (Tumed \<le> candidate_level) (Module CandidateNotATumedLeader) (
     ensure_tumed voter s (
     ensure (branch_votes s branch voter = None) (Module AlreadyVoted) (
     and_then (admit_candidate cfg branch candidate s) (\<lambda>s1.
     count_up (branch_vote_counts s1 branch candidate) (\<lambda>n.
     Ok (emit_election (BranchVoteCast branch voter candidate)
          (s1\<lparr>branch_votes := (branch_votes s1)(branch := (branch_votes s1 branch)(voter \<mapsto> candidate)),
              branch_vote_counts := (branch_vote_counts s1)(branch := (branch_vote_counts s1 branch)(candidate := n))\<rparr>))))))))))"

definition confirm_branch_council ::
  "origin \<Rightarrow> government_branch \<Rightarrow> account list \<Rightarrow> 'i election_state \<Rightarrow> ('i election_state, election_failure) result" where
  "confirm_branch_council og branch winners s =
     and_then (ensure_root og) (\<lambda>_.
     ensure (branch \<noteq> Legislative) (Module LegislativeUsesKhuralPath) (
     ensure (length winners = COUNCIL_SIZE) (Module InsufficientCandidates) (
     ensure (\<forall>w\<in>set winners. branch_vote_counts s branch w > 0) (Module WinnerDidNotReceiveVotes) (
     ensure (length winners \<le> 9) (Module TooManyCandidates) (
     Ok (emit_election (BranchCouncilElected branch winners)
          (s\<lparr>branch_councils := (branch_councils s)(branch \<mapsto> winners)\<rparr>)))))))"

definition elect_supreme_leader ::
  "origin \<Rightarrow> government_branch \<Rightarrow> account \<Rightarrow> 'i election_state \<Rightarrow> ('i election_state, election_failure) result" where
  "elect_supreme_leader og branch candidate s =
     and_then (ensure_signed og) (\<lambda>voter.
     ensure (branch \<noteq> Legislative) (Module LegislativeUsesKhuralPath) (
     ok_or (branch_councils s branch) (Module CouncilNotElected) (\<lambda>council.
     ensure (voter \<in> set council) (Module NotACouncilMember) (
     ensure (supreme_leader_votes s branch voter = None) (Module AlreadyVoted) (
     count_up (supreme_leader_vote_counts s branch candidate) (\<lambda>n.
     Ok (emit_election (SupremeLeaderVoteCast branch voter candidate)
          (s\<lparr>supreme_leader_votes := (supreme_leader_votes s)
               (branch := (supreme_leader_votes s branch)(voter \<mapsto> candidate)),
             supreme_leader_vote_counts := (supreme_leader_vote_counts s)
               (branch := (supreme_leader_vote_counts s branch)(candidate := n))\<rparr>))))))))"

definition confirm_supreme_leader ::
  "origin \<Rightarrow> government_branch \<Rightarrow> account \<Rightarrow> 'i election_state \<Rightarrow> ('i election_state, election_failure) result" where
  "confirm_supreme_leader og branch leader s =
     and_then (ensure_root og) (\<lambda>_.
     ensure (branch \<noteq> Legislative) (Module LegislativeUsesKhuralPath) (
     Ok (emit_election (SupremeLeaderElected branch leader)
          (s\<lparr>supreme_leaders := (supreme_leaders s)(branch \<mapsto> leader)\<rparr>))))"

section \<open>The chairman of the Khural\<close>

definition elect_khural_chairman ::
  "'i election_config \<Rightarrow> origin \<Rightarrow> account \<Rightarrow> 'i election_state \<Rightarrow> ('i election_state, election_failure) result" where
  "elect_khural_chairman cfg og candidate s =
     and_then (ensure_signed og) (\<lambda>voter.
     ensure (is_indigenous cfg (identity_storage s) voter) (Module NotIndigenous) (
     ensure (is_indigenous cfg (identity_storage s) candidate) (Module NotIndigenous) (
     ensure_tumed voter s (
     ensure (khural_votes s voter = None) (Module AlreadyVoted) (
     count_up (khural_vote_counts s candidate) (\<lambda>n.
     Ok (emit_election (KhuralVoteCast voter candidate)
          (s\<lparr>khural_votes := (khural_votes s)(voter \<mapsto> candidate),
             khural_vote_counts := (khural_vote_counts s)(candidate := n)\<rparr>))))))))"

definition confirm_khural_chairman ::
  "origin \<Rightarrow> account \<Rightarrow> 'i election_state \<Rightarrow> ('i election_state, election_failure) result" where
  "confirm_khural_chairman og chairman s =
     and_then (ensure_root og) (\<lambda>_.
     ok_or (citizen_arbad s chairman) (Module WinnerHasNoArbad) (\<lambda>arbad_id.
     Ok (emit_election (KhuralChairmanElected chairman arbad_id)
          (s\<lparr>khural_chairman := Some (chairman, arbad_id)\<rparr>))))"

definition reset_ballot ::
  "origin \<Rightarrow> government_branch \<Rightarrow> 'i election_state \<Rightarrow> ('i election_state, election_failure) result" where
  "reset_ballot og branch s =
     and_then (ensure_root og) (\<lambda>_.
     Ok (emit_election (BallotReset branch)
       (if branch = Legislative
        then s\<lparr>khural_votes := Map.empty, khural_vote_counts := (\<lambda>_. 0), khural_chairman := None\<rparr>
        else s\<lparr>branch_votes := (branch_votes s)(branch := Map.empty),
               branch_vote_counts := (branch_vote_counts s)(branch := \<lambda>_. 0),
               branch_candidate_count := (branch_candidate_count s)(branch := 0),
               supreme_leader_votes := (supreme_leader_votes s)(branch := Map.empty),
               supreme_leader_vote_counts := (supreme_leader_vote_counts s)(branch := \<lambda>_. 0),
               branch_councils := (branch_councils s)(branch := None),
               supreme_leaders := (supreme_leaders s)(branch := None)\<rparr>)))"

datatype election_call =
    CastVote nat account
  | AddCitizenToArbad account nat
  | PromoteLeader account election_level "nat option"
  | CreateElection nat election_level "account list"
  | ElectBranchCouncil government_branch account
  | ConfirmBranchCouncil government_branch "account list"
  | ElectSupremeLeader government_branch account
  | ConfirmSupremeLeader government_branch account
  | ElectKhuralChairman account
  | ConfirmKhuralChairman account
  | ResetBallot government_branch

fun election_dispatch ::
  "'i election_config \<Rightarrow> origin \<times> election_call \<Rightarrow> 'i election_state \<Rightarrow> ('i election_state, election_failure) result" where
  "election_dispatch cfg (og, CastVote e c) s = cast_vote og e c s"
| "election_dispatch cfg (og, AddCitizenToArbad c a) s = add_citizen_to_arbad og c a s"
| "election_dispatch cfg (og, PromoteLeader l v z) s = promote_leader cfg og l v z s"
| "election_dispatch cfg (og, CreateElection e l cs) s = create_election cfg og e l cs s"
| "election_dispatch cfg (og, ElectBranchCouncil b c) s = elect_branch_council cfg og b c s"
| "election_dispatch cfg (og, ConfirmBranchCouncil b ws) s = confirm_branch_council og b ws s"
| "election_dispatch cfg (og, ElectSupremeLeader b c) s = elect_supreme_leader og b c s"
| "election_dispatch cfg (og, ConfirmSupremeLeader b l) s = confirm_supreme_leader og b l s"
| "election_dispatch cfg (og, ElectKhuralChairman c) s = elect_khural_chairman cfg og c s"
| "election_dispatch cfg (og, ConfirmKhuralChairman c) s = confirm_khural_chairman og c s"
| "election_dispatch cfg (og, ResetBallot b) s = reset_ballot og b s"

lemmas election_defs = cast_vote_def add_citizen_to_arbad_def promote_leader_def create_election_def
  elect_branch_council_def confirm_branch_council_def elect_supreme_leader_def confirm_supreme_leader_def
  elect_khural_chairman_def confirm_khural_chairman_def reset_ballot_def

end
