(* ===== verification/Elections_Props.thy ===== *)
theory Elections_Props
  imports Elections
begin

text \<open>
  Elections over time: the pallet as a machine, its four ballots as instances of the ballot contract, and
  the invariant of councils, leaders and candidates.
\<close>

section \<open>The machine\<close>

text \<open>The identity pallet changes the storage the indigenous check reads.\<close>

definition election_foreign :: "'i election_state \<Rightarrow> 'i election_state \<Rightarrow> bool" where
  "election_foreign s t \<longleftrightarrow> (\<exists>i. t = s\<lparr>identity_storage := i\<rparr>)"

abbreviation election_step :: "'i election_config \<Rightarrow> 'i election_state \<Rightarrow> 'i election_state \<Rightarrow> bool" where
  "election_step cfg \<equiv> machine_step (election_dispatch cfg) election_foreign"

definition election_empty :: "'i \<Rightarrow> 'i election_state" where
  "election_empty i = \<lparr>identity_storage = i, citizen_arbad = Map.empty, elected_leaders = Map.empty,
     elections = Map.empty, votes = (\<lambda>_. Map.empty), vote_counts = (\<lambda>_ _. 0), branch_councils = Map.empty,
     branch_votes = (\<lambda>_. Map.empty), branch_vote_counts = (\<lambda>_ _. 0), supreme_leaders = Map.empty,
     supreme_leader_votes = (\<lambda>_. Map.empty), supreme_leader_vote_counts = (\<lambda>_ _. 0), khural_chairman = None,
     khural_votes = Map.empty, khural_vote_counts = (\<lambda>_. 0), branch_candidate_count = (\<lambda>_. 0),
     arbad_member_count = (\<lambda>_. 0), zun_leader_count = (\<lambda>_. 0), myangad_leader_count = (\<lambda>_. 0),
     citizen_zun = Map.empty, citizen_myangad = Map.empty, election_events = []\<rparr>"

lemma emit_election_simps [simp]:
  "identity_storage (emit_election e s) = identity_storage s" "citizen_arbad (emit_election e s) = citizen_arbad s"
  "elected_leaders (emit_election e s) = elected_leaders s" "elections (emit_election e s) = elections s"
  "votes (emit_election e s) = votes s" "vote_counts (emit_election e s) = vote_counts s"
  "branch_councils (emit_election e s) = branch_councils s" "branch_votes (emit_election e s) = branch_votes s"
  "branch_vote_counts (emit_election e s) = branch_vote_counts s" "supreme_leaders (emit_election e s) = supreme_leaders s"
  "supreme_leader_votes (emit_election e s) = supreme_leader_votes s"
  "supreme_leader_vote_counts (emit_election e s) = supreme_leader_vote_counts s"
  "khural_chairman (emit_election e s) = khural_chairman s" "khural_votes (emit_election e s) = khural_votes s"
  "khural_vote_counts (emit_election e s) = khural_vote_counts s"
  "branch_candidate_count (emit_election e s) = branch_candidate_count s"
  "arbad_member_count (emit_election e s) = arbad_member_count s" "zun_leader_count (emit_election e s) = zun_leader_count s"
  "myangad_leader_count (emit_election e s) = myangad_leader_count s"
  by (simp_all add: emit_election_def)

lemma ensure_may_vote_Ok [ok_simps]:
  "ensure_may_vote a l s k = Ok x \<longleftrightarrow>
     (if l = Arbad then citizen_arbad s a \<noteq> None else \<exists>v. elected_leaders s a = Some v \<and> l \<le> v) \<and> k = Ok x"
  by (cases l) (auto simp: ensure_may_vote_def ok_simps)

text \<open>The parts of the state the ballots, the councils and the candidate counters live in.\<close>

definition polls where
  "polls s = (votes s, vote_counts s, branch_councils s, branch_votes s, branch_vote_counts s, supreme_leaders s,
     supreme_leader_votes s, supreme_leader_vote_counts s, khural_chairman s, khural_votes s, khural_vote_counts s,
     branch_candidate_count s)"

lemma polls_eq:
  "polls t = polls s \<longleftrightarrow> votes t = votes s \<and> vote_counts t = vote_counts s \<and> branch_councils t = branch_councils s
     \<and> branch_votes t = branch_votes s \<and> branch_vote_counts t = branch_vote_counts s \<and> supreme_leaders t = supreme_leaders s
     \<and> supreme_leader_votes t = supreme_leader_votes s \<and> supreme_leader_vote_counts t = supreme_leader_vote_counts s
     \<and> khural_chairman t = khural_chairman s \<and> khural_votes t = khural_votes s
     \<and> khural_vote_counts t = khural_vote_counts s \<and> branch_candidate_count t = branch_candidate_count s"
  by (auto simp: polls_def)

lemma enter_level_polls: "enter_level cfg a l z s = Ok t \<Longrightarrow> polls t = polls s"
  by (cases l) (auto simp: enter_level_def ok_simps polls_eq)

lemma promote_leader_polls: "promote_leader cfg og a l z s = Ok t \<Longrightarrow> polls t = polls s"
  by (auto simp: promote_leader_def ok_simps dest!: enter_level_polls) (simp add: polls_eq)

lemma admit_candidate_Ok:
  assumes "admit_candidate cfg b c s = Ok t"
  obtains (fresh) "branch_vote_counts s b c = 0" "branch_candidate_count s b + 1 \<le> max_branch_candidates cfg"
      "t = s\<lparr>branch_candidate_count := (branch_candidate_count s)(b := branch_candidate_count s b + 1)\<rparr>"
    | (known) "0 < branch_vote_counts s b c" "t = s"
  using assms by (auto simp: admit_candidate_def ok_simps split: if_splits)

section \<open>The steps that touch a poll\<close>

text \<open>Every step leaves the polls alone or is one of seven.\<close>

datatype poll_step =
    VotedIn nat account account
  | VotedBranch government_branch account account
  | Seated government_branch "account list"
  | VotedLeader government_branch account account
  | Installed government_branch account
  | VotedKhural account account
  | Chaired account nat
  | Cleared government_branch
  | Untouched

fun poll_effect :: "'i election_config \<Rightarrow> poll_step \<Rightarrow> 'i election_state \<Rightarrow> 'i election_state \<Rightarrow> bool" where
  "poll_effect cfg (VotedIn e v c) s t \<longleftrightarrow> votes s e v = None
     \<and> polls t = polls (s\<lparr>votes := (votes s)(e := (votes s e)(v \<mapsto> c)),
                 vote_counts := (vote_counts s)(e := (vote_counts s e)(c := vote_counts s e c + 1))\<rparr>)"
| "poll_effect cfg (VotedBranch b v c) s t \<longleftrightarrow> b \<noteq> Legislative \<and> branch_votes s b v = None
     \<and> elected_leaders s v = Some Tumed \<and> elected_leaders s c = Some Tumed
     \<and> (branch_vote_counts s b c = 0 \<longrightarrow> branch_candidate_count s b + 1 \<le> max_branch_candidates cfg)
     \<and> polls t = polls (s\<lparr>branch_votes := (branch_votes s)(b := (branch_votes s b)(v \<mapsto> c)),
                 branch_vote_counts := (branch_vote_counts s)(b := (branch_vote_counts s b)(c := branch_vote_counts s b c + 1)),
                 branch_candidate_count := (branch_candidate_count s)(b := branch_candidate_count s b
                   + (if branch_vote_counts s b c = 0 then 1 else 0))\<rparr>)"
| "poll_effect cfg (Seated b ws) s t \<longleftrightarrow> b \<noteq> Legislative \<and> length ws = 9 \<and> (\<forall>w\<in>set ws. 0 < branch_vote_counts s b w)
     \<and> polls t = polls (s\<lparr>branch_councils := (branch_councils s)(b \<mapsto> ws)\<rparr>)"
| "poll_effect cfg (VotedLeader b v c) s t \<longleftrightarrow> b \<noteq> Legislative \<and> supreme_leader_votes s b v = None
     \<and> (\<exists>ws. branch_councils s b = Some ws \<and> v \<in> set ws)
     \<and> polls t = polls (s\<lparr>supreme_leader_votes := (supreme_leader_votes s)(b := (supreme_leader_votes s b)(v \<mapsto> c)),
                 supreme_leader_vote_counts := (supreme_leader_vote_counts s)
                   (b := (supreme_leader_vote_counts s b)(c := supreme_leader_vote_counts s b c + 1))\<rparr>)"
| "poll_effect cfg (Installed b l) s t \<longleftrightarrow> b \<noteq> Legislative
     \<and> polls t = polls (s\<lparr>supreme_leaders := (supreme_leaders s)(b \<mapsto> l)\<rparr>)"
| "poll_effect cfg (VotedKhural v c) s t \<longleftrightarrow> khural_votes s v = None \<and> elected_leaders s v = Some Tumed
     \<and> polls t = polls (s\<lparr>khural_votes := (khural_votes s)(v \<mapsto> c),
                 khural_vote_counts := (khural_vote_counts s)(c := khural_vote_counts s c + 1)\<rparr>)"
| "poll_effect cfg (Chaired c a) s t \<longleftrightarrow> citizen_arbad s c = Some a \<and> polls t = polls (s\<lparr>khural_chairman := Some (c, a)\<rparr>)"
| "poll_effect cfg (Cleared b) s t \<longleftrightarrow>
     (if b = Legislative
      then polls t = polls (s\<lparr>khural_votes := Map.empty, khural_vote_counts := (\<lambda>_. 0), khural_chairman := None\<rparr>)
      else polls t = polls (s\<lparr>branch_votes := (branch_votes s)(b := Map.empty),
               branch_vote_counts := (branch_vote_counts s)(b := \<lambda>_. 0),
               branch_candidate_count := (branch_candidate_count s)(b := 0),
               supreme_leader_votes := (supreme_leader_votes s)(b := Map.empty),
               supreme_leader_vote_counts := (supreme_leader_vote_counts s)(b := \<lambda>_. 0),
               branch_councils := (branch_councils s)(b := None),
               supreme_leaders := (supreme_leaders s)(b := None)\<rparr>))"
| "poll_effect cfg Untouched s t \<longleftrightarrow> polls t = polls s"

lemma elect_branch_council_effect:
  assumes "elect_branch_council cfg og b c s = Ok t"
  shows "\<exists>v. poll_effect cfg (VotedBranch b v c) s t"
proof -
  obtain v s1 where v: "b \<noteq> Legislative" "elected_leaders s c = Some Tumed" "elected_leaders s v = Some Tumed"
      "branch_votes s b v = None" and s1: "admit_candidate cfg b c s = Ok s1"
    and t: "t = emit_election (BranchVoteCast b v c)
          (s1\<lparr>branch_votes := (branch_votes s1)(b := (branch_votes s1 b)(v \<mapsto> c)),
              branch_vote_counts := (branch_vote_counts s1)(b := (branch_vote_counts s1 b)(c := branch_vote_counts s1 b c + 1))\<rparr>)"
    using assms by (auto simp: elect_branch_council_def ok_simps)
  from s1 show ?thesis
    by (cases rule: admit_candidate_Ok) (rule exI[of _ v], use v in \<open>simp add: t polls_eq\<close>)+
qed

lemma election_step_effect:
  assumes "election_step cfg s t"
  shows "\<exists>p. poll_effect cfg p s t"
  using assms unfolding machine_step_def
proof
  assume "election_foreign s t"
  then have "poll_effect cfg Untouched s t" by (auto simp: election_foreign_def polls_eq)
  then show ?thesis ..
next
  assume "\<exists>c. election_dispatch cfg c s = Ok t"
  then obtain og call where d: "election_dispatch cfg (og, call) s = Ok t" by auto
  show ?thesis
  proof (cases call)
    case (CastVote e c)
    then obtain v where "poll_effect cfg (VotedIn e v c) s t"
      using d by (auto simp: cast_vote_def ok_simps polls_eq)
    then show ?thesis ..
  next
    case (AddCitizenToArbad c a)
    then have "poll_effect cfg Untouched s t"
      using d by (auto simp: add_citizen_to_arbad_def ok_simps polls_eq)
    then show ?thesis ..
  next
    case (PromoteLeader l v z)
    then have "poll_effect cfg Untouched s t" using d promote_leader_polls by auto
    then show ?thesis ..
  next
    case (CreateElection e l cs)
    then have "poll_effect cfg Untouched s t" using d by (auto simp: create_election_def ok_simps polls_eq)
    then show ?thesis ..
  next
    case (ElectBranchCouncil b c)
    then show ?thesis using d elect_branch_council_effect by fastforce
  next
    case (ConfirmBranchCouncil b ws)
    then have "poll_effect cfg (Seated b ws) s t"
      using d by (auto simp: confirm_branch_council_def ok_simps polls_eq COUNCIL_SIZE_def)
    then show ?thesis ..
  next
    case (ElectSupremeLeader b c)
    then obtain v where "poll_effect cfg (VotedLeader b v c) s t"
      using d by (auto simp: elect_supreme_leader_def ok_simps polls_eq)
    then show ?thesis ..
  next
    case (ConfirmSupremeLeader b l)
    then have "poll_effect cfg (Installed b l) s t"
      using d by (auto simp: confirm_supreme_leader_def ok_simps polls_eq)
    then show ?thesis ..
  next
    case (ElectKhuralChairman c)
    then obtain v where "poll_effect cfg (VotedKhural v c) s t"
      using d by (auto simp: elect_khural_chairman_def ok_simps polls_eq)
    then show ?thesis ..
  next
    case (ConfirmKhuralChairman c)
    then obtain a where "poll_effect cfg (Chaired c a) s t"
      using d by (auto simp: confirm_khural_chairman_def ok_simps polls_eq)
    then show ?thesis ..
  next
    case (ResetBallot b)
    then have "poll_effect cfg (Cleared b) s t"
      using d by (auto simp: reset_ballot_def ok_simps polls_eq)
    then show ?thesis ..
  qed
qed

section \<open>The four ballots\<close>

interpretation decimal: ballot votes vote_counts "election_step cfg" for cfg
proof
  fix s t :: "'a election_state" and k
  assume "election_step cfg s t"
  then obtain p where "poll_effect cfg p s t" using election_step_effect by blast
  then show "(votes t k = votes s k \<and> vote_counts t k = vote_counts s k)
    \<or> (\<exists>v c. votes s k v = None \<and> votes t k = (votes s k)(v \<mapsto> c) \<and> vote_counts t k = (vote_counts s k)(c := vote_counts s k c + 1))
    \<or> (votes t k = Map.empty \<and> vote_counts t k = (\<lambda>_. 0))"
    by (cases p) (auto simp: polls_eq split: if_splits)
qed

lemma voted_branch_row:
  assumes "poll_effect cfg (VotedBranch b v c) s t"
  shows "branch_votes s b v = None" "branch_votes t = (branch_votes s)(b := (branch_votes s b)(v \<mapsto> c))"
    "branch_vote_counts t = (branch_vote_counts s)(b := (branch_vote_counts s b)(c := branch_vote_counts s b c + 1))"
    "branch_councils t = branch_councils s" "supreme_leaders t = supreme_leaders s"
    "branch_candidate_count t = (branch_candidate_count s)(b := branch_candidate_count s b
       + (if branch_vote_counts s b c = 0 then 1 else 0))"
    "branch_vote_counts s b c = 0 \<Longrightarrow> branch_candidate_count s b + 1 \<le> max_branch_candidates cfg"
  using assms by (simp_all add: polls_eq)

interpretation council: ballot branch_votes branch_vote_counts "election_step cfg" for cfg
proof
  fix s t :: "'a election_state" and k
  assume "election_step cfg s t"
  then obtain p where p: "poll_effect cfg p s t" using election_step_effect by blast
  show "(branch_votes t k = branch_votes s k \<and> branch_vote_counts t k = branch_vote_counts s k)
    \<or> (\<exists>v c. branch_votes s k v = None \<and> branch_votes t k = (branch_votes s k)(v \<mapsto> c)
         \<and> branch_vote_counts t k = (branch_vote_counts s k)(c := branch_vote_counts s k c + 1))
    \<or> (branch_votes t k = Map.empty \<and> branch_vote_counts t k = (\<lambda>_. 0))"
  proof (cases p)
    case (VotedBranch b v c)
    note row = voted_branch_row[OF p[unfolded VotedBranch]]
    show ?thesis
    proof (cases "k = b")
      case True
      then have "branch_votes s k v = None \<and> branch_votes t k = (branch_votes s k)(v \<mapsto> c)
         \<and> branch_vote_counts t k = (branch_vote_counts s k)(c := branch_vote_counts s k c + 1)"
        using row(1-3) by simp
      then show ?thesis by blast
    qed (use row(2,3) in simp)
  qed (use p in \<open>auto simp: polls_eq split: if_splits\<close>)
qed

interpretation leader: ballot supreme_leader_votes supreme_leader_vote_counts "election_step cfg" for cfg
proof
  fix s t :: "'a election_state" and k
  assume "election_step cfg s t"
  then obtain p where "poll_effect cfg p s t" using election_step_effect by blast
  then show "(supreme_leader_votes t k = supreme_leader_votes s k
         \<and> supreme_leader_vote_counts t k = supreme_leader_vote_counts s k)
    \<or> (\<exists>v c. supreme_leader_votes s k v = None \<and> supreme_leader_votes t k = (supreme_leader_votes s k)(v \<mapsto> c)
         \<and> supreme_leader_vote_counts t k = (supreme_leader_vote_counts s k)(c := supreme_leader_vote_counts s k c + 1))
    \<or> (supreme_leader_votes t k = Map.empty \<and> supreme_leader_vote_counts t k = (\<lambda>_. 0))"
    by (cases p) (auto simp: polls_eq split: if_splits)
qed

interpretation khural: ballot "\<lambda>s (_::unit). khural_votes s" "\<lambda>s _. khural_vote_counts s" "election_step cfg" for cfg
proof
  fix s t :: "'a election_state" and k :: unit
  assume "election_step cfg s t"
  then obtain p where "poll_effect cfg p s t" using election_step_effect by blast
  then show "(khural_votes t = khural_votes s \<and> khural_vote_counts t = khural_vote_counts s)
    \<or> (\<exists>v c. khural_votes s v = None \<and> khural_votes t = (khural_votes s)(v \<mapsto> c)
         \<and> khural_vote_counts t = (khural_vote_counts s)(c := khural_vote_counts s c + 1))
    \<or> (khural_votes t = Map.empty \<and> khural_vote_counts t = (\<lambda>_. 0))"
    by (cases p) (auto simp: polls_eq split: if_splits)
qed

section \<open>Councils, leaders and candidates\<close>

definition government_inv :: "'i election_config \<Rightarrow> 'i election_state \<Rightarrow> bool" where
  "government_inv cfg s \<longleftrightarrow>
     (\<forall>b. finite {c. 0 < branch_vote_counts s b c} \<and> branch_candidate_count s b = card {c. 0 < branch_vote_counts s b c}
        \<and> card {c. 0 < branch_vote_counts s b c} \<le> max_branch_candidates cfg)
   \<and> (\<forall>b ws. branch_councils s b = Some ws \<longrightarrow>
        b \<noteq> Legislative \<and> length ws = 9 \<and> (\<forall>w\<in>set ws. 0 < branch_vote_counts s b w))
   \<and> supreme_leaders s Legislative = None"

lemma government_inv_empty: "government_inv cfg (election_empty i)"
  by (simp add: government_inv_def election_empty_def)

lemma government_inv_voted:
  assumes inv: "government_inv cfg s" and p: "poll_effect cfg (VotedBranch b v c) s t"
  shows "government_inv cfg t"
proof -
  note row = voted_branch_row[OF p]
  have cand: "finite {d. 0 < branch_vote_counts s x d}"
      "branch_candidate_count s x = card {d. 0 < branch_vote_counts s x d}"
      "card {d. 0 < branch_vote_counts s x d} \<le> max_branch_candidates cfg" for x
    using inv by (simp_all add: government_inv_def)
  have new: "{d. 0 < branch_vote_counts t x d} =
      (if x = b then insert c {d. 0 < branch_vote_counts s b d} else {d. 0 < branch_vote_counts s x d})" for x
    by (auto simp: row(3))
  have "finite {d. 0 < branch_vote_counts t x d} \<and> branch_candidate_count t x = card {d. 0 < branch_vote_counts t x d}
      \<and> card {d. 0 < branch_vote_counts t x d} \<le> max_branch_candidates cfg" for x
  proof (cases "x = b")
    case True
    then show ?thesis
      using cand[of b] row(7) by (cases "branch_vote_counts s b c = 0") (simp_all add: new row(6) insert_absorb)
  qed (use cand[of x] in \<open>simp add: new row(6)\<close>)
  moreover have "0 < branch_vote_counts s x w \<Longrightarrow> 0 < branch_vote_counts t x w" for x w
    by (cases "x = b") (simp_all add: row(3))
  ultimately show ?thesis
    using inv by (simp add: government_inv_def row(4,5))
qed

lemma government_inv_effect:
  assumes inv: "government_inv cfg s" and "poll_effect cfg p s t"
  shows "government_inv cfg t"
proof (cases p)
  case (VotedBranch b v c)
  with assms government_inv_voted show ?thesis by blast
qed (use assms in \<open>auto simp: government_inv_def polls_eq split: if_splits\<close>)

interpretation government: pallet_machine "election_dispatch cfg" election_foreign "government_inv cfg" for cfg
proof
  fix s t :: "'a election_state" and c
  assume inv: "government_inv cfg s"
  have "government_inv cfg t" if "election_step cfg s t"
    using election_step_effect[OF that] government_inv_effect[OF inv] by blast
  then show "election_dispatch cfg c s = Ok t \<Longrightarrow> government_inv cfg t" "election_foreign s t \<Longrightarrow> government_inv cfg t"
    unfolding machine_step_def by blast+
qed

end
