(* ===== verification/Elections_Claims.thy ===== *)
theory Elections_Claims
  imports Elections_Props
begin

text \<open>
  What the elections pallet guarantees: tallies are the votes, councils were voted for; and how little the
  size requirements of the hierarchy ask for.
\<close>

section \<open>Tallies and councils\<close>

definition ballots_ok :: "'i election_state \<Rightarrow> bool" where
  "ballots_ok s \<longleftrightarrow> (\<forall>e. counted (votes s e) (vote_counts s e))
     \<and> (\<forall>b. counted (branch_votes s b) (branch_vote_counts s b))
     \<and> (\<forall>b. counted (supreme_leader_votes s b) (supreme_leader_vote_counts s b))
     \<and> counted (khural_votes s) (khural_vote_counts s)"

lemma ballots_ok_reachable:
  assumes "reachable (election_dispatch cfg) election_foreign (election_empty i) s"
  shows "ballots_ok s"
proof -
  have st: "(election_step cfg)\<^sup>*\<^sup>* (election_empty i) s" using assms by (simp add: reachable_iff_steps)
  show ?thesis
    unfolding ballots_ok_def
    using decimal.counted_steps[OF st] council.counted_steps[OF st] leader.counted_steps[OF st]
      khural.counted_steps[OF st] by (simp add: election_empty_def)
qed

text \<open>C12: in every reachable state, the stored tally of a candidate in each of the four kinds of elections is the
  number of accounts whose recorded vote is for that candidate, and the tallies of a branch add up to the number of
  its voters. The candidate counter of a branch is the number of its candidates with a vote and within the limit.\<close>

theorem tallies_are_votes:
  fixes s :: "'i election_state"
  assumes "reachable (election_dispatch cfg) election_foreign (election_empty i) s"
  shows "vote_counts s e c = card {v. votes s e v = Some c}
    \<and> branch_vote_counts s b c = card {v. branch_votes s b v = Some c}
    \<and> supreme_leader_vote_counts s b c = card {v. supreme_leader_votes s b v = Some c}
    \<and> khural_vote_counts s c = card {v. khural_votes s v = Some c}
    \<and> tsum (branch_vote_counts s b) = card (dom (branch_votes s b))
    \<and> branch_candidate_count s b = card {d. \<exists>v. branch_votes s b v = Some d}
    \<and> branch_candidate_count s b \<le> max_branch_candidates cfg"
proof -
  have ok: "ballots_ok s" by (rule ballots_ok_reachable[OF assms])
  then have br: "counted (branch_votes s b) (branch_vote_counts s b)" by (simp add: ballots_ok_def)
  have inv: "government_inv cfg s" by (rule government.reachable_inv[OF assms government_inv_empty])
  have "{d. 0 < branch_vote_counts s b d} = {d. \<exists>v. branch_votes s b v = Some d}"
    using counted_pos[OF br] by blast
  with inv have cand: "branch_candidate_count s b = card {d. \<exists>v. branch_votes s b v = Some d}"
      "card {d. \<exists>v. branch_votes s b v = Some d} \<le> max_branch_candidates cfg"
    by (simp_all add: government_inv_def) metis
  show ?thesis
    using ok counted_total[OF br] cand by (simp add: ballots_ok_def counted_def)
qed

lemma council_seated:
  fixes s :: "'i election_state"
  assumes run: "reachable (election_dispatch cfg) election_foreign (election_empty i) s"
    and seated: "branch_councils s b = Some ws"
  shows "b \<noteq> Legislative \<and> length ws = 9 \<and> (\<forall>w\<in>set ws. \<exists>v. branch_votes s b v = Some w)"
proof -
  have "counted (branch_votes s b) (branch_vote_counts s b)"
    using ballots_ok_reachable[OF run] by (simp add: ballots_ok_def)
  moreover have "b \<noteq> Legislative \<and> length ws = 9 \<and> (\<forall>w\<in>set ws. 0 < branch_vote_counts s b w)"
    using government.reachable_inv[OF run government_inv_empty] seated by (simp add: government_inv_def)
  ultimately show ?thesis by (simp add: counted_pos)
qed

lemma no_legislative_leader:
  fixes s :: "'i election_state"
  assumes "reachable (election_dispatch cfg) election_foreign (election_empty i) s"
  shows "supreme_leaders s Legislative = None"
  using government.reachable_inv[OF assms government_inv_empty] by (simp add: government_inv_def)

section \<open>A hierarchy of one\<close>

lemma add_citizen_again:
  assumes "arbad_member_count s a + n \<le> umax 32"
  shows "\<exists>t. run (election_dispatch cfg) (replicate n (Root, AddCitizenToArbad c a)) s = t
     \<and> arbad_member_count t a = arbad_member_count s a + n
     \<and> (0 < n \<longrightarrow> citizen_arbad t = (citizen_arbad s)(c \<mapsto> a)) \<and> zun_leader_count t = zun_leader_count s
     \<and> myangad_leader_count t = myangad_leader_count s"
  using assms
proof (induction n arbitrary: s)
  case (Suc n)
  let ?s1 = "emit_election (CitizenAddedToArbad c a) (s\<lparr>citizen_arbad := (citizen_arbad s)(c \<mapsto> a),
     arbad_member_count := (arbad_member_count s)(a := arbad_member_count s a + 1)\<rparr>)"
  have "execute (election_dispatch cfg) (Root, AddCitizenToArbad c a) s = ?s1"
    using Suc.prems by (simp add: execute_def add_citizen_to_arbad_def count_up_def checked_add_def)
  with Suc.IH[of ?s1] Suc.prems show ?case
    by (cases n) auto
qed simp

lemma promote_zun_again:
  assumes "zun_leader_count s a + n \<le> umax 32" "citizen_arbad s c = Some a" "min_arbad_size cfg \<le> arbad_member_count s a"
  shows "\<exists>t. run (election_dispatch cfg) (replicate n (Root, PromoteLeader c Zun None)) s = t
     \<and> zun_leader_count t a = zun_leader_count s a + n
     \<and> citizen_arbad t = citizen_arbad s \<and> myangad_leader_count t = myangad_leader_count s"
  using assms
proof (induction n arbitrary: s)
  case (Suc n)
  obtain s1 where "execute (election_dispatch cfg) (Root, PromoteLeader c Zun None) s = s1"
    and "zun_leader_count s1 a = zun_leader_count s a + 1" "citizen_arbad s1 = citizen_arbad s"
      "myangad_leader_count s1 = myangad_leader_count s" "arbad_member_count s1 = arbad_member_count s"
    using Suc.prems by (simp add: execute_def promote_leader_def enter_level_def count_up_def checked_add_def)
  with Suc.IH[of s1] Suc.prems show ?case by simp
qed simp

lemma promote_myangad_again:
  assumes "myangad_leader_count s z + n \<le> umax 32" "min_zun_leaders cfg \<le> zun_leader_count s z"
  shows "\<exists>t. run (election_dispatch cfg) (replicate n (Root, PromoteLeader c Myangad (Some z))) s = t
     \<and> myangad_leader_count t z = myangad_leader_count s z + n \<and> citizen_arbad t = citizen_arbad s"
  using assms
proof (induction n arbitrary: s)
  case (Suc n)
  obtain s1 where "execute (election_dispatch cfg) (Root, PromoteLeader c Myangad (Some z)) s = s1"
    and "myangad_leader_count s1 z = myangad_leader_count s z + 1" "citizen_arbad s1 = citizen_arbad s"
      "zun_leader_count s1 = zun_leader_count s"
    using Suc.prems by (simp add: execute_def promote_leader_def enter_level_def count_up_def checked_add_def)
  with Suc.IH[of s1] Suc.prems show ?case by simp
qed simp

definition climb :: "'i election_config \<Rightarrow> account \<Rightarrow> nat \<Rightarrow> (origin \<times> election_call) list" where
  "climb cfg c a =
     replicate (min_arbad_size cfg) (Root, AddCitizenToArbad c a)
   @ replicate (min_zun_leaders cfg) (Root, PromoteLeader c Zun None)
   @ replicate (min_myangad_leaders cfg) (Root, PromoteLeader c Myangad (Some a))
   @ [(Root, PromoteLeader c Tumed (Some a))]"

text \<open>the size requirements count calls, not people: registering and promoting one and the same citizen over
  and over fills an Arbad, a Zun and a Myangad, so that the citizen becomes a Tumed leader of a hierarchy in which
  nobody else is registered, whatever minimum sizes are configured.\<close>

theorem one_citizen_hierarchy:
  assumes "0 < min_arbad_size cfg" "min_arbad_size cfg \<le> umax 32" "min_zun_leaders cfg \<le> umax 32"
    "min_myangad_leaders cfg \<le> umax 32"
  shows "\<exists>t. run (election_dispatch cfg) (climb cfg c a) (election_empty i) = t
    \<and> elected_leaders t c = Some Tumed \<and> dom (citizen_arbad t) = {c}"
proof -
  let ?run = "run (election_dispatch cfg)"
  obtain s1 where s1: "?run (replicate (min_arbad_size cfg) (Root, AddCitizenToArbad c a)) (election_empty i) = s1"
      "arbad_member_count s1 a = min_arbad_size cfg" "citizen_arbad s1 = [c \<mapsto> a]"
      "zun_leader_count s1 a = 0" "myangad_leader_count s1 a = 0"
    using add_citizen_again[of "election_empty i" a "min_arbad_size cfg" cfg c] assms(1,2)
    by (auto simp: election_empty_def)
  obtain s2 where s2: "?run (replicate (min_zun_leaders cfg) (Root, PromoteLeader c Zun None)) s1 = s2"
      "zun_leader_count s2 a = min_zun_leaders cfg" "citizen_arbad s2 = [c \<mapsto> a]" "myangad_leader_count s2 a = 0"
    using promote_zun_again[of s1 a "min_zun_leaders cfg" c cfg] assms(3) s1 by auto
  obtain s3 where s3: "?run (replicate (min_myangad_leaders cfg) (Root, PromoteLeader c Myangad (Some a))) s2 = s3"
      "myangad_leader_count s3 a = min_myangad_leaders cfg" "citizen_arbad s3 = [c \<mapsto> a]"
    using promote_myangad_again[of s2 a "min_myangad_leaders cfg" cfg c] assms(4) s2 by auto
  have "?run (climb cfg c a) (election_empty i) = execute (election_dispatch cfg) (Root, PromoteLeader c Tumed (Some a)) s3"
    by (simp add: climb_def run_append s1(1) s2(1) s3(1))
  then show ?thesis
    using s3 by (simp add: execute_def promote_leader_def enter_level_def)
qed

section \<open>A small chain\<close>

text \<open>The runtime's limits; everyone is indigenous.\<close>

definition runtime_election :: "unit election_config" where
  "runtime_election = \<lparr>is_indigenous = (\<lambda>_ _. True), max_candidates = 1024, max_branch_candidates = 100,
     min_arbad_size = 10, min_zun_leaders = 10, min_myangad_leaders = 10\<rparr>"

theorem one_citizen_hierarchy_witness:
  "\<exists>t. run (election_dispatch runtime_election) (climb runtime_election 11 7) (election_empty ()) = t
    \<and> elected_leaders t 11 = Some Tumed \<and> dom (citizen_arbad t) = {11}"
  by (rule one_citizen_hierarchy) (simp_all add: runtime_election_def umax_def)

text \<open>A chain whose levels need one member only, with a seated banking council and a first vote for its leader.\<close>

definition book_election :: "unit election_config" where
  "book_election = runtime_election\<lparr>min_arbad_size := 1, min_zun_leaders := 1, min_myangad_leaders := 1\<rparr>"

definition book_tumed :: "unit election_state" where
  "book_tumed = run (election_dispatch book_election) (climb book_election 11 7) (election_empty ())"

definition book_council :: "unit election_state" where
  "book_council = run (election_dispatch book_election)
     [(Signed 11, ElectBranchCouncil Banking 11), (Root, ConfirmBranchCouncil Banking (replicate 9 11)),
      (Signed 11, ElectSupremeLeader Banking 13)] book_tumed"

lemma book_council_reach: "reachable (election_dispatch book_election) election_foreign (election_empty ()) book_council"
  unfolding book_council_def book_tumed_def by (intro reachable_run reachable.start)

lemmas book_eval = execute_def count_up_def checked_add_def umax_def ensure_tumed_def

lemma book_tumed_sel:
  "elected_leaders book_tumed 11 = Some Tumed" "branch_votes book_tumed = (\<lambda>_. Map.empty)"
  "branch_vote_counts book_tumed = (\<lambda>_ _. 0)" "branch_candidate_count book_tumed = (\<lambda>_. 0)"
  "supreme_leader_votes book_tumed = (\<lambda>_. Map.empty)" "supreme_leader_vote_counts book_tumed = (\<lambda>_ _. 0)"
  by (simp_all add: book_tumed_def climb_def book_election_def runtime_election_def book_eval add_citizen_to_arbad_def
        promote_leader_def enter_level_def election_empty_def)

lemma book_council_sel:
  "branch_councils book_council Banking = Some (replicate 9 11)" "branch_vote_counts book_council Banking 11 = 1"
  "supreme_leader_vote_counts book_council Banking 13 = 1"
  by (simp_all add: book_council_def book_tumed_sel book_eval elect_branch_council_def admit_candidate_def
        confirm_branch_council_def elect_supreme_leader_def COUNCIL_SIZE_def book_election_def runtime_election_def)

theorem tallies_are_votes_witness:
  "card {v. branch_votes book_council Banking v = Some 11} = 1
   \<and> card {v. supreme_leader_votes book_council Banking v = Some 13} = 1"
  using tallies_are_votes[OF book_council_reach, of 0 11 Banking] tallies_are_votes[OF book_council_reach, of 0 13 Banking]
  by (simp add: book_council_sel)

end
