(* ===== verification/Org_Roles.thy ===== *)
theory Org_Roles
  imports Pallet_Interfaces
begin

text \<open>
  \<^verbatim>\<open>pallets/org-roles/src/lib.rs\<close>: role keys in organizations, bound to accounts. The runtime derives the
  banking origin of the central bank and of the Bank of Siberia from them.
\<close>

section \<open>Data\<close>

datatype role_tier = Root_Key | Officer | Member

record org_details =
  owner :: account
  details_name :: "byte list"
  created_at :: nat

datatype role_event =
    OrganizationCreated nat account
  | RoleKeyMinted nat account role_tier account
  | RoleKeyRevoked nat account account

datatype role_error =
    NameTooLong
  | OrgNotFound
  | AlreadyHasRole
  | InsufficientMintPermissions
  | InsufficientRevokePermissions
  | CannotRevokeRoot
  | TargetHasNoRole
  | RoleSlotsFull

type_synonym role_failure = "role_error dispatch_error"

record role_state =
  next_org :: nat
  orgs :: "nat \<Rightarrow> org_details option"
  role_slots :: "nat \<Rightarrow> nat \<times> nat"
  issued_keys :: "nat \<times> account \<Rightarrow> role_tier option"
  role_events :: "role_event list"

definition emit_role :: "role_event \<Rightarrow> role_state \<Rightarrow> role_state" where
  "emit_role e s = s\<lparr>role_events := role_events s @ [e]\<rparr>"

lemma emit_role_simps [simp]:
  "next_org (emit_role e s) = next_org s" "orgs (emit_role e s) = orgs s" "role_slots (emit_role e s) = role_slots s"
  "issued_keys (emit_role e s) = issued_keys s"
  by (simp_all add: emit_role_def)

section \<open>Dispatchables\<close>

text \<open>\<open>MaxOrgNameLen\<close> is the argument \<open>max_len\<close>.\<close>

definition create_organization ::
  "nat \<Rightarrow> origin \<Rightarrow> byte list \<Rightarrow> nat \<Rightarrow> nat \<Rightarrow> role_state \<Rightarrow> (role_state, role_failure) result" where
  "create_organization max_len og name max_officers max_members s =
     and_then (ensure_signed og) (\<lambda>who.
     ensure (length name \<le> max_len) (Module NameTooLong) (
     let org_id = next_org s;
         details = \<lparr>owner = who, details_name = name, created_at = 0\<rparr>
     in Ok (emit_role (OrganizationCreated org_id who)
          (s\<lparr>next_org := (case checked_add 32 org_id 1 of Some n \<Rightarrow> n | None \<Rightarrow> org_id),
             orgs := (orgs s)(org_id \<mapsto> details),
             role_slots := (role_slots s)(org_id := (max_officers, max_members)),
             issued_keys := (issued_keys s)((org_id, who) \<mapsto> Root_Key)\<rparr>))))"

definition ensure_may_mint ::
  "role_tier \<Rightarrow> role_tier \<Rightarrow> ('a, role_failure) result \<Rightarrow> ('a, role_failure) result" where
  "ensure_may_mint minter_tier tier k =
     (case minter_tier of
        Root_Key \<Rightarrow> k
      | Officer \<Rightarrow> ensure (tier = Member) (Module InsufficientMintPermissions) k
      | Member \<Rightarrow> Err (Module InsufficientMintPermissions))"

lemma ensure_may_mint_Ok [ok_simps]:
  "ensure_may_mint m r k = Ok x \<longleftrightarrow> (m = Root_Key \<or> m = Officer \<and> r = Member) \<and> k = Ok x"
  by (cases m) (auto simp: ensure_may_mint_def ok_simps)

definition mint_role_key ::
  "origin \<Rightarrow> nat \<Rightarrow> account \<Rightarrow> role_tier \<Rightarrow> role_state \<Rightarrow> (role_state, role_failure) result" where
  "mint_role_key og org_id target tier s =
     and_then (ensure_signed og) (\<lambda>minter.
     ensure (orgs s org_id \<noteq> None) (Module OrgNotFound) (
     ensure (issued_keys s (org_id, target) = None) (Module AlreadyHasRole) (
     ok_or (issued_keys s (org_id, minter)) (Module InsufficientMintPermissions) (\<lambda>minter_tier.
     ensure_may_mint minter_tier tier (
     Ok (emit_role (RoleKeyMinted org_id target tier minter)
          (s\<lparr>issued_keys := (issued_keys s)((org_id, target) \<mapsto> tier)\<rparr>)))))))"

definition ensure_may_revoke ::
  "role_tier \<Rightarrow> role_tier \<Rightarrow> ('a, role_failure) result \<Rightarrow> ('a, role_failure) result" where
  "ensure_may_revoke revoker_tier target_tier k =
     (if revoker_tier = Officer then ensure (target_tier = Member) (Module InsufficientRevokePermissions) k
      else if revoker_tier = Member then Err (Module InsufficientRevokePermissions)
      else k)"

lemma ensure_may_revoke_Ok [ok_simps]:
  "ensure_may_revoke v r k = Ok x \<longleftrightarrow> (v = Root_Key \<or> v = Officer \<and> r = Member) \<and> k = Ok x"
  by (cases v) (auto simp: ensure_may_revoke_def ok_simps)

definition revoke_role_key ::
  "origin \<Rightarrow> nat \<Rightarrow> account \<Rightarrow> role_state \<Rightarrow> (role_state, role_failure) result" where
  "revoke_role_key og org_id target s =
     and_then (ensure_signed og) (\<lambda>revoker.
     ok_or (issued_keys s (org_id, revoker)) (Module InsufficientRevokePermissions) (\<lambda>revoker_tier.
     ok_or (issued_keys s (org_id, target)) (Module TargetHasNoRole) (\<lambda>target_tier.
     ensure (target_tier \<noteq> Root_Key) (Module CannotRevokeRoot) (
     ensure_may_revoke revoker_tier target_tier (
     Ok (emit_role (RoleKeyRevoked org_id target revoker)
          (s\<lparr>issued_keys := (issued_keys s)((org_id, target) := None)\<rparr>)))))))"

datatype role_call =
    CreateOrganization "byte list" nat nat
  | MintRoleKey nat account role_tier
  | RevokeRoleKey nat account

fun role_dispatch :: "nat \<Rightarrow> origin \<times> role_call \<Rightarrow> role_state \<Rightarrow> (role_state, role_failure) result" where
  "role_dispatch m (og, CreateOrganization n o1 o2) s = create_organization m og n o1 o2 s"
| "role_dispatch m (og, MintRoleKey i a r) s = mint_role_key og i a r s"
| "role_dispatch m (og, RevokeRoleKey i a) s = revoke_role_key og i a s"

section \<open>Authority over keys\<close>

definition role_start :: role_state where
  "role_start = \<lparr>next_org = 0, orgs = Map.empty, role_slots = (\<lambda>_. (0, 0)), issued_keys = Map.empty, role_events = []\<rparr>"

abbreviation role_step :: "nat \<Rightarrow> role_state \<Rightarrow> role_state \<Rightarrow> bool" where
  "role_step m \<equiv> machine_step (role_dispatch m) (\<lambda>_ _. False)"

definition officer :: "role_state \<Rightarrow> nat \<Rightarrow> account \<Rightarrow> bool" where
  "officer s i a \<longleftrightarrow> issued_keys s (i, a) \<in> {Some Root_Key, Some Officer}"

text \<open>Organizations are registered under increasing identifiers, and their owners hold a root key.\<close>

definition role_inv :: "role_state \<Rightarrow> bool" where
  "role_inv s \<longleftrightarrow> next_org s \<le> umax 32 \<and> (next_org s < umax 32 \<longrightarrow>
     (\<forall>i a. next_org s \<le> i \<longrightarrow> orgs s i = None \<and> issued_keys s (i, a) = None)
   \<and> (\<forall>i d. orgs s i = Some d \<longrightarrow> issued_keys s (i, owner d) = Some Root_Key))"

lemma role_step_cases:
  assumes "role_dispatch m (og, c) s = Ok t"
  obtains (create) n o1 o2 who where "c = CreateOrganization n o1 o2" "og = Signed who"
      "orgs t = (orgs s)(next_org s \<mapsto> \<lparr>owner = who, details_name = n, created_at = 0\<rparr>)"
      "issued_keys t = (issued_keys s)((next_org s, who) \<mapsto> Root_Key)"
      "next_org t = (if next_org s < umax 32 then next_org s + 1 else next_org s)"
    | (mint) i a r h where "c = MintRoleKey i a r" "og = Signed h" "orgs s i \<noteq> None" "issued_keys s (i, a) = None"
      "issued_keys s (i, h) = Some Root_Key \<or> issued_keys s (i, h) = Some Officer \<and> r = Member"
      "issued_keys t = (issued_keys s)((i, a) \<mapsto> r)" "orgs t = orgs s" "next_org t = next_org s"
    | (revoke) i a r h where "c = RevokeRoleKey i a" "og = Signed h" "issued_keys s (i, a) = Some r" "r \<noteq> Root_Key"
      "issued_keys s (i, h) = Some Root_Key \<or> issued_keys s (i, h) = Some Officer \<and> r = Member"
      "issued_keys t = (issued_keys s)((i, a) := None)" "orgs t = orgs s" "next_org t = next_org s"
proof (cases c)
  case (CreateOrganization n o1 o2)
  then show ?thesis
    using assms create by (fastforce simp: create_organization_def ok_simps Let_def checked_add_def)
next
  case (MintRoleKey i a r)
  then show ?thesis using assms mint by (fastforce simp: mint_role_key_def ok_simps)
next
  case (RevokeRoleKey i a)
  then show ?thesis using assms revoke by (fastforce simp: revoke_role_key_def ok_simps)
qed

lemma role_inv_step:
  assumes inv: "role_inv s" and "role_dispatch m (og, c) s = Ok t"
  shows "role_inv t"
  using assms(2)
proof (cases rule: role_step_cases)
  case create
  with inv show ?thesis by (auto simp: role_inv_def)
next
  case (mint i a r h)
  with inv show ?thesis by (auto simp: role_inv_def)
next
  case (revoke i a r h)
  with inv show ?thesis by (auto simp: role_inv_def)
qed

interpretation roles: pallet_machine "role_dispatch m" "\<lambda>_ _. False" role_inv for m
  by unfold_locales (auto intro: role_inv_step)

lemma role_inv_start: "role_inv role_start"
  by (simp add: role_inv_def role_start_def umax_def)

lemma role_reachable_inv: "reachable (role_dispatch m) (\<lambda>_ _. False) role_start s \<Longrightarrow> role_inv s"
  by (erule roles.reachable_inv[OF _ role_inv_start])

lemma role_step_keeps:
  assumes inv: "role_inv s" and lt: "next_org s < umax 32" and d: "role_dispatch m (og, c) s = Ok t"
  shows "next_org s \<le> next_org t"
    and "issued_keys s (i, a) = Some Root_Key \<Longrightarrow> issued_keys t (i, a) = Some Root_Key"
    and "orgs s i = Some d1 \<Longrightarrow> orgs t i = Some d1"
  using d inv lt by (cases rule: role_step_cases; force simp: role_inv_def)+

text \<open>Keys of an existing organization change only by the hand of one of its officers.\<close>

lemma role_step_officer:
  assumes d: "role_dispatch m (og, c) s = Ok t" and "i < next_org s" "issued_keys t (i, a) \<noteq> issued_keys s (i, a)"
  shows "\<exists>h. og = Signed h \<and> officer s i h"
  using d assms(2,3) by (cases rule: role_step_cases) (auto simp: officer_def split: if_splits)

interpretation role_ids: id_registry "next_org" "orgs"
  "\<lambda>s t. role_inv s \<and> next_org s < umax 32 \<and> (\<exists>m og c. role_dispatch m (og, c) s = Ok t)"
proof
  fix s t
  assume "role_inv s \<and> next_org s < umax 32 \<and> (\<exists>m og c. role_dispatch m (og, c) s = Ok t)"
  then obtain m og c where lt: "next_org s < umax 32" and d: "role_dispatch m (og, c) s = Ok t" by blast
  from d show "next_org t = next_org s \<and> dom (orgs t) = dom (orgs s)
     \<or> next_org t = sat_add 32 (next_org s) 1 \<and> dom (orgs t) = insert (next_org s) (dom (orgs s))"
    by (cases rule: role_step_cases) (use lt in \<open>auto simp: sat_add_def\<close>)
qed

end
