(* ===== verification/Origins.thy ===== *)
theory Origins
  imports Elections_Claims Org_Roles
begin

text \<open>
  \<^verbatim>\<open>runtime/src/origins.rs\<close>: the origin checks of the runtime, over the storage of the elections pallet and
  of the organization roles. A check returns the account it accepts, or the origin back (\<open>EnsureOrigin::try_origin\<close>).
\<close>

section \<open>Helpers\<close>

definition is_branch_council_member :: "government_branch \<Rightarrow> account \<Rightarrow> 'i election_state \<Rightarrow> bool" where
  "is_branch_council_member branch who s =
     (case branch_councils s branch of Some council \<Rightarrow> who \<in> set council | None \<Rightarrow> False)"

definition is_supreme_leader :: "government_branch \<Rightarrow> account \<Rightarrow> 'i election_state \<Rightarrow> bool" where
  "is_supreme_leader branch who s =
     (case supreme_leaders s branch of Some leader \<Rightarrow> leader = who | None \<Rightarrow> False)"

text \<open>The account of 32 zero bytes.\<close>

definition root_sentinel :: account where
  "root_sentinel = 0"

fun signed_account :: "origin \<Rightarrow> (account, origin) result" where
  "signed_account (Signed who) = Ok who"
| "signed_account og = Err og"

lemma signed_account_Ok [ok_simps]: "signed_account og = Ok a \<longleftrightarrow> og = Signed a"
  by (cases og) auto

text \<open>The two bodies the signed checks share.\<close>

definition accept_signed :: "(account \<Rightarrow> bool) \<Rightarrow> origin \<Rightarrow> (account, origin) result" where
  "accept_signed ok og =
     and_then (signed_account og) (\<lambda>who. if ok who then Ok who else Err (Signed who))"

definition accept_root_or_signed :: "(account \<Rightarrow> bool) \<Rightarrow> origin \<Rightarrow> (account, origin) result" where
  "accept_root_or_signed ok og =
     (case og of
        Root \<Rightarrow> Ok root_sentinel
      | Signed who \<Rightarrow> if ok who then Ok who else Err og
      | _ \<Rightarrow> Err og)"

lemma accept_signed_Ok: "accept_signed ok og = Ok a \<longleftrightarrow> og = Signed a \<and> ok a"
  by (cases og) (auto simp: accept_signed_def)

lemma accept_signed_Err: "(\<And>a. \<not> ok a) \<Longrightarrow> accept_signed ok og = Err og"
  by (cases og) (auto simp: accept_signed_def)

lemma accept_root_or_signed_Ok:
  "accept_root_or_signed ok og = Ok a \<longleftrightarrow> og = Root \<and> a = root_sentinel \<or> og = Signed a \<and> ok a"
  by (cases og) (auto simp: accept_root_or_signed_def)

section \<open>The checks\<close>

definition ensure_banking_council_member :: "'i election_state \<Rightarrow> origin \<Rightarrow> (account, origin) result" where
  "ensure_banking_council_member s = accept_signed (\<lambda>who. is_branch_council_member Banking who s)"

definition ensure_banking_supreme_leader :: "'i election_state \<Rightarrow> origin \<Rightarrow> (account, origin) result" where
  "ensure_banking_supreme_leader s = accept_signed (\<lambda>who. is_supreme_leader Banking who s)"

definition ensure_bank_board :: "'i election_state \<Rightarrow> origin \<Rightarrow> (account, origin) result" where
  "ensure_bank_board s =
     accept_signed (\<lambda>who. is_branch_council_member Banking who s \<or> is_supreme_leader Banking who s)"

definition ensure_judicial_council_member :: "'i election_state \<Rightarrow> origin \<Rightarrow> (account, origin) result" where
  "ensure_judicial_council_member s = accept_signed (\<lambda>who. is_branch_council_member Judicial who s)"

definition ensure_chief_justice :: "'i election_state \<Rightarrow> origin \<Rightarrow> (account, origin) result" where
  "ensure_chief_justice s = accept_signed (\<lambda>who. is_supreme_leader Judicial who s)"

definition ensure_khural_chairman :: "'i election_state \<Rightarrow> origin \<Rightarrow> (account, origin) result" where
  "ensure_khural_chairman s = accept_signed (\<lambda>who. is_supreme_leader Legislative who s)"

definition ensure_executive_council_member :: "'i election_state \<Rightarrow> origin \<Rightarrow> (account, origin) result" where
  "ensure_executive_council_member s = accept_signed (\<lambda>who. is_branch_council_member Executive who s)"

definition ensure_head_of_state :: "'i election_state \<Rightarrow> origin \<Rightarrow> (account, origin) result" where
  "ensure_head_of_state s = accept_signed (\<lambda>who. is_supreme_leader Executive who s)"

definition ensure_root_or_banking_council :: "'i election_state \<Rightarrow> origin \<Rightarrow> (account, origin) result" where
  "ensure_root_or_banking_council s = accept_root_or_signed (\<lambda>who. is_branch_council_member Banking who s)"

definition ensure_root_or_khural_chairman :: "'i election_state \<Rightarrow> origin \<Rightarrow> (account, origin) result" where
  "ensure_root_or_khural_chairman s = accept_root_or_signed (\<lambda>who. is_supreme_leader Legislative who s)"

definition ensure_root_or_judicial_council :: "'i election_state \<Rightarrow> origin \<Rightarrow> (account, origin) result" where
  "ensure_root_or_judicial_council s = accept_root_or_signed (\<lambda>who. is_branch_council_member Judicial who s)"

definition ensure_org_officer :: "nat \<Rightarrow> role_state \<Rightarrow> origin \<Rightarrow> (account, origin) result" where
  "ensure_org_officer org_id r =
     accept_root_or_signed (\<lambda>who. case issued_keys r (org_id, who) of
        Some tier \<Rightarrow> tier = Root_Key \<or> tier = Officer | None \<Rightarrow> False)"

lemma ensure_org_officer_Ok:
  "ensure_org_officer i r og = Ok a \<longleftrightarrow> og = Root \<and> a = root_sentinel \<or> og = Signed a \<and> officer r i a"
  by (auto simp: ensure_org_officer_def accept_root_or_signed_Ok officer_def split: option.splits)

section \<open>The chairman of the Khural\<close>

text \<open>the check for the chairman of the Khural looks the chairman up among the supreme leaders, where the elections
  pallet never puts one: whatever was elected and confirmed, the check rejects every origin, the elected chairman
  included, and the variant with a root fallback accepts root alone.\<close>

theorem khural_chairman_never_accepted:
  fixes s :: "'i election_state"
  assumes run: "reachable (election_dispatch cfg) election_foreign (election_empty i) s"
  shows "ensure_khural_chairman s og = Err og
    \<and> (ensure_root_or_khural_chairman s og = Ok a \<longleftrightarrow> og = Root \<and> a = root_sentinel)"
proof -
  have none: "\<not> is_supreme_leader Legislative w s" for w
    using no_legislative_leader[OF run] by (simp add: is_supreme_leader_def)
  then show ?thesis
    by (simp add: ensure_khural_chairman_def ensure_root_or_khural_chairman_def accept_signed_Err
          accept_root_or_signed_Ok)
qed

definition book_chair :: "unit election_state" where
  "book_chair = run (election_dispatch book_election)
     [(Signed 11, ElectKhuralChairman 11), (Root, ConfirmKhuralChairman 11)] book_tumed"

theorem khural_chairman_never_accepted_witness:
  "khural_chairman book_chair = Some (11, 7) \<and> ensure_khural_chairman book_chair (Signed 11) = Err (Signed 11)"
proof -
  have "reachable (election_dispatch book_election) election_foreign (election_empty ()) book_chair"
    unfolding book_chair_def book_tumed_def by (intro reachable_run reachable.start)
  then have "ensure_khural_chairman book_chair (Signed 11) = Err (Signed 11)"
    using khural_chairman_never_accepted[of book_election "()" book_chair "Signed 11"] by blast
  then show ?thesis
    by (simp add: book_chair_def book_tumed_def climb_def book_election_def runtime_election_def book_eval
          add_citizen_to_arbad_def promote_leader_def enter_level_def election_empty_def elect_khural_chairman_def
          confirm_khural_chairman_def emit_election_def)
qed

section \<open>Elected councils\<close>

text \<open>an account other than root that passes a check for a council of the banking, judicial or executive branch
  sits on a council of nine seats and holds a recorded vote of the branch's current ballot.\<close>

theorem council_checks_accept_elected:
  fixes s :: "'i election_state"
  assumes run: "reachable (election_dispatch cfg) election_foreign (election_empty i) s"
    and pass: "(check, b) \<in> {(ensure_banking_council_member, Banking), (ensure_judicial_council_member, Judicial),
        (ensure_executive_council_member, Executive), (ensure_root_or_banking_council, Banking),
        (ensure_root_or_judicial_council, Judicial)}"
    and ok: "check s og = Ok a" "og \<noteq> Root"
  shows "og = Signed a \<and> (\<exists>v. branch_votes s b v = Some a)"
proof -
  have "og = Signed a \<and> is_branch_council_member b a s"
    using pass ok by (auto simp: ensure_banking_council_member_def ensure_judicial_council_member_def
      ensure_executive_council_member_def ensure_root_or_banking_council_def ensure_root_or_judicial_council_def
      accept_signed_Ok accept_root_or_signed_Ok)
  then obtain ws where "og = Signed a" "branch_councils s b = Some ws" "a \<in> set ws"
    by (auto simp: is_branch_council_member_def split: option.splits)
  with council_seated[OF run] show ?thesis by blast
qed

theorem council_checks_accept_elected_witness: "\<exists>v. branch_votes book_council Banking v = Some 11"
proof -
  have "ensure_root_or_banking_council book_council (Signed 11) = Ok 11"
    by (simp add: ensure_root_or_banking_council_def accept_root_or_signed_def is_branch_council_member_def
          book_council_sel(1))
  then show ?thesis
    using council_checks_accept_elected[OF book_council_reach,
        where check = ensure_root_or_banking_council and b = Banking and og = "Signed 11" and a = 11] by simp
qed

end
