(* ===== verification/Runtime_Authority.thy ===== *)
theory Runtime_Authority
  imports Origins Central_Bank_Props
begin

text \<open>
  Who may emit money in the composed runtime: the central bank with the banking origin the runtime gives it
  (\<^verbatim>\<open>runtime/src/configs/mod.rs\<close>: \<open>EnsureOrgOfficer<CBOrgId>\<close>), over the storage of the organization roles.

  The ledger the central bank sees is the balances together with the roles; the balance operations leave the roles alone.
\<close>

definition CB_ORG_ID :: nat where
  "CB_ORG_ID = 1"

definition with_roles :: "'x currency \<Rightarrow> ('x \<times> role_state) currency" where
  "with_roles cur =
     \<lparr>total_issuance = (\<lambda>x. total_issuance cur (fst x)), free_balance = (\<lambda>x. free_balance cur (fst x)),
      deposit_creating = (\<lambda>x a v. (deposit_creating cur (fst x) a v, snd x)),
      withdraw = (\<lambda>x a v k. and_then (withdraw cur (fst x) a v k) (\<lambda>y. Ok (y, snd x))),
      transfer = (\<lambda>x a b v k. and_then (transfer cur (fst x) a b v k) (\<lambda>y. Ok (y, snd x)))\<rparr>"

definition runtime_banking_origin :: "'x \<times> role_state \<Rightarrow> origin \<Rightarrow> bool" where
  "runtime_banking_origin x og = (case ensure_org_officer CB_ORG_ID (snd x) og of Ok _ \<Rightarrow> True | Err _ \<Rightarrow> False)"

lemma runtime_banking_origin_iff:
  "runtime_banking_origin x og \<longleftrightarrow> og = Root \<or> (\<exists>h. og = Signed h \<and> officer (snd x) CB_ORG_ID h)"
  using ensure_org_officer_Ok[of CB_ORG_ID "snd x" og]
  by (cases "ensure_org_officer CB_ORG_ID (snd x) og") (auto simp: runtime_banking_origin_def)

definition runtime_central_bank ::
  "'x currency \<Rightarrow> account \<Rightarrow> account \<Rightarrow> (account \<Rightarrow> nat \<Rightarrow> nat \<times> nat \<Rightarrow> account)
   \<Rightarrow> ('x \<times> role_state \<Rightarrow> account \<Rightarrow> nat \<Rightarrow> nat \<times> nat \<Rightarrow> ('x \<times> role_state, nat) result) \<Rightarrow> ('x \<times> role_state) cb_config" where
  "runtime_central_bank cur creator bank pure mk =
     runtime_cb_config (with_roles cur) creator bank runtime_banking_origin pure mk"

section \<open>Root keys are for good\<close>

lemma role_next_back: "role_dispatch m (og, c) s = Ok t \<Longrightarrow> next_org t < umax 32 \<Longrightarrow> next_org s < umax 32"
  by (cases rule: role_step_cases) (auto split: if_splits)

lemma root_key_stays:
  assumes "reachable (role_dispatch m) (\<lambda>_ _. False) r r'" and "role_inv r" and "next_org r' < umax 32"
    and "issued_keys r (i, a) = Some Root_Key"
  shows "issued_keys r' (i, a) = Some Root_Key"
  using assms
proof (induction rule: reachable.induct)
  case (call s c t)
  obtain og c' where c: "c = (og, c')" by (cases c) auto
  have "next_org s < umax 32" using role_next_back call.hyps(2) call.prems(2) c by blast
  moreover have "role_inv s" by (rule roles.reachable_inv[OF call.hyps(1) call.prems(1)])
  ultimately show ?case
    using role_step_keeps(2) call.hyps(2) call.IH call.prems c by blast
qed auto

text \<open>a root key of an organization can never be revoked or replaced, by anyone, so the owner of an organization
  holds one for as long as identifiers last; and the keys of an existing organization change only in a call one of
  its root or officer keys signed.\<close>

theorem root_keys_permanent:
  assumes start: "reachable (role_dispatch m) (\<lambda>_ _. False) role_start r"
    and later: "reachable (role_dispatch m) (\<lambda>_ _. False) r r'" and ids: "next_org r' < umax 32"
  shows "(issued_keys r (i, a) = Some Root_Key \<longrightarrow> issued_keys r' (i, a) = Some Root_Key)
    \<and> (orgs r i = Some d \<longrightarrow> issued_keys r' (i, owner d) = Some Root_Key)
    \<and> (role_dispatch m (og, c) r' = Ok r'' \<and> i < next_org r' \<and> issued_keys r'' (i, b) \<noteq> issued_keys r' (i, b)
         \<longrightarrow> (\<exists>h. og = Signed h \<and> officer r' i h))"
proof -
  have inv: "role_inv r" by (rule role_reachable_inv[OF start])
  have keep: "issued_keys r (i, x) = Some Root_Key \<Longrightarrow> issued_keys r' (i, x) = Some Root_Key" for x
    by (rule root_key_stays[OF later inv ids])
  have "next_org r < umax 32"
    using later ids
  proof (induction rule: reachable.induct)
    case (call s c t)
    then show ?case using role_next_back by (metis surj_pair)
  qed auto
  then have "orgs r i = Some d \<Longrightarrow> issued_keys r (i, owner d) = Some Root_Key"
    using inv by (simp add: role_inv_def)
  with keep role_step_officer show ?thesis by blast
qed

section \<open>The second organization emits money\<close>

definition two_orgs :: "account \<Rightarrow> byte list \<Rightarrow> byte list \<Rightarrow> (origin \<times> role_call) list" where
  "two_orgs a n1 n2 = [(Signed a, CreateOrganization n1 0 0), (Signed a, CreateOrganization n2 0 0)]"

lemma two_orgs_key:
  assumes "length n2 \<le> m" "length n1 \<le> m"
  shows "issued_keys (run (role_dispatch m) (two_orgs a n1 n2) role_start) (CB_ORG_ID, a) = Some Root_Key"
  using assms
  by (simp add: two_orgs_def execute_def create_organization_def role_start_def checked_add_def umax_def
        CB_ORG_ID_def emit_role_def Let_def)

text \<open>C35: creating organizations is open to every account, and the runtime takes the officers of organization 1 for the
  central bank. The account that creates the first two organizations of the chain can therefore, from then on and
  in every later state of the roles, license any operator and mint any amount to it.\<close>

theorem second_organization_mints:
  fixes s :: "('x \<times> role_state) cb_state"
  assumes cfg: "cfg = runtime_central_bank cur creator bank pure mk"
    and names: "length n1 \<le> m" "length n2 \<le> m"
    and later: "reachable (role_dispatch m) (\<lambda>_ _. False) (run (role_dispatch m) (two_orgs a n1 n2) role_start) (snd (ledger s))"
    and ids: "next_org (snd (ledger s)) < umax 32"
    and v: "0 < v" "total_emitted s + v \<le> umax 128" and fresh: "\<not> licensed_operators s b"
  shows "\<exists>t. run (cb_dispatch cfg) [(env, Signed a, GrantOperatorLicense b), (env, Signed a, MintToOperator b v)] s = t
    \<and> total_emitted t = total_emitted s + v \<and> fst (ledger t) = deposit_creating cur (fst (ledger s)) b v"
proof -
  have inv: "role_inv (run (role_dispatch m) (two_orgs a n1 n2) role_start)"
    by (intro roles.run_inv role_inv_start)
  have "officer (snd (ledger s)) CB_ORG_ID a"
    using root_key_stays[OF later inv ids two_orgs_key[OF names(2,1)]] by (simp add: officer_def)
  then have "banking_origin cfg x (Signed a)" if "snd x = snd (ledger s)" for x
    using that by (simp add: cfg runtime_central_bank_def runtime_cb_config_def runtime_banking_origin_iff)
  then show ?thesis
    using v fresh
    by (simp add: execute_def grant_operator_license_def mint_to_operator_def cb_deposit_event_def Let_def checked_add_def
          cfg runtime_central_bank_def runtime_cb_config_def with_roles_def)
qed

section \<open>A small chain\<close>

definition book_roles :: role_state where
  "book_roles = run (role_dispatch 64) (two_orgs 11 [] []) role_start"

definition book_authority :: "(book \<times> role_state) cb_config" where
  "book_authority = runtime_central_bank (book_base 5) 3 4 (\<lambda>_ _ _. 99) (\<lambda>x _ _ _. Ok x)"

definition book_emitter :: "(book \<times> role_state) cb_state" where
  "book_emitter = cb_genesis book_authority [] (\<lparr>bal = (\<lambda>_. 0), issued = 0, lock_of = (\<lambda>_. Map.empty)\<rparr>, book_roles)"

lemma book_roles_sel:
  "next_org book_roles = 2" "reachable (role_dispatch 64) (\<lambda>_ _. False) role_start book_roles"
  "issued_keys book_roles (1, 11) = Some Root_Key"
  unfolding book_roles_def
  by (simp add: two_orgs_def execute_def create_organization_def role_start_def checked_add_def umax_def emit_role_def Let_def,
      intro reachable_run reachable.start,
      simp add: two_orgs_def execute_def create_organization_def role_start_def checked_add_def umax_def emit_role_def Let_def)

theorem root_keys_permanent_witness:
  "issued_keys (execute (role_dispatch 64) (Signed 11, RevokeRoleKey 1 11) book_roles) (1, 11) = Some Root_Key"
proof -
  have "next_org (execute (role_dispatch 64) (Signed 11, RevokeRoleKey 1 11) book_roles) < umax 32"
    using book_roles_sel(1,3) by (simp add: execute_def revoke_role_key_def umax_def)
  from root_keys_permanent[OF book_roles_sel(2) reachable_execute[OF reachable.start] this] book_roles_sel(3)
  show ?thesis by blast
qed

theorem second_organization_mints_witness:
  "\<exists>t. run (cb_dispatch book_authority)
      [(\<lparr>block_number = 1, extrinsic_index = None\<rparr>, Signed 11, GrantOperatorLicense 13),
       (\<lparr>block_number = 1, extrinsic_index = None\<rparr>, Signed 11, MintToOperator 13 1000)] book_emitter = t
    \<and> total_emitted t = 1000"
proof -
  have sel: "snd (ledger book_emitter) = book_roles" "total_emitted book_emitter = 0" "\<not> licensed_operators book_emitter 13"
    by (simp_all add: book_emitter_def cb_genesis_def)
  show ?thesis
    using second_organization_mints[OF book_authority_def, of "[]" 64 "[]" 11 book_emitter 1000 13
        "\<lparr>block_number = 1, extrinsic_index = None\<rparr>"] sel book_roles_sel(1)
    by (auto simp: book_roles_def[symmetric] umax_def intro: reachable.start)
qed

end
