(* ===== verification/Identity.thy ===== *)
theory Identity
  imports Currency Pallet_Interfaces "HOL-Library.List_Lexorder"
begin

text \<open>
  \<^verbatim>\<open>pallets/inomad-identity/src/lib.rs\<close>, first part: citizens, their verification and status, births and deaths,
  origin of citizenship, marriages, nicknames, and the internal operations other pallets call through the
  \<open>IdentityInterface\<close> bridge of the runtime.

  \<open>'x\<close> is what lies outside: the ledger and the pallets the terminal hook cleans up. The currency, \<open>reserve\<close>, the
  hook, hashing and the account codec are parameters. \<open>UnlockLevel0\<close> and \<open>UnlockLevel1\<close> are configured but never
  read, and \<open>IndigenousCitizens\<close> is declared but never written; they have no field.
\<close>

section \<open>Data\<close>

datatype branch_of_power = Executive | Judicial | Legislative | Banking

datatype citizen_role =
    Regular | ArbadLeader | ZunLeader | MyangadLeader | TumedLeader | President | KhuralDelegate | ConfederationDelegate

datatype citizen_status = Active | Frozen | Minor | Deceased | Exiled

datatype citizenship_status = Indigenous | Naturalized | Foreigner

datatype fractal_level = LArbad | LZun | LMyangad | LTumed | LRepublicanKhural | LConfederativeKhural

datatype vesting_level = VVerified | VArbadMember | VZunMember

datatype verification_status = Unverified | Verified

datatype arbad_type = Family | RegularArbad

datatype passport_type = Internal | International

text \<open>The derived orders follow the order of the variants.\<close>

definition fractal_rank :: "fractal_level \<Rightarrow> nat" where
  "fractal_rank l = (case l of LArbad \<Rightarrow> 0 | LZun \<Rightarrow> 1 | LMyangad \<Rightarrow> 2 | LTumed \<Rightarrow> 3
     | LRepublicanKhural \<Rightarrow> 4 | LConfederativeKhural \<Rightarrow> 5)"

definition vesting_rank :: "vesting_level \<Rightarrow> nat" where
  "vesting_rank l = (case l of VVerified \<Rightarrow> 0 | VArbadMember \<Rightarrow> 1 | VZunMember \<Rightarrow> 2)"

instantiation fractal_level :: linorder
begin
definition less_eq_fractal_level where "(a :: fractal_level) \<le> b \<longleftrightarrow> fractal_rank a \<le> fractal_rank b"
definition less_fractal_level where "(a :: fractal_level) < b \<longleftrightarrow> fractal_rank a < fractal_rank b"
instance
  by standard (auto simp: less_eq_fractal_level_def less_fractal_level_def fractal_rank_def split: fractal_level.splits)
end

instantiation vesting_level :: linorder
begin
definition less_eq_vesting_level where "(a :: vesting_level) \<le> b \<longleftrightarrow> vesting_rank a \<le> vesting_rank b"
definition less_vesting_level where "(a :: vesting_level) < b \<longleftrightarrow> vesting_rank a < vesting_rank b"
instance
  by standard (auto simp: less_eq_vesting_level_def less_vesting_level_def vesting_rank_def split: vesting_level.splits)
end

record citizen_record =
  citizen_id :: nat
  nation_id :: nat
  naturalized_people_id :: "nat option"
  role :: citizen_role
  status :: citizen_status
  verification :: verification_status
  vesting :: "vesting_level option"
  branch :: "branch_of_power option"
  term_end :: "nat option"
  khural_terms_served :: nat
  is_indigenous :: bool
  citizenship :: citizenship_status
  region_id :: "nat option"
  birth_region_id :: "nat option"
  passport :: passport_type
  document_hash :: h256
  birth_page_hash :: h256
  email_hash :: h256

record arbad_record =
  arbad_leader :: account
  arbad_members :: "account list"
  arbad_nation :: nat
  marriage_credential_hash :: "h256 option"

record zun_record =
  zun_leader :: account
  zun_arbads :: "nat list"
  zun_nation :: nat

record myangad_record =
  myangad_leader :: account
  myangad_zuns :: "nat list"
  myangad_branch :: branch_of_power
  myangad_nation :: nat

record tumed_record =
  tumed_leader :: account
  tumed_myangads :: "nat list"
  tumed_branch :: branch_of_power
  tumed_nation :: nat

record khural_record =
  khural_leader :: account
  khural_tumeds :: "nat list"
  khural_nation :: nat

record confederation_record =
  confederation_leader :: account
  confederation_khurals :: "nat list"

datatype identity_event =
    CitizenRegistered account nat nat citizen_role
  | CitizenVerified account account nat
  | RoleUpdated account citizen_role
  | CitizenFrozen account
  | CitizenUnfrozen account
  | VestingAdvanced account vesting_level
  | ArbadFormed nat arbad_type account nat
  | ZunFormed nat account nat
  | MyangadFormed nat account nat branch_of_power
  | TumedFormed nat account nat branch_of_power
  | KhuralFormed nat account nat nat
  | ConfederationFormed nat account nat
  | CitizenBorn account account "account option" h256 nat
  | CitizenDeceased account h256
  | GuardianAssigned account account
  | ArbadLeft nat account
  | CitizenExiled account
  | CitizenshipRepatriated account h256 citizenship_status
  | CitizenshipNaturalized account citizenship_status
  | MarriageRegistered account account account nat
  | DivorceRegistered account account
  | NicknameRegistered account "byte list"
  | NicknameCleared account

datatype identity_error =
    AlreadyRegistered
  | NotRegistered
  | InvalidNationId
  | CitizenInactive
  | CitizenAlreadyFrozen
  | CitizenNotFrozen
  | InvalidRank
  | NotEnoughMembers
  | NationMismatch
  | DuplicateMember
  | ArbadNotFound
  | ZunNotFound
  | MyangadNotFound
  | TumedNotFound
  | KhuralNotFound
  | BranchMismatch
  | OnlyLegislativeTumedsCanFormKhural
  | HierarchyLimitExceeded
  | TermLimitExceeded
  | VerifierNotVerified
  | AlreadyVerified
  | RegionMismatch
  | NoBirthRegion
  | DocumentAlreadyUsed
  | EmailAlreadyUsed
  | NotMedicalAuthority
  | AlreadyDeceased
  | CitizenIsMinor
  | BirthHashAlreadyUsed
  | InvalidParent
  | CannotUnfreezeDeceased
  | TargetNotMinor
  | GuardianNotActive
  | ArbadCooldownActive
  | NotArbadMember
  | OracleRateLimitExceeded
  | AlreadyCitizen
  | ConstitutionHashMismatch
  | NotEligibleForMarriage
  | AlreadyMarried
  | NotMarried
  | NotSpouse
  | CannotMarryFrozenCitizen
  | NicknameTaken
  | NicknameInvalid
  | NicknameNotSet
  | NicknameAlreadySet

type_synonym identity_failure = "identity_error dispatch_error"

record 'x identity_state =
  world :: 'x
  citizens :: "account \<Rightarrow> citizen_record option"
  next_citizen_id :: nat
  used_document_hashes :: "h256 \<Rightarrow> bool"
  used_email_hashes :: "h256 \<Rightarrow> bool"
  arbads :: "nat \<Rightarrow> arbad_record option"
  next_arbad_id :: nat
  arbad_by_leader :: "account \<Rightarrow> nat option"
  zuns :: "nat \<Rightarrow> zun_record option"
  next_zun_id :: nat
  zun_by_leader :: "account \<Rightarrow> nat option"
  myangads :: "nat \<Rightarrow> myangad_record option"
  next_myangad_id :: nat
  myangad_by_leader :: "account \<Rightarrow> nat option"
  tumeds :: "nat \<Rightarrow> tumed_record option"
  next_tumed_id :: nat
  tumed_by_leader :: "account \<Rightarrow> nat option"
  khurals :: "nat \<Rightarrow> khural_record option"
  next_khural_id :: nat
  khural_by_leader :: "account \<Rightarrow> nat option"
  confederations :: "nat \<Rightarrow> confederation_record option"
  next_confederation_id :: nat
  confederation_by_leader :: "account \<Rightarrow> nat option"
  parental_links :: "account \<Rightarrow> (account \<times> account option) option"
  used_birth_hashes :: "h256 \<Rightarrow> bool"
  death_records :: "account \<Rightarrow> h256 option"
  guardian_of :: "account \<Rightarrow> account option"
  last_arbad_leave :: "account \<Rightarrow> nat option"
  oracle_calls_this_block :: "nat \<times> nat"
  nickname_of :: "account \<Rightarrow> byte list option"
  account_by_nickname :: "byte list \<Rightarrow> account option"
  marriages :: "account \<Rightarrow> account option"
  identity_events :: "identity_event list"

record 'x identity_config =
  id_currency :: "'x currency"
  reserve :: "'x \<Rightarrow> account \<Rightarrow> balance \<Rightarrow> ('x, nat) result"
  medical_authority :: account
  marriage_fee :: balance
  civil_fee_treasury :: account
  arbad_cooldown_period :: nat
  max_registrations_per_block :: nat
  constitution_hash :: "h256 option"
  on_deceased :: "account \<Rightarrow> 'x \<Rightarrow> 'x"
  on_exiled :: "account \<Rightarrow> 'x \<Rightarrow> 'x"
  encode_account :: "account \<Rightarrow> byte list"
  blake2_256 :: "byte list \<Rightarrow> h256"
  decode_account :: "h256 \<Rightarrow> account"

definition emit_id :: "identity_event \<Rightarrow> 'x identity_state \<Rightarrow> 'x identity_state" where
  "emit_id e s = s\<lparr>identity_events := identity_events s @ [e]\<rparr>"

definition zero_hash :: h256 where
  "zero_hash = replicate 32 0"

text \<open>\<open>Citizens::mutate\<close> of an entry that may be missing.\<close>

definition put_citizen :: "account \<Rightarrow> citizen_record \<Rightarrow> 'x identity_state \<Rightarrow> 'x identity_state" where
  "put_citizen a r s = s\<lparr>citizens := (citizens s)(a \<mapsto> r)\<rparr>"

definition modify_citizen ::
  "account \<Rightarrow> (citizen_record \<Rightarrow> citizen_record) \<Rightarrow> 'x identity_state \<Rightarrow> 'x identity_state" where
  "modify_citizen a f s = (case citizens s a of Some r \<Rightarrow> put_citizen a (f r) s | None \<Rightarrow> s)"

section \<open>Registration and verification\<close>

definition valid_region :: "nat \<Rightarrow> bool" where
  "valid_region r \<longleftrightarrow> 1 \<le> r \<and> r \<le> 83"

text \<open>The record of a new citizen, and that of a newborn further below.\<close>

definition fresh_citizen ::
  "nat \<Rightarrow> nat \<Rightarrow> citizen_role \<Rightarrow> bool \<Rightarrow> nat option \<Rightarrow> nat option \<Rightarrow> passport_type \<Rightarrow> h256 \<Rightarrow> h256 \<Rightarrow> h256 \<Rightarrow> citizen_record" where
  "fresh_citizen cid nation new_role indigenous region birth_region ptype doc birth_page email =
     \<lparr>citizen_id = cid, nation_id = nation, naturalized_people_id = (if indigenous then None else Some nation),
      role = new_role, status = Active, verification = Unverified, vesting = None, branch = None,
      term_end = None, khural_terms_served = 0, is_indigenous = indigenous,
      citizenship = (if indigenous then Indigenous else Foreigner), region_id = region,
      birth_region_id = birth_region, passport = ptype, document_hash = doc, birth_page_hash = birth_page,
      email_hash = email\<rparr>"

definition register_citizen ::
  "origin \<Rightarrow> account \<Rightarrow> nat \<Rightarrow> citizen_role \<Rightarrow> bool \<Rightarrow> nat option \<Rightarrow> nat option \<Rightarrow> passport_type \<Rightarrow> h256 \<Rightarrow> h256 \<Rightarrow> h256
   \<Rightarrow> 'x identity_state \<Rightarrow> ('x identity_state, identity_failure) result" where
  "register_citizen og target nation new_role indigenous region birth_region ptype doc birth_page email s =
     and_then (ensure_root og) (\<lambda>_.
     ensure (citizens s target = None) (Module AlreadyRegistered) (
     ensure (1 \<le> nation \<and> nation \<le> 79) (Module InvalidNationId) (
     ensure (case region of Some r \<Rightarrow> valid_region r | None \<Rightarrow> True) (Module InvalidNationId) (
     ensure (case birth_region of Some r \<Rightarrow> valid_region r | None \<Rightarrow> True) (Module InvalidNationId) (
     ensure (\<not> used_document_hashes s doc) (Module DocumentAlreadyUsed) (
     ensure (\<not> used_email_hashes s email) (Module EmailAlreadyUsed) (
     let cid = sat_add 64 (next_citizen_id s) 1;
         r = fresh_citizen cid nation new_role indigenous region birth_region ptype doc birth_page email
     in Ok (emit_id (CitizenRegistered target cid nation new_role)
          (put_citizen target r
            (s\<lparr>next_citizen_id := cid,
               used_document_hashes := (used_document_hashes s)(doc := True),
               used_email_hashes := (used_email_hashes s)(email := True)\<rparr>))))))))))"

definition mark_verified :: "account \<Rightarrow> account \<Rightarrow> citizen_record \<Rightarrow> 'x identity_state \<Rightarrow> 'x identity_state" where
  "mark_verified verifier a r s =
     emit_id (VestingAdvanced a VVerified)
       (emit_id (CitizenVerified verifier a (citizen_id r))
         (put_citizen a (r\<lparr>verification := Verified, vesting := Some VVerified\<rparr>) s))"

definition verify_citizen ::
  "origin \<Rightarrow> account \<Rightarrow> 'x identity_state \<Rightarrow> ('x identity_state, identity_failure) result" where
  "verify_citizen og new_citizen s =
     and_then (ensure_signed og) (\<lambda>verifier.
     ok_or (citizens s verifier) (Module NotRegistered) (\<lambda>v.
     ensure (status v = Active) (Module CitizenInactive) (
     ensure (verification v = Verified) (Module VerifierNotVerified) (
     ok_or (citizens s new_citizen) (Module NotRegistered) (\<lambda>n.
     ensure (status n = Active) (Module CitizenInactive) (
     ensure (verification n = Unverified) (Module AlreadyVerified) (
     Ok (mark_verified verifier new_citizen n s))))))))"

definition bootstrap_verify_creator ::
  "origin \<Rightarrow> account \<Rightarrow> 'x identity_state \<Rightarrow> ('x identity_state, identity_failure) result" where
  "bootstrap_verify_creator og creator s =
     and_then (ensure_root og) (\<lambda>_.
     ok_or (citizens s creator) (Module NotRegistered) (\<lambda>r.
     ensure (verification r = Unverified) (Module AlreadyVerified) (
     Ok (mark_verified creator creator r s))))"

definition update_role ::
  "origin \<Rightarrow> account \<Rightarrow> citizen_role \<Rightarrow> 'x identity_state \<Rightarrow> ('x identity_state, identity_failure) result" where
  "update_role og target new_role s =
     and_then (ensure_root og) (\<lambda>_.
     ok_or (citizens s target) (Module NotRegistered) (\<lambda>r.
     Ok (emit_id (RoleUpdated target new_role) (put_citizen target (r\<lparr>role := new_role\<rparr>) s))))"

definition freeze_citizen ::
  "origin \<Rightarrow> account \<Rightarrow> 'x identity_state \<Rightarrow> ('x identity_state, identity_failure) result" where
  "freeze_citizen og target s =
     and_then (ensure_root og) (\<lambda>_.
     ok_or (citizens s target) (Module NotRegistered) (\<lambda>r.
     ensure (status r = Active) (Module CitizenAlreadyFrozen) (
     Ok (emit_id (CitizenFrozen target) (put_citizen target (r\<lparr>status := Frozen\<rparr>) s)))))"

definition unfreeze_citizen ::
  "origin \<Rightarrow> account \<Rightarrow> 'x identity_state \<Rightarrow> ('x identity_state, identity_failure) result" where
  "unfreeze_citizen og target s =
     and_then (ensure_root og) (\<lambda>_.
     ok_or (citizens s target) (Module NotRegistered) (\<lambda>r.
     ensure (status r \<noteq> Deceased) (Module CannotUnfreezeDeceased) (
     ensure (status r = Frozen) (Module CitizenNotFrozen) (
     Ok (emit_id (CitizenUnfrozen target) (put_citizen target (r\<lparr>status := Active\<rparr>) s))))))"

section \<open>Births and deaths\<close>

definition check_and_increment_oracle_rate ::
  "'x identity_config \<Rightarrow> env \<Rightarrow> 'x identity_state \<Rightarrow> ('x identity_state, identity_failure) result" where
  "check_and_increment_oracle_rate cfg env s =
     (let (stored_block, count) = oracle_calls_this_block s in
      if stored_block = block_number env
      then ensure (count < max_registrations_per_block cfg) (Module OracleRateLimitExceeded) (
           Ok (s\<lparr>oracle_calls_this_block := (stored_block, sat_add 32 count 1)\<rparr>))
      else Ok (s\<lparr>oracle_calls_this_block := (block_number env, 1)\<rparr>))"

text \<open>Root or the medical authority: what follows for the one and for the other.\<close>

definition ensure_medical ::
  "'x identity_config \<Rightarrow> origin \<Rightarrow> ('a, identity_failure) result \<Rightarrow> ('a, identity_failure) result
   \<Rightarrow> ('a, identity_failure) result" where
  "ensure_medical cfg og as_root as_authority =
     (if og = Root then as_root
      else and_then (ensure_signed og) (\<lambda>caller.
           ensure (caller = medical_authority cfg) (Module NotMedicalAuthority) as_authority))"

lemma ensure_medical_Ok [ok_simps]:
  "ensure_medical cfg og k k' = Ok x \<longleftrightarrow>
     og = Root \<and> k = Ok x \<or> og = Signed (medical_authority cfg) \<and> k' = Ok x"
  by (auto simp: ensure_medical_def ok_simps)

definition newborn :: "nat \<Rightarrow> nat \<Rightarrow> nat \<Rightarrow> h256 \<Rightarrow> citizen_record" where
  "newborn child_id nation region child_hash =
     \<lparr>citizen_id = child_id, nation_id = nation, naturalized_people_id = None, role = Regular,
      status = Minor, verification = Unverified, vesting = None, branch = None, term_end = None,
      khural_terms_served = 0, is_indigenous = False, citizenship = Foreigner, region_id = Some region,
      birth_region_id = Some region, passport = Internal, document_hash = child_hash,
      birth_page_hash = zero_hash, email_hash = zero_hash\<rparr>"

definition register_birth ::
  "'x identity_config \<Rightarrow> env \<Rightarrow> origin \<Rightarrow> account \<Rightarrow> account \<Rightarrow> account option \<Rightarrow> h256 \<Rightarrow> nat \<Rightarrow> 'x identity_state
   \<Rightarrow> ('x identity_state, identity_failure) result" where
  "register_birth cfg env og child parent_1 parent_2 child_hash region s0 =
     and_then (ensure_medical cfg og (Ok s0) (check_and_increment_oracle_rate cfg env s0)) (\<lambda>s.
     ensure (valid_region region) (Module InvalidNationId) (
     ensure (\<not> used_birth_hashes s child_hash) (Module BirthHashAlreadyUsed) (
     ensure (citizens s child = None) (Module AlreadyRegistered) (
     ok_or (citizens s parent_1) (Module InvalidParent) (\<lambda>parent.
     ensure (status parent \<noteq> Deceased) (Module AlreadyDeceased) (
     let child_id = next_citizen_id s;
         r = newborn child_id (nation_id parent) region child_hash
     in Ok (emit_id (CitizenBorn child parent_1 parent_2 child_hash region)
          ((put_citizen child r s)
            \<lparr>next_citizen_id := sat_add 64 child_id 1,
             parental_links := (parental_links s)(child \<mapsto> (parent_1, parent_2)),
             used_birth_hashes := (used_birth_hashes s)(child_hash := True)\<rparr>))))))))"

definition register_death ::
  "'x identity_config \<Rightarrow> origin \<Rightarrow> account \<Rightarrow> h256 \<Rightarrow> 'x identity_state
   \<Rightarrow> ('x identity_state, identity_failure) result" where
  "register_death cfg og target death_hash s =
     and_then (ensure_medical cfg og (Ok ()) (Ok ())) (\<lambda>_.
     ok_or (citizens s target) (Module NotRegistered) (\<lambda>r.
     ensure (status r \<noteq> Deceased) (Module AlreadyDeceased) (
     let s1 = put_citizen target (r\<lparr>status := Deceased, role := Regular, term_end := None, branch := None\<rparr>) s;
         free = free_balance (id_currency cfg) (world s1) target;
         x = (if free > 0 then (case reserve cfg (world s1) target free of Ok y \<Rightarrow> y | Err _ \<Rightarrow> world s1) else world s1);
         s2 = emit_id (CitizenDeceased target death_hash)
                (s1\<lparr>world := x, death_records := (death_records s1)(target \<mapsto> death_hash)\<rparr>)
     in Ok (s2\<lparr>world := on_deceased cfg target (world s2)\<rparr>))))"

definition assign_guardian ::
  "'x identity_config \<Rightarrow> origin \<Rightarrow> account \<Rightarrow> account \<Rightarrow> 'x identity_state
   \<Rightarrow> ('x identity_state, identity_failure) result" where
  "assign_guardian cfg og minor guardian s =
     ensure (og = Signed (medical_authority cfg) \<or> og = Root) (Module NotMedicalAuthority) (
     ok_or (citizens s minor) (Module NotRegistered) (\<lambda>m.
     ensure (status m = Minor) (Module TargetNotMinor) (
     ok_or (citizens s guardian) (Module NotRegistered) (\<lambda>g.
     ensure (status g = Active) (Module GuardianNotActive) (
     Ok (emit_id (GuardianAssigned minor guardian)
          (s\<lparr>guardian_of := (guardian_of s)(minor \<mapsto> guardian)\<rparr>)))))))"

section \<open>Origin of citizenship\<close>

definition accepts_constitution :: "'x identity_config \<Rightarrow> h256 \<Rightarrow> bool" where
  "accepts_constitution cfg h = (case constitution_hash cfg of Some canonical \<Rightarrow> h = canonical | None \<Rightarrow> True)"

definition claim_repatriation ::
  "'x identity_config \<Rightarrow> origin \<Rightarrow> account \<Rightarrow> h256 \<Rightarrow> h256 \<Rightarrow> 'x identity_state
   \<Rightarrow> ('x identity_state, identity_failure) result" where
  "claim_repatriation cfg og citizen lineage_proof accepted s =
     and_then (ensure_root og) (\<lambda>_.
     ensure (accepts_constitution cfg accepted) (Module ConstitutionHashMismatch) (
     ok_or (citizens s citizen) (Module NotRegistered) (\<lambda>r.
     ensure (status r = Active) (Module CitizenInactive) (
     Ok (emit_id (CitizenshipRepatriated citizen lineage_proof Indigenous)
          (put_citizen citizen (r\<lparr>citizenship := Indigenous, is_indigenous := True\<rparr>) s))))))"

definition claim_birthright ::
  "'x identity_config \<Rightarrow> origin \<Rightarrow> h256 \<Rightarrow> 'x identity_state \<Rightarrow> ('x identity_state, identity_failure) result" where
  "claim_birthright cfg og accepted s =
     and_then (ensure_signed og) (\<lambda>caller.
     ensure (accepts_constitution cfg accepted) (Module ConstitutionHashMismatch) (
     ok_or (citizens s caller) (Module NotRegistered) (\<lambda>r.
     ensure (status r = Active) (Module CitizenInactive) (
     ensure (citizenship r = Foreigner) (Module AlreadyCitizen) (
     Ok (emit_id (CitizenshipNaturalized caller Naturalized)
          (put_citizen caller (r\<lparr>citizenship := Naturalized\<rparr>) s)))))))"

section \<open>Marriages and nicknames\<close>

definition derive_family_account :: "'x identity_config \<Rightarrow> account \<Rightarrow> account \<Rightarrow> account" where
  "derive_family_account cfg a b =
     (let a_bytes = encode_account cfg a; b_bytes = encode_account cfg b;
          (x, y) = (if a_bytes > b_bytes then (b_bytes, a_bytes) else (a_bytes, b_bytes))
      in decode_account cfg (blake2_256 cfg (bytes ''family/'' @ x @ y)))"

definition register_marriage ::
  "'x identity_config \<Rightarrow> origin \<Rightarrow> account \<Rightarrow> nat \<Rightarrow> 'x identity_state
   \<Rightarrow> ('x identity_state, identity_failure) result" where
  "register_marriage cfg og partner_b ceremony_block s =
     and_then (ensure_signed og) (\<lambda>partner_a.
     ensure (partner_a \<noteq> partner_b) (Module DuplicateMember) (
     ok_or (citizens s partner_a) (Module NotRegistered) (\<lambda>a.
     ensure (status a = Active) (Module CannotMarryFrozenCitizen) (
     ok_or (citizens s partner_b) (Module NotEligibleForMarriage) (\<lambda>b.
     ensure (status b = Active) (Module CannotMarryFrozenCitizen) (
     ensure (marriages s partner_a = None) (Module AlreadyMarried) (
     ensure (marriages s partner_b = None) (Module AlreadyMarried) (
     let fee = marriage_fee cfg; treasury = civil_fee_treasury cfg in
     and_then (map_err ThirdParty (transfer (id_currency cfg) (world s) partner_a treasury fee KeepAlive)) (\<lambda>x.
     and_then (map_err ThirdParty (transfer (id_currency cfg) x partner_b treasury fee KeepAlive)) (\<lambda>y.
     Ok (emit_id (MarriageRegistered partner_a partner_b (derive_family_account cfg partner_a partner_b) ceremony_block)
          (s\<lparr>world := y, marriages := (marriages s)(partner_a \<mapsto> partner_b, partner_b \<mapsto> partner_a)\<rparr>))))))))))))"

definition register_divorce ::
  "origin \<Rightarrow> 'x identity_state \<Rightarrow> ('x identity_state, identity_failure) result" where
  "register_divorce og s =
     and_then (ensure_signed og) (\<lambda>caller.
     ok_or (marriages s caller) (Module NotMarried) (\<lambda>spouse.
     ensure (citizens s caller \<noteq> None) (Module NotRegistered) (
     Ok (emit_id (DivorceRegistered caller spouse)
          (s\<lparr>marriages := (marriages s)(caller := None, spouse := None)\<rparr>)))))"

definition nickname_byte :: "byte \<Rightarrow> bool" where
  "nickname_byte b \<longleftrightarrow> (48 \<le> b \<and> b \<le> 57) \<or> (65 \<le> b \<and> b \<le> 90) \<or> (97 \<le> b \<and> b \<le> 122) \<or> b = 95 \<or> b = 45"

text \<open>The type of the argument bounds it to 24 bytes: a call with a longer one does not decode.\<close>

definition register_nickname ::
  "origin \<Rightarrow> byte list \<Rightarrow> 'x identity_state \<Rightarrow> ('x identity_state, identity_failure) result" where
  "register_nickname og name s =
     and_then (ensure_signed og) (\<lambda>caller.
     ok_or (citizens s caller) (Module NotRegistered) (\<lambda>r.
     ensure (status r = Active) (Module CitizenInactive) (
     ensure (nickname_of s caller = None) (Module NicknameAlreadySet) (
     ensure (length name \<ge> 3) (Module NicknameInvalid) (
     ensure (\<forall>b\<in>set name. nickname_byte b) (Module NicknameInvalid) (
     ensure (account_by_nickname s name = None) (Module NicknameTaken) (
     Ok (emit_id (NicknameRegistered caller name)
          (s\<lparr>nickname_of := (nickname_of s)(caller \<mapsto> name),
             account_by_nickname := (account_by_nickname s)(name \<mapsto> caller)\<rparr>)))))))))"

definition clear_nickname ::
  "origin \<Rightarrow> 'x identity_state \<Rightarrow> ('x identity_state, identity_failure) result" where
  "clear_nickname og s =
     and_then (ensure_signed og) (\<lambda>caller.
     ok_or (nickname_of s caller) (Module NicknameNotSet) (\<lambda>name.
     Ok (emit_id (NicknameCleared caller)
          (s\<lparr>nickname_of := (nickname_of s)(caller := None),
             account_by_nickname := (account_by_nickname s)(name := None)\<rparr>))))"

section \<open>What other pallets call\<close>

definition do_freeze_citizen :: "account \<Rightarrow> 'x identity_state \<Rightarrow> ('x identity_state, identity_failure) result" where
  "do_freeze_citizen who s =
     ok_or (citizens s who) (Other ''IdentityBridge: not registered'') (\<lambda>r.
     Ok (emit_id (CitizenFrozen who) (put_citizen who (r\<lparr>status := Frozen\<rparr>) s)))"

definition do_unfreeze_citizen :: "account \<Rightarrow> 'x identity_state \<Rightarrow> ('x identity_state, identity_failure) result" where
  "do_unfreeze_citizen who s =
     ok_or (citizens s who) (Other ''IdentityBridge: not registered'') (\<lambda>r.
     ensure (status r \<noteq> Deceased) (Other ''IdentityBridge: cannot unfreeze a deceased citizen'') (
     Ok (emit_id (CitizenUnfrozen who) (put_citizen who (r\<lparr>status := Active\<rparr>) s))))"

definition do_demote_to_regular :: "account \<Rightarrow> 'x identity_state \<Rightarrow> ('x identity_state, identity_failure) result" where
  "do_demote_to_regular who s =
     ok_or (citizens s who) (Other ''IdentityBridge: not registered'') (\<lambda>r.
     Ok (put_citizen who (r\<lparr>role := Regular, term_end := None\<rparr>) s))"

definition do_exile ::
  "'x identity_config \<Rightarrow> account \<Rightarrow> 'x identity_state \<Rightarrow> ('x identity_state, identity_failure) result" where
  "do_exile cfg who s =
     ok_or (citizens s who) (Other ''IdentityBridge: not registered'') (\<lambda>r.
     ensure (status r \<noteq> Exiled \<and> status r \<noteq> Deceased) (Other ''IdentityBridge: citizen already in terminal state'') (
     let s1 = emit_id (CitizenExiled who) (put_citizen who (r\<lparr>status := Exiled, role := Regular, term_end := None\<rparr>) s)
     in Ok (s1\<lparr>world := on_exiled cfg who (world s1)\<rparr>)))"

definition is_mandate_active :: "env \<Rightarrow> citizen_record \<Rightarrow> bool" where
  "is_mandate_active env r = (case term_end r of None \<Rightarrow> False | Some end_block \<Rightarrow> min (block_number env) (umax 32) < end_block)"

definition validate_fractal_level :: "branch_of_power \<Rightarrow> fractal_level \<Rightarrow> (unit, identity_error) result" where
  "validate_fractal_level b l =
     (case b of
        Legislative \<Rightarrow> Ok ()
      | _ \<Rightarrow> if l > LTumed then Err HierarchyLimitExceeded else Ok ())"

end
