(* ===== verification/Identity_Units.thy ===== *)
theory Identity_Units
  imports Identity
begin

text \<open>
  \<^verbatim>\<open>pallets/inomad-identity/src/lib.rs\<close>, second part: the units of the fractal hierarchy, from Arbads over Zuns,
  Myangads and Tumeds to Khurals and Confederations, and the dispatch over all calls of the pallet.
\<close>

section \<open>Constants and helpers\<close>

definition BLOCKS_PER_YEAR :: nat where
  "BLOCKS_PER_YEAR = 5256000"

definition TWO_YEAR_TERM :: nat where
  "TWO_YEAR_TERM = BLOCKS_PER_YEAR * 2"

definition FOUR_YEAR_TERM :: nat where
  "FOUR_YEAR_TERM = BLOCKS_PER_YEAR * 4"

text \<open>Block numbers are \<open>u32\<close>, so \<open>saturated_into\<close> changes nothing.\<close>

definition mandate :: "env \<Rightarrow> nat \<Rightarrow> nat option" where
  "mandate env term = Some (sat_add 32 (block_number env) term)"

text \<open>The loops over members and sub-units: each new one differs from those seen and passes its check.\<close>

fun gather :: "('k \<Rightarrow> (unit, identity_failure) result) \<Rightarrow> 'k list \<Rightarrow> 'k list \<Rightarrow> ('k list, identity_failure) result" where
  "gather check seen [] = Ok seen"
| "gather check seen (k # ks) =
     ensure (k \<notin> set seen) (Module DuplicateMember) (
     and_then (check k) (\<lambda>_. gather check (seen @ [k]) ks))"

lemma gather_Ok [ok_simps]:
  "gather check seen ks = Ok ys \<longleftrightarrow>
     ys = seen @ ks \<and> distinct ks \<and> set ks \<inter> set seen = {} \<and> (\<forall>k\<in>set ks. check k = Ok ())"
  by (induction ks arbitrary: seen) (auto simp: ok_simps)

definition advance_vesting :: "vesting_level \<Rightarrow> citizen_record \<Rightarrow> citizen_record" where
  "advance_vesting new r =
     (if (case vesting r of None \<Rightarrow> True | Some current \<Rightarrow> new > current) then r\<lparr>vesting := Some new\<rparr> else r)"

section \<open>Arbads\<close>

definition check_arbad_member ::
  "'x identity_config \<Rightarrow> env \<Rightarrow> nat \<Rightarrow> 'x identity_state \<Rightarrow> account \<Rightarrow> (unit, identity_failure) result" where
  "check_arbad_member cfg env nation s m =
     ok_or (citizens s m) (Module NotRegistered) (\<lambda>mr.
     ensure (status mr = Active) (Module CitizenInactive) (
     ensure (role mr = Regular) (Module InvalidRank) (
     ensure (nation_id mr = nation) (Module NationMismatch) (
     ensure (case last_arbad_leave s m of
               Some last_leave \<Rightarrow> block_number env \<ge> sat_add 32 last_leave (arbad_cooldown_period cfg) | None \<Rightarrow> True)
       (Module ArbadCooldownActive) (Ok ())))))"

definition promote_arbad_leader :: "env \<Rightarrow> citizen_record \<Rightarrow> citizen_record" where
  "promote_arbad_leader env r =
     advance_vesting VArbadMember (r\<lparr>role := ArbadLeader, term_end := mandate env TWO_YEAR_TERM\<rparr>)"

definition advance_member :: "account \<Rightarrow> 'x identity_state \<Rightarrow> 'x identity_state" where
  "advance_member m s =
     emit_id (VestingAdvanced m VArbadMember) (modify_citizen m (advance_vesting VArbadMember) s)"

definition add_arbad :: "arbad_record \<Rightarrow> 'x identity_state \<Rightarrow> 'x identity_state" where
  "add_arbad r s =
     (let i = next_arbad_id s in
      s\<lparr>arbads := (arbads s)(i \<mapsto> r), arbad_by_leader := (arbad_by_leader s)(arbad_leader r \<mapsto> i),
        next_arbad_id := sat_add 32 i 1\<rparr>)"

text \<open>The caller is what the first check of the loop compares with: as if it had been seen.\<close>

definition form_arbad ::
  "'x identity_config \<Rightarrow> env \<Rightarrow> origin \<Rightarrow> account list \<Rightarrow> 'x identity_state
   \<Rightarrow> ('x identity_state, identity_failure) result" where
  "form_arbad cfg env og members s =
     and_then (ensure_signed og) (\<lambda>caller.
     ok_or (citizens s caller) (Module NotRegistered) (\<lambda>r.
     ensure (status r = Active) (Module CitizenInactive) (
     ensure (role r = Regular) (Module InvalidRank) (
     ensure (verification r = Verified) (Module VerifierNotVerified) (
     let nation = nation_id r in
     ensure (members \<noteq> [] \<and> length members \<le> 9) (Module NotEnoughMembers) (
     and_then (gather (check_arbad_member cfg env nation s) [caller] members) (\<lambda>_.
     let s1 = modify_citizen caller (promote_arbad_leader env) s;
         s2 = emit_id (VestingAdvanced caller VArbadMember) (fold advance_member members s1)
     in Ok (emit_id (ArbadFormed (next_arbad_id s2) RegularArbad caller nation)
          (add_arbad \<lparr>arbad_leader = caller, arbad_members = members, arbad_nation = nation,
                      marriage_credential_hash = None\<rparr> s2)))))))))"

definition form_family_arbad ::
  "env \<Rightarrow> origin \<Rightarrow> account \<Rightarrow> account \<Rightarrow> h256 option \<Rightarrow> 'x identity_state
   \<Rightarrow> ('x identity_state, identity_failure) result" where
  "form_family_arbad env og spouse head credential s =
     and_then (ensure_signed og) (\<lambda>caller.
     ensure (caller \<noteq> spouse) (Module DuplicateMember) (
     ensure (head = caller \<or> head = spouse) (Module InvalidRank) (
     ok_or (citizens s caller) (Module NotRegistered) (\<lambda>c.
     ensure (status c = Active) (Module CitizenInactive) (
     ensure (role c = Regular) (Module InvalidRank) (
     ensure (verification c = Verified) (Module VerifierNotVerified) (
     let nation = nation_id c in
     ok_or (citizens s spouse) (Module NotRegistered) (\<lambda>p.
     ensure (status p = Active) (Module CitizenInactive) (
     ensure (role p = Regular) (Module InvalidRank) (
     ensure (nation_id p = nation) (Module NationMismatch) (
     let leader = (if head = caller then caller else spouse);
         non_leader = (if head = caller then spouse else caller);
         s1 = modify_citizen leader (promote_arbad_leader env) s;
         s2 = modify_citizen non_leader (advance_vesting VArbadMember) s1;
         i = next_arbad_id s2;
         s3 = add_arbad \<lparr>arbad_leader = leader, arbad_members = [non_leader], arbad_nation = nation,
                         marriage_credential_hash = credential\<rparr> s2
     in Ok (emit_id (ArbadFormed i Family leader nation)
          (emit_id (VestingAdvanced non_leader VArbadMember)
            (emit_id (VestingAdvanced leader VArbadMember) s3))))))))))))))"

text \<open>\<open>swap_remove\<close>: the last member takes the place of the one removed.\<close>

definition swap_remove :: "'a list \<Rightarrow> nat \<Rightarrow> 'a list" where
  "swap_remove xs i = (if i < length xs - 1 then butlast (xs[i := last xs]) else butlast xs)"

fun position :: "'a \<Rightarrow> 'a list \<Rightarrow> nat option" where
  "position x [] = None"
| "position x (y # ys) = (if y = x then Some 0 else map_option Suc (position x ys))"

definition leave_arbad ::
  "env \<Rightarrow> origin \<Rightarrow> nat \<Rightarrow> 'x identity_state \<Rightarrow> ('x identity_state, identity_failure) result" where
  "leave_arbad env og arbad_id s =
     and_then (ensure_signed og) (\<lambda>caller.
     ok_or (citizens s caller) (Module NotRegistered) (\<lambda>r.
     ensure (status r = Active) (Module CitizenInactive) (
     ok_or (arbads s arbad_id) (Module ArbadNotFound) (\<lambda>arbad.
     ensure (arbad_leader arbad \<noteq> caller) (Module InvalidRank) (
     ok_or (position caller (arbad_members arbad)) (Module NotArbadMember) (\<lambda>pos.
     Ok (emit_id (ArbadLeft arbad_id caller)
          (s\<lparr>arbads := (arbads s)(arbad_id \<mapsto> arbad\<lparr>arbad_members := swap_remove (arbad_members arbad) pos\<rparr>),
             last_arbad_leave := (last_arbad_leave s)(caller \<mapsto> block_number env)\<rparr>))))))))"

section \<open>Zuns, Myangads and Tumeds\<close>

definition check_arbad_unit :: "nat \<Rightarrow> 'x identity_state \<Rightarrow> nat \<Rightarrow> (unit, identity_failure) result" where
  "check_arbad_unit nation s i =
     ok_or (arbads s i) (Module ArbadNotFound) (\<lambda>a.
     ensure (arbad_nation a = nation) (Module NationMismatch) (Ok ()))"

definition form_zun ::
  "env \<Rightarrow> origin \<Rightarrow> nat list \<Rightarrow> 'x identity_state \<Rightarrow> ('x identity_state, identity_failure) result" where
  "form_zun env og other_arbad_ids s =
     and_then (ensure_signed og) (\<lambda>caller.
     ok_or (citizens s caller) (Module NotRegistered) (\<lambda>r.
     ensure (status r = Active) (Module CitizenInactive) (
     ensure (role r = ArbadLeader) (Module InvalidRank) (
     ok_or (arbad_by_leader s caller) (Module ArbadNotFound) (\<lambda>my_id.
     ok_or (arbads s my_id) (Module ArbadNotFound) (\<lambda>my_arbad.
     let nation = arbad_nation my_arbad in
     ensure (length other_arbad_ids = 9) (Module NotEnoughMembers) (
     and_then (gather (check_arbad_unit nation s) [my_id] other_arbad_ids) (\<lambda>units.
     let s1 = modify_citizen caller
                (\<lambda>r. advance_vesting VZunMember (r\<lparr>role := ZunLeader, term_end := mandate env TWO_YEAR_TERM\<rparr>)) s;
         s2 = emit_id (VestingAdvanced caller VZunMember) s1
     in ensure (length units \<le> 10) (Module NotEnoughMembers) (
        let i = next_zun_id s2 in
        Ok (emit_id (ZunFormed i caller nation)
          (s2\<lparr>zuns := (zuns s2)(i \<mapsto> \<lparr>zun_leader = caller, zun_arbads = units, zun_nation = nation\<rparr>),
              zun_by_leader := (zun_by_leader s2)(caller \<mapsto> i), next_zun_id := sat_add 32 i 1\<rparr>)))))))))))"

definition check_zun_unit :: "nat \<Rightarrow> 'x identity_state \<Rightarrow> nat \<Rightarrow> (unit, identity_failure) result" where
  "check_zun_unit nation s i =
     ok_or (zuns s i) (Module ZunNotFound) (\<lambda>z.
     ensure (zun_nation z = nation) (Module NationMismatch) (Ok ()))"

definition form_myangad ::
  "env \<Rightarrow> origin \<Rightarrow> branch_of_power \<Rightarrow> nat list \<Rightarrow> 'x identity_state \<Rightarrow> ('x identity_state, identity_failure) result" where
  "form_myangad env og br other_zun_ids s =
     and_then (ensure_signed og) (\<lambda>caller.
     ok_or (citizens s caller) (Module NotRegistered) (\<lambda>r.
     ensure (status r = Active) (Module CitizenInactive) (
     ensure (role r = ZunLeader) (Module InvalidRank) (
     ok_or (zun_by_leader s caller) (Module ZunNotFound) (\<lambda>my_id.
     ok_or (zuns s my_id) (Module ZunNotFound) (\<lambda>my_zun.
     let nation = zun_nation my_zun in
     ensure (length other_zun_ids = 9) (Module NotEnoughMembers) (
     and_then (gather (check_zun_unit nation s) [my_id] other_zun_ids) (\<lambda>units.
     let s1 = modify_citizen caller
                (\<lambda>r. r\<lparr>role := MyangadLeader, branch := Some br, term_end := mandate env TWO_YEAR_TERM\<rparr>) s
     in ensure (length units \<le> 10) (Module NotEnoughMembers) (
        let i = next_myangad_id s1 in
        Ok (emit_id (MyangadFormed i caller nation br)
          (s1\<lparr>myangads := (myangads s1)(i \<mapsto> \<lparr>myangad_leader = caller, myangad_zuns = units, myangad_branch = br,
                                             myangad_nation = nation\<rparr>),
              myangad_by_leader := (myangad_by_leader s1)(caller \<mapsto> i), next_myangad_id := sat_add 32 i 1\<rparr>)))))))))))"

definition check_myangad_unit :: "nat \<Rightarrow> branch_of_power \<Rightarrow> 'x identity_state \<Rightarrow> nat \<Rightarrow> (unit, identity_failure) result" where
  "check_myangad_unit nation br s i =
     ok_or (myangads s i) (Module MyangadNotFound) (\<lambda>m.
     ensure (myangad_nation m = nation) (Module NationMismatch) (
     ensure (myangad_branch m = br) (Module BranchMismatch) (Ok ())))"

definition form_tumed ::
  "env \<Rightarrow> origin \<Rightarrow> nat list \<Rightarrow> 'x identity_state \<Rightarrow> ('x identity_state, identity_failure) result" where
  "form_tumed env og other_myangad_ids s =
     and_then (ensure_signed og) (\<lambda>caller.
     ok_or (citizens s caller) (Module NotRegistered) (\<lambda>r.
     ensure (status r = Active) (Module CitizenInactive) (
     ensure (role r = MyangadLeader) (Module InvalidRank) (
     ok_or (myangad_by_leader s caller) (Module MyangadNotFound) (\<lambda>my_id.
     ok_or (myangads s my_id) (Module MyangadNotFound) (\<lambda>my_myangad.
     let nation = myangad_nation my_myangad; inherited_branch = myangad_branch my_myangad in
     ensure (length other_myangad_ids = 9) (Module NotEnoughMembers) (
     and_then (gather (check_myangad_unit nation inherited_branch s) [my_id] other_myangad_ids) (\<lambda>units.
     let s1 = modify_citizen caller
                (\<lambda>r. r\<lparr>role := TumedLeader, branch := Some inherited_branch, term_end := mandate env TWO_YEAR_TERM\<rparr>) s
     in ensure (length units \<le> 10) (Module NotEnoughMembers) (
        let i = next_tumed_id s1 in
        Ok (emit_id (TumedFormed i caller nation inherited_branch)
          (s1\<lparr>tumeds := (tumeds s1)(i \<mapsto> \<lparr>tumed_leader = caller, tumed_myangads = units,
                                         tumed_branch = inherited_branch, tumed_nation = nation\<rparr>),
              tumed_by_leader := (tumed_by_leader s1)(caller \<mapsto> i), next_tumed_id := sat_add 32 i 1\<rparr>)))))))))))"

section \<open>Khurals and Confederations\<close>

definition check_tumed_unit :: "nat \<Rightarrow> 'x identity_state \<Rightarrow> nat \<Rightarrow> (unit, identity_failure) result" where
  "check_tumed_unit nation s i =
     ok_or (tumeds s i) (Module TumedNotFound) (\<lambda>t.
     ensure (tumed_branch t = Legislative) (Module HierarchyLimitExceeded) (
     ensure (tumed_nation t = nation) (Module NationMismatch) (Ok ())))"

text \<open>A further term as a delegate, at most two in all.\<close>

definition serve_term :: "env \<Rightarrow> citizen_role \<Rightarrow> citizen_record \<Rightarrow> citizen_record" where
  "serve_term env new_role r =
     r\<lparr>role := new_role, khural_terms_served := sat_add 8 (khural_terms_served r) 1,
       term_end := mandate env FOUR_YEAR_TERM\<rparr>"

definition form_khural ::
  "env \<Rightarrow> origin \<Rightarrow> nat list \<Rightarrow> 'x identity_state \<Rightarrow> ('x identity_state, identity_failure) result" where
  "form_khural env og tumed_ids s =
     and_then (ensure_signed og) (\<lambda>caller.
     ok_or (citizens s caller) (Module NotRegistered) (\<lambda>r.
     ensure (status r = Active) (Module CitizenInactive) (
     ensure (role r = TumedLeader) (Module InvalidRank) (
     ensure (tumed_ids \<noteq> []) (Module NotEnoughMembers) (
     ok_or (tumeds s (hd tumed_ids)) (Module TumedNotFound) (\<lambda>first.
     let nation = tumed_nation first in
     and_then (gather (check_tumed_unit nation s) [] tumed_ids) (\<lambda>_.
     ensure (khural_terms_served r < 2) (Module TermLimitExceeded) (
     let s1 = put_citizen caller (serve_term env KhuralDelegate r) s in
     ensure (length tumed_ids \<le> 100) (Module NotEnoughMembers) (
     let i = next_khural_id s1 in
     Ok (emit_id (KhuralFormed i caller nation (length tumed_ids))
       (s1\<lparr>khurals := (khurals s1)(i \<mapsto> \<lparr>khural_leader = caller, khural_tumeds = tumed_ids, khural_nation = nation\<rparr>),
           khural_by_leader := (khural_by_leader s1)(caller \<mapsto> i), next_khural_id := sat_add 32 i 1\<rparr>)))))))))))"

definition check_khural_unit :: "'x identity_state \<Rightarrow> nat \<Rightarrow> (unit, identity_failure) result" where
  "check_khural_unit s i = ensure (khurals s i \<noteq> None) (Module KhuralNotFound) (Ok ())"

definition form_confederation ::
  "env \<Rightarrow> origin \<Rightarrow> nat list \<Rightarrow> 'x identity_state \<Rightarrow> ('x identity_state, identity_failure) result" where
  "form_confederation env og khural_ids s =
     and_then (ensure_signed og) (\<lambda>caller.
     ok_or (citizens s caller) (Module NotRegistered) (\<lambda>r.
     ensure (status r = Active) (Module CitizenInactive) (
     ensure (role r = KhuralDelegate) (Module InvalidRank) (
     ensure (khural_ids \<noteq> []) (Module NotEnoughMembers) (
     and_then (gather (check_khural_unit s) [] khural_ids) (\<lambda>_.
     ensure (khural_terms_served r < 2) (Module TermLimitExceeded) (
     let s1 = put_citizen caller (serve_term env ConfederationDelegate r) s in
     ensure (length khural_ids \<le> 86) (Module NotEnoughMembers) (
     let i = next_confederation_id s1 in
     Ok (emit_id (ConfederationFormed i caller (length khural_ids))
       (s1\<lparr>confederations := (confederations s1)(i \<mapsto> \<lparr>confederation_leader = caller, confederation_khurals = khural_ids\<rparr>),
           confederation_by_leader := (confederation_by_leader s1)(caller \<mapsto> i),
           next_confederation_id := sat_add 32 i 1\<rparr>))))))))))"

section \<open>Dispatch\<close>

datatype identity_call =
    RegisterCitizen account nat citizen_role bool "nat option" "nat option" passport_type h256 h256 h256
  | VerifyCitizen account
  | BootstrapVerifyCreator account
  | UpdateRole account citizen_role
  | FreezeCitizen account
  | UnfreezeCitizen account
  | FormArbad "account list"
  | FormFamilyArbad account account "h256 option"
  | RegisterBirth account account "account option" h256 nat
  | RegisterDeath account h256
  | FormZun "nat list"
  | FormMyangad branch_of_power "nat list"
  | FormTumed "nat list"
  | FormKhural "nat list"
  | FormConfederation "nat list"
  | AssignGuardian account account
  | LeaveArbad nat
  | ClaimRepatriation account h256 h256
  | ClaimBirthright h256
  | RegisterMarriage account nat
  | RegisterDivorce
  | RegisterNickname "byte list"
  | ClearNickname

fun identity_dispatch ::
  "'x identity_config \<Rightarrow> env \<times> origin \<times> identity_call \<Rightarrow> 'x identity_state
   \<Rightarrow> ('x identity_state, identity_failure) result" where
  "identity_dispatch cfg (env, og, RegisterCitizen a n r i re br p d bp e) s = register_citizen og a n r i re br p d bp e s"
| "identity_dispatch cfg (env, og, VerifyCitizen a) s = verify_citizen og a s"
| "identity_dispatch cfg (env, og, BootstrapVerifyCreator a) s = bootstrap_verify_creator og a s"
| "identity_dispatch cfg (env, og, UpdateRole a r) s = update_role og a r s"
| "identity_dispatch cfg (env, og, FreezeCitizen a) s = freeze_citizen og a s"
| "identity_dispatch cfg (env, og, UnfreezeCitizen a) s = unfreeze_citizen og a s"
| "identity_dispatch cfg (env, og, FormArbad ms) s = form_arbad cfg env og ms s"
| "identity_dispatch cfg (env, og, FormFamilyArbad p h c) s = form_family_arbad env og p h c s"
| "identity_dispatch cfg (env, og, RegisterBirth c p q h r) s = register_birth cfg env og c p q h r s"
| "identity_dispatch cfg (env, og, RegisterDeath a h) s = register_death cfg og a h s"
| "identity_dispatch cfg (env, og, FormZun us) s = form_zun env og us s"
| "identity_dispatch cfg (env, og, FormMyangad b us) s = form_myangad env og b us s"
| "identity_dispatch cfg (env, og, FormTumed us) s = form_tumed env og us s"
| "identity_dispatch cfg (env, og, FormKhural us) s = form_khural env og us s"
| "identity_dispatch cfg (env, og, FormConfederation us) s = form_confederation env og us s"
| "identity_dispatch cfg (env, og, AssignGuardian m g) s = assign_guardian cfg og m g s"
| "identity_dispatch cfg (env, og, LeaveArbad i) s = leave_arbad env og i s"
| "identity_dispatch cfg (env, og, ClaimRepatriation a l h) s = claim_repatriation cfg og a l h s"
| "identity_dispatch cfg (env, og, ClaimBirthright h) s = claim_birthright cfg og h s"
| "identity_dispatch cfg (env, og, RegisterMarriage p b) s = register_marriage cfg og p b s"
| "identity_dispatch cfg (env, og, RegisterDivorce) s = register_divorce og s"
| "identity_dispatch cfg (env, og, RegisterNickname n) s = register_nickname og n s"
| "identity_dispatch cfg (env, og, ClearNickname) s = clear_nickname og s"

end
