(* ===== verification/Identity_Frames.thy ===== *)
theory Identity_Frames
  imports Identity_Units
begin

text \<open>
  Which operation of the identity pallet touches which part of its storage: selector lemmas for the helpers, how
  citizen records change, and which units a call creates.
\<close>

section \<open>Selectors\<close>

lemma put_citizen_simps [simp]:
  "world (put_citizen a r s) = world s" "next_citizen_id (put_citizen a r s) = next_citizen_id s"
  "used_document_hashes (put_citizen a r s) = used_document_hashes s"
  "used_email_hashes (put_citizen a r s) = used_email_hashes s" "arbads (put_citizen a r s) = arbads s"
  "next_arbad_id (put_citizen a r s) = next_arbad_id s" "arbad_by_leader (put_citizen a r s) = arbad_by_leader s"
  "zuns (put_citizen a r s) = zuns s" "next_zun_id (put_citizen a r s) = next_zun_id s"
  "zun_by_leader (put_citizen a r s) = zun_by_leader s" "myangads (put_citizen a r s) = myangads s"
  "next_myangad_id (put_citizen a r s) = next_myangad_id s"
  "myangad_by_leader (put_citizen a r s) = myangad_by_leader s" "tumeds (put_citizen a r s) = tumeds s"
  "next_tumed_id (put_citizen a r s) = next_tumed_id s" "tumed_by_leader (put_citizen a r s) = tumed_by_leader s"
  "khurals (put_citizen a r s) = khurals s" "next_khural_id (put_citizen a r s) = next_khural_id s"
  "khural_by_leader (put_citizen a r s) = khural_by_leader s" "confederations (put_citizen a r s) = confederations s"
  "next_confederation_id (put_citizen a r s) = next_confederation_id s"
  "confederation_by_leader (put_citizen a r s) = confederation_by_leader s"
  "parental_links (put_citizen a r s) = parental_links s"
  "used_birth_hashes (put_citizen a r s) = used_birth_hashes s" "death_records (put_citizen a r s) = death_records s"
  "guardian_of (put_citizen a r s) = guardian_of s" "last_arbad_leave (put_citizen a r s) = last_arbad_leave s"
  "oracle_calls_this_block (put_citizen a r s) = oracle_calls_this_block s"
  "nickname_of (put_citizen a r s) = nickname_of s" "account_by_nickname (put_citizen a r s) = account_by_nickname s"
  "marriages (put_citizen a r s) = marriages s" "identity_events (put_citizen a r s) = identity_events s"
  by (simp_all add: put_citizen_def)

lemma citizens_put [simp]: "citizens (put_citizen a r s) = (citizens s)(a \<mapsto> r)"
  by (simp add: put_citizen_def)

lemma emit_id_simps [simp]:
  "world (emit_id e s) = world s" "citizens (emit_id e s) = citizens s"
  "next_citizen_id (emit_id e s) = next_citizen_id s" "used_document_hashes (emit_id e s) = used_document_hashes s"
  "used_email_hashes (emit_id e s) = used_email_hashes s" "arbads (emit_id e s) = arbads s"
  "next_arbad_id (emit_id e s) = next_arbad_id s" "arbad_by_leader (emit_id e s) = arbad_by_leader s"
  "zuns (emit_id e s) = zuns s" "next_zun_id (emit_id e s) = next_zun_id s"
  "zun_by_leader (emit_id e s) = zun_by_leader s" "myangads (emit_id e s) = myangads s"
  "next_myangad_id (emit_id e s) = next_myangad_id s" "myangad_by_leader (emit_id e s) = myangad_by_leader s"
  "tumeds (emit_id e s) = tumeds s" "next_tumed_id (emit_id e s) = next_tumed_id s"
  "tumed_by_leader (emit_id e s) = tumed_by_leader s" "khurals (emit_id e s) = khurals s"
  "next_khural_id (emit_id e s) = next_khural_id s" "khural_by_leader (emit_id e s) = khural_by_leader s"
  "confederations (emit_id e s) = confederations s" "next_confederation_id (emit_id e s) = next_confederation_id s"
  "confederation_by_leader (emit_id e s) = confederation_by_leader s"
  "parental_links (emit_id e s) = parental_links s" "used_birth_hashes (emit_id e s) = used_birth_hashes s"
  "death_records (emit_id e s) = death_records s" "guardian_of (emit_id e s) = guardian_of s"
  "last_arbad_leave (emit_id e s) = last_arbad_leave s"
  "oracle_calls_this_block (emit_id e s) = oracle_calls_this_block s" "nickname_of (emit_id e s) = nickname_of s"
  "account_by_nickname (emit_id e s) = account_by_nickname s" "marriages (emit_id e s) = marriages s"
  by (simp_all add: emit_id_def)

lemma modify_citizen_simps [simp]:
  "world (modify_citizen a f s) = world s" "next_citizen_id (modify_citizen a f s) = next_citizen_id s"
  "used_document_hashes (modify_citizen a f s) = used_document_hashes s"
  "used_email_hashes (modify_citizen a f s) = used_email_hashes s" "arbads (modify_citizen a f s) = arbads s"
  "next_arbad_id (modify_citizen a f s) = next_arbad_id s"
  "arbad_by_leader (modify_citizen a f s) = arbad_by_leader s" "zuns (modify_citizen a f s) = zuns s"
  "next_zun_id (modify_citizen a f s) = next_zun_id s" "zun_by_leader (modify_citizen a f s) = zun_by_leader s"
  "myangads (modify_citizen a f s) = myangads s" "next_myangad_id (modify_citizen a f s) = next_myangad_id s"
  "myangad_by_leader (modify_citizen a f s) = myangad_by_leader s" "tumeds (modify_citizen a f s) = tumeds s"
  "next_tumed_id (modify_citizen a f s) = next_tumed_id s"
  "tumed_by_leader (modify_citizen a f s) = tumed_by_leader s" "khurals (modify_citizen a f s) = khurals s"
  "next_khural_id (modify_citizen a f s) = next_khural_id s"
  "khural_by_leader (modify_citizen a f s) = khural_by_leader s"
  "confederations (modify_citizen a f s) = confederations s"
  "next_confederation_id (modify_citizen a f s) = next_confederation_id s"
  "confederation_by_leader (modify_citizen a f s) = confederation_by_leader s"
  "parental_links (modify_citizen a f s) = parental_links s"
  "used_birth_hashes (modify_citizen a f s) = used_birth_hashes s"
  "death_records (modify_citizen a f s) = death_records s" "guardian_of (modify_citizen a f s) = guardian_of s"
  "last_arbad_leave (modify_citizen a f s) = last_arbad_leave s"
  "oracle_calls_this_block (modify_citizen a f s) = oracle_calls_this_block s"
  "nickname_of (modify_citizen a f s) = nickname_of s"
  "account_by_nickname (modify_citizen a f s) = account_by_nickname s"
  "marriages (modify_citizen a f s) = marriages s" "identity_events (modify_citizen a f s) = identity_events s"
  by (simp_all add: modify_citizen_def split: option.split)

lemma advance_members_simps [simp]:
  "world (fold advance_member ms s) = world s" "next_citizen_id (fold advance_member ms s) = next_citizen_id s"
  "used_document_hashes (fold advance_member ms s) = used_document_hashes s"
  "used_email_hashes (fold advance_member ms s) = used_email_hashes s" "arbads (fold advance_member ms s) = arbads s"
  "next_arbad_id (fold advance_member ms s) = next_arbad_id s"
  "arbad_by_leader (fold advance_member ms s) = arbad_by_leader s" "zuns (fold advance_member ms s) = zuns s"
  "next_zun_id (fold advance_member ms s) = next_zun_id s"
  "zun_by_leader (fold advance_member ms s) = zun_by_leader s" "myangads (fold advance_member ms s) = myangads s"
  "next_myangad_id (fold advance_member ms s) = next_myangad_id s"
  "myangad_by_leader (fold advance_member ms s) = myangad_by_leader s" "tumeds (fold advance_member ms s) = tumeds s"
  "next_tumed_id (fold advance_member ms s) = next_tumed_id s"
  "tumed_by_leader (fold advance_member ms s) = tumed_by_leader s" "khurals (fold advance_member ms s) = khurals s"
  "next_khural_id (fold advance_member ms s) = next_khural_id s"
  "khural_by_leader (fold advance_member ms s) = khural_by_leader s"
  "confederations (fold advance_member ms s) = confederations s"
  "next_confederation_id (fold advance_member ms s) = next_confederation_id s"
  "confederation_by_leader (fold advance_member ms s) = confederation_by_leader s"
  "parental_links (fold advance_member ms s) = parental_links s"
  "used_birth_hashes (fold advance_member ms s) = used_birth_hashes s"
  "death_records (fold advance_member ms s) = death_records s"
  "guardian_of (fold advance_member ms s) = guardian_of s"
  "last_arbad_leave (fold advance_member ms s) = last_arbad_leave s"
  "oracle_calls_this_block (fold advance_member ms s) = oracle_calls_this_block s"
  "nickname_of (fold advance_member ms s) = nickname_of s"
  "account_by_nickname (fold advance_member ms s) = account_by_nickname s"
  "marriages (fold advance_member ms s) = marriages s"
  by (induction ms arbitrary: s) (simp_all add: advance_member_def)

text \<open>Oriented so that the new state is replaced by the expression that computes it.\<close>

lemma Ok_eq: "(Ok x = Ok t) \<longleftrightarrow> t = x"
  by auto

section \<open>How records change\<close>

definition same_person :: "citizen_record \<Rightarrow> citizen_record \<Rightarrow> bool" where
  "same_person r r' \<longleftrightarrow> citizen_id r' = citizen_id r \<and> nation_id r' = nation_id r \<and> region_id r' = region_id r
     \<and> birth_region_id r' = birth_region_id r \<and> document_hash r' = document_hash r \<and> email_hash r' = email_hash r
     \<and> birth_page_hash r' = birth_page_hash r \<and> passport r' = passport r
     \<and> naturalized_people_id r' = naturalized_people_id r"

definition record_ok :: "citizen_record \<Rightarrow> bool" where
  "record_ok r \<longleftrightarrow> (is_indigenous r \<longleftrightarrow> citizenship r = Indigenous) \<and> khural_terms_served r \<le> 2
     \<and> 1 \<le> nation_id r \<and> nation_id r \<le> 79"

text \<open>A record grows into another: the same person, well-formed as before, the status along \<open>E\<close>, and who is no foreigner
  does not become one.\<close>

definition grows :: "(citizen_status \<Rightarrow> citizen_status \<Rightarrow> bool) \<Rightarrow> citizen_record \<Rightarrow> citizen_record \<Rightarrow> bool" where
  "grows E r r' \<longleftrightarrow> same_person r r' \<and> (record_ok r \<longrightarrow> record_ok r') \<and> (status r' = status r \<or> E (status r) (status r'))
     \<and> (citizenship r \<noteq> Foreigner \<longrightarrow> citizenship r' \<noteq> Foreigner)"

definition carried :: "(citizen_status \<Rightarrow> citizen_status \<Rightarrow> bool) \<Rightarrow> 'x identity_state \<Rightarrow> 'x identity_state \<Rightarrow> bool" where
  "carried E s t \<longleftrightarrow> (\<forall>a r. citizens s a = Some r \<longrightarrow> (\<exists>r'. citizens t a = Some r' \<and> grows E r r'))"

lemma grows_refl [simp]: "grows E r r"
  by (simp add: grows_def same_person_def)

lemma grows_trans: "grows (\<lambda>_ _. False) r1 r2 \<Longrightarrow> grows E r2 r3 \<Longrightarrow> grows E r1 r3"
  by (auto simp: grows_def same_person_def)

lemma grows_mono: "grows E r r' \<Longrightarrow> (\<And>a b. E a b \<Longrightarrow> F a b) \<Longrightarrow> grows F r r'"
  by (auto simp: grows_def)

lemma carried_same: "citizens t = citizens s \<Longrightarrow> carried E s t"
  unfolding carried_def by (metis grows_refl)

lemma carried_trans: "carried (\<lambda>_ _. False) s t \<Longrightarrow> carried E t u \<Longrightarrow> carried E s u"
  unfolding carried_def by (metis grows_trans)

lemma carried_mono: "carried E s t \<Longrightarrow> (\<And>a b. E a b \<Longrightarrow> F a b) \<Longrightarrow> carried F s t"
  unfolding carried_def by (metis grows_mono)

lemma carried_put:
  assumes "citizens s a = Some r" "grows E r r'" "citizens t = (citizens s)(a \<mapsto> r')"
  shows "carried E s t"
proof -
  have "\<exists>q'. citizens t b = Some q' \<and> grows E q q'" if "citizens s b = Some q" for b q
    using that assms by (cases "b = a") auto
  then show ?thesis by (simp add: carried_def)
qed

lemma carried_new:
  assumes "citizens s a = None" "citizens t = (citizens s)(a \<mapsto> r)"
  shows "carried E s t"
proof -
  have "citizens t b = Some q" if "citizens s b = Some q" for b q
    using that assms by (cases "b = a") auto
  then show ?thesis unfolding carried_def by (metis grows_refl)
qed

lemma carried_modify:
  assumes "\<And>r. grows E r (f r)"
  shows "carried E s (modify_citizen a f s)"
proof (cases "citizens s a")
  case None
  then show ?thesis by (simp add: modify_citizen_def carried_same)
next
  case (Some r)
  have "carried E s (put_citizen a (f r) s)" by (rule carried_put[OF Some assms]) simp
  with Some show ?thesis by (simp add: modify_citizen_def)
qed

lemma dom_modify [simp]: "dom (citizens (modify_citizen a f s)) = dom (citizens s)"
  by (auto simp: modify_citizen_def split: option.splits)

lemma advance_vesting_grows: "grows E r (advance_vesting v r)"
  by (simp add: advance_vesting_def grows_def same_person_def record_ok_def)

lemma promote_arbad_leader_grows: "grows E r (promote_arbad_leader env r)"
  unfolding promote_arbad_leader_def
  by (rule grows_trans[OF _ advance_vesting_grows]) (simp add: grows_def same_person_def record_ok_def)

lemma serve_term_grows: "khural_terms_served r < 2 \<Longrightarrow> grows E r (serve_term env ro r)"
  by (auto simp: serve_term_def grows_def same_person_def record_ok_def sat_add_def)

lemma carried_members: "carried E s (fold advance_member ms s)"
proof (induction ms arbitrary: s)
  case Nil
  show ?case by (simp add: carried_same)
next
  case (Cons m ms)
  have "carried (\<lambda>_ _. False) s (advance_member m s)"
    using carried_modify[of "\<lambda>_ _. False" "advance_vesting VArbadMember" s m] advance_vesting_grows
    by (simp add: carried_def advance_member_def)
  with Cons carried_trans show ?case by force
qed

lemma dom_members [simp]: "dom (citizens (fold advance_member ms s)) = dom (citizens s)"
  by (induction ms arbitrary: s) (simp_all add: advance_member_def)

lemma citizens_add_arbad [simp]: "citizens (add_arbad r s) = citizens s"
  by (simp add: add_arbad_def Let_def)

section \<open>The calls on citizens\<close>

text \<open>How the extrinsics change a status.\<close>

inductive status_edge :: "citizen_status \<Rightarrow> citizen_status \<Rightarrow> bool" where
  "status_edge Active Frozen"
| "status_edge Frozen Active"
| "x \<noteq> Deceased \<Longrightarrow> status_edge x Deceased"

inductive_simps status_edge_simps: "status_edge x y"

text \<open>The citizens of a state after a call: those before carried over, and at most one new record.\<close>

definition joins :: "'x identity_state \<Rightarrow> 'x identity_state \<Rightarrow> account \<Rightarrow> citizen_record \<Rightarrow> bool" where
  "joins s t a r \<longleftrightarrow> citizens s a = None \<and> citizens t = (citizens s)(a \<mapsto> r)"

lemma register_citizen_Ok:
  assumes "register_citizen og a n ro i re br p d bp e s = Ok t"
  obtains cid where "cid = sat_add 64 (next_citizen_id s) 1" "joins s t a (fresh_citizen cid n ro i re br p d bp e)"
    "1 \<le> n" "n \<le> 79" "\<not> used_document_hashes s d" "\<not> used_email_hashes s e"
    "used_document_hashes t = (used_document_hashes s)(d := True)" "used_email_hashes t = (used_email_hashes s)(e := True)"
    "next_citizen_id t = cid" "parental_links t = parental_links s" "og = Root"
  using assms unfolding register_citizen_def Let_def ok_simps Ok_eq
  by (elim exE conjE) (rule that, simp_all add: joins_def)

lemma fresh_citizen_sel [simp]:
  "citizen_id (fresh_citizen cid n ro i re br p d bp e) = cid" "status (fresh_citizen cid n ro i re br p d bp e) = Active"
  "document_hash (fresh_citizen cid n ro i re br p d bp e) = d" "email_hash (fresh_citizen cid n ro i re br p d bp e) = e"
  "record_ok (fresh_citizen cid n ro i re br p d bp e) \<longleftrightarrow> 1 \<le> n \<and> n \<le> 79"
  by (auto simp: fresh_citizen_def record_ok_def)

lemma newborn_sel [simp]:
  "citizen_id (newborn cid n re h) = cid" "status (newborn cid n re h) = Minor" "document_hash (newborn cid n re h) = h"
  "record_ok (newborn cid n re h) \<longleftrightarrow> 1 \<le> n \<and> n \<le> 79"
  by (auto simp: newborn_def record_ok_def)

lemma oracle_rate_frame:
  assumes "check_and_increment_oracle_rate cfg env s = Ok t"
  shows "t = s\<lparr>oracle_calls_this_block := oracle_calls_this_block t\<rparr>"
  using assms by (auto simp: check_and_increment_oracle_rate_def Let_def ok_simps split: prod.splits if_splits)

lemma register_birth_Ok:
  assumes "register_birth cfg env og a p q h g s = Ok t"
  obtains pr where "citizens s p = Some pr" "status pr \<noteq> Deceased"
    "joins s t a (newborn (next_citizen_id s) (nation_id pr) g h)" "\<not> used_birth_hashes s h"
    "used_document_hashes t = used_document_hashes s" "used_email_hashes t = used_email_hashes s"
    "next_citizen_id t = sat_add 64 (next_citizen_id s) 1" "parental_links t = (parental_links s)(a \<mapsto> (p, q))"
    "used_birth_hashes t = (used_birth_hashes s)(h := True)" "og = Root \<or> og = Signed (medical_authority cfg)"
proof -
  obtain s1 where s1: "ensure_medical cfg og (Ok s) (check_and_increment_oracle_rate cfg env s) = Ok s1"
    using assms unfolding register_birth_def ok_simps by blast
  have og: "og = Root \<or> og = Signed (medical_authority cfg)"
    using s1 unfolding ensure_medical_Ok by blast
  have "s1 = s \<or> s1 = s\<lparr>oracle_calls_this_block := oracle_calls_this_block s1\<rparr>"
    using s1 oracle_rate_frame unfolding ensure_medical_Ok by auto
  then have "\<exists>oc. s1 = s\<lparr>oracle_calls_this_block := oc\<rparr>"
    by (elim disjE) (rule exI[of _ "oracle_calls_this_block s"], simp, blast)
  then obtain oc where oc: "s1 = s\<lparr>oracle_calls_this_block := oc\<rparr>" by blast
  show ?thesis
    using assms unfolding register_birth_def s1 and_then_simps oc Let_def ok_simps Ok_eq
    by (elim exE conjE) (rule that, simp_all add: joins_def og)
qed

end
