(* ===== verification/Identity_Steps.thy ===== *)
theory Identity_Steps
  imports Identity_Frames
begin

text \<open>
  What each operation of the identity pallet does to the three parts of its storage: the citizens with the registry of
  their documents, the civil registry of marriages and nicknames, and the hierarchy of units.
\<close>

section \<open>The parts of the storage\<close>

definition registry ::
  "'x identity_state \<Rightarrow> nat \<times> (h256 \<Rightarrow> bool) \<times> (h256 \<Rightarrow> bool) \<times> (account \<Rightarrow> (account \<times> account option) option)
   \<times> (h256 \<Rightarrow> bool)" where
  "registry s = (next_citizen_id s, used_document_hashes s, used_email_hashes s, parental_links s, used_birth_hashes s)"

definition civil ::
  "'x identity_state \<Rightarrow> (account \<Rightarrow> account option) \<times> (account \<Rightarrow> byte list option) \<times> (byte list \<Rightarrow> account option)" where
  "civil s = (marriages s, nickname_of s, account_by_nickname s)"

record unit_tables =
  t_arbads :: "nat \<Rightarrow> arbad_record option"
  t_next_arbad :: nat
  t_arbad_by :: "account \<Rightarrow> nat option"
  t_zuns :: "nat \<Rightarrow> zun_record option"
  t_next_zun :: nat
  t_zun_by :: "account \<Rightarrow> nat option"
  t_myangads :: "nat \<Rightarrow> myangad_record option"
  t_next_myangad :: nat
  t_myangad_by :: "account \<Rightarrow> nat option"
  t_tumeds :: "nat \<Rightarrow> tumed_record option"
  t_next_tumed :: nat
  t_tumed_by :: "account \<Rightarrow> nat option"
  t_khurals :: "nat \<Rightarrow> khural_record option"
  t_next_khural :: nat
  t_confederations :: "nat \<Rightarrow> confederation_record option"
  t_next_confederation :: nat

definition hierarchy :: "'x identity_state \<Rightarrow> unit_tables" where
  "hierarchy s = \<lparr>t_arbads = arbads s, t_next_arbad = next_arbad_id s, t_arbad_by = arbad_by_leader s,
     t_zuns = zuns s, t_next_zun = next_zun_id s, t_zun_by = zun_by_leader s,
     t_myangads = myangads s, t_next_myangad = next_myangad_id s, t_myangad_by = myangad_by_leader s,
     t_tumeds = tumeds s, t_next_tumed = next_tumed_id s, t_tumed_by = tumed_by_leader s,
     t_khurals = khurals s, t_next_khural = next_khural_id s,
     t_confederations = confederations s, t_next_confederation = next_confederation_id s\<rparr>"

lemma hierarchy_sel [simp]:
  "t_arbads (hierarchy s) = arbads s" "t_next_arbad (hierarchy s) = next_arbad_id s"
  "t_arbad_by (hierarchy s) = arbad_by_leader s" "t_zuns (hierarchy s) = zuns s"
  "t_next_zun (hierarchy s) = next_zun_id s" "t_zun_by (hierarchy s) = zun_by_leader s"
  "t_myangads (hierarchy s) = myangads s" "t_next_myangad (hierarchy s) = next_myangad_id s"
  "t_myangad_by (hierarchy s) = myangad_by_leader s" "t_tumeds (hierarchy s) = tumeds s"
  "t_next_tumed (hierarchy s) = next_tumed_id s" "t_tumed_by (hierarchy s) = tumed_by_leader s"
  "t_khurals (hierarchy s) = khurals s" "t_next_khural (hierarchy s) = next_khural_id s"
  "t_confederations (hierarchy s) = confederations s" "t_next_confederation (hierarchy s) = next_confederation_id s"
  by (simp_all add: hierarchy_def)

lemma parts_simps [simp]:
  "registry (emit_id e s) = registry s" "civil (emit_id e s) = civil s" "hierarchy (emit_id e s) = hierarchy s"
  "registry (put_citizen a r s) = registry s" "civil (put_citizen a r s) = civil s"
  "hierarchy (put_citizen a r s) = hierarchy s"
  "registry (modify_citizen a f s) = registry s" "civil (modify_citizen a f s) = civil s"
  "hierarchy (modify_citizen a f s) = hierarchy s"
  "registry (fold advance_member ms s) = registry s" "civil (fold advance_member ms s) = civil s"
  "hierarchy (fold advance_member ms s) = hierarchy s"
  "registry (s\<lparr>world := x\<rparr>) = registry s" "civil (s\<lparr>world := x\<rparr>) = civil s"
  "hierarchy (s\<lparr>world := x\<rparr>) = hierarchy s"
  "registry (s\<lparr>death_records := d\<rparr>) = registry s" "civil (s\<lparr>death_records := d\<rparr>) = civil s"
  "hierarchy (s\<lparr>death_records := d\<rparr>) = hierarchy s"
  by (simp_all add: registry_def civil_def hierarchy_def)

text \<open>The same citizens, each grown along \<open>E\<close>, and the same registry.\<close>

definition persons_kept :: "(citizen_status \<Rightarrow> citizen_status \<Rightarrow> bool) \<Rightarrow> 'x identity_state \<Rightarrow> 'x identity_state \<Rightarrow> bool" where
  "persons_kept E s t \<longleftrightarrow> carried E s t \<and> dom (citizens t) = dom (citizens s) \<and> registry t = registry s"

lemma kept_put:
  assumes "citizens s a = Some r" "grows E r r'" "citizens t = (citizens s)(a \<mapsto> r')" "registry t = registry s"
  shows "persons_kept E s t"
  using assms carried_put[OF assms(1,2,3)] by (auto simp: persons_kept_def)

lemma kept_same: "citizens t = citizens s \<Longrightarrow> registry t = registry s \<Longrightarrow> persons_kept E s t"
  by (simp add: persons_kept_def carried_same)

lemma kept_mono: "persons_kept E s t \<Longrightarrow> (\<And>a b. E a b \<Longrightarrow> F a b) \<Longrightarrow> persons_kept F s t"
  unfolding persons_kept_def using carried_mono[of E s t F] by blast

lemma kept_modify:
  assumes "\<And>r. grows E r (f r)" "citizens t = citizens (modify_citizen a f s)" "registry t = registry s"
  shows "persons_kept E s t"
  using carried_modify[OF assms(1), of s a] assms(2,3) by (simp add: persons_kept_def carried_def)

section \<open>Calls on one citizen\<close>

lemmas grow_defs = grows_def same_person_def record_ok_def

lemma mark_verified_frame:
  assumes "citizens s a = Some r" "t = mark_verified v a r s"
  shows "persons_kept E s t \<and> civil t = civil s \<and> hierarchy t = hierarchy s"
  using assms kept_put[OF assms(1), of E "r\<lparr>verification := Verified, vesting := Some VVerified\<rparr>" t]
  by (simp add: mark_verified_def grow_defs)

lemma verify_citizen_frame:
  assumes "verify_citizen og a s = Ok t"
  shows "persons_kept E s t \<and> civil t = civil s \<and> hierarchy t = hierarchy s"
  using assms unfolding verify_citizen_def ok_simps Ok_eq by (elim exE conjE) (rule mark_verified_frame)

lemma bootstrap_frame:
  assumes "bootstrap_verify_creator og a s = Ok t"
  shows "persons_kept E s t \<and> civil t = civil s \<and> hierarchy t = hierarchy s"
  using assms unfolding bootstrap_verify_creator_def ok_simps Ok_eq by (elim exE conjE) (rule mark_verified_frame)

lemma put_frame:
  assumes "citizens s a = Some r" "t = emit_id e (put_citizen a r' s)" "grows E r r'"
  shows "persons_kept E s t \<and> civil t = civil s \<and> hierarchy t = hierarchy s"
  using assms kept_put[OF assms(1,3)] by simp

lemma update_role_frame:
  assumes "update_role og a n s = Ok t"
  shows "persons_kept E s t \<and> civil t = civil s \<and> hierarchy t = hierarchy s"
  using assms unfolding update_role_def ok_simps Ok_eq
  by (elim exE conjE) (rule put_frame, assumption+, simp add: grow_defs)

lemma freeze_citizen_frame:
  assumes "freeze_citizen og a s = Ok t"
  shows "persons_kept status_edge s t \<and> civil t = civil s \<and> hierarchy t = hierarchy s"
  using assms unfolding freeze_citizen_def ok_simps Ok_eq
  by (elim exE conjE) (rule put_frame, assumption+, simp add: grow_defs status_edge_simps)

lemma unfreeze_citizen_frame:
  assumes "unfreeze_citizen og a s = Ok t"
  shows "persons_kept status_edge s t \<and> civil t = civil s \<and> hierarchy t = hierarchy s"
  using assms unfolding unfreeze_citizen_def ok_simps Ok_eq
  by (elim exE conjE) (rule put_frame, assumption+, simp add: grow_defs status_edge_simps)

lemma repatriation_frame:
  assumes "claim_repatriation cfg og a l h s = Ok t"
  shows "persons_kept E s t \<and> civil t = civil s \<and> hierarchy t = hierarchy s"
  using assms unfolding claim_repatriation_def ok_simps Ok_eq
  by (elim exE conjE) (rule put_frame, assumption+, simp add: grow_defs)

lemma birthright_frame:
  assumes "claim_birthright cfg og h s = Ok t"
  shows "persons_kept E s t \<and> civil t = civil s \<and> hierarchy t = hierarchy s"
  using assms unfolding claim_birthright_def ok_simps Ok_eq
  by (elim exE conjE) (rule put_frame, assumption+, simp add: grow_defs)

lemma register_death_frame:
  assumes "register_death cfg og a h s = Ok t"
  shows "persons_kept status_edge s t \<and> civil t = civil s \<and> hierarchy t = hierarchy s"
proof -
  obtain r where r: "citizens s a = Some r" "status r \<noteq> Deceased"
    and t: "citizens t = (citizens s)(a \<mapsto> r\<lparr>status := Deceased, role := Regular, term_end := None, branch := None\<rparr>)"
      "registry t = registry s" "civil t = civil s" "hierarchy t = hierarchy s"
    using assms unfolding register_death_def Let_def ok_simps Ok_eq by (elim exE conjE) simp
  have "grows status_edge r (r\<lparr>status := Deceased, role := Regular, term_end := None, branch := None\<rparr>)"
    using r by (simp add: grow_defs status_edge_simps)
  with r t show ?thesis using kept_put by blast
qed

lemma assign_guardian_frame:
  assumes "assign_guardian cfg og m g s = Ok t"
  shows "persons_kept E s t \<and> civil t = civil s \<and> hierarchy t = hierarchy s"
  using assms unfolding assign_guardian_def ok_simps Ok_eq
  by (elim exE conjE) (simp add: kept_same registry_def civil_def hierarchy_def)

section \<open>Marriages and nicknames\<close>

lemma marriage_Ok:
  assumes "register_marriage cfg og b n s = Ok t"
  obtains a x where "og = Signed a" "a \<noteq> b" "marriages s a = None" "marriages s b = None"
    "marriages t = (marriages s)(a \<mapsto> b, b \<mapsto> a)" "nickname_of t = nickname_of s"
    "account_by_nickname t = account_by_nickname s" "citizens t = citizens s" "registry t = registry s"
    "hierarchy t = hierarchy s"
    "transfer (id_currency cfg) (world s) a (civil_fee_treasury cfg) (marriage_fee cfg) KeepAlive = Ok x"
    "transfer (id_currency cfg) x b (civil_fee_treasury cfg) (marriage_fee cfg) KeepAlive = Ok (world t)"
  using assms unfolding register_marriage_def Let_def ok_simps Ok_eq
  by (elim exE conjE) (rule that, simp_all add: registry_def hierarchy_def)

lemma divorce_Ok:
  assumes "register_divorce og s = Ok t"
  obtains a b where "og = Signed a" "marriages s a = Some b" "marriages t = (marriages s)(a := None, b := None)"
    "nickname_of t = nickname_of s" "account_by_nickname t = account_by_nickname s" "citizens t = citizens s"
    "registry t = registry s" "hierarchy t = hierarchy s"
  using assms unfolding register_divorce_def ok_simps Ok_eq
  by (elim exE conjE) (rule that, simp_all add: registry_def hierarchy_def)

lemma nickname_Ok:
  assumes "register_nickname og n s = Ok t"
  obtains a where "og = Signed a" "nickname_of s a = None" "account_by_nickname s n = None"
    "nickname_of t = (nickname_of s)(a \<mapsto> n)" "account_by_nickname t = (account_by_nickname s)(n \<mapsto> a)"
    "marriages t = marriages s" "citizens t = citizens s" "registry t = registry s" "hierarchy t = hierarchy s"
    "length n \<ge> 3" "\<forall>b\<in>set n. nickname_byte b"
  using assms unfolding register_nickname_def ok_simps Ok_eq
  by (elim exE conjE) (rule that, simp_all add: registry_def hierarchy_def)

lemma clear_nickname_Ok:
  assumes "clear_nickname og s = Ok t"
  obtains a n where "og = Signed a" "nickname_of s a = Some n"
    "nickname_of t = (nickname_of s)(a := None)" "account_by_nickname t = (account_by_nickname s)(n := None)"
    "marriages t = marriages s" "citizens t = citizens s" "registry t = registry s" "hierarchy t = hierarchy s"
  using assms unfolding clear_nickname_def ok_simps Ok_eq
  by (elim exE conjE) (rule that, simp_all add: registry_def hierarchy_def)

section \<open>The bridge operations\<close>

text \<open>What they add to the edges of the extrinsics.\<close>

inductive bridge_edge :: "citizen_status \<Rightarrow> citizen_status \<Rightarrow> bool" where
  "status_edge x y \<Longrightarrow> bridge_edge x y"
| "bridge_edge x Frozen"
| "x \<noteq> Deceased \<Longrightarrow> bridge_edge x Active"
| "x \<noteq> Deceased \<Longrightarrow> x \<noteq> Exiled \<Longrightarrow> bridge_edge x Exiled"

lemma do_freeze_frame:
  assumes "do_freeze_citizen a s = Ok t"
  shows "persons_kept bridge_edge s t \<and> civil t = civil s \<and> hierarchy t = hierarchy s"
  using assms unfolding do_freeze_citizen_def ok_simps Ok_eq
  by (elim exE conjE) (rule put_frame, assumption+, simp add: grow_defs bridge_edge.intros)

lemma do_unfreeze_frame:
  assumes "do_unfreeze_citizen a s = Ok t"
  shows "persons_kept bridge_edge s t \<and> civil t = civil s \<and> hierarchy t = hierarchy s"
  using assms unfolding do_unfreeze_citizen_def ok_simps Ok_eq
  by (elim exE conjE) (rule put_frame, assumption+, simp add: grow_defs bridge_edge.intros)

lemma do_demote_frame:
  assumes "do_demote_to_regular a s = Ok t"
  shows "persons_kept E s t \<and> civil t = civil s \<and> hierarchy t = hierarchy s"
proof -
  obtain r where "citizens s a = Some r" "t = put_citizen a (r\<lparr>role := Regular, term_end := None\<rparr>) s"
    using assms unfolding do_demote_to_regular_def ok_simps Ok_eq by blast
  moreover have "grows E r (r\<lparr>role := Regular, term_end := None\<rparr>)" by (simp add: grow_defs)
  ultimately show ?thesis using kept_put by fastforce
qed

lemma do_exile_frame:
  assumes "do_exile cfg a s = Ok t"
  shows "persons_kept bridge_edge s t \<and> civil t = civil s \<and> hierarchy t = hierarchy s"
proof -
  obtain r where r: "citizens s a = Some r" "status r \<noteq> Exiled" "status r \<noteq> Deceased"
    and t: "citizens t = (citizens s)(a \<mapsto> r\<lparr>status := Exiled, role := Regular, term_end := None\<rparr>)"
      "registry t = registry s" "civil t = civil s" "hierarchy t = hierarchy s"
    using assms unfolding do_exile_def Let_def ok_simps Ok_eq by (elim exE conjE) simp
  have "grows bridge_edge r (r\<lparr>status := Exiled, role := Regular, term_end := None\<rparr>)"
    using r by (simp add: grow_defs bridge_edge.intros)
  with r t show ?thesis using kept_put by blast
qed

end
