(* ===== verification/Identity_Pyramid.thy ===== *)
theory Identity_Pyramid
  imports Identity_Steps
begin

text \<open>
  The hierarchy of units: what each forming call stores, and the invariant of the pyramid. A Zun is ten Arbads, a
  Myangad ten Zuns, a Tumed ten Myangads, a Khural up to a hundred Legislative Tumeds, each level of one nation.
\<close>

section \<open>What the calls store\<close>

lemma add_arbad_hierarchy:
  "hierarchy (add_arbad r s) = (hierarchy s)\<lparr>t_arbads := (arbads s)(next_arbad_id s \<mapsto> r),
     t_arbad_by := (arbad_by_leader s)(arbad_leader r \<mapsto> next_arbad_id s), t_next_arbad := sat_add 32 (next_arbad_id s) 1\<rparr>"
  "registry (add_arbad r s) = registry s" "civil (add_arbad r s) = civil s"
  by (simp_all add: add_arbad_def hierarchy_def registry_def civil_def Let_def)

text \<open>The step of a call that founds a new Arbad.\<close>

definition founds_arbad :: "'x identity_state \<Rightarrow> 'x identity_state \<Rightarrow> arbad_record \<Rightarrow> bool" where
  "founds_arbad s t r \<longleftrightarrow> hierarchy t = (hierarchy s)\<lparr>t_arbads := (arbads s)(next_arbad_id s \<mapsto> r),
     t_arbad_by := (arbad_by_leader s)(arbad_leader r \<mapsto> next_arbad_id s), t_next_arbad := sat_add 32 (next_arbad_id s) 1\<rparr>"

lemma form_arbad_Ok:
  assumes "form_arbad cfg env og ms s = Ok t"
  obtains a r where "og = Signed a" "citizens s a = Some r" "distinct (a # ms)" "ms \<noteq> []" "length ms \<le> 9"
    "\<forall>m\<in>set ms. check_arbad_member cfg env (nation_id r) s m = Ok ()"
    "founds_arbad s t \<lparr>arbad_leader = a, arbad_members = ms, arbad_nation = nation_id r, marriage_credential_hash = None\<rparr>"
    "persons_kept E s t" "civil t = civil s"
proof -
  obtain a r where *: "og = Signed a" "citizens s a = Some r" "distinct (a # ms)" "ms \<noteq> []" "length ms \<le> 9"
    "\<forall>m\<in>set ms. check_arbad_member cfg env (nation_id r) s m = Ok ()"
    and t: "t = (let s2 = emit_id (VestingAdvanced a VArbadMember) (fold advance_member ms
                  (modify_citizen a (promote_arbad_leader env) s))
       in emit_id (ArbadFormed (next_arbad_id s2) RegularArbad a (nation_id r))
          (add_arbad \<lparr>arbad_leader = a, arbad_members = ms, arbad_nation = nation_id r,
                      marriage_credential_hash = None\<rparr> s2))"
    using assms unfolding form_arbad_def Let_def ok_simps Ok_eq by (elim exE conjE) (rule that; simp)
  let ?s1 = "modify_citizen a (promote_arbad_leader env) s"
  have "carried (\<lambda>_ _. False) s ?s1" by (rule carried_modify[OF promote_arbad_leader_grows])
  then have "carried E s (fold advance_member ms ?s1)" by (rule carried_trans[OF _ carried_members])
  then have "persons_kept E s t" by (simp add: t Let_def persons_kept_def carried_def add_arbad_hierarchy)
  then show ?thesis
    using * by (intro that[of a r]) (simp_all add: t Let_def founds_arbad_def add_arbad_hierarchy)
qed

lemma form_family_arbad_Ok:
  assumes "form_family_arbad env og p h c s = Ok t"
  obtains a l n r where "og = Signed a" "citizens s a = Some r" "a \<noteq> p" "{l, n} = {a, p}"
    "founds_arbad s t \<lparr>arbad_leader = l, arbad_members = [n], arbad_nation = nation_id r, marriage_credential_hash = c\<rparr>"
    "persons_kept E s t" "civil t = civil s"
proof -
  obtain a r l n where *: "og = Signed a" "citizens s a = Some r" "a \<noteq> p"
      "l = (if h = a then a else p)" "n = (if h = a then p else a)"
    and t: "t = (let s1 = modify_citizen l (promote_arbad_leader env) s;
         s2 = modify_citizen n (advance_vesting VArbadMember) s1;
         s3 = add_arbad \<lparr>arbad_leader = l, arbad_members = [n], arbad_nation = nation_id r,
                         marriage_credential_hash = c\<rparr> s2
      in emit_id (ArbadFormed (next_arbad_id s2) Family l (nation_id r))
          (emit_id (VestingAdvanced n VArbadMember)
            (emit_id (VestingAdvanced l VArbadMember) s3)))"
    using assms unfolding form_family_arbad_def Let_def ok_simps Ok_eq by (elim exE conjE) (rule that; simp)
  let ?s1 = "modify_citizen l (promote_arbad_leader env) s"
  let ?s2 = "modify_citizen n (advance_vesting VArbadMember) ?s1"
  have "carried (\<lambda>_ _. False) s ?s1" by (rule carried_modify[OF promote_arbad_leader_grows])
  then have "carried E s ?s2" by (rule carried_trans[OF _ carried_modify[OF advance_vesting_grows]])
  then have "persons_kept E s t" by (simp add: t Let_def persons_kept_def carried_def add_arbad_hierarchy)
  then show ?thesis
    using *(1-3) *(4,5)
    by (intro that[of a r l n]) (auto simp: t Let_def founds_arbad_def add_arbad_hierarchy)
qed

lemma leave_arbad_Ok:
  assumes "leave_arbad env og i s = Ok t"
  obtains a r ms where "og = Signed a" "arbads s i = Some r"
    "hierarchy t = (hierarchy s)\<lparr>t_arbads := (arbads s)(i \<mapsto> r\<lparr>arbad_members := ms\<rparr>)\<rparr>"
    "persons_kept E s t" "civil t = civil s"
  using assms unfolding leave_arbad_def ok_simps Ok_eq
  by (elim exE conjE) (rule that, assumption+, simp_all add: hierarchy_def registry_def civil_def kept_same)

lemma check_units_Ok [simp]:
  "check_arbad_unit n s i = Ok () \<longleftrightarrow> (\<exists>a. arbads s i = Some a \<and> arbad_nation a = n)"
  "check_zun_unit n s i = Ok () \<longleftrightarrow> (\<exists>z. zuns s i = Some z \<and> zun_nation z = n)"
  "check_myangad_unit n b s i = Ok () \<longleftrightarrow> (\<exists>m. myangads s i = Some m \<and> myangad_nation m = n \<and> myangad_branch m = b)"
  "check_tumed_unit n s i = Ok () \<longleftrightarrow> (\<exists>u. tumeds s i = Some u \<and> tumed_branch u = Legislative \<and> tumed_nation u = n)"
  "check_khural_unit s i = Ok () \<longleftrightarrow> khurals s i \<noteq> None"
  by (auto simp: check_arbad_unit_def check_zun_unit_def check_myangad_unit_def check_tumed_unit_def
      check_khural_unit_def ok_simps)

lemma form_zun_Ok:
  assumes "form_zun env og us s = Ok t"
  obtains a k r where "og = Signed a" "arbad_by_leader s a = Some k" "arbads s k = Some r" "length us = 9"
    "distinct (k # us)" "\<forall>i\<in>set us. \<exists>b. arbads s i = Some b \<and> arbad_nation b = arbad_nation r"
    "hierarchy t = (hierarchy s)\<lparr>
       t_zuns := (zuns s)(next_zun_id s \<mapsto> \<lparr>zun_leader = a, zun_arbads = k # us, zun_nation = arbad_nation r\<rparr>),
       t_zun_by := (zun_by_leader s)(a \<mapsto> next_zun_id s), t_next_zun := sat_add 32 (next_zun_id s) 1\<rparr>"
    "persons_kept E s t" "civil t = civil s"
proof -
  obtain a k r c where *: "og = Signed a" "citizens s a = Some c" "arbad_by_leader s a = Some k" "arbads s k = Some r"
      "length us = 9" "distinct us" "set us \<inter> set [k] = {}" "\<forall>i\<in>set us. \<exists>b. arbads s i = Some b \<and> arbad_nation b = arbad_nation r"
    and t: "t = (let s2 = emit_id (VestingAdvanced a VZunMember) (modify_citizen a
                (\<lambda>r. advance_vesting VZunMember (r\<lparr>role := ZunLeader, term_end := mandate env TWO_YEAR_TERM\<rparr>)) s)
       in emit_id (ZunFormed (next_zun_id s2) a (arbad_nation r))
          (s2\<lparr>zuns := (zuns s2)(next_zun_id s2 \<mapsto> \<lparr>zun_leader = a, zun_arbads = k # us, zun_nation = arbad_nation r\<rparr>),
              zun_by_leader := (zun_by_leader s2)(a \<mapsto> next_zun_id s2), next_zun_id := sat_add 32 (next_zun_id s2) 1\<rparr>))"
    using assms unfolding form_zun_def Let_def ok_simps Ok_eq check_units_Ok
    by (elim exE conjE) (rule that, assumption+, simp_all (no_asm_simp))
  let ?f = "\<lambda>x. advance_vesting VZunMember (x\<lparr>role := ZunLeader, term_end := mandate env TWO_YEAR_TERM\<rparr>)"
  have "grows E x (?f x)" for x
    by (rule grows_trans[OF _ advance_vesting_grows]) (simp add: grow_defs)
  then have "persons_kept E s t"
    by (rule kept_modify[where a = a]) (simp_all add: t Let_def registry_def)
  then show ?thesis
    using *(1,3-) by (intro that[of a k r]) (simp_all add: t Let_def hierarchy_def civil_def)
qed

lemma form_myangad_Ok:
  assumes "form_myangad env og br us s = Ok t"
  obtains a k r where "og = Signed a" "zun_by_leader s a = Some k" "zuns s k = Some r" "length us = 9"
    "distinct (k # us)" "\<forall>i\<in>set us. \<exists>b. zuns s i = Some b \<and> zun_nation b = zun_nation r"
    "hierarchy t = (hierarchy s)\<lparr>
       t_myangads := (myangads s)(next_myangad_id s \<mapsto> \<lparr>myangad_leader = a, myangad_zuns = k # us, myangad_branch = br,
                                                      myangad_nation = zun_nation r\<rparr>),
       t_myangad_by := (myangad_by_leader s)(a \<mapsto> next_myangad_id s), t_next_myangad := sat_add 32 (next_myangad_id s) 1\<rparr>"
    "persons_kept E s t" "civil t = civil s"
proof -
  obtain a k r c where *: "og = Signed a" "citizens s a = Some c" "zun_by_leader s a = Some k" "zuns s k = Some r"
      "length us = 9" "distinct us" "set us \<inter> set [k] = {}"
      "\<forall>i\<in>set us. \<exists>b. zuns s i = Some b \<and> zun_nation b = zun_nation r"
    and t: "t = (let s1 = modify_citizen a
                (\<lambda>x. x\<lparr>role := MyangadLeader, branch := Some br, term_end := mandate env TWO_YEAR_TERM\<rparr>) s
       in emit_id (MyangadFormed (next_myangad_id s1) a (zun_nation r) br)
          (s1\<lparr>myangads := (myangads s1)(next_myangad_id s1 \<mapsto> \<lparr>myangad_leader = a, myangad_zuns = k # us,
                 myangad_branch = br, myangad_nation = zun_nation r\<rparr>),
              myangad_by_leader := (myangad_by_leader s1)(a \<mapsto> next_myangad_id s1),
              next_myangad_id := sat_add 32 (next_myangad_id s1) 1\<rparr>))"
    using assms unfolding form_myangad_def Let_def ok_simps Ok_eq check_units_Ok by (elim exE conjE) (rule that, assumption+, simp_all (no_asm_simp))
  let ?f = "\<lambda>x. x\<lparr>role := MyangadLeader, branch := Some br, term_end := mandate env TWO_YEAR_TERM\<rparr>"
  have "grows E x (?f x)" for x by (simp add: grow_defs)
  then have "persons_kept E s t"
    by (rule kept_modify[where a = a]) (simp_all add: t Let_def registry_def)
  then show ?thesis
    using *(1,3-) by (intro that[of a k r]) (simp_all add: t Let_def hierarchy_def civil_def)
qed

lemma form_tumed_Ok:
  assumes "form_tumed env og us s = Ok t"
  obtains a k r where "og = Signed a" "myangad_by_leader s a = Some k" "myangads s k = Some r" "length us = 9"
    "distinct (k # us)"
    "\<forall>i\<in>set us. \<exists>b. myangads s i = Some b \<and> myangad_nation b = myangad_nation r \<and> myangad_branch b = myangad_branch r"
    "hierarchy t = (hierarchy s)\<lparr>
       t_tumeds := (tumeds s)(next_tumed_id s \<mapsto> \<lparr>tumed_leader = a, tumed_myangads = k # us, tumed_branch = myangad_branch r,
                                                tumed_nation = myangad_nation r\<rparr>),
       t_tumed_by := (tumed_by_leader s)(a \<mapsto> next_tumed_id s), t_next_tumed := sat_add 32 (next_tumed_id s) 1\<rparr>"
    "persons_kept E s t" "civil t = civil s"
proof -
  obtain a k r c where *: "og = Signed a" "citizens s a = Some c" "myangad_by_leader s a = Some k" "myangads s k = Some r"
      "length us = 9" "distinct us" "set us \<inter> set [k] = {}"
      "\<forall>i\<in>set us. \<exists>b. myangads s i = Some b \<and> myangad_nation b = myangad_nation r \<and> myangad_branch b = myangad_branch r"
    and t: "t = (let s1 = modify_citizen a
                (\<lambda>x. x\<lparr>role := TumedLeader, branch := Some (myangad_branch r), term_end := mandate env TWO_YEAR_TERM\<rparr>) s
       in emit_id (TumedFormed (next_tumed_id s1) a (myangad_nation r) (myangad_branch r))
          (s1\<lparr>tumeds := (tumeds s1)(next_tumed_id s1 \<mapsto> \<lparr>tumed_leader = a, tumed_myangads = k # us,
                 tumed_branch = myangad_branch r, tumed_nation = myangad_nation r\<rparr>),
              tumed_by_leader := (tumed_by_leader s1)(a \<mapsto> next_tumed_id s1),
              next_tumed_id := sat_add 32 (next_tumed_id s1) 1\<rparr>))"
    using assms unfolding form_tumed_def Let_def ok_simps Ok_eq check_units_Ok
    by (elim exE conjE) (rule that, assumption+, simp_all (no_asm_simp))
  let ?f = "\<lambda>x. x\<lparr>role := TumedLeader, branch := Some (myangad_branch r), term_end := mandate env TWO_YEAR_TERM\<rparr>"
  have "grows E x (?f x)" for x by (simp add: grow_defs)
  then have "persons_kept E s t"
    by (rule kept_modify[where a = a]) (simp_all add: t Let_def registry_def)
  then show ?thesis
    using *(1,3-) by (intro that[of a k r]) (simp_all add: t Let_def hierarchy_def civil_def)
qed

lemma form_khural_Ok:
  assumes "form_khural env og us s = Ok t"
  obtains a and f :: tumed_record and r where "og = Signed a" "citizens s a = Some r" "status r = Active"
    "role r = TumedLeader" "khural_terms_served r < 2" "us \<noteq> []" "length us \<le> 100" "distinct us"
    "\<forall>i\<in>set us. \<exists>u. tumeds s i = Some u \<and> tumed_branch u = Legislative \<and> tumed_nation u = tumed_nation f"
    "hierarchy t = (hierarchy s)\<lparr>
       t_khurals := (khurals s)(next_khural_id s \<mapsto> \<lparr>khural_leader = a, khural_tumeds = us, khural_nation = tumed_nation f\<rparr>),
       t_next_khural := sat_add 32 (next_khural_id s) 1\<rparr>"
    "persons_kept E s t" "civil t = civil s"
proof -
  obtain a f r where *: "og = Signed a" "citizens s a = Some r" "status r = Active" "role r = TumedLeader"
    "us \<noteq> []" "tumeds s (hd us) = Some f" "khural_terms_served r < 2" "length us \<le> 100" "distinct us"
    "\<forall>i\<in>set us. \<exists>u. tumeds s i = Some u \<and> tumed_branch u = Legislative \<and> tumed_nation u = tumed_nation f"
    and t: "t = (let s1 = put_citizen a (serve_term env KhuralDelegate r) s; i = next_khural_id s1 in
       emit_id (KhuralFormed i a (tumed_nation f) (length us))
       (s1\<lparr>khurals := (khurals s1)(i \<mapsto> \<lparr>khural_leader = a, khural_tumeds = us, khural_nation = tumed_nation f\<rparr>),
           khural_by_leader := (khural_by_leader s1)(a \<mapsto> i), next_khural_id := sat_add 32 i 1\<rparr>))"
    using assms unfolding form_khural_def Let_def ok_simps Ok_eq check_units_Ok
    by (elim exE conjE) (rule that, assumption+, simp_all (no_asm_simp) add: Let_def)
  have "persons_kept E s t"
    by (rule kept_put[OF *(2) serve_term_grows[OF *(7)]]) (simp_all add: t Let_def registry_def)
  then show ?thesis
    using *(1-5,7-) by (intro that[of a r f]) (simp_all add: t Let_def hierarchy_def civil_def)
qed

lemma form_confederation_Ok:
  assumes "form_confederation env og us s = Ok t"
  obtains a r where "og = Signed a" "citizens s a = Some r" "us \<noteq> []" "length us \<le> 86" "distinct us"
    "\<forall>i\<in>set us. khurals s i \<noteq> None"
    "hierarchy t = (hierarchy s)\<lparr>
       t_confederations := (confederations s)(next_confederation_id s \<mapsto>
          \<lparr>confederation_leader = a, confederation_khurals = us\<rparr>),
       t_next_confederation := sat_add 32 (next_confederation_id s) 1\<rparr>"
    "persons_kept E s t" "civil t = civil s"
proof -
  obtain a r where *: "og = Signed a" "citizens s a = Some r" "khural_terms_served r < 2" "us \<noteq> []" "length us \<le> 86"
    "distinct us" "\<forall>i\<in>set us. khurals s i \<noteq> None"
    and t: "t = (let s1 = put_citizen a (serve_term env ConfederationDelegate r) s; i = next_confederation_id s1 in
       emit_id (ConfederationFormed i a (length us))
       (s1\<lparr>confederations := (confederations s1)(i \<mapsto> \<lparr>confederation_leader = a, confederation_khurals = us\<rparr>),
           confederation_by_leader := (confederation_by_leader s1)(a \<mapsto> i),
           next_confederation_id := sat_add 32 i 1\<rparr>))"
    using assms unfolding form_confederation_def Let_def ok_simps Ok_eq check_units_Ok
    by (elim exE conjE) (rule that, assumption+, simp_all (no_asm_simp) add: Let_def)
  have "persons_kept E s t"
    by (rule kept_put[OF *(2) serve_term_grows[OF *(3)]]) (simp_all add: t Let_def registry_def)
  then show ?thesis
    using *(1,2,4-) by (intro that[of a r]) (simp_all add: t Let_def hierarchy_def civil_def)
qed

end
