(* ===== verification/Identity_Machine.thy ===== *)
theory Identity_Machine
  imports Identity_Pyramid
begin

text \<open>
  The identity pallet as a machine: its extrinsics and the operations other pallets call through the bridge, run from
  the empty storage while the ledger changes freely. Three invariants: the civil registry, the documents, the pyramid.
\<close>

section \<open>Operations\<close>

datatype identity_op =
    Extrinsic env origin identity_call
  | FreezeOp account
  | UnfreezeOp account
  | DemoteOp account
  | ExileOp account

fun identity_operate ::
  "'x identity_config \<Rightarrow> identity_op \<Rightarrow> 'x identity_state \<Rightarrow> ('x identity_state, identity_failure) result" where
  "identity_operate cfg (Extrinsic env og c) s = identity_dispatch cfg (env, og, c) s"
| "identity_operate cfg (FreezeOp a) s = do_freeze_citizen a s"
| "identity_operate cfg (UnfreezeOp a) s = do_unfreeze_citizen a s"
| "identity_operate cfg (DemoteOp a) s = do_demote_to_regular a s"
| "identity_operate cfg (ExileOp a) s = do_exile cfg a s"

definition ledger_moves :: "'x identity_state \<Rightarrow> 'x identity_state \<Rightarrow> bool" where
  "ledger_moves s t \<longleftrightarrow> (\<exists>x. t = s\<lparr>world := x\<rparr>)"

definition identity_start :: "'x \<Rightarrow> 'x identity_state" where
  "identity_start x = \<lparr>world = x, citizens = Map.empty, next_citizen_id = 0, used_document_hashes = (\<lambda>_. False),
     used_email_hashes = (\<lambda>_. False), arbads = Map.empty, next_arbad_id = 0, arbad_by_leader = Map.empty,
     zuns = Map.empty, next_zun_id = 0, zun_by_leader = Map.empty, myangads = Map.empty, next_myangad_id = 0,
     myangad_by_leader = Map.empty, tumeds = Map.empty, next_tumed_id = 0, tumed_by_leader = Map.empty,
     khurals = Map.empty, next_khural_id = 0, khural_by_leader = Map.empty, confederations = Map.empty,
     next_confederation_id = 0, confederation_by_leader = Map.empty, parental_links = Map.empty,
     used_birth_hashes = (\<lambda>_. False), death_records = Map.empty, guardian_of = Map.empty,
     last_arbad_leave = Map.empty, oracle_calls_this_block = (0, 0), nickname_of = Map.empty,
     account_by_nickname = Map.empty, marriages = Map.empty, identity_events = []\<rparr>"

abbreviation identity_reachable :: "'x identity_config \<Rightarrow> 'x \<Rightarrow> 'x identity_state \<Rightarrow> bool" where
  "identity_reachable cfg x \<equiv> reachable (identity_operate cfg) ledger_moves (identity_start x)"

section \<open>One step\<close>

lemma register_citizen_parts:
  "register_citizen og a n ro i re br p d bp e s = Ok t \<Longrightarrow> civil t = civil s \<and> hierarchy t = hierarchy s"
  unfolding register_citizen_def Let_def ok_simps Ok_eq
  by (elim exE conjE) (simp add: civil_def hierarchy_def)

lemma register_birth_parts:
  assumes "register_birth cfg env og a p q h g s = Ok t"
  shows "civil t = civil s \<and> hierarchy t = hierarchy s"
proof -
  obtain s1 where s1: "ensure_medical cfg og (Ok s) (check_and_increment_oracle_rate cfg env s) = Ok s1"
    using assms unfolding register_birth_def ok_simps by blast
  have "s1 = s \<or> s1 = s\<lparr>oracle_calls_this_block := oracle_calls_this_block s1\<rparr>"
    using s1 oracle_rate_frame unfolding ensure_medical_Ok by auto
  then have "civil s1 = civil s \<and> hierarchy s1 = hierarchy s"
  proof
    assume "s1 = s\<lparr>oracle_calls_this_block := oracle_calls_this_block s1\<rparr>"
    then obtain oc where "s1 = s\<lparr>oracle_calls_this_block := oc\<rparr>" by blast
    then show ?thesis by (simp add: civil_def hierarchy_def)
  qed simp
  moreover have "civil t = civil s1 \<and> hierarchy t = hierarchy s1"
    using assms unfolding register_birth_def s1 and_then_simps Let_def ok_simps Ok_eq
    by (elim exE conjE) (simp add: civil_def hierarchy_def)
  ultimately show ?thesis by simp
qed

text \<open>The calls sorted by the part of the storage they work on.\<close>

fun about_units :: "identity_op \<Rightarrow> bool" where
  "about_units (Extrinsic _ _ (FormArbad _)) = True"
| "about_units (Extrinsic _ _ (FormFamilyArbad _ _ _)) = True"
| "about_units (Extrinsic _ _ (LeaveArbad _)) = True"
| "about_units (Extrinsic _ _ (FormZun _)) = True"
| "about_units (Extrinsic _ _ (FormMyangad _ _)) = True"
| "about_units (Extrinsic _ _ (FormTumed _)) = True"
| "about_units (Extrinsic _ _ (FormKhural _)) = True"
| "about_units (Extrinsic _ _ (FormConfederation _)) = True"
| "about_units _ = False"

fun about_civil :: "identity_op \<Rightarrow> bool" where
  "about_civil (Extrinsic _ _ (RegisterMarriage _ _)) = True"
| "about_civil (Extrinsic _ _ RegisterDivorce) = True"
| "about_civil (Extrinsic _ _ (RegisterNickname _)) = True"
| "about_civil (Extrinsic _ _ ClearNickname) = True"
| "about_civil _ = False"

fun enrols :: "identity_op \<Rightarrow> bool" where
  "enrols (Extrinsic _ _ (RegisterCitizen _ _ _ _ _ _ _ _ _ _)) = True"
| "enrols (Extrinsic _ _ (RegisterBirth _ _ _ _ _)) = True"
| "enrols _ = False"

lemma bridge_mono: "persons_kept status_edge s t \<Longrightarrow> persons_kept bridge_edge s t"
  by (erule kept_mono) (rule bridge_edge.intros)

lemma step_hierarchy:
  assumes "identity_operate cfg op s = Ok t" "\<not> about_units op"
  shows "hierarchy t = hierarchy s"
proof (cases op)
  case (Extrinsic env og c)
  with assms show ?thesis
    by (cases c) (auto dest: register_citizen_parts register_birth_parts verify_citizen_frame bootstrap_frame
      update_role_frame freeze_citizen_frame unfreeze_citizen_frame register_death_frame assign_guardian_frame repatriation_frame
      birthright_frame elim: marriage_Ok divorce_Ok nickname_Ok clear_nickname_Ok)
qed (use assms in \<open>auto dest: do_freeze_frame do_unfreeze_frame do_demote_frame do_exile_frame\<close>)

lemma step_civil:
  assumes "identity_operate cfg op s = Ok t" "\<not> about_civil op"
  shows "civil t = civil s"
proof (cases op)
  case (Extrinsic env og c)
  with assms show ?thesis
    by (cases c) (auto dest: register_citizen_parts register_birth_parts verify_citizen_frame bootstrap_frame
      update_role_frame freeze_citizen_frame unfreeze_citizen_frame register_death_frame assign_guardian_frame repatriation_frame
      birthright_frame elim: form_arbad_Ok form_family_arbad_Ok leave_arbad_Ok form_zun_Ok form_myangad_Ok form_tumed_Ok
      form_khural_Ok form_confederation_Ok)
qed (use assms in \<open>auto dest: do_freeze_frame do_unfreeze_frame do_demote_frame do_exile_frame\<close>)

lemma extrinsic_persons:
  assumes "identity_dispatch cfg (env, og, c) s = Ok t" "\<not> enrols (Extrinsic env og c)"
  shows "persons_kept status_edge s t"
  using assms
  by (cases c) (auto dest: verify_citizen_frame bootstrap_frame
      update_role_frame freeze_citizen_frame unfreeze_citizen_frame register_death_frame assign_guardian_frame repatriation_frame
      birthright_frame elim: form_arbad_Ok form_family_arbad_Ok leave_arbad_Ok form_zun_Ok form_myangad_Ok form_tumed_Ok
      form_khural_Ok form_confederation_Ok marriage_Ok divorce_Ok nickname_Ok clear_nickname_Ok intro: kept_same)

lemma step_persons:
  assumes "identity_operate cfg op s = Ok t" "\<not> enrols op"
  shows "persons_kept bridge_edge s t"
proof (cases op)
  case (Extrinsic env og c)
  with assms show ?thesis by (auto intro: bridge_mono extrinsic_persons)
qed (use assms in \<open>auto dest: do_freeze_frame do_unfreeze_frame do_demote_frame do_exile_frame\<close>)

end
