(* ===== verification/Identity_Laws.thy ===== *)
theory Identity_Laws
  imports Identity_Machine
begin

text \<open>
  The invariants of the identity pallet over its machine: the civil registry, the documents, and the life of a citizen.
\<close>

section \<open>The civil registry\<close>

text \<open>Marriages are symmetric and between two; the two nickname tables are inverse to each other.\<close>

definition paired :: "('a \<Rightarrow> 'a option) \<Rightarrow> bool" where
  "paired m \<longleftrightarrow> (\<forall>a b. m a = Some b \<longrightarrow> a \<noteq> b \<and> m b = Some a)"

definition inverse_maps :: "('a \<Rightarrow> 'b option) \<Rightarrow> ('b \<Rightarrow> 'a option) \<Rightarrow> bool" where
  "inverse_maps f g \<longleftrightarrow> (\<forall>a b. f a = Some b \<longleftrightarrow> g b = Some a)"

lemma pairedD: "paired m \<Longrightarrow> m a = Some b \<Longrightarrow> a \<noteq> b \<and> m b = Some a"
  unfolding paired_def by blast

lemma paired_join:
  assumes p: "paired m" and "m a = None" "m b = None" "a \<noteq> b"
  shows "paired (m(a \<mapsto> b, b \<mapsto> a))"
  unfolding paired_def
proof (intro allI impI)
  fix c d
  assume cd: "(m(a \<mapsto> b, b \<mapsto> a)) c = Some d"
  show "c \<noteq> d \<and> (m(a \<mapsto> b, b \<mapsto> a)) d = Some c"
  proof (cases "c = a \<or> c = b")
    case True
    with cd assms(4) show ?thesis by (auto split: if_splits)
  next
    case False
    with cd have "m c = Some d" by simp
    with pairedD[OF p this] assms(2,3) show ?thesis by auto
  qed
qed

lemma paired_part:
  assumes p: "paired m" and ab: "m a = Some b"
  shows "paired (m(a := None, b := None))"
  unfolding paired_def
proof (intro allI impI)
  fix c d
  assume cd: "(m(a := None, b := None)) c = Some d"
  then have c: "c \<noteq> a" "c \<noteq> b" "m c = Some d" by (auto split: if_splits)
  have dc: "c \<noteq> d" "m d = Some c" using pairedD[OF p c(3)] by auto
  have "d \<noteq> a" using dc ab c by auto
  moreover have "d \<noteq> b" using dc c pairedD[OF p ab] by auto
  ultimately show "c \<noteq> d \<and> (m(a := None, b := None)) d = Some c" using dc by simp
qed

lemma inverse_join:
  assumes "inverse_maps f g" "f a = None" "g b = None"
  shows "inverse_maps (f(a \<mapsto> b)) (g(b \<mapsto> a))"
proof -
  have "f c \<noteq> Some b" for c using assms unfolding inverse_maps_def by (metis option.distinct(1))
  moreover have "g d \<noteq> Some a" for d using assms unfolding inverse_maps_def by (metis option.distinct(1))
  ultimately show ?thesis using assms(1) unfolding inverse_maps_def by auto
qed

lemma inverse_part:
  assumes "inverse_maps f g" "f a = Some b"
  shows "inverse_maps (f(a := None)) (g(b := None))"
proof -
  have gb: "g b = Some a" using assms unfolding inverse_maps_def by blast
  have "c = a" if "f c = Some b" for c using assms gb that unfolding inverse_maps_def by (metis option.inject)
  moreover have "d = b" if "g d = Some a" for d
    using assms that unfolding inverse_maps_def by (metis option.inject)
  ultimately show ?thesis using assms(1) unfolding inverse_maps_def by auto
qed

definition civil_ok :: "'x identity_state \<Rightarrow> bool" where
  "civil_ok s \<longleftrightarrow> paired (marriages s) \<and> inverse_maps (nickname_of s) (account_by_nickname s)"

lemma civil_ok_cong: "civil t = civil s \<Longrightarrow> civil_ok t \<longleftrightarrow> civil_ok s"
  by (simp add: civil_ok_def civil_def)

lemma civil_ok_marriage: "register_marriage cfg og b n s = Ok t \<Longrightarrow> civil_ok s \<Longrightarrow> civil_ok t"
  by (erule marriage_Ok) (simp add: civil_ok_def paired_join)

lemma civil_ok_divorce: "register_divorce og s = Ok t \<Longrightarrow> civil_ok s \<Longrightarrow> civil_ok t"
  by (erule divorce_Ok) (simp add: civil_ok_def paired_part)

lemma civil_ok_nickname: "register_nickname og n s = Ok t \<Longrightarrow> civil_ok s \<Longrightarrow> civil_ok t"
  by (erule nickname_Ok) (simp add: civil_ok_def inverse_join)

lemma civil_ok_clear: "clear_nickname og s = Ok t \<Longrightarrow> civil_ok s \<Longrightarrow> civil_ok t"
  by (erule clear_nickname_Ok) (simp add: civil_ok_def inverse_part)

lemma civil_ok_step:
  assumes "civil_ok s" "identity_operate cfg op s = Ok t"
  shows "civil_ok t"
proof (cases "about_civil op")
  case True
  then show ?thesis
    using assms
    by (cases op rule: about_civil.cases)
      (auto intro: civil_ok_marriage civil_ok_divorce civil_ok_nickname civil_ok_clear)
next
  case False
  then show ?thesis using assms step_civil civil_ok_cong by metis
qed

lemma ledger_moves_parts:
  "ledger_moves s t \<Longrightarrow> civil t = civil s \<and> hierarchy t = hierarchy s \<and> registry t = registry s \<and> citizens t = citizens s"
  by (auto simp: ledger_moves_def)

interpretation civil_registry: pallet_machine "identity_operate cfg" ledger_moves civil_ok for cfg
  by unfold_locales (use civil_ok_step ledger_moves_parts civil_ok_cong in blast)+

lemma civil_ok_start: "civil_ok (identity_start x)"
  by (simp add: civil_ok_def paired_def inverse_maps_def identity_start_def)

section \<open>Documents\<close>

text \<open>
  Citizens by registration (no parental link) have documents marked used and differ in document and email; citizens
  by birth differ in the birth hash. Records keep their ranges.
\<close>

definition natives :: "'x identity_state \<Rightarrow> account \<Rightarrow> bool" where
  "natives s a \<longleftrightarrow> parental_links s a \<noteq> None"

lemma carriedD: "carried E s t \<Longrightarrow> citizens s a = Some q \<Longrightarrow> citizens t a = Some r \<Longrightarrow> grows E q r"
  unfolding carried_def by (metis option.inject)

definition papers_ok :: "'x identity_state \<Rightarrow> bool" where
  "papers_ok s \<longleftrightarrow>
     (\<forall>a. natives s a \<longrightarrow> citizens s a \<noteq> None)
   \<and> (\<forall>a r. citizens s a = Some r \<longrightarrow> record_ok r)
   \<and> (\<forall>a r. citizens s a = Some r \<longrightarrow> \<not> natives s a \<longrightarrow> used_document_hashes s (document_hash r)
        \<and> used_email_hashes s (email_hash r))
   \<and> (\<forall>a r. citizens s a = Some r \<longrightarrow> natives s a \<longrightarrow> used_birth_hashes s (document_hash r))
   \<and> (\<forall>a b r q. citizens s a = Some r \<longrightarrow> citizens s b = Some q \<longrightarrow> a \<noteq> b \<longrightarrow> natives s a = natives s b \<longrightarrow>
        document_hash r \<noteq> document_hash q)
   \<and> (\<forall>a b r q. citizens s a = Some r \<longrightarrow> citizens s b = Some q \<longrightarrow> a \<noteq> b \<longrightarrow> \<not> natives s a \<longrightarrow> \<not> natives s b \<longrightarrow>
        email_hash r \<noteq> email_hash q)"

lemma papersD:
  assumes "papers_ok s"
  shows "natives s a \<Longrightarrow> citizens s a \<noteq> None"
    and "citizens s a = Some r \<Longrightarrow> record_ok r"
    and "citizens s a = Some r \<Longrightarrow> \<not> natives s a \<Longrightarrow> used_document_hashes s (document_hash r)"
    and "citizens s a = Some r \<Longrightarrow> \<not> natives s a \<Longrightarrow> used_email_hashes s (email_hash r)"
    and "citizens s a = Some r \<Longrightarrow> natives s a \<Longrightarrow> used_birth_hashes s (document_hash r)"
    and "citizens s a = Some r \<Longrightarrow> citizens s b = Some q \<Longrightarrow> a \<noteq> b \<Longrightarrow> natives s a = natives s b \<Longrightarrow>
      document_hash r \<noteq> document_hash q"
    and "citizens s a = Some r \<Longrightarrow> citizens s b = Some q \<Longrightarrow> a \<noteq> b \<Longrightarrow> \<not> natives s a \<Longrightarrow> \<not> natives s b \<Longrightarrow>
      email_hash r \<noteq> email_hash q"
  using assms unfolding papers_ok_def by blast+

lemma papers_kept:
  assumes ok: "papers_ok s" and kept: "persons_kept E s t"
  shows "papers_ok t"
proof -
  have reg: "used_document_hashes t = used_document_hashes s" "used_email_hashes t = used_email_hashes s"
    "used_birth_hashes t = used_birth_hashes s" "parental_links t = parental_links s"
    and doms: "dom (citizens t) = dom (citizens s)"
    using kept by (auto simp: persons_kept_def registry_def)
  have nat: "natives t a = natives s a" for a using reg by (simp add: natives_def)
  have earlier: "\<exists>q. citizens s a = Some q \<and> grows E q r" if "citizens t a = Some r" for a r
  proof -
    have "a \<in> dom (citizens s)" using doms that by auto
    then obtain q where q: "citizens s a = Some q" by blast
    moreover have "grows E q r" using kept carriedD[OF _ q that] by (simp add: persons_kept_def)
    ultimately show ?thesis by blast
  qed
  have same: "document_hash r = document_hash q" "email_hash r = email_hash q" "record_ok q \<Longrightarrow> record_ok r"
    if "grows E q r" for q r using that by (auto simp: grows_def same_person_def)
  note old = papersD[OF ok]
  show ?thesis
    unfolding papers_ok_def nat reg
  proof (intro conjI allI impI)
    fix a assume "natives s a"
    then have "a \<in> dom (citizens s)" using old(1) by blast
    with doms show "citizens t a \<noteq> None" by blast
  next
    fix a r assume "citizens t a = Some r"
    then obtain q where "citizens s a = Some q" "grows E q r" using earlier by blast
    with old(2) same show "record_ok r" by blast
  next
    fix a r assume "citizens t a = Some r" "\<not> natives s a"
    then obtain q where "citizens s a = Some q" "grows E q r" using earlier by blast
    with old(3) same(1) \<open>\<not> natives s a\<close> show "used_document_hashes s (document_hash r)" by simp
  next
    fix a r assume "citizens t a = Some r" "\<not> natives s a"
    then obtain q where "citizens s a = Some q" "grows E q r" using earlier by blast
    with old(4) same(2) \<open>\<not> natives s a\<close> show "used_email_hashes s (email_hash r)" by simp
  next
    fix a r assume "citizens t a = Some r" "natives s a"
    then obtain q where "citizens s a = Some q" "grows E q r" using earlier by blast
    with old(5) same(1) \<open>natives s a\<close> show "used_birth_hashes s (document_hash r)" by simp
  next
    fix a b r q
    assume *: "citizens t a = Some r" "citizens t b = Some q" "a \<noteq> b" "natives s a = natives s b"
    obtain r' q' where "citizens s a = Some r'" "grows E r' r" "citizens s b = Some q'" "grows E q' q"
      using earlier *(1,2) by blast
    with old(6) *(3,4) same(1) show "document_hash r \<noteq> document_hash q" by force
  next
    fix a b r q
    assume *: "citizens t a = Some r" "citizens t b = Some q" "a \<noteq> b" "\<not> natives s a" "\<not> natives s b"
    obtain r' q' where "citizens s a = Some r'" "grows E r' r" "citizens s b = Some q'" "grows E q' q"
      using earlier *(1,2) by blast
    with old(7) *(3-5) same(2) show "email_hash r \<noteq> email_hash q" by force
  qed
qed

lemma papers_register:
  assumes ok: "papers_ok s" and "register_citizen og a n ro i re br p d bp e s = Ok t"
  shows "papers_ok t"
  using assms(2)
proof (cases rule: register_citizen_Ok)
  case (1 cid)
  let ?r = "fresh_citizen cid n ro i re br p d bp e"
  have c: "citizens s a = None" "citizens t = (citizens s)(a \<mapsto> ?r)" using 1 by (auto simp: joins_def)
  have nat: "natives t = natives s" using 1 by (simp add: natives_def fun_eq_iff)
  have na: "\<not> natives s a" using c papersD(1)[OF ok] by blast
  have birth: "used_birth_hashes t = used_birth_hashes s"
    using assms(2) unfolding register_citizen_def Let_def ok_simps Ok_eq by (elim exE conjE) simp
  have "record_ok ?r" using 1 by simp
  then show ?thesis
    unfolding papers_ok_def nat birth c(2) 1(7,8)
    using papersD[OF ok] na 1(5,6) by (auto split: if_splits)
qed

lemma papers_birth:
  assumes ok: "papers_ok s" and "register_birth cfg env og a p q h g s = Ok t"
  shows "papers_ok t"
  using assms(2)
proof (cases rule: register_birth_Ok)
  case (1 pr)
  let ?r = "newborn (next_citizen_id s) (nation_id pr) g h"
  have c: "citizens s a = None" "citizens t = (citizens s)(a \<mapsto> ?r)" using 1 by (auto simp: joins_def)
  have nat: "natives t b \<longleftrightarrow> b = a \<or> natives s b" for b using 1 by (simp add: natives_def)
  have "record_ok pr" using papersD(2)[OF ok 1(1)] .
  then have "record_ok ?r" unfolding newborn_sel by (simp add: record_ok_def)
  then show ?thesis
    unfolding papers_ok_def nat c(2) 1(5,6,9)
    using papersD[OF ok] 1(4) c(1) by (auto split: if_splits)
qed

lemma papers_step:
  assumes "papers_ok s" "identity_operate cfg op s = Ok t"
  shows "papers_ok t"
proof (cases "enrols op")
  case True
  then show ?thesis
    using assms by (cases op rule: enrols.cases) (auto intro: papers_register papers_birth)
next
  case False
  show ?thesis by (rule papers_kept[OF assms(1) step_persons[OF assms(2) False]])
qed

lemma papers_ledger:
  assumes "papers_ok s" "ledger_moves s t"
  shows "papers_ok t"
proof -
  have "persons_kept (\<lambda>_ _. False) s t" by (intro kept_same) (use ledger_moves_parts[OF assms(2)] in auto)
  with assms(1) show ?thesis by (rule papers_kept)
qed

interpretation papers: pallet_machine "identity_operate cfg" ledger_moves papers_ok for cfg
  by unfold_locales (auto intro: papers_step papers_ledger)

lemma papers_ok_start: "papers_ok (identity_start x)"
  by (simp add: papers_ok_def identity_start_def natives_def)

section \<open>The life of a citizen\<close>

definition status_of :: "'x identity_state \<Rightarrow> account \<Rightarrow> citizen_status option" where
  "status_of s a = map_option status (citizens s a)"

text \<open>What a citizen of a status can become by extrinsics alone.\<close>

definition outcomes :: "citizen_status \<Rightarrow> citizen_status set" where
  "outcomes x = (case x of Active \<Rightarrow> {Active, Frozen, Deceased} | Frozen \<Rightarrow> {Active, Frozen, Deceased}
     | Minor \<Rightarrow> {Minor, Deceased} | Exiled \<Rightarrow> {Exiled, Deceased} | Deceased \<Rightarrow> {Deceased})"

abbreviation identity_step :: "'x identity_config \<Rightarrow> 'x identity_state \<Rightarrow> 'x identity_state \<Rightarrow> bool" where
  "identity_step cfg \<equiv> machine_step (identity_dispatch cfg) ledger_moves"

lemma carried_status:
  assumes "carried E s t" "status_of s a = Some x" "status_of t a \<noteq> Some x"
  shows "\<exists>y. status_of t a = Some y \<and> E x y"
  using assms by (fastforce simp: carried_def status_of_def grows_def)

lemma enrols_carried:
  assumes "identity_dispatch cfg (env, og, c) s = Ok t" "enrols (Extrinsic env og c)"
  shows "carried E s t"
  using assms
  by (cases c) (auto elim!: register_citizen_Ok register_birth_Ok simp: joins_def intro: carried_new)

lemma identity_step_carried:
  assumes "identity_step cfg s t"
  shows "carried status_edge s t"
  using assms unfolding machine_step_def
proof
  assume "\<exists>c. identity_dispatch cfg c s = Ok t"
  then obtain env og c where d: "identity_dispatch cfg (env, og, c) s = Ok t" by (metis prod_cases3)
  then show ?thesis
    using enrols_carried[OF d] extrinsic_persons[OF d] unfolding persons_kept_def by blast
next
  assume "ledger_moves s t"
  then show ?thesis using ledger_moves_parts by (blast intro: carried_same)
qed

interpretation life: lifecycle status_of status_edge "identity_step cfg" for cfg
  by unfold_locales (rule carried_status[OF identity_step_carried])

text \<open>Other pallets act through the bridge operations too. All operations together keep everybody on record; an
  operation that is no freezing, unfreezing or exiling of \<open>a\<close> by another pallet moves \<open>a\<close>'s status as the
  extrinsics do.\<close>

lemma operate_carried:
  assumes "identity_operate cfg op s = Ok t"
  shows "carried bridge_edge s t"
proof (cases "enrols op")
  case True
  then obtain env og c where op: "op = Extrinsic env og c" by (cases op) auto
  with assms True show ?thesis using enrols_carried[of cfg env og c s t] by simp
next
  case False
  with step_persons[OF assms] show ?thesis by (simp add: persons_kept_def)
qed

lemma moves_carried:
  assumes "machine_step (identity_operate cfg) ledger_moves s t"
  shows "carried bridge_edge s t"
  using assms operate_carried ledger_moves_parts unfolding machine_step_def by (blast intro: carried_same)

fun bridges_to :: "account \<Rightarrow> identity_op \<Rightarrow> bool" where
  "bridges_to a (Extrinsic env og c) = False"
| "bridges_to a (FreezeOp b) = (b = a)"
| "bridges_to a (UnfreezeOp b) = (b = a)"
| "bridges_to a (DemoteOp b) = False"
| "bridges_to a (ExileOp b) = (b = a)"

definition spares :: "'x identity_config \<Rightarrow> account \<Rightarrow> 'x identity_state \<Rightarrow> 'x identity_state \<Rightarrow> bool" where
  "spares cfg a s t \<longleftrightarrow> (\<exists>op. identity_operate cfg op s = Ok t \<and> \<not> bridges_to a op) \<or> ledger_moves s t"

lemma spares_grows:
  assumes "spares cfg a s t" "citizens s a = Some r"
  obtains r' where "citizens t a = Some r'" "grows status_edge r r'"
proof -
  have carried: "\<exists>r'. citizens t a = Some r' \<and> grows status_edge r r'" if "carried status_edge s t"
    using that assms(2) unfolding carried_def by blast
  from assms(1) consider (op) op where "identity_operate cfg op s = Ok t" "\<not> bridges_to a op" | (moves) "ledger_moves s t"
    unfolding spares_def by blast
  then have "\<exists>r'. citizens t a = Some r' \<and> grows status_edge r r'"
  proof cases
    case op
    show ?thesis
    proof (cases op)
      case (Extrinsic env og c)
      with op(1) have "identity_step cfg s t" unfolding machine_step_def by auto
      from carried[OF identity_step_carried[OF this]] show ?thesis .
    next
      case (DemoteOp b)
      with op(1) obtain q where q: "citizens s b = Some q"
        "t = put_citizen b (q\<lparr>role := Regular, term_end := None\<rparr>) s"
        by (auto simp: do_demote_to_regular_def ok_simps)
      then show ?thesis using assms(2) by (cases "a = b") (auto simp: grows_def same_person_def record_ok_def)
    qed (use op assms(2) in \<open>auto simp: do_freeze_citizen_def do_unfreeze_citizen_def do_exile_def Let_def ok_simps\<close>)
  next
    case moves
    with assms(1) have "identity_step cfg s t" unfolding machine_step_def by blast
    from carried[OF identity_step_carried[OF this]] show ?thesis .
  qed
  with that show thesis by blast
qed

lemma edges_outcomes: "status_edge\<^sup>*\<^sup>* x y \<Longrightarrow> y \<in> outcomes x"
  by (induction rule: rtranclp_induct)
    (auto simp: outcomes_def status_edge_simps split: citizen_status.splits)

end
