(* ===== verification/Identity_Hierarchy.thy ===== *)
theory Identity_Hierarchy
  imports Identity_Laws
begin

text \<open>
  The pyramid of units as an invariant: below the end of the identifier range, every unit rests on distinct existing
  units of the level below that fit it, and its leader leads the first of them.
\<close>

section \<open>Levels over levels\<close>

definition below :: "nat \<Rightarrow> (nat \<Rightarrow> 'a option) \<Rightarrow> bool" where
  "below n m \<longleftrightarrow> (\<forall>k v. m k = Some v \<longrightarrow> k < n)"

definition led :: "(account \<Rightarrow> nat option) \<Rightarrow> (nat \<Rightarrow> 'a option) \<Rightarrow> ('a \<Rightarrow> account) \<Rightarrow> bool" where
  "led by_leader m leader \<longleftrightarrow> (\<forall>a i. by_leader a = Some i \<longrightarrow> (\<exists>r. m i = Some r \<and> leader r = a))"

text \<open>
  \<open>parts\<close> lists the lower units of an upper one, \<open>fits\<close> is what each of them satisfies and \<open>chief\<close> what the first does.
\<close>

definition rests_on ::
  "('u \<Rightarrow> nat list) \<Rightarrow> (nat \<Rightarrow> bool) \<Rightarrow> ('u \<Rightarrow> 'l \<Rightarrow> bool) \<Rightarrow> ('u \<Rightarrow> 'l \<Rightarrow> bool) \<Rightarrow> (nat \<Rightarrow> 'l option) \<Rightarrow> 'u \<Rightarrow> bool" where
  "rests_on parts sized fits chief low u \<longleftrightarrow> parts u \<noteq> [] \<and> sized (length (parts u)) \<and> distinct (parts u)
     \<and> (\<forall>k\<in>set (parts u). \<exists>l. low k = Some l \<and> fits u l) \<and> (\<exists>l. low (hd (parts u)) = Some l \<and> chief u l)"

definition built_on ::
  "((nat \<Rightarrow> 'l option) \<Rightarrow> 'u \<Rightarrow> bool) \<Rightarrow> (nat \<Rightarrow> 'l option) \<Rightarrow> (nat \<Rightarrow> 'u option) \<Rightarrow> bool" where
  "built_on rests low up \<longleftrightarrow> (\<forall>i u. up i = Some u \<longrightarrow> rests low u)"

lemma below_add: "below n m \<Longrightarrow> below (Suc n) (m(n \<mapsto> v))"
  unfolding below_def by (auto split: if_splits simp: less_Suc_eq)

lemma below_fresh: "below n m \<Longrightarrow> m k = Some v \<Longrightarrow> k \<noteq> n"
  unfolding below_def by blast

lemma ledD: "led g m f \<Longrightarrow> g a = Some i \<Longrightarrow> m i = Some r \<Longrightarrow> f r = a"
  unfolding led_def by (metis option.inject)

lemma led_add: "led g m f \<Longrightarrow> below n m \<Longrightarrow> f v = a \<Longrightarrow> led (g(a \<mapsto> n)) (m(n \<mapsto> v)) f"
  unfolding led_def by (auto dest: below_fresh)

lemma led_keep: "led g m f \<Longrightarrow> m i = Some r \<Longrightarrow> f r' = f r \<Longrightarrow> led g (m(i \<mapsto> r')) f"
  unfolding led_def by auto (metis option.inject)

lemma rests_on_mono:
  assumes "rests_on parts sized fits chief low u"
    and "\<And>k l. low k = Some l \<Longrightarrow> \<exists>l'. low' k = Some l' \<and> (fits u l \<longrightarrow> fits u l') \<and> (chief u l \<longrightarrow> chief u l')"
  shows "rests_on parts sized fits chief low' u"
  using assms unfolding rests_on_def by metis

lemma built_extend: "built_on (rests_on p q f c) low up \<Longrightarrow> below n low \<Longrightarrow> built_on (rests_on p q f c) (low(n \<mapsto> v)) up"
  unfolding built_on_def
  by (intro allI impI, rule rests_on_mono[of p q f c low]) (auto dest: below_fresh)

lemma built_keep:
  assumes "built_on (rests_on p q f c) low up" "low i = Some r" "\<And>u. f u r' = f u r" "\<And>u. c u r' = c u r"
  shows "built_on (rests_on p q f c) (low(i \<mapsto> r')) up"
  unfolding built_on_def
proof (intro allI impI)
  fix j u assume "up j = Some u"
  then have "rests_on p q f c low u" using assms(1) by (simp add: built_on_def)
  then show "rests_on p q f c (low(i \<mapsto> r')) u" by (rule rests_on_mono) (use assms(2-4) in auto)
qed

lemma built_add: "built_on R low up \<Longrightarrow> R low u \<Longrightarrow> built_on R low (up(n \<mapsto> u))"
  by (simp add: built_on_def)

lemma below_keep: "below n m \<Longrightarrow> m i = Some r \<Longrightarrow> below n (m(i \<mapsto> r'))"
  unfolding below_def by auto

section \<open>The pyramid\<close>

definition zun_rests :: "(nat \<Rightarrow> arbad_record option) \<Rightarrow> zun_record \<Rightarrow> bool" where
  "zun_rests = rests_on zun_arbads (\<lambda>n. n = 10) (\<lambda>z a. arbad_nation a = zun_nation z)
     (\<lambda>z a. arbad_leader a = zun_leader z)"

definition myangad_rests :: "(nat \<Rightarrow> zun_record option) \<Rightarrow> myangad_record \<Rightarrow> bool" where
  "myangad_rests = rests_on myangad_zuns (\<lambda>n. n = 10) (\<lambda>m z. zun_nation z = myangad_nation m)
     (\<lambda>m z. zun_leader z = myangad_leader m)"

definition tumed_rests :: "(nat \<Rightarrow> myangad_record option) \<Rightarrow> tumed_record \<Rightarrow> bool" where
  "tumed_rests = rests_on tumed_myangads (\<lambda>n. n = 10)
     (\<lambda>u m. myangad_nation m = tumed_nation u \<and> myangad_branch m = tumed_branch u)
     (\<lambda>u m. myangad_leader m = tumed_leader u)"

definition khural_rests :: "(nat \<Rightarrow> tumed_record option) \<Rightarrow> khural_record \<Rightarrow> bool" where
  "khural_rests = rests_on khural_tumeds (\<lambda>n. n \<le> 100)
     (\<lambda>k u. tumed_nation u = khural_nation k \<and> tumed_branch u = Legislative) (\<lambda>_ _. True)"

definition confederation_rests :: "(nat \<Rightarrow> khural_record option) \<Rightarrow> confederation_record \<Rightarrow> bool" where
  "confederation_rests = rests_on confederation_khurals (\<lambda>n. n \<le> 86) (\<lambda>_ _. True) (\<lambda>_ _. True)"

lemmas rests_defs = zun_rests_def myangad_rests_def tumed_rests_def khural_rests_def confederation_rests_def

lemma rests_extend:
  "built_on zun_rests ar zu \<Longrightarrow> below n ar \<Longrightarrow> built_on zun_rests (ar(n \<mapsto> a)) zu"
  "built_on myangad_rests zu my \<Longrightarrow> below n zu \<Longrightarrow> built_on myangad_rests (zu(n \<mapsto> z)) my"
  "built_on tumed_rests my tu \<Longrightarrow> below n my \<Longrightarrow> built_on tumed_rests (my(n \<mapsto> m)) tu"
  "built_on khural_rests tu kh \<Longrightarrow> below n tu \<Longrightarrow> built_on khural_rests (tu(n \<mapsto> t)) kh"
  "built_on confederation_rests kh co \<Longrightarrow> below n kh \<Longrightarrow> built_on confederation_rests (kh(n \<mapsto> k)) co"
  unfolding rests_defs by (rule built_extend; assumption)+

definition unsaturated :: "unit_tables \<Rightarrow> bool" where
  "unsaturated T \<longleftrightarrow> t_next_arbad T < umax 32 \<and> t_next_zun T < umax 32 \<and> t_next_myangad T < umax 32
     \<and> t_next_tumed T < umax 32 \<and> t_next_khural T < umax 32 \<and> t_next_confederation T < umax 32"

definition tables_ok :: "unit_tables \<Rightarrow> bool" where
  "tables_ok T \<longleftrightarrow> below (t_next_arbad T) (t_arbads T) \<and> below (t_next_zun T) (t_zuns T)
     \<and> below (t_next_myangad T) (t_myangads T) \<and> below (t_next_tumed T) (t_tumeds T)
     \<and> below (t_next_khural T) (t_khurals T)
     \<and> led (t_arbad_by T) (t_arbads T) arbad_leader \<and> led (t_zun_by T) (t_zuns T) zun_leader
     \<and> led (t_myangad_by T) (t_myangads T) myangad_leader
     \<and> built_on zun_rests (t_arbads T) (t_zuns T) \<and> built_on myangad_rests (t_zuns T) (t_myangads T)
     \<and> built_on tumed_rests (t_myangads T) (t_tumeds T) \<and> built_on khural_rests (t_tumeds T) (t_khurals T)
     \<and> built_on confederation_rests (t_khurals T) (t_confederations T)"

definition bounded_ids :: "unit_tables \<Rightarrow> bool" where
  "bounded_ids T \<longleftrightarrow> t_next_arbad T \<le> umax 32 \<and> t_next_zun T \<le> umax 32 \<and> t_next_myangad T \<le> umax 32
     \<and> t_next_tumed T \<le> umax 32 \<and> t_next_khural T \<le> umax 32 \<and> t_next_confederation T \<le> umax 32"

definition pyramid :: "unit_tables \<Rightarrow> bool" where
  "pyramid T \<longleftrightarrow> bounded_ids T \<and> (unsaturated T \<longrightarrow> tables_ok T)"

lemma sat_next [simp]:
  "n \<le> umax 32 \<Longrightarrow> sat_add 32 n 1 \<le> umax 32" "sat_add 32 n 1 < umax 32 \<longleftrightarrow> Suc n < umax 32"
  by (auto simp: sat_add_def)

lemma sat_suc: "Suc n < umax w \<Longrightarrow> sat_add w n 1 = Suc n"
  by (simp add: sat_add_def)

lemma pyramidI:
  assumes "pyramid T" "bounded_ids U" "unsaturated U \<Longrightarrow> unsaturated T"
    "unsaturated U \<Longrightarrow> tables_ok T \<Longrightarrow> tables_ok U"
  shows "pyramid U"
  using assms by (auto simp: pyramid_def)

lemma umax32_Suc: "sat_add 32 n (Suc 0) < umax 32 \<longleftrightarrow> Suc n < umax 32" "n \<le> umax 32 \<Longrightarrow> sat_add 32 n (Suc 0) \<le> umax 32"
  "Suc n < umax 32 \<Longrightarrow> sat_add 32 n (Suc 0) = Suc n"
  using sat_next sat_suc by simp_all

lemmas pyramid_defs = bounded_ids_def unsaturated_def umax32_Suc

lemma pyramid_bounded: "pyramid T \<Longrightarrow> bounded_ids T"
  by (simp add: pyramid_def)

text \<open>A new unit on each level.\<close>

lemma pyramid_arbad:
  assumes "pyramid T"
  shows "pyramid (T\<lparr>t_arbads := (t_arbads T)(t_next_arbad T \<mapsto> r),
     t_arbad_by := (t_arbad_by T)(arbad_leader r \<mapsto> t_next_arbad T), t_next_arbad := sat_add 32 (t_next_arbad T) 1\<rparr>)"
proof (rule pyramidI[OF assms])
  assume u: "unsaturated (T\<lparr>t_arbads := (t_arbads T)(t_next_arbad T \<mapsto> r),
     t_arbad_by := (t_arbad_by T)(arbad_leader r \<mapsto> t_next_arbad T), t_next_arbad := sat_add 32 (t_next_arbad T) 1\<rparr>)"
    and ok: "tables_ok T"
  from u have "Suc (t_next_arbad T) < umax 32" by (simp add: pyramid_defs)
  with ok show "tables_ok (T\<lparr>t_arbads := (t_arbads T)(t_next_arbad T \<mapsto> r),
     t_arbad_by := (t_arbad_by T)(arbad_leader r \<mapsto> t_next_arbad T), t_next_arbad := sat_add 32 (t_next_arbad T) 1\<rparr>)"
    by (simp add: tables_ok_def umax32_Suc below_add led_add rests_extend)
qed (use pyramid_bounded[OF assms] in \<open>simp_all add: pyramid_defs\<close>)

lemma pyramid_members:
  assumes "pyramid T" "t_arbads T i = Some r"
  shows "pyramid (T\<lparr>t_arbads := (t_arbads T)(i \<mapsto> r\<lparr>arbad_members := ms\<rparr>)\<rparr>)"
proof (rule pyramidI[OF assms(1)])
  assume ok: "tables_ok T"
  have "built_on zun_rests ((t_arbads T)(i \<mapsto> r\<lparr>arbad_members := ms\<rparr>)) (t_zuns T)"
    using ok assms(2) unfolding tables_ok_def rests_defs by (intro built_keep) auto
  with ok show "tables_ok (T\<lparr>t_arbads := (t_arbads T)(i \<mapsto> r\<lparr>arbad_members := ms\<rparr>)\<rparr>)"
    using assms(2) by (simp add: tables_ok_def below_keep led_keep)
qed (use pyramid_bounded[OF assms(1)] in \<open>simp_all add: pyramid_defs\<close>)

lemma pyramid_zun:
  assumes "pyramid T" "unsaturated T \<Longrightarrow> tables_ok T \<Longrightarrow> zun_rests (t_arbads T) z"
  shows "pyramid (T\<lparr>t_zuns := (t_zuns T)(t_next_zun T \<mapsto> z),
     t_zun_by := (t_zun_by T)(zun_leader z \<mapsto> t_next_zun T), t_next_zun := sat_add 32 (t_next_zun T) 1\<rparr>)"
proof (rule pyramidI[OF assms(1)])
  assume u: "unsaturated (T\<lparr>t_zuns := (t_zuns T)(t_next_zun T \<mapsto> z),
     t_zun_by := (t_zun_by T)(zun_leader z \<mapsto> t_next_zun T), t_next_zun := sat_add 32 (t_next_zun T) 1\<rparr>)"
    and ok: "tables_ok T"
  from u have "Suc (t_next_zun T) < umax 32" "unsaturated T" by (simp_all add: pyramid_defs)
  with ok show "tables_ok (T\<lparr>t_zuns := (t_zuns T)(t_next_zun T \<mapsto> z),
     t_zun_by := (t_zun_by T)(zun_leader z \<mapsto> t_next_zun T), t_next_zun := sat_add 32 (t_next_zun T) 1\<rparr>)"
    using assms(2) by (simp add: tables_ok_def umax32_Suc below_add led_add rests_extend built_add)
qed (use pyramid_bounded[OF assms(1)] in \<open>simp_all add: pyramid_defs\<close>)

lemma pyramid_myangad:
  assumes "pyramid T" "unsaturated T \<Longrightarrow> tables_ok T \<Longrightarrow> myangad_rests (t_zuns T) m"
  shows "pyramid (T\<lparr>t_myangads := (t_myangads T)(t_next_myangad T \<mapsto> m),
     t_myangad_by := (t_myangad_by T)(myangad_leader m \<mapsto> t_next_myangad T),
     t_next_myangad := sat_add 32 (t_next_myangad T) 1\<rparr>)"
proof (rule pyramidI[OF assms(1)])
  assume u: "unsaturated (T\<lparr>t_myangads := (t_myangads T)(t_next_myangad T \<mapsto> m),
     t_myangad_by := (t_myangad_by T)(myangad_leader m \<mapsto> t_next_myangad T),
     t_next_myangad := sat_add 32 (t_next_myangad T) 1\<rparr>)"
    and ok: "tables_ok T"
  from u have "Suc (t_next_myangad T) < umax 32" "unsaturated T" by (simp_all add: pyramid_defs)
  with ok show "tables_ok (T\<lparr>t_myangads := (t_myangads T)(t_next_myangad T \<mapsto> m),
     t_myangad_by := (t_myangad_by T)(myangad_leader m \<mapsto> t_next_myangad T),
     t_next_myangad := sat_add 32 (t_next_myangad T) 1\<rparr>)"
    using assms(2) by (simp add: tables_ok_def umax32_Suc below_add led_add rests_extend built_add)
qed (use pyramid_bounded[OF assms(1)] in \<open>simp_all add: pyramid_defs\<close>)

lemma pyramid_tumed:
  assumes "pyramid T" "unsaturated T \<Longrightarrow> tables_ok T \<Longrightarrow> tumed_rests (t_myangads T) u"
  shows "pyramid (T\<lparr>t_tumeds := (t_tumeds T)(t_next_tumed T \<mapsto> u), t_tumed_by := g,
     t_next_tumed := sat_add 32 (t_next_tumed T) 1\<rparr>)"
proof (rule pyramidI[OF assms(1)])
  assume u: "unsaturated (T\<lparr>t_tumeds := (t_tumeds T)(t_next_tumed T \<mapsto> u), t_tumed_by := g,
     t_next_tumed := sat_add 32 (t_next_tumed T) 1\<rparr>)"
    and ok: "tables_ok T"
  from u have "Suc (t_next_tumed T) < umax 32" "unsaturated T" by (simp_all add: pyramid_defs)
  with ok show "tables_ok (T\<lparr>t_tumeds := (t_tumeds T)(t_next_tumed T \<mapsto> u), t_tumed_by := g,
     t_next_tumed := sat_add 32 (t_next_tumed T) 1\<rparr>)"
    using assms(2) by (simp add: tables_ok_def umax32_Suc below_add led_add rests_extend built_add)
qed (use pyramid_bounded[OF assms(1)] in \<open>simp_all add: pyramid_defs\<close>)

lemma pyramid_khural:
  assumes "pyramid T" "khural_rests (t_tumeds T) k"
  shows "pyramid (T\<lparr>t_khurals := (t_khurals T)(t_next_khural T \<mapsto> k), t_next_khural := sat_add 32 (t_next_khural T) 1\<rparr>)"
proof (rule pyramidI[OF assms(1)])
  assume u: "unsaturated (T\<lparr>t_khurals := (t_khurals T)(t_next_khural T \<mapsto> k),
      t_next_khural := sat_add 32 (t_next_khural T) 1\<rparr>)"
    and ok: "tables_ok T"
  from u have "Suc (t_next_khural T) < umax 32" by (simp_all add: pyramid_defs)
  with ok show "tables_ok (T\<lparr>t_khurals := (t_khurals T)(t_next_khural T \<mapsto> k),
      t_next_khural := sat_add 32 (t_next_khural T) 1\<rparr>)"
    using assms(2) by (simp add: tables_ok_def umax32_Suc below_add led_add rests_extend built_add)
qed (use pyramid_bounded[OF assms(1)] in \<open>simp_all add: pyramid_defs\<close>)

lemma pyramid_confederation:
  assumes "pyramid T" "confederation_rests (t_khurals T) c"
  shows "pyramid (T\<lparr>t_confederations := (t_confederations T)(n \<mapsto> c),
     t_next_confederation := sat_add 32 (t_next_confederation T) 1\<rparr>)"
proof (rule pyramidI[OF assms(1)])
  assume ok: "tables_ok T"
  then show "tables_ok (T\<lparr>t_confederations := (t_confederations T)(n \<mapsto> c),
      t_next_confederation := sat_add 32 (t_next_confederation T) 1\<rparr>)"
    using assms(2) by (simp add: tables_ok_def built_add)
qed (use pyramid_bounded[OF assms(1)] in \<open>simp_all add: pyramid_defs\<close>)

section \<open>The invariant\<close>

definition pyramid_ok :: "'x identity_state \<Rightarrow> bool" where
  "pyramid_ok s \<longleftrightarrow> pyramid (hierarchy s)"

lemma pyramid_founds: "pyramid_ok s \<Longrightarrow> founds_arbad s t r \<Longrightarrow> pyramid_ok t"
  using pyramid_arbad[of "hierarchy s" r] by (simp add: pyramid_ok_def founds_arbad_def)

lemma pyramid_unit_step:
  assumes inv: "pyramid_ok s" and d: "identity_dispatch cfg (env, og, c) s = Ok t" and u: "about_units (Extrinsic env og c)"
  shows "pyramid_ok t"
proof (cases c)
  case (FormArbad ms)
  with d have "form_arbad cfg env og ms s = Ok t" by simp
  then show ?thesis
    by (rule form_arbad_Ok[where E = "\<lambda>_ _. False"]) (rule pyramid_founds[OF inv])
next
  case (FormFamilyArbad p h cr)
  with d have "form_family_arbad env og p h cr s = Ok t" by simp
  then show ?thesis
    by (rule form_family_arbad_Ok[where E = "\<lambda>_ _. False"]) (rule pyramid_founds[OF inv])
next
  case (LeaveArbad i)
  with d have "leave_arbad env og i s = Ok t" by simp
  then show ?thesis
    by (rule leave_arbad_Ok[where E = "\<lambda>_ _. False"])
      (use inv pyramid_members[of "hierarchy s" i] in \<open>simp add: pyramid_ok_def\<close>)
next
  case (FormZun us)
  with d have "form_zun env og us s = Ok t" by simp
  then show ?thesis
  proof (cases rule: form_zun_Ok[where E = "\<lambda>_ _. False"])
    case (1 a k r)
    let ?z = "\<lparr>zun_leader = a, zun_arbads = k # us, zun_nation = arbad_nation r\<rparr>"
    have "zun_rests (t_arbads (hierarchy s)) ?z" if "tables_ok (hierarchy s)"
    proof -
      have "arbad_leader r = a" using that 1(2,3) ledD[of "arbad_by_leader s" "arbads s" arbad_leader a k r] by (simp add: tables_ok_def)
      with 1 show ?thesis by (auto simp: rests_defs rests_on_def)
    qed
    with inv 1 pyramid_zun[of "hierarchy s" ?z] show ?thesis by (simp add: pyramid_ok_def)
  qed
next
  case (FormMyangad b us)
  with d have "form_myangad env og b us s = Ok t" by simp
  then show ?thesis
  proof (cases rule: form_myangad_Ok[where E = "\<lambda>_ _. False"])
    case (1 a k r)
    let ?z = "\<lparr>myangad_leader = a, myangad_zuns = k # us, myangad_branch = b, myangad_nation = zun_nation r\<rparr>"
    have "myangad_rests (t_zuns (hierarchy s)) ?z" if "tables_ok (hierarchy s)"
    proof -
      have "zun_leader r = a" using that 1(2,3) ledD[of "zun_by_leader s" "zuns s" zun_leader a k r] by (simp add: tables_ok_def)
      with 1 show ?thesis by (auto simp: rests_defs rests_on_def)
    qed
    with inv 1 pyramid_myangad[of "hierarchy s" ?z] show ?thesis by (simp add: pyramid_ok_def)
  qed
next
  case (FormTumed us)
  with d have "form_tumed env og us s = Ok t" by simp
  then show ?thesis
  proof (cases rule: form_tumed_Ok[where E = "\<lambda>_ _. False"])
    case (1 a k r)
    let ?z = "\<lparr>tumed_leader = a, tumed_myangads = k # us, tumed_branch = myangad_branch r,
      tumed_nation = myangad_nation r\<rparr>"
    have "tumed_rests (t_myangads (hierarchy s)) ?z" if "tables_ok (hierarchy s)"
    proof -
      have "myangad_leader r = a" using that 1(2,3) ledD[of "myangad_by_leader s" "myangads s" myangad_leader a k r] by (simp add: tables_ok_def)
      with 1 show ?thesis by (auto simp: rests_defs rests_on_def)
    qed
    with inv 1 pyramid_tumed[of "hierarchy s" ?z] show ?thesis by (simp add: pyramid_ok_def)
  qed
next
  case (FormKhural us)
  with d have "form_khural env og us s = Ok t" by simp
  then show ?thesis
  proof (cases rule: form_khural_Ok[where E = "\<lambda>_ _. False"])
    case (1 a f r)
    let ?z = "\<lparr>khural_leader = a, khural_tumeds = us, khural_nation = tumed_nation f\<rparr>"
    have "hd us \<in> set us" using 1 by simp
    then have "khural_rests (t_tumeds (hierarchy s)) ?z"
      using 1 by (fastforce simp: rests_defs rests_on_def)
    with inv 1 pyramid_khural[of "hierarchy s" ?z] show ?thesis by (simp add: pyramid_ok_def)
  qed
next
  case (FormConfederation us)
  with d have "form_confederation env og us s = Ok t" by simp
  then show ?thesis
  proof (cases rule: form_confederation_Ok[where E = "\<lambda>_ _. False"])
    case (1 a r)
    let ?z = "\<lparr>confederation_leader = a, confederation_khurals = us\<rparr>"
    have "hd us \<in> set us" using 1 by simp
    then have "confederation_rests (t_khurals (hierarchy s)) ?z"
      using 1 by (auto simp: rests_defs rests_on_def)
    with inv 1 pyramid_confederation[of "hierarchy s" ?z] show ?thesis by (simp add: pyramid_ok_def)
  qed
qed (use u in simp_all)

lemma pyramid_step:
  assumes "pyramid_ok s" "identity_operate cfg op s = Ok t"
  shows "pyramid_ok t"
proof (cases "about_units op")
  case True
  then obtain env og c where "op = Extrinsic env og c" by (cases op) auto
  with assms True show ?thesis by (auto intro: pyramid_unit_step)
next
  case False
  with assms step_hierarchy[OF assms(2)] show ?thesis by (simp add: pyramid_ok_def)
qed

interpretation pyramids: pallet_machine "identity_operate cfg" ledger_moves pyramid_ok for cfg
  by unfold_locales (erule (1) pyramid_step, simp add: pyramid_ok_def ledger_moves_parts)

lemma pyramid_ok_start: "pyramid_ok (identity_start x)"
  by (simp add: pyramid_ok_def pyramid_def identity_start_def hierarchy_def bounded_ids_def tables_ok_def below_def
      led_def built_on_def)

end
