(* ===== verification/Identity_Claims.thy ===== *)
theory Identity_Claims
  imports Identity_Hierarchy
begin

text \<open>
  The properties of the identity pallet: the pyramid under every Khural, who may form one, documents, the civil
  registry and the life of a citizen, each with its witness.
\<close>

section \<open>A concrete configuration\<close>

definition null_currency :: "unit currency" where
  "null_currency = \<lparr>total_issuance = (\<lambda>_. 0), free_balance = (\<lambda>_ _. 0), deposit_creating = (\<lambda>x _ _. x),
     withdraw = (\<lambda>x _ _ _. Ok x), transfer = (\<lambda>x _ _ _ _. Ok x)\<rparr>"

definition demo_id :: "unit identity_config" where
  "demo_id = \<lparr>id_currency = null_currency, reserve = (\<lambda>x _ _. Ok x), medical_authority = 90, marriage_fee = 1,
     civil_fee_treasury = 91, arbad_cooldown_period = 100, max_registrations_per_block = 5, constitution_hash = None,
     on_deceased = (\<lambda>_ x. x), on_exiled = (\<lambda>_ x. x), encode_account = (\<lambda>_. []), blake2_256 = (\<lambda>b. b),
     decode_account = (\<lambda>_. 92)\<rparr>"

definition block_seven :: env where
  "block_seven = \<lparr>block_number = 7, extrinsic_index = Some 0\<rparr>"

definition leader_of_nation :: "nat \<Rightarrow> citizen_record" where
  "leader_of_nation n = (fresh_citizen 1 n TumedLeader True None None Internal [] [] [])
     \<lparr>verification := Verified, branch := Some Executive\<rparr>"

lemma leader_of_nation_sel [simp]:
  "role (leader_of_nation n) = TumedLeader" "status (leader_of_nation n) = Active"
  "khural_terms_served (leader_of_nation n) = 0" "nation_id (leader_of_nation n) = n"
  "branch (leader_of_nation n) = Some Executive"
  by (simp_all add: leader_of_nation_def fresh_citizen_def)

text \<open>A Tumed over ten units on each level, all led by account 1, and an Executive leader of another nation.\<close>

definition ten :: "'a \<Rightarrow> nat \<Rightarrow> 'a option" where
  "ten v i = (if i < 10 then Some v else None)"

definition first_ten :: "nat list" where
  "first_ten = [0..<10]"

definition demo_tower :: "unit identity_state" where
  "demo_tower = (identity_start ())\<lparr>
     arbads := ten \<lparr>arbad_leader = 1, arbad_members = [3], arbad_nation = 5, marriage_credential_hash = None\<rparr>,
     next_arbad_id := 10,
     zuns := ten \<lparr>zun_leader = 1, zun_arbads = first_ten, zun_nation = 5\<rparr>, next_zun_id := 10,
     myangads := ten \<lparr>myangad_leader = 1, myangad_zuns = first_ten, myangad_branch = Legislative, myangad_nation = 5\<rparr>,
     next_myangad_id := 10,
     tumeds := [0 \<mapsto> \<lparr>tumed_leader = 1, tumed_myangads = first_ten, tumed_branch = Legislative, tumed_nation = 5\<rparr>],
     next_tumed_id := 1, citizens := [2 \<mapsto> leader_of_nation 7]\<rparr>"

lemma ten_Some [simp]: "ten v i = Some w \<longleftrightarrow> i < 10 \<and> w = v"
  by (auto simp: ten_def)

lemma first_ten_simps [simp]: "set first_ten = {..<10}" "length first_ten = 10" "distinct first_ten" "first_ten \<noteq> []"
  "hd first_ten = 0"
  by (auto simp: first_ten_def)

lemma demo_tower_sel [simp]:
  "arbads demo_tower = ten \<lparr>arbad_leader = 1, arbad_members = [3], arbad_nation = 5, marriage_credential_hash = None\<rparr>"
  "next_arbad_id demo_tower = 10" "arbad_by_leader demo_tower = Map.empty"
  "zuns demo_tower = ten \<lparr>zun_leader = 1, zun_arbads = first_ten, zun_nation = 5\<rparr>" "next_zun_id demo_tower = 10"
  "zun_by_leader demo_tower = Map.empty"
  "myangads demo_tower = ten \<lparr>myangad_leader = 1, myangad_zuns = first_ten, myangad_branch = Legislative, myangad_nation = 5\<rparr>"
  "next_myangad_id demo_tower = 10" "myangad_by_leader demo_tower = Map.empty"
  "tumeds demo_tower = [0 \<mapsto> \<lparr>tumed_leader = 1, tumed_myangads = first_ten, tumed_branch = Legislative, tumed_nation = 5\<rparr>]"
  "next_tumed_id demo_tower = 1" "citizens demo_tower = [2 \<mapsto> leader_of_nation 7]"
  "khurals demo_tower = Map.empty" "next_khural_id demo_tower = 0" "confederations demo_tower = Map.empty"
  "next_confederation_id demo_tower = 0"
  by (simp_all add: demo_tower_def identity_start_def)

lemma demo_tower_ok: "pyramid_ok demo_tower"
proof -
  have "umax 32 > 10" by (simp add: umax_def)
  then show ?thesis
    by (auto simp: pyramid_ok_def pyramid_def bounded_ids_def tables_ok_def below_def led_def built_on_def rests_defs
        rests_on_def split: if_splits)
qed

section \<open>Properties\<close>

text \<open>C13: In every state the pallet reaches from sound storage (the empty one included) while its \<open>u32\<close> counters last,
  each of the Tumeds a Khural lists exists, is Legislative and of the Khural's nation, and rests on ten distinct
  Legislative Myangads, each on ten distinct Zuns, each on ten distinct Arbads, all existing and of that nation.\<close>

theorem khural_stands_on_pyramid:
  assumes "pyramid_ok s0" "reachable (identity_operate cfg) ledger_moves s0 s" "unsaturated (hierarchy s)"
    and "khurals s i = Some k" "j \<in> set (khural_tumeds k)"
  shows "\<exists>u. tumeds s j = Some u \<and> tumed_branch u = Legislative \<and> tumed_nation u = khural_nation k
    \<and> length (tumed_myangads u) = 10 \<and> distinct (tumed_myangads u)
    \<and> (\<forall>m\<in>set (tumed_myangads u). \<exists>g. myangads s m = Some g \<and> myangad_branch g = Legislative
        \<and> myangad_nation g = khural_nation k \<and> length (myangad_zuns g) = 10 \<and> distinct (myangad_zuns g)
        \<and> (\<forall>z\<in>set (myangad_zuns g). \<exists>h. zuns s z = Some h \<and> zun_nation h = khural_nation k
            \<and> length (zun_arbads h) = 10 \<and> distinct (zun_arbads h)
            \<and> (\<forall>a\<in>set (zun_arbads h). \<exists>r. arbads s a = Some r \<and> arbad_nation r = khural_nation k)))"
proof -
  have "pyramid_ok s" by (rule pyramids.reachable_inv[OF assms(2,1)])
  then have ok: "tables_ok (hierarchy s)" using assms(3) by (simp add: pyramid_ok_def pyramid_def)
  have zun: "zun_rests (arbads s) h" if "zuns s z = Some h" for z h
    using ok that unfolding tables_ok_def built_on_def by simp
  have myangad: "myangad_rests (zuns s) g" if "myangads s m = Some g" for m g
    using ok that unfolding tables_ok_def built_on_def by simp
  have tumed: "tumed_rests (myangads s) u" if "tumeds s j = Some u" for j u
    using ok that unfolding tables_ok_def built_on_def by simp
  have khural: "khural_rests (tumeds s) k"
    using ok assms(4) unfolding tables_ok_def built_on_def by simp
  from khural assms(5) obtain u where u: "tumeds s j = Some u" "tumed_branch u = Legislative"
      "tumed_nation u = khural_nation k" unfolding rests_defs rests_on_def by blast
  have level2: "\<exists>h. zuns s z = Some h \<and> zun_nation h = khural_nation k
      \<and> length (zun_arbads h) = 10 \<and> distinct (zun_arbads h)
      \<and> (\<forall>a\<in>set (zun_arbads h). \<exists>r. arbads s a = Some r \<and> arbad_nation r = khural_nation k)"
    if g: "myangads s m = Some g" "myangad_nation g = khural_nation k" and z: "z \<in> set (myangad_zuns g)" for m g z
  proof -
    from myangad[OF g(1)] z obtain h where "zuns s z = Some h" "zun_nation h = khural_nation k"
      unfolding rests_defs rests_on_def g(2) by blast
    with zun[OF this(1)] show ?thesis unfolding rests_defs rests_on_def by simp
  qed
  have level3: "\<exists>g. myangads s m = Some g \<and> myangad_branch g = Legislative \<and> myangad_nation g = khural_nation k
      \<and> length (myangad_zuns g) = 10 \<and> distinct (myangad_zuns g)
      \<and> (\<forall>z\<in>set (myangad_zuns g). \<exists>h. zuns s z = Some h \<and> zun_nation h = khural_nation k
            \<and> length (zun_arbads h) = 10 \<and> distinct (zun_arbads h)
            \<and> (\<forall>a\<in>set (zun_arbads h). \<exists>r. arbads s a = Some r \<and> arbad_nation r = khural_nation k))"
    if m: "m \<in> set (tumed_myangads u)" for m
  proof -
    from tumed[OF u(1)] m obtain g where g: "myangads s m = Some g" "myangad_branch g = Legislative"
      "myangad_nation g = khural_nation k"
      unfolding rests_defs rests_on_def u(2,3) by blast
    from myangad[OF g(1)] have "length (myangad_zuns g) = 10" "distinct (myangad_zuns g)"
      unfolding rests_defs rests_on_def by simp_all
    with g level2[OF g(1,3)] show ?thesis by (intro exI[of _ g] conjI ballI)
  qed
  have "length (tumed_myangads u) = 10" "distinct (tumed_myangads u)"
    using tumed[OF u(1)] unfolding rests_defs rests_on_def by simp_all
  with u level3 show ?thesis by (intro exI[of _ u] conjI ballI)
qed

definition demo_parliament :: "unit identity_state" where
  "demo_parliament = execute (identity_operate demo_id) (Extrinsic block_seven (Signed 2) (FormKhural [0])) demo_tower"

lemma demo_parliament_reached: "reachable (identity_operate demo_id) ledger_moves demo_tower demo_parliament"
  unfolding demo_parliament_def by (rule reachable_execute[OF reachable.start])

lemma demo_parliament_sel:
  "khurals demo_parliament 0 = Some \<lparr>khural_leader = 2, khural_tumeds = [0], khural_nation = 5\<rparr>"
  "tumeds demo_parliament 0 =
     Some \<lparr>tumed_leader = 1, tumed_myangads = first_ten, tumed_branch = Legislative, tumed_nation = 5\<rparr>"
  "hierarchy demo_parliament = (hierarchy demo_tower)\<lparr>t_next_khural := 1,
     t_khurals := [0 \<mapsto> \<lparr>khural_leader = 2, khural_tumeds = [0], khural_nation = 5\<rparr>]\<rparr>"
  by (simp_all add: demo_parliament_def execute_def form_khural_def check_tumed_unit_def Let_def hierarchy_def
      sat_add_def umax_def)

lemma khural_stands_on_pyramid_witness:
  "\<exists>u. tumeds demo_parliament 0 = Some u \<and> tumed_branch u = Legislative \<and> tumed_nation u = 5
    \<and> length (tumed_myangads u) = 10 \<and> distinct (tumed_myangads u)
    \<and> (\<forall>m\<in>set (tumed_myangads u). \<exists>g. myangads demo_parliament m = Some g \<and> myangad_branch g = Legislative
        \<and> myangad_nation g = 5 \<and> length (myangad_zuns g) = 10 \<and> distinct (myangad_zuns g)
        \<and> (\<forall>z\<in>set (myangad_zuns g). \<exists>h. zuns demo_parliament z = Some h \<and> zun_nation h = 5
            \<and> length (zun_arbads h) = 10 \<and> distinct (zun_arbads h)
            \<and> (\<forall>a\<in>set (zun_arbads h). \<exists>r. arbads demo_parliament a = Some r \<and> arbad_nation r = 5)))"
proof -
  have "unsaturated (hierarchy demo_parliament)"
    by (simp add: demo_parliament_sel(3) unsaturated_def umax_def)
  from khural_stands_on_pyramid[OF demo_tower_ok demo_parliament_reached this demo_parliament_sel(1), of 0]
  show ?thesis by simp
qed

text \<open>Any active Tumed leader with a term left forms a Khural on any Legislative Tumed and becomes its delegate,
  whatever their own branch and nation: nothing ties the caller to the Tumeds listed.\<close>

theorem any_tumed_leader_forms_khural:
  assumes "citizens s a = Some r" "status r = Active" "role r = TumedLeader" "khural_terms_served r < 2"
    and "tumeds s i = Some u" "tumed_branch u = Legislative"
  shows "\<exists>t. form_khural env (Signed a) [i] s = Ok t
    \<and> khurals t (next_khural_id s) = Some \<lparr>khural_leader = a, khural_tumeds = [i], khural_nation = tumed_nation u\<rparr>
    \<and> map_option role (citizens t a) = Some KhuralDelegate"
  using assms by (simp add: form_khural_def check_tumed_unit_def serve_term_def Let_def)

lemma any_tumed_leader_forms_khural_witness:
  "nation_id (leader_of_nation 7) = 7 \<and> branch (leader_of_nation 7) = Some Executive \<and>
   (\<exists>t. form_khural block_seven (Signed 2) [0] demo_tower = Ok t
    \<and> khurals t 0 = Some \<lparr>khural_leader = 2, khural_tumeds = [0], khural_nation = 5\<rparr>
    \<and> map_option role (citizens t 2) = Some KhuralDelegate)"
  using any_tumed_leader_forms_khural[of demo_tower 2 "leader_of_nation 7" 0
      "\<lparr>tumed_leader = 1, tumed_myangads = first_ten, tumed_branch = Legislative, tumed_nation = 5\<rparr>" block_seven]
  by simp

text \<open>C15: Two citizens enrolled in the same way (both registered, or both born) never share a document; registered ones
  never share an email either, and every record keeps its ranges: nation 1 to 79, at most two terms, the indigenous
  flag exactly with indigenous citizenship.\<close>

theorem documents_identify_citizens:
  assumes "identity_reachable cfg x s" "citizens s a = Some r" "citizens s b = Some q" "a \<noteq> b"
    and "(parental_links s a = None) = (parental_links s b = None)"
  shows "document_hash r \<noteq> document_hash q \<and> (parental_links s a = None \<longrightarrow> email_hash r \<noteq> email_hash q)
    \<and> record_ok r \<and> record_ok q"
proof -
  have ok: "papers_ok s" by (rule papers.reachable_inv[OF assms(1) papers_ok_start])
  have "natives s a = natives s b" using assms(5) by (simp add: natives_def)
  with papersD[OF ok] assms(2-4) show ?thesis by (auto simp: natives_def)
qed

text \<open>C14: The civil registry is consistent in every reachable state: marriages are mutual and never with oneself, and
  the two nickname tables are inverse to each other, so nobody shares a nickname.\<close>

theorem civil_registry_consistent:
  assumes "identity_reachable cfg x s"
  shows "(\<forall>a b. marriages s a = Some b \<longrightarrow> a \<noteq> b \<and> marriages s b = Some a)
    \<and> (\<forall>a n. nickname_of s a = Some n \<longleftrightarrow> account_by_nickname s n = Some a)"
  using civil_registry.reachable_inv[OF assms civil_ok_start] unfolding civil_ok_def paired_def inverse_maps_def .

text \<open>C16: Only another pallet revives. Whatever extrinsics, operations of other pallets and ledger moves follow each
  other, a citizen stays on record with nation and document unchanged. As long as no other pallet freezes,
  unfreezes or exiles them through the bridge, their status moves only as extrinsics move it: the dead stay dead,
  an exile only dies, and a minor never comes of age. Through the bridge the dead come back: it freezes and then
  unfreezes any citizen on record, whatever their status was.\<close>

theorem extrinsics_never_revive:
  assumes r: "citizens s a = Some r"
  shows "(reachable (identity_operate cfg) ledger_moves s t \<longrightarrow>
      (\<exists>r'. citizens t a = Some r' \<and> nation_id r' = nation_id r \<and> document_hash r' = document_hash r))
    \<and> ((spares cfg a)\<^sup>*\<^sup>* s t \<longrightarrow> (\<exists>r'. citizens t a = Some r' \<and> status r' \<in> outcomes (status r)))
    \<and> (\<exists>u v. identity_operate cfg (FreezeOp a) s = Ok u \<and> identity_operate cfg (UnfreezeOp a) u = Ok v
         \<and> citizens v a = Some (r\<lparr>status := Active\<rparr>))"
proof (intro conjI impI)
  assume "reachable (identity_operate cfg) ledger_moves s t"
  then have "\<exists>r'. citizens t a = Some r' \<and> same_person r r'"
    unfolding reachable_iff_steps
  proof (induction rule: rtranclp_induct)
    case base
    then show ?case using r by (auto simp: same_person_def)
  next
    case (step t u)
    then obtain q where q: "citizens t a = Some q" "same_person r q" by blast
    from moves_carried[OF step.hyps(2)] q(1) obtain p where "citizens u a = Some p" "grows bridge_edge q p"
      unfolding carried_def by blast
    with q(2) show ?case by (auto simp: grows_def same_person_def)
  qed
  then show "\<exists>r'. citizens t a = Some r' \<and> nation_id r' = nation_id r \<and> document_hash r' = document_hash r"
    by (auto simp: same_person_def)
next
  assume "(spares cfg a)\<^sup>*\<^sup>* s t"
  then have "\<exists>r'. citizens t a = Some r' \<and> status_edge\<^sup>*\<^sup>* (status r) (status r')"
  proof (induction rule: rtranclp_induct)
    case (step t u)
    then obtain q where q: "citizens t a = Some q" "status_edge\<^sup>*\<^sup>* (status r) (status q)" by blast
    from spares_grows[OF step.hyps(2) q(1)] obtain p where "citizens u a = Some p"
      "status p = status q \<or> status_edge (status q) (status p)" by (auto simp: grows_def)
    with q(2) show ?case by (auto intro: rtranclp.rtrancl_into_rtrancl)
  qed (use r in simp)
  then show "\<exists>r'. citizens t a = Some r' \<and> status r' \<in> outcomes (status r)" using edges_outcomes by blast
qed (use r in \<open>simp add: do_freeze_citizen_def do_unfreeze_citizen_def\<close>)

text \<open>The child born next after a registration bears the identifier of the citizen registered: registration stores
  the counter increased and keeps it, a birth uses the counter as it stands.\<close>

theorem newborn_shares_citizen_id:
  assumes "register_citizen og a n ro i re br pt d bp e s = Ok t" "register_birth cfg env og' c p q h g t = Ok u"
  shows "map_option citizen_id (citizens u c) = map_option citizen_id (citizens u a) \<and> c \<noteq> a
    \<and> citizens u a \<noteq> None"
proof -
  from assms(1) obtain cid where a: "citizens t a = Some (fresh_citizen cid n ro i re br pt d bp e)" "next_citizen_id t = cid"
    by (rule register_citizen_Ok) (simp add: joins_def)
  from assms(2) obtain pr :: citizen_record where "joins t u c (newborn (next_citizen_id t) (nation_id pr) g h)"
    by (rule register_birth_Ok)
  with a show ?thesis by (auto simp: joins_def)
qed

section \<open>Witnesses on a small population\<close>

text \<open>Two registered citizens who marry, one with a nickname; then one of them dies.\<close>

definition document :: "nat \<Rightarrow> h256" where
  "document n = replicate 32 (of_nat n)"

lemma document_eq [simp]: "document 21 \<noteq> document 22" "document 22 \<noteq> document 21"
  by (simp_all add: document_def numeral_eq_Suc)

definition small_calls :: "identity_op list" where
  "small_calls =
     [Extrinsic block_seven Root (RegisterCitizen 11 5 Regular True None None Internal (document 21) [] (document 21)),
      Extrinsic block_seven Root (RegisterCitizen 13 6 Regular False None None Internal (document 22) [] (document 22)),
      Extrinsic block_seven (Signed 11) (RegisterMarriage 13 5),
      Extrinsic block_seven (Signed 13) (RegisterNickname [97, 98, 99])]"

definition small_state :: "unit identity_state" where
  "small_state = run (identity_operate demo_id) small_calls (identity_start ())"

lemma small_reached: "identity_reachable demo_id () small_state"
  unfolding small_state_def by (rule reachable_run[OF reachable.start])

lemma fresh_citizen_more [simp]:
  "status (fresh_citizen cid n ro i re br p d bp e) = Active" "nation_id (fresh_citizen cid n ro i re br p d bp e) = n"
  by (simp_all add: fresh_citizen_def)

lemma small_state_sel:
  "citizens small_state 11 = Some (fresh_citizen (Suc 0) 5 Regular True None None Internal (document 21) [] (document 21))"
  "citizens small_state 13 = Some (fresh_citizen (Suc (Suc 0)) 6 Regular False None None Internal (document 22) [] (document 22))"
  "parental_links small_state 11 = None" "parental_links small_state 13 = None"
  "marriages small_state 11 = Some 13" "nickname_of small_state 13 = Some [97, 98, 99]"
  by (simp_all add: small_state_def small_calls_def execute_def register_citizen_def register_marriage_def
      register_nickname_def identity_start_def Let_def sat_add_def umax_def demo_id_def null_currency_def nickname_byte_def)

lemma documents_identify_citizens_witness:
  "citizens small_state 11 \<noteq> None \<and> citizens small_state 13 \<noteq> None \<and> document 21 \<noteq> document 22"
  using documents_identify_citizens[OF small_reached small_state_sel(1,2)] small_state_sel by simp

lemma civil_registry_consistent_witness:
  "marriages small_state 11 = Some 13 \<and> marriages small_state 13 = Some 11
    \<and> account_by_nickname small_state [97, 98, 99] = Some 13"
  using civil_registry_consistent[OF small_reached] small_state_sel(5,6) by blast

definition funeral :: "unit identity_state" where
  "funeral = execute (identity_dispatch demo_id) (block_seven, Root, UnfreezeCitizen 11)
     (execute (identity_dispatch demo_id) (block_seven, Signed 90, RegisterDeath 11 (document 30)) small_state)"

lemma spares_execute: "(spares cfg a)\<^sup>*\<^sup>* s (execute (identity_dispatch cfg) (env, og, c) s)"
proof (cases "identity_dispatch cfg (env, og, c) s")
  case (Ok t)
  then have "identity_operate cfg (Extrinsic env og c) s = Ok t" "\<not> bridges_to a (Extrinsic env og c)" by simp_all
  then have "spares cfg a s t" unfolding spares_def by blast
  with Ok show ?thesis by (simp add: execute_def)
qed (simp add: execute_def)

lemma small_state_funeral: "status_of funeral 11 = Some Deceased"
proof -
  let ?r = "fresh_citizen (Suc 0) 5 Regular True None None Internal (document 21) [] (document 21)"
  have "status_of (execute (identity_dispatch demo_id) (block_seven, Signed 90, RegisterDeath 11 (document 30)) small_state) 11
      = Some Deceased"
    using small_state_sel(1)
    by (simp add: execute_def register_death_def ensure_medical_def demo_id_def null_currency_def Let_def status_of_def)
  then show ?thesis
    unfolding funeral_def
    by (auto simp: execute_def unfreeze_citizen_def status_of_def ensure_def)
qed

lemma extrinsics_never_revive_witness:
  "\<exists>r'. citizens funeral 11 = Some r' \<and> status r' \<in> outcomes Active \<and> status r' = Deceased"
proof -
  have "(spares demo_id 11)\<^sup>*\<^sup>* small_state funeral"
    unfolding funeral_def by (rule rtranclp_trans[OF spares_execute spares_execute])
  with extrinsics_never_revive[OF small_state_sel(1), of demo_id funeral] small_state_funeral
  show ?thesis by (auto simp: status_of_def)
qed

definition one_citizen :: "unit identity_state" where
  "one_citizen = execute (identity_dispatch demo_id) (block_seven, Root,
     RegisterCitizen 17 5 Regular True None None Internal (document 23) [] (document 23)) (identity_start ())"

definition one_family :: "unit identity_state" where
  "one_family = execute (identity_dispatch demo_id) (block_seven, Root, RegisterBirth 15 17 None (document 40) 6) one_citizen"

lemma one_citizen_Ok:
  "register_citizen Root 17 5 Regular True None None Internal (document 23) [] (document 23) (identity_start ()) = Ok one_citizen"
  by (simp add: one_citizen_def execute_def register_citizen_def identity_start_def Let_def)

lemma one_family_Ok: "register_birth demo_id block_seven Root 15 17 None (document 40) 6 one_citizen = Ok one_family"
  by (simp add: one_family_def one_citizen_def execute_def register_citizen_def register_birth_def ensure_medical_def
      valid_region_def identity_start_def Let_def)

lemma newborn_shares_citizen_id_witness:
  "map_option citizen_id (citizens one_family 15) = map_option citizen_id (citizens one_family 17)
    \<and> citizens one_family 17 \<noteq> None"
  using newborn_shares_citizen_id[OF one_citizen_Ok one_family_Ok] by simp

end
