(* ===== verification/Runtime_Identity.thy ===== *)
theory Runtime_Identity
  imports Organization_Claims Identity_Laws
begin

text \<open>
  The organization pallet over the identity pallet, joined by \<open>OrgIdentityBridge\<close> of \<^verbatim>\<open>runtime/src/configs/mod.rs\<close>:
  marking an organization delinquent freezes its directors through \<open>do_freeze_citizen\<close>, whose result is dropped.
\<close>

definition org_identity_bridge :: "account \<Rightarrow> 'y identity_state \<Rightarrow> 'y identity_state" where
  "org_identity_bridge who i = (case do_freeze_citizen who i of Ok j \<Rightarrow> j | Err _ \<Rightarrow> i)"

lemma bridge_status [simp]:
  "status_of (org_identity_bridge a i) b
     = (if b = a \<and> status_of i a \<noteq> None then Some citizen_status.Frozen else status_of i b)"
  by (cases "citizens i a") (auto simp: org_identity_bridge_def do_freeze_citizen_def status_of_def emit_id_def put_citizen_def)

lemma bridge_deaths [simp]: "death_records (org_identity_bridge a i) = death_records i"
  by (cases "citizens i a") (simp_all add: org_identity_bridge_def do_freeze_citizen_def emit_id_def put_citizen_def)

lemma bridge_fold:
  "status_of (fold org_identity_bridge ds i) b
     = (if b \<in> set ds \<and> status_of i b \<noteq> None then Some citizen_status.Frozen else status_of i b)"
  by (induction ds arbitrary: i) auto

lemma bridge_fold_deaths [simp]: "death_records (fold org_identity_bridge ds i) = death_records i"
  by (induction ds arbitrary: i) simp_all

lemma accrue_identity [simp]: "identity (accrue_penalty cfg i now s) = identity s"
  by (simp add: accrue_penalty_def Let_def)

lemma directors_cong [simp]:
  "directors_to_freeze cfg i (s\<lparr>organizations := os, org_penalty_debt := d, last_penalty_block := l, org_events := es\<rparr>)
     = directors_to_freeze cfg i s"
  by (simp add: directors_to_freeze_def crew_of_def[abs_def])

lemma delinquent_identity:
  "identity (mark_delinquent cfg i now org s)
     = fold (Organization.freeze_citizen cfg) (directors_to_freeze cfg i s) (identity s)"
  by (simp add: mark_delinquent_def Let_def emit_org_def)

lemma punished_identity:
  assumes "organizations s i = Some org" "org_status org = org_status.Active"
    "tax_period_blocks cfg < now - last_tax_period_paid org"
  shows "identity (snd (apply_punishment cfg i now s))
     = fold (Organization.freeze_citizen cfg) (directors_to_freeze cfg i s) (identity s)"
  using assms by (simp add: apply_punishment_def delinquent_identity Let_def sat_sub_def)

lemma unfreeze_frozen:
  assumes "status_of i d = Some citizen_status.Frozen"
  shows "\<exists>u. unfreeze_citizen Root d i = Ok u \<and> status_of u d = Some citizen_status.Active
    \<and> death_records u = death_records i"
  using assms by (auto simp: status_of_def unfreeze_citizen_def emit_id_def put_citizen_def)

text \<open>A dead director rises with the arrears of the organization: when the punishment of an overdue active organization
  reaches a director on record as deceased, the bridge turns the status to frozen without looking at it, and the
  unfreezing that refuses the deceased makes the citizen active, death record and all.\<close>

theorem arrears_raise_the_dead:
  assumes "Organization.freeze_citizen cfg = org_identity_bridge"
    and "organizations s i = Some org" "org_status org = org_status.Active"
    and "tax_period_blocks cfg < now - last_tax_period_paid org"
    and "d \<in> set (directors_to_freeze cfg i s)" "status_of (identity s) d = Some Deceased"
  shows "\<exists>u. unfreeze_citizen Root d (identity (snd (apply_punishment cfg i now s))) = Ok u
    \<and> status_of u d = Some citizen_status.Active \<and> death_records u d = death_records (identity s) d"
proof -
  have "identity (snd (apply_punishment cfg i now s)) = fold org_identity_bridge (directors_to_freeze cfg i s) (identity s)"
    using punished_identity[OF assms(2-4)] assms(1) by simp
  moreover have "status_of (fold org_identity_bridge (directors_to_freeze cfg i s) (identity s)) d
      = Some citizen_status.Frozen"
    using assms(5,6) by (simp add: bridge_fold)
  ultimately show ?thesis using unfreeze_frozen by fastforce
qed

text \<open>One organization whose only director has died, eleven blocks after its last return.\<close>

definition dead_citizen :: citizen_record where
  "dead_citizen = (newborn 1 5 6 [])\<lparr>status := Deceased\<rparr>"

definition joined_config :: "(book, unit identity_state) org_config" where
  "joined_config = \<lparr>shielded_vaults = \<lparr>vault_currency = book_base 5, is_state_account = (\<lambda>a. a = 51),
       vault_confederation_treasury = 51, regional_treasury_for = (\<lambda>_ _. None)\<rparr>,
     freeze_citizen = org_identity_bridge, tax_period_blocks = 10, penalty_accrual_period_blocks = 5,
     base_penalty_amount = 100, auditor_reward_amount = 30, region_treasury_account = 50,
     confederation_treasury_account = 51, min_tax_amount = 20, max_orgs_per_block = 2, max_name_length = 8,
     max_directors_per_org = 3, org_activation_deposit = 10, max_founders = 2, blake2_256 = (\<lambda>b. b),
     decode_account = length, crew_order = (\<lambda>m. if m 11 = None then [] else [11])\<rparr>"

definition overdue_org :: organization where
  "overdue_org = \<lparr>org_name = [65], hq_region = 7, org_status = org_status.Active, bank_account_id = 60,
     last_tax_period_paid = 0, registered_at = 0\<rparr>"

definition joined_state :: "(book, unit identity_state) org_state" where
  "joined_state = (org_empty \<lparr>bal = (\<lambda>_. 0), issued = 0, lock_of = (\<lambda>_ _. None)\<rparr>
       ((identity_start ())\<lparr>citizens := [11 \<mapsto> dead_citizen]\<rparr>))
     \<lparr>organizations := [0 \<mapsto> overdue_org],
      crew_members := [(0, 11) \<mapsto> \<lparr>crew_role = Director, region_assigned = 7, active_since = 0\<rparr>]\<rparr>"

lemma arrears_raise_the_dead_witness:
  "\<exists>u. unfreeze_citizen Root 11 (identity (snd (apply_punishment joined_config 0 11 joined_state))) = Ok u
    \<and> status_of u 11 = Some citizen_status.Active"
  using arrears_raise_the_dead[of joined_config joined_state 0 overdue_org 11 11]
  by (auto simp: joined_config_def joined_state_def overdue_org_def org_empty_def directors_to_freeze_def crew_of_def
      status_of_def dead_citizen_def identity_start_def)

end
