(* ===== verification/Reservable.thy ===== *)
theory Reservable
  imports Currency
begin

text \<open>
  \<open>ReservableCurrency\<close>: part of a balance set aside. Like the currency it is a parameter of the pallets; \<open>reservable_ok\<close>
  is the documented behaviour of the trait, and \<open>pouch_currency\<close> a concrete ledger that has it. The imbalance a slash
  returns is dropped by the callers modelled here, so the slash is the burning one.
\<close>

record 'x reservable_currency = "'x currency" +
  reserved_balance :: "'x \<Rightarrow> account \<Rightarrow> balance"
  reserve_funds :: "'x \<Rightarrow> account \<Rightarrow> balance \<Rightarrow> ('x, nat) result"
  unreserve :: "'x \<Rightarrow> account \<Rightarrow> balance \<Rightarrow> 'x"
  slash_reserved :: "'x \<Rightarrow> account \<Rightarrow> balance \<Rightarrow> 'x"

definition same_reserves :: "('x, 'z) reservable_currency_scheme \<Rightarrow> 'x \<Rightarrow> 'x \<Rightarrow> bool" where
  "same_reserves cur x y \<longleftrightarrow> reserved_balance cur y = reserved_balance cur x"

definition reserve_ok :: "('x, 'z) reservable_currency_scheme \<Rightarrow> bool" where
  "reserve_ok cur \<longleftrightarrow> (\<forall>x a v y. reserve_funds cur x a v = Ok y \<longrightarrow>
     v \<le> free_balance cur x a \<and> total_issuance cur y = total_issuance cur x
     \<and> free_balance cur y = (free_balance cur x)(a := free_balance cur x a - v)
     \<and> reserved_balance cur y = (reserved_balance cur x)(a := reserved_balance cur x a + v))"

text \<open>\<open>unreserve\<close> and \<open>slash_reserved\<close> work up to what is reserved.\<close>

definition unreserve_ok :: "('x, 'z) reservable_currency_scheme \<Rightarrow> bool" where
  "unreserve_ok cur \<longleftrightarrow> (\<forall>x a v.
     total_issuance cur (unreserve cur x a v) = total_issuance cur x
     \<and> free_balance cur (unreserve cur x a v)
         = (free_balance cur x)(a := free_balance cur x a + min v (reserved_balance cur x a))
     \<and> reserved_balance cur (unreserve cur x a v) = (reserved_balance cur x)(a := reserved_balance cur x a - v))"

definition slash_ok :: "('x, 'z) reservable_currency_scheme \<Rightarrow> bool" where
  "slash_ok cur \<longleftrightarrow> (\<forall>x a v.
     total_issuance cur (slash_reserved cur x a v) = total_issuance cur x - min v (reserved_balance cur x a)
     \<and> free_balance cur (slash_reserved cur x a v) = free_balance cur x
     \<and> reserved_balance cur (slash_reserved cur x a v) = (reserved_balance cur x)(a := reserved_balance cur x a - v))"

definition reservable_ok :: "('x, 'z) reservable_currency_scheme \<Rightarrow> bool" where
  "reservable_ok cur \<longleftrightarrow> currency_ok cur \<and> reserve_ok cur \<and> unreserve_ok cur \<and> slash_ok cur
     \<and> (\<forall>x a b v e y. transfer cur x a b v e = Ok y \<longrightarrow> same_reserves cur x y)
     \<and> (\<forall>x a v. same_reserves cur x (deposit_creating cur x a v))
     \<and> (\<forall>x a v e y. withdraw cur x a v e = Ok y \<longrightarrow> same_reserves cur x y)"

lemma reserveD:
  assumes "reservable_ok cur" "reserve_funds cur x a v = Ok y"
  shows "v \<le> free_balance cur x a" "total_issuance cur y = total_issuance cur x"
    "free_balance cur y = (free_balance cur x)(a := free_balance cur x a - v)"
    "reserved_balance cur y = (reserved_balance cur x)(a := reserved_balance cur x a + v)"
  using assms unfolding reservable_ok_def reserve_ok_def by blast+

lemma unreserve_simps:
  assumes "reservable_ok cur"
  shows "total_issuance cur (unreserve cur x a v) = total_issuance cur x"
    "free_balance cur (unreserve cur x a v)
       = (free_balance cur x)(a := free_balance cur x a + min v (reserved_balance cur x a))"
    "reserved_balance cur (unreserve cur x a v) = (reserved_balance cur x)(a := reserved_balance cur x a - v)"
  using assms unfolding reservable_ok_def unreserve_ok_def by blast+

lemma slash_simps:
  assumes "reservable_ok cur"
  shows "total_issuance cur (slash_reserved cur x a v) = total_issuance cur x - min v (reserved_balance cur x a)"
    "free_balance cur (slash_reserved cur x a v) = free_balance cur x"
    "reserved_balance cur (slash_reserved cur x a v) = (reserved_balance cur x)(a := reserved_balance cur x a - v)"
  using assms unfolding reservable_ok_def slash_ok_def by blast+

lemma transfer_reserves:
  "reservable_ok cur \<Longrightarrow> transfer cur x a b v e = Ok y \<Longrightarrow> reserved_balance cur y = reserved_balance cur x"
  unfolding reservable_ok_def same_reserves_def by blast

lemma reservable_currency: "reservable_ok cur \<Longrightarrow> currency_ok cur"
  by (simp add: reservable_ok_def)

section \<open>A concrete ledger\<close>

record pouch = book +
  set_aside :: "account \<Rightarrow> balance"

text \<open>The operations of \<open>book\<close> on a ledger with more fields.\<close>

definition on_book :: "(book \<Rightarrow> book) \<Rightarrow> pouch \<Rightarrow> pouch" where
  "on_book f x = book.extend (f (book.truncate x)) (book.more x)"

definition on_book_result :: "(book \<Rightarrow> (book, nat) result) \<Rightarrow> pouch \<Rightarrow> (pouch, nat) result" where
  "on_book_result f x = (case f (book.truncate x) of Ok b \<Rightarrow> Ok (book.extend b (book.more x)) | Err e \<Rightarrow> Err e)"

definition pouch_currency :: "nat \<Rightarrow> pouch reservable_currency" where
  "pouch_currency ed =
     \<lparr>total_issuance = issued, free_balance = bal,
      deposit_creating = (\<lambda>x a v. on_book (\<lambda>b. book_deposit ed b a v) x),
      withdraw = (\<lambda>x a v e. on_book_result (\<lambda>b. book_withdraw ed b a v e) x),
      transfer = (\<lambda>x a b v e. on_book_result (\<lambda>k. book_transfer ed k a b v e) x),
      reserved_balance = set_aside,
      reserve_funds = (\<lambda>x a v. if bal x a < v then Err 2
        else Ok (x\<lparr>bal := (bal x)(a := bal x a - v), set_aside := (set_aside x)(a := set_aside x a + v)\<rparr>)),
      unreserve = (\<lambda>x a v. x\<lparr>bal := (bal x)(a := bal x a + min v (set_aside x a)),
        set_aside := (set_aside x)(a := set_aside x a - v)\<rparr>),
      slash_reserved = (\<lambda>x a v. x\<lparr>issued := issued x - min v (set_aside x a),
        set_aside := (set_aside x)(a := set_aside x a - v)\<rparr>)\<rparr>"

lemmas pouch_defs = pouch_currency_def on_book_def on_book_result_def book.defs

lemma pouch_sel [simp]:
  "total_issuance (pouch_currency ed) = issued" "free_balance (pouch_currency ed) = bal"
  "reserved_balance (pouch_currency ed) = set_aside"
  by (simp_all add: pouch_currency_def)

lemma book_surj: "\<lparr>bal = bal x, issued = issued x, lock_of = lock_of x, \<dots> = book.more x\<rparr> = x"
  by (cases x) simp

lemma set_aside_more: "set_aside \<lparr>bal = b, issued = i, lock_of = l, \<dots> = book.more x\<rparr> = set_aside x"
  by (cases x) simp

lemma pouch_reservable: "reservable_ok (pouch_currency ed)"
proof -
  have "deposit_ok (pouch_currency ed)"
    by (auto simp: deposit_ok_def pouch_defs book_defs book_surj)
  moreover have "withdraw_ok (pouch_currency ed)"
    by (auto simp: withdraw_ok_def pouch_defs book_defs split: if_splits result.splits)
  moreover have "transfer_ok (pouch_currency ed)"
    by (auto simp: transfer_ok_def pouch_defs book_defs split: if_splits result.splits)
  moreover have "reserve_ok (pouch_currency ed)" "unreserve_ok (pouch_currency ed)" "slash_ok (pouch_currency ed)"
    by (auto simp: reserve_ok_def unreserve_ok_def slash_ok_def pouch_currency_def split: if_splits)
  moreover have "\<forall>x a b v e y. transfer (pouch_currency ed) x a b v e = Ok y \<longrightarrow> same_reserves (pouch_currency ed) x y"
    by (auto simp: same_reserves_def pouch_defs book_defs set_aside_more split: if_splits result.splits)
  moreover have "\<forall>x a v. same_reserves (pouch_currency ed) x (deposit_creating (pouch_currency ed) x a v)"
    by (auto simp: same_reserves_def pouch_defs book_defs set_aside_more)
  moreover have "\<forall>x a v e y. withdraw (pouch_currency ed) x a v e = Ok y \<longrightarrow> same_reserves (pouch_currency ed) x y"
    by (auto simp: same_reserves_def pouch_defs book_defs set_aside_more split: if_splits result.splits)
  ultimately show ?thesis by (simp add: reservable_ok_def currency_ok_def)
qed

end
