(* ===== verification/Inheritance.thy ===== *)
theory Inheritance
  imports Reservable Pallet_Interfaces
begin

text \<open>
  \<^verbatim>\<open>pallets/inheritance/src/lib.rs\<close>: wills, their notarization and their execution.

  \<open>'x\<close> is the ledger with the storage of the guilds, the identity and the bank operator pallets, which the pallet
  reads through the parameters \<open>is_valid_notary\<close>, \<open>is_deceased\<close> and \<open>total_outstanding_debt\<close>.
\<close>

section \<open>Data\<close>

record will =
  heirs :: "(account \<times> nat) list"
  is_notarized :: bool
  notary :: "account option"

datatype will_event =
    WillDrafted account nat
  | WillNotarized account account balance
  | WillExecuted account balance
  | FallbackToTreasury account balance
  | DeadDebtLiquidated account balance balance

datatype will_error =
    HeirsShareNot100
  | NoHeirsDeclared
  | NotValidNotary
  | CitizenNotDeceased
  | NoActiveWill
  | InsufficientFeeBalance
  | TooManyHeirs
  | CannotNotarizeSelf

type_synonym will_failure = "will_error dispatch_error"

record 'x will_state =
  estate_ledger :: 'x
  active_wills :: "account \<Rightarrow> will option"
  will_events :: "will_event list"

record 'x will_config =
  will_currency :: "'x reservable_currency"
  is_valid_notary :: "'x \<Rightarrow> account \<Rightarrow> bool"
  is_deceased :: "'x \<Rightarrow> account \<Rightarrow> bool"
  total_outstanding_debt :: "'x \<Rightarrow> account \<Rightarrow> balance"
  state_treasury :: account
  max_heirs :: nat

definition emit_will :: "will_event \<Rightarrow> 'x will_state \<Rightarrow> 'x will_state" where
  "emit_will e s = s\<lparr>will_events := will_events s @ [e]\<rparr>"

lemma emit_will_simps [simp]:
  "estate_ledger (emit_will e s) = estate_ledger s" "active_wills (emit_will e s) = active_wills s"
  by (simp_all add: emit_will_def)

section \<open>Dispatchables\<close>

text \<open>Percentages are \<open>u8\<close> and their sum is taken in \<open>u32\<close>, which no encodable list reaches.\<close>

definition draft_will ::
  "'x will_config \<Rightarrow> origin \<Rightarrow> (account \<times> nat) list \<Rightarrow> 'x will_state \<Rightarrow> ('x will_state, will_failure) result" where
  "draft_will cfg og hs s =
     and_then (ensure_signed og) (\<lambda>caller.
     ensure (hs \<noteq> []) (Module NoHeirsDeclared) (
     ensure (sum_list (map snd hs) = 100) (Module HeirsShareNot100) (
     ensure (length hs \<le> max_heirs cfg) (Module TooManyHeirs) (
     Ok (emit_will (WillDrafted caller (length hs))
          (s\<lparr>active_wills := (active_wills s)(caller \<mapsto> \<lparr>heirs = hs, is_notarized = False, notary = None\<rparr>)\<rparr>))))))"

definition notarize_will ::
  "'x will_config \<Rightarrow> origin \<Rightarrow> account \<Rightarrow> balance \<Rightarrow> 'x will_state \<Rightarrow> ('x will_state, will_failure) result" where
  "notarize_will cfg og target fee s =
     and_then (ensure_signed og) (\<lambda>who.
     ensure (who \<noteq> target) (Module CannotNotarizeSelf) (
     ensure (is_valid_notary cfg (estate_ledger s) who) (Module NotValidNotary) (
     ok_or (active_wills s target) (Module NoActiveWill) (\<lambda>w.
     and_then (map_err (\<lambda>_. Module InsufficientFeeBalance)
       (transfer (will_currency cfg) (estate_ledger s) target who fee KeepAlive)) (\<lambda>x.
     Ok (emit_will (WillNotarized target who fee)
          (s\<lparr>estate_ledger := x,
             active_wills := (active_wills s)(target \<mapsto> w\<lparr>is_notarized := True, notary := Some who\<rparr>)\<rparr>)))))))"

text \<open>The share of each heir: the floor of the percentage, and what is left to the last.\<close>

fun estate_shares :: "balance \<Rightarrow> nat \<Rightarrow> (account \<times> nat) list \<Rightarrow> balance list" where
  "estate_shares estate distributed [] = []"
| "estate_shares estate distributed [h] = [sat_sub estate distributed]"
| "estate_shares estate distributed (h # hs) =
     (let share = sat_mul 128 estate (snd h) div 100
      in share # estate_shares estate (sat_add 128 distributed share) hs)"

text \<open>A transfer to an heir that fails is passed over.\<close>

definition pay_heir :: "'x will_config \<Rightarrow> account \<Rightarrow> account \<times> balance \<Rightarrow> 'x \<Rightarrow> 'x" where
  "pay_heir cfg deceased hs x =
     (if snd hs = 0 then x
      else case transfer (will_currency cfg) x deceased (fst hs) (snd hs) AllowDeath of Ok y \<Rightarrow> y | Err _ \<Rightarrow> x)"

definition distribute :: "'x will_config \<Rightarrow> account \<Rightarrow> balance \<Rightarrow> (account \<times> nat) list \<Rightarrow> 'x \<Rightarrow> 'x" where
  "distribute cfg deceased estate hs x =
     fold (pay_heir cfg deceased) (zip (map fst hs) (estate_shares estate 0 hs)) x"

text \<open>The outstanding debt is a \<open>u128\<close>, as the balance is.\<close>

definition settle_debt ::
  "'x will_config \<Rightarrow> account \<Rightarrow> balance \<Rightarrow> 'x will_state \<Rightarrow> balance \<times> 'x will_state" where
  "settle_debt cfg deceased reserved s =
     (let outstanding = total_outstanding_debt cfg (estate_ledger s) deceased in
      if outstanding > 0
      then let debt_to_burn = min outstanding reserved;
               remainder = sat_sub reserved debt_to_burn
           in (remainder, emit_will (DeadDebtLiquidated deceased debt_to_burn remainder)
                 (s\<lparr>estate_ledger := slash_reserved (will_currency cfg) (estate_ledger s) deceased debt_to_burn\<rparr>))
      else (reserved, s))"

text \<open>Without a notarized will the estate goes to the state; a draft is dropped.\<close>

definition escheat :: "'x will_config \<Rightarrow> account \<Rightarrow> balance \<Rightarrow> 'x will_state \<Rightarrow> 'x will_state" where
  "escheat cfg deceased reserved s =
     (let x = estate_ledger s;
          y = (if reserved > 0
               then let z = unreserve (will_currency cfg) x deceased reserved in
                 (case transfer (will_currency cfg) z deceased (state_treasury cfg) reserved AllowDeath of
                    Ok y \<Rightarrow> y | Err _ \<Rightarrow> z)
               else x)
      in emit_will (FallbackToTreasury deceased reserved)
           (s\<lparr>estate_ledger := y, active_wills := (active_wills s)(deceased := None)\<rparr>))"

text \<open>It never fails.\<close>

definition do_execute_will :: "'x will_config \<Rightarrow> account \<Rightarrow> 'x will_state \<Rightarrow> 'x will_state" where
  "do_execute_will cfg deceased s =
     (let reserved = reserved_balance (will_currency cfg) (estate_ledger s) deceased in
      case active_wills s deceased of
        Some w \<Rightarrow>
          if is_notarized w
          then if reserved = 0 then emit_will (WillExecuted deceased 0) s
            else let (net_for_heirs, s1) = settle_debt cfg deceased reserved s;
                     x = unreserve (will_currency cfg) (estate_ledger s1) deceased net_for_heirs
                 in emit_will (WillExecuted deceased
                        (fold (\<lambda>v d. sat_add 128 d v) (estate_shares net_for_heirs 0 (heirs w)) 0))
                      (s1\<lparr>estate_ledger := distribute cfg deceased net_for_heirs (heirs w) x,
                          active_wills := (active_wills s1)(deceased := None)\<rparr>)
          else escheat cfg deceased reserved s
      | None \<Rightarrow> escheat cfg deceased reserved s)"

definition execute_will ::
  "'x will_config \<Rightarrow> origin \<Rightarrow> account \<Rightarrow> 'x will_state \<Rightarrow> ('x will_state, will_failure) result" where
  "execute_will cfg og deceased s =
     and_then (ensure_signed og) (\<lambda>_.
     ensure (is_deceased cfg (estate_ledger s) deceased) (Module CitizenNotDeceased) (
     Ok (do_execute_will cfg deceased s)))"

text \<open>The hook of the death registration drops the result.\<close>

definition trigger_inheritance :: "'x will_config \<Rightarrow> account \<Rightarrow> 'x will_state \<Rightarrow> 'x will_state" where
  "trigger_inheritance cfg deceased s = do_execute_will cfg deceased s"

datatype will_call =
    DraftWill "(account \<times> nat) list"
  | NotarizeWill account balance
  | ExecuteWill account

fun will_dispatch :: "'x will_config \<Rightarrow> origin \<times> will_call \<Rightarrow> 'x will_state \<Rightarrow> ('x will_state, will_failure) result" where
  "will_dispatch cfg (og, DraftWill hs) s = draft_will cfg og hs s"
| "will_dispatch cfg (og, NotarizeWill a f) s = notarize_will cfg og a f s"
| "will_dispatch cfg (og, ExecuteWill a) s = execute_will cfg og a s"

section \<open>Wills are whole\<close>

definition wills_ok :: "'x will_config \<Rightarrow> 'x will_state \<Rightarrow> bool" where
  "wills_ok cfg s \<longleftrightarrow> (\<forall>a w. active_wills s a = Some w \<longrightarrow>
     heirs w \<noteq> [] \<and> sum_list (map snd (heirs w)) = 100 \<and> length (heirs w) \<le> max_heirs cfg)"

text \<open>Other pallets move the ledger, and the death of a citizen triggers an execution.\<close>

definition will_foreign :: "'x will_config \<Rightarrow> 'x will_state \<Rightarrow> 'x will_state \<Rightarrow> bool" where
  "will_foreign cfg s t \<longleftrightarrow> (\<exists>x. t = s\<lparr>estate_ledger := x\<rparr>) \<or> (\<exists>a. t = trigger_inheritance cfg a s)"

lemma settle_debt_wills [simp]: "active_wills (snd (settle_debt cfg a r s)) = active_wills s"
  by (simp add: settle_debt_def Let_def)

lemma execute_wills: "active_wills (do_execute_will cfg a s) b = (if b = a then active_wills (do_execute_will cfg a s) a else active_wills s b)"
  by (auto simp: do_execute_will_def escheat_def Let_def split: option.split prod.split)
    (metis settle_debt_wills snd_conv)

lemma execute_wills_subset: "active_wills (do_execute_will cfg a s) b \<in> {None, active_wills s b}"
  by (auto simp: do_execute_will_def escheat_def Let_def split: option.split prod.split)
    (metis settle_debt_wills snd_conv)

lemma wills_ok_execute:
  assumes "wills_ok cfg s"
  shows "wills_ok cfg (do_execute_will cfg a s)"
proof -
  have "active_wills s b = Some w" if "active_wills (do_execute_will cfg a s) b = Some w" for b w
    using execute_wills_subset[of cfg a s b] that by auto
  then show ?thesis using assms unfolding wills_ok_def by blast
qed

lemma wills_ok_step:
  assumes "wills_ok cfg s" "will_dispatch cfg (og, c) s = Ok t"
  shows "wills_ok cfg t"
proof (cases c)
  case (ExecuteWill a)
  then show ?thesis using assms by (auto simp: execute_will_def ok_simps wills_ok_execute)
qed (use assms in \<open>auto simp: draft_will_def notarize_will_def ok_simps wills_ok_def split: if_splits\<close>)

interpretation estates: pallet_machine "will_dispatch cfg" "will_foreign cfg" "wills_ok cfg" for cfg
proof
  fix s c t
  assume "wills_ok cfg s" "will_dispatch cfg c s = Ok t"
  then show "wills_ok cfg t" by (cases c) (auto intro: wills_ok_step)
next
  fix s t
  assume "wills_ok cfg s" "will_foreign cfg s t"
  then show "wills_ok cfg t"
    by (auto simp: will_foreign_def trigger_inheritance_def wills_ok_execute) (simp add: wills_ok_def)
qed

section \<open>Shares\<close>

lemma share_le: "100 * (sat_mul 128 estate p div 100) \<le> estate * p"
  by (simp add: sat_mul_def)

lemma estate_shares_sum:
  assumes "hs \<noteq> []" "100 * d + estate * sum_list (map snd hs) \<le> 100 * estate" "estate \<le> umax 128"
  shows "sum_list (estate_shares estate d hs) = estate - d"
  using assms
proof (induction estate d hs rule: estate_shares.induct)
  case (3 estate d h h' hs)
  let ?share = "sat_mul 128 estate (snd h) div 100"
  have le: "100 * ?share \<le> estate * snd h" by (rule share_le)
  have sum: "100 * (d + ?share) + estate * sum_list (map snd (h' # hs)) \<le> 100 * estate"
    using 3(3) le by (simp add: algebra_simps)
  then have fits: "d + ?share \<le> estate" by simp
  then have exact: "sat_add 128 d ?share = d + ?share" using 3(4) by (simp add: sat_add_def)
  have "sum_list (estate_shares estate (sat_add 128 d ?share) (h' # hs)) = estate - (d + ?share)"
    using 3(1)[OF refl] sum 3(4) unfolding exact by blast
  then show ?case using fits by (simp add: Let_def)
qed (simp_all add: sat_sub_def)

lemma estate_shares_length [simp]: "length (estate_shares estate d hs) = length hs"
  by (induction estate d hs rule: estate_shares.induct) (simp_all add: Let_def)

lemma estate_shares_nth:
  assumes "Suc i < length hs" "100 * estate \<le> umax 128" "\<And>h. h \<in> set hs \<Longrightarrow> snd h \<le> 100"
  shows "estate_shares estate d hs ! i = estate * snd (hs ! i) div 100"
  using assms
proof (induction estate d hs arbitrary: i rule: estate_shares.induct)
  case (3 estate d h h' hs)
  have "estate * snd h \<le> estate * 100" using 3(4)[of h] by (intro mult_le_mono) auto
  then have "estate * snd h \<le> umax 128" using 3(3) by linarith
  then have "sat_mul 128 estate (snd h) = estate * snd h" by (simp add: sat_mul_def)
  moreover have "i > 0 \<Longrightarrow> estate_shares estate (sat_add 128 d (sat_mul 128 estate (snd h) div 100)) (h' # hs) ! (i - 1)
      = estate * snd ((h' # hs) ! (i - 1)) div 100"
    using 3(1)[OF refl, of "i - 1"] 3(2-4) by fastforce
  ultimately show ?case by (cases i) (simp_all add: Let_def)
qed simp_all

section \<open>Reserves of the deceased\<close>

lemma pay_heir_reserves:
  "reservable_ok (will_currency cfg) \<Longrightarrow>
   reserved_balance (will_currency cfg) (pay_heir cfg a h x) = reserved_balance (will_currency cfg) x"
  by (auto simp: pay_heir_def transfer_reserves split: result.split)

lemma distribute_reserves:
  assumes "reservable_ok (will_currency cfg)"
  shows "reserved_balance (will_currency cfg) (distribute cfg a n hs x) = reserved_balance (will_currency cfg) x"
proof -
  have "reserved_balance (will_currency cfg) (fold (pay_heir cfg a) ps x) = reserved_balance (will_currency cfg) x" for ps x
    by (induction ps arbitrary: x) (simp_all add: pay_heir_reserves[OF assms])
  then show ?thesis by (simp add: distribute_def)
qed

lemma pay_heir_issuance:
  "currency_ok cur \<Longrightarrow> cur = will_currency cfg \<Longrightarrow> total_issuance cur (pay_heir cfg a h x) \<le> total_issuance cur x"
  by (auto simp: pay_heir_def dest: transfer_issuance_le split: result.split)

lemma distribute_issuance:
  assumes "currency_ok (will_currency cfg)"
  shows "total_issuance (will_currency cfg) (distribute cfg a n hs x) \<le> total_issuance (will_currency cfg) x"
proof -
  let ?cur = "will_currency cfg"
  have "total_issuance ?cur (fold (pay_heir cfg a) ps z) \<le> total_issuance ?cur z" for ps z
  proof (induction ps arbitrary: z)
    case (Cons p ps)
    have "total_issuance ?cur (pay_heir cfg a p z) \<le> total_issuance ?cur z"
      by (rule pay_heir_issuance[OF assms refl])
    with Cons[of "pay_heir cfg a p z"] show ?case by (simp add: le_trans[rotated])
  qed simp
  then show ?thesis by (simp add: distribute_def)
qed

lemma settle_debt_effect:
  assumes "reservable_ok (will_currency cfg)" "debt = min (total_outstanding_debt cfg (estate_ledger s) a) r"
  shows "fst (settle_debt cfg a r s) = r - debt"
    "total_issuance (will_currency cfg) (estate_ledger (snd (settle_debt cfg a r s)))
       = total_issuance (will_currency cfg) (estate_ledger s)
         - min debt (reserved_balance (will_currency cfg) (estate_ledger s) a)"
    "reserved_balance (will_currency cfg) (estate_ledger (snd (settle_debt cfg a r s))) a
       = reserved_balance (will_currency cfg) (estate_ledger s) a - debt"
  unfolding assms(2) by (simp_all add: settle_debt_def Let_def slash_simps[OF assms(1)] sat_sub_def)

lemma nothing_reserved:
  assumes ok: "reservable_ok (will_currency cfg)"
  shows "reserved_balance (will_currency cfg) (estate_ledger (do_execute_will cfg a s)) a = 0"
proof -
  let ?cur = "will_currency cfg" and ?x = "estate_ledger s"
  have escheat: "reserved_balance ?cur (estate_ledger (escheat cfg a (reserved_balance ?cur ?x a) s)) a = 0"
    using transfer_reserves[OF ok]
    by (auto simp: escheat_def Let_def unreserve_simps[OF ok] split: result.split)
  show ?thesis
  proof (cases "active_wills s a")
    case None
    with escheat show ?thesis by (simp add: do_execute_will_def Let_def)
  next
    case (Some w)
    obtain n s1 where n: "settle_debt cfg a (reserved_balance ?cur ?x a) s = (n, s1)" by fastforce
    have "reserved_balance ?cur (estate_ledger s1) a = n"
      using n settle_debt_effect(1,3)[OF ok refl, where s = s and a = a and r = "reserved_balance ?cur ?x a"] by simp
    with Some n escheat show ?thesis
      by (simp add: do_execute_will_def Let_def distribute_reserves[OF ok] unreserve_simps[OF ok])
  qed
qed

end
