(* ===== verification/Inheritance_Claims.thy ===== *)
theory Inheritance_Claims
  imports Inheritance Identity_Laws
begin

text \<open>
  Properties of wills, and their composition with the identity pallet: the registration of a death runs the hook of
  \<^verbatim>\<open>runtime/src/configs/mod.rs\<close>, which cleans up guilds and chancery and then executes the will.
\<close>

section \<open>Execution\<close>

text \<open>No transfer to an heir is refused (an heir who is to receive nothing is passed over).\<close>

fun all_paid :: "'x will_config \<Rightarrow> account \<Rightarrow> (account \<times> balance) list \<Rightarrow> 'x \<Rightarrow> bool" where
  "all_paid cfg a [] x = True"
| "all_paid cfg a (h # hs) x =
     ((snd h = 0 \<or> (\<exists>y. transfer (will_currency cfg) x a (fst h) (snd h) AllowDeath = Ok y))
      \<and> all_paid cfg a hs (pay_heir cfg a h x))"

text \<open>What the list of payments holds for account \<open>b\<close>.\<close>

definition due_to :: "account \<Rightarrow> (account \<times> balance) list \<Rightarrow> balance" where
  "due_to b hs = sum_list (map snd (filter (\<lambda>h. fst h = b) hs))"

lemma payments_arrive:
  assumes cur: "currency_ok (will_currency cfg)" and b: "b \<noteq> a"
  shows "all_paid cfg a hs x \<Longrightarrow>
    free_balance (will_currency cfg) (fold (pay_heir cfg a) hs x) b = free_balance (will_currency cfg) x b + due_to b hs"
proof (induction hs arbitrary: x)
  case (Cons h hs)
  have "free_balance (will_currency cfg) (pay_heir cfg a h x) b
      = free_balance (will_currency cfg) x b + (if fst h = b then snd h else 0)"
    using Cons.prems transfer_deathD(3)[OF cur _ b] by (auto simp: pay_heir_def)
  with Cons show ?case by (simp add: due_to_def)
qed (simp add: due_to_def)

text \<open>C17: In every state the pallet reaches from empty storage, executing a notarized will over an estate that is reserved
  hands out exactly what is left of the estate after the debt. The debt, and nothing else, is slashed from the
  reserve: before the heirs are paid the issuance has fallen by exactly the debt, the deceased's free balance has
  grown by exactly the rest of the reserve, nothing is reserved any more and everybody else has what they had. The
  shares add up to that rest, each but the last is the exact floor of the percentage, and they are transferred in the order
  of the will; if no transfer is refused, every heir has received exactly the shares the will gives them. The will
  is gone.\<close>

theorem will_pays_whole_estate:
  assumes ok: "reservable_ok (will_currency cfg)"
    and "reachable (will_dispatch cfg) (will_foreign cfg) \<lparr>estate_ledger = x0, active_wills = Map.empty, will_events = []\<rparr> s"
    and w: "active_wills s a = Some w" "is_notarized w"
    and reserved: "reserved = reserved_balance (will_currency cfg) (estate_ledger s) a" "0 < reserved"
    and debt: "debt = min (total_outstanding_debt cfg (estate_ledger s) a) reserved"
    and bound: "100 * reserved \<le> umax 128"
    and t: "t = do_execute_will cfg a s"
  shows "\<exists>y shares. shares = estate_shares (reserved - debt) 0 (heirs w)
    \<and> sum_list shares = reserved - debt \<and> length shares = length (heirs w)
    \<and> (\<forall>i. Suc i < length (heirs w) \<longrightarrow> shares ! i = (reserved - debt) * snd (heirs w ! i) div 100)
    \<and> y = unreserve (will_currency cfg)
        (if 0 < debt then slash_reserved (will_currency cfg) (estate_ledger s) a debt else estate_ledger s) a (reserved - debt)
    \<and> total_issuance (will_currency cfg) y = total_issuance (will_currency cfg) (estate_ledger s) - debt
    \<and> free_balance (will_currency cfg) y = (free_balance (will_currency cfg) (estate_ledger s))
        (a := free_balance (will_currency cfg) (estate_ledger s) a + (reserved - debt))
    \<and> estate_ledger t = fold (pay_heir cfg a) (zip (map fst (heirs w)) shares) y
    \<and> (all_paid cfg a (zip (map fst (heirs w)) shares) y \<longrightarrow> (\<forall>b. b \<noteq> a \<longrightarrow>
         free_balance (will_currency cfg) (estate_ledger t) b
           = free_balance (will_currency cfg) (estate_ledger s) b + due_to b (zip (map fst (heirs w)) shares)))
    \<and> reserved_balance (will_currency cfg) (estate_ledger t) a = 0 \<and> active_wills t a = None"
proof -
  let ?cur = "will_currency cfg" and ?net = "reserved - debt" and ?x = "estate_ledger s"
  let ?slashed = "if 0 < debt then slash_reserved ?cur ?x a debt else ?x"
  let ?y = "unreserve ?cur ?slashed a ?net" and ?shares = "estate_shares ?net 0 (heirs w)"
  have "wills_ok cfg s" by (rule estates.reachable_inv[OF assms(2)]) (simp add: wills_ok_def)
  then have hs: "heirs w \<noteq> []" "sum_list (map snd (heirs w)) = 100" using w by (auto simp: wills_ok_def)
  have pct: "snd h \<le> 100" if "h \<in> set (heirs w)" for h
    using member_le_sum_list[of "snd h" "map snd (heirs w)"] that hs(2) by simp
  have net: "100 * ?net \<le> umax 128" "?net \<le> umax 128" using bound by simp_all
  have shares: "sum_list ?shares = ?net" "length ?shares = length (heirs w)"
      "\<forall>i. Suc i < length (heirs w) \<longrightarrow> ?shares ! i = ?net * snd (heirs w ! i) div 100"
    using estate_shares_sum[of "heirs w" 0 ?net] hs net estate_shares_length estate_shares_nth[OF _ net(1) pct] by auto
  have dead: "debt \<le> reserved" "0 < debt \<longleftrightarrow> 0 < total_outstanding_debt cfg ?x a" using debt reserved(2) by auto
  have settled: "fst (settle_debt cfg a reserved s) = ?net" "estate_ledger (snd (settle_debt cfg a reserved s)) = ?slashed"
    using dead debt by (auto simp: settle_debt_def Let_def sat_sub_def)
  have left: "reserved_balance ?cur ?slashed a = ?net" "free_balance ?cur ?slashed = free_balance ?cur ?x"
      "total_issuance ?cur ?slashed = total_issuance ?cur ?x - debt"
    using reserved(1) dead(1) by (auto simp: slash_simps[OF ok] min_absorb1)
  have ledger: "estate_ledger t = fold (pay_heir cfg a) (zip (map fst (heirs w)) ?shares) ?y" "active_wills t a = None"
    using settled w reserved by (simp_all add: t do_execute_will_def Let_def prod.case_eq_if distribute_def)
  have y: "total_issuance ?cur ?y = total_issuance ?cur ?x - debt"
      "free_balance ?cur ?y = (free_balance ?cur ?x)(a := free_balance ?cur ?x a + ?net)"
    using left by (simp_all add: unreserve_simps[OF ok])
  then have "free_balance ?cur (estate_ledger t) b
      = free_balance ?cur ?x b + due_to b (zip (map fst (heirs w)) ?shares)"
    if "all_paid cfg a (zip (map fst (heirs w)) ?shares) ?y" "b \<noteq> a" for b
    using payments_arrive[OF reservable_currency[OF ok] that(2,1)] that(2) by (simp add: ledger(1))
  then show ?thesis
    using shares y ledger nothing_reserved[OF ok, of a s]
    by (intro exI[of _ ?y] exI[of _ ?shares]) (simp add: t)
qed

text \<open>A notary names the fee and the citizen pays it: any valid notary takes any amount the citizen can transfer from the
  account of whoever has a draft, without a word of theirs.\<close>

theorem notary_sets_the_fee:
  assumes "currency_ok (will_currency cfg)" "is_valid_notary cfg (estate_ledger s) n" "n \<noteq> c"
    and "active_wills s c = Some w"
    and "transfer (will_currency cfg) (estate_ledger s) c n fee KeepAlive = Ok x"
  shows "\<exists>t. notarize_will cfg (Signed n) c fee s = Ok t
    \<and> free_balance (will_currency cfg) (estate_ledger t) n = free_balance (will_currency cfg) (estate_ledger s) n + fee
    \<and> free_balance (will_currency cfg) (estate_ledger t) c = free_balance (will_currency cfg) (estate_ledger s) c - fee"
  using assms transfer_keepD(3)[OF assms(1,5)] by (simp add: notarize_will_def)

section \<open>Death\<close>

text \<open>\<open>TerminalHookImpl\<close>: \<open>cleanup\<close> stands for the guilds and the chancery, whose storage is part of \<open>'x\<close>.\<close>

definition terminal_on_deceased ::
  "'x will_config \<Rightarrow> (account \<Rightarrow> 'x \<Rightarrow> 'x) \<Rightarrow> account \<Rightarrow> 'x will_state \<Rightarrow> 'x will_state" where
  "terminal_on_deceased wcfg cleanup who s =
     trigger_inheritance wcfg who (s\<lparr>estate_ledger := cleanup who (estate_ledger s)\<rparr>)"

text \<open>Whoever dies leaves nothing reserved: the registration of a death, whose reservation of the balance is documented
  to freeze it for good, runs the hook in the same call, and the hook empties the reserves, those of quests and
  deposits included, whether there is a will or not.\<close>

theorem death_leaves_nothing_reserved:
  assumes "reservable_ok (will_currency wcfg)"
    and "on_deceased icfg = terminal_on_deceased wcfg cleanup"
    and "register_death icfg og a h s = Ok t"
  shows "reserved_balance (will_currency wcfg) (estate_ledger (world t)) a = 0
    \<and> map_option status (citizens t a) = Some Deceased"
proof -
  obtain z where "world t = on_deceased icfg a z" "map_option status (citizens t a) = Some Deceased"
    using assms(3) unfolding register_death_def Let_def ok_simps Ok_eq by (elim exE conjE) simp
  then show ?thesis
    using nothing_reserved[OF assms(1)] by (simp add: assms(2) terminal_on_deceased_def trigger_inheritance_def)
qed

section \<open>Witnesses\<close>

definition toy_estate :: "pouch will_config" where
  "toy_estate = \<lparr>will_currency = pouch_currency 1, is_valid_notary = (\<lambda>_ a. a = 13), is_deceased = (\<lambda>_ _. True),
     total_outstanding_debt = (\<lambda>_ a. if a = 11 then 10 else 0), state_treasury = 50, max_heirs = 3\<rparr>"

definition toy_pouch :: pouch where
  "toy_pouch = \<lparr>bal = (\<lambda>_. 0)(11 := 40, 21 := 5, 22 := 5), issued = 150, lock_of = (\<lambda>_ _. None),
     set_aside = (\<lambda>_. 0)(11 := 101)\<rparr>"

definition toy_wills :: "pouch will_state" where
  "toy_wills = run (will_dispatch toy_estate)
     [(Signed 11, DraftWill [(21, 60), (22, 40)]), (Signed 13, NotarizeWill 11 7)]
     \<lparr>estate_ledger = toy_pouch, active_wills = Map.empty, will_events = []\<rparr>"

lemma toy_estate_sel [simp]:
  "will_currency toy_estate = pouch_currency 1" "is_valid_notary toy_estate x a \<longleftrightarrow> a = 13"
  "is_deceased toy_estate x a" "total_outstanding_debt toy_estate x a = (if a = 11 then 10 else 0)"
  "state_treasury toy_estate = 50" "max_heirs toy_estate = 3"
  by (simp_all add: toy_estate_def)

lemma toy_wills_sel:
  "active_wills toy_wills 11 = Some \<lparr>heirs = [(21, 60), (22, 40)], is_notarized = True, notary = Some 13\<rparr>"
  "set_aside (estate_ledger toy_wills) 11 = 101" "issued (estate_ledger toy_wills) = 150"
  by (simp_all add: toy_wills_def toy_pouch_def execute_def draft_will_def notarize_will_def pouch_defs book_defs)

lemma will_pays_whole_estate_witness:
  "sum_list (estate_shares 91 0 [(21, 60), (22, 40)]) = 91 \<and> estate_shares 91 0 [(21, 60), (22, 40)] ! 0 = 54
    \<and> set_aside (estate_ledger (do_execute_will toy_estate 11 toy_wills)) 11 = 0
    \<and> bal (estate_ledger (do_execute_will toy_estate 11 toy_wills)) 21 = 59
    \<and> bal (estate_ledger (do_execute_will toy_estate 11 toy_wills)) 22 = 42"
proof -
  have run: "reachable (will_dispatch toy_estate) (will_foreign toy_estate)
      \<lparr>estate_ledger = toy_pouch, active_wills = Map.empty, will_events = []\<rparr> toy_wills"
    unfolding toy_wills_def by (rule reachable_run[OF reachable.start])
  have ok: "reservable_ok (will_currency toy_estate)" by (simp add: pouch_reservable)
  have "101 = reserved_balance (will_currency toy_estate) (estate_ledger toy_wills) 11"
    "(10 :: nat) = min (total_outstanding_debt toy_estate (estate_ledger toy_wills) 11) 101"
    "(0 :: nat) < 101" "100 * (101 :: nat) \<le> umax 128" by (simp_all add: toy_wills_sel umax_def)
  from will_pays_whole_estate[OF ok run toy_wills_sel(1) _ this(1,3,2,4) refl]
  obtain y shares where shares: "shares = estate_shares 91 0 [(21, 60), (22, 40)]" "sum_list shares = 91" "shares ! 0 = 54"
    and y: "y = unreserve (pouch_currency 1) (slash_reserved (pouch_currency 1) (estate_ledger toy_wills) 11 10) 11 91"
    and heirs: "all_paid toy_estate 11 (zip [21, 22] shares) y \<longrightarrow> (\<forall>b. b \<noteq> 11 \<longrightarrow>
      bal (estate_ledger (do_execute_will toy_estate 11 toy_wills)) b
        = bal (estate_ledger toy_wills) b + due_to b (zip [21, 22] shares))"
    and none: "set_aside (estate_ledger (do_execute_will toy_estate 11 toy_wills)) 11 = 0"
    by auto
  have "shares = [54, 37]" using shares(1) by (simp add: sat_mul_def sat_add_def sat_sub_def umax_def)
  moreover have "all_paid toy_estate 11 [(21, 54), (22, 37)] y"
    unfolding y by (simp add: toy_wills_def toy_pouch_def execute_def draft_will_def notarize_will_def pay_heir_def pouch_defs book_defs)
  moreover have "bal (estate_ledger toy_wills) 21 = 5" "bal (estate_ledger toy_wills) 22 = 5"
    by (simp_all add: toy_wills_def toy_pouch_def execute_def draft_will_def notarize_will_def pouch_defs book_defs)
  ultimately show ?thesis using heirs none shares by (simp add: due_to_def)
qed

lemma notary_sets_the_fee_witness:
  "\<exists>t. notarize_will toy_estate (Signed 13) 11 32 toy_wills = Ok t
    \<and> free_balance (pouch_currency 1) (estate_ledger t) 13 = 39"
proof -
  have b: "bal (estate_ledger toy_wills) 11 = 33" "bal (estate_ledger toy_wills) 13 = 7"
    by (simp_all add: toy_wills_def toy_pouch_def execute_def draft_will_def notarize_will_def pouch_defs book_defs)
  obtain y where "transfer (pouch_currency 1) (estate_ledger toy_wills) 11 13 32 KeepAlive = Ok y"
    using b by (auto simp: pouch_defs book_defs)
  moreover have "currency_ok (pouch_currency 1)" by (rule reservable_currency[OF pouch_reservable])
  ultimately show ?thesis
    using notary_sets_the_fee[of toy_estate toy_wills 13 11 _ 32 y] toy_wills_sel(1) b
    by auto
qed

definition joined_identity :: "pouch will_state identity_config" where
  "joined_identity = \<lparr>id_currency = \<lparr>total_issuance = (\<lambda>w. issued (estate_ledger w)),
       free_balance = (\<lambda>w. bal (estate_ledger w)), deposit_creating = (\<lambda>w _ _. w), withdraw = (\<lambda>w _ _ _. Err 0),
       transfer = (\<lambda>w _ _ _ _. Err 0)\<rparr>,
     reserve = (\<lambda>w a v. map_err id (and_then (reserve_funds (pouch_currency 1) (estate_ledger w) a v)
       (\<lambda>x. Ok (w\<lparr>estate_ledger := x\<rparr>)))),
     medical_authority = 90, marriage_fee = 1, civil_fee_treasury = 91, arbad_cooldown_period = 100,
     max_registrations_per_block = 5, constitution_hash = None,
     on_deceased = terminal_on_deceased toy_estate (\<lambda>_ x. x), on_exiled = (\<lambda>_ x. x), encode_account = (\<lambda>_. []),
     blake2_256 = (\<lambda>b. b), decode_account = (\<lambda>_. 92)\<rparr>"

definition living :: "pouch will_state identity_state" where
  "living = (identity_start toy_wills)\<lparr>citizens := [11 \<mapsto> newborn 1 5 6 []]\<rparr>"

lemma death_leaves_nothing_reserved_witness:
  "\<exists>t. register_death joined_identity (Signed 90) 11 [] living = Ok t
    \<and> set_aside (estate_ledger (world t)) 11 = 0 \<and> map_option status (citizens t 11) = Some Deceased"
proof -
  have "\<exists>t. register_death joined_identity (Signed 90) 11 [] living = Ok t"
    by (simp add: register_death_def ensure_medical_def joined_identity_def living_def identity_start_def Let_def)
  then obtain t where t: "register_death joined_identity (Signed 90) 11 [] living = Ok t" by blast
  have "on_deceased joined_identity = terminal_on_deceased toy_estate (\<lambda>_ x. x)" by (simp add: joined_identity_def)
  from death_leaves_nothing_reserved[OF _ this t] t show ?thesis
    by (auto simp: pouch_reservable)
qed

end
