(* ===== verification/Black_Book.thy ===== *)
theory Black_Book
  imports Currency Pallet_Interfaces
begin

text \<open>
  \<^verbatim>\<open>pallets/black-book/src/lib.rs\<close>: warrants, bounties on fugitives and their vested payout.

  \<open>'x\<close> is the ledger with the storage of the pallets behind the bridges: the exile of a citizen (whose error is
  passed on), the academy and the delegates of the Khural. A bounty has no account of its own: it lies on the free
  balance of the fugitive.
\<close>

section \<open>Data\<close>

datatype crime_category = Corruption | WarCrime | HighTreason | GrandTheft

datatype fugitive_status = AtLarge | Captured

record crime_record =
  crime_category :: crime_category
  verdict_hash :: h256
  crime_timestamp :: nat
  fugitive_status :: "fugitive_status option"

record locked_payout =
  bounty_hunter :: account
  unlock_block :: nat
  payout_amount :: balance

datatype bounty_event =
    WarrantIssued account crime_category h256 balance bool balance
  | BountyDonation account account balance balance
  | FugitiveCapturedBountyLocked account account balance nat
  | BountyPayoutClaimed account account balance
  | BountyPayoutCancelled account account balance

datatype bounty_error =
    NotInBlackBook
  | NotAtLarge
  | AlreadyCaptured
  | TargetNotCondemned
  | TreasuryInsufficientFunds
  | InsufficientBalance
  | EmptyBountyPool
  | BountyPayoutNotFound
  | BountyPayoutStillLocked
  | BountyAlreadyLocked
  | RequiresImpeachment

type_synonym bounty_failure = "bounty_error dispatch_error"

record 'x bounty_state =
  bounty_world :: 'x
  wall_of_shame :: "account \<Rightarrow> crime_record option"
  bounty_pools :: "account \<Rightarrow> balance option"
  locked_bounty_payouts :: "account \<Rightarrow> locked_payout option"
  bounty_events :: "bounty_event list"

record 'x bounty_config =
  bounty_currency :: "'x currency"
  exile_target :: "account \<Rightarrow> 'x \<Rightarrow> ('x, bounty_failure) result"
  is_academician :: "'x \<Rightarrow> account \<Rightarrow> bool"
  is_active_khural_delegate :: "'x \<Rightarrow> account \<Rightarrow> bool"
  bounty_treasury :: account
  bounty_lock_period :: nat

definition emit_bounty :: "bounty_event \<Rightarrow> 'x bounty_state \<Rightarrow> 'x bounty_state" where
  "emit_bounty e s = s\<lparr>bounty_events := bounty_events s @ [e]\<rparr>"

lemma emit_bounty_simps [simp]:
  "bounty_world (emit_bounty e s) = bounty_world s" "wall_of_shame (emit_bounty e s) = wall_of_shame s"
  "bounty_pools (emit_bounty e s) = bounty_pools s"
  "locked_bounty_payouts (emit_bounty e s) = locked_bounty_payouts s"
  by (simp_all add: emit_bounty_def)

text \<open>An error of the currency is passed on as one of a third party.\<close>

definition pay ::
  "'x bounty_config \<Rightarrow> account \<Rightarrow> account \<Rightarrow> balance \<Rightarrow> existence \<Rightarrow> 'x \<Rightarrow> ('x, bounty_failure) result" where
  "pay cfg a b v e x = map_err ThirdParty (transfer (bounty_currency cfg) x a b v e)"

section \<open>Dispatchables\<close>

text \<open>The balance of the condemned goes to the treasury; the bounty comes back from there to the same account.\<close>

definition confiscate_free :: "'x bounty_config \<Rightarrow> account \<Rightarrow> 'x \<Rightarrow> ('x, bounty_failure) result" where
  "confiscate_free cfg target x =
     (let v = free_balance (bounty_currency cfg) x target in
      if v > 0 then pay cfg target (bounty_treasury cfg) v AllowDeath x else Ok x)"

definition seed_bounty ::
  "'x bounty_config \<Rightarrow> account \<Rightarrow> bool \<Rightarrow> balance \<Rightarrow> 'x bounty_state \<Rightarrow> ('x bounty_state \<times> balance, bounty_failure) result" where
  "seed_bounty cfg target is_fugitive v s =
     (if is_fugitive \<and> v > 0
      then and_then (map_err (\<lambda>_. Module TreasuryInsufficientFunds)
             (transfer (bounty_currency cfg) (bounty_world s) (bounty_treasury cfg) target v KeepAlive)) (\<lambda>x.
           Ok (s\<lparr>bounty_world := x, bounty_pools := (bounty_pools s)(target \<mapsto> v)\<rparr>, v))
      else Ok (s, 0))"

definition condemn_and_issue_warrant ::
  "'x bounty_config \<Rightarrow> env \<Rightarrow> origin \<Rightarrow> account \<Rightarrow> crime_category \<Rightarrow> h256 \<Rightarrow> bool \<Rightarrow> balance \<Rightarrow> 'x bounty_state
   \<Rightarrow> ('x bounty_state, bounty_failure) result" where
  "condemn_and_issue_warrant cfg env og target category verdict is_fugitive initial_bounty s =
     and_then (ensure_root og) (\<lambda>_.
     ensure (\<not> is_academician cfg (bounty_world s) target) (Module RequiresImpeachment) (
     ensure (\<not> is_active_khural_delegate cfg (bounty_world s) target) (Module RequiresImpeachment) (
     and_then (exile_target cfg target (bounty_world s)) (\<lambda>x.
     let confiscated = free_balance (bounty_currency cfg) x target in
     and_then (confiscate_free cfg target x) (\<lambda>y.
     let record = \<lparr>crime_category = category, verdict_hash = verdict,
                    crime_timestamp = min (block_number env) (umax 32),
                    fugitive_status = (if is_fugitive then Some AtLarge else None)\<rparr>
     in and_then (seed_bounty cfg target is_fugitive initial_bounty
            (s\<lparr>bounty_world := y, wall_of_shame := (wall_of_shame s)(target \<mapsto> record)\<rparr>)) (\<lambda>(s1, seeded).
        Ok (emit_bounty (WarrantIssued target category verdict confiscated is_fugitive seeded) s1)))))))"

definition donate_to_bounty ::
  "'x bounty_config \<Rightarrow> origin \<Rightarrow> account \<Rightarrow> balance \<Rightarrow> 'x bounty_state \<Rightarrow> ('x bounty_state, bounty_failure) result" where
  "donate_to_bounty cfg og fugitive v s =
     and_then (ensure_signed og) (\<lambda>donor.
     ok_or (wall_of_shame s fugitive) (Module TargetNotCondemned) (\<lambda>r.
     case fugitive_status r of
       Some AtLarge \<Rightarrow>
         and_then (map_err (\<lambda>_. Module InsufficientBalance)
           (transfer (bounty_currency cfg) (bounty_world s) donor fugitive v KeepAlive)) (\<lambda>x.
         let current = (case bounty_pools s fugitive of Some b \<Rightarrow> b | None \<Rightarrow> 0);
             updated = sat_add 128 current v
         in Ok (emit_bounty (BountyDonation donor fugitive v updated)
              (s\<lparr>bounty_world := x, bounty_pools := (bounty_pools s)(fugitive \<mapsto> updated)\<rparr>)))
     | Some Captured \<Rightarrow> Err (Module AlreadyCaptured)
     | None \<Rightarrow> Err (Module NotAtLarge)))"

definition register_capture_and_payout ::
  "'x bounty_config \<Rightarrow> env \<Rightarrow> origin \<Rightarrow> account \<Rightarrow> account \<Rightarrow> 'x bounty_state \<Rightarrow> ('x bounty_state, bounty_failure) result" where
  "register_capture_and_payout cfg env og fugitive hunter s =
     and_then (ensure_root og) (\<lambda>_.
     ok_or (wall_of_shame s fugitive) (Module NotInBlackBook) (\<lambda>r.
     ensure (fugitive_status r = Some AtLarge) (Module NotAtLarge) (
     ensure (locked_bounty_payouts s fugitive = None) (Module BountyAlreadyLocked) (
     ok_or (bounty_pools s fugitive) (Module EmptyBountyPool) (\<lambda>pool.
     ensure (pool > 0) (Module EmptyBountyPool) (
     let unlock = sat_add 32 (min (block_number env) (umax 32)) (bounty_lock_period cfg)
     in Ok (emit_bounty (FugitiveCapturedBountyLocked fugitive hunter pool unlock)
          (s\<lparr>wall_of_shame := (wall_of_shame s)(fugitive \<mapsto> r\<lparr>fugitive_status := Some Captured\<rparr>),
             locked_bounty_payouts := (locked_bounty_payouts s)(fugitive \<mapsto>
               \<lparr>bounty_hunter = hunter, unlock_block = unlock, payout_amount = pool\<rparr>),
             bounty_pools := (bounty_pools s)(fugitive := None)\<rparr>))))))))"

definition claim_bounty_payout ::
  "'x bounty_config \<Rightarrow> env \<Rightarrow> origin \<Rightarrow> account \<Rightarrow> 'x bounty_state \<Rightarrow> ('x bounty_state, bounty_failure) result" where
  "claim_bounty_payout cfg env og fugitive s =
     and_then (ensure_signed og) (\<lambda>_.
     ok_or (locked_bounty_payouts s fugitive) (Module BountyPayoutNotFound) (\<lambda>l.
     ensure (unlock_block l \<le> min (block_number env) (umax 32)) (Module BountyPayoutStillLocked) (
     and_then (pay cfg fugitive (bounty_hunter l) (payout_amount l) AllowDeath (bounty_world s)) (\<lambda>x.
     Ok (emit_bounty (BountyPayoutClaimed fugitive (bounty_hunter l) (payout_amount l))
          (s\<lparr>bounty_world := x, locked_bounty_payouts := (locked_bounty_payouts s)(fugitive := None)\<rparr>))))))"

definition cancel_bounty_payout ::
  "origin \<Rightarrow> account \<Rightarrow> 'x bounty_state \<Rightarrow> ('x bounty_state, bounty_failure) result" where
  "cancel_bounty_payout og fugitive s =
     and_then (ensure_root og) (\<lambda>_.
     ok_or (locked_bounty_payouts s fugitive) (Module BountyPayoutNotFound) (\<lambda>l.
     Ok (emit_bounty (BountyPayoutCancelled fugitive (bounty_hunter l) (payout_amount l))
          (s\<lparr>locked_bounty_payouts := (locked_bounty_payouts s)(fugitive := None)\<rparr>))))"

datatype bounty_call =
    Condemn account crime_category h256 bool balance
  | Donate account balance
  | RegisterCapture account account
  | ClaimPayout account
  | CancelPayout account

fun bounty_dispatch ::
  "'x bounty_config \<Rightarrow> env \<times> origin \<times> bounty_call \<Rightarrow> 'x bounty_state \<Rightarrow> ('x bounty_state, bounty_failure) result" where
  "bounty_dispatch cfg (env, og, Condemn a k h f v) s = condemn_and_issue_warrant cfg env og a k h f v s"
| "bounty_dispatch cfg (env, og, Donate a v) s = donate_to_bounty cfg og a v s"
| "bounty_dispatch cfg (env, og, RegisterCapture a b) s = register_capture_and_payout cfg env og a b s"
| "bounty_dispatch cfg (env, og, ClaimPayout a) s = claim_bounty_payout cfg env og a s"
| "bounty_dispatch cfg (env, og, CancelPayout a) s = cancel_bounty_payout og a s"

section \<open>The book in every state\<close>

text \<open>Pools and payouts belong to the condemned, and a payout is positive.\<close>

definition bounties_ok :: "'x bounty_state \<Rightarrow> bool" where
  "bounties_ok s \<longleftrightarrow> (\<forall>a. bounty_pools s a \<noteq> None \<longrightarrow> wall_of_shame s a \<noteq> None)
     \<and> (\<forall>a. locked_bounty_payouts s a \<noteq> None \<longrightarrow> wall_of_shame s a \<noteq> None)
     \<and> (\<forall>a l. locked_bounty_payouts s a = Some l \<longrightarrow> 0 < payout_amount l)"

definition bounty_foreign :: "'x bounty_state \<Rightarrow> 'x bounty_state \<Rightarrow> bool" where
  "bounty_foreign s t \<longleftrightarrow> (\<exists>x. t = s\<lparr>bounty_world := x\<rparr>)"

lemma condemn_Ok:
  assumes "condemn_and_issue_warrant cfg env og a k h f v s = Ok t"
  obtains x y z r where "og = Root" "exile_target cfg a (bounty_world s) = Ok x" "confiscate_free cfg a x = Ok y"
    "if f \<and> 0 < v then transfer (bounty_currency cfg) y (bounty_treasury cfg) a v KeepAlive = Ok z else z = y"
    "bounty_world t = z" "wall_of_shame t = (wall_of_shame s)(a \<mapsto> r)"
    "fugitive_status r = (if f then Some AtLarge else None)"
    "bounty_pools t = (if f \<and> 0 < v then (bounty_pools s)(a \<mapsto> v) else bounty_pools s)"
    "locked_bounty_payouts t = locked_bounty_payouts s"
    "\<not> is_academician cfg (bounty_world s) a" "\<not> is_active_khural_delegate cfg (bounty_world s) a"
  using assms unfolding condemn_and_issue_warrant_def seed_bounty_def Let_def
  by (cases "f \<and> 0 < v") (auto simp: ok_simps)

lemma donate_Ok:
  assumes "donate_to_bounty cfg og a v s = Ok t"
  obtains b r x where "og = Signed b" "wall_of_shame s a = Some r" "fugitive_status r = Some AtLarge"
    "transfer (bounty_currency cfg) (bounty_world s) b a v KeepAlive = Ok x" "bounty_world t = x"
    "bounty_pools t = (bounty_pools s)(a \<mapsto> sat_add 128 (case bounty_pools s a of Some p \<Rightarrow> p | None \<Rightarrow> 0) v)"
    "wall_of_shame t = wall_of_shame s" "locked_bounty_payouts t = locked_bounty_payouts s"
proof -
  obtain b r where r: "og = Signed b" "wall_of_shame s a = Some r"
    using assms unfolding donate_to_bounty_def by (auto simp: ok_simps)
  have "fugitive_status r = Some AtLarge"
    using assms r by (cases "fugitive_status r") (auto simp: donate_to_bounty_def split: fugitive_status.splits)
  moreover obtain x where "transfer (bounty_currency cfg) (bounty_world s) b a v KeepAlive = Ok x"
    using assms r calculation by (auto simp: donate_to_bounty_def ok_simps)
  ultimately show ?thesis
    using assms r by (intro that[of b r x]) (auto simp: donate_to_bounty_def Let_def ok_simps)
qed

lemma bounties_ok_step:
  assumes "bounties_ok s" "bounty_dispatch cfg (env, og, c) s = Ok t"
  shows "bounties_ok t"
proof (cases c)
  case (Condemn a k h f v)
  then show ?thesis using assms by (auto simp: bounties_ok_def elim!: condemn_Ok split: if_splits)
next
  case (Donate a v)
  then show ?thesis using assms by (auto simp: bounties_ok_def elim!: donate_Ok split: if_splits)
qed (use assms in \<open>auto simp: register_capture_and_payout_def claim_bounty_payout_def cancel_bounty_payout_def ok_simps
    bounties_ok_def Let_def split: if_splits\<close>)

interpretation posse: pallet_machine "bounty_dispatch cfg" bounty_foreign bounties_ok for cfg :: "'x bounty_config"
proof
  fix s t :: "'x bounty_state" and c
  assume "bounties_ok s" "bounty_dispatch cfg c s = Ok t"
  then show "bounties_ok t" by (cases c) (auto intro: bounties_ok_step)
qed (auto simp: bounty_foreign_def bounties_ok_def)

end
