(* ===== verification/Judicial_Courts.thy ===== *)
theory Judicial_Courts
  imports Identity
begin

text \<open>
  \<^verbatim>\<open>pallets/judicial-courts/src/lib.rs\<close>: court cases from their opening to the execution of the verdict, the
  registry of shame and martial law.

  \<open>'x\<close> is the ledger with the storage of the identity and constitution pallets. The bridges of the runtime to them
  are parameters; where the source drops a result with \<open>let _ =\<close>, the parameter is a function on \<open>'x\<close>. The
  currency (\<open>fungible::Mutate\<close>, with \<open>Preserve\<close> and \<open>Expendable\<close> for \<open>KeepAlive\<close> and
  \<open>AllowDeath\<close>) and \<open>Perbill\<close> arithmetic are third-party code.
\<close>

section \<open>Data\<close>

datatype case_status = Open | Deliberating | Guilty | Acquitted | Executed

datatype crime_category = Economic | Usurpation | HateCrimeAndFascism

record court_case =
  plaintiff :: account
  defendant :: account
  whistleblower :: "account option"
  evidence_hash :: h256
  verdict_hash :: "h256 option"
  penalty_amount :: balance
  case_status :: case_status
  crime_category :: "crime_category option"

record shame_record =
  shame_case_id :: nat
  shame_evidence_hash :: h256
  executed_at_block :: nat

datatype court_event =
    CaseOpened nat account account bool
  | VerdictIssued nat bool crime_category balance
  | VerdictExecuted nat crime_category balance balance
  | DefendantAcquitted nat account
  | CitizenExiled nat account
  | AddedToRegistryOfShame nat account
  | UsurperDeclared account
  | MartialLawLifted

datatype court_error =
    CaseNotFound
  | CaseNotGuilty
  | CaseAlreadyClosed
  | CaseNotOpen
  | DefendantNotRegistered
  | PenaltyOverflow
  | TreasuryTransferFailed
  | WhistleblowerTransferFailed
  | InsufficientBalance
  | AlreadyInRegistryOfShame

type_synonym court_failure = "court_error dispatch_error"

record 'x court_state =
  court_world :: 'x
  court_cases :: "nat \<Rightarrow> court_case option"
  next_case_id :: nat
  martial_law_active :: bool
  registry_of_shame :: "account \<Rightarrow> shame_record option"
  court_events :: "court_event list"

record 'x court_config =
  court_currency :: "'x currency"
  citizen_record_of :: "'x \<Rightarrow> account \<Rightarrow> citizen_record option"
  freeze_defendant :: "account \<Rightarrow> 'x \<Rightarrow> 'x"
  unfreeze_defendant :: "account \<Rightarrow> 'x \<Rightarrow> 'x"
  demote_to_regular :: "account \<Rightarrow> 'x \<Rightarrow> 'x"
  exile_defendant :: "account \<Rightarrow> 'x \<Rightarrow> 'x"
  register_lockup :: "env \<Rightarrow> account \<Rightarrow> nat \<Rightarrow> h256 \<Rightarrow> 'x \<Rightarrow> ('x, court_failure) result"
  resolve_habeas_corpus :: "account \<Rightarrow> 'x \<Rightarrow> ('x, court_failure) result"
  judges_collective_origin :: "origin \<Rightarrow> bool"
  usurpation_origin :: "origin \<Rightarrow> bool"
  court_treasury :: account
  perbill_percent_mul :: "nat \<Rightarrow> balance \<Rightarrow> balance"

definition HABEAS_CORPUS_DEADLINE_BLOCKS :: nat where
  "HABEAS_CORPUS_DEADLINE_BLOCKS = 7200"

definition emit_court :: "court_event \<Rightarrow> 'x court_state \<Rightarrow> 'x court_state" where
  "emit_court e s = s\<lparr>court_events := court_events s @ [e]\<rparr>"

lemma emit_court_simps [simp]:
  "court_world (emit_court e s) = court_world s" "court_cases (emit_court e s) = court_cases s"
  "next_case_id (emit_court e s) = next_case_id s" "martial_law_active (emit_court e s) = martial_law_active s"
  "registry_of_shame (emit_court e s) = registry_of_shame s"
  by (simp_all add: emit_court_def)

section \<open>From the opening to the verdict\<close>

definition filed_case :: "account \<Rightarrow> account \<Rightarrow> h256 \<Rightarrow> account option \<Rightarrow> court_case" where
  "filed_case who d evidence wb =
     \<lparr>plaintiff = who, defendant = d, whistleblower = wb, evidence_hash = evidence, verdict_hash = None,
      penalty_amount = 0, case_status = Open, crime_category = None\<rparr>"

definition open_case ::
  "'x court_config \<Rightarrow> env \<Rightarrow> origin \<Rightarrow> account \<Rightarrow> h256 \<Rightarrow> account option \<Rightarrow> 'x court_state
   \<Rightarrow> ('x court_state, court_failure) result" where
  "open_case cfg env og d evidence wb s =
     and_then (ensure_signed og) (\<lambda>who.
     ensure (citizen_record_of cfg (court_world s) d \<noteq> None) (Module DefendantNotRegistered) (
     let x = freeze_defendant cfg d (court_world s);
         deadline = sat_add 32 (block_number env) HABEAS_CORPUS_DEADLINE_BLOCKS
     in and_then (register_lockup cfg env d deadline evidence x) (\<lambda>y.
     let case_id = next_case_id s
     in Ok (emit_court (CaseOpened case_id who d (wb \<noteq> None))
          (s\<lparr>court_world := y,
             court_cases := (court_cases s)(case_id \<mapsto> filed_case who d evidence wb),
             next_case_id := sat_add 32 case_id 1\<rparr>)))))"

definition issue_verdict ::
  "'x court_config \<Rightarrow> origin \<Rightarrow> nat \<Rightarrow> bool \<Rightarrow> h256 \<Rightarrow> balance \<Rightarrow> crime_category \<Rightarrow> 'x court_state
   \<Rightarrow> ('x court_state, court_failure) result" where
  "issue_verdict cfg og case_id is_guilty verdict penalty category s =
     ensure (judges_collective_origin cfg og) BadOrigin (
     ok_or (court_cases s case_id) (Module CaseNotFound) (\<lambda>c.
     ensure (case_status c = Open) (Module CaseNotOpen) (
     and_then (resolve_habeas_corpus cfg (defendant c) (court_world s)) (\<lambda>x.
     let judged = c\<lparr>verdict_hash := Some verdict, penalty_amount := penalty, crime_category := Some category\<rparr>;
         s1 = (if is_guilty
               then s\<lparr>court_world := x,
                      court_cases := (court_cases s)(case_id \<mapsto> judged\<lparr>case_status := Guilty\<rparr>)\<rparr>
               else emit_court (DefendantAcquitted case_id (defendant c))
                      (s\<lparr>court_world := unfreeze_defendant cfg (defendant c) x,
                         court_cases := (court_cases s)(case_id \<mapsto> judged\<lparr>case_status := Acquitted\<rparr>)\<rparr>))
     in Ok (emit_court (VerdictIssued case_id is_guilty category penalty) s1)))))"

section \<open>Execution\<close>

text \<open>The share of the whistleblower and the transfer to the treasury with the reward paid out of it.\<close>

definition whistleblower_share :: "'x court_config \<Rightarrow> court_case \<Rightarrow> balance \<Rightarrow> balance" where
  "whistleblower_share cfg c v = (case whistleblower c of Some _ \<Rightarrow> perbill_percent_mul cfg 20 v | None \<Rightarrow> 0)"

definition pay_reward ::
  "'x court_config \<Rightarrow> court_case \<Rightarrow> balance \<Rightarrow> 'x \<Rightarrow> ('x, court_failure) result" where
  "pay_reward cfg c reward x =
     (if reward > 0
      then case whistleblower c of
             Some wb \<Rightarrow> map_err (\<lambda>_. Module WhistleblowerTransferFailed)
               (transfer (court_currency cfg) x (court_treasury cfg) wb reward KeepAlive)
           | None \<Rightarrow> Ok x
      else Ok x)"

definition confiscate ::
  "'x court_config \<Rightarrow> court_case \<Rightarrow> balance \<Rightarrow> existence \<Rightarrow> 'x \<Rightarrow> ('x, court_failure) result" where
  "confiscate cfg c v e x =
     (if v > 0
      then map_err (\<lambda>_. Module InsufficientBalance)
             (transfer (court_currency cfg) x (defendant c) (court_treasury cfg) v e)
      else Ok x)"

text \<open>The sentence for a hate crime: the whole balance, exile, and the registry of shame, whose guard comes last.\<close>

definition digital_guillotine ::
  "'x court_config \<Rightarrow> env \<Rightarrow> nat \<Rightarrow> court_case \<Rightarrow> 'x court_state
   \<Rightarrow> (balance \<times> balance \<times> 'x court_state, court_failure) result" where
  "digital_guillotine cfg env case_id c s =
     (let full_balance = free_balance (court_currency cfg) (court_world s) (defendant c);
          reward = whistleblower_share cfg c full_balance in
      and_then (confiscate cfg c full_balance AllowDeath (court_world s)) (\<lambda>x.
      and_then (pay_reward cfg c reward x) (\<lambda>y.
      let s1 = emit_court (CitizenExiled case_id (defendant c))
                 (s\<lparr>court_world := exile_defendant cfg (defendant c) y\<rparr>) in
      ensure (registry_of_shame s1 (defendant c) = None) (Module AlreadyInRegistryOfShame) (
      let record = \<lparr>shame_case_id = case_id, shame_evidence_hash = evidence_hash c,
                     executed_at_block = min (block_number env) (umax 32)\<rparr>
      in Ok (full_balance, reward,
           emit_court (AddedToRegistryOfShame case_id (defendant c))
             (s1\<lparr>registry_of_shame := (registry_of_shame s1)(defendant c \<mapsto> record)\<rparr>))))))"

definition standard_sentence ::
  "'x court_config \<Rightarrow> court_case \<Rightarrow> 'x court_state \<Rightarrow> (balance \<times> balance \<times> 'x court_state, court_failure) result" where
  "standard_sentence cfg c s =
     (let penalty = penalty_amount c;
          reward = whistleblower_share cfg c penalty;
          is_official = (case citizen_record_of cfg (court_world s) (defendant c) of
                           Some r \<Rightarrow> branch r \<noteq> None | None \<Rightarrow> False) in
      and_then (if penalty > 0
                then and_then (confiscate cfg c penalty (if is_official then AllowDeath else KeepAlive) (court_world s))
                       (pay_reward cfg c reward)
                else Ok (court_world s)) (\<lambda>y.
      Ok (penalty, reward, s\<lparr>court_world := unfreeze_defendant cfg (defendant c) y\<rparr>)))"

definition sentence ::
  "'x court_config \<Rightarrow> env \<Rightarrow> nat \<Rightarrow> court_case \<Rightarrow> 'x court_state
   \<Rightarrow> (balance \<times> balance \<times> 'x court_state, court_failure) result" where
  "sentence cfg env case_id c s =
     (case crime_category c of
        Some HateCrimeAndFascism \<Rightarrow> digital_guillotine cfg env case_id c s
      | _ \<Rightarrow> standard_sentence cfg c s)"

definition execute_verdict ::
  "'x court_config \<Rightarrow> env \<Rightarrow> origin \<Rightarrow> nat \<Rightarrow> 'x court_state \<Rightarrow> ('x court_state, court_failure) result" where
  "execute_verdict cfg env og case_id s =
     and_then (ensure_signed og) (\<lambda>_.
     ok_or (court_cases s case_id) (Module CaseNotFound) (\<lambda>c.
     ensure (case_status c = Guilty) (Module CaseNotGuilty) (
     let category = (case crime_category c of Some k \<Rightarrow> k | None \<Rightarrow> Economic) in
     and_then (sentence cfg env case_id c s) (\<lambda>(penalty, reward, s1).
     let s2 = (case court_cases s1 case_id of
                 Some k \<Rightarrow> s1\<lparr>court_cases := (court_cases s1)(case_id \<mapsto> k\<lparr>case_status := Executed\<rparr>)\<rparr>
               | None \<Rightarrow> s1)
     in Ok (emit_court (VerdictExecuted case_id category penalty reward) s2)))))"

section \<open>The usurper\<close>

definition declare_usurper ::
  "'x court_config \<Rightarrow> origin \<Rightarrow> account \<Rightarrow> 'x court_state \<Rightarrow> ('x court_state, court_failure) result" where
  "declare_usurper cfg og target s =
     ensure (usurpation_origin cfg og) BadOrigin (
     let x = court_world s;
         v = free_balance (court_currency cfg) x target;
         y = (if v > 0
              then case transfer (court_currency cfg) x target (court_treasury cfg) v AllowDeath of Ok y \<Rightarrow> y | Err _ \<Rightarrow> x
              else x)
     in Ok (emit_court (UsurperDeclared target)
          (s\<lparr>martial_law_active := True,
             court_world := demote_to_regular cfg target (freeze_defendant cfg target y)\<rparr>)))"

section \<open>Queries\<close>

definition defendant_has_verdict :: "'x court_state \<Rightarrow> account \<Rightarrow> bool" where
  "defendant_has_verdict s who =
     list_ex (\<lambda>i. case court_cases s i of Some c \<Rightarrow> defendant c = who \<and> case_status c \<noteq> Open | None \<Rightarrow> False)
       [0..<next_case_id s]"

definition is_in_registry_of_shame :: "'x court_state \<Rightarrow> account \<Rightarrow> bool" where
  "is_in_registry_of_shame s who \<longleftrightarrow> registry_of_shame s who \<noteq> None"

datatype court_call =
    OpenCase account h256 "account option"
  | IssueVerdict nat bool h256 balance crime_category
  | ExecuteVerdict nat
  | DeclareUsurper account

fun court_dispatch ::
  "'x court_config \<Rightarrow> env \<times> origin \<times> court_call \<Rightarrow> 'x court_state \<Rightarrow> ('x court_state, court_failure) result" where
  "court_dispatch cfg (env, og, OpenCase d h w) s = open_case cfg env og d h w s"
| "court_dispatch cfg (env, og, IssueVerdict i g h p k) s = issue_verdict cfg og i g h p k s"
| "court_dispatch cfg (env, og, ExecuteVerdict i) s = execute_verdict cfg env og i s"
| "court_dispatch cfg (env, og, DeclareUsurper a) s = declare_usurper cfg og a s"

section \<open>Laws of the pallet\<close>

text \<open>
  What each call of the courts does to the docket and to the registry of shame, and the contracts the pallet meets: its
  case numbers are an \<open>id_registry\<close>, a case and an entry in the registry each have a \<open>lifecycle\<close>, and the registry
  matches the executed cases in every state of the \<open>pallet_machine\<close>.
\<close>

section \<open>Frames\<close>

lemma sentence_frame:
  assumes "sentence cfg env i c s = Ok (p, r, t)"
  shows "court_cases t = court_cases s \<and> next_case_id t = next_case_id s \<and> martial_law_active t = martial_law_active s"
  using assms unfolding sentence_def digital_guillotine_def standard_sentence_def Let_def
  by (auto simp: ok_simps split: option.splits crime_category.splits)

lemma sentence_shame:
  assumes "sentence cfg env i c s = Ok (p, r, t)"
  shows "if crime_category c = Some HateCrimeAndFascism
    then registry_of_shame s (defendant c) = None \<and> registry_of_shame t = (registry_of_shame s)(defendant c \<mapsto>
      \<lparr>shame_case_id = i, shame_evidence_hash = evidence_hash c, executed_at_block = min (block_number env) (umax 32)\<rparr>)
    else registry_of_shame t = registry_of_shame s"
  using assms unfolding sentence_def digital_guillotine_def standard_sentence_def Let_def
  by (auto simp: ok_simps split: option.splits crime_category.splits)

lemma open_case_Ok:
  assumes "open_case cfg env og d h w s = Ok t"
  obtains a y where "og = Signed a" "citizen_record_of cfg (court_world s) d \<noteq> None"
    "register_lockup cfg env d (sat_add 32 (block_number env) HABEAS_CORPUS_DEADLINE_BLOCKS) h
       (freeze_defendant cfg d (court_world s)) = Ok y"
    "court_world t = y" "court_cases t = (court_cases s)(next_case_id s \<mapsto> filed_case a d h w)"
    "next_case_id t = sat_add 32 (next_case_id s) 1" "registry_of_shame t = registry_of_shame s"
  using assms unfolding open_case_def Let_def by (auto simp: ok_simps)

definition verdict_entered :: "bool \<Rightarrow> h256 \<Rightarrow> balance \<Rightarrow> crime_category \<Rightarrow> court_case \<Rightarrow> court_case" where
  "verdict_entered guilty h p k c = c\<lparr>verdict_hash := Some h, penalty_amount := p, crime_category := Some k,
     case_status := (if guilty then Guilty else Acquitted)\<rparr>"

lemma issue_verdict_Ok:
  assumes "issue_verdict cfg og i guilty h p k s = Ok t"
  obtains c x where "court_cases s i = Some c" "case_status c = Open"
    "resolve_habeas_corpus cfg (defendant c) (court_world s) = Ok x"
    "court_world t = (if guilty then x else unfreeze_defendant cfg (defendant c) x)"
    "court_cases t = (court_cases s)(i \<mapsto> verdict_entered guilty h p k c)"
    "next_case_id t = next_case_id s" "registry_of_shame t = registry_of_shame s"
  using assms unfolding issue_verdict_def Let_def
  by (cases guilty) (auto simp: ok_simps verdict_entered_def)

lemma execute_verdict_Ok:
  assumes "execute_verdict cfg env og i s = Ok t"
  obtains c p r u where "court_cases s i = Some c" "case_status c = Guilty"
    "sentence cfg env i c s = Ok (p, r, u)" "court_world t = court_world u"
    "court_cases t = (court_cases s)(i \<mapsto> c\<lparr>case_status := Executed\<rparr>)"
    "next_case_id t = next_case_id s" "registry_of_shame t = registry_of_shame u"
proof -
  obtain c p r u where c: "court_cases s i = Some c" "case_status c = Guilty" "sentence cfg env i c s = Ok (p, r, u)"
    and t: "t = emit_court (VerdictExecuted i (case crime_category c of Some k \<Rightarrow> k | None \<Rightarrow> Economic) p r)
      (case court_cases u i of
         Some k \<Rightarrow> u\<lparr>court_cases := (court_cases u)(i \<mapsto> k\<lparr>case_status := Executed\<rparr>)\<rparr> | None \<Rightarrow> u)"
    using assms unfolding execute_verdict_def Let_def by (auto simp: ok_simps)
  from sentence_frame[OF c(3)] c(1) have "court_cases u i = Some c" "court_cases u = court_cases s"
    "next_case_id u = next_case_id s" by simp_all
  with c t show ?thesis by (intro that[OF c]) simp_all
qed

lemma declare_usurper_frame:
  assumes "declare_usurper cfg og a s = Ok t"
  shows "court_cases t = court_cases s" "next_case_id t = next_case_id s" "registry_of_shame t = registry_of_shame s"
  using assms unfolding declare_usurper_def Let_def by (auto simp: ok_simps)

text \<open>The other pallets change the ledger and their own storage.\<close>

definition court_foreign :: "'x court_state \<Rightarrow> 'x court_state \<Rightarrow> bool" where
  "court_foreign s t \<longleftrightarrow> (\<exists>x. t = s\<lparr>court_world := x\<rparr>)"

abbreviation court_step :: "'x court_config \<Rightarrow> 'x court_state \<Rightarrow> 'x court_state \<Rightarrow> bool" where
  "court_step cfg \<equiv> machine_step (court_dispatch cfg) court_foreign"

text \<open>The effect of a step on the docket.\<close>

datatype docket_move = Stay | File court_case | Judge nat court_case court_case

fun docket_effect :: "docket_move \<Rightarrow> 'x court_state \<Rightarrow> 'x court_state \<Rightarrow> bool" where
  "docket_effect Stay s t \<longleftrightarrow> court_cases t = court_cases s \<and> next_case_id t = next_case_id s
     \<and> registry_of_shame t = registry_of_shame s"
| "docket_effect (File c) s t \<longleftrightarrow> case_status c = Open \<and> verdict_hash c = None \<and> crime_category c = None
     \<and> court_cases t = (court_cases s)(next_case_id s \<mapsto> c)
     \<and> next_case_id t = sat_add 32 (next_case_id s) 1 \<and> registry_of_shame t = registry_of_shame s"
| "docket_effect (Judge i c c') s t \<longleftrightarrow> court_cases s i = Some c \<and> court_cases t = (court_cases s)(i \<mapsto> c')
     \<and> next_case_id t = next_case_id s
     \<and> (case_status c = Open \<and> (\<exists>g h p k. c' = verdict_entered g h p k c) \<and> registry_of_shame t = registry_of_shame s
       \<or> case_status c = Guilty \<and> c' = c\<lparr>case_status := Executed\<rparr>
         \<and> (if crime_category c = Some HateCrimeAndFascism
            then registry_of_shame s (defendant c) = None
              \<and> (\<exists>b. registry_of_shame t = (registry_of_shame s)(defendant c \<mapsto>
                   \<lparr>shame_case_id = i, shame_evidence_hash = evidence_hash c, executed_at_block = b\<rparr>))
            else registry_of_shame t = registry_of_shame s))"

lemma court_call_effect:
  assumes "court_dispatch cfg (env, og, c) s = Ok t"
  shows "\<exists>m. docket_effect m s t"
proof (cases c)
  case (OpenCase d h w)
  then obtain a where "docket_effect (File (filed_case a d h w)) s t"
    using assms by (auto elim!: open_case_Ok simp: filed_case_def)
  then show ?thesis by blast
next
  case (IssueVerdict i g h p k)
  then have "issue_verdict cfg og i g h p k s = Ok t" using assms by simp
  then obtain q where "docket_effect (Judge i q (verdict_entered g h p k q)) s t"
    by (elim issue_verdict_Ok) fastforce
  then show ?thesis by blast
next
  case (ExecuteVerdict i)
  then have "execute_verdict cfg env og i s = Ok t" using assms by simp
  then obtain q where "docket_effect (Judge i q (q\<lparr>case_status := Executed\<rparr>)) s t"
  proof (elim execute_verdict_Ok)
    fix q p r u
    assume q: "court_cases s i = Some q" "case_status q = Guilty" "sentence cfg env i q s = Ok (p, r, u)"
      "court_cases t = (court_cases s)(i \<mapsto> q\<lparr>case_status := Executed\<rparr>)" "next_case_id t = next_case_id s"
      "registry_of_shame t = registry_of_shame u"
    have "docket_effect (Judge i q (q\<lparr>case_status := Executed\<rparr>)) s t"
      using q sentence_shame[OF q(3)] by (simp split: if_splits) blast
    then show thesis by (rule that)
  qed
  then show ?thesis by blast
next
  case (DeclareUsurper a)
  then have "docket_effect Stay s t" using assms declare_usurper_frame[of cfg og a s t] by simp
  then show ?thesis by blast
qed

lemma court_step_effect:
  assumes "court_step cfg s t"
  shows "\<exists>m. docket_effect m s t"
  using assms unfolding machine_step_def
proof
  assume "\<exists>c. court_dispatch cfg c s = Ok t"
  then show ?thesis using court_call_effect by (metis prod_cases3)
next
  assume "court_foreign s t"
  then have "docket_effect Stay s t" by (auto simp: court_foreign_def)
  then show ?thesis by blast
qed

section \<open>Case numbers, cases, the registry\<close>

interpretation docket: id_registry next_case_id court_cases "court_step cfg" for cfg :: "'x court_config"
proof
  fix s t :: "'x court_state"
  assume "court_step cfg s t"
  then obtain m where "docket_effect m s t" using court_step_effect by blast
  then show "(next_case_id t = next_case_id s \<and> dom (court_cases t) = dom (court_cases s))
    \<or> (next_case_id t = sat_add 32 (next_case_id s) 1
       \<and> dom (court_cases t) = insert (next_case_id s) (dom (court_cases s)))"
    by (cases m) auto
qed

interpretation shame: lifecycle registry_of_shame "\<lambda>_ _. False" "court_step cfg" for cfg :: "'x court_config"
proof
  fix s t :: "'x court_state" and a r
  assume "court_step cfg s t" "registry_of_shame s a = Some r" "registry_of_shame t a \<noteq> Some r"
  then obtain m where "docket_effect m s t" "registry_of_shame s a = Some r" "registry_of_shame t a \<noteq> Some r"
    using court_step_effect by blast
  then show "\<exists>b. registry_of_shame t a = Some b \<and> False"
    by (cases m) (auto split: if_splits)
qed

text \<open>A case keeps its parties and its evidence; it gets one verdict, and a guilty one is executed once.\<close>

definition case_edge :: "court_case \<Rightarrow> court_case \<Rightarrow> bool" where
  "case_edge c c' \<longleftrightarrow> case_status c = Open \<and> (\<exists>g h p k. c' = verdict_entered g h p k c)
     \<or> case_status c = Guilty \<and> c' = c\<lparr>case_status := Executed\<rparr>"

definition numbered_step :: "'x court_config \<Rightarrow> 'x court_state \<Rightarrow> 'x court_state \<Rightarrow> bool" where
  "numbered_step cfg s t \<longleftrightarrow> court_step cfg s t \<and> court_cases s (next_case_id s) = None"

interpretation trials: lifecycle court_cases case_edge "numbered_step cfg" for cfg :: "'x court_config"
proof
  fix s t :: "'x court_state" and i c
  assume s: "numbered_step cfg s t" "court_cases s i = Some c" "court_cases t i \<noteq> Some c"
  then obtain m where "docket_effect m s t" "court_cases s (next_case_id s) = None"
    using court_step_effect unfolding numbered_step_def by blast
  with s(2,3) show "\<exists>b. court_cases t i = Some b \<and> case_edge c b"
    by (cases m) (auto simp: case_edge_def split: if_splits)
qed

section \<open>The docket and the registry in every state\<close>

definition case_formed :: "court_case \<Rightarrow> bool" where
  "case_formed c \<longleftrightarrow> case_status c \<noteq> Deliberating
     \<and> (case_status c = Open \<longleftrightarrow> verdict_hash c = None) \<and> (case_status c = Open \<longleftrightarrow> crime_category c = None)"

definition guillotined :: "court_case \<Rightarrow> bool" where
  "guillotined c \<longleftrightarrow> case_status c = Executed \<and> crime_category c = Some HateCrimeAndFascism"

definition entry_matches :: "'x court_state \<Rightarrow> account \<Rightarrow> shame_record \<Rightarrow> bool" where
  "entry_matches s a r \<longleftrightarrow> (\<exists>c. court_cases s (shame_case_id r) = Some c \<and> guillotined c \<and> defendant c = a
     \<and> evidence_hash c = shame_evidence_hash r)"

definition docket_ok :: "'x court_state \<Rightarrow> bool" where
  "docket_ok s \<longleftrightarrow> (\<forall>i\<in>dom (court_cases s). i < next_case_id s)
     \<and> (\<forall>i c. court_cases s i = Some c \<longrightarrow> case_formed c)
     \<and> (\<forall>a r. registry_of_shame s a = Some r \<longrightarrow> entry_matches s a r)
     \<and> (\<forall>i c. court_cases s i = Some c \<longrightarrow> guillotined c
          \<longrightarrow> (\<exists>r. registry_of_shame s (defendant c) = Some r \<and> shame_case_id r = i))"

lemma docketD:
  assumes "docket_ok s"
  shows "court_cases s i = Some c \<Longrightarrow> i < next_case_id s" "court_cases s i = Some c \<Longrightarrow> case_formed c"
    "registry_of_shame s a = Some r \<Longrightarrow> entry_matches s a r"
    "court_cases s i = Some c \<Longrightarrow> guillotined c
       \<Longrightarrow> \<exists>r. registry_of_shame s (defendant c) = Some r \<and> shame_case_id r = i"
  using assms unfolding docket_ok_def by blast+

text \<open>It holds as long as case numbers last.\<close>

definition courts_ok :: "'x court_state \<Rightarrow> bool" where
  "courts_ok s \<longleftrightarrow> next_case_id s \<le> umax 32 \<and> (next_case_id s < umax 32 \<longrightarrow> docket_ok s)"

lemma case_formed_verdict: "case_formed (verdict_entered g h p k c)"
  by (simp add: case_formed_def verdict_entered_def)

lemma case_formed_executed: "case_formed c \<Longrightarrow> case_status c = Guilty \<Longrightarrow> case_formed (c\<lparr>case_status := Executed\<rparr>)"
  by (simp add: case_formed_def)

lemma guillotined_simps [simp]:
  "\<not> guillotined (verdict_entered g h p k c)"
  "guillotined (c\<lparr>case_status := Executed\<rparr>) \<longleftrightarrow> crime_category c = Some HateCrimeAndFascism"
  by (simp_all add: guillotined_def verdict_entered_def)

lemma entry_kept:
  assumes "entry_matches s a r"
    and "\<And>i c. court_cases s i = Some c \<Longrightarrow> guillotined c \<Longrightarrow> court_cases t i = Some c"
  shows "entry_matches t a r"
  using assms unfolding entry_matches_def by blast

lemma guillotined_kept:
  assumes "docket_effect m s t" "court_cases s (next_case_id s) = None" "court_cases s i = Some c" "guillotined c"
  shows "court_cases t i = Some c"
  using assms by (cases m) (auto simp: guillotined_def)

lemma new_guillotine:
  assumes "docket_effect m s t" "court_cases t i = Some c" "guillotined c" "court_cases s i \<noteq> Some c"
  shows "registry_of_shame s (defendant c) = None
    \<and> (\<exists>b. registry_of_shame t = (registry_of_shame s)(defendant c \<mapsto>
         \<lparr>shame_case_id = i, shame_evidence_hash = evidence_hash c, executed_at_block = b\<rparr>))"
  using assms by (cases m) (auto simp: guillotined_def verdict_entered_def split: if_splits)

lemma new_entry:
  assumes "docket_effect m s t" "registry_of_shame t a = Some r" "registry_of_shame s a \<noteq> Some r"
  shows "entry_matches t a r"
  using assms by (cases r; cases m) (auto simp: entry_matches_def split: if_splits)

lemma formed_step:
  assumes "docket_effect m s t" "\<And>i c. court_cases s i = Some c \<Longrightarrow> case_formed c" "court_cases t i = Some c"
  shows "case_formed c"
proof (cases m)
  case (File k)
  with assms have "court_cases s i = Some c \<or> c = k" "case_formed k"
    by (auto simp: case_formed_def split: if_splits)
  with assms(2) show ?thesis by blast
next
  case (Judge j k k')
  with assms have "court_cases s i = Some c \<or> c = k'" "case_formed k'"
    by (auto simp: case_formed_verdict case_formed_executed split: if_splits)
  with assms(2) show ?thesis by blast
qed (use assms in auto)

lemma docket_step:
  assumes ok: "docket_ok s" and m: "docket_effect m s t" and step: "court_step cfg s t" and n: "next_case_id s < umax 32"
  shows "docket_ok t"
proof -
  have below: "\<forall>i\<in>dom (court_cases s). i < next_case_id s" using ok unfolding docket_ok_def by blast
  have fresh: "court_cases s (next_case_id s) = None" by (rule docket.fresh[OF below])
  have "\<forall>i\<in>dom (court_cases t). i < next_case_id t" by (rule docket.ids_below_step[OF step n below])
  moreover have "case_formed c" if "court_cases t i = Some c" for i c
    using ok that unfolding docket_ok_def by (blast intro: formed_step[OF m])
  moreover have "entry_matches t a r" if "registry_of_shame t a = Some r" for a r
  proof (cases "registry_of_shame s a = Some r")
    case True
    with ok have "entry_matches s a r" unfolding docket_ok_def by blast
    then show ?thesis using guillotined_kept[OF m fresh] by (blast intro: entry_kept)
  qed (use new_entry[OF m that] in blast)
  moreover have "\<exists>r. registry_of_shame t (defendant c) = Some r \<and> shame_case_id r = i"
    if "court_cases t i = Some c" "guillotined c" for i c
  proof (cases "court_cases s i = Some c")
    case True
    with ok that(2) obtain r where r: "registry_of_shame s (defendant c) = Some r" "shame_case_id r = i"
      unfolding docket_ok_def by blast
    have "registry_of_shame t (defendant c) = Some r"
      using shame.step_edge[OF step r(1)] by blast
    with r(2) show ?thesis by blast
  qed (use new_guillotine[OF m that] in auto)
  ultimately show ?thesis unfolding docket_ok_def by blast
qed

lemma courts_ok_step:
  assumes "courts_ok s" "court_step cfg s t"
  shows "courts_ok t"
proof -
  obtain m where m: "docket_effect m s t" using court_step_effect[OF assms(2)] by blast
  have n: "next_case_id s \<le> next_case_id t" "next_case_id t \<le> umax 32"
    using docket.next_mono[OF assms(2)] assms(1) unfolding courts_ok_def by blast+
  show ?thesis
  proof (cases "next_case_id t < umax 32")
    case True
    with n assms(1) have "docket_ok s" "next_case_id s < umax 32" by (simp_all add: courts_ok_def)
    with docket_step[OF _ m assms(2)] n show ?thesis by (simp add: courts_ok_def)
  next
    case False
    with n show ?thesis by (simp add: courts_ok_def)
  qed
qed

interpretation bench: pallet_machine "court_dispatch cfg" court_foreign courts_ok for cfg :: "'x court_config"
proof
  fix s t :: "'x court_state" and c
  assume "courts_ok s" "court_dispatch cfg c s = Ok t"
  then show "courts_ok t" using courts_ok_step[of s cfg t] unfolding machine_step_def by blast
next
  fix s t :: "'x court_state"
  assume "courts_ok s" "court_foreign s t"
  then show "courts_ok t" using courts_ok_step[of s cfg t] unfolding machine_step_def by blast
qed

definition court_start :: "'x \<Rightarrow> 'x court_state" where
  "court_start x = \<lparr>court_world = x, court_cases = Map.empty, next_case_id = 0, martial_law_active = False,
     registry_of_shame = Map.empty, court_events = []\<rparr>"

lemma courts_ok_start: "courts_ok (court_start x)"
  by (simp add: courts_ok_def docket_ok_def court_start_def)

section \<open>A defendant once judged\<close>

lemma has_verdict_iff:
  assumes "docket_ok s"
  shows "defendant_has_verdict s a \<longleftrightarrow> (\<exists>i c. court_cases s i = Some c \<and> defendant c = a \<and> case_status c \<noteq> Open)"
proof -
  have "i < next_case_id s" if "court_cases s i = Some c" for i c
    using assms that unfolding docket_ok_def by blast
  then show ?thesis
    by (fastforce simp: defendant_has_verdict_def list_ex_iff split: option.splits)
qed

lemma has_verdict_world [simp]: "defendant_has_verdict (s\<lparr>court_world := x\<rparr>) a = defendant_has_verdict s a"
  by (simp add: defendant_has_verdict_def)

end
