(* ===== verification/Constitution.thy ===== *)
theory Constitution
  imports Pallet_Interfaces
begin

text \<open>
  \<^verbatim>\<open>pallets/constitution/src/lib.rs\<close>: the anchored constitution and the habeas corpus timers.

  \<open>'x\<close> is the storage of the other pallets. The hook of the runtime (\<^verbatim>\<open>HabeasCorpusInterface\<close>) is a pair of
  parameters: whether a verdict exists, and the release of a citizen, whose result is dropped. The order in which a
  storage map is iterated is not part of the repository: \<open>timer_order\<close> is any list of the keys.
  \<open>MaxConcurrentTimers\<close> is configured but never read.
\<close>

section \<open>Data\<close>

record habeas_timer =
  max_lockup_block :: nat
  registered_at :: nat
  case_hash :: h256
  resolved :: bool

datatype rights_event =
    ConstitutionAnchoredOnChain "byte list"
  | HabeasCorpusTimerRegistered account nat h256
  | HabeasCorpusAutoReleased account nat
  | HabeasCorpusResolved account

datatype rights_error = ConstitutionAlreadySet | NoActiveTimer | TimerAlreadyResolved

type_synonym rights_failure = "rights_error dispatch_error"

record 'x rights_state =
  rights_world :: 'x
  core_rights_hash :: "byte list option"
  habeas_corpus_timers :: "account \<Rightarrow> habeas_timer option"
  rights_events :: "rights_event list"

record 'x rights_config =
  has_verdict :: "'x \<Rightarrow> account \<Rightarrow> bool"
  release_citizen :: "account \<Rightarrow> 'x \<Rightarrow> 'x"
  timer_order :: "(account \<Rightarrow> habeas_timer option) \<Rightarrow> account list"

definition iterates_timers :: "('x, 'z) rights_config_scheme \<Rightarrow> bool" where
  "iterates_timers cfg \<longleftrightarrow> (\<forall>m. finite (dom m) \<longrightarrow> set (timer_order cfg m) = dom m)"

definition emit_right :: "rights_event \<Rightarrow> 'x rights_state \<Rightarrow> 'x rights_state" where
  "emit_right e s = s\<lparr>rights_events := rights_events s @ [e]\<rparr>"

lemma emit_right_simps [simp]:
  "rights_world (emit_right e s) = rights_world s" "core_rights_hash (emit_right e s) = core_rights_hash s"
  "habeas_corpus_timers (emit_right e s) = habeas_corpus_timers s"
  by (simp_all add: emit_right_def)

section \<open>Dispatchables\<close>

definition set_constitution_hash ::
  "origin \<Rightarrow> byte list \<Rightarrow> 'x rights_state \<Rightarrow> ('x rights_state, rights_failure) result" where
  "set_constitution_hash og cid s =
     and_then (ensure_root og) (\<lambda>_.
     ensure (core_rights_hash s = None) (Module ConstitutionAlreadySet) (
     Ok (emit_right (ConstitutionAnchoredOnChain cid) (s\<lparr>core_rights_hash := Some cid\<rparr>))))"

text \<open>A timer that runs already is overwritten.\<close>

definition register_lockup ::
  "env \<Rightarrow> origin \<Rightarrow> account \<Rightarrow> nat \<Rightarrow> h256 \<Rightarrow> 'x rights_state \<Rightarrow> ('x rights_state, rights_failure) result" where
  "register_lockup env og citizen deadline hash s =
     and_then (ensure_root og) (\<lambda>_.
     Ok (emit_right (HabeasCorpusTimerRegistered citizen deadline hash)
          (s\<lparr>habeas_corpus_timers := (habeas_corpus_timers s)(citizen \<mapsto>
              \<lparr>max_lockup_block = deadline, registered_at = block_number env, case_hash = hash, resolved = False\<rparr>)\<rparr>)))"

definition resolve_habeas_corpus ::
  "origin \<Rightarrow> account \<Rightarrow> 'x rights_state \<Rightarrow> ('x rights_state, rights_failure) result" where
  "resolve_habeas_corpus og citizen s =
     and_then (ensure_root og) (\<lambda>_.
     ok_or (habeas_corpus_timers s citizen) (Module NoActiveTimer) (\<lambda>t.
     ensure (\<not> resolved t) (Module TimerAlreadyResolved) (
     Ok (emit_right (HabeasCorpusResolved citizen)
          (s\<lparr>habeas_corpus_timers := (habeas_corpus_timers s)(citizen := None)\<rparr>)))))"

section \<open>Every block\<close>

definition expired :: "'x rights_config \<Rightarrow> nat \<Rightarrow> 'x rights_state \<Rightarrow> account list" where
  "expired cfg n s = List.filter
     (\<lambda>who. case habeas_corpus_timers s who of
        None \<Rightarrow> False
      | Some t \<Rightarrow> \<not> resolved t \<and> max_lockup_block t \<le> n \<and> \<not> has_verdict cfg (rights_world s) who)
     (timer_order cfg (habeas_corpus_timers s))"

definition auto_release :: "'x rights_config \<Rightarrow> nat \<Rightarrow> account \<Rightarrow> 'x rights_state \<Rightarrow> 'x rights_state" where
  "auto_release cfg n citizen s =
     emit_right (HabeasCorpusAutoReleased citizen n)
       (s\<lparr>rights_world := release_citizen cfg citizen (rights_world s),
          habeas_corpus_timers := (habeas_corpus_timers s)(citizen := None)\<rparr>)"

definition on_initialize :: "'x rights_config \<Rightarrow> nat \<Rightarrow> 'x rights_state \<Rightarrow> 'x rights_state" where
  "on_initialize cfg n s = fold (auto_release cfg n) (expired cfg n s) s"

datatype rights_call =
    SetConstitutionHash "byte list"
  | RegisterLockup account nat h256
  | ResolveHabeasCorpus account

datatype rights_op = RightsExtrinsic env origin rights_call | RightsBlock nat

fun rights_dispatch ::
  "env \<times> origin \<times> rights_call \<Rightarrow> 'x rights_state \<Rightarrow> ('x rights_state, rights_failure) result" where
  "rights_dispatch (env, og, SetConstitutionHash cid) s = set_constitution_hash og cid s"
| "rights_dispatch (env, og, RegisterLockup a d h) s = register_lockup env og a d h s"
| "rights_dispatch (env, og, ResolveHabeasCorpus a) s = resolve_habeas_corpus og a s"

fun rights_operate ::
  "'x rights_config \<Rightarrow> rights_op \<Rightarrow> 'x rights_state \<Rightarrow> ('x rights_state, rights_failure) result" where
  "rights_operate cfg (RightsExtrinsic env og c) s = rights_dispatch (env, og, c) s"
| "rights_operate cfg (RightsBlock n) s = Ok (on_initialize cfg n s)"

section \<open>What a block does\<close>

lemma auto_release_simps [simp]:
  "rights_world (auto_release cfg n a s) = release_citizen cfg a (rights_world s)"
  "core_rights_hash (auto_release cfg n a s) = core_rights_hash s"
  "habeas_corpus_timers (auto_release cfg n a s) = (habeas_corpus_timers s)(a := None)"
  by (simp_all add: auto_release_def)

lemma releases_world: "rights_world (fold (auto_release cfg n) as s) = fold (release_citizen cfg) as (rights_world s)"
  by (induction as arbitrary: s) simp_all

lemma releases_hash: "core_rights_hash (fold (auto_release cfg n) as s) = core_rights_hash s"
  by (induction as arbitrary: s) simp_all

lemma releases_timers:
  "habeas_corpus_timers (fold (auto_release cfg n) as s) a = (if a \<in> set as then None else habeas_corpus_timers s a)"
  by (induction as arbitrary: s) auto

lemmas block_simps = on_initialize_def releases_world releases_hash releases_timers

lemma expired_iff:
  assumes "iterates_timers cfg" "finite (dom (habeas_corpus_timers s))"
  shows "a \<in> set (expired cfg n s) \<longleftrightarrow>
    (\<exists>t. habeas_corpus_timers s a = Some t \<and> \<not> resolved t \<and> max_lockup_block t \<le> n \<and> \<not> has_verdict cfg (rights_world s) a)"
  using assms by (auto simp: expired_def iterates_timers_def split: option.splits)

section \<open>The anchor and the timers in every state\<close>

text \<open>Finitely many timers run, none of them resolved, and an anchored constitution stays.\<close>

definition rights_ok :: "byte list option \<Rightarrow> 'x rights_state \<Rightarrow> bool" where
  "rights_ok anchor s \<longleftrightarrow> (anchor \<noteq> None \<longrightarrow> core_rights_hash s = anchor)
     \<and> finite (dom (habeas_corpus_timers s))
     \<and> (\<forall>a t. habeas_corpus_timers s a = Some t \<longrightarrow> \<not> resolved t)"

definition rights_foreign :: "'x rights_state \<Rightarrow> 'x rights_state \<Rightarrow> bool" where
  "rights_foreign s t \<longleftrightarrow> (\<exists>x. t = s\<lparr>rights_world := x\<rparr>)"

lemma timers_dom: "dom (habeas_corpus_timers (on_initialize cfg n s)) \<subseteq> dom (habeas_corpus_timers s)"
  by (auto simp: block_simps dom_def split: if_splits)

lemma rights_ok_block:
  assumes "rights_ok anchor s"
  shows "rights_ok anchor (on_initialize cfg n s)"
proof -
  have "finite (dom (habeas_corpus_timers (on_initialize cfg n s)))"
    using assms finite_subset[OF timers_dom] unfolding rights_ok_def by blast
  then show ?thesis using assms unfolding rights_ok_def block_simps by (simp split: if_splits)
qed

lemma rights_ok_extrinsic: "rights_ok anchor s \<Longrightarrow> rights_dispatch (env, og, c) s = Ok t \<Longrightarrow> rights_ok anchor t"
  by (cases c) (auto simp: set_constitution_hash_def register_lockup_def resolve_habeas_corpus_def ok_simps rights_ok_def
      split: if_splits)

interpretation charter: pallet_machine "rights_operate cfg" rights_foreign "rights_ok anchor" for cfg anchor
proof
  fix s c t
  assume "rights_ok anchor s" "rights_operate cfg c s = Ok t"
  then show "rights_ok anchor t" by (cases c) (auto intro: rights_ok_extrinsic rights_ok_block)
qed (auto simp: rights_foreign_def rights_ok_def)

end
