(* ===== verification/Ledger_View.thy ===== *)
theory Ledger_View
  imports Currency
begin

text \<open>
  Pallets that call one another share one ledger, which in the model lies inside the state of the innermost. A view reads
  and replaces it there; the currency seen through a view obeys the laws of the currency itself.
\<close>

definition currency_at :: "('w \<Rightarrow> 'x) \<Rightarrow> ('x \<Rightarrow> 'w \<Rightarrow> 'w) \<Rightarrow> ('x, 'z) currency_scheme \<Rightarrow> 'w currency" where
  "currency_at look put cur =
     \<lparr>total_issuance = (\<lambda>w. total_issuance cur (look w)), free_balance = (\<lambda>w. free_balance cur (look w)),
      deposit_creating = (\<lambda>w a v. put (deposit_creating cur (look w) a v) w),
      withdraw = (\<lambda>w a v e. case withdraw cur (look w) a v e of Ok x \<Rightarrow> Ok (put x w) | Err k \<Rightarrow> Err k),
      transfer = (\<lambda>w a b v e. case transfer cur (look w) a b v e of Ok x \<Rightarrow> Ok (put x w) | Err k \<Rightarrow> Err k)\<rparr>"

lemma currency_at_sel [simp]:
  "free_balance (currency_at look put cur) w = free_balance cur (look w)"
  "total_issuance (currency_at look put cur) w = total_issuance cur (look w)"
  by (simp_all add: currency_at_def)

locale ledger_view =
  fixes look :: "'w \<Rightarrow> 'x" and put :: "'x \<Rightarrow> 'w \<Rightarrow> 'w"
  assumes look_put: "look (put x w) = x" and put_look: "put (look w) w = w"
begin

lemma currency_at_ok:
  assumes "currency_ok cur"
  shows "currency_ok (currency_at look put cur)"
proof -
  have "deposit_ok (currency_at look put cur)"
    using assms unfolding currency_ok_def deposit_ok_def
    by (simp add: currency_at_def look_put) (metis put_look)
  moreover have "withdraw_ok (currency_at look put cur)"
    using assms unfolding currency_ok_def withdraw_ok_def
    by (auto simp: currency_at_def look_put split: result.splits)
  moreover have "transfer_ok (currency_at look put cur)"
    using assms unfolding currency_ok_def transfer_ok_def
    by (auto simp: currency_at_def look_put split: result.splits)
  ultimately show ?thesis by (simp add: currency_ok_def)
qed

end

end
