(* ===== verification/Runtime_Justice.thy ===== *)
theory Runtime_Justice
  imports Judicial_Courts Constitution Identity_Laws Ledger_View
begin

text \<open>
  The courts, the constitution and the identity pallet as \<^verbatim>\<open>runtime/src/configs/mod.rs\<close> joins them. The state of the
  courts holds that of the constitution, which holds that of the identity pallet with the ledger inside it.

  \<^item> \<open>runtime_courts\<close>: the courts over \<^verbatim>\<open>IdentityBridge\<close> and \<^verbatim>\<open>ConstitutionBridgeImpl\<close>.
  \<^item> \<open>runtime_rights\<close>: the constitution over \<^verbatim>\<open>JudicialHabeasBridge\<close>, which reads the docket.
  \<^item> \<open>runtime_block\<close>: the hook every block runs.
\<close>

section \<open>The bridges\<close>

type_synonym 'x justice = "'x identity_state rights_state court_state"

definition identity_in :: "'x justice \<Rightarrow> 'x identity_state" where
  "identity_in s = rights_world (court_world s)"

text \<open>An operation of the identity pallet whose result is dropped.\<close>

definition attempt ::
  "('x identity_state \<Rightarrow> ('x identity_state, identity_failure) result) \<Rightarrow> 'x identity_state \<Rightarrow> 'x identity_state" where
  "attempt f i = (case f i of Ok j \<Rightarrow> j | Err _ \<Rightarrow> i)"

definition on_identity ::
  "('x identity_state \<Rightarrow> 'x identity_state) \<Rightarrow> 'x identity_state rights_state \<Rightarrow> 'x identity_state rights_state" where
  "on_identity f w = w\<lparr>rights_world := f (rights_world w)\<rparr>"

fun rights_error_to_court :: "rights_failure \<Rightarrow> court_failure" where
  "rights_error_to_court (Module e) = ThirdParty 0"
| "rights_error_to_court BadOrigin = BadOrigin"
| "rights_error_to_court Panic = Panic"
| "rights_error_to_court (ThirdParty n) = ThirdParty n"
| "rights_error_to_court (Other m) = Other m"

definition bridge_register_lockup ::
  "env \<Rightarrow> account \<Rightarrow> nat \<Rightarrow> h256 \<Rightarrow> 'x rights_state \<Rightarrow> ('x rights_state, court_failure) result" where
  "bridge_register_lockup env a deadline h w =
     map_err rights_error_to_court (Constitution.register_lockup env Root a deadline h w)"

definition bridge_resolve :: "account \<Rightarrow> 'x rights_state \<Rightarrow> ('x rights_state, court_failure) result" where
  "bridge_resolve a w = Ok (case Constitution.resolve_habeas_corpus Root a w of Ok w' \<Rightarrow> w' | Err _ \<Rightarrow> w)"

text \<open>The ledger lies two pallets below the courts.\<close>

definition with_ledger :: "'x \<Rightarrow> 'x identity_state rights_state \<Rightarrow> 'x identity_state rights_state" where
  "with_ledger x w = on_identity (\<lambda>i. i\<lparr>world := x\<rparr>) w"

definition deep_currency :: "('x, 'z) currency_scheme \<Rightarrow> 'x identity_state rights_state currency" where
  "deep_currency = currency_at (\<lambda>w. world (rights_world w)) with_ledger"

definition runtime_courts ::
  "'x identity_config \<Rightarrow> account \<Rightarrow> (nat \<Rightarrow> balance \<Rightarrow> balance) \<Rightarrow> 'x identity_state rights_state court_config" where
  "runtime_courts icfg treasury perbill =
     \<lparr>court_currency = deep_currency (id_currency icfg),
      citizen_record_of = (\<lambda>w. citizens (rights_world w)),
      freeze_defendant = (\<lambda>a. on_identity (attempt (do_freeze_citizen a))),
      unfreeze_defendant = (\<lambda>a. on_identity (attempt (do_unfreeze_citizen a))),
      demote_to_regular = (\<lambda>a. on_identity (attempt (do_demote_to_regular a))),
      exile_defendant = (\<lambda>a. on_identity (attempt (do_exile icfg a))),
      register_lockup = bridge_register_lockup, resolve_habeas_corpus = bridge_resolve,
      judges_collective_origin = (\<lambda>og. og = Root), usurpation_origin = (\<lambda>og. og = Root),
      court_treasury = treasury, perbill_percent_mul = perbill\<rparr>"

definition runtime_rights ::
  "((account \<Rightarrow> habeas_timer option) \<Rightarrow> account list) \<Rightarrow> 'x justice \<Rightarrow> 'x identity_state rights_config" where
  "runtime_rights order s =
     \<lparr>has_verdict = (\<lambda>_. defendant_has_verdict s), release_citizen = (\<lambda>a. attempt (do_unfreeze_citizen a)),
      timer_order = order\<rparr>"

definition runtime_block ::
  "((account \<Rightarrow> habeas_timer option) \<Rightarrow> account list) \<Rightarrow> nat \<Rightarrow> 'x justice \<Rightarrow> 'x justice" where
  "runtime_block order n s = s\<lparr>court_world := Constitution.on_initialize (runtime_rights order s) n (court_world s)\<rparr>"

lemma runtime_courts_sel [simp]:
  "court_currency (runtime_courts i y p) = deep_currency (id_currency i)"
  "citizen_record_of (runtime_courts i y p) = (\<lambda>w. citizens (rights_world w))"
  "freeze_defendant (runtime_courts i y p) = (\<lambda>a. on_identity (attempt (do_freeze_citizen a)))"
  "unfreeze_defendant (runtime_courts i y p) = (\<lambda>a. on_identity (attempt (do_unfreeze_citizen a)))"
  "exile_defendant (runtime_courts i y p) = (\<lambda>a. on_identity (attempt (do_exile i a)))"
  "Judicial_Courts.register_lockup (runtime_courts i y p) = bridge_register_lockup"
  "Judicial_Courts.resolve_habeas_corpus (runtime_courts i y p) = bridge_resolve"
  "judges_collective_origin (runtime_courts i y p) og \<longleftrightarrow> og = Root"
  "court_treasury (runtime_courts i y p) = y" "perbill_percent_mul (runtime_courts i y p) = p"
  by (simp_all add: runtime_courts_def)

lemma on_identity_simps [simp]:
  "rights_world (on_identity f w) = f (rights_world w)"
  "habeas_corpus_timers (on_identity f w) = habeas_corpus_timers w"
  by (simp_all add: on_identity_def)

interpretation beneath_courts: ledger_view "\<lambda>w. world (rights_world w)" with_ledger
  by unfold_locales (simp_all add: with_ledger_def on_identity_def)

lemmas with_ledger_world [simp] = beneath_courts.look_put

lemma deep_currency_sel [simp]:
  "free_balance (deep_currency cur) w = free_balance cur (world (rights_world w))"
  "total_issuance (deep_currency cur) w = total_issuance cur (world (rights_world w))"
  by (simp_all add: deep_currency_def)

lemma deep_currency_ok: "currency_ok cur \<Longrightarrow> currency_ok (deep_currency cur)"
  unfolding deep_currency_def by (rule beneath_courts.currency_at_ok)

section \<open>Status under the bridges\<close>

lemma freeze_status:
  "status_of (attempt (do_freeze_citizen a) i) b
     = (if b = a \<and> status_of i a \<noteq> None then Some citizen_status.Frozen else status_of i b)"
  by (cases "citizens i a") (auto simp: attempt_def do_freeze_citizen_def status_of_def)

lemma unfreeze_status:
  "status_of (attempt (do_unfreeze_citizen a) i) b
     = (if b = a \<and> status_of i a \<notin> {None, Some Deceased} then Some citizen_status.Active else status_of i b)"
  by (cases "citizens i a") (auto simp: attempt_def do_unfreeze_citizen_def status_of_def ensure_def)

lemma exile_status:
  "status_of (attempt (do_exile cfg a) i) b
     = (if b = a \<and> status_of i a \<notin> {None, Some Deceased, Some Exiled} then Some Exiled else status_of i b)"
  by (cases "citizens i a") (auto simp: attempt_def do_exile_def status_of_def ensure_def Let_def)

lemma releases_status:
  "status_of (fold (\<lambda>a. attempt (do_unfreeze_citizen a)) as i) b
     = (if b \<in> set as \<and> status_of i b \<notin> {None, Some Deceased} then Some citizen_status.Active else status_of i b)"
  by (induction as arbitrary: i) (auto simp: unfreeze_status)

lemma attempt_world [simp]:
  "world (attempt (do_freeze_citizen a) i) = world i" "world (attempt (do_unfreeze_citizen a) i) = world i"
  by (auto simp: attempt_def do_freeze_citizen_def do_unfreeze_citizen_def ok_or_def ensure_def split: option.splits result.splits)

section \<open>A block\<close>

definition due :: "nat \<Rightarrow> 'x justice \<Rightarrow> account \<Rightarrow> bool" where
  "due n s a \<longleftrightarrow> (\<exists>t. habeas_corpus_timers (court_world s) a = Some t \<and> \<not> resolved t \<and> max_lockup_block t \<le> n)
     \<and> \<not> defendant_has_verdict s a"

lemma runtime_rights_sel [simp]:
  "release_citizen (runtime_rights order s) = (\<lambda>a. attempt (do_unfreeze_citizen a))"
  "has_verdict (runtime_rights order s) w = defendant_has_verdict s" "timer_order (runtime_rights order s) = order"
  by (simp_all add: runtime_rights_def)

lemma released_iff:
  assumes "\<And>m. finite (dom m) \<Longrightarrow> set (order m) = dom m" "finite (dom (habeas_corpus_timers (court_world s)))"
  shows "a \<in> set (expired (runtime_rights order s) n (court_world s)) \<longleftrightarrow> due n s a"
  using expired_iff[of "runtime_rights order s" "court_world s" a n] assms
  by (auto simp: iterates_timers_def due_def)

lemma runtime_block_effect:
  assumes "\<And>m. finite (dom m) \<Longrightarrow> set (order m) = dom m" "finite (dom (habeas_corpus_timers (court_world s)))"
  shows "status_of (identity_in (runtime_block order n s)) a
      = (if due n s a \<and> status_of (identity_in s) a \<notin> {None, Some Deceased} then Some citizen_status.Active
         else status_of (identity_in s) a)"
    "habeas_corpus_timers (court_world (runtime_block order n s)) a
      = (if due n s a then None else habeas_corpus_timers (court_world s) a)"
    "defendant_has_verdict (runtime_block order n s) a = defendant_has_verdict s a"
    "finite (dom (habeas_corpus_timers (court_world (runtime_block order n s))))"
  using released_iff[OF assms] finite_subset[OF timers_dom assms(2)]
  by (simp_all add: runtime_block_def identity_in_def Constitution.on_initialize_def releases_world releases_timers
      releases_status)

text \<open>What is left of the timers after any blocks: those not yet due in one of them.\<close>

lemma runtime_blocks_effect:
  assumes "\<And>m. finite (dom m) \<Longrightarrow> set (order m) = dom m" "finite (dom (habeas_corpus_timers (court_world s)))"
  shows "status_of (identity_in (fold (runtime_block order) ns s)) a
      = (if (\<exists>n\<in>set ns. due n s a) \<and> status_of (identity_in s) a \<notin> {None, Some Deceased} then Some citizen_status.Active
         else status_of (identity_in s) a)"
  using assms(2)
proof (induction ns arbitrary: s)
  case (Cons n ns)
  note eff = runtime_block_effect[where order = order, OF assms(1) Cons.prems, simplified]
  have later: "due m (runtime_block order n s) a \<longleftrightarrow> \<not> due n s a \<and> due m s a" for m
    by (simp add: due_def[of m "runtime_block order n s"] eff(2,3)) (auto simp: due_def)
  show ?case
    using Cons.IH[OF eff(4)] by (auto simp: later eff(1))
qed simp

section \<open>A case against anybody\<close>

lemma open_case_runtime:
  assumes "open_case (runtime_courts icfg y p) env og d h w s = Ok t"
  shows "status_of (identity_in s) d \<noteq> None" "status_of (identity_in t) d = Some citizen_status.Frozen"
    "\<And>b. b \<noteq> d \<Longrightarrow> status_of (identity_in t) b = status_of (identity_in s) b"
    "habeas_corpus_timers (court_world t) = (habeas_corpus_timers (court_world s))(d \<mapsto>
       \<lparr>max_lockup_block = sat_add 32 (block_number env) HABEAS_CORPUS_DEADLINE_BLOCKS,
        registered_at = block_number env, case_hash = h, resolved = False\<rparr>)"
    "world (identity_in t) = world (identity_in s)"
proof -
  let ?f = "on_identity (attempt (do_freeze_citizen d)) (court_world s)"
  obtain z where z: "citizens (rights_world (court_world s)) d \<noteq> None" "court_world t = z"
    "bridge_register_lockup env d (sat_add 32 (block_number env) HABEAS_CORPUS_DEADLINE_BLOCKS) h ?f = Ok z"
    using assms by (elim open_case_Ok) simp
  from z show reg: "status_of (identity_in s) d \<noteq> None" by (simp add: status_of_def identity_in_def)
  have "rights_world z = attempt (do_freeze_citizen d) (rights_world (court_world s))"
    "habeas_corpus_timers z = (habeas_corpus_timers (court_world s))(d \<mapsto>
       \<lparr>max_lockup_block = sat_add 32 (block_number env) HABEAS_CORPUS_DEADLINE_BLOCKS,
        registered_at = block_number env, case_hash = h, resolved = False\<rparr>)"
    using z(3) by (auto simp: bridge_register_lockup_def Constitution.register_lockup_def ok_simps)
  with z reg show "status_of (identity_in t) d = Some citizen_status.Frozen"
    "\<And>b. b \<noteq> d \<Longrightarrow> status_of (identity_in t) b = status_of (identity_in s) b"
    "habeas_corpus_timers (court_world t) = (habeas_corpus_timers (court_world s))(d \<mapsto>
       \<lparr>max_lockup_block = sat_add 32 (block_number env) HABEAS_CORPUS_DEADLINE_BLOCKS,
        registered_at = block_number env, case_hash = h, resolved = False\<rparr>)"
    "world (identity_in t) = world (identity_in s)"
    by (simp_all add: identity_in_def freeze_status)
qed

lemma open_case_verdicts:
  assumes "open_case cfg env og d h w s = Ok t" "docket_ok s" "next_case_id s < umax 32"
  shows "defendant_has_verdict t a \<longleftrightarrow> defendant_has_verdict s a"
proof -
  have n: "court_cases s (next_case_id s) = None" using docketD(1)[OF assms(2)] by fastforce
  obtain b where t: "court_cases t = (court_cases s)(next_case_id s \<mapsto> filed_case b d h w)"
    "next_case_id t = Suc (next_case_id s)"
    using assms by (elim open_case_Ok) (simp add: sat_add_def)
  then show ?thesis
    by (auto simp: defendant_has_verdict_def list_ex_iff filed_case_def n less_Suc_eq split: option.splits)
qed

text \<open>A verdict closes the timer, if one runs, and only an acquittal changes a status.\<close>

lemma bridge_resolve_effect:
  assumes "bridge_resolve a w = Ok x"
  shows "rights_world x = rights_world w" "dom (habeas_corpus_timers x) \<subseteq> dom (habeas_corpus_timers w)"
  using assms by (auto simp: bridge_resolve_def Constitution.resolve_habeas_corpus_def ok_or_def ensure_def
      split: option.splits if_splits)

lemma issue_verdict_runtime:
  assumes "issue_verdict (runtime_courts icfg y p) og i g h v k s = Ok t" "court_cases s i = Some c"
  shows "status_of (identity_in t) b = (if \<not> g \<and> b = defendant c \<and> status_of (identity_in s) b \<notin> {None, Some Deceased}
      then Some citizen_status.Active else status_of (identity_in s) b)"
    "dom (habeas_corpus_timers (court_world t)) \<subseteq> dom (habeas_corpus_timers (court_world s))"
    "world (identity_in t) = world (identity_in s)"
proof -
  obtain x where x: "bridge_resolve (defendant c) (court_world s) = Ok x"
    "court_world t = (if g then x else on_identity (attempt (do_unfreeze_citizen (defendant c))) x)"
    using assms by (elim issue_verdict_Ok) simp
  then show "status_of (identity_in t) b = (if \<not> g \<and> b = defendant c \<and> status_of (identity_in s) b \<notin> {None, Some Deceased}
      then Some citizen_status.Active else status_of (identity_in s) b)"
    "dom (habeas_corpus_timers (court_world t)) \<subseteq> dom (habeas_corpus_timers (court_world s))"
    "world (identity_in t) = world (identity_in s)"
    using bridge_resolve_effect[OF x(1)] by (auto simp: identity_in_def unfreeze_status)
qed

end
