(* ===== verification/Judicial_Claims.thy ===== *)
theory Judicial_Claims
  imports Runtime_Justice
begin

text \<open>
  Properties of the courts: the registry of shame and the sentence that leads to it; and of the courts with the
  constitution and the identity pallet: when a citizen who stands accused is free again.
\<close>

lemma court_reachable_steps:
  "reachable (court_dispatch cfg) court_foreign s t \<Longrightarrow> (court_step cfg)\<^sup>*\<^sup>* s t"
  by (simp add: reachable_iff_steps)

lemma second_entry_refused:
  assumes "court_cases s i = Some c" "crime_category c = Some HateCrimeAndFascism" "registry_of_shame s (defendant c) \<noteq> None"
  shows "\<exists>e. execute_verdict cfg env og i s = Err e"
proof (cases "execute_verdict cfg env og i s")
  case (Ok t)
  then obtain c' p r u where "court_cases s i = Some c'" "sentence cfg env i c' s = Ok (p, r, u)"
    by (elim execute_verdict_Ok)
  with assms sentence_shame show ?thesis by fastforce
qed blast

lemma registered_once:
  assumes "docket_ok t"
  shows "registry_of_shame t a \<noteq> None \<longleftrightarrow> (\<exists>!i. \<exists>c. court_cases t i = Some c \<and> defendant c = a \<and> guillotined c)"
proof
  assume "\<exists>!i. \<exists>c. court_cases t i = Some c \<and> defendant c = a \<and> guillotined c"
  then obtain i c where "court_cases t i = Some c" "defendant c = a" "guillotined c" by blast
  with docketD(4)[OF assms] obtain r where "registry_of_shame t a = Some r" by blast
  then show "registry_of_shame t a \<noteq> None" by simp
next
  assume "registry_of_shame t a \<noteq> None"
  then obtain r where r: "registry_of_shame t a = Some r" by blast
  from docketD(3)[OF assms r] obtain c where "court_cases t (shame_case_id r) = Some c" "guillotined c" "defendant c = a"
    unfolding entry_matches_def by blast
  moreover have "i = shame_case_id r" if k: "court_cases t i = Some k" "guillotined k" "defendant k = a" for i k
  proof -
    obtain r' where "registry_of_shame t a = Some r'" "shame_case_id r' = i"
      using docketD(4)[OF assms k(1,2)] k(3) by blast
    with r show ?thesis by simp
  qed
  ultimately show "\<exists>!i. \<exists>c. court_cases t i = Some c \<and> defendant c = a \<and> guillotined c" by blast
qed

text \<open>C18: The registry of shame is permanent and exact. As long as case numbers last, an entry never changes; an account
  is in the registry if and only if exactly one case against it was executed as a hate crime, the one its entry
  names, with its evidence; and no second such verdict against it can ever be executed.\<close>

theorem shame_registry_exact:
  assumes "reachable (court_dispatch cfg) court_foreign (court_start x0) s"
    and "reachable (court_dispatch cfg) court_foreign s t"
    and "next_case_id t < umax 32"
  shows "(\<forall>a r. registry_of_shame s a = Some r \<longrightarrow> registry_of_shame t a = Some r)
    \<and> (\<forall>a. registry_of_shame t a \<noteq> None \<longleftrightarrow>
         (\<exists>!i. \<exists>c. court_cases t i = Some c \<and> defendant c = a \<and> case_status c = Executed
            \<and> crime_category c = Some HateCrimeAndFascism))
    \<and> (\<forall>a r. registry_of_shame t a = Some r \<longrightarrow> (\<exists>c. court_cases t (shame_case_id r) = Some c \<and> defendant c = a
         \<and> case_status c = Executed \<and> evidence_hash c = shame_evidence_hash r))
    \<and> (\<forall>i c env og. court_cases t i = Some c \<longrightarrow> crime_category c = Some HateCrimeAndFascism \<longrightarrow>
         registry_of_shame t (defendant c) \<noteq> None \<longrightarrow> (\<exists>e. execute_verdict cfg env og i t = Err e))"
proof -
  have "courts_ok t" by (rule bench.reachable_inv[OF assms(2) bench.reachable_inv[OF assms(1) courts_ok_start]])
  then have t: "docket_ok t" using assms(3) by (simp add: courts_ok_def)
  have only: "registry_of_shame t a \<noteq> None \<longleftrightarrow> (\<exists>!i. \<exists>c. court_cases t i = Some c \<and> defendant c = a \<and> guillotined c)" for a
    by (rule registered_once[OF t])
  show ?thesis
  proof (intro conjI allI impI)
    show "registry_of_shame t a = Some r" if "registry_of_shame s a = Some r" for a r
      using shame.final[OF court_reachable_steps[OF assms(2)] that] by simp
    show "registry_of_shame t a \<noteq> None \<longleftrightarrow> (\<exists>!i. \<exists>c. court_cases t i = Some c \<and> defendant c = a
        \<and> case_status c = Executed \<and> crime_category c = Some HateCrimeAndFascism)" for a
      using only[of a] unfolding guillotined_def .
    show "\<exists>c. court_cases t (shame_case_id r) = Some c \<and> defendant c = a
        \<and> case_status c = Executed \<and> evidence_hash c = shame_evidence_hash r" if "registry_of_shame t a = Some r" for a r
      using docketD(3)[OF t that] unfolding entry_matches_def guillotined_def by blast
  qed (rule second_entry_refused)
qed

section \<open>The guillotine\<close>

lemma confiscate_all:
  assumes ok: "currency_ok (court_currency cfg)" and d: "defendant c \<noteq> court_treasury cfg"
    and v: "v = free_balance (court_currency cfg) x (defendant c)"
    and y: "confiscate cfg c v AllowDeath x = Ok y"
  shows "free_balance (court_currency cfg) y b = (if b = defendant c then 0
    else free_balance (court_currency cfg) x b + (if b = court_treasury cfg then v else 0))"
proof (cases "v = 0")
  case True
  with v y show ?thesis by (simp add: confiscate_def)
next
  case False
  with y have "transfer (court_currency cfg) x (defendant c) (court_treasury cfg) v AllowDeath = Ok y"
    by (simp add: confiscate_def ok_simps)
  from transfer_deathD(3,4)[OF ok this] d v show ?thesis by (cases "b = defendant c") auto
qed

lemma pay_reward_effect:
  assumes ok: "currency_ok (court_currency cfg)" and y: "pay_reward cfg c v x = Ok y"
    and wb: "whistleblower c = None \<Longrightarrow> v = 0"
  shows "free_balance (court_currency cfg) y b + (if b = court_treasury cfg then v else 0)
    = free_balance (court_currency cfg) x b + (if whistleblower c = Some b \<or> v = 0 \<and> b = court_treasury cfg then v else 0)"
proof (cases "v = 0")
  case True
  with y show ?thesis by (simp add: pay_reward_def)
next
  case False
  with wb obtain w where w: "whistleblower c = Some w" by auto
  with False y have "transfer (court_currency cfg) x (court_treasury cfg) w v KeepAlive = Ok y"
    by (simp add: pay_reward_def ok_simps)
  from transfer_keepD(1,3)[OF ok this] w show ?thesis by auto
qed

text \<open>The guillotine takes the whole balance, whatever the penalty of the verdict says. With the treasury another
  account, executing a hate crime verdict leaves the defendant nothing, gives it all to the treasury, pays the
  whistleblower a fifth out of it, and only then exiles; a defendant who is also the whistleblower of the case gets
  that fifth back.\<close>

theorem guillotine_takes_all:
  assumes ok: "currency_ok (court_currency cfg)"
    and c: "court_cases s i = Some c" "crime_category c = Some HateCrimeAndFascism" "defendant c \<noteq> court_treasury cfg"
    and t: "execute_verdict cfg env og i s = Ok t"
    and full: "full = free_balance (court_currency cfg) (court_world s) (defendant c)"
    and fifth: "fifth = (if whistleblower c = None then 0 else perbill_percent_mul cfg 20 full)"
  shows "court_cases t i = Some (c\<lparr>case_status := Executed\<rparr>) \<and> is_in_registry_of_shame t (defendant c)
    \<and> (\<exists>y. court_world t = exile_defendant cfg (defendant c) y
        \<and> (\<forall>b. free_balance (court_currency cfg) y b + (if b = court_treasury cfg then fifth else 0)
             = (if b = defendant c then 0 else free_balance (court_currency cfg) (court_world s) b)
               + (if b = court_treasury cfg then full else 0) + (if whistleblower c = Some b then fifth else 0)))"
proof -
  obtain p r u where u: "sentence cfg env i c s = Ok (p, r, u)" "court_world t = court_world u"
    "court_cases t = (court_cases s)(i \<mapsto> c\<lparr>case_status := Executed\<rparr>)" "registry_of_shame t = registry_of_shame u"
    using execute_verdict_Ok[OF t] c(1) by (metis option.inject)
  have f: "whistleblower_share cfg c full = fifth" unfolding fifth whistleblower_share_def by (simp split: option.split)
  have g: "digital_guillotine cfg env i c s = Ok (p, r, u)" using u(1) c(2) by (simp add: sentence_def)
  then obtain x y where xy: "confiscate cfg c full AllowDeath (court_world s) = Ok x" "pay_reward cfg c fifth x = Ok y"
    "court_world u = exile_defendant cfg (defendant c) y"
    unfolding digital_guillotine_def Let_def full[symmetric] f by (auto simp: ok_simps)
  have none: "whistleblower c = None \<Longrightarrow> fifth = 0" by (simp add: fifth)
  show ?thesis
  proof (intro conjI exI[of _ y] allI)
    show "court_cases t i = Some (c\<lparr>case_status := Executed\<rparr>)" using u(3) by simp
    show "is_in_registry_of_shame t (defendant c)"
      using sentence_shame[OF u(1)] c(2) u(4) by (simp add: is_in_registry_of_shame_def)
    show "court_world t = exile_defendant cfg (defendant c) y" using u(2) xy(3) by simp
    show "free_balance (court_currency cfg) y b + (if b = court_treasury cfg then fifth else 0)
        = (if b = defendant c then 0 else free_balance (court_currency cfg) (court_world s) b)
          + (if b = court_treasury cfg then full else 0) + (if whistleblower c = Some b then fifth else 0)" for b
      using pay_reward_effect[OF ok xy(2) none, of b] confiscate_all[OF ok c(3) full xy(1), of b] c(3) by (auto split: if_splits)
  qed
qed

section \<open>Habeas corpus\<close>

text \<open>What follows a case against \<open>d\<close>: blocks run the hook of the constitution, and in between anything may
  happen, calls of any pallet and their hooks, that leaves alone the status of \<open>d\<close>, the timer of \<open>d\<close> and
  whether \<open>d\<close> has a verdict. The list holds the numbers of the blocks.\<close>

definition undisturbed :: "account \<Rightarrow> 'x justice \<Rightarrow> 'x justice \<Rightarrow> bool" where
  "undisturbed d s t \<longleftrightarrow> status_of (identity_in t) d = status_of (identity_in s) d
     \<and> habeas_corpus_timers (court_world t) d = habeas_corpus_timers (court_world s) d
     \<and> (defendant_has_verdict t d \<longleftrightarrow> defendant_has_verdict s d)
     \<and> (finite (dom (habeas_corpus_timers (court_world s))) \<longrightarrow> finite (dom (habeas_corpus_timers (court_world t))))"

inductive custody ::
  "((account \<Rightarrow> habeas_timer option) \<Rightarrow> account list) \<Rightarrow> account \<Rightarrow> 'x justice \<Rightarrow> nat list \<Rightarrow> 'x justice \<Rightarrow> bool"
  for order d s where
  start: "custody order d s [] s"
| block: "custody order d s ns t \<Longrightarrow> custody order d s (ns @ [n]) (runtime_block order n t)"
| other: "custody order d s ns t \<Longrightarrow> undisturbed d t u \<Longrightarrow> custody order d s ns u"

text \<open>A case against somebody else is such a step.\<close>

lemma other_case_undisturbed:
  assumes t: "open_case (runtime_courts icfg y p) env og e h w s = Ok t" and "e \<noteq> d"
    and ok: "docket_ok s" "next_case_id s < umax 32"
  shows "undisturbed d s t"
  using assms(2) open_case_runtime(3,4)[OF t] open_case_verdicts[OF t ok] by (simp add: undisturbed_def)

lemma custody_clock:
  assumes order: "\<And>m. finite (dom m) \<Longrightarrow> set (order m) = dom m" and "custody order d t ns u"
    and "finite (dom (habeas_corpus_timers (court_world t)))"
    and t: "status_of (identity_in t) d = Some citizen_status.Frozen" "\<not> defendant_has_verdict t d"
      "habeas_corpus_timers (court_world t) d = Some h" "\<not> resolved h"
  shows "finite (dom (habeas_corpus_timers (court_world u))) \<and> \<not> defendant_has_verdict u d
    \<and> status_of (identity_in u) d
        = Some (if \<exists>n\<in>set ns. max_lockup_block h \<le> n then citizen_status.Active else citizen_status.Frozen)
    \<and> habeas_corpus_timers (court_world u) d = (if \<exists>n\<in>set ns. max_lockup_block h \<le> n then None else Some h)"
  using assms(2,3)
proof (induction rule: custody.induct)
  case (block ns u n)
  then have fin: "finite (dom (habeas_corpus_timers (court_world u)))" by blast
  note eff = runtime_block_effect[where order = order, OF order fin, simplified]
  have "due n u d \<longleftrightarrow> \<not> (\<exists>n\<in>set ns. max_lockup_block h \<le> n) \<and> max_lockup_block h \<le> n"
    using block t(4) by (auto simp: due_def)
  then have "status_of (identity_in (runtime_block order n u)) d
        = Some (if \<exists>n\<in>set (ns @ [n]). max_lockup_block h \<le> n then citizen_status.Active else citizen_status.Frozen)
    \<and> habeas_corpus_timers (court_world (runtime_block order n u)) d
        = (if \<exists>n\<in>set (ns @ [n]). max_lockup_block h \<le> n then None else Some h)"
    using block by (auto simp: eff(1,2))
  moreover have "\<not> defendant_has_verdict u d" using block by blast
  ultimately show ?case using eff(3,4) by simp
next
  case (other ns u v)
  then show ?case by (simp add: undisturbed_def)
qed (use t in simp)

text \<open>C19: The habeas corpus clock. Whoever opens a case against a registered citizen without a verdict, the citizen is
  frozen at once. Afterwards blocks run the hook of the constitution, and anything else happens in between that
  leaves alone the citizen's status and timer and brings them no verdict: no second case against them, no verdict,
  no intervention of Root or of another pallet. Then they stay frozen through every block before 7,200 more have passed and are active from
  the first block at or after it, whatever the status was before: a case brings the exiled and the dead back among
  the active.\<close>

theorem habeas_corpus_clock:
  assumes order: "\<And>m. finite (dom m) \<Longrightarrow> set (order m) = dom m"
    and fin: "finite (dom (habeas_corpus_timers (court_world s)))"
    and s: "reachable (court_dispatch (runtime_courts icfg y p)) court_foreign (court_start x0) s"
      "next_case_id s < umax 32"
    and t: "open_case (runtime_courts icfg y p) env og d h w s = Ok t"
    and free: "\<not> defendant_has_verdict s d"
    and u: "custody order d t ns u"
  shows "status_of (identity_in u) d
    = Some (if \<exists>n\<in>set ns. sat_add 32 (block_number env) 7200 \<le> n then citizen_status.Active else citizen_status.Frozen)"
proof -
  have "courts_ok s" by (rule bench.reachable_inv[OF s(1) courts_ok_start])
  then have "docket_ok s" using s(2) by (simp add: courts_ok_def)
  then have "\<not> defendant_has_verdict t d" using open_case_verdicts[OF t _ s(2)] free by blast
  moreover note opened = open_case_runtime[OF t]
  ultimately show ?thesis
    using custody_clock[OF order u _ opened(2)] fin by (simp add: opened(4) HABEAS_CORPUS_DEADLINE_BLOCKS_def)
qed

text \<open>Once judged, held for ever. After any verdict on any case, an acquittal included, a new case against the same
  citizen freezes them and no block ever releases them: the clock of the new case runs out without effect.\<close>

theorem judged_once_held_for_ever:
  assumes order: "\<And>m. finite (dom m) \<Longrightarrow> set (order m) = dom m"
    and fin: "finite (dom (habeas_corpus_timers (court_world s)))"
    and s: "reachable (court_dispatch (runtime_courts icfg y p)) court_foreign (court_start x0) s"
      "next_case_id s < umax 32"
    and t: "open_case (runtime_courts icfg y p) env og d h w s = Ok t"
    and judged: "court_cases s i = Some c" "defendant c = d" "case_status c \<noteq> Open"
  shows "status_of (identity_in (fold (runtime_block order) ns t)) d = Some citizen_status.Frozen"
proof -
  have "courts_ok s" by (rule bench.reachable_inv[OF s(1) courts_ok_start])
  then have ok: "docket_ok s" using s(2) by (simp add: courts_ok_def)
  have "defendant_has_verdict t d" using open_case_verdicts[OF t ok s(2)] has_verdict_iff[OF ok] judged by blast
  then have "\<not> due n t d" for n by (simp add: due_def)
  moreover have "finite (dom (habeas_corpus_timers (court_world t)))" using fin open_case_runtime(4)[OF t] by simp
  note runtime_blocks_effect[where ns = ns and a = d, OF order this]
  ultimately show ?thesis using open_case_runtime(2)[OF t] by simp
qed

section \<open>Trials\<close>

text \<open>An exile with a balance of 1,000, and one with none; accounts 50 (the treasury) and 13 hold 100 each.\<close>

definition outlaw :: citizen_record where
  "outlaw = (newborn 1 5 6 [])\<lparr>status := Exiled\<rparr>"

definition justice_id :: "book identity_config" where
  "justice_id = \<lparr>id_currency = book_base 5, reserve = (\<lambda>x _ _. Ok x), medical_authority = 90, marriage_fee = 1,
     civil_fee_treasury = 91, arbad_cooldown_period = 100, max_registrations_per_block = 5, constitution_hash = None,
     on_deceased = (\<lambda>_ x. x), on_exiled = (\<lambda>_ x. x), encode_account = (\<lambda>_. []), blake2_256 = (\<lambda>b. b),
     decode_account = (\<lambda>_. 92)\<rparr>"

definition demo_courts :: "book identity_state rights_state court_config" where
  "demo_courts = runtime_courts justice_id 50 (\<lambda>p v. p * v div 100)"

definition demo_book :: book where
  "demo_book = \<lparr>bal = (\<lambda>a. if a = 11 then 1000 else if a \<in> {13, 50} then 100 else 0), issued = 1200, lock_of = (\<lambda>_ _. None)\<rparr>"

definition quiet_court :: "book justice" where
  "quiet_court = court_start \<lparr>rights_world = (identity_start demo_book)\<lparr>citizens := [11 \<mapsto> outlaw, 17 \<mapsto> outlaw]\<rparr>,
     core_rights_hash = None, habeas_corpus_timers = Map.empty, rights_events = []\<rparr>"

definition at_seven :: env where
  "at_seven = \<lparr>block_number = 7, extrinsic_index = Some 0\<rparr>"

definition sorted_keys :: "(account \<Rightarrow> habeas_timer option) \<Rightarrow> account list" where
  "sorted_keys m = sorted_list_of_set (dom m)"

lemma sorted_keys_set: "finite (dom m) \<Longrightarrow> set (sorted_keys m) = dom m"
  by (simp add: sorted_keys_def)

lemma open_case_total:
  assumes "citizens (identity_in s) d \<noteq> None"
  shows "\<exists>t. open_case (runtime_courts i y p) env (Signed a) d h w s = Ok t"
  using assms by (auto simp: open_case_def Let_def identity_in_def bridge_register_lockup_def Constitution.register_lockup_def)

lemma issue_verdict_total:
  assumes "court_cases s i = Some c" "case_status c = Open"
  shows "\<exists>t. issue_verdict (runtime_courts icfg y p) Root i g h v k s = Ok t"
  using assms by (simp add: issue_verdict_def Let_def bridge_resolve_def)

lemma execute_pauper_total:
  assumes "court_cases s i = Some c" "case_status c = Guilty" "crime_category c = Some HateCrimeAndFascism"
    "free_balance (court_currency cfg) (court_world s) (defendant c) = 0" "perbill_percent_mul cfg 20 0 = 0"
    "registry_of_shame s (defendant c) = None"
  shows "\<exists>t. execute_verdict cfg env (Signed a) i s = Ok t"
proof -
  have "whistleblower_share cfg c 0 = 0" using assms(5) by (simp add: whistleblower_share_def split: option.split)
  then show ?thesis
    using assms by (simp add: execute_verdict_def sentence_def digital_guillotine_def confiscate_def pay_reward_def)
qed

lemma quiet_court_sel [simp]:
  "court_cases quiet_court = Map.empty" "next_case_id quiet_court = 0" "registry_of_shame quiet_court = Map.empty"
  "citizens (identity_in quiet_court) = [11 \<mapsto> outlaw, 17 \<mapsto> outlaw]"
  "habeas_corpus_timers (court_world quiet_court) = Map.empty"
  "world (rights_world (court_world quiet_court)) = demo_book"
  by (simp_all add: quiet_court_def court_start_def identity_in_def identity_start_def)

lemma quiet_court_start: "quiet_court = court_start (court_world quiet_court)"
  by (simp add: quiet_court_def court_start_def)

lemma quiet_reached: "reachable (court_dispatch cfg) court_foreign (court_start (court_world quiet_court)) quiet_court"
  using quiet_court_start by (metis reachable.start)

text \<open>The exile is among the active again 7,200 blocks after account 12 has opened a case, a case against account 17
  in between.\<close>

lemma habeas_corpus_clock_witness:
  "\<exists>t u. open_case demo_courts at_seven (Signed 12) 11 [] None quiet_court = Ok t
    \<and> status_of (identity_in quiet_court) 11 = Some Exiled
    \<and> open_case demo_courts at_seven (Signed 12) 17 [] None (runtime_block sorted_keys 8 t) = Ok u
    \<and> status_of (identity_in (runtime_block sorted_keys 7207 u)) 11 = Some citizen_status.Active"
proof -
  obtain t where t: "open_case demo_courts at_seven (Signed 12) 11 [] None quiet_court = Ok t"
    unfolding demo_courts_def using open_case_total[of quiet_court 11] by fastforce
  have "\<not> defendant_has_verdict quiet_court 11" by (simp add: defendant_has_verdict_def)
  note clock = habeas_corpus_clock[OF sorted_keys_set _ quiet_reached _ t[unfolded demo_courts_def] this]
  let ?b = "runtime_block sorted_keys 8 t"
  have run: "custody sorted_keys 11 t [8] ?b" using custody.block[OF custody.start] by fastforce
  have same: "court_cases ?b = court_cases t" "next_case_id ?b = next_case_id t" by (simp_all add: runtime_block_def)
  have t1: "next_case_id t = 1" "court_cases t 0 \<noteq> None"
    using t by (elim open_case_Ok, simp add: sat_add_def umax_def)+
  have "reachable (court_dispatch demo_courts) court_foreign (court_start (court_world quiet_court)) t"
    by (rule reachable.call[OF quiet_reached, where c = "(at_seven, Signed 12, OpenCase 11 [] None)"]) (simp add: t)
  then have "courts_ok t" by (rule bench.reachable_inv[OF _ courts_ok_start])
  then have "docket_ok t" using t1 by (simp add: courts_ok_def umax_def)
  then have ok: "docket_ok ?b" by (simp add: docket_ok_def entry_matches_def runtime_block_def guillotined_def)
  have fin: "finite (dom (habeas_corpus_timers (court_world t)))"
    using open_case_runtime(4)[OF t[unfolded demo_courts_def]] by simp
  have "status_of (identity_in t) 17 = Some Exiled"
    using open_case_runtime(3)[OF t[unfolded demo_courts_def], of 17] by (simp add: status_of_def outlaw_def)
  then have "status_of (identity_in ?b) 17 \<noteq> None"
    using runtime_block_effect(1)[OF sorted_keys_set fin] by simp
  then have "citizens (identity_in ?b) 17 \<noteq> None" by (simp add: status_of_def)
  then obtain u where u: "open_case demo_courts at_seven (Signed 12) 17 [] None ?b = Ok u"
    unfolding demo_courts_def using open_case_total by blast
  have "undisturbed 11 ?b u"
    by (rule other_case_undisturbed[OF u[unfolded demo_courts_def]]) (use ok same t1 in \<open>simp_all add: umax_def\<close>)
  from custody.block[OF custody.other[OF run this], of 7207]
  have "custody sorted_keys 11 t [8, 7207] (runtime_block sorted_keys 7207 u)" by simp
  from clock[OF _ _ _ this] t u show ?thesis
    by (simp add: umax_def sat_add_def at_seven_def status_of_def outlaw_def newborn_def)
qed

text \<open>A trial that ends in acquittal, and one that ends in the registry.\<close>

lemma acquittal_reached:
  "\<exists>s c. reachable (court_dispatch demo_courts) court_foreign (court_start (court_world quiet_court)) s
    \<and> court_cases s 0 = Some c \<and> defendant c = 11 \<and> case_status c = Acquitted \<and> next_case_id s = 1
    \<and> citizens (identity_in s) 11 \<noteq> None \<and> finite (dom (habeas_corpus_timers (court_world s)))"
proof -
  obtain t where t: "open_case demo_courts at_seven (Signed 12) 11 [] None quiet_court = Ok t"
    unfolding demo_courts_def using open_case_total[of quiet_court 11] by fastforce
  obtain c where c: "court_cases t 0 = Some c" "case_status c = Open" "defendant c = 11" "next_case_id t = 1"
    using t by (elim open_case_Ok) (simp add: filed_case_def sat_add_def umax_def)
  obtain u where u: "issue_verdict demo_courts Root 0 False [] 0 Economic t = Ok u"
    unfolding demo_courts_def using issue_verdict_total[OF c(1,2)] by blast
  have "reachable (court_dispatch demo_courts) court_foreign (court_start (court_world quiet_court)) t"
    by (rule reachable.call[OF quiet_reached, where c = "(at_seven, Signed 12, OpenCase 11 [] None)"]) (simp add: t)
  then have "reachable (court_dispatch demo_courts) court_foreign (court_start (court_world quiet_court)) u"
    by (rule reachable.call[where c = "(at_seven, Root, IssueVerdict 0 False [] 0 Economic)"]) (simp add: u)
  moreover have "court_cases u 0 = Some (verdict_entered False [] 0 Economic c)" "next_case_id u = 1"
    using u c by (elim issue_verdict_Ok, simp)+
  moreover have "status_of (identity_in u) 11 \<noteq> None" "finite (dom (habeas_corpus_timers (court_world u)))"
    using issue_verdict_runtime[OF u[unfolded demo_courts_def] c(1)] open_case_runtime(2,4)[OF t[unfolded demo_courts_def]]
    by (auto intro: finite_subset)
  ultimately show ?thesis
    using c(3) by (intro exI[of _ u] exI[of _ "verdict_entered False [] 0 Economic c"])
      (auto simp: verdict_entered_def status_of_def)
qed

lemma judged_once_held_for_ever_witness:
  "\<exists>s t. open_case demo_courts at_seven (Signed 12) 11 [] None s = Ok t \<and> status_of (identity_in s) 11 \<noteq> None
    \<and> status_of (identity_in (fold (runtime_block sorted_keys) [8, 7207, 90000] t)) 11 = Some citizen_status.Frozen"
proof -
  obtain s c where s: "reachable (court_dispatch demo_courts) court_foreign (court_start (court_world quiet_court)) s"
    "court_cases s 0 = Some c" "defendant c = 11" "case_status c = Acquitted" "next_case_id s = 1"
    "citizens (identity_in s) 11 \<noteq> None" "finite (dom (habeas_corpus_timers (court_world s)))"
    using acquittal_reached by blast
  obtain t where t: "open_case demo_courts at_seven (Signed 12) 11 [] None s = Ok t"
    unfolding demo_courts_def using open_case_total[OF s(6)] by blast
  have "next_case_id s < umax 32" using s(5) by (simp add: umax_def)
  note held = judged_once_held_for_ever[OF sorted_keys_set s(7) s(1)[unfolded demo_courts_def] this
      t[unfolded demo_courts_def] s(2,3), of "[8, 7207, 90000]"]
  have "case_status c \<noteq> Open" "status_of (identity_in s) 11 \<noteq> None" using s(4,6) by (simp_all add: status_of_def)
  then show ?thesis using t held by blast
qed

lemma shame_registry_exact_witness:
  "\<exists>s. reachable (court_dispatch demo_courts) court_foreign (court_start (court_world quiet_court)) s
    \<and> registry_of_shame s 17 \<noteq> None \<and> (\<exists>!i. \<exists>c. court_cases s i = Some c \<and> defendant c = 17
         \<and> case_status c = Executed \<and> crime_category c = Some HateCrimeAndFascism)"
proof -
  let ?R = "reachable (court_dispatch demo_courts) court_foreign (court_start (court_world quiet_court))"
  obtain t where t: "open_case demo_courts at_seven (Signed 12) 17 [] None quiet_court = Ok t"
    unfolding demo_courts_def using open_case_total[of quiet_court 17] by fastforce
  obtain c where c: "court_cases t 0 = Some c" "case_status c = Open" "defendant c = 17" "next_case_id t = 1"
    "registry_of_shame t 17 = None"
    using t by (elim open_case_Ok) (simp add: filed_case_def sat_add_def umax_def)
  obtain u where u: "issue_verdict demo_courts Root 0 True [] 9 HateCrimeAndFascism t = Ok u"
    unfolding demo_courts_def using issue_verdict_total[OF c(1,2)] by blast
  let ?c = "verdict_entered True [] 9 HateCrimeAndFascism c"
  have cu: "court_cases u 0 = Some ?c" "next_case_id u = 1" "registry_of_shame u 17 = None"
    using u c by (elim issue_verdict_Ok, simp)+
  have "world (identity_in u) = demo_book"
    using open_case_runtime(5)[OF t[unfolded demo_courts_def]] issue_verdict_runtime(3)[OF u[unfolded demo_courts_def] c(1)]
    by (simp add: identity_in_def)
  then have "free_balance (court_currency demo_courts) (court_world u) 17 = 0"
    by (simp add: demo_courts_def justice_id_def book_base_def demo_book_def identity_in_def)
  then obtain v where v: "execute_verdict demo_courts at_seven (Signed 12) 0 u = Ok v"
    using execute_pauper_total[OF cu(1), where cfg = demo_courts] c(3) cu(3)
    by (auto simp: verdict_entered_def demo_courts_def)
  have "?R t" by (rule reachable.call[OF quiet_reached, where c = "(at_seven, Signed 12, OpenCase 17 [] None)"]) (simp add: t)
  then have "?R u" by (rule reachable.call[where c = "(at_seven, Root, IssueVerdict 0 True [] 9 HateCrimeAndFascism)"]) (simp add: u)
  then have R: "?R v" by (rule reachable.call[where c = "(at_seven, Signed 12, ExecuteVerdict 0)"]) (simp add: v)
  have n: "next_case_id v < umax 32" using v cu(2) by (elim execute_verdict_Ok) (simp add: umax_def)
  have "court_cases v 0 = Some (?c\<lparr>case_status := Executed\<rparr>)"
    using v cu(1) by (elim execute_verdict_Ok) simp
  moreover have "registry_of_shame v 17 \<noteq> None"
  proof -
    obtain p r w where w: "sentence demo_courts at_seven 0 ?c u = Ok (p, r, w)" "registry_of_shame v = registry_of_shame w"
      using v cu(1) by (elim execute_verdict_Ok) simp
    from sentence_shame[OF w(1)] w(2) c(3) show ?thesis by (simp add: verdict_entered_def)
  qed
  moreover note shame_registry_exact[OF R reachable.start n, THEN conjunct2, THEN conjunct1, THEN spec[of _ 17]]
  ultimately show ?thesis using R by (intro exI[of _ v]) simp
qed

text \<open>An exile informs on himself and keeps a fifth.\<close>

definition hate_case :: court_case where
  "hate_case = (verdict_entered True [] 9 HateCrimeAndFascism (filed_case 12 11 [] (Some 11)))"

definition condemned :: "book justice" where
  "condemned = quiet_court\<lparr>court_cases := [0 \<mapsto> hate_case], next_case_id := 1\<rparr>"

lemma condemned_sel [simp]:
  "court_cases condemned 0 = Some hate_case" "registry_of_shame condemned 11 = None"
  "rights_world (court_world condemned) = identity_in quiet_court"
  by (simp_all add: condemned_def identity_in_def)

lemma hate_case_sel [simp]:
  "defendant hate_case = 11" "whistleblower hate_case = Some 11" "case_status hate_case = Guilty"
  "crime_category hate_case = Some HateCrimeAndFascism"
  by (simp_all add: hate_case_def verdict_entered_def filed_case_def)

lemma condemned_executes: "\<exists>t. execute_verdict demo_courts at_seven (Signed 12) 0 condemned = Ok t"
  by (simp add: execute_verdict_def sentence_def digital_guillotine_def confiscate_def pay_reward_def whistleblower_share_def
      demo_courts_def deep_currency_def currency_at_def justice_id_def book_base_def book_transfer_def condemned_def demo_book_def Let_def)

lemma guillotine_takes_all_witness:
  "\<exists>t y. execute_verdict demo_courts at_seven (Signed 12) 0 condemned = Ok t
    \<and> court_world t = exile_defendant demo_courts 11 y
    \<and> free_balance (court_currency demo_courts) (court_world condemned) 11 = 1000
    \<and> free_balance (court_currency demo_courts) y 11 = 200 \<and> free_balance (court_currency demo_courts) y 50 = 900"
proof -
  have full: "free_balance (court_currency demo_courts) (court_world condemned) b = bal demo_book b" for b
    by (simp add: demo_courts_def justice_id_def book_base_def condemned_def)
  have fifth: "perbill_percent_mul demo_courts 20 1000 = 200" "bal demo_book 11 = 1000"
    by (simp_all add: demo_courts_def demo_book_def)
  have treasury: "court_treasury demo_courts = 50" by (simp add: demo_courts_def)
  obtain t where t: "execute_verdict demo_courts at_seven (Signed 12) 0 condemned = Ok t"
    using condemned_executes by blast
  have "currency_ok (court_currency demo_courts)"
    by (simp add: demo_courts_def justice_id_def deep_currency_ok book_currency_ok)
  moreover have "defendant hate_case \<noteq> court_treasury demo_courts"
    "1000 = free_balance (court_currency demo_courts) (court_world condemned) (defendant hate_case)"
    "200 = (if whistleblower hate_case = None then 0 else perbill_percent_mul demo_courts 20 1000)"
    by (simp_all add: full fifth treasury)
  note cur = calculation and facts = this
  obtain y where
    y: "court_world t = exile_defendant demo_courts 11 y"
    and bal: "\<And>b. free_balance (court_currency demo_courts) y b + (if b = 50 then 200 else 0)
      = (if b = 11 then 0 else bal demo_book b) + (if b = 50 then 1000 else 0) + (if b = 11 then 200 else 0)"
    using guillotine_takes_all[OF cur condemned_sel(1) hate_case_sel(4) facts(1) t facts(2,3)]
    by (auto simp only: full treasury hate_case_sel option.inject eq_commute[of 11])
  have "free_balance (court_currency demo_courts) y 11 = 200" "free_balance (court_currency demo_courts) y 50 = 900"
    using bal[of 11] bal[of 50] by (simp_all add: demo_book_def)
  then show ?thesis using t y by (intro exI[of _ t] exI[of _ y]) (simp add: full fifth)
qed

end
