(* ===== verification/Black_Book_Claims.thy ===== *)
theory Black_Book_Claims
  imports Black_Book Judicial_Claims
begin

text \<open>
  Properties of the black book, and its composition with the identity pallet and the courts through
  \<^verbatim>\<open>BlackBookIdentityBridge\<close> and \<^verbatim>\<open>KhuralDelegateBridge\<close> of \<^verbatim>\<open>runtime/src/configs/mod.rs\<close>.
\<close>

section \<open>Where the bounty lies\<close>

text \<open>The bounty is put into the hands of the fugitive. A warrant for a fugitive with an initial bounty leaves the
  fugitive's own account with exactly the bounty, out of the treasury, whatever was confiscated; and once the fugitive
  has spent it, nobody is ever paid: each claim of a payout above the fugitive's balance fails, whoever makes it and
  whenever.\<close>

theorem bounty_lies_with_fugitive:
  assumes ok: "currency_ok (bounty_currency cfg)" and a: "a \<noteq> bounty_treasury cfg" and v: "0 < v"
    and t: "condemn_and_issue_warrant cfg env og a k h True v s = Ok t"
  shows "free_balance (bounty_currency cfg) (bounty_world t) a = v \<and> bounty_pools t a = Some v
    \<and> (\<forall>u l env' og'. locked_bounty_payouts u a = Some l
         \<longrightarrow> free_balance (bounty_currency cfg) (bounty_world u) a < payout_amount l
         \<longrightarrow> (\<exists>e. claim_bounty_payout cfg env' og' a u = Err e))"
proof -
  obtain x y z where xy: "confiscate_free cfg a x = Ok y"
    and z: "transfer (bounty_currency cfg) y (bounty_treasury cfg) a v KeepAlive = Ok z"
    "bounty_world t = z" "bounty_pools t = (bounty_pools s)(a \<mapsto> v)"
    using t v by (elim condemn_Ok) simp
  have "free_balance (bounty_currency cfg) y a = 0"
  proof (cases "free_balance (bounty_currency cfg) x a = 0")
    case True
    then show ?thesis using xy by (simp add: confiscate_free_def)
  next
    case False
    with xy have "transfer (bounty_currency cfg) x a (bounty_treasury cfg) (free_balance (bounty_currency cfg) x a) AllowDeath = Ok y"
      by (simp add: confiscate_free_def pay_def ok_simps)
    from transfer_deathD(4)[OF ok this a] show ?thesis by simp
  qed
  then have "free_balance (bounty_currency cfg) (bounty_world t) a = v"
    using transfer_keepD(3)[OF ok z(1), of a] a z(2) by simp
  moreover have "\<exists>e. claim_bounty_payout cfg env' og' a u = Err e"
    if l: "locked_bounty_payouts u a = Some l" "free_balance (bounty_currency cfg) (bounty_world u) a < payout_amount l"
    for u l env' og'
  proof (cases "claim_bounty_payout cfg env' og' a u")
    case (Ok w)
    with l obtain x' where "transfer (bounty_currency cfg) (bounty_world u) a (bounty_hunter l) (payout_amount l) AllowDeath = Ok x'"
      by (auto simp: claim_bounty_payout_def pay_def ok_simps)
    from transfer_deathD(1)[OF ok this] l(2) show ?thesis by simp
  qed blast
  ultimately show ?thesis using z(3) by simp
qed

section \<open>Over the courts and the identity pallet\<close>

definition put_identity :: "'x identity_state \<Rightarrow> 'x justice \<Rightarrow> 'x justice" where
  "put_identity i s = s\<lparr>court_world := on_identity (\<lambda>_. i) (court_world s)\<rparr>"

definition put_ledger :: "'x \<Rightarrow> 'x justice \<Rightarrow> 'x justice" where
  "put_ledger x s = put_identity ((identity_in s)\<lparr>world := x\<rparr>) s"

fun identity_error_to_bounty :: "identity_failure \<Rightarrow> bounty_failure" where
  "identity_error_to_bounty (Module e) = ThirdParty 0"
| "identity_error_to_bounty BadOrigin = BadOrigin"
| "identity_error_to_bounty Panic = Panic"
| "identity_error_to_bounty (ThirdParty n) = ThirdParty n"
| "identity_error_to_bounty (Other m) = Other m"

definition bridge_exile :: "'x identity_config \<Rightarrow> account \<Rightarrow> 'x justice \<Rightarrow> ('x justice, bounty_failure) result" where
  "bridge_exile icfg a s =
     and_then (map_err identity_error_to_bounty (do_exile icfg a (identity_in s))) (\<lambda>i. Ok (put_identity i s))"

definition khural_delegate_bridge :: "'x justice \<Rightarrow> account \<Rightarrow> bool" where
  "khural_delegate_bridge s a = (case citizens (identity_in s) a of
       Some r \<Rightarrow> status r = citizen_status.Active \<and> role r \<in> {KhuralDelegate, ConfederationDelegate}
     | None \<Rightarrow> False)"

definition runtime_black_book ::
  "'x identity_config \<Rightarrow> (account \<Rightarrow> bool) \<Rightarrow> account \<Rightarrow> 'x justice bounty_config" where
  "runtime_black_book icfg academician treasury =
     \<lparr>bounty_currency = currency_at (\<lambda>s. world (identity_in s)) put_ledger (id_currency icfg),
      exile_target = bridge_exile icfg, is_academician = (\<lambda>_. academician),
      is_active_khural_delegate = khural_delegate_bridge, bounty_treasury = treasury, bounty_lock_period = 50400\<rparr>"

interpretation beneath_book: ledger_view "\<lambda>s. world (identity_in s)" put_ledger
  by unfold_locales (simp_all add: put_ledger_def put_identity_def identity_in_def on_identity_def)

lemma runtime_black_book_sel [simp]:
  "is_academician (runtime_black_book i c y) = (\<lambda>_. c)"
  "is_active_khural_delegate (runtime_black_book i c y) = khural_delegate_bridge"
  "exile_target (runtime_black_book i c y) = bridge_exile i" "bounty_treasury (runtime_black_book i c y) = y"
  by (simp_all add: runtime_black_book_def)

lemma pay_keeps_citizens:
  "transfer (bounty_currency (runtime_black_book i c y)) x a b v e = Ok z \<Longrightarrow> status_of (identity_in z) d = status_of (identity_in x) d"
  by (auto simp: runtime_black_book_def currency_at_def put_ledger_def put_identity_def identity_in_def status_of_def
      split: result.splits)

lemma confiscate_keeps_citizens:
  "confiscate_free (runtime_black_book i c y) a x = Ok z \<Longrightarrow> status_of (identity_in z) d = status_of (identity_in x) d"
  by (auto simp: confiscate_free_def pay_def ok_simps Let_def pay_keeps_citizens split: if_splits)

lemma bridge_exile_status:
  assumes "bridge_exile i a x = Ok z"
  shows "status_of (identity_in z) a = Some Exiled"
proof -
  obtain j where j: "do_exile i a (identity_in x) = Ok j" "identity_in z = j"
    using assms by (auto simp: bridge_exile_def ok_simps put_identity_def identity_in_def)
  then have "attempt (do_exile i a) (identity_in x) = j" by (simp add: attempt_def)
  moreover have "status_of (identity_in x) a \<notin> {None, Some Deceased, Some Exiled}"
    using j(1) by (auto simp: do_exile_def ok_simps status_of_def)
  ultimately show ?thesis using exile_status[of i a "identity_in x" a] j(2) by simp
qed

lemma condemn_exiles:
  assumes "condemn_and_issue_warrant (runtime_black_book i c y) env og a k h f v s = Ok t"
  shows "status_of (identity_in (bounty_world t)) a = Some Exiled"
  using assms
proof (elim condemn_Ok)
  let ?cfg = "runtime_black_book i c y"
  fix x z w
  assume x: "exile_target ?cfg a (bounty_world s) = Ok x" and z: "confiscate_free ?cfg a x = Ok z"
    and p: "if f \<and> 0 < v then transfer (bounty_currency ?cfg) z (bounty_treasury ?cfg) a v KeepAlive = Ok w else w = z"
    and w: "bounty_world t = w"
  have "status_of (identity_in w) a = status_of (identity_in z) a"
    using p by (cases "f \<and> 0 < v") (auto dest: pay_keeps_citizens)
  then show "status_of (identity_in (bounty_world t)) a = Some Exiled"
    using bridge_exile_status[of i a "bounty_world s" x] x confiscate_keeps_citizens[OF z] w by simp
qed

text \<open>The immunity of delegates lapses when anybody accuses them. An active Khural delegate cannot be condemned; once any
  signed account has opened a case against the delegate, who is frozen by it, the warrant is no longer refused for want
  of an impeachment, and it exiles the delegate.\<close>

theorem immunity_lapses_on_accusation:
  assumes "khural_delegate_bridge j d" "\<not> academician d"
    and "open_case (runtime_courts icfg y p) env og d h w j = Ok j'"
    and "bounty_world s = j" "s' = s\<lparr>bounty_world := j'\<rparr>" "cfg = runtime_black_book icfg academician treasury"
  shows "condemn_and_issue_warrant cfg env' Root d k h' f v s = Err (Module RequiresImpeachment)
    \<and> condemn_and_issue_warrant cfg env' Root d k h' f v s' \<noteq> Err (Module RequiresImpeachment)
    \<and> (\<forall>t. condemn_and_issue_warrant cfg env' Root d k h' f v s' = Ok t
          \<longrightarrow> status_of (identity_in (bounty_world t)) d = Some Exiled)"
proof -
  have "status_of (identity_in j') d = Some citizen_status.Frozen" by (rule open_case_runtime(2)[OF assms(3)])
  then have gone: "\<not> khural_delegate_bridge j' d"
    by (auto simp: khural_delegate_bridge_def status_of_def split: option.splits)
  have "condemn_and_issue_warrant cfg env' Root d k h' f v s = Err (Module RequiresImpeachment)"
    using assms by (simp add: condemn_and_issue_warrant_def)
  moreover have "bridge_exile icfg d j' \<noteq> Err (Module RequiresImpeachment)"
  proof -
    have "Module q \<noteq> identity_error_to_bounty e" for e q by (cases e) simp_all
    then show ?thesis by (auto simp: bridge_exile_def err_simps)
  qed
  then have "condemn_and_issue_warrant cfg env' Root d k h' f v s' \<noteq> Err (Module RequiresImpeachment)"
    using assms(2,5,6) gone
    by (auto simp: condemn_and_issue_warrant_def seed_bounty_def confiscate_free_def pay_def Let_def err_simps split: if_splits)
  ultimately show ?thesis using condemn_exiles assms(6) by blast
qed

section \<open>A manhunt\<close>

text \<open>Account 17, an active delegate without funds, is accused by account 12 and then condemned with a bounty of 60.\<close>

definition delegate_record :: citizen_record where
  "delegate_record = (newborn 1 5 6 [])\<lparr>status := citizen_status.Active, role := KhuralDelegate\<rparr>"

definition session :: "book justice" where
  "session = put_identity ((identity_in quiet_court)\<lparr>citizens := [17 \<mapsto> delegate_record]\<rparr>) quiet_court"

definition blank_book :: "'x justice \<Rightarrow> 'x justice bounty_state" where
  "blank_book j = \<lparr>bounty_world = j, wall_of_shame = Map.empty, bounty_pools = Map.empty,
     locked_bounty_payouts = Map.empty, bounty_events = []\<rparr>"

abbreviation demo_book_config :: "book justice bounty_config" where
  "demo_book_config \<equiv> runtime_black_book justice_id (\<lambda>_. False) 50"

lemma session_sel [simp]:
  "identity_in session = (identity_in quiet_court)\<lparr>citizens := [17 \<mapsto> delegate_record]\<rparr>"
  "bounty_world (blank_book j) = j"
  by (simp_all add: session_def put_identity_def identity_in_def blank_book_def)

lemma session_delegate: "khural_delegate_bridge session 17"
  by (simp add: khural_delegate_bridge_def delegate_record_def)

lemma session_accusation: "\<exists>j. open_case demo_courts at_seven (Signed 12) 17 [] None session = Ok j"
  unfolding demo_courts_def by (rule open_case_total) simp

lemma immunity_lapses_on_accusation_witness:
  "\<exists>j. open_case demo_courts at_seven (Signed 12) 17 [] None session = Ok j
    \<and> condemn_and_issue_warrant demo_book_config at_seven Root 17 HighTreason [] True 60 (blank_book session)
        = Err (Module RequiresImpeachment)
    \<and> condemn_and_issue_warrant demo_book_config at_seven Root 17 HighTreason [] True 60 (blank_book j)
        \<noteq> Err (Module RequiresImpeachment)"
proof -
  obtain j where j: "open_case demo_courts at_seven (Signed 12) 17 [] None session = Ok j"
    using session_accusation by blast
  have b: "blank_book j = (blank_book session)\<lparr>bounty_world := j\<rparr>" by (simp add: blank_book_def)
  show ?thesis
    using j immunity_lapses_on_accusation[OF session_delegate _ j[unfolded demo_courts_def] session_sel(2) b refl,
        where academician = "\<lambda>_. False"] by blast
qed

definition plain_book :: "book bounty_config" where
  "plain_book = \<lparr>bounty_currency = book_base 5, exile_target = (\<lambda>_ x. Ok x), is_academician = (\<lambda>_ _. False),
     is_active_khural_delegate = (\<lambda>_ _. False), bounty_treasury = 50, bounty_lock_period = 50400\<rparr>"

lemma bounty_lies_with_fugitive_witness:
  "\<exists>t. condemn_and_issue_warrant plain_book at_seven Root 11 GrandTheft [] True 60
      \<lparr>bounty_world = demo_book, wall_of_shame = Map.empty, bounty_pools = Map.empty, locked_bounty_payouts = Map.empty,
       bounty_events = []\<rparr> = Ok t \<and> bal demo_book 11 = 1000 \<and> bal (bounty_world t) 11 = 60"
proof -
  let ?s = "\<lparr>bounty_world = demo_book, wall_of_shame = Map.empty, bounty_pools = Map.empty, locked_bounty_payouts = Map.empty,
       bounty_events = []\<rparr> :: book bounty_state"
  obtain t where t: "condemn_and_issue_warrant plain_book at_seven Root 11 GrandTheft [] True 60 ?s = Ok t"
    by (simp add: condemn_and_issue_warrant_def seed_bounty_def confiscate_free_def pay_def plain_book_def demo_book_def
        book_base_def book_transfer_def Let_def)
  have "currency_ok (bounty_currency plain_book)" "11 \<noteq> bounty_treasury plain_book"
    by (simp_all add: plain_book_def book_currency_ok)
  from bounty_lies_with_fugitive[OF this _ t] t show ?thesis by (simp add: plain_book_def book_base_def demo_book_def)
qed

end
