(* ===== verification/Referendum.thy ===== *)
theory Referendum
  imports Pallet_Interfaces
begin

text \<open>
  The contract of a poll: who has voted is recorded without what they voted for, and the record of the question carries
  the two tallies. The two polls of the Khural and the one on licences meet it.
\<close>

locale referendum =
  fixes voters :: "'s \<Rightarrow> nat \<Rightarrow> account set"
    and tallies :: "'s \<Rightarrow> nat \<Rightarrow> (nat \<times> nat) option"
    and step :: "'s \<Rightarrow> 's \<Rightarrow> bool"
  assumes move: "step s t \<Longrightarrow>
      tallies t i = tallies s i \<and> voters t i = voters s i
    \<or> tallies s i = None \<and> tallies t i = Some (0, 0) \<and> voters t i = voters s i
    \<or> (\<exists>v a n. tallies s i = Some (a, n) \<and> v \<notin> voters s i \<and> voters t i = insert v (voters s i)
         \<and> tallies t i \<in> {Some (sat_add 32 a 1, n), Some (a, sat_add 32 n 1)})"
begin

definition tallied :: "'s \<Rightarrow> bool" where
  "tallied s \<longleftrightarrow> (\<forall>i. finite (voters s i)
     \<and> (case tallies s i of None \<Rightarrow> voters s i = {}
        | Some (a, n) \<Rightarrow> card (voters s i) \<le> umax 32 \<longrightarrow> a + n = card (voters s i)))"

lemma tallied_step:
  assumes "step s t" "tallied s"
  shows "tallied t"
  unfolding tallied_def
proof
  fix i
  have fin: "finite (voters s i)" and s: "case tallies s i of None \<Rightarrow> voters s i = {}
      | Some (a, n) \<Rightarrow> card (voters s i) \<le> umax 32 \<longrightarrow> a + n = card (voters s i)"
    using assms(2) unfolding tallied_def by blast+
  from move[OF assms(1), of i]
  consider "tallies t i = tallies s i \<and> voters t i = voters s i"
    | "tallies s i = None \<and> tallies t i = Some (0, 0) \<and> voters t i = voters s i"
    | v a n where "tallies s i = Some (a, n)" "v \<notin> voters s i" "voters t i = insert v (voters s i)"
        "tallies t i \<in> {Some (sat_add 32 a 1, n), Some (a, sat_add 32 n 1)}" by blast
  then show "finite (voters t i) \<and> (case tallies t i of None \<Rightarrow> voters t i = {}
      | Some (a, n) \<Rightarrow> card (voters t i) \<le> umax 32 \<longrightarrow> a + n = card (voters t i))"
  proof cases
    case 3
    have "sat_add 32 a 1 + n = Suc (card (voters s i)) \<and> a + sat_add 32 n 1 = Suc (card (voters s i))"
      if "Suc (card (voters s i)) \<le> umax 32"
    proof -
      have "a + n = card (voters s i)" using s 3(1) that by simp
      with that show ?thesis by (simp add: sat_add_exact)
    qed
    with 3 fin show ?thesis by auto
  next
    case 1
    with fin s show ?thesis by (cases "tallies s i") auto
  qed (use fin s in auto)
qed

lemma tallied_steps: "step\<^sup>*\<^sup>* s t \<Longrightarrow> tallied s \<Longrightarrow> tallied t"
  by (induction rule: rtranclp_induct) (auto intro: tallied_step)

end

end
