(* ===== verification/Khural_Governance.thy ===== *)
theory Khural_Governance
  imports Identity Reservable Referendum
begin

text \<open>
  \<^verbatim>\<open>pallets/khural-governance/src/lib.rs\<close>: proposals on a nation's treasury, decided by its citizens, and the bills of the
  academy, decided by leaders.

  \<open>'x\<close> is the ledger with the storage of the identity, tax and guilds pallets, which the pallet reads through
  parameters. The order in which a storage map is iterated is the parameter \<open>proposal_order\<close>. The origin
  \<^verbatim>\<open>EnsureKhural\<close> accepts root alone, with and without the production feature.
\<close>

section \<open>Data\<close>

datatype proposal_status = Active | Executed | Rejected

datatype bill_initiative = Standard | ExpertInitiative

record proposal =
  proposer :: account
  proposal_nation :: nat
  amount :: balance
  beneficiary :: account
  votes_for :: nat
  votes_against :: nat
  proposal_status :: proposal_status
  end_block :: nat
  constitutional_basis :: "h256 option"

record expert_bill =
  bill_proposer :: account
  bill_hash :: h256
  industry_tag :: "byte list"
  initiative_type :: bill_initiative
  bill_status :: proposal_status
  bill_votes_for :: nat
  bill_votes_against :: nat

datatype khural_event =
    ProposalCreated nat account nat balance account "h256 option"
  | Voted nat account bool
  | ProposalExecuted nat bool
  | ExpertBillProposed nat account "byte list" h256
  | ExpertBillVoted nat account bool
  | ExpertBillExecuted nat bool
  | ExpertBillDepositSlashed nat account balance

datatype khural_error =
    NotRegistered
  | CitizenInactive
  | InsufficientRole
  | WrongNation
  | ProposalNotFound
  | ProposalNotActive
  | AlreadyVoted
  | TreasuryNotFound
  | MathOverflow
  | NotAcademician
  | ExpertBillNotFound
  | ExpertBillNotActive
  | IndustryTagTooLong
  | InsufficientBalance
  | DepositNotFound

type_synonym khural_failure = "khural_error dispatch_error"

record 'x khural_state =
  khural_world :: 'x
  proposals :: "nat \<Rightarrow> proposal option"
  next_proposal_id :: nat
  has_voted :: "nat \<Rightarrow> account \<Rightarrow> bool"
  expert_bills :: "nat \<Rightarrow> expert_bill option"
  next_expert_bill_id :: nat
  has_voted_on_bill :: "nat \<Rightarrow> account \<Rightarrow> bool"
  expert_bill_depositor :: "nat \<Rightarrow> (account \<times> balance) option"
  khural_events :: "khural_event list"

record 'x khural_config =
  khural_currency :: "'x reservable_currency"
  citizen_of :: "'x \<Rightarrow> account \<Rightarrow> citizen_record option"
  nation_treasuries :: "'x \<Rightarrow> account list"
  is_academician :: "'x \<Rightarrow> account \<Rightarrow> bool"
  expert_bill_deposit :: balance
  voting_period :: nat
  min_quorum :: nat
  proposal_order :: "(nat \<Rightarrow> proposal option) \<Rightarrow> nat list"

definition emit_khural :: "khural_event \<Rightarrow> 'x khural_state \<Rightarrow> 'x khural_state" where
  "emit_khural e s = s\<lparr>khural_events := khural_events s @ [e]\<rparr>"

lemma emit_khural_simps [simp]:
  "khural_world (emit_khural e s) = khural_world s" "proposals (emit_khural e s) = proposals s"
  "next_proposal_id (emit_khural e s) = next_proposal_id s" "has_voted (emit_khural e s) = has_voted s"
  "expert_bills (emit_khural e s) = expert_bills s" "next_expert_bill_id (emit_khural e s) = next_expert_bill_id s"
  "has_voted_on_bill (emit_khural e s) = has_voted_on_bill s"
  "expert_bill_depositor (emit_khural e s) = expert_bill_depositor s"
  by (simp_all add: emit_khural_def)

section \<open>Helpers\<close>

definition validated_citizen :: "'x khural_config \<Rightarrow> account \<Rightarrow> 'x \<Rightarrow> (citizen_record, khural_failure) result" where
  "validated_citizen cfg who x =
     ok_or (citizen_of cfg x who) (Module NotRegistered) (\<lambda>r.
     ensure (status r = citizen_status.Active) (Module CitizenInactive) (Ok r))"

definition is_at_least_arbad_leader :: "citizen_role \<Rightarrow> bool" where
  "is_at_least_arbad_leader ro \<longleftrightarrow>
     ro \<in> {ArbadLeader, ZunLeader, MyangadLeader, TumedLeader, KhuralDelegate, ConfederationDelegate}"

text \<open>A block beyond \<open>u32\<close> counts as block 0.\<close>

definition block_32 :: "nat \<Rightarrow> nat" where
  "block_32 n = (if n \<le> umax 32 then n else 0)"

definition current_block :: "env \<Rightarrow> nat" where
  "current_block env = block_32 (block_number env)"

definition proposal_passes :: "'x khural_config \<Rightarrow> proposal \<Rightarrow> bool" where
  "proposal_passes cfg p \<longleftrightarrow> min_quorum cfg \<le> votes_for p \<and> votes_against p < votes_for p"

text \<open>The treasury pays if it exists and can; the outcome is the ledger and whether it paid.\<close>

definition pay_proposal :: "'x khural_config \<Rightarrow> proposal \<Rightarrow> 'x \<Rightarrow> 'x \<times> bool" where
  "pay_proposal cfg p x =
     (let treasuries = nation_treasuries cfg x; idx = sat_sub (proposal_nation p) 1 in
      if proposal_passes cfg p \<and> idx < length treasuries
      then case transfer (khural_currency cfg) x (treasuries ! idx) (beneficiary p) (amount p) KeepAlive of
             Ok y \<Rightarrow> (y, True)
           | Err _ \<Rightarrow> (x, False)
      else (x, False))"

definition enact_proposal :: "'x khural_config \<Rightarrow> nat \<Rightarrow> proposal \<Rightarrow> 'x khural_state \<Rightarrow> 'x khural_state" where
  "enact_proposal cfg i p s =
     (let (x, enacted) = pay_proposal cfg p (khural_world s) in
      emit_khural (ProposalExecuted i enacted)
        (s\<lparr>khural_world := x,
           proposals := (proposals s)(i \<mapsto> p\<lparr>proposal_status := (if enacted then Executed else Rejected)\<rparr>)\<rparr>))"

text \<open>The hook of every block decides the proposals as they were collected before the first is enacted.\<close>

definition expired_proposals :: "'x khural_config \<Rightarrow> nat \<Rightarrow> 'x khural_state \<Rightarrow> (nat \<times> proposal) list" where
  "expired_proposals cfg n s = List.map_filter
     (\<lambda>i. case proposals s i of
        Some p \<Rightarrow> if proposal_status p = Active \<and> end_block p \<le> n then Some (i, p) else None
      | None \<Rightarrow> None)
     (proposal_order cfg (proposals s))"

definition on_initialize :: "'x khural_config \<Rightarrow> nat \<Rightarrow> 'x khural_state \<Rightarrow> 'x khural_state" where
  "on_initialize cfg n s = fold (\<lambda>(i, p). enact_proposal cfg i p) (expired_proposals cfg (block_32 n) s) s"

section \<open>Proposals\<close>

definition create_proposal ::
  "'x khural_config \<Rightarrow> env \<Rightarrow> origin \<Rightarrow> nat \<Rightarrow> balance \<Rightarrow> account \<Rightarrow> h256 option \<Rightarrow> 'x khural_state
   \<Rightarrow> ('x khural_state, khural_failure) result" where
  "create_proposal cfg env og nation v payee basis s =
     and_then (ensure_signed og) (\<lambda>caller.
     and_then (validated_citizen cfg caller (khural_world s)) (\<lambda>c.
     ensure (nation_id c = nation) (Module WrongNation) (
     let i = next_proposal_id s;
         p = \<lparr>proposer = caller, proposal_nation = nation, amount = v, beneficiary = payee, votes_for = 0,
              votes_against = 0, proposal_status = Active,
              end_block = sat_add 32 (current_block env) (voting_period cfg), constitutional_basis = basis\<rparr>
     in Ok (emit_khural (ProposalCreated i caller nation v payee basis)
          (s\<lparr>proposals := (proposals s)(i \<mapsto> p), next_proposal_id := sat_add 32 i 1\<rparr>)))))"

definition count_vote :: "bool \<Rightarrow> proposal \<Rightarrow> proposal" where
  "count_vote approve p =
     (if approve then p\<lparr>votes_for := sat_add 32 (votes_for p) 1\<rparr>
      else p\<lparr>votes_against := sat_add 32 (votes_against p) 1\<rparr>)"

definition vote ::
  "'x khural_config \<Rightarrow> env \<Rightarrow> origin \<Rightarrow> nat \<Rightarrow> bool \<Rightarrow> 'x khural_state \<Rightarrow> ('x khural_state, khural_failure) result" where
  "vote cfg env og i approve s =
     and_then (ensure_signed og) (\<lambda>caller.
     and_then (validated_citizen cfg caller (khural_world s)) (\<lambda>c.
     ok_or (proposals s i) (Module ProposalNotFound) (\<lambda>p.
     ensure (proposal_status p = Active) (Module ProposalNotActive) (
     ensure (current_block env < end_block p) (Module ProposalNotActive) (
     ensure (nation_id c = proposal_nation p) (Module WrongNation) (
     ensure (\<not> has_voted s i caller) (Module AlreadyVoted) (
     Ok (emit_khural (Voted i caller approve)
          (s\<lparr>has_voted := (has_voted s)(i := (has_voted s i)(caller := True)),
             proposals := (proposals s)(i \<mapsto> count_vote approve p)\<rparr>)))))))))"

definition execute_proposal ::
  "'x khural_config \<Rightarrow> env \<Rightarrow> origin \<Rightarrow> nat \<Rightarrow> 'x khural_state \<Rightarrow> ('x khural_state, khural_failure) result" where
  "execute_proposal cfg env og i s =
     and_then (ensure_signed og) (\<lambda>_.
     ok_or (proposals s i) (Module ProposalNotFound) (\<lambda>p.
     ensure (proposal_status p = Active) (Module ProposalNotActive) (
     ensure (end_block p \<le> current_block env) (Module ProposalNotActive) (
     Ok (enact_proposal cfg i p s)))))"

section \<open>Expert bills\<close>

definition propose_expert_bill ::
  "'x khural_config \<Rightarrow> origin \<Rightarrow> h256 \<Rightarrow> byte list \<Rightarrow> 'x khural_state \<Rightarrow> ('x khural_state, khural_failure) result" where
  "propose_expert_bill cfg og hash tag s =
     and_then (ensure_signed og) (\<lambda>caller.
     and_then (validated_citizen cfg caller (khural_world s)) (\<lambda>_.
     ensure (is_academician cfg (khural_world s) caller) (Module NotAcademician) (
     ensure (length tag \<le> 64) (Module IndustryTagTooLong) (
     and_then (map_err (\<lambda>_. Module InsufficientBalance)
       (reserve_funds (khural_currency cfg) (khural_world s) caller (expert_bill_deposit cfg))) (\<lambda>x.
     let i = next_expert_bill_id s;
         b = \<lparr>bill_proposer = caller, bill_hash = hash, industry_tag = tag, initiative_type = ExpertInitiative,
              bill_status = Active, bill_votes_for = 0, bill_votes_against = 0\<rparr>
     in Ok (emit_khural (ExpertBillProposed i caller tag hash)
          (s\<lparr>khural_world := x, expert_bills := (expert_bills s)(i \<mapsto> b), next_expert_bill_id := sat_add 32 i 1,
             expert_bill_depositor := (expert_bill_depositor s)(i \<mapsto> (caller, expert_bill_deposit cfg))\<rparr>)))))))"

definition count_bill_vote :: "bool \<Rightarrow> expert_bill \<Rightarrow> expert_bill" where
  "count_bill_vote approve b =
     (if approve then b\<lparr>bill_votes_for := sat_add 32 (bill_votes_for b) 1\<rparr>
      else b\<lparr>bill_votes_against := sat_add 32 (bill_votes_against b) 1\<rparr>)"

definition vote_on_expert_bill ::
  "'x khural_config \<Rightarrow> origin \<Rightarrow> nat \<Rightarrow> bool \<Rightarrow> 'x khural_state \<Rightarrow> ('x khural_state, khural_failure) result" where
  "vote_on_expert_bill cfg og i approve s =
     and_then (ensure_signed og) (\<lambda>caller.
     and_then (validated_citizen cfg caller (khural_world s)) (\<lambda>c.
     ensure (is_at_least_arbad_leader (role c)) (Module InsufficientRole) (
     ok_or (expert_bills s i) (Module ExpertBillNotFound) (\<lambda>b.
     ensure (bill_status b = Active) (Module ExpertBillNotActive) (
     ensure (\<not> has_voted_on_bill s i caller) (Module AlreadyVoted) (
     Ok (emit_khural (ExpertBillVoted i caller approve)
          (s\<lparr>has_voted_on_bill := (has_voted_on_bill s)(i := (has_voted_on_bill s i)(caller := True)),
             expert_bills := (expert_bills s)(i \<mapsto> count_bill_vote approve b)\<rparr>))))))))"

definition settle_deposit :: "'x khural_config \<Rightarrow> nat \<Rightarrow> bool \<Rightarrow> 'x khural_state \<Rightarrow> 'x khural_state" where
  "settle_deposit cfg i passed s =
     (case expert_bill_depositor s i of
        None \<Rightarrow> s
      | Some (depositor, deposit) \<Rightarrow>
          let s1 = s\<lparr>expert_bill_depositor := (expert_bill_depositor s)(i := None)\<rparr> in
          if passed
          then s1\<lparr>khural_world := unreserve (khural_currency cfg) (khural_world s1) depositor deposit\<rparr>
          else emit_khural (ExpertBillDepositSlashed i depositor deposit)
                 (s1\<lparr>khural_world := slash_reserved (khural_currency cfg) (khural_world s1) depositor deposit\<rparr>))"

definition execute_expert_bill ::
  "'x khural_config \<Rightarrow> origin \<Rightarrow> nat \<Rightarrow> 'x khural_state \<Rightarrow> ('x khural_state, khural_failure) result" where
  "execute_expert_bill cfg og i s =
     and_then (ensure_signed og) (\<lambda>_.
     ok_or (expert_bills s i) (Module ExpertBillNotFound) (\<lambda>b.
     ensure (bill_status b = Active) (Module ExpertBillNotActive) (
     let passed = bill_votes_for b > 2;
         s1 = s\<lparr>expert_bills := (expert_bills s)(i \<mapsto> b\<lparr>bill_status := (if passed then Executed else Rejected)\<rparr>)\<rparr>
     in Ok (emit_khural (ExpertBillExecuted i passed) (settle_deposit cfg i passed s1)))))"

datatype khural_call =
    CreateProposal nat balance account "h256 option"
  | Vote nat bool
  | ExecuteProposal nat
  | ProposeExpertBill h256 "byte list"
  | VoteOnExpertBill nat bool
  | ExecuteExpertBill nat

datatype khural_op = KhuralExtrinsic env origin khural_call | KhuralBlock nat

fun khural_dispatch ::
  "'x khural_config \<Rightarrow> env \<times> origin \<times> khural_call \<Rightarrow> 'x khural_state \<Rightarrow> ('x khural_state, khural_failure) result" where
  "khural_dispatch cfg (env, og, CreateProposal n v b h) s = create_proposal cfg env og n v b h s"
| "khural_dispatch cfg (env, og, Vote i a) s = vote cfg env og i a s"
| "khural_dispatch cfg (env, og, ExecuteProposal i) s = execute_proposal cfg env og i s"
| "khural_dispatch cfg (env, og, ProposeExpertBill h t) s = propose_expert_bill cfg og h t s"
| "khural_dispatch cfg (env, og, VoteOnExpertBill i a) s = vote_on_expert_bill cfg og i a s"
| "khural_dispatch cfg (env, og, ExecuteExpertBill i) s = execute_expert_bill cfg og i s"

fun khural_operate :: "'x khural_config \<Rightarrow> khural_op \<Rightarrow> 'x khural_state \<Rightarrow> ('x khural_state, khural_failure) result" where
  "khural_operate cfg (KhuralExtrinsic env og c) s = khural_dispatch cfg (env, og, c) s"
| "khural_operate cfg (KhuralBlock n) s = Ok (on_initialize cfg n s)"

section \<open>Laws of the pallet\<close>

text \<open>
  The Khural runs two polls, on proposals and on bills; both meet the contract \<open>referendum\<close>, and a proposal has a
  \<open>lifecycle\<close>.
\<close>

section \<open>Enactment\<close>

lemma pay_proposal_passes: "pay_proposal cfg p x = (y, True) \<Longrightarrow> proposal_passes cfg p"
  by (auto simp: pay_proposal_def Let_def split: if_splits)

lemma enact_simps [simp]:
  "next_proposal_id (enact_proposal cfg i p s) = next_proposal_id s" "has_voted (enact_proposal cfg i p s) = has_voted s"
  "expert_bills (enact_proposal cfg i p s) = expert_bills s"
  "next_expert_bill_id (enact_proposal cfg i p s) = next_expert_bill_id s"
  "has_voted_on_bill (enact_proposal cfg i p s) = has_voted_on_bill s"
  "expert_bill_depositor (enact_proposal cfg i p s) = expert_bill_depositor s"
  "proposals (enact_proposal cfg i p s) = (proposals s)(i \<mapsto> p\<lparr>proposal_status :=
     (if snd (pay_proposal cfg p (khural_world s)) then Executed else Rejected)\<rparr>)"
  "khural_world (enact_proposal cfg i p s) = fst (pay_proposal cfg p (khural_world s))"
  by (simp_all add: enact_proposal_def split: prod.split)

definition decided :: "'x khural_config \<Rightarrow> proposal \<Rightarrow> proposal \<Rightarrow> bool" where
  "decided cfg p q \<longleftrightarrow> proposal_status p = Active \<and> (\<exists>st. q = p\<lparr>proposal_status := st\<rparr> \<and> st \<noteq> Active
     \<and> (st = Executed \<longrightarrow> proposal_passes cfg p))"

lemma decided_enact:
  "proposal_status p = Active \<Longrightarrow>
   decided cfg p (p\<lparr>proposal_status := (if snd (pay_proposal cfg p x) then Executed else Rejected)\<rparr>)"
  using pay_proposal_passes[of cfg p x "fst (pay_proposal cfg p x)"] by (auto simp: decided_def prod_eq_iff)

text \<open>Each key of a finite map is visited once.\<close>

definition iterates_proposals :: "'x khural_config \<Rightarrow> bool" where
  "iterates_proposals cfg \<longleftrightarrow>
     (\<forall>m. finite (dom m) \<longrightarrow> set (proposal_order cfg m) = dom m \<and> distinct (proposal_order cfg m))"

lemma map_filter_fst:
  assumes "\<And>i q. f i = Some q \<Longrightarrow> fst q = i"
  shows "map fst (List.map_filter f xs) = filter (\<lambda>i. f i \<noteq> None) xs"
  using assms by (induction xs) (auto simp: List.map_filter_simps split: option.split)

lemma map_filter_set: "y \<in> set (List.map_filter f xs) \<longleftrightarrow> (\<exists>x\<in>set xs. f x = Some y)"
  by (induction xs) (auto simp: List.map_filter_simps split: option.split)

lemma expired_distinct:
  assumes "iterates_proposals cfg" "finite (dom (proposals s))"
  shows "distinct (map fst (expired_proposals cfg n s))"
proof -
  have "map fst (expired_proposals cfg n s) = filter (\<lambda>i. (case proposals s i of
      Some p \<Rightarrow> if proposal_status p = Active \<and> end_block p \<le> n then Some (i, p) else None
      | None \<Rightarrow> None) \<noteq> None) (proposal_order cfg (proposals s))"
    unfolding expired_proposals_def by (rule map_filter_fst) (auto split: option.splits if_splits)
  then show ?thesis using assms unfolding iterates_proposals_def by simp
qed

lemma expired_set:
  assumes "iterates_proposals cfg" "finite (dom (proposals s))"
  shows "(i, p) \<in> set (expired_proposals cfg n s) \<longleftrightarrow>
    proposals s i = Some p \<and> proposal_status p = Active \<and> end_block p \<le> n"
proof -
  have "set (proposal_order cfg (proposals s)) = dom (proposals s)" using assms unfolding iterates_proposals_def by blast
  then show ?thesis
    by (auto simp: expired_proposals_def map_filter_set split: option.splits if_splits)
qed

lemma enact_all_frame:
  "next_proposal_id (fold (\<lambda>(i, p). enact_proposal cfg i p) es s) = next_proposal_id s"
  "has_voted (fold (\<lambda>(i, p). enact_proposal cfg i p) es s) = has_voted s"
  "expert_bills (fold (\<lambda>(i, p). enact_proposal cfg i p) es s) = expert_bills s"
  "next_expert_bill_id (fold (\<lambda>(i, p). enact_proposal cfg i p) es s) = next_expert_bill_id s"
  "has_voted_on_bill (fold (\<lambda>(i, p). enact_proposal cfg i p) es s) = has_voted_on_bill s"
  "expert_bill_depositor (fold (\<lambda>(i, p). enact_proposal cfg i p) es s) = expert_bill_depositor s"
  by (induction es arbitrary: s) (simp_all add: split_beta)

lemma enact_all:
  assumes "distinct (map fst es)" "\<And>i p. (i, p) \<in> set es \<Longrightarrow> proposal_status p = Active"
  shows "(i \<notin> fst ` set es \<longrightarrow> proposals (fold (\<lambda>(i, p). enact_proposal cfg i p) es s) i = proposals s i)
    \<and> (\<forall>p. (i, p) \<in> set es \<longrightarrow> (\<exists>q. proposals (fold (\<lambda>(i, p). enact_proposal cfg i p) es s) i = Some q \<and> decided cfg p q))"
  using assms
proof (induction es arbitrary: s)
  case (Cons e es)
  obtain j r where e: "e = (j, r)" by fastforce
  let ?u = "enact_proposal cfg j r s"
  have IH: "(i \<notin> fst ` set es \<longrightarrow> proposals (fold (\<lambda>(i, p). enact_proposal cfg i p) es ?u) i = proposals ?u i)
    \<and> (\<forall>p. (i, p) \<in> set es \<longrightarrow> (\<exists>q. proposals (fold (\<lambda>(i, p). enact_proposal cfg i p) es ?u) i = Some q \<and> decided cfg p q))"
    by (rule Cons.IH) (use Cons.prems in auto)
  have r: "proposal_status r = Active" using Cons.prems(2)[of j r] e by simp
  show ?case
  proof (cases "i = j")
    case True
    then have "i \<notin> fst ` set es" "\<And>p. (i, p) \<notin> set es" using Cons.prems(1) e by force+
    with IH True e show ?thesis using decided_enact[OF r, of cfg "khural_world s"] by auto
  next
    case False
    with IH e show ?thesis by auto
  qed
qed simp

lemma block_proposals:
  assumes "iterates_proposals cfg" "finite (dom (proposals s))"
  shows "case proposals s i of
      Some p \<Rightarrow> (if proposal_status p = Active \<and> end_block p \<le> block_32 n
                 then \<exists>q. proposals (on_initialize cfg n s) i = Some q \<and> decided cfg p q
                 else proposals (on_initialize cfg n s) i = Some p)
    | None \<Rightarrow> proposals (on_initialize cfg n s) i = None"
proof -
  let ?es = "expired_proposals cfg (block_32 n) s"
  have all: "(i \<notin> fst ` set ?es \<longrightarrow> proposals (on_initialize cfg n s) i = proposals s i)
    \<and> (\<forall>p. (i, p) \<in> set ?es \<longrightarrow> (\<exists>q. proposals (on_initialize cfg n s) i = Some q \<and> decided cfg p q))"
    unfolding on_initialize_def
    by (rule enact_all[OF expired_distinct[OF assms]]) (simp add: expired_set[OF assms])
  show ?thesis
  proof (cases "proposals s i")
    case None
    then have "i \<notin> fst ` set ?es" using expired_set[OF assms] by fastforce
    with all None show ?thesis by simp
  next
    case (Some p)
    then have "i \<in> fst ` set ?es \<longleftrightarrow> (i, p) \<in> set ?es" using expired_set[OF assms] by force
    with all Some expired_set[OF assms, of i p "block_32 n"] show ?thesis by auto
  qed
qed

section \<open>Steps\<close>

text \<open>The other pallets change the ledger and their own storage.\<close>

definition khural_foreign :: "'x khural_state \<Rightarrow> 'x khural_state \<Rightarrow> bool" where
  "khural_foreign s t \<longleftrightarrow> (\<exists>x. t = s\<lparr>khural_world := x\<rparr>)"

abbreviation khural_step :: "'x khural_config \<Rightarrow> 'x khural_state \<Rightarrow> 'x khural_state \<Rightarrow> bool" where
  "khural_step cfg \<equiv> machine_step (khural_operate cfg) khural_foreign"

text \<open>Identifiers in use lie below the counters, as long as those have not run out.\<close>

definition numbered :: "'x khural_state \<Rightarrow> bool" where
  "numbered s \<longleftrightarrow> finite (dom (proposals s)) \<and> proposals s (next_proposal_id s) = None
     \<and> expert_bills s (next_expert_bill_id s) = None"

definition khural_move :: "'x khural_config \<Rightarrow> 'x khural_state \<Rightarrow> 'x khural_state \<Rightarrow> bool" where
  "khural_move cfg s t \<longleftrightarrow> khural_step cfg s t \<and> numbered s \<and> iterates_proposals cfg"

text \<open>What a vote does to a proposal.\<close>

definition vote_edge :: "proposal \<Rightarrow> proposal \<Rightarrow> bool" where
  "vote_edge p q \<longleftrightarrow> proposal_status p = Active \<and> (\<exists>b. q = count_vote b p)"

definition proposal_edge :: "'x khural_config \<Rightarrow> proposal \<Rightarrow> proposal \<Rightarrow> bool" where
  "proposal_edge cfg p q \<longleftrightarrow> vote_edge p q \<or> decided cfg p q"

lemma create_Ok:
  assumes "create_proposal cfg env og n v b h s = Ok t"
  obtains p where "proposals t = (proposals s)(next_proposal_id s \<mapsto> p)" "votes_for p = 0" "votes_against p = 0"
    "proposal_status p = Active" "next_proposal_id t = sat_add 32 (next_proposal_id s) 1" "has_voted t = has_voted s"
    "expert_bills t = expert_bills s" "next_expert_bill_id t = next_expert_bill_id s"
    "has_voted_on_bill t = has_voted_on_bill s" "expert_bill_depositor t = expert_bill_depositor s"
    "end_block p = sat_add 32 (current_block env) (voting_period cfg)" "khural_world t = khural_world s"
  using assms unfolding create_proposal_def Let_def by (auto simp: ok_simps)

lemma vote_Ok:
  assumes "vote cfg env og i b s = Ok t"
  obtains a p where "og = Signed a" "proposals s i = Some p" "proposal_status p = Active" "\<not> has_voted s i a"
    "proposals t = (proposals s)(i \<mapsto> count_vote b p)" "has_voted t = (has_voted s)(i := (has_voted s i)(a := True))"
    "next_proposal_id t = next_proposal_id s" "expert_bills t = expert_bills s"
    "next_expert_bill_id t = next_expert_bill_id s" "has_voted_on_bill t = has_voted_on_bill s"
    "expert_bill_depositor t = expert_bill_depositor s" "khural_world t = khural_world s"
  using assms unfolding vote_def by (auto simp: ok_simps)

lemma execute_proposal_Ok:
  assumes "execute_proposal cfg env og i s = Ok t"
  obtains p where "proposals s i = Some p" "proposal_status p = Active" "t = enact_proposal cfg i p s"
  using assms unfolding execute_proposal_def by (auto simp: ok_simps)

lemma propose_Ok:
  assumes "propose_expert_bill cfg og h g s = Ok t"
  obtains a x b where "og = Signed a" "reserve_funds (khural_currency cfg) (khural_world s) a (expert_bill_deposit cfg) = Ok x"
    "khural_world t = x" "expert_bills t = (expert_bills s)(next_expert_bill_id s \<mapsto> b)" "bill_status b = Active"
    "bill_votes_for b = 0" "bill_votes_against b = 0" "bill_proposer b = a"
    "next_expert_bill_id t = sat_add 32 (next_expert_bill_id s) 1"
    "expert_bill_depositor t = (expert_bill_depositor s)(next_expert_bill_id s \<mapsto> (a, expert_bill_deposit cfg))"
    "proposals t = proposals s" "next_proposal_id t = next_proposal_id s" "has_voted t = has_voted s"
    "has_voted_on_bill t = has_voted_on_bill s" "is_academician cfg (khural_world s) a"
  using assms unfolding propose_expert_bill_def Let_def by (auto simp: ok_simps)

lemma vote_bill_Ok:
  assumes "vote_on_expert_bill cfg og i b s = Ok t"
  obtains a q where "og = Signed a" "expert_bills s i = Some q" "bill_status q = Active" "\<not> has_voted_on_bill s i a"
    "expert_bills t = (expert_bills s)(i \<mapsto> count_bill_vote b q)"
    "has_voted_on_bill t = (has_voted_on_bill s)(i := (has_voted_on_bill s i)(a := True))"
    "proposals t = proposals s" "next_proposal_id t = next_proposal_id s" "has_voted t = has_voted s"
    "next_expert_bill_id t = next_expert_bill_id s" "expert_bill_depositor t = expert_bill_depositor s"
    "khural_world t = khural_world s"
  using assms unfolding vote_on_expert_bill_def by (auto simp: ok_simps)

lemma settle_simps [simp]:
  "proposals (settle_deposit cfg i b s) = proposals s" "next_proposal_id (settle_deposit cfg i b s) = next_proposal_id s"
  "has_voted (settle_deposit cfg i b s) = has_voted s" "expert_bills (settle_deposit cfg i b s) = expert_bills s"
  "next_expert_bill_id (settle_deposit cfg i b s) = next_expert_bill_id s"
  "has_voted_on_bill (settle_deposit cfg i b s) = has_voted_on_bill s"
  "expert_bill_depositor (settle_deposit cfg i b s) = (expert_bill_depositor s)(i := None)"
  by (auto simp: settle_deposit_def Let_def split: option.split)

lemma execute_bill_Ok:
  assumes "execute_expert_bill cfg og i s = Ok t"
  obtains q where "expert_bills s i = Some q" "bill_status q = Active"
    "expert_bills t = (expert_bills s)(i \<mapsto> q\<lparr>bill_status := (if 2 < bill_votes_for q then Executed else Rejected)\<rparr>)"
    "expert_bill_depositor t = (expert_bill_depositor s)(i := None)"
    "proposals t = proposals s" "next_proposal_id t = next_proposal_id s" "has_voted t = has_voted s"
    "next_expert_bill_id t = next_expert_bill_id s" "has_voted_on_bill t = has_voted_on_bill s"
  using assms unfolding execute_expert_bill_def Let_def by (auto simp: ok_simps)

text \<open>A move touches one of the two polls.\<close>

definition bills_kept :: "'x khural_state \<Rightarrow> 'x khural_state \<Rightarrow> bool" where
  "bills_kept s t \<longleftrightarrow> expert_bills t = expert_bills s \<and> has_voted_on_bill t = has_voted_on_bill s
     \<and> next_expert_bill_id t = next_expert_bill_id s \<and> expert_bill_depositor t = expert_bill_depositor s"

definition proposals_kept :: "'x khural_state \<Rightarrow> 'x khural_state \<Rightarrow> bool" where
  "proposals_kept s t \<longleftrightarrow> proposals t = proposals s \<and> has_voted t = has_voted s
     \<and> next_proposal_id t = next_proposal_id s"

datatype khural_part = OnProposals | OnBills

fun touches :: "khural_op \<Rightarrow> khural_part" where
  "touches (KhuralExtrinsic env og (ProposeExpertBill h g)) = OnBills"
| "touches (KhuralExtrinsic env og (VoteOnExpertBill i b)) = OnBills"
| "touches (KhuralExtrinsic env og (ExecuteExpertBill i)) = OnBills"
| "touches _ = OnProposals"

lemma untouched:
  assumes "khural_operate cfg c s = Ok t"
  shows "touches c = OnProposals \<Longrightarrow> bills_kept s t" "touches c = OnBills \<Longrightarrow> proposals_kept s t"
  using assms
  by (cases c rule: touches.cases;
      auto simp: bills_kept_def proposals_kept_def on_initialize_def enact_all_frame
        elim!: create_Ok vote_Ok execute_proposal_Ok propose_Ok vote_bill_Ok execute_bill_Ok)+

section \<open>The proposal poll\<close>

definition proposal_moves :: "'x khural_config \<Rightarrow> nat \<Rightarrow> 'x khural_state \<Rightarrow> 'x khural_state \<Rightarrow> bool" where
  "proposal_moves cfg i s t \<longleftrightarrow>
     (proposals t i = proposals s i \<and> has_voted t i = has_voted s i)
   \<or> (\<exists>p. proposals s i = None \<and> proposals t i = Some p \<and> votes_for p = 0 \<and> votes_against p = 0
        \<and> proposal_status p = Active \<and> has_voted t i = has_voted s i)
   \<or> (\<exists>p q. proposals s i = Some p \<and> proposals t i = Some q \<and> decided cfg p q \<and> has_voted t i = has_voted s i)
   \<or> (\<exists>p a b. proposals s i = Some p \<and> proposal_status p = Active \<and> proposals t i = Some (count_vote b p)
        \<and> \<not> has_voted s i a \<and> has_voted t i = (has_voted s i)(a := True))"

lemma proposal_moves_same: "proposals t i = proposals s i \<Longrightarrow> has_voted t i = has_voted s i \<Longrightarrow> proposal_moves cfg i s t"
  by (simp add: proposal_moves_def)

lemma proposal_moves_new:
  "proposals s i = None \<Longrightarrow> proposals t i = Some p \<Longrightarrow> votes_for p = 0 \<Longrightarrow> votes_against p = 0
   \<Longrightarrow> proposal_status p = Active \<Longrightarrow> has_voted t i = has_voted s i \<Longrightarrow> proposal_moves cfg i s t"
  unfolding proposal_moves_def by blast

lemma proposal_moves_decided:
  "proposals s i = Some p \<Longrightarrow> proposals t i = Some q \<Longrightarrow> decided cfg p q \<Longrightarrow> has_voted t i = has_voted s i
   \<Longrightarrow> proposal_moves cfg i s t"
  unfolding proposal_moves_def by blast

lemma proposal_moves_vote:
  "proposals s i = Some p \<Longrightarrow> proposal_status p = Active \<Longrightarrow> proposals t i = Some (count_vote b p)
   \<Longrightarrow> \<not> has_voted s i a \<Longrightarrow> has_voted t i = (has_voted s i)(a := True) \<Longrightarrow> proposal_moves cfg i s t"
  unfolding proposal_moves_def by blast

lemma block_moves:
  assumes "iterates_proposals cfg" "finite (dom (proposals s))"
  shows "proposal_moves cfg i s (on_initialize cfg n s)"
proof -
  have v: "has_voted (on_initialize cfg n s) i = has_voted s i" by (simp add: on_initialize_def enact_all_frame)
  show ?thesis
  proof (cases "proposals s i")
    case None
    with block_proposals[OF assms, where i = i and n = n] v show ?thesis by (auto intro: proposal_moves_same)
  next
    case (Some p)
    with block_proposals[OF assms, where i = i and n = n] v show ?thesis
      by (cases "proposal_status p = Active \<and> end_block p \<le> block_32 n")
        (auto intro: proposal_moves_same proposal_moves_decided)
  qed
qed

lemma call_moves:
  assumes "khural_dispatch cfg (env, og, c) s = Ok t" "proposals s (next_proposal_id s) = None"
  shows "proposal_moves cfg i s t"
proof (cases c)
  case (CreateProposal n v b h)
  then have "create_proposal cfg env og n v b h s = Ok t" using assms(1) by simp
  then show ?thesis
    by (elim create_Ok, cases "i = next_proposal_id s")
      (auto intro: proposal_moves_same proposal_moves_new[OF assms(2)])
next
  case (Vote j b)
  then have "vote cfg env og j b s = Ok t" using assms(1) by simp
  then show ?thesis
    by (elim vote_Ok, cases "i = j") (auto intro: proposal_moves_same proposal_moves_vote)
next
  case (ExecuteProposal j)
  then have "execute_proposal cfg env og j s = Ok t" using assms(1) by simp
  then show ?thesis
    by (elim execute_proposal_Ok, cases "i = j") (auto intro: proposal_moves_same proposal_moves_decided decided_enact)
qed (use untouched(2)[of cfg "KhuralExtrinsic env og c" s t] assms(1) in
    \<open>auto simp: proposals_kept_def intro: proposal_moves_same\<close>)

lemma move_proposals:
  assumes "khural_move cfg s t"
  shows "proposal_moves cfg i s t"
proof -
  have n: "numbered s" "iterates_proposals cfg" and "khural_step cfg s t"
    using assms unfolding khural_move_def by blast+
  then consider c where "khural_operate cfg c s = Ok t" | "khural_foreign s t"
    unfolding machine_step_def by blast
  then show ?thesis
  proof cases
    case 1
    with n show ?thesis by (cases c) (auto simp: numbered_def intro: block_moves call_moves)
  qed (auto simp: khural_foreign_def intro: proposal_moves_same)
qed

lemma count_vote_simps [simp]:
  "proposal_status (count_vote b p) = proposal_status p"
  "votes_for (count_vote b p) = (if b then sat_add 32 (votes_for p) 1 else votes_for p)"
  "votes_against (count_vote b p) = (if b then votes_against p else sat_add 32 (votes_against p) 1)"
  by (simp_all add: count_vote_def)

abbreviation proposal_tallies :: "'x khural_state \<Rightarrow> nat \<Rightarrow> (nat \<times> nat) option" where
  "proposal_tallies s i \<equiv> map_option (\<lambda>p. (votes_for p, votes_against p)) (proposals s i)"

interpretation treasury_poll: referendum "\<lambda>s i. {a. has_voted s i a}" proposal_tallies "khural_move cfg"
  for cfg :: "'x khural_config"
proof
  fix s t :: "'x khural_state" and i
  assume "khural_move cfg s t"
  then have "proposal_moves cfg i s t" by (rule move_proposals)
  then show "(proposal_tallies t i = proposal_tallies s i \<and> {a. has_voted t i a} = {a. has_voted s i a})
    \<or> (proposal_tallies s i = None \<and> proposal_tallies t i = Some (0, 0) \<and> {a. has_voted t i a} = {a. has_voted s i a})
    \<or> (\<exists>v a n. proposal_tallies s i = Some (a, n) \<and> v \<notin> {a. has_voted s i a}
        \<and> {a. has_voted t i a} = insert v {a. has_voted s i a}
        \<and> proposal_tallies t i \<in> {Some (sat_add 32 a 1, n), Some (a, sat_add 32 n 1)})"
    unfolding proposal_moves_def
  proof (elim disjE exE conjE)
    fix p a b
    assume "proposals s i = Some p" "proposals t i = Some (count_vote b p)" "\<not> has_voted s i a"
      "has_voted t i = (has_voted s i)(a := True)"
    then show ?thesis by (intro disjI2 exI[of _ a] exI[of _ "votes_for p"] exI[of _ "votes_against p"]) auto
  qed (auto simp: decided_def)
qed

interpretation motions: lifecycle proposals "proposal_edge cfg" "khural_move cfg" for cfg :: "'x khural_config"
proof
  fix s t :: "'x khural_state" and i p
  assume m: "khural_move cfg s t" and p: "proposals s i = Some p" "proposals t i \<noteq> Some p"
  from move_proposals[OF m, of i] p show "\<exists>q. proposals t i = Some q \<and> proposal_edge cfg p q"
    unfolding proposal_moves_def proposal_edge_def vote_edge_def by auto
qed

section \<open>The bill poll\<close>

definition bill_moves :: "nat \<Rightarrow> 'x khural_state \<Rightarrow> 'x khural_state \<Rightarrow> bool" where
  "bill_moves i s t \<longleftrightarrow>
     (expert_bills t i = expert_bills s i \<and> has_voted_on_bill t i = has_voted_on_bill s i)
   \<or> (\<exists>b. expert_bills s i = None \<and> expert_bills t i = Some b \<and> bill_votes_for b = 0 \<and> bill_votes_against b = 0
        \<and> bill_status b = Active \<and> has_voted_on_bill t i = has_voted_on_bill s i)
   \<or> (\<exists>b. expert_bills s i = Some b \<and> bill_status b = Active
        \<and> expert_bills t i = Some (b\<lparr>bill_status := (if 2 < bill_votes_for b then Executed else Rejected)\<rparr>)
        \<and> has_voted_on_bill t i = has_voted_on_bill s i)
   \<or> (\<exists>b a k. expert_bills s i = Some b \<and> bill_status b = Active \<and> expert_bills t i = Some (count_bill_vote k b)
        \<and> \<not> has_voted_on_bill s i a \<and> has_voted_on_bill t i = (has_voted_on_bill s i)(a := True))"

lemma bill_moves_same:
  "expert_bills t i = expert_bills s i \<Longrightarrow> has_voted_on_bill t i = has_voted_on_bill s i \<Longrightarrow> bill_moves i s t"
  by (simp add: bill_moves_def)

lemma bill_call_moves:
  assumes "khural_dispatch cfg (env, og, c) s = Ok t" "touches (KhuralExtrinsic env og c) = OnBills"
    "expert_bills s (next_expert_bill_id s) = None"
  shows "bill_moves i s t"
proof (cases c)
  case (ProposeExpertBill h g)
  then have "propose_expert_bill cfg og h g s = Ok t" using assms(1) by simp
  then show ?thesis
    by (elim propose_Ok, cases "i = next_expert_bill_id s") (simp_all add: bill_moves_def assms(3))
next
  case (VoteOnExpertBill j b)
  then have "vote_on_expert_bill cfg og j b s = Ok t" using assms(1) by simp
  then show ?thesis
    by (elim vote_bill_Ok, cases "i = j") (simp_all add: bill_moves_same, auto simp: bill_moves_def)
next
  case (ExecuteExpertBill j)
  then have "execute_expert_bill cfg og j s = Ok t" using assms(1) by simp
  then show ?thesis
    by (elim execute_bill_Ok, cases "i = j") (simp_all add: bill_moves_same, auto simp: bill_moves_def)
qed (use assms(2) in simp_all)

lemma move_bills:
  assumes "khural_move cfg s t"
  shows "bill_moves i s t"
proof -
  have fresh: "expert_bills s (next_expert_bill_id s) = None" and "khural_step cfg s t"
    using assms unfolding khural_move_def numbered_def by blast+
  then consider c where "khural_operate cfg c s = Ok t" | "khural_foreign s t"
    unfolding machine_step_def by blast
  then show ?thesis
  proof cases
    case 1
    show ?thesis
    proof (cases "touches c")
      case OnProposals
      with untouched(1)[OF 1] show ?thesis by (simp add: bills_kept_def bill_moves_def)
    next
      case OnBills
      with 1 fresh show ?thesis
        by (cases c) (auto intro: bill_call_moves)
    qed
  qed (auto simp: khural_foreign_def bill_moves_def)
qed

lemma count_bill_vote_simps [simp]:
  "bill_status (count_bill_vote k b) = bill_status b"
  "bill_votes_for (count_bill_vote k b) = (if k then sat_add 32 (bill_votes_for b) 1 else bill_votes_for b)"
  "bill_votes_against (count_bill_vote k b) = (if k then bill_votes_against b else sat_add 32 (bill_votes_against b) 1)"
  by (simp_all add: count_bill_vote_def)

abbreviation bill_tallies :: "'x khural_state \<Rightarrow> nat \<Rightarrow> (nat \<times> nat) option" where
  "bill_tallies s i \<equiv> map_option (\<lambda>b. (bill_votes_for b, bill_votes_against b)) (expert_bills s i)"

interpretation academy_poll: referendum "\<lambda>s i. {a. has_voted_on_bill s i a}" bill_tallies "khural_move cfg"
  for cfg :: "'x khural_config"
proof
  fix s t :: "'x khural_state" and i
  assume "khural_move cfg s t"
  then have "bill_moves i s t" by (rule move_bills)
  then show "(bill_tallies t i = bill_tallies s i \<and> {a. has_voted_on_bill t i a} = {a. has_voted_on_bill s i a})
    \<or> (bill_tallies s i = None \<and> bill_tallies t i = Some (0, 0)
        \<and> {a. has_voted_on_bill t i a} = {a. has_voted_on_bill s i a})
    \<or> (\<exists>v a n. bill_tallies s i = Some (a, n) \<and> v \<notin> {a. has_voted_on_bill s i a}
        \<and> {a. has_voted_on_bill t i a} = insert v {a. has_voted_on_bill s i a}
        \<and> bill_tallies t i \<in> {Some (sat_add 32 a 1, n), Some (a, sat_add 32 n 1)})"
    unfolding bill_moves_def
  proof (elim disjE exE conjE)
    fix b a k
    assume "expert_bills s i = Some b" "expert_bills t i = Some (count_bill_vote k b)" "\<not> has_voted_on_bill s i a"
      "has_voted_on_bill t i = (has_voted_on_bill s i)(a := True)"
    then show ?thesis by (intro disjI2 exI[of _ a] exI[of _ "bill_votes_for b"] exI[of _ "bill_votes_against b"]) auto
  qed auto
qed

section \<open>Identifiers\<close>

lemma expired_known: "(i, p) \<in> set (expired_proposals cfg n s) \<Longrightarrow> i \<in> dom (proposals s)"
  by (auto simp: expired_proposals_def map_filter_set split: option.splits if_splits)

lemma enact_all_dom:
  "dom (proposals (fold (\<lambda>(i, p). enact_proposal cfg i p) es s)) = fst ` set es \<union> dom (proposals s)"
  by (induction es arbitrary: s) auto

lemma block_dom: "dom (proposals (on_initialize cfg n s)) = dom (proposals s)"
  using expired_known unfolding on_initialize_def enact_all_dom by force

lemma block_next: "next_proposal_id (on_initialize cfg n s) = next_proposal_id s"
  by (simp add: on_initialize_def enact_all_frame)

lemma proposal_alloc:
  assumes "khural_step cfg s t"
  shows "(next_proposal_id t = next_proposal_id s \<and> dom (proposals t) = dom (proposals s))
    \<or> (next_proposal_id t = sat_add 32 (next_proposal_id s) 1
       \<and> dom (proposals t) = insert (next_proposal_id s) (dom (proposals s)))"
proof -
  consider c where "khural_operate cfg c s = Ok t" | "khural_foreign s t"
    using assms unfolding machine_step_def by blast
  then show ?thesis
  proof cases
    case 1
    show ?thesis
    proof (cases "touches c")
      case OnProposals
      with 1 show ?thesis
        by (cases c rule: touches.cases, simp_all)
          ((elim create_Ok vote_Ok execute_proposal_Ok, simp add: insert_absorb domIff)+,
           drule sym, simp add: block_dom block_next)
    qed (use untouched(2)[OF 1] in \<open>simp add: proposals_kept_def\<close>)
  qed (auto simp: khural_foreign_def)
qed

interpretation motion_ids: id_registry next_proposal_id proposals "khural_step cfg" for cfg :: "'x khural_config"
  by unfold_locales (rule proposal_alloc)

lemma bill_alloc:
  assumes "khural_step cfg s t"
  shows "(next_expert_bill_id t = next_expert_bill_id s \<and> dom (expert_bills t) = dom (expert_bills s))
    \<or> (next_expert_bill_id t = sat_add 32 (next_expert_bill_id s) 1
       \<and> dom (expert_bills t) = insert (next_expert_bill_id s) (dom (expert_bills s)))"
proof -
  consider c where "khural_operate cfg c s = Ok t" | "khural_foreign s t"
    using assms unfolding machine_step_def by blast
  then show ?thesis
  proof cases
    case 1
    show ?thesis
    proof (cases "touches c")
      case OnBills
      with 1 show ?thesis
        by (cases c rule: touches.cases, simp_all)
          (elim propose_Ok vote_bill_Ok execute_bill_Ok, simp add: insert_absorb domIff)+
    qed (use untouched(1)[OF 1] in \<open>simp add: bills_kept_def\<close>)
  qed (auto simp: khural_foreign_def)
qed

interpretation bill_ids: id_registry next_expert_bill_id expert_bills "khural_step cfg" for cfg :: "'x khural_config"
  by unfold_locales (rule bill_alloc)

definition khural_start :: "'x \<Rightarrow> 'x khural_state" where
  "khural_start x = \<lparr>khural_world = x, proposals = Map.empty, next_proposal_id = 0, has_voted = (\<lambda>_ _. False),
     expert_bills = Map.empty, next_expert_bill_id = 0, has_voted_on_bill = (\<lambda>_ _. False),
     expert_bill_depositor = Map.empty, khural_events = []\<rparr>"

text \<open>Identifiers are left in a state when both counters are below the end of their range.\<close>

definition ids_left :: "'x khural_state \<Rightarrow> bool" where
  "ids_left s \<longleftrightarrow> next_proposal_id s < umax 32 \<and> next_expert_bill_id s < umax 32"

definition ids_below :: "'x khural_state \<Rightarrow> bool" where
  "ids_below s \<longleftrightarrow> finite (dom (proposals s)) \<and> (\<forall>i\<in>dom (proposals s). i < next_proposal_id s)
     \<and> (\<forall>i\<in>dom (expert_bills s). i < next_expert_bill_id s)"

lemma ids_below_numbered: "ids_below s \<Longrightarrow> numbered s"
  using motion_ids.fresh[of s] bill_ids.fresh[of s] unfolding ids_below_def numbered_def by blast

lemma ids_left_back:
  assumes "khural_step cfg s t" "ids_left t" "next_proposal_id s \<le> umax 32" "next_expert_bill_id s \<le> umax 32"
  shows "ids_left s"
  using motion_ids.next_mono[OF assms(1,3)] bill_ids.next_mono[OF assms(1,4)] assms(2) unfolding ids_left_def by simp

lemma questions_below_step:
  assumes "khural_step cfg s t" "ids_left s" "ids_below s"
  shows "ids_below t"
proof -
  have "finite (dom (proposals t))" using proposal_alloc[OF assms(1)] assms(3) by (auto simp: ids_below_def)
  then show ?thesis
    using assms motion_ids.ids_below_step[OF assms(1)] bill_ids.ids_below_step[OF assms(1)]
    unfolding ids_below_def ids_left_def by blast
qed

lemma ids_bounded:
  "(khural_step cfg)\<^sup>*\<^sup>* (khural_start x) s \<Longrightarrow> next_proposal_id s \<le> umax 32 \<and> next_expert_bill_id s \<le> umax 32"
  using motion_ids.steps_mono[of cfg "khural_start x" s] bill_ids.steps_mono[of cfg "khural_start x" s]
  by (simp add: khural_start_def)

lemma start_below:
  assumes "(khural_step cfg)\<^sup>*\<^sup>* (khural_start x) s" "ids_left s"
  shows "ids_below s"
  using assms
proof (induction rule: rtranclp_induct)
  case (step s t)
  have "ids_left s" using ids_left_back[OF step.hyps(2) step.prems] ids_bounded[OF step.hyps(1)] by blast
  with step show ?case using questions_below_step by blast
qed (simp add: ids_below_def khural_start_def)

lemma khural_moves:
  assumes "iterates_proposals cfg" "(khural_step cfg)\<^sup>*\<^sup>* (khural_start x) s" "(khural_step cfg)\<^sup>*\<^sup>* s t" "ids_left t"
  shows "(khural_move cfg)\<^sup>*\<^sup>* s t"
  using assms(3,4)
proof (induction rule: rtranclp_induct)
  case (step u t)
  have start: "(khural_step cfg)\<^sup>*\<^sup>* (khural_start x) u" using assms(2) step.hyps(1) by (rule rtranclp_trans)
  have left: "ids_left u" using ids_left_back[OF step.hyps(2) step.prems] ids_bounded[OF start] by blast
  then have "khural_move cfg u t"
    using step.hyps(2) assms(1) ids_below_numbered[OF start_below[OF start left]] unfolding khural_move_def by blast
  with step.IH[OF left] show ?case by (rule rtranclp.rtrancl_into_rtrancl)
qed simp

lemma start_tallied: "treasury_poll.tallied (khural_start x)" "academy_poll.tallied (khural_start x)"
  by (simp_all add: treasury_poll.tallied_def academy_poll.tallied_def khural_start_def)

end
