(* ===== verification/Khural_Claims.thy ===== *)
theory Khural_Claims
  imports Khural_Governance
begin

text \<open>
  Properties of the Khural: a treasury pays for what its nation voted for, once; every proposal is decided in time; and the
  deposit of a bill is at the mercy of whoever executes it first.
\<close>

section \<open>Proposals\<close>

lemma executed_passed:
  assumes "(khural_move cfg)\<^sup>*\<^sup>* (khural_start x) s"
  shows "proposals s i = Some p \<Longrightarrow> proposal_status p = Executed \<Longrightarrow> proposal_passes cfg p"
  using assms
proof (induction arbitrary: p rule: rtranclp_induct)
  case (step s t)
  from move_proposals[OF step.hyps(2), of i] show ?case
    unfolding proposal_moves_def
  proof (elim disjE exE conjE)
    fix p' q
    assume "proposals s i = Some p'" "proposals t i = Some q" "decided cfg p' q"
    then show ?thesis using step.prems by (auto simp: decided_def proposal_passes_def)
  qed (use step in auto)
qed (simp add: khural_start_def)

definition same_motion :: "proposal \<Rightarrow> proposal \<Rightarrow> bool" where
  "same_motion p q \<longleftrightarrow> proposer q = proposer p \<and> proposal_nation q = proposal_nation p \<and> amount q = amount p
     \<and> beneficiary q = beneficiary p \<and> end_block q = end_block p \<and> (proposal_status p \<noteq> Active \<longrightarrow> q = p)"

lemma edges_same_motion:
  assumes "(proposal_edge cfg)\<^sup>*\<^sup>* p q"
  shows "same_motion p q"
  using assms
proof (induction rule: rtranclp_induct)
  case (step q r)
  then show ?case
    by (auto simp: same_motion_def proposal_edge_def vote_edge_def decided_def count_vote_def split: if_splits)
qed (simp add: same_motion_def)

text \<open>C20: A treasury pays by vote. As long as identifiers last, a proposal keeps its terms and once decided never changes
  again, so that its payment happens at most once; it is executed only with the quorum of votes in favour and more than
  against; and in every state its two tallies add up to the accounts that have voted on it.\<close>

theorem treasury_pays_by_vote:
  assumes "iterates_proposals cfg"
    and s: "reachable (khural_operate cfg) khural_foreign (khural_start x0) s"
    and t: "reachable (khural_operate cfg) khural_foreign s t" "ids_left t"
    and p: "proposals s i = Some p"
  shows "\<exists>q. proposals t i = Some q \<and> same_motion p q
    \<and> (proposal_status q = Executed \<longrightarrow> min_quorum cfg \<le> votes_for q \<and> votes_against q < votes_for q)
    \<and> (card {a. has_voted t i a} \<le> umax 32 \<longrightarrow> votes_for q + votes_against q = card {a. has_voted t i a})"
proof -
  note steps = s[unfolded reachable_iff_steps] t(1)[unfolded reachable_iff_steps]
  have moves: "(khural_move cfg)\<^sup>*\<^sup>* s t" by (rule khural_moves[OF assms(1) steps t(2)])
  have all: "(khural_move cfg)\<^sup>*\<^sup>* (khural_start x0) t"
    by (rule khural_moves[OF assms(1) rtranclp.rtrancl_refl rtranclp_trans[OF steps] t(2)])
  obtain q where q: "proposals t i = Some q" "(proposal_edge cfg)\<^sup>*\<^sup>* p q"
    using motions.steps_edges[OF moves p] by blast
  have "treasury_poll.tallied t" by (rule treasury_poll.tallied_steps[OF all start_tallied(1)])
  then have "card {a. has_voted t i a} \<le> umax 32 \<longrightarrow> votes_for q + votes_against q = card {a. has_voted t i a}"
    unfolding treasury_poll.tallied_def using q(1) by (auto dest: spec[of _ i])
  then show ?thesis
    using q edges_same_motion[OF q(2)] executed_passed[OF all q(1)] unfolding proposal_passes_def by blast
qed

text \<open>Every proposal is decided in time. A proposal created at a block, whatever calls and blocks follow, is no longer
  open after the first block at or beyond the end of the voting period, and stays so.\<close>

theorem proposals_are_decided:
  assumes "iterates_proposals cfg"
    and s: "reachable (khural_operate cfg) khural_foreign (khural_start x0) s"
    and t: "create_proposal cfg env og nation v payee basis s = Ok t"
    and u: "reachable (khural_operate cfg) khural_foreign t u" "ids_left u"
    and n: "sat_add 32 (current_block env) (voting_period cfg) \<le> n" "n \<le> umax 32"
  shows "\<exists>q. proposals (on_initialize cfg n u) (next_proposal_id s) = Some q \<and> proposal_status q \<noteq> Active"
proof -
  have "khural_operate cfg (KhuralExtrinsic env og (CreateProposal nation v payee basis)) s = Ok t" using t by simp
  then have "reachable (khural_operate cfg) khural_foreign (khural_start x0) t" by (rule reachable.call[OF s])
  note steps = this[unfolded reachable_iff_steps] u(1)[unfolded reachable_iff_steps]
  have moves: "(khural_move cfg)\<^sup>*\<^sup>* t u" by (rule khural_moves[OF assms(1) steps u(2)])
  obtain p where p: "proposals t (next_proposal_id s) = Some p" "end_block p \<le> n"
    using t n(1) by (elim create_Ok) simp
  then obtain q where q: "proposals u (next_proposal_id s) = Some q" "(proposal_edge cfg)\<^sup>*\<^sup>* p q"
    using motions.steps_edges[OF moves] by blast
  have "end_block q \<le> n" using edges_same_motion[OF q(2)] p(2) by (simp add: same_motion_def)
  moreover have "finite (dom (proposals u))"
    using start_below[OF rtranclp_trans[OF steps] u(2)] unfolding ids_below_def by blast
  from block_proposals[OF assms(1) this, where i = "next_proposal_id s" and n = n]
  have "if proposal_status q = Active \<and> end_block q \<le> n
      then \<exists>r. proposals (on_initialize cfg n u) (next_proposal_id s) = Some r \<and> decided cfg q r
      else proposals (on_initialize cfg n u) (next_proposal_id s) = Some q"
    using n(2) q(1) by (simp add: block_32_def)
  ultimately show ?thesis by (auto simp: decided_def split: if_splits)
qed

section \<open>Bills\<close>

text \<open>A bill can be killed at birth. Right after an academician has proposed a bill, any signed account executes it:
  with no votes it is rejected for good, nobody can vote on it, and the deposit of the academician is burnt.\<close>

theorem anyone_kills_a_bill:
  assumes ok: "reservable_ok (khural_currency cfg)"
    and t: "propose_expert_bill cfg (Signed a) h g s = Ok t"
    and i: "i = next_expert_bill_id s"
  shows "\<exists>u b. execute_expert_bill cfg (Signed w) i t = Ok u \<and> expert_bills u i = Some b \<and> bill_status b = Rejected
    \<and> total_issuance (khural_currency cfg) (khural_world u)
        = total_issuance (khural_currency cfg) (khural_world s) - expert_bill_deposit cfg
    \<and> free_balance (khural_currency cfg) (khural_world u) a
        = free_balance (khural_currency cfg) (khural_world s) a - expert_bill_deposit cfg
    \<and> reserved_balance (khural_currency cfg) (khural_world u) a = reserved_balance (khural_currency cfg) (khural_world s) a
    \<and> (\<forall>og k. \<exists>e. vote_on_expert_bill cfg og i k u = Err e)"
proof -
  let ?cur = "khural_currency cfg" and ?d = "expert_bill_deposit cfg"
  obtain x b where x: "reserve_funds ?cur (khural_world s) a ?d = Ok x" "khural_world t = x"
    and b: "expert_bills t i = Some b" "bill_status b = Active" "bill_votes_for b = 0"
    and dep: "expert_bill_depositor t i = Some (a, ?d)"
    using t
  proof (elim propose_Ok)
    fix a' x b
    assume "Signed a = Signed a'" "reserve_funds ?cur (khural_world s) a' ?d = Ok x" "khural_world t = x"
      "expert_bills t = (expert_bills s)(next_expert_bill_id s \<mapsto> b)" "bill_status b = Active" "bill_votes_for b = 0"
      "expert_bill_depositor t = (expert_bill_depositor s)(next_expert_bill_id s \<mapsto> (a', ?d))"
    then show thesis by (intro that[of x b]) (simp_all add: i)
  qed
  let ?u = "emit_khural (ExpertBillExecuted i False) (settle_deposit cfg i False
      (t\<lparr>expert_bills := (expert_bills t)(i \<mapsto> b\<lparr>bill_status := Rejected\<rparr>)\<rparr>))"
  have run: "execute_expert_bill cfg (Signed w) i t = Ok ?u"
    using b by (simp add: execute_expert_bill_def)
  have bill: "expert_bills ?u i = Some (b\<lparr>bill_status := Rejected\<rparr>)" by simp
  have world: "khural_world ?u = slash_reserved ?cur x a ?d" using dep x(2) by (simp add: settle_deposit_def)
  have "\<exists>e. vote_on_expert_bill cfg og i k ?u = Err e" for og k
  proof (cases "vote_on_expert_bill cfg og i k ?u")
    case (Ok v)
    then show ?thesis using bill by (elim vote_bill_Ok) auto
  qed blast
  moreover note r = reserveD[OF ok x(1)]
  have "total_issuance ?cur (khural_world ?u) = total_issuance ?cur (khural_world s) - ?d"
    "free_balance ?cur (khural_world ?u) a = free_balance ?cur (khural_world s) a - ?d"
    "reserved_balance ?cur (khural_world ?u) a = reserved_balance ?cur (khural_world s) a"
    unfolding world slash_simps[OF ok] r(2-4) by simp_all
  ultimately show ?thesis
    using run bill by (intro exI[of _ ?u] exI[of _ "b\<lparr>bill_status := Rejected\<rparr>"] conjI allI) (simp_all del: emit_khural_simps)
qed

section \<open>A session\<close>

text \<open>Accounts 11 and 13 are citizens of nation 3, whose treasury is account 50; account 11 is an academician too.\<close>

definition delegate_of_three :: citizen_record where
  "delegate_of_three = (fresh_citizen 1 3 ArbadLeader True None None Internal [] [] [])"

definition full_pouch :: pouch where
  "full_pouch = \<lparr>bal = (\<lambda>a. if a \<in> {11, 50} then 1000 else 0), issued = 2000, lock_of = (\<lambda>_ _. None), set_aside = (\<lambda>_. 0)\<rparr>"

definition demo_khural :: "pouch khural_config" where
  "demo_khural = \<lparr>khural_currency = pouch_currency 5,
     citizen_of = (\<lambda>_ a. if a \<in> {11, 13} then Some delegate_of_three else None), nation_treasuries = (\<lambda>_. [48, 49, 50]),
     is_academician = (\<lambda>_ a. a = 11), expert_bill_deposit = 100, voting_period = 20, min_quorum = 1,
     proposal_order = (\<lambda>m. sorted_list_of_set (dom m))\<rparr>"

definition at_block :: "nat \<Rightarrow> env" where
  "at_block n = \<lparr>block_number = n, extrinsic_index = Some 0\<rparr>"

lemma demo_iterates: "iterates_proposals demo_khural"
  by (simp add: iterates_proposals_def demo_khural_def)

lemma demo_khural_sel [simp]:
  "khural_currency demo_khural = pouch_currency 5" "expert_bill_deposit demo_khural = 100"
  "voting_period demo_khural = 20" "min_quorum demo_khural = 1"
  "validated_citizen demo_khural 11 x = Ok delegate_of_three" "validated_citizen demo_khural 13 x = Ok delegate_of_three"
  "nation_id delegate_of_three = 3" "is_academician demo_khural x 11" "current_block (at_block 7) = 7"
  by (simp_all add: demo_khural_def validated_citizen_def delegate_of_three_def fresh_citizen_def current_block_def
      at_block_def block_32_def umax_def)

abbreviation quiet_khural :: "pouch khural_state" where
  "quiet_khural \<equiv> khural_start full_pouch"

lemma motion_tabled:
  "\<exists>t p. create_proposal demo_khural (at_block 7) (Signed 13) 3 300 12 None quiet_khural = Ok t
    \<and> proposals t 0 = Some p \<and> proposal_status p = Active \<and> end_block p = 27 \<and> proposal_nation p = 3 \<and> votes_for p = 0
    \<and> votes_against p = 0 \<and> amount p = 300 \<and> beneficiary p = 12 \<and> khural_world t = full_pouch
    \<and> next_proposal_id t = 1 \<and> next_expert_bill_id t = 0 \<and> \<not> has_voted t 0 13"
  by (simp add: create_proposal_def Let_def khural_start_def sat_add_def umax_def)

lemma motion_pays:
  assumes "votes_for p = 1" "votes_against p = 0" "amount p = 300" "beneficiary p = 12" "proposal_nation p = 3"
  shows "\<exists>y. pay_proposal demo_khural p full_pouch = (y, True)"
  using assms by (simp add: pay_proposal_def proposal_passes_def demo_khural_def sat_sub_def pouch_currency_def
      on_book_result_def book_transfer_def full_pouch_def book.defs numeral_2_eq_2)

lemma proposals_are_decided_witness:
  "\<exists>t q. create_proposal demo_khural (at_block 7) (Signed 13) 3 300 12 None quiet_khural = Ok t
    \<and> proposals (on_initialize demo_khural 27 t) 0 = Some q \<and> proposal_status q \<noteq> Active"
proof -
  obtain t where t: "create_proposal demo_khural (at_block 7) (Signed 13) 3 300 12 None quiet_khural = Ok t"
    "next_proposal_id t = 1" "next_expert_bill_id t = 0" using motion_tabled by blast
  have "ids_left t" using t(2,3) by (simp add: ids_left_def umax_def)
  from proposals_are_decided[OF demo_iterates reachable.start t(1) reachable.start this, of 27] t(1)
  show ?thesis by (simp add: khural_start_def sat_add_def umax_def)
qed

lemma treasury_pays_by_vote_witness:
  "\<exists>t q. reachable (khural_operate demo_khural) khural_foreign quiet_khural t \<and> proposals t 0 = Some q
    \<and> proposal_status q = Executed \<and> votes_for q = 1 \<and> votes_against q < votes_for q"
proof -
  obtain t p where t: "create_proposal demo_khural (at_block 7) (Signed 13) 3 300 12 None quiet_khural = Ok t"
    and p: "proposals t 0 = Some p" "proposal_status p = Active" "end_block p = 27" "proposal_nation p = 3"
      "votes_for p = 0" "votes_against p = 0" "amount p = 300" "beneficiary p = 12"
    and n: "next_proposal_id t = 1" "next_expert_bill_id t = 0" "\<not> has_voted t 0 13" "khural_world t = full_pouch"
    using motion_tabled by blast
  let ?p = "count_vote True p"
  obtain u where u: "vote demo_khural (at_block 7) (Signed 13) 0 True t = Ok u"
    using p n(3) by (simp add: vote_def)
  then have pu: "proposals u 0 = Some ?p" "khural_world u = full_pouch" "next_proposal_id u = 1" "next_expert_bill_id u = 0"
    using p(1) n by (elim vote_Ok, simp)+
  obtain y where y: "pay_proposal demo_khural ?p full_pouch = (y, True)"
    using motion_pays[of ?p] p by (auto simp: count_vote_def sat_add_def umax_def)
  let ?w = "enact_proposal demo_khural 0 ?p u"
  have w: "execute_proposal demo_khural (at_block 27) (Signed 12) 0 u = Ok ?w"
    using pu(1) p by (simp add: execute_proposal_def current_block_def block_32_def at_block_def umax_def count_vote_def)
  have "reachable (khural_operate demo_khural) khural_foreign quiet_khural t"
    by (rule reachable.call[OF reachable.start, where c = "KhuralExtrinsic (at_block 7) (Signed 13) (CreateProposal 3 300 12 None)"])
      (simp add: t)
  then have "reachable (khural_operate demo_khural) khural_foreign quiet_khural u"
    by (rule reachable.call[where c = "KhuralExtrinsic (at_block 7) (Signed 13) (Vote 0 True)"]) (simp add: u)
  then have R: "reachable (khural_operate demo_khural) khural_foreign quiet_khural ?w"
    by (rule reachable.call[where c = "KhuralExtrinsic (at_block 27) (Signed 12) (ExecuteProposal 0)"]) (simp add: w)
  have q: "proposals ?w 0 = Some (?p\<lparr>proposal_status := Executed\<rparr>)" using pu(2) y by simp
  have "ids_left ?w" using pu(3,4) by (simp add: ids_left_def umax_def)
  from treasury_pays_by_vote[OF demo_iterates R reachable.start this q] R q p
  show ?thesis by (intro exI[of _ ?w] exI[of _ "?p\<lparr>proposal_status := Executed\<rparr>"]) (simp add: sat_add_def umax_def)
qed

lemma anyone_kills_a_bill_witness:
  "\<exists>t u b. propose_expert_bill demo_khural (Signed 11) [] [] quiet_khural = Ok t
    \<and> execute_expert_bill demo_khural (Signed 12) 0 t = Ok u \<and> expert_bills u 0 = Some b \<and> bill_status b = Rejected
    \<and> issued (khural_world u) = 1900"
proof -
  obtain t where t: "propose_expert_bill demo_khural (Signed 11) [] [] quiet_khural = Ok t"
    by (simp add: propose_expert_bill_def khural_start_def pouch_currency_def full_pouch_def)
  have "reservable_ok (khural_currency demo_khural)" by (simp add: pouch_reservable)
  from anyone_kills_a_bill[OF this t refl, of 12] t show ?thesis
    by (auto simp: khural_start_def full_pouch_def)
qed

end
