(* ===== verification/Bank_Operator.thy ===== *)
theory Bank_Operator
  imports Currency Pallet_Interfaces
begin

text \<open>
  \<^verbatim>\<open>pallets/bank-operator/src/lib.rs\<close>: collateral, the credit it backs, interest, and credit scores.

  \<open>'x\<close> is the ledger. A credit is new money; its principal is burnt as it is repaid, its interest goes to the bank.
\<close>

section \<open>Credit rating\<close>

datatype credit_tier = Excellent | Good | Fair | BelowFair | Poor

fun annual_rate_bps :: "credit_tier \<Rightarrow> nat" where
  "annual_rate_bps Excellent = 0"
| "annual_rate_bps Good = 300"
| "annual_rate_bps Fair = 700"
| "annual_rate_bps BelowFair = 1000"
| "annual_rate_bps Poor = 1500"

definition tier_from_score :: "nat \<Rightarrow> credit_tier" where
  "tier_from_score score =
     (if 750 \<le> score \<and> score \<le> 850 then Excellent
      else if 700 \<le> score \<and> score \<le> 749 then Good
      else if 650 \<le> score \<and> score \<le> 699 then Fair
      else if 600 \<le> score \<and> score \<le> 649 then BelowFair
      else Poor)"

definition daily_rate_bps :: "credit_tier \<Rightarrow> nat" where
  "daily_rate_bps tier =
     (let annual = annual_rate_bps tier in if annual = 0 then 0 else sat_add 32 annual 364 div 365)"

text \<open>The score is a \<open>u16\<close>, the counters are \<open>u32\<close>.\<close>

record credit_score_record =
  score :: nat
  credits_repaid :: nat
  credits_defaulted :: nat

definition new_default :: credit_score_record where
  "new_default = \<lparr>score = 650, credits_repaid = 0, credits_defaulted = 0\<rparr>"

definition apply_full_repayment :: "credit_score_record \<Rightarrow> credit_score_record" where
  "apply_full_repayment r =
     r\<lparr>score := min (sat_add 16 (score r) 20) 850, credits_repaid := sat_add 32 (credits_repaid r) 1\<rparr>"

definition apply_partial_repayment :: "credit_score_record \<Rightarrow> credit_score_record" where
  "apply_partial_repayment r = r\<lparr>score := min (sat_add 16 (score r) 5) 850\<rparr>"

definition apply_default :: "credit_score_record \<Rightarrow> credit_score_record" where
  "apply_default r =
     r\<lparr>score := max (sat_sub (score r) 100) 300, credits_defaulted := sat_add 32 (credits_defaulted r) 1\<rparr>"

definition apply_late_payment :: "credit_score_record \<Rightarrow> credit_score_record" where
  "apply_late_payment r = r\<lparr>score := max (sat_sub (score r) 30) 300\<rparr>"

definition score_tier :: "credit_score_record \<Rightarrow> credit_tier" where
  "score_tier r = tier_from_score (score r)"

section \<open>Data\<close>

datatype asset_type = AltanCoin | Land | NaturalResource | Infrastructure

datatype collateral_status = Locked | Backing | Released

datatype credit_status = Outstanding | Repaid | Defaulted

datatype freeze_reason = CreditDefault | FraudulentCollateral | ContractViolation

record collateral_contract =
  pledger :: account
  asset_type :: asset_type
  collateral_amount :: balance
  bank_fee :: balance
  collateral_net :: balance
  pledged_at :: nat
  collateral_status :: collateral_status
  credit_requested :: bool

record credit_contract =
  debtor :: account
  collateral_id :: nat
  credit_amount :: balance
  outstanding :: balance
  accrued_interest :: balance
  issued_at :: nat
  last_interest_block :: nat
  tier :: credit_tier
  credit_status :: credit_status

datatype operator_event =
    RwaAssessed account asset_type balance
  | CollateralLocked nat account balance balance balance
  | CreditRequested nat account
  | CreditIssued nat account nat balance credit_tier nat nat
  | CreditRepaid nat account balance balance balance
  | CreditClosed nat nat account balance
  | InterestAccrued nat account balance balance
  | CreditScoreUpdated account nat nat credit_tier
  | AccountFreezeRequested account freeze_reason
  | BankAccountConfigured account

datatype operator_error =
    BankAccountNotConfigured
  | CollateralNotFound
  | CreditNotFound
  | InvalidCollateralStatus
  | CreditNotActive
  | InsufficientBalance
  | NotCreditOwner
  | CollateralMismatch
  | ArithmeticOverflow
  | ZeroRepayment
  | ZeroCollateral
  | CreditNotRequested
  | NotCollateralOwner
  | CreditAlreadyRequested
  | InvalidReserveMultiplier
  | MintingProhibited
  | CreditAlreadyClosed

type_synonym operator_failure = "operator_error dispatch_error"

record 'x operator_state =
  operator_ledger :: 'x
  collateral_contracts :: "nat \<Rightarrow> collateral_contract option"
  next_collateral_id :: nat
  credit_contracts :: "nat \<Rightarrow> credit_contract option"
  next_credit_id :: nat
  bank_special_account :: "account option"
  total_credit_outstanding :: balance
  credit_scores :: "account \<Rightarrow> credit_score_record option"
  operator_events :: "operator_event list"

record 'x operator_config =
  operator_currency :: "'x currency"
  reserve_multiplier :: nat
  interest_period_blocks :: nat

definition emit_operator :: "operator_event \<Rightarrow> 'x operator_state \<Rightarrow> 'x operator_state" where
  "emit_operator e s = s\<lparr>operator_events := operator_events s @ [e]\<rparr>"

lemma emit_operator_simps [simp]:
  "operator_ledger (emit_operator e s) = operator_ledger s"
  "collateral_contracts (emit_operator e s) = collateral_contracts s"
  "next_collateral_id (emit_operator e s) = next_collateral_id s"
  "credit_contracts (emit_operator e s) = credit_contracts s"
  "next_credit_id (emit_operator e s) = next_credit_id s"
  "bank_special_account (emit_operator e s) = bank_special_account s"
  "total_credit_outstanding (emit_operator e s) = total_credit_outstanding s"
  "credit_scores (emit_operator e s) = credit_scores s"
  by (simp_all add: emit_operator_def)

text \<open>A block number is read with \<open>saturated_into\<close> or with \<open>try_into().unwrap_or(0)\<close>.\<close>

definition saturated_block :: "env \<Rightarrow> nat" where
  "saturated_block env = min (block_number env) (umax 32)"

definition block_or_zero :: "env \<Rightarrow> nat" where
  "block_or_zero env = (if block_number env \<le> umax 32 then block_number env else 0)"

definition score_record :: "'x operator_state \<Rightarrow> account \<Rightarrow> credit_score_record" where
  "score_record s a = (case credit_scores s a of Some r \<Rightarrow> r | None \<Rightarrow> new_default)"

section \<open>Collateral\<close>

definition set_bank_account ::
  "origin \<Rightarrow> account \<Rightarrow> 'x operator_state \<Rightarrow> ('x operator_state, operator_failure) result" where
  "set_bank_account og a s =
     and_then (ensure_root og) (\<lambda>_.
     Ok (emit_operator (BankAccountConfigured a) (s\<lparr>bank_special_account := Some a\<rparr>)))"

definition assess_rwa ::
  "origin \<Rightarrow> account \<Rightarrow> asset_type \<Rightarrow> balance \<Rightarrow> 'x operator_state \<Rightarrow> ('x operator_state, operator_failure) result" where
  "assess_rwa og citizen k v s =
     and_then (ensure_root og) (\<lambda>_. Ok (emit_operator (RwaAssessed citizen k v) s))"

definition lock_collateral ::
  "'x operator_config \<Rightarrow> env \<Rightarrow> origin \<Rightarrow> balance \<Rightarrow> asset_type \<Rightarrow> 'x operator_state
   \<Rightarrow> ('x operator_state, operator_failure) result" where
  "lock_collateral cfg env og amount k s =
     and_then (ensure_signed og) (\<lambda>citizen.
     ensure (amount > 0) (Module ZeroCollateral) (
     ok_or (bank_special_account s) (Module BankAccountNotConfigured) (\<lambda>bank.
     and_then (map_err (\<lambda>_. Module InsufficientBalance)
       (transfer (operator_currency cfg) (operator_ledger s) citizen bank amount KeepAlive)) (\<lambda>x.
     let fee = amount div 10;
         net = sat_sub amount fee;
         i = next_collateral_id s
     in Ok (emit_operator (CollateralLocked i citizen amount fee net)
          (s\<lparr>operator_ledger := x,
             collateral_contracts := (collateral_contracts s)(i \<mapsto>
               \<lparr>pledger = citizen, asset_type = k, collateral_amount = amount, bank_fee = fee, collateral_net = net,
                pledged_at = saturated_block env, collateral_status = Locked, credit_requested = False\<rparr>),
             next_collateral_id := sat_add 32 i 1\<rparr>))))))"

definition request_credit ::
  "origin \<Rightarrow> nat \<Rightarrow> 'x operator_state \<Rightarrow> ('x operator_state, operator_failure) result" where
  "request_credit og i s =
     and_then (ensure_signed og) (\<lambda>citizen.
     ok_or (collateral_contracts s i) (Module CollateralNotFound) (\<lambda>col.
     ensure (pledger col = citizen) (Module NotCollateralOwner) (
     ensure (collateral_status col = Locked) (Module InvalidCollateralStatus) (
     ensure (\<not> credit_requested col) (Module CreditAlreadyRequested) (
     Ok (emit_operator (CreditRequested i citizen)
          (s\<lparr>collateral_contracts := (collateral_contracts s)(i \<mapsto> col\<lparr>credit_requested := True\<rparr>)\<rparr>)))))))"

section \<open>Credit\<close>

text \<open>
  The score is stored with the first credit. The deposit drops its imbalance, so the issuance rises; it is not
  checked that the ledger took it.
\<close>

definition issue_credit ::
  "'x operator_config \<Rightarrow> env \<Rightarrow> origin \<Rightarrow> nat \<Rightarrow> 'x operator_state \<Rightarrow> ('x operator_state, operator_failure) result" where
  "issue_credit cfg env og i s =
     and_then (ensure_root og) (\<lambda>_.
     ensure (reserve_multiplier cfg = 9) (Module InvalidReserveMultiplier) (
     ok_or (collateral_contracts s i) (Module CollateralNotFound) (\<lambda>col.
     ensure (collateral_status col = Locked) (Module InvalidCollateralStatus) (
     ensure (credit_requested col) (Module CreditNotRequested) (
     let amount = sat_mul 128 (collateral_net col) (reserve_multiplier cfg);
         r = score_record s (pledger col);
         k = next_credit_id s;
         now = block_or_zero env
     in Ok (emit_operator (CreditIssued k (pledger col) i amount (score_tier r) (annual_rate_bps (score_tier r)) (score r))
          (s\<lparr>credit_scores := (if credit_scores s (pledger col) = None
                then (credit_scores s)(pledger col \<mapsto> new_default) else credit_scores s),
             operator_ledger := deposit_creating (operator_currency cfg) (operator_ledger s) (pledger col) amount,
             collateral_contracts := (collateral_contracts s)(i \<mapsto> col\<lparr>collateral_status := Backing\<rparr>),
             credit_contracts := (credit_contracts s)(k \<mapsto>
               \<lparr>debtor = pledger col, collateral_id = i, credit_amount = amount, outstanding = amount,
                accrued_interest = 0, issued_at = now, last_interest_block = now, tier = score_tier r,
                credit_status = Outstanding\<rparr>),
             next_credit_id := sat_add 32 k 1,
             total_credit_outstanding := sat_add 128 (total_credit_outstanding s) amount\<rparr>)))))))"

text \<open>Whole periods since the last accrual, on the outstanding principal. It cannot fail.\<close>

definition calculate_accrued_interest :: "'x operator_config \<Rightarrow> env \<Rightarrow> credit_contract \<Rightarrow> balance" where
  "calculate_accrued_interest cfg env c =
     (if daily_rate_bps (tier c) = 0 then 0
      else let elapsed = sat_sub (block_or_zero env) (last_interest_block c);
               period = interest_period_blocks cfg
           in if period = 0 \<or> elapsed < period then 0
              else sat_mul 128 (sat_mul 128 (outstanding c) (daily_rate_bps (tier c))) (elapsed div period) div 10000)"

definition accrue_interest ::
  "'x operator_config \<Rightarrow> env \<Rightarrow> origin \<Rightarrow> nat \<Rightarrow> 'x operator_state \<Rightarrow> ('x operator_state, operator_failure) result" where
  "accrue_interest cfg env og i s =
     and_then (ensure_signed og) (\<lambda>_.
     ok_or (credit_contracts s i) (Module CreditNotFound) (\<lambda>c.
     ensure (credit_status c = Outstanding) (Module CreditNotActive) (
     let accrued = calculate_accrued_interest cfg env c;
         c' = c\<lparr>accrued_interest := sat_add 128 (accrued_interest c) accrued, last_interest_block := block_or_zero env\<rparr>
     in if accrued > 0
        then Ok (emit_operator (InterestAccrued i (debtor c) accrued (accrued_interest c'))
               (s\<lparr>credit_contracts := (credit_contracts s)(i \<mapsto> c')\<rparr>))
        else Ok s)))"

section \<open>Repayment\<close>

text \<open>Accrual up to now, whether or not a period has passed.\<close>

definition accrue_now :: "'x operator_config \<Rightarrow> env \<Rightarrow> credit_contract \<Rightarrow> credit_contract" where
  "accrue_now cfg env c =
     c\<lparr>accrued_interest := sat_add 128 (accrued_interest c) (calculate_accrued_interest cfg env c),
       last_interest_block := block_or_zero env\<rparr>"

text \<open>Interest first: what is left of the payment, and what went to the bank.\<close>

definition pay_interest ::
  "'x operator_config \<Rightarrow> account \<Rightarrow> account \<Rightarrow> balance \<Rightarrow> credit_contract \<Rightarrow> 'x
   \<Rightarrow> ('x \<times> credit_contract \<times> balance \<times> balance, operator_failure) result" where
  "pay_interest cfg citizen bank amount c x =
     (if accrued_interest c > 0 \<and> amount > 0
      then let v = min (accrued_interest c) amount in
        and_then (map_err (\<lambda>_. Module InsufficientBalance)
          (transfer (operator_currency cfg) x citizen bank v KeepAlive)) (\<lambda>y.
        Ok (y, c\<lparr>accrued_interest := sat_sub (accrued_interest c) v\<rparr>, sat_sub amount v, v))
      else Ok (x, c, amount, 0))"

text \<open>Then the principal, which is burnt.\<close>

definition burn_principal ::
  "'x operator_config \<Rightarrow> account \<Rightarrow> balance \<Rightarrow> credit_contract \<Rightarrow> 'x operator_state
   \<Rightarrow> ('x operator_state \<times> credit_contract \<times> balance, operator_failure) result" where
  "burn_principal cfg citizen remaining c s =
     (let v = min remaining (outstanding c) in
      if v > 0
      then and_then (map_err (\<lambda>_. Module InsufficientBalance)
             (withdraw (operator_currency cfg) (operator_ledger s) citizen v KeepAlive)) (\<lambda>x.
           Ok (s\<lparr>operator_ledger := x, total_credit_outstanding := sat_sub (total_credit_outstanding s) v\<rparr>,
               c\<lparr>outstanding := sat_sub (outstanding c) v\<rparr>, v))
      else Ok (s, c, 0))"

definition reward_score :: "account \<Rightarrow> bool \<Rightarrow> balance \<Rightarrow> 'x operator_state \<Rightarrow> 'x operator_state" where
  "reward_score citizen fully_repaid burned s =
     (let r = score_record s citizen;
          r' = (if fully_repaid then apply_full_repayment r
                else if burned > 0 then apply_partial_repayment r else r)
      in if score r \<noteq> score r'
         then emit_operator (CreditScoreUpdated citizen (score r) (score r') (score_tier r'))
                (s\<lparr>credit_scores := (credit_scores s)(citizen \<mapsto> r')\<rparr>)
         else s)"

text \<open>With the last payment the net collateral returns.\<close>

definition close_credit ::
  "'x operator_config \<Rightarrow> account \<Rightarrow> account \<Rightarrow> nat \<Rightarrow> credit_contract \<Rightarrow> 'x operator_state
   \<Rightarrow> ('x operator_state, operator_failure) result" where
  "close_credit cfg citizen bank i c s =
     (let s1 = s\<lparr>credit_contracts := (credit_contracts s)(i \<mapsto> c\<lparr>credit_status := Repaid\<rparr>)\<rparr> in
      ok_or (collateral_contracts s1 (collateral_id c)) (Module CollateralNotFound) (\<lambda>col.
      and_then (map_err (\<lambda>_. Module InsufficientBalance)
        (transfer (operator_currency cfg) (operator_ledger s1) bank citizen (collateral_net col) KeepAlive)) (\<lambda>x.
      Ok (emit_operator (CreditClosed i (collateral_id c) citizen (collateral_net col))
           (s1\<lparr>operator_ledger := x,
               collateral_contracts := (collateral_contracts s1)(collateral_id c \<mapsto> col\<lparr>collateral_status := Released\<rparr>)\<rparr>)))))"

definition repay_credit ::
  "'x operator_config \<Rightarrow> env \<Rightarrow> origin \<Rightarrow> nat \<Rightarrow> balance \<Rightarrow> 'x operator_state
   \<Rightarrow> ('x operator_state, operator_failure) result" where
  "repay_credit cfg env og i amount s =
     and_then (ensure_signed og) (\<lambda>citizen.
     ensure (amount > 0) (Module ZeroRepayment) (
     ok_or (credit_contracts s i) (Module CreditNotFound) (\<lambda>c.
     ensure (debtor c = citizen) (Module NotCreditOwner) (
     ensure (credit_status c = Outstanding) (Module CreditNotActive) (
     ok_or (bank_special_account s) (Module BankAccountNotConfigured) (\<lambda>bank.
     and_then (pay_interest cfg citizen bank amount (accrue_now cfg env c) (operator_ledger s)) (\<lambda>(x, c1, remaining, interest).
     and_then (burn_principal cfg citizen remaining c1 (s\<lparr>operator_ledger := x\<rparr>)) (\<lambda>(s1, c2, burned).
     let fully_repaid = (outstanding c2 = 0 \<and> accrued_interest c2 = 0);
         s2 = reward_score citizen fully_repaid burned s1
     in and_then (if fully_repaid then close_credit cfg citizen bank i c2 s2
                  else Ok (s2\<lparr>credit_contracts := (credit_contracts s2)(i \<mapsto> c2)\<rparr>)) (\<lambda>s3.
        Ok (emit_operator (CreditRepaid i citizen burned interest (outstanding c2)) s3))))))))))"

section \<open>Default\<close>

definition declare_default ::
  "origin \<Rightarrow> nat \<Rightarrow> 'x operator_state \<Rightarrow> ('x operator_state, operator_failure) result" where
  "declare_default og i s =
     and_then (ensure_root og) (\<lambda>_.
     ok_or (credit_contracts s i) (Module CreditNotFound) (\<lambda>c.
     ensure (credit_status c = Outstanding) (Module CreditNotActive) (
     let r = score_record s (debtor c); r' = apply_default r
     in Ok (emit_operator (AccountFreezeRequested (debtor c) CreditDefault)
          (emit_operator (CreditScoreUpdated (debtor c) (score r) (score r') (score_tier r'))
            (s\<lparr>credit_contracts := (credit_contracts s)(i \<mapsto> c\<lparr>credit_status := Defaulted\<rparr>),
               credit_scores := (credit_scores s)(debtor c \<mapsto> r')\<rparr>))))))"

definition request_account_freeze ::
  "origin \<Rightarrow> account \<Rightarrow> freeze_reason \<Rightarrow> 'x operator_state \<Rightarrow> ('x operator_state, operator_failure) result" where
  "request_account_freeze og citizen reason s =
     and_then (ensure_root og) (\<lambda>_. Ok (emit_operator (AccountFreezeRequested citizen reason) s))"

text \<open>What a citizen owes, summed over the storage map in the order \<open>ids\<close> in which it is iterated.\<close>

definition owes :: "account \<Rightarrow> credit_contract option \<Rightarrow> balance" where
  "owes who oc = (case oc of None \<Rightarrow> 0
     | Some c \<Rightarrow> if debtor c = who \<and> credit_status c = Outstanding then outstanding c else 0)"

definition total_outstanding_debt_for :: "nat list \<Rightarrow> 'x operator_state \<Rightarrow> account \<Rightarrow> balance" where
  "total_outstanding_debt_for ids s who =
     fold (\<lambda>i debt. case credit_contracts s i of None \<Rightarrow> debt
        | Some c \<Rightarrow> if debtor c = who \<and> credit_status c = Outstanding then sat_add 128 debt (outstanding c) else debt)
       ids 0"

datatype operator_call =
    SetBankAccount account
  | AssessRwa account asset_type balance
  | LockCollateral balance asset_type
  | RequestCredit nat
  | IssueCredit nat
  | AccrueInterest nat
  | RepayCredit nat balance
  | DeclareDefault nat
  | RequestAccountFreeze account freeze_reason

fun operator_dispatch ::
  "'x operator_config \<Rightarrow> env \<times> origin \<times> operator_call \<Rightarrow> 'x operator_state \<Rightarrow> ('x operator_state, operator_failure) result" where
  "operator_dispatch cfg (env, og, SetBankAccount a) s = set_bank_account og a s"
| "operator_dispatch cfg (env, og, AssessRwa a k v) s = assess_rwa og a k v s"
| "operator_dispatch cfg (env, og, LockCollateral v k) s = lock_collateral cfg env og v k s"
| "operator_dispatch cfg (env, og, RequestCredit i) s = request_credit og i s"
| "operator_dispatch cfg (env, og, IssueCredit i) s = issue_credit cfg env og i s"
| "operator_dispatch cfg (env, og, AccrueInterest i) s = accrue_interest cfg env og i s"
| "operator_dispatch cfg (env, og, RepayCredit i v) s = repay_credit cfg env og i v s"
| "operator_dispatch cfg (env, og, DeclareDefault i) s = declare_default og i s"
| "operator_dispatch cfg (env, og, RequestAccountFreeze a k) s = request_account_freeze og a k s"

text \<open>Other pallets move the ledger.\<close>

definition operator_foreign :: "'x operator_state \<Rightarrow> 'x operator_state \<Rightarrow> bool" where
  "operator_foreign s t \<longleftrightarrow> (\<exists>x. t = s\<lparr>operator_ledger := x\<rparr>)"

definition operator_start :: "'x \<Rightarrow> 'x operator_state" where
  "operator_start x = \<lparr>operator_ledger = x, collateral_contracts = Map.empty, next_collateral_id = 0,
     credit_contracts = Map.empty, next_credit_id = 0, bank_special_account = None, total_credit_outstanding = 0,
     credit_scores = Map.empty, operator_events = []\<rparr>"

section \<open>Laws of the pallet\<close>

text \<open>
  What each call of the bank operator does to its books; the invariants of collateral, credits and scores; and the life
  cycle of a credit.
\<close>

section \<open>A payment as a function\<close>

definition paid_interest :: "'x operator_config \<Rightarrow> env \<Rightarrow> balance \<Rightarrow> credit_contract \<Rightarrow> balance" where
  "paid_interest cfg env v c = min (accrued_interest (accrue_now cfg env c)) v"

definition paid_principal :: "'x operator_config \<Rightarrow> env \<Rightarrow> balance \<Rightarrow> credit_contract \<Rightarrow> balance" where
  "paid_principal cfg env v c = min (v - paid_interest cfg env v c) (outstanding c)"

definition paid_down :: "'x operator_config \<Rightarrow> env \<Rightarrow> balance \<Rightarrow> credit_contract \<Rightarrow> credit_contract" where
  "paid_down cfg env v c = (accrue_now cfg env c)
     \<lparr>accrued_interest := accrued_interest (accrue_now cfg env c) - paid_interest cfg env v c,
      outstanding := outstanding c - paid_principal cfg env v c\<rparr>"

definition paid_off :: "credit_contract \<Rightarrow> bool" where
  "paid_off c \<longleftrightarrow> outstanding c = 0 \<and> accrued_interest c = 0"

lemma accrue_now_sel [simp]:
  "debtor (accrue_now cfg env c) = debtor c" "collateral_id (accrue_now cfg env c) = collateral_id c"
  "credit_amount (accrue_now cfg env c) = credit_amount c" "outstanding (accrue_now cfg env c) = outstanding c"
  "tier (accrue_now cfg env c) = tier c" "credit_status (accrue_now cfg env c) = credit_status c"
  "last_interest_block (accrue_now cfg env c) = block_or_zero env"
  by (simp_all add: accrue_now_def)

lemma paid_down_sel [simp]:
  "debtor (paid_down cfg env v c) = debtor c" "collateral_id (paid_down cfg env v c) = collateral_id c"
  "credit_amount (paid_down cfg env v c) = credit_amount c"
  "outstanding (paid_down cfg env v c) = outstanding c - paid_principal cfg env v c"
  "tier (paid_down cfg env v c) = tier c" "credit_status (paid_down cfg env v c) = credit_status c"
  "last_interest_block (paid_down cfg env v c) = block_or_zero env"
  by (simp_all add: paid_down_def)

lemma pay_interest_Ok:
  assumes "pay_interest cfg a b v c x = Ok (y, c1, remaining, interest)"
  shows "interest = min (accrued_interest c) v \<and> remaining = v - interest
    \<and> c1 = c\<lparr>accrued_interest := accrued_interest c - interest\<rparr>
    \<and> (if interest = 0 then y = x else transfer (operator_currency cfg) x a b interest KeepAlive = Ok y)"
  using assms by (cases "accrued_interest c > 0 \<and> v > 0") (auto simp: pay_interest_def ok_simps Let_def sat_sub_def)

lemma burn_principal_Ok:
  assumes "burn_principal cfg a v c s = Ok (t, c1, burned)"
  obtains x where "burned = min v (outstanding c)" "c1 = c\<lparr>outstanding := outstanding c - burned\<rparr>"
    "t = s\<lparr>operator_ledger := x, total_credit_outstanding := total_credit_outstanding s - burned\<rparr>"
    "if burned = 0 then x = operator_ledger s
     else withdraw (operator_currency cfg) (operator_ledger s) a burned KeepAlive = Ok x"
proof (cases "min v (outstanding c) > 0")
  case True
  with assms show ?thesis by (auto simp: burn_principal_def ok_simps Let_def sat_sub_def intro!: that)
next
  case False
  then have "t = s" "c1 = c" "burned = 0"
    using assms by (simp_all add: burn_principal_def Let_def del: min_less_iff_conj)
  with False show ?thesis by (intro that[of "operator_ledger s"]) auto
qed

lemma reward_score_simps [simp]:
  "operator_ledger (reward_score a f v s) = operator_ledger s"
  "collateral_contracts (reward_score a f v s) = collateral_contracts s"
  "next_collateral_id (reward_score a f v s) = next_collateral_id s"
  "credit_contracts (reward_score a f v s) = credit_contracts s"
  "next_credit_id (reward_score a f v s) = next_credit_id s"
  "bank_special_account (reward_score a f v s) = bank_special_account s"
  "total_credit_outstanding (reward_score a f v s) = total_credit_outstanding s"
  by (simp_all add: reward_score_def Let_def)

section \<open>What each call does\<close>

lemma lock_Ok:
  assumes "lock_collateral cfg env og v k s = Ok t"
  obtains a b x where "og = Signed a" "0 < v" "bank_special_account s = Some b"
    "transfer (operator_currency cfg) (operator_ledger s) a b v KeepAlive = Ok x" "operator_ledger t = x"
    "collateral_contracts t = (collateral_contracts s)(next_collateral_id s \<mapsto>
       \<lparr>pledger = a, asset_type = k, collateral_amount = v, bank_fee = v div 10, collateral_net = v - v div 10,
        pledged_at = saturated_block env, collateral_status = Locked, credit_requested = False\<rparr>)"
    "next_collateral_id t = sat_add 32 (next_collateral_id s) 1" "credit_contracts t = credit_contracts s"
    "next_credit_id t = next_credit_id s" "total_credit_outstanding t = total_credit_outstanding s"
    "credit_scores t = credit_scores s"
  using assms unfolding lock_collateral_def Let_def by (auto simp: ok_simps sat_sub_def)

lemma request_Ok:
  assumes "request_credit og i s = Ok t"
  obtains col where "collateral_contracts s i = Some col" "og = Signed (pledger col)"
    "collateral_status col = Locked" "\<not> credit_requested col"
    "collateral_contracts t = (collateral_contracts s)(i \<mapsto> col\<lparr>credit_requested := True\<rparr>)"
    "operator_ledger t = operator_ledger s"
    "next_collateral_id t = next_collateral_id s" "credit_contracts t = credit_contracts s"
    "next_credit_id t = next_credit_id s" "total_credit_outstanding t = total_credit_outstanding s"
    "credit_scores t = credit_scores s"
  using assms unfolding request_credit_def by (auto simp: ok_simps)

lemma issue_Ok:
  assumes "issue_credit cfg env og i s = Ok t"
  obtains col c where "og = Root" "reserve_multiplier cfg = 9" "collateral_contracts s i = Some col"
    "collateral_status col = Locked" "credit_requested col"
    "c = \<lparr>debtor = pledger col, collateral_id = i, credit_amount = sat_mul 128 (collateral_net col) 9,
       outstanding = sat_mul 128 (collateral_net col) 9, accrued_interest = 0, issued_at = block_or_zero env,
       last_interest_block = block_or_zero env, tier = score_tier (score_record s (pledger col)),
       credit_status = Outstanding\<rparr>"
    "operator_ledger t = deposit_creating (operator_currency cfg) (operator_ledger s) (pledger col) (credit_amount c)"
    "collateral_contracts t = (collateral_contracts s)(i \<mapsto> col\<lparr>collateral_status := Backing\<rparr>)"
    "next_collateral_id t = next_collateral_id s"
    "credit_contracts t = (credit_contracts s)(next_credit_id s \<mapsto> c)"
    "next_credit_id t = sat_add 32 (next_credit_id s) 1"
    "total_credit_outstanding t = sat_add 128 (total_credit_outstanding s) (credit_amount c)"
    "credit_scores t = (if credit_scores s (pledger col) = None
       then (credit_scores s)(pledger col \<mapsto> new_default) else credit_scores s)"
  using assms unfolding issue_credit_def Let_def by (auto simp: ok_simps)

lemma accrue_Ok:
  assumes "accrue_interest cfg env og i s = Ok t"
  obtains c where "credit_contracts s i = Some c" "credit_status c = Outstanding"
    "if 0 < calculate_accrued_interest cfg env c
     then credit_contracts t = (credit_contracts s)(i \<mapsto> accrue_now cfg env c)
     else credit_contracts t = credit_contracts s"
    "operator_ledger t = operator_ledger s"
    "collateral_contracts t = collateral_contracts s" "next_collateral_id t = next_collateral_id s"
    "next_credit_id t = next_credit_id s" "total_credit_outstanding t = total_credit_outstanding s"
    "credit_scores t = credit_scores s"
proof -
  obtain c where c: "credit_contracts s i = Some c" "credit_status c = Outstanding"
    using assms unfolding accrue_interest_def by (auto simp: ok_simps)
  show ?thesis
  proof (cases "0 < calculate_accrued_interest cfg env c")
    case True
    obtain k where "t = emit_operator k (s\<lparr>credit_contracts := (credit_contracts s)(i \<mapsto> accrue_now cfg env c)\<rparr>)"
      using assms c True unfolding accrue_interest_def accrue_now_def by (auto simp: ok_simps Let_def)
    then show ?thesis by (intro that[OF c]) (simp_all add: True)
  next
    case False
    have "t = s" using assms c False unfolding accrue_interest_def by (auto simp: ok_simps Let_def)
    then show ?thesis by (intro that[OF c]) (simp_all add: False)
  qed
qed

lemma default_Ok:
  assumes "declare_default og i s = Ok t"
  obtains c where "og = Root" "credit_contracts s i = Some c" "credit_status c = Outstanding"
    "credit_contracts t = (credit_contracts s)(i \<mapsto> c\<lparr>credit_status := Defaulted\<rparr>)"
    "credit_scores t = (credit_scores s)(debtor c \<mapsto> apply_default (score_record s (debtor c)))"
    "operator_ledger t = operator_ledger s"
    "collateral_contracts t = collateral_contracts s" "next_collateral_id t = next_collateral_id s"
    "next_credit_id t = next_credit_id s" "total_credit_outstanding t = total_credit_outstanding s"
  using assms unfolding declare_default_def Let_def by (auto simp: ok_simps)

lemma repay_Ok:
  assumes "repay_credit cfg env og i v s = Ok t"
  obtains c b x y z col where "og = Signed (debtor c)" "0 < v" "credit_contracts s i = Some c"
    "credit_status c = Outstanding" "bank_special_account s = Some b"
    "if paid_interest cfg env v c = 0 then x = operator_ledger s
     else transfer (operator_currency cfg) (operator_ledger s) (debtor c) b (paid_interest cfg env v c) KeepAlive = Ok x"
    "if paid_principal cfg env v c = 0 then y = x
     else withdraw (operator_currency cfg) x (debtor c) (paid_principal cfg env v c) KeepAlive = Ok y"
    "if paid_off (paid_down cfg env v c)
     then collateral_contracts s (collateral_id c) = Some col
       \<and> transfer (operator_currency cfg) y b (debtor c) (collateral_net col) KeepAlive = Ok z
       \<and> credit_contracts t = (credit_contracts s)(i \<mapsto> (paid_down cfg env v c)\<lparr>credit_status := Repaid\<rparr>)
       \<and> collateral_contracts t = (collateral_contracts s)(collateral_id c \<mapsto> col\<lparr>collateral_status := Released\<rparr>)
     else z = y \<and> credit_contracts t = (credit_contracts s)(i \<mapsto> paid_down cfg env v c)
       \<and> collateral_contracts t = collateral_contracts s"
    "operator_ledger t = z" "next_collateral_id t = next_collateral_id s" "next_credit_id t = next_credit_id s"
    "total_credit_outstanding t = total_credit_outstanding s - paid_principal cfg env v c"
    "credit_scores t = credit_scores (reward_score (debtor c) (paid_off (paid_down cfg env v c)) (paid_principal cfg env v c) s)"
proof -
  obtain c b x c1 remaining interest s1 c2 burned s3 where og: "og = Signed (debtor c)" "0 < v"
      and c: "credit_contracts s i = Some c" "credit_status c = Outstanding" "bank_special_account s = Some b"
      and int: "pay_interest cfg (debtor c) b v (accrue_now cfg env c) (operator_ledger s) = Ok (x, c1, remaining, interest)"
      and prin: "burn_principal cfg (debtor c) remaining c1 (s\<lparr>operator_ledger := x\<rparr>) = Ok (s1, c2, burned)"
      and fin: "(if paid_off c2 then close_credit cfg (debtor c) b i c2 (reward_score (debtor c) (paid_off c2) burned s1)
          else Ok ((reward_score (debtor c) (paid_off c2) burned s1)
             \<lparr>credit_contracts := (credit_contracts (reward_score (debtor c) (paid_off c2) burned s1))(i \<mapsto> c2)\<rparr>)) = Ok s3"
      and t: "t = emit_operator (CreditRepaid i (debtor c) burned interest (outstanding c2)) s3"
    using assms unfolding repay_credit_def Let_def paid_off_def by (auto simp: ok_simps)
  note pi = pay_interest_Ok[OF int]
  obtain y where bp: "burned = min remaining (outstanding c1)" "c2 = c1\<lparr>outstanding := outstanding c1 - burned\<rparr>"
      "s1 = (s\<lparr>operator_ledger := x\<rparr>)\<lparr>operator_ledger := y,
         total_credit_outstanding := total_credit_outstanding (s\<lparr>operator_ledger := x\<rparr>) - burned\<rparr>"
      "if burned = 0 then y = operator_ledger (s\<lparr>operator_ledger := x\<rparr>)
       else withdraw (operator_currency cfg) (operator_ledger (s\<lparr>operator_ledger := x\<rparr>)) (debtor c) burned KeepAlive = Ok y"
    by (rule burn_principal_Ok[OF prin])
  have interest: "interest = paid_interest cfg env v c" and burned: "burned = paid_principal cfg env v c"
    using pi bp(1) by (simp_all add: paid_interest_def paid_principal_def)
  have c2: "c2 = paid_down cfg env v c" using pi bp(2) interest burned by (simp add: paid_down_def)
  have s1: "s1 = s\<lparr>operator_ledger := y, total_credit_outstanding := total_credit_outstanding s - burned\<rparr>"
    and y: "if burned = 0 then y = x else withdraw (operator_currency cfg) x (debtor c) burned KeepAlive = Ok y"
    using bp(3,4) by (simp_all cong: if_cong)
  have x: "if interest = 0 then x = operator_ledger s
      else transfer (operator_currency cfg) (operator_ledger s) (debtor c) b interest KeepAlive = Ok x"
    using pi by (elim conjE)
  note money = x[unfolded interest] y[unfolded burned]
  have scores: "credit_scores (reward_score a f w s1) = credit_scores (reward_score a f w s)" for a f w
    by (simp add: s1 reward_score_def score_record_def Let_def)
  show ?thesis
  proof (cases "paid_off c2")
    case True
    then obtain col z where "collateral_contracts s (collateral_id c) = Some col"
        "transfer (operator_currency cfg) y b (debtor c) (collateral_net col) KeepAlive = Ok z"
        "s3 = emit_operator (CreditClosed i (collateral_id c) (debtor c) (collateral_net col))
          ((reward_score (debtor c) True burned s1)\<lparr>credit_contracts := (credit_contracts s)(i \<mapsto> c2\<lparr>credit_status := Repaid\<rparr>),
             operator_ledger := z,
             collateral_contracts := (collateral_contracts s)(collateral_id c \<mapsto> col\<lparr>collateral_status := Released\<rparr>)\<rparr>)"
      using fin by (auto simp: close_credit_def ok_simps Let_def s1 c2)
    with True og c money show ?thesis
      by (intro that[of c b x y col z]) (simp_all add: c2 t scores cong: if_cong, simp_all add: s1 burned)
  next
    case False
    with fin have "s3 = (reward_score (debtor c) False burned s1)\<lparr>credit_contracts := (credit_contracts s)(i \<mapsto> c2)\<rparr>"
      by (simp add: s1)
    with False og c money show ?thesis
      by (intro that[of c b x y _ y]) (simp_all add: c2 t scores cong: if_cong, simp_all add: s1 burned)
  qed
qed


section \<open>The books\<close>

text \<open>Neither counter has reached the end of its range, where an identifier would be used twice.\<close>

definition ids_last :: "'x operator_state \<Rightarrow> bool" where
  "ids_last s \<longleftrightarrow> next_collateral_id s < umax 32 \<and> next_credit_id s < umax 32"

definition pledge_backs :: "collateral_contract \<Rightarrow> credit_contract \<Rightarrow> bool" where
  "pledge_backs k c \<longleftrightarrow> pledger k = debtor c \<and> credit_requested k
     \<and> credit_amount c = sat_mul 128 (collateral_net k) 9 \<and> outstanding c \<le> credit_amount c
     \<and> collateral_status k = (if credit_status c = Repaid then Released else Backing)
     \<and> (credit_status c = Repaid \<longrightarrow> paid_off c)"

definition pledges_below :: "'x operator_state \<Rightarrow> bool" where
  "pledges_below s \<longleftrightarrow> (\<forall>i. collateral_contracts s i \<noteq> None \<longrightarrow> i < next_collateral_id s)
     \<and> (\<forall>j. credit_contracts s j \<noteq> None \<longrightarrow> j < next_credit_id s)"

definition pledged :: "'x operator_state \<Rightarrow> nat \<Rightarrow> bool" where
  "pledged s i \<longleftrightarrow> (\<exists>j c. credit_contracts s j = Some c \<and> collateral_id c = i)"

lemma pledged_same: "credit_contracts t = credit_contracts s \<Longrightarrow> pledged t = pledged s"
  by (simp add: pledged_def fun_eq_iff)

lemma pledged_revise:
  assumes "credit_contracts s i = Some c" "credit_contracts t = (credit_contracts s)(i \<mapsto> d)" "collateral_id d = collateral_id c"
  shows "pledged t = pledged s"
  unfolding pledged_def fun_eq_iff assms(2)
proof (intro allI iffI)
  fix k
  assume "\<exists>j e. ((credit_contracts s)(i \<mapsto> d)) j = Some e \<and> collateral_id e = k"
  then show "\<exists>j e. credit_contracts s j = Some e \<and> collateral_id e = k"
    using assms(1,3) by (metis map_upd_Some_unfold)
next
  fix k
  assume "\<exists>j e. credit_contracts s j = Some e \<and> collateral_id e = k"
  then show "\<exists>j e. ((credit_contracts s)(i \<mapsto> d)) j = Some e \<and> collateral_id e = k"
    using assms(1,3) by (metis map_upd_Some_unfold option.inject)
qed

lemma pledged_new:
  assumes "credit_contracts s j = None" "credit_contracts t = (credit_contracts s)(j \<mapsto> d)"
  shows "pledged t k \<longleftrightarrow> pledged s k \<or> k = collateral_id d"
proof -
  have "pledged t k" if k: "pledged s k"
  proof -
    obtain i c where c: "credit_contracts s i = Some c" "collateral_id c = k" using k unfolding pledged_def by blast
    then have "i \<noteq> j" using assms(1) by auto
    with c show ?thesis unfolding pledged_def assms(2) by (intro exI[of _ i] exI[of _ c]) simp
  qed
  moreover have "pledged t (collateral_id d)" by (auto simp: pledged_def assms(2))
  moreover have "pledged s k \<or> k = collateral_id d" if "pledged t k"
    using that by (auto simp: pledged_def assms(2) split: if_splits)
  ultimately show ?thesis by blast
qed

definition pledges_net :: "'x operator_state \<Rightarrow> bool" where
  "pledges_net s \<longleftrightarrow> (\<forall>i k. collateral_contracts s i = Some k \<longrightarrow>
     collateral_net k = collateral_amount k - collateral_amount k div 10
     \<and> (collateral_status k = Locked \<longleftrightarrow> \<not> pledged s i))"

definition credits_secured :: "'x operator_state \<Rightarrow> bool" where
  "credits_secured s \<longleftrightarrow> (\<forall>j c. credit_contracts s j = Some c \<longrightarrow>
     (\<exists>k. collateral_contracts s (collateral_id c) = Some k \<and> pledge_backs k c))"

definition pledged_once :: "'x operator_state \<Rightarrow> bool" where
  "pledged_once s \<longleftrightarrow> (\<forall>i j c d. credit_contracts s i = Some c \<longrightarrow> credit_contracts s j = Some d \<longrightarrow>
     collateral_id c = collateral_id d \<longrightarrow> i = j)"

definition books_ok :: "'x operator_state \<Rightarrow> bool" where
  "books_ok s \<longleftrightarrow> pledges_below s \<and> pledges_net s \<and> credits_secured s \<and> pledged_once s"

lemmas books_defs = books_ok_def pledges_below_def pledges_net_def credits_secured_def pledged_once_def

lemma books_cong:
  assumes "books_ok s" "collateral_contracts t = collateral_contracts s" "credit_contracts t = credit_contracts s"
    "next_collateral_id t = next_collateral_id s" "next_credit_id t = next_credit_id s"
  shows "books_ok t"
  using assms pledged_same[OF assms(3)] by (simp add: books_defs)

text \<open>A credit changes in place, with its collateral released when it is repaid.\<close>

lemma books_revise:
  assumes "books_ok s" and c: "credit_contracts s i = Some c"
    and t: "credit_contracts t = (credit_contracts s)(i \<mapsto> d)"
      "next_collateral_id t = next_collateral_id s" "next_credit_id t = next_credit_id s"
    and d: "collateral_id d = collateral_id c"
    and k: "\<And>k. collateral_contracts s (collateral_id c) = Some k \<Longrightarrow> pledge_backs k c \<Longrightarrow>
        \<exists>st. st \<noteq> Locked \<and> pledge_backs (k\<lparr>collateral_status := st\<rparr>) d
          \<and> collateral_contracts t = (collateral_contracts s)(collateral_id c \<mapsto> k\<lparr>collateral_status := st\<rparr>)"
  shows "books_ok t"
proof -
  obtain k0 where k0: "collateral_contracts s (collateral_id c) = Some k0" "pledge_backs k0 c"
    using assms(1) c unfolding books_defs by blast
  obtain st where st: "st \<noteq> Locked" "pledge_backs (k0\<lparr>collateral_status := st\<rparr>) d"
      "collateral_contracts t = (collateral_contracts s)(collateral_id c \<mapsto> k0\<lparr>collateral_status := st\<rparr>)"
    using k[OF k0] by blast
  have "collateral_status k0 \<noteq> Locked" using k0(2) by (auto simp: pledge_backs_def)
  have "pledges_below t" using assms(1) c k0 by (auto simp: books_defs t st)
  moreover have "pledges_net t" using assms(1) c k0 st(1) \<open>collateral_status k0 \<noteq> Locked\<close> d
      pledged_revise[OF c t(1) d] by (auto simp: books_ok_def pledges_net_def st(3))
  moreover have "pledged_once t" using assms(1) c d
    unfolding pledged_once_def books_ok_def by (simp add: t) metis
  moreover have "credits_secured t"
    unfolding credits_secured_def
  proof (intro allI impI)
    fix j e assume e: "credit_contracts t j = Some e"
    show "\<exists>k. collateral_contracts t (collateral_id e) = Some k \<and> pledge_backs k e"
    proof (cases "j = i")
      case True
      with e t d st show ?thesis by auto
    next
      case False
      with e have s: "credit_contracts s j = Some e" by (simp add: t)
      then have "collateral_id e \<noteq> collateral_id c" using False assms(1) c unfolding books_defs by blast
      with s assms(1) show ?thesis by (auto simp: st(3) books_defs)
    qed
  qed
  ultimately show ?thesis by (simp add: books_ok_def)
qed

lemma paid_down_backs:
  assumes "pledge_backs k c" "credit_status c = Outstanding"
  shows "pledge_backs k (paid_down cfg env v c)"
    "paid_off (paid_down cfg env v c) \<Longrightarrow>
       pledge_backs (k\<lparr>collateral_status := Released\<rparr>) ((paid_down cfg env v c)\<lparr>credit_status := Repaid\<rparr>)"
  using assms by (auto simp: pledge_backs_def paid_off_def)

lemma same_status: "k\<lparr>collateral_status := collateral_status k\<rparr> = k" for k :: collateral_contract
  by simp

lemma books_step:
  assumes "books_ok s" "operator_dispatch cfg (env, og, c) s = Ok t" "ids_last t"
  shows "books_ok t"
proof (cases c)
  case (LockCollateral v k)
  with assms(2) have "lock_collateral cfg env og v k s = Ok t" by simp
  then show ?thesis
  proof (elim lock_Ok)
    fix a
    let ?i = "next_collateral_id s"
    assume t: "collateral_contracts t = (collateral_contracts s)(?i \<mapsto>
       \<lparr>pledger = a, asset_type = k, collateral_amount = v, bank_fee = v div 10, collateral_net = v - v div 10,
        pledged_at = saturated_block env, collateral_status = Locked, credit_requested = False\<rparr>)"
      "next_collateral_id t = sat_add 32 ?i 1" "credit_contracts t = credit_contracts s" "next_credit_id t = next_credit_id s"
    have i: "next_collateral_id t = Suc ?i"
      using assms(3) t(2) sat_add_below[of 32 ?i 1] by (simp add: ids_last_def)
    have new: "collateral_contracts s ?i = None" using assms(1) unfolding books_defs by blast
    have unused: "credit_contracts s j = Some d \<Longrightarrow> collateral_id d \<noteq> ?i" for j d
      using assms(1) new unfolding books_ok_def credits_secured_def by fastforce
    then have "\<not> pledged s ?i" by (auto simp: pledged_def)
    then show ?thesis
      using assms(1) unused pledged_same[OF t(3)] unfolding books_defs t(1,3,4) i by (auto simp: less_Suc_eq)
  qed
next
  case (RequestCredit i)
  with assms(2) have "request_credit og i s = Ok t" by simp
  then show ?thesis
  proof (elim request_Ok)
    fix col
    assume t: "collateral_contracts s i = Some col" "collateral_status col = Locked"
      "collateral_contracts t = (collateral_contracts s)(i \<mapsto> col\<lparr>credit_requested := True\<rparr>)"
      "next_collateral_id t = next_collateral_id s" "credit_contracts t = credit_contracts s"
      "next_credit_id t = next_credit_id s"
    have free: "\<not> pledged s i" using assms(1) t(1,2) unfolding books_ok_def pledges_net_def by blast
    then have unused: "credit_contracts s j = Some d \<Longrightarrow> collateral_id d \<noteq> i" for j d by (auto simp: pledged_def)
    show ?thesis
      using assms(1) t(1,2) free unused pledged_same[OF t(5)] unfolding books_defs t(3-6) by auto
  qed
next
  case (IssueCredit i)
  with assms(2) have "issue_credit cfg env og i s = Ok t" by simp
  then show ?thesis
  proof (elim issue_Ok)
    fix col d
    let ?j = "next_credit_id s"
    assume col: "collateral_contracts s i = Some col" "collateral_status col = Locked" "credit_requested col"
      and d: "d = \<lparr>debtor = pledger col, collateral_id = i, credit_amount = sat_mul 128 (collateral_net col) 9,
       outstanding = sat_mul 128 (collateral_net col) 9, accrued_interest = 0, issued_at = block_or_zero env,
       last_interest_block = block_or_zero env, tier = score_tier (score_record s (pledger col)),
       credit_status = Outstanding\<rparr>"
      and t: "collateral_contracts t = (collateral_contracts s)(i \<mapsto> col\<lparr>collateral_status := Backing\<rparr>)"
      "next_collateral_id t = next_collateral_id s"
      "credit_contracts t = (credit_contracts s)(?j \<mapsto> d)" "next_credit_id t = sat_add 32 ?j 1"
    have j: "next_credit_id t = Suc ?j"
      using assms(3) t(4) sat_add_below[of 32 ?j 1] by (simp add: ids_last_def)
    have new: "credit_contracts s ?j = None" using assms(1) unfolding books_defs by blast
    have free: "\<not> pledged s i" using assms(1) col(1,2) unfolding books_ok_def pledges_net_def by blast
    then have unused: "credit_contracts s j = Some e \<Longrightarrow> collateral_id e \<noteq> i" for j e by (auto simp: pledged_def)
    have di: "collateral_id d = i" "pledge_backs (col\<lparr>collateral_status := Backing\<rparr>) d"
      using col by (simp_all add: d pledge_backs_def)
    have "pledges_below t" using assms(1) col unfolding books_defs t(1-3) j by (auto simp: less_Suc_eq)
    moreover have "pledged_once t" using assms(1) unused di(1) unfolding books_ok_def pledged_once_def t(3)
      by (auto split: if_splits dest: unused)
    moreover have "credits_secured t"
      using assms(1) unused di unfolding books_ok_def credits_secured_def t(1,3) by auto
    moreover have "pledges_net t"
      using assms(1) col di(1) pledged_new[OF new t(3)] unfolding books_ok_def pledges_net_def t(1) by auto
    ultimately show ?thesis by (simp add: books_ok_def)
  qed
next
  case (AccrueInterest i)
  with assms(2) have "accrue_interest cfg env og i s = Ok t" by simp
  then show ?thesis
  proof (elim accrue_Ok)
    fix d
    assume d: "credit_contracts s i = Some d" "credit_status d = Outstanding"
      and t: "if 0 < calculate_accrued_interest cfg env d
        then credit_contracts t = (credit_contracts s)(i \<mapsto> accrue_now cfg env d)
        else credit_contracts t = credit_contracts s"
        "collateral_contracts t = collateral_contracts s" "next_collateral_id t = next_collateral_id s"
        "next_credit_id t = next_credit_id s"
    show ?thesis
    proof (cases "0 < calculate_accrued_interest cfg env d")
      case True
      show ?thesis
      proof (rule books_revise[OF assms(1) d(1)])
        fix k assume k: "collateral_contracts s (collateral_id d) = Some k" "pledge_backs k d"
        then have "collateral_status k \<noteq> Locked" "pledge_backs k (accrue_now cfg env d)"
          using d(2) by (auto simp: pledge_backs_def)
        then show "\<exists>st. st \<noteq> Locked \<and> pledge_backs (k\<lparr>collateral_status := st\<rparr>) (accrue_now cfg env d)
          \<and> collateral_contracts t = (collateral_contracts s)(collateral_id d \<mapsto> k\<lparr>collateral_status := st\<rparr>)"
          using k(1) t(2) by (intro exI[of _ "collateral_status k"]) auto
      qed (use True t in simp_all)
    qed (use t books_cong[OF assms(1)] in simp)
  qed
next
  case (RepayCredit i v)
  with assms(2) have "repay_credit cfg env og i v s = Ok t" by simp
  then show ?thesis
  proof (elim repay_Ok)
    fix d :: credit_contract and y z col b
    let ?e = "paid_down cfg env v d"
    assume d: "credit_contracts s i = Some d" "credit_status d = Outstanding"
      and t: "if paid_off ?e
       then collateral_contracts s (collateral_id d) = Some col
         \<and> transfer (operator_currency cfg) y b (debtor d) (collateral_net col) KeepAlive = Ok z
         \<and> credit_contracts t = (credit_contracts s)(i \<mapsto> ?e\<lparr>credit_status := Repaid\<rparr>)
         \<and> collateral_contracts t = (collateral_contracts s)(collateral_id d \<mapsto> col\<lparr>collateral_status := Released\<rparr>)
       else z = y \<and> credit_contracts t = (credit_contracts s)(i \<mapsto> ?e)
         \<and> collateral_contracts t = collateral_contracts s"
        "next_collateral_id t = next_collateral_id s" "next_credit_id t = next_credit_id s"
    show ?thesis
    proof (rule books_revise[OF assms(1) d(1), where d = "if paid_off ?e then ?e\<lparr>credit_status := Repaid\<rparr> else ?e"])
      fix k assume k: "collateral_contracts s (collateral_id d) = Some k" "pledge_backs k d"
      have "collateral_status k \<noteq> Locked" using k(2) by (auto simp: pledge_backs_def)
      then show "\<exists>st. st \<noteq> Locked
          \<and> pledge_backs (k\<lparr>collateral_status := st\<rparr>) (if paid_off ?e then ?e\<lparr>credit_status := Repaid\<rparr> else ?e)
          \<and> collateral_contracts t = (collateral_contracts s)(collateral_id d \<mapsto> k\<lparr>collateral_status := st\<rparr>)"
        using k(1) t(1) paid_down_backs[OF k(2) d(2), of cfg env v]
        by (intro exI[of _ "if paid_off ?e then Released else collateral_status k"]) auto
    qed (use t in auto)
  qed
next
  case (DeclareDefault i)
  with assms(2) have "declare_default og i s = Ok t" by simp
  then show ?thesis
  proof (elim default_Ok)
    fix d
    assume d: "credit_contracts s i = Some d" "credit_status d = Outstanding"
      and t: "credit_contracts t = (credit_contracts s)(i \<mapsto> d\<lparr>credit_status := Defaulted\<rparr>)"
        "collateral_contracts t = collateral_contracts s" "next_collateral_id t = next_collateral_id s"
        "next_credit_id t = next_credit_id s"
    show ?thesis
    proof (rule books_revise[OF assms(1) d(1) t(1,3,4)])
      fix k assume k: "collateral_contracts s (collateral_id d) = Some k" "pledge_backs k d"
      then have "collateral_status k \<noteq> Locked" "pledge_backs k (d\<lparr>credit_status := Defaulted\<rparr>)"
        using d(2) by (auto simp: pledge_backs_def)
      then show "\<exists>st. st \<noteq> Locked \<and> pledge_backs (k\<lparr>collateral_status := st\<rparr>) (d\<lparr>credit_status := Defaulted\<rparr>)
          \<and> collateral_contracts t = (collateral_contracts s)(collateral_id d \<mapsto> k\<lparr>collateral_status := st\<rparr>)"
        using k(1) t(2) by (intro exI[of _ "collateral_status k"]) auto
    qed simp
  qed
qed (use assms(2) in \<open>auto simp: set_bank_account_def assess_rwa_def request_account_freeze_def ok_simps
    intro: books_cong[OF assms(1)]\<close>)

section \<open>Totals and scores\<close>

text \<open>A figure of every credit contract, as a total map.\<close>

definition amounts :: "(credit_contract \<Rightarrow> balance) \<Rightarrow> 'x operator_state \<Rightarrow> nat \<Rightarrow> balance" where
  "amounts f s j = (case credit_contracts s j of None \<Rightarrow> 0 | Some c \<Rightarrow> f c)"

definition sums_ok :: "'x operator_state \<Rightarrow> bool" where
  "sums_ok s \<longleftrightarrow> finsupp (amounts credit_amount s) \<and> finsupp (amounts outstanding s)
     \<and> (tsum (amounts credit_amount s) \<le> umax 128 \<longrightarrow> total_credit_outstanding s = tsum (amounts outstanding s))"

definition scores_ok :: "'x operator_state \<Rightarrow> bool" where
  "scores_ok s \<longleftrightarrow> (\<forall>a r. credit_scores s a = Some r \<longrightarrow> 300 \<le> score r \<and> score r \<le> 850)"

lemma amounts_upd:
  "credit_contracts t = (credit_contracts s)(j \<mapsto> d) \<Longrightarrow> amounts f t = (amounts f s)(j := f d)"
  by (auto simp: amounts_def)

lemma amounts_same: "credit_contracts t = credit_contracts s \<Longrightarrow> amounts f t = amounts f s"
  by (auto simp: amounts_def)

lemma sums_cong:
  assumes "sums_ok s" "credit_contracts t = credit_contracts s" "total_credit_outstanding t = total_credit_outstanding s"
  shows "sums_ok t"
  using assms(1,3) by (simp add: sums_ok_def amounts_same[OF assms(2)])

lemma outstanding_within:
  assumes "books_ok s"
  shows "amounts outstanding s j \<le> amounts credit_amount s j"
proof (cases "credit_contracts s j")
  case (Some c)
  then show ?thesis using assms by (auto simp: amounts_def books_ok_def credits_secured_def pledge_backs_def)
qed (simp add: amounts_def)

lemma tsum_le:
  assumes "finsupp g" "finsupp f" "\<And>k. f k \<le> g k"
  shows "tsum f \<le> tsum g"
proof -
  let ?A = "{k. f k \<noteq> 0} \<union> {k. g k \<noteq> 0}"
  have A: "finite ?A" using assms(1,2) by (simp add: finsupp_def)
  have "tsum f = sum f ?A" "tsum g = sum g ?A" by (rule tsum_superset[OF A]; auto)+
  with assms(3) show ?thesis by (simp add: sum_mono)
qed

lemma sums_revise:
  assumes "sums_ok s" and c: "credit_contracts s j = Some c"
    and t: "credit_contracts t = (credit_contracts s)(j \<mapsto> d)"
      "total_credit_outstanding t = total_credit_outstanding s - (outstanding c - outstanding d)"
    and d: "credit_amount d = credit_amount c" "outstanding d \<le> outstanding c"
  shows "sums_ok t"
proof -
  have f: "finsupp (amounts credit_amount s)" "finsupp (amounts outstanding s)" using assms(1) by (auto simp: sums_ok_def)
  have "amounts credit_amount s j = credit_amount c" "amounts outstanding s j = outstanding c"
    using c by (simp_all add: amounts_def)
  then have "amounts credit_amount t = amounts credit_amount s"
      "tsum (amounts outstanding t) = tsum (amounts outstanding s) - (outstanding c - outstanding d)"
    using d tsum_mono_upd[OF f(2), of "outstanding d" j]
    by (simp_all add: amounts_upd[OF t(1)] fun_upd_idem)
  moreover have "finsupp (amounts outstanding t)" using f(2) by (simp add: amounts_upd[OF t(1)])
  ultimately show ?thesis using assms(1) t(2) by (simp add: sums_ok_def)
qed

lemma sums_grant:
  assumes "sums_ok s" "books_ok s" and j: "credit_contracts s j = None"
    and t: "credit_contracts t = (credit_contracts s)(j \<mapsto> d)"
      "total_credit_outstanding t = sat_add 128 (total_credit_outstanding s) (credit_amount d)"
    and d: "outstanding d = credit_amount d"
  shows "sums_ok t"
proof -
  have f: "finsupp (amounts credit_amount s)" "finsupp (amounts outstanding s)" using assms(1) by (auto simp: sums_ok_def)
  have z: "amounts credit_amount s j = 0" "amounts outstanding s j = 0" using j by (simp_all add: amounts_def)
  have new: "tsum (amounts credit_amount t) = tsum (amounts credit_amount s) + credit_amount d"
      "tsum (amounts outstanding t) = tsum (amounts outstanding s) + credit_amount d"
    using tsum_upd_zero[OF f(1) z(1)] tsum_upd_zero[OF f(2) z(2)] amounts_upd[OF t(1)] d by simp_all
  have "tsum (amounts outstanding s) \<le> tsum (amounts credit_amount s)"
    by (rule tsum_le[OF f]) (rule outstanding_within[OF assms(2)])
  with assms(1) new t(2) show ?thesis
    using f by (auto simp: sums_ok_def amounts_upd[OF t(1)] sat_add_exact)
qed

lemma sums_step:
  assumes "sums_ok s" "books_ok s" "operator_dispatch cfg (env, og, c) s = Ok t"
  shows "sums_ok t"
proof (cases c)
  case (LockCollateral v k)
  with assms(3) have "lock_collateral cfg env og v k s = Ok t" by simp
  then show ?thesis by (elim lock_Ok) (rule sums_cong[OF assms(1)])
next
  case (RequestCredit i)
  with assms(3) have "request_credit og i s = Ok t" by simp
  then show ?thesis by (elim request_Ok) (rule sums_cong[OF assms(1)])
next
  case (IssueCredit i)
  have "credit_contracts s (next_credit_id s) = None" using assms(2) unfolding books_defs by blast
  moreover from IssueCredit assms(3) have "issue_credit cfg env og i s = Ok t" by simp
  ultimately show ?thesis
  proof (elim issue_Ok)
    fix col d
    assume j: "credit_contracts s (next_credit_id s) = None"
      and d: "d = \<lparr>debtor = pledger col, collateral_id = i, credit_amount = sat_mul 128 (collateral_net col) 9,
       outstanding = sat_mul 128 (collateral_net col) 9, accrued_interest = 0, issued_at = block_or_zero env,
       last_interest_block = block_or_zero env, tier = score_tier (score_record s (pledger col)),
       credit_status = Outstanding\<rparr>"
      and t: "credit_contracts t = (credit_contracts s)(next_credit_id s \<mapsto> d)"
        "total_credit_outstanding t = sat_add 128 (total_credit_outstanding s) (credit_amount d)"
    show ?thesis by (rule sums_grant[OF assms(1,2) j t]) (simp add: d)
  qed
next
  case (AccrueInterest i)
  with assms(3) have "accrue_interest cfg env og i s = Ok t" by simp
  then show ?thesis
  proof (elim accrue_Ok)
    fix d
    assume d: "credit_contracts s i = Some d"
      and t: "if 0 < calculate_accrued_interest cfg env d
        then credit_contracts t = (credit_contracts s)(i \<mapsto> accrue_now cfg env d)
        else credit_contracts t = credit_contracts s" "total_credit_outstanding t = total_credit_outstanding s"
    show ?thesis
      using t sums_cong[OF assms(1)] sums_revise[OF assms(1) d, of t "accrue_now cfg env d"]
      by (cases "0 < calculate_accrued_interest cfg env d") simp_all
  qed
next
  case (RepayCredit i v)
  with assms(3) have "repay_credit cfg env og i v s = Ok t" by simp
  then show ?thesis
  proof (elim repay_Ok)
    fix d :: credit_contract and y z col b
    let ?e = "paid_down cfg env v d"
    assume d: "credit_contracts s i = Some d"
      and t: "if paid_off ?e
       then collateral_contracts s (collateral_id d) = Some col
         \<and> transfer (operator_currency cfg) y b (debtor d) (collateral_net col) KeepAlive = Ok z
         \<and> credit_contracts t = (credit_contracts s)(i \<mapsto> ?e\<lparr>credit_status := Repaid\<rparr>)
         \<and> collateral_contracts t = (collateral_contracts s)(collateral_id d \<mapsto> col\<lparr>collateral_status := Released\<rparr>)
       else z = y \<and> credit_contracts t = (credit_contracts s)(i \<mapsto> ?e)
         \<and> collateral_contracts t = collateral_contracts s"
        "total_credit_outstanding t = total_credit_outstanding s - paid_principal cfg env v d"
    have p: "paid_principal cfg env v d \<le> outstanding d" by (simp add: paid_principal_def)
    show ?thesis
      by (rule sums_revise[OF assms(1) d, where d = "if paid_off ?e then ?e\<lparr>credit_status := Repaid\<rparr> else ?e"])
        (use t p in auto)
  qed
next
  case (DeclareDefault i)
  with assms(3) have "declare_default og i s = Ok t" by simp
  then show ?thesis
  proof (elim default_Ok)
    fix d
    assume d: "credit_contracts s i = Some d"
      and t: "credit_contracts t = (credit_contracts s)(i \<mapsto> d\<lparr>credit_status := Defaulted\<rparr>)"
        "total_credit_outstanding t = total_credit_outstanding s"
    show ?thesis by (rule sums_revise[OF assms(1) d t(1)]) (simp_all add: t(2))
  qed
qed (use assms(3) in \<open>auto simp: set_bank_account_def assess_rwa_def request_account_freeze_def ok_simps
    intro: sums_cong[OF assms(1)]\<close>)

lemma score_record_range:
  assumes "scores_ok s"
  shows "300 \<le> score (score_record s a)" "score (score_record s a) \<le> 850"
  using assms by (auto simp: score_record_def scores_ok_def new_default_def split: option.split)

lemma score_changes:
  assumes "300 \<le> score r" "score r \<le> 850"
  shows "300 \<le> score (apply_full_repayment r) \<and> score (apply_full_repayment r) \<le> 850"
    "300 \<le> score (apply_partial_repayment r) \<and> score (apply_partial_repayment r) \<le> 850"
    "300 \<le> score (apply_default r) \<and> score (apply_default r) \<le> 850"
  using assms by (auto simp: apply_full_repayment_def apply_partial_repayment_def apply_default_def sat_add_def umax_def sat_sub_def)

lemma scores_step:
  assumes "scores_ok s" "operator_dispatch cfg (env, og, c) s = Ok t"
  shows "scores_ok t"
proof -
  have range: "300 \<le> score (score_record s a) \<and> score (score_record s a) \<le> 850" for a
    using score_record_range[OF assms(1)] by simp
  note changes = score_changes[OF conjunct1[OF range] conjunct2[OF range]]
  have reward: "credit_scores (reward_score a f v s) b = Some r \<Longrightarrow> 300 \<le> score r \<and> score r \<le> 850" for a b f v r
    using assms(1) changes range by (auto simp: reward_score_def Let_def scores_ok_def split: if_splits)
  show ?thesis
  proof (cases c)
    case (LockCollateral v k)
    with assms(2) have "lock_collateral cfg env og v k s = Ok t" by simp
    then show ?thesis using assms(1) by (elim lock_Ok) (simp add: scores_ok_def)
  next
    case (RequestCredit i)
    with assms(2) have "request_credit og i s = Ok t" by simp
    then show ?thesis using assms(1) by (elim request_Ok) (simp add: scores_ok_def)
  next
    case (IssueCredit i)
    with assms(2) have "issue_credit cfg env og i s = Ok t" by simp
    then show ?thesis using assms(1) by (elim issue_Ok) (auto simp: scores_ok_def new_default_def split: if_splits)
  next
    case (AccrueInterest i)
    with assms(2) have "accrue_interest cfg env og i s = Ok t" by simp
    then show ?thesis using assms(1) by (elim accrue_Ok) (simp add: scores_ok_def)
  next
    case (RepayCredit i v)
    with assms(2) have "repay_credit cfg env og i v s = Ok t" by simp
    then show ?thesis using reward by (elim repay_Ok) (simp add: scores_ok_def)
  next
    case (DeclareDefault i)
    with assms(2) have "declare_default og i s = Ok t" by simp
    then show ?thesis using assms(1) changes(3) by (elim default_Ok) (auto simp: scores_ok_def split: if_splits)
  qed (use assms in \<open>auto simp: set_bank_account_def assess_rwa_def request_account_freeze_def ok_simps scores_ok_def\<close>)
qed

section \<open>The pallet as a machine\<close>

definition operator_ok :: "'x operator_state \<Rightarrow> bool" where
  "operator_ok s \<longleftrightarrow> scores_ok s \<and> (ids_last s \<longrightarrow> books_ok s \<and> sums_ok s)"

lemma next_ids:
  assumes "operator_dispatch cfg (env, og, c) s = Ok t"
  shows "next_collateral_id t = next_collateral_id s \<or> next_collateral_id t = sat_add 32 (next_collateral_id s) 1"
    "next_credit_id t = next_credit_id s \<or> next_credit_id t = sat_add 32 (next_credit_id s) 1"
  using assms
  by (cases c; auto simp: set_bank_account_def assess_rwa_def request_account_freeze_def ok_simps
      elim: lock_Ok request_Ok issue_Ok accrue_Ok repay_Ok default_Ok)+

lemma ids_last_back:
  assumes "operator_dispatch cfg (env, og, c) s = Ok t" "ids_last t"
  shows "ids_last s"
  using next_ids[OF assms(1)] assms(2) by (auto simp: ids_last_def sat_add_def)

interpretation lender: pallet_machine "operator_dispatch cfg" operator_foreign operator_ok for cfg :: "'x operator_config"
proof
  fix s t :: "'x operator_state" and c
  assume ok: "operator_ok s" and step: "operator_dispatch cfg c s = Ok t"
  obtain env og k where c: "c = (env, og, k)" by (cases c)
  show "operator_ok t"
    using ok scores_step[OF _ step[unfolded c]] books_step[OF _ step[unfolded c]] sums_step[OF _ _ step[unfolded c]]
      ids_last_back[OF step[unfolded c]] by (auto simp: operator_ok_def)
next
  fix s t :: "'x operator_state"
  assume "operator_ok s" "operator_foreign s t"
  then show "operator_ok t"
    using books_cong[of s t] sums_cong[of s t]
    by (auto simp: operator_foreign_def operator_ok_def scores_ok_def ids_last_def)
qed

lemma operator_start_ok: "operator_ok (operator_start x)"
proof -
  have "amounts f (operator_start x) = (\<lambda>_. 0)" for f by (simp add: amounts_def operator_start_def fun_eq_iff)
  then have "sums_ok (operator_start x)" by (simp add: sums_ok_def operator_start_def)
  then show ?thesis by (simp add: operator_ok_def scores_ok_def books_defs operator_start_def)
qed

lemma operator_reachable_ok:
  "reachable (operator_dispatch cfg) operator_foreign (operator_start x) s \<Longrightarrow> operator_ok s"
  by (rule lender.reachable_inv[OF _ operator_start_ok])

text \<open>A step that cannot store a credit over another one; a credit leaves \<open>Outstanding\<close> once.\<close>

definition credit_step :: "'x operator_config \<Rightarrow> 'x operator_state \<Rightarrow> 'x operator_state \<Rightarrow> bool" where
  "credit_step cfg s t \<longleftrightarrow> (\<exists>c. operator_dispatch cfg c s = Ok t) \<and> credit_contracts s (next_credit_id s) = None
     \<or> operator_foreign s t"

definition credit_edge :: "credit_status \<Rightarrow> credit_status \<Rightarrow> bool" where
  "credit_edge a b \<longleftrightarrow> a = Outstanding \<and> b \<in> {Repaid, Defaulted}"

lemma credit_status_step:
  assumes "operator_dispatch cfg (env, og, c) s = Ok t" "credit_contracts s (next_credit_id s) = None"
    and d: "credit_contracts s j = Some d"
  shows "\<exists>e. credit_contracts t j = Some e \<and> (credit_status d \<noteq> Outstanding \<longrightarrow> e = d)
    \<and> (credit_status e = credit_status d \<or> credit_edge (credit_status d) (credit_status e))"
proof (cases c)
  case (IssueCredit i)
  with assms(1) have "issue_credit cfg env og i s = Ok t" by simp
  then show ?thesis using assms(2) d by (elim issue_Ok) auto
next
  case (AccrueInterest i)
  with assms(1) have "accrue_interest cfg env og i s = Ok t" by simp
  then show ?thesis using d by (elim accrue_Ok) (auto split: if_splits)
next
  case (RepayCredit i v)
  with assms(1) have "repay_credit cfg env og i v s = Ok t" by simp
  then show ?thesis using d by (elim repay_Ok) (auto split: if_splits simp: credit_edge_def)
next
  case (DeclareDefault i)
  with assms(1) have "declare_default og i s = Ok t" by simp
  then show ?thesis using d by (elim default_Ok) (auto simp: credit_edge_def)
qed (use assms(1) d in \<open>auto simp: set_bank_account_def assess_rwa_def request_account_freeze_def ok_simps
    elim: lock_Ok request_Ok\<close>)

interpretation credits: lifecycle "\<lambda>s j. map_option credit_status (credit_contracts s j)" credit_edge "credit_step cfg"
  for cfg :: "'x operator_config"
proof
  fix s t :: "'x operator_state" and j a
  assume st: "credit_step cfg s t" and a: "map_option credit_status (credit_contracts s j) = Some a"
    and change: "map_option credit_status (credit_contracts t j) \<noteq> Some a"
  obtain d where d: "credit_contracts s j = Some d" "credit_status d = a" using a by auto
  consider env og k where "operator_dispatch cfg (env, og, k) s = Ok t" "credit_contracts s (next_credit_id s) = None"
    | "operator_foreign s t" using st unfolding credit_step_def by auto
  then show "\<exists>b. map_option credit_status (credit_contracts t j) = Some b \<and> credit_edge a b"
  proof cases
    case 1
    from credit_status_step[OF this d(1)] d change show ?thesis by auto
  next
    case 2
    with a change show ?thesis by (auto simp: operator_foreign_def)
  qed
qed

end
