(* ===== verification/Bank_Operator_Claims.thy ===== *)
theory Bank_Operator_Claims
  imports Bank_Operator Inheritance
begin

text \<open>
  Properties of the bank operator: what backs a credit, what default means, what interest comes to, and what the estate of
  a debtor owes through \<^verbatim>\<open>BankDebtBridge\<close> of \<^verbatim>\<open>runtime/src/configs/mod.rs\<close>.
\<close>

section \<open>Collateral and totals\<close>

text \<open>C21: In every state the pallet reaches from empty storage while identifiers last, each credit is nine times the net of a
  collateral its debtor pledged and asked a credit for, no two credits share a collateral, what is outstanding never
  exceeds what was granted, the collateral is released exactly with a repaid credit, on which nothing is owed, and the
  published total is what is outstanding over all credits, as long as their grants fit \<open>u128\<close>.\<close>

theorem credits_are_secured:
  assumes "reachable (operator_dispatch cfg) operator_foreign (operator_start x) s" "ids_last s"
  shows "(\<forall>j c. credit_contracts s j = Some c \<longrightarrow> (\<exists>k. collateral_contracts s (collateral_id c) = Some k
        \<and> pledger k = debtor c \<and> credit_requested k
        \<and> credit_amount c = sat_mul 128 (collateral_amount k - collateral_amount k div 10) 9
        \<and> outstanding c \<le> credit_amount c
        \<and> collateral_status k = (if credit_status c = Repaid then Released else Backing)
        \<and> (credit_status c = Repaid \<longrightarrow> outstanding c = 0 \<and> accrued_interest c = 0)))
    \<and> (\<forall>i j c d. credit_contracts s i = Some c \<and> credit_contracts s j = Some d \<and> collateral_id c = collateral_id d \<longrightarrow> i = j)
    \<and> (tsum (amounts credit_amount s) \<le> umax 128 \<longrightarrow> total_credit_outstanding s = tsum (amounts outstanding s))"
proof -
  have ok: "books_ok s" "sums_ok s" using operator_reachable_ok[OF assms(1)] assms(2) by (auto simp: operator_ok_def)
  have "\<exists>k. collateral_contracts s (collateral_id c) = Some k
        \<and> pledger k = debtor c \<and> credit_requested k
        \<and> credit_amount c = sat_mul 128 (collateral_amount k - collateral_amount k div 10) 9
        \<and> outstanding c \<le> credit_amount c
        \<and> collateral_status k = (if credit_status c = Repaid then Released else Backing)
        \<and> (credit_status c = Repaid \<longrightarrow> outstanding c = 0 \<and> accrued_interest c = 0)"
    if c: "credit_contracts s j = Some c" for j c
  proof -
    obtain k where k: "collateral_contracts s (collateral_id c) = Some k" "pledge_backs k c"
      using ok(1) c unfolding books_ok_def credits_secured_def by blast
    then have "collateral_net k = collateral_amount k - collateral_amount k div 10"
      using ok(1) unfolding books_ok_def pledges_net_def by blast
    with k show ?thesis by (auto simp: pledge_backs_def paid_off_def)
  qed
  then show ?thesis using ok unfolding books_ok_def pledged_once_def sums_ok_def by blast
qed

text \<open>Default is final. Once a credit is declared in default, no call of anyone ever changes it again: it cannot be
  repaid, its collateral stays neither released nor sold, and the published total carries its principal for ever.\<close>

theorem default_is_final:
  assumes "reachable (operator_dispatch cfg) operator_foreign (operator_start x) s"
    and d: "credit_contracts s j = Some d" "credit_status d = Defaulted"
    and "reachable (operator_dispatch cfg) operator_foreign s t" and last: "ids_last t"
  shows "credit_contracts t j = Some d
    \<and> (\<exists>k. collateral_contracts t (collateral_id d) = Some k \<and> collateral_status k = Backing)
    \<and> (tsum (amounts credit_amount t) \<le> umax 128 \<longrightarrow> outstanding d \<le> total_credit_outstanding t)"
proof -
  have "operator_ok t \<and> (ids_last t \<longrightarrow> credit_contracts t j = Some d)"
    using assms(4)
  proof (induction rule: reachable.induct)
    case start
    then show ?case using operator_reachable_ok[OF assms(1)] d by simp
  next
    case (call u c v)
    obtain env og k where c: "c = (env, og, k)" by (cases c)
    have "operator_ok v" using lender.dispatch_inv call by blast
    moreover have "credit_contracts v j = Some d" if v: "ids_last v"
    proof -
      have u: "ids_last u" using ids_last_back[OF call.hyps(2)[unfolded c] v] .
      then have "credit_contracts u (next_credit_id u) = None"
        using call.IH unfolding operator_ok_def books_defs by blast
      from credit_status_step[OF call.hyps(2)[unfolded c] this, of j d] call.IH u d(2) show ?thesis by auto
    qed
    ultimately show ?case by blast
  next
    case (other u v)
    then show ?case using lender.foreign_inv[of u v] by (auto simp: operator_foreign_def ids_last_def)
  qed
  with last have t: "credit_contracts t j = Some d" "books_ok t" "sums_ok t" by (auto simp: operator_ok_def)
  obtain k where "collateral_contracts t (collateral_id d) = Some k" "pledge_backs k d"
    using t unfolding books_ok_def credits_secured_def by blast
  moreover have "outstanding d \<le> tsum (amounts outstanding t)"
    using tsum_member[of "amounts outstanding t" j] t by (simp add: sums_ok_def amounts_def)
  ultimately show ?thesis using t d(2) by (auto simp: pledge_backs_def sums_ok_def)
qed

section \<open>Scores and interest\<close>

text \<open>The bands of the constitution: the tier of a score, its rate by the year and by the day, in basis points.\<close>

definition band :: "nat \<Rightarrow> credit_tier \<times> nat \<times> nat" where
  "band n = (if 750 \<le> n then (Excellent, 0, 0) else if 700 \<le> n then (Good, 300, 1)
     else if 650 \<le> n then (Fair, 700, 2) else if 600 \<le> n then (BelowFair, 1000, 3) else (Poor, 1500, 5))"

lemma daily_rates:
  "daily_rate_bps Excellent = 0" "daily_rate_bps Good = 1" "daily_rate_bps Fair = 2" "daily_rate_bps BelowFair = 3"
  "daily_rate_bps Poor = 5"
  by (simp_all add: daily_rate_bps_def sat_add_def umax_def)

lemma interest_exact:
  assumes "0 < interest_period_blocks cfg"
    and "outstanding c * daily_rate_bps (tier c)
           * ((block_or_zero env - last_interest_block c) div interest_period_blocks cfg) \<le> umax 128"
  shows "calculate_accrued_interest cfg env c = outstanding c * daily_rate_bps (tier c)
    * ((block_or_zero env - last_interest_block c) div interest_period_blocks cfg) div 10000"
proof -
  let ?e = "block_or_zero env - last_interest_block c" and ?p = "interest_period_blocks cfg"
  have small: "outstanding c * daily_rate_bps (tier c) \<le> umax 128" if "?p \<le> ?e"
  proof -
    have "1 \<le> ?e div ?p" using that assms(1) by (simp add: Suc_le_eq div_greater_zero_iff)
    then have "outstanding c * daily_rate_bps (tier c) \<le> outstanding c * daily_rate_bps (tier c) * (?e div ?p)" by simp
    with assms(2) show ?thesis by linarith
  qed
  show ?thesis
  proof (cases "?e < ?p")
    case False
    then show ?thesis
      using small assms by (simp add: calculate_accrued_interest_def Let_def sat_sub_def sat_mul_def)
  qed (simp add: calculate_accrued_interest_def Let_def sat_sub_def)
qed

text \<open>C22: A credit score is a number from 300 to 850 in every reachable state, and each tier is exactly its band: from
  750 no interest, from 700 three percent a year, from 650 seven, from 600 ten, below that fifteen (by the day 0, 1,
  2, 3 and 5 basis points). A credit that is issued is priced at the band of its debtor's score: it bears that tier,
  and for every whole period since the last accrual its interest is the daily rate of that band on the outstanding
  principal, rounded down, as long as the product fits \<open>u128\<close>.\<close>

theorem scores_in_range:
  assumes "reachable (operator_dispatch cfg) operator_foreign (operator_start x) s"
  shows "300 \<le> score (score_record s a) \<and> score (score_record s a) \<le> 850
    \<and> (score_tier (score_record s a), annual_rate_bps (score_tier (score_record s a)),
         daily_rate_bps (score_tier (score_record s a))) = band (score (score_record s a))
    \<and> (\<forall>env og i t. issue_credit cfg env og i s = Ok t \<longrightarrow>
         (\<exists>col c. collateral_contracts s i = Some col \<and> credit_contracts t (next_credit_id s) = Some c
           \<and> debtor c = pledger col \<and> accrued_interest c = 0 \<and> last_interest_block c = block_or_zero env
           \<and> tier c = fst (band (score (score_record s (pledger col))))
           \<and> (\<forall>later days. 0 < interest_period_blocks cfg
                \<longrightarrow> days = (block_or_zero later - block_or_zero env) div interest_period_blocks cfg
                \<longrightarrow> outstanding c * snd (snd (band (score (score_record s (pledger col))))) * days \<le> umax 128
                \<longrightarrow> calculate_accrued_interest cfg later c
                     = outstanding c * snd (snd (band (score (score_record s (pledger col))))) * days div 10000)))"
proof -
  have "scores_ok s" using operator_reachable_ok[OF assms] by (simp add: operator_ok_def)
  note range = score_record_range[OF this]
  have priced: "(score_tier (score_record s b), annual_rate_bps (score_tier (score_record s b)),
      daily_rate_bps (score_tier (score_record s b))) = band (score (score_record s b))" for b
    using range[of b] by (auto simp: score_tier_def tier_from_score_def band_def daily_rates)
  have tier: "fst (band (score (score_record s b))) = score_tier (score_record s b)"
    "snd (snd (band (score (score_record s b)))) = daily_rate_bps (score_tier (score_record s b))" for b
    unfolding priced[of b, symmetric] by simp_all
  have "\<exists>col c. collateral_contracts s i = Some col \<and> credit_contracts t (next_credit_id s) = Some c
      \<and> debtor c = pledger col \<and> accrued_interest c = 0 \<and> last_interest_block c = block_or_zero env
      \<and> tier c = score_tier (score_record s (pledger col))" if "issue_credit cfg env og i s = Ok t" for env og i t
    using that by (rule issue_Ok) auto
  then show ?thesis
    unfolding tier using range[of a] priced[of a] interest_exact[of cfg] by fastforce
qed

text \<open>Payments of one citizen on one credit, each in its block, and all of them accepted.\<close>

fun repayments ::
  "'x operator_config \<Rightarrow> account \<Rightarrow> nat \<Rightarrow> (env \<times> balance) list \<Rightarrow> 'x operator_state \<Rightarrow> ('x operator_state, operator_failure) result" where
  "repayments cfg a i [] s = Ok s"
| "repayments cfg a i ((env, v) # ps) s =
     and_then (operator_dispatch cfg (env, Signed a, RepayCredit i v) s) (repayments cfg a i ps)"

text \<open>Less than a period passes from one to the next.\<close>

fun prompt :: "nat \<Rightarrow> nat \<Rightarrow> (env \<times> balance) list \<Rightarrow> bool" where
  "prompt period since [] \<longleftrightarrow> True"
| "prompt period since ((env, v) # ps) \<longleftrightarrow>
     block_or_zero env - since < period \<and> prompt period (block_or_zero env) ps"

lemma prompt_payment:
  assumes cur: "currency_ok (operator_currency cfg)"
    and c: "credit_contracts s i = Some c" "accrued_interest c = 0" "credit_status c = Outstanding"
    and early: "block_or_zero env - last_interest_block c < interest_period_blocks cfg"
    and v: "v < outstanding c" and sc: "score (score_record s a) \<le> 850"
    and step: "repay_credit cfg env (Signed a) i v s = Ok t"
  shows "(\<exists>d. credit_contracts t i = Some d \<and> accrued_interest d = 0 \<and> credit_status d = Outstanding
        \<and> last_interest_block d = block_or_zero env \<and> outstanding d = outstanding c - v)
    \<and> score (score_record t a) = min 850 (score (score_record s a) + 5)
    \<and> total_issuance (operator_currency cfg) (operator_ledger t) + v = total_issuance (operator_currency cfg) (operator_ledger s)"
proof -
  have "calculate_accrued_interest cfg env c = 0" using early by (simp add: calculate_accrued_interest_def Let_def sat_sub_def)
  then have acc: "accrued_interest (accrue_now cfg env c) = 0" by (simp add: accrue_now_def c sat_add_def)
  then have paid: "paid_interest cfg env v c = 0" "paid_principal cfg env v c = v"
    using v by (simp_all add: paid_interest_def paid_principal_def)
  let ?d = "paid_down cfg env v c"
  have d: "accrued_interest ?d = 0" "outstanding ?d = outstanding c - v" "credit_status ?d = Outstanding"
    "last_interest_block ?d = block_or_zero env" using acc paid c(3) by (simp_all add: paid_down_def)
  have open_: "\<not> paid_off ?d" using d(2) v by (simp add: paid_off_def)
  from step show ?thesis
  proof (elim repay_Ok)
    fix c' :: credit_contract and b x y z col
    assume c': "credit_contracts s i = Some c'" and a: "Signed a = Signed (debtor c')" and "0 < v"
      and x: "if paid_interest cfg env v c' = 0 then x = operator_ledger s
        else transfer (operator_currency cfg) (operator_ledger s) (debtor c') b (paid_interest cfg env v c') KeepAlive = Ok x"
      and y: "if paid_principal cfg env v c' = 0 then y = x
        else withdraw (operator_currency cfg) x (debtor c') (paid_principal cfg env v c') KeepAlive = Ok y"
      and t: "if paid_off (paid_down cfg env v c')
       then collateral_contracts s (collateral_id c') = Some col
         \<and> transfer (operator_currency cfg) y b (debtor c') (collateral_net col) KeepAlive = Ok z
         \<and> credit_contracts t = (credit_contracts s)(i \<mapsto> (paid_down cfg env v c')\<lparr>credit_status := Repaid\<rparr>)
         \<and> collateral_contracts t = (collateral_contracts s)(collateral_id c' \<mapsto> col\<lparr>collateral_status := Released\<rparr>)
       else z = y \<and> credit_contracts t = (credit_contracts s)(i \<mapsto> paid_down cfg env v c')
         \<and> collateral_contracts t = collateral_contracts s"
      and w: "operator_ledger t = z"
      and sct: "credit_scores t = credit_scores (reward_score (debtor c') (paid_off (paid_down cfg env v c'))
         (paid_principal cfg env v c') s)"
    have eq: "c' = c" "debtor c = a" using c' c(1) a by auto
    have "withdraw (operator_currency cfg) (operator_ledger s) a v KeepAlive = Ok (operator_ledger t)"
      using x y t w paid open_ \<open>0 < v\<close> unfolding eq by simp
    moreover have "credit_contracts t i = Some ?d" using t open_ unfolding eq by simp
    moreover have "score (score_record t a) = min 850 (score (score_record s a) + 5)"
      using sct open_ \<open>0 < v\<close> paid sc unfolding eq
      by (auto simp: score_record_def reward_score_def Let_def apply_partial_repayment_def sat_add_def umax_def
          split: option.splits)
    ultimately show ?thesis using d withdraw_keepD(2)[OF cur] by blast
  qed
qed

text \<open>C23: Who pays often pays no interest. If less than a period passes from the issue to the first payment and from each
  payment to the next, then however long it goes on and whatever the tier, every planck paid is burnt as principal, no
  interest accrues, and each payment, be it of one planck, raises the score by five up to 850.\<close>

theorem frequent_payments_bear_no_interest:
  assumes "currency_ok (operator_currency cfg)"
    and "reachable (operator_dispatch cfg) operator_foreign (operator_start x) s"
    and "credit_contracts s i = Some c" "credit_status c = Outstanding" "accrued_interest c = 0"
    and "prompt (interest_period_blocks cfg) (last_interest_block c) ps"
    and "sum_list (map snd ps) < outstanding c"
    and "repayments cfg a i ps s = Ok t"
  shows "(\<exists>d. credit_contracts t i = Some d \<and> accrued_interest d = 0 \<and> outstanding d + sum_list (map snd ps) = outstanding c)
    \<and> total_issuance (operator_currency cfg) (operator_ledger t) + sum_list (map snd ps)
        = total_issuance (operator_currency cfg) (operator_ledger s)
    \<and> score (score_record t a) = min 850 (score (score_record s a) + 5 * length ps)"
  using assms(2-)
proof (induction ps arbitrary: s c)
  case Nil
  have "scores_ok s" using operator_reachable_ok[OF Nil.prems(1)] by (simp add: operator_ok_def)
  with Nil show ?case using score_record_range(2)[of s a] by auto
next
  case (Cons p ps)
  obtain env v where p: "p = (env, v)" by fastforce
  have "scores_ok s" using operator_reachable_ok[OF Cons.prems(1)] by (simp add: operator_ok_def)
  then have sc: "score (score_record s a) \<le> 850" by (rule score_record_range)
  obtain u where u: "repay_credit cfg env (Signed a) i v s = Ok u" "repayments cfg a i ps u = Ok t"
    using Cons.prems(7) p by (auto simp: ok_simps)
  have early: "block_or_zero env - last_interest_block c < interest_period_blocks cfg" "v < outstanding c"
    using Cons.prems(5,6) p by simp_all
  note one = prompt_payment[OF assms(1) Cons.prems(2,4,3) early sc u(1)]
  then obtain d where d: "credit_contracts u i = Some d" "accrued_interest d = 0" "credit_status d = Outstanding"
      "last_interest_block d = block_or_zero env" "outstanding d = outstanding c - v" by blast
  have "operator_dispatch cfg (env, Signed a, RepayCredit i v) s = Ok u" using u(1) by simp
  have left: "sum_list (map snd ps) < outstanding d" "prompt (interest_period_blocks cfg) (last_interest_block d) ps"
    using d(4,5) Cons.prems(5,6) p by simp_all
  obtain e where "credit_contracts t i = Some e" "accrued_interest e = 0"
      "outstanding e + sum_list (map snd ps) = outstanding d"
      and "total_issuance (operator_currency cfg) (operator_ledger t) + sum_list (map snd ps)
        = total_issuance (operator_currency cfg) (operator_ledger u)"
      "score (score_record t a) = min 850 (score (score_record u a) + 5 * length ps)"
    using Cons.IH[OF reachable.call[OF Cons.prems(1) \<open>operator_dispatch cfg _ s = Ok u\<close>] d(1,3,2) left(2,1) u(2)] by blast
  with one d(5) early(2) p show ?case by auto
qed

section \<open>The debts of an estate\<close>

text \<open>\<open>BankDebtBridge\<close>: the loop over all identifiers handed out.\<close>

definition bridge_debt :: "'x operator_state \<Rightarrow> account \<Rightarrow> balance" where
  "bridge_debt s who =
     fold (\<lambda>i debt. case credit_contracts s i of None \<Rightarrow> debt
        | Some c \<Rightarrow> if debtor c = who \<and> credit_status c = Outstanding then sat_add 128 debt (outstanding c) else debt)
       [0..<next_credit_id s] 0"

lemma bridge_for: "bridge_debt s who = total_outstanding_debt_for [0..<next_credit_id s] s who"
  by (simp add: bridge_debt_def total_outstanding_debt_for_def)

lemma debt_fold:
  "n \<le> umax 128 \<Longrightarrow>
   fold (\<lambda>i debt. case credit_contracts s i of None \<Rightarrow> debt
        | Some c \<Rightarrow> if debtor c = who \<and> credit_status c = Outstanding then sat_add 128 debt (outstanding c) else debt) ids n
     = min (umax 128) (n + (\<Sum>i\<leftarrow>ids. owes who (credit_contracts s i)))"
proof (induction ids arbitrary: n)
  case (Cons i ids)
  have *: "(case credit_contracts s i of None \<Rightarrow> n
        | Some c \<Rightarrow> if debtor c = who \<and> credit_status c = Outstanding then sat_add 128 n (outstanding c) else n)
      = min (umax 128) (n + owes who (credit_contracts s i))"
    using Cons.prems by (auto simp: owes_def sat_add_def split: option.split)
  have "min (umax 128) (n + owes who (credit_contracts s i)) \<le> umax 128" by simp
  from Cons.IH[OF this] show ?case by (simp add: * add.assoc)
qed simp

lemma debt_sum:
  assumes "distinct ids"
  shows "total_outstanding_debt_for ids s who = min (umax 128) (\<Sum>i\<in>set ids. owes who (credit_contracts s i))"
  unfolding total_outstanding_debt_for_def using debt_fold[where n = 0 and s = s and who = who and ids = ids] assms
  by (simp add: sum_list_distinct_conv_sum_set)

text \<open>The bridge of the runtime and the query of the pallet agree: in every reachable state, counting over all
  identifiers handed out gives what iterating over the storage gives, whatever the order of iteration, and it is the
  sum over the credits that are not in default and not repaid, saturated at \<open>u128\<close>.\<close>

theorem bridge_is_query:
  assumes "reachable (operator_dispatch cfg) operator_foreign (operator_start x) s" "ids_last s"
    and ids: "distinct ids" "set ids = dom (credit_contracts s)"
  shows "bridge_debt s a = total_outstanding_debt_for ids s a
    \<and> bridge_debt s a = min (umax 128) (\<Sum>i\<in>dom (credit_contracts s). owes a (credit_contracts s i))"
proof -
  have "books_ok s" using operator_reachable_ok[OF assms(1)] assms(2) by (simp add: operator_ok_def)
  then have "dom (credit_contracts s) \<subseteq> {0..<next_credit_id s}" by (auto simp: books_defs)
  then have "(\<Sum>i\<in>{0..<next_credit_id s}. owes a (credit_contracts s i)) = (\<Sum>i\<in>dom (credit_contracts s). owes a (credit_contracts s i))"
    by (intro sum.mono_neutral_right) (auto simp: owes_def domIff)
  then show ?thesis using debt_sum[OF ids(1), of s a] debt_sum[of "[0..<next_credit_id s]" s a] ids(2) by (simp add: bridge_for)
qed

text \<open>Default spares the estate. While the one credit of a citizen is outstanding the execution of the will burns it from
  the estate first; declared in default it counts for nothing, and the same estate goes to the heirs whole.\<close>

theorem default_spares_the_estate:
  assumes "reachable (operator_dispatch cfg) operator_foreign (operator_start x) s" "ids_last s"
    and c: "credit_contracts s i = Some c" "debtor c = a" "outstanding c \<le> umax 128"
    and only: "\<And>j d. credit_contracts s j = Some d \<Longrightarrow> debtor d = a \<Longrightarrow> credit_status d = Outstanding \<Longrightarrow> j = i"
    and t: "declare_default og i s = Ok t"
    and bridge: "total_outstanding_debt wcfg = (\<lambda>x. bridge_debt (bank x))"
    and before: "bank (estate_ledger w) = s" and after: "bank (estate_ledger v) = t"
  shows "fst (settle_debt wcfg a estate w) = estate - min (outstanding c) estate \<and> settle_debt wcfg a estate v = (estate, v)"
proof -
  have books: "books_ok s" using operator_reachable_ok[OF assms(1)] assms(2) by (simp add: operator_ok_def)
  from t obtain c' where "credit_contracts s i = Some c'" "credit_status c' = Outstanding"
      and ct: "credit_contracts t = (credit_contracts s)(i \<mapsto> c'\<lparr>credit_status := Defaulted\<rparr>)"
      and nt: "next_credit_id t = next_credit_id s"
    by (elim default_Ok) blast
  then have st: "credit_status c = Outstanding" and eq: "c' = c" using c(1) by simp_all
  have i: "i < next_credit_id s" using books c(1) by (auto simp: books_defs)
  have other: "owes a (credit_contracts s j) = 0" if "j \<noteq> i" for j
    using only that by (auto simp: owes_def split: option.split)
  then have "(\<Sum>j\<in>{0..<next_credit_id s}. owes a (credit_contracts s j)) = owes a (credit_contracts s i)"
    using i by (subst sum.remove[of _ i]) auto
  then have s: "bridge_debt s a = outstanding c"
    using debt_sum[of "[0..<next_credit_id s]" s a] c st by (simp add: bridge_for owes_def)
  have "owes a (credit_contracts t j) = 0" for j using other[of j] by (simp add: ct owes_def eq)
  then have "bridge_debt t a = 0" using debt_sum[of "[0..<next_credit_id t]" t a] by (simp add: bridge_for)
  with s show ?thesis by (simp add: settle_debt_def bridge before after sat_sub_def Let_def)
qed

section \<open>Witnesses\<close>

definition toy_operator :: "book operator_config" where
  "toy_operator = \<lparr>operator_currency = book_base 1, reserve_multiplier = 9, interest_period_blocks = 10\<rparr>"

definition at_block :: "nat \<Rightarrow> env" where
  "at_block n = \<lparr>block_number = n, extrinsic_index = None\<rparr>"

definition toy_deposits :: book where
  "toy_deposits = \<lparr>bal = (\<lambda>_. 0)(11 := 200, 60 := 5), issued = 205, lock_of = (\<lambda>_ _. None)\<rparr>"

definition toy_lent :: "book operator_state" where
  "toy_lent = run (operator_dispatch toy_operator)
     [(at_block 0, Root, SetBankAccount 60), (at_block 0, Signed 11, LockCollateral 100 AltanCoin),
      (at_block 0, Signed 11, RequestCredit 0), (at_block 0, Root, IssueCredit 0)] (operator_start toy_deposits)"

definition toy_credit :: credit_contract where
  "toy_credit = \<lparr>debtor = 11, collateral_id = 0, credit_amount = 810, outstanding = 810, accrued_interest = 0,
     issued_at = 0, last_interest_block = 0, tier = Fair, credit_status = Outstanding\<rparr>"

lemma toy_operator_sel [simp]:
  "operator_currency toy_operator = book_base 1" "reserve_multiplier toy_operator = 9"
  "interest_period_blocks toy_operator = 10"
  by (simp_all add: toy_operator_def)

lemma block_or_zero_at [simp]: "n \<le> umax 32 \<Longrightarrow> block_or_zero (at_block n) = n"
  by (simp add: block_or_zero_def at_block_def)

lemma toy_lent_reachable: "reachable (operator_dispatch toy_operator) operator_foreign (operator_start toy_deposits) toy_lent"
  unfolding toy_lent_def by (rule reachable_run[OF reachable.start])

lemma toy_lent_eval:
  "credit_contracts toy_lent = [0 \<mapsto> toy_credit]" "next_credit_id toy_lent = 1" "next_collateral_id toy_lent = 1"
  "bank_special_account toy_lent = Some 60" "credit_scores toy_lent = [11 \<mapsto> new_default]"
  "bal (operator_ledger toy_lent) = (\<lambda>_. 0)(11 := 910, 60 := 105)" "issued (operator_ledger toy_lent) = 1015"
  "total_credit_outstanding toy_lent = 810"
  by (simp_all add: toy_lent_def execute_def set_bank_account_def lock_collateral_def request_credit_def issue_credit_def
      operator_start_def toy_deposits_def book_defs umax_def sat_sub_def sat_mul_def sat_add_def Let_def score_record_def
      new_default_def score_tier_def tier_from_score_def toy_credit_def fun_eq_iff)

lemma toy_lent_last: "ids_last toy_lent"
  by (simp add: ids_last_def toy_lent_eval umax_def)

lemma toy_lent_amounts: "amounts f toy_lent = (\<lambda>_. 0)(0 := f toy_credit)"
  by (auto simp: amounts_def toy_lent_eval)

lemma credits_are_secured_witness:
  "total_credit_outstanding toy_lent = tsum (amounts outstanding toy_lent)
    \<and> (\<exists>k. collateral_contracts toy_lent 0 = Some k \<and> collateral_status k = Backing \<and> pledger k = 11)"
proof -
  note * = credits_are_secured[OF toy_lent_reachable toy_lent_last]
  have "tsum (amounts credit_amount toy_lent) \<le> umax 128"
    by (simp add: toy_lent_amounts tsum_upd_zero) (simp add: toy_credit_def umax_def)
  moreover have "credit_contracts toy_lent 0 = Some toy_credit" by (simp add: toy_lent_eval)
  ultimately show ?thesis
    using conjunct2[OF conjunct2[OF *]] conjunct1[OF *, rule_format, of 0 toy_credit] by (auto simp: toy_credit_def)
qed

definition toy_default :: "book operator_state" where
  "toy_default = execute (operator_dispatch toy_operator) (at_block 5, Root, DeclareDefault 0) toy_lent"

lemma toy_default_Ok: "declare_default Root 0 toy_lent = Ok toy_default"
  by (simp add: toy_default_def execute_def declare_default_def toy_lent_eval toy_credit_def Let_def)

lemma toy_default_eval:
  "credit_contracts toy_default 0 = Some (toy_credit\<lparr>credit_status := Defaulted\<rparr>)"
  "next_credit_id toy_default = 1" "next_collateral_id toy_default = 1"
  by (simp_all add: toy_default_def execute_def declare_default_def toy_lent_eval toy_credit_def Let_def)

lemma default_is_final_witness:
  "credit_contracts (execute (operator_dispatch toy_operator) (at_block 6, Signed 11, RepayCredit 0 810) toy_default) 0
     = Some (toy_credit\<lparr>credit_status := Defaulted\<rparr>)"
proof -
  let ?t = "execute (operator_dispatch toy_operator) (at_block 6, Signed 11, RepayCredit 0 810) toy_default"
  have s: "reachable (operator_dispatch toy_operator) operator_foreign (operator_start toy_deposits) toy_default"
    unfolding toy_default_def by (rule reachable_execute[OF toy_lent_reachable])
  have t: "reachable (operator_dispatch toy_operator) operator_foreign toy_default ?t"
    by (rule reachable_execute[OF reachable.start])
  have "repay_credit toy_operator (at_block 6) (Signed 11) 0 810 toy_default = Err (Module CreditNotActive)"
    by (simp add: repay_credit_def toy_default_eval toy_credit_def)
  then have "ids_last ?t" by (simp add: execute_def ids_last_def toy_default_eval umax_def)
  from default_is_final[OF s toy_default_eval(1) _ t this] show ?thesis by simp
qed

text \<open>A new citizen has 650 points: seven percent, two basis points a day.\<close>

lemma scores_in_range_witness:
  "score (score_record toy_lent 11) \<le> 850 \<and> score_tier (score_record toy_lent 11) = Fair
    \<and> annual_rate_bps (score_tier (score_record toy_lent 11)) = 700"
proof -
  have "band (score (score_record toy_lent 11)) = (Fair, 700, 2)"
    by (simp add: score_record_def toy_lent_eval new_default_def band_def)
  then show ?thesis using scores_in_range[OF toy_lent_reachable, of 11] by auto
qed

lemma frequent_payments_bear_no_interest_witness:
  "\<exists>t. repayments toy_operator 11 0 [(at_block 9, 1), (at_block 18, 2)] toy_lent = Ok t
     \<and> score (score_record t 11) = 660 \<and> issued (operator_ledger t) + 3 = 1015"
proof -
  let ?ps = "[(at_block 9, 1), (at_block 18, 2)]"
  obtain t where t: "repayments toy_operator 11 0 ?ps toy_lent = Ok t"
    by (simp add: repay_credit_def pay_interest_def burn_principal_def accrue_now_def calculate_accrued_interest_def
        reward_score_def score_record_def toy_lent_eval toy_credit_def sat_sub_def sat_add_def umax_def Let_def
        book_defs daily_rate_bps_def apply_partial_repayment_def new_default_def)
  have "currency_ok (operator_currency toy_operator)" by (simp add: book_currency_ok)
  from frequent_payments_bear_no_interest[OF this toy_lent_reachable _ _ _ _ _ t, of toy_credit] t
  show ?thesis
    by (simp add: toy_lent_eval) (simp add: toy_credit_def umax_def score_record_def[of toy_lent] toy_lent_eval
        new_default_def book_base_def)
qed

lemma bridge_is_query_witness: "bridge_debt toy_lent 11 = total_outstanding_debt_for [0] toy_lent 11"
  using bridge_is_query[OF toy_lent_reachable toy_lent_last, of "[0]" 11] by (simp add: toy_lent_eval)

definition toy_bequest :: "book operator_state will_config" where
  "toy_bequest = \<lparr>will_currency = \<lparr>total_issuance = (\<lambda>s. issued (operator_ledger s)),
       free_balance = (\<lambda>s. bal (operator_ledger s)), deposit_creating = (\<lambda>s _ _. s), withdraw = (\<lambda>s _ _ _. Err 0),
       transfer = (\<lambda>s _ _ _ _. Err 0), reserved_balance = (\<lambda>_ _. 1000), reserve_funds = (\<lambda>s _ _. Ok s),
       unreserve = (\<lambda>s _ _. s), slash_reserved = (\<lambda>s _ _. s)\<rparr>,
     is_valid_notary = (\<lambda>_ _. True), is_deceased = (\<lambda>_ _. True), total_outstanding_debt = bridge_debt,
     state_treasury = 50, max_heirs = 3\<rparr>"

lemma default_spares_the_estate_witness:
  "fst (settle_debt toy_bequest 11 1000 \<lparr>estate_ledger = toy_lent, active_wills = Map.empty, will_events = []\<rparr>) = 190
    \<and> fst (settle_debt toy_bequest 11 1000 \<lparr>estate_ledger = toy_default, active_wills = Map.empty, will_events = []\<rparr>) = 1000"
proof -
  have c: "credit_contracts toy_lent 0 = Some toy_credit" by (simp add: toy_lent_eval)
  have only: "credit_contracts toy_lent j = Some d \<Longrightarrow> j = 0" for j d by (simp add: toy_lent_eval split: if_splits)
  have "total_outstanding_debt toy_bequest = (\<lambda>x. bridge_debt (id x))" by (simp add: toy_bequest_def)
  from default_spares_the_estate[OF toy_lent_reachable toy_lent_last c _ _ _ toy_default_Ok this,
      where a = 11 and estate = 1000
      and w = "\<lparr>estate_ledger = toy_lent, active_wills = Map.empty, will_events = []\<rparr>"
      and v = "\<lparr>estate_ledger = toy_default, active_wills = Map.empty, will_events = []\<rparr>"] only
  show ?thesis by (simp add: toy_credit_def umax_def)
qed

end
