(* ===== verification/Guilds.thy ===== *)
theory Guilds
  imports Reservable Pallet_Interfaces
begin

text \<open>
  \<^verbatim>\<open>pallets/guilds/src/lib.rs\<close>, first part: guilds and their members, the councils a relayer keeps, quests with their
  escrow, and achievements.

  \<open>'x\<close> is the ledger. Strings and CIDs are byte lists; a \<open>BoundedVec\<close> fails to be built beyond its bound. The derivation
  of a treasury account from a \<open>PalletId\<close> and the order in which a storage map is iterated are parameters.
\<close>

section \<open>Data\<close>

datatype member_role = Apprentice | Professional | Master

datatype quest_status = Open | InProgress | Review | Completed | Cancelled

datatype union_level = GuildArbad | GuildZun | GuildMyangad | GuildTumed

fun next_union_level :: "union_level \<Rightarrow> union_level option" where
  "next_union_level GuildArbad = Some GuildZun"
| "next_union_level GuildZun = Some GuildMyangad"
| "next_union_level GuildMyangad = Some GuildTumed"
| "next_union_level GuildTumed = None"

record guild =
  founder :: account
  guild_name :: "byte list"
  industry_tag :: "byte list"
  description_hash :: "byte list option"
  region_tag :: nat
  quest_count :: nat
  member_count :: nat

record guild_union =
  union_level :: union_level
  founder_guild :: nat
  grandmaster :: account
  member_guild_count :: nat
  union_tag :: "byte list"
  election_votes_for :: nat
  election_votes_cast :: nat

record achievement =
  issuing_guild :: nat
  issuer :: account
  achievement_title :: "byte list"
  required_quests :: nat
  ipfs_proof :: "byte list"

record quest =
  quest_guild :: nat
  employer :: account
  reward :: balance
  quest_status :: quest_status
  assignee :: "account option"
  quest_description :: "byte list"
  assignee_quest_count :: nat

record guild_record =
  master :: account
  members :: "account list"
  treasury :: account
  council :: "account list"

datatype council_verdict = Voting | Passed | Rejected

record guild_proposal =
  proposal_guild :: h256
  proposer :: account
  votes_for :: nat
  votes_against :: nat
  verdict :: council_verdict

datatype guild_event =
    GuildCreated nat account "byte list" "byte list" nat
  | GuildInstantiated h256 account account
  | MemberJoined nat account
  | MemberPromoted nat account member_role
  | AchievementIssued nat nat account account "byte list"
  | QuestPublished nat nat account balance
  | QuestAssigned nat account
  | QuestSubmittedForReview nat
  | QuestCompleted nat account balance
  | QuestCancelled nat
  | AcademySubscriptionPurchased account account balance
  | GuildUnionFormed nat union_level account "byte list" nat
  | GuildUnionElevated nat union_level account
  | GrandmasterVoteCast nat nat account
  | GrandmasterElected nat account
  | GrandmasterElectionReset nat
  | AcademicianGranted account "byte list"
  | CouncilUpdated h256 nat
  | ProposalCreated h256 h256 account
  | ProposalVoteCast h256 account bool nat nat
  | ProposalPassed h256 h256 nat
  | ProposalRejected h256 h256 nat

datatype guild_error =
    GuildNotFound
  | GuildUuidAlreadyExists
  | MustHaveExactlyNineFounders
  | AlreadyMember
  | NotMember
  | NotMaster
  | AchievementNotFound
  | AlreadyHoldsAchievement
  | InsufficientQuestCount
  | QuestNotFound
  | InvalidQuestStatus
  | NotEmployer
  | NotAssignee
  | NameTooLong
  | IndustryTagTooLong
  | CidTooLong
  | InsufficientBalance
  | CannotPromoteSelf
  | CannotAwardSelf
  | NotMasterForForceResolve
  | QuestNotInReview
  | GuildUnionNotFound
  | GuildAlreadyInUnion
  | NotGrandmaster
  | MaxUnionLevelReached
  | InvalidUnionLevelTransition
  | VoteAlreadyCast
  | GuildNotInUnion
  | AlreadyAcademician
  | InsufficientUnionMembers
  | NotACouncilMember
  | ProposalNotFound
  | AlreadyVoted
  | ProposalNotOpen
  | ProposalAlreadyExists

type_synonym guild_failure = "guild_error dispatch_error"

record 'x guild_state =
  guild_ledger :: 'x
  next_guild_id :: nat
  guilds :: "nat \<Rightarrow> guild option"
  guilds_by_uuid :: "h256 \<Rightarrow> guild_record option"
  guild_proposals :: "h256 \<Rightarrow> guild_proposal option"
  proposal_ballots :: "h256 \<Rightarrow> account set"
  guild_members :: "nat \<Rightarrow> account \<Rightarrow> member_role option"
  member_quest_count :: "nat \<Rightarrow> account \<Rightarrow> nat"
  next_achievement_id :: nat
  achievements :: "nat \<Rightarrow> achievement option"
  citizen_achievements :: "account \<Rightarrow> nat set"
  next_quest_id :: nat
  quests :: "nat \<Rightarrow> quest option"
  next_union_id :: nat
  guild_unions :: "nat \<Rightarrow> guild_union option"
  guild_union_of :: "nat \<Rightarrow> nat option"
  grandmaster_votes :: "nat \<Rightarrow> nat \<Rightarrow> account option"
  academy_members :: "account \<Rightarrow> byte list option"
  guild_events :: "guild_event list"

record 'x guild_config =
  guild_currency :: "'x reservable_currency"
  max_name_length :: nat
  max_ipfs_cid_length :: nat
  max_union_members :: nat
  guild_treasury :: "h256 \<Rightarrow> account"
  max_members :: nat
  max_council_members :: nat
  quest_order :: "(nat \<Rightarrow> quest option) \<Rightarrow> nat list"
  vote_order :: "(nat \<Rightarrow> account option) \<Rightarrow> nat list"

definition emit_guild :: "guild_event \<Rightarrow> 'x guild_state \<Rightarrow> 'x guild_state" where
  "emit_guild e s = s\<lparr>guild_events := guild_events s @ [e]\<rparr>"

lemma emit_guild_simps [simp]:
  "guild_ledger (emit_guild e s) = guild_ledger s" "next_guild_id (emit_guild e s) = next_guild_id s"
  "guilds (emit_guild e s) = guilds s" "guilds_by_uuid (emit_guild e s) = guilds_by_uuid s"
  "guild_proposals (emit_guild e s) = guild_proposals s" "proposal_ballots (emit_guild e s) = proposal_ballots s"
  "guild_members (emit_guild e s) = guild_members s" "member_quest_count (emit_guild e s) = member_quest_count s"
  "next_achievement_id (emit_guild e s) = next_achievement_id s" "achievements (emit_guild e s) = achievements s"
  "citizen_achievements (emit_guild e s) = citizen_achievements s" "next_quest_id (emit_guild e s) = next_quest_id s"
  "quests (emit_guild e s) = quests s" "next_union_id (emit_guild e s) = next_union_id s"
  "guild_unions (emit_guild e s) = guild_unions s" "guild_union_of (emit_guild e s) = guild_union_of s"
  "grandmaster_votes (emit_guild e s) = grandmaster_votes s" "academy_members (emit_guild e s) = academy_members s"
  by (simp_all add: emit_guild_def)

section \<open>Councils kept by a relayer\<close>

definition create_guild_from_relayer ::
  "'x guild_config \<Rightarrow> origin \<Rightarrow> h256 \<Rightarrow> account \<Rightarrow> account list \<Rightarrow> 'x guild_state \<Rightarrow> ('x guild_state, guild_failure) result" where
  "create_guild_from_relayer cfg og i m initial_members s =
     and_then (ensure_signed og) (\<lambda>_.
     ensure (length initial_members = 9) (Module MustHaveExactlyNineFounders) (
     ensure (guilds_by_uuid s i = None) (Module GuildUuidAlreadyExists) (
     ensure (length initial_members \<le> max_members cfg) (Module MustHaveExactlyNineFounders) (
     Ok (emit_guild (GuildInstantiated i m (guild_treasury cfg i))
          (s\<lparr>guilds_by_uuid := (guilds_by_uuid s)(i \<mapsto>
               \<lparr>master = m, members = initial_members, treasury = guild_treasury cfg i, council = []\<rparr>)\<rparr>))))))"

definition update_council_from_relayer ::
  "'x guild_config \<Rightarrow> origin \<Rightarrow> h256 \<Rightarrow> account list \<Rightarrow> 'x guild_state \<Rightarrow> ('x guild_state, guild_failure) result" where
  "update_council_from_relayer cfg og i new_council s =
     and_then (ensure_signed og) (\<lambda>_.
     ok_or (guilds_by_uuid s i) (Module GuildNotFound) (\<lambda>r.
     ensure (length new_council \<le> max_council_members cfg) (Module NameTooLong) (
     Ok (emit_guild (CouncilUpdated i (length new_council))
          (s\<lparr>guilds_by_uuid := (guilds_by_uuid s)(i \<mapsto> r\<lparr>council := new_council\<rparr>)\<rparr>)))))"

definition create_proposal_from_relayer ::
  "origin \<Rightarrow> h256 \<Rightarrow> h256 \<Rightarrow> account \<Rightarrow> 'x guild_state \<Rightarrow> ('x guild_state, guild_failure) result" where
  "create_proposal_from_relayer og i p who s =
     and_then (ensure_signed og) (\<lambda>_.
     ok_or (guilds_by_uuid s i) (Module GuildNotFound) (\<lambda>r.
     ensure (who \<in> set (council r)) (Module NotACouncilMember) (
     ensure (guild_proposals s p = None) (Module ProposalAlreadyExists) (
     Ok (emit_guild (ProposalCreated p i who)
          (s\<lparr>guild_proposals := (guild_proposals s)(p \<mapsto>
               \<lparr>proposal_guild = i, proposer = who, votes_for = 0, votes_against = 0, verdict = Voting\<rparr>)\<rparr>))))))"

text \<open>The threshold is half the council of the guild named in the call.\<close>

definition settle_proposal :: "h256 \<Rightarrow> nat \<Rightarrow> guild_proposal \<Rightarrow> 'x guild_state \<Rightarrow> 'x guild_state" where
  "settle_proposal p council_size q s =
     (let threshold = council_size div 2 in
      if votes_for q > threshold
      then emit_guild (ProposalPassed p (proposal_guild q) (votes_for q))
             (s\<lparr>guild_proposals := (guild_proposals s)(p \<mapsto> q\<lparr>verdict := Passed\<rparr>)\<rparr>)
      else if votes_against q > threshold
      then emit_guild (ProposalRejected p (proposal_guild q) (votes_against q))
             (s\<lparr>guild_proposals := (guild_proposals s)(p \<mapsto> q\<lparr>verdict := Rejected\<rparr>)\<rparr>)
      else s\<lparr>guild_proposals := (guild_proposals s)(p \<mapsto> q)\<rparr>)"

definition vote_proposal_from_relayer ::
  "origin \<Rightarrow> h256 \<Rightarrow> h256 \<Rightarrow> account \<Rightarrow> bool \<Rightarrow> 'x guild_state \<Rightarrow> ('x guild_state, guild_failure) result" where
  "vote_proposal_from_relayer og i p voter in_favor s =
     and_then (ensure_signed og) (\<lambda>_.
     ok_or (guilds_by_uuid s i) (Module GuildNotFound) (\<lambda>r.
     ensure (voter \<in> set (council r)) (Module NotACouncilMember) (
     ok_or (guild_proposals s p) (Module ProposalNotFound) (\<lambda>q.
     ensure (verdict q = Voting) (Module ProposalNotOpen) (
     ensure (voter \<notin> proposal_ballots s p) (Module AlreadyVoted) (
     let q' = (if in_favor then q\<lparr>votes_for := sat_add 32 (votes_for q) 1\<rparr>
               else q\<lparr>votes_against := sat_add 32 (votes_against q) 1\<rparr>)
     in Ok (settle_proposal p (length (council r)) q'
             (emit_guild (ProposalVoteCast p voter in_favor (votes_for q') (votes_against q'))
               (s\<lparr>proposal_ballots := (proposal_ballots s)(p := insert voter (proposal_ballots s p))\<rparr>)))))))))"

section \<open>Guilds and members\<close>

definition create_guild ::
  "'x guild_config \<Rightarrow> origin \<Rightarrow> byte list \<Rightarrow> byte list \<Rightarrow> byte list option \<Rightarrow> nat \<Rightarrow> 'x guild_state
   \<Rightarrow> ('x guild_state, guild_failure) result" where
  "create_guild cfg og nm tag cid region s =
     and_then (ensure_signed og) (\<lambda>caller.
     ensure (length nm \<le> max_name_length cfg) (Module NameTooLong) (
     ensure (length tag \<le> max_name_length cfg) (Module IndustryTagTooLong) (
     ensure (case cid of Some c \<Rightarrow> length c \<le> max_ipfs_cid_length cfg | None \<Rightarrow> True) (Module CidTooLong) (
     let i = next_guild_id s
     in Ok (emit_guild (GuildCreated i caller nm tag region)
          (s\<lparr>guilds := (guilds s)(i \<mapsto> \<lparr>founder = caller, guild_name = nm, industry_tag = tag, description_hash = cid,
               region_tag = region, quest_count = 0, member_count = 1\<rparr>),
             guild_members := (guild_members s)(i := (guild_members s i)(caller \<mapsto> Master)),
             next_guild_id := sat_add 32 i 1\<rparr>))))))"

definition join_guild :: "origin \<Rightarrow> nat \<Rightarrow> 'x guild_state \<Rightarrow> ('x guild_state, guild_failure) result" where
  "join_guild og i s =
     and_then (ensure_signed og) (\<lambda>caller.
     ok_or (guilds s i) (Module GuildNotFound) (\<lambda>g.
     ensure (guild_members s i caller = None) (Module AlreadyMember) (
     Ok (emit_guild (MemberJoined i caller)
          (s\<lparr>guild_members := (guild_members s)(i := (guild_members s i)(caller \<mapsto> Apprentice)),
             guilds := (guilds s)(i \<mapsto> g\<lparr>member_count := sat_add 32 (member_count g) 1\<rparr>)\<rparr>)))))"

text \<open>\<open>ensure_master\<close>, which the handlers also spell out.\<close>

definition ensure_master :: "account \<Rightarrow> nat \<Rightarrow> 'x guild_state \<Rightarrow> (unit, guild_failure) result" where
  "ensure_master caller i s =
     ensure (guilds s i \<noteq> None) (Module GuildNotFound) (
     ok_or (guild_members s i caller) (Module NotMember) (\<lambda>role.
     ensure (role = Master) (Module NotMaster) (Ok ())))"

definition promote_member ::
  "origin \<Rightarrow> nat \<Rightarrow> account \<Rightarrow> member_role \<Rightarrow> 'x guild_state \<Rightarrow> ('x guild_state, guild_failure) result" where
  "promote_member og i target new_role s =
     and_then (ensure_signed og) (\<lambda>caller.
     and_then (ensure_master caller i s) (\<lambda>_.
     ensure (caller \<noteq> target) (Module CannotPromoteSelf) (
     ensure (guild_members s i target \<noteq> None) (Module NotMember) (
     Ok (emit_guild (MemberPromoted i target new_role)
          (s\<lparr>guild_members := (guild_members s)(i := (guild_members s i)(target \<mapsto> new_role))\<rparr>))))))"

definition propose_achievement ::
  "'x guild_config \<Rightarrow> origin \<Rightarrow> nat \<Rightarrow> account \<Rightarrow> byte list \<Rightarrow> nat \<Rightarrow> byte list \<Rightarrow> 'x guild_state
   \<Rightarrow> ('x guild_state, guild_failure) result" where
  "propose_achievement cfg og i target title required proof_cid s =
     and_then (ensure_signed og) (\<lambda>caller.
     and_then (ensure_master caller i s) (\<lambda>_.
     ensure (caller \<noteq> target) (Module CannotAwardSelf) (
     ensure (guild_members s i target \<noteq> None) (Module NotMember) (
     ensure (required > 0 \<longrightarrow> member_quest_count s i target \<ge> required) (Module InsufficientQuestCount) (
     ensure (length title \<le> max_name_length cfg) (Module NameTooLong) (
     ensure (length proof_cid \<le> max_ipfs_cid_length cfg) (Module CidTooLong) (
     let a = next_achievement_id s
     in ensure (a \<notin> citizen_achievements s target) (Module AlreadyHoldsAchievement) (
        Ok (emit_guild (AchievementIssued a i target caller title)
          (s\<lparr>achievements := (achievements s)(a \<mapsto> \<lparr>issuing_guild = i, issuer = caller, achievement_title = title,
               required_quests = required, ipfs_proof = proof_cid\<rparr>),
             next_achievement_id := sat_add 32 a 1,
             citizen_achievements := (citizen_achievements s)(target := insert a (citizen_achievements s target))\<rparr>))))))))))"

section \<open>Quests\<close>

definition publish_quest ::
  "'x guild_config \<Rightarrow> origin \<Rightarrow> nat \<Rightarrow> balance \<Rightarrow> byte list \<Rightarrow> 'x guild_state \<Rightarrow> ('x guild_state, guild_failure) result" where
  "publish_quest cfg og i v cid s =
     and_then (ensure_signed og) (\<lambda>caller.
     ok_or (guilds s i) (Module GuildNotFound) (\<lambda>g.
     ensure (length cid \<le> max_ipfs_cid_length cfg) (Module CidTooLong) (
     and_then (map_err (\<lambda>_. Module InsufficientBalance) (reserve_funds (guild_currency cfg) (guild_ledger s) caller v)) (\<lambda>x.
     let q = next_quest_id s
     in Ok (emit_guild (QuestPublished q i caller v)
          (s\<lparr>guild_ledger := x,
             quests := (quests s)(q \<mapsto> \<lparr>quest_guild = i, employer = caller, reward = v, quest_status = Open,
               assignee = None, quest_description = cid, assignee_quest_count = 0\<rparr>),
             next_quest_id := sat_add 32 q 1,
             guilds := (guilds s)(i \<mapsto> g\<lparr>quest_count := sat_add 32 (quest_count g) 1\<rparr>)\<rparr>))))))"

definition assign_quest :: "origin \<Rightarrow> nat \<Rightarrow> 'x guild_state \<Rightarrow> ('x guild_state, guild_failure) result" where
  "assign_quest og i s =
     and_then (ensure_signed og) (\<lambda>caller.
     ok_or (quests s i) (Module QuestNotFound) (\<lambda>q.
     ensure (quest_status q = Open) (Module InvalidQuestStatus) (
     ensure (guild_members s (quest_guild q) caller \<noteq> None) (Module NotMember) (
     Ok (emit_guild (QuestAssigned i caller)
          (s\<lparr>quests := (quests s)(i \<mapsto> q\<lparr>quest_status := InProgress, assignee := Some caller\<rparr>)\<rparr>))))))"

definition submit_quest :: "origin \<Rightarrow> nat \<Rightarrow> 'x guild_state \<Rightarrow> ('x guild_state, guild_failure) result" where
  "submit_quest og i s =
     and_then (ensure_signed og) (\<lambda>caller.
     ok_or (quests s i) (Module QuestNotFound) (\<lambda>q.
     ensure (quest_status q = InProgress) (Module InvalidQuestStatus) (
     ensure (assignee q = Some caller) (Module NotAssignee) (
     Ok (emit_guild (QuestSubmittedForReview i)
          (s\<lparr>quests := (quests s)(i \<mapsto> q\<lparr>quest_status := Review\<rparr>)\<rparr>))))))"

text \<open>The reward is unreserved, up to what is reserved, and then transferred from the free balance.\<close>

definition release_reward ::
  "'x guild_config \<Rightarrow> quest \<Rightarrow> account \<Rightarrow> 'x \<Rightarrow> ('x, guild_failure) result" where
  "release_reward cfg q recipient x =
     map_err ThirdParty (transfer (guild_currency cfg) (unreserve (guild_currency cfg) x (employer q) (reward q))
       (employer q) recipient (reward q) KeepAlive)"

definition count_quest :: "nat \<Rightarrow> account \<Rightarrow> 'x guild_state \<Rightarrow> 'x guild_state" where
  "count_quest i a s = s\<lparr>member_quest_count :=
     (member_quest_count s)(i := (member_quest_count s i)(a := sat_add 32 (member_quest_count s i a) 1))\<rparr>"

definition complete_quest ::
  "'x guild_config \<Rightarrow> origin \<Rightarrow> nat \<Rightarrow> 'x guild_state \<Rightarrow> ('x guild_state, guild_failure) result" where
  "complete_quest cfg og i s =
     and_then (ensure_signed og) (\<lambda>caller.
     ok_or (quests s i) (Module QuestNotFound) (\<lambda>q.
     ensure (quest_status q = Review) (Module InvalidQuestStatus) (
     ok_or (guild_members s (quest_guild q) caller) (Module NotMember) (\<lambda>role.
     ensure (role = Master) (Module NotMaster) (
     ok_or (assignee q) (Module InvalidQuestStatus) (\<lambda>a.
     and_then (release_reward cfg q a (guild_ledger s)) (\<lambda>x.
     let s1 = count_quest (quest_guild q) a (s\<lparr>guild_ledger := x\<rparr>)
     in Ok (emit_guild (QuestCompleted i a (reward q))
          (s1\<lparr>quests := (quests s1)(i \<mapsto> q\<lparr>quest_status := Completed,
             assignee_quest_count := member_quest_count s1 (quest_guild q) a\<rparr>)\<rparr>)))))))))"

definition cancel_quest ::
  "'x guild_config \<Rightarrow> origin \<Rightarrow> nat \<Rightarrow> 'x guild_state \<Rightarrow> ('x guild_state, guild_failure) result" where
  "cancel_quest cfg og i s =
     and_then (ensure_signed og) (\<lambda>caller.
     ok_or (quests s i) (Module QuestNotFound) (\<lambda>q.
     ensure (quest_status q = Open) (Module InvalidQuestStatus) (
     ensure (employer q = caller) (Module NotEmployer) (
     Ok (emit_guild (QuestCancelled i)
          (s\<lparr>guild_ledger := unreserve (guild_currency cfg) (guild_ledger s) (employer q) (reward q),
             quests := (quests s)(i \<mapsto> q\<lparr>quest_status := Completed\<rparr>)\<rparr>))))))"

definition subscribe_to_academy ::
  "'x guild_config \<Rightarrow> origin \<Rightarrow> account \<Rightarrow> balance \<Rightarrow> 'x guild_state \<Rightarrow> ('x guild_state, guild_failure) result" where
  "subscribe_to_academy cfg og m fee s =
     and_then (ensure_signed og) (\<lambda>caller.
     and_then (map_err ThirdParty (transfer (guild_currency cfg) (guild_ledger s) caller m fee KeepAlive)) (\<lambda>x.
     Ok (emit_guild (AcademySubscriptionPurchased caller m fee) (s\<lparr>guild_ledger := x\<rparr>))))"

definition force_resolve_quest ::
  "'x guild_config \<Rightarrow> origin \<Rightarrow> nat \<Rightarrow> account \<Rightarrow> 'x guild_state \<Rightarrow> ('x guild_state, guild_failure) result" where
  "force_resolve_quest cfg og i recipient s =
     and_then (ensure_signed og) (\<lambda>caller.
     ok_or (quests s i) (Module QuestNotFound) (\<lambda>q.
     ensure (quest_status q = Review) (Module QuestNotInReview) (
     ok_or (guild_members s (quest_guild q) caller) (Module NotMember) (\<lambda>role.
     ensure (role = Master) (Module NotMasterForForceResolve) (
     and_then (release_reward cfg q recipient (guild_ledger s)) (\<lambda>x.
     let s1 = (if assignee q = Some recipient then count_quest (quest_guild q) recipient (s\<lparr>guild_ledger := x\<rparr>)
               else s\<lparr>guild_ledger := x\<rparr>)
     in Ok (emit_guild (QuestCompleted i recipient (reward q))
          (s1\<lparr>quests := (quests s1)(i \<mapsto> q\<lparr>quest_status := Completed\<rparr>)\<rparr>))))))))"

end
