(* ===== verification/Guild_Unions.thy ===== *)
theory Guild_Unions
  imports Guilds
begin

text \<open>
  \<^verbatim>\<open>pallets/guilds/src/lib.rs\<close>, second part: the unions of guilds, the elections of their grandmasters, the academy of
  sciences, and what a death or an exile cleans up; then all calls of the pallet as one dispatch.
\<close>

section \<open>The academy\<close>

definition grant_academician :: "account \<Rightarrow> byte list \<Rightarrow> 'x guild_state \<Rightarrow> 'x guild_state" where
  "grant_academician who tag s =
     (if academy_members s who = None
      then emit_guild (AcademicianGranted who tag) (s\<lparr>academy_members := (academy_members s)(who \<mapsto> tag)\<rparr>)
      else s)"

definition is_academician :: "'x guild_state \<Rightarrow> account \<Rightarrow> bool" where
  "is_academician s who \<longleftrightarrow> academy_members s who \<noteq> None"

section \<open>Forming a union\<close>

definition form_guild_union ::
  "'x guild_config \<Rightarrow> origin \<Rightarrow> byte list \<Rightarrow> nat list \<Rightarrow> 'x guild_state \<Rightarrow> ('x guild_state, guild_failure) result" where
  "form_guild_union cfg og tag peers s =
     and_then (ensure_signed og) (\<lambda>caller.
     ensure (peers \<noteq> []) (Module InsufficientUnionMembers) (
     and_then (ensure_master caller (hd peers) s) (\<lambda>_.
     ensure (guild_union_of s (hd peers) = None) (Module GuildAlreadyInUnion) (
     and_then (foldr (\<lambda>g k. ensure (guilds s g \<noteq> None) (Module GuildNotFound) (
         ensure (guild_union_of s g = None) (Module GuildAlreadyInUnion) k)) (tl peers) (Ok ())) (\<lambda>_.
     ensure (length tag \<le> max_name_length cfg) (Module IndustryTagTooLong) (
     let u = next_union_id s
     in Ok (emit_guild (GuildUnionFormed u GuildArbad caller tag (length peers))
          (s\<lparr>guild_unions := (guild_unions s)(u \<mapsto> \<lparr>union_level = GuildArbad, founder_guild = hd peers,
               grandmaster = caller, member_guild_count = length peers, union_tag = tag, election_votes_for = 0,
               election_votes_cast = 0\<rparr>),
             next_union_id := sat_add 32 u 1,
             guild_union_of := fold (\<lambda>g m. m(g \<mapsto> u)) peers (guild_union_of s)\<rparr>))))))))"

section \<open>Electing a grandmaster\<close>

fun add_vote :: "(account \<times> nat) list \<Rightarrow> account \<Rightarrow> (account \<times> nat) list" where
  "add_vote [] c = [(c, 1)]"
| "add_vote ((a, n) # t) c = (if a = c then (a, sat_add 32 n 1) # t else (a, n) # add_vote t c)"

text \<open>The candidates of the votes, in the order of iteration, at most \<open>MaxUnionMembers\<close> of them.\<close>

definition union_ballots :: "'x guild_config \<Rightarrow> nat \<Rightarrow> 'x guild_state \<Rightarrow> account list" where
  "union_ballots cfg u s = List.map_filter (grandmaster_votes s u)
     (take (max_union_members cfg) (vote_order cfg (grandmaster_votes s u)))"

definition elected_by :: "nat \<Rightarrow> account list \<Rightarrow> account option" where
  "elected_by total_guilds votes =
     (let threshold = total_guilds div 2
      in map_option fst (find (\<lambda>(c, n). n > threshold) (foldl add_vote [] votes)))"

text \<open>With the winner, the votes of the union are cleared.\<close>

definition tally_grandmaster_votes ::
  "'x guild_config \<Rightarrow> nat \<Rightarrow> nat \<Rightarrow> 'x guild_state \<Rightarrow> account option \<times> 'x guild_state" where
  "tally_grandmaster_votes cfg u total_guilds s =
     (case elected_by total_guilds (union_ballots cfg u s) of
        Some c \<Rightarrow> (Some c, s\<lparr>grandmaster_votes := (grandmaster_votes s)(u := Map.empty)\<rparr>)
      | None \<Rightarrow> (None, s))"

text \<open>\<open>clear_prefix\<close> with a limit removes that many votes, in the order of iteration.\<close>

definition clear_votes :: "'x guild_config \<Rightarrow> nat \<Rightarrow> 'x guild_state \<Rightarrow> 'x guild_state" where
  "clear_votes cfg u s =
     s\<lparr>grandmaster_votes := (grandmaster_votes s)(u :=
        fold (\<lambda>g m. m(g := None)) (take (max_union_members cfg) (vote_order cfg (grandmaster_votes s u)))
          (grandmaster_votes s u))\<rparr>"

text \<open>With a winner the round is over; without one once all guilds have voted, it starts again.\<close>

definition conclude_election ::
  "'x guild_config \<Rightarrow> nat \<Rightarrow> guild_union \<Rightarrow> account option \<times> 'x guild_state \<Rightarrow> 'x guild_state" where
  "conclude_election cfg u un outcome =
     (case outcome of
        (Some c, s) \<Rightarrow>
          let s1 = emit_guild (GrandmasterElected u c)
                (s\<lparr>guild_unions := (guild_unions s)(u \<mapsto>
                   un\<lparr>grandmaster := c, election_votes_for := 0, election_votes_cast := 0\<rparr>)\<rparr>)
          in if union_level un = GuildTumed then grant_academician c (union_tag un) s1 else s1
      | (None, s) \<Rightarrow>
          if election_votes_cast un \<ge> member_guild_count un
          then emit_guild (GrandmasterElectionReset u)
                 ((clear_votes cfg u s)\<lparr>guild_unions := (guild_unions s)(u \<mapsto>
                    un\<lparr>election_votes_cast := 0, election_votes_for := 0\<rparr>)\<rparr>)
          else s\<lparr>guild_unions := (guild_unions s)(u \<mapsto> un)\<rparr>)"

definition vote_for_grandmaster ::
  "'x guild_config \<Rightarrow> origin \<Rightarrow> nat \<Rightarrow> nat \<Rightarrow> account \<Rightarrow> 'x guild_state \<Rightarrow> ('x guild_state, guild_failure) result" where
  "vote_for_grandmaster cfg og u g candidate s =
     and_then (ensure_signed og) (\<lambda>caller.
     ok_or (guild_unions s u) (Module GuildUnionNotFound) (\<lambda>un.
     and_then (ensure_master caller g s) (\<lambda>_.
     ensure (guild_union_of s g = Some u) (Module GuildNotInUnion) (
     ensure (grandmaster_votes s u g = None) (Module VoteAlreadyCast) (
     let s1 = emit_guild (GrandmasterVoteCast u g candidate)
            (s\<lparr>grandmaster_votes := (grandmaster_votes s)(u := (grandmaster_votes s u)(g \<mapsto> candidate))\<rparr>);
         un1 = un\<lparr>election_votes_cast := sat_add 32 (election_votes_cast un) 1\<rparr>
     in Ok (conclude_election cfg u un1 (tally_grandmaster_votes cfg u (member_guild_count un1) s1)))))))"

section \<open>Elevating a union\<close>

text \<open>Peers are removed one by one and their guilds counted; the guilds stay registered with the peer.\<close>

fun absorb_unions ::
  "nat \<Rightarrow> union_level \<Rightarrow> nat list \<Rightarrow> nat \<Rightarrow> 'x guild_state \<Rightarrow> (nat \<times> 'x guild_state, guild_failure) result" where
  "absorb_unions base lvl [] n s = Ok (n, s)"
| "absorb_unions base lvl (p # ps) n s =
     ensure (p \<noteq> base) (Module GuildUnionNotFound) (
     ok_or (guild_unions s p) (Module GuildUnionNotFound) (\<lambda>peer.
     ensure (union_level peer = lvl) (Module GuildUnionNotFound) (
     absorb_unions base lvl ps (sat_add 32 n (member_guild_count peer))
       (s\<lparr>guild_unions := (guild_unions s)(p := None)\<rparr>))))"

definition elevate_union ::
  "origin \<Rightarrow> nat \<Rightarrow> nat list \<Rightarrow> 'x guild_state \<Rightarrow> ('x guild_state, guild_failure) result" where
  "elevate_union og base peers s =
     and_then (ensure_signed og) (\<lambda>caller.
     ok_or (guild_unions s base) (Module GuildUnionNotFound) (\<lambda>un.
     ensure (grandmaster un = caller) (Module NotGrandmaster) (
     ok_or (next_union_level (union_level un)) (Module MaxUnionLevelReached) (\<lambda>lvl.
     ensure ((union_level un, lvl) \<in> {(GuildArbad, GuildZun), (GuildZun, GuildMyangad), (GuildMyangad, GuildTumed)})
       (Module InvalidUnionLevelTransition) (
     and_then (absorb_unions base (union_level un) peers (member_guild_count un) s) (\<lambda>(n, s1).
     let s2 = emit_guild (GuildUnionElevated base lvl caller)
            (s1\<lparr>guild_unions := (guild_unions s1)(base \<mapsto>
               un\<lparr>union_level := lvl, member_guild_count := n, election_votes_for := 0, election_votes_cast := 0\<rparr>)\<rparr>)
     in Ok (if lvl = GuildTumed then grant_academician caller (union_tag un) s2 else s2)))))))"

section \<open>Death and exile\<close>

definition abandoned :: "account \<Rightarrow> quest option \<Rightarrow> bool" where
  "abandoned who oq = (case oq of None \<Rightarrow> False
     | Some q \<Rightarrow> employer q = who \<and> (quest_status q = Open \<or> quest_status q = InProgress))"

definition cleanup_account :: "'x guild_config \<Rightarrow> account \<Rightarrow> 'x guild_state \<Rightarrow> 'x guild_state" where
  "cleanup_account cfg who s =
     (let ids = filter (\<lambda>i. abandoned who (quests s i)) (quest_order cfg (quests s))
      in s\<lparr>guild_ledger := fold (\<lambda>q x. unreserve (guild_currency cfg) x (employer q) (reward q))
             (List.map_filter (quests s) ids) (guild_ledger s),
           quests := fold (\<lambda>i m. m(i := map_option (quest_status_update (\<lambda>_. Cancelled)) (m i))) ids (quests s),
           academy_members := (academy_members s)(who := None)\<rparr>)"

section \<open>The pallet\<close>

datatype guild_call =
    CreateGuild "byte list" "byte list" "byte list option" nat
  | JoinGuild nat
  | PromoteMember nat account member_role
  | ProposeAchievement nat account "byte list" nat "byte list"
  | PublishQuest nat balance "byte list"
  | AssignQuest nat
  | SubmitQuest nat
  | CompleteQuest nat
  | CancelQuest nat
  | SubscribeToAcademy account balance
  | ForceResolveQuest nat account
  | FormGuildUnion "byte list" "nat list"
  | VoteForGrandmaster nat nat account
  | ElevateUnion nat "nat list"
  | CreateGuildFromRelayer h256 account "account list"
  | UpdateCouncil h256 "account list"
  | CreateProposal h256 h256 account
  | VoteProposal h256 h256 account bool

text \<open>The lists of peers are \<open>BoundedVec\<close> arguments, which are decoded within their bound.\<close>

fun guild_dispatch :: "'x guild_config \<Rightarrow> origin \<times> guild_call \<Rightarrow> 'x guild_state \<Rightarrow> ('x guild_state, guild_failure) result" where
  "guild_dispatch cfg (og, CreateGuild n t c r) s = create_guild cfg og n t c r s"
| "guild_dispatch cfg (og, JoinGuild i) s = join_guild og i s"
| "guild_dispatch cfg (og, PromoteMember i a r) s = promote_member og i a r s"
| "guild_dispatch cfg (og, ProposeAchievement i a t r p) s = propose_achievement cfg og i a t r p s"
| "guild_dispatch cfg (og, PublishQuest i v c) s = publish_quest cfg og i v c s"
| "guild_dispatch cfg (og, AssignQuest i) s = assign_quest og i s"
| "guild_dispatch cfg (og, SubmitQuest i) s = submit_quest og i s"
| "guild_dispatch cfg (og, CompleteQuest i) s = complete_quest cfg og i s"
| "guild_dispatch cfg (og, CancelQuest i) s = cancel_quest cfg og i s"
| "guild_dispatch cfg (og, SubscribeToAcademy a v) s = subscribe_to_academy cfg og a v s"
| "guild_dispatch cfg (og, ForceResolveQuest i a) s = force_resolve_quest cfg og i a s"
| "guild_dispatch cfg (og, FormGuildUnion t ps) s =
     (if length ps \<le> max_union_members cfg then form_guild_union cfg og t ps s else Err BadOrigin)"
| "guild_dispatch cfg (og, VoteForGrandmaster u g c) s = vote_for_grandmaster cfg og u g c s"
| "guild_dispatch cfg (og, ElevateUnion u ps) s =
     (if length ps \<le> max_union_members cfg then elevate_union og u ps s else Err BadOrigin)"
| "guild_dispatch cfg (og, CreateGuildFromRelayer i m ms) s = create_guild_from_relayer cfg og i m ms s"
| "guild_dispatch cfg (og, UpdateCouncil i c) s = update_council_from_relayer cfg og i c s"
| "guild_dispatch cfg (og, CreateProposal i p a) s = create_proposal_from_relayer og i p a s"
| "guild_dispatch cfg (og, VoteProposal i p a f) s = vote_proposal_from_relayer og i p a f s"

text \<open>Other pallets move the ledger, and a death or an exile cleans up.\<close>

definition guild_foreign :: "'x guild_config \<Rightarrow> 'x guild_state \<Rightarrow> 'x guild_state \<Rightarrow> bool" where
  "guild_foreign cfg s t \<longleftrightarrow> (\<exists>x. t = s\<lparr>guild_ledger := x\<rparr>) \<or> (\<exists>a. t = cleanup_account cfg a s)"

definition guild_start :: "'x \<Rightarrow> 'x guild_state" where
  "guild_start x = \<lparr>guild_ledger = x, next_guild_id = 0, guilds = Map.empty, guilds_by_uuid = Map.empty,
     guild_proposals = Map.empty, proposal_ballots = (\<lambda>_. {}), guild_members = (\<lambda>_. Map.empty),
     member_quest_count = (\<lambda>_ _. 0), next_achievement_id = 0, achievements = Map.empty,
     citizen_achievements = (\<lambda>_. {}), next_quest_id = 0, quests = Map.empty, next_union_id = 0,
     guild_unions = Map.empty, guild_union_of = Map.empty, grandmaster_votes = (\<lambda>_. Map.empty),
     academy_members = Map.empty, guild_events = []\<rparr>"

end
