(* ===== verification/Guild_Laws.thy ===== *)
theory Guild_Laws
  imports Guild_Unions
begin

text \<open>
  What the calls of the guild pallet do to quests, to unions and to councils, each part under every call and under the
  cleanup after a death: the \<open>lifecycle\<close> of a quest, the registration of guilds with unions, and the elections.
\<close>

section \<open>Quests\<close>

lemma grant_academician_simps [simp]:
  "guild_ledger (grant_academician a t s) = guild_ledger s" "next_guild_id (grant_academician a t s) = next_guild_id s"
  "guilds (grant_academician a t s) = guilds s" "guilds_by_uuid (grant_academician a t s) = guilds_by_uuid s"
  "guild_proposals (grant_academician a t s) = guild_proposals s"
  "proposal_ballots (grant_academician a t s) = proposal_ballots s"
  "guild_members (grant_academician a t s) = guild_members s" "quests (grant_academician a t s) = quests s"
  "next_quest_id (grant_academician a t s) = next_quest_id s" "next_union_id (grant_academician a t s) = next_union_id s"
  "guild_unions (grant_academician a t s) = guild_unions s" "guild_union_of (grant_academician a t s) = guild_union_of s"
  "grandmaster_votes (grant_academician a t s) = grandmaster_votes s"
  "academy_members (grant_academician a t s) a \<noteq> None"
  by (auto simp: grant_academician_def)

lemma academician_granted: "\<exists>tag. academy_members (grant_academician a t s) a = Some tag"
  by (auto simp: grant_academician_def)

lemma settle_proposal_simps [simp]:
  "guild_ledger (settle_proposal p n q s) = guild_ledger s" "quests (settle_proposal p n q s) = quests s"
  "next_quest_id (settle_proposal p n q s) = next_quest_id s" "next_union_id (settle_proposal p n q s) = next_union_id s"
  "guild_unions (settle_proposal p n q s) = guild_unions s" "guild_union_of (settle_proposal p n q s) = guild_union_of s"
  "grandmaster_votes (settle_proposal p n q s) = grandmaster_votes s"
  "proposal_ballots (settle_proposal p n q s) = proposal_ballots s" "guilds (settle_proposal p n q s) = guilds s"
  "next_guild_id (settle_proposal p n q s) = next_guild_id s"
  by (simp_all add: settle_proposal_def Let_def)

lemma absorb_frame:
  "absorb_unions base lvl ps n s = Ok (m, t) \<Longrightarrow> \<exists>us. t = s\<lparr>guild_unions := us\<rparr>"
proof (induction ps arbitrary: n s)
  case Nil
  then have "t = s\<lparr>guild_unions := guild_unions s\<rparr>" by simp
  then show ?case by blast
next
  case (Cons p ps)
  then obtain k where "absorb_unions base lvl ps k (s\<lparr>guild_unions := (guild_unions s)(p := None)\<rparr>) = Ok (m, t)"
    by (auto simp: ok_simps)
  from Cons.IH[OF this] show ?case by auto
qed

lemma tally_frame [simp]:
  "quests (snd (tally_grandmaster_votes cfg u n s)) = quests s"
  "next_quest_id (snd (tally_grandmaster_votes cfg u n s)) = next_quest_id s"
  "guild_proposals (snd (tally_grandmaster_votes cfg u n s)) = guild_proposals s"
  "proposal_ballots (snd (tally_grandmaster_votes cfg u n s)) = proposal_ballots s"
  "guild_union_of (snd (tally_grandmaster_votes cfg u n s)) = guild_union_of s"
  "guild_unions (snd (tally_grandmaster_votes cfg u n s)) = guild_unions s"
  "next_union_id (snd (tally_grandmaster_votes cfg u n s)) = next_union_id s"
  "guilds (snd (tally_grandmaster_votes cfg u n s)) = guilds s"
  "next_guild_id (snd (tally_grandmaster_votes cfg u n s)) = next_guild_id s"
  by (simp_all add: tally_grandmaster_votes_def split: option.split)

lemma conclude_frame [simp]:
  "quests (conclude_election cfg u un o') = quests (snd o')"
  "next_quest_id (conclude_election cfg u un o') = next_quest_id (snd o')"
  "guild_proposals (conclude_election cfg u un o') = guild_proposals (snd o')"
  "proposal_ballots (conclude_election cfg u un o') = proposal_ballots (snd o')"
  "guild_union_of (conclude_election cfg u un o') = guild_union_of (snd o')"
  "next_union_id (conclude_election cfg u un o') = next_union_id (snd o')"
  "guilds (conclude_election cfg u un o') = guilds (snd o')"
  "next_guild_id (conclude_election cfg u un o') = next_guild_id (snd o')"
  by (cases o'; cases "fst o'"; simp add: conclude_election_def clear_votes_def Let_def)+

definition voted :: "nat \<Rightarrow> nat \<Rightarrow> account \<Rightarrow> 'x guild_state \<Rightarrow> 'x guild_state" where
  "voted u g c s = emit_guild (GrandmasterVoteCast u g c)
     (s\<lparr>grandmaster_votes := (grandmaster_votes s)(u := (grandmaster_votes s u)(g \<mapsto> c))\<rparr>)"

lemma grandmaster_vote_Ok:
  assumes "vote_for_grandmaster cfg og u g c s = Ok t"
  obtains a un where "og = Signed a" "guild_unions s u = Some un" "ensure_master a g s = Ok ()"
    "guild_union_of s g = Some u" "grandmaster_votes s u g = None"
    "t = conclude_election cfg u (un\<lparr>election_votes_cast := sat_add 32 (election_votes_cast un) 1\<rparr>)
       (tally_grandmaster_votes cfg u (member_guild_count un) (voted u g c s))"
  using assms unfolding vote_for_grandmaster_def Let_def voted_def by (auto simp: ok_simps)

lemma vote_frame:
  assumes "vote_for_grandmaster cfg og u g c s = Ok t"
  shows "quests t = quests s" "next_quest_id t = next_quest_id s" "guild_proposals t = guild_proposals s"
    "proposal_ballots t = proposal_ballots s" "guild_union_of t = guild_union_of s" "next_union_id t = next_union_id s"
    "guilds t = guilds s" "next_guild_id t = next_guild_id s"
proof -
  define s1 where "s1 = voted u g c s"
  obtain un n where t: "t = conclude_election cfg u un (tally_grandmaster_votes cfg u n s1)"
    by (rule grandmaster_vote_Ok[OF assms, folded s1_def]) (rule that)
  show "quests t = quests s" "next_quest_id t = next_quest_id s" "guild_proposals t = guild_proposals s"
    "proposal_ballots t = proposal_ballots s" "guild_union_of t = guild_union_of s" "next_union_id t = next_union_id s"
    "guilds t = guilds s" "next_guild_id t = next_guild_id s"
    unfolding t by (simp_all add: s1_def voted_def)
qed

definition elevated :: "nat \<Rightarrow> union_level \<Rightarrow> account \<Rightarrow> nat \<Rightarrow> guild_union \<Rightarrow> 'x guild_state \<Rightarrow> 'x guild_state" where
  "elevated u lvl a n un s = emit_guild (GuildUnionElevated u lvl a) (s\<lparr>guild_unions := (guild_unions s)(u \<mapsto>
     un\<lparr>union_level := lvl, member_guild_count := n, election_votes_for := 0, election_votes_cast := 0\<rparr>)\<rparr>)"

lemma elevate_Ok:
  assumes "elevate_union og u ps s = Ok t"
  obtains a un lvl n s1 where "og = Signed a" "guild_unions s u = Some un" "grandmaster un = a"
    "next_union_level (union_level un) = Some lvl"
    "absorb_unions u (union_level un) ps (member_guild_count un) s = Ok (n, s1)"
    "t = (if lvl = GuildTumed then grant_academician a (union_tag un) (elevated u lvl a n un s1)
      else elevated u lvl a n un s1)"
  using assms unfolding elevate_union_def Let_def elevated_def by (auto simp: ok_simps)

lemma elevate_frame:
  assumes "elevate_union og u ps s = Ok t"
  shows "quests t = quests s" "next_quest_id t = next_quest_id s" "guild_proposals t = guild_proposals s"
    "proposal_ballots t = proposal_ballots s" "guild_union_of t = guild_union_of s" "next_union_id t = next_union_id s"
    "grandmaster_votes t = grandmaster_votes s" "guilds t = guilds s" "next_guild_id t = next_guild_id s"
proof -
  obtain un a lvl n s1 where s1: "absorb_unions u (union_level un) ps (member_guild_count un) s = Ok (n, s1)"
    and t: "t = (if lvl = GuildTumed then grant_academician a (union_tag un) (elevated u lvl a n un s1)
      else elevated u lvl a n un s1)"
    by (rule elevate_Ok[OF assms]) (rule that)
  obtain us where us: "s1 = s\<lparr>guild_unions := us\<rparr>" using absorb_frame[OF s1] by blast
  show "quests t = quests s" "next_quest_id t = next_quest_id s" "guild_proposals t = guild_proposals s"
    "proposal_ballots t = proposal_ballots s" "guild_union_of t = guild_union_of s" "next_union_id t = next_union_id s"
    "grandmaster_votes t = grandmaster_votes s" "guilds t = guilds s" "next_guild_id t = next_guild_id s"
    unfolding t by (simp_all add: us elevated_def)
qed

lemmas guild_handlers = create_guild_from_relayer_def update_council_from_relayer_def create_proposal_from_relayer_def
  vote_proposal_from_relayer_def create_guild_def join_guild_def promote_member_def propose_achievement_def
  publish_quest_def assign_quest_def submit_quest_def complete_quest_def cancel_quest_def subscribe_to_academy_def
  force_resolve_quest_def form_guild_union_def count_quest_def

definition quest_edge :: "quest_status \<Rightarrow> quest_status \<Rightarrow> bool" where
  "quest_edge a b \<longleftrightarrow> (a, b) \<in> {(Open, InProgress), (InProgress, Review), (Review, Completed), (Open, Completed),
     (Open, Cancelled), (InProgress, Cancelled)}"

definition same_terms :: "quest \<Rightarrow> quest \<Rightarrow> bool" where
  "same_terms q r \<longleftrightarrow> quest_guild r = quest_guild q \<and> employer r = employer q \<and> reward r = reward q
     \<and> quest_description r = quest_description q \<and> (assignee q = None \<or> assignee r = assignee q)
     \<and> (quest_status r = InProgress \<longrightarrow> assignee r \<noteq> None)"

definition quests_ok :: "'x guild_state \<Rightarrow> bool" where
  "quests_ok s \<longleftrightarrow> (\<forall>i q. quests s i = Some q \<longrightarrow> (quest_status q = Open \<longrightarrow> assignee q = None)
       \<and> (quest_status q \<in> {InProgress, Review} \<longrightarrow> assignee q \<noteq> None))
     \<and> (next_quest_id s < umax 32 \<longrightarrow> (\<forall>i. quests s i \<noteq> None \<longrightarrow> i < next_quest_id s))"

text \<open>A call leaves the quests alone, publishes one, or moves one along an edge.\<close>

lemma quest_moved:
  assumes "quests s i = Some q" "quests t = (quests s)(i \<mapsto> r)" "next_quest_id t = next_quest_id s"
    "quest_edge (quest_status q) (quest_status r)" "same_terms q r"
  shows "quests t = quests s \<and> next_quest_id t = next_quest_id s
    \<or> (\<exists>q. quests t = (quests s)(next_quest_id s \<mapsto> q) \<and> quest_status q = Open \<and> assignee q = None
         \<and> next_quest_id t = sat_add 32 (next_quest_id s) 1)
    \<or> (\<exists>i q r. quests s i = Some q \<and> quests t = (quests s)(i \<mapsto> r) \<and> next_quest_id t = next_quest_id s
         \<and> quest_edge (quest_status q) (quest_status r) \<and> same_terms q r)"
  using assms by blast

lemma quest_effect:
  assumes "guild_dispatch cfg (og, c) s = Ok t"
    and ok: "quests_ok s"
  shows "quests t = quests s \<and> next_quest_id t = next_quest_id s
    \<or> (\<exists>q. quests t = (quests s)(next_quest_id s \<mapsto> q) \<and> quest_status q = Open \<and> assignee q = None
         \<and> next_quest_id t = sat_add 32 (next_quest_id s) 1)
    \<or> (\<exists>i q r. quests s i = Some q \<and> quests t = (quests s)(i \<mapsto> r) \<and> next_quest_id t = next_quest_id s
         \<and> quest_edge (quest_status q) (quest_status r) \<and> same_terms q r)"
proof (cases c)
  case (VoteForGrandmaster u g a)
  then show ?thesis using assms(1) vote_frame(1,2)[of cfg og u g a s t] by simp
next
  case (ElevateUnion u ps)
  then show ?thesis using assms(1) elevate_frame(1,2)[of og u ps s t] by (simp split: if_splits)
next
  case (AssignQuest i)
  then obtain a q where q: "quests s i = Some q" "quest_status q = Open"
      and t: "quests t = (quests s)(i \<mapsto> q\<lparr>quest_status := InProgress, assignee := Some a\<rparr>)" "next_quest_id t = next_quest_id s"
    using assms(1) by (auto simp: assign_quest_def ok_simps)
  from ok q have "assignee q = None" unfolding quests_ok_def by blast
  with q show ?thesis by (intro quest_moved[OF q(1) t]) (simp_all add: quest_edge_def same_terms_def)
next
  case (SubmitQuest i)
  then obtain q where q: "quests s i = Some q" "quest_status q = InProgress"
      and t: "quests t = (quests s)(i \<mapsto> q\<lparr>quest_status := Review\<rparr>)" "next_quest_id t = next_quest_id s"
    using assms(1) by (auto simp: submit_quest_def ok_simps)
  with q show ?thesis by (intro quest_moved[OF q(1) t]) (simp_all add: quest_edge_def same_terms_def)
next
  case (CompleteQuest i)
  then obtain q n where q: "quests s i = Some q" "quest_status q = Review"
      and t: "quests t = (quests s)(i \<mapsto> q\<lparr>quest_status := Completed, assignee_quest_count := n\<rparr>)"
      "next_quest_id t = next_quest_id s"
    using assms(1) by (auto simp: complete_quest_def ok_simps count_quest_def Let_def)
  with q show ?thesis by (intro quest_moved[OF q(1) t]) (simp_all add: quest_edge_def same_terms_def)
next
  case (CancelQuest i)
  then obtain q where q: "quests s i = Some q" "quest_status q = Open"
      and t: "quests t = (quests s)(i \<mapsto> q\<lparr>quest_status := Completed\<rparr>)" "next_quest_id t = next_quest_id s"
    using assms(1) by (auto simp: cancel_quest_def ok_simps)
  with q show ?thesis by (intro quest_moved[OF q(1) t]) (simp_all add: quest_edge_def same_terms_def)
next
  case (ForceResolveQuest i a)
  then obtain q where q: "quests s i = Some q" "quest_status q = Review"
      and t: "quests t = (quests s)(i \<mapsto> q\<lparr>quest_status := Completed\<rparr>)" "next_quest_id t = next_quest_id s"
    using assms(1) by (auto simp: force_resolve_quest_def ok_simps count_quest_def Let_def split: if_splits)
  with q show ?thesis by (intro quest_moved[OF q(1) t]) (simp_all add: quest_edge_def same_terms_def)
next
  case (PublishQuest i v cid)
  then obtain q where "quests t = (quests s)(next_quest_id s \<mapsto> q)" "quest_status q = Open" "assignee q = None"
      "next_quest_id t = sat_add 32 (next_quest_id s) 1"
    using assms(1) by (auto simp: publish_quest_def ok_simps Let_def)
  then show ?thesis by blast
qed (rule disjI1, use assms(1) in \<open>auto simp: guild_handlers ok_simps Let_def split: if_splits\<close>)

lemma fold_cancel:
  "fold (\<lambda>i m. m(i := map_option (quest_status_update (\<lambda>_. Cancelled)) (m i))) ids m i
    = (if i \<in> set ids then map_option (quest_status_update (\<lambda>_. Cancelled)) (m i) else m i)"
  by (induction ids arbitrary: m) (auto simp: option.map_comp comp_def)

lemma cleanup_quests:
  "quests (cleanup_account cfg a s) i =
     (if i \<in> set (quest_order cfg (quests s)) \<and> abandoned a (quests s i)
      then map_option (quest_status_update (\<lambda>_. Cancelled)) (quests s i) else quests s i)"
  by (simp add: cleanup_account_def Let_def fold_cancel)

lemma cleanup_frame [simp]:
  "next_quest_id (cleanup_account cfg a s) = next_quest_id s" "guild_unions (cleanup_account cfg a s) = guild_unions s"
  "guild_union_of (cleanup_account cfg a s) = guild_union_of s" "next_union_id (cleanup_account cfg a s) = next_union_id s"
  "grandmaster_votes (cleanup_account cfg a s) = grandmaster_votes s"
  "guild_proposals (cleanup_account cfg a s) = guild_proposals s"
  "proposal_ballots (cleanup_account cfg a s) = proposal_ballots s"
  "guilds (cleanup_account cfg a s) = guilds s" "next_guild_id (cleanup_account cfg a s) = next_guild_id s"
  by (simp_all add: cleanup_account_def Let_def)

lemma quests_ok_step:
  assumes ok: "quests_ok s" and step: "guild_dispatch cfg (og, c) s = Ok t"
  shows "quests_ok t"
proof -
  from quest_effect[OF step ok] show ?thesis
  proof (elim disjE exE conjE)
    fix q assume "quests t = (quests s)(next_quest_id s \<mapsto> q)" "quest_status q = Open" "assignee q = None"
       "next_quest_id t = sat_add 32 (next_quest_id s) 1"
    then show ?thesis using ok sat_add_below[of 32 "next_quest_id s" 1] by (auto simp: quests_ok_def less_Suc_eq)
  next
    fix i q r
    assume q: "quests s i = Some q" and r: "quests t = (quests s)(i \<mapsto> r)" "next_quest_id t = next_quest_id s"
         "quest_edge (quest_status q) (quest_status r)" "same_terms q r"
    have "quest_status q = InProgress \<longrightarrow> assignee q \<noteq> None" using ok q unfolding quests_ok_def by blast
    then have "(quest_status r = Open \<longrightarrow> assignee r = None) \<and> (quest_status r \<in> {InProgress, Review} \<longrightarrow> assignee r \<noteq> None)"
      using r(3,4) by (auto simp: quest_edge_def same_terms_def)
    with ok q r(1,2) show ?thesis by (auto simp: quests_ok_def)
  qed (use ok in \<open>simp add: quests_ok_def\<close>)
qed

lemma quests_ok_foreign: "quests_ok s \<Longrightarrow> guild_foreign cfg s t \<Longrightarrow> quests_ok t"
  by (auto simp: guild_foreign_def quests_ok_def cleanup_quests split: if_splits)

text \<open>A step that cannot store a quest over another one.\<close>

definition quest_step :: "'x guild_config \<Rightarrow> 'x guild_state \<Rightarrow> 'x guild_state \<Rightarrow> bool" where
  "quest_step cfg s t \<longleftrightarrow> quests_ok s \<and> next_quest_id s < umax 32 \<and> (\<exists>c. guild_dispatch cfg c s = Ok t)
     \<or> guild_foreign cfg s t"

definition quest_follows :: "quest \<Rightarrow> quest \<Rightarrow> bool" where
  "quest_follows q r \<longleftrightarrow> r = q \<or> quest_edge (quest_status q) (quest_status r) \<and> same_terms q r"

lemma quest_step_follows:
  assumes "quest_step cfg s t" "quests s i = Some q"
  shows "\<exists>r. quests t i = Some r \<and> quest_follows q r"
  using assms(1) unfolding quest_step_def
proof (elim disjE exE conjE)
  fix c assume ok: "quests_ok s" "next_quest_id s < umax 32" and step: "guild_dispatch cfg c s = Ok t"
  obtain og k where c: "c = (og, k)" by (cases c)
  have "i \<noteq> next_quest_id s" using assms(2) ok unfolding quests_ok_def by blast
  then show ?thesis
    using quest_effect[OF step[unfolded c] ok(1)] assms(2) by (fastforce simp: quest_follows_def)
next
  assume "guild_foreign cfg s t"
  then show ?thesis
    using assms(2) by (auto simp: guild_foreign_def cleanup_quests abandoned_def quest_follows_def quest_edge_def same_terms_def
        split: if_splits)
qed

interpretation tasks: lifecycle "\<lambda>s i. map_option quest_status (quests s i)" quest_edge "quest_step cfg"
  for cfg :: "'x guild_config"
proof
  fix s t :: "'x guild_state" and i a
  assume st: "quest_step cfg s t" and a: "map_option quest_status (quests s i) = Some a"
    and change: "map_option quest_status (quests t i) \<noteq> Some a"
  obtain q where q: "quests s i = Some q" "quest_status q = a" using a by auto
  obtain r where "quests t i = Some r" "quest_follows q r" using quest_step_follows[OF st q(1)] by blast
  with q change show "\<exists>b. map_option quest_status (quests t i) = Some b \<and> quest_edge a b"
    by (auto simp: quest_follows_def)
qed

section \<open>Unions\<close>

lemma peers_free:
  "foldr (\<lambda>g k. ensure (guilds s g \<noteq> None) (Module GuildNotFound) (
     ensure (guild_union_of s g = None) (Module GuildAlreadyInUnion) k)) ps (Ok ()) = (Ok w :: (unit, guild_failure) result)
   \<longleftrightarrow> (\<forall>g\<in>set ps. guilds s g \<noteq> None \<and> guild_union_of s g = None)"
  by (induction ps) (auto simp: ok_simps)

lemma fold_register: "fold (\<lambda>g m. m(g \<mapsto> u)) ps m g = (if g \<in> set ps then Some u else m g)"
  by (induction ps arbitrary: m) auto

lemma form_Ok:
  assumes "form_guild_union cfg og tag ps s = Ok t"
  obtains a where "og = Signed a" "ps \<noteq> []" "ensure_master a (hd ps) s = Ok ()"
    "\<forall>g\<in>set ps. guild_union_of s g = None"
    "guild_unions t = (guild_unions s)(next_union_id s \<mapsto> \<lparr>union_level = GuildArbad, founder_guild = hd ps,
       grandmaster = a, member_guild_count = length ps, union_tag = tag, election_votes_for = 0, election_votes_cast = 0\<rparr>)"
    "next_union_id t = sat_add 32 (next_union_id s) 1"
    "guild_union_of t = (\<lambda>g. if g \<in> set ps then Some (next_union_id s) else guild_union_of s g)"
    "grandmaster_votes t = grandmaster_votes s" "guilds t = guilds s" "guild_members t = guild_members s"
proof -
  obtain a where a: "og = Signed a" "ps \<noteq> []" "ensure_master a (hd ps) s = Ok ()" "guild_union_of s (hd ps) = None"
      "\<forall>g\<in>set (tl ps). guilds s g \<noteq> None \<and> guild_union_of s g = None"
    using assms unfolding form_guild_union_def by (auto simp: ok_simps peers_free[unfolded not_None_eq])
  then have "\<forall>g\<in>set ps. guild_union_of s g = None" by (cases ps) auto
  then show ?thesis
    using a assms by (intro that[of a]) (auto simp: form_guild_union_def ok_simps Let_def fold_register fun_eq_iff)
qed

lemma absorb_Ok:
  assumes "absorb_unions base lvl ps n s = Ok (m, t)" "n \<le> umax 32"
  shows "base \<notin> set ps \<and> t = s\<lparr>guild_unions := (\<lambda>u. if u \<in> set ps then None else guild_unions s u)\<rparr>
    \<and> n \<le> m \<and> m \<le> umax 32 \<and> (\<forall>p\<in>set ps. guild_unions s p \<noteq> None)"
  using assms
proof (induction ps arbitrary: n s)
  case (Cons p ps)
  then obtain peer where p: "p \<noteq> base" "guild_unions s p = Some peer"
      "absorb_unions base lvl ps (sat_add 32 n (member_guild_count peer)) (s\<lparr>guild_unions := (guild_unions s)(p := None)\<rparr>) = Ok (m, t)"
    by (auto simp: ok_simps)
  from Cons.IH[OF p(3) sat_add_umax] sat_add_ge[OF Cons.prems(2), of "member_guild_count peer"] p
  show ?case by (auto simp: fun_eq_iff split: if_splits)
qed simp

lemma absorb_removes: "absorb_unions base lvl ps n s = Ok (m, t) \<Longrightarrow> guild_unions s q = None \<Longrightarrow> guild_unions t q = None"
  by (induction ps arbitrary: n s) (auto simp: ok_simps)

lemma union_frame:
  assumes "guild_dispatch cfg (og, c) s = Ok t"
    "\<And>tag ps. c \<noteq> FormGuildUnion tag ps" "\<And>u g a. c \<noteq> VoteForGrandmaster u g a" "\<And>u ps. c \<noteq> ElevateUnion u ps"
  shows "guild_unions t = guild_unions s \<and> guild_union_of t = guild_union_of s \<and> next_union_id t = next_union_id s
    \<and> grandmaster_votes t = grandmaster_votes s"
  using assms by (cases c) (auto simp: guild_handlers ok_simps Let_def split: if_splits)

text \<open>
  Guilds are registered with unions handed out, no more of them than the union counts and than it may have been formed
  of, and only a registered guild has a vote.
\<close>

definition unions_ok :: "'x guild_config \<Rightarrow> 'x guild_state \<Rightarrow> bool" where
  "unions_ok cfg s \<longleftrightarrow> (\<forall>u. guild_unions s u \<noteq> None \<longrightarrow> u < next_union_id s)
     \<and> (\<forall>g u. guild_union_of s g = Some u \<longrightarrow> u < next_union_id s)
     \<and> (\<forall>u. finite {g. guild_union_of s g = Some u} \<and> card {g. guild_union_of s g = Some u} \<le> max_union_members cfg)
     \<and> (\<forall>u un. guild_unions s u = Some un \<longrightarrow>
          card {g. guild_union_of s g = Some u} \<le> member_guild_count un \<and> member_guild_count un \<le> umax 32)
     \<and> (\<forall>u g c. grandmaster_votes s u g = Some c \<longrightarrow> guild_union_of s g = Some u)"

lemma unions_ok_form:
  assumes ok: "unions_ok cfg s" and step: "form_guild_union cfg og tag ps s = Ok t"
    and bound: "length ps \<le> max_union_members cfg" "max_union_members cfg \<le> umax 32" and last: "next_union_id t < umax 32"
  shows "unions_ok cfg t"
  using step
proof (rule form_Ok)
  fix a
  let ?n = "next_union_id s"
  assume free: "\<forall>g\<in>set ps. guild_union_of s g = None"
    and un: "guild_unions t = (guild_unions s)(?n \<mapsto> \<lparr>union_level = GuildArbad, founder_guild = hd ps,
       grandmaster = a, member_guild_count = length ps, union_tag = tag, election_votes_for = 0, election_votes_cast = 0\<rparr>)"
    and n: "next_union_id t = sat_add 32 ?n 1"
    and o_f: "guild_union_of t = (\<lambda>g. if g \<in> set ps then Some ?n else guild_union_of s g)"
    and vs: "grandmaster_votes t = grandmaster_votes s"
  have n': "next_union_id t = Suc ?n" using last n sat_add_below[of 32 ?n 1] by simp
  have unused: "guild_union_of s g \<noteq> Some ?n" for g using ok unfolding unions_ok_def by blast
  have mem: "{g. guild_union_of t g = Some u} = (if u = ?n then set ps else {g. guild_union_of s g = Some u})" for u
    using free unused by (auto simp: o_f)
  have "grandmaster_votes s u g = Some c \<Longrightarrow> g \<notin> set ps" for u g c
    using ok free unfolding unions_ok_def by (metis option.distinct(1))
  then have "\<forall>u g c. grandmaster_votes t u g = Some c \<longrightarrow> guild_union_of t g = Some u"
    using ok by (auto simp: vs o_f unions_ok_def)
  moreover have "card (set ps) \<le> length ps" by (rule card_length)
  ultimately show ?thesis
    using ok bound unfolding unions_ok_def mem by (auto simp: un n' o_f less_Suc_eq split: if_splits)
qed

lemma tally_votes:
  "grandmaster_votes (snd (tally_grandmaster_votes cfg u n s)) v h = Some c \<Longrightarrow> grandmaster_votes s v h = Some c"
  by (auto simp: tally_grandmaster_votes_def split: option.splits if_splits)

lemma fold_drop: "fold (\<lambda>g m. m(g := None)) gs m h = (if h \<in> set gs then None else m h)"
  by (induction gs arbitrary: m) auto

lemma conclude_votes:
  "grandmaster_votes (conclude_election cfg u un o') v h = Some c \<Longrightarrow> grandmaster_votes (snd o') v h = Some c"
  by (cases o'; cases "fst o'")
    (auto simp: conclude_election_def clear_votes_def Let_def fold_drop split: if_splits)

lemma conclude_unions:
  "\<exists>un'. guild_unions (conclude_election cfg u un o') = (guild_unions (snd o'))(u \<mapsto> un')
     \<and> member_guild_count un' = member_guild_count un \<and> union_level un' = union_level un
     \<and> grandmaster un' = (case fst o' of Some c \<Rightarrow> c | None \<Rightarrow> grandmaster un)"
  by (cases o'; cases "fst o'") (auto simp: conclude_election_def clear_votes_def Let_def)

lemma unions_ok_vote:
  assumes ok: "unions_ok cfg s" and step: "vote_for_grandmaster cfg og u g c s = Ok t"
  shows "unions_ok cfg t"
proof -
  define s1 where "s1 = voted u g c s"
  obtain un where un: "guild_unions s u = Some un" "guild_union_of s g = Some u"
      and t: "t = conclude_election cfg u (un\<lparr>election_votes_cast := sat_add 32 (election_votes_cast un) 1\<rparr>)
        (tally_grandmaster_votes cfg u (member_guild_count un) s1)"
    by (rule grandmaster_vote_Ok[OF step, folded s1_def]) (rule that)
  have old: "guild_unions (snd (tally_grandmaster_votes cfg u (member_guild_count un) s1)) = guild_unions s"
    by (simp add: s1_def voted_def)
  from conclude_unions[of cfg u "un\<lparr>election_votes_cast := sat_add 32 (election_votes_cast un) 1\<rparr>"
      "tally_grandmaster_votes cfg u (member_guild_count un) s1", folded t, unfolded old]
  obtain un' where un': "guild_unions t = (guild_unions s)(u \<mapsto> un')" "member_guild_count un' = member_guild_count un"
    by (elim exE conjE) (erule that, simp)
  have "guild_union_of s h = Some v" if v: "grandmaster_votes t v h = Some d" for v h d
  proof -
    have "grandmaster_votes s1 v h = Some d" by (rule tally_votes[OF conclude_votes[OF v[unfolded t]]])
    then have "grandmaster_votes s v h = Some d \<or> (v = u \<and> h = g)" by (auto simp: s1_def voted_def split: if_splits)
    with ok un(2) show ?thesis unfolding unions_ok_def by blast
  qed
  then show ?thesis
    using ok un vote_frame(5,6)[OF step] unfolding unions_ok_def by (auto simp: un')
qed

lemma unions_ok_elevate:
  assumes ok: "unions_ok cfg s" and step: "elevate_union og u ps s = Ok t"
  shows "unions_ok cfg t"
proof -
  obtain un a lvl n s1 where un: "guild_unions s u = Some un"
    and s1: "absorb_unions u (union_level un) ps (member_guild_count un) s = Ok (n, s1)"
    and t: "t = (if lvl = GuildTumed then grant_academician a (union_tag un) (elevated u lvl a n un s1)
      else elevated u lvl a n un s1)"
    by (rule elevate_Ok[OF step]) (rule that)
  have m: "card {g. guild_union_of s g = Some u} \<le> member_guild_count un" "member_guild_count un \<le> umax 32"
    using ok un unfolding unions_ok_def by blast+
  note s1' = absorb_Ok[OF s1 m(2)]
  have "guild_unions t = (\<lambda>v. if v = u then Some (un\<lparr>union_level := lvl, member_guild_count := n, election_votes_for := 0,
      election_votes_cast := 0\<rparr>) else if v \<in> set ps then None else guild_unions s v)"
    using s1' by (auto simp: t elevated_def)
  then show ?thesis
    using ok un m s1' elevate_frame(5-7)[OF step] order_trans[OF m(1), of n] unfolding unions_ok_def by (auto split: if_splits)
qed

definition guild_ok :: "'x guild_config \<Rightarrow> 'x guild_state \<Rightarrow> bool" where
  "guild_ok cfg s \<longleftrightarrow> quests_ok s \<and> (max_union_members cfg \<le> umax 32 \<and> next_union_id s < umax 32 \<longrightarrow> unions_ok cfg s)"

lemma next_union:
  assumes "guild_dispatch cfg (og, c) s = Ok t"
  shows "next_union_id t = next_union_id s \<or> next_union_id t = sat_add 32 (next_union_id s) 1"
proof (cases "(\<exists>tag ps. c = FormGuildUnion tag ps) \<or> (\<exists>u g a. c = VoteForGrandmaster u g a) \<or> (\<exists>u ps. c = ElevateUnion u ps)")
  case True
  then show ?thesis
    using assms vote_frame(6) elevate_frame(6) by (elim disjE exE) (auto split: if_splits elim: form_Ok)
next
  case False
  then show ?thesis using union_frame[OF assms] by blast
qed

lemma unions_ok_step:
  assumes ok: "unions_ok cfg s" and step: "guild_dispatch cfg (og, c) s = Ok t"
    and "max_union_members cfg \<le> umax 32" "next_union_id t < umax 32"
  shows "unions_ok cfg t"
proof (cases "(\<exists>tag ps. c = FormGuildUnion tag ps) \<or> (\<exists>u g a. c = VoteForGrandmaster u g a) \<or> (\<exists>u ps. c = ElevateUnion u ps)")
  case True
  then show ?thesis
    using assms unions_ok_vote[OF ok] unions_ok_elevate[OF ok] unions_ok_form[OF ok] by (elim disjE exE) (auto split: if_splits)
next
  case False
  then show ?thesis using union_frame[OF step] ok by (simp add: unions_ok_def)
qed

interpretation fellowship: pallet_machine "guild_dispatch cfg" "guild_foreign cfg" "guild_ok cfg" for cfg :: "'x guild_config"
proof
  fix s t :: "'x guild_state" and c
  assume ok: "guild_ok cfg s" and step: "guild_dispatch cfg c s = Ok t"
  obtain og k where c: "c = (og, k)" by (cases c)
  have "next_union_id s < umax 32" if "next_union_id t < umax 32"
    using next_union[OF step[unfolded c]] that by (auto simp: sat_add_def)
  then show "guild_ok cfg t"
    using ok quests_ok_step[OF _ step[unfolded c]] unions_ok_step[OF _ step[unfolded c]] by (auto simp: guild_ok_def)
next
  fix s t :: "'x guild_state"
  assume "guild_ok cfg s" "guild_foreign cfg s t"
  then show "guild_ok cfg t"
    using quests_ok_foreign[of s cfg t] by (auto simp: guild_ok_def guild_foreign_def unions_ok_def)
qed

lemma guild_start_ok: "guild_ok cfg (guild_start x)"
  by (simp add: guild_ok_def quests_ok_def unions_ok_def guild_start_def)

section \<open>Elections\<close>

lemma add_vote_keys: "map fst (add_vote t c) = (if c \<in> set (map fst t) then map fst t else map fst t @ [c])"
  by (induction t c rule: add_vote.induct) auto

lemma add_vote_map:
  "map_of (add_vote t c) = (map_of t)(c \<mapsto> (case map_of t c of Some n \<Rightarrow> sat_add 32 n 1 | None \<Rightarrow> 1))"
  by (induction t c rule: add_vote.induct) (auto simp: fun_eq_iff)

lemma votes_distinct: "distinct (map fst (foldl add_vote [] vs))"
  by (induction vs rule: rev_induct) (simp_all add: add_vote_keys)

lemma votes_counted:
  "length vs \<le> umax 32 \<Longrightarrow>
   map_of (foldl add_vote [] vs) = (\<lambda>d. if d \<in> set vs then Some (count_list vs d) else None)"
proof (induction vs rule: rev_induct)
  case (snoc c vs)
  have "count_list vs c + 1 \<le> umax 32" using count_le_length[of vs c] snoc.prems by simp
  then show ?case using snoc by (auto simp: add_vote_map fun_eq_iff sat_add_exact)
qed auto

lemma counts_disjoint: "c \<noteq> d \<Longrightarrow> count_list vs c + count_list vs d \<le> length vs"
  by (induction vs) auto

lemma find_member: "find P xs = Some x \<Longrightarrow> x \<in> set xs \<and> P x"
  by (induction xs) (auto split: if_splits)

text \<open>Who is elected does not depend on the order of the votes: it is the one with more than half of all guilds.\<close>

lemma elected_by_majority:
  assumes "length vs \<le> n_all" "length vs \<le> umax 32"
  shows "elected_by n_all vs = Some c \<longleftrightarrow> n_all div 2 < count_list vs c"
proof -
  let ?t = "foldl add_vote [] vs"
  have mem: "(d, n) \<in> set ?t \<longleftrightarrow> d \<in> set vs \<and> n = count_list vs d" for d n
    using votes_counted[OF assms(2)] map_of_eq_Some_iff[OF votes_distinct, of vs d n] by (auto split: if_splits)
  have only: "d = e" if "n_all div 2 < count_list vs d" "n_all div 2 < count_list vs e" for d e
    using counts_disjoint[of d e vs] that assms(1) by (cases "d = e") auto
  show ?thesis
  proof
    assume "elected_by n_all vs = Some c"
    then obtain n where "find (\<lambda>(c, n). n > n_all div 2) ?t = Some (c, n)" by (auto simp: elected_by_def Let_def)
    then have "(c, n) \<in> set ?t" "n > n_all div 2" by (auto dest: find_member)
    then show "n_all div 2 < count_list vs c" by (simp add: mem)
  next
    assume c: "n_all div 2 < count_list vs c"
    then have "c \<in> set vs" by (metis count_notin less_zeroE)
    then have "(c, count_list vs c) \<in> set ?t" by (simp add: mem)
    with c obtain d n where d: "find (\<lambda>(c, n). n > n_all div 2) ?t = Some (d, n)"
      by (cases "find (\<lambda>(c, n). n > n_all div 2) ?t") (auto simp: find_None_iff)
    then have "(d, n) \<in> set ?t" "n > n_all div 2" by (auto dest: find_member)
    with only[of d c] c have "d = c" by (simp add: mem)
    with d show "elected_by n_all vs = Some c" by (simp add: elected_by_def)
  qed
qed

text \<open>Each vote of a finite map is visited once.\<close>

definition iterates_votes :: "'x guild_config \<Rightarrow> bool" where
  "iterates_votes cfg \<longleftrightarrow> (\<forall>m. finite (dom m) \<longrightarrow> set (vote_order cfg m) = dom m \<and> distinct (vote_order cfg m))"

lemma count_map_filter: "count_list (List.map_filter f xs) c = length (filter (\<lambda>x. f x = Some c) xs)"
  by (induction xs) (auto simp: List.map_filter_simps split: option.split)

lemma length_map_filter: "length (List.map_filter f xs) \<le> length xs"
  by (induction xs) (auto simp: List.map_filter_simps split: option.split)

lemma ballots_counted:
  assumes "iterates_votes cfg" "finite (dom (grandmaster_votes s u))" "card (dom (grandmaster_votes s u)) \<le> max_union_members cfg"
  shows "count_list (union_ballots cfg u s) c = card {g. grandmaster_votes s u g = Some c}"
    "length (union_ballots cfg u s) \<le> card (dom (grandmaster_votes s u))"
proof -
  let ?m = "grandmaster_votes s u" and ?o = "vote_order cfg (grandmaster_votes s u)"
  have o_: "set ?o = dom ?m" "distinct ?o" using assms(1,2) unfolding iterates_votes_def by blast+
  then have len: "length ?o = card (dom ?m)" by (metis distinct_card)
  then have all: "union_ballots cfg u s = List.map_filter ?m ?o" using assms(3) by (simp add: union_ballots_def)
  then show "length (union_ballots cfg u s) \<le> card (dom ?m)" using length_map_filter[of ?m ?o] len by simp
  have "length (filter (\<lambda>g. ?m g = Some c) ?o) = card {g \<in> set ?o. ?m g = Some c}"
    using distinct_length_filter[OF o_(2), of "\<lambda>g. ?m g = Some c"] by (simp add: Int_def conj_commute)
  also have "{g \<in> set ?o. ?m g = Some c} = {g. ?m g = Some c}" using o_(1) by auto
  finally show "count_list (union_ballots cfg u s) c = card {g. ?m g = Some c}" by (simp add: all count_map_filter)
qed

lemma election_outcome:
  assumes ok: "unions_ok cfg s" and order: "iterates_votes cfg" and step: "vote_for_grandmaster cfg og u g c s = Ok t"
  shows "\<exists>un un'. guild_unions s u = Some un \<and> guild_unions t u = Some un'
    \<and> (\<forall>d. member_guild_count un div 2 < card {h. ((grandmaster_votes s u)(g \<mapsto> c)) h = Some d} \<longrightarrow>
          grandmaster un' = d \<and> grandmaster_votes t u = Map.empty)
    \<and> ((\<forall>d. card {h. ((grandmaster_votes s u)(g \<mapsto> c)) h = Some d} \<le> member_guild_count un div 2) \<longrightarrow>
          grandmaster un' = grandmaster un)"
proof -
  obtain un where un: "guild_unions s u = Some un" "guild_union_of s g = Some u"
      and t: "t = conclude_election cfg u (un\<lparr>election_votes_cast := sat_add 32 (election_votes_cast un) 1\<rparr>)
        (tally_grandmaster_votes cfg u (member_guild_count un) (voted u g c s))"
    by (rule grandmaster_vote_Ok[OF step]) (rule that)
  let ?v = "(grandmaster_votes s u)(g \<mapsto> c)"
  have v: "grandmaster_votes (voted u g c s) u = ?v" by (simp add: voted_def)
  have "dom ?v \<subseteq> {h. guild_union_of s h = Some u}" using ok un(2) unfolding unions_ok_def by auto
  then have "finite (dom ?v)" "card (dom ?v) \<le> card {h. guild_union_of s h = Some u}"
    using ok unfolding unions_ok_def by (meson finite_subset card_mono)+
  moreover have "card {h. guild_union_of s h = Some u} \<le> max_union_members cfg"
      "card {h. guild_union_of s h = Some u} \<le> member_guild_count un" "member_guild_count un \<le> umax 32"
    using ok un(1) unfolding unions_ok_def by blast+
  ultimately have dom: "finite (dom ?v)" "card (dom ?v) \<le> max_union_members cfg" "card (dom ?v) \<le> member_guild_count un"
      "card (dom ?v) \<le> umax 32" by linarith+
  note b = ballots_counted[of cfg "voted u g c s" u, unfolded v, OF order dom(1,2)]
  have elect: "elected_by (member_guild_count un) (union_ballots cfg u (voted u g c s)) = Some d
      \<longleftrightarrow> member_guild_count un div 2 < card {h. ?v h = Some d}" for d
    using elected_by_majority[of "union_ballots cfg u (voted u g c s)" "member_guild_count un" d] b dom(3,4) by simp
  show ?thesis
  proof (cases "elected_by (member_guild_count un) (union_ballots cfg u (voted u g c s))")
    case None
    have few: "card {h. ?v h = Some d} \<le> member_guild_count un div 2" for d using elect[of d] None by simp
    have "\<exists>un'. guild_unions t u = Some un' \<and> grandmaster un' = grandmaster un"
      by (simp add: t tally_grandmaster_votes_def None conclude_election_def clear_votes_def)
    with few un(1) show ?thesis by (metis leD)
  next
    case (Some d)
    have "\<exists>un'. guild_unions t u = Some un' \<and> grandmaster un' = d \<and> grandmaster_votes t u = Map.empty"
      by (simp add: t tally_grandmaster_votes_def Some conclude_election_def Let_def)
    moreover have "e = d" if "member_guild_count un div 2 < card {h. ?v h = Some e}" for e using elect[of e] that Some by simp
    moreover have "member_guild_count un div 2 < card {h. ?v h = Some d}" using elect[of d] Some by simp
    ultimately show ?thesis using un(1) by (metis leD)
  qed
qed

section \<open>Numbers of guilds and unions\<close>

definition guild_step :: "'x guild_config \<Rightarrow> 'x guild_state \<Rightarrow> 'x guild_state \<Rightarrow> bool" where
  "guild_step cfg s t \<longleftrightarrow> (\<exists>c. guild_dispatch cfg c s = Ok t) \<or> guild_foreign cfg s t"

lemma guilds_frame:
  assumes "guild_dispatch cfg (og, c) s = Ok t"
    "\<And>n tg d r. c \<noteq> CreateGuild n tg d r" "\<And>i. c \<noteq> JoinGuild i" "\<And>i v d. c \<noteq> PublishQuest i v d"
    "\<And>u g a. c \<noteq> VoteForGrandmaster u g a" "\<And>u ps. c \<noteq> ElevateUnion u ps"
  shows "guilds t = guilds s \<and> next_guild_id t = next_guild_id s"
  using assms by (cases c) (auto simp: guild_handlers ok_simps Let_def split: if_splits)

lemma guilds_effect:
  assumes "guild_dispatch cfg (og, c) s = Ok t"
  shows "(next_guild_id t = next_guild_id s \<and> dom (guilds t) = dom (guilds s))
    \<or> (next_guild_id t = sat_add 32 (next_guild_id s) 1 \<and> dom (guilds t) = insert (next_guild_id s) (dom (guilds s)))"
proof (cases c)
  case (VoteForGrandmaster u g a)
  then show ?thesis using assms vote_frame(7,8)[of cfg og u g a s t] by simp
next
  case (ElevateUnion u ps)
  then show ?thesis using assms elevate_frame(8,9)[of og u ps s t] by (simp split: if_splits)
next
  case (CreateGuild n tg d r)
  then obtain x where "guilds t = (guilds s)(next_guild_id s \<mapsto> x)" "next_guild_id t = sat_add 32 (next_guild_id s) 1"
    using assms by (auto simp: create_guild_def ok_simps Let_def)
  then show ?thesis by (intro disjI2) simp
next
  case (JoinGuild i)
  then obtain x y where "guilds s i = Some x" "guilds t = (guilds s)(i \<mapsto> y)" "next_guild_id t = next_guild_id s"
    using assms by (auto simp: join_guild_def ok_simps)
  then show ?thesis by (intro disjI1) (simp add: insert_absorb domIff)
next
  case (PublishQuest i v d)
  then obtain x y where "guilds s i = Some x" "guilds t = (guilds s)(i \<mapsto> y)" "next_guild_id t = next_guild_id s"
    using assms by (auto simp: publish_quest_def ok_simps Let_def)
  then show ?thesis by (intro disjI1) (simp add: insert_absorb domIff)
qed (use guilds_frame[OF assms] in auto)

interpretation charters: id_registry next_guild_id guilds "guild_step cfg" for cfg :: "'x guild_config"
proof
  fix s t :: "'x guild_state"
  assume st: "guild_step cfg s t"
  then consider og k where "guild_dispatch cfg (og, k) s = Ok t" | "guild_foreign cfg s t" unfolding guild_step_def by auto
  then show "(next_guild_id t = next_guild_id s \<and> dom (guilds t) = dom (guilds s))
    \<or> (next_guild_id t = sat_add 32 (next_guild_id s) 1 \<and> dom (guilds t) = insert (next_guild_id s) (dom (guilds s)))"
    by cases (use guilds_effect in blast, auto simp: guild_foreign_def)
qed

text \<open>Only guilds that exist are registered with a union.\<close>

definition members_exist :: "'x guild_state \<Rightarrow> bool" where
  "members_exist s \<longleftrightarrow> (\<forall>g. guild_union_of s g \<noteq> None \<longrightarrow> guilds s g \<noteq> None)
     \<and> (next_guild_id s < umax 32 \<longrightarrow> (\<forall>k\<in>dom (guilds s). k < next_guild_id s))"

lemma registered_exist:
  assumes "guild_dispatch cfg (og, c) s = Ok t" "guild_union_of t g \<noteq> None"
  shows "guild_union_of s g \<noteq> None \<or> guilds s g \<noteq> None"
proof (cases "\<exists>tag ps. c = FormGuildUnion tag ps")
  case True
  then obtain tag ps where "form_guild_union cfg og tag ps s = Ok t" using assms(1) by (auto split: if_splits)
  then obtain a where a: "ps \<noteq> []" "ensure_master a (hd ps) s = Ok ()" "\<forall>h\<in>set (tl ps). guilds s h \<noteq> None"
      "guild_union_of t = (\<lambda>h. if h \<in> set ps then Some (next_union_id s) else guild_union_of s h)"
    unfolding form_guild_union_def
    by (auto simp: ok_simps peers_free[unfolded not_None_eq] Let_def fold_register fun_eq_iff)
  then have "\<forall>h\<in>set ps. guilds s h \<noteq> None" by (cases ps) (auto simp: ensure_master_def ok_simps)
  with a(4) assms(2) show ?thesis by (auto split: if_splits)
next
  case False
  have "guild_union_of t = guild_union_of s"
  proof (cases "(\<exists>u g a. c = VoteForGrandmaster u g a) \<or> (\<exists>u ps. c = ElevateUnion u ps)")
    case True
    then show ?thesis using assms(1) vote_frame(5) elevate_frame(5) by (elim disjE exE) (auto split: if_splits)
  next
    case no: False
    then show ?thesis using union_frame[OF assms(1)] False by blast
  qed
  with assms(2) show ?thesis by simp
qed

lemma members_exist_step:
  assumes ok: "members_exist s" and step: "guild_dispatch cfg (og, c) s = Ok t"
  shows "members_exist t"
proof -
  have st: "guild_step cfg s t" using step unfolding guild_step_def by blast
  have "guilds t g \<noteq> None" if "guild_union_of t g \<noteq> None" for g
    using registered_exist[OF step that] ok charters.dom_mono[OF st] unfolding members_exist_def by blast
  moreover have "\<forall>k\<in>dom (guilds t). k < next_guild_id t" if "next_guild_id t < umax 32"
  proof -
    have "next_guild_id s < umax 32" using guilds_effect[OF step] that by (auto simp: sat_add_def)
    then show ?thesis using charters.ids_below_step[OF st] ok unfolding members_exist_def by blast
  qed
  ultimately show ?thesis by (simp add: members_exist_def)
qed

interpretation chapters: pallet_machine "guild_dispatch cfg" "guild_foreign cfg" members_exist for cfg :: "'x guild_config"
proof
  fix s t :: "'x guild_state" and c
  assume "members_exist s" "guild_dispatch cfg c s = Ok t"
  then show "members_exist t" by (cases c) (auto intro: members_exist_step)
qed (auto simp: members_exist_def guild_foreign_def)

text \<open>A guild of an absorbed union: the union is gone and its number is not given out again.\<close>

definition orphaned :: "nat \<Rightarrow> nat \<Rightarrow> 'x guild_state \<Rightarrow> bool" where
  "orphaned g p s \<longleftrightarrow> guild_union_of s g = Some p \<and> guild_unions s p = None \<and> p < next_union_id s"

lemma orphaned_step:
  assumes o_: "orphaned g p s" and step: "guild_dispatch cfg (og, c) s = Ok t" and last: "next_union_id t < umax 32"
  shows "orphaned g p t"
proof -
  have n: "next_union_id s \<le> next_union_id t"
    using next_union[OF step] last by (auto simp: sat_add_def)
  consider tag ps where "c = FormGuildUnion tag ps" | u h a where "c = VoteForGrandmaster u h a"
    | u ps where "c = ElevateUnion u ps"
    | "(\<forall>tag ps. c \<noteq> FormGuildUnion tag ps) \<and> (\<forall>u g a. c \<noteq> VoteForGrandmaster u g a) \<and> (\<forall>u ps. c \<noteq> ElevateUnion u ps)"
    by blast
  then show ?thesis
  proof cases
    case 1
    then have "form_guild_union cfg og tag ps s = Ok t" using step by (simp split: if_splits)
    then show ?thesis
    proof (rule form_Ok)
      fix a
      assume "\<forall>g\<in>set ps. guild_union_of s g = None"
        "guild_unions t = (guild_unions s)(next_union_id s \<mapsto> \<lparr>union_level = GuildArbad, founder_guild = hd ps,
           grandmaster = a, member_guild_count = length ps, union_tag = tag, election_votes_for = 0, election_votes_cast = 0\<rparr>)"
        "guild_union_of t = (\<lambda>g. if g \<in> set ps then Some (next_union_id s) else guild_union_of s g)"
      with o_ n show ?thesis by (auto simp: orphaned_def)
    qed
  next
    case 2
    then have v: "vote_for_grandmaster cfg og u h a s = Ok t" using step by simp
    obtain un where un: "guild_unions s u = Some un"
      and t: "t = conclude_election cfg u (un\<lparr>election_votes_cast := sat_add 32 (election_votes_cast un) 1\<rparr>)
        (tally_grandmaster_votes cfg u (member_guild_count un) (voted u h a s))"
      by (rule grandmaster_vote_Ok[OF v]) (rule that)
    have "guild_unions t p = guild_unions s p"
      using conclude_unions[of cfg u "un\<lparr>election_votes_cast := sat_add 32 (election_votes_cast un) 1\<rparr>"
        "tally_grandmaster_votes cfg u (member_guild_count un) (voted u h a s)", folded t] un o_
      by (auto simp: voted_def orphaned_def)
    then show ?thesis using o_ vote_frame(5,6)[OF v] by (simp add: orphaned_def)
  next
    case 3
    then have e: "elevate_union og u ps s = Ok t" using step by (simp split: if_splits)
    obtain un a lvl m s1 where un: "guild_unions s u = Some un"
      and s1: "absorb_unions u (union_level un) ps (member_guild_count un) s = Ok (m, s1)"
      and t: "t = (if lvl = GuildTumed then grant_academician a (union_tag un) (elevated u lvl a m un s1)
        else elevated u lvl a m un s1)"
      by (rule elevate_Ok[OF e]) (rule that)
    have "guild_unions s1 q = None" if "guild_unions s q = None" for q
      using absorb_removes[OF s1 that] .
    then have "guild_unions t p = None" using un o_ by (auto simp: t elevated_def orphaned_def)
    then show ?thesis using o_ elevate_frame(5,6)[OF e] by (simp add: orphaned_def)
  next
    case 4
    then show ?thesis using union_frame[OF step] o_ by (simp add: orphaned_def)
  qed
qed

end
