(* ===== verification/Guild_Claims.thy ===== *)
theory Guild_Claims
  imports Guild_Laws Black_Book
begin

text \<open>
  Properties of the guilds: the course of a quest and its reward, the election of a grandmaster, what happens to the
  guilds of an absorbed union, and how far one account gets alone, in the academy and in the councils.
\<close>

section \<open>Quests\<close>

lemma quest_course:
  assumes "reachable (guild_dispatch cfg) (guild_foreign cfg) s t" "quests_ok s" "quests s i = Some q"
  shows "quests_ok t \<and> (next_quest_id t < umax 32 \<longrightarrow> (\<exists>r. quests t i = Some r
    \<and> quest_edge\<^sup>*\<^sup>* (quest_status q) (quest_status r)
    \<and> quest_guild r = quest_guild q \<and> employer r = employer q \<and> reward r = reward q
    \<and> (quest_status q \<in> {Completed, Cancelled} \<longrightarrow> r = q)))"
  using assms(1)
proof (induction rule: reachable.induct)
  case start
  with assms show ?case by auto
next
  case (call u c v)
  obtain og k where c: "c = (og, k)" by (cases c)
  have v: "quests_ok v" using quests_ok_step[OF conjunct1[OF call.IH] call.hyps(2)[unfolded c]] .
  have "\<exists>r. quests v i = Some r \<and> quest_edge\<^sup>*\<^sup>* (quest_status q) (quest_status r)
      \<and> quest_guild r = quest_guild q \<and> employer r = employer q \<and> reward r = reward q
      \<and> (quest_status q \<in> {Completed, Cancelled} \<longrightarrow> r = q)" if "next_quest_id v < umax 32"
  proof -
    have u: "next_quest_id u < umax 32"
      using quest_effect[OF call.hyps(2)[unfolded c] conjunct1[OF call.IH]] that by (auto simp: sat_add_def)
    then obtain r where r: "quests u i = Some r" "quest_edge\<^sup>*\<^sup>* (quest_status q) (quest_status r)"
        "quest_guild r = quest_guild q" "employer r = employer q" "reward r = reward q"
        "quest_status q \<in> {Completed, Cancelled} \<longrightarrow> r = q" using call.IH by blast
    have "quest_step cfg u v" using call u unfolding quest_step_def by blast
    from quest_step_follows[OF this r(1)] obtain w where w: "quests v i = Some w" "quest_follows r w" by blast
    then show ?thesis using r
      by (auto simp: quest_follows_def same_terms_def quest_edge_def intro: rtranclp.rtrancl_into_rtrancl)
  qed
  with v show ?case by blast
next
  case (other u v)
  have n: "next_quest_id v = next_quest_id u" using other.hyps(2) by (auto simp: guild_foreign_def)
  have "\<exists>r. quests v i = Some r \<and> quest_edge\<^sup>*\<^sup>* (quest_status q) (quest_status r)
      \<and> quest_guild r = quest_guild q \<and> employer r = employer q \<and> reward r = reward q
      \<and> (quest_status q \<in> {Completed, Cancelled} \<longrightarrow> r = q)" if lim: "next_quest_id v < umax 32"
  proof -
    obtain r where r: "quests u i = Some r" "quest_edge\<^sup>*\<^sup>* (quest_status q) (quest_status r)"
        "quest_guild r = quest_guild q" "employer r = employer q" "reward r = reward q"
        "quest_status q \<in> {Completed, Cancelled} \<longrightarrow> r = q" using other.IH lim unfolding n by blast
    have "quest_step cfg u v" using other.hyps(2) unfolding quest_step_def by blast
    from quest_step_follows[OF this r(1)] obtain w where w: "quests v i = Some w" "quest_follows r w" by blast
    then show ?thesis using r
      by (auto simp: quest_follows_def same_terms_def quest_edge_def intro: rtranclp.rtrancl_into_rtrancl)
  qed
  with quests_ok_foreign[OF conjunct1[OF other.IH] other.hyps(2)] show ?case by blast
qed

text \<open>C24: Whatever calls, deaths and exiles follow, a quest keeps its guild, its employer and its reward while numbers
  last, moves from open over in progress and under review to completed, or is cancelled before review, and once it
  is completed or cancelled it never changes again.\<close>

theorem quest_runs_its_course:
  assumes "reachable (guild_dispatch cfg) (guild_foreign cfg) (guild_start x) s" "quests s i = Some q"
    and "reachable (guild_dispatch cfg) (guild_foreign cfg) s t" "next_quest_id t < umax 32"
  shows "\<exists>r. quests t i = Some r \<and> quest_edge\<^sup>*\<^sup>* (quest_status q) (quest_status r)
    \<and> quest_guild r = quest_guild q \<and> employer r = employer q \<and> reward r = reward q
    \<and> (quest_status q \<in> {Completed, Cancelled} \<longrightarrow> r = q)"
proof -
  have "quests_ok s" using fellowship.reachable_inv[OF assms(1) guild_start_ok] by (simp add: guild_ok_def)
  from quest_course[OF assms(3) this assms(2)] assms(4) show ?thesis by blast
qed

text \<open>A completed quest pays its assignee exactly the reward. It comes out of what is still reserved of the employer,
  for whatever purpose it was reserved; if that is less, the rest comes out of the free balance.\<close>

theorem reward_paid_from_reserve:
  assumes ok: "reservable_ok (guild_currency cfg)"
    and q: "quests s i = Some q" "assignee q = Some a" "a \<noteq> employer q"
    and t: "complete_quest cfg og i s = Ok t"
  shows "free_balance (guild_currency cfg) (guild_ledger t) a = free_balance (guild_currency cfg) (guild_ledger s) a + reward q
    \<and> reserved_balance (guild_currency cfg) (guild_ledger t) (employer q)
        = reserved_balance (guild_currency cfg) (guild_ledger s) (employer q) - reward q
    \<and> free_balance (guild_currency cfg) (guild_ledger t) (employer q) + reward q
        = free_balance (guild_currency cfg) (guild_ledger s) (employer q)
          + min (reward q) (reserved_balance (guild_currency cfg) (guild_ledger s) (employer q))
    \<and> map_option quest_status (quests t i) = Some Completed"
proof -
  let ?cur = "guild_currency cfg"
  obtain x where x: "transfer ?cur (unreserve ?cur (guild_ledger s) (employer q) (reward q)) (employer q) a (reward q) KeepAlive = Ok x"
    and t': "guild_ledger t = x" "map_option quest_status (quests t i) = Some Completed"
    using t q unfolding complete_quest_def release_reward_def by (auto simp: ok_simps Let_def count_quest_def)
  note free = transfer_keepD[OF reservable_currency[OF ok] x] and res = transfer_reserves[OF ok x]
  show ?thesis using free(1) free(3)[of a] free(3)[of "employer q"] q(3) t'
    by (simp add: res unreserve_simps[OF ok])
qed

section \<open>Unions\<close>

text \<open>C25: In every reachable state, and whatever order the storage iterates votes in, a vote makes a grandmaster of exactly
  the candidate whom more than half of all guilds of the union have voted for, which ends the round; without such a
  candidate the grandmaster stays.\<close>

theorem grandmaster_by_majority:
  assumes "reachable (guild_dispatch cfg) (guild_foreign cfg) (guild_start x) s" "next_union_id s < umax 32"
    and "max_union_members cfg \<le> umax 32" "iterates_votes cfg"
    and "vote_for_grandmaster cfg og u g c s = Ok t"
  shows "\<exists>un un'. guild_unions s u = Some un \<and> guild_unions t u = Some un'
    \<and> (\<forall>d. member_guild_count un div 2 < card {h. ((grandmaster_votes s u)(g \<mapsto> c)) h = Some d} \<longrightarrow>
          grandmaster un' = d \<and> grandmaster_votes t u = Map.empty)
    \<and> ((\<forall>d. card {h. ((grandmaster_votes s u)(g \<mapsto> c)) h = Some d} \<le> member_guild_count un div 2) \<longrightarrow>
          grandmaster un' = grandmaster un)"
proof -
  have "unions_ok cfg s"
    using fellowship.reachable_inv[OF assms(1) guild_start_ok] assms(2,3) by (simp add: guild_ok_def)
  then show ?thesis by (rule election_outcome[OF _ assms(4,5)])
qed

lemma orphaned_run:
  assumes "reachable (guild_dispatch cfg) (guild_foreign cfg) s t" "next_union_id t < umax 32"
  shows "next_union_id s \<le> next_union_id t \<and> (orphaned g p s \<longrightarrow> orphaned g p t)"
  using assms
proof (induction rule: reachable.induct)
  case (call u c v)
  obtain og' k where c: "c = (og', k)" by (cases c)
  have "next_union_id u < umax 32" "next_union_id u \<le> next_union_id v"
    using next_union[OF call.hyps(2)[unfolded c]] call.prems by (auto simp: sat_add_def)
  with call.IH orphaned_step[OF _ call.hyps(2)[unfolded c] call.prems] show ?case by fastforce
next
  case (other u v)
  then show ?case by (auto simp: guild_foreign_def orphaned_def)
qed simp

text \<open>The grandmaster of one union elevates it over others without a word of theirs, and the guilds of an absorbed union
  are orphaned: while numbers last they stay registered with a union that is gone, so they have no vote anywhere and can
  never join a union again.\<close>

theorem absorbed_guilds_are_orphaned:
  assumes "reachable (guild_dispatch cfg) (guild_foreign cfg) (guild_start x) s" "max_union_members cfg \<le> umax 32"
    and e: "elevate_union og base peers s = Ok s'" and p: "p \<in> set peers" "guild_union_of s g = Some p"
    and "reachable (guild_dispatch cfg) (guild_foreign cfg) s' t" and last: "next_union_id t < umax 32"
  shows "guild_union_of t g = Some p \<and> guild_unions t p = None
    \<and> (\<forall>og u c. \<exists>err. vote_for_grandmaster cfg og u g c t = Err err)
    \<and> (\<forall>og tag ps. g \<in> set ps \<longrightarrow> (\<exists>err. form_guild_union cfg og tag ps t = Err err))"
proof -
  have run: "next_union_id s' \<le> next_union_id t \<and> (orphaned g p s' \<longrightarrow> orphaned g p t)"
    by (rule orphaned_run[OF assms(6) last])
  then have "next_union_id s < umax 32" using last elevate_frame(6)[OF e] by simp
  then have ok: "unions_ok cfg s"
    using fellowship.reachable_inv[OF assms(1) guild_start_ok] assms(2) by (simp add: guild_ok_def)
  obtain un a lvl m s1 where un: "guild_unions s base = Some un"
    and s1: "absorb_unions base (union_level un) peers (member_guild_count un) s = Ok (m, s1)"
    and s': "s' = (if lvl = GuildTumed then grant_academician a (union_tag un) (elevated base lvl a m un s1)
      else elevated base lvl a m un s1)"
    by (rule elevate_Ok[OF e]) (rule that)
  have "member_guild_count un \<le> umax 32" using ok un unfolding unions_ok_def by blast
  from absorb_Ok[OF s1 this] p have "guild_unions s' p = None" by (auto simp: s' elevated_def)
  moreover have "p < next_union_id s" using ok p(2) unfolding unions_ok_def by blast
  ultimately have "orphaned g p s'" using p(2) elevate_frame(5,6)[OF e] by (simp add: orphaned_def)
  with run have t: "guild_union_of t g = Some p" "guild_unions t p = None" by (auto simp: orphaned_def)
  have "\<exists>err. vote_for_grandmaster cfg og u g c t = Err err" for og u c
  proof (cases "vote_for_grandmaster cfg og u g c t")
    case (Ok v)
    then show ?thesis using t by (elim grandmaster_vote_Ok) simp
  qed simp
  moreover have "\<exists>err. form_guild_union cfg og tag ps t = Err err" if "g \<in> set ps" for og tag ps
  proof (cases "form_guild_union cfg og tag ps t")
    case (Ok v)
    then show ?thesis using t that by (elim form_Ok) simp
  qed simp
  ultimately show ?thesis using t by blast
qed

section \<open>Alone\<close>

text \<open>The climb of one account: a guild, a union of this guild alone, and three elevations without peers.\<close>

definition solo_career :: "account \<Rightarrow> 'x guild_state \<Rightarrow> (origin \<times> guild_call) list" where
  "solo_career a s = [(Signed a, CreateGuild [] [] None 0), (Signed a, FormGuildUnion [] [next_guild_id s]),
     (Signed a, ElevateUnion (next_union_id s) []), (Signed a, ElevateUnion (next_union_id s) []),
     (Signed a, ElevateUnion (next_union_id s) [])]"

lemma solo_academician:
  assumes "guild_union_of s (next_guild_id s) = None" "1 \<le> max_union_members cfg"
  shows "Guild_Unions.is_academician (run (guild_dispatch cfg) (solo_career a s) s) a"
proof -
  let ?g = "next_guild_id s" and ?u = "next_union_id s"
  obtain s1 where s1: "create_guild cfg (Signed a) [] [] None 0 s = Ok s1"
      "guilds s1 ?g \<noteq> None" "guild_members s1 ?g a = Some Master" "guild_union_of s1 = guild_union_of s"
      "next_union_id s1 = ?u"
    by (simp add: create_guild_def Let_def)
  then obtain s2 where s2: "form_guild_union cfg (Signed a) [] [?g] s1 = Ok s2"
      "guild_unions s2 ?u = Some \<lparr>union_level = GuildArbad, founder_guild = ?g, grandmaster = a,
         member_guild_count = 1, union_tag = [], election_votes_for = 0, election_votes_cast = 0\<rparr>"
    using assms(1) by (auto simp: form_guild_union_def ensure_master_def Let_def)
  have up: "\<exists>v un'. elevate_union (Signed a) ?u [] w = Ok v \<and> guild_unions v ?u = Some un' \<and> grandmaster un' = a
      \<and> union_level un' = lvl \<and> (lvl = GuildTumed \<longrightarrow> Guild_Unions.is_academician v a)"
    if "guild_unions w ?u = Some un" "grandmaster un = a" "next_union_level (union_level un) = Some lvl" for w un lvl
    using that by (cases "union_level un") (auto simp: elevate_union_def Guild_Unions.is_academician_def academician_granted Let_def)
  from s2(2) up[of s2 _ GuildZun] obtain s3 u3 where s3: "elevate_union (Signed a) ?u [] s2 = Ok s3"
      "guild_unions s3 ?u = Some u3" "grandmaster u3 = a" "union_level u3 = GuildZun" by auto
  from up[OF s3(2,3), of GuildMyangad] s3(4) obtain s4 u4 where s4: "elevate_union (Signed a) ?u [] s3 = Ok s4"
      "guild_unions s4 ?u = Some u4" "grandmaster u4 = a" "union_level u4 = GuildMyangad" by auto
  from up[OF s4(2,3), of GuildTumed] s4(4) obtain s5 where s5: "elevate_union (Signed a) ?u [] s4 = Ok s5"
      "Guild_Unions.is_academician s5 a" by auto
  show ?thesis using s1(1) s2(1) s3(1) s4(1) s5 assms(2) by (simp add: solo_career_def execute_def)
qed

text \<open>C26: Any account at all makes itself an academician in five calls, with a guild of one member and a union of that one
  guild; from then on root cannot condemn it and issue a warrant, which calls for an impeachment that nothing provides.\<close>

theorem anyone_joins_the_academy:
  assumes "reachable (guild_dispatch cfg) (guild_foreign cfg) (guild_start x) s" "next_guild_id s < umax 32"
    and "1 \<le> max_union_members cfg"
    and bridge: "Black_Book.is_academician bcfg = (\<lambda>w. Guild_Unions.is_academician (halls w))"
    and b: "halls (bounty_world b) = run (guild_dispatch cfg) (solo_career a s) s"
  shows "Guild_Unions.is_academician (run (guild_dispatch cfg) (solo_career a s) s) a
    \<and> condemn_and_issue_warrant bcfg env Root a k h f v b = Err (Module RequiresImpeachment)"
proof -
  have "members_exist (guild_start x)" by (simp add: members_exist_def guild_start_def)
  from chapters.reachable_inv[OF assms(1) this] assms(2) have "guild_union_of s (next_guild_id s) = None"
    unfolding members_exist_def by (metis domIff less_irrefl)
  from solo_academician[OF this assms(3)] have "Guild_Unions.is_academician (run (guild_dispatch cfg) (solo_career a s) s) a" .
  then show ?thesis using b by (simp add: condemn_and_issue_warrant_def bridge)
qed

text \<open>The council of one: any account acts as the relayer, founds a guild under a fresh hash, is its council, and votes there
  on a proposal of another guild.\<close>

definition solo_council :: "account \<Rightarrow> h256 \<Rightarrow> h256 \<Rightarrow> (origin \<times> guild_call) list" where
  "solo_council a i p = [(Signed a, CreateGuildFromRelayer i a (replicate 9 a)), (Signed a, UpdateCouncil i [a]),
     (Signed a, VoteProposal i p a True)]"

text \<open>Any account passes any open proposal of any guild in three calls, whatever the council of that guild: the threshold is
  half the council of the guild named by the voter, which is not compared with the guild of the proposal.\<close>

theorem anyone_passes_any_proposal:
  assumes "guild_proposals s p = Some q" "verdict q = Voting" "a \<notin> proposal_ballots s p"
    and "guilds_by_uuid s i = None" "9 \<le> max_members cfg" "1 \<le> max_council_members cfg"
  shows "\<exists>r. guild_proposals (run (guild_dispatch cfg) (solo_council a i p) s) p = Some r
    \<and> verdict r = Passed \<and> proposal_guild r = proposal_guild q"
proof -
  have "0 < sat_add 32 (votes_for q) 1" by (simp add: sat_add_def umax_def)
  then show ?thesis
    using assms by (auto simp: solo_council_def execute_def create_guild_from_relayer_def update_council_from_relayer_def
        vote_proposal_from_relayer_def settle_proposal_def Let_def)
qed

section \<open>Witnesses\<close>

definition toy_hall :: "pouch guild_config" where
  "toy_hall = \<lparr>guild_currency = pouch_currency 1, max_name_length = 8, max_ipfs_cid_length = 8, max_union_members = 5,
     guild_treasury = (\<lambda>_. 70), max_members = 10, max_council_members = 5,
     quest_order = (\<lambda>m. sorted_list_of_set (dom m)), vote_order = (\<lambda>m. sorted_list_of_set (dom m))\<rparr>"

definition toy_savings :: pouch where
  "toy_savings = \<lparr>bal = (\<lambda>_. 0)(1 := 50, 2 := 5), issued = 55, lock_of = (\<lambda>_ _. None), set_aside = (\<lambda>_. 0)\<rparr>"

definition toy_guilds :: "pouch guild_state" where
  "toy_guilds = run (guild_dispatch toy_hall)
     [(Signed 1, CreateGuild [] [] None 0), (Signed 2, CreateGuild [] [] None 0), (Signed 3, CreateGuild [] [] None 0),
      (Signed 1, FormGuildUnion [] [0, 1]), (Signed 3, FormGuildUnion [] [2]), (Signed 2, JoinGuild 0),
      (Signed 1, PublishQuest 0 10 []), (Signed 2, AssignQuest 0), (Signed 2, SubmitQuest 0)] (guild_start toy_savings)"

definition toy_quest :: quest where
  "toy_quest = \<lparr>quest_guild = 0, employer = 1, reward = 10, quest_status = Review, assignee = Some 2,
     quest_description = [], assignee_quest_count = 0\<rparr>"

lemma toy_hall_sel [simp]:
  "guild_currency toy_hall = pouch_currency 1" "max_name_length toy_hall = 8" "max_ipfs_cid_length toy_hall = 8"
  "max_union_members toy_hall = 5" "max_members toy_hall = 10" "max_council_members toy_hall = 5"
  by (simp_all add: toy_hall_def)

lemma toy_guilds_reachable: "reachable (guild_dispatch toy_hall) (guild_foreign toy_hall) (guild_start toy_savings) toy_guilds"
  unfolding toy_guilds_def by (rule reachable_run[OF reachable.start])

lemma toy_guilds_eval:
  "quests toy_guilds = [0 \<mapsto> toy_quest]" "next_quest_id toy_guilds = 1" "next_guild_id toy_guilds = 3"
  "next_union_id toy_guilds = 2" "guild_union_of toy_guilds = [0 \<mapsto> 0, 1 \<mapsto> 0, 2 \<mapsto> 1]"
  "guild_unions toy_guilds = [0 \<mapsto> \<lparr>union_level = GuildArbad, founder_guild = 0, grandmaster = 1, member_guild_count = 2,
       union_tag = [], election_votes_for = 0, election_votes_cast = 0\<rparr>,
     1 \<mapsto> \<lparr>union_level = GuildArbad, founder_guild = 2, grandmaster = 3, member_guild_count = 1,
       union_tag = [], election_votes_for = 0, election_votes_cast = 0\<rparr>]"
  "guild_members toy_guilds 0 1 = Some Master" "guild_members toy_guilds 0 9 = None" "guilds toy_guilds 0 \<noteq> None"
  "grandmaster_votes toy_guilds u = Map.empty" "guild_proposals toy_guilds = Map.empty"
  "bal (guild_ledger toy_guilds) = (\<lambda>_. 0)(1 := 40, 2 := 5)" "set_aside (guild_ledger toy_guilds) = (\<lambda>_. 0)(1 := 10)"
  by (simp_all add: toy_guilds_def execute_def create_guild_def form_guild_union_def ensure_master_def join_guild_def
      publish_quest_def assign_quest_def submit_quest_def guild_start_def toy_savings_def toy_quest_def Let_def
      sat_add_def umax_def pouch_defs fun_eq_iff)

lemma toy_master: "guild_members toy_guilds 0 (Suc 0) = Some Master"
  using toy_guilds_eval(7) by simp

lemma quest_runs_its_course_witness:
  "\<exists>r. quests (execute (guild_dispatch toy_hall) (Signed 9, JoinGuild 0) toy_guilds) 0 = Some r
     \<and> quest_edge\<^sup>*\<^sup>* Review (quest_status r) \<and> reward r = 10"
proof -
  let ?t = "execute (guild_dispatch toy_hall) (Signed 9, JoinGuild 0) toy_guilds"
  have "reachable (guild_dispatch toy_hall) (guild_foreign toy_hall) toy_guilds ?t"
    by (rule reachable_execute[OF reachable.start])
  moreover have "next_quest_id ?t < umax 32"
  proof -
    obtain g where "guilds toy_guilds 0 = Some g" using toy_guilds_eval(9) by blast
    then show ?thesis by (simp add: execute_def join_guild_def toy_guilds_eval umax_def)
  qed
  ultimately show ?thesis
    using quest_runs_its_course[OF toy_guilds_reachable, of 0 toy_quest ?t]
    by (auto simp: toy_guilds_eval toy_quest_def)
qed

lemma reward_paid_from_reserve_witness:
  "\<exists>t. complete_quest toy_hall (Signed 1) 0 toy_guilds = Ok t \<and> bal (guild_ledger t) 2 = 15 \<and> set_aside (guild_ledger t) 1 = 0"
proof -
  obtain t where t: "complete_quest toy_hall (Signed 1) 0 toy_guilds = Ok t"
    using toy_guilds_eval(12,13) toy_master
    by (simp add: complete_quest_def release_reward_def toy_guilds_eval toy_quest_def Let_def pouch_defs book_defs)
  have "reservable_ok (guild_currency toy_hall)" by (simp add: pouch_reservable)
  from reward_paid_from_reserve[OF this _ _ _ t, of toy_quest 2] t show ?thesis
    by (simp add: toy_guilds_eval) (simp add: toy_quest_def)
qed

lemma grandmaster_by_majority_witness:
  "\<exists>t un'. vote_for_grandmaster toy_hall (Signed 1) 0 0 8 toy_guilds = Ok t \<and> guild_unions t 0 = Some un' \<and> grandmaster un' = 1"
proof -
  obtain t where t: "vote_for_grandmaster toy_hall (Signed 1) 0 0 8 toy_guilds = Ok t"
  proof -
    obtain g where "guilds toy_guilds 0 = Some g" using toy_guilds_eval(9) by blast
    then show ?thesis using that toy_master
      by (simp add: vote_for_grandmaster_def ensure_master_def toy_guilds_eval Let_def)
  qed
  have order: "iterates_votes toy_hall" by (simp add: iterates_votes_def toy_hall_def)
  have few: "card {h. ((grandmaster_votes toy_guilds 0)(0 \<mapsto> 8)) h = Some d} \<le> 1" for d
    by (simp add: toy_guilds_eval card_le_Suc0_iff_eq)
  have "next_union_id toy_guilds < umax 32" "max_union_members toy_hall \<le> umax 32"
    by (simp_all add: toy_guilds_eval umax_def)
  from grandmaster_by_majority[OF toy_guilds_reachable this order t] few t show ?thesis
    by (auto simp: toy_guilds_eval)
qed

lemma absorbed_guilds_are_orphaned_witness:
  "\<exists>t err. elevate_union (Signed 1) 0 [1] toy_guilds = Ok t \<and> guild_unions t 1 = None
     \<and> form_guild_union toy_hall (Signed 3) [] [2] t = Err err"
proof -
  obtain t where t: "elevate_union (Signed 1) 0 [1] toy_guilds = Ok t" "next_union_id t = 2"
    by (simp add: elevate_union_def toy_guilds_eval Let_def)
  then have "next_union_id t < umax 32" "max_union_members toy_hall \<le> umax 32" by (simp_all add: umax_def)
  from absorbed_guilds_are_orphaned[OF toy_guilds_reachable this(2) t(1) _ _ reachable.start this(1), of 1 2] t(1)
  show ?thesis by (fastforce simp: toy_guilds_eval)
qed

definition toy_warrants :: "pouch guild_state bounty_config" where
  "toy_warrants = \<lparr>bounty_currency = \<lparr>total_issuance = (\<lambda>_. 0), free_balance = (\<lambda>_ _. 0), deposit_creating = (\<lambda>s _ _. s),
       withdraw = (\<lambda>s _ _ _. Err 0), transfer = (\<lambda>s _ _ _ _. Err 0)\<rparr>,
     exile_target = (\<lambda>_ s. Ok s), is_academician = Guild_Unions.is_academician,
     is_active_khural_delegate = (\<lambda>_ _. False), bounty_treasury = 90, bounty_lock_period = 10\<rparr>"

lemma anyone_joins_the_academy_witness:
  "Guild_Unions.is_academician (run (guild_dispatch toy_hall) (solo_career 7 toy_guilds) toy_guilds) 7
    \<and> condemn_and_issue_warrant toy_warrants \<lparr>block_number = 1, extrinsic_index = None\<rparr> Root 7 HighTreason [] True 5
        \<lparr>bounty_world = run (guild_dispatch toy_hall) (solo_career 7 toy_guilds) toy_guilds, wall_of_shame = Map.empty,
          bounty_pools = Map.empty, locked_bounty_payouts = Map.empty, bounty_events = []\<rparr> = Err (Module RequiresImpeachment)"
proof -
  have bridge: "Black_Book.is_academician toy_warrants = (\<lambda>w. Guild_Unions.is_academician (id w))"
    by (simp add: toy_warrants_def)
  show ?thesis
    by (rule anyone_joins_the_academy[OF toy_guilds_reachable _ _ bridge]) (simp_all add: toy_guilds_eval umax_def)
qed

definition toy_motion :: "pouch guild_state" where
  "toy_motion = run (guild_dispatch toy_hall)
     [(Signed 1, CreateGuildFromRelayer [1] 1 (replicate 9 1)), (Signed 1, UpdateCouncil [1] [1, 2, 3]),
      (Signed 1, CreateProposal [1] [5] 2)] (guild_start toy_savings)"

lemma anyone_passes_any_proposal_witness:
  "\<exists>r. guild_proposals (run (guild_dispatch toy_hall) (solo_council 77 [2] [5]) toy_motion) [5] = Some r \<and> verdict r = Passed"
proof -
  have "guild_proposals toy_motion [5] = Some \<lparr>proposal_guild = [1], proposer = 2, votes_for = 0, votes_against = 0, verdict = Voting\<rparr>"
      "proposal_ballots toy_motion [5] = {}" "guilds_by_uuid toy_motion [2] = None"
    by (simp_all add: toy_motion_def execute_def create_guild_from_relayer_def update_council_from_relayer_def
        create_proposal_from_relayer_def guild_start_def)
  from anyone_passes_any_proposal[OF this(1) _ _ this(3), of 77 toy_hall] this(2) show ?thesis by auto
qed

end
