(* ===== verification/Licensing.thy ===== *)
theory Licensing
  imports Identity Reservable Referendum
begin

text \<open>
  \<^verbatim>\<open>pallets/licensing/src/lib.rs\<close>: ministries apply for licences, delegates vote on the applications, and the hook of the
  block at which the vote closes issues the licence or rejects the application.

  \<open>'x\<close> is the ledger with the storage of the identity pallet, read through \<open>citizen_of\<close>. The executive origin is that of
  the default build, root; \<open>Vec\<close> and \<open>BoundedVec\<close> are lists, with the bound checked where the code pushes or converts.
\<close>

section \<open>Data\<close>

datatype license_type =
    MineralExtraction | OilGasExtraction | WaterExtraction | ForestryHarvesting | FishingCommercial
  | AviationOperator | AviationCharter | AviationCargo | RailwayOperator | HazmatTransport
  | MicrofinanceLender | InsuranceProvider | CurrencyExchange
  | PharmaceuticalMfg | TelecomOperator | BroadcastMedia
  | LandConcession | SubsoilConcession | MiningPlot
  | WeaponsManufacture | NuclearOperator

definition BLOCKS_PER_YEAR :: nat where "BLOCKS_PER_YEAR = 5256000"
definition MAX_LICENSE_BLOCKS :: nat where "MAX_LICENSE_BLOCKS = BLOCKS_PER_YEAR * 10"
definition DEFAULT_LICENSE_BLOCKS :: nat where "DEFAULT_LICENSE_BLOCKS = BLOCKS_PER_YEAR * 3"

definition is_confederal_only :: "license_type \<Rightarrow> bool" where
  "is_confederal_only t \<longleftrightarrow> t \<in> {WeaponsManufacture, NuclearOperator}"

definition requires_supermajority :: "license_type \<Rightarrow> bool" where
  "requires_supermajority t = is_confederal_only t"

definition default_duration :: "license_type \<Rightarrow> nat" where
  "default_duration t =
     (if t \<in> {MineralExtraction, OilGasExtraction, SubsoilConcession, MiningPlot, ForestryHarvesting, TelecomOperator,
              RailwayOperator} then MAX_LICENSE_BLOCKS
      else if t \<in> {AviationOperator, AviationCharter, AviationCargo, HazmatTransport} then BLOCKS_PER_YEAR * 5
      else DEFAULT_LICENSE_BLOCKS)"

datatype app_status = PendingKhural | Approved | Rejected | Withdrawn

record ministry_record =
  tag :: "byte list"
  ministry_nation :: "nat option"
  is_active :: bool

record license_application =
  app_id :: nat
  org_account :: account
  license_type :: license_type
  region_id :: nat
  app_nation :: nat
  submitter :: account
  ministry_tag :: "byte list"
  audit_hash :: h256
  requested_duration :: nat
  app_votes_for :: nat
  app_votes_against :: nat
  app_status :: app_status
  app_end_block :: nat
  is_renewal :: bool
  renews_license_id :: "nat option"

record license =
  license_id :: nat
  license_org :: account
  licensed_type :: license_type
  license_region :: nat
  license_nation :: nat
  issued_block :: nat
  expires_block :: nat
  license_active :: bool
  license_audit :: h256
  license_app :: nat
  revocation_reason :: "byte list option"

datatype licensing_event =
    MinistryAuthorized account "byte list"
  | MinistryDeauthorized account
  | LicenseApplicationSubmitted nat account license_type nat nat h256
  | LicenseVoteCast nat account bool
  | LicenseIssued nat nat account license_type nat
  | LicenseApplicationRejected nat account
  | ApplicationDepositSlashed nat account balance
  | LicenseRevoked nat account "byte list"
  | LicenseRenewalSubmitted nat nat

datatype licensing_error =
    NotAuthorizedMinistry
  | AlreadyAuthorized
  | ApplicationNotFound
  | ApplicationNotActive
  | AlreadyVoted
  | NotKhuralDelegate
  | WrongNation
  | LicenseNotFound
  | LicenseNotActive
  | DurationExceedsConstitutionalMax
  | DurationMustBePositive
  | CitizenInactive
  | OnlyJudicialCanRevoke
  | RevocationReasonTooLong
  | TagTooLong
  | TooManyLicenses
  | TooManyAppsAtBlock
  | InsufficientDeposit
  | DepositNotFound
  | NotRegistered
  | RenewalTargetNotActive
  | NotConfederationDelegate

type_synonym licensing_failure = "licensing_error dispatch_error"

record 'x licensing_state =
  licensing_world :: 'x
  authorized_ministries :: "account \<Rightarrow> ministry_record option"
  license_applications :: "nat \<Rightarrow> license_application option"
  license_apps_ending :: "nat \<Rightarrow> nat list"
  has_voted_on_license :: "nat \<Rightarrow> account \<Rightarrow> bool"
  licenses :: "nat \<Rightarrow> license option"
  licenses_by_org :: "account \<Rightarrow> nat list"
  next_license_app_id :: nat
  next_license_id :: nat
  application_depositors :: "nat \<Rightarrow> (account \<times> balance) option"
  licensing_events :: "licensing_event list"

record 'x licensing_config =
  licensing_currency :: "'x reservable_currency"
  registered_citizen :: "'x \<Rightarrow> account \<Rightarrow> citizen_record option"
  license_voting_period :: nat
  min_license_quorum :: nat
  application_deposit :: balance

definition emit_licensing :: "licensing_event \<Rightarrow> 'x licensing_state \<Rightarrow> 'x licensing_state" where
  "emit_licensing e s = s\<lparr>licensing_events := licensing_events s @ [e]\<rparr>"

lemma emit_licensing_simps [simp]:
  "licensing_world (emit_licensing e s) = licensing_world s"
  "authorized_ministries (emit_licensing e s) = authorized_ministries s"
  "license_applications (emit_licensing e s) = license_applications s"
  "license_apps_ending (emit_licensing e s) = license_apps_ending s"
  "has_voted_on_license (emit_licensing e s) = has_voted_on_license s"
  "licenses (emit_licensing e s) = licenses s" "licenses_by_org (emit_licensing e s) = licenses_by_org s"
  "next_license_app_id (emit_licensing e s) = next_license_app_id s"
  "next_license_id (emit_licensing e s) = next_license_id s"
  "application_depositors (emit_licensing e s) = application_depositors s"
  by (simp_all add: emit_licensing_def)

section \<open>Enactment\<close>

definition block_saturated :: "nat \<Rightarrow> nat" where
  "block_saturated n = min n (umax 32)"

definition application_passes :: "'x licensing_config \<Rightarrow> license_application \<Rightarrow> bool" where
  "application_passes cfg a \<longleftrightarrow>
     (let total = sat_add 32 (app_votes_for a) (app_votes_against a) in
      min_license_quorum cfg \<le> app_votes_for a
      \<and> (if requires_supermajority (license_type a)
         then 0 < total \<and> sat_mul 32 total 2 \<le> sat_mul 32 (app_votes_for a) 3
         else app_votes_against a < app_votes_for a))"

text \<open>The index of the organization keeps at most 100 licences and drops further ones without an error.\<close>

definition index_license :: "nat \<Rightarrow> nat list \<Rightarrow> nat list" where
  "index_license l ids = (if length ids < 100 then ids @ [l] else ids)"

definition issue_license ::
  "'x licensing_config \<Rightarrow> nat \<Rightarrow> nat \<Rightarrow> license_application \<Rightarrow> 'x licensing_state \<Rightarrow> 'x licensing_state" where
  "issue_license cfg n i a s =
     (let l = next_license_id s;
          expiry = sat_add 32 n (requested_duration a);
          lic = \<lparr>license_id = l, license_org = org_account a, licensed_type = license_type a, license_region = region_id a,
                 license_nation = app_nation a, issued_block = n, expires_block = expiry, license_active = True,
                 license_audit = audit_hash a, license_app = i, revocation_reason = None\<rparr>;
          s1 = s\<lparr>licenses := (licenses s)(l \<mapsto> lic), next_license_id := sat_add 32 l 1,
                 licenses_by_org := (licenses_by_org s)(org_account a := index_license l (licenses_by_org s (org_account a))),
                 license_applications := (license_applications s)(i \<mapsto> a\<lparr>app_status := Approved\<rparr>)\<rparr>;
          s2 = (case application_depositors s1 i of
                  None \<Rightarrow> s1
                | Some (d, v) \<Rightarrow> s1\<lparr>application_depositors := (application_depositors s1)(i := None),
                    licensing_world := unreserve (licensing_currency cfg) (licensing_world s1) d v\<rparr>)
      in emit_licensing (LicenseIssued l i (org_account a) (license_type a) expiry) s2)"

text \<open>The event carries what was slashed, up to what is reserved.\<close>

definition reject_application ::
  "'x licensing_config \<Rightarrow> nat \<Rightarrow> license_application \<Rightarrow> 'x licensing_state \<Rightarrow> 'x licensing_state" where
  "reject_application cfg i a s =
     (let s1 = s\<lparr>license_applications := (license_applications s)(i \<mapsto> a\<lparr>app_status := Rejected\<rparr>)\<rparr>;
          s2 = (case application_depositors s1 i of
                  None \<Rightarrow> s1
                | Some (d, v) \<Rightarrow> emit_licensing
                    (ApplicationDepositSlashed i d (min v (reserved_balance (licensing_currency cfg) (licensing_world s1) d)))
                    (s1\<lparr>application_depositors := (application_depositors s1)(i := None),
                        licensing_world := slash_reserved (licensing_currency cfg) (licensing_world s1) d v\<rparr>))
      in emit_licensing (LicenseApplicationRejected i (org_account a)) s2)"

definition enact_application ::
  "'x licensing_config \<Rightarrow> nat \<Rightarrow> nat \<Rightarrow> license_application \<Rightarrow> 'x licensing_state \<Rightarrow> 'x licensing_state" where
  "enact_application cfg n i a s =
     (if application_passes cfg a then issue_license cfg n i a s else reject_application cfg i a s)"

text \<open>The hook takes the applications of its block off the index and enacts those still pending, each read anew.\<close>

definition enact_pending :: "'x licensing_config \<Rightarrow> nat \<Rightarrow> nat \<Rightarrow> 'x licensing_state \<Rightarrow> 'x licensing_state" where
  "enact_pending cfg n i s =
     (case license_applications s i of
        None \<Rightarrow> s
      | Some a \<Rightarrow> if app_status a = PendingKhural then enact_application cfg n i a s else s)"

definition on_initialize :: "'x licensing_config \<Rightarrow> nat \<Rightarrow> 'x licensing_state \<Rightarrow> 'x licensing_state" where
  "on_initialize cfg block s =
     (let n = block_saturated block in
      fold (enact_pending cfg n) (license_apps_ending s n)
        (s\<lparr>license_apps_ending := (license_apps_ending s)(n := [])\<rparr>))"

section \<open>Calls\<close>

definition current_block :: "env \<Rightarrow> nat" where
  "current_block env = block_saturated (block_number env)"

definition validate_khural_voter ::
  "'x licensing_config \<Rightarrow> account \<Rightarrow> license_application \<Rightarrow> 'x \<Rightarrow> (unit, licensing_failure) result" where
  "validate_khural_voter cfg who a x =
     ok_or (registered_citizen cfg x who) (Module NotRegistered) (\<lambda>r.
     ensure (status r = citizen_status.Active) (Module CitizenInactive) (
     if is_confederal_only (license_type a)
     then ensure (role r = ConfederationDelegate) (Module NotConfederationDelegate) (Ok ())
     else ensure (role r = KhuralDelegate) (Module NotKhuralDelegate) (
          ensure (nation_id r = app_nation a) (Module WrongNation) (Ok ()))))"

definition authorize_ministry ::
  "origin \<Rightarrow> account \<Rightarrow> byte list \<Rightarrow> nat option \<Rightarrow> 'x licensing_state \<Rightarrow> ('x licensing_state, licensing_failure) result" where
  "authorize_ministry og m t nation s =
     and_then (ensure_root og) (\<lambda>_.
     ensure (length t \<le> 64) (Module TagTooLong) (
     Ok (emit_licensing (MinistryAuthorized m t)
          (s\<lparr>authorized_ministries := (authorized_ministries s)(m \<mapsto>
               \<lparr>tag = t, ministry_nation = nation, is_active = True\<rparr>)\<rparr>))))"

definition deauthorize_ministry ::
  "origin \<Rightarrow> account \<Rightarrow> 'x licensing_state \<Rightarrow> ('x licensing_state, licensing_failure) result" where
  "deauthorize_ministry og m s =
     and_then (ensure_root og) (\<lambda>_.
     Ok (emit_licensing (MinistryDeauthorized m)
          (s\<lparr>authorized_ministries := (authorized_ministries s)(m := None)\<rparr>)))"

text \<open>What both kinds of applications do once they are checked: reserve the deposit, store, index.\<close>

definition file_application ::
  "'x licensing_config \<Rightarrow> account \<Rightarrow> license_application \<Rightarrow> licensing_event \<Rightarrow> 'x licensing_state
   \<Rightarrow> ('x licensing_state, licensing_failure) result" where
  "file_application cfg caller a e s =
     and_then (map_err (\<lambda>_. Module InsufficientDeposit)
       (reserve_funds (licensing_currency cfg) (licensing_world s) caller (application_deposit cfg))) (\<lambda>x.
     let i = next_license_app_id s; ids = license_apps_ending s (app_end_block a);
         s1 = s\<lparr>licensing_world := x, license_applications := (license_applications s)(i \<mapsto> a),
                next_license_app_id := sat_add 32 i 1\<rparr>
     in ensure (length ids < 50) (Module TooManyAppsAtBlock) (
        Ok (emit_licensing e
             (s1\<lparr>license_apps_ending := (license_apps_ending s1)(app_end_block a := ids @ [i]),
                 application_depositors := (application_depositors s1)(i \<mapsto> (caller, application_deposit cfg))\<rparr>))))"

definition submit_license_application ::
  "'x licensing_config \<Rightarrow> env \<Rightarrow> origin \<Rightarrow> account \<Rightarrow> license_type \<Rightarrow> nat \<Rightarrow> nat \<Rightarrow> h256 \<Rightarrow> nat \<Rightarrow> 'x licensing_state
   \<Rightarrow> ('x licensing_state, licensing_failure) result" where
  "submit_license_application cfg env og org lt region nation audit requested s =
     and_then (ensure_signed og) (\<lambda>caller.
     ok_or (authorized_ministries s caller) (Module NotAuthorizedMinistry) (\<lambda>m.
     ensure (is_active m) (Module NotAuthorizedMinistry) (
     ensure (requested = 0 \<or> requested \<le> MAX_LICENSE_BLOCKS) (Module DurationExceedsConstitutionalMax) (
     let i = next_license_app_id s; closing = sat_add 32 (current_block env) (license_voting_period cfg)
     in file_application cfg caller
          \<lparr>app_id = i, org_account = org, license_type = lt, region_id = region, app_nation = nation, submitter = caller,
           ministry_tag = tag m, audit_hash = audit,
           requested_duration = (if requested = 0 then default_duration lt else requested),
           app_votes_for = 0, app_votes_against = 0, app_status = PendingKhural, app_end_block = closing,
           is_renewal = False, renews_license_id = None\<rparr>
          (LicenseApplicationSubmitted i org lt nation closing audit) s))))"

definition count_license_vote :: "bool \<Rightarrow> license_application \<Rightarrow> license_application" where
  "count_license_vote approve a =
     (if approve then a\<lparr>app_votes_for := sat_add 32 (app_votes_for a) 1\<rparr>
      else a\<lparr>app_votes_against := sat_add 32 (app_votes_against a) 1\<rparr>)"

definition vote_on_license ::
  "'x licensing_config \<Rightarrow> env \<Rightarrow> origin \<Rightarrow> nat \<Rightarrow> bool \<Rightarrow> 'x licensing_state
   \<Rightarrow> ('x licensing_state, licensing_failure) result" where
  "vote_on_license cfg env og i approve s =
     and_then (ensure_signed og) (\<lambda>caller.
     ok_or (license_applications s i) (Module ApplicationNotFound) (\<lambda>a.
     ensure (app_status a = PendingKhural) (Module ApplicationNotActive) (
     ensure (current_block env < app_end_block a) (Module ApplicationNotActive) (
     and_then (validate_khural_voter cfg caller a (licensing_world s)) (\<lambda>_.
     ensure (\<not> has_voted_on_license s i caller) (Module AlreadyVoted) (
     Ok (emit_licensing (LicenseVoteCast i caller approve)
          (s\<lparr>has_voted_on_license := (has_voted_on_license s)(i := (has_voted_on_license s i)(caller := True)),
             license_applications := (license_applications s)(i \<mapsto> count_license_vote approve a)\<rparr>))))))))"

definition end_license :: "nat \<Rightarrow> license \<Rightarrow> byte list \<Rightarrow> 'x licensing_state \<Rightarrow> 'x licensing_state" where
  "end_license l lic reason s =
     emit_licensing (LicenseRevoked l (license_org lic) reason)
       (s\<lparr>licenses := (licenses s)(l \<mapsto> lic\<lparr>license_active := False, revocation_reason := Some reason\<rparr>)\<rparr>)"

definition revoke_license ::
  "origin \<Rightarrow> nat \<Rightarrow> byte list \<Rightarrow> 'x licensing_state \<Rightarrow> ('x licensing_state, licensing_failure) result" where
  "revoke_license og l reason s =
     and_then (ensure_root og) (\<lambda>_.
     ok_or (licenses s l) (Module LicenseNotFound) (\<lambda>lic.
     ensure (license_active lic) (Module LicenseNotActive) (
     Ok (end_license l lic reason s))))"

definition renew_license ::
  "'x licensing_config \<Rightarrow> env \<Rightarrow> origin \<Rightarrow> nat \<Rightarrow> h256 \<Rightarrow> nat \<Rightarrow> 'x licensing_state
   \<Rightarrow> ('x licensing_state, licensing_failure) result" where
  "renew_license cfg env og l audit requested s =
     and_then (ensure_signed og) (\<lambda>caller.
     ok_or (authorized_ministries s caller) (Module NotAuthorizedMinistry) (\<lambda>m.
     ensure (is_active m) (Module NotAuthorizedMinistry) (
     ok_or (licenses s l) (Module LicenseNotFound) (\<lambda>lic.
     ensure (license_active lic) (Module RenewalTargetNotActive) (
     ensure (requested = 0 \<or> requested \<le> MAX_LICENSE_BLOCKS) (Module DurationExceedsConstitutionalMax) (
     let i = next_license_app_id s
     in file_application cfg caller
          \<lparr>app_id = i, org_account = license_org lic, license_type = licensed_type lic, region_id = license_region lic,
           app_nation = license_nation lic, submitter = caller, ministry_tag = tag m, audit_hash = audit,
           requested_duration = (if requested = 0 then default_duration (licensed_type lic) else requested),
           app_votes_for = 0, app_votes_against = 0, app_status = PendingKhural,
           app_end_block = sat_add 32 (current_block env) (license_voting_period cfg),
           is_renewal = True, renews_license_id = Some l\<rparr>
          (LicenseRenewalSubmitted i l) s))))))"

section \<open>For other pallets\<close>

definition is_licensed :: "env \<Rightarrow> account \<Rightarrow> license_type \<Rightarrow> nat \<Rightarrow> 'x licensing_state \<Rightarrow> bool" where
  "is_licensed env org lt region s \<longleftrightarrow>
     (\<exists>lic \<in> set (List.map_filter (licenses s) (licenses_by_org s org)).
        license_active lic \<and> licensed_type lic = lt \<and> license_region lic = region \<and> current_block env < expires_block lic)"

definition judicial_revoke ::
  "nat \<Rightarrow> account \<Rightarrow> byte list \<Rightarrow> 'x licensing_state \<Rightarrow> ('x licensing_state, licensing_failure) result" where
  "judicial_revoke l holder reason s =
     ensure (length reason \<le> 256) (Module RevocationReasonTooLong) (
     ok_or (licenses s l) (Module LicenseNotFound) (\<lambda>lic.
     Ok (end_license l lic reason s)))"

section \<open>The pallet\<close>

datatype licensing_call =
    AuthorizeMinistry account "byte list" "nat option"
  | DeauthorizeMinistry account
  | SubmitLicenseApplication account license_type nat nat h256 nat
  | VoteOnLicense nat bool
  | RevokeLicense nat "byte list"
  | RenewLicense nat h256 nat

datatype licensing_op =
    LicensingExtrinsic env origin licensing_call
  | JudicialRevoke nat account "byte list"
  | LicensingBlock nat

fun licensing_dispatch ::
  "'x licensing_config \<Rightarrow> env \<times> origin \<times> licensing_call \<Rightarrow> 'x licensing_state
   \<Rightarrow> ('x licensing_state, licensing_failure) result" where
  "licensing_dispatch cfg (env, og, AuthorizeMinistry m t n) s = authorize_ministry og m t n s"
| "licensing_dispatch cfg (env, og, DeauthorizeMinistry m) s = deauthorize_ministry og m s"
| "licensing_dispatch cfg (env, og, SubmitLicenseApplication o' lt r n h d) s =
     submit_license_application cfg env og o' lt r n h d s"
| "licensing_dispatch cfg (env, og, VoteOnLicense i a) s = vote_on_license cfg env og i a s"
| "licensing_dispatch cfg (env, og, RevokeLicense l r) s = revoke_license og l r s"
| "licensing_dispatch cfg (env, og, RenewLicense l h d) s = renew_license cfg env og l h d s"

fun licensing_operate ::
  "'x licensing_config \<Rightarrow> licensing_op \<Rightarrow> 'x licensing_state \<Rightarrow> ('x licensing_state, licensing_failure) result" where
  "licensing_operate cfg (LicensingExtrinsic env og c) s = licensing_dispatch cfg (env, og, c) s"
| "licensing_operate cfg (JudicialRevoke l h r) s = judicial_revoke l h r s"
| "licensing_operate cfg (LicensingBlock n) s = Ok (on_initialize cfg n s)"

definition licensing_foreign :: "'x licensing_state \<Rightarrow> 'x licensing_state \<Rightarrow> bool" where
  "licensing_foreign s t \<longleftrightarrow> (\<exists>x. t = s\<lparr>licensing_world := x\<rparr>)"

definition licensing_start :: "'x \<Rightarrow> 'x licensing_state" where
  "licensing_start x = \<lparr>licensing_world = x, authorized_ministries = Map.empty, license_applications = Map.empty,
     license_apps_ending = (\<lambda>_. []), has_voted_on_license = (\<lambda>_ _. False), licenses = Map.empty,
     licenses_by_org = (\<lambda>_. []), next_license_app_id = 0, next_license_id = 0, application_depositors = Map.empty,
     licensing_events = []\<rparr>"

section \<open>Laws of the pallet\<close>

text \<open>
  The register of licences, an abstract machine over the applications, the ballots and the licences: applications are
  filed, voted on, granted or refused, and licences are ended. Every operation of the pallet is a run of the register, so
  its invariant holds of the pallet; its polls meet the contract \<open>referendum\<close>.
\<close>

section \<open>The register\<close>

record register =
  filed :: "nat \<Rightarrow> license_application option"
  ballots :: "nat \<Rightarrow> account set"
  granted :: "nat \<Rightarrow> license option"
  next_filed :: nat
  next_granted :: nat

definition register_of :: "'x licensing_state \<Rightarrow> register" where
  "register_of s = \<lparr>filed = license_applications s, ballots = (\<lambda>i. {a. has_voted_on_license s i a}), granted = licenses s,
     next_filed = next_license_app_id s, next_granted = next_license_id s\<rparr>"

lemma register_of_sel [simp]:
  "filed (register_of s) = license_applications s" "ballots (register_of s) i = {a. has_voted_on_license s i a}"
  "granted (register_of s) = licenses s" "next_filed (register_of s) = next_license_app_id s"
  "next_granted (register_of s) = next_license_id s"
  by (simp_all add: register_of_def)

lemma register_of_emit [simp]: "register_of (emit_licensing e s) = register_of s"
  by (simp add: register_of_def)

text \<open>What a licence takes over from its application.\<close>

definition matches :: "license_application \<Rightarrow> license \<Rightarrow> bool" where
  "matches a lic \<longleftrightarrow> license_org lic = org_account a \<and> licensed_type lic = license_type a
     \<and> license_region lic = region_id a \<and> license_nation lic = app_nation a \<and> license_audit lic = audit_hash a
     \<and> expires_block lic = sat_add 32 (issued_block lic) (requested_duration a)"

definition new_application :: "license_application \<Rightarrow> bool" where
  "new_application a \<longleftrightarrow> app_status a = PendingKhural \<and> app_votes_for a = 0 \<and> app_votes_against a = 0
     \<and> 0 < requested_duration a \<and> requested_duration a \<le> MAX_LICENSE_BLOCKS"

inductive register_step :: "'x licensing_config \<Rightarrow> register \<Rightarrow> register \<Rightarrow> bool" for cfg where
  filing: "new_application a \<Longrightarrow>
    register_step cfg r (r\<lparr>filed := (filed r)(next_filed r \<mapsto> a), next_filed := sat_add 32 (next_filed r) 1\<rparr>)"
| ballot: "filed r i = Some a \<Longrightarrow> app_status a = PendingKhural \<Longrightarrow> v \<notin> ballots r i \<Longrightarrow>
    register_step cfg r (r\<lparr>filed := (filed r)(i \<mapsto> count_license_vote b a), ballots := (ballots r)(i := insert v (ballots r i))\<rparr>)"
| grant: "filed r i = Some a \<Longrightarrow> app_status a = PendingKhural \<Longrightarrow> application_passes cfg a \<Longrightarrow> matches a lic \<Longrightarrow>
    license_app lic = i \<Longrightarrow> license_active lic \<Longrightarrow>
    register_step cfg r (r\<lparr>filed := (filed r)(i \<mapsto> a\<lparr>app_status := Approved\<rparr>),
      granted := (granted r)(next_granted r \<mapsto> lic), next_granted := sat_add 32 (next_granted r) 1\<rparr>)"
| refuse: "filed r i = Some a \<Longrightarrow> app_status a = PendingKhural \<Longrightarrow> \<not> application_passes cfg a \<Longrightarrow>
    register_step cfg r (r\<lparr>filed := (filed r)(i \<mapsto> a\<lparr>app_status := Rejected\<rparr>)\<rparr>)"
| ending: "granted r l = Some lic \<Longrightarrow>
    register_step cfg r (r\<lparr>granted := (granted r)(l \<mapsto> lic\<lparr>license_active := False, revocation_reason := Some reason\<rparr>)\<rparr>)"

section \<open>The pallet runs the register\<close>

abbreviation register_run :: "'x licensing_config \<Rightarrow> register \<Rightarrow> register \<Rightarrow> bool" where
  "register_run cfg \<equiv> (register_step cfg)\<^sup>*\<^sup>*"

lemma default_duration_range: "0 < default_duration lt \<and> default_duration lt \<le> MAX_LICENSE_BLOCKS"
  by (simp add: default_duration_def MAX_LICENSE_BLOCKS_def DEFAULT_LICENSE_BLOCKS_def BLOCKS_PER_YEAR_def)

lemma file_application_Ok:
  assumes "file_application cfg who a e s = Ok t"
  obtains x where
    "reserve_funds (licensing_currency cfg) (licensing_world s) who (application_deposit cfg) = Ok x" "licensing_world t = x"
    "license_applications t = (license_applications s)(next_license_app_id s \<mapsto> a)"
    "next_license_app_id t = sat_add 32 (next_license_app_id s) 1"
    "license_apps_ending t = (license_apps_ending s)(app_end_block a := license_apps_ending s (app_end_block a) @ [next_license_app_id s])"
    "application_depositors t = (application_depositors s)(next_license_app_id s \<mapsto> (who, application_deposit cfg))"
    "has_voted_on_license t = has_voted_on_license s" "licenses t = licenses s" "next_license_id t = next_license_id s"
    "licenses_by_org t = licenses_by_org s"
  using assms unfolding file_application_def Let_def by (auto simp: ok_simps)

lemma file_application_register:
  assumes "file_application cfg who a e s = Ok t" "new_application a"
  shows "register_step cfg (register_of s) (register_of t)"
proof -
  have "register_of t = (register_of s)\<lparr>filed := (filed (register_of s))(next_filed (register_of s) \<mapsto> a),
      next_filed := sat_add 32 (next_filed (register_of s)) 1\<rparr>"
    using assms(1) by (rule file_application_Ok) (simp add: register_of_def)
  then show ?thesis using filing[OF assms(2), of cfg "register_of s"] by (simp only:)
qed

lemma submit_Ok:
  assumes "submit_license_application cfg env og org lt region nation audit requested s = Ok t"
  obtains who a e where "og = Signed who" "file_application cfg who a e s = Ok t" "new_application a"
    "app_end_block a = sat_add 32 (current_block env) (license_voting_period cfg)"
proof -
  from assms obtain who m where og: "og = Signed who" and m: "authorized_ministries s who = Some m"
    and d: "requested = 0 \<or> requested \<le> MAX_LICENSE_BLOCKS"
    unfolding submit_license_application_def Let_def by (auto simp: ok_simps)
  let ?a = "\<lparr>app_id = next_license_app_id s, org_account = org, license_type = lt, region_id = region, app_nation = nation,
     submitter = who, ministry_tag = tag m, audit_hash = audit,
     requested_duration = (if requested = 0 then default_duration lt else requested),
     app_votes_for = 0, app_votes_against = 0, app_status = PendingKhural,
     app_end_block = sat_add 32 (current_block env) (license_voting_period cfg), is_renewal = False, renews_license_id = None\<rparr>"
  have "\<exists>e. file_application cfg who ?a e s = Ok t"
    using assms og m d unfolding submit_license_application_def Let_def by (auto simp: ok_simps)
  moreover have "new_application ?a" using d default_duration_range[of lt] by (auto simp: new_application_def)
  ultimately show ?thesis using that[of who ?a] og by auto
qed

lemma renew_Ok:
  assumes "renew_license cfg env og l audit requested s = Ok t"
  obtains who a e where "og = Signed who" "file_application cfg who a e s = Ok t" "new_application a"
    "app_end_block a = sat_add 32 (current_block env) (license_voting_period cfg)"
proof -
  from assms obtain who m lic where og: "og = Signed who" and m: "authorized_ministries s who = Some m"
    and lic: "licenses s l = Some lic" and d: "requested = 0 \<or> requested \<le> MAX_LICENSE_BLOCKS"
    unfolding renew_license_def Let_def by (auto simp: ok_simps)
  let ?a = "\<lparr>app_id = next_license_app_id s, org_account = license_org lic, license_type = licensed_type lic,
     region_id = license_region lic, app_nation = license_nation lic, submitter = who, ministry_tag = tag m,
     audit_hash = audit, requested_duration = (if requested = 0 then default_duration (licensed_type lic) else requested),
     app_votes_for = 0, app_votes_against = 0, app_status = PendingKhural,
     app_end_block = sat_add 32 (current_block env) (license_voting_period cfg),
     is_renewal = True, renews_license_id = Some l\<rparr>"
  have "\<exists>e. file_application cfg who ?a e s = Ok t"
    using assms og m lic d unfolding renew_license_def Let_def by (auto simp: ok_simps)
  moreover have "new_application ?a" using d default_duration_range[of "licensed_type lic"] by (auto simp: new_application_def)
  ultimately show ?thesis using that[of who ?a] og by auto
qed

lemma vote_license_Ok:
  assumes "vote_on_license cfg env og i b s = Ok t"
  obtains v a where "og = Signed v" "license_applications s i = Some a" "app_status a = PendingKhural"
    "\<not> has_voted_on_license s i v" "license_applications t = (license_applications s)(i \<mapsto> count_license_vote b a)"
    "has_voted_on_license t = (has_voted_on_license s)(i := (has_voted_on_license s i)(v := True))"
    "licenses t = licenses s" "next_license_app_id t = next_license_app_id s" "next_license_id t = next_license_id s"
    "license_apps_ending t = license_apps_ending s" "licenses_by_org t = licenses_by_org s"
  using assms unfolding vote_on_license_def by (auto simp: ok_simps)

lemma end_license_simps [simp]:
  "license_applications (end_license l lic r s) = license_applications s"
  "has_voted_on_license (end_license l lic r s) = has_voted_on_license s"
  "licenses (end_license l lic r s) = (licenses s)(l \<mapsto> lic\<lparr>license_active := False, revocation_reason := Some r\<rparr>)"
  "next_license_app_id (end_license l lic r s) = next_license_app_id s"
  "next_license_id (end_license l lic r s) = next_license_id s"
  "license_apps_ending (end_license l lic r s) = license_apps_ending s"
  "licenses_by_org (end_license l lic r s) = licenses_by_org s"
  by (simp_all add: end_license_def)

lemma issue_license_simps [simp]:
  "license_applications (issue_license cfg n i a s) = (license_applications s)(i \<mapsto> a\<lparr>app_status := Approved\<rparr>)"
  "has_voted_on_license (issue_license cfg n i a s) = has_voted_on_license s"
  "licenses (issue_license cfg n i a s) = (licenses s)(next_license_id s \<mapsto>
     \<lparr>license_id = next_license_id s, license_org = org_account a, licensed_type = license_type a, license_region = region_id a,
      license_nation = app_nation a, issued_block = n, expires_block = sat_add 32 n (requested_duration a),
      license_active = True, license_audit = audit_hash a, license_app = i, revocation_reason = None\<rparr>)"
  "next_license_app_id (issue_license cfg n i a s) = next_license_app_id s"
  "next_license_id (issue_license cfg n i a s) = sat_add 32 (next_license_id s) 1"
  "license_apps_ending (issue_license cfg n i a s) = license_apps_ending s"
  "licenses_by_org (issue_license cfg n i a s) = (licenses_by_org s)(org_account a :=
     index_license (next_license_id s) (licenses_by_org s (org_account a)))"
  by (auto simp: issue_license_def Let_def split: option.split)

lemma reject_application_simps [simp]:
  "license_applications (reject_application cfg i a s) = (license_applications s)(i \<mapsto> a\<lparr>app_status := Rejected\<rparr>)"
  "has_voted_on_license (reject_application cfg i a s) = has_voted_on_license s"
  "licenses (reject_application cfg i a s) = licenses s"
  "next_license_app_id (reject_application cfg i a s) = next_license_app_id s"
  "next_license_id (reject_application cfg i a s) = next_license_id s"
  "license_apps_ending (reject_application cfg i a s) = license_apps_ending s"
  "licenses_by_org (reject_application cfg i a s) = licenses_by_org s"
  by (auto simp: reject_application_def Let_def split: option.split)

lemma enact_pending_register: "register_run cfg (register_of s) (register_of (enact_pending cfg n i s))"
proof (cases "\<exists>a. license_applications s i = Some a \<and> app_status a = PendingKhural")
  case True
  then obtain a where a: "license_applications s i = Some a" "app_status a = PendingKhural" by blast
  show ?thesis
  proof (cases "application_passes cfg a")
    case True
    let ?t = "issue_license cfg n i a s"
    obtain lic where lic: "licenses ?t = (licenses s)(next_license_id s \<mapsto> lic)" "matches a lic" "license_app lic = i"
        "license_active lic" by (simp add: matches_def)
    have "register_step cfg (register_of s) (register_of ?t)"
      using grant[of "register_of s" i a cfg lic] a True lic by (simp add: register_of_def)
    with a True show ?thesis by (simp add: enact_pending_def enact_application_def)
  next
    case False
    have "register_step cfg (register_of s) (register_of (reject_application cfg i a s))"
      using refuse[of "register_of s" i a cfg] a False by (simp add: register_of_def)
    with a False show ?thesis by (simp add: enact_pending_def enact_application_def)
  qed
next
  case False
  then have "enact_pending cfg n i s = s" by (auto simp: enact_pending_def split: option.split)
  then show ?thesis by simp
qed

lemma enact_all_register: "register_run cfg (register_of s) (register_of (fold (enact_pending cfg n) is s))"
  by (induction "is" arbitrary: s) (auto intro: rtranclp_trans[OF enact_pending_register])

lemma block_register: "register_run cfg (register_of s) (register_of (on_initialize cfg n s))"
proof -
  let ?n = "block_saturated n"
  let ?s = "s\<lparr>license_apps_ending := (license_apps_ending s)(?n := [])\<rparr>"
  have "register_of ?s = register_of s" by (simp add: register_of_def)
  with enact_all_register[of cfg ?s ?n "license_apps_ending s ?n"] show ?thesis
    by (simp add: on_initialize_def Let_def)
qed

lemma dispatch_register:
  assumes "licensing_dispatch cfg (env, og, c) s = Ok t"
  shows "register_run cfg (register_of s) (register_of t)"
proof (cases c)
  case (SubmitLicenseApplication org lt r n h d)
  with assms have "submit_license_application cfg env og org lt r n h d s = Ok t" by simp
  then show ?thesis
    by (rule submit_Ok) (intro r_into_rtranclp file_application_register)
next
  case (RenewLicense l h d)
  with assms have "renew_license cfg env og l h d s = Ok t" by simp
  then show ?thesis
    by (rule renew_Ok) (intro r_into_rtranclp file_application_register)
next
  case (VoteOnLicense i b)
  with assms have "vote_on_license cfg env og i b s = Ok t" by simp
  then show ?thesis
  proof (rule vote_license_Ok)
    fix v a
    assume v: "license_applications s i = Some a" "app_status a = PendingKhural" "\<not> has_voted_on_license s i v"
      and t: "license_applications t = (license_applications s)(i \<mapsto> count_license_vote b a)"
        "has_voted_on_license t = (has_voted_on_license s)(i := (has_voted_on_license s i)(v := True))"
        "licenses t = licenses s" "next_license_app_id t = next_license_app_id s" "next_license_id t = next_license_id s"
    have "(\<lambda>j. {a. has_voted_on_license t j a}) = (ballots (register_of s))(i := insert v (ballots (register_of s) i))"
      by (rule ext) (auto simp: t(2))
    then have "register_of t = (register_of s)\<lparr>filed := (filed (register_of s))(i \<mapsto> count_license_vote b a),
        ballots := (ballots (register_of s))(i := insert v (ballots (register_of s) i))\<rparr>"
      by (simp add: register_of_def t)
    then show ?thesis using ballot[of "register_of s" i a v cfg b] v by (simp add: r_into_rtranclp)
  qed
next
  case (RevokeLicense l r)
  with assms obtain lic where "licenses s l = Some lic" "t = end_license l lic r s"
    by (auto simp: revoke_license_def ok_simps)
  with ending[of "register_of s" l lic cfg r] show ?thesis by (simp add: register_of_def r_into_rtranclp)
qed (use assms in \<open>auto simp: authorize_ministry_def deauthorize_ministry_def ok_simps register_of_def\<close>)

lemma operate_register:
  assumes "licensing_operate cfg c s = Ok t"
  shows "register_run cfg (register_of s) (register_of t)"
proof (cases c)
  case (LicensingExtrinsic env og k)
  with assms show ?thesis by (auto intro: dispatch_register)
next
  case (JudicialRevoke l h r)
  with assms obtain lic where "licenses s l = Some lic" "t = end_license l lic r s"
    by (auto simp: judicial_revoke_def ok_simps)
  with ending[of "register_of s" l lic cfg r] show ?thesis by (simp add: register_of_def r_into_rtranclp)
next
  case (LicensingBlock n)
  with assms show ?thesis by (auto intro: block_register)
qed

lemma foreign_register: "licensing_foreign s t \<Longrightarrow> register_of t = register_of s"
  by (auto simp: licensing_foreign_def register_of_def)

lemma reachable_register:
  "reachable (licensing_operate cfg) licensing_foreign s t \<Longrightarrow> register_run cfg (register_of s) (register_of t)"
proof (induction rule: reachable.induct)
  case (call u c v)
  from rtranclp_trans[OF call.IH operate_register[OF call.hyps(2)]] show ?case .
next
  case (other u v)
  with foreign_register[OF other.hyps(2)] show ?case by simp
qed simp

section \<open>Laws of the register\<close>

definition register_room :: "register \<Rightarrow> bool" where
  "register_room r \<longleftrightarrow> next_filed r < umax 32 \<and> next_granted r < umax 32"

text \<open>Numbers in use lie below the counters.\<close>

definition register_numbered :: "register \<Rightarrow> bool" where
  "register_numbered r \<longleftrightarrow> (\<forall>i\<ge>next_filed r. filed r i = None) \<and> (\<forall>l\<ge>next_granted r. granted r l = None)"

definition register_move :: "'x licensing_config \<Rightarrow> register \<Rightarrow> register \<Rightarrow> bool" where
  "register_move cfg r t \<longleftrightarrow> register_step cfg r t \<and> register_numbered r"

lemma register_room_back: "register_step cfg r t \<Longrightarrow> register_room t \<Longrightarrow> register_room r"
  by (induction rule: register_step.induct) (auto simp: register_room_def sat_add_def split: if_splits)

lemma register_numbered_step: "register_step cfg r t \<Longrightarrow> register_room t \<Longrightarrow> register_numbered r \<Longrightarrow> register_numbered t"
proof (induction rule: register_step.induct)
  case (filing a r)
  then have "sat_add 32 (next_filed r) 1 = Suc (next_filed r)" by (auto simp: register_room_def sat_add_def)
  with filing show ?case by (auto simp: register_numbered_def)
next
  case (grant r i a lic)
  then have "sat_add 32 (next_granted r) 1 = Suc (next_granted r)" by (auto simp: register_room_def sat_add_def)
  with grant show ?case by (auto simp: register_numbered_def)
qed (auto simp: register_numbered_def)

lemma register_moves:
  assumes "register_run cfg r t" "register_room t" "register_numbered r"
  shows "(register_move cfg)\<^sup>*\<^sup>* r t \<and> register_numbered t"
  using assms
proof (induction rule: rtranclp_induct)
  case (step t u)
  then have IH: "(register_move cfg)\<^sup>*\<^sup>* r t" "register_numbered t" using register_room_back by blast+
  then have "register_move cfg t u" using step.hyps(2) by (simp add: register_move_def)
  with IH step register_numbered_step show ?case by (metis rtranclp.rtrancl_into_rtrancl)
qed simp

lemma count_license_vote_simps [simp]:
  "app_status (count_license_vote b a) = app_status a" "app_end_block (count_license_vote b a) = app_end_block a"
  "requested_duration (count_license_vote b a) = requested_duration a"
  "app_votes_for (count_license_vote b a) = (if b then sat_add 32 (app_votes_for a) 1 else app_votes_for a)"
  "app_votes_against (count_license_vote b a) = (if b then app_votes_against a else sat_add 32 (app_votes_against a) 1)"
  by (simp_all add: count_license_vote_def)

abbreviation license_tallies :: "register \<Rightarrow> nat \<Rightarrow> (nat \<times> nat) option" where
  "license_tallies r i \<equiv> map_option (\<lambda>a. (app_votes_for a, app_votes_against a)) (filed r i)"

interpretation license_poll: referendum ballots license_tallies "register_move cfg" for cfg :: "'x licensing_config"
proof
  fix r t i
  assume "register_move cfg r t"
  then have "register_step cfg r t" and n: "register_numbered r" by (simp_all add: register_move_def)
  then show "(license_tallies t i = license_tallies r i \<and> ballots t i = ballots r i)
    \<or> (license_tallies r i = None \<and> license_tallies t i = Some (0, 0) \<and> ballots t i = ballots r i)
    \<or> (\<exists>v a m. license_tallies r i = Some (a, m) \<and> v \<notin> ballots r i \<and> ballots t i = insert v (ballots r i)
        \<and> license_tallies t i \<in> {Some (sat_add 32 a 1, m), Some (a, sat_add 32 m 1)})"
    by cases (auto simp: new_application_def register_numbered_def)
qed

text \<open>A licence changes only in being ended.\<close>

definition license_edge :: "license \<Rightarrow> license \<Rightarrow> bool" where
  "license_edge lic lic' \<longleftrightarrow> (\<exists>reason. lic' = lic\<lparr>license_active := False, revocation_reason := Some reason\<rparr>)"

interpretation grants: lifecycle granted license_edge "register_move cfg" for cfg :: "'x licensing_config"
proof
  fix r t l lic
  assume m: "register_move cfg r t" and "granted r l = Some lic" "granted t l \<noteq> Some lic"
  then have "register_step cfg r t" "register_numbered r" by (simp_all add: register_move_def)
  then show "\<exists>lic'. granted t l = Some lic' \<and> license_edge lic lic'"
    using \<open>granted r l = Some lic\<close> \<open>granted t l \<noteq> Some lic\<close>
    by cases (auto simp: register_numbered_def license_edge_def split: if_splits)
qed

definition same_license :: "license \<Rightarrow> license \<Rightarrow> bool" where
  "same_license lic lic' \<longleftrightarrow> (license_active lic' \<longrightarrow> license_active lic)
     \<and> lic' = lic\<lparr>license_active := license_active lic', revocation_reason := revocation_reason lic'\<rparr>"

lemma edges_same_license: "license_edge\<^sup>*\<^sup>* lic lic' \<Longrightarrow> same_license lic lic'"
proof (induction rule: rtranclp_induct)
  case (step y z)
  then obtain act why where "y = lic\<lparr>license_active := act, revocation_reason := why\<rparr>"
    unfolding same_license_def by blast
  with step.hyps(2) show ?case by (auto simp: same_license_def license_edge_def)
qed (simp add: same_license_def)

text \<open>Licences and approved applications correspond one to one.\<close>

definition backed :: "'x licensing_config \<Rightarrow> register \<Rightarrow> bool" where
  "backed cfg r \<longleftrightarrow> (\<forall>l lic. granted r l = Some lic \<longrightarrow> (\<exists>a. filed r (license_app lic) = Some a \<and> app_status a = Approved
     \<and> application_passes cfg a \<and> matches a lic))"

definition single :: "register \<Rightarrow> bool" where
  "single r \<longleftrightarrow> (\<forall>l m lic lic'. granted r l = Some lic \<longrightarrow> granted r m = Some lic' \<longrightarrow> license_app lic = license_app lic' \<longrightarrow> l = m)"

definition served :: "register \<Rightarrow> bool" where
  "served r \<longleftrightarrow> (\<forall>i a. filed r i = Some a \<longrightarrow> app_status a = Approved \<longrightarrow> (\<exists>l lic. granted r l = Some lic \<and> license_app lic = i))"

definition limited :: "register \<Rightarrow> bool" where
  "limited r \<longleftrightarrow> (\<forall>i a. filed r i = Some a \<longrightarrow> requested_duration a \<le> MAX_LICENSE_BLOCKS)"

lemmas register_laws = backed_def single_def served_def limited_def

lemma passes_same [simp]: "application_passes cfg (a\<lparr>app_status := st\<rparr>) = application_passes cfg a"
  by (simp add: application_passes_def)

lemma matches_same [simp]: "matches (a\<lparr>app_status := st\<rparr>) lic = matches a lic"
    "matches a (lic\<lparr>license_active := act, revocation_reason := why\<rparr>) = matches a lic"
  by (simp_all add: matches_def)

lemma register_step_backed: "register_step cfg r t \<Longrightarrow> register_numbered r \<Longrightarrow> backed cfg r \<Longrightarrow> backed cfg t"
proof (induction rule: register_step.induct)
  case (filing a r)
  then have "license_app lic \<noteq> next_filed r" if "granted r l = Some lic" for l lic
    using that by (force simp: register_numbered_def backed_def)
  with filing show ?case by (auto simp: backed_def)
next
  case (ending r l lic reason)
  then show ?case by (fastforce simp: backed_def)
qed (fastforce simp: backed_def)+

lemma register_step_single: "register_step cfg r t \<Longrightarrow> register_numbered r \<Longrightarrow> backed cfg r \<Longrightarrow> single r \<Longrightarrow> single t"
proof (induction rule: register_step.induct)
  case (grant r i a lic)
  then have "\<forall>l lic'. granted r l = Some lic' \<longrightarrow> license_app lic' \<noteq> i" by (force simp: backed_def)
  moreover have "\<forall>l m lic lic'. granted r l = Some lic \<longrightarrow> granted r m = Some lic' \<longrightarrow> license_app lic = license_app lic' \<longrightarrow> l = m"
    using grant.prems unfolding single_def by blast
  ultimately show ?case using grant.hyps(5) unfolding single_def by (simp split: if_split) blast
qed (auto simp: single_def)

lemma register_step_served: "register_step cfg r t \<Longrightarrow> register_numbered r \<Longrightarrow> served r \<Longrightarrow> served t"
proof (induction rule: register_step.induct)
  case (grant r i a lic)
  have none: "granted r (next_granted r) = None" using grant.prems by (simp add: register_numbered_def)
  show ?case
    unfolding served_def
  proof (intro allI impI)
    fix j b
    assume b: "filed (r\<lparr>filed := (filed r)(i \<mapsto> a\<lparr>app_status := Approved\<rparr>),
        granted := (granted r)(next_granted r \<mapsto> lic), next_granted := sat_add 32 (next_granted r) 1\<rparr>) j = Some b" "app_status b = Approved"
    show "\<exists>l lic'. granted (r\<lparr>filed := (filed r)(i \<mapsto> a\<lparr>app_status := Approved\<rparr>),
        granted := (granted r)(next_granted r \<mapsto> lic), next_granted := sat_add 32 (next_granted r) 1\<rparr>) l = Some lic' \<and> license_app lic' = j"
    proof (cases "j = i")
      case True
      with grant.hyps show ?thesis by auto
    next
      case False
      with b have "filed r j = Some b" by simp
      with b(2) grant.prems(2) obtain l lic' where "granted r l = Some lic'" "license_app lic' = j"
        unfolding served_def by blast
      with none show ?thesis by (intro exI[of _ l] exI[of _ lic']) auto
    qed
  qed
next
  case (ending r l lic reason)
  show ?case
    unfolding served_def
  proof (intro allI impI)
    fix j b
    assume "filed (r\<lparr>granted := (granted r)(l \<mapsto> lic\<lparr>license_active := False, revocation_reason := Some reason\<rparr>)\<rparr>) j = Some b"
      "app_status b = Approved"
    then have "filed r j = Some b" "app_status b = Approved" by simp_all
    with ending.prems(2) obtain m lic' where m: "granted r m = Some lic'" "license_app lic' = j"
      unfolding served_def by blast
    with ending.hyps show "\<exists>m lic'. granted (r\<lparr>granted := (granted r)(l \<mapsto> lic\<lparr>license_active := False,
        revocation_reason := Some reason\<rparr>)\<rparr>) m = Some lic' \<and> license_app lic' = j"
      by (cases "m = l") (auto intro: exI[of _ m])
  qed
qed (auto simp: served_def new_application_def)

lemma register_step_limited: "register_step cfg r t \<Longrightarrow> register_numbered r \<Longrightarrow> limited r \<Longrightarrow> limited t"
  by (induction rule: register_step.induct) (auto simp: limited_def new_application_def)

definition register_ok :: "'x licensing_config \<Rightarrow> register \<Rightarrow> bool" where
  "register_ok cfg r \<longleftrightarrow> backed cfg r \<and> single r \<and> served r \<and> limited r \<and> license_poll.tallied r"

lemma register_ok_move: "register_move cfg r t \<Longrightarrow> register_ok cfg r \<Longrightarrow> register_ok cfg t"
  using license_poll.tallied_step[of cfg r t] unfolding register_ok_def register_move_def
  by (blast intro: register_step_backed register_step_single register_step_served register_step_limited)

lemma register_ok_run: "(register_move cfg)\<^sup>*\<^sup>* r t \<Longrightarrow> register_ok cfg r \<Longrightarrow> register_ok cfg t"
  by (induction rule: rtranclp_induct) (auto intro: register_ok_move)

lemma start_register: "register_ok cfg (register_of (licensing_start x))" "register_numbered (register_of (licensing_start x))"
  by (simp_all add: register_ok_def register_laws license_poll.tallied_def register_numbered_def licensing_start_def)

lemma reachable_moves:
  assumes "reachable (licensing_operate cfg) licensing_foreign s t" "register_room (register_of t)" "register_numbered (register_of s)"
  shows "(register_move cfg)\<^sup>*\<^sup>* (register_of s) (register_of t)" "register_numbered (register_of t)"
  using register_moves[OF reachable_register[OF assms(1)] assms(2,3)] by blast+

lemma reachable_ok:
  assumes "reachable (licensing_operate cfg) licensing_foreign (licensing_start x) s" "register_room (register_of s)"
  shows "register_ok cfg (register_of s)"
  by (rule register_ok_run[OF reachable_moves(1)[OF assms start_register(2)] start_register(1)])

text \<open>An application changes by votes and by the decision, while it is pending.\<close>

definition application_edge :: "license_application \<Rightarrow> license_application \<Rightarrow> bool" where
  "application_edge a b \<longleftrightarrow> app_status a = PendingKhural
     \<and> ((\<exists>k. b = count_license_vote k a) \<or> (\<exists>st. st \<noteq> PendingKhural \<and> b = a\<lparr>app_status := st\<rparr>))"

interpretation filings: lifecycle filed application_edge "register_move cfg" for cfg :: "'x licensing_config"
proof
  fix r t i a
  assume m: "register_move cfg r t" and "filed r i = Some a" "filed t i \<noteq> Some a"
  then have "register_step cfg r t" "register_numbered r" by (simp_all add: register_move_def)
  then show "\<exists>b. filed t i = Some b \<and> application_edge a b"
    using \<open>filed r i = Some a\<close> \<open>filed t i \<noteq> Some a\<close>
    by cases (auto simp: register_numbered_def application_edge_def split: if_splits)
qed

lemma edges_keep_end: "application_edge\<^sup>*\<^sup>* a b \<Longrightarrow> app_end_block b = app_end_block a"
  by (induction rule: rtranclp_induct) (auto simp: application_edge_def)

lemma register_room_run: "register_room (register_of t) \<Longrightarrow> register_run cfg (register_of s) (register_of t) \<Longrightarrow> register_room (register_of s)"
proof -
  have "register_run cfg r r' \<Longrightarrow> register_room r' \<Longrightarrow> register_room r" for r r'
    by (induction rule: converse_rtranclp_induct) (auto intro: register_room_back)
  then show "register_room (register_of t) \<Longrightarrow> register_run cfg (register_of s) (register_of t) \<Longrightarrow> register_room (register_of s)"
    by blast
qed

section \<open>The index of closing blocks\<close>

definition indexed :: "'x licensing_state \<Rightarrow> bool" where
  "indexed s \<longleftrightarrow> (\<forall>i a. license_applications s i = Some a \<longrightarrow> app_status a = PendingKhural \<longrightarrow>
     i \<in> set (license_apps_ending s (app_end_block a)))"

lemma indexedD:
  "indexed s \<Longrightarrow> license_applications s i = Some a \<Longrightarrow> app_status a = PendingKhural \<Longrightarrow> app_end_block a = n
   \<Longrightarrow> i \<in> set (license_apps_ending s n)"
  by (auto simp: indexed_def)

lemma indexedI:
  "(\<And>i a. license_applications s i = Some a \<Longrightarrow> app_status a = PendingKhural \<Longrightarrow>
     i \<in> set (license_apps_ending s (app_end_block a))) \<Longrightarrow> indexed s"
  by (auto simp: indexed_def)

definition decision :: "'x licensing_config \<Rightarrow> license_application \<Rightarrow> license_application" where
  "decision cfg a = (if app_status a = PendingKhural
     then a\<lparr>app_status := (if application_passes cfg a then Approved else Rejected)\<rparr> else a)"

lemma enact_pending_simps [simp]:
  "license_applications (enact_pending cfg n i s) = (license_applications s)(i := map_option (decision cfg) (license_applications s i))"
  "license_apps_ending (enact_pending cfg n i s) = license_apps_ending s"
  by (auto simp: enact_pending_def enact_application_def decision_def fun_eq_iff split: option.split)

lemma decision_idem [simp]: "decision cfg (decision cfg a) = decision cfg a"
  by (simp add: decision_def)

lemma fold_enact:
  "license_applications (fold (enact_pending cfg n) is s) i =
     (if i \<in> set is then map_option (decision cfg) (license_applications s i) else license_applications s i)"
  "license_apps_ending (fold (enact_pending cfg n) is s) = license_apps_ending s"
  by (induction "is" arbitrary: s) (auto simp: option.map_comp comp_def)

lemma block_applications:
  "license_applications (on_initialize cfg n s) i = (if i \<in> set (license_apps_ending s (block_saturated n))
     then map_option (decision cfg) (license_applications s i) else license_applications s i)"
  "license_apps_ending (on_initialize cfg n s) = (license_apps_ending s)(block_saturated n := [])"
  by (simp_all add: on_initialize_def Let_def fold_enact)

lemma decision_pending: "app_status (decision cfg a) \<noteq> PendingKhural"
  by (simp add: decision_def)

lemma decision_end: "app_end_block (decision cfg a) = app_end_block a"
  by (simp add: decision_def)

lemma block_next_app: "next_license_app_id (on_initialize cfg n s) = next_license_app_id s"
proof -
  have one: "next_license_app_id (enact_pending cfg m i u) = next_license_app_id u" for m i u
    by (auto simp: enact_pending_def enact_application_def split: option.split)
  have "next_license_app_id (fold (enact_pending cfg m) is u) = next_license_app_id u" for m "is" u
    by (induction "is" arbitrary: u) (simp_all add: one)
  then show ?thesis by (simp add: on_initialize_def Let_def)
qed

lemma map_filter_elem: "(\<exists>y\<in>set (List.map_filter f xs). P y) \<longleftrightarrow> (\<exists>x\<in>set xs. \<exists>y. f x = Some y \<and> P y)"
  by (induction xs) (auto simp: List.map_filter_simps split: option.split)

lemma block_indexed: "indexed s \<Longrightarrow> indexed (on_initialize cfg n s)"
  by (rule indexedI) (auto simp: block_applications decision_pending dest: indexedD split: if_splits)

lemma file_indexed:
  assumes "file_application cfg who a e s = Ok t" "indexed s"
  shows "indexed t"
  using assms(1)
  by (rule file_application_Ok) (rule indexedI, auto intro: indexedD[OF assms(2)] split: if_splits)

lemma vote_indexed:
  assumes "vote_on_license cfg env og i b s = Ok t" "indexed s"
  shows "indexed t"
  using assms(1)
  by (rule vote_license_Ok) (rule indexedI, auto intro: indexedD[OF assms(2)] split: if_splits)

lemma operate_indexed:
  assumes "indexed s" "licensing_operate cfg c s = Ok t"
  shows "indexed t"
proof (cases c)
  case (LicensingExtrinsic env og k)
  show ?thesis
  proof (cases k)
    case (SubmitLicenseApplication org lt r n h d)
    with LicensingExtrinsic assms have "submit_license_application cfg env og org lt r n h d s = Ok t" by simp
    then show ?thesis by (rule submit_Ok) (rule file_indexed[OF _ assms(1)])
  next
    case (RenewLicense l h d)
    with LicensingExtrinsic assms have "renew_license cfg env og l h d s = Ok t" by simp
    then show ?thesis by (rule renew_Ok) (rule file_indexed[OF _ assms(1)])
  next
    case (VoteOnLicense i b)
    with LicensingExtrinsic assms have "vote_on_license cfg env og i b s = Ok t" by simp
    then show ?thesis by (rule vote_indexed) (rule assms(1))
  qed (use LicensingExtrinsic assms in
      \<open>auto simp: authorize_ministry_def deauthorize_ministry_def revoke_license_def ok_simps indexed_def\<close>)
next
  case (JudicialRevoke l h r)
  with assms show ?thesis by (auto simp: judicial_revoke_def ok_simps indexed_def)
qed (use assms in \<open>auto intro: block_indexed\<close>)

interpretation docket: pallet_machine "licensing_operate cfg" licensing_foreign indexed for cfg :: "'x licensing_config"
proof
  show "indexed t" if "indexed s" "licensing_operate cfg c s = Ok t" for s t c using that by (rule operate_indexed)
  show "indexed t" if "indexed s" "licensing_foreign s t" for s t using that by (auto simp: licensing_foreign_def indexed_def)
qed

section \<open>The licences of an organization\<close>

definition listed :: "'x licensing_state \<Rightarrow> bool" where
  "listed s \<longleftrightarrow> (\<forall>org. set (licenses_by_org s org) \<subseteq> dom (licenses s))"

text \<open>The list of an organization grows up to a hundred entries.\<close>

definition list_grows :: "'x licensing_state \<Rightarrow> 'x licensing_state \<Rightarrow> bool" where
  "list_grows s t \<longleftrightarrow> (listed s \<longrightarrow> listed t)
     \<and> (\<forall>org. 100 \<le> length (licenses_by_org s org) \<longrightarrow> licenses_by_org t org = licenses_by_org s org)"

lemma list_grows_refl [simp]: "list_grows s s"
  by (simp add: list_grows_def)

lemma list_grows_trans: "list_grows s t \<Longrightarrow> list_grows t u \<Longrightarrow> list_grows s u"
  unfolding list_grows_def by metis

lemma list_grows_same: "licenses_by_org t = licenses_by_org s \<Longrightarrow> dom (licenses s) \<subseteq> dom (licenses t) \<Longrightarrow> list_grows s t"
  unfolding list_grows_def listed_def by (metis subset_trans)

lemma enact_grows: "list_grows s (enact_pending cfg n i s)"
  by (auto simp: enact_pending_def enact_application_def list_grows_def listed_def index_license_def split: option.split)

lemma block_grows: "list_grows s (on_initialize cfg n s)"
proof -
  have fold_grows: "list_grows u (fold (enact_pending cfg m) is u)" for "is" u m
    by (induction "is" arbitrary: u) (auto intro: list_grows_trans[OF enact_grows])
  have "list_grows s (s\<lparr>license_apps_ending := f\<rparr>)" for f by (rule list_grows_same) simp_all
  then show ?thesis unfolding on_initialize_def Let_def by (rule list_grows_trans) (rule fold_grows)
qed

lemma file_grows: "file_application cfg who a e s = Ok t \<Longrightarrow> list_grows s t"
  by (rule file_application_Ok) (auto intro: list_grows_same)

lemma vote_grows: "vote_on_license cfg env og i b s = Ok t \<Longrightarrow> list_grows s t"
  by (rule vote_license_Ok) (auto intro: list_grows_same)

lemma operate_grows:
  assumes "licensing_operate cfg c s = Ok t"
  shows "list_grows s t"
proof (cases c)
  case (LicensingExtrinsic env og k)
  show ?thesis
  proof (cases k)
    case (SubmitLicenseApplication org lt r n h d)
    with LicensingExtrinsic assms have "submit_license_application cfg env og org lt r n h d s = Ok t" by simp
    then show ?thesis by (rule submit_Ok) (rule file_grows)
  next
    case (RenewLicense l h d)
    with LicensingExtrinsic assms have "renew_license cfg env og l h d s = Ok t" by simp
    then show ?thesis by (rule renew_Ok) (rule file_grows)
  next
    case (VoteOnLicense i b)
    with LicensingExtrinsic assms have "vote_on_license cfg env og i b s = Ok t" by simp
    then show ?thesis by (rule vote_grows)
  qed (use LicensingExtrinsic assms in
      \<open>auto simp: authorize_ministry_def deauthorize_ministry_def revoke_license_def ok_simps intro!: list_grows_same\<close>)
next
  case (JudicialRevoke l h r)
  with assms show ?thesis by (auto simp: judicial_revoke_def ok_simps intro!: list_grows_same)
qed (use assms in \<open>auto intro: block_grows\<close>)

lemma reachable_grows: "reachable (licensing_operate cfg) licensing_foreign s t \<Longrightarrow> list_grows s t"
proof (induction rule: reachable.induct)
  case (call u c v)
  from list_grows_trans[OF call.IH operate_grows[OF call.hyps(2)]] show ?case .
next
  case (other u v)
  from other.hyps(2) have "list_grows u v" by (auto simp: licensing_foreign_def intro!: list_grows_same)
  from list_grows_trans[OF other.IH this] show ?case .
qed simp

end
