(* ===== verification/Licensing_Claims.thy ===== *)
theory Licensing_Claims
  imports Licensing
begin

text \<open>
  Properties of licensing: a licence stands on one approved application and its votes, an application is decided when its
  vote closes, and an organization with a hundred licences on record gets no further ones.
\<close>

text \<open>C27: Licences stand on votes. While numbers last, every licence ever issued, expired and revoked ones included, has an
  application of its own that was approved: organization, kind, region and nation are those applied for, it runs for at
  most ten years, the votes for reach the quorum and outnumber those against, by two to one for weapons and
  nuclear operation, and they are the votes of distinct accounts.\<close>

theorem licenses_stand_on_votes:
  assumes s: "reachable (licensing_operate cfg) licensing_foreign (licensing_start x) s"
    and room: "next_license_app_id s < umax 32" "next_license_id s < umax 32"
    and l: "licenses s l = Some lic"
  shows "\<exists>a. license_applications s (license_app lic) = Some a \<and> app_status a = Approved
    \<and> min_license_quorum cfg \<le> app_votes_for a
    \<and> (if license_type a \<in> {WeaponsManufacture, NuclearOperator}
       then sat_mul 32 (sat_add 32 (app_votes_for a) (app_votes_against a)) 2 \<le> sat_mul 32 (app_votes_for a) 3
       else app_votes_against a < app_votes_for a)
    \<and> license_org lic = org_account a \<and> licensed_type lic = license_type a \<and> license_region lic = region_id a
    \<and> license_nation lic = app_nation a \<and> expires_block lic \<le> issued_block lic + MAX_LICENSE_BLOCKS
    \<and> (\<forall>m lic'. licenses s m = Some lic' \<and> license_app lic' = license_app lic \<longrightarrow> m = l)
    \<and> (card {v. has_voted_on_license s (license_app lic) v} \<le> umax 32 \<longrightarrow>
        app_votes_for a + app_votes_against a = card {v. has_voted_on_license s (license_app lic) v})"
proof -
  have "register_room (register_of s)" using room by (simp add: register_room_def)
  from reachable_ok[OF s this] have ok: "backed cfg (register_of s)" "single (register_of s)" "limited (register_of s)"
    "license_poll.tallied (register_of s)" by (simp_all add: register_ok_def)
  from ok(1) l obtain a where a: "license_applications s (license_app lic) = Some a" "app_status a = Approved"
      "application_passes cfg a" "matches a lic" unfolding backed_def by auto
  from ok(3) a(1) have "requested_duration a \<le> MAX_LICENSE_BLOCKS" unfolding limited_def by auto
  then have "expires_block lic \<le> issued_block lic + MAX_LICENSE_BLOCKS"
    using a(4) sat_add_le[of 32 "issued_block lic" "requested_duration a"] by (simp add: matches_def)
  moreover have "\<forall>m lic'. licenses s m = Some lic' \<and> license_app lic' = license_app lic \<longrightarrow> m = l"
    using ok(2) l unfolding single_def by auto
  moreover have "card {v. has_voted_on_license s (license_app lic) v} \<le> umax 32 \<longrightarrow>
      app_votes_for a + app_votes_against a = card {v. has_voted_on_license s (license_app lic) v}"
    using ok(4) a(1) unfolding license_poll.tallied_def by (auto dest: spec[of _ "license_app lic"])
  moreover note votes = a(3)[unfolded application_passes_def requires_supermajority_def is_confederal_only_def Let_def]
  ultimately show ?thesis using a(1,2,4) by (intro exI[of _ a]) (simp add: matches_def split: if_splits)
qed

text \<open>C28: Applications are decided. Whatever follows a submission, the block at which its vote closes decides it, as the votes
  cast until then demand, unless a block of that number had decided it before; and an approval leaves a licence behind.\<close>

theorem applications_are_decided:
  assumes s: "reachable (licensing_operate cfg) licensing_foreign (licensing_start x) s"
    and t: "submit_license_application cfg env og org lt region nation audit requested s = Ok t"
    and u: "reachable (licensing_operate cfg) licensing_foreign t u"
    and n: "block_saturated n = sat_add 32 (current_block env) (license_voting_period cfg)"
    and room: "next_license_app_id u < umax 32" "next_license_id (on_initialize cfg n u) < umax 32"
  shows "\<exists>a b. license_applications u (next_license_app_id s) = Some a
    \<and> license_applications (on_initialize cfg n u) (next_license_app_id s) = Some b
    \<and> (if app_status a = PendingKhural then app_status b = (if application_passes cfg a then Approved else Rejected) else b = a)
    \<and> (app_status b = Approved \<longrightarrow> (\<exists>l lic. licenses (on_initialize cfg n u) l = Some lic
        \<and> license_app lic = next_license_app_id s \<and> license_org lic = org_account b \<and> licensed_type lic = license_type b))"
proof -
  let ?v = "on_initialize cfg n u" and ?i = "next_license_app_id s"
  have "licensing_operate cfg (LicensingExtrinsic env og (SubmitLicenseApplication org lt region nation audit requested)) s = Ok t"
    using t by simp
  from reachable.call[OF s this] have rt: "reachable (licensing_operate cfg) licensing_foreign (licensing_start x) t" .
  from rt u have ru: "reachable (licensing_operate cfg) licensing_foreign (licensing_start x) u"
    unfolding reachable_iff_steps by (rule rtranclp_trans)
  from reachable.call[OF ru, of "LicensingBlock n"] have rv: "reachable (licensing_operate cfg) licensing_foreign (licensing_start x) ?v"
    by simp
  have run: "register_run cfg (register_of u) (register_of ?v)" by (rule block_register)
  have "next_license_app_id ?v = next_license_app_id u" by (rule block_next_app)
  then have room_v: "register_room (register_of ?v)" using room by (simp add: register_room_def)
  have room_u: "register_room (register_of u)" using room_v run by (rule register_room_run)
  have "register_room (register_of t)" using room_u reachable_register[OF u] by (rule register_room_run)
  then have num: "register_numbered (register_of t)" by (rule reachable_moves(2)[OF rt _ start_register(2)])
  from t obtain a0 where a0: "license_applications t ?i = Some a0" "app_end_block a0 = block_saturated n"
    by (elim submit_Ok file_application_Ok) (simp add: n)
  from filings.steps_edges[OF reachable_moves(1)[OF u room_u num], of ?i a0] a0(1)
  obtain a where a: "license_applications u ?i = Some a" "application_edge\<^sup>*\<^sup>* a0 a" by auto
  have "app_end_block a = block_saturated n" using edges_keep_end[OF a(2)] a0(2) by simp
  moreover have "indexed u" by (rule docket.reachable_inv[OF ru]) (simp add: indexed_def licensing_start_def)
  ultimately have "app_status a = PendingKhural \<Longrightarrow> ?i \<in> set (license_apps_ending u (block_saturated n))"
    using a(1) by (intro indexedD[of u])
  then have b: "license_applications ?v ?i = Some (decision cfg a)"
    using a(1) by (cases "app_status a = PendingKhural") (auto simp: block_applications decision_def)
  have ok: "backed cfg (register_of ?v)" "served (register_of ?v)"
    using reachable_ok[OF rv room_v] by (simp_all add: register_ok_def)
  have "\<exists>l lic. licenses ?v l = Some lic \<and> license_app lic = ?i \<and> license_org lic = org_account (decision cfg a)
      \<and> licensed_type lic = license_type (decision cfg a)" if appr: "app_status (decision cfg a) = Approved"
  proof -
    obtain l lic where l: "licenses ?v l = Some lic" "license_app lic = ?i"
      using ok(2) b appr unfolding served_def register_of_sel by blast
    then have "matches (decision cfg a) lic" using ok(1) b unfolding backed_def register_of_sel by fastforce
    with l show ?thesis unfolding matches_def by blast
  qed
  with a(1) b show ?thesis by (auto simp: decision_def)
qed

text \<open>A hundred licences are all. Once an organization has a hundred licences on record, revoked and expired ones
  included, no later licence counts: whatever follows, the organization is licensed for something only if it was so by then.\<close>

theorem hundred_licenses_are_all:
  assumes s: "reachable (licensing_operate cfg) licensing_foreign (licensing_start x) s"
    and t: "reachable (licensing_operate cfg) licensing_foreign s t"
    and room: "next_license_app_id t < umax 32" "next_license_id t < umax 32"
    and full: "100 \<le> length (licenses_by_org s org)" and lic: "is_licensed env org lt region t"
  shows "is_licensed env org lt region s"
proof -
  have room_t: "register_room (register_of t)" using room by (simp add: register_room_def)
  have room_s: "register_room (register_of s)" using room_t reachable_register[OF t] by (rule register_room_run)
  have num: "register_numbered (register_of s)" by (rule reachable_moves(2)[OF s room_s start_register(2)])
  have ids: "licenses_by_org t org = licenses_by_org s org"
    using reachable_grows[OF t] full by (simp add: list_grows_def)
  have known: "listed s" using reachable_grows[OF s] by (simp add: list_grows_def listed_def licensing_start_def)
  from lic obtain l g where l: "l \<in> set (licenses_by_org s org)" "licenses t l = Some g" "license_active g" "licensed_type g = lt"
      "license_region g = region" "current_block env < expires_block g"
    unfolding is_licensed_def ids map_filter_elem by blast
  then obtain g0 where g0: "licenses s l = Some g0" using known unfolding listed_def by blast
  from grants.steps_edges[OF reachable_moves(1)[OF t room_t num], of l g0] g0 l(2)
  have "same_license g0 g" by (auto intro: edges_same_license)
  then have "license_active g0" "licensed_type g0 = lt" "license_region g0 = region" "current_block env < expires_block g0"
    using l(3-6) unfolding same_license_def by (metis license.select_convs license.surjective license.update_convs)+
  with l(1) g0 show ?thesis unfolding is_licensed_def map_filter_elem by blast
qed

section \<open>A ministry and its delegate\<close>

text \<open>Account 7 is a ministry, account 21 a delegate of nation 3, and account 50 an organization.\<close>

definition toy_delegate :: citizen_record where
  "toy_delegate = (fresh_citizen 1 3 KhuralDelegate True None None Internal [] [] [])"

definition toy_ministry :: "pouch licensing_config" where
  "toy_ministry = \<lparr>licensing_currency = pouch_currency 1,
     registered_citizen = (\<lambda>_ a. if a = 21 then Some toy_delegate else None),
     license_voting_period = 10, min_license_quorum = 1, application_deposit = 0\<rparr>"

definition toy_purse :: pouch where
  "toy_purse = \<lparr>bal = (\<lambda>_. 0), issued = 0, lock_of = (\<lambda>_ _. None), set_aside = (\<lambda>_. 0)\<rparr>"

abbreviation day_five :: env where
  "day_five \<equiv> \<lparr>block_number = 5, extrinsic_index = None\<rparr>"

abbreviation toy_submit :: licensing_op where
  "toy_submit \<equiv> LicensingExtrinsic day_five (Signed 7) (SubmitLicenseApplication 50 MineralExtraction 4 3 [] 0)"

abbreviation toy_vote :: "nat \<Rightarrow> licensing_op" where
  "toy_vote k \<equiv> LicensingExtrinsic day_five (Signed 21) (VoteOnLicense k True)"

definition toy_open :: "pouch licensing_state" where
  "toy_open = execute (licensing_operate toy_ministry)
     (LicensingExtrinsic day_five Root (AuthorizeMinistry 7 [] None)) (licensing_start toy_purse)"

abbreviation toy_reached :: "pouch licensing_state \<Rightarrow> bool" where
  "toy_reached \<equiv> reachable (licensing_operate toy_ministry) licensing_foreign (licensing_start toy_purse)"

lemma toy_ministry_sel [simp]:
  "licensing_currency toy_ministry = pouch_currency 1" "license_voting_period toy_ministry = 10"
  "min_license_quorum toy_ministry = 1" "application_deposit toy_ministry = 0"
  "registered_citizen toy_ministry x 21 = Some toy_delegate" "status toy_delegate = citizen_status.Active"
  "role toy_delegate = KhuralDelegate" "nation_id toy_delegate = 3"
  by (simp_all add: toy_ministry_def toy_delegate_def fresh_citizen_def)

lemma toy_block [simp]: "current_block day_five = 5" "block_saturated 15 = 15" "sat_add 32 5 10 = 15"
  by (simp_all add: current_block_def block_saturated_def sat_add_def umax_def)

definition ready :: "nat \<Rightarrow> pouch licensing_state \<Rightarrow> bool" where
  "ready k s \<longleftrightarrow> authorized_ministries s 7 = Some \<lparr>tag = [], ministry_nation = None, is_active = True\<rparr>
     \<and> license_apps_ending s 15 = [] \<and> next_license_app_id s = k \<and> next_license_id s = k \<and> licensing_world s = toy_purse
     \<and> (\<forall>i\<ge>k. \<not> has_voted_on_license s i 21) \<and> length (licenses_by_org s 50) = min k 100
     \<and> (\<forall>l\<in>set (licenses_by_org s 50). l < k)
     \<and> (\<forall>l<k. \<exists>g. licenses s l = Some g \<and> license_active g \<and> licensed_type g = MineralExtraction \<and> license_region g = 4
          \<and> 5 < expires_block g)"

lemma toy_open_reached: "toy_reached toy_open"
  unfolding toy_open_def by (rule reachable_execute[OF reachable.start])

lemma toy_open_ready: "ready 0 toy_open"
  by (simp add: ready_def toy_open_def execute_def authorize_ministry_def licensing_start_def)

definition toy_form :: "nat \<Rightarrow> license_application" where
  "toy_form k = \<lparr>app_id = k, org_account = 50, license_type = MineralExtraction, region_id = 4, app_nation = 3, submitter = 7,
     ministry_tag = [], audit_hash = [], requested_duration = MAX_LICENSE_BLOCKS, app_votes_for = 0, app_votes_against = 0,
     app_status = PendingKhural, app_end_block = 15, is_renewal = False, renews_license_id = None\<rparr>"

lemma toy_form_passes [simp]: "application_passes toy_ministry (count_license_vote True (toy_form k))"
  by (simp add: application_passes_def requires_supermajority_def is_confederal_only_def toy_form_def count_license_vote_def
      sat_add_def umax_def)

lemma toy_submitted:
  assumes "ready k s"
  obtains t where "submit_license_application toy_ministry day_five (Signed 7) 50 MineralExtraction 4 3 [] 0 s = Ok t"
    "license_applications t = (license_applications s)(k \<mapsto> toy_form k)" "license_apps_ending t 15 = [k]"
    "next_license_app_id t = sat_add 32 k 1" "next_license_id t = k" "licenses t = licenses s"
    "licenses_by_org t = licenses_by_org s" "has_voted_on_license t = has_voted_on_license s"
    "application_depositors t k = Some (7, 0)" "licensing_world t = toy_purse" "authorized_ministries t = authorized_ministries s"
  using assms
  by (simp add: ready_def submit_license_application_def file_application_def Let_def pouch_currency_def toy_form_def
      default_duration_def toy_purse_def)

lemma toy_voted:
  assumes "license_applications t k = Some (toy_form k)" "\<not> has_voted_on_license t k 21"
  obtains u where "vote_on_license toy_ministry day_five (Signed 21) k True t = Ok u"
    "license_applications u = (license_applications t)(k \<mapsto> count_license_vote True (toy_form k))"
    "has_voted_on_license u = (has_voted_on_license t)(k := (has_voted_on_license t k)(21 := True))"
    "license_apps_ending u = license_apps_ending t" "next_license_app_id u = next_license_app_id t"
    "next_license_id u = next_license_id t" "licenses u = licenses t" "licenses_by_org u = licenses_by_org t"
    "application_depositors u = application_depositors t" "licensing_world u = licensing_world t"
    "authorized_ministries u = authorized_ministries t"
  using assms
  by (simp add: vote_on_license_def validate_khural_voter_def toy_form_def is_confederal_only_def)

lemma toy_round:
  assumes "ready k s" "toy_reached s" "k < 1000"
  shows "\<exists>t. ready (Suc k) t \<and> toy_reached t"
proof -
  from toy_submitted[OF assms(1)] obtain t where
    t: "submit_license_application toy_ministry day_five (Signed 7) 50 MineralExtraction 4 3 [] 0 s = Ok t"
    "license_applications t = (license_applications s)(k \<mapsto> toy_form k)" "license_apps_ending t 15 = [k]"
    "next_license_app_id t = sat_add 32 k 1" "next_license_id t = k" "licenses t = licenses s"
    "licenses_by_org t = licenses_by_org s" "has_voted_on_license t = has_voted_on_license s"
    "application_depositors t k = Some (7, 0)" "licensing_world t = toy_purse" "authorized_ministries t = authorized_ministries s" .
  have "license_applications t k = Some (toy_form k)" by (simp add: t(2))
  moreover have "\<not> has_voted_on_license t k 21" using assms(1) t(8) by (simp add: ready_def)
  ultimately obtain u where u: "vote_on_license toy_ministry day_five (Signed 21) k True t = Ok u"
    "license_applications u = (license_applications t)(k \<mapsto> count_license_vote True (toy_form k))"
    "has_voted_on_license u = (has_voted_on_license t)(k := (has_voted_on_license t k)(21 := True))"
    "license_apps_ending u = license_apps_ending t" "next_license_app_id u = next_license_app_id t"
    "next_license_id u = next_license_id t" "licenses u = licenses t" "licenses_by_org u = licenses_by_org t"
    "application_depositors u = application_depositors t" "licensing_world u = licensing_world t"
    "authorized_ministries u = authorized_ministries t" by (rule toy_voted) (rule that)
  have "toy_reached t" by (rule reachable.call[OF assms(2), of toy_submit]) (simp add: t(1))
  then have "toy_reached u" by (rule reachable.call[of _ _ _ _ "toy_vote k"]) (simp add: u(1))
  then have r: "toy_reached (on_initialize toy_ministry 15 u)" by (rule reachable.call[of _ _ _ _ "LicensingBlock 15"]) simp
  have k: "sat_add 32 k 1 = Suc k" using assms(3) by (simp add: sat_add_def umax_def)
  have min_k: "min k 4294967294 = k" using assms(3) by simp
  have purse: "unreserve (pouch_currency 1) toy_purse 7 0 = toy_purse" by (simp add: pouch_currency_def toy_purse_def fun_eq_iff)
  have "on_initialize toy_ministry 15 u = enact_pending toy_ministry 15 k (u\<lparr>license_apps_ending := (license_apps_ending u)(15 := [])\<rparr>)"
    by (simp add: on_initialize_def u t)
  also have "\<dots> = issue_license toy_ministry 15 k (count_license_vote True (toy_form k))
      (u\<lparr>license_apps_ending := (license_apps_ending u)(15 := [])\<rparr>)"
    by (simp add: enact_pending_def enact_application_def u) (simp add: toy_form_def)
  finally have v: "on_initialize toy_ministry 15 u = \<dots>" .
  have "licensing_world (on_initialize toy_ministry 15 u) = toy_purse"
    "authorized_ministries (on_initialize toy_ministry 15 u) = authorized_ministries s"
    unfolding v by (simp_all add: issue_license_def Let_def u t purse[simplified])
  then have "ready (Suc k) (on_initialize toy_ministry 15 u)"
    using assms(1) min_k unfolding ready_def v
    by (auto simp: u t k index_license_def less_Suc_eq toy_form_def count_license_vote_def sat_add_def umax_def
        MAX_LICENSE_BLOCKS_def BLOCKS_PER_YEAR_def)
  with r show ?thesis by blast
qed

lemma toy_hundred: "k \<le> 1000 \<Longrightarrow> \<exists>t. ready k t \<and> toy_reached t"
proof (induction k)
  case 0
  show ?case using toy_open_ready toy_open_reached by blast
next
  case (Suc k)
  then show ?case using toy_round[of k] by (meson Suc_le_lessD less_imp_le)
qed

lemma licenses_stand_on_votes_witness:
  "\<exists>s lic a. toy_reached s \<and> licenses s 0 = Some lic \<and> license_applications s (license_app lic) = Some a
     \<and> app_status a = Approved \<and> 1 \<le> app_votes_for a"
proof -
  obtain s where s: "ready 1 s" "toy_reached s" using toy_hundred[of 1] by auto
  then obtain lic where lic: "licenses s 0 = Some lic" by (auto simp: ready_def)
  have "next_license_app_id s < umax 32" "next_license_id s < umax 32" using s(1) by (simp_all add: ready_def umax_def)
  from licenses_stand_on_votes[OF s(2) this lic] s(2) lic show ?thesis
    by auto
qed

lemma applications_are_decided_witness:
  "\<exists>t b. submit_license_application toy_ministry day_five (Signed 7) 50 MineralExtraction 4 3 [] 0 toy_open = Ok t
     \<and> license_applications (on_initialize toy_ministry 15 t) 0 = Some b \<and> app_status b = Rejected"
proof -
  obtain t where t: "submit_license_application toy_ministry day_five (Signed 7) 50 MineralExtraction 4 3 [] 0 toy_open = Ok t"
    "license_applications t = (license_applications toy_open)(0 \<mapsto> toy_form 0)" "license_apps_ending t 15 = [0]"
    "next_license_app_id t = sat_add 32 0 1" "next_license_id t = 0"
    by (rule toy_submitted[OF toy_open_ready]) (rule that)
  have no: "\<not> application_passes toy_ministry (toy_form 0)" by (simp add: application_passes_def toy_form_def)
  then have "next_license_id (on_initialize toy_ministry 15 t) < umax 32"
    by (simp add: on_initialize_def t enact_pending_def enact_application_def) (simp add: toy_form_def t umax_def)
  moreover have "next_license_app_id t < umax 32" by (simp add: t sat_add_def umax_def)
  moreover have "next_license_app_id toy_open = 0" using toy_open_ready by (simp add: ready_def)
  ultimately show ?thesis
    using applications_are_decided[OF toy_open_reached t(1) reachable.start, of 15] t no
    by (simp add: toy_form_def) blast
qed

lemma hundred_licenses_are_all_witness:
  "\<exists>s. toy_reached s \<and> length (licenses_by_org s 50) = 100 \<and> is_licensed day_five 50 MineralExtraction 4 s"
proof -
  obtain s where s: "ready 100 s" "toy_reached s" using toy_hundred[of 100] by auto
  then have len: "length (licenses_by_org s 50) = 100" by (simp add: ready_def)
  then obtain l where l: "l \<in> set (licenses_by_org s 50)" by (cases "licenses_by_org s 50") auto
  then have "l < 100" using s(1) by (auto simp: ready_def)
  then have "is_licensed day_five 50 MineralExtraction 4 s"
    using s(1) l unfolding is_licensed_def map_filter_elem ready_def by fastforce
  moreover have "next_license_app_id s < umax 32" "next_license_id s < umax 32" using s(1) by (simp_all add: ready_def umax_def)
  ultimately show ?thesis
    using hundred_licenses_are_all[OF s(2) reachable.start, of 50 day_five MineralExtraction 4] len s(2) by auto
qed

end
