(* ===== verification/Citizen_Voice.thy ===== *)
theory Citizen_Voice
  imports Reservable Pallet_Interfaces
begin

text \<open>
  \<^verbatim>\<open>pallets/citizen-voice/src/lib.rs\<close>: tickets of citizens, resolved by whom they are about or by root, with a deposit
  against spam; and sting operations, where a citizen commits to a bribe that root reveals later.

  \<open>'x\<close> is the ledger with the storage of the guilds and identity pallets, reached through the two bridges of the
  configuration. Hashing is a parameter. An account on the chain stands for the \<open>AccountId\<close> in a target.
\<close>

section \<open>Data\<close>

datatype branch_type = Khural | Academy | JudicialCourt | BankingAuthority | CivilRegistry

datatype feedback_target = Guild nat | Government branch_type | Entity account

datatype feedback_type = Complaint | Suggestion | Whistleblower

datatype ticket_status = Open | InReview | Escalated | Resolved | Rejected

datatype sting_status = Pending | Approved | Sprung

record ticket =
  author :: account
  target :: feedback_target
  feedback_type :: feedback_type
  content_hash :: h256
  ticket_status :: ticket_status
  deposit :: balance

record sting_operation =
  sting_citizen :: account
  sting_target :: account
  sting_amount :: balance
  commit_hash :: h256
  sting_status :: sting_status

datatype voice_event =
    TicketSubmitted nat account feedback_target feedback_type h256 balance
  | TicketInReview nat "account option"
  | TicketResolved nat "account option" h256 balance
  | TicketRejected nat "account option" h256 balance
  | TicketEscalated nat account
  | StingRequested nat account account h256
  | StingApproved nat account account
  | TrapSprung nat account account balance balance

datatype voice_error =
    TicketNotFound
  | InvalidTicketStatus
  | NotAuthorised
  | InsufficientBalance
  | ZeroDeposit
  | OnlyAuthorCanEscalate
  | TicketAlreadyEscalated
  | EscalatedTicketRequiresRoot
  | StingNotFound
  | StingAlreadyApproved
  | StingAlreadySprung
  | StingNotApproved
  | InvalidReveal
  | TreasuryInsufficientFunds

type_synonym voice_failure = "voice_error dispatch_error"

record 'x voice_state =
  voice_world :: 'x
  next_ticket_id :: nat
  tickets :: "nat \<Rightarrow> ticket option"
  target_tickets :: "feedback_target \<Rightarrow> nat set"
  next_sting_id :: nat
  sting_operations :: "nat \<Rightarrow> sting_operation option"
  voice_events :: "voice_event list"

record 'x voice_config =
  voice_currency :: "'x reservable_currency"
  is_guild_master :: "'x \<Rightarrow> nat \<Rightarrow> account \<Rightarrow> bool"
  exile_suspect :: "account \<Rightarrow> 'x \<Rightarrow> ('x, voice_failure) result"
  state_treasury :: account
  ticket_deposit :: balance
  reward_percent :: nat
  voice_hash :: "byte list \<Rightarrow> h256"

definition emit_voice :: "voice_event \<Rightarrow> 'x voice_state \<Rightarrow> 'x voice_state" where
  "emit_voice e s = s\<lparr>voice_events := voice_events s @ [e]\<rparr>"

lemma emit_voice_simps [simp]:
  "voice_world (emit_voice e s) = voice_world s" "next_ticket_id (emit_voice e s) = next_ticket_id s"
  "tickets (emit_voice e s) = tickets s" "target_tickets (emit_voice e s) = target_tickets s"
  "next_sting_id (emit_voice e s) = next_sting_id s" "sting_operations (emit_voice e s) = sting_operations s"
  by (simp_all add: emit_voice_def)

section \<open>Tickets\<close>

definition root_or :: "voice_error \<Rightarrow> origin \<Rightarrow> (unit, voice_failure) result" where
  "root_or e og = map_err (\<lambda>_. Module e) (ensure_root og :: (unit, voice_failure) result)"

lemma root_or_Ok [ok_simps]: "root_or e og = Ok u \<longleftrightarrow> og = Root"
  by (simp add: root_or_def ok_simps)

lemma root_or_simps [simp]: "root_or e Root = Ok ()" "root_or e (Signed a) = Err (Module e)"
  by (simp_all add: root_or_def)

definition ensure_signed_target_authority ::
  "'x voice_config \<Rightarrow> account \<Rightarrow> feedback_target \<Rightarrow> 'x \<Rightarrow> (unit, voice_failure) result" where
  "ensure_signed_target_authority cfg caller tgt x =
     (case tgt of
        Guild g \<Rightarrow> ensure (is_guild_master cfg x g caller) (Module NotAuthorised) (Ok ())
      | Government _ \<Rightarrow> Err (Module NotAuthorised)
      | Entity a \<Rightarrow> ensure (caller = a) (Module NotAuthorised) (Ok ()))"

definition submit_ticket ::
  "'x voice_config \<Rightarrow> origin \<Rightarrow> feedback_target \<Rightarrow> feedback_type \<Rightarrow> h256 \<Rightarrow> 'x voice_state \<Rightarrow> ('x voice_state, voice_failure) result" where
  "submit_ticket cfg og tgt kind hash s =
     and_then (ensure_signed og) (\<lambda>caller.
     let d = ticket_deposit cfg in
     ensure (0 < d) (Module ZeroDeposit) (
     and_then (map_err (\<lambda>_. Module InsufficientBalance) (reserve_funds (voice_currency cfg) (voice_world s) caller d)) (\<lambda>x.
     let i = next_ticket_id s;
         k = \<lparr>author = caller, target = tgt, feedback_type = kind, content_hash = hash, ticket_status = Open, deposit = d\<rparr>
     in Ok (emit_voice (TicketSubmitted i caller tgt kind hash d)
          (s\<lparr>voice_world := x, tickets := (tickets s)(i \<mapsto> k),
             target_tickets := (target_tickets s)(tgt := insert i (target_tickets s tgt)),
             next_ticket_id := sat_add 32 i 1\<rparr>)))))"

text \<open>Root alone closes what is escalated or about the government; otherwise the target does.\<close>

definition ticket_resolver ::
  "'x voice_config \<Rightarrow> origin \<Rightarrow> ticket \<Rightarrow> 'x \<Rightarrow> (account option, voice_failure) result" where
  "ticket_resolver cfg og k x =
     (case target k of
        Government _ \<Rightarrow> and_then (root_or NotAuthorised og) (\<lambda>_. Ok None)
      | _ \<Rightarrow> if ticket_status k = Escalated then Ok None
            else and_then (ensure_signed og) (\<lambda>caller.
                 and_then (ensure_signed_target_authority cfg caller (target k) x) (\<lambda>_. Ok (Some caller))))"

definition set_ticket_status :: "nat \<Rightarrow> ticket_status \<Rightarrow> 'x voice_state \<Rightarrow> 'x voice_state" where
  "set_ticket_status i st s = s\<lparr>tickets := (tickets s)(i := map_option (ticket_status_update (\<lambda>_. st)) (tickets s i))\<rparr>"

definition settle_ticket ::
  "'x voice_config \<Rightarrow> nat \<Rightarrow> ticket \<Rightarrow> account option \<Rightarrow> h256 \<Rightarrow> bool \<Rightarrow> 'x voice_state \<Rightarrow> 'x voice_state" where
  "settle_ticket cfg i k resolver hash helpful s =
     (if helpful
      then emit_voice (TicketResolved i resolver hash (deposit k))
             (s\<lparr>voice_world := unreserve (voice_currency cfg) (voice_world s) (author k) (deposit k)\<rparr>)
      else emit_voice (TicketRejected i resolver hash (deposit k))
             (s\<lparr>voice_world := slash_reserved (voice_currency cfg) (voice_world s) (author k) (deposit k)\<rparr>))"

definition resolve_ticket ::
  "'x voice_config \<Rightarrow> origin \<Rightarrow> nat \<Rightarrow> h256 \<Rightarrow> bool \<Rightarrow> 'x voice_state \<Rightarrow> ('x voice_state, voice_failure) result" where
  "resolve_ticket cfg og i hash helpful s =
     ok_or (tickets s i) (Module TicketNotFound) (\<lambda>k.
     and_then (if ticket_status k = Escalated
               then root_or EscalatedTicketRequiresRoot og
               else ensure (ticket_status k = Open \<or> ticket_status k = InReview) (Module InvalidTicketStatus) (Ok ())) (\<lambda>_.
     and_then (ticket_resolver cfg og k (voice_world s)) (\<lambda>resolver.
     Ok (set_ticket_status i (if helpful then Resolved else Rejected) (settle_ticket cfg i k resolver hash helpful s)))))"

definition mark_in_review ::
  "'x voice_config \<Rightarrow> origin \<Rightarrow> nat \<Rightarrow> 'x voice_state \<Rightarrow> ('x voice_state, voice_failure) result" where
  "mark_in_review cfg og i s =
     ok_or (tickets s i) (Module TicketNotFound) (\<lambda>k.
     ensure (ticket_status k = Open) (Module InvalidTicketStatus) (
     and_then (case target k of
         Government _ \<Rightarrow> and_then (root_or NotAuthorised og) (\<lambda>_. Ok None)
       | _ \<Rightarrow> and_then (ensure_signed og) (\<lambda>caller.
              and_then (ensure_signed_target_authority cfg caller (target k) (voice_world s)) (\<lambda>_. Ok (Some caller)))) (\<lambda>reviewer.
     Ok (emit_voice (TicketInReview i reviewer) (set_ticket_status i InReview s)))))"

definition escalate_ticket :: "origin \<Rightarrow> nat \<Rightarrow> 'x voice_state \<Rightarrow> ('x voice_state, voice_failure) result" where
  "escalate_ticket og i s =
     and_then (ensure_signed og) (\<lambda>caller.
     ok_or (tickets s i) (Module TicketNotFound) (\<lambda>k.
     ensure (caller = author k) (Module OnlyAuthorCanEscalate) (
     ensure (ticket_status k = Open \<or> ticket_status k = InReview)
       (if ticket_status k = Escalated then Module TicketAlreadyEscalated else Module InvalidTicketStatus) (
     Ok (emit_voice (TicketEscalated i caller) (set_ticket_status i Escalated s))))))"

section \<open>Sting operations\<close>

definition request_sting_operation ::
  "'x voice_config \<Rightarrow> origin \<Rightarrow> account \<Rightarrow> balance \<Rightarrow> h256 \<Rightarrow> 'x voice_state \<Rightarrow> ('x voice_state, voice_failure) result" where
  "request_sting_operation cfg og suspect v hash s =
     and_then (ensure_signed og) (\<lambda>citizen.
     and_then (map_err (\<lambda>_. Module InsufficientBalance) (reserve_funds (voice_currency cfg) (voice_world s) citizen v)) (\<lambda>x.
     let i = next_sting_id s;
         p = \<lparr>sting_citizen = citizen, sting_target = suspect, sting_amount = v, commit_hash = hash, sting_status = Pending\<rparr>
     in Ok (emit_voice (StingRequested i citizen suspect hash)
          (s\<lparr>voice_world := x, sting_operations := (sting_operations s)(i \<mapsto> p), next_sting_id := sat_add 64 i 1\<rparr>))))"

definition approve_sting :: "origin \<Rightarrow> nat \<Rightarrow> 'x voice_state \<Rightarrow> ('x voice_state, voice_failure) result" where
  "approve_sting og i s =
     and_then (ensure_root og) (\<lambda>_.
     ok_or (sting_operations s i) (Module StingNotFound) (\<lambda>p.
     ensure (sting_status p = Pending)
       (if sting_status p = Approved then Module StingAlreadyApproved else Module StingAlreadySprung) (
     Ok (emit_voice (StingApproved i (sting_citizen p) (sting_target p))
          (s\<lparr>sting_operations := (sting_operations s)(i \<mapsto> p\<lparr>sting_status := Approved\<rparr>)\<rparr>)))))"

text \<open>\<open>to_le_bytes\<close> of an integer of \<open>n\<close> bytes; the committed preimage is a \<open>u128\<close> and the salt.\<close>

fun to_le_bytes :: "nat \<Rightarrow> nat \<Rightarrow> byte list" where
  "to_le_bytes 0 v = []"
| "to_le_bytes (Suc n) v = of_nat (v mod 256) # to_le_bytes n (v div 256)"

definition sting_preimage :: "balance \<Rightarrow> byte list \<Rightarrow> byte list" where
  "sting_preimage v salt = to_le_bytes 16 v @ salt"

definition sting_reward :: "'x voice_config \<Rightarrow> balance \<Rightarrow> balance" where
  "sting_reward cfg v = sat_mul 128 v (reward_percent cfg) div 100"

text \<open>Nothing is transferred when the reward is zero.\<close>

definition pay_sting_reward :: "'x voice_config \<Rightarrow> sting_operation \<Rightarrow> 'x \<Rightarrow> ('x, voice_failure) result" where
  "pay_sting_reward cfg p x =
     (let reward = sting_reward cfg (sting_amount p) in
      if 0 < reward
      then map_err (\<lambda>_. Module TreasuryInsufficientFunds)
             (transfer (voice_currency cfg) x (state_treasury cfg) (sting_citizen p) reward KeepAlive)
      else Ok x)"

definition reveal_and_spring_trap ::
  "'x voice_config \<Rightarrow> origin \<Rightarrow> nat \<Rightarrow> byte list \<Rightarrow> 'x voice_state \<Rightarrow> ('x voice_state, voice_failure) result" where
  "reveal_and_spring_trap cfg og i salt s =
     and_then (ensure_root og) (\<lambda>_.
     ok_or (sting_operations s i) (Module StingNotFound) (\<lambda>p.
     ensure (sting_status p = Approved)
       (if sting_status p = Pending then Module StingNotApproved else Module StingAlreadySprung) (
     ensure (voice_hash cfg (sting_preimage (sting_amount p) salt) = commit_hash p) (Module InvalidReveal) (
     and_then (exile_suspect cfg (sting_target p) (voice_world s)) (\<lambda>x.
     and_then (pay_sting_reward cfg p (unreserve (voice_currency cfg) x (sting_citizen p) (sting_amount p))) (\<lambda>y.
     Ok (emit_voice (TrapSprung i (sting_target p) (sting_citizen p) (sting_amount p) (sting_reward cfg (sting_amount p)))
          (s\<lparr>voice_world := y, sting_operations := (sting_operations s)(i \<mapsto> p\<lparr>sting_status := Sprung\<rparr>)\<rparr>))))))))"

section \<open>The pallet\<close>

datatype voice_call =
    SubmitTicket feedback_target feedback_type h256
  | ResolveTicket nat h256 bool
  | MarkInReview nat
  | EscalateTicket nat
  | RequestStingOperation account balance h256
  | ApproveSting nat
  | RevealAndSpringTrap nat "byte list"

fun voice_dispatch :: "'x voice_config \<Rightarrow> origin \<times> voice_call \<Rightarrow> 'x voice_state \<Rightarrow> ('x voice_state, voice_failure) result" where
  "voice_dispatch cfg (og, SubmitTicket t k h) s = submit_ticket cfg og t k h s"
| "voice_dispatch cfg (og, ResolveTicket i h b) s = resolve_ticket cfg og i h b s"
| "voice_dispatch cfg (og, MarkInReview i) s = mark_in_review cfg og i s"
| "voice_dispatch cfg (og, EscalateTicket i) s = escalate_ticket og i s"
| "voice_dispatch cfg (og, RequestStingOperation a v h) s = request_sting_operation cfg og a v h s"
| "voice_dispatch cfg (og, ApproveSting i) s = approve_sting og i s"
| "voice_dispatch cfg (og, RevealAndSpringTrap i salt) s = reveal_and_spring_trap cfg og i salt s"

definition voice_foreign :: "'x voice_state \<Rightarrow> 'x voice_state \<Rightarrow> bool" where
  "voice_foreign s t \<longleftrightarrow> (\<exists>x. t = s\<lparr>voice_world := x\<rparr>)"

definition voice_start :: "'x \<Rightarrow> 'x voice_state" where
  "voice_start x = \<lparr>voice_world = x, next_ticket_id = 0, tickets = Map.empty, target_tickets = (\<lambda>_. {}), next_sting_id = 0,
     sting_operations = Map.empty, voice_events = []\<rparr>"

section \<open>Laws of the pallet\<close>

text \<open>
  What a call leaves behind, per ticket and per sting operation; tickets are an \<open>id_registry\<close> with a \<open>lifecycle\<close>, and so
  are, but for the width of their counter, the sting operations.
\<close>

section \<open>Effects of the calls\<close>

lemma submit_ticket_Ok:
  assumes "submit_ticket cfg og tgt kind h s = Ok t"
  obtains a x where "og = Signed a" "0 < ticket_deposit cfg"
    "reserve_funds (voice_currency cfg) (voice_world s) a (ticket_deposit cfg) = Ok x" "voice_world t = x"
    "tickets t = (tickets s)(next_ticket_id s \<mapsto> \<lparr>author = a, target = tgt, feedback_type = kind, content_hash = h,
       ticket_status = Open, deposit = ticket_deposit cfg\<rparr>)"
    "target_tickets t = (target_tickets s)(tgt := insert (next_ticket_id s) (target_tickets s tgt))"
    "next_ticket_id t = sat_add 32 (next_ticket_id s) 1" "next_sting_id t = next_sting_id s"
    "sting_operations t = sting_operations s"
  using assms unfolding submit_ticket_def Let_def by (auto simp: ok_simps)

text \<open>Calls on an existing ticket change its status alone.\<close>

definition restated :: "nat \<Rightarrow> ticket \<Rightarrow> ticket_status \<Rightarrow> 'x voice_state \<Rightarrow> 'x voice_state \<Rightarrow> bool" where
  "restated i k st s t \<longleftrightarrow> tickets s i = Some k \<and> tickets t = (tickets s)(i \<mapsto> k\<lparr>ticket_status := st\<rparr>)
     \<and> target_tickets t = target_tickets s \<and> next_ticket_id t = next_ticket_id s
     \<and> next_sting_id t = next_sting_id s \<and> sting_operations t = sting_operations s"

lemma set_ticket_status_restated: "tickets s i = Some k \<Longrightarrow> restated i k st s (set_ticket_status i st s)"
  by (simp add: restated_def set_ticket_status_def)

lemma settle_ticket_simps [simp]:
  "tickets (settle_ticket cfg i k r h b s) = tickets s" "target_tickets (settle_ticket cfg i k r h b s) = target_tickets s"
  "next_ticket_id (settle_ticket cfg i k r h b s) = next_ticket_id s"
  "next_sting_id (settle_ticket cfg i k r h b s) = next_sting_id s"
  "sting_operations (settle_ticket cfg i k r h b s) = sting_operations s"
  "voice_world (settle_ticket cfg i k r h b s) = (if b then unreserve (voice_currency cfg) (voice_world s) (author k) (deposit k)
     else slash_reserved (voice_currency cfg) (voice_world s) (author k) (deposit k))"
  by (simp_all add: settle_ticket_def)

lemma resolve_ticket_Ok:
  assumes "resolve_ticket cfg og i h b s = Ok t"
  obtains k r where "tickets s i = Some k" "ticket_status k \<in> {Open, InReview, Escalated}"
    "ticket_status k = Escalated \<Longrightarrow> og = Root" "ticket_resolver cfg og k (voice_world s) = Ok r"
    "restated i k (if b then Resolved else Rejected) s t"
    "voice_world t = voice_world (settle_ticket cfg i k r h b s)"
proof -
  from assms obtain k r where k: "tickets s i = Some k"
    and g: "if ticket_status k = Escalated then og = Root else ticket_status k = Open \<or> ticket_status k = InReview"
    and r: "ticket_resolver cfg og k (voice_world s) = Ok r"
    and t: "t = set_ticket_status i (if b then Resolved else Rejected) (settle_ticket cfg i k r h b s)"
    unfolding resolve_ticket_def by (auto simp: ok_simps split: if_splits)
  have "restated i k (if b then Resolved else Rejected) s t"
    using k by (simp add: t restated_def set_ticket_status_def)
  moreover have "voice_world t = voice_world (settle_ticket cfg i k r h b s)" by (simp add: t set_ticket_status_def)
  ultimately show ?thesis using that[of k r] k g r by (auto split: if_splits)
qed

lemma mark_in_review_Ok:
  assumes "mark_in_review cfg og i s = Ok t"
  obtains k where "ticket_status k = Open" "restated i k InReview s t"
  using assms set_ticket_status_restated[of s i _ InReview]
  unfolding mark_in_review_def restated_def by (auto simp: ok_simps)

lemma escalate_ticket_Ok:
  assumes "escalate_ticket og i s = Ok t"
  obtains k where "og = Signed (author k)" "ticket_status k = Open \<or> ticket_status k = InReview" "restated i k Escalated s t"
  using assms set_ticket_status_restated[of s i _ Escalated]
  unfolding escalate_ticket_def restated_def by (auto simp: ok_simps)

text \<open>Calls on sting operations leave the tickets alone.\<close>

definition tickets_kept :: "'x voice_state \<Rightarrow> 'x voice_state \<Rightarrow> bool" where
  "tickets_kept s t \<longleftrightarrow> tickets t = tickets s \<and> target_tickets t = target_tickets s \<and> next_ticket_id t = next_ticket_id s"

lemma request_sting_Ok:
  assumes "request_sting_operation cfg og a v h s = Ok t"
  obtains c x where "og = Signed c" "reserve_funds (voice_currency cfg) (voice_world s) c v = Ok x" "voice_world t = x"
    "sting_operations t = (sting_operations s)(next_sting_id s \<mapsto> \<lparr>sting_citizen = c, sting_target = a, sting_amount = v,
       commit_hash = h, sting_status = Pending\<rparr>)"
    "next_sting_id t = sat_add 64 (next_sting_id s) 1" "tickets_kept s t"
  using assms unfolding request_sting_operation_def Let_def tickets_kept_def by (auto simp: ok_simps)

lemma approve_sting_Ok:
  assumes "approve_sting og i s = Ok t"
  obtains p where "og = Root" "sting_operations s i = Some p" "sting_status p = Pending"
    "sting_operations t = (sting_operations s)(i \<mapsto> p\<lparr>sting_status := Approved\<rparr>)" "next_sting_id t = next_sting_id s"
    "voice_world t = voice_world s" "tickets_kept s t"
  using assms unfolding approve_sting_def tickets_kept_def by (auto simp: ok_simps)

lemma reveal_Ok:
  assumes "reveal_and_spring_trap cfg og i salt s = Ok t"
  obtains p x where "og = Root" "sting_operations s i = Some p" "sting_status p = Approved"
    "voice_hash cfg (sting_preimage (sting_amount p) salt) = commit_hash p"
    "exile_suspect cfg (sting_target p) (voice_world s) = Ok x"
    "pay_sting_reward cfg p (unreserve (voice_currency cfg) x (sting_citizen p) (sting_amount p)) = Ok (voice_world t)"
    "sting_operations t = (sting_operations s)(i \<mapsto> p\<lparr>sting_status := Sprung\<rparr>)" "next_sting_id t = next_sting_id s"
    "tickets_kept s t"
  using assms unfolding reveal_and_spring_trap_def tickets_kept_def by (auto simp: ok_simps)

section \<open>Tickets\<close>

abbreviation voice_step :: "'x voice_config \<Rightarrow> 'x voice_state \<Rightarrow> 'x voice_state \<Rightarrow> bool" where
  "voice_step cfg \<equiv> machine_step (voice_dispatch cfg) voice_foreign"

definition open_ticket :: "ticket_status \<Rightarrow> bool" where
  "open_ticket st \<longleftrightarrow> st \<in> {Open, InReview, Escalated}"

text \<open>Review precedes escalation, and both precede the end.\<close>

definition ticket_edge :: "ticket \<Rightarrow> ticket \<Rightarrow> bool" where
  "ticket_edge k k' \<longleftrightarrow> (\<exists>st. k' = k\<lparr>ticket_status := st\<rparr> \<and> open_ticket (ticket_status k)
     \<and> (ticket_status k = Escalated \<longrightarrow> st \<in> {Resolved, Rejected}))"

definition ticket_change :: "'x voice_state \<Rightarrow> 'x voice_state \<Rightarrow> bool" where
  "ticket_change s t \<longleftrightarrow> tickets_kept s t
     \<or> (\<exists>k. tickets t = (tickets s)(next_ticket_id s \<mapsto> k) \<and> next_ticket_id t = sat_add 32 (next_ticket_id s) 1
          \<and> target_tickets t = (target_tickets s)(target k := insert (next_ticket_id s) (target_tickets s (target k))))
     \<or> (\<exists>i k st. restated i k st s t \<and> ticket_edge k (k\<lparr>ticket_status := st\<rparr>))"

lemma ticket_change_kept: "tickets_kept s t \<Longrightarrow> ticket_change s t"
  by (simp add: ticket_change_def)

lemma ticket_change_restated: "restated i k st s t \<Longrightarrow> open_ticket (ticket_status k)
    \<Longrightarrow> (ticket_status k = Escalated \<longrightarrow> st \<in> {Resolved, Rejected}) \<Longrightarrow> ticket_change s t"
  unfolding ticket_change_def ticket_edge_def by blast

lemma dispatch_ticket_change:
  assumes "voice_dispatch cfg (og, c) s = Ok t"
  shows "ticket_change s t"
proof (cases c)
  case (SubmitTicket tgt kind h)
  with assms have "submit_ticket cfg og tgt kind h s = Ok t" by simp
  then show ?thesis by (rule submit_ticket_Ok) (auto simp: ticket_change_def)
next
  case (ResolveTicket i h b)
  with assms have "resolve_ticket cfg og i h b s = Ok t" by simp
  then show ?thesis
    by (rule resolve_ticket_Ok) (erule ticket_change_restated, auto simp: open_ticket_def)
next
  case (MarkInReview i)
  with assms have "mark_in_review cfg og i s = Ok t" by simp
  then show ?thesis
    by (rule mark_in_review_Ok) (erule ticket_change_restated, auto simp: open_ticket_def)
next
  case (EscalateTicket i)
  with assms have "escalate_ticket og i s = Ok t" by simp
  then show ?thesis
    by (rule escalate_ticket_Ok) (erule ticket_change_restated, auto simp: open_ticket_def)
next
  case (RequestStingOperation a v h)
  with assms have "request_sting_operation cfg og a v h s = Ok t" by simp
  then show ?thesis by (rule request_sting_Ok) (rule ticket_change_kept)
next
  case (ApproveSting i)
  with assms have "approve_sting og i s = Ok t" by simp
  then show ?thesis by (rule approve_sting_Ok) (rule ticket_change_kept)
next
  case (RevealAndSpringTrap i salt)
  with assms have "reveal_and_spring_trap cfg og i salt s = Ok t" by simp
  then show ?thesis by (rule reveal_Ok) (rule ticket_change_kept)
qed

lemma step_ticket_change:
  assumes "voice_step cfg s t"
  shows "ticket_change s t"
  using assms unfolding machine_step_def
proof
  assume "\<exists>c. voice_dispatch cfg c s = Ok t"
  then obtain og c where "voice_dispatch cfg (og, c) s = Ok t" by (metis surj_pair)
  then show ?thesis by (rule dispatch_ticket_change)
qed (auto simp: voice_foreign_def tickets_kept_def intro: ticket_change_kept)

interpretation complaints: id_registry next_ticket_id tickets "voice_step cfg" for cfg :: "'x voice_config"
proof
  fix s t :: "'x voice_state"
  assume "voice_step cfg s t"
  then have "ticket_change s t" by (rule step_ticket_change)
  then show "(next_ticket_id t = next_ticket_id s \<and> dom (tickets t) = dom (tickets s))
    \<or> (next_ticket_id t = sat_add 32 (next_ticket_id s) 1 \<and> dom (tickets t) = insert (next_ticket_id s) (dom (tickets s)))"
    unfolding ticket_change_def tickets_kept_def restated_def
    by (elim disjE exE conjE) (simp_all add: insert_absorb domIff)
qed

definition ticket_move :: "'x voice_config \<Rightarrow> 'x voice_state \<Rightarrow> 'x voice_state \<Rightarrow> bool" where
  "ticket_move cfg s t \<longleftrightarrow> voice_step cfg s t \<and> tickets s (next_ticket_id s) = None"

interpretation hearings: lifecycle tickets ticket_edge "ticket_move cfg" for cfg :: "'x voice_config"
proof
  fix s t :: "'x voice_state" and i k
  assume m: "ticket_move cfg s t" and k: "tickets s i = Some k" "tickets t i \<noteq> Some k"
  then have "ticket_change s t" "tickets s (next_ticket_id s) = None"
    by (auto simp: ticket_move_def intro: step_ticket_change)
  with k show "\<exists>k'. tickets t i = Some k' \<and> ticket_edge k k'"
    unfolding ticket_change_def tickets_kept_def restated_def by (auto split: if_splits)
qed

lemma ticket_moves:
  assumes "(voice_step cfg)\<^sup>*\<^sup>* s t" "next_ticket_id t < umax 32" "\<forall>i\<in>dom (tickets s). i < next_ticket_id s"
    and "next_ticket_id s \<le> umax 32"
  shows "(ticket_move cfg)\<^sup>*\<^sup>* s t \<and> (\<forall>i\<in>dom (tickets t). i < next_ticket_id t)"
  using assms
proof (induction rule: rtranclp_induct)
  case (step t u)
  have "next_ticket_id t \<le> umax 32" using complaints.steps_mono[OF step.hyps(1) step.prems(3)] by simp
  then have t: "next_ticket_id t < umax 32" using complaints.next_mono[OF step.hyps(2)] step.prems(1) by linarith
  with step have IH: "(ticket_move cfg)\<^sup>*\<^sup>* s t" "\<forall>i\<in>dom (tickets t). i < next_ticket_id t" by blast+
  then have "ticket_move cfg t u" using step.hyps(2) complaints.fresh unfolding ticket_move_def by blast
  with IH complaints.ids_below_step[OF step.hyps(2) t] show ?case by (meson rtranclp.rtrancl_into_rtrancl)
qed simp

text \<open>A ticket of \<open>k\<close> later.\<close>

definition ticket_later :: "ticket \<Rightarrow> ticket \<Rightarrow> bool" where
  "ticket_later k k' \<longleftrightarrow> k' = k\<lparr>ticket_status := ticket_status k'\<rparr> \<and> (\<not> open_ticket (ticket_status k) \<longrightarrow> k' = k)
     \<and> (ticket_status k = Escalated \<longrightarrow> ticket_status k' \<in> {Escalated, Resolved, Rejected})"

lemma edges_ticket_later: "ticket_edge\<^sup>*\<^sup>* k k' \<Longrightarrow> ticket_later k k'"
proof (induction rule: rtranclp_induct)
  case (step y z)
  from step.hyps(2) obtain st where z: "z = y\<lparr>ticket_status := st\<rparr>" "open_ticket (ticket_status y)"
    "ticket_status y = Escalated \<longrightarrow> st \<in> {Resolved, Rejected}" unfolding ticket_edge_def by blast
  from step.IH have y: "y = k\<lparr>ticket_status := ticket_status y\<rparr>" unfolding ticket_later_def by blast
  have "z = k\<lparr>ticket_status := ticket_status z\<rparr>" using y z(1) by (metis ticket.surjective ticket.update_convs(5) ticket.select_convs(5))
  moreover have "open_ticket (ticket_status k)" using step.IH z(2) unfolding ticket_later_def by metis
  moreover have "ticket_status k = Escalated \<longrightarrow> ticket_status z \<in> {Escalated, Resolved, Rejected}"
    using step.IH z unfolding ticket_later_def open_ticket_def by auto
  ultimately show ?case unfolding ticket_later_def by blast
qed (simp add: ticket_later_def)

text \<open>Every ticket is in the index of its target.\<close>

definition delivered :: "'x voice_state \<Rightarrow> bool" where
  "delivered s \<longleftrightarrow> (\<forall>i k. tickets s i = Some k \<longrightarrow> i \<in> target_tickets s (target k))"

lemma deliveredD: "delivered s \<Longrightarrow> tickets s i = Some k \<Longrightarrow> target k = tgt \<Longrightarrow> i \<in> target_tickets s tgt"
  by (auto simp: delivered_def)

lemma delivered_change:
  assumes "ticket_change s t" "delivered s"
  shows "delivered t"
  unfolding delivered_def
proof (intro allI impI)
  fix i k
  assume k: "tickets t i = Some k"
  from assms(1) show "i \<in> target_tickets t (target k)"
    unfolding ticket_change_def tickets_kept_def restated_def
    using k deliveredD[OF assms(2)] by (auto split: if_splits)
qed

interpretation mailbox: pallet_machine "voice_dispatch cfg" voice_foreign delivered for cfg :: "'x voice_config"
proof
  show "delivered t" if "delivered s" "voice_dispatch cfg c s = Ok t" for s t c
    using that by (cases c) (auto intro: delivered_change dispatch_ticket_change)
  show "delivered t" if "delivered s" "voice_foreign s t" for s t
    using that by (auto simp: voice_foreign_def delivered_def)
qed

section \<open>Sting operations\<close>

definition sting_edge :: "sting_operation \<Rightarrow> sting_operation \<Rightarrow> bool" where
  "sting_edge p q \<longleftrightarrow> (\<exists>st. q = p\<lparr>sting_status := st\<rparr> \<and> (sting_status p, st) \<in> {(Pending, Approved), (Approved, Sprung)})"

definition sting_change :: "'x voice_state \<Rightarrow> 'x voice_state \<Rightarrow> bool" where
  "sting_change s t \<longleftrightarrow> (sting_operations t = sting_operations s \<and> next_sting_id t = next_sting_id s)
     \<or> (\<exists>p. sting_operations t = (sting_operations s)(next_sting_id s \<mapsto> p) \<and> next_sting_id t = sat_add 64 (next_sting_id s) 1)
     \<or> (\<exists>i p q. sting_operations s i = Some p \<and> sting_edge p q \<and> sting_operations t = (sting_operations s)(i \<mapsto> q)
          \<and> next_sting_id t = next_sting_id s)"

lemma sting_change_edge: "sting_operations s i = Some p \<Longrightarrow> sting_edge p q
    \<Longrightarrow> sting_operations t = (sting_operations s)(i \<mapsto> q) \<Longrightarrow> next_sting_id t = next_sting_id s \<Longrightarrow> sting_change s t"
  unfolding sting_change_def by blast

lemma dispatch_sting_change:
  assumes "voice_dispatch cfg (og, c) s = Ok t"
  shows "sting_change s t"
proof (cases c)
  case (SubmitTicket tgt kind h)
  with assms have "submit_ticket cfg og tgt kind h s = Ok t" by simp
  then show ?thesis by (rule submit_ticket_Ok) (simp add: sting_change_def)
next
  case (ResolveTicket i h b)
  with assms have "resolve_ticket cfg og i h b s = Ok t" by simp
  then show ?thesis by (rule resolve_ticket_Ok) (simp add: sting_change_def restated_def)
next
  case (MarkInReview i)
  with assms have "mark_in_review cfg og i s = Ok t" by simp
  then show ?thesis by (rule mark_in_review_Ok) (simp add: sting_change_def restated_def)
next
  case (EscalateTicket i)
  with assms have "escalate_ticket og i s = Ok t" by simp
  then show ?thesis by (rule escalate_ticket_Ok) (simp add: sting_change_def restated_def)
next
  case (RequestStingOperation a v h)
  with assms have "request_sting_operation cfg og a v h s = Ok t" by simp
  then show ?thesis by (rule request_sting_Ok) (auto simp: sting_change_def)
next
  case (ApproveSting i)
  with assms have "approve_sting og i s = Ok t" by simp
  then show ?thesis by (rule approve_sting_Ok) (erule sting_change_edge, auto simp: sting_edge_def)
next
  case (RevealAndSpringTrap i salt)
  with assms have "reveal_and_spring_trap cfg og i salt s = Ok t" by simp
  then show ?thesis by (rule reveal_Ok) (erule sting_change_edge, auto simp: sting_edge_def)
qed

lemma step_sting_change:
  assumes "voice_step cfg s t"
  shows "sting_change s t"
  using assms unfolding machine_step_def
proof
  assume "\<exists>c. voice_dispatch cfg c s = Ok t"
  then obtain og c where "voice_dispatch cfg (og, c) s = Ok t" by (metis surj_pair)
  then show ?thesis by (rule dispatch_sting_change)
qed (auto simp: voice_foreign_def sting_change_def)

definition stings_below :: "'x voice_state \<Rightarrow> bool" where
  "stings_below s \<longleftrightarrow> (\<forall>i\<ge>next_sting_id s. sting_operations s i = None)"

definition sting_move :: "'x voice_config \<Rightarrow> 'x voice_state \<Rightarrow> 'x voice_state \<Rightarrow> bool" where
  "sting_move cfg s t \<longleftrightarrow> voice_step cfg s t \<and> stings_below s"

interpretation traps: lifecycle sting_operations sting_edge "sting_move cfg" for cfg :: "'x voice_config"
proof
  fix s t :: "'x voice_state" and i p
  assume m: "sting_move cfg s t" and p: "sting_operations s i = Some p" "sting_operations t i \<noteq> Some p"
  then have "sting_change s t" "stings_below s" by (auto simp: sting_move_def intro: step_sting_change)
  with p show "\<exists>q. sting_operations t i = Some q \<and> sting_edge p q"
    unfolding sting_change_def stings_below_def by (auto split: if_splits)
qed

lemma sting_next: "sting_change s t \<Longrightarrow> next_sting_id t < umax 64 \<Longrightarrow>
    next_sting_id s < umax 64 \<and> (stings_below s \<longrightarrow> stings_below t)"
  unfolding sting_change_def stings_below_def by (auto simp: sat_add_def split: if_splits)

lemma sting_moves:
  assumes "(voice_step cfg)\<^sup>*\<^sup>* s t" "next_sting_id t < umax 64" "stings_below s"
  shows "(sting_move cfg)\<^sup>*\<^sup>* s t \<and> stings_below t"
  using assms
proof (induction rule: rtranclp_induct)
  case (step t u)
  note c = sting_next[OF step_sting_change[OF step.hyps(2)] step.prems(1)]
  with step have IH: "(sting_move cfg)\<^sup>*\<^sup>* s t" "stings_below t" by blast+
  then have "sting_move cfg t u" using step.hyps(2) unfolding sting_move_def by blast
  with IH c show ?case by (meson rtranclp.rtrancl_into_rtrancl)
qed simp

lemma sting_room: "(voice_step cfg)\<^sup>*\<^sup>* s t \<Longrightarrow> next_sting_id t < umax 64 \<Longrightarrow> next_sting_id s < umax 64"
  by (induction rule: converse_rtranclp_induct) (auto dest: sting_next[OF step_sting_change])

lemma sprung_final: "sting_edge\<^sup>*\<^sup>* p q \<Longrightarrow> sting_status p = Sprung \<Longrightarrow> q = p"
  by (induction rule: rtranclp_induct) (auto simp: sting_edge_def)

lemma voice_start_below:
  "\<forall>i\<in>dom (tickets (voice_start x)). i < next_ticket_id (voice_start x)" "next_ticket_id (voice_start x) \<le> umax 32"
  "stings_below (voice_start x)" "delivered (voice_start x)"
  by (simp_all add: voice_start_def stings_below_def delivered_def)

end
