(* ===== verification/Citizen_Voice_Claims.thy ===== *)
theory Citizen_Voice_Claims
  imports Citizen_Voice
begin

text \<open>
  Properties of the citizen's voice: a ticket reaches its target and is closed once, an escalated one by root alone; the
  accused can close a complaint, at the cost of its author, before it is escalated; and what springing a trap does.
\<close>

lemma ticket_kept:
  assumes s: "reachable (voice_dispatch cfg) voice_foreign (voice_start x) s"
    and t: "reachable (voice_dispatch cfg) voice_foreign s t" "next_ticket_id t < umax 32"
    and k: "tickets s i = Some k"
  obtains k' where "tickets t i = Some k'" "ticket_later k k'"
proof -
  note steps = s[unfolded reachable_iff_steps] t(1)[unfolded reachable_iff_steps]
  have mono: "next_ticket_id s \<le> umax 32" "next_ticket_id s \<le> next_ticket_id t"
    using complaints.steps_mono[OF steps(1) voice_start_below(2)] complaints.steps_mono[OF steps(2)] by auto
  have below: "\<forall>i\<in>dom (tickets s). i < next_ticket_id s"
    using ticket_moves[OF steps(1) _ voice_start_below(1,2)] mono(2) t(2) by simp
  from hearings.steps_edges[OF conjunct1[OF ticket_moves[OF steps(2) t(2) below mono(1)]] k] that
  show thesis using edges_ticket_later by blast
qed

lemma closed_ticket_fails:
  assumes "tickets t i = Some k" "ticket_status k \<in> {Resolved, Rejected}"
  shows "resolve_ticket cfg og i h b t \<noteq> Ok u"
proof
  assume "resolve_ticket cfg og i h b t = Ok u"
  then show False by (rule resolve_ticket_Ok) (use assms in auto)
qed

text \<open>C29: Tickets are delivered and closed once. While numbers last, and whatever calls follow, a ticket keeps its author,
  target, content and deposit and stays in the index of its target. Once resolved or rejected it never changes again and
  cannot be resolved; once escalated, no signed account closes it. A resolution that succeeds gives the author the
  deposit back or burns it, as it is found helpful or not, leaves the ticket resolved or rejected, and is the last:
  in every state that follows, while numbers last, the ticket is as it left it and every further resolution fails.\<close>

theorem tickets_close_once:
  assumes s: "reachable (voice_dispatch cfg) voice_foreign (voice_start x) s"
    and t: "reachable (voice_dispatch cfg) voice_foreign s t" "next_ticket_id t < umax 32"
    and k: "tickets s i = Some k"
  shows "\<exists>k'. tickets t i = Some k' \<and> author k' = author k \<and> target k' = target k \<and> content_hash k' = content_hash k
    \<and> deposit k' = deposit k \<and> i \<in> target_tickets t (target k)
    \<and> (ticket_status k \<in> {Resolved, Rejected} \<longrightarrow> k' = k \<and> (\<forall>og h b. \<exists>e. resolve_ticket cfg og i h b t = Err e))
    \<and> (ticket_status k = Escalated \<longrightarrow> (\<forall>a h b. \<exists>e. resolve_ticket cfg (Signed a) i h b t = Err e))
    \<and> (\<forall>og h b u. resolve_ticket cfg og i h b t = Ok u \<longrightarrow>
         voice_world u = (if b then unreserve (voice_currency cfg) (voice_world t) (author k) (deposit k)
           else slash_reserved (voice_currency cfg) (voice_world t) (author k) (deposit k))
         \<and> (\<forall>v. reachable (voice_dispatch cfg) voice_foreign u v \<longrightarrow> next_ticket_id v < umax 32 \<longrightarrow>
              tickets v i = Some (k'\<lparr>ticket_status := if b then Resolved else Rejected\<rparr>)
              \<and> (\<forall>og' h' b'. \<exists>e. resolve_ticket cfg og' i h' b' v = Err e)))"
proof -
  obtain k' where k': "tickets t i = Some k'" and later: "ticket_later k k'" by (rule ticket_kept[OF s t k])
  have same: "author k' = author k" "target k' = target k" "content_hash k' = content_hash k" "deposit k' = deposit k"
    using later unfolding ticket_later_def by (metis ticket.select_convs ticket.surjective ticket.update_convs)+
  have "delivered t" using mailbox.reachable_inv[OF s voice_start_below(4)] mailbox.reachable_inv[OF t(1)] by blast
  then have index: "i \<in> target_tickets t (target k)" using deliveredD[OF _ k' same(2)] by blast
  have fails: "\<exists>e. resolve_ticket cfg og i h b v = Err e"
    if "tickets v i = Some q" "ticket_status q \<in> {Resolved, Rejected}" for og h b v q
    using closed_ticket_fails[OF that, of cfg og h b] by (cases "resolve_ticket cfg og i h b v") auto
  have root: "\<exists>e. resolve_ticket cfg (Signed a) i h b t = Err e" if st: "ticket_status k' \<in> {Escalated, Resolved, Rejected}" for a h b
  proof (cases "resolve_ticket cfg (Signed a) i h b t")
    case (Ok u)
    then show ?thesis by (rule resolve_ticket_Ok) (use st k' in auto)
  qed blast
  have settled: "voice_world u = (if b then unreserve (voice_currency cfg) (voice_world t) (author k) (deposit k)
        else slash_reserved (voice_currency cfg) (voice_world t) (author k) (deposit k))
      \<and> tickets u i = Some (k'\<lparr>ticket_status := if b then Resolved else Rejected\<rparr>)"
    if "resolve_ticket cfg og i h b t = Ok u" for og h b u
    using that by (rule resolve_ticket_Ok) (use k' same in \<open>auto simp: restated_def\<close>)
  have last: "tickets v i = Some (k'\<lparr>ticket_status := if b then Resolved else Rejected\<rparr>)"
    if u: "resolve_ticket cfg og i h b t = Ok u"
      and v: "reachable (voice_dispatch cfg) voice_foreign u v" "next_ticket_id v < umax 32" for og h b u v
  proof -
    have "voice_dispatch cfg (og, ResolveTicket i h b) t = Ok u" using u by simp
    then have "machine_step (voice_dispatch cfg) voice_foreign t u" unfolding machine_step_def by blast
    with s t(1) have "reachable (voice_dispatch cfg) voice_foreign (voice_start x) u"
      unfolding reachable_iff_steps by (meson rtranclp_trans rtranclp.rtrancl_into_rtrancl)
    from ticket_kept[OF this v conjunct2[OF settled[OF u]]] obtain q where
      "tickets v i = Some q" "ticket_later (k'\<lparr>ticket_status := if b then Resolved else Rejected\<rparr>) q" .
    then show ?thesis unfolding ticket_later_def open_ticket_def by (cases b) auto
  qed
  show ?thesis
  proof (intro exI[of _ k'] conjI allI impI)
    assume st: "ticket_status k \<in> {Resolved, Rejected}"
    show "k' = k" using later st unfolding ticket_later_def open_ticket_def by auto
    then show "\<exists>e. resolve_ticket cfg og i h b t = Err e" for og h b using fails[OF k'] st by simp
  next
    fix a h b
    assume "ticket_status k = Escalated"
    then have "ticket_status k' \<in> {Escalated, Resolved, Rejected}" using later unfolding ticket_later_def by blast
    then show "\<exists>e. resolve_ticket cfg (Signed a) i h b t = Err e" by (rule root)
  next
    fix og h b u
    assume u: "resolve_ticket cfg og i h b t = Ok u"
    show "voice_world u = (if b then unreserve (voice_currency cfg) (voice_world t) (author k) (deposit k)
        else slash_reserved (voice_currency cfg) (voice_world t) (author k) (deposit k))"
      by (rule settled[OF u, THEN conjunct1])
    fix v
    assume v: "reachable (voice_dispatch cfg) voice_foreign u v" "next_ticket_id v < umax 32"
    show "tickets v i = Some (k'\<lparr>ticket_status := if b then Resolved else Rejected\<rparr>)" by (rule last[OF u v])
    then show "\<exists>e. resolve_ticket cfg og' i h' b' v = Err e" for og' h' b' by (rule fails) simp
  qed (rule k' same index)+
qed

text \<open>C30: The accused burns the complaint. Right after a ticket was submitted, whoever has authority over its target, for a
  complaint about an account that account itself, can reject it: the deposit of the author is burnt, and the author
  can no longer escalate.\<close>

theorem accused_burns_the_complaint:
  assumes ok: "reservable_ok (voice_currency cfg)"
    and t: "submit_ticket cfg (Signed a) tgt kind h s = Ok t"
    and e: "ensure_signed_target_authority cfg accused tgt (voice_world t) = Ok ()"
  shows "\<exists>u k. resolve_ticket cfg (Signed accused) (next_ticket_id s) h' False t = Ok u
    \<and> tickets u (next_ticket_id s) = Some k \<and> ticket_status k = Rejected
    \<and> total_issuance (voice_currency cfg) (voice_world u)
        = total_issuance (voice_currency cfg) (voice_world s) - ticket_deposit cfg
    \<and> free_balance (voice_currency cfg) (voice_world u) a + ticket_deposit cfg
        = free_balance (voice_currency cfg) (voice_world s) a
    \<and> reserved_balance (voice_currency cfg) (voice_world u) = reserved_balance (voice_currency cfg) (voice_world s)
    \<and> (\<forall>og. \<exists>err. escalate_ticket og (next_ticket_id s) u = Err err)"
proof -
  let ?cur = "voice_currency cfg" and ?d = "ticket_deposit cfg" and ?i = "next_ticket_id s"
  let ?k = "\<lparr>author = a, target = tgt, feedback_type = kind, content_hash = h, ticket_status = Open, deposit = ?d\<rparr>"
  have x: "reserve_funds ?cur (voice_world s) a ?d = Ok (voice_world t)" and k: "tickets t ?i = Some ?k"
    using t unfolding submit_ticket_def Let_def by (auto simp: ok_simps)
  have "ticket_resolver cfg (Signed accused) ?k (voice_world t) = Ok (Some accused)"
    using e by (cases tgt) (simp_all add: ticket_resolver_def ensure_signed_target_authority_def)
  then obtain u where u: "resolve_ticket cfg (Signed accused) ?i h' False t = Ok u" using k by (simp add: resolve_ticket_def)
  have w: "voice_world u = slash_reserved ?cur (voice_world t) a ?d" and ku: "tickets u ?i = Some (?k\<lparr>ticket_status := Rejected\<rparr>)"
    using u k unfolding resolve_ticket_def by (auto simp: ok_simps set_ticket_status_def)
  note r = reserveD[OF ok x]
  have "total_issuance ?cur (voice_world u) = total_issuance ?cur (voice_world s) - ?d"
    "free_balance ?cur (voice_world u) a + ?d = free_balance ?cur (voice_world s) a"
    "reserved_balance ?cur (voice_world u) = reserved_balance ?cur (voice_world s)"
    unfolding w slash_simps[OF ok] r(2-4) using r(1) by (simp_all add: fun_eq_iff)
  moreover have "\<exists>err. escalate_ticket og ?i u = Err err" for og
  proof (cases "escalate_ticket og ?i u")
    case (Ok v)
    then show ?thesis by (rule escalate_ticket_Ok) (use ku in \<open>auto simp: restated_def\<close>)
  qed blast
  ultimately show ?thesis using u ku by (intro exI[of _ u] exI[of _ "?k\<lparr>ticket_status := Rejected\<rparr>"]) simp
qed

text \<open>A trap springs once. It takes root, a prior approval and a salt that opens the commitment to the amount staked. The
  suspect is exiled, the citizen gets back what is reserved of the stake and, from the treasury, the promised
  percentage of it; nothing in it depends on what the suspect received. From then on the operation never changes, and
  it can never be sprung again.\<close>

theorem trap_springs_once:
  assumes ok: "reservable_ok (voice_currency cfg)"
    and s: "reachable (voice_dispatch cfg) voice_foreign (voice_start x0) s"
    and t: "reveal_and_spring_trap cfg og i salt s = Ok t"
    and p: "sting_operations s i = Some p" "state_treasury cfg \<noteq> sting_citizen p"
    and u: "reachable (voice_dispatch cfg) voice_foreign t u" "next_sting_id u < umax 64"
  shows "og = Root \<and> sting_status p = Approved \<and> voice_hash cfg (to_le_bytes 16 (sting_amount p) @ salt) = commit_hash p
    \<and> (\<exists>x. exile_suspect cfg (sting_target p) (voice_world s) = Ok x
        \<and> free_balance (voice_currency cfg) (voice_world t) (sting_citizen p)
            = free_balance (voice_currency cfg) x (sting_citizen p)
              + min (sting_amount p) (reserved_balance (voice_currency cfg) x (sting_citizen p))
              + sat_mul 128 (sting_amount p) (reward_percent cfg) div 100
        \<and> free_balance (voice_currency cfg) (voice_world t) (state_treasury cfg)
              + sat_mul 128 (sting_amount p) (reward_percent cfg) div 100
            = free_balance (voice_currency cfg) x (state_treasury cfg)
        \<and> total_issuance (voice_currency cfg) (voice_world t) = total_issuance (voice_currency cfg) x)
    \<and> sting_operations u i = Some (p\<lparr>sting_status := Sprung\<rparr>)
    \<and> (\<forall>og' salt'. \<exists>e. reveal_and_spring_trap cfg og' i salt' u = Err e)"
proof -
  let ?cur = "voice_currency cfg" and ?c = "sting_citizen p" and ?v = "sting_amount p"
  obtain x where x: "og = Root" "sting_status p = Approved"
    "voice_hash cfg (sting_preimage ?v salt) = commit_hash p" "exile_suspect cfg (sting_target p) (voice_world s) = Ok x"
    "pay_sting_reward cfg p (unreserve ?cur x ?c ?v) = Ok (voice_world t)"
    and q: "sting_operations t i = Some (p\<lparr>sting_status := Sprung\<rparr>)"
    using t by (rule reveal_Ok) (use p(1) that in simp)
  have money: "free_balance ?cur (voice_world t) ?c = free_balance ?cur (unreserve ?cur x ?c ?v) ?c + sting_reward cfg ?v
      \<and> free_balance ?cur (voice_world t) (state_treasury cfg) + sting_reward cfg ?v
          = free_balance ?cur (unreserve ?cur x ?c ?v) (state_treasury cfg)
      \<and> total_issuance ?cur (voice_world t) = total_issuance ?cur (unreserve ?cur x ?c ?v)"
  proof (cases "0 < sting_reward cfg ?v")
    case True
    then have "transfer ?cur (unreserve ?cur x ?c ?v) (state_treasury cfg) ?c (sting_reward cfg ?v) KeepAlive = Ok (voice_world t)"
      using x(5) by (simp add: pay_sting_reward_def Let_def ok_simps)
    from transfer_keepD[OF reservable_currency[OF ok] this] p(2) show ?thesis by auto
  qed (use x(5) in \<open>simp add: pay_sting_reward_def\<close>)
  have step: "voice_dispatch cfg (og, RevealAndSpringTrap i salt) s = Ok t" using t by simp
  have "reachable (voice_dispatch cfg) voice_foreign (voice_start x0) t" by (rule reachable.call[OF s step])
  note steps = this[unfolded reachable_iff_steps] u(1)[unfolded reachable_iff_steps]
  have "next_sting_id t < umax 64" using steps(2) u(2) by (rule sting_room)
  from conjunct2[OF sting_moves[OF steps(1) this voice_start_below(3)]]
  have "(sting_move cfg)\<^sup>*\<^sup>* t u" using sting_moves[OF steps(2) u(2)] by blast
  from traps.steps_edges[OF this q] have later: "sting_operations u i = Some (p\<lparr>sting_status := Sprung\<rparr>)"
    using sprung_final by fastforce
  have "\<exists>e. reveal_and_spring_trap cfg og' i salt' u = Err e" for og' salt'
  proof (cases "reveal_and_spring_trap cfg og' i salt' u")
    case (Ok v)
    then show ?thesis by (rule reveal_Ok) (use later in auto)
  qed blast
  with x money later p(2) show ?thesis
    by (simp add: unreserve_simps[OF ok] sting_reward_def sting_preimage_def)
qed

section \<open>A citizen and an official\<close>

text \<open>Account 11 is the citizen, account 12 the official, account 50 the treasury; commitments are not hashed.\<close>

definition toy_voice :: "pouch voice_config" where
  "toy_voice = \<lparr>voice_currency = pouch_currency 1, is_guild_master = (\<lambda>_ _ _. False), exile_suspect = (\<lambda>_ x. Ok x),
     state_treasury = 50, ticket_deposit = 5, reward_percent = 20, voice_hash = (\<lambda>b. b)\<rparr>"

definition toy_funds :: pouch where
  "toy_funds = \<lparr>bal = (\<lambda>_. 0)(11 := 200, 50 := 500), issued = 700, lock_of = (\<lambda>_ _. None), set_aside = (\<lambda>_. 0)\<rparr>"

definition toy_complaint :: "pouch voice_state" where
  "toy_complaint = run (voice_dispatch toy_voice)
     [(Signed 11, SubmitTicket (Entity 12) Complaint []), (Signed 11, EscalateTicket 0)] (voice_start toy_funds)"

definition toy_trap :: "pouch voice_state" where
  "toy_trap = run (voice_dispatch toy_voice)
     [(Signed 11, RequestStingOperation 12 100 (to_le_bytes 16 100 @ [1])), (Root, ApproveSting 0)] (voice_start toy_funds)"

lemma toy_voice_sel [simp]:
  "voice_currency toy_voice = pouch_currency 1" "exile_suspect toy_voice a x = Ok x" "state_treasury toy_voice = 50"
  "ticket_deposit toy_voice = 5" "reward_percent toy_voice = 20" "voice_hash toy_voice b = b"
  by (simp_all add: toy_voice_def)

lemma toy_complaint_eval:
  "\<exists>k. tickets toy_complaint 0 = Some k \<and> ticket_status k = Escalated \<and> target k = Entity 12" "next_ticket_id toy_complaint = 1"
  by (simp_all add: toy_complaint_def execute_def submit_ticket_def escalate_ticket_def set_ticket_status_def voice_start_def
      toy_funds_def pouch_currency_def sat_add_def umax_def)

lemma toy_trap_eval:
  "sting_operations toy_trap 0 = Some \<lparr>sting_citizen = 11, sting_target = 12, sting_amount = 100,
     commit_hash = to_le_bytes 16 100 @ [1], sting_status = Approved\<rparr>"
  "next_sting_id toy_trap = 1" "bal (voice_world toy_trap) = (\<lambda>_. 0)(11 := 100, 50 := 500)"
  "set_aside (voice_world toy_trap) = (\<lambda>_. 0)(11 := 100)"
  by (simp_all add: toy_trap_def execute_def request_sting_operation_def approve_sting_def voice_start_def
      toy_funds_def pouch_currency_def sat_add_def umax_def fun_eq_iff)

text \<open>Root settles the escalated complaint; a second decision is refused.\<close>

lemma tickets_close_once_witness:
  "\<exists>u. resolve_ticket toy_voice Root 0 [] True toy_complaint = Ok u
     \<and> (\<exists>k. tickets u 0 = Some k \<and> ticket_status k = Resolved)
     \<and> (\<exists>e. resolve_ticket toy_voice Root 0 [] False u = Err e)
     \<and> (\<exists>e. resolve_ticket toy_voice (Signed 12) 0 [] False toy_complaint = Err e)"
proof -
  have r: "reachable (voice_dispatch toy_voice) voice_foreign (voice_start toy_funds) toy_complaint"
    unfolding toy_complaint_def by (rule reachable_run[OF reachable.start])
  obtain k where k: "tickets toy_complaint 0 = Some k" "ticket_status k = Escalated" "target k = Entity 12"
    using toy_complaint_eval(1) by blast
  have n: "next_ticket_id toy_complaint < umax 32" by (simp add: toy_complaint_eval umax_def)
  note once = tickets_close_once[OF r reachable.start n k(1)]
  obtain u where u: "resolve_ticket toy_voice Root 0 [] True toy_complaint = Ok u"
    using k by (simp add: resolve_ticket_def ticket_resolver_def)
  have "next_ticket_id u < umax 32"
    using u n by (elim resolve_ticket_Ok) (simp add: restated_def)
  then have "\<exists>q. tickets u 0 = Some q \<and> ticket_status q = Resolved"
    "\<exists>e. resolve_ticket toy_voice Root 0 [] False u = Err e"
    using once u reachable.start[of "voice_dispatch toy_voice" voice_foreign u] by auto
  moreover have "\<exists>e. resolve_ticket toy_voice (Signed 12) 0 [] False toy_complaint = Err e"
    using once k(2) by blast
  ultimately show ?thesis using u by blast
qed

lemma accused_burns_the_complaint_witness:
  "\<exists>t u. submit_ticket toy_voice (Signed 11) (Entity 12) Complaint [] (voice_start toy_funds) = Ok t
     \<and> resolve_ticket toy_voice (Signed 12) 0 [] False t = Ok u \<and> issued (voice_world u) = 695"
proof -
  obtain t where t: "submit_ticket toy_voice (Signed 11) (Entity 12) Complaint [] (voice_start toy_funds) = Ok t"
    by (simp add: submit_ticket_def voice_start_def toy_funds_def pouch_currency_def)
  have "reservable_ok (voice_currency toy_voice)" by (simp add: pouch_reservable)
  moreover have "ensure_signed_target_authority toy_voice 12 (Entity 12) (voice_world t) = Ok ()"
    by (simp add: ensure_signed_target_authority_def)
  ultimately show ?thesis
    using accused_burns_the_complaint[OF _ t, of 12 "[]"] t by (auto simp: voice_start_def toy_funds_def)
qed

lemma trap_springs_once_witness:
  "\<exists>t. reveal_and_spring_trap toy_voice Root 0 [1] toy_trap = Ok t \<and> bal (voice_world t) 11 = 220
     \<and> bal (voice_world t) 50 = 480"
proof -
  have r: "reachable (voice_dispatch toy_voice) voice_foreign (voice_start toy_funds) toy_trap"
    unfolding toy_trap_def by (rule reachable_run[OF reachable.start])
  have reward: "sting_reward toy_voice 100 = 20" by (simp add: sting_reward_def sat_mul_def umax_def)
  obtain t where t: "reveal_and_spring_trap toy_voice Root 0 [1] toy_trap = Ok t" "next_sting_id t = 1"
    using toy_trap_eval
    by (simp add: reveal_and_spring_trap_def sting_preimage_def pay_sting_reward_def reward Let_def pouch_defs book_defs)
  have "reservable_ok (voice_currency toy_voice)" by (simp add: pouch_reservable)
  moreover have "next_sting_id t < umax 64" by (simp add: t(2) umax_def)
  ultimately show ?thesis
    using trap_springs_once[OF _ r t(1) toy_trap_eval(1) _ reachable.start] t(1)
    by (simp add: toy_trap_eval sat_mul_def umax_def)
qed

end
