(* ===== verification/Chancery.thy ===== *)
theory Chancery
  imports Pallet_Interfaces
begin

text \<open>
  \<^verbatim>\<open>pallets/chancery/src/lib.rs\<close>: agreements of several parties under the hash of a document, signed by the parties and
  validated by professionals of the guilds.

  \<open>'x\<close> is the storage of the guilds pallet, read through the bridge \<open>is_valid_validator\<close>. The pallet has no currency.
\<close>

section \<open>Data\<close>

datatype agreement_status = PendingSignatures | PendingValidation | Active | Disputed | Completed | Cancelled

record agreement =
  document_hash :: h256
  creator :: account
  parties :: "account list"
  validators :: "account list option"
  signed_by :: "account list"
  validated_by :: "account list"
  agreement_status :: agreement_status

datatype chancery_event =
    AgreementProposed h256 account nat bool
  | AgreementSigned h256 account nat nat
  | AgreementPendingValidation h256
  | AgreementValidated h256 account nat nat
  | AgreementActivated h256
  | AgreementDisputed h256 account
  | AgreementCompleted h256

datatype chancery_error =
    AgreementAlreadyExists
  | AgreementNotFound
  | InsufficientParties
  | NotAParty
  | NotAValidator
  | AlreadySigned
  | AlreadyValidated
  | NotPendingSignatures
  | NotPendingValidation
  | NotActive
  | AlreadyDisputed
  | AlreadyCompleted
  | ValidatorNotProfessional
  | TooManyParties
  | TooManyValidators
  | CreatorNotInParties

type_synonym chancery_failure = "chancery_error dispatch_error"

record 'x chancery_state =
  chancery_world :: 'x
  agreements :: "h256 \<Rightarrow> agreement option"
  chancery_events :: "chancery_event list"

record 'x chancery_config =
  max_parties :: nat
  max_validators :: nat
  is_valid_validator :: "'x \<Rightarrow> account \<Rightarrow> bool"

definition emit_chancery :: "chancery_event list \<Rightarrow> 'x chancery_state \<Rightarrow> 'x chancery_state" where
  "emit_chancery es s = s\<lparr>chancery_events := chancery_events s @ es\<rparr>"

lemma emit_chancery_simps [simp]:
  "chancery_world (emit_chancery es s) = chancery_world s" "agreements (emit_chancery es s) = agreements s"
  by (simp_all add: emit_chancery_def)

section \<open>Calls\<close>

definition all_present :: "account list \<Rightarrow> account list \<Rightarrow> bool" where
  "all_present required collected \<longleftrightarrow> (\<forall>a \<in> set required. a \<in> set collected)"

definition has_validators :: "account list option \<Rightarrow> bool" where
  "has_validators vs \<longleftrightarrow> (case vs of None \<Rightarrow> False | Some v \<Rightarrow> v \<noteq> [])"

definition put_agreement :: "h256 \<Rightarrow> agreement \<Rightarrow> chancery_event list \<Rightarrow> 'x chancery_state \<Rightarrow> 'x chancery_state" where
  "put_agreement h g es s = emit_chancery es (s\<lparr>agreements := (agreements s)(h \<mapsto> g)\<rparr>)"

lemma put_agreement_simps [simp]:
  "agreements (put_agreement h g es s) = (agreements s)(h \<mapsto> g)" "chancery_world (put_agreement h g es s) = chancery_world s"
  by (simp_all add: put_agreement_def)

definition propose_agreement ::
  "'x chancery_config \<Rightarrow> origin \<Rightarrow> h256 \<Rightarrow> account list \<Rightarrow> account list option \<Rightarrow> 'x chancery_state
   \<Rightarrow> ('x chancery_state, chancery_failure) result" where
  "propose_agreement cfg og h ps vs s =
     and_then (ensure_signed og) (\<lambda>who.
     ensure (agreements s h = None) (Module AgreementAlreadyExists) (
     ensure (2 \<le> length ps) (Module InsufficientParties) (
     ensure (who \<in> set ps) (Module CreatorNotInParties) (
     ensure (length ps \<le> max_parties cfg) (Module TooManyParties) (
     ensure (case vs of None \<Rightarrow> True | Some v \<Rightarrow> length v \<le> max_validators cfg) (Module TooManyValidators) (
     Ok (put_agreement h
          \<lparr>document_hash = h, creator = who, parties = ps, validators = vs, signed_by = [], validated_by = [],
           agreement_status = PendingSignatures\<rparr>
          [AgreementProposed h who (length ps) (has_validators vs)] s)))))))"

text \<open>When the last party has signed, the agreement awaits validation or is active.\<close>

definition sign_agreement ::
  "'x chancery_config \<Rightarrow> origin \<Rightarrow> h256 \<Rightarrow> 'x chancery_state \<Rightarrow> ('x chancery_state, chancery_failure) result" where
  "sign_agreement cfg og h s =
     and_then (ensure_signed og) (\<lambda>signer.
     ok_or (agreements s h) (Module AgreementNotFound) (\<lambda>g.
     ensure (agreement_status g = PendingSignatures) (Module NotPendingSignatures) (
     ensure (signer \<in> set (parties g)) (Module NotAParty) (
     ensure (signer \<notin> set (signed_by g)) (Module AlreadySigned) (
     ensure (length (signed_by g) < max_parties cfg) (Module TooManyParties) (
     let g1 = g\<lparr>signed_by := signed_by g @ [signer]\<rparr>;
         e1 = AgreementSigned h signer (length (signed_by g1)) (length (parties g1))
     in Ok (if all_present (parties g1) (signed_by g1)
            then if has_validators (validators g1)
                 then put_agreement h (g1\<lparr>agreement_status := PendingValidation\<rparr>) [e1, AgreementPendingValidation h] s
                 else put_agreement h (g1\<lparr>agreement_status := Active\<rparr>) [e1, AgreementActivated h] s
            else put_agreement h g1 [e1] s)))))))"

definition validate_agreement ::
  "'x chancery_config \<Rightarrow> origin \<Rightarrow> h256 \<Rightarrow> 'x chancery_state \<Rightarrow> ('x chancery_state, chancery_failure) result" where
  "validate_agreement cfg og h s =
     and_then (ensure_signed og) (\<lambda>who.
     ensure (is_valid_validator cfg (chancery_world s) who) (Module ValidatorNotProfessional) (
     ok_or (agreements s h) (Module AgreementNotFound) (\<lambda>g.
     ensure (agreement_status g = PendingValidation) (Module NotPendingValidation) (
     ok_or (validators g) (Module NotAValidator) (\<lambda>vs.
     ensure (who \<in> set vs) (Module NotAValidator) (
     ensure (who \<notin> set (validated_by g)) (Module AlreadyValidated) (
     ensure (length (validated_by g) < max_validators cfg) (Module TooManyValidators) (
     let g1 = g\<lparr>validated_by := validated_by g @ [who]\<rparr>;
         e1 = AgreementValidated h who (length (validated_by g1)) (length vs)
     in Ok (if all_present vs (validated_by g1)
            then put_agreement h (g1\<lparr>agreement_status := Active\<rparr>) [e1, AgreementActivated h] s
            else put_agreement h g1 [e1] s)))))))))"

definition raise_dispute :: "origin \<Rightarrow> h256 \<Rightarrow> 'x chancery_state \<Rightarrow> ('x chancery_state, chancery_failure) result" where
  "raise_dispute og h s =
     and_then (ensure_signed og) (\<lambda>who.
     ok_or (agreements s h) (Module AgreementNotFound) (\<lambda>g.
     ensure (agreement_status g = Active) (Module NotActive) (
     ensure (who \<in> set (parties g)) (Module NotAParty) (
     Ok (put_agreement h (g\<lparr>agreement_status := Disputed\<rparr>) [AgreementDisputed h who] s)))))"

definition complete_agreement :: "origin \<Rightarrow> h256 \<Rightarrow> 'x chancery_state \<Rightarrow> ('x chancery_state, chancery_failure) result" where
  "complete_agreement og h s =
     and_then (ensure_signed og) (\<lambda>who.
     ok_or (agreements s h) (Module AgreementNotFound) (\<lambda>g.
     ensure (agreement_status g = Active) (Module NotActive) (
     ensure (who \<in> set (parties g)) (Module NotAParty) (
     Ok (put_agreement h (g\<lparr>agreement_status := Completed\<rparr>) [AgreementCompleted h] s)))))"

text \<open>On death or exile the unsigned agreements of the account are cancelled; the order in which they are visited does not
  matter.\<close>

definition annul_signatures :: "account \<Rightarrow> 'x chancery_state \<Rightarrow> 'x chancery_state" where
  "annul_signatures who s = s\<lparr>agreements := (\<lambda>h. map_option
     (\<lambda>g. if agreement_status g = PendingSignatures \<and> who \<in> set (parties g) then g\<lparr>agreement_status := Cancelled\<rparr> else g)
     (agreements s h))\<rparr>"

section \<open>The pallet\<close>

datatype chancery_call =
    ProposeAgreement h256 "account list" "account list option"
  | SignAgreement h256
  | ValidateAgreement h256
  | RaiseDispute h256
  | CompleteAgreement h256

datatype chancery_op = ChanceryExtrinsic origin chancery_call | AnnulSignatures account

fun chancery_dispatch ::
  "'x chancery_config \<Rightarrow> origin \<times> chancery_call \<Rightarrow> 'x chancery_state \<Rightarrow> ('x chancery_state, chancery_failure) result" where
  "chancery_dispatch cfg (og, ProposeAgreement h ps vs) s = propose_agreement cfg og h ps vs s"
| "chancery_dispatch cfg (og, SignAgreement h) s = sign_agreement cfg og h s"
| "chancery_dispatch cfg (og, ValidateAgreement h) s = validate_agreement cfg og h s"
| "chancery_dispatch cfg (og, RaiseDispute h) s = raise_dispute og h s"
| "chancery_dispatch cfg (og, CompleteAgreement h) s = complete_agreement og h s"

fun chancery_operate ::
  "'x chancery_config \<Rightarrow> chancery_op \<Rightarrow> 'x chancery_state \<Rightarrow> ('x chancery_state, chancery_failure) result" where
  "chancery_operate cfg (ChanceryExtrinsic og c) s = chancery_dispatch cfg (og, c) s"
| "chancery_operate cfg (AnnulSignatures a) s = Ok (annul_signatures a s)"

definition chancery_foreign :: "'x chancery_state \<Rightarrow> 'x chancery_state \<Rightarrow> bool" where
  "chancery_foreign s t \<longleftrightarrow> (\<exists>x. t = s\<lparr>chancery_world := x\<rparr>)"

definition chancery_start :: "'x \<Rightarrow> 'x chancery_state" where
  "chancery_start x = \<lparr>chancery_world = x, agreements = Map.empty, chancery_events = []\<rparr>"

section \<open>Laws of the pallet\<close>

text \<open>
  Every operation moves an agreement along one kind of edge, which signing, validating, closing and annulling share; from
  the edges follow the \<open>lifecycle\<close> of an agreement and the invariant that it is never in force unsigned.
\<close>

abbreviation chancery_step :: "'x chancery_config \<Rightarrow> 'x chancery_state \<Rightarrow> 'x chancery_state \<Rightarrow> bool" where
  "chancery_step cfg \<equiv> machine_step (chancery_operate cfg) chancery_foreign"

definition same_terms :: "agreement \<Rightarrow> agreement \<Rightarrow> bool" where
  "same_terms g g' \<longleftrightarrow> document_hash g' = document_hash g \<and> creator g' = creator g \<and> parties g' = parties g
     \<and> validators g' = validators g"

text \<open>What has been signed stays signed; an agreement comes into force with all signatures and validations.\<close>

definition signing_edge :: "agreement \<Rightarrow> agreement \<Rightarrow> bool" where
  "signing_edge g g' \<longleftrightarrow> agreement_status g = PendingSignatures \<and> validated_by g' = validated_by g
     \<and> (\<exists>a \<in> set (parties g). a \<notin> set (signed_by g) \<and> signed_by g' = signed_by g @ [a])
     \<and> agreement_status g' = (if all_present (parties g) (signed_by g')
         then if has_validators (validators g) then PendingValidation else Active else PendingSignatures)"

definition validating_edge :: "agreement \<Rightarrow> agreement \<Rightarrow> bool" where
  "validating_edge g g' \<longleftrightarrow> agreement_status g = PendingValidation \<and> signed_by g' = signed_by g
     \<and> (\<exists>vs a. validators g = Some vs \<and> a \<in> set vs \<and> a \<notin> set (validated_by g) \<and> validated_by g' = validated_by g @ [a]
          \<and> agreement_status g' = (if all_present vs (validated_by g') then Active else PendingValidation))"

definition closing_edge :: "agreement \<Rightarrow> agreement \<Rightarrow> bool" where
  "closing_edge g g' \<longleftrightarrow> signed_by g' = signed_by g \<and> validated_by g' = validated_by g
     \<and> (agreement_status g, agreement_status g') \<in> {(Active, Disputed), (Active, Completed), (PendingSignatures, Cancelled)}"

definition agreement_edge :: "agreement \<Rightarrow> agreement \<Rightarrow> bool" where
  "agreement_edge g g' \<longleftrightarrow> same_terms g g' \<and> (signing_edge g g' \<or> validating_edge g g' \<or> closing_edge g g')"

lemmas agreement_edges = agreement_edge_def signing_edge_def validating_edge_def closing_edge_def same_terms_def

definition new_agreement :: "'x chancery_config \<Rightarrow> h256 \<Rightarrow> agreement \<Rightarrow> bool" where
  "new_agreement cfg h g \<longleftrightarrow> document_hash g = h \<and> creator g \<in> set (parties g) \<and> 2 \<le> length (parties g)
     \<and> length (parties g) \<le> max_parties cfg \<and> signed_by g = [] \<and> validated_by g = [] \<and> agreement_status g = PendingSignatures"

text \<open>One document in one operation.\<close>

definition document_change :: "'x chancery_config \<Rightarrow> h256 \<Rightarrow> 'x chancery_state \<Rightarrow> 'x chancery_state \<Rightarrow> bool" where
  "document_change cfg h s t \<longleftrightarrow> agreements t h = agreements s h
     \<or> (\<exists>g. agreements s h = None \<and> agreements t h = Some g \<and> new_agreement cfg h g)
     \<or> (\<exists>g g'. agreements s h = Some g \<and> agreements t h = Some g' \<and> agreement_edge g g')"

lemma document_change_put:
  assumes "agreements t = (agreements s)(k \<mapsto> g')"
    and "(agreements s k = None \<and> new_agreement cfg k g') \<or> (\<exists>g. agreements s k = Some g \<and> agreement_edge g g')"
  shows "document_change cfg h s t"
  using assms unfolding document_change_def by (cases "h = k") auto

lemma propose_agreement_Ok:
  assumes "propose_agreement cfg og k ps vs s = Ok t"
  obtains g where "agreements t = (agreements s)(k \<mapsto> g)" "agreements s k = None" "new_agreement cfg k g"
    "parties g = ps" "validators g = vs" "og = Signed (creator g)" "chancery_world t = chancery_world s"
proof -
  from assms obtain a where a: "og = Signed a" "agreements s k = None" "2 \<le> length ps" "a \<in> set ps" "length ps \<le> max_parties cfg"
    unfolding propose_agreement_def by (auto simp: ok_simps)
  let ?g = "\<lparr>document_hash = k, creator = a, parties = ps, validators = vs, signed_by = [], validated_by = [],
     agreement_status = PendingSignatures\<rparr>"
  have "agreements t = (agreements s)(k \<mapsto> ?g)" "chancery_world t = chancery_world s"
    using assms a unfolding propose_agreement_def by (auto simp: ok_simps)
  then show ?thesis using that[of ?g] a by (simp add: new_agreement_def)
qed

lemma sign_Ok:
  assumes "sign_agreement cfg og k s = Ok t"
  obtains g g' a where "agreements s k = Some g" "agreements t = (agreements s)(k \<mapsto> g')" "agreement_edge g g'"
    "og = Signed a" "signed_by g' = signed_by g @ [a]" "chancery_world t = chancery_world s"
proof -
  from assms obtain a g where a: "og = Signed a" "agreements s k = Some g" "agreement_status g = PendingSignatures"
      "a \<in> set (parties g)" "a \<notin> set (signed_by g)" "length (signed_by g) < max_parties cfg"
    unfolding sign_agreement_def Let_def by (auto simp: ok_simps)
  let ?st = "if all_present (parties g) (signed_by g @ [a])
     then if has_validators (validators g) then PendingValidation else Active else PendingSignatures"
  let ?g = "g\<lparr>signed_by := signed_by g @ [a], agreement_status := ?st\<rparr>"
  have keep: "g\<lparr>signed_by := signed_by g @ [a]\<rparr> = g\<lparr>signed_by := signed_by g @ [a], agreement_status := PendingSignatures\<rparr>"
    using a(3) by simp
  have "agreements t = (agreements s)(k \<mapsto> ?g)" "chancery_world t = chancery_world s"
    using assms a keep unfolding sign_agreement_def Let_def by (auto simp: ok_simps)
  moreover have "agreement_edge g ?g" using a by (auto simp: agreement_edges)
  ultimately show ?thesis using that[of g ?g a] a by simp
qed

lemma validate_Ok:
  assumes "validate_agreement cfg og k s = Ok t"
  obtains g g' a where "agreements s k = Some g" "agreements t = (agreements s)(k \<mapsto> g')" "agreement_edge g g'"
    "og = Signed a" "validated_by g' = validated_by g @ [a]" "chancery_world t = chancery_world s"
    "is_valid_validator cfg (chancery_world s) a"
proof -
  from assms obtain a g vs where a: "og = Signed a" "agreements s k = Some g" "agreement_status g = PendingValidation"
      "validators g = Some vs" "a \<in> set vs" "a \<notin> set (validated_by g)" "length (validated_by g) < max_validators cfg"
      "is_valid_validator cfg (chancery_world s) a"
    unfolding validate_agreement_def Let_def by (auto simp: ok_simps)
  let ?g = "g\<lparr>validated_by := validated_by g @ [a],
     agreement_status := (if all_present vs (validated_by g @ [a]) then Active else PendingValidation)\<rparr>"
  have keep: "g\<lparr>validated_by := validated_by g @ [a]\<rparr> = g\<lparr>validated_by := validated_by g @ [a], agreement_status := PendingValidation\<rparr>"
    using a(3) by simp
  have "agreements t = (agreements s)(k \<mapsto> ?g)" "chancery_world t = chancery_world s"
    using assms a keep unfolding validate_agreement_def Let_def by (auto simp: ok_simps)
  moreover have "agreement_edge g ?g" using a by (auto simp: agreement_edges)
  ultimately show ?thesis using that[of g ?g a] a by simp
qed

lemma close_Ok:
  assumes "raise_dispute og k s = Ok t \<or> complete_agreement og k s = Ok t"
  obtains g g' where "agreements s k = Some g" "agreements t = (agreements s)(k \<mapsto> g')" "agreement_edge g g'"
    "\<exists>a \<in> set (parties g). og = Signed a" "chancery_world t = chancery_world s"
  using assms unfolding raise_dispute_def complete_agreement_def by (auto simp: ok_simps agreement_edges)

lemma annul_change: "document_change cfg h s (annul_signatures a s)"
  by (cases "agreements s h") (auto simp: document_change_def annul_signatures_def agreement_edges)

lemma dispatch_change:
  assumes "chancery_dispatch cfg (og, c) s = Ok t"
  shows "document_change cfg h s t"
proof (cases c)
  case (ProposeAgreement k ps vs)
  with assms have "propose_agreement cfg og k ps vs s = Ok t" by simp
  then show ?thesis by (rule propose_agreement_Ok) (rule document_change_put, auto)
next
  case (SignAgreement k)
  with assms have "sign_agreement cfg og k s = Ok t" by simp
  then show ?thesis by (rule sign_Ok) (rule document_change_put, auto)
next
  case (ValidateAgreement k)
  with assms have "validate_agreement cfg og k s = Ok t" by simp
  then show ?thesis by (rule validate_Ok) (rule document_change_put, auto)
next
  case (RaiseDispute k)
  with assms have "raise_dispute og k s = Ok t \<or> complete_agreement og k s = Ok t" by simp
  then show ?thesis by (rule close_Ok) (rule document_change_put, auto)
next
  case (CompleteAgreement k)
  with assms have "raise_dispute og k s = Ok t \<or> complete_agreement og k s = Ok t" by simp
  then show ?thesis by (rule close_Ok) (rule document_change_put, auto)
qed

lemma operate_change: "chancery_operate cfg c s = Ok t \<Longrightarrow> document_change cfg h s t"
  by (cases c) (auto intro: dispatch_change annul_change)

lemma foreign_change: "chancery_foreign s t \<Longrightarrow> document_change cfg h s t"
  by (auto simp: chancery_foreign_def document_change_def)

interpretation contracts: lifecycle agreements agreement_edge "chancery_step cfg" for cfg :: "'x chancery_config"
proof
  fix s t :: "'x chancery_state" and h g
  assume "chancery_step cfg s t" and g: "agreements s h = Some g" "agreements t h \<noteq> Some g"
  then have "document_change cfg h s t" unfolding machine_step_def by (auto intro: operate_change foreign_change)
  with g show "\<exists>g'. agreements t h = Some g' \<and> agreement_edge g g'" unfolding document_change_def by auto
qed

section \<open>In force\<close>

definition executed :: "agreement \<Rightarrow> bool" where
  "executed g \<longleftrightarrow> agreement_status g \<in> {Active, Disputed, Completed}"

definition agreement_ok :: "'x chancery_config \<Rightarrow> h256 \<Rightarrow> agreement \<Rightarrow> bool" where
  "agreement_ok cfg h g \<longleftrightarrow> document_hash g = h \<and> creator g \<in> set (parties g) \<and> 2 \<le> length (parties g)
     \<and> length (parties g) \<le> max_parties cfg
     \<and> distinct (signed_by g) \<and> set (signed_by g) \<subseteq> set (parties g)
     \<and> distinct (validated_by g) \<and> set (validated_by g) \<subseteq> (case validators g of None \<Rightarrow> {} | Some vs \<Rightarrow> set vs)
     \<and> (agreement_status g = PendingValidation \<or> executed g \<longrightarrow> set (parties g) \<subseteq> set (signed_by g))
     \<and> (executed g \<longrightarrow> (case validators g of None \<Rightarrow> True | Some vs \<Rightarrow> set vs \<subseteq> set (validated_by g)))"

lemma new_agreement_ok: "new_agreement cfg h g \<Longrightarrow> agreement_ok cfg h g"
  by (auto simp: new_agreement_def agreement_ok_def executed_def)

lemma signing_ok: "signing_edge g g' \<Longrightarrow> same_terms g g' \<Longrightarrow> agreement_ok cfg h g \<Longrightarrow> agreement_ok cfg h g'"
  unfolding signing_edge_def
  by (auto simp: same_terms_def agreement_ok_def executed_def all_present_def has_validators_def
      split: if_splits option.splits)

lemma validating_ok: "validating_edge g g' \<Longrightarrow> same_terms g g' \<Longrightarrow> agreement_ok cfg h g \<Longrightarrow> agreement_ok cfg h g'"
  unfolding validating_edge_def
  by (auto simp: same_terms_def agreement_ok_def executed_def all_present_def split: if_splits)

lemma closing_ok: "closing_edge g g' \<Longrightarrow> same_terms g g' \<Longrightarrow> agreement_ok cfg h g \<Longrightarrow> agreement_ok cfg h g'"
  unfolding closing_edge_def
  by (auto simp: same_terms_def agreement_ok_def executed_def split: option.splits)

lemma edge_ok: "agreement_edge g g' \<Longrightarrow> agreement_ok cfg h g \<Longrightarrow> agreement_ok cfg h g'"
  unfolding agreement_edge_def using signing_ok validating_ok closing_ok by blast

definition archive_ok :: "'x chancery_config \<Rightarrow> 'x chancery_state \<Rightarrow> bool" where
  "archive_ok cfg s \<longleftrightarrow> (\<forall>h g. agreements s h = Some g \<longrightarrow> agreement_ok cfg h g)"

lemma change_ok: "(\<And>h. document_change cfg h s t) \<Longrightarrow> archive_ok cfg s \<Longrightarrow> archive_ok cfg t"
  unfolding archive_ok_def document_change_def by (metis edge_ok new_agreement_ok option.inject)

interpretation archive: pallet_machine "chancery_operate cfg" chancery_foreign "archive_ok cfg" for cfg :: "'x chancery_config"
  by unfold_locales (blast intro: change_ok operate_change foreign_change)+

lemma archive_start: "archive_ok cfg (chancery_start x)"
  by (simp add: archive_ok_def chancery_start_def)

text \<open>What an agreement can become.\<close>

definition agreement_later :: "agreement \<Rightarrow> agreement \<Rightarrow> bool" where
  "agreement_later g g' \<longleftrightarrow> same_terms g g' \<and> set (signed_by g) \<subseteq> set (signed_by g')
     \<and> set (validated_by g) \<subseteq> set (validated_by g')
     \<and> (agreement_status g \<in> {Disputed, Completed, Cancelled} \<longrightarrow> g' = g) \<and> (executed g \<longrightarrow> executed g')"

lemma edge_later: "agreement_edge g g' \<Longrightarrow> agreement_later g g'"
  by (auto simp: agreement_edges agreement_later_def executed_def)

lemma later_trans: "agreement_later f g \<Longrightarrow> agreement_later g h \<Longrightarrow> agreement_later f h"
  by (auto simp: agreement_later_def same_terms_def)

lemma edges_later: "agreement_edge\<^sup>*\<^sup>* g g' \<Longrightarrow> agreement_later g g'"
proof (induction rule: rtranclp_induct)
  case base
  show ?case by (simp add: agreement_later_def same_terms_def)
next
  case (step x y)
  then show ?case by (blast intro: later_trans edge_later)
qed

end
