(* ===== verification/Chancery_Claims.thy ===== *)
theory Chancery_Claims
  imports Chancery Guild_Unions
begin

text \<open>
  Properties of the chancery: an agreement in force carries all its signatures and validations and ends once; one account
  can agree with itself; and, with the bridge of the runtime, whoever founds one of the first guilds validates.
\<close>

text \<open>C31: Agreements bind who signed them. Whatever calls, deaths and exiles follow, an agreement keeps its document, parties
  and validators; each signature is of another party and each validation of another of its validators, none is given
  twice, and none is withdrawn; it is in force, disputed or completed only with the signatures of
  all its parties and the validations of all its validators, and stays so; and once disputed, completed or cancelled it
  never changes again.\<close>

theorem agreements_bind_the_signed:
  assumes s: "reachable (chancery_operate cfg) chancery_foreign (chancery_start x) s"
    and t: "reachable (chancery_operate cfg) chancery_foreign s t"
    and g: "agreements s h = Some g"
  shows "\<exists>g'. agreements t h = Some g' \<and> document_hash g' = h \<and> parties g' = parties g \<and> validators g' = validators g
    \<and> distinct (signed_by g') \<and> set (signed_by g) \<subseteq> set (signed_by g') \<and> set (signed_by g') \<subseteq> set (parties g)
    \<and> distinct (validated_by g') \<and> set (validated_by g) \<subseteq> set (validated_by g')
    \<and> set (validated_by g') \<subseteq> (case validators g of None \<Rightarrow> {} | Some vs \<Rightarrow> set vs)
    \<and> (agreement_status g' \<in> {Active, Disputed, agreement_status.Completed} \<longrightarrow> set (signed_by g') = set (parties g)
        \<and> (\<forall>vs. validators g = Some vs \<longrightarrow> set (validated_by g') = set vs))
    \<and> (agreement_status g \<in> {Active, Disputed, agreement_status.Completed} \<longrightarrow> agreement_status g' \<in> {Active, Disputed, agreement_status.Completed})
    \<and> (agreement_status g \<in> {Disputed, agreement_status.Completed, agreement_status.Cancelled} \<longrightarrow> g' = g)"
proof -
  obtain g' where g': "agreements t h = Some g'" "agreement_edge\<^sup>*\<^sup>* g g'"
    using contracts.steps_edges[OF t[unfolded reachable_iff_steps] g] by blast
  have later: "agreement_later g g'" by (rule edges_later[OF g'(2)])
  have "archive_ok cfg t" using archive.reachable_inv[OF s archive_start] archive.reachable_inv[OF t] by blast
  then have ok: "agreement_ok cfg h g'" using g'(1) unfolding archive_ok_def by blast
  have terms: "parties g' = parties g" "validators g' = validators g" "document_hash g' = h"
    "set (signed_by g) \<subseteq> set (signed_by g')" "set (validated_by g) \<subseteq> set (validated_by g')"
    "agreement_status g \<in> {Disputed, agreement_status.Completed, agreement_status.Cancelled} \<longrightarrow> g' = g"
    "agreement_status g \<in> {Active, Disputed, agreement_status.Completed} \<longrightarrow> agreement_status g' \<in> {Active, Disputed, agreement_status.Completed}"
    using later ok unfolding agreement_later_def same_terms_def agreement_ok_def executed_def by blast+
  have once: "distinct (signed_by g')" "set (signed_by g') \<subseteq> set (parties g)" "distinct (validated_by g')"
    "set (validated_by g') \<subseteq> (case validators g of None \<Rightarrow> {} | Some vs \<Rightarrow> set vs)"
    using ok unfolding agreement_ok_def terms(1,2) by blast+
  have "set (signed_by g') = set (parties g) \<and> (\<forall>vs. validators g = Some vs \<longrightarrow> set (validated_by g') = set vs)"
    if "agreement_status g' \<in> {Active, Disputed, agreement_status.Completed}"
    using ok that unfolding agreement_ok_def executed_def terms(1,2) by (cases "validators g") auto
  then show ?thesis using g'(1) terms once by (intro exI[of _ g'] conjI) blast+
qed

text \<open>One account agrees with itself: the two parties an agreement needs may be the same, and then one signature is enough.\<close>

theorem agreement_with_oneself:
  assumes "agreements s h = None" "2 \<le> max_parties cfg"
  shows "\<exists>g. agreements (run (chancery_operate cfg) [ChanceryExtrinsic (Signed a) (ProposeAgreement h [a, a] None),
      ChanceryExtrinsic (Signed a) (SignAgreement h)] s) h = Some g \<and> agreement_status g = Active"
  using assms by (simp add: execute_def propose_agreement_def sign_agreement_def all_present_def has_validators_def)

text \<open>Any party closes an agreement on its own, and a dispute, once raised, is never settled.\<close>

theorem dispute_is_final:
  assumes "reachable (chancery_operate cfg) chancery_foreign s t" "agreements s h = Some g" "agreement_status g = Disputed"
  shows "agreements t h = Some g"
  using contracts.final[OF assms(1)[unfolded reachable_iff_steps] assms(2)] assms(3) by (simp add: agreement_edges)

section \<open>The bridge to the guilds\<close>

text \<open>Guilds 0, 1 and 2 stand for notaries, lawyers and mediators; \<^verbatim>\<open>ChanceryGuildsBridge\<close> of the runtime.\<close>

definition validator_bridge :: "'x guild_state \<Rightarrow> account \<Rightarrow> bool" where
  "validator_bridge w who \<longleftrightarrow>
     (\<exists>i \<in> {0, 1, 2}. guild_members w i who = Some Professional \<or> guild_members w i who = Some Master)"

lemma founder_is_master:
  "create_guild cfg (Signed a) name industry cid charter w = Ok w' \<Longrightarrow> guild_members w' (next_guild_id w) a = Some Master"
  unfolding create_guild_def Let_def by (auto simp: ok_simps)

text \<open>C32: Whoever founds one of the first three guilds of the chain is a notary, lawyer or mediator. The runtime takes guilds
  0, 1 and 2 for theirs, but the numbers go to whoever founds a guild first: as its master the founder validates every
  agreement that invites it, and puts it in force where no other validation is missing.\<close>

theorem first_guilds_notarize:
  assumes bridge: "is_valid_validator cfg = (\<lambda>x. validator_bridge (halls x))"
    and w: "next_guild_id w < 3" "create_guild gcfg (Signed a) name industry cid charter w = Ok (halls (chancery_world s))"
    and g: "agreements s h = Some g" "agreement_status g = PendingValidation" "validators g = Some vs" "a \<in> set vs"
      "a \<notin> set (validated_by g)" "length (validated_by g) < max_validators cfg"
  shows "\<exists>t g'. validate_agreement cfg (Signed a) h s = Ok t \<and> agreements t h = Some g'
    \<and> validated_by g' = validated_by g @ [a] \<and> (set vs \<subseteq> insert a (set (validated_by g)) \<longrightarrow> agreement_status g' = Active)"
proof -
  have "guild_members (halls (chancery_world s)) (next_guild_id w) a = Some Master"
    by (rule founder_is_master[OF w(2)])
  moreover have "next_guild_id w \<in> {0, 1, 2}" using w(1) by auto
  ultimately have valid: "is_valid_validator cfg (chancery_world s) a"
    unfolding bridge validator_bridge_def by blast
  show ?thesis
  proof (cases "all_present vs (validated_by g @ [a])")
    case True
    with valid g show ?thesis by (simp add: validate_agreement_def)
  next
    case False
    then have "\<not> set vs \<subseteq> insert a (set (validated_by g))" by (auto simp: all_present_def)
    with False valid g show ?thesis by (simp add: validate_agreement_def)
  qed
qed

section \<open>Witnesses\<close>

definition no_money :: pouch where
  "no_money = \<lparr>bal = (\<lambda>_. 0), issued = 0, lock_of = (\<lambda>_ _. None), set_aside = (\<lambda>_. 0)\<rparr>"

definition toy_office :: "pouch guild_state chancery_config" where
  "toy_office = \<lparr>max_parties = 10, max_validators = 5, is_valid_validator = validator_bridge\<rparr>"

definition toy_halls :: "pouch guild_config" where
  "toy_halls = \<lparr>guild_currency = pouch_currency 1, max_name_length = 8, max_ipfs_cid_length = 8, max_union_members = 5,
     guild_treasury = (\<lambda>_. 70), max_members = 10, max_council_members = 5, quest_order = (\<lambda>_. []), vote_order = (\<lambda>_. [])\<rparr>"

definition toy_contract :: "pouch guild_state chancery_state" where
  "toy_contract = run (chancery_operate toy_office)
     [ChanceryExtrinsic (Signed 1) (ProposeAgreement [7] [1, 2] (Some [3])), ChanceryExtrinsic (Signed 1) (SignAgreement [7]),
      ChanceryExtrinsic (Signed 2) (SignAgreement [7])]
     (chancery_start (execute (guild_dispatch toy_halls) (Signed 3, CreateGuild [] [] None 0) (guild_start no_money)))"

lemma toy_contract_eval:
  "agreements toy_contract [7] = Some \<lparr>document_hash = [7], creator = 1, parties = [1, 2], validators = Some [3],
     signed_by = [1, 2], validated_by = [], agreement_status = PendingValidation\<rparr>"
  "create_guild toy_halls (Signed 3) [] [] None 0 (guild_start no_money) = Ok (chancery_world toy_contract)"
  "next_guild_id (guild_start no_money) < 3"
  by (simp_all add: toy_contract_def execute_def propose_agreement_def sign_agreement_def chancery_start_def toy_office_def
      all_present_def has_validators_def create_guild_def toy_halls_def guild_start_def)

lemma agreements_bind_the_signed_witness:
  "\<exists>g. agreements (annul_signatures 2 toy_contract) [7] = Some g \<and> set (signed_by g) = {1, 2} \<and> agreement_status g = PendingValidation"
proof -
  have r: "reachable (chancery_operate toy_office) chancery_foreign
      (chancery_start (execute (guild_dispatch toy_halls) (Signed 3, CreateGuild [] [] None 0) (guild_start no_money))) toy_contract"
    unfolding toy_contract_def by (rule reachable_run[OF reachable.start])
  have "reachable (chancery_operate toy_office) chancery_foreign toy_contract (annul_signatures 2 toy_contract)"
    by (rule reachable.call[OF reachable.start, of _ "AnnulSignatures 2"]) simp
  from agreements_bind_the_signed[OF r this toy_contract_eval(1)] show ?thesis
    by (auto simp: annul_signatures_def toy_contract_eval)
qed

lemma first_guilds_notarize_witness:
  "\<exists>t g. validate_agreement toy_office (Signed 3) [7] toy_contract = Ok t \<and> agreements t [7] = Some g \<and> agreement_status g = Active"
proof -
  have "is_valid_validator toy_office = (\<lambda>x. validator_bridge (id x))" by (simp add: toy_office_def)
  from first_guilds_notarize[OF this toy_contract_eval(3) _ toy_contract_eval(1), of toy_halls 3 "[]" "[]" None 0 "[3]"] toy_contract_eval(2)
  show ?thesis by (fastforce simp: toy_office_def)
qed

end
