(* ===== verification/Foreign_Affairs.thy ===== *)
theory Foreign_Affairs
  imports Pallet_Interfaces
begin

text \<open>
  \<^verbatim>\<open>pallets/foreign-affairs/src/lib.rs\<close>: the registry of foreign states with their thirteen accounts, the two channels of
  messages of each, and its representative with a council.

  Hashing and the account codec are parameters. Country codes are \<open>u16\<close>, slots \<open>u8\<close>. The pallet has no ledger.
\<close>

section \<open>Data\<close>

datatype diplomatic_status = Active | Suspended | Sanctioned | NoRelations

datatype channel_message_type =
    DiplomaticNote | DocumentLegalization | PassportApplication | BankingNotification | TradeAgreement | ConsularRequest

datatype channel_kind = Diplomatic | Legalization

record foreign_state_record =
  country_code :: nat
  iso_alpha2 :: "byte list"
  iso_alpha3 :: "byte list"
  state_status :: diplomatic_status
  registered_at :: nat
  bank_wallet_count :: nat

record channel_message =
  message_country :: nat
  message_type :: channel_message_type
  sender_hash :: h256
  content_hash :: h256
  submitted_at :: nat
  acknowledged :: bool

datatype affairs_event =
    ForeignStateRegistered nat "byte list" diplomatic_status
  | DiplomaticStatusUpdated nat diplomatic_status diplomatic_status
  | DiplomaticMessageSent nat channel_message_type account h256
  | LegalizationDocumentSubmitted nat account h256
  | CountryOperationsFrozen nat
  | MessageAcknowledged nat nat channel_kind
  | RepresentativeRegistered nat account
  | RepresentativeReplaced nat account account
  | CouncilMemberAppointed nat account
  | CouncilMemberRemoved nat account
  | CouncilDissolved nat

datatype affairs_error =
    CountryAlreadyRegistered
  | CountryNotFound
  | InvalidCountryName
  | CountrySanctioned
  | DiplomaticStatusNotActive
  | ChannelFull
  | MessageIndexOutOfBounds
  | UnauthorizedSender
  | AccountNotFound
  | NoRepresentativeRegistered
  | NotRepresentative
  | AlreadyCouncilMember
  | NotCouncilMember
  | CouncilFull
  | CouncilEmpty

type_synonym affairs_failure = "affairs_error dispatch_error"

record affairs_state =
  foreign_states :: "nat \<Rightarrow> foreign_state_record option"
  total_states :: nat
  country_names :: "nat \<Rightarrow> byte list option"
  country_accounts :: "nat \<Rightarrow> nat \<Rightarrow> account option"
  diplomatic_channel :: "nat \<Rightarrow> channel_message list"
  legalization_channel :: "nat \<Rightarrow> channel_message list"
  diplomatic_representative :: "nat \<Rightarrow> account option"
  diplomatic_council :: "nat \<Rightarrow> account list"
  affairs_events :: "affairs_event list"

record affairs_config =
  max_channel_messages :: nat
  max_diplomatic_council :: nat
  affairs_hash :: "byte list \<Rightarrow> h256"
  encode_account :: "account \<Rightarrow> byte list"
  decode_account :: "h256 \<Rightarrow> account option"

definition SLOT_MFA :: nat where "SLOT_MFA = 0"
definition SLOT_EMBASSY :: nat where "SLOT_EMBASSY = 1"
definition SLOT_PASSPORT_OFFICE :: nat where "SLOT_PASSPORT_OFFICE = 2"
definition SLOT_BANK_FIRST :: nat where "SLOT_BANK_FIRST = 3"
definition SLOT_BANK_LAST :: nat where "SLOT_BANK_LAST = 12"

definition emit_affairs :: "affairs_event \<Rightarrow> affairs_state \<Rightarrow> affairs_state" where
  "emit_affairs e s = s\<lparr>affairs_events := affairs_events s @ [e]\<rparr>"

lemma emit_affairs_simps [simp]:
  "foreign_states (emit_affairs e s) = foreign_states s" "total_states (emit_affairs e s) = total_states s"
  "country_names (emit_affairs e s) = country_names s" "country_accounts (emit_affairs e s) = country_accounts s"
  "diplomatic_channel (emit_affairs e s) = diplomatic_channel s"
  "legalization_channel (emit_affairs e s) = legalization_channel s"
  "diplomatic_representative (emit_affairs e s) = diplomatic_representative s"
  "diplomatic_council (emit_affairs e s) = diplomatic_council s"
  by (simp_all add: emit_affairs_def)

section \<open>Helpers\<close>

text \<open>The seed is \<open>F\<close>, \<open>A\<close>, the code with its high byte first, the slot and zeros; a failing decode panics.\<close>

definition generate_account :: "affairs_config \<Rightarrow> nat \<Rightarrow> nat \<Rightarrow> account option" where
  "generate_account cfg code slot =
     decode_account cfg (affairs_hash cfg
       ([70, 65, of_nat (code div 256), of_nat (code mod 256), of_nat slot] @ replicate 27 0))"

definition is_council_authorized :: "nat \<Rightarrow> account \<Rightarrow> affairs_state \<Rightarrow> (unit, affairs_failure) result" where
  "is_council_authorized code who s =
     (if diplomatic_representative s code = Some who then Ok ()
      else ensure (who \<in> set (diplomatic_council s code)) (Module UnauthorizedSender) (Ok ()))"

text \<open>The low four bytes of the encoding.\<close>

definition block_to_u32 :: "nat \<Rightarrow> nat" where
  "block_to_u32 n = n mod 2 ^ 32"

section \<open>States\<close>

definition register_foreign_state ::
  "affairs_config \<Rightarrow> env \<Rightarrow> origin \<Rightarrow> nat \<Rightarrow> byte list \<Rightarrow> byte list \<Rightarrow> byte list \<Rightarrow> diplomatic_status \<Rightarrow> affairs_state
   \<Rightarrow> (affairs_state, affairs_failure) result" where
  "register_foreign_state cfg env og code a2 a3 nm st s =
     and_then (ensure_root og) (\<lambda>_.
     ensure (foreign_states s code = None) (Module CountryAlreadyRegistered) (
     ensure (nm \<noteq> []) (Module InvalidCountryName) (
     ensure (\<forall>slot\<in>set [0..<13]. generate_account cfg code slot \<noteq> None) Panic (
     Ok (emit_affairs (ForeignStateRegistered code a3 st)
          (s\<lparr>country_accounts := (country_accounts s)(code :=
               (\<lambda>slot. if slot < 13 then generate_account cfg code slot else country_accounts s code slot)),
             foreign_states := (foreign_states s)(code \<mapsto>
               \<lparr>country_code = code, iso_alpha2 = a2, iso_alpha3 = a3, state_status = st,
                registered_at = block_to_u32 (block_number env), bank_wallet_count = 10\<rparr>),
             country_names := (country_names s)(code \<mapsto> nm),
             total_states := sat_add 32 (total_states s) 1\<rparr>))))))"

definition update_diplomatic_status ::
  "origin \<Rightarrow> nat \<Rightarrow> diplomatic_status \<Rightarrow> affairs_state \<Rightarrow> (affairs_state, affairs_failure) result" where
  "update_diplomatic_status og code st s =
     and_then (ensure_root og) (\<lambda>_.
     ok_or (foreign_states s code) (Module CountryNotFound) (\<lambda>r.
     Ok (emit_affairs (DiplomaticStatusUpdated code (state_status r) st)
          (s\<lparr>foreign_states := (foreign_states s)(code \<mapsto> r\<lparr>state_status := st\<rparr>)\<rparr>))))"

definition freeze_country_operations ::
  "origin \<Rightarrow> nat \<Rightarrow> affairs_state \<Rightarrow> (affairs_state, affairs_failure) result" where
  "freeze_country_operations og code s =
     and_then (ensure_root og) (\<lambda>_.
     ok_or (foreign_states s code) (Module CountryNotFound) (\<lambda>r.
     Ok (emit_affairs (CountryOperationsFrozen code)
          (s\<lparr>foreign_states := (foreign_states s)(code \<mapsto> r\<lparr>state_status := Sanctioned\<rparr>)\<rparr>))))"

section \<open>Channels\<close>

definition new_message :: "affairs_config \<Rightarrow> env \<Rightarrow> nat \<Rightarrow> channel_message_type \<Rightarrow> account \<Rightarrow> h256 \<Rightarrow> channel_message" where
  "new_message cfg env code kind sender hash =
     \<lparr>message_country = code, message_type = kind, sender_hash = affairs_hash cfg (encode_account cfg sender),
      content_hash = hash, submitted_at = block_to_u32 (block_number env), acknowledged = False\<rparr>"

definition send_diplomatic_message ::
  "affairs_config \<Rightarrow> env \<Rightarrow> origin \<Rightarrow> nat \<Rightarrow> channel_message_type \<Rightarrow> h256 \<Rightarrow> affairs_state
   \<Rightarrow> (affairs_state, affairs_failure) result" where
  "send_diplomatic_message cfg env og code kind hash s =
     and_then (ensure_signed og) (\<lambda>sender.
     ok_or (foreign_states s code) (Module CountryNotFound) (\<lambda>r.
     ensure (state_status r = Active) (Module DiplomaticStatusNotActive) (
     and_then (is_council_authorized code sender s) (\<lambda>_.
     let ms = diplomatic_channel s code in
     ensure (length ms < max_channel_messages cfg) (Module ChannelFull) (
     Ok (emit_affairs (DiplomaticMessageSent code kind sender hash)
          (s\<lparr>diplomatic_channel := (diplomatic_channel s)(code := ms @ [new_message cfg env code kind sender hash])\<rparr>)))))))"

definition submit_legalization_document ::
  "affairs_config \<Rightarrow> env \<Rightarrow> origin \<Rightarrow> nat \<Rightarrow> h256 \<Rightarrow> affairs_state \<Rightarrow> (affairs_state, affairs_failure) result" where
  "submit_legalization_document cfg env og code hash s =
     and_then (ensure_signed og) (\<lambda>sender.
     ok_or (foreign_states s code) (Module CountryNotFound) (\<lambda>r.
     ensure (state_status r = Active \<or> state_status r = Suspended) (Module CountrySanctioned) (
     let ms = legalization_channel s code in
     ensure (length ms < max_channel_messages cfg) (Module ChannelFull) (
     Ok (emit_affairs (LegalizationDocumentSubmitted code sender hash)
          (s\<lparr>legalization_channel := (legalization_channel s)(code :=
               ms @ [new_message cfg env code DocumentLegalization sender hash])\<rparr>))))))"

definition acknowledge_at :: "nat \<Rightarrow> channel_message list \<Rightarrow> (channel_message list, affairs_failure) result" where
  "acknowledge_at i ms = ensure (i < length ms) (Module MessageIndexOutOfBounds) (Ok (ms[i := (ms ! i)\<lparr>acknowledged := True\<rparr>]))"

definition acknowledge_message ::
  "origin \<Rightarrow> nat \<Rightarrow> channel_kind \<Rightarrow> nat \<Rightarrow> affairs_state \<Rightarrow> (affairs_state, affairs_failure) result" where
  "acknowledge_message og code ch i s =
     and_then (ensure_signed og) (\<lambda>sender.
     and_then (is_council_authorized code sender s) (\<lambda>_.
     and_then (case ch of
         Diplomatic \<Rightarrow> and_then (acknowledge_at i (diplomatic_channel s code)) (\<lambda>ms.
           Ok (s\<lparr>diplomatic_channel := (diplomatic_channel s)(code := ms)\<rparr>))
       | Legalization \<Rightarrow> and_then (acknowledge_at i (legalization_channel s code)) (\<lambda>ms.
           Ok (s\<lparr>legalization_channel := (legalization_channel s)(code := ms)\<rparr>))) (\<lambda>s1.
     Ok (emit_affairs (MessageAcknowledged code i ch) s1))))"

section \<open>Representatives and councils\<close>

definition register_representative ::
  "origin \<Rightarrow> nat \<Rightarrow> account \<Rightarrow> affairs_state \<Rightarrow> (affairs_state, affairs_failure) result" where
  "register_representative og code rep s =
     and_then (ensure_root og) (\<lambda>_.
     ensure (foreign_states s code \<noteq> None) (Module CountryNotFound) (
     let s1 = (case diplomatic_representative s code of
                 Some old \<Rightarrow> emit_affairs (RepresentativeReplaced code old rep) (emit_affairs (CouncilDissolved code)
                   (s\<lparr>diplomatic_council := (diplomatic_council s)(code := [])\<rparr>))
               | None \<Rightarrow> emit_affairs (RepresentativeRegistered code rep) s)
     in Ok (s1\<lparr>diplomatic_representative := (diplomatic_representative s1)(code \<mapsto> rep)\<rparr>)))"

definition appoint_council_member ::
  "affairs_config \<Rightarrow> origin \<Rightarrow> nat \<Rightarrow> account \<Rightarrow> affairs_state \<Rightarrow> (affairs_state, affairs_failure) result" where
  "appoint_council_member cfg og code m s =
     and_then (ensure_signed og) (\<lambda>caller.
     ok_or (foreign_states s code) (Module CountryNotFound) (\<lambda>r.
     ensure (state_status r \<noteq> Sanctioned) (Module CountrySanctioned) (
     ok_or (diplomatic_representative s code) (Module NoRepresentativeRegistered) (\<lambda>rep.
     ensure (caller = rep) (Module NotRepresentative) (
     ensure (m \<notin> set (diplomatic_council s code)) (Module AlreadyCouncilMember) (
     ensure (length (diplomatic_council s code) < max_diplomatic_council cfg) (Module CouncilFull) (
     Ok (emit_affairs (CouncilMemberAppointed code m)
          (s\<lparr>diplomatic_council := (diplomatic_council s)(code := diplomatic_council s code @ [m])\<rparr>)))))))))"

definition remove_council_member ::
  "origin \<Rightarrow> nat \<Rightarrow> account \<Rightarrow> affairs_state \<Rightarrow> (affairs_state, affairs_failure) result" where
  "remove_council_member og code m s =
     and_then (ensure_signed og) (\<lambda>caller.
     ok_or (diplomatic_representative s code) (Module NoRepresentativeRegistered) (\<lambda>rep.
     ensure (caller = rep) (Module NotRepresentative) (
     ensure (m \<in> set (diplomatic_council s code)) (Module NotCouncilMember) (
     Ok (emit_affairs (CouncilMemberRemoved code m)
          (s\<lparr>diplomatic_council := (diplomatic_council s)(code := remove1 m (diplomatic_council s code))\<rparr>))))))"

section \<open>The pallet\<close>

datatype affairs_call =
    RegisterForeignState nat "byte list" "byte list" "byte list" diplomatic_status
  | UpdateDiplomaticStatus nat diplomatic_status
  | SendDiplomaticMessage nat channel_message_type h256
  | SubmitLegalizationDocument nat h256
  | FreezeCountryOperations nat
  | AcknowledgeMessage nat channel_kind nat
  | RegisterRepresentative nat account
  | AppointCouncilMember nat account
  | RemoveCouncilMember nat account

fun affairs_dispatch ::
  "affairs_config \<Rightarrow> env \<times> origin \<times> affairs_call \<Rightarrow> affairs_state \<Rightarrow> (affairs_state, affairs_failure) result" where
  "affairs_dispatch cfg (env, og, RegisterForeignState c a b n st) s = register_foreign_state cfg env og c a b n st s"
| "affairs_dispatch cfg (env, og, UpdateDiplomaticStatus c st) s = update_diplomatic_status og c st s"
| "affairs_dispatch cfg (env, og, SendDiplomaticMessage c k h) s = send_diplomatic_message cfg env og c k h s"
| "affairs_dispatch cfg (env, og, SubmitLegalizationDocument c h) s = submit_legalization_document cfg env og c h s"
| "affairs_dispatch cfg (env, og, FreezeCountryOperations c) s = freeze_country_operations og c s"
| "affairs_dispatch cfg (env, og, AcknowledgeMessage c ch i) s = acknowledge_message og c ch i s"
| "affairs_dispatch cfg (env, og, RegisterRepresentative c a) s = register_representative og c a s"
| "affairs_dispatch cfg (env, og, AppointCouncilMember c a) s = appoint_council_member cfg og c a s"
| "affairs_dispatch cfg (env, og, RemoveCouncilMember c a) s = remove_council_member og c a s"

definition affairs_start :: affairs_state where
  "affairs_start = \<lparr>foreign_states = Map.empty, total_states = 0, country_names = Map.empty,
     country_accounts = (\<lambda>_. Map.empty), diplomatic_channel = (\<lambda>_. []), legalization_channel = (\<lambda>_. []),
     diplomatic_representative = Map.empty, diplomatic_council = (\<lambda>_. []), affairs_events = []\<rparr>"

end
