(* ===== verification/Foreign_Affairs_Claims.thy ===== *)
theory Foreign_Affairs_Claims
  imports Foreign_Affairs
begin

text \<open>
  Properties of foreign affairs: the registry is complete, a new representative starts alone, and any account closes the
  legalization desk of a country for good.
\<close>

lemmas affairs_handlers = register_foreign_state_def update_diplomatic_status_def freeze_country_operations_def
  send_diplomatic_message_def submit_legalization_document_def acknowledge_message_def acknowledge_at_def
  register_representative_def appoint_council_member_def remove_council_member_def Let_def

section \<open>Invariants\<close>

definition entry_ok :: "affairs_config \<Rightarrow> affairs_state \<Rightarrow> nat \<Rightarrow> bool" where
  "entry_ok cfg s c \<longleftrightarrow> (case foreign_states s c of
     None \<Rightarrow> country_names s c = None \<and> (\<forall>slot. country_accounts s c slot = None)
   | Some r \<Rightarrow> country_code r = c \<and> bank_wallet_count r = 10 \<and> country_names s c \<noteq> None \<and> country_names s c \<noteq> Some []
       \<and> (\<forall>slot. country_accounts s c slot = (if slot < 13 then generate_account cfg c slot else None))
       \<and> (\<forall>slot<13. generate_account cfg c slot \<noteq> None))"

definition registry_ok :: "affairs_config \<Rightarrow> affairs_state \<Rightarrow> bool" where
  "registry_ok cfg s \<longleftrightarrow> (\<forall>c. entry_ok cfg s c) \<and> finite (dom (foreign_states s))
     \<and> (total_states s < umax 32 \<longrightarrow> total_states s = card (dom (foreign_states s)))"

definition council_ok :: "affairs_config \<Rightarrow> account list \<Rightarrow> bool" where
  "council_ok cfg ms \<longleftrightarrow> distinct ms \<and> length ms \<le> max_diplomatic_council cfg"

lemma council_ok_simps [simp]: "council_ok cfg []" "council_ok cfg ms \<Longrightarrow> council_ok cfg (remove1 m ms)"
    "council_ok cfg ms \<Longrightarrow> m \<notin> set ms \<Longrightarrow> length ms < max_diplomatic_council cfg \<Longrightarrow> council_ok cfg (ms @ [m])"
  using length_remove1[of m ms] by (auto simp: council_ok_def split: if_splits)

text \<open>A council has a representative, and a representative has a country.\<close>

definition councils_ok :: "affairs_config \<Rightarrow> affairs_state \<Rightarrow> bool" where
  "councils_ok cfg s \<longleftrightarrow> (\<forall>c. council_ok cfg (diplomatic_council s c)
     \<and> (diplomatic_council s c \<noteq> [] \<longrightarrow> diplomatic_representative s c \<noteq> None)
     \<and> (diplomatic_representative s c \<noteq> None \<longrightarrow> foreign_states s c \<noteq> None))"

text \<open>Only a registration touches the names, the accounts and the number of states.\<close>

definition same_registry :: "affairs_state \<Rightarrow> affairs_state \<Rightarrow> bool" where
  "same_registry s t \<longleftrightarrow> country_names t = country_names s \<and> country_accounts t = country_accounts s
     \<and> total_states t = total_states s
     \<and> (foreign_states t = foreign_states s
        \<or> (\<exists>c r st. foreign_states s c = Some r \<and> foreign_states t = (foreign_states s)(c \<mapsto> r\<lparr>state_status := st\<rparr>)))"

lemma same_registry_status:
  assumes "foreign_states s c = Some r" "t = s\<lparr>foreign_states := (foreign_states s)(c \<mapsto> r\<lparr>state_status := st\<rparr>),
      affairs_events := e\<rparr>"
  shows "same_registry s t"
  using assms unfolding same_registry_def by auto

lemma register_or_same:
  assumes "affairs_dispatch cfg (env, og, k) s = Ok t"
  shows "(\<exists>c a b n st. k = RegisterForeignState c a b n st) \<or> same_registry s t"
proof (cases "(\<exists>c st. k = UpdateDiplomaticStatus c st) \<or> (\<exists>c. k = FreezeCountryOperations c)")
  case True
  then obtain c r st e where "foreign_states s c = Some r"
      "t = s\<lparr>foreign_states := (foreign_states s)(c \<mapsto> r\<lparr>state_status := st\<rparr>), affairs_events := e\<rparr>"
    using assms by (auto simp: affairs_handlers ok_simps emit_affairs_def)
  then show ?thesis using same_registry_status by blast
next
  case False
  with assms show ?thesis
    by (cases k) (auto simp: affairs_handlers ok_simps same_registry_def split: channel_kind.splits option.splits)
qed

lemma same_registry_ok:
  assumes "same_registry s t" "registry_ok cfg s"
  shows "registry_ok cfg t"
proof -
  have entry: "entry_ok cfg s c" for c using assms(2) by (simp add: registry_ok_def)
  from assms(1) consider "foreign_states t = foreign_states s"
    | c r st where "foreign_states s c = Some r" "foreign_states t = (foreign_states s)(c \<mapsto> r\<lparr>state_status := st\<rparr>)"
    unfolding same_registry_def by blast
  then show ?thesis
  proof cases
    case 1
    have "entry_ok cfg t d" for d
      using entry[of d] assms(1) unfolding entry_ok_def same_registry_def 1 by (cases "foreign_states s d") simp_all
    with assms 1 show ?thesis by (simp add: registry_ok_def same_registry_def)
  next
    case 2
    then have "dom (foreign_states t) = dom (foreign_states s)" by auto
    moreover have "entry_ok cfg t d" for d
    proof -
      have "country_names t = country_names s" "country_accounts t = country_accounts s"
        using assms(1) by (simp_all add: same_registry_def)
      with 2 entry[of d] show ?thesis
        by (cases "d = c"; cases "foreign_states s d") (simp_all add: entry_ok_def)
    qed
    ultimately show ?thesis using assms by (simp add: registry_ok_def same_registry_def)
  qed
qed

lemma register_state_ok:
  assumes "register_foreign_state cfg env og c a b n st s = Ok t" "registry_ok cfg s"
  shows "registry_ok cfg t"
proof -
  have entry: "entry_ok cfg s d" for d using assms(2) by (simp add: registry_ok_def)
  from assms(1) obtain r where none: "foreign_states s c = None" and n: "n \<noteq> []"
    and gen: "\<forall>slot<13. generate_account cfg c slot \<noteq> None"
    and t: "foreign_states t = (foreign_states s)(c \<mapsto> r)" "country_code r = c" "bank_wallet_count r = 10"
      "country_names t = (country_names s)(c \<mapsto> n)" "total_states t = sat_add 32 (total_states s) 1"
      "country_accounts t = (country_accounts s)(c := (\<lambda>slot. if slot < 13 then generate_account cfg c slot else country_accounts s c slot))"
    unfolding register_foreign_state_def by (auto simp: ok_simps)
  have "entry_ok cfg t d" for d
    using entry[of d] none n gen t by (auto simp: entry_ok_def split: option.splits if_splits)
  moreover have "total_states t < umax 32 \<longrightarrow> total_states t = card (dom (foreign_states t))"
    using assms(2) none by (auto simp: registry_ok_def t sat_add_def domIff card_insert_if)
  ultimately show ?thesis using assms(2) by (simp add: registry_ok_def t)
qed

lemma councils_step:
  assumes "affairs_dispatch cfg (env, og, k) s = Ok t" "councils_ok cfg s"
  shows "councils_ok cfg t"
  using assms
  by (cases k) (auto simp: affairs_handlers ok_simps councils_ok_def split: channel_kind.splits option.splits if_splits)

definition affairs_ok :: "affairs_config \<Rightarrow> affairs_state \<Rightarrow> bool" where
  "affairs_ok cfg s \<longleftrightarrow> registry_ok cfg s \<and> councils_ok cfg s"

lemma affairs_step:
  assumes "affairs_ok cfg s" "affairs_dispatch cfg c s = Ok t"
  shows "affairs_ok cfg t"
proof -
  obtain env og k where c: "c = (env, og, k)" by (cases c)
  have "registry_ok cfg t"
    using register_or_same[OF assms(2)[unfolded c]]
  proof
    assume "\<exists>c a b n st. k = RegisterForeignState c a b n st"
    then show ?thesis using assms register_state_ok unfolding c affairs_ok_def by auto
  next
    assume "same_registry s t"
    then show ?thesis using same_registry_ok assms(1) unfolding affairs_ok_def by blast
  qed
  then show ?thesis using councils_step assms unfolding c affairs_ok_def by blast
qed

interpretation embassy: pallet_machine "affairs_dispatch cfg" "\<lambda>_ _. False" "affairs_ok cfg" for cfg :: affairs_config
  by unfold_locales (auto intro: affairs_step)

lemma affairs_start_ok: "affairs_ok cfg affairs_start"
  by (simp add: affairs_ok_def registry_ok_def councils_ok_def entry_ok_def affairs_start_def)

section \<open>Channels\<close>

lemma channel_grows:
  assumes "affairs_dispatch cfg (env, og, k) s = Ok t"
  shows "length (legalization_channel s c) \<le> length (legalization_channel t c)"
  using assms
  by (cases k) (auto simp: affairs_handlers ok_simps split: channel_kind.splits option.splits)

lemma channel_grows_run:
  "reachable (affairs_dispatch cfg) (\<lambda>_ _. False) s t \<Longrightarrow> length (legalization_channel s c) \<le> length (legalization_channel t c)"
proof (induction rule: reachable.induct)
  case (call u k v)
  obtain env og k' where "k = (env, og, k')" by (cases k)
  with channel_grows call.hyps(2) have "length (legalization_channel u c) \<le> length (legalization_channel v c)" by blast
  with call.IH show ?case by linarith
qed simp_all

definition open_desk :: "nat \<Rightarrow> affairs_state \<Rightarrow> bool" where
  "open_desk c s \<longleftrightarrow> (\<exists>r. foreign_states s c = Some r \<and> (state_status r = Active \<or> state_status r = Suspended))"

lemma submit_fills:
  assumes "open_desk c s"
  shows "open_desk c (run (affairs_dispatch cfg) (replicate n (env, Signed a, SubmitLegalizationDocument c h)) s)
    \<and> length (legalization_channel (run (affairs_dispatch cfg) (replicate n (env, Signed a, SubmitLegalizationDocument c h)) s) c)
        \<ge> min (max_channel_messages cfg) (length (legalization_channel s c) + n)"
  using assms
proof (induction n arbitrary: s)
  case (Suc n)
  let ?t = "execute (affairs_dispatch cfg) (env, Signed a, SubmitLegalizationDocument c h) s"
  have "open_desk c ?t" and "length (legalization_channel ?t c) \<ge> min (max_channel_messages cfg) (length (legalization_channel s c) + 1)"
    using Suc.prems by (auto simp: execute_def submit_legalization_document_def open_desk_def Let_def ensure_def)
  with Suc.IH[of ?t] show ?case by (auto simp: min_def split: if_splits)
qed simp

section \<open>Properties\<close>

text \<open>C33: The registry is complete. In every reachable state a country has a record exactly if it has a name, which is not
  empty, and exactly then its thirteen accounts, each the one generated from code and slot, and no others; as long as the
  counter has not reached its end it is the number of countries; and a council is duplicate-free, within its bound, and
  has a representative.\<close>

theorem registry_is_complete:
  assumes "reachable (affairs_dispatch cfg) (\<lambda>_ _. False) affairs_start s"
  shows "(foreign_states s c = None \<longleftrightarrow> country_names s c = None) \<and> country_names s c \<noteq> Some []
    \<and> (\<forall>slot. country_accounts s c slot = (if foreign_states s c \<noteq> None \<and> slot < 13 then generate_account cfg c slot else None))
    \<and> (\<forall>r slot. foreign_states s c = Some r \<and> slot < 13 \<longrightarrow> country_accounts s c slot \<noteq> None)
    \<and> (total_states s < umax 32 \<longrightarrow> total_states s = card {c. foreign_states s c \<noteq> None})
    \<and> distinct (diplomatic_council s c) \<and> length (diplomatic_council s c) \<le> max_diplomatic_council cfg
    \<and> (diplomatic_council s c \<noteq> [] \<longrightarrow> diplomatic_representative s c \<noteq> None)"
proof -
  have ok: "registry_ok cfg s" "councils_ok cfg s"
    using embassy.reachable_inv[OF assms affairs_start_ok] by (simp_all add: affairs_ok_def)
  have "entry_ok cfg s c" using ok(1) by (simp add: registry_ok_def)
  moreover have "total_states s < umax 32 \<longrightarrow> total_states s = card {c. foreign_states s c \<noteq> None}"
    using ok(1) by (simp add: registry_ok_def dom_def)
  moreover have "distinct (diplomatic_council s c)" "length (diplomatic_council s c) \<le> max_diplomatic_council cfg"
    "diplomatic_council s c \<noteq> [] \<longrightarrow> diplomatic_representative s c \<noteq> None"
    using ok(2) unfolding councils_ok_def council_ok_def by blast+
  ultimately show ?thesis by (cases "foreign_states s c") (auto simp: entry_ok_def)
qed

text \<open>C34: A new representative starts alone. After root registers a representative, in any reachable state, exactly this account
  is authorized for the country: nobody of the council of a predecessor keeps access.\<close>

theorem new_representative_alone:
  assumes "reachable (affairs_dispatch cfg) (\<lambda>_ _. False) affairs_start s"
    and "register_representative og c rep s = Ok t"
  shows "og = Root \<and> (is_council_authorized c a t = Ok () \<longleftrightarrow> a = rep)"
proof -
  have "councils_ok cfg s" using embassy.reachable_inv[OF assms(1) affairs_start_ok] by (simp add: affairs_ok_def)
  then have "diplomatic_representative s c = None \<Longrightarrow> diplomatic_council s c = []" unfolding councils_ok_def by blast
  with assms(2) have "og = Root" "diplomatic_representative t c = Some rep" "diplomatic_council t c = []"
    by (auto simp: register_representative_def Let_def ok_simps split: option.splits)
  then show ?thesis by (auto simp: is_council_authorized_def ensure_def)
qed

text \<open>Anyone closes the legalization desk. Messages are never taken off a channel, so any signed account fills the channel of
  a country with as many documents as are missing, and from then on no document is ever accepted for this country again,
  whatever is acknowledged.\<close>

theorem anyone_closes_the_desk:
  assumes "open_desk c s" "max_channel_messages cfg \<le> length (legalization_channel s c) + n"
    and "reachable (affairs_dispatch cfg) (\<lambda>_ _. False)
      (run (affairs_dispatch cfg) (replicate n (env, Signed a, SubmitLegalizationDocument c h)) s) t"
  shows "\<exists>err. submit_legalization_document cfg env' og c h' t = Err err"
proof (cases "submit_legalization_document cfg env' og c h' t")
  case (Ok u)
  have "max_channel_messages cfg \<le> length (legalization_channel t c)"
    using submit_fills[OF assms(1), of cfg n env a h] channel_grows_run[OF assms(3), of c] assms(2) by linarith
  with Ok show ?thesis by (auto simp: submit_legalization_document_def Let_def ok_simps)
qed blast

section \<open>Witnesses\<close>

definition toy_ministry :: affairs_config where
  "toy_ministry = \<lparr>max_channel_messages = 2, max_diplomatic_council = 3, affairs_hash = (\<lambda>b. take 5 b),
     encode_account = (\<lambda>a. []), decode_account = (\<lambda>h. Some (unat (h ! 4)))\<rparr>"

definition first_block :: env where
  "first_block = \<lparr>block_number = 1, extrinsic_index = None\<rparr>"

definition toy_country :: affairs_state where
  "toy_country = run (affairs_dispatch toy_ministry)
     [(first_block, Root, RegisterForeignState 840 [] [] [1] Active), (first_block, Root, RegisterRepresentative 840 5),
      (first_block, Signed 5, AppointCouncilMember 840 6)] affairs_start"

lemma toy_country_reached: "reachable (affairs_dispatch toy_ministry) (\<lambda>_ _. False) affairs_start toy_country"
  unfolding toy_country_def by (rule reachable_run[OF reachable.start])

lemma toy_country_eval:
  "\<exists>r. foreign_states toy_country 840 = Some r \<and> state_status r = Active" "diplomatic_council toy_country 840 = [6]"
  "diplomatic_representative toy_country 840 = Some 5" "legalization_channel toy_country 840 = []"
  by (simp_all add: toy_country_def execute_def affairs_handlers affairs_start_def toy_ministry_def generate_account_def)

lemma registry_is_complete_witness:
  "diplomatic_council toy_country 840 = [6] \<and> country_accounts toy_country 840 12 \<noteq> None \<and> country_accounts toy_country 840 13 = None"
  using registry_is_complete[OF toy_country_reached, of 840] toy_country_eval by auto

lemma new_representative_alone_witness:
  "\<exists>t. register_representative Root 840 9 toy_country = Ok t \<and> is_council_authorized 840 6 t \<noteq> Ok ()"
proof -
  obtain t where t: "register_representative Root 840 9 toy_country = Ok t"
    using toy_country_eval(1) by (auto simp: register_representative_def Let_def)
  from new_representative_alone[OF toy_country_reached this, of 6] t show ?thesis by auto
qed

lemma anyone_closes_the_desk_witness:
  "\<exists>err. submit_legalization_document toy_ministry first_block (Signed 8) 840 []
     (run (affairs_dispatch toy_ministry) (replicate 2 (first_block, Signed 77, SubmitLegalizationDocument 840 [])) toy_country) = Err err"
proof -
  have "open_desk 840 toy_country" using toy_country_eval(1) by (auto simp: open_desk_def)
  moreover have "max_channel_messages toy_ministry \<le> length (legalization_channel toy_country 840) + 2" by (simp add: toy_ministry_def)
  ultimately show ?thesis by (rule anyone_closes_the_desk[OF _ _ reachable.start])
qed

end
