(* ===== verification/Land_Registry.thy ===== *)
theory Land_Registry
  imports Identity Identity_Laws
begin

text \<open>
  \<^verbatim>\<open>pallets/land-registry/src/lib.rs\<close>: the cadastre. Parcels are registered by root and transferred by their owners.

  The pallet reads \<open>Citizens\<close> of the identity pallet directly, so its state holds the identity state. Identifiers are
  \<open>u64\<close>, registration blocks \<open>u32\<close>.
\<close>

section \<open>Data\<close>

datatype resource_rights =
    SurfaceOnly | SurfaceAndForestry | SurfaceAndWater | SurfaceAndHunting | MineralProspecting | FullSubsoil

record land_parcel =
  parcel_owner :: account
  region :: nat
  coordinate_hash :: h256
  area_sqm :: nat
  resource_rights :: resource_rights
  registered_at :: nat
  description :: "byte list"

datatype land_event =
    ParcelRegistered nat account nat nat
  | LandTransferred nat account account
  | ResourceRightsUpdated nat resource_rights

datatype land_error =
    ParcelNotFound
  | NotParcelOwner
  | ForeignLandOwnershipForbidden
  | BuyerNotRegistered
  | SelfTransfer
  | BuyerAccountFrozenOrExiled
  | ParcelIdOverflow

type_synonym land_failure = "land_error dispatch_error"

record 'x land_state =
  land_identity :: "'x identity_state"
  land_parcels :: "nat \<Rightarrow> land_parcel option"
  next_parcel_id :: nat
  parcels_by_owner :: "account \<Rightarrow> nat \<Rightarrow> bool"
  land_events :: "land_event list"

definition emit_land :: "land_event \<Rightarrow> 'x land_state \<Rightarrow> 'x land_state" where
  "emit_land e s = s\<lparr>land_events := land_events s @ [e]\<rparr>"

lemma emit_land_simps [simp]:
  "land_identity (emit_land e s) = land_identity s" "land_parcels (emit_land e s) = land_parcels s"
  "next_parcel_id (emit_land e s) = next_parcel_id s" "parcels_by_owner (emit_land e s) = parcels_by_owner s"
  by (simp_all add: emit_land_def)

section \<open>Dispatchables\<close>

text \<open>The description is a \<open>BoundedVec\<close>: one too long never decodes, so the call does not happen.\<close>

definition register_parcel ::
  "env \<Rightarrow> origin \<Rightarrow> account \<Rightarrow> nat \<Rightarrow> h256 \<Rightarrow> nat \<Rightarrow> resource_rights \<Rightarrow> byte list \<Rightarrow> 'x land_state
   \<Rightarrow> ('x land_state, land_failure) result" where
  "register_parcel env og owner reg coords area rights descr s =
     and_then (ensure_root og) (\<lambda>_.
     ok_or (citizens (land_identity s) owner) (Module BuyerNotRegistered) (\<lambda>r.
     ensure (citizenship r \<noteq> Foreigner) (Module ForeignLandOwnershipForbidden) (
     let i = next_parcel_id s in
     ok_or (checked_add 64 i 1) (Module ParcelIdOverflow) (\<lambda>next_id.
     let now = (if block_number env \<le> umax 32 then block_number env else 0) in
     Ok (emit_land (ParcelRegistered i owner reg area)
          (s\<lparr>land_parcels := (land_parcels s)(i \<mapsto>
               \<lparr>parcel_owner = owner, region = reg, coordinate_hash = coords, area_sqm = area, resource_rights = rights,
                registered_at = now, description = descr\<rparr>),
             parcels_by_owner := (parcels_by_owner s)(owner := (parcels_by_owner s owner)(i := True)),
             next_parcel_id := next_id\<rparr>))))))"

definition transfer_land :: "origin \<Rightarrow> nat \<Rightarrow> account \<Rightarrow> 'x land_state \<Rightarrow> ('x land_state, land_failure) result" where
  "transfer_land og i buyer s =
     and_then (ensure_signed og) (\<lambda>seller.
     ensure (seller \<noteq> buyer) (Module SelfTransfer) (
     ok_or (land_parcels s i) (Module ParcelNotFound) (\<lambda>p.
     ensure (parcel_owner p = seller) (Module NotParcelOwner) (
     ok_or (citizens (land_identity s) buyer) (Module BuyerNotRegistered) (\<lambda>r.
     ensure (citizenship r \<noteq> Foreigner) (Module ForeignLandOwnershipForbidden) (
     ensure (status r = Active) (Module BuyerAccountFrozenOrExiled) (
     let by = (parcels_by_owner s)(seller := (parcels_by_owner s seller)(i := False)) in
     Ok (emit_land (LandTransferred i seller buyer)
          (s\<lparr>parcels_by_owner := by(buyer := (by buyer)(i := True)),
             land_parcels := (land_parcels s)(i \<mapsto> p\<lparr>parcel_owner := buyer\<rparr>)\<rparr>)))))))))"

definition update_resource_rights ::
  "origin \<Rightarrow> nat \<Rightarrow> resource_rights \<Rightarrow> 'x land_state \<Rightarrow> ('x land_state, land_failure) result" where
  "update_resource_rights og i rights s =
     and_then (ensure_root og) (\<lambda>_.
     ok_or (land_parcels s i) (Module ParcelNotFound) (\<lambda>p.
     Ok (emit_land (ResourceRightsUpdated i rights)
          (s\<lparr>land_parcels := (land_parcels s)(i \<mapsto> p\<lparr>resource_rights := rights\<rparr>)\<rparr>))))"

section \<open>The pallet\<close>

datatype land_call =
    RegisterParcel account nat h256 nat resource_rights "byte list"
  | TransferLand nat account
  | UpdateResourceRights nat resource_rights

fun land_dispatch :: "env \<times> origin \<times> land_call \<Rightarrow> 'x land_state \<Rightarrow> ('x land_state, land_failure) result" where
  "land_dispatch (env, og, RegisterParcel a g c q r d) s = register_parcel env og a g c q r d s"
| "land_dispatch (env, og, TransferLand i b) s = transfer_land og i b s"
| "land_dispatch (env, og, UpdateResourceRights i r) s = update_resource_rights og i r s"

definition land_start :: "'x identity_state \<Rightarrow> 'x land_state" where
  "land_start i = \<lparr>land_identity = i, land_parcels = Map.empty, next_parcel_id = 0,
     parcels_by_owner = (\<lambda>_ _. False), land_events = []\<rparr>"

section \<open>What holds\<close>

text \<open>
  Properties of the cadastre beside the identity pallet: the law of non-alienation as an invariant of both pallets
  together, and what it leaves out.
\<close>

section \<open>The two pallets\<close>

definition identity_moves :: "'x identity_config \<Rightarrow> 'x land_state \<Rightarrow> 'x land_state \<Rightarrow> bool" where
  "identity_moves cfg s t \<longleftrightarrow> (\<exists>i. machine_step (identity_operate cfg) ledger_moves (land_identity s) i \<and> t = s\<lparr>land_identity := i\<rparr>)"

section \<open>The invariant\<close>

definition landowner :: "'x identity_state \<Rightarrow> account \<Rightarrow> bool" where
  "landowner i a \<longleftrightarrow> (\<exists>r. citizens i a = Some r \<and> citizenship r \<noteq> Foreigner)"

lemma landowner_stays: "carried E i j \<Longrightarrow> landowner i a \<Longrightarrow> landowner j a"
  unfolding carried_def landowner_def grows_def by metis

definition cadastre_ok :: "'x land_state \<Rightarrow> bool" where
  "cadastre_ok s \<longleftrightarrow> (\<forall>i p. land_parcels s i = Some p \<longrightarrow> i < next_parcel_id s \<and> landowner (land_identity s) (parcel_owner p))
     \<and> (\<forall>a i. parcels_by_owner s a i \<longleftrightarrow> map_option parcel_owner (land_parcels s i) = Some a)"

lemma cadastre_parcel: "cadastre_ok s \<Longrightarrow> land_parcels s i = Some p \<Longrightarrow> i < next_parcel_id s"
    "cadastre_ok s \<Longrightarrow> land_parcels s i = Some p \<Longrightarrow> landowner (land_identity s) (parcel_owner p)"
    "cadastre_ok s \<Longrightarrow> parcels_by_owner s a i \<longleftrightarrow> map_option parcel_owner (land_parcels s i) = Some a"
  unfolding cadastre_ok_def by blast+

lemma cadastre_fresh: "cadastre_ok s \<Longrightarrow> land_parcels s (next_parcel_id s) = None"
  using cadastre_parcel(1) by (cases "land_parcels s (next_parcel_id s)") blast+

lemma cadastre_step:
  assumes "cadastre_ok s" "land_dispatch (env, og, c) s = Ok t"
  shows "cadastre_ok t"
proof (cases c)
  case (RegisterParcel a g h q r d)
  with assms(2) obtain p where t: "land_identity t = land_identity s" "land_parcels t = (land_parcels s)(next_parcel_id s \<mapsto> p)"
      "parcel_owner p = a" "next_parcel_id t = next_parcel_id s + 1"
      "parcels_by_owner t = (parcels_by_owner s)(a := (parcels_by_owner s a)(next_parcel_id s := True))"
    and a: "landowner (land_identity s) a"
    by (auto simp: register_parcel_def Let_def ok_simps landowner_def checked_add_def split: if_splits)
  have "map_option parcel_owner (land_parcels s (next_parcel_id s)) \<noteq> Some b" for b using cadastre_fresh[OF assms(1)] by simp
  with t a cadastre_parcel[OF assms(1)] show ?thesis
    unfolding cadastre_ok_def by (auto simp: less_Suc_eq)
next
  case (TransferLand i b)
  with assms(2) obtain p seller r where p: "land_parcels s i = Some p" "parcel_owner p = seller" "seller \<noteq> b"
    and t: "land_identity t = land_identity s" "land_parcels t = (land_parcels s)(i \<mapsto> p\<lparr>parcel_owner := b\<rparr>)"
      "next_parcel_id t = next_parcel_id s"
      "parcels_by_owner t = (parcels_by_owner s)(seller := (parcels_by_owner s seller)(i := False),
         b := (parcels_by_owner s b)(i := True))"
    and b: "landowner (land_identity s) b"
    by (auto simp: transfer_land_def Let_def ok_simps landowner_def)
  from p t b cadastre_parcel[OF assms(1)] show ?thesis unfolding cadastre_ok_def by auto
next
  case (UpdateResourceRights i r)
  with assms(2) obtain p where p: "land_parcels s i = Some p"
    and t: "land_identity t = land_identity s" "land_parcels t = (land_parcels s)(i \<mapsto> p\<lparr>resource_rights := r\<rparr>)"
      "next_parcel_id t = next_parcel_id s" "parcels_by_owner t = parcels_by_owner s"
    by (auto simp: update_resource_rights_def ok_simps)
  from p t cadastre_parcel[OF assms(1)] show ?thesis unfolding cadastre_ok_def by auto
qed

lemma cadastre_moves:
  assumes "cadastre_ok s" "identity_moves cfg s t"
  shows "cadastre_ok t"
proof -
  obtain i where i: "machine_step (identity_operate cfg) ledger_moves (land_identity s) i" and t: "t = s\<lparr>land_identity := i\<rparr>"
    using assms(2) unfolding identity_moves_def by blast
  have "landowner i a" if "landowner (land_identity s) a" for a using landowner_stays[OF moves_carried[OF i] that] .
  with assms(1) show ?thesis unfolding cadastre_ok_def t by simp
qed

interpretation cadastre: pallet_machine land_dispatch "identity_moves cfg" cadastre_ok for cfg :: "'x identity_config"
proof
  fix s t :: "'x land_state" and c
  show "cadastre_ok s \<Longrightarrow> land_dispatch c s = Ok t \<Longrightarrow> cadastre_ok t" by (cases c) (auto intro: cadastre_step)
  show "cadastre_ok s \<Longrightarrow> identity_moves cfg s t \<Longrightarrow> cadastre_ok t" by (rule cadastre_moves)
qed

lemma cadastre_start: "cadastre_ok (land_start i)"
  by (simp add: cadastre_ok_def land_start_def)

section \<open>Properties\<close>

text \<open>The law of non-alienation. However calls of the cadastre, extrinsics of the identity pallet, operations of other
  pallets on it and changes of the ledger follow each other, each parcel is owned by a registered citizen who is not a
  foreigner; the index by owner is exact; and a new parcel never takes the identifier of another.\<close>

theorem land_stays_with_citizens:
  assumes "reachable land_dispatch (identity_moves cfg) (land_start i0) s"
  shows "(land_parcels s i = Some p \<longrightarrow> (\<exists>r. citizens (land_identity s) (parcel_owner p) = Some r \<and> citizenship r \<noteq> Foreigner))
    \<and> (parcels_by_owner s a i \<longleftrightarrow> map_option parcel_owner (land_parcels s i) = Some a)
    \<and> (register_parcel env og b g h q rr d s = Ok t \<and> land_parcels s i = Some p \<longrightarrow> land_parcels t i = Some p)"
proof -
  have ok: "cadastre_ok s" by (rule cadastre.reachable_inv[OF assms cadastre_start])
  then have "i \<noteq> next_parcel_id s" if "land_parcels s i = Some p" using cadastre_parcel(1)[OF ok that] by simp
  moreover have "landowner (land_identity s) (parcel_owner p)" if "land_parcels s i = Some p" using cadastre_parcel(2)[OF ok that] .
  ultimately show ?thesis
    using cadastre_parcel(3)[OF ok] unfolding landowner_def by (auto simp: register_parcel_def Let_def ok_simps)
qed

text \<open>What other pallets do to a citizen under judgement, and a registered death.\<close>

definition condemns :: "account \<Rightarrow> identity_op \<Rightarrow> bool" where
  "condemns a op \<longleftrightarrow> op = FreezeOp a \<or> op = ExileOp a
     \<or> (\<exists>env og h. op = Extrinsic env og (FreezeCitizen a) \<or> op = Extrinsic env og (RegisterDeath a h))"

lemma condemned_others:
  assumes "condemns a op" "identity_operate cfg op i = Ok j" "b \<noteq> a"
  shows "citizens j b = citizens i b"
  using assms
  by (auto simp: condemns_def do_freeze_citizen_def do_exile_def freeze_citizen_def register_death_def ok_simps Let_def)

text \<open>The guard against shifting assets under judgement binds the buyer alone. If an owner can transfer a parcel, then the
  same transfer succeeds, with the same effect on the cadastre, after the owner has been frozen, exiled or declared dead.\<close>

theorem condemned_owner_sells:
  assumes "transfer_land (Signed a) i b s = Ok t" "condemns a op" "identity_operate cfg op (land_identity s) = Ok j"
  shows "\<exists>u. transfer_land (Signed a) i b (s\<lparr>land_identity := j\<rparr>) = Ok u \<and> land_parcels u = land_parcels t
    \<and> parcels_by_owner u = parcels_by_owner t \<and> map_option parcel_owner (land_parcels u i) = Some b"
proof -
  have "b \<noteq> a" using assms(1) by (auto simp: transfer_land_def ok_simps)
  then have "citizens j b = citizens (land_identity s) b" by (rule condemned_others[OF assms(2,3)])
  with assms(1) show ?thesis by (auto simp: transfer_land_def Let_def ok_simps)
qed

section \<open>Witnesses\<close>

definition toy_citizen :: citizen_record where
  "toy_citizen = (newborn 1 5 6 [])\<lparr>status := Active, citizenship := Naturalized\<rparr>"

definition toy_people :: "unit identity_state" where
  "toy_people = (identity_start ())\<lparr>citizens := [1 \<mapsto> toy_citizen, 2 \<mapsto> toy_citizen]\<rparr>"

definition toy_cadastre :: "unit land_state" where
  "toy_cadastre = run land_dispatch
     [(\<lparr>block_number = 3, extrinsic_index = None\<rparr>, Root, RegisterParcel 1 6 [] 900 SurfaceOnly [])] (land_start toy_people)"

lemma toy_cadastre_eval: "land_identity toy_cadastre = toy_people" "map_option parcel_owner (land_parcels toy_cadastre 0) = Some 1"
proof -
  have "checked_add 64 0 (Suc 0) = Some 1" by (simp add: checked_add_def umax_def)
  then show "land_identity toy_cadastre = toy_people" "map_option parcel_owner (land_parcels toy_cadastre 0) = Some 1"
    unfolding toy_cadastre_def
    by (simp_all add: execute_def register_parcel_def Let_def toy_people_def land_start_def toy_citizen_def)
qed

lemma land_stays_with_citizens_witness:
  "parcels_by_owner toy_cadastre 1 0 \<and> \<not> parcels_by_owner toy_cadastre 2 0"
proof -
  have "reachable land_dispatch (identity_moves undefined) (land_start toy_people) toy_cadastre"
    unfolding toy_cadastre_def by (rule reachable_run[OF reachable.start])
  note exact = land_stays_with_citizens[OF this, THEN conjunct2, THEN conjunct1]
  show ?thesis using exact[of 1 0] exact[of 2 0] toy_cadastre_eval(2) by simp
qed

lemma condemned_owner_sells_witness:
  "\<exists>j u. do_freeze_citizen 1 (land_identity toy_cadastre) = Ok j
     \<and> transfer_land (Signed 1) 0 2 (toy_cadastre\<lparr>land_identity := j\<rparr>) = Ok u
     \<and> map_option parcel_owner (land_parcels u 0) = Some 2"
proof -
  obtain j where j: "do_freeze_citizen 1 (land_identity toy_cadastre) = Ok j"
    by (auto simp: do_freeze_citizen_def toy_cadastre_eval toy_people_def)
  obtain t where t: "transfer_land (Signed 1) 0 2 toy_cadastre = Ok t"
    using toy_cadastre_eval by (auto simp: transfer_land_def Let_def toy_people_def toy_citizen_def)
  have "condemns 1 (FreezeOp 1)" by (simp add: condemns_def)
  from condemned_owner_sells[OF t this, of undefined j] j show ?thesis by fastforce
qed

end
