(* ===== verification/Decimal_Dao.thy ===== *)
theory Decimal_Dao
  imports Currency Pallet_Interfaces
begin

text \<open>
  \<^verbatim>\<open>pallets/decimal-dao/src/lib.rs\<close>: the councils of organizations and the proposals on which they spend keyless
  treasuries. Every call takes root; the relayer acts for the members.

  The ledger \<open>'x\<close> with its currency and \<open>into_sub_account_truncating\<close> are parameters.
\<close>

section \<open>Data\<close>

datatype dao_proposal_status = Open | Passed | Rejected

record proposal_record =
  proposal_org :: h256
  proposer :: account
  amount :: balance
  beneficiary :: account
  votes_for :: nat
  votes_against :: nat
  proposal_status :: dao_proposal_status

datatype dao_event =
    OrgInstantiated h256 account nat
  | CouncilSynced h256 nat
  | ProposalCreated h256 h256 account balance
  | ProposalVoteCast h256 account bool nat nat
  | ProposalPassed h256 h256 nat
  | ProposalRejected h256 h256 nat
  | ProposalExecuted h256 h256 balance account

datatype dao_error =
    OrgAlreadyExists
  | OrgNotFound
  | CouncilTooLarge
  | NotACouncilMember
  | ProposalNotFound
  | ProposalAlreadyExists
  | AlreadyVoted
  | ProposalNotOpen
  | ProposalNotPassed
  | InsufficientTreasuryBalance

type_synonym dao_failure = "dao_error dispatch_error"

record 'x dao_state =
  dao_world :: 'x
  councils :: "h256 \<Rightarrow> account list option"
  org_treasuries :: "h256 \<Rightarrow> account option"
  dao_proposals :: "h256 \<Rightarrow> proposal_record option"
  proposal_ballots :: "h256 \<Rightarrow> account \<Rightarrow> bool"
  dao_events :: "dao_event list"

record 'x dao_config =
  dao_currency :: "'x currency"
  max_council_members :: nat
  sub_account :: "h256 \<Rightarrow> account"

definition emit_dao :: "dao_event list \<Rightarrow> 'x dao_state \<Rightarrow> 'x dao_state" where
  "emit_dao es s = s\<lparr>dao_events := dao_events s @ es\<rparr>"

lemma emit_dao_simps [simp]:
  "dao_world (emit_dao es s) = dao_world s" "councils (emit_dao es s) = councils s"
  "org_treasuries (emit_dao es s) = org_treasuries s" "dao_proposals (emit_dao es s) = dao_proposals s"
  "proposal_ballots (emit_dao es s) = proposal_ballots s"
  by (simp_all add: emit_dao_def)

section \<open>Helpers and queries\<close>

definition treasury_account :: "'x dao_config \<Rightarrow> h256 \<Rightarrow> account" where
  "treasury_account cfg org = sub_account cfg org"

definition ensure_council_member :: "h256 \<Rightarrow> account \<Rightarrow> 'x dao_state \<Rightarrow> (unit, dao_failure) result" where
  "ensure_council_member org who s =
     ok_or (councils s org) (Module OrgNotFound) (\<lambda>c. ensure (who \<in> set c) (Module NotACouncilMember) (Ok ()))"

definition get_council :: "h256 \<Rightarrow> 'x dao_state \<Rightarrow> account list option" where
  "get_council org s = councils s org"

definition is_council_member :: "h256 \<Rightarrow> account \<Rightarrow> 'x dao_state \<Rightarrow> bool" where
  "is_council_member org who s = (case councils s org of None \<Rightarrow> False | Some c \<Rightarrow> who \<in> set c)"

section \<open>Dispatchables\<close>

definition instantiate_org ::
  "'x dao_config \<Rightarrow> origin \<Rightarrow> h256 \<Rightarrow> account list \<Rightarrow> 'x dao_state \<Rightarrow> ('x dao_state, dao_failure) result" where
  "instantiate_org cfg og org initial s =
     and_then (ensure_root og) (\<lambda>_.
     ensure (councils s org = None) (Module OrgAlreadyExists) (
     ensure (length initial \<le> max_council_members cfg) (Module CouncilTooLarge) (
     let treasury = treasury_account cfg org in
     Ok (emit_dao [OrgInstantiated org treasury (length initial)]
          (s\<lparr>councils := (councils s)(org \<mapsto> initial), org_treasuries := (org_treasuries s)(org \<mapsto> treasury)\<rparr>)))))"

definition sync_council ::
  "'x dao_config \<Rightarrow> origin \<Rightarrow> h256 \<Rightarrow> account list \<Rightarrow> 'x dao_state \<Rightarrow> ('x dao_state, dao_failure) result" where
  "sync_council cfg og org new s =
     and_then (ensure_root og) (\<lambda>_.
     ensure (councils s org \<noteq> None) (Module OrgNotFound) (
     ensure (length new \<le> max_council_members cfg) (Module CouncilTooLarge) (
     Ok (emit_dao [CouncilSynced org (length new)] (s\<lparr>councils := (councils s)(org \<mapsto> new)\<rparr>)))))"

definition create_proposal ::
  "origin \<Rightarrow> h256 \<Rightarrow> h256 \<Rightarrow> account \<Rightarrow> balance \<Rightarrow> account \<Rightarrow> 'x dao_state \<Rightarrow> ('x dao_state, dao_failure) result" where
  "create_proposal og org prop who v to_acct s =
     and_then (ensure_root og) (\<lambda>_.
     and_then (ensure_council_member org who s) (\<lambda>_.
     ensure (dao_proposals s prop = None) (Module ProposalAlreadyExists) (
     Ok (emit_dao [ProposalCreated prop org who v]
          (s\<lparr>dao_proposals := (dao_proposals s)(prop \<mapsto>
               \<lparr>proposal_org = org, proposer = who, amount = v, beneficiary = to_acct, votes_for = 0, votes_against = 0,
                proposal_status = Open\<rparr>)\<rparr>)))))"

text \<open>The tally and the decision of \<open>vote_proposal\<close>.\<close>

definition tally_vote :: "bool \<Rightarrow> proposal_record \<Rightarrow> proposal_record" where
  "tally_vote support r = (if support then r\<lparr>votes_for := sat_add 32 (votes_for r) 1\<rparr>
     else r\<lparr>votes_against := sat_add 32 (votes_against r) 1\<rparr>)"

definition decide_vote :: "nat \<Rightarrow> h256 \<Rightarrow> proposal_record \<Rightarrow> proposal_record \<times> dao_event list" where
  "decide_vote council_size prop r =
     (let majority = council_size div 2 + 1 in
      if votes_for r \<ge> majority then (r\<lparr>proposal_status := Passed\<rparr>, [ProposalPassed prop (proposal_org r) (votes_for r)])
      else if votes_against r \<ge> majority
      then (r\<lparr>proposal_status := Rejected\<rparr>, [ProposalRejected prop (proposal_org r) (votes_against r)])
      else (r, []))"

definition vote_proposal ::
  "origin \<Rightarrow> h256 \<Rightarrow> account \<Rightarrow> bool \<Rightarrow> 'x dao_state \<Rightarrow> ('x dao_state, dao_failure) result" where
  "vote_proposal og prop voter support s =
     and_then (ensure_root og) (\<lambda>_.
     ok_or (dao_proposals s prop) (Module ProposalNotFound) (\<lambda>r.
     ensure (proposal_status r = Open) (Module ProposalNotOpen) (
     and_then (ensure_council_member (proposal_org r) voter s) (\<lambda>_.
     ensure (\<not> proposal_ballots s prop voter) (Module AlreadyVoted) (
     let size = (case councils s (proposal_org r) of Some c \<Rightarrow> length c | None \<Rightarrow> 0);
         (r', es) = decide_vote size prop (tally_vote support r)
     in Ok (emit_dao (es @ [ProposalVoteCast prop voter support (votes_for r') (votes_against r')])
          (s\<lparr>proposal_ballots := (proposal_ballots s)(prop := (proposal_ballots s prop)(voter := True)),
             dao_proposals := (dao_proposals s)(prop \<mapsto> r')\<rparr>)))))))"

definition execute_proposal ::
  "'x dao_config \<Rightarrow> origin \<Rightarrow> h256 \<Rightarrow> 'x dao_state \<Rightarrow> ('x dao_state, dao_failure) result" where
  "execute_proposal cfg og prop s =
     and_then (ensure_root og) (\<lambda>_.
     ok_or (dao_proposals s prop) (Module ProposalNotFound) (\<lambda>r.
     ensure (proposal_status r = Passed) (Module ProposalNotPassed) (
     ok_or (org_treasuries s (proposal_org r)) (Module OrgNotFound) (\<lambda>treasury.
     and_then (map_err (\<lambda>_. Module InsufficientTreasuryBalance)
         (transfer (dao_currency cfg) (dao_world s) treasury (beneficiary r) (amount r) KeepAlive)) (\<lambda>x.
     Ok (emit_dao [ProposalExecuted prop (proposal_org r) (amount r) (beneficiary r)]
          (s\<lparr>dao_world := x, dao_proposals := (dao_proposals s)(prop := None)\<rparr>)))))))"

section \<open>The pallet\<close>

datatype dao_call =
    InstantiateOrg h256 "account list"
  | SyncCouncil h256 "account list"
  | CreateProposal h256 h256 account balance account
  | VoteProposal h256 account bool
  | ExecuteProposal h256

fun dao_dispatch :: "'x dao_config \<Rightarrow> origin \<times> dao_call \<Rightarrow> 'x dao_state \<Rightarrow> ('x dao_state, dao_failure) result" where
  "dao_dispatch cfg (og, InstantiateOrg g c) s = instantiate_org cfg og g c s"
| "dao_dispatch cfg (og, SyncCouncil g c) s = sync_council cfg og g c s"
| "dao_dispatch cfg (og, CreateProposal g p a v b) s = create_proposal og g p a v b s"
| "dao_dispatch cfg (og, VoteProposal p a b) s = vote_proposal og p a b s"
| "dao_dispatch cfg (og, ExecuteProposal p) s = execute_proposal cfg og p s"

definition dao_start :: "'x \<Rightarrow> 'x dao_state" where
  "dao_start x = \<lparr>dao_world = x, councils = Map.empty, org_treasuries = Map.empty, dao_proposals = Map.empty,
     proposal_ballots = (\<lambda>_ _. False), dao_events = []\<rparr>"

text \<open>Other pallets move the ledger alone.\<close>

definition dao_foreign :: "'x dao_state \<Rightarrow> 'x dao_state \<Rightarrow> bool" where
  "dao_foreign s t \<longleftrightarrow> (\<exists>x. t = s\<lparr>dao_world := x\<rparr>)"

section \<open>What holds\<close>

text \<open>
  Properties of the decimal DAO: what pays from a treasury, how proposals are decided, and what a change of the council
  and an execution leave behind.
\<close>

section \<open>Invariants\<close>

definition org_entry :: "'x dao_config \<Rightarrow> 'x dao_state \<Rightarrow> h256 \<Rightarrow> bool" where
  "org_entry cfg s g \<longleftrightarrow> org_treasuries s g = map_option (\<lambda>_. treasury_account cfg g) (councils s g)
     \<and> (\<forall>c. councils s g = Some c \<longrightarrow> length c \<le> max_council_members cfg)"

definition proposal_backed :: "'x dao_state \<Rightarrow> h256 \<Rightarrow> proposal_record \<Rightarrow> bool" where
  "proposal_backed s p r \<longleftrightarrow> councils s (proposal_org r) \<noteq> None
     \<and> votes_for r + votes_against r \<le> card {a. proposal_ballots s p a}
     \<and> (proposal_status r = Passed \<longrightarrow> 0 < votes_for r)"

definition dao_ok :: "'x dao_config \<Rightarrow> 'x dao_state \<Rightarrow> bool" where
  "dao_ok cfg s \<longleftrightarrow> (\<forall>g. org_entry cfg s g) \<and> (\<forall>p. finite {a. proposal_ballots s p a})
     \<and> (\<forall>p r. dao_proposals s p = Some r \<longrightarrow> proposal_backed s p r)"

lemma dao_okD: "dao_ok cfg s \<Longrightarrow> org_entry cfg s g" "dao_ok cfg s \<Longrightarrow> finite {a. proposal_ballots s p a}"
    "dao_ok cfg s \<Longrightarrow> dao_proposals s p = Some r \<Longrightarrow> proposal_backed s p r"
  unfolding dao_ok_def by blast+

text \<open>Calls that leave proposals and ballots alone keep the invariant if they keep the organizations.\<close>

lemma dao_ok_orgs:
  assumes "dao_ok cfg s" "dao_proposals t = dao_proposals s" "proposal_ballots t = proposal_ballots s"
    and "\<And>g. org_entry cfg t g" "\<And>g. councils s g \<noteq> None \<Longrightarrow> councils t g \<noteq> None"
  shows "dao_ok cfg t"
  unfolding dao_ok_def
proof (intro conjI allI impI)
  fix p r assume "dao_proposals t p = Some r"
  with dao_okD(3)[OF assms(1)] assms(2,3,5) show "proposal_backed t p r" by (simp add: proposal_backed_def)
qed (use dao_okD[OF assms(1)] assms in simp_all)

text \<open>A new record for one proposal keeps it if it is backed by the ballots.\<close>

lemma dao_ok_put:
  assumes "dao_ok cfg s" "councils t = councils s" "org_treasuries t = org_treasuries s"
    and "dao_proposals t = (dao_proposals s)(p := q)" "\<And>r. q = Some r \<Longrightarrow> proposal_backed t p r"
    and "\<And>o'. o' \<noteq> p \<Longrightarrow> proposal_ballots t o' = proposal_ballots s o'" "finite {a. proposal_ballots t p a}"
  shows "dao_ok cfg t"
  unfolding dao_ok_def
proof (intro conjI allI impI)
  fix g show "org_entry cfg t g" using dao_okD(1)[OF assms(1), of g] assms(2,3) by (simp add: org_entry_def)
next
  fix o' show "finite {a. proposal_ballots t o' a}" using dao_okD(2)[OF assms(1), of o'] assms(6,7) by (cases "o' = p") simp_all
next
  fix o' r assume r: "dao_proposals t o' = Some r"
  show "proposal_backed t o' r"
  proof (cases "o' = p")
    case True
    with r assms(4,5) show ?thesis by simp
  next
    case False
    with r assms(4) have "dao_proposals s o' = Some r" by simp
    from dao_okD(3)[OF assms(1) this] False assms(2,6) show ?thesis by (simp add: proposal_backed_def)
  qed
qed

lemma tally_vote_simps [simp]: "proposal_org (tally_vote b r) = proposal_org r" "proposal_status (tally_vote b r) = proposal_status r"
    "beneficiary (tally_vote b r) = beneficiary r" "amount (tally_vote b r) = amount r" "proposer (tally_vote b r) = proposer r"
  by (simp_all add: tally_vote_def)

lemma tally_vote_le: "votes_for (tally_vote b r) + votes_against (tally_vote b r) \<le> Suc (votes_for r + votes_against r)"
  by (simp add: tally_vote_def sat_add_def)

lemma decide_vote_simps [simp]: "proposal_org (fst (decide_vote n p r)) = proposal_org r"
    "votes_for (fst (decide_vote n p r)) = votes_for r" "votes_against (fst (decide_vote n p r)) = votes_against r"
    "beneficiary (fst (decide_vote n p r)) = beneficiary r" "amount (fst (decide_vote n p r)) = amount r"
    "proposer (fst (decide_vote n p r)) = proposer r"
  by (simp_all add: decide_vote_def Let_def)

lemma decide_vote_passed: "proposal_status r \<noteq> Passed \<Longrightarrow>
    proposal_status (fst (decide_vote n p r)) = Passed \<longleftrightarrow> n < 2 * votes_for r"
  by (auto simp: decide_vote_def Let_def)

lemma vote_proposal_Ok:
  assumes "vote_proposal og p a b s = Ok t"
  obtains r c where "og = Root" "dao_proposals s p = Some r" "proposal_status r = Open" "councils s (proposal_org r) = Some c"
    "a \<in> set c" "\<not> proposal_ballots s p a" "councils t = councils s" "org_treasuries t = org_treasuries s"
    "dao_world t = dao_world s" "proposal_ballots t = (proposal_ballots s)(p := (proposal_ballots s p)(a := True))"
    "dao_proposals t = (dao_proposals s)(p \<mapsto> fst (decide_vote (length c) p (tally_vote b r)))"
  using assms by (auto simp: vote_proposal_def ensure_council_member_def Let_def ok_simps case_prod_unfold)

lemma dao_execute_Ok:
  assumes "execute_proposal cfg og p s = Ok t"
  obtains r v x where "og = Root" "dao_proposals s p = Some r" "proposal_status r = Passed"
    "org_treasuries s (proposal_org r) = Some v"
    "transfer (dao_currency cfg) (dao_world s) v (beneficiary r) (amount r) KeepAlive = Ok x"
    "dao_world t = x" "councils t = councils s" "org_treasuries t = org_treasuries s"
    "proposal_ballots t = proposal_ballots s" "dao_proposals t = (dao_proposals s)(p := None)"
  using assms by (auto simp: execute_proposal_def ok_simps)

lemma dao_step:
  assumes "dao_ok cfg s" "dao_dispatch cfg (og, k) s = Ok t"
  shows "dao_ok cfg t"
proof (cases k)
  case (InstantiateOrg g c)
  show ?thesis
    by (rule dao_ok_orgs[OF assms(1)])
      (use assms(2) InstantiateOrg dao_okD(1)[OF assms(1)] in \<open>auto simp: instantiate_org_def ok_simps Let_def org_entry_def split: if_splits\<close>)
next
  case (SyncCouncil g c)
  have "org_entry cfg s h" for h using dao_okD(1)[OF assms(1)] .
  with assms(2) SyncCouncil have "org_entry cfg t h" for h
    by (auto simp: sync_council_def ok_simps org_entry_def split: if_splits)
  then show ?thesis
    by (rule dao_ok_orgs[OF assms(1), rotated 2]) (use assms(2) SyncCouncil in \<open>auto simp: sync_council_def ok_simps\<close>)
next
  case (CreateProposal g p a v b)
  with assms(2) obtain r where t: "councils t = councils s" "org_treasuries t = org_treasuries s"
      "dao_proposals t = (dao_proposals s)(p := Some r)" "proposal_ballots t = proposal_ballots s"
    and r: "councils s (proposal_org r) \<noteq> None" "votes_for r = 0" "votes_against r = 0" "proposal_status r = Open"
    by (auto simp: create_proposal_def ensure_council_member_def ok_simps)
  show ?thesis
    by (rule dao_ok_put[OF assms(1) t(1-3)]) (use t r dao_okD(2)[OF assms(1)] in \<open>auto simp: proposal_backed_def\<close>)
next
  case (VoteProposal p a b)
  with assms(2) have "vote_proposal og p a b s = Ok t" by simp
  then obtain r c where v: "dao_proposals s p = Some r" "proposal_status r = Open" "councils s (proposal_org r) = Some c"
    "\<not> proposal_ballots s p a" and t: "councils t = councils s" "org_treasuries t = org_treasuries s"
    "proposal_ballots t = (proposal_ballots s)(p := (proposal_ballots s p)(a := True))"
    "dao_proposals t = (dao_proposals s)(p := Some (fst (decide_vote (length c) p (tally_vote b r))))"
    by (rule vote_proposal_Ok)
  let ?r = "fst (decide_vote (length c) p (tally_vote b r))"
  have fin: "finite {x. proposal_ballots s p x}" by (rule dao_okD(2)[OF assms(1)])
  have new: "{x. proposal_ballots t p x} = insert a {x. proposal_ballots s p x}" using t(3) by auto
  have "votes_for r + votes_against r \<le> card {x. proposal_ballots s p x}"
    using dao_okD(3)[OF assms(1) v(1)] by (simp add: proposal_backed_def)
  then have "votes_for ?r + votes_against ?r \<le> card {x. proposal_ballots t p x}"
    using tally_vote_le[of b r] v(4) fin new by simp
  moreover have "0 < votes_for ?r" if "proposal_status ?r = Passed"
    using that v(2) by (simp add: decide_vote_passed)
  ultimately have "proposal_backed t p ?r" using v(3) t(1) by (simp add: proposal_backed_def)
  moreover have "finite {x. proposal_ballots t p x}" using fin new by simp
  ultimately show ?thesis using t by (auto intro: dao_ok_put[OF assms(1) t(1,2,4)])
next
  case (ExecuteProposal p)
  with assms(2) have "execute_proposal cfg og p s = Ok t" by simp
  then obtain x where t: "councils t = councils s" "org_treasuries t = org_treasuries s"
    "proposal_ballots t = proposal_ballots s" "dao_proposals t = (dao_proposals s)(p := None)"
    by (rule dao_execute_Ok)
  show ?thesis by (rule dao_ok_put[OF assms(1) t(1,2,4)]) (use t dao_okD(2)[OF assms(1)] in simp_all)
qed

interpretation dao: pallet_machine "dao_dispatch cfg" dao_foreign "dao_ok cfg" for cfg :: "'x dao_config"
proof
  fix s t :: "'x dao_state" and c
  show "dao_ok cfg s \<Longrightarrow> dao_dispatch cfg c s = Ok t \<Longrightarrow> dao_ok cfg t" by (cases c) (auto intro: dao_step)
  show "dao_ok cfg s \<Longrightarrow> dao_foreign s t \<Longrightarrow> dao_ok cfg t"
    unfolding dao_foreign_def by (auto simp: dao_ok_def org_entry_def proposal_backed_def)
qed

lemma dao_start_ok: "dao_ok cfg (dao_start x)"
  by (simp add: dao_ok_def org_entry_def dao_start_def)

section \<open>The course of a proposal\<close>

text \<open>An identifier is free, or it has a proposal: open, voted on, executed and free again, or rejected for good.\<close>

inductive dao_edge :: "proposal_record option \<Rightarrow> proposal_record option \<Rightarrow> bool" where
  created: "proposal_status r = Open \<Longrightarrow> votes_for r = 0 \<Longrightarrow> votes_against r = 0 \<Longrightarrow> dao_edge None (Some r)"
| voted: "proposal_status r = Open \<Longrightarrow> dao_edge (Some r) (Some (fst (decide_vote n p (tally_vote b r))))"
| executed: "proposal_status r = Passed \<Longrightarrow> dao_edge (Some r) None"

inductive_simps dao_edge_from_Some: "dao_edge (Some r) x"

abbreviation dao_step_rel :: "'x dao_config \<Rightarrow> 'x dao_state \<Rightarrow> 'x dao_state \<Rightarrow> bool" where
  "dao_step_rel cfg \<equiv> machine_step (dao_dispatch cfg) dao_foreign"

lemma dispatch_edge:
  assumes "dao_dispatch cfg (og, k) s = Ok t" "dao_proposals t p \<noteq> dao_proposals s p"
  shows "dao_edge (dao_proposals s p) (dao_proposals t p)"
proof (cases k)
  case (CreateProposal g q a v b)
  with assms show ?thesis
    by (auto simp: create_proposal_def ok_simps intro!: created split: if_splits)
next
  case (VoteProposal q a b)
  with assms(1) have "vote_proposal og q a b s = Ok t" by simp
  then show ?thesis
    by (rule vote_proposal_Ok) (use assms(2) in \<open>auto intro: voted split: if_splits\<close>)
next
  case (ExecuteProposal q)
  with assms(1) have "execute_proposal cfg og q s = Ok t" by simp
  then show ?thesis
    by (rule dao_execute_Ok) (use assms(2) in \<open>auto intro: executed split: if_splits\<close>)
qed (use assms in \<open>auto simp: instantiate_org_def sync_council_def ok_simps Let_def\<close>)

interpretation motions_on_chain: lifecycle "\<lambda>s p. Some (dao_proposals s p)" dao_edge "dao_step_rel cfg" for cfg :: "'x dao_config"
proof
  fix s t :: "'x dao_state" and p and x :: "proposal_record option"
  assume "dao_step_rel cfg s t" and x: "Some (dao_proposals s p) = Some x" "Some (dao_proposals t p) \<noteq> Some x"
  then have "dao_edge (dao_proposals s p) (dao_proposals t p)"
    unfolding machine_step_def
    by (metis dao_foreign_def dao_state.select_convs(4) dao_state.surjective dao_state.update_convs(1) dispatch_edge surj_pair)
  with x show "\<exists>b. Some (dao_proposals t p) = Some b \<and> dao_edge x b" by simp
qed

lemma ballots_stay_step:
  assumes "dao_step_rel cfg s t" "proposal_ballots s p a"
  shows "proposal_ballots t p a"
proof -
  have "proposal_ballots t p a" if "dao_dispatch cfg (og, k) s = Ok t" for og k
  proof (cases k)
    case (VoteProposal q b w)
    with that have "vote_proposal og q b w s = Ok t" by simp
    then show ?thesis by (rule vote_proposal_Ok) (use assms(2) in auto)
  next
    case (ExecuteProposal q)
    with that have "execute_proposal cfg og q s = Ok t" by simp
    then show ?thesis by (rule dao_execute_Ok) (use assms(2) in auto)
  qed (use that assms(2) in \<open>auto simp: instantiate_org_def sync_council_def create_proposal_def ok_simps Let_def\<close>)
  with assms show ?thesis unfolding machine_step_def dao_foreign_def by auto
qed

lemma ballots_stay: "(dao_step_rel cfg)\<^sup>*\<^sup>* s t \<Longrightarrow> proposal_ballots s p a \<Longrightarrow> proposal_ballots t p a"
  by (induction rule: rtranclp_induct) (auto intro: ballots_stay_step)

section \<open>Properties\<close>

text \<open>A treasury pays what its council carried, once. An execution in a reachable state takes root and a passed proposal,
  moves exactly its amount from the treasury of its organization to the beneficiary and touches no other account and no
  other proposal; the votes it carries are of that many distinct accounts; and executing it again fails.\<close>

theorem dao_pays_by_council:
  assumes "currency_ok (dao_currency cfg)" "reachable (dao_dispatch cfg) dao_foreign (dao_start x) s"
    and "execute_proposal cfg og p s = Ok t"
  shows "\<exists>r v. og = Root \<and> dao_proposals s p = Some r \<and> proposal_status r = Passed \<and> v = treasury_account cfg (proposal_org r)
    \<and> 0 < votes_for r \<and> votes_for r + votes_against r \<le> card {a. proposal_ballots s p a}
    \<and> amount r \<le> free_balance (dao_currency cfg) (dao_world s) v
    \<and> (\<forall>a. free_balance (dao_currency cfg) (dao_world t) a = (if v = beneficiary r then free_balance (dao_currency cfg) (dao_world s) a
         else if a = v then free_balance (dao_currency cfg) (dao_world s) a - amount r
         else if a = beneficiary r then free_balance (dao_currency cfg) (dao_world s) a + amount r
         else free_balance (dao_currency cfg) (dao_world s) a))
    \<and> dao_proposals t = (dao_proposals s)(p := None) \<and> (\<forall>og' u. execute_proposal cfg og' p t \<noteq> Ok u)"
proof -
  have ok: "dao_ok cfg s" by (rule dao.reachable_inv[OF assms(2) dao_start_ok])
  from assms(3) obtain r v x where e: "og = Root" "dao_proposals s p = Some r" "proposal_status r = Passed"
    "org_treasuries s (proposal_org r) = Some v"
    "transfer (dao_currency cfg) (dao_world s) v (beneficiary r) (amount r) KeepAlive = Ok x"
    "dao_world t = x" "dao_proposals t = (dao_proposals s)(p := None)" by (rule dao_execute_Ok)
  have "proposal_backed s p r" by (rule dao_okD(3)[OF ok e(2)])
  moreover have "v = treasury_account cfg (proposal_org r)"
    using dao_okD(1)[OF ok, of "proposal_org r"] e(4) by (cases "councils s (proposal_org r)") (auto simp: org_entry_def)
  moreover have "execute_proposal cfg og' p t \<noteq> Ok u" for og' u using e(7) by (auto simp: execute_proposal_def ok_simps)
  ultimately show ?thesis
    using e transfer_keepD[OF assms(1) e(5)] by (intro exI[of _ r] exI[of _ v]) (auto simp: proposal_backed_def)
qed

text \<open>Only a strict majority passes a proposal. Whatever call turns an open proposal into a passed one is the first vote of
  a member of its council on it, with more than half of that council in favour by then; and a rejected proposal keeps
  its identifier and its outcome for good.\<close>

theorem decided_by_strict_majority:
  assumes "dao_dispatch cfg (og, k) s = Ok t" "dao_proposals s p = Some r" "proposal_status r = Open"
    and "dao_proposals t p = Some r'" "proposal_status r' \<noteq> Open" "(dao_step_rel cfg)\<^sup>*\<^sup>* t u"
  shows "(\<exists>a b c. k = VoteProposal p a b \<and> councils s (proposal_org r) = Some c \<and> a \<in> set c \<and> \<not> proposal_ballots s p a
      \<and> (proposal_status r' = Passed \<longrightarrow> length c < 2 * votes_for r')
      \<and> (proposal_status r' = Rejected \<longrightarrow> length c < 2 * votes_against r'))
    \<and> (proposal_status r' = Rejected \<longrightarrow> dao_proposals u p = Some r')"
proof
  have changed: "dao_proposals t p \<noteq> dao_proposals s p" using assms(2-5) by auto
  show "\<exists>a b c. k = VoteProposal p a b \<and> councils s (proposal_org r) = Some c \<and> a \<in> set c \<and> \<not> proposal_ballots s p a
      \<and> (proposal_status r' = Passed \<longrightarrow> length c < 2 * votes_for r')
      \<and> (proposal_status r' = Rejected \<longrightarrow> length c < 2 * votes_against r')"
  proof (cases k)
    case (VoteProposal q a b)
    with assms(1) have "vote_proposal og q a b s = Ok t" by simp
    then show ?thesis
    proof (rule vote_proposal_Ok)
      fix r0 c assume *: "dao_proposals s q = Some r0" "councils s (proposal_org r0) = Some c" "a \<in> set c" "\<not> proposal_ballots s q a"
        "dao_proposals t = (dao_proposals s)(q \<mapsto> fst (decide_vote (length c) q (tally_vote b r0)))"
      have q: "q = p" using changed *(5) by (auto split: if_splits)
      with * assms(2,4) have r': "r0 = r" "r' = fst (decide_vote (length c) p (tally_vote b r))" by auto
      have "proposal_status (tally_vote b r) = Open" using assms(3) by simp
      with r' have "(proposal_status r' = Passed \<longrightarrow> length c < 2 * votes_for r')
          \<and> (proposal_status r' = Rejected \<longrightarrow> length c < 2 * votes_against r')"
        by (auto simp: decide_vote_def Let_def)
      with * q r' VoteProposal show ?thesis by blast
    qed
  qed (use assms(1-5) in \<open>auto simp: instantiate_org_def sync_council_def create_proposal_def execute_proposal_def ok_simps Let_def
         split: if_splits\<close>)
  show "proposal_status r' = Rejected \<longrightarrow> dao_proposals u p = Some r'"
    using motions_on_chain.final[OF assms(6), of p "Some r'"] assms(4) by (auto simp: dao_edge_from_Some)
qed

text \<open>A vote against passes a proposal: when a smaller council replaces the one that has voted, the votes stay and the
  threshold falls, and the next vote, whatever it says, decides in favour.\<close>

theorem vote_against_passes:
  assumes "dao_proposals s p = Some r" "proposal_status r = Open" "councils s (proposal_org r) \<noteq> None"
    and "2 * votes_for r > length c" "length c \<le> max_council_members cfg" "a \<in> set c" "\<not> proposal_ballots s p a"
  shows "map_option proposal_status (dao_proposals (run (dao_dispatch cfg)
    [(Root, SyncCouncil (proposal_org r) c), (Root, VoteProposal p a False)] s) p) = Some Passed"
proof -
  obtain t where t: "dao_dispatch cfg (Root, SyncCouncil (proposal_org r) c) s = Ok t" "councils t (proposal_org r) = Some c"
    "dao_proposals t = dao_proposals s" "proposal_ballots t = proposal_ballots s"
    using assms by (auto simp: sync_council_def)
  have "proposal_status (fst (decide_vote (length c) p (tally_vote False r))) = Passed"
    using assms(2,4) by (simp add: decide_vote_passed) (simp add: tally_vote_def)
  with t assms show ?thesis
    by (simp add: execute_def vote_proposal_def ensure_council_member_def Let_def case_prod_unfold)
qed

text \<open>The ballots of an executed proposal bar its identifier: whoever voted on it never votes on it again, whatever proposal
  is created under it later.\<close>

theorem ballots_outlive_the_proposal:
  assumes "vote_proposal og p a b s = Ok t" "(dao_step_rel cfg)\<^sup>*\<^sup>* t u"
  shows "vote_proposal og' p a b' u \<noteq> Ok w"
proof -
  have "proposal_ballots t p a" using assms(1) by (rule vote_proposal_Ok) simp
  then have "proposal_ballots u p a" by (rule ballots_stay[OF assms(2)])
  then show ?thesis by (auto elim: vote_proposal_Ok)
qed

section \<open>Witnesses\<close>

definition toy_dao :: "book dao_config" where
  "toy_dao = \<lparr>dao_currency = book_base 1, max_council_members = 4, sub_account = (\<lambda>g. 50)\<rparr>"

definition toy_council :: "book dao_state" where
  "toy_council = run (dao_dispatch toy_dao)
     [(Root, InstantiateOrg [] [1, 2, 3]), (Root, CreateProposal [] [7] 1 40 9), (Root, VoteProposal [7] 1 True)]
     (dao_start \<lparr>bal = (\<lambda>a. if a = 50 then 100 else 0), issued = 100, lock_of = (\<lambda>_ _. None)\<rparr>)"

lemma toy_council_reached:
  "reachable (dao_dispatch toy_dao) dao_foreign (dao_start \<lparr>bal = (\<lambda>a. if a = 50 then 100 else 0), issued = 100, lock_of = (\<lambda>_ _. None)\<rparr>)
     toy_council"
  unfolding toy_council_def by (rule reachable_run[OF reachable.start])

lemmas dao_handlers = instantiate_org_def create_proposal_def vote_proposal_def execute_proposal_def ensure_council_member_def
  treasury_account_def tally_vote_def decide_vote_def sync_council_def

lemma toy_council_eval:
  "dao_proposals toy_council [7] = Some \<lparr>proposal_org = [], proposer = 1, amount = 40, beneficiary = 9, votes_for = 1,
     votes_against = 0, proposal_status = Open\<rparr>"
  "councils toy_council [] = Some [1, 2, 3]" "org_treasuries toy_council [] = Some 50"
  "\<not> proposal_ballots toy_council [7] 2" "\<not> proposal_ballots toy_council [7] 3"
  "bal (dao_world toy_council) 50 = 100" "bal (dao_world toy_council) 9 = 0"
  by (simp_all add: toy_council_def execute_def dao_handlers Let_def dao_start_def toy_dao_def sat_add_def umax_def)

definition toy_carried :: "book dao_state" where
  "toy_carried = execute (dao_dispatch toy_dao) (Root, VoteProposal [7] 2 True) toy_council"

lemma toy_carried_step: "dao_dispatch toy_dao (Root, VoteProposal [7] 2 True) toy_council = Ok toy_carried"
  by (simp add: toy_carried_def execute_def vote_proposal_def ensure_council_member_def toy_council_eval Let_def case_prod_unfold)

lemma toy_carried_eval:
  "\<exists>r. dao_proposals toy_carried [7] = Some r \<and> proposal_status r = Passed \<and> proposal_org r = [] \<and> amount r = 40 \<and> beneficiary r = 9"
  "org_treasuries toy_carried [] = Some 50" "bal (dao_world toy_carried) 50 = 100" "bal (dao_world toy_carried) 9 = 0"
  by (simp_all add: toy_carried_def execute_def dao_handlers toy_council_eval Let_def sat_add_def umax_def)

lemma dao_pays_by_council_witness:
  "\<exists>t. execute_proposal toy_dao Root [7] toy_carried = Ok t \<and> bal (dao_world t) 9 = 40 \<and> bal (dao_world t) 50 = 60"
proof -
  have ok: "currency_ok (dao_currency toy_dao)" by (simp add: toy_dao_def book_currency_ok)
  have bal: "free_balance (dao_currency toy_dao) = bal" "treasury_account toy_dao [] = 50"
    by (simp_all add: toy_dao_def book_base_def treasury_account_def)
  obtain t where t: "execute_proposal toy_dao Root [7] toy_carried = Ok t"
    using toy_carried_eval by (auto simp: execute_proposal_def toy_dao_def book_defs)
  have "reachable (dao_dispatch toy_dao) dao_foreign (dao_start \<lparr>bal = (\<lambda>a. if a = 50 then 100 else 0), issued = 100, lock_of = (\<lambda>_ _. None)\<rparr>)
      toy_carried" by (rule reachable.call[OF toy_council_reached toy_carried_step])
  from dao_pays_by_council[OF ok this t] toy_carried_eval t show ?thesis
    by (auto simp: bal)
qed

lemma decided_by_strict_majority_witness:
  "\<exists>r'. dao_proposals toy_carried [7] = Some r' \<and> 3 < 2 * votes_for r'"
proof -
  obtain r' where r': "dao_proposals toy_carried [7] = Some r'" "proposal_status r' = Passed" using toy_carried_eval(1) by blast
  from decided_by_strict_majority[OF toy_carried_step toy_council_eval(1) _ r'(1) _ rtranclp.rtrancl_refl] r' toy_council_eval(2)
  show ?thesis by auto
qed

lemma vote_against_passes_witness:
  "map_option proposal_status (dao_proposals (run (dao_dispatch toy_dao)
     [(Root, SyncCouncil [] [3]), (Root, VoteProposal [7] 3 False)] toy_council) [7]) = Some Passed"
  using vote_against_passes[OF toy_council_eval(1), of "[3]" toy_dao 3] toy_council_eval by (simp add: toy_dao_def)

lemma ballots_outlive_the_proposal_witness: "vote_proposal Root [7] 2 b toy_carried \<noteq> Ok w"
  using ballots_outlive_the_proposal[of Root "[7]" 2 True toy_council toy_carried] toy_carried_step by simp

end
