(* ===== verification/Altan_Vault.thy ===== *)
theory Altan_Vault
  imports Currency Pallet_Interfaces
begin

text \<open>
  \<^verbatim>\<open>pallets/altan-vault/src/lib.rs\<close>: keyless savings accounts. A vault is an account derived from owner and index, which
  only its owner can empty, to himself.

  The ledger \<open>'x\<close> with its currency and \<open>into_sub_account_truncating\<close> are parameters; indices and counts are \<open>u16\<close>.
\<close>

section \<open>Data\<close>

record vault_info =
  vault_owner :: account
  vault_index :: nat
  created_at :: nat
  total_deposited :: balance
  total_withdrawn :: balance

datatype vault_event =
    VaultCreated account nat account
  | WithdrawnToOwner account nat account balance

datatype vault_error =
    VaultAlreadyExists
  | VaultNotFound
  | NotVaultOwner
  | MaxVaultsReached
  | ArithmeticOverflow
  | InsufficientVaultBalance

type_synonym vault_failure = "vault_error dispatch_error"

record 'x vault_state =
  vault_world :: 'x
  vaults :: "account \<Rightarrow> nat \<Rightarrow> vault_info option"
  vault_count :: "account \<Rightarrow> nat"
  vault_events :: "vault_event list"

record 'x vault_config =
  savings_currency :: "'x currency"
  pallet_id :: "byte list"
  max_vaults_per_owner :: nat
  into_sub_account :: "byte list \<Rightarrow> account \<Rightarrow> account"

definition emit_vault :: "vault_event \<Rightarrow> 'x vault_state \<Rightarrow> 'x vault_state" where
  "emit_vault e s = s\<lparr>vault_events := vault_events s @ [e]\<rparr>"

lemma emit_vault_simps [simp]:
  "vault_world (emit_vault e s) = vault_world s" "vaults (emit_vault e s) = vaults s"
  "vault_count (emit_vault e s) = vault_count s"
  by (simp_all add: emit_vault_def)

section \<open>Addresses\<close>

text \<open>The last two of the eight bytes of the pallet identifier are combined with the index, high byte first.\<close>

definition vault_pallet_id :: "byte list \<Rightarrow> nat \<Rightarrow> byte list" where
  "vault_pallet_id pid i = pid[6 := xor (pid ! 6) (of_nat (i div 256)), 7 := xor (pid ! 7) (of_nat (i mod 256))]"

definition vault_account :: "'x vault_config \<Rightarrow> account \<Rightarrow> nat \<Rightarrow> account" where
  "vault_account cfg owner i = into_sub_account cfg (vault_pallet_id (pallet_id cfg) i) owner"

section \<open>Dispatchables\<close>

definition create_vault ::
  "'x vault_config \<Rightarrow> env \<Rightarrow> origin \<Rightarrow> nat \<Rightarrow> 'x vault_state \<Rightarrow> ('x vault_state, vault_failure) result" where
  "create_vault cfg env og i s =
     and_then (ensure_signed og) (\<lambda>owner.
     ensure (vault_count s owner < max_vaults_per_owner cfg) (Module MaxVaultsReached) (
     ensure (vaults s owner i = None) (Module VaultAlreadyExists) (
     Ok (emit_vault (VaultCreated owner i (vault_account cfg owner i))
          (s\<lparr>vaults := (vaults s)(owner := (vaults s owner)(i \<mapsto>
               \<lparr>vault_owner = owner, vault_index = i, created_at = block_number env, total_deposited = 0, total_withdrawn = 0\<rparr>)),
             vault_count := (vault_count s)(owner := sat_add 16 (vault_count s owner) 1)\<rparr>)))))"

definition withdraw_to_owner ::
  "'x vault_config \<Rightarrow> origin \<Rightarrow> nat \<Rightarrow> balance \<Rightarrow> 'x vault_state \<Rightarrow> ('x vault_state, vault_failure) result" where
  "withdraw_to_owner cfg og i v s =
     and_then (ensure_signed og) (\<lambda>caller.
     ok_or (vaults s caller i) (Module VaultNotFound) (\<lambda>info.
     ensure (vault_owner info = caller) (Module NotVaultOwner) (
     let addr = vault_account cfg caller i in
     ensure (v \<le> free_balance (savings_currency cfg) (vault_world s) addr) (Module InsufficientVaultBalance) (
     and_then (map_err ThirdParty (transfer (savings_currency cfg) (vault_world s) addr caller v AllowDeath)) (\<lambda>x.
     Ok (emit_vault (WithdrawnToOwner caller i addr v)
          (s\<lparr>vault_world := x,
             vaults := (vaults s)(caller := (vaults s caller)(i \<mapsto>
               info\<lparr>total_withdrawn := sat_add 128 (total_withdrawn info) v\<rparr>))\<rparr>)))))))"

definition record_inbound ::
  "origin \<Rightarrow> account \<Rightarrow> nat \<Rightarrow> balance \<Rightarrow> 'x vault_state \<Rightarrow> ('x vault_state, vault_failure) result" where
  "record_inbound og owner i v s =
     and_then (ensure_signed og) (\<lambda>_.
     ok_or (vaults s owner i) (Module VaultNotFound) (\<lambda>info.
     Ok (s\<lparr>vaults := (vaults s)(owner := (vaults s owner)(i \<mapsto>
            info\<lparr>total_deposited := sat_add 128 (total_deposited info) v\<rparr>))\<rparr>)))"

section \<open>The pallet\<close>

datatype vault_call =
    CreateVault nat
  | WithdrawToOwner nat balance
  | RecordInbound account nat balance

fun vault_dispatch ::
  "'x vault_config \<Rightarrow> env \<times> origin \<times> vault_call \<Rightarrow> 'x vault_state \<Rightarrow> ('x vault_state, vault_failure) result" where
  "vault_dispatch cfg (env, og, CreateVault i) s = create_vault cfg env og i s"
| "vault_dispatch cfg (env, og, WithdrawToOwner i v) s = withdraw_to_owner cfg og i v s"
| "vault_dispatch cfg (env, og, RecordInbound a i v) s = record_inbound og a i v s"

definition vault_start :: "'x \<Rightarrow> 'x vault_state" where
  "vault_start x = \<lparr>vault_world = x, vaults = (\<lambda>_. Map.empty), vault_count = (\<lambda>_. 0), vault_events = []\<rparr>"

definition vault_foreign :: "'x vault_state \<Rightarrow> 'x vault_state \<Rightarrow> bool" where
  "vault_foreign s t \<longleftrightarrow> (\<exists>x. t = s\<lparr>vault_world := x\<rparr>)"

section \<open>What holds\<close>

text \<open>
  Properties of the savings vaults: only the owner takes money out, to himself; the count of vaults is exact; the audit
  counters say what anyone makes them say.
\<close>

section \<open>Invariant\<close>

definition vaults_ok :: "'x vault_config \<Rightarrow> 'x vault_state \<Rightarrow> bool" where
  "vaults_ok cfg s \<longleftrightarrow> (\<forall>a. finite (dom (vaults s a)) \<and> vault_count s a = card (dom (vaults s a))
       \<and> vault_count s a \<le> max_vaults_per_owner cfg)
     \<and> (\<forall>a i info. vaults s a i = Some info \<longrightarrow> vault_owner info = a \<and> vault_index info = i)"

lemma vaults_okD: "vaults_ok cfg s \<Longrightarrow> finite (dom (vaults s a))" "vaults_ok cfg s \<Longrightarrow> vault_count s a = card (dom (vaults s a))"
    "vaults_ok cfg s \<Longrightarrow> vault_count s a \<le> max_vaults_per_owner cfg"
    "vaults_ok cfg s \<Longrightarrow> vaults s a i = Some info \<Longrightarrow> vault_owner info = a \<and> vault_index info = i"
  unfolding vaults_ok_def by blast+

text \<open>Writing a vault of an owner: the count moves with a new index.\<close>

lemma vaults_ok_put:
  assumes "vaults_ok cfg s" "vaults t = (vaults s)(a := (vaults s a)(i \<mapsto> info))" "vault_owner info = a" "vault_index info = i"
    and "vault_count t = (vault_count s)(a := card (insert i (dom (vaults s a))))"
    and "card (insert i (dom (vaults s a))) \<le> max_vaults_per_owner cfg"
  shows "vaults_ok cfg t"
  unfolding vaults_ok_def
proof (intro conjI allI impI)
  fix b
  show "finite (dom (vaults t b))" using vaults_okD(1)[OF assms(1)] assms(2) by simp
  show "vault_count t b = card (dom (vaults t b))" using vaults_okD(2)[OF assms(1), of b] assms(2,5) by simp
  show "vault_count t b \<le> max_vaults_per_owner cfg" using vaults_okD(3)[OF assms(1), of b] assms(5,6) by simp
next
  fix b j q assume "vaults t b j = Some q"
  with vaults_okD(4)[OF assms(1), of b j q] assms(2-4) show "vault_owner q = b" "vault_index q = j" by (auto split: if_splits)
qed

lemma vaults_ok_rewrite:
  assumes "vaults_ok cfg s" "vaults s a i = Some q" "vaults t = (vaults s)(a := (vaults s a)(i \<mapsto> info))"
    and "vault_owner info = vault_owner q" "vault_index info = vault_index q" "vault_count t = vault_count s"
  shows "vaults_ok cfg t"
proof -
  have "i \<in> dom (vaults s a)" using assms(2) by blast
  then have "insert i (dom (vaults s a)) = dom (vaults s a)" by blast
  with assms vaults_okD[OF assms(1)] show ?thesis by (intro vaults_ok_put[OF assms(1,3)]) (auto simp: fun_upd_idem_iff)
qed

lemma withdraw_Ok:
  assumes "withdraw_to_owner cfg og i v s = Ok t"
  obtains a info x where "og = Signed a" "vaults s a i = Some info" "vault_owner info = a"
    "v \<le> free_balance (savings_currency cfg) (vault_world s) (vault_account cfg a i)"
    "transfer (savings_currency cfg) (vault_world s) (vault_account cfg a i) a v AllowDeath = Ok x" "vault_world t = x"
    "vaults t = (vaults s)(a := (vaults s a)(i \<mapsto> info\<lparr>total_withdrawn := sat_add 128 (total_withdrawn info) v\<rparr>))"
    "vault_count t = vault_count s"
  using assms by (auto simp: withdraw_to_owner_def Let_def ok_simps)

lemma vaults_step:
  assumes "max_vaults_per_owner cfg \<le> umax 16" "vaults_ok cfg s" "vault_dispatch cfg (env, og, k) s = Ok t"
  shows "vaults_ok cfg t"
proof (cases k)
  case (CreateVault i)
  with assms(3) obtain a info where t: "vaults s a i = None" "vaults t = (vaults s)(a := (vaults s a)(i \<mapsto> info))"
      "vault_owner info = a" "vault_index info = i" "vault_count t = (vault_count s)(a := sat_add 16 (vault_count s a) 1)"
    and a: "vault_count s a < max_vaults_per_owner cfg"
    by (auto simp: create_vault_def ok_simps)
  have "i \<notin> dom (vaults s a)" using t(1) by blast
  then have "card (insert i (dom (vaults s a))) = vault_count s a + 1" using vaults_okD(1,2)[OF assms(2), of a] by simp
  with t a assms(1) show ?thesis by (intro vaults_ok_put[OF assms(2) t(2-4)]) (auto simp: sat_add_def)
next
  case (WithdrawToOwner i v)
  with assms(3) have "withdraw_to_owner cfg og i v s = Ok t" by simp
  then obtain a info where w: "vaults s a i = Some info"
    "vaults t = (vaults s)(a := (vaults s a)(i \<mapsto> info\<lparr>total_withdrawn := sat_add 128 (total_withdrawn info) v\<rparr>))"
    "vault_count t = vault_count s" by (rule withdraw_Ok)
  show ?thesis by (rule vaults_ok_rewrite[OF assms(2) w(1,2) _ _ w(3)]) simp_all
next
  case (RecordInbound a i v)
  with assms(3) obtain info where w: "vaults s a i = Some info"
    "vaults t = (vaults s)(a := (vaults s a)(i \<mapsto> info\<lparr>total_deposited := sat_add 128 (total_deposited info) v\<rparr>))"
    "vault_count t = vault_count s" by (auto simp: record_inbound_def ok_simps)
  show ?thesis by (rule vaults_ok_rewrite[OF assms(2) w(1,2) _ _ w(3)]) simp_all
qed

definition vault_inv :: "'x vault_config \<Rightarrow> 'x vault_state \<Rightarrow> bool" where
  "vault_inv cfg s \<longleftrightarrow> max_vaults_per_owner cfg \<le> umax 16 \<longrightarrow> vaults_ok cfg s"

interpretation savings: pallet_machine "vault_dispatch cfg" vault_foreign "vault_inv cfg" for cfg :: "'x vault_config"
proof
  fix s t :: "'x vault_state" and c
  show "vault_inv cfg s \<Longrightarrow> vault_dispatch cfg c s = Ok t \<Longrightarrow> vault_inv cfg t"
    unfolding vault_inv_def by (cases c) (auto intro: vaults_step)
  show "vault_inv cfg s \<Longrightarrow> vault_foreign s t \<Longrightarrow> vault_inv cfg t"
    unfolding vault_foreign_def vault_inv_def by (auto simp: vaults_ok_def)
qed

section \<open>Properties\<close>

text \<open>Only the owner takes money out of a vault, to himself. If a call of the pallet in a reachable state leaves any
  account with less than before, then the call is a withdrawal signed by the owner of the vault with this address, the
  balance of that owner rises by exactly the amount, and no third account changes; every other call leaves the ledger
  alone. An owner has as many vaults as are counted, within the bound.\<close>

theorem vault_pays_owner_only:
  assumes "currency_ok (savings_currency cfg)" "max_vaults_per_owner cfg \<le> umax 16"
    and "reachable (vault_dispatch cfg) vault_foreign (vault_start x0) s" "vault_dispatch cfg (env, og, k) s = Ok t"
    and "free_balance (savings_currency cfg) (vault_world t) v < free_balance (savings_currency cfg) (vault_world s) v"
  shows "\<exists>a i n. og = Signed a \<and> k = WithdrawToOwner i n \<and> v = vault_account cfg a i \<and> v \<noteq> a
    \<and> (\<exists>info. vaults s a i = Some info \<and> vault_owner info = a \<and> vault_index info = i)
    \<and> n \<le> free_balance (savings_currency cfg) (vault_world s) v
    \<and> free_balance (savings_currency cfg) (vault_world t) a = free_balance (savings_currency cfg) (vault_world s) a + n
    \<and> (\<forall>b. b \<noteq> a \<and> b \<noteq> v \<longrightarrow> free_balance (savings_currency cfg) (vault_world t) b = free_balance (savings_currency cfg) (vault_world s) b)
    \<and> card (dom (vaults t a)) = vault_count t a \<and> vault_count t a \<le> max_vaults_per_owner cfg"
proof -
  have "vault_inv cfg (vault_start x0)" by (simp add: vault_inv_def vaults_ok_def vault_start_def)
  from savings.reachable_inv[OF assms(3) this] assms(2) have ok: "vaults_ok cfg s" by (simp add: vault_inv_def)
  have okt: "vaults_ok cfg t" by (rule vaults_step[OF assms(2) ok assms(4)])
  have "vault_world t = vault_world s" if "\<nexists>i n. k = WithdrawToOwner i n"
    using assms(4) that by (cases k) (auto simp: create_vault_def record_inbound_def ok_simps)
  then obtain i n where k: "k = WithdrawToOwner i n" using assms(5) by fastforce
  with assms(4) have "withdraw_to_owner cfg og i n s = Ok t" by simp
  then obtain a info where w: "og = Signed a" "vaults s a i = Some info" "vault_owner info = a"
    "n \<le> free_balance (savings_currency cfg) (vault_world s) (vault_account cfg a i)"
    "transfer (savings_currency cfg) (vault_world s) (vault_account cfg a i) a n AllowDeath = Ok (vault_world t)"
    by (rule withdraw_Ok) blast
  note moved = transfer_deathD[OF assms(1) w(5)]
  have "v = vault_account cfg a i \<and> v \<noteq> a"
    using assms(5) moved(3)[of v] moved(5) by (cases "v = vault_account cfg a i") (auto split: if_splits)
  moreover from this have "free_balance (savings_currency cfg) (vault_world t) b
      = (if b = a then free_balance (savings_currency cfg) (vault_world s) a + n
         else free_balance (savings_currency cfg) (vault_world s) b)" if "b \<noteq> v" for b using moved(3)[of b] that by auto
  ultimately show ?thesis
    using w k vaults_okD(4)[OF ok w(2)] vaults_okD(2,3)[OF okt, of a] by (intro exI[of _ a] exI[of _ i] exI[of _ n]) auto
qed

text \<open>Anyone writes the audit trail: whoever signs a record of an inbound payment sets the deposits of any vault to any
  figure above the present one, and no balance moves.\<close>

theorem anyone_writes_the_audit:
  assumes "vaults s a i = Some info" "total_deposited info \<le> n" "n \<le> umax 128"
  shows "\<exists>t info'. vault_dispatch cfg (env, Signed b, RecordInbound a i (n - total_deposited info)) s = Ok t
    \<and> vaults t a i = Some info' \<and> total_deposited info' = n \<and> vault_world t = vault_world s"
  using assms by (auto simp: record_inbound_def sat_add_def)

text \<open>Owners whose accounts begin with the same twenty bytes share their vaults. \<open>into_sub_account_truncating\<close> cuts the
  owner off there; so the second of them opens the vault under the same index and takes out what the first has saved.\<close>

theorem shared_prefix_shares_vaults:
  assumes "\<And>pid a b. take 20 (encode a) = take 20 (encode b) \<Longrightarrow> into_sub_account cfg pid a = into_sub_account cfg pid b"
    and "take 20 (encode a) = take 20 (encode b)"
    and "vaults s b i = None" "vault_count s b < max_vaults_per_owner cfg"
    and "v \<le> free_balance (savings_currency cfg) (vault_world s) (vault_account cfg a i)"
    and "transfer (savings_currency cfg) (vault_world s) (vault_account cfg a i) b v AllowDeath = Ok x"
  shows "vault_world (run (vault_dispatch cfg) [(env, Signed b, CreateVault i), (env, Signed b, WithdrawToOwner i v)] s) = x"
proof -
  have "vault_account cfg b i = vault_account cfg a i" unfolding vault_account_def using assms(1)[OF assms(2)] by simp
  with assms(3-6) show ?thesis by (simp add: execute_def create_vault_def withdraw_to_owner_def Let_def)
qed

section \<open>Witnesses\<close>

definition toy_savings :: "book vault_config" where
  "toy_savings = \<lparr>savings_currency = book_base 1, pallet_id = [97, 47, 118, 97, 117, 108, 116, 33], max_vaults_per_owner = 64,
     into_sub_account = (\<lambda>pid a. 1000 * (a div 10 + 1) + unat (pid ! 7))\<rparr>"

definition vault_block :: env where
  "vault_block = \<lparr>block_number = 4, extrinsic_index = None\<rparr>"

definition toy_saved :: "book vault_state" where
  "toy_saved = run (vault_dispatch toy_savings) [(vault_block, Signed 7, CreateVault 1)]
     (vault_start \<lparr>bal = (\<lambda>a. if a = 1032 then 80 else 5), issued = 1000, lock_of = (\<lambda>_ _. None)\<rparr>)"

lemma toy_saved_reached: "reachable (vault_dispatch toy_savings) vault_foreign
    (vault_start \<lparr>bal = (\<lambda>a. if a = 1032 then 80 else 5), issued = 1000, lock_of = (\<lambda>_ _. None)\<rparr>) toy_saved"
  unfolding toy_saved_def by (rule reachable_run[OF reachable.start])

lemma toy_address: "vault_account toy_savings 7 1 = 1032" "vault_account toy_savings 8 1 = 1032"
  by (simp_all add: vault_account_def vault_pallet_id_def toy_savings_def)

lemma toy_saved_eval:
  "\<exists>info. vaults toy_saved 7 1 = Some info \<and> vault_owner info = 7 \<and> total_deposited info = 0"
  "vaults toy_saved 8 1 = None" "vault_count toy_saved 8 = 0"
  "vault_world toy_saved = \<lparr>bal = (\<lambda>a. if a = 1032 then 80 else 5), issued = 1000, lock_of = (\<lambda>_ _. None)\<rparr>"
  by (simp_all add: toy_saved_def execute_def create_vault_def vault_start_def toy_savings_def)

lemma vault_pays_owner_only_witness:
  "\<exists>t. withdraw_to_owner toy_savings (Signed 7) 1 30 toy_saved = Ok t \<and> bal (vault_world t) 7 = 35"
proof -
  have ok: "currency_ok (savings_currency toy_savings)" by (simp add: toy_savings_def book_currency_ok)
  have bal: "free_balance (savings_currency toy_savings) = bal" by (simp add: toy_savings_def book_base_def)
  have max: "max_vaults_per_owner toy_savings \<le> umax 16" by (simp add: toy_savings_def umax_def)
  obtain t where t: "withdraw_to_owner toy_savings (Signed 7) 1 30 toy_saved = Ok t" "bal (vault_world t) 1032 < bal (vault_world toy_saved) 1032"
    using toy_saved_eval(1,4) toy_address(1)
    by (auto simp: withdraw_to_owner_def Let_def toy_savings_def book_defs)
  have "vault_dispatch toy_savings (vault_block, Signed 7, WithdrawToOwner 1 30) toy_saved = Ok t" using t(1) by simp
  from vault_pays_owner_only[OF ok max toy_saved_reached this, unfolded bal, OF t(2)] t(1) toy_saved_eval(4) show ?thesis by auto
qed

lemma anyone_writes_the_audit_witness:
  "\<exists>t info. vault_dispatch toy_savings (vault_block, Signed 99, RecordInbound 7 1 1000000) toy_saved = Ok t
    \<and> vaults t 7 1 = Some info \<and> total_deposited info = 1000000"
proof -
  obtain info where info: "vaults toy_saved 7 1 = Some info" "total_deposited info = 0" using toy_saved_eval(1) by blast
  from anyone_writes_the_audit[OF info(1), of 1000000 toy_savings vault_block 99] info(2) show ?thesis by (auto simp: umax_def)
qed

lemma shared_prefix_shares_vaults_witness:
  "bal (vault_world (run (vault_dispatch toy_savings) [(vault_block, Signed 8, CreateVault 1), (vault_block, Signed 8, WithdrawToOwner 1 80)]
     toy_saved)) 8 = 85"
proof -
  obtain x where x: "transfer (savings_currency toy_savings) (vault_world toy_saved) 1032 8 80 AllowDeath = Ok x" "bal x 8 = 85"
    unfolding toy_saved_eval by (auto simp: toy_savings_def book_defs)
  have "vault_world (run (vault_dispatch toy_savings) [(vault_block, Signed 8, CreateVault 1), (vault_block, Signed 8, WithdrawToOwner 1 80)]
      toy_saved) = x"
    by (rule shared_prefix_shares_vaults[where encode = "\<lambda>a. [a div 10]" and a = 7])
      (use x(1) toy_saved_eval toy_address in \<open>simp_all add: toy_savings_def book_base_def\<close>)
  with x(2) show ?thesis by simp
qed

end
