(* ===== verification/Achievement_Nft.thy ===== *)
theory Achievement_Nft
  imports Reservable Pallet_Interfaces
begin

text \<open>
  \<^verbatim>\<open>pallets/achievement-nft/src/lib.rs\<close>: badges of honour, and rewards backed by money reserved in the treasury of the
  confederation.

  The ledger \<open>'x\<close> with its currency and the origin of the issuers are parameters; identifiers are \<open>u64\<close>.
\<close>

section \<open>Data\<close>

datatype achievement_category = Reputation | Reward

datatype achievement_kind =
    Verifier | TumedElected | GuildMaster | AcademyScientist | FirstCitizen | FrontierBuilder | LegislativeAuthor | CenturyMember
  | VerifierReward | ElectionReward | QuestReward | BudgetPrize | TaxBonus | ValidationBonus
  | Custom nat

record achievement_token =
  token_id :: nat
  token_holder :: account
  category :: achievement_category
  achievement_kind :: achievement_kind
  altan_value :: balance
  issued_at :: nat
  redeemed :: bool
  issued_by :: account
  event_ref :: "byte list option"

datatype achievement_event =
    AchievementAwarded nat account achievement_kind
  | RewardNftIssued nat account achievement_kind balance
  | RewardRedeemed nat account balance

datatype achievement_error =
    TokenNotFound
  | NotRedeemable
  | AlreadyRedeemed
  | NotHolder
  | TooManyAchievements
  | InsufficientTreasuryBalance

type_synonym achievement_failure = "achievement_error dispatch_error"

record 'x achievement_state =
  achievement_ledger :: 'x
  next_achievement_id :: nat
  achievements :: "nat \<Rightarrow> achievement_token option"
  holder_achievements :: "account \<Rightarrow> nat list"
  achievement_events :: "achievement_event list"

record 'x achievement_config =
  reward_currency :: "'x reservable_currency"
  nft_issuer :: "origin \<Rightarrow> account option"
  confederation_treasury :: account
  max_achievements_per_holder :: nat

definition emit_achievement :: "achievement_event \<Rightarrow> 'x achievement_state \<Rightarrow> 'x achievement_state" where
  "emit_achievement e s = s\<lparr>achievement_events := achievement_events s @ [e]\<rparr>"

lemma emit_achievement_simps [simp]:
  "achievement_ledger (emit_achievement e s) = achievement_ledger s"
  "next_achievement_id (emit_achievement e s) = next_achievement_id s"
  "achievements (emit_achievement e s) = achievements s"
  "holder_achievements (emit_achievement e s) = holder_achievements s"
  by (simp_all add: emit_achievement_def)

section \<open>Dispatchables\<close>

text \<open>Storing a token and entering it in the list of its holder, as both issuing calls do. A reference longer than 64
  bytes is dropped.\<close>

definition store_token ::
  "'x achievement_config \<Rightarrow> env \<Rightarrow> account \<Rightarrow> account \<Rightarrow> achievement_category \<Rightarrow> achievement_kind \<Rightarrow> balance \<Rightarrow> byte list option
   \<Rightarrow> 'x achievement_state \<Rightarrow> ('x achievement_state, achievement_failure) result" where
  "store_token cfg env issuer holder cat kind v ref s =
     (let i = next_achievement_id s;
          bounded = (case ref of Some r \<Rightarrow> if length r \<le> 64 then Some r else None | None \<Rightarrow> None)
      in ensure (length (holder_achievements s holder) < max_achievements_per_holder cfg) (Module TooManyAchievements) (
         Ok (s\<lparr>next_achievement_id := sat_add 64 i 1,
               achievements := (achievements s)(i \<mapsto>
                 \<lparr>token_id = i, token_holder = holder, category = cat, achievement_kind = kind, altan_value = v,
                  issued_at = block_number env, redeemed = False, issued_by = issuer, event_ref = bounded\<rparr>),
               holder_achievements := (holder_achievements s)(holder := holder_achievements s holder @ [i])\<rparr>)))"

definition award_achievement ::
  "'x achievement_config \<Rightarrow> env \<Rightarrow> origin \<Rightarrow> account \<Rightarrow> achievement_kind \<Rightarrow> byte list option \<Rightarrow> 'x achievement_state
   \<Rightarrow> ('x achievement_state, achievement_failure) result" where
  "award_achievement cfg env og holder kind ref s =
     ok_or (nft_issuer cfg og) BadOrigin (\<lambda>issuer.
     and_then (store_token cfg env issuer holder Reputation kind 0 ref s) (\<lambda>s1.
     Ok (emit_achievement (AchievementAwarded (next_achievement_id s) holder kind) s1)))"

definition issue_reward_nft ::
  "'x achievement_config \<Rightarrow> env \<Rightarrow> origin \<Rightarrow> account \<Rightarrow> achievement_kind \<Rightarrow> balance \<Rightarrow> byte list option \<Rightarrow> 'x achievement_state
   \<Rightarrow> ('x achievement_state, achievement_failure) result" where
  "issue_reward_nft cfg env og holder kind v ref s =
     ok_or (nft_issuer cfg og) BadOrigin (\<lambda>issuer.
     and_then (map_err (\<lambda>_. Module InsufficientTreasuryBalance)
         (reserve_funds (reward_currency cfg) (achievement_ledger s) (confederation_treasury cfg) v)) (\<lambda>x.
     and_then (store_token cfg env issuer holder Reward kind v ref (s\<lparr>achievement_ledger := x\<rparr>)) (\<lambda>s1.
     Ok (emit_achievement (RewardNftIssued (next_achievement_id s) holder kind v) s1))))"

definition redeem_reward_nft ::
  "'x achievement_config \<Rightarrow> origin \<Rightarrow> nat \<Rightarrow> 'x achievement_state \<Rightarrow> ('x achievement_state, achievement_failure) result" where
  "redeem_reward_nft cfg og i s =
     and_then (ensure_signed og) (\<lambda>caller.
     ok_or (achievements s i) (Module TokenNotFound) (\<lambda>k.
     ensure (token_holder k = caller) (Module NotHolder) (
     ensure (category k = Reward) (Module NotRedeemable) (
     ensure (\<not> redeemed k) (Module AlreadyRedeemed) (
     let x = unreserve (reward_currency cfg) (achievement_ledger s) (confederation_treasury cfg) (altan_value k) in
     and_then (map_err ThirdParty
         (transfer (reward_currency cfg) x (confederation_treasury cfg) (token_holder k) (altan_value k) KeepAlive)) (\<lambda>y.
     Ok (emit_achievement (RewardRedeemed i (token_holder k) (altan_value k))
          (s\<lparr>achievement_ledger := y, achievements := (achievements s)(i \<mapsto> k\<lparr>redeemed := True\<rparr>)\<rparr>))))))))"

section \<open>The pallet\<close>

datatype achievement_call =
    AwardAchievement account achievement_kind "byte list option"
  | IssueRewardNft account achievement_kind balance "byte list option"
  | RedeemRewardNft nat

fun achievement_dispatch ::
  "'x achievement_config \<Rightarrow> env \<times> origin \<times> achievement_call \<Rightarrow> 'x achievement_state
   \<Rightarrow> ('x achievement_state, achievement_failure) result" where
  "achievement_dispatch cfg (env, og, AwardAchievement a k r) s = award_achievement cfg env og a k r s"
| "achievement_dispatch cfg (env, og, IssueRewardNft a k v r) s = issue_reward_nft cfg env og a k v r s"
| "achievement_dispatch cfg (env, og, RedeemRewardNft i) s = redeem_reward_nft cfg og i s"

definition achievement_start :: "'x \<Rightarrow> 'x achievement_state" where
  "achievement_start x = \<lparr>achievement_ledger = x, next_achievement_id = 0, achievements = Map.empty,
     holder_achievements = (\<lambda>_. []), achievement_events = []\<rparr>"

text \<open>Other pallets move the ledger, but do not touch what is set aside of the treasury.\<close>

definition achievement_foreign :: "'x achievement_config \<Rightarrow> 'x achievement_state \<Rightarrow> 'x achievement_state \<Rightarrow> bool" where
  "achievement_foreign cfg s t \<longleftrightarrow> (\<exists>x. t = s\<lparr>achievement_ledger := x\<rparr>
     \<and> reserved_balance (reward_currency cfg) (achievement_ledger s) (confederation_treasury cfg)
       \<le> reserved_balance (reward_currency cfg) x (confederation_treasury cfg))"

text \<open>The issuers of the runtime: \<open>EnsureSigned\<close>.\<close>

definition runtime_nft_issuer :: "origin \<Rightarrow> account option" where
  "runtime_nft_issuer og = (case og of Signed a \<Rightarrow> Some a | _ \<Rightarrow> None)"

section \<open>What holds\<close>

text \<open>
  Properties of the reward tokens: every reward not yet paid is backed by money set aside, and who sets it aside in the
  runtime.
\<close>

section \<open>What is owed\<close>

definition owed :: "achievement_token option \<Rightarrow> balance" where
  "owed k = (case k of Some q \<Rightarrow> if category q = Reward \<and> \<not> redeemed q then altan_value q else 0 | None \<Rightarrow> 0)"

lemma owed_simps [simp]: "owed None = 0" "category q = Reward \<Longrightarrow> \<not> redeemed q \<Longrightarrow> owed (Some q) = altan_value q"
    "redeemed q \<Longrightarrow> owed (Some q) = 0" "category q = Reputation \<Longrightarrow> owed (Some q) = 0"
  by (simp_all add: owed_def)

definition set_apart :: "'x achievement_config \<Rightarrow> 'x achievement_state \<Rightarrow> balance" where
  "set_apart cfg s = reserved_balance (reward_currency cfg) (achievement_ledger s) (confederation_treasury cfg)"

definition backed :: "'x achievement_config \<Rightarrow> 'x achievement_state \<Rightarrow> bool" where
  "backed cfg s \<longleftrightarrow> reservable_ok (reward_currency cfg) \<longrightarrow>
     finsupp (\<lambda>i. owed (achievements s i)) \<and> tsum (\<lambda>i. owed (achievements s i)) \<le> set_apart cfg s"

lemma store_token_Ok:
  assumes "store_token cfg env iss h cat kind v ref s = Ok t"
  obtains k where "achievements t = (achievements s)(next_achievement_id s \<mapsto> k)" "token_holder k = h" "category k = cat"
    "altan_value k = v" "\<not> redeemed k" "achievement_ledger t = achievement_ledger s"
  using assms by (auto simp: store_token_def Let_def ok_simps)

lemma owed_upd: "(\<lambda>i. owed ((f(n := k)) i)) = (\<lambda>i. owed (f i))(n := owed k)"
  by auto

text \<open>Writing one token: what is owed on it may rise with what is set apart and must fall with it.\<close>

lemma backed_write:
  assumes "backed cfg s" "achievements t = (achievements s)(n \<mapsto> k)"
    and "reservable_ok (reward_currency cfg) \<Longrightarrow> owed (achievements s n) \<le> set_apart cfg s
      \<Longrightarrow> set_apart cfg s + owed (Some k) \<le> set_apart cfg t + owed (achievements s n)"
  shows "backed cfg t"
  unfolding backed_def
proof (intro impI conjI)
  let ?f = "\<lambda>i. owed (achievements s i)"
  assume ok: "reservable_ok (reward_currency cfg)"
  with assms(1) have fin: "finsupp ?f" and le: "tsum ?f \<le> set_apart cfg s" by (auto simp: backed_def)
  show "finsupp (\<lambda>i. owed (achievements t i))" unfolding assms(2) owed_upd using fin by simp
  have "owed (achievements s n) \<le> set_apart cfg s" using tsum_member[OF fin, of n] le by linarith
  from assms(3)[OF ok this] show "tsum (\<lambda>i. owed (achievements t i)) \<le> set_apart cfg t"
    unfolding assms(2) owed_upd using tsum_upd[OF fin, of n "owed (Some k)"] le by linarith
qed

lemma redeem_Ok:
  assumes "redeem_reward_nft cfg og i s = Ok t"
  obtains k a where "og = Signed a" "achievements s i = Some k" "token_holder k = a" "category k = Reward" "\<not> redeemed k"
    "transfer (reward_currency cfg) (unreserve (reward_currency cfg) (achievement_ledger s) (confederation_treasury cfg) (altan_value k))
       (confederation_treasury cfg) a (altan_value k) KeepAlive = Ok (achievement_ledger t)"
    "achievements t = (achievements s)(i \<mapsto> k\<lparr>redeemed := True\<rparr>)"
  using assms by (auto simp: redeem_reward_nft_def Let_def ok_simps)

lemma backed_step:
  assumes "backed cfg s" "achievement_dispatch cfg (env, og, c) s = Ok t"
  shows "backed cfg t"
proof (cases c)
  case (AwardAchievement h kind ref)
  with assms(2) obtain iss s1 where s1: "store_token cfg env iss h Reputation kind 0 ref s = Ok s1"
    and t: "achievements t = achievements s1" "achievement_ledger t = achievement_ledger s1"
    by (auto simp: award_achievement_def ok_simps)
  from s1 obtain k where "achievements s1 = (achievements s)(next_achievement_id s \<mapsto> k)" "category k = Reputation"
    "achievement_ledger s1 = achievement_ledger s" by (rule store_token_Ok)
  with t show ?thesis by (intro backed_write[OF assms(1), of t "next_achievement_id s" k]) (simp_all add: set_apart_def)
next
  case (IssueRewardNft h kind v ref)
  with assms(2) obtain iss x s1 where
    x: "reserve_funds (reward_currency cfg) (achievement_ledger s) (confederation_treasury cfg) v = Ok x"
    and s1: "store_token cfg env iss h Reward kind v ref (s\<lparr>achievement_ledger := x\<rparr>) = Ok s1"
    and t: "achievements t = achievements s1" "achievement_ledger t = achievement_ledger s1"
    by (auto simp: issue_reward_nft_def ok_simps)
  from s1 obtain k where k: "achievements s1 = (achievements s)(next_achievement_id s \<mapsto> k)" "category k = Reward"
    "altan_value k = v" "\<not> redeemed k" "achievement_ledger s1 = x" by (rule store_token_Ok) simp
  show ?thesis
    by (rule backed_write[OF assms(1), of t "next_achievement_id s" k])
      (use k t in \<open>simp_all add: set_apart_def reserveD(4)[OF _ x]\<close>)
next
  case (RedeemRewardNft i)
  with assms(2) have "redeem_reward_nft cfg og i s = Ok t" by simp
  then obtain k a where k: "achievements s i = Some k" "category k = Reward" "\<not> redeemed k"
    and pay: "transfer (reward_currency cfg)
        (unreserve (reward_currency cfg) (achievement_ledger s) (confederation_treasury cfg) (altan_value k))
        (confederation_treasury cfg) a (altan_value k) KeepAlive = Ok (achievement_ledger t)"
    and t: "achievements t = (achievements s)(i \<mapsto> k\<lparr>redeemed := True\<rparr>)"
    by (rule redeem_Ok) blast
  show ?thesis
    by (rule backed_write[OF assms(1) t])
      (use k in \<open>simp add: set_apart_def transfer_reserves[OF _ pay] unreserve_simps(3)\<close>)
qed

lemma backed_foreign: "backed cfg s \<Longrightarrow> achievement_foreign cfg s t \<Longrightarrow> backed cfg t"
  unfolding achievement_foreign_def backed_def set_apart_def by auto

interpretation rewards: pallet_machine "achievement_dispatch cfg" "achievement_foreign cfg" "backed cfg" for cfg :: "'x achievement_config"
proof
  fix s t :: "'x achievement_state" and c
  show "backed cfg s \<Longrightarrow> achievement_dispatch cfg c s = Ok t \<Longrightarrow> backed cfg t" by (cases c) (auto intro: backed_step)
  show "backed cfg s \<Longrightarrow> achievement_foreign cfg s t \<Longrightarrow> backed cfg t" by (rule backed_foreign)
qed

lemma backed_start: "backed cfg (achievement_start x)"
  by (simp add: backed_def achievement_start_def)

section \<open>Properties\<close>

text \<open>Every reward is backed. As long as other pallets leave what the treasury has set aside alone, in every reachable
  state it covers the rewards not yet redeemed together; a redemption pays its holder exactly the value of the reward, which
  has been set aside in full, and marks the token, so that it is never paid again in this state.\<close>

theorem rewards_are_backed:
  assumes "reservable_ok (reward_currency cfg)" "reachable (achievement_dispatch cfg) (achievement_foreign cfg) (achievement_start x) s"
  shows "tsum (\<lambda>i. owed (achievements s i))
      \<le> reserved_balance (reward_currency cfg) (achievement_ledger s) (confederation_treasury cfg)
    \<and> (redeem_reward_nft cfg og i s = Ok t \<and> og \<noteq> Signed (confederation_treasury cfg) \<longrightarrow>
        (\<exists>k a. og = Signed a \<and> achievements s i = Some k \<and> token_holder k = a
          \<and> altan_value k \<le> reserved_balance (reward_currency cfg) (achievement_ledger s) (confederation_treasury cfg)
          \<and> free_balance (reward_currency cfg) (achievement_ledger t)
              = (free_balance (reward_currency cfg) (achievement_ledger s))(a := free_balance (reward_currency cfg) (achievement_ledger s) a + altan_value k)
          \<and> (\<forall>og' u. redeem_reward_nft cfg og' i t \<noteq> Ok u)))"
proof (intro conjI impI)
  have "backed cfg s" by (rule rewards.reachable_inv[OF assms(2) backed_start])
  with assms(1) have fin: "finsupp (\<lambda>i. owed (achievements s i))" and le: "tsum (\<lambda>i. owed (achievements s i)) \<le> set_apart cfg s"
    by (auto simp: backed_def)
  show "tsum (\<lambda>i. owed (achievements s i)) \<le> reserved_balance (reward_currency cfg) (achievement_ledger s) (confederation_treasury cfg)"
    using le by (simp add: set_apart_def)
  assume r: "redeem_reward_nft cfg og i s = Ok t \<and> og \<noteq> Signed (confederation_treasury cfg)"
  then obtain k a where k: "og = Signed a" "achievements s i = Some k" "token_holder k = a" "category k = Reward" "\<not> redeemed k"
    and pay: "transfer (reward_currency cfg)
        (unreserve (reward_currency cfg) (achievement_ledger s) (confederation_treasury cfg) (altan_value k))
        (confederation_treasury cfg) a (altan_value k) KeepAlive = Ok (achievement_ledger t)"
    and t: "achievements t = (achievements s)(i \<mapsto> k\<lparr>redeemed := True\<rparr>)"
    using redeem_Ok[of cfg og i s t] by blast
  have a: "a \<noteq> confederation_treasury cfg" using r k(1) by simp
  have v: "altan_value k \<le> set_apart cfg s" using tsum_member[OF fin, of i] k(2,4,5) le by simp
  have "free_balance (reward_currency cfg) (achievement_ledger t) b
      = ((free_balance (reward_currency cfg) (achievement_ledger s))(a := free_balance (reward_currency cfg) (achievement_ledger s) a + altan_value k)) b" for b
    using transfer_keepD(3)[OF reservable_currency[OF assms(1)] pay, of b] v a
    by (simp add: unreserve_simps(2)[OF assms(1)] set_apart_def min_def)
  then have "free_balance (reward_currency cfg) (achievement_ledger t)
      = (free_balance (reward_currency cfg) (achievement_ledger s))(a := free_balance (reward_currency cfg) (achievement_ledger s) a + altan_value k)"
    by (rule ext)
  moreover have "redeem_reward_nft cfg og' i t \<noteq> Ok u" for og' u using t by (auto simp: redeem_reward_nft_def ok_simps)
  ultimately show "\<exists>k a. og = Signed a \<and> achievements s i = Some k \<and> token_holder k = a
          \<and> altan_value k \<le> reserved_balance (reward_currency cfg) (achievement_ledger s) (confederation_treasury cfg)
          \<and> free_balance (reward_currency cfg) (achievement_ledger t)
              = (free_balance (reward_currency cfg) (achievement_ledger s))(a := free_balance (reward_currency cfg) (achievement_ledger s) a + altan_value k)
          \<and> (\<forall>og' u. redeem_reward_nft cfg og' i t \<noteq> Ok u)"
    using k v by (auto simp: set_apart_def)
qed

text \<open>Anyone empties the treasury of the confederation. In the runtime the issuers are all who sign; so any account other
  than the treasury issues itself a reward of any amount the treasury can set aside and pay, redeems it, and holds the money,
  in two calls of its own.\<close>

theorem anyone_drains_the_treasury:
  assumes "reservable_ok (reward_currency cfg)" "nft_issuer cfg = runtime_nft_issuer"
    and "a \<noteq> confederation_treasury cfg" "length (holder_achievements s a) < max_achievements_per_holder cfg"
    and "reserve_funds (reward_currency cfg) (achievement_ledger s) (confederation_treasury cfg) v = Ok x"
    and "transfer (reward_currency cfg) (unreserve (reward_currency cfg) x (confederation_treasury cfg) v)
           (confederation_treasury cfg) a v KeepAlive = Ok y"
    and "t = run (achievement_dispatch cfg)
           [(env, Signed a, IssueRewardNft a kind v None), (env, Signed a, RedeemRewardNft (next_achievement_id s))] s"
  shows "free_balance (reward_currency cfg) (achievement_ledger t) a = free_balance (reward_currency cfg) (achievement_ledger s) a + v
    \<and> free_balance (reward_currency cfg) (achievement_ledger t) (confederation_treasury cfg)
        = free_balance (reward_currency cfg) (achievement_ledger s) (confederation_treasury cfg) - v
    \<and> v \<le> free_balance (reward_currency cfg) (achievement_ledger s) (confederation_treasury cfg)"
proof -
  have t: "achievement_ledger t = y"
    unfolding assms(7) using assms(2-6)
    by (simp add: execute_def issue_reward_nft_def runtime_nft_issuer_def store_token_def redeem_reward_nft_def Let_def)
  note res = reserveD[OF assms(1,5)] and un = unreserve_simps(2)[OF assms(1), of x "confederation_treasury cfg" v]
    and pay = transfer_keepD(3)[OF reservable_currency[OF assms(1)] assms(6)]
  show ?thesis using pay[of a] pay[of "confederation_treasury cfg"] res(1) assms(3) by (simp add: t un res(3,4))
qed

section \<open>Witnesses\<close>

definition toy_treasury :: "pouch achievement_config" where
  "toy_treasury = \<lparr>reward_currency = pouch_currency 1, nft_issuer = runtime_nft_issuer, confederation_treasury = 50,
     max_achievements_per_holder = 500\<rparr>"

definition rich_treasury :: pouch where
  "rich_treasury = \<lparr>bal = (\<lambda>a. if a = 50 then 1000 else 5), issued = 2000, lock_of = (\<lambda>_ _. None), set_aside = (\<lambda>_. 0)\<rparr>"

definition toy_awards :: "pouch achievement_state" where
  "toy_awards = run (achievement_dispatch toy_treasury)
     [(\<lparr>block_number = 4, extrinsic_index = None\<rparr>, Signed 7, IssueRewardNft 8 QuestReward 40 None)] (achievement_start rich_treasury)"

lemma toy_awards_reached:
  "reachable (achievement_dispatch toy_treasury) (achievement_foreign toy_treasury) (achievement_start rich_treasury) toy_awards"
  unfolding toy_awards_def by (rule reachable_run[OF reachable.start])

lemma toy_treasury_sel [simp]: "reward_currency toy_treasury = pouch_currency 1" "confederation_treasury toy_treasury = 50"
    "nft_issuer toy_treasury = runtime_nft_issuer" "max_achievements_per_holder toy_treasury = 500"
  by (simp_all add: toy_treasury_def)

lemma toy_awards_eval:
  "\<exists>k. achievements toy_awards 0 = Some k \<and> token_holder k = 8 \<and> category k = Reward \<and> \<not> redeemed k \<and> altan_value k = 40"
  "bal (achievement_ledger toy_awards) = (\<lambda>a. if a = 50 then 960 else 5)" "set_aside (achievement_ledger toy_awards) 50 = 40"
  "lock_of (achievement_ledger toy_awards) = (\<lambda>_ _. None)"
  by (auto simp: toy_awards_def execute_def issue_reward_nft_def runtime_nft_issuer_def store_token_def Let_def achievement_start_def
      rich_treasury_def pouch_currency_def)

lemma rewards_are_backed_witness:
  "\<exists>t. redeem_reward_nft toy_treasury (Signed 8) 0 toy_awards = Ok t \<and> bal (achievement_ledger t) 8 = 45"
proof -
  have ok: "reservable_ok (reward_currency toy_treasury)" by (simp add: pouch_reservable)
  obtain t where t: "redeem_reward_nft toy_treasury (Signed 8) 0 toy_awards = Ok t"
    using toy_awards_eval by (auto simp: redeem_reward_nft_def Let_def pouch_defs book_defs)
  from rewards_are_backed[OF ok toy_awards_reached, of "Signed 8" 0 t] t toy_awards_eval(1,2) show ?thesis by auto
qed

lemma anyone_drains_the_treasury_witness:
  "bal (achievement_ledger (run (achievement_dispatch toy_treasury)
     [(env, Signed 7, IssueRewardNft 7 BudgetPrize 999 None), (env, Signed 7, RedeemRewardNft 0)] (achievement_start rich_treasury))) 50 = 1"
proof -
  have ok: "reservable_ok (reward_currency toy_treasury)" by (simp add: pouch_reservable)
  obtain x where x: "reserve_funds (pouch_currency 1) rich_treasury 50 999 = Ok x"
    by (simp add: pouch_currency_def rich_treasury_def)
  obtain y where y: "transfer (pouch_currency 1) (unreserve (pouch_currency 1) x 50 999) 50 7 999 KeepAlive = Ok y"
    using x by (auto simp: pouch_defs book_defs rich_treasury_def)
  have s: "achievement_ledger (achievement_start rich_treasury) = rich_treasury" "next_achievement_id (achievement_start rich_treasury) = 0"
    "holder_achievements (achievement_start rich_treasury) 7 = []" by (simp_all add: achievement_start_def)
  have "bal rich_treasury 50 = 1000" by (simp add: rich_treasury_def)
  with anyone_drains_the_treasury[OF ok, of 7 "achievement_start rich_treasury" 999 x y _ env BudgetPrize] x y s
  show ?thesis by simp
qed

end
