(* ===== verification/Recovery_Nft.thy ===== *)
theory Recovery_Nft
  imports Pallet_Interfaces
begin

text \<open>
  \<^verbatim>\<open>pallets/recovery-nft/src/lib.rs\<close>: tokens held by trusted people, a threshold of which recovers an account to a vault
  fixed when they were minted, after a window in which the owner may veto.

  The origin of the issuers is a parameter. Token numbers are \<open>u64\<close>, thresholds and counts \<open>u8\<close>, blocks \<open>u32\<close>.
\<close>

section \<open>Data\<close>

datatype recovery_destination = PersonalBankVault | FamilyVault

record recovery_nft =
  nft_token :: nat
  nft_group :: "byte list"
  nft_target :: account
  nft_holder :: account
  nft_destination :: recovery_destination
  nft_vault :: "byte list"
  nft_threshold :: nat
  total_issued :: nat
  group_index :: nat
  issued_at :: nat
  used_in_recovery :: "byte list option"

datatype recovery_status = PendingVetoWindow | CollectingSignatures | OwnerVetoed | Executed

record recovery_request =
  request_group :: "byte list"
  target_account :: account
  destination_kind :: recovery_destination
  vault_address :: "byte list"
  initiated_by :: account
  initiated_at :: nat
  veto_deadline_block :: nat
  recovery_status :: recovery_status
  confirmation_count :: nat
  threshold :: nat

datatype recovery_event =
    RecoveryNftsMinted "byte list" account recovery_destination "byte list" nat nat
  | RecoveryInitiated "byte list" "byte list" account account nat
  | RecoveryVetoed "byte list" account
  | RecoveryConfirmed "byte list" nat account nat nat
  | RecoveryExecuted "byte list" account recovery_destination "byte list"

datatype recovery_error =
    GroupIdTooLong
  | VaultAddressTooLong
  | TokenNotFound
  | NotHolder
  | AlreadyConfirmed
  | RequestNotFound
  | RecoveryVetoWindowActive
  | RecoveryAlreadyExecuted
  | RecoveryVetoedByOwner
  | NotTargetAccount
  | TooManyHolders
  | ThresholdExceedsGroupSize
  | InvalidThreshold

type_synonym recovery_failure = "recovery_error dispatch_error"

record recovery_state =
  next_recovery_token_id :: nat
  recovery_nfts :: "nat \<Rightarrow> recovery_nft option"
  holder_recovery_nfts :: "account \<Rightarrow> nat list"
  group_nfts :: "byte list \<Rightarrow> nat list"
  recovery_requests :: "byte list \<Rightarrow> recovery_request option"
  recovery_confirmations :: "byte list \<Rightarrow> nat \<Rightarrow> bool"
  recovery_events :: "recovery_event list"

record recovery_config =
  recovery_issuer :: "origin \<Rightarrow> account option"
  veto_window_blocks :: nat
  max_group_size :: nat

definition emit_recovery :: "recovery_event \<Rightarrow> recovery_state \<Rightarrow> recovery_state" where
  "emit_recovery e s = s\<lparr>recovery_events := recovery_events s @ [e]\<rparr>"

lemma emit_recovery_simps [simp]:
  "next_recovery_token_id (emit_recovery e s) = next_recovery_token_id s" "recovery_nfts (emit_recovery e s) = recovery_nfts s"
  "holder_recovery_nfts (emit_recovery e s) = holder_recovery_nfts s" "group_nfts (emit_recovery e s) = group_nfts s"
  "recovery_requests (emit_recovery e s) = recovery_requests s"
  "recovery_confirmations (emit_recovery e s) = recovery_confirmations s"
  by (simp_all add: emit_recovery_def)

section \<open>Issuing\<close>

text \<open>Both indices hold sixteen numbers; the result of a push on a full one is dropped.\<close>

definition push_bounded :: "nat \<Rightarrow> nat list \<Rightarrow> nat list" where
  "push_bounded i is = (if length is < 16 then is @ [i] else is)"

text \<open>One round of the minting loop; the template carries what all tokens of the call share.\<close>

definition mint_one :: "recovery_nft \<Rightarrow> nat \<times> account \<Rightarrow> recovery_state \<times> nat list \<Rightarrow> recovery_state \<times> nat list" where
  "mint_one template = (\<lambda>(i, holder) (s, minted).
     let n = next_recovery_token_id s in
     (s\<lparr>next_recovery_token_id := sat_add 64 n 1,
        recovery_nfts := (recovery_nfts s)(n \<mapsto>
          template\<lparr>nft_token := n, nft_holder := holder, group_index := (i + 1) mod 256\<rparr>),
        holder_recovery_nfts := (holder_recovery_nfts s)(holder := push_bounded n (holder_recovery_nfts s holder))\<rparr>,
      minted @ [n]))"

definition issue_recovery_nfts ::
  "recovery_config \<Rightarrow> env \<Rightarrow> origin \<Rightarrow> byte list \<Rightarrow> account \<Rightarrow> account list \<Rightarrow> recovery_destination \<Rightarrow> byte list \<Rightarrow> nat
   \<Rightarrow> recovery_state \<Rightarrow> (recovery_state, recovery_failure) result" where
  "issue_recovery_nfts cfg env og grp target holders dest vault thr s =
     ok_or (recovery_issuer cfg og) BadOrigin (\<lambda>_.
     ensure (thr \<ge> 1) (Module InvalidThreshold) (
     ensure (thr \<le> length holders) (Module ThresholdExceedsGroupSize) (
     ensure (length holders \<le> max_group_size cfg) (Module TooManyHolders) (
     ensure (length grp \<le> 64) (Module GroupIdTooLong) (
     ensure (length vault \<le> 128) (Module VaultAddressTooLong) (
     let template = \<lparr>nft_token = 0, nft_group = grp, nft_target = target, nft_holder = 0, nft_destination = dest,
           nft_vault = vault, nft_threshold = thr, total_issued = length holders mod 256, group_index = 0,
           issued_at = block_number env, used_in_recovery = None\<rparr>;
         (s1, minted) = fold (mint_one template) (enumerate 0 holders) (s, []) in
     Ok (emit_recovery (RecoveryNftsMinted grp target dest vault thr (length holders mod 256))
          (s1\<lparr>group_nfts := (group_nfts s1)(grp := fold push_bounded minted (group_nfts s1 grp))\<rparr>))))))))"

section \<open>Recovering\<close>

definition initiate_recovery ::
  "recovery_config \<Rightarrow> env \<Rightarrow> origin \<Rightarrow> nat \<Rightarrow> byte list \<Rightarrow> recovery_state \<Rightarrow> (recovery_state, recovery_failure) result" where
  "initiate_recovery cfg env og n req s =
     and_then (ensure_signed og) (\<lambda>caller.
     ok_or (recovery_nfts s n) (Module TokenNotFound) (\<lambda>nft.
     ensure (nft_holder nft = caller) (Module NotHolder) (
     ensure (length req \<le> 64) (Module GroupIdTooLong) (
     let deadline = sat_add 32 (block_number env) (veto_window_blocks cfg) in
     Ok (emit_recovery (RecoveryInitiated req (nft_group nft) (nft_target nft) caller deadline)
          (s\<lparr>recovery_requests := (recovery_requests s)(req \<mapsto>
               \<lparr>request_group = nft_group nft, target_account = nft_target nft, destination_kind = nft_destination nft,
                vault_address = nft_vault nft, initiated_by = caller, initiated_at = block_number env,
                veto_deadline_block = deadline, recovery_status = PendingVetoWindow, confirmation_count = 1,
                threshold = nft_threshold nft\<rparr>),
             recovery_confirmations := (recovery_confirmations s)(req := (recovery_confirmations s req)(n := True))\<rparr>))))))"

definition veto_recovery :: "origin \<Rightarrow> byte list \<Rightarrow> recovery_state \<Rightarrow> (recovery_state, recovery_failure) result" where
  "veto_recovery og req s =
     and_then (ensure_signed og) (\<lambda>caller.
     ensure (length req \<le> 64) (Module GroupIdTooLong) (
     ok_or (recovery_requests s req) (Module RequestNotFound) (\<lambda>r.
     ensure (target_account r = caller) (Module NotTargetAccount) (
     ensure (recovery_status r \<noteq> Executed) (Module RecoveryAlreadyExecuted) (
     Ok (emit_recovery (RecoveryVetoed req caller)
          (s\<lparr>recovery_requests := (recovery_requests s)(req \<mapsto> r\<lparr>recovery_status := OwnerVetoed\<rparr>)\<rparr>)))))))"

definition confirm_recovery ::
  "env \<Rightarrow> origin \<Rightarrow> nat \<Rightarrow> byte list \<Rightarrow> recovery_state \<Rightarrow> (recovery_state, recovery_failure) result" where
  "confirm_recovery env og n req s =
     and_then (ensure_signed og) (\<lambda>caller.
     ok_or (recovery_nfts s n) (Module TokenNotFound) (\<lambda>nft.
     ensure (nft_holder nft = caller) (Module NotHolder) (
     ensure (length req \<le> 64) (Module GroupIdTooLong) (
     ensure (\<not> recovery_confirmations s req n) (Module AlreadyConfirmed) (
     ok_or (recovery_requests s req) (Module RequestNotFound) (\<lambda>r.
     ensure (recovery_status r \<noteq> OwnerVetoed) (Module RecoveryVetoedByOwner) (
     ensure (recovery_status r \<noteq> Executed) (Module RecoveryAlreadyExecuted) (
     ensure (nft_group nft = request_group r) (Module TokenNotFound) (
     ensure (recovery_status r = PendingVetoWindow \<longrightarrow> veto_deadline_block r < block_number env) (Module RecoveryVetoWindowActive) (
     let r1 = r\<lparr>recovery_status := CollectingSignatures, confirmation_count := sat_add 8 (confirmation_count r) 1\<rparr>;
         s1 = emit_recovery (RecoveryConfirmed req n caller (confirmation_count r1) (threshold r1))
                (s\<lparr>recovery_confirmations := (recovery_confirmations s)(req := (recovery_confirmations s req)(n := True))\<rparr>)
     in if threshold r1 \<le> confirmation_count r1
        then Ok (emit_recovery (RecoveryExecuted req (target_account r1) (destination_kind r1) (vault_address r1))
               (s1\<lparr>recovery_requests := (recovery_requests s1)(req \<mapsto> r1\<lparr>recovery_status := Executed\<rparr>)\<rparr>))
        else Ok (s1\<lparr>recovery_requests := (recovery_requests s1)(req \<mapsto> r1)\<rparr>)))))))))))"

section \<open>The pallet\<close>

datatype recovery_call =
    IssueRecoveryNfts "byte list" account "account list" recovery_destination "byte list" nat
  | InitiateRecovery nat "byte list"
  | VetoRecovery "byte list"
  | ConfirmRecovery nat "byte list"

fun recovery_dispatch ::
  "recovery_config \<Rightarrow> env \<times> origin \<times> recovery_call \<Rightarrow> recovery_state \<Rightarrow> (recovery_state, recovery_failure) result" where
  "recovery_dispatch cfg (env, og, IssueRecoveryNfts g t hs d v n) s = issue_recovery_nfts cfg env og g t hs d v n s"
| "recovery_dispatch cfg (env, og, InitiateRecovery n r) s = initiate_recovery cfg env og n r s"
| "recovery_dispatch cfg (env, og, VetoRecovery r) s = veto_recovery og r s"
| "recovery_dispatch cfg (env, og, ConfirmRecovery n r) s = confirm_recovery env og n r s"

definition recovery_start :: recovery_state where
  "recovery_start = \<lparr>next_recovery_token_id = 0, recovery_nfts = Map.empty, holder_recovery_nfts = (\<lambda>_. []),
     group_nfts = (\<lambda>_. []), recovery_requests = Map.empty, recovery_confirmations = (\<lambda>_ _. False), recovery_events = []\<rparr>"

text \<open>The configuration of the runtime: issuers are \<open>EnsureSigned\<close>, the window is 43,200 blocks.\<close>

definition runtime_recovery :: recovery_config where
  "runtime_recovery = \<lparr>recovery_issuer = (\<lambda>og. case og of Signed a \<Rightarrow> Some a | _ \<Rightarrow> None), veto_window_blocks = 43200,
     max_group_size = 10\<rparr>"

section \<open>What holds\<close>

text \<open>
  Properties of social recovery: an executed recovery has its threshold of tokens of one group and follows the terms of one
  of them; what an overwritten request forgets; and who recovers whose account in the runtime.
\<close>

section \<open>Minting\<close>

text \<open>Minting only adds tokens, above the counter as it was.\<close>

definition minted_above :: "recovery_state \<Rightarrow> recovery_state \<Rightarrow> bool" where
  "minted_above s t \<longleftrightarrow> next_recovery_token_id s \<le> next_recovery_token_id t
     \<and> (next_recovery_token_id t < umax 64 \<longrightarrow> (\<forall>n<next_recovery_token_id s. recovery_nfts t n = recovery_nfts s n)
        \<and> (\<forall>n. recovery_nfts t n \<noteq> recovery_nfts s n \<longrightarrow> n < next_recovery_token_id t))
     \<and> recovery_requests t = recovery_requests s \<and> recovery_confirmations t = recovery_confirmations s"

lemma minted_above_refl [simp]: "minted_above s s"
  by (simp add: minted_above_def)

lemma minted_above_trans: "minted_above s t \<Longrightarrow> minted_above t u \<Longrightarrow> minted_above s u"
  unfolding minted_above_def
  by (metis (no_types, opaque_lifting) le_less_trans less_le_trans order_trans)

lemma mint_one_above:
  assumes "next_recovery_token_id s \<le> umax 64"
  shows "minted_above s (fst (mint_one tm x (s, ns))) \<and> next_recovery_token_id (fst (mint_one tm x (s, ns))) \<le> umax 64"
  using assms by (auto simp: mint_one_def minted_above_def Let_def sat_add_def case_prod_unfold)

lemma mint_all_above:
  "next_recovery_token_id (fst p) \<le> umax 64 \<Longrightarrow>
   minted_above (fst p) (fst (fold (mint_one tm) xs p)) \<and> next_recovery_token_id (fst (fold (mint_one tm) xs p)) \<le> umax 64"
proof (induction xs arbitrary: p)
  case (Cons x xs)
  from mint_one_above[OF Cons.prems, of tm x "snd p"] have one: "minted_above (fst p) (fst (mint_one tm x p))"
    "next_recovery_token_id (fst (mint_one tm x p)) \<le> umax 64" by simp_all
  from Cons.IH[OF one(2)] minted_above_trans[OF one(1)] show ?case by simp
qed simp

lemma issue_nfts_Ok:
  assumes "issue_recovery_nfts cfg env og g ta hs d v thr s = Ok t" "next_recovery_token_id s \<le> umax 64"
  shows "minted_above s t" "next_recovery_token_id t \<le> umax 64"
proof -
  let ?tm = "\<lparr>nft_token = 0, nft_group = g, nft_target = ta, nft_holder = 0, nft_destination = d, nft_vault = v,
    nft_threshold = thr, total_issued = length hs mod 256, group_index = 0, issued_at = block_number env, used_in_recovery = None\<rparr>"
  let ?u = "fst (fold (mint_one ?tm) (enumerate 0 hs) (s, []))"
  from assms(1) have t: "next_recovery_token_id t = next_recovery_token_id ?u" "recovery_nfts t = recovery_nfts ?u"
      "recovery_requests t = recovery_requests ?u" "recovery_confirmations t = recovery_confirmations ?u"
    unfolding issue_recovery_nfts_def by (auto simp: ok_simps Let_def case_prod_unfold)
  from mint_all_above[of "(s, [])" ?tm "enumerate 0 hs"] assms(2) t
  show "minted_above s t" "next_recovery_token_id t \<le> umax 64" by (simp_all add: minted_above_def)
qed

section \<open>Requests\<close>

definition group_confirmed :: "recovery_state \<Rightarrow> byte list \<Rightarrow> byte list \<Rightarrow> nat set" where
  "group_confirmed s req g = {n. recovery_confirmations s req n \<and> (\<exists>nft. recovery_nfts s n = Some nft \<and> nft_group nft = g)}"

text \<open>A request follows a confirmed token, and its count is covered by confirmed tokens of its group.\<close>

definition request_ok :: "recovery_state \<Rightarrow> byte list \<Rightarrow> recovery_request \<Rightarrow> bool" where
  "request_ok s req r \<longleftrightarrow> confirmation_count r \<le> card (group_confirmed s req (request_group r))
     \<and> (recovery_status r = Executed \<longrightarrow> threshold r \<le> confirmation_count r)
     \<and> (\<exists>n nft. recovery_confirmations s req n \<and> recovery_nfts s n = Some nft \<and> nft_group nft = request_group r
          \<and> nft_target nft = target_account r \<and> nft_destination nft = destination_kind r \<and> nft_vault nft = vault_address r
          \<and> nft_threshold nft = threshold r \<and> nft_holder nft = initiated_by r)"

definition recovery_ok :: "recovery_state \<Rightarrow> bool" where
  "recovery_ok s \<longleftrightarrow> next_recovery_token_id s \<le> umax 64
     \<and> (next_recovery_token_id s < umax 64 \<longrightarrow>
         (\<forall>n. recovery_nfts s n \<noteq> None \<longrightarrow> n < next_recovery_token_id s)
       \<and> (\<forall>req n. recovery_confirmations s req n \<longrightarrow> recovery_nfts s n \<noteq> None)
       \<and> (\<forall>req r. recovery_requests s req = Some r \<longrightarrow> request_ok s req r))"

lemma recovery_okD:
  assumes "recovery_ok s" "next_recovery_token_id s < umax 64"
  shows "recovery_nfts s n \<noteq> None \<Longrightarrow> n < next_recovery_token_id s"
    and "recovery_confirmations s req n \<Longrightarrow> recovery_nfts s n \<noteq> None"
    and "recovery_requests s req = Some r \<Longrightarrow> request_ok s req r"
  using assms unfolding recovery_ok_def by blast+

lemma group_confirmed_finite:
  assumes "recovery_ok s" "next_recovery_token_id s < umax 64"
  shows "finite (group_confirmed s req g)"
proof (rule finite_subset)
  show "group_confirmed s req g \<subseteq> {..<next_recovery_token_id s}"
    using recovery_okD(1)[OF assms] unfolding group_confirmed_def by blast
qed simp

lemma minted_keeps:
  assumes "recovery_ok s" "minted_above s t" "next_recovery_token_id t \<le> umax 64"
  shows "recovery_ok t"
proof -
  have "(\<forall>n. recovery_nfts t n \<noteq> None \<longrightarrow> n < next_recovery_token_id t)
      \<and> (\<forall>req n. recovery_confirmations t req n \<longrightarrow> recovery_nfts t n \<noteq> None)
      \<and> (\<forall>req r. recovery_requests t req = Some r \<longrightarrow> request_ok t req r)" if room: "next_recovery_token_id t < umax 64"
  proof -
    have s: "next_recovery_token_id s < umax 64" using assms(2) room by (simp add: minted_above_def)
    note ok = recovery_okD[OF assms(1) s]
    have below: "recovery_nfts t n = recovery_nfts s n" if "n < next_recovery_token_id s" for n
      using assms(2) room that by (simp add: minted_above_def)
    have old: "recovery_nfts t n = recovery_nfts s n" if "recovery_nfts s n \<noteq> None" for n using below ok(1)[OF that] by blast
    have same: "recovery_requests t = recovery_requests s" "recovery_confirmations t = recovery_confirmations s"
      using assms(2) by (simp_all add: minted_above_def)
    have "group_confirmed t req g = group_confirmed s req g" for req g
      using old ok(2) unfolding group_confirmed_def same by fastforce
    then have "request_ok t req r" if "recovery_requests s req = Some r" for req r
      using ok(3)[OF that] old unfolding request_ok_def same by fastforce
    moreover have "n < next_recovery_token_id t" if "recovery_nfts t n \<noteq> None" for n
    proof (cases "recovery_nfts t n = recovery_nfts s n")
      case True
      with that have "n < next_recovery_token_id s" using ok(1)[of n] by simp
      with assms(2) show ?thesis by (simp add: minted_above_def)
    next
      case False
      with assms(2) room show ?thesis by (simp add: minted_above_def)
    qed
    ultimately show ?thesis using same old ok(2) by metis
  qed
  with assms(3) show ?thesis by (simp add: recovery_ok_def)
qed

text \<open>Writing one request, confirming at most one existing token under its identifier.\<close>

lemma request_put:
  assumes "recovery_ok s" "recovery_nfts t = recovery_nfts s" "next_recovery_token_id t = next_recovery_token_id s"
    and "recovery_requests t = (recovery_requests s)(req \<mapsto> r)"
    and "recovery_confirmations t = (recovery_confirmations s)(req := (recovery_confirmations s req)(n := b))"
    and "b \<Longrightarrow> recovery_nfts s n \<noteq> None" "\<not> b \<Longrightarrow> \<not> recovery_confirmations s req n"
    and "next_recovery_token_id s < umax 64 \<Longrightarrow> request_ok t req r"
  shows "recovery_ok t"
proof -
  have "request_ok t q x" if room: "next_recovery_token_id s < umax 64" and x: "recovery_requests t q = Some x" for q x
  proof (cases "q = req")
    case True
    with x assms(4,8) room show ?thesis by simp
  next
    case False
    with x assms(4) have "request_ok s q x" using recovery_okD(3)[OF assms(1) room] by simp
    with False assms(2,5) show ?thesis by (simp add: request_ok_def group_confirmed_def)
  qed
  moreover have "recovery_nfts t m \<noteq> None" if "next_recovery_token_id s < umax 64" "recovery_confirmations t q m" for q m
    using that recovery_okD(2)[OF assms(1) that(1), of q m] assms(2,5-7) by (auto split: if_splits)
  ultimately show ?thesis using assms(1-3) unfolding recovery_ok_def by simp
qed

lemma initiate_Ok:
  assumes "initiate_recovery cfg env og n req s = Ok t"
  obtains nft a where "og = Signed a" "recovery_nfts s n = Some nft" "nft_holder nft = a"
    "recovery_nfts t = recovery_nfts s" "next_recovery_token_id t = next_recovery_token_id s"
    "recovery_requests t = (recovery_requests s)(req \<mapsto>
       \<lparr>request_group = nft_group nft, target_account = nft_target nft, destination_kind = nft_destination nft,
        vault_address = nft_vault nft, initiated_by = a, initiated_at = block_number env,
        veto_deadline_block = sat_add 32 (block_number env) (veto_window_blocks cfg), recovery_status = PendingVetoWindow,
        confirmation_count = 1, threshold = nft_threshold nft\<rparr>)"
    "recovery_confirmations t = (recovery_confirmations s)(req := (recovery_confirmations s req)(n := True))"
  using assms by (auto simp: initiate_recovery_def Let_def ok_simps)

lemma confirm_Ok:
  assumes "confirm_recovery env og n req s = Ok t"
  obtains nft a r r' where "og = Signed a" "recovery_nfts s n = Some nft" "nft_holder nft = a" "recovery_requests s req = Some r"
    "nft_group nft = request_group r" "\<not> recovery_confirmations s req n"
    "recovery_status r = PendingVetoWindow \<and> veto_deadline_block r < block_number env \<or> recovery_status r = CollectingSignatures"
    "r' = r\<lparr>recovery_status := if threshold r \<le> sat_add 8 (confirmation_count r) 1 then Executed else CollectingSignatures,
       confirmation_count := sat_add 8 (confirmation_count r) 1\<rparr>"
    "recovery_nfts t = recovery_nfts s" "next_recovery_token_id t = next_recovery_token_id s"
    "recovery_requests t = (recovery_requests s)(req \<mapsto> r')"
    "recovery_confirmations t = (recovery_confirmations s)(req := (recovery_confirmations s req)(n := True))"
proof -
  from assms obtain nft a r where k: "og = Signed a" "recovery_nfts s n = Some nft" "nft_holder nft = a"
      "recovery_requests s req = Some r" "nft_group nft = request_group r" "\<not> recovery_confirmations s req n"
      "recovery_status r \<noteq> OwnerVetoed" "recovery_status r \<noteq> Executed"
      "recovery_status r = PendingVetoWindow \<longrightarrow> veto_deadline_block r < block_number env"
    unfolding confirm_recovery_def by (auto simp: ok_simps)
  let ?r = "r\<lparr>recovery_status := if threshold r \<le> sat_add 8 (confirmation_count r) 1 then Executed else CollectingSignatures,
       confirmation_count := sat_add 8 (confirmation_count r) 1\<rparr>"
  have "recovery_status r = PendingVetoWindow \<and> veto_deadline_block r < block_number env \<or> recovery_status r = CollectingSignatures"
    using k(7-9) by (cases "recovery_status r") auto
  moreover have "recovery_nfts t = recovery_nfts s \<and> next_recovery_token_id t = next_recovery_token_id s
      \<and> recovery_requests t = (recovery_requests s)(req \<mapsto> ?r)
      \<and> recovery_confirmations t = (recovery_confirmations s)(req := (recovery_confirmations s req)(n := True))"
    using assms k unfolding confirm_recovery_def Let_def
    by (cases "threshold r \<le> sat_add 8 (confirmation_count r) 1") (simp_all add: ensure_Ok, auto)
  ultimately show thesis using that[of a nft r ?r] k by blast
qed

lemma recovery_step:
  assumes "recovery_ok s" "recovery_dispatch cfg (env, og, c) s = Ok t"
  shows "recovery_ok t"
proof (cases c)
  case (IssueRecoveryNfts g ta hs d v thr)
  have "next_recovery_token_id s \<le> umax 64" using assms(1) by (simp add: recovery_ok_def)
  with IssueRecoveryNfts assms(2) issue_nfts_Ok[of cfg env og g ta hs d v thr s t] minted_keeps[OF assms(1)] show ?thesis by simp
next
  case (InitiateRecovery n req)
  with assms(2) have "initiate_recovery cfg env og n req s = Ok t" by simp
  then obtain nft a r where i: "recovery_nfts s n = Some nft" "nft_holder nft = a"
    "recovery_nfts t = recovery_nfts s" "next_recovery_token_id t = next_recovery_token_id s"
    "recovery_requests t = (recovery_requests s)(req \<mapsto> r)"
    "recovery_confirmations t = (recovery_confirmations s)(req := (recovery_confirmations s req)(n := True))"
    "confirmation_count r = 1" "recovery_status r = PendingVetoWindow" "request_group r = nft_group nft"
    "target_account r = nft_target nft" "destination_kind r = nft_destination nft" "vault_address r = nft_vault nft"
    "threshold r = nft_threshold nft" "initiated_by r = a" by (rule initiate_Ok) simp
  show ?thesis
  proof (rule request_put[OF assms(1) i(3-6)])
    assume room: "next_recovery_token_id s < umax 64"
    have "group_confirmed t req (request_group r) \<subseteq> insert n (group_confirmed s req (request_group r))"
      unfolding group_confirmed_def i(3,6) by auto
    then have "finite (group_confirmed t req (request_group r))"
      using finite_subset group_confirmed_finite[OF assms(1) room] by blast
    moreover have "n \<in> group_confirmed t req (request_group r)" using i by (simp add: group_confirmed_def)
    ultimately have "1 \<le> card (group_confirmed t req (request_group r))"
      by (metis One_nat_def Suc_leI card_gt_0_iff empty_iff)
    with i show "request_ok t req r" unfolding request_ok_def by auto
  qed (use i in simp_all)
next
  case (VetoRecovery req)
  with assms(2) obtain r where v: "recovery_requests s req = Some r" "recovery_status r \<noteq> Executed"
    "recovery_nfts t = recovery_nfts s" "next_recovery_token_id t = next_recovery_token_id s"
    "recovery_requests t = (recovery_requests s)(req \<mapsto> r\<lparr>recovery_status := OwnerVetoed\<rparr>)"
    "recovery_confirmations t = recovery_confirmations s"
    by (auto simp: veto_recovery_def ok_simps)
  show ?thesis
  proof (cases "next_recovery_token_id s < umax 64")
    case True
    have "request_ok s req r" by (rule recovery_okD(3)[OF assms(1) True v(1)])
    then have "request_ok t q x" if "recovery_requests t q = Some x" for q x
      using that recovery_okD(3)[OF assms(1) True, of q x] v by (auto simp: request_ok_def group_confirmed_def split: if_splits)
    with assms(1) v show ?thesis by (simp add: recovery_ok_def)
  next
    case False
    with assms(1) v show ?thesis by (simp add: recovery_ok_def)
  qed
next
  case (ConfirmRecovery n req)
  with assms(2) have "confirm_recovery env og n req s = Ok t" by simp
  then obtain nft a r r' where k: "recovery_nfts s n = Some nft" "recovery_requests s req = Some r"
    "nft_group nft = request_group r" "\<not> recovery_confirmations s req n"
    "r' = r\<lparr>recovery_status := if threshold r \<le> sat_add 8 (confirmation_count r) 1 then Executed else CollectingSignatures,
       confirmation_count := sat_add 8 (confirmation_count r) 1\<rparr>"
    "recovery_nfts t = recovery_nfts s" "next_recovery_token_id t = next_recovery_token_id s"
    "recovery_requests t = (recovery_requests s)(req \<mapsto> r')"
    "recovery_confirmations t = (recovery_confirmations s)(req := (recovery_confirmations s req)(n := True))"
    by (rule confirm_Ok)
  show ?thesis
  proof (rule request_put[OF assms(1) k(6-9)])
    assume room: "next_recovery_token_id s < umax 64"
    have ok: "request_ok s req r" by (rule recovery_okD(3)[OF assms(1) room k(2)])
    have new: "group_confirmed t req (request_group r) = insert n (group_confirmed s req (request_group r))"
      using k(1,3) unfolding group_confirmed_def k(6,9) by auto
    have "n \<notin> group_confirmed s req (request_group r)" using k(4) by (simp add: group_confirmed_def)
    then have "card (group_confirmed t req (request_group r)) = Suc (card (group_confirmed s req (request_group r)))"
      using new group_confirmed_finite[OF assms(1) room] by simp
    then have "confirmation_count r' \<le> card (group_confirmed t req (request_group r))"
      using ok sat_add_le[of 8 "confirmation_count r" 1] by (simp add: k(5) request_ok_def)
    with ok k show "request_ok t req r'" unfolding request_ok_def by auto
  qed (use k in simp_all)
qed

interpretation recoveries: pallet_machine "recovery_dispatch cfg" "\<lambda>_ _. False" recovery_ok for cfg :: recovery_config
proof
  fix s t c
  show "recovery_ok s \<Longrightarrow> recovery_dispatch cfg c s = Ok t \<Longrightarrow> recovery_ok t" by (cases c) (auto intro: recovery_step)
qed simp

lemma recovery_start_ok: "recovery_ok recovery_start"
  by (simp add: recovery_ok_def recovery_start_def)

section \<open>Properties\<close>

text \<open>A recovery has its threshold. In every reachable state with token numbers left, an executed request is confirmed by
  at least as many distinct tokens of its group as its threshold asks, and it has target, destination, vault and threshold
  of a token of that group, confirmed and held by whoever initiated it.\<close>

theorem recovery_has_its_threshold:
  assumes "reachable (recovery_dispatch cfg) (\<lambda>_ _. False) recovery_start s" "next_recovery_token_id s < umax 64"
    and "recovery_requests s req = Some r" "recovery_status r = Executed"
  shows "threshold r \<le> card {n. recovery_confirmations s req n
        \<and> (\<exists>nft. recovery_nfts s n = Some nft \<and> nft_group nft = request_group r)}
    \<and> (\<exists>n nft. recovery_confirmations s req n \<and> recovery_nfts s n = Some nft \<and> nft_group nft = request_group r
        \<and> nft_target nft = target_account r \<and> nft_vault nft = vault_address r \<and> nft_destination nft = destination_kind r
        \<and> nft_threshold nft = threshold r \<and> nft_holder nft = initiated_by r)"
proof -
  have "request_ok s req r"
    by (rule recovery_okD(3)[OF recoveries.reachable_inv[OF assms(1) recovery_start_ok] assms(2,3)])
  with assms(4) show ?thesis unfolding request_ok_def group_confirmed_def by auto
qed

text \<open>A call that executes a request is a confirmation by a holder; if the owner had only been notified, the window for the
  veto has passed.\<close>

theorem executed_after_the_window:
  assumes "recovery_dispatch cfg (env, og, c) s = Ok t" "recovery_requests t req = Some r'" "recovery_status r' = Executed"
    and "recovery_requests s req = Some r" "recovery_status r \<noteq> Executed"
  shows "\<exists>n a nft. c = ConfirmRecovery n req \<and> og = Signed a \<and> recovery_nfts s n = Some nft \<and> nft_holder nft = a
    \<and> recovery_status r \<noteq> OwnerVetoed \<and> (recovery_status r = PendingVetoWindow \<longrightarrow> veto_deadline_block r < block_number env)"
proof (cases c)
  case (ConfirmRecovery n q)
  with assms(1) have "confirm_recovery env og n q s = Ok t" by simp
  then show ?thesis
    by (rule confirm_Ok) (use assms ConfirmRecovery in \<open>auto split: if_splits\<close>)
next
  case (InitiateRecovery n q)
  with assms(1) have "initiate_recovery cfg env og n q s = Ok t" by simp
  then show ?thesis by (rule initiate_Ok) (use assms in \<open>auto split: if_splits\<close>)
next
  case (VetoRecovery q)
  with assms show ?thesis by (auto simp: veto_recovery_def ok_simps split: if_splits)
next
  case (IssueRecoveryNfts g ta hs d v thr)
  have "recovery_requests (fst (fold (mint_one tm) xs p)) = recovery_requests (fst p)" for tm xs p
    by (induction xs arbitrary: p) (simp_all add: mint_one_def Let_def case_prod_unfold)
  with IssueRecoveryNfts assms show ?thesis
    by (auto simp: issue_recovery_nfts_def ok_simps Let_def case_prod_unfold)
qed

text \<open>A veto lasts until a holder asks again: whoever holds any token starts over the request under any identifier, vetoed,
  executed or of another group, and what was decided on it is forgotten.\<close>

theorem any_token_overwrites_requests:
  assumes "recovery_nfts s n = Some nft" "nft_holder nft = a" "length req \<le> 64"
  shows "\<exists>t r. recovery_dispatch cfg (env, Signed a, InitiateRecovery n req) s = Ok t \<and> recovery_requests t req = Some r
    \<and> recovery_status r = PendingVetoWindow \<and> confirmation_count r = 1 \<and> target_account r = nft_target nft"
  using assms by (simp add: initiate_recovery_def Let_def)

lemma two_tokens:
  assumes "recovery_issuer cfg og \<noteq> None" "2 \<le> max_group_size cfg" "length vault \<le> 128" "next_recovery_token_id s + 2 < umax 64"
  shows "\<exists>t k1 k2. issue_recovery_nfts cfg env og [] v [a, a] d vault 2 s = Ok t
    \<and> recovery_nfts t (next_recovery_token_id s) = Some k1 \<and> recovery_nfts t (next_recovery_token_id s + 1) = Some k2
    \<and> nft_holder k1 = a \<and> nft_holder k2 = a \<and> nft_group k1 = [] \<and> nft_group k2 = [] \<and> nft_target k1 = v
    \<and> nft_vault k1 = vault \<and> nft_threshold k1 = 2 \<and> recovery_confirmations t = recovery_confirmations s"
  using assms by (auto simp: issue_recovery_nfts_def mint_one_def Let_def sat_add_def)

text \<open>Anyone recovers any account. In the runtime the issuers are all who sign; so any account mints two tokens for itself
  that name another account as target and a vault of its choice, initiates, waits out the window and confirms; unless the
  target vetoes in time, the request is executed and announces that vault.\<close>

theorem anyone_recovers_any_account:
  assumes "length vault \<le> 128" "length req \<le> 64" "next_recovery_token_id s + 2 < umax 64"
    and "\<not> recovery_confirmations s req (next_recovery_token_id s + 1)" "sat_add 32 (block_number e1) 43200 < block_number e2"
    and "t = run (recovery_dispatch runtime_recovery)
           [(e0, Signed a, IssueRecoveryNfts [] victim [a, a] d vault 2), (e1, Signed a, InitiateRecovery (next_recovery_token_id s) req),
            (e2, Signed a, ConfirmRecovery (next_recovery_token_id s + 1) req)] s"
  shows "\<exists>r. recovery_requests t req = Some r \<and> recovery_status r = Executed \<and> target_account r = victim
    \<and> vault_address r = vault \<and> initiated_by r = a"
proof -
  have "recovery_issuer runtime_recovery (Signed a) \<noteq> None" "2 \<le> max_group_size runtime_recovery"
    by (simp_all add: runtime_recovery_def)
  from two_tokens[OF this assms(1,3), of e0 victim a d] obtain u k1 k2 where u:
    "issue_recovery_nfts runtime_recovery e0 (Signed a) [] victim [a, a] d vault 2 s = Ok u"
    "recovery_nfts u (next_recovery_token_id s) = Some k1" "recovery_nfts u (next_recovery_token_id s + 1) = Some k2"
    "nft_holder k1 = a" "nft_holder k2 = a" "nft_group k1 = []" "nft_group k2 = []" "nft_target k1 = victim" "nft_vault k1 = vault"
    "nft_threshold k1 = 2" "recovery_confirmations u = recovery_confirmations s" by blast
  have [simp]: "veto_window_blocks runtime_recovery = 43200" by (simp add: runtime_recovery_def)
  have "sat_add 8 (Suc 0) (Suc 0) = 2" by (simp add: sat_add_def umax_def)
  with u assms(2,4,5) show ?thesis
    unfolding assms(6) by (simp add: execute_def initiate_recovery_def confirm_recovery_def Let_def)
qed

section \<open>Witnesses\<close>

definition block_at :: "nat \<Rightarrow> env" where
  "block_at n = \<lparr>block_number = n, extrinsic_index = None\<rparr>"

definition toy_recovered :: recovery_state where
  "toy_recovered = run (recovery_dispatch runtime_recovery)
     [(block_at 1, Signed 7, IssueRecoveryNfts [] 5 [7, 7] FamilyVault [9] 2), (block_at 2, Signed 7, InitiateRecovery 0 [3]),
      (block_at 50000, Signed 7, ConfirmRecovery 1 [3])] recovery_start"

lemma anyone_recovers_any_account_witness:
  "\<exists>r. recovery_requests toy_recovered [3] = Some r \<and> recovery_status r = Executed \<and> target_account r = 5
    \<and> vault_address r = [9] \<and> initiated_by r = 7"
proof -
  have s: "next_recovery_token_id recovery_start = 0" "\<not> recovery_confirmations recovery_start [3] 1" by (simp_all add: recovery_start_def)
  show ?thesis
    by (rule anyone_recovers_any_account[of "[9]" "[3]" recovery_start "block_at 2" "block_at 50000" _ "block_at 1" 7 5 FamilyVault])
      (use s in \<open>simp_all add: toy_recovered_def block_at_def sat_add_def umax_def\<close>)
qed

lemma toy_recovered_eval:
  "\<exists>r. recovery_requests toy_recovered [3] = Some r \<and> recovery_status r = Executed \<and> threshold r = 2 \<and> request_group r = []"
  "next_recovery_token_id toy_recovered = 2"
  "\<exists>nft. recovery_nfts toy_recovered 0 = Some nft \<and> nft_holder nft = 7 \<and> nft_target nft = 5"
  by (simp_all add: toy_recovered_def execute_def issue_recovery_nfts_def mint_one_def initiate_recovery_def confirm_recovery_def
      Let_def recovery_start_def runtime_recovery_def block_at_def sat_add_def umax_def)

lemma recovery_has_its_threshold_witness:
  "2 \<le> card {n. recovery_confirmations toy_recovered [3] n \<and> (\<exists>nft. recovery_nfts toy_recovered n = Some nft \<and> nft_group nft = [])}"
proof -
  obtain r where r: "recovery_requests toy_recovered [3] = Some r" "recovery_status r = Executed" "threshold r = 2" "request_group r = []"
    using toy_recovered_eval(1) by blast
  have "reachable (recovery_dispatch runtime_recovery) (\<lambda>_ _. False) recovery_start toy_recovered"
    unfolding toy_recovered_def by (rule reachable_run[OF reachable.start])
  from recovery_has_its_threshold[OF this _ r(1,2)] r(3,4) show ?thesis by (simp add: toy_recovered_eval(2) umax_def)
qed

lemma any_token_overwrites_requests_witness:
  "\<exists>t r. recovery_dispatch runtime_recovery (block_at 60000, Signed 7, InitiateRecovery 0 [3]) toy_recovered = Ok t
    \<and> recovery_requests t [3] = Some r \<and> recovery_status r = PendingVetoWindow"
proof -
  obtain nft where "recovery_nfts toy_recovered 0 = Some nft" "nft_holder nft = 7" using toy_recovered_eval(3) by blast
  from any_token_overwrites_requests[OF this, of "[3]" runtime_recovery "block_at 60000"] show ?thesis by auto
qed

end
