(* ===== verification/Access_Nft.thy ===== *)
theory Access_Nft
  imports Pallet_Interfaces
begin

text \<open>
  \<^verbatim>\<open>pallets/access-nft/src/lib.rs\<close>: keys that open the portals of an entity to their holder, plain ones and ones bound to
  the register number of an organization, and the queries other code asks.

  The origin of the issuers is a parameter. Portal masks are bytes, token numbers \<open>u64\<close>.
\<close>

unbundle bit_operations_syntax

section \<open>Data\<close>

definition PORTAL_CLIENT :: byte where "PORTAL_CLIENT = 1"
definition PORTAL_STAFF :: byte where "PORTAL_STAFF = 2"
definition PORTAL_ADMIN :: byte where "PORTAL_ADMIN = 4"
definition PORTAL_ALL :: byte where "PORTAL_ALL = 7"

datatype entity_kind =
    Organization | Guild | GovernmentBody | Committee | UnifiedCenter | Bank | PensionFund | CreditReserve | Foundation | Region
  | CustomEntity

record access_key_info =
  key_token :: nat
  entity_kind :: entity_kind
  entity_id :: "byte list"
  key_holder :: account
  key_role :: nat
  access_level :: nat
  portal_mask :: byte
  key_issued_at :: nat
  revoked :: bool
  key_issued_by :: account
  org_reg_number :: "byte list"
  wallet_bound :: bool
  hr_role :: nat

datatype access_event =
    AccessKeyIssued nat entity_kind "byte list" account nat byte
  | AccessKeyRevoked nat account
  | AccessKeyTransferred nat account account
  | SbtKeyIssued nat account "byte list" nat nat

datatype access_error =
    TokenNotFound
  | NotIssuer
  | AlreadyRevoked
  | TooManyKeysForHolder
  | TooManyHoldersForEntity
  | EntityIdTooLong
  | InvalidAccessLevel
  | InvalidPortalMask
  | OrgRegTooLong
  | SbtOrgMismatch
  | WalletBound

type_synonym access_failure = "access_error dispatch_error"

record access_state =
  next_token_id :: nat
  access_keys :: "nat \<Rightarrow> access_key_info option"
  holder_keys :: "account \<Rightarrow> nat list"
  entity_keys :: "byte list \<Rightarrow> nat list"
  access_events :: "access_event list"

record access_config =
  key_issuer :: "origin \<Rightarrow> account option"
  max_keys_per_holder :: nat
  max_holders_per_entity :: nat

definition emit_access :: "access_event \<Rightarrow> access_state \<Rightarrow> access_state" where
  "emit_access e s = s\<lparr>access_events := access_events s @ [e]\<rparr>"

lemma emit_access_simps [simp]:
  "next_token_id (emit_access e s) = next_token_id s" "access_keys (emit_access e s) = access_keys s"
  "holder_keys (emit_access e s) = holder_keys s" "entity_keys (emit_access e s) = entity_keys s"
  by (simp_all add: emit_access_def)

section \<open>Dispatchables\<close>

text \<open>What both issuing calls do with a new key: number it, store it and enter it in the two indices.\<close>

definition store_key ::
  "access_config \<Rightarrow> access_key_info \<Rightarrow> access_state \<Rightarrow> (access_state, access_failure) result" where
  "store_key cfg k s =
     (let i = next_token_id s in
      ensure (length (holder_keys s (key_holder k)) < max_keys_per_holder cfg) (Module TooManyKeysForHolder) (
      ensure (length (entity_keys s (entity_id k)) < max_holders_per_entity cfg) (Module TooManyHoldersForEntity) (
      Ok (s\<lparr>next_token_id := sat_add 64 i 1, access_keys := (access_keys s)(i \<mapsto> k\<lparr>key_token := i\<rparr>),
            holder_keys := (holder_keys s)(key_holder k := holder_keys s (key_holder k) @ [i]),
            entity_keys := (entity_keys s)(entity_id k := entity_keys s (entity_id k) @ [i])\<rparr>))))"

definition issue_access_key ::
  "access_config \<Rightarrow> env \<Rightarrow> origin \<Rightarrow> entity_kind \<Rightarrow> byte list \<Rightarrow> account \<Rightarrow> nat \<Rightarrow> nat \<Rightarrow> byte \<Rightarrow> access_state
   \<Rightarrow> (access_state, access_failure) result" where
  "issue_access_key cfg env og kind entity holder ro level pm s =
     ok_or (key_issuer cfg og) BadOrigin (\<lambda>issuer.
     ensure (level \<ge> 1 \<and> level \<le> 10) (Module InvalidAccessLevel) (
     ensure (pm \<ge> 1 \<and> pm \<le> 7) (Module InvalidPortalMask) (
     ensure (length entity \<le> 64) (Module EntityIdTooLong) (
     and_then (store_key cfg
         \<lparr>key_token = 0, entity_kind = kind, entity_id = entity, key_holder = holder, key_role = ro, access_level = level,
          portal_mask = pm, key_issued_at = block_number env, revoked = False, key_issued_by = issuer, org_reg_number = [],
          wallet_bound = False, hr_role = 255\<rparr> s) (\<lambda>s1.
     Ok (emit_access (AccessKeyIssued (next_token_id s) kind entity holder ro pm) s1))))))"

definition issue_sbt_key ::
  "access_config \<Rightarrow> env \<Rightarrow> origin \<Rightarrow> entity_kind \<Rightarrow> byte list \<Rightarrow> byte list \<Rightarrow> account \<Rightarrow> nat \<Rightarrow> nat \<Rightarrow> byte \<Rightarrow> nat \<Rightarrow> access_state
   \<Rightarrow> (access_state, access_failure) result" where
  "issue_sbt_key cfg env og kind entity org holder ro level pm hr s =
     ok_or (key_issuer cfg og) BadOrigin (\<lambda>issuer.
     ensure (level \<ge> 1 \<and> level \<le> 10) (Module InvalidAccessLevel) (
     ensure (pm \<ge> 1 \<and> pm \<le> 7) (Module InvalidPortalMask) (
     ensure (length entity \<le> 64) (Module EntityIdTooLong) (
     ensure (length org \<le> 32) (Module OrgRegTooLong) (
     ensure (org \<noteq> []) (Module OrgRegTooLong) (
     and_then (store_key cfg
         \<lparr>key_token = 0, entity_kind = kind, entity_id = entity, key_holder = holder, key_role = ro, access_level = level,
          portal_mask = pm, key_issued_at = block_number env, revoked = False, key_issued_by = issuer, org_reg_number = org,
          wallet_bound = True, hr_role = hr\<rparr> s) (\<lambda>s1.
     Ok (emit_access (SbtKeyIssued (next_token_id s) holder org ro hr) s1))))))))"

definition revoke_access_key ::
  "access_config \<Rightarrow> origin \<Rightarrow> nat \<Rightarrow> access_state \<Rightarrow> (access_state, access_failure) result" where
  "revoke_access_key cfg og i s =
     ok_or (key_issuer cfg og) BadOrigin (\<lambda>revoker.
     ok_or (access_keys s i) (Module TokenNotFound) (\<lambda>k.
     ensure (\<not> revoked k) (Module AlreadyRevoked) (
     ensure (key_issued_by k = revoker) (Module NotIssuer) (
     Ok (emit_access (AccessKeyRevoked i revoker)
          (s\<lparr>access_keys := (access_keys s)(i \<mapsto> k\<lparr>revoked := True\<rparr>)\<rparr>))))))"

section \<open>Queries\<close>

definition check_access :: "access_state \<Rightarrow> account \<Rightarrow> byte list \<Rightarrow> byte \<Rightarrow> bool" where
  "check_access s who entity pm = list_ex (\<lambda>i. case access_keys s i of None \<Rightarrow> False
     | Some k \<Rightarrow> \<not> revoked k \<and> entity_id k = entity \<and> portal_mask k AND pm = pm) (holder_keys s who)"

definition verify_sbt :: "access_state \<Rightarrow> account \<Rightarrow> byte list \<Rightarrow> byte list \<Rightarrow> byte \<Rightarrow> bool" where
  "verify_sbt s who entity org pm = list_ex (\<lambda>i. case access_keys s i of None \<Rightarrow> False
     | Some k \<Rightarrow> \<not> revoked k \<and> wallet_bound k \<and> entity_id k = entity \<and> org_reg_number k = org \<and> portal_mask k AND pm = pm)
     (holder_keys s who)"

text \<open>The role on the first key in force for the organization.\<close>

fun first_hr_role :: "access_state \<Rightarrow> byte list \<Rightarrow> nat list \<Rightarrow> nat option" where
  "first_hr_role s org [] = None"
| "first_hr_role s org (i # is) = (case access_keys s i of None \<Rightarrow> first_hr_role s org is
     | Some k \<Rightarrow> if \<not> revoked k \<and> wallet_bound k \<and> org_reg_number k = org then Some (hr_role k) else first_hr_role s org is)"

definition get_hr_role :: "access_state \<Rightarrow> account \<Rightarrow> byte list \<Rightarrow> nat option" where
  "get_hr_role s who org = first_hr_role s org (holder_keys s who)"

text \<open>The interface for other pallets, \<open>AccessNftInterface\<close>.\<close>

definition has_access :: "access_state \<Rightarrow> account \<Rightarrow> byte list \<Rightarrow> byte \<Rightarrow> bool" where
  "has_access s who entity pm = check_access s who entity pm"

definition is_staff :: "access_state \<Rightarrow> account \<Rightarrow> byte list \<Rightarrow> bool" where
  "is_staff s who entity = check_access s who entity PORTAL_STAFF"

definition is_admin :: "access_state \<Rightarrow> account \<Rightarrow> byte list \<Rightarrow> bool" where
  "is_admin s who entity = check_access s who entity PORTAL_ADMIN"

section \<open>The pallet\<close>

datatype access_call =
    IssueAccessKey entity_kind "byte list" account nat nat byte
  | RevokeAccessKey nat
  | IssueSbtKey entity_kind "byte list" "byte list" account nat nat byte nat

fun access_dispatch ::
  "access_config \<Rightarrow> env \<times> origin \<times> access_call \<Rightarrow> access_state \<Rightarrow> (access_state, access_failure) result" where
  "access_dispatch cfg (env, og, IssueAccessKey kd e h r l m) s = issue_access_key cfg env og kd e h r l m s"
| "access_dispatch cfg (env, og, RevokeAccessKey i) s = revoke_access_key cfg og i s"
| "access_dispatch cfg (env, og, IssueSbtKey kd e g h r l m hr) s = issue_sbt_key cfg env og kd e g h r l m hr s"

definition access_start :: access_state where
  "access_start = \<lparr>next_token_id = 0, access_keys = Map.empty, holder_keys = (\<lambda>_. []), entity_keys = (\<lambda>_. []), access_events = []\<rparr>"

text \<open>The configuration of the runtime: issuers are \<open>EnsureSigned\<close>.\<close>

definition runtime_access :: access_config where
  "runtime_access = \<lparr>key_issuer = (\<lambda>og. case og of Signed a \<Rightarrow> Some a | _ \<Rightarrow> None), max_keys_per_holder = 100,
     max_holders_per_entity = 10000\<rparr>"

section \<open>What holds\<close>

text \<open>
  Properties of access keys: the queries answer what the keys in force say, keys stay with their holders until revoked for
  good, and who issues keys in the runtime.
\<close>

section \<open>Invariant\<close>

definition indexed :: "access_state \<Rightarrow> bool" where
  "indexed s \<longleftrightarrow> (\<forall>i. access_keys s i \<noteq> None \<longrightarrow> i < next_token_id s)
     \<and> (\<forall>a i. i \<in> set (holder_keys s a) \<longleftrightarrow> map_option key_holder (access_keys s i) = Some a)
     \<and> (\<forall>e i. i \<in> set (entity_keys s e) \<longleftrightarrow> map_option entity_id (access_keys s i) = Some e)"

definition keys_ok :: "access_state \<Rightarrow> bool" where
  "keys_ok s \<longleftrightarrow> next_token_id s \<le> umax 64 \<and> (next_token_id s < umax 64 \<longrightarrow> indexed s)"

lemma indexedE:
  assumes "indexed s"
  shows "access_keys s i \<noteq> None \<Longrightarrow> i < next_token_id s"
    and "i \<in> set (holder_keys s a) \<longleftrightarrow> map_option key_holder (access_keys s i) = Some a"
    and "i \<in> set (entity_keys s e) \<longleftrightarrow> map_option entity_id (access_keys s i) = Some e"
  using assms unfolding indexed_def by blast+

text \<open>A call adds one key under the next number, or revokes one.\<close>

definition adds :: "access_state \<Rightarrow> access_state \<Rightarrow> access_key_info \<Rightarrow> bool" where
  "adds s t k \<longleftrightarrow> next_token_id t = sat_add 64 (next_token_id s) 1 \<and> access_keys t = (access_keys s)(next_token_id s \<mapsto> k)
     \<and> holder_keys t = (holder_keys s)(key_holder k := holder_keys s (key_holder k) @ [next_token_id s])
     \<and> entity_keys t = (entity_keys s)(entity_id k := entity_keys s (entity_id k) @ [next_token_id s])"

definition revokes :: "access_state \<Rightarrow> access_state \<Rightarrow> nat \<Rightarrow> access_key_info \<Rightarrow> bool" where
  "revokes s t i k \<longleftrightarrow> access_keys s i = Some k \<and> \<not> revoked k \<and> access_keys t = (access_keys s)(i \<mapsto> k\<lparr>revoked := True\<rparr>)
     \<and> next_token_id t = next_token_id s \<and> holder_keys t = holder_keys s \<and> entity_keys t = entity_keys s"

lemma store_key_Ok: "store_key cfg k s = Ok t \<Longrightarrow> adds s t (k\<lparr>key_token := next_token_id s\<rparr>)"
  by (auto simp: store_key_def Let_def ok_simps adds_def)

lemma adds_emit [simp]: "adds s (emit_access e t) k = adds s t k"
  by (simp add: adds_def)

lemma dispatch_adds_or_revokes:
  assumes "access_dispatch cfg (env, og, c) s = Ok t"
  shows "(\<exists>k. adds s t k \<and> \<not> revoked k \<and> Some (key_issued_by k) = key_issuer cfg og)
    \<or> (\<exists>i k. c = RevokeAccessKey i \<and> revokes s t i k \<and> Some (key_issued_by k) = key_issuer cfg og)"
proof (cases c)
  case (RevokeAccessKey i)
  with assms obtain k a where "access_keys s i = Some k" "\<not> revoked k" "key_issuer cfg og = Some a" "key_issued_by k = a"
    "access_keys t = (access_keys s)(i \<mapsto> k\<lparr>revoked := True\<rparr>)" "next_token_id t = next_token_id s"
    "holder_keys t = holder_keys s" "entity_keys t = entity_keys s"
    by (auto simp: revoke_access_key_def ok_simps)
  then show ?thesis using RevokeAccessKey by (auto simp: revokes_def)
next
  case (IssueAccessKey kd e h r l m)
  with assms obtain k u a where st: "store_key cfg k s = Ok u" and t: "t = emit_access (AccessKeyIssued (next_token_id s) kd e h r m) u"
    and k: "\<not> revoked k" "key_issuer cfg og = Some a" "key_issued_by k = a"
    by (auto simp: issue_access_key_def ok_simps)
  then show ?thesis using store_key_Ok[OF st] unfolding t by (intro disjI1 exI[of _ "k\<lparr>key_token := next_token_id s\<rparr>"]) simp
next
  case (IssueSbtKey kd e g h r l m hr)
  with assms obtain k u a where st: "store_key cfg k s = Ok u" and t: "t = emit_access (SbtKeyIssued (next_token_id s) h g r hr) u"
    and k: "\<not> revoked k" "key_issuer cfg og = Some a" "key_issued_by k = a"
    by (auto simp: issue_sbt_key_def ok_simps)
  then show ?thesis using store_key_Ok[OF st] unfolding t by (intro disjI1 exI[of _ "k\<lparr>key_token := next_token_id s\<rparr>"]) simp
qed

lemma adds_ok:
  assumes "keys_ok s" "adds s t k"
  shows "keys_ok t"
proof -
  have "indexed t" if room: "next_token_id t < umax 64"
  proof -
    have n: "next_token_id t = next_token_id s + 1" "next_token_id s < umax 64"
      using assms(2) room by (auto simp: adds_def sat_add_def split: if_splits)
    then have old: "indexed s" using assms(1) by (simp add: keys_ok_def)
    have "access_keys s (next_token_id s) = None" using indexedE(1)[OF old, of "next_token_id s"] by blast
    moreover from this have "next_token_id s \<notin> set (holder_keys s a)" "next_token_id s \<notin> set (entity_keys s e)" for a e
      using indexedE(2,3)[OF old] by simp_all
    moreover have t: "access_keys t = (access_keys s)(next_token_id s \<mapsto> k)"
      "holder_keys t = (holder_keys s)(key_holder k := holder_keys s (key_holder k) @ [next_token_id s])"
      "entity_keys t = (entity_keys s)(entity_id k := entity_keys s (entity_id k) @ [next_token_id s])"
      using assms(2) unfolding adds_def by blast+
    moreover have "i < next_token_id t" if "access_keys t i \<noteq> None" for i
      using that indexedE(1)[OF old, of i] n(1) by (cases "i = next_token_id s") (auto simp: t)
    ultimately show ?thesis unfolding indexed_def using indexedE(2,3)[OF old] by auto
  qed
  with assms show ?thesis by (simp add: keys_ok_def adds_def sat_add_def)
qed

lemma revokes_ok:
  assumes "keys_ok s" "revokes s t i k"
  shows "keys_ok t"
proof -
  have "indexed t" if "indexed s" using assms(2) indexedE[OF that] unfolding revokes_def indexed_def by auto
  with assms show ?thesis by (auto simp: keys_ok_def revokes_def)
qed

lemma keys_step: "keys_ok s \<Longrightarrow> access_dispatch cfg c s = Ok t \<Longrightarrow> keys_ok t"
  using dispatch_adds_or_revokes adds_ok revokes_ok by (cases c) blast

interpretation key_ring: pallet_machine "access_dispatch cfg" "\<lambda>_ _. False" keys_ok for cfg :: access_config
  by unfold_locales (auto intro: keys_step)

lemma access_start_ok: "keys_ok access_start"
  by (simp add: keys_ok_def indexed_def access_start_def)

section \<open>The life of a key\<close>

text \<open>A step of the pallet that leaves token numbers.\<close>

definition key_step :: "access_config \<Rightarrow> access_state \<Rightarrow> access_state \<Rightarrow> bool" where
  "key_step cfg s t \<longleftrightarrow> (\<exists>c. access_dispatch cfg c s = Ok t) \<and> indexed s \<and> next_token_id s < umax 64"

inductive key_edge :: "access_key_info \<Rightarrow> access_key_info \<Rightarrow> bool" where
  revoking: "\<not> revoked k \<Longrightarrow> key_edge k (k\<lparr>revoked := True\<rparr>)"

inductive_simps key_edge_simps: "key_edge k q"

lemma key_step_edge:
  assumes "key_step cfg s t" "access_keys s i = Some k" "access_keys t i \<noteq> Some k"
  shows "\<exists>q. access_keys t i = Some q \<and> key_edge k q"
proof -
  obtain env og c where d: "access_dispatch cfg (env, og, c) s = Ok t" using assms(1) unfolding key_step_def by (metis prod_cases3)
  have "i \<noteq> next_token_id s" using assms(1,2) indexedE(1)[of s i] by (auto simp: key_step_def)
  with dispatch_adds_or_revokes[OF d] assms(2,3) show ?thesis
    by (auto simp: adds_def revokes_def key_edge_simps split: if_splits)
qed

interpretation keyholders: lifecycle access_keys key_edge "key_step cfg" for cfg :: access_config
  by unfold_locales (rule key_step_edge)

lemma edges_same_key:
  assumes "key_edge\<^sup>*\<^sup>* k q"
  shows "q = k \<or> (\<not> revoked k \<and> q = k\<lparr>revoked := True\<rparr>)"
  using assms by (induction rule: rtranclp_induct) (auto simp: key_edge_simps)

section \<open>Properties\<close>

text \<open>The queries answer what the keys say. In every reachable state with token numbers left, the scan over the keys of an
  account finds access exactly if some key of the whole registry is held by the account, is not revoked, belongs to the
  entity and has all portals asked for; the check of a bound key likewise, with the organization.\<close>

theorem access_is_by_key:
  assumes "reachable (access_dispatch cfg) (\<lambda>_ _. False) access_start s" "next_token_id s < umax 64"
  shows "(check_access s a e m \<longleftrightarrow> (\<exists>i k. access_keys s i = Some k \<and> key_holder k = a \<and> \<not> revoked k \<and> entity_id k = e
      \<and> portal_mask k AND m = m))
    \<and> (verify_sbt s a e g m \<longleftrightarrow> (\<exists>i k. access_keys s i = Some k \<and> key_holder k = a \<and> \<not> revoked k \<and> entity_id k = e
      \<and> wallet_bound k \<and> org_reg_number k = g \<and> portal_mask k AND m = m))
    \<and> (get_hr_role s a g \<noteq> None \<longleftrightarrow> (\<exists>i k. access_keys s i = Some k \<and> key_holder k = a \<and> \<not> revoked k \<and> wallet_bound k
      \<and> org_reg_number k = g))"
proof -
  have "indexed s" using key_ring.reachable_inv[OF assms(1) access_start_ok] assms(2) by (simp add: keys_ok_def)
  note held = indexedE(2)[OF this, of _ a]
  have scan: "(\<exists>i\<in>set (holder_keys s a). \<exists>k. access_keys s i = Some k \<and> P k)
      \<longleftrightarrow> (\<exists>i k. access_keys s i = Some k \<and> key_holder k = a \<and> P k)" for P
    unfolding Bex_def held by (metis map_option_eq_Some option.inject)
  have found: "(case access_keys s i of None \<Rightarrow> False | Some k \<Rightarrow> P k) \<longleftrightarrow> (\<exists>k. access_keys s i = Some k \<and> P k)" for i P
    by (simp split: option.split)
  have role: "first_hr_role s g is \<noteq> None
      \<longleftrightarrow> (\<exists>i\<in>set is. \<exists>k. access_keys s i = Some k \<and> \<not> revoked k \<and> wallet_bound k \<and> org_reg_number k = g)"
    for "is" by (induction "is") (auto split: option.splits)
  show ?thesis
    unfolding check_access_def verify_sbt_def get_hr_role_def list_ex_iff found role scan by blast
qed

text \<open>A key is bound to its holder. As long as token numbers last, a key keeps holder, entity, portals and issuer whatever
  follows, and a revoked one stays revoked; and only the account that issued it revokes it.\<close>

theorem keys_are_soulbound:
  assumes "(key_step cfg)\<^sup>*\<^sup>* s t" "access_keys s i = Some k"
  shows "(access_keys t i = Some k \<or> (\<not> revoked k \<and> access_keys t i = Some (k\<lparr>revoked := True\<rparr>)))
    \<and> (revoke_access_key cfg og i t = Ok u \<longrightarrow> key_issuer cfg og = Some (key_issued_by k) \<and> \<not> revoked k)"
proof -
  from keyholders.steps_edges[OF assms] obtain q where q: "access_keys t i = Some q" "q = k \<or> (\<not> revoked k \<and> q = k\<lparr>revoked := True\<rparr>)"
    using edges_same_key by blast
  then show ?thesis by (auto simp: revoke_access_key_def ok_simps)
qed

text \<open>Anyone holds any key. In the runtime the issuers are all who sign; so any account with room in its list makes itself
  client, staff and administrator of any entity in one call, and nobody but itself can revoke that key.\<close>

theorem anyone_holds_any_key:
  assumes "length e \<le> 64" "length (holder_keys s a) < 100" "length (entity_keys s e) < 10000"
    and "reachable (access_dispatch runtime_access) (\<lambda>_ _. False) access_start s" "next_token_id s + 1 < umax 64"
  shows "\<exists>t. access_dispatch runtime_access (env, Signed a, IssueAccessKey kd e a ro 10 PORTAL_ALL) s = Ok t
    \<and> is_admin t a e \<and> is_staff t a e \<and> has_access t a e PORTAL_CLIENT
    \<and> (\<forall>og u. revoke_access_key runtime_access og (next_token_id s) t = Ok u \<longrightarrow> og = Signed a)"
proof -
  obtain t k where t: "access_dispatch runtime_access (env, Signed a, IssueAccessKey kd e a ro 10 PORTAL_ALL) s = Ok t"
    and k: "access_keys t (next_token_id s) = Some k" "key_holder k = a" "\<not> revoked k" "entity_id k = e" "portal_mask k = PORTAL_ALL"
      "key_issued_by k = a" and n: "next_token_id t = sat_add 64 (next_token_id s) 1"
    using assms(1-3) by (simp add: issue_access_key_def store_key_def runtime_access_def Let_def PORTAL_ALL_def)
  have r: "reachable (access_dispatch runtime_access) (\<lambda>_ _. False) access_start t" "next_token_id t < umax 64"
    using reachable.call[OF assms(4) t] n assms(5) by (simp_all add: sat_add_def)
  have "PORTAL_ALL AND PORTAL_ADMIN = PORTAL_ADMIN" "PORTAL_ALL AND PORTAL_STAFF = PORTAL_STAFF" "PORTAL_ALL AND PORTAL_CLIENT = PORTAL_CLIENT"
    by (simp_all add: PORTAL_ALL_def PORTAL_ADMIN_def PORTAL_STAFF_def PORTAL_CLIENT_def)
  with k have "is_admin t a e" "is_staff t a e" "has_access t a e PORTAL_CLIENT"
    unfolding is_admin_def is_staff_def has_access_def access_is_by_key[OF r, THEN conjunct1]
    by (intro exI[of _ "next_token_id s"] exI[of _ k]; simp)+
  moreover have "og = Signed a" if "revoke_access_key runtime_access og (next_token_id s) t = Ok u" for og u
    using that k by (cases og) (auto simp: revoke_access_key_def runtime_access_def ok_simps)
  ultimately show ?thesis using t by blast
qed

section \<open>Witnesses\<close>

definition key_block :: env where
  "key_block = \<lparr>block_number = 4, extrinsic_index = None\<rparr>"

definition toy_ring :: access_state where
  "toy_ring = run (access_dispatch runtime_access)
     [(key_block, Signed 7, IssueSbtKey Bank [66] [1] 8 4 3 6 1), (key_block, Signed 7, IssueAccessKey Region [70] 8 0 1 1)] access_start"

lemma toy_ring_reached: "reachable (access_dispatch runtime_access) (\<lambda>_ _. False) access_start toy_ring"
  unfolding toy_ring_def by (rule reachable_run[OF reachable.start])

lemma toy_ring_eval: "next_token_id toy_ring = 2" "holder_keys toy_ring 7 = []" "entity_keys toy_ring [66] = [0]"
  "\<exists>k. access_keys toy_ring 0 = Some k \<and> key_holder k = 8 \<and> \<not> revoked k \<and> entity_id k = [66] \<and> portal_mask k = 6"
  by (simp_all add: toy_ring_def execute_def issue_sbt_key_def issue_access_key_def store_key_def runtime_access_def Let_def
      access_start_def sat_add_def umax_def)

lemma access_is_by_key_witness: "check_access toy_ring 8 [66] 4 \<and> \<not> check_access toy_ring 7 [66] 4"
proof -
  have room: "next_token_id toy_ring < umax 64" by (simp add: toy_ring_eval umax_def)
  note key = access_is_by_key[OF toy_ring_reached room, THEN conjunct1]
  have "check_access toy_ring 8 [66] 4" unfolding key using toy_ring_eval(4) by fastforce
  moreover have "\<not> check_access toy_ring 7 [66] 4" by (simp add: check_access_def toy_ring_eval)
  ultimately show ?thesis ..
qed

lemma keys_are_soulbound_witness: "\<exists>k. access_keys toy_ring 0 = Some k \<and> (\<forall>og u. revoke_access_key runtime_access og 0 toy_ring = Ok u
    \<longrightarrow> key_issuer runtime_access og = Some (key_issued_by k))"
proof -
  obtain k where k: "access_keys toy_ring 0 = Some k" using toy_ring_eval(4) by blast
  from keys_are_soulbound[OF rtranclp.rtrancl_refl this, of runtime_access] k show ?thesis by blast
qed

lemma anyone_holds_any_key_witness:
  "\<exists>t. access_dispatch runtime_access (key_block, Signed 7, IssueAccessKey Bank [66] 7 1 10 PORTAL_ALL) toy_ring = Ok t \<and> is_admin t 7 [66]"
proof -
  have "next_token_id toy_ring + 1 < umax 64" by (simp add: toy_ring_eval umax_def)
  from anyone_holds_any_key[OF _ _ _ toy_ring_reached this, of "[66]" 7 key_block Bank 1] show ?thesis by (auto simp: toy_ring_eval)
qed

end
