(* ===== verification/Spec2Isabelle.thy ===== *)
theory Spec2Isabelle
  imports Central_Bank_Claims Central_Bank_Genesis_Claims Migration_Center_Claims
    Bank_Of_Siberia_Safety_Claims Altan_Tax Annual_Profit_Tax Organization_Claims Organization_Scan_Claims Runtime_Authority
    Identity_Claims Runtime_Identity Inheritance_Claims Black_Book_Claims Khural_Claims Bank_Operator_Claims Guild_Claims Licensing_Claims
    Citizen_Voice_Claims Chancery_Claims Foreign_Affairs_Claims Land_Registry Decimal_Dao Altan_Vault
    Achievement_Nft Recovery_Nft Access_Nft
begin

text \<open>
  A verification of the Altan Network runtime.

  \<^bold>\<open>The program.\<close> The repository is a Substrate chain: a runtime (\<^verbatim>\<open>runtime/\<close>) composed of 32 pallets
  (\<^verbatim>\<open>pallets/\<close>), each a storage and a set of dispatchables, and a node (\<^verbatim>\<open>node/\<close>). Modelled are, in five groups:

  \<^item> money and credit: \<^verbatim>\<open>central-bank\<close> mints and burns, runs the credit pool with its dynamic key rate and epochs, and
    pays the genesis distribution; \<^verbatim>\<open>bank-of-siberia\<close> keeps accounts, loans, escrows, deposits and collateral, opens
    accounts for applicants approved in \<^verbatim>\<open>migration-center\<close> and borrows from the central bank's pool;
    \<^verbatim>\<open>bank-operator\<close> lends against collateral and keeps credit scores; \<^verbatim>\<open>altan-tax\<close>
    and \<^verbatim>\<open>annual-profit-tax\<close> levy the fee on transfers and the tax on profits;
  \<^item> organizations: \<^verbatim>\<open>organization\<close> registers them, scans their tax returns and punishes defaulters;
    \<^verbatim>\<open>shielded-vaults\<close> holds their commitments and nullifiers; \<^verbatim>\<open>org-roles\<close> binds role keys to accounts, and the
    origins of the runtime (\<^verbatim>\<open>runtime/src/origins.rs\<close>) rest on it; \<^verbatim>\<open>guilds\<close> keeps guilds, their quests and unions
    and the academy;
  \<^item> citizens and power: \<^verbatim>\<open>inomad-identity\<close> is the civil registry, with documents, births, marriages, deaths and the
    decimal hierarchy of units up to the Khural; \<^verbatim>\<open>inomad-elections\<close> elects leaders, councils and the head of the banking
    branch; \<^verbatim>\<open>licensing\<close> puts licences to the vote of delegates; \<^verbatim>\<open>khural-governance\<close> votes on treasuries and bills; \<^verbatim>\<open>inheritance\<close> executes wills on a death;
    \<^verbatim>\<open>land-registry\<close> keeps the parcels of land, \<^verbatim>\<open>decimal-dao\<close> the councils that spend the treasuries of organizations;
  \<^item> justice: \<^verbatim>\<open>constitution\<close> runs the habeas corpus timers, \<^verbatim>\<open>judicial-courts\<close> hears cases and keeps the registry of
    shame, \<^verbatim>\<open>black-book\<close> keeps warrants and bounties, \<^verbatim>\<open>citizen-voice\<close> takes complaints and runs sting operations,
    \<^verbatim>\<open>chancery\<close> keeps agreements that guild masters validate, \<^verbatim>\<open>foreign-affairs\<close> keeps foreign states and their channels;
  \<^item> accounts: \<^verbatim>\<open>altan-vault\<close> holds savings, \<^verbatim>\<open>achievement-nft\<close> badges and rewards, \<^verbatim>\<open>recovery-nft\<close> the tokens that
    recover an account, \<^verbatim>\<open>access-nft\<close> the keys to portals.

  The pallets meet in \<^verbatim>\<open>runtime/src/configs/mod.rs\<close>, whose bridges are modelled where two modelled pallets meet: the
  state of the caller then contains the state of the callee, and the bridge functions are definitions over it.

  \<^bold>\<open>How the code appears.\<close> A pallet's storage is a record with one field per storage item
  (\<open>cb_state\<close>, \<open>bos_state\<close>, \<open>identity\<close> and so on), its \<^verbatim>\<open>Config\<close> a record of constants and
  parameters. A dispatchable is a function from the old state to a \<open>result\<close>, with guards in the order of the
  source; \<open>Err\<close> rolls the state back, as FRAME's transactional storage does (\<open>execute\<close>). One datatype per pallet lists its
  calls and one function dispatches them, so that a reachable state is the end of any sequence of calls and
  block hooks, interleaved with changes other pallets make to the shared ledger. Balances, blocks and identifiers are
  naturals, and each arithmetic operation names the width at which Rust checks or saturates it (\<open>checked_add 128\<close>,
  \<open>sat_sub\<close> and so on); SCALE bytes and hashes are byte lists. Events are
  appended to a list in the state where the pallet deposits them.
  All operations are structurally recursive or plain definitions: no fuel is used anywhere.

  \<^bold>\<open>Shared theories.\<close>
  \<^item> \<open>Runtime_Base\<close>: results, origins, machine arithmetic, sums over storage maps, the collections
    \<open>ok_simps\<close> and \<open>err_simps\<close>.
  \<^item> \<open>Pallet_Interfaces\<close>: the contracts \<open>pallet_machine\<close> (invariants of reachable states), \<open>id_registry\<close>
    (counters never reuse an identifier), \<open>lifecycle\<close> (status machines) and \<open>credit_facility\<close> (the
    \<^verbatim>\<open>CreditProvider\<close> trait), each interpreted on the pallets' own definitions. \<open>Ballots\<close>: the contract of a ballot
    whose votes are stored, met by the four ballots of the elections. \<open>Referendum\<close>: the contract of polls that store
    only who voted, met by both polls of the Khural and the one on licences.
  \<^item> \<open>Currency\<close>, \<open>Reservable\<close>: the \<^verbatim>\<open>Currency\<close> traits as parameters with their documented laws, and a book ledger for
    the witnesses. \<open>Ledger_View\<close>: the ledger inside the state of another pallet obeys the same laws.
  \<^item> \<open>Civil_Calendar\<close>: the calendar in days and seconds, the specification for the filing periods.

  \<^bold>\<open>The pallets.\<close> For each pallet one or more theories hold the model, the effect of each call and the invariants, and a theory
  with \<open>Claims\<close> in its name, where there is one, holds the properties with their witnesses.
  \<^item> \<open>Central_Bank\<close>, \<open>_Rate\<close>, \<open>_Invariants\<close>, \<open>_Props\<close>, \<open>_Genesis\<close>: conservation of credit, the bound on the issuance
    in terms of what the bank emits and what a meter records of everybody else's minting,
    outcome of a request, round trip of drawing and repaying, monotone and bounded key rate, uniqueness of the distribution.
    \<open>Runtime_Authority\<close>: who may emit, with the origins of the runtime.
  \<^item> \<open>Migration_Center\<close>, \<open>_Props\<close>: every verdict carries a verified signature; verdicts are final.
  \<^item> \<open>Bank_Of_Siberia\<close>, \<open>_Loans\<close>, \<open>_Books\<close>, \<open>_System\<close>, \<open>_Machine\<close>: the three pallets as one machine; the loan books
    agree, escrows settle once and pay, deposits pay once, nonces are single use, wholesale credit is conserved.
  \<^item> \<open>Altan_Tax\<close>, \<open>Annual_Profit_Tax\<close>: exact effect of a transfer with fee, tax periods against the calendar.
  \<^item> \<open>Organization\<close>, \<open>_Props\<close>, \<open>Shielded_Vaults\<close>, \<open>Org_Roles\<close>, \<open>Origins\<close>: founders and penalties, the life cycle of an
    organization, the round-robin scan catches every defaulter unless registrations outrun it. The nullifiers of the
    vaults are spent once over the calls and the bridge of the tax payments.
  \<^item> \<open>Elections\<close>, \<open>_Props\<close>: tallies are the votes, councils were voted for.
  \<^item> \<open>Identity\<close>, \<open>_Units\<close>, \<open>_Steps\<close>, \<open>_Frames\<close>, \<open>_Pyramid\<close>, \<open>_Hierarchy\<close>, \<open>_Laws\<close>, \<open>_Machine\<close>: the civil registry
    is consistent, documents are unique, a Khural stands on a whole pyramid of units, only the bridge of other pallets revives the dead.
    \<open>Runtime_Identity\<close>: organizations over the identity pallet. \<open>Inheritance\<close>: a will burns exactly the debt and pays exactly its shares.
  \<^item> \<open>Constitution\<close>, \<open>Judicial_Courts\<close>, \<open>Runtime_Justice\<close>: the registry of shame is exactly the
    convictions that call for it, an accused is free again when the clock of habeas corpus runs out and nothing else
    intervenes, a case is judged once.
    \<open>Black_Book\<close>: where the bounty of a fugitive lies, and how immunity lapses.
  \<^item> \<open>Khural_Governance\<close>: a treasury pays for what its nation voted for, once; every proposal is decided.
  \<^item> \<open>Licensing\<close>: the pallet runs an abstract register of licences; licences stand on votes.
  \<^item> \<open>Bank_Operator\<close>: credits are secured by their own collateral, a default is final, scores keep
    their range and price the credits.
  \<^item> \<open>Guilds\<close>, \<open>Guild_Unions\<close>, \<open>Guild_Laws\<close>: quests run their course, grandmasters have a majority, who joins the academy.
  \<^item> \<open>Citizen_Voice\<close>: tickets close once, a trap springs once and pays its reward. \<open>Chancery\<close>: an agreement
    binds only with all signatures and validations; the bridge to the guilds. \<open>Foreign_Affairs\<close>: the registry is complete,
    a new representative starts alone.
  \<^item> \<open>Land_Registry\<close>: beside the identity pallet, land stays with citizens who are no foreigners; a condemned owner still
    sells. \<open>Decimal_Dao\<close>: a treasury pays once what a strict majority of its council carried; ballots outlive proposals.
    \<open>Altan_Vault\<close>: only the owner takes money out of a vault.
  \<^item> \<open>Achievement_Nft\<close>: rewards are backed by what the treasury set aside. \<open>Recovery_Nft\<close>: an executed recovery has its
    threshold. \<open>Access_Nft\<close>: the queries answer what the keys say. For each, what the issuers of the runtime, which are all
    accounts that sign, can do.
  Where the code falls short of its comments or intentions (replayable signatures, a shared lock, unreserved
  escrow funds, hierarchies of one citizen, a bill anyone can kill), a theorem states what it does.

  \<^bold>\<open>Bounds.\<close> Balances are \<open>u128\<close>, rates and percentages \<open>u32\<close> and \<open>u8\<close>, epochs and identifiers \<open>u64\<close>. Where a property needs
  a counter not to have reached the end of its range, or a parameter to fit its width, the statement says so.

  \<^bold>\<open>Parameters.\<close> The currency and the proxy pallet, hashing, signature verification, the account codec and
  \<^verbatim>\<open>Perbill\<close> arithmetic are third-party code: arguments of the definitions with documented behaviour as named
  hypotheses, each discharged by a concrete instance in a witness. Traits a pallet leaves to its runtime are fields of its
  configuration; a property states what it needs of them or holds for all of them.

  \<^bold>\<open>Not modelled.\<close> Weights, benchmarks, mocks, chain specifications, runtime APIs and the node are configuration and I/O.
  Of the pallets, the mixer, forums, chronicles and the offline payments are not modelled.
\<close>

end
